(* ===== verification/Prelude.thy ===== *)
theory Prelude
  imports Complex_Main "HOL-Library.Product_Lexorder" "HOL-Library.List_Lexorder"
    "HOL-Library.Char_ord"
begin

text \<open>
  Shared vocabulary of the development: decimal money arithmetic as Python's
  \<open>decimal\<close> module does it, HTTP errors as values, the result combinators the handlers
  are written with, and the generic list lemmas every component uses.

  Decimals are rationals. Python's default context keeps 28 significant digits; sums,
  differences and products of the amounts this code handles (\<open>Numeric(15,2)\<close> and
  \<open>Numeric(15,4)\<close> columns, percentages) stay inside it whenever their product has at
  most 28 digits, so they are the exact operations of \<open>rat\<close>. Division does not stay
  inside it, so it is modelled with the context rounding written out (\<open>dec_div\<close>).
\<close>

named_theorems money_simps \<open>facts about rounding that the money proofs rewrite with\<close>
named_theorems handler_simps \<open>inversion rules for handlers that return a result\<close>
named_theorems query_simps \<open>facts about table queries and row updates\<close>

section \<open>Decimals\<close>

type_synonym decimal = rat

subsection \<open>Rounding to an integer\<close>

definition round_half_up :: "rat \<Rightarrow> int" where
  \<comment> \<open>ROUND_HALF_UP: to nearest, ties away from zero\<close>
  "round_half_up x = (if x < 0 then - \<lfloor>- x + 1 / 2\<rfloor> else \<lfloor>x + 1 / 2\<rfloor>)"

definition round_half_even :: "rat \<Rightarrow> int" where
  \<comment> \<open>ROUND_HALF_EVEN, the default of \<open>Decimal.quantize\<close>\<close>
  "round_half_even x =
     (let f = \<lfloor>x\<rfloor>; d = x - of_int f
      in if d < 1 / 2 then f else if 1 / 2 < d then f + 1 else if even f then f else f + 1)"

definition quantize_up :: "nat \<Rightarrow> rat \<Rightarrow> rat" where
  "quantize_up k x = of_int (round_half_up (x * 10 ^ k)) / 10 ^ k"

definition quantize_even :: "nat \<Rightarrow> rat \<Rightarrow> rat" where
  "quantize_even k x = of_int (round_half_even (x * 10 ^ k)) / 10 ^ k"

lemma round_half_up_of_int [simp]: "round_half_up (of_int n) = n"
proof -
  have "\<lfloor>of_int n + 1 / 2 :: rat\<rfloor> = n" for n :: int by linarith
  from this [of n] this [of "- n"] show ?thesis
    by (simp add: round_half_up_def)
qed

lemma round_half_even_of_int [simp]: "round_half_even (of_int n) = n"
  by (simp add: round_half_even_def Let_def)

lemma round_half_up_mono: "x \<le> y \<Longrightarrow> round_half_up x \<le> round_half_up y"
  unfolding round_half_up_def by (simp split: if_splits) linarith+

lemma round_half_even_bounds:
  "of_int (round_half_even x) \<le> x + 1 / 2" "x \<le> of_int (round_half_even x) + 1 / 2"
  unfolding round_half_even_def Let_def by (auto split: if_splits) linarith+

lemma round_half_even_mono:
  assumes "x \<le> y"
  shows "round_half_even x \<le> round_half_even y"
proof -
  have le: "\<lfloor>x\<rfloor> \<le> \<lfloor>y\<rfloor>" using assms by (rule floor_mono)
  show ?thesis
  proof (cases "\<lfloor>x\<rfloor> = \<lfloor>y\<rfloor>")
    case True
    with assms show ?thesis by (auto simp: round_half_even_def Let_def)
  next
    case False
    with le have "\<lfloor>x\<rfloor> + 1 \<le> \<lfloor>y\<rfloor>" by linarith
    then show ?thesis by (auto simp: round_half_even_def Let_def)
  qed
qed

lemma round_half_up_bounds:
  "of_int (round_half_up x) \<le> x + 1 / 2" "x \<le> of_int (round_half_up x) + 1 / 2"
  unfolding round_half_up_def by (auto split: if_splits) linarith+

lemma round_half_even_minus: "round_half_even (- x) = - round_half_even x"
proof -
  consider "x = of_int \<lfloor>x\<rfloor>" | "\<lfloor>- x\<rfloor> = - \<lfloor>x\<rfloor> - 1" by linarith
  then show ?thesis
  proof cases
    case 1
    then have "- x = of_int (- \<lfloor>x\<rfloor>)" by simp
    with 1 show ?thesis by (metis round_half_even_of_int)
  next
    case 2
    then show ?thesis by (auto simp: round_half_even_def Let_def)
  qed
qed

lemma round_half_up_minus: "round_half_up (- x) = - round_half_up x"
proof (cases "x = 0")
  case True
  then show ?thesis using round_half_up_of_int [of 0] by simp
next
  case False
  then show ?thesis by (auto simp: round_half_up_def)
qed

subsection \<open>The quantizer interface\<close>

text \<open>
  What every client of a \<open>quantize\<close> call relies on: results lie on the grid of multiples
  of the unit, grid points are fixed, the error is at most half a unit, and rounding is
  monotone and odd. The three roundings the code uses (cents half up, cents half even, four
  decimals half up) are interpretations.
\<close>

locale quantizer =
  fixes q :: "rat \<Rightarrow> rat" and u :: rat
  assumes unit_pos: "0 < u"
    and grid: "\<exists>n::int. q x = of_int n * u"
    and fixed: "q (of_int n * u) = of_int n * u"
    and error: "\<bar>q x - x\<bar> \<le> u / 2"
    and mono: "x \<le> y \<Longrightarrow> q x \<le> q y"
    and odd_q: "q (- x) = - q x"
begin

definition on_grid :: "rat \<Rightarrow> bool" where
  "on_grid x \<longleftrightarrow> (\<exists>n::int. x = of_int n * u)"

lemma zero [simp]: "q 0 = 0"
  using fixed [of 0] by simp

lemma on_gridI [simp]: "on_grid (q x)"
  using grid by (simp add: on_grid_def)

lemma on_grid_zero [simp]: "on_grid 0"
  unfolding on_grid_def by (rule exI [of _ 0]) simp

lemma on_grid_add: "on_grid x \<Longrightarrow> on_grid y \<Longrightarrow> on_grid (x + y)"
  unfolding on_grid_def by (metis distrib_right of_int_add)

lemma on_grid_diff: "on_grid x \<Longrightarrow> on_grid y \<Longrightarrow> on_grid (x - y)"
  unfolding on_grid_def by (metis left_diff_distrib of_int_diff)

lemma on_grid_minus: "on_grid x \<Longrightarrow> on_grid (- x)"
  using on_grid_diff [of 0 x] by simp

lemma on_grid_sum_list: "(\<And>x. x \<in> set xs \<Longrightarrow> on_grid x) \<Longrightarrow> on_grid (sum_list xs)"
  by (induction xs) (auto intro: on_grid_add)

lemma on_grid_min: "on_grid x \<Longrightarrow> on_grid y \<Longrightarrow> on_grid (min x y)"
  by (simp add: min_def)

lemma on_grid_max: "on_grid x \<Longrightarrow> on_grid y \<Longrightarrow> on_grid (max x y)"
  by (simp add: max_def)

lemma fixed_grid: "on_grid x \<Longrightarrow> q x = x"
  by (auto simp: on_grid_def fixed)

lemma idem [simp]: "q (q x) = q x"
  by (simp add: fixed_grid)

lemma nonneg: "0 \<le> x \<Longrightarrow> 0 \<le> q x"
  using mono [of 0 x] by simp

lemma nonpos: "x \<le> 0 \<Longrightarrow> q x \<le> 0"
  using mono [of x 0] by simp

lemma le_grid: "x \<le> g \<Longrightarrow> on_grid g \<Longrightarrow> q x \<le> g"
  using mono [of x g] by (simp add: fixed_grid)

lemma ge_grid: "g \<le> x \<Longrightarrow> on_grid g \<Longrightarrow> g \<le> q x"
  using mono [of g x] by (simp add: fixed_grid)

lemma sum_error: "\<bar>sum_list (map q xs) - sum_list xs\<bar> \<le> of_nat (length xs) * (u / 2)"
proof (induction xs)
  case Nil
  then show ?case by simp
next
  case (Cons x xs)
  have "\<bar>sum_list (map q (x # xs)) - sum_list (x # xs)\<bar>
      \<le> \<bar>q x - x\<bar> + \<bar>sum_list (map q xs) - sum_list xs\<bar>"
    by simp
  also have "\<dots> \<le> u / 2 + of_nat (length xs) * (u / 2)"
    using error [of x] Cons.IH by linarith
  finally show ?case by (simp add: algebra_simps)
qed

end

lemma scale_exact: "of_int n / 10 ^ k * 10 ^ k = (of_int n :: rat)"
  by simp

lemma half_unit_error:
  fixes x :: rat and r :: int
  assumes "of_int r \<le> x * 10 ^ k + 1 / 2" "x * 10 ^ k \<le> of_int r + 1 / 2"
  shows "\<bar>of_int r / 10 ^ k - x\<bar> \<le> (1 / 10 ^ k) / 2"
proof -
  have "\<bar>of_int r - x * 10 ^ k\<bar> \<le> 1 / 2" using assms by linarith
  then have "\<bar>of_int r - x * 10 ^ k\<bar> / 10 ^ k \<le> (1 / 2) / 10 ^ k"
    by (rule divide_right_mono) simp
  moreover have "of_int r / 10 ^ k - x = (of_int r - x * 10 ^ k) / 10 ^ k"
    by (simp add: field_simps)
  ultimately show ?thesis by simp
qed

lemma quantizer_up: "quantizer (quantize_up k) (1 / 10 ^ k)"
proof
  show "(0::rat) < 1 / 10 ^ k" by simp
  show "\<exists>n::int. quantize_up k x = of_int n * (1 / 10 ^ k)" for x
    unfolding quantize_up_def by (metis mult.right_neutral times_divide_eq_right)
  show "quantize_up k (of_int n * (1 / 10 ^ k)) = of_int n * (1 / 10 ^ k)" for n
    by (simp add: quantize_up_def)
  show "\<bar>quantize_up k x - x\<bar> \<le> (1 / 10 ^ k) / 2" for x
    unfolding quantize_up_def by (rule half_unit_error) (rule round_half_up_bounds)+
  show "quantize_up k x \<le> quantize_up k y" if "x \<le> y" for x y
    using that unfolding quantize_up_def
    by (intro divide_right_mono) (simp_all add: round_half_up_mono mult_right_mono)
  show "quantize_up k (- x) = - quantize_up k x" for x
    by (simp add: quantize_up_def round_half_up_minus)
qed

lemma quantizer_even: "quantizer (quantize_even k) (1 / 10 ^ k)"
proof
  show "(0::rat) < 1 / 10 ^ k" by simp
  show "\<exists>n::int. quantize_even k x = of_int n * (1 / 10 ^ k)" for x
    unfolding quantize_even_def by (metis mult.right_neutral times_divide_eq_right)
  show "quantize_even k (of_int n * (1 / 10 ^ k)) = of_int n * (1 / 10 ^ k)" for n
    by (simp add: quantize_even_def)
  show "\<bar>quantize_even k x - x\<bar> \<le> (1 / 10 ^ k) / 2" for x
    unfolding quantize_even_def by (rule half_unit_error) (rule round_half_even_bounds)+
  show "quantize_even k x \<le> quantize_even k y" if "x \<le> y" for x y
    using that unfolding quantize_even_def
    by (intro divide_right_mono) (simp_all add: round_half_even_mono mult_right_mono)
  show "quantize_even k (- x) = - quantize_even k x" for x
    by (simp add: quantize_even_def round_half_even_minus)
qed

subsection \<open>Division in the 28-digit context\<close>

fun ndigits :: "nat \<Rightarrow> nat" where
  "ndigits n = (if n < 10 then 1 else Suc (ndigits (n div 10)))"

declare ndigits.simps [simp del]

definition adjusted :: "rat \<Rightarrow> int" where
  \<comment> \<open>\<open>Decimal.adjusted()\<close>: the exponent of the most significant digit\<close>
  "adjusted x =
     (let (a, b) = quotient_of \<bar>x\<bar>; e = int (ndigits (nat a)) - int (ndigits (nat b))
      in if (10::rat) powi e \<le> \<bar>x\<bar> then e else e - 1)"

definition dec_ctx :: "rat \<Rightarrow> rat" where
  \<comment> \<open>the default context: 28 significant digits, ROUND_HALF_EVEN\<close>
  "dec_ctx x =
     (if x = 0 then 0
      else let u = 10 powi (adjusted x - 27) in of_int (round_half_even (x / u)) * u)"

definition dec_div :: "rat \<Rightarrow> rat \<Rightarrow> rat" where
  \<comment> \<open>\<open>a / b\<close> for \<open>b \<noteq> 0\<close>; callers test the divisor, as the code does\<close>
  "dec_div a b = dec_ctx (a / b)"


lemma ndigits_bounds:
  assumes "0 < n"
  shows "10 ^ (ndigits n - 1) \<le> n \<and> n < 10 ^ ndigits n"
  using assms
proof (induction n rule: ndigits.induct)
  case (1 n)
  show ?case
  proof (cases "n < 10")
    case True
    with 1 show ?thesis by (simp add: ndigits.simps [of n])
  next
    case False
    let ?d = "ndigits (n div 10)"
    have "0 < n div 10" using False by simp
    with 1 False have ih: "10 ^ (?d - 1) \<le> n div 10" "n div 10 < 10 ^ ?d" by auto
    have pos: "0 < ?d" by (subst ndigits.simps) simp
    have "(10::nat) ^ ?d = 10 * 10 ^ (?d - 1)"
      using pos by (metis Suc_diff_1 power_Suc)
    moreover have "n < 10 * 10 ^ ?d" using ih(2) by linarith
    ultimately have "10 ^ ?d \<le> n \<and> n < 10 * 10 ^ ?d" using ih(1) by linarith
    then show ?thesis using False by (simp add: ndigits.simps [of n])
  qed
qed

lemma ndigits_pos: "0 < ndigits n"
  by (subst ndigits.simps) simp

lemma ndigits_rat:
  assumes "0 < a"
  shows "(10::rat) powi (int (ndigits (nat a)) - 1) \<le> of_int a"
    and "of_int a < (10::rat) powi int (ndigits (nat a))"
proof -
  let ?d = "ndigits (nat a)"
  have n: "10 ^ (?d - 1) \<le> nat a" "nat a < 10 ^ ?d"
    using ndigits_bounds [of "nat a"] assms by auto
  have a: "(of_nat (nat a) :: rat) = of_int a" using assms by simp
  have d: "int ?d - 1 = int (?d - 1)" using ndigits_pos [of "nat a"] by linarith
  have "(of_nat (10 ^ (?d - 1)) :: rat) \<le> of_nat (nat a)"
    using n(1) by (simp only: of_nat_le_iff)
  then show "(10::rat) powi (int ?d - 1) \<le> of_int a"
    by (simp only: d a power_int_of_nat of_nat_power of_nat_numeral)
  have "(of_nat (nat a) :: rat) < of_nat (10 ^ ?d)"
    using n(2) by (simp only: of_nat_less_iff)
  then show "of_int a < (10::rat) powi int ?d"
    by (simp only: a power_int_of_nat of_nat_power of_nat_numeral)
qed

lemma ten_powi: "(10::rat) powi m * 10 powi n = 10 powi (m + n)"
  by (subst power_int_add) auto

lemma adjusted_bounds:
  assumes "x \<noteq> 0"
  shows "(10::rat) powi adjusted x \<le> \<bar>x\<bar> \<and> \<bar>x\<bar> < 10 powi (adjusted x + 1)"
proof -
  obtain a b where q: "quotient_of \<bar>x\<bar> = (a, b)" by fastforce
  have b: "0 < b" using q by (rule quotient_of_denom_pos)
  have x: "\<bar>x\<bar> = of_int a / of_int b" using q by (rule quotient_of_div)
  have a: "0 < a"
    using assms b x by (metis divide_eq_0_iff not_less of_int_0_le_iff abs_eq_0 abs_ge_zero
      divide_less_0_iff less_le_not_le linorder_neqE_linordered_idom of_int_0_less_iff of_int_less_0_iff)
  let ?p = "int (ndigits (nat a))" and ?q = "int (ndigits (nat b))"
  define e where "e = ?p - ?q"
  have b': "(0::rat) < of_int b" using b by simp
  have "(10::rat) powi (e - 1) * of_int b \<le> 10 powi (e - 1) * 10 powi ?q"
    using ndigits_rat(2) [OF b] by (intro mult_left_mono) simp_all
  also have "\<dots> = 10 powi (?p - 1)"
    unfolding ten_powi by (rule arg_cong [where f = "power_int 10"]) (simp add: e_def)
  also have "\<dots> \<le> of_int a" using ndigits_rat(1) [OF a] .
  finally have lo: "10 powi (e - 1) \<le> \<bar>x\<bar>" using b' by (simp add: x pos_le_divide_eq)
  have "of_int a < (10::rat) powi ?p" using ndigits_rat(2) [OF a] .
  also have "\<dots> = 10 powi (e + 1) * 10 powi (?q - 1)"
    unfolding ten_powi by (rule arg_cong [where f = "power_int 10"]) (simp add: e_def)
  also have "\<dots> \<le> 10 powi (e + 1) * of_int b"
    using ndigits_rat(1) [OF b] by (intro mult_left_mono) simp_all
  finally have hi: "\<bar>x\<bar> < 10 powi (e + 1)" using b' by (simp add: x pos_divide_less_eq)
  have "adjusted x = (if (10::rat) powi e \<le> \<bar>x\<bar> then e else e - 1)"
    by (simp add: adjusted_def q e_def)
  with lo hi show ?thesis by auto
qed

lemma adjusted_mono:
  assumes "0 < x" "x \<le> y"
  shows "adjusted x \<le> adjusted y"
proof (rule ccontr)
  assume "\<not> ?thesis"
  then have "(10::rat) powi (adjusted y + 1) \<le> 10 powi adjusted x"
    by (intro power_int_increasing) auto
  with adjusted_bounds [of x] adjusted_bounds [of y] assms show False by auto
qed

lemma dec_ctx_pos_bounds:
  assumes "0 < x"
  shows "10 powi adjusted x \<le> dec_ctx x \<and> dec_ctx x \<le> 10 powi (adjusted x + 1)"
proof -
  let ?e = "adjusted x" and ?u = "(10::rat) powi (adjusted x - 27)"
  have u: "0 < ?u" by simp
  have lo: "(10::rat) powi ?e = of_int (10 ^ 27) * ?u"
    and hi: "(10::rat) powi (?e + 1) = of_int (10 ^ 28) * ?u"
    by (simp_all add: power_int_diff power_int_add)
  have "of_int (10 ^ 27) \<le> x / ?u" "x / ?u \<le> of_int (10 ^ 28)"
    using adjusted_bounds [of x] assms u
    unfolding lo hi by (simp_all only: pos_le_divide_eq pos_divide_le_eq) auto
  then have "10 ^ 27 \<le> round_half_even (x / ?u)" "round_half_even (x / ?u) \<le> 10 ^ 28"
    using round_half_even_mono round_half_even_of_int by metis+
  then have "of_int (10 ^ 27) * ?u \<le> of_int (round_half_even (x / ?u)) * ?u"
    "of_int (round_half_even (x / ?u)) * ?u \<le> of_int (10 ^ 28) * ?u"
    using u by (simp_all only: of_int_le_iff mult_le_cancel_right_pos)
  then show ?thesis using assms unfolding lo hi by (simp add: dec_ctx_def Let_def)
qed

lemma dec_ctx_zero [simp]: "dec_ctx 0 = 0"
  by (simp add: dec_ctx_def)

lemma dec_ctx_minus: "dec_ctx (- x) = - dec_ctx x"
  by (simp add: dec_ctx_def adjusted_def Let_def round_half_even_minus)

lemma dec_ctx_pos: "0 < x \<Longrightarrow> 0 < dec_ctx x"
  using dec_ctx_pos_bounds [of x] zero_less_power_int [of "10::rat" "adjusted x"] by linarith

lemma dec_ctx_mono_pos:
  assumes "0 < x" "x \<le> y"
  shows "dec_ctx x \<le> dec_ctx y"
proof (cases "adjusted x = adjusted y")
  case True
  let ?u = "(10::rat) powi (adjusted y - 27)"
  have "x / ?u \<le> y / ?u" using assms by (simp add: divide_right_mono)
  then have "of_int (round_half_even (x / ?u)) * ?u \<le> of_int (round_half_even (y / ?u)) * ?u"
    by (intro mult_right_mono) (simp_all add: round_half_even_mono)
  then show ?thesis using assms True by (simp add: dec_ctx_def Let_def)
next
  case False
  with adjusted_mono [OF assms] have "(10::rat) powi (adjusted x + 1) \<le> 10 powi adjusted y"
    by (intro power_int_increasing) auto
  then show ?thesis using dec_ctx_pos_bounds [of x] dec_ctx_pos_bounds [of y] assms by force
qed

lemma dec_ctx_mono: "x \<le> y \<Longrightarrow> dec_ctx x \<le> dec_ctx y"
proof -
  assume le: "x \<le> y"
  consider "0 < x" | "x \<le> 0" "0 \<le> y" | "y < 0" by linarith
  then show ?thesis
  proof cases
    case 1
    then show ?thesis using le by (rule dec_ctx_mono_pos)
  next
    case 2
    then have "dec_ctx x \<le> 0" "0 \<le> dec_ctx y"
      using dec_ctx_pos [of "- x"] dec_ctx_pos [of y] by (auto simp: dec_ctx_minus le_less)
    then show ?thesis by linarith
  next
    case 3
    then show ?thesis using dec_ctx_mono_pos [of "- y" "- x"] le by (simp add: dec_ctx_minus)
  qed
qed

lemma dec_ctx_fixed:
  \<comment> \<open>a value of at most 28 digits is not rounded\<close>
  assumes "\<bar>n\<bar> < 10 ^ 28"
  shows "dec_ctx (of_int n * 10 powi k) = of_int n * 10 powi k"
proof (cases "n = 0")
  case False
  let ?x = "of_int n * (10::rat) powi k"
  let ?u = "(10::rat) powi (adjusted ?x - 27)"
  have nz: "?x \<noteq> 0" using False by simp
  have "\<bar>?x\<bar> < of_int (10 ^ 28) * 10 powi k"
    using assms by (simp only: abs_mult flip: of_int_abs) (simp add: of_int_less_iff [symmetric] del: of_int_less_iff)
  also have "\<dots> = 10 powi (28 + k)" by (simp flip: ten_powi)
  finally have "(10::rat) powi adjusted ?x < 10 powi (28 + k)"
    using adjusted_bounds [OF nz] by linarith
  then have "\<not> 28 + k \<le> adjusted ?x"
    using power_int_increasing [of "28 + k" "adjusted ?x" "10::rat"] by linarith
  then have "adjusted ?x - 27 \<le> k" by linarith
  then obtain m where m: "k = (adjusted ?x - 27) + int m"
    by (auto simp only: zle_iff_zadd)
  have "?x / ?u = of_int (n * 10 ^ m)"
    by (subst m) (simp add: power_int_add)
  then have "round_half_even (?x / ?u) = n * 10 ^ m" by (simp only: round_half_even_of_int)
  then have "dec_ctx ?x = of_int (n * 10 ^ m) * ?u" using nz by (simp only: dec_ctx_def Let_def if_False)
  also have "\<dots> = ?x" by (subst (2) m) (simp add: power_int_add)
  finally show ?thesis .
qed simp

section \<open>Errors and results\<close>

text \<open>
  A handler returns \<open>Inr\<close> of its result or \<open>Inl\<close> of the exception it raised. The detail
  of an \<open>HTTPException\<close> is its f-string with \<open>{}\<close> for each interpolated value, and the
  list of those values. \<open>PyError\<close> is any other Python exception (a 500 response).
\<close>

type_synonym uuid = nat
type_synonym datetime = int  \<comment> \<open>microseconds since the epoch, UTC\<close>
type_synonym date = int  \<comment> \<open>days since the epoch\<close>

datatype fmt_arg = ADec decimal | AStr string | AUuid uuid

datatype http_error = HTTPException (status_code: nat) (detail: string) (detail_args: "fmt_arg list")
  | PyError (exception: string)

type_synonym 'a res = "http_error + 'a"

abbreviation bad_request :: "string \<Rightarrow> 'a res" where
  "bad_request d \<equiv> Inl (HTTPException 400 d [])"

abbreviation forbidden :: "string \<Rightarrow> 'a res" where
  "forbidden d \<equiv> Inl (HTTPException 403 d [])"

abbreviation not_found :: "string \<Rightarrow> 'a res" where
  "not_found d \<equiv> Inl (HTTPException 404 d [])"

definition bind_res :: "'e + 'a \<Rightarrow> ('a \<Rightarrow> 'e + 'b) \<Rightarrow> 'e + 'b" where
  "bind_res m f = (case m of Inl e \<Rightarrow> Inl e | Inr x \<Rightarrow> f x)"

fun fold_res :: "('a \<Rightarrow> 's \<Rightarrow> 'e + 's) \<Rightarrow> 'a list \<Rightarrow> 's \<Rightarrow> 'e + 's" where
  \<comment> \<open>a \<open>for\<close> loop whose body updates \<open>s\<close> or raises\<close>
  "fold_res f [] s = Inr s"
| "fold_res f (x # xs) s = bind_res (f x s) (fold_res f xs)"

fun check_each :: "('a \<Rightarrow> 'e + 'b) \<Rightarrow> 'a list \<Rightarrow> 'e + unit" where
  \<comment> \<open>a \<open>for\<close> loop whose body only validates\<close>
  "check_each f [] = Inr ()"
| "check_each f (x # xs) = bind_res (f x) (\<lambda>_. check_each f xs)"

lemma bind_res_simps [simp]:
  "bind_res (Inl e) f = Inl e" "bind_res (Inr x) f = f x"
  by (simp_all add: bind_res_def)

lemma bind_res_Inr [handler_simps]:
  "bind_res m f = Inr y \<longleftrightarrow> (\<exists>x. m = Inr x \<and> f x = Inr y)"
  by (cases m) auto

lemma bind_res_Inl [handler_simps]:
  "bind_res m f = Inl e \<longleftrightarrow> m = Inl e \<or> (\<exists>x. m = Inr x \<and> f x = Inl e)"
  by (cases m) auto

lemma bind_res_cong [fundef_cong]:
  "m = m' \<Longrightarrow> (\<And>x. m' = Inr x \<Longrightarrow> f x = f' x) \<Longrightarrow> bind_res m f = bind_res m' f'"
  by (cases m') auto

lemma if_Inr [handler_simps]:
  "(if b then Inl e else m) = Inr y \<longleftrightarrow> \<not> b \<and> m = Inr y"
  "(if b then m else Inl e) = Inr y \<longleftrightarrow> b \<and> m = Inr y"
  by auto

lemma check_each_Inr [handler_simps]:
  "check_each f xs = Inr u \<longleftrightarrow> (\<forall>x\<in>set xs. \<exists>y. f x = Inr y)"
  by (induction xs) (auto simp: bind_res_Inr)

lemma fold_res_append:
  "fold_res f (xs @ ys) s = bind_res (fold_res f xs s) (fold_res f ys)"
proof (induction xs arbitrary: s)
  case (Cons x xs)
  then show ?case by (cases "f x s") simp_all
qed simp

lemma fold_res_invariant:
  assumes "fold_res f xs s = Inr s'" "I s"
    and "\<And>x s t. x \<in> set xs \<Longrightarrow> I s \<Longrightarrow> f x s = Inr t \<Longrightarrow> I t"
  shows "I s'"
  using assms
proof (induction xs arbitrary: s)
  case (Cons x xs)
  then obtain t where "f x s = Inr t" "fold_res f xs t = Inr s'"
    by (auto simp: bind_res_Inr)
  with Cons show ?case by (metis list.set_intros)
qed simp

lemma fold_res_relation:
  \<comment> \<open>a reflexive, transitive relation kept by every iteration holds across the loop\<close>
  assumes "fold_res f xs s = Inr s'"
    and "\<And>s. R s s" "\<And>s t u. R s t \<Longrightarrow> R t u \<Longrightarrow> R s u"
    and "\<And>x s t. x \<in> set xs \<Longrightarrow> f x s = Inr t \<Longrightarrow> R s t"
  shows "R s s'"
  using assms(1,4)
proof (induction xs arbitrary: s)
  case Nil
  then show ?case using assms(2) by simp
next
  case (Cons x xs)
  then obtain t where t: "f x s = Inr t" "fold_res f xs t = Inr s'"
    by (auto simp: bind_res_Inr)
  have "R t s'"
    by (rule Cons.IH [OF t(2)]) (rule Cons.prems(2), auto)
  moreover have "R s t"
    by (rule Cons.prems(2) [OF _ t(1)]) simp
  ultimately show ?case using assms(3) by blast
qed

section \<open>Tables and queries\<close>

text \<open>
  A table is the list of its rows in insertion order. \<open>SELECT ... WHERE\<close> is \<open>filter\<close>,
  \<open>ORDER BY\<close> a stable sort by key, \<open>coalesce(sum(x), 0)\<close> a sum over the matching rows, and an
  \<open>UPDATE\<close> (or a mutation of loaded ORM objects) maps over the rows it touches.
\<close>

definition scalar_one_or_none :: "'a list \<Rightarrow> 'a option res" where
  "scalar_one_or_none rows =
     (case rows of [] \<Rightarrow> Inr None | [x] \<Rightarrow> Inr (Some x)
      | _ \<Rightarrow> Inl (PyError ''MultipleResultsFound''))"

definition require_one :: "http_error \<Rightarrow> 'a list \<Rightarrow> 'a res" where
  \<comment> \<open>\<open>scalar_one_or_none\<close> followed by \<open>if row is None: raise\<close>\<close>
  "require_one e rows =
     bind_res (scalar_one_or_none rows) (\<lambda>r. case r of None \<Rightarrow> Inl e | Some x \<Rightarrow> Inr x)"

definition first_row :: "'a list \<Rightarrow> 'a option" where
  "first_row rows = (case rows of [] \<Rightarrow> None | x # _ \<Rightarrow> Some x)"

definition sum_where :: "('r \<Rightarrow> rat) \<Rightarrow> ('r \<Rightarrow> bool) \<Rightarrow> 'r list \<Rightarrow> rat" where
  "sum_where f P rows = sum_list (map f (filter P rows))"

definition update_where :: "('r \<Rightarrow> bool) \<Rightarrow> ('r \<Rightarrow> 'r) \<Rightarrow> 'r list \<Rightarrow> 'r list" where
  "update_where P f rows = map (\<lambda>r. if P r then f r else r) rows"

definition or_else :: "'a option \<Rightarrow> 'a \<Rightarrow> 'a" where
  \<comment> \<open>Python's \<open>x or d\<close> / \<open>d if x is None else x\<close> on an optional value\<close>
  "or_else x d = (case x of None \<Rightarrow> d | Some v \<Rightarrow> v)"

lemma or_else_simps [simp]: "or_else None d = d" "or_else (Some v) d = v"
  by (simp_all add: or_else_def)

lemma require_one_Inr [handler_simps]: "require_one e rows = Inr x \<longleftrightarrow> rows = [x]"
  by (auto simp: require_one_def scalar_one_or_none_def split: list.splits)

lemma require_one_simps [simp]:
  "require_one e [] = Inl e" "require_one e [x] = Inr x"
  by (simp_all add: require_one_def scalar_one_or_none_def)

lemma scalar_one_or_none_Inr [handler_simps]:
  "scalar_one_or_none rows = Inr r \<longleftrightarrow>
     (r = None \<and> rows = []) \<or> (\<exists>x. r = Some x \<and> rows = [x])"
  by (auto simp: scalar_one_or_none_def split: list.splits)

lemma sum_where_simps [simp, query_simps]:
  "sum_where f P [] = 0"
  "sum_where f P (x # xs) = (if P x then f x else 0) + sum_where f P xs"
  by (simp_all add: sum_where_def)

lemma sum_where_append [simp, query_simps]:
  "sum_where f P (xs @ ys) = sum_where f P xs + sum_where f P ys"
  by (simp add: sum_where_def)

lemma sum_where_cong:
  "(\<And>r. r \<in> set rows \<Longrightarrow> P r = Q r) \<Longrightarrow> (\<And>r. r \<in> set rows \<Longrightarrow> P r \<Longrightarrow> f r = g r) \<Longrightarrow>
     sum_where f P rows = sum_where g Q rows"
  by (induction rows) auto

lemma sum_where_nonneg:
  "(\<And>r. r \<in> set rows \<Longrightarrow> P r \<Longrightarrow> 0 \<le> f r) \<Longrightarrow> 0 \<le> sum_where f P rows"
  by (induction rows) (auto intro: add_nonneg_nonneg)

lemma sum_where_none: "(\<And>r. r \<in> set rows \<Longrightarrow> \<not> P r) \<Longrightarrow> sum_where f P rows = 0"
  by (induction rows) auto

lemma update_where_simps [simp, query_simps]:
  "update_where P f [] = []"
  "update_where P f (x # xs) = (if P x then f x else x) # update_where P f xs"
  "update_where P f (xs @ ys) = update_where P f xs @ update_where P f ys"
  by (simp_all add: update_where_def)

lemma length_update_where [simp]: "length (update_where P f rows) = length rows"
  by (simp add: update_where_def)

lemma set_update_where:
  "set (update_where P f rows) = (\<lambda>r. if P r then f r else r) ` set rows"
  by (simp add: update_where_def)

lemma map_update_where:
  "(\<And>r. P r \<Longrightarrow> g (f r) = g r) \<Longrightarrow> map g (update_where P f rows) = map g rows"
  by (induction rows) auto

lemma sum_where_update_where:
  assumes "\<And>r. P r \<Longrightarrow> Q (f r) = Q r" "\<And>r. P r \<Longrightarrow> Q r \<Longrightarrow> g (f r) = g r"
  shows "sum_where g Q (update_where P f rows) = sum_where g Q rows"
  using assms by (induction rows) auto

lemma update_where_keeps:
  "a \<in> set rs \<Longrightarrow> (P a \<Longrightarrow> Q (f a)) \<Longrightarrow> (\<not> P a \<Longrightarrow> Q a) \<Longrightarrow> \<exists>a'\<in>set (update_where P f rs). Q a'"
  by (induction rs) auto

lemma filter_update_none:
  "(\<And>r. r \<in> set rs \<Longrightarrow> P r \<Longrightarrow> \<not> Q r \<and> \<not> Q (f r)) \<Longrightarrow> filter Q (update_where P f rs) = filter Q rs"
  by (induction rs) auto

lemma find_append: "find P (xs @ ys) = (case find P xs of None \<Rightarrow> find P ys | Some x \<Rightarrow> Some x)"
  by (induction xs) auto

end
