(* ===== verification/Enums.thy ===== *)
theory Enums
  imports Prelude
begin

text \<open>
  The enumerations of \<open>app/models/enums.py\<close>. Each Python \<open>Enum\<close> class is a datatype with a
  constructor per member and its \<open>.value\<close> function; each \<open>postgresql.ENUM(...)\<close> is the list of
  labels the database column accepts. Columns hold labels; the model's rows hold the members
  themselves, which is faithful because the two agree (\<open>enum_columns_agree\<close>).
\<close>

datatype ProductTypeEnum =
    ProductType_standard
  | ProductType_variant
  | ProductType_composite
  | ProductType_manufactured
  | ProductType_service

fun ProductTypeEnum_value :: "ProductTypeEnum \<Rightarrow> string" where
  "ProductTypeEnum_value ProductType_standard = ''standard''"
| "ProductTypeEnum_value ProductType_variant = ''variant''"
| "ProductTypeEnum_value ProductType_composite = ''composite''"
| "ProductTypeEnum_value ProductType_manufactured = ''manufactured''"
| "ProductTypeEnum_value ProductType_service = ''service''"

definition product_type_enum :: "string list" where
  "product_type_enum =
    [''standard'',
     ''variant'',
     ''composite'',
     ''manufactured'',
     ''service'']"

datatype TrackingTypeEnum =
    TrackingType_none
  | TrackingType_batch
  | TrackingType_serial
  | TrackingType_expiry

fun TrackingTypeEnum_value :: "TrackingTypeEnum \<Rightarrow> string" where
  "TrackingTypeEnum_value TrackingType_none = ''none''"
| "TrackingTypeEnum_value TrackingType_batch = ''batch''"
| "TrackingTypeEnum_value TrackingType_serial = ''serial''"
| "TrackingTypeEnum_value TrackingType_expiry = ''expiry''"

definition tracking_type_enum :: "string list" where
  "tracking_type_enum =
    [''none'',
     ''batch'',
     ''serial'',
     ''expiry'']"

datatype PriceListTypeEnum =
    PriceListType_retail
  | PriceListType_wholesale
  | PriceListType_dine_in
  | PriceListType_delivery
  | PriceListType_custom

fun PriceListTypeEnum_value :: "PriceListTypeEnum \<Rightarrow> string" where
  "PriceListTypeEnum_value PriceListType_retail = ''retail''"
| "PriceListTypeEnum_value PriceListType_wholesale = ''wholesale''"
| "PriceListTypeEnum_value PriceListType_dine_in = ''dine_in''"
| "PriceListTypeEnum_value PriceListType_delivery = ''delivery''"
| "PriceListTypeEnum_value PriceListType_custom = ''custom''"

definition price_list_type_enum :: "string list" where
  "price_list_type_enum =
    [''retail'',
     ''wholesale'',
     ''dine_in'',
     ''delivery'',
     ''custom'']"

datatype StockMovementTypeEnum =
    StockMovementType_opening
  | StockMovementType_purchase
  | StockMovementType_sale
  | StockMovementType_sale_return
  | StockMovementType_purchase_return
  | StockMovementType_adjustment_in
  | StockMovementType_adjustment_out
  | StockMovementType_transfer_in
  | StockMovementType_transfer_out
  | StockMovementType_production_in
  | StockMovementType_production_out
  | StockMovementType_waste

fun StockMovementTypeEnum_value :: "StockMovementTypeEnum \<Rightarrow> string" where
  "StockMovementTypeEnum_value StockMovementType_opening = ''opening''"
| "StockMovementTypeEnum_value StockMovementType_purchase = ''purchase''"
| "StockMovementTypeEnum_value StockMovementType_sale = ''sale''"
| "StockMovementTypeEnum_value StockMovementType_sale_return = ''sale_return''"
| "StockMovementTypeEnum_value StockMovementType_purchase_return = ''purchase_return''"
| "StockMovementTypeEnum_value StockMovementType_adjustment_in = ''adjustment_in''"
| "StockMovementTypeEnum_value StockMovementType_adjustment_out = ''adjustment_out''"
| "StockMovementTypeEnum_value StockMovementType_transfer_in = ''transfer_in''"
| "StockMovementTypeEnum_value StockMovementType_transfer_out = ''transfer_out''"
| "StockMovementTypeEnum_value StockMovementType_production_in = ''production_in''"
| "StockMovementTypeEnum_value StockMovementType_production_out = ''production_out''"
| "StockMovementTypeEnum_value StockMovementType_waste = ''waste''"

definition stock_movement_type_enum :: "string list" where
  "stock_movement_type_enum =
    [''opening'',
     ''purchase'',
     ''sale'',
     ''sale_return'',
     ''purchase_return'',
     ''adjustment_in'',
     ''adjustment_out'',
     ''transfer_in'',
     ''transfer_out'',
     ''production_in'',
     ''production_out'',
     ''waste'']"

datatype ReferenceTypeEnum =
    ReferenceType_purchase_receipt_line
  | ReferenceType_purchase_line
  | ReferenceType_sale
  | ReferenceType_sale_line
  | ReferenceType_sale_return
  | ReferenceType_sale_return_line
  | ReferenceType_purchase_return
  | ReferenceType_purchase_return_line
  | ReferenceType_stock_adjustment
  | ReferenceType_stock_adjustment_line
  | ReferenceType_stock_transfer
  | ReferenceType_stock_transfer_line
  | ReferenceType_production_order
  | ReferenceType_production_line
  | ReferenceType_waste_entry
  | ReferenceType_waste_entry_line
  | ReferenceType_expense
  | ReferenceType_expense_payment
  | ReferenceType_sale_payment
  | ReferenceType_opening_balance
  | ReferenceType_manual

fun ReferenceTypeEnum_value :: "ReferenceTypeEnum \<Rightarrow> string" where
  "ReferenceTypeEnum_value ReferenceType_purchase_receipt_line = ''purchase_receipt_line''"
| "ReferenceTypeEnum_value ReferenceType_purchase_line = ''purchase_line''"
| "ReferenceTypeEnum_value ReferenceType_sale = ''sale''"
| "ReferenceTypeEnum_value ReferenceType_sale_line = ''sale_line''"
| "ReferenceTypeEnum_value ReferenceType_sale_return = ''sale_return''"
| "ReferenceTypeEnum_value ReferenceType_sale_return_line = ''sale_return_line''"
| "ReferenceTypeEnum_value ReferenceType_purchase_return = ''purchase_return''"
| "ReferenceTypeEnum_value ReferenceType_purchase_return_line = ''purchase_return_line''"
| "ReferenceTypeEnum_value ReferenceType_stock_adjustment = ''stock_adjustment''"
| "ReferenceTypeEnum_value ReferenceType_stock_adjustment_line = ''stock_adjustment_line''"
| "ReferenceTypeEnum_value ReferenceType_stock_transfer = ''stock_transfer''"
| "ReferenceTypeEnum_value ReferenceType_stock_transfer_line = ''stock_transfer_line''"
| "ReferenceTypeEnum_value ReferenceType_production_order = ''production_order''"
| "ReferenceTypeEnum_value ReferenceType_production_line = ''production_line''"
| "ReferenceTypeEnum_value ReferenceType_waste_entry = ''waste_entry''"
| "ReferenceTypeEnum_value ReferenceType_waste_entry_line = ''waste_entry_line''"
| "ReferenceTypeEnum_value ReferenceType_expense = ''expense''"
| "ReferenceTypeEnum_value ReferenceType_expense_payment = ''expense_payment''"
| "ReferenceTypeEnum_value ReferenceType_sale_payment = ''sale_payment''"
| "ReferenceTypeEnum_value ReferenceType_opening_balance = ''opening_balance''"
| "ReferenceTypeEnum_value ReferenceType_manual = ''manual''"

definition reference_type_enum :: "string list" where
  "reference_type_enum =
    [''purchase_receipt_line'',
     ''purchase_line'',
     ''sale'',
     ''sale_line'',
     ''sale_return'',
     ''sale_return_line'',
     ''purchase_return'',
     ''purchase_return_line'',
     ''stock_adjustment'',
     ''stock_adjustment_line'',
     ''stock_transfer'',
     ''stock_transfer_line'',
     ''production_order'',
     ''production_line'',
     ''waste_entry'',
     ''waste_entry_line'',
     ''expense'',
     ''expense_payment'',
     ''sale_payment'',
     ''opening_balance'',
     ''manual'']"

datatype PurchaseOrderStatusEnum =
    PurchaseOrderStatus_draft
  | PurchaseOrderStatus_ordered
  | PurchaseOrderStatus_partial
  | PurchaseOrderStatus_received
  | PurchaseOrderStatus_cancelled

fun PurchaseOrderStatusEnum_value :: "PurchaseOrderStatusEnum \<Rightarrow> string" where
  "PurchaseOrderStatusEnum_value PurchaseOrderStatus_draft = ''draft''"
| "PurchaseOrderStatusEnum_value PurchaseOrderStatus_ordered = ''ordered''"
| "PurchaseOrderStatusEnum_value PurchaseOrderStatus_partial = ''partial''"
| "PurchaseOrderStatusEnum_value PurchaseOrderStatus_received = ''received''"
| "PurchaseOrderStatusEnum_value PurchaseOrderStatus_cancelled = ''cancelled''"

definition purchase_order_status_enum :: "string list" where
  "purchase_order_status_enum =
    [''draft'',
     ''ordered'',
     ''partial'',
     ''received'',
     ''cancelled'']"

datatype AdjustmentReasonEnum =
    AdjustmentReason_count_correction
  | AdjustmentReason_damage
  | AdjustmentReason_theft
  | AdjustmentReason_expiry
  | AdjustmentReason_opening_balance
  | AdjustmentReason_other

fun AdjustmentReasonEnum_value :: "AdjustmentReasonEnum \<Rightarrow> string" where
  "AdjustmentReasonEnum_value AdjustmentReason_count_correction = ''count_correction''"
| "AdjustmentReasonEnum_value AdjustmentReason_damage = ''damage''"
| "AdjustmentReasonEnum_value AdjustmentReason_theft = ''theft''"
| "AdjustmentReasonEnum_value AdjustmentReason_expiry = ''expiry''"
| "AdjustmentReasonEnum_value AdjustmentReason_opening_balance = ''opening_balance''"
| "AdjustmentReasonEnum_value AdjustmentReason_other = ''other''"

definition adjustment_reason_enum :: "string list" where
  "adjustment_reason_enum =
    [''count_correction'',
     ''damage'',
     ''theft'',
     ''expiry'',
     ''opening_balance'',
     ''other'']"

datatype TransferStatusEnum =
    TransferStatus_draft
  | TransferStatus_in_transit
  | TransferStatus_received
  | TransferStatus_cancelled

fun TransferStatusEnum_value :: "TransferStatusEnum \<Rightarrow> string" where
  "TransferStatusEnum_value TransferStatus_draft = ''draft''"
| "TransferStatusEnum_value TransferStatus_in_transit = ''in_transit''"
| "TransferStatusEnum_value TransferStatus_received = ''received''"
| "TransferStatusEnum_value TransferStatus_cancelled = ''cancelled''"

definition transfer_status_enum :: "string list" where
  "transfer_status_enum =
    [''draft'',
     ''in_transit'',
     ''received'',
     ''cancelled'']"

datatype SaleTypeEnum =
    SaleType_pos
  | SaleType_invoice
  | SaleType_dine_in
  | SaleType_takeaway
  | SaleType_delivery
  | SaleType_online

fun SaleTypeEnum_value :: "SaleTypeEnum \<Rightarrow> string" where
  "SaleTypeEnum_value SaleType_pos = ''pos''"
| "SaleTypeEnum_value SaleType_invoice = ''invoice''"
| "SaleTypeEnum_value SaleType_dine_in = ''dine_in''"
| "SaleTypeEnum_value SaleType_takeaway = ''takeaway''"
| "SaleTypeEnum_value SaleType_delivery = ''delivery''"
| "SaleTypeEnum_value SaleType_online = ''online''"

definition sale_type_enum :: "string list" where
  "sale_type_enum =
    [''pos'',
     ''invoice'',
     ''dine_in'',
     ''takeaway'',
     ''delivery'',
     ''online'']"

datatype SaleStatusEnum =
    SaleStatus_draft
  | SaleStatus_held
  | SaleStatus_completed
  | SaleStatus_partially_paid
  | SaleStatus_cancelled
  | SaleStatus_voided

fun SaleStatusEnum_value :: "SaleStatusEnum \<Rightarrow> string" where
  "SaleStatusEnum_value SaleStatus_draft = ''draft''"
| "SaleStatusEnum_value SaleStatus_held = ''held''"
| "SaleStatusEnum_value SaleStatus_completed = ''completed''"
| "SaleStatusEnum_value SaleStatus_partially_paid = ''partially_paid''"
| "SaleStatusEnum_value SaleStatus_cancelled = ''cancelled''"
| "SaleStatusEnum_value SaleStatus_voided = ''voided''"

definition sale_status_enum :: "string list" where
  "sale_status_enum =
    [''draft'',
     ''held'',
     ''completed'',
     ''partially_paid'',
     ''cancelled'',
     ''voided'']"

datatype PaymentMethodEnum =
    PaymentMethod_cash
  | PaymentMethod_card
  | PaymentMethod_upi
  | PaymentMethod_bank_transfer
  | PaymentMethod_wallet
  | PaymentMethod_credit
  | PaymentMethod_cheque
  | PaymentMethod_other

fun PaymentMethodEnum_value :: "PaymentMethodEnum \<Rightarrow> string" where
  "PaymentMethodEnum_value PaymentMethod_cash = ''cash''"
| "PaymentMethodEnum_value PaymentMethod_card = ''card''"
| "PaymentMethodEnum_value PaymentMethod_upi = ''upi''"
| "PaymentMethodEnum_value PaymentMethod_bank_transfer = ''bank_transfer''"
| "PaymentMethodEnum_value PaymentMethod_wallet = ''wallet''"
| "PaymentMethodEnum_value PaymentMethod_credit = ''credit''"
| "PaymentMethodEnum_value PaymentMethod_cheque = ''cheque''"
| "PaymentMethodEnum_value PaymentMethod_other = ''other''"

definition payment_method_enum :: "string list" where
  "payment_method_enum =
    [''cash'',
     ''card'',
     ''upi'',
     ''bank_transfer'',
     ''wallet'',
     ''credit'',
     ''cheque'',
     ''other'']"

datatype PaymentStatusEnum =
    PaymentStatus_pending
  | PaymentStatus_completed
  | PaymentStatus_failed
  | PaymentStatus_refunded

fun PaymentStatusEnum_value :: "PaymentStatusEnum \<Rightarrow> string" where
  "PaymentStatusEnum_value PaymentStatus_pending = ''pending''"
| "PaymentStatusEnum_value PaymentStatus_completed = ''completed''"
| "PaymentStatusEnum_value PaymentStatus_failed = ''failed''"
| "PaymentStatusEnum_value PaymentStatus_refunded = ''refunded''"

definition payment_status_enum :: "string list" where
  "payment_status_enum =
    [''pending'',
     ''completed'',
     ''failed'',
     ''refunded'']"

datatype DiscountTypeEnum =
    DiscountType_percentage
  | DiscountType_fixed_amount

fun DiscountTypeEnum_value :: "DiscountTypeEnum \<Rightarrow> string" where
  "DiscountTypeEnum_value DiscountType_percentage = ''percentage''"
| "DiscountTypeEnum_value DiscountType_fixed_amount = ''fixed_amount''"

definition discount_type_enum :: "string list" where
  "discount_type_enum =
    [''percentage'',
     ''fixed_amount'']"

datatype LedgerEntryTypeEnum =
    LedgerEntryType_sale
  | LedgerEntryType_payment
  | LedgerEntryType_return
  | LedgerEntryType_opening_balance
  | LedgerEntryType_adjustment
  | LedgerEntryType_refund

fun LedgerEntryTypeEnum_value :: "LedgerEntryTypeEnum \<Rightarrow> string" where
  "LedgerEntryTypeEnum_value LedgerEntryType_sale = ''sale''"
| "LedgerEntryTypeEnum_value LedgerEntryType_payment = ''payment''"
| "LedgerEntryTypeEnum_value LedgerEntryType_return = ''return''"
| "LedgerEntryTypeEnum_value LedgerEntryType_opening_balance = ''opening_balance''"
| "LedgerEntryTypeEnum_value LedgerEntryType_adjustment = ''adjustment''"
| "LedgerEntryTypeEnum_value LedgerEntryType_refund = ''refund''"

definition ledger_entry_type_enum :: "string list" where
  "ledger_entry_type_enum =
    [''sale'',
     ''payment'',
     ''return'',
     ''opening_balance'',
     ''adjustment'',
     ''refund'']"

datatype ShiftStatusEnum =
    ShiftStatus_open
  | ShiftStatus_closed

fun ShiftStatusEnum_value :: "ShiftStatusEnum \<Rightarrow> string" where
  "ShiftStatusEnum_value ShiftStatus_open = ''open''"
| "ShiftStatusEnum_value ShiftStatus_closed = ''closed''"

definition shift_status_enum :: "string list" where
  "shift_status_enum =
    [''open'',
     ''closed'']"

datatype RegisterTxTypeEnum =
    RegisterTxType_sale
  | RegisterTxType_sale_return
  | RegisterTxType_expense
  | RegisterTxType_cash_in
  | RegisterTxType_cash_out
  | RegisterTxType_opening_float
  | RegisterTxType_closing_count

fun RegisterTxTypeEnum_value :: "RegisterTxTypeEnum \<Rightarrow> string" where
  "RegisterTxTypeEnum_value RegisterTxType_sale = ''sale''"
| "RegisterTxTypeEnum_value RegisterTxType_sale_return = ''sale_return''"
| "RegisterTxTypeEnum_value RegisterTxType_expense = ''expense''"
| "RegisterTxTypeEnum_value RegisterTxType_cash_in = ''cash_in''"
| "RegisterTxTypeEnum_value RegisterTxType_cash_out = ''cash_out''"
| "RegisterTxTypeEnum_value RegisterTxType_opening_float = ''opening_float''"
| "RegisterTxTypeEnum_value RegisterTxType_closing_count = ''closing_count''"

definition register_tx_type_enum :: "string list" where
  "register_tx_type_enum =
    [''sale'',
     ''sale_return'',
     ''expense'',
     ''cash_in'',
     ''cash_out'',
     ''opening_float'',
     ''closing_count'']"

datatype NotificationTypeEnum =
    NotificationType_low_stock
  | NotificationType_expiry_warning
  | NotificationType_expiry_expired
  | NotificationType_payment_due
  | NotificationType_shift_reminder
  | NotificationType_sync_conflict
  | NotificationType_system

fun NotificationTypeEnum_value :: "NotificationTypeEnum \<Rightarrow> string" where
  "NotificationTypeEnum_value NotificationType_low_stock = ''low_stock''"
| "NotificationTypeEnum_value NotificationType_expiry_warning = ''expiry_warning''"
| "NotificationTypeEnum_value NotificationType_expiry_expired = ''expiry_expired''"
| "NotificationTypeEnum_value NotificationType_payment_due = ''payment_due''"
| "NotificationTypeEnum_value NotificationType_shift_reminder = ''shift_reminder''"
| "NotificationTypeEnum_value NotificationType_sync_conflict = ''sync_conflict''"
| "NotificationTypeEnum_value NotificationType_system = ''system''"

definition notification_type_enum :: "string list" where
  "notification_type_enum =
    [''low_stock'',
     ''expiry_warning'',
     ''expiry_expired'',
     ''payment_due'',
     ''shift_reminder'',
     ''sync_conflict'',
     ''system'']"

datatype NotificationChannelEnum =
    NotificationChannel_in_app
  | NotificationChannel_email
  | NotificationChannel_sms
  | NotificationChannel_push

fun NotificationChannelEnum_value :: "NotificationChannelEnum \<Rightarrow> string" where
  "NotificationChannelEnum_value NotificationChannel_in_app = ''in_app''"
| "NotificationChannelEnum_value NotificationChannel_email = ''email''"
| "NotificationChannelEnum_value NotificationChannel_sms = ''sms''"
| "NotificationChannelEnum_value NotificationChannel_push = ''push''"

definition notification_channel_enum :: "string list" where
  "notification_channel_enum =
    [''in_app'',
     ''email'',
     ''sms'',
     ''push'']"

datatype AuditActionEnum =
    AuditAction_create
  | AuditAction_update
  | AuditAction_delete
  | AuditAction_restore
  | AuditAction_login
  | AuditAction_logout
  | AuditAction_sync

fun AuditActionEnum_value :: "AuditActionEnum \<Rightarrow> string" where
  "AuditActionEnum_value AuditAction_create = ''create''"
| "AuditActionEnum_value AuditAction_update = ''update''"
| "AuditActionEnum_value AuditAction_delete = ''delete''"
| "AuditActionEnum_value AuditAction_restore = ''restore''"
| "AuditActionEnum_value AuditAction_login = ''login''"
| "AuditActionEnum_value AuditAction_logout = ''logout''"
| "AuditActionEnum_value AuditAction_sync = ''sync''"

definition audit_action_enum :: "string list" where
  "audit_action_enum =
    [''create'',
     ''update'',
     ''delete'',
     ''restore'',
     ''login'',
     ''logout'',
     ''sync'']"

datatype TableStatusEnum =
    TableStatus_available
  | TableStatus_occupied
  | TableStatus_reserved
  | TableStatus_billing
  | TableStatus_cleaning

fun TableStatusEnum_value :: "TableStatusEnum \<Rightarrow> string" where
  "TableStatusEnum_value TableStatus_available = ''available''"
| "TableStatusEnum_value TableStatus_occupied = ''occupied''"
| "TableStatusEnum_value TableStatus_reserved = ''reserved''"
| "TableStatusEnum_value TableStatus_billing = ''billing''"
| "TableStatusEnum_value TableStatus_cleaning = ''cleaning''"

definition table_status_enum :: "string list" where
  "table_status_enum =
    [''available'',
     ''occupied'',
     ''reserved'',
     ''billing'',
     ''cleaning'']"

datatype KotStatusEnum =
    KotStatus_pending
  | KotStatus_preparing
  | KotStatus_ready
  | KotStatus_served
  | KotStatus_cancelled

fun KotStatusEnum_value :: "KotStatusEnum \<Rightarrow> string" where
  "KotStatusEnum_value KotStatus_pending = ''pending''"
| "KotStatusEnum_value KotStatus_preparing = ''preparing''"
| "KotStatusEnum_value KotStatus_ready = ''ready''"
| "KotStatusEnum_value KotStatus_served = ''served''"
| "KotStatusEnum_value KotStatus_cancelled = ''cancelled''"

definition kot_status_enum :: "string list" where
  "kot_status_enum =
    [''pending'',
     ''preparing'',
     ''ready'',
     ''served'',
     ''cancelled'']"

datatype ModifierSelectionTypeEnum =
    ModifierSelectionType_single
  | ModifierSelectionType_multiple
  | ModifierSelectionType_optional

fun ModifierSelectionTypeEnum_value :: "ModifierSelectionTypeEnum \<Rightarrow> string" where
  "ModifierSelectionTypeEnum_value ModifierSelectionType_single = ''single''"
| "ModifierSelectionTypeEnum_value ModifierSelectionType_multiple = ''multiple''"
| "ModifierSelectionTypeEnum_value ModifierSelectionType_optional = ''optional''"

definition modifier_selection_type_enum :: "string list" where
  "modifier_selection_type_enum =
    [''single'',
     ''multiple'',
     ''optional'']"

datatype ProductionOrderStatusEnum =
    ProductionOrderStatus_draft
  | ProductionOrderStatus_in_progress
  | ProductionOrderStatus_completed
  | ProductionOrderStatus_cancelled

fun ProductionOrderStatusEnum_value :: "ProductionOrderStatusEnum \<Rightarrow> string" where
  "ProductionOrderStatusEnum_value ProductionOrderStatus_draft = ''draft''"
| "ProductionOrderStatusEnum_value ProductionOrderStatus_in_progress = ''in_progress''"
| "ProductionOrderStatusEnum_value ProductionOrderStatus_completed = ''completed''"
| "ProductionOrderStatusEnum_value ProductionOrderStatus_cancelled = ''cancelled''"

definition production_order_status_enum :: "string list" where
  "production_order_status_enum =
    [''draft'',
     ''in_progress'',
     ''completed'',
     ''cancelled'']"

datatype AccountTypeEnum =
    AccountType_asset
  | AccountType_liability
  | AccountType_equity
  | AccountType_income
  | AccountType_expense

fun AccountTypeEnum_value :: "AccountTypeEnum \<Rightarrow> string" where
  "AccountTypeEnum_value AccountType_asset = ''asset''"
| "AccountTypeEnum_value AccountType_liability = ''liability''"
| "AccountTypeEnum_value AccountType_equity = ''equity''"
| "AccountTypeEnum_value AccountType_income = ''income''"
| "AccountTypeEnum_value AccountType_expense = ''expense''"

definition account_type_enum :: "string list" where
  "account_type_enum =
    [''asset'',
     ''liability'',
     ''equity'',
     ''income'',
     ''expense'']"

datatype AccountSubtypeEnum =
    AccountSubtype_cash
  | AccountSubtype_bank
  | AccountSubtype_accounts_receivable
  | AccountSubtype_accounts_payable
  | AccountSubtype_inventory
  | AccountSubtype_cogs
  | AccountSubtype_sales_revenue
  | AccountSubtype_tax_payable
  | AccountSubtype_other

fun AccountSubtypeEnum_value :: "AccountSubtypeEnum \<Rightarrow> string" where
  "AccountSubtypeEnum_value AccountSubtype_cash = ''cash''"
| "AccountSubtypeEnum_value AccountSubtype_bank = ''bank''"
| "AccountSubtypeEnum_value AccountSubtype_accounts_receivable = ''accounts_receivable''"
| "AccountSubtypeEnum_value AccountSubtype_accounts_payable = ''accounts_payable''"
| "AccountSubtypeEnum_value AccountSubtype_inventory = ''inventory''"
| "AccountSubtypeEnum_value AccountSubtype_cogs = ''cogs''"
| "AccountSubtypeEnum_value AccountSubtype_sales_revenue = ''sales_revenue''"
| "AccountSubtypeEnum_value AccountSubtype_tax_payable = ''tax_payable''"
| "AccountSubtypeEnum_value AccountSubtype_other = ''other''"

definition account_subtype_enum :: "string list" where
  "account_subtype_enum =
    [''cash'',
     ''bank'',
     ''accounts_receivable'',
     ''accounts_payable'',
     ''inventory'',
     ''cogs'',
     ''sales_revenue'',
     ''tax_payable'',
     ''other'']"

datatype JournalEntryStatusEnum =
    JournalEntryStatus_draft
  | JournalEntryStatus_posted
  | JournalEntryStatus_voided

fun JournalEntryStatusEnum_value :: "JournalEntryStatusEnum \<Rightarrow> string" where
  "JournalEntryStatusEnum_value JournalEntryStatus_draft = ''draft''"
| "JournalEntryStatusEnum_value JournalEntryStatus_posted = ''posted''"
| "JournalEntryStatusEnum_value JournalEntryStatus_voided = ''voided''"

definition journal_entry_status_enum :: "string list" where
  "journal_entry_status_enum =
    [''draft'',
     ''posted'',
     ''voided'']"

datatype subscription_plan_enum =  \<comment> \<open>a column enumeration with no Python class\<close>
    SubscriptionPlan_trial
  | SubscriptionPlan_basic
  | SubscriptionPlan_growth
  | SubscriptionPlan_pro

datatype subscription_status_enum =  \<comment> \<open>a column enumeration with no Python class\<close>
    SubscriptionStatus_trial
  | SubscriptionStatus_active
  | SubscriptionStatus_past_due
  | SubscriptionStatus_suspended
  | SubscriptionStatus_cancelled

datatype sync_status_enum =  \<comment> \<open>a column enumeration with no Python class\<close>
    SyncStatus_pending
  | SyncStatus_synced
  | SyncStatus_conflict

datatype user_status_enum =  \<comment> \<open>a column enumeration with no Python class\<close>
    UserStatus_active
  | UserStatus_inactive
  | UserStatus_locked

section \<open>The Python members and the database labels agree\<close>

lemma UNIV_ProductTypeEnum: "UNIV = {ProductType_standard, ProductType_variant, ProductType_composite, ProductType_manufactured, ProductType_service}"
  by (auto intro: ProductTypeEnum.exhaust)

lemma ProductTypeEnum_labels: "range ProductTypeEnum_value = set product_type_enum"
  by (simp add: UNIV_ProductTypeEnum product_type_enum_def)

lemma ProductTypeEnum_inj: "inj ProductTypeEnum_value"
  by (rule injI, case_tac x; case_tac y; simp)

lemma UNIV_TrackingTypeEnum: "UNIV = {TrackingType_none, TrackingType_batch, TrackingType_serial, TrackingType_expiry}"
  by (auto intro: TrackingTypeEnum.exhaust)

lemma TrackingTypeEnum_labels: "range TrackingTypeEnum_value = set tracking_type_enum"
  by (simp add: UNIV_TrackingTypeEnum tracking_type_enum_def)

lemma TrackingTypeEnum_inj: "inj TrackingTypeEnum_value"
  by (rule injI, case_tac x; case_tac y; simp)

lemma UNIV_PriceListTypeEnum: "UNIV = {PriceListType_retail, PriceListType_wholesale, PriceListType_dine_in, PriceListType_delivery, PriceListType_custom}"
  by (auto intro: PriceListTypeEnum.exhaust)

lemma PriceListTypeEnum_labels: "range PriceListTypeEnum_value = set price_list_type_enum"
  by (simp add: UNIV_PriceListTypeEnum price_list_type_enum_def)

lemma PriceListTypeEnum_inj: "inj PriceListTypeEnum_value"
  by (rule injI, case_tac x; case_tac y; simp)

lemma UNIV_StockMovementTypeEnum: "UNIV = {StockMovementType_opening, StockMovementType_purchase, StockMovementType_sale, StockMovementType_sale_return, StockMovementType_purchase_return, StockMovementType_adjustment_in, StockMovementType_adjustment_out, StockMovementType_transfer_in, StockMovementType_transfer_out, StockMovementType_production_in, StockMovementType_production_out, StockMovementType_waste}"
  by (auto intro: StockMovementTypeEnum.exhaust)

lemma StockMovementTypeEnum_labels: "range StockMovementTypeEnum_value = set stock_movement_type_enum"
  by (simp add: UNIV_StockMovementTypeEnum stock_movement_type_enum_def)

lemma StockMovementTypeEnum_inj: "inj StockMovementTypeEnum_value"
  by (rule injI, case_tac x; case_tac y; simp)

lemma UNIV_ReferenceTypeEnum: "UNIV = {ReferenceType_purchase_receipt_line, ReferenceType_purchase_line, ReferenceType_sale, ReferenceType_sale_line, ReferenceType_sale_return, ReferenceType_sale_return_line, ReferenceType_purchase_return, ReferenceType_purchase_return_line, ReferenceType_stock_adjustment, ReferenceType_stock_adjustment_line, ReferenceType_stock_transfer, ReferenceType_stock_transfer_line, ReferenceType_production_order, ReferenceType_production_line, ReferenceType_waste_entry, ReferenceType_waste_entry_line, ReferenceType_expense, ReferenceType_expense_payment, ReferenceType_sale_payment, ReferenceType_opening_balance, ReferenceType_manual}"
  by (auto intro: ReferenceTypeEnum.exhaust)

lemma ReferenceTypeEnum_labels: "range ReferenceTypeEnum_value = set reference_type_enum"
  by (simp add: UNIV_ReferenceTypeEnum reference_type_enum_def)

lemma ReferenceTypeEnum_inj: "inj ReferenceTypeEnum_value"
  by (rule injI, case_tac x; case_tac y; simp)

lemma UNIV_PurchaseOrderStatusEnum: "UNIV = {PurchaseOrderStatus_draft, PurchaseOrderStatus_ordered, PurchaseOrderStatus_partial, PurchaseOrderStatus_received, PurchaseOrderStatus_cancelled}"
  by (auto intro: PurchaseOrderStatusEnum.exhaust)

lemma PurchaseOrderStatusEnum_labels: "range PurchaseOrderStatusEnum_value = set purchase_order_status_enum"
  by (simp add: UNIV_PurchaseOrderStatusEnum purchase_order_status_enum_def)

lemma PurchaseOrderStatusEnum_inj: "inj PurchaseOrderStatusEnum_value"
  by (rule injI, case_tac x; case_tac y; simp)

lemma UNIV_AdjustmentReasonEnum: "UNIV = {AdjustmentReason_count_correction, AdjustmentReason_damage, AdjustmentReason_theft, AdjustmentReason_expiry, AdjustmentReason_opening_balance, AdjustmentReason_other}"
  by (auto intro: AdjustmentReasonEnum.exhaust)

lemma AdjustmentReasonEnum_labels: "range AdjustmentReasonEnum_value = set adjustment_reason_enum"
  by (simp add: UNIV_AdjustmentReasonEnum adjustment_reason_enum_def)

lemma AdjustmentReasonEnum_inj: "inj AdjustmentReasonEnum_value"
  by (rule injI, case_tac x; case_tac y; simp)

lemma UNIV_TransferStatusEnum: "UNIV = {TransferStatus_draft, TransferStatus_in_transit, TransferStatus_received, TransferStatus_cancelled}"
  by (auto intro: TransferStatusEnum.exhaust)

lemma TransferStatusEnum_labels: "range TransferStatusEnum_value = set transfer_status_enum"
  by (simp add: UNIV_TransferStatusEnum transfer_status_enum_def)

lemma TransferStatusEnum_inj: "inj TransferStatusEnum_value"
  by (rule injI, case_tac x; case_tac y; simp)

lemma UNIV_SaleTypeEnum: "UNIV = {SaleType_pos, SaleType_invoice, SaleType_dine_in, SaleType_takeaway, SaleType_delivery, SaleType_online}"
  by (auto intro: SaleTypeEnum.exhaust)

lemma SaleTypeEnum_labels: "range SaleTypeEnum_value = set sale_type_enum"
  by (simp add: UNIV_SaleTypeEnum sale_type_enum_def)

lemma SaleTypeEnum_inj: "inj SaleTypeEnum_value"
  by (rule injI, case_tac x; case_tac y; simp)

lemma UNIV_SaleStatusEnum: "UNIV = {SaleStatus_draft, SaleStatus_held, SaleStatus_completed, SaleStatus_partially_paid, SaleStatus_cancelled, SaleStatus_voided}"
  by (auto intro: SaleStatusEnum.exhaust)

lemma SaleStatusEnum_labels: "range SaleStatusEnum_value = set sale_status_enum"
  by (simp add: UNIV_SaleStatusEnum sale_status_enum_def)

lemma SaleStatusEnum_inj: "inj SaleStatusEnum_value"
  by (rule injI, case_tac x; case_tac y; simp)

lemma UNIV_PaymentMethodEnum: "UNIV = {PaymentMethod_cash, PaymentMethod_card, PaymentMethod_upi, PaymentMethod_bank_transfer, PaymentMethod_wallet, PaymentMethod_credit, PaymentMethod_cheque, PaymentMethod_other}"
  by (auto intro: PaymentMethodEnum.exhaust)

lemma PaymentMethodEnum_labels: "range PaymentMethodEnum_value = set payment_method_enum"
  by (simp add: UNIV_PaymentMethodEnum payment_method_enum_def)

lemma PaymentMethodEnum_inj: "inj PaymentMethodEnum_value"
  by (rule injI, case_tac x; case_tac y; simp)

lemma UNIV_PaymentStatusEnum: "UNIV = {PaymentStatus_pending, PaymentStatus_completed, PaymentStatus_failed, PaymentStatus_refunded}"
  by (auto intro: PaymentStatusEnum.exhaust)

lemma PaymentStatusEnum_labels: "range PaymentStatusEnum_value = set payment_status_enum"
  by (simp add: UNIV_PaymentStatusEnum payment_status_enum_def)

lemma PaymentStatusEnum_inj: "inj PaymentStatusEnum_value"
  by (rule injI, case_tac x; case_tac y; simp)

lemma UNIV_DiscountTypeEnum: "UNIV = {DiscountType_percentage, DiscountType_fixed_amount}"
  by (auto intro: DiscountTypeEnum.exhaust)

lemma DiscountTypeEnum_labels: "range DiscountTypeEnum_value = set discount_type_enum"
  by (simp add: UNIV_DiscountTypeEnum discount_type_enum_def)

lemma DiscountTypeEnum_inj: "inj DiscountTypeEnum_value"
  by (rule injI, case_tac x; case_tac y; simp)

lemma UNIV_LedgerEntryTypeEnum: "UNIV = {LedgerEntryType_sale, LedgerEntryType_payment, LedgerEntryType_return, LedgerEntryType_opening_balance, LedgerEntryType_adjustment, LedgerEntryType_refund}"
  by (auto intro: LedgerEntryTypeEnum.exhaust)

lemma LedgerEntryTypeEnum_labels: "range LedgerEntryTypeEnum_value = set ledger_entry_type_enum"
  by (simp add: UNIV_LedgerEntryTypeEnum ledger_entry_type_enum_def)

lemma LedgerEntryTypeEnum_inj: "inj LedgerEntryTypeEnum_value"
  by (rule injI, case_tac x; case_tac y; simp)

lemma UNIV_ShiftStatusEnum: "UNIV = {ShiftStatus_open, ShiftStatus_closed}"
  by (auto intro: ShiftStatusEnum.exhaust)

lemma ShiftStatusEnum_labels: "range ShiftStatusEnum_value = set shift_status_enum"
  by (simp add: UNIV_ShiftStatusEnum shift_status_enum_def)

lemma ShiftStatusEnum_inj: "inj ShiftStatusEnum_value"
  by (rule injI, case_tac x; case_tac y; simp)

lemma UNIV_RegisterTxTypeEnum: "UNIV = {RegisterTxType_sale, RegisterTxType_sale_return, RegisterTxType_expense, RegisterTxType_cash_in, RegisterTxType_cash_out, RegisterTxType_opening_float, RegisterTxType_closing_count}"
  by (auto intro: RegisterTxTypeEnum.exhaust)

lemma RegisterTxTypeEnum_labels: "range RegisterTxTypeEnum_value = set register_tx_type_enum"
  by (simp add: UNIV_RegisterTxTypeEnum register_tx_type_enum_def)

lemma RegisterTxTypeEnum_inj: "inj RegisterTxTypeEnum_value"
  by (rule injI, case_tac x; case_tac y; simp)

lemma UNIV_NotificationTypeEnum: "UNIV = {NotificationType_low_stock, NotificationType_expiry_warning, NotificationType_expiry_expired, NotificationType_payment_due, NotificationType_shift_reminder, NotificationType_sync_conflict, NotificationType_system}"
  by (auto intro: NotificationTypeEnum.exhaust)

lemma NotificationTypeEnum_labels: "range NotificationTypeEnum_value = set notification_type_enum"
  by (simp add: UNIV_NotificationTypeEnum notification_type_enum_def)

lemma NotificationTypeEnum_inj: "inj NotificationTypeEnum_value"
  by (rule injI, case_tac x; case_tac y; simp)

lemma UNIV_NotificationChannelEnum: "UNIV = {NotificationChannel_in_app, NotificationChannel_email, NotificationChannel_sms, NotificationChannel_push}"
  by (auto intro: NotificationChannelEnum.exhaust)

lemma NotificationChannelEnum_labels: "range NotificationChannelEnum_value = set notification_channel_enum"
  by (simp add: UNIV_NotificationChannelEnum notification_channel_enum_def)

lemma NotificationChannelEnum_inj: "inj NotificationChannelEnum_value"
  by (rule injI, case_tac x; case_tac y; simp)

lemma UNIV_AuditActionEnum: "UNIV = {AuditAction_create, AuditAction_update, AuditAction_delete, AuditAction_restore, AuditAction_login, AuditAction_logout, AuditAction_sync}"
  by (auto intro: AuditActionEnum.exhaust)

lemma AuditActionEnum_labels: "range AuditActionEnum_value = set audit_action_enum"
  by (simp add: UNIV_AuditActionEnum audit_action_enum_def)

lemma AuditActionEnum_inj: "inj AuditActionEnum_value"
  by (rule injI, case_tac x; case_tac y; simp)

lemma UNIV_TableStatusEnum: "UNIV = {TableStatus_available, TableStatus_occupied, TableStatus_reserved, TableStatus_billing, TableStatus_cleaning}"
  by (auto intro: TableStatusEnum.exhaust)

lemma TableStatusEnum_labels: "range TableStatusEnum_value = set table_status_enum"
  by (simp add: UNIV_TableStatusEnum table_status_enum_def)

lemma TableStatusEnum_inj: "inj TableStatusEnum_value"
  by (rule injI, case_tac x; case_tac y; simp)

lemma UNIV_KotStatusEnum: "UNIV = {KotStatus_pending, KotStatus_preparing, KotStatus_ready, KotStatus_served, KotStatus_cancelled}"
  by (auto intro: KotStatusEnum.exhaust)

lemma KotStatusEnum_labels: "range KotStatusEnum_value = set kot_status_enum"
  by (simp add: UNIV_KotStatusEnum kot_status_enum_def)

lemma KotStatusEnum_inj: "inj KotStatusEnum_value"
  by (rule injI, case_tac x; case_tac y; simp)

lemma UNIV_ModifierSelectionTypeEnum: "UNIV = {ModifierSelectionType_single, ModifierSelectionType_multiple, ModifierSelectionType_optional}"
  by (auto intro: ModifierSelectionTypeEnum.exhaust)

lemma ModifierSelectionTypeEnum_labels: "range ModifierSelectionTypeEnum_value = set modifier_selection_type_enum"
  by (simp add: UNIV_ModifierSelectionTypeEnum modifier_selection_type_enum_def)

lemma ModifierSelectionTypeEnum_inj: "inj ModifierSelectionTypeEnum_value"
  by (rule injI, case_tac x; case_tac y; simp)

lemma UNIV_ProductionOrderStatusEnum: "UNIV = {ProductionOrderStatus_draft, ProductionOrderStatus_in_progress, ProductionOrderStatus_completed, ProductionOrderStatus_cancelled}"
  by (auto intro: ProductionOrderStatusEnum.exhaust)

lemma ProductionOrderStatusEnum_labels: "range ProductionOrderStatusEnum_value = set production_order_status_enum"
  by (simp add: UNIV_ProductionOrderStatusEnum production_order_status_enum_def)

lemma ProductionOrderStatusEnum_inj: "inj ProductionOrderStatusEnum_value"
  by (rule injI, case_tac x; case_tac y; simp)

lemma UNIV_AccountTypeEnum: "UNIV = {AccountType_asset, AccountType_liability, AccountType_equity, AccountType_income, AccountType_expense}"
  by (auto intro: AccountTypeEnum.exhaust)

lemma AccountTypeEnum_labels: "range AccountTypeEnum_value = set account_type_enum"
  by (simp add: UNIV_AccountTypeEnum account_type_enum_def)

lemma AccountTypeEnum_inj: "inj AccountTypeEnum_value"
  by (rule injI, case_tac x; case_tac y; simp)

lemma UNIV_AccountSubtypeEnum: "UNIV = {AccountSubtype_cash, AccountSubtype_bank, AccountSubtype_accounts_receivable, AccountSubtype_accounts_payable, AccountSubtype_inventory, AccountSubtype_cogs, AccountSubtype_sales_revenue, AccountSubtype_tax_payable, AccountSubtype_other}"
  by (auto intro: AccountSubtypeEnum.exhaust)

lemma AccountSubtypeEnum_labels: "range AccountSubtypeEnum_value = set account_subtype_enum"
  by (simp add: UNIV_AccountSubtypeEnum account_subtype_enum_def)

lemma AccountSubtypeEnum_inj: "inj AccountSubtypeEnum_value"
  by (rule injI, case_tac x; case_tac y; simp)

lemma UNIV_JournalEntryStatusEnum: "UNIV = {JournalEntryStatus_draft, JournalEntryStatus_posted, JournalEntryStatus_voided}"
  by (auto intro: JournalEntryStatusEnum.exhaust)

lemma JournalEntryStatusEnum_labels: "range JournalEntryStatusEnum_value = set journal_entry_status_enum"
  by (simp add: UNIV_JournalEntryStatusEnum journal_entry_status_enum_def)

lemma JournalEntryStatusEnum_inj: "inj JournalEntryStatusEnum_value"
  by (rule injI, case_tac x; case_tac y; simp)

lemmas enum_facts = ProductTypeEnum_inj ProductTypeEnum_labels
  TrackingTypeEnum_inj TrackingTypeEnum_labels
  PriceListTypeEnum_inj PriceListTypeEnum_labels
  StockMovementTypeEnum_inj StockMovementTypeEnum_labels
  ReferenceTypeEnum_inj ReferenceTypeEnum_labels
  PurchaseOrderStatusEnum_inj PurchaseOrderStatusEnum_labels
  AdjustmentReasonEnum_inj AdjustmentReasonEnum_labels
  TransferStatusEnum_inj TransferStatusEnum_labels
  SaleTypeEnum_inj SaleTypeEnum_labels
  SaleStatusEnum_inj SaleStatusEnum_labels
  PaymentMethodEnum_inj PaymentMethodEnum_labels
  PaymentStatusEnum_inj PaymentStatusEnum_labels
  DiscountTypeEnum_inj DiscountTypeEnum_labels
  LedgerEntryTypeEnum_inj LedgerEntryTypeEnum_labels
  ShiftStatusEnum_inj ShiftStatusEnum_labels
  RegisterTxTypeEnum_inj RegisterTxTypeEnum_labels
  NotificationTypeEnum_inj NotificationTypeEnum_labels
  NotificationChannelEnum_inj NotificationChannelEnum_labels
  AuditActionEnum_inj AuditActionEnum_labels
  TableStatusEnum_inj TableStatusEnum_labels
  KotStatusEnum_inj KotStatusEnum_labels
  ModifierSelectionTypeEnum_inj ModifierSelectionTypeEnum_labels
  ProductionOrderStatusEnum_inj ProductionOrderStatusEnum_labels
  AccountTypeEnum_inj AccountTypeEnum_labels
  AccountSubtypeEnum_inj AccountSubtypeEnum_labels
  JournalEntryStatusEnum_inj JournalEntryStatusEnum_labels

text \<open>
  Every enumeration agrees with its database column: the member values are exactly the labels
  the column type accepts, and no two members share a label.
\<close>

theorem enum_columns_agree:
  "bij_betw ProductTypeEnum_value UNIV (set product_type_enum) \<and>
   bij_betw TrackingTypeEnum_value UNIV (set tracking_type_enum) \<and>
   bij_betw PriceListTypeEnum_value UNIV (set price_list_type_enum) \<and>
   bij_betw StockMovementTypeEnum_value UNIV (set stock_movement_type_enum) \<and>
   bij_betw ReferenceTypeEnum_value UNIV (set reference_type_enum) \<and>
   bij_betw PurchaseOrderStatusEnum_value UNIV (set purchase_order_status_enum) \<and>
   bij_betw AdjustmentReasonEnum_value UNIV (set adjustment_reason_enum) \<and>
   bij_betw TransferStatusEnum_value UNIV (set transfer_status_enum) \<and>
   bij_betw SaleTypeEnum_value UNIV (set sale_type_enum) \<and>
   bij_betw SaleStatusEnum_value UNIV (set sale_status_enum) \<and>
   bij_betw PaymentMethodEnum_value UNIV (set payment_method_enum) \<and>
   bij_betw PaymentStatusEnum_value UNIV (set payment_status_enum) \<and>
   bij_betw DiscountTypeEnum_value UNIV (set discount_type_enum) \<and>
   bij_betw LedgerEntryTypeEnum_value UNIV (set ledger_entry_type_enum) \<and>
   bij_betw ShiftStatusEnum_value UNIV (set shift_status_enum) \<and>
   bij_betw RegisterTxTypeEnum_value UNIV (set register_tx_type_enum) \<and>
   bij_betw NotificationTypeEnum_value UNIV (set notification_type_enum) \<and>
   bij_betw NotificationChannelEnum_value UNIV (set notification_channel_enum) \<and>
   bij_betw AuditActionEnum_value UNIV (set audit_action_enum) \<and>
   bij_betw TableStatusEnum_value UNIV (set table_status_enum) \<and>
   bij_betw KotStatusEnum_value UNIV (set kot_status_enum) \<and>
   bij_betw ModifierSelectionTypeEnum_value UNIV (set modifier_selection_type_enum) \<and>
   bij_betw ProductionOrderStatusEnum_value UNIV (set production_order_status_enum) \<and>
   bij_betw AccountTypeEnum_value UNIV (set account_type_enum) \<and>
   bij_betw AccountSubtypeEnum_value UNIV (set account_subtype_enum) \<and>
   bij_betw JournalEntryStatusEnum_value UNIV (set journal_entry_status_enum)"
  unfolding bij_betw_def
  by (intro conjI enum_facts)

end
