(* ===== verification/Models.thy ===== *)
theory Models
  imports Enums
begin

text \<open>
  The rows of the tables the modelled services read and write (\<open>app/models/*.py\<close>), and the
  database state that holds them. A model class is a record that extends \<open>row\<close>, the columns of
  \<open>AuditMixin\<close> (a column a table does not have keeps its default). The offline-sync columns of
  \<open>SyncMixin\<close> and the ORM relationships are left out: no modelled service reads the former,
  and the latter are the queries written out in the services' own models.

  Primary keys come from \<open>uuid.uuid4\<close> / \<open>gen_random_uuid()\<close>. The state carries that source as
  the function \<open>uuid_gen\<close> (its \<open>n\<close>-th draw) and the number of draws made; that draws never
  repeat is the documented behaviour the well-formedness invariant \<open>ids_fresh\<close> states.
\<close>

section \<open>JSON values\<close>

datatype json = JNull | JBool bool | JNum decimal | JStr string | JUuid uuid
  | JList "json list" | JObj "(string \<times> json) list"

section \<open>Rows\<close>

record row =
  row_id :: uuid
  business_id :: uuid
  created_at :: datetime
  updated_at :: datetime
  deleted_at :: "datetime option"
  created_by :: "uuid option"
  updated_by :: "uuid option"
  deleted_by :: "uuid option"

subsection \<open>Business, catalogue and prices\<close>

record branch = row +
  br_name :: string
  br_code :: "string option"
  br_is_head_office :: bool
  br_is_active :: bool
  br_address_line1 :: "string option"
  br_address_line2 :: "string option"
  br_city :: "string option"
  br_state :: "string option"
  br_postal_code :: "string option"
  br_phone :: "string option"
  br_email :: "string option"

record business_config = row +
  allow_negative_stock :: bool
  enable_restaurant :: bool
  enable_manufacturing :: bool
  enable_loyalty :: bool
  enable_multi_price_list :: bool
  enable_batch_tracking :: bool
  enable_expiry_tracking :: bool
  enable_weight_billing :: bool
  enable_table_management :: bool
  enable_kot :: bool
  enable_offline_mode :: bool
  enable_accounting :: bool
  default_tax_inclusive :: bool
  fifo_costing_enabled :: bool
  receipt_prefix :: "string option"
  invoice_prefix :: "string option"
  po_prefix :: "string option"
  config_json :: "(string \<times> json) list"

record product = row +
  p_category_id :: "uuid option"
  p_brand_id :: "uuid option"
  p_base_unit_id :: "uuid option"
  p_tax_rate_id :: "uuid option"
  p_name :: string
  p_sku :: "string option"
  p_product_type :: ProductTypeEnum
  p_tracking_type :: TrackingTypeEnum
  p_is_sellable :: bool
  p_is_purchasable :: bool
  p_is_active :: bool
  p_description :: "string option"
  p_image_url :: "string option"
  p_shelf_life_days :: "int option"
  p_min_stock_level :: "decimal option"
  p_max_stock_level :: "decimal option"

record product_variation = row +
  pv_product_id :: uuid
  pv_name :: string
  pv_sku :: "string option"
  pv_unit_id :: "uuid option"
  pv_is_default :: bool
  pv_is_active :: bool
  pv_weight_grams :: "decimal option"

record price_list = row +
  prl_name :: string
  prl_list_type :: PriceListTypeEnum
  prl_is_default :: bool
  prl_is_active :: bool
  prl_valid_from :: "datetime option"
  prl_valid_to :: "datetime option"

record price_list_item = row +
  pli_price_list_id :: uuid
  pli_product_id :: uuid
  pli_variation_id :: "uuid option"
  pli_unit_price :: decimal
  pli_min_qty :: decimal

record tax_rate = row +
  tr_name :: string
  tr_rate :: decimal
  tr_is_compound :: bool
  tr_is_active :: bool

record discount_scheme = row +
  ds_name :: string
  ds_discount_type :: DiscountTypeEnum
  ds_discount_value :: decimal
  ds_min_purchase_amount :: "decimal option"
  ds_valid_from :: "datetime option"
  ds_valid_to :: "datetime option"
  ds_is_active :: bool
  ds_applies_to_json :: "(string \<times> json) list"

subsection \<open>Customers and suppliers\<close>

record customer = row +
  cu_name :: string
  cu_email :: "string option"
  cu_phone :: "string option"
  cu_tax_id :: "string option"
  cu_address_line1 :: "string option"
  cu_city :: "string option"
  cu_credit_limit :: decimal
  cu_is_active :: bool

record customer_ledger = row +
  cl_customer_id :: uuid
  cl_entry_type :: LedgerEntryTypeEnum
  cl_amount :: decimal
  cl_reference_type :: "ReferenceTypeEnum option"
  cl_reference_id :: "uuid option"
  cl_entry_at :: datetime
  cl_notes :: "string option"

record supplier = row +
  su_name :: string
  su_contact_person :: "string option"
  su_email :: "string option"
  su_phone :: "string option"
  su_tax_id :: "string option"
  su_address_line1 :: "string option"
  su_city :: "string option"
  su_payment_terms_days :: int
  su_is_active :: bool

record supplier_ledger = row +
  sl_supplier_id :: uuid
  sl_entry_type :: LedgerEntryTypeEnum
  sl_amount :: decimal
  sl_reference_type :: "ReferenceTypeEnum option"
  sl_reference_id :: "uuid option"
  sl_entry_at :: datetime
  sl_notes :: "string option"

subsection \<open>Cash registers\<close>

record cash_register = row +
  cr_branch_id :: uuid
  cr_name :: string
  cr_device_identifier :: "string option"
  cr_is_active :: bool

record register_shift = row +
  rs_branch_id :: uuid
  rs_cash_register_id :: uuid
  rs_opened_by :: uuid
  rs_closed_by :: "uuid option"
  rs_status :: ShiftStatusEnum
  rs_opening_float :: decimal
  rs_expected_cash :: "decimal option"
  rs_actual_cash :: "decimal option"
  rs_cash_difference :: "decimal option"
  rs_opened_at :: datetime
  rs_closed_at :: "datetime option"
  rs_notes :: "string option"

record register_transaction = row +
  rt_register_shift_id :: uuid
  rt_tx_type :: RegisterTxTypeEnum
  rt_payment_method :: PaymentMethodEnum
  rt_amount :: decimal
  rt_reference_type :: "ReferenceTypeEnum option"
  rt_reference_id :: "uuid option"
  rt_notes :: "string option"
  rt_transacted_at :: datetime

subsection \<open>Inventory\<close>

record purchase_order = row +
  po_branch_id :: uuid
  po_supplier_id :: uuid
  po_number :: string
  po_status :: PurchaseOrderStatusEnum
  po_ordered_at :: "datetime option"
  po_expected_at :: "datetime option"
  po_notes :: "string option"

record purchase_line = row +
  \<comment> \<open>a purchase-order line and, once received, a FIFO cost layer\<close>
  pl_purchase_order_id :: "uuid option"
  pl_production_order_id :: "uuid option"
  pl_product_id :: uuid
  pl_variation_id :: "uuid option"
  pl_ordered_qty :: decimal
  pl_received_qty :: decimal
  pl_qty_remaining :: decimal
  pl_cost_per_unit :: decimal
  pl_tax_rate :: decimal
  pl_branch_id :: "uuid option"
  pl_layer_source :: string
  pl_batch_number :: "string option"
  pl_expiry_date :: "date option"

record purchase_receipt = row +
  pr_branch_id :: uuid
  pr_purchase_order_id :: "uuid option"
  pr_supplier_id :: uuid
  pr_receipt_number :: string
  pr_received_at :: datetime
  pr_supplier_invoice_no :: "string option"
  pr_notes :: "string option"

record purchase_receipt_line = row +
  prn_purchase_receipt_id :: uuid
  prn_purchase_line_id :: "uuid option"
  prn_product_id :: uuid
  prn_variation_id :: "uuid option"
  prn_qty_received :: decimal
  prn_cost_per_unit :: decimal
  prn_batch_number :: "string option"
  prn_expiry_date :: "date option"

record stock_movement = row +
  sm_branch_id :: uuid
  sm_product_id :: uuid
  sm_variation_id :: "uuid option"
  sm_movement_type :: StockMovementTypeEnum
  sm_qty :: decimal
  sm_cost_per_unit :: decimal
  sm_reference_type :: ReferenceTypeEnum
  sm_reference_id :: uuid
  sm_purchase_line_id :: "uuid option"
  sm_batch_number :: "string option"
  sm_expiry_date :: "date option"
  sm_notes :: "string option"
  sm_movement_at :: datetime
  sm_movement_sequence :: "nat option"

record stock_adjustment = row +
  sa_branch_id :: uuid
  sa_adjustment_number :: string
  sa_reason :: AdjustmentReasonEnum
  sa_adjusted_at :: datetime
  sa_notes :: "string option"

record stock_adjustment_line = row +
  sal_stock_adjustment_id :: uuid
  sal_product_id :: uuid
  sal_variation_id :: "uuid option"
  sal_qty_delta :: decimal
  sal_cost_per_unit :: decimal
  sal_notes :: "string option"

record stock_transfer = row +
  st_transfer_number :: string
  st_source_branch_id :: uuid
  st_dest_branch_id :: uuid
  st_status :: TransferStatusEnum
  st_transferred_at :: "datetime option"
  st_received_at :: "datetime option"
  st_notes :: "string option"

record stock_transfer_line = row +
  stl_stock_transfer_id :: uuid
  stl_product_id :: uuid
  stl_variation_id :: "uuid option"
  stl_qty :: decimal
  stl_cost_per_unit :: decimal
  stl_qty_received :: decimal

record waste_entry = row +
  we_branch_id :: uuid
  we_waste_number :: string
  we_wasted_at :: datetime
  we_reason :: AdjustmentReasonEnum
  we_notes :: "string option"

record waste_entry_line = row +
  wel_waste_entry_id :: uuid
  wel_product_id :: uuid
  wel_variation_id :: "uuid option"
  wel_qty :: decimal
  wel_cost_per_unit :: decimal
  wel_batch_number :: "string option"
  wel_expiry_date :: "date option"

record document_number_counter =
  dnc_id :: uuid
  dnc_business_id :: uuid
  dnc_prefix :: string
  dnc_date_key :: string
  dnc_last_sequence :: nat

subsection \<open>Sales and returns\<close>

record sale = row +
  s_branch_id :: uuid
  s_customer_id :: "uuid option"
  s_register_shift_id :: "uuid option"
  s_price_list_id :: "uuid option"
  s_sale_number :: string
  s_sale_type :: SaleTypeEnum
  s_status :: SaleStatusEnum
  s_sold_at :: datetime
  s_notes :: "string option"
  s_discount_scheme_id :: "uuid option"
  s_table_id :: "uuid option"
  s_client_receipt_no :: "string option"
  s_sync_flags :: "string list"
  s_is_offline :: bool
  s_client_created_at :: "datetime option"
  s_device_id :: "string option"
  s_synced_at :: "datetime option"

record sale_line = row +
  sln_sale_id :: uuid
  sln_product_id :: uuid
  sln_variation_id :: "uuid option"
  sln_qty :: decimal
  sln_unit_price :: decimal
  sln_discount_pct :: decimal
  sln_discount_amount :: decimal
  sln_tax_rate :: decimal
  sln_tax_amount :: decimal
  sln_cost_per_unit :: decimal
  sln_cost_estimated :: bool
  sln_notes :: "string option"
  sln_line_order :: int

record sale_payment = row +
  sp_sale_id :: uuid
  sp_payment_method :: PaymentMethodEnum
  sp_amount :: decimal
  sp_tendered_amount :: "decimal option"
  sp_change_given :: decimal
  sp_status :: PaymentStatusEnum
  sp_reference_no :: "string option"
  sp_paid_at :: datetime

record sale_return = row +
  sr_branch_id :: uuid
  sr_sale_id :: "uuid option"
  sr_customer_id :: "uuid option"
  sr_return_number :: string
  sr_returned_at :: datetime
  sr_reason :: "string option"

record sale_return_line = row +
  srl_sale_return_id :: uuid
  srl_sale_line_id :: "uuid option"
  srl_product_id :: uuid
  srl_variation_id :: "uuid option"
  srl_qty :: decimal
  srl_unit_price :: decimal
  srl_discount_amount :: decimal
  srl_tax_amount :: decimal

record sale_return_payment = row +
  srp_sale_return_id :: uuid
  srp_payment_method :: PaymentMethodEnum
  srp_amount :: decimal
  srp_status :: PaymentStatusEnum
  srp_refunded_at :: datetime

subsection \<open>Accounting\<close>

record chart_of_account = row +
  coa_parent_id :: "uuid option"
  coa_account_code :: string
  coa_account_name :: string
  coa_account_type :: AccountTypeEnum
  coa_account_subtype :: "AccountSubtypeEnum option"
  coa_is_system :: bool
  coa_is_active :: bool
  coa_description :: "string option"

record journal_entry = row +
  je_branch_id :: "uuid option"
  je_entry_number :: string
  je_status :: JournalEntryStatusEnum
  je_entry_date :: date
  je_description :: "string option"
  je_reference_type :: "ReferenceTypeEnum option"
  je_reference_id :: "uuid option"
  je_posted_at :: "datetime option"

record journal_line = row +
  jl_journal_entry_id :: uuid
  jl_account_id :: uuid
  jl_debit_amount :: decimal
  jl_credit_amount :: decimal
  jl_description :: "string option"
  jl_line_order :: int

subsection \<open>Restaurant\<close>

record floor_plan = row +
  fp_branch_id :: uuid
  fp_name :: string
  fp_sort_order :: int
  fp_is_active :: bool
  fp_layout_json :: "(string \<times> json) list"

record dining_table = row +
  dt_branch_id :: uuid
  dt_floor_plan_id :: "uuid option"
  dt_table_number :: string
  dt_capacity :: int
  dt_status :: TableStatusEnum
  dt_pos_x :: "decimal option"
  dt_pos_y :: "decimal option"
  dt_is_active :: bool

record modifier_group = row +
  mg_name :: string
  mg_selection_type :: ModifierSelectionTypeEnum
  mg_min_selections :: int
  mg_max_selections :: "int option"
  mg_is_required :: bool
  mg_sort_order :: int
  mg_is_active :: bool

record modifier = row +
  md_modifier_group_id :: uuid
  md_name :: string
  md_price_delta :: decimal
  md_is_active :: bool
  md_sort_order :: int

record product_modifier_group =
  pmg_id :: uuid
  pmg_business_id :: uuid
  pmg_product_id :: uuid
  pmg_modifier_group_id :: uuid
  pmg_created_at :: datetime
  pmg_created_by :: "uuid option"

record kot_order = row +
  ko_branch_id :: uuid
  ko_sale_id :: "uuid option"
  ko_table_id :: "uuid option"
  ko_kot_number :: string
  ko_status :: KotStatusEnum
  ko_fired_at :: datetime
  ko_ready_at :: "datetime option"
  ko_served_at :: "datetime option"
  ko_notes :: "string option"

record kot_order_line = row +
  kol_kot_order_id :: uuid
  kol_sale_line_id :: "uuid option"
  kol_product_id :: uuid
  kol_variation_id :: "uuid option"
  kol_qty :: decimal
  kol_modifiers_json :: "json list"
  kol_kitchen_notes :: "string option"
  kol_status :: KotStatusEnum

subsection \<open>Expenses\<close>

record expense_category = row +
  ec_name :: string
  ec_parent_id :: "uuid option"
  ec_is_active :: bool

record expense = row +
  ex_branch_id :: uuid
  ex_expense_category_id :: uuid
  ex_supplier_id :: "uuid option"
  ex_expense_number :: string
  ex_description :: "string option"
  ex_expense_date :: date
  ex_amount :: decimal
  ex_tax_amount :: decimal

record expense_payment = row +
  ep_expense_id :: uuid
  ep_payment_method :: PaymentMethodEnum
  ep_amount :: decimal
  ep_status :: PaymentStatusEnum
  ep_paid_at :: datetime
  ep_reference_no :: "string option"

subsection \<open>Manufacturing\<close>

record bom_header = row +
  bh_product_id :: uuid
  bh_variation_id :: "uuid option"
  bh_name :: string
  bh_output_qty :: decimal
  bh_is_active :: bool
  bh_version :: int

record bom_line = row +
  bl_bom_header_id :: uuid
  bl_ingredient_product_id :: uuid
  bl_ingredient_variation_id :: "uuid option"
  bl_qty_required :: decimal
  bl_unit_id :: "uuid option"
  bl_wastage_pct :: decimal
  bl_sort_order :: int

record production_order = row +
  po_branch :: uuid
  po_bom_header_id :: uuid
  po_production_number :: string
  po_production_status :: ProductionOrderStatusEnum
  po_qty_to_produce :: decimal
  po_qty_produced :: decimal
  po_started_at :: "datetime option"
  po_completed_at :: "datetime option"
  po_production_notes :: "string option"

record production_line = row +
  pdl_production_order_id :: uuid
  pdl_bom_line_id :: "uuid option"
  pdl_product_id :: uuid
  pdl_variation_id :: "uuid option"
  pdl_qty_consumed :: decimal
  pdl_cost_per_unit :: decimal

subsection \<open>Categories, brands, units\<close>

record category = row +
  ca_parent_id :: "uuid option"
  ca_name :: string
  ca_slug :: "string option"
  ca_sort_order :: int
  ca_is_active :: bool

record brand = row +
  bd_name :: string
  bd_is_active :: bool

record unit_of_measure = row +
  un_name :: string
  un_symbol :: string
  un_is_base_unit :: bool

record unit_conversion = row +
  uc_from_unit_id :: uuid
  uc_to_unit_id :: uuid
  uc_conversion_factor :: decimal

record product_location = row +
  plo_branch_id :: uuid
  plo_product_id :: uuid
  plo_variation_id :: "uuid option"
  plo_is_available :: bool
  plo_min_stock_level :: "decimal option"
  plo_max_stock_level :: "decimal option"
  plo_bin_location :: "string option"

record barcode = row +
  bc_product_id :: uuid
  bc_variation_id :: "uuid option"
  bc_barcode :: string
  bc_barcode_type :: string
  bc_is_primary :: bool

subsection \<open>Users, roles and sessions\<close>

record business = row +
  \<comment> \<open>its own \<open>business_id\<close> is its id\<close>
  bu_name :: string
  bu_legal_name :: "string option"
  bu_tax_id :: "string option"
  bu_email :: "string option"
  bu_phone :: "string option"
  bu_address_line1 :: "string option"
  bu_address_line2 :: "string option"
  bu_city :: "string option"
  bu_state :: "string option"
  bu_postal_code :: "string option"
  bu_country_code :: string
  bu_currency_code :: string
  bu_timezone :: string
  bu_logo_url :: "string option"
  bu_subscription_plan :: subscription_plan_enum
  bu_subscription_status :: subscription_status_enum
  bu_trial_ends_at :: "datetime option"
  bu_subscription_ends_at :: "datetime option"
  bu_plan_id :: "uuid option"
  bu_is_active :: bool

record app_user = row +
  us_default_branch_id :: "uuid option"
  us_email :: "string option"
  us_phone :: "string option"
  us_password_hash :: "string option"
  us_full_name :: string
  us_pin_hash :: "string option"
  us_is_locked :: bool
  us_failed_login_attempts :: int
  us_locked_until :: "datetime option"
  us_password_changed_at :: "datetime option"
  us_token_version :: int
  us_status :: user_status_enum
  us_last_login_at :: "datetime option"

record role = row +
  ro_name :: string
  ro_description :: "string option"
  ro_is_system :: bool

record permission =
  pe_id :: uuid
  pe_permission_key :: string
  pe_module :: string
  pe_description :: "string option"

record role_permission =
  rp_id :: uuid
  rp_business_id :: uuid
  rp_role_id :: uuid
  rp_permission_id :: uuid
  rp_created_at :: datetime
  rp_created_by :: "uuid option"

record user_role = row +
  ur_user_id :: uuid
  ur_role_id :: uuid
  ur_branch_id :: "uuid option"

record refresh_token =
  rk_id :: uuid
  rk_user_id :: uuid
  rk_business_id :: uuid
  rk_jti :: string
  rk_family_id :: "uuid option"
  rk_expires_at :: datetime
  rk_revoked_at :: "datetime option"
  rk_ip_address :: "string option"
  rk_user_agent :: "string option"
  rk_created_at :: datetime

subsection \<open>Settings and devices\<close>

record app_setting = row +
  as_branch_id :: "uuid option"
  as_setting_key :: string
  as_setting_value :: "(string \<times> json) list"

record sync_device =
  sd_id :: uuid
  sd_business_id :: uuid
  sd_device_id :: string
  sd_name :: "string option"
  sd_app_version :: "string option"
  sd_last_user_id :: "uuid option"
  sd_first_seen_at :: datetime
  sd_last_seen_at :: datetime
  sd_revoked_at :: "datetime option"
  sd_revoked_by :: "uuid option"

record op_error =
  oe_code :: string
  oe_message :: "string \<times> fmt_arg list"
  oe_retryable :: bool

record op_result =
  or_op_id :: "uuid option"
  or_status :: string
  or_server_id :: "uuid option"
  or_official_number :: "string option"
  or_flags :: "string list"
  or_error :: "op_error option"
  or_original_status :: "string option"

record sync_op =
  so_id :: uuid
  so_business_id :: uuid
  so_op_id :: uuid
  so_device_id :: string
  so_batch_id :: "string option"
  so_user_id :: "uuid option"
  so_op_type :: string
  so_status :: string
  so_payload_hash :: string
  so_result :: op_result  \<comment> \<open>the JSON object that the push service stores\<close>
  so_client_created_at :: "datetime option"
  so_occurred_at :: "datetime option"
  so_received_at :: datetime

subsection \<open>Notifications and audit\<close>

record notification_log = row +
  nl_branch_id :: "uuid option"
  nl_user_id :: "uuid option"
  nl_notification_type :: NotificationTypeEnum
  nl_channel :: NotificationChannelEnum
  nl_title :: "string \<times> fmt_arg list"
  nl_body :: "(string \<times> fmt_arg list) option"
  nl_payload_json :: "(string \<times> json) list"
  nl_is_read :: bool
  nl_read_at :: "datetime option"

record audit_log =
  al_business_id :: uuid
  al_user_id :: "uuid option"
  al_branch_id :: "uuid option"
  al_action :: AuditActionEnum
  al_table_name :: string
  al_record_id :: uuid
  al_old_values :: "(string \<times> json) list option"
  al_new_values :: "(string \<times> json) list option"
  al_ip_address :: "string option"
  al_user_agent :: "string option"
  al_device_id :: "string option"

section \<open>The database\<close>

record db =
  uuid_gen :: "nat \<Rightarrow> uuid"
  uuid_next :: nat
  branches :: "branch list"
  business_configs :: "business_config list"
  products :: "product list"
  variations :: "product_variation list"
  price_lists :: "price_list list"
  price_list_items :: "price_list_item list"
  tax_rates :: "tax_rate list"
  discount_schemes :: "discount_scheme list"
  customers :: "customer list"
  customer_ledgers :: "customer_ledger list"
  suppliers :: "supplier list"
  supplier_ledgers :: "supplier_ledger list"
  cash_registers :: "cash_register list"
  shifts :: "register_shift list"
  register_txs :: "register_transaction list"
  purchase_orders :: "purchase_order list"
  purchase_lines :: "purchase_line list"
  purchase_receipts :: "purchase_receipt list"
  purchase_receipt_lines :: "purchase_receipt_line list"
  movements :: "stock_movement list"
  adjustments :: "stock_adjustment list"
  adjustment_lines :: "stock_adjustment_line list"
  transfers :: "stock_transfer list"
  transfer_lines :: "stock_transfer_line list"
  wastes :: "waste_entry list"
  waste_lines :: "waste_entry_line list"
  counters :: "document_number_counter list"
  sales :: "sale list"
  sale_lines :: "sale_line list"
  sale_payments :: "sale_payment list"
  sale_returns :: "sale_return list"
  sale_return_lines :: "sale_return_line list"
  sale_return_payments :: "sale_return_payment list"
  floor_plans :: "floor_plan list"
  dining_tables :: "dining_table list"
  modifier_groups :: "modifier_group list"
  modifiers :: "modifier list"
  product_modifier_groups :: "product_modifier_group list"
  kot_orders :: "kot_order list"
  kot_order_lines :: "kot_order_line list"
  accounts :: "chart_of_account list"
  journal_entries :: "journal_entry list"
  journal_lines :: "journal_line list"
  notifications :: "notification_log list"
  audits :: "audit_log list"
  expense_categories :: "expense_category list"
  expenses :: "expense list"
  expense_payments :: "expense_payment list"
  boms :: "bom_header list"
  bom_lines :: "bom_line list"
  production_orders :: "production_order list"
  production_lines :: "production_line list"
  categories :: "category list"
  brands :: "brand list"
  units_of_measure :: "unit_of_measure list"
  unit_conversions :: "unit_conversion list"
  product_locations :: "product_location list"
  barcodes :: "barcode list"
  businesses :: "business list"
  app_users :: "app_user list"
  roles :: "role list"
  permissions :: "permission list"
  role_permissions :: "role_permission list"
  user_roles :: "user_role list"
  refresh_tokens :: "refresh_token list"
  app_settings :: "app_setting list"
  sync_devices :: "sync_device list"
  sync_ops :: "sync_op list"

definition empty_db :: "(nat \<Rightarrow> uuid) \<Rightarrow> db" where
  "empty_db g = \<lparr>uuid_gen = g, uuid_next = 0, branches = [], business_configs = [], products = [],
     variations = [], price_lists = [], price_list_items = [], tax_rates = [],
     discount_schemes = [], customers = [], customer_ledgers = [], suppliers = [],
     supplier_ledgers = [], cash_registers = [], shifts = [], register_txs = [],
     purchase_orders = [], purchase_lines = [], purchase_receipts = [],
     purchase_receipt_lines = [], movements = [], adjustments = [], adjustment_lines = [],
     transfers = [], transfer_lines = [], wastes = [], waste_lines = [], counters = [],
     sales = [], sale_lines = [], sale_payments = [], sale_returns = [],
     sale_return_lines = [], sale_return_payments = [], floor_plans = [], dining_tables = [],
     modifier_groups = [], modifiers = [], product_modifier_groups = [], kot_orders = [],
     kot_order_lines = [], accounts = [], journal_entries = [],
     journal_lines = [], notifications = [], audits = [],
     expense_categories = [], expenses = [], expense_payments = [], boms = [], bom_lines = [],
     production_orders = [], production_lines = [], categories = [], brands = [],
     units_of_measure = [], unit_conversions = [], product_locations = [], barcodes = [],
     businesses = [], app_users = [], roles = [], permissions = [], role_permissions = [],
     user_roles = [], refresh_tokens = [], app_settings = [], sync_devices = [], sync_ops = []\<rparr>"

definition fresh_uuid :: "db \<Rightarrow> uuid \<times> db" where
  "fresh_uuid s = (uuid_gen s (uuid_next s), s\<lparr>uuid_next := Suc (uuid_next s)\<rparr>)"

definition new_row :: "uuid \<Rightarrow> uuid \<Rightarrow> uuid option \<Rightarrow> datetime \<Rightarrow> 'a \<Rightarrow> 'a row_scheme" where
  \<comment> \<open>the audit columns of a row that has just been added and flushed, before its own columns\<close>
  "new_row i b u now cols =
     \<lparr>row_id = i, business_id = b, created_at = now, updated_at = now, deleted_at = None,
      created_by = u, updated_by = None, deleted_by = None, \<dots> = cols\<rparr>"

declare new_row_def [simp]

subsection \<open>Drawn and fresh ids\<close>

definition drawn :: "db \<Rightarrow> uuid set" where
  "drawn s = uuid_gen s ` {..<uuid_next s}"

definition keyed :: "'a row_scheme list \<Rightarrow> db \<Rightarrow> bool" where
  \<comment> \<open>a table whose primary keys are distinct draws of the source\<close>
  "keyed rows s \<longleftrightarrow> distinct (map row_id rows) \<and> set (map row_id rows) \<subseteq> drawn s"

lemma fresh_uuid_drawn:
  "fresh_uuid s = (i, s') \<Longrightarrow> drawn s' = insert i (drawn s)"
  unfolding fresh_uuid_def drawn_def by clarsimp (simp add: lessThan_Suc)

lemma fresh_uuid_new:
  "inj (uuid_gen s) \<Longrightarrow> fresh_uuid s = (i, s') \<Longrightarrow> i \<notin> drawn s"
  by (auto simp: fresh_uuid_def drawn_def inj_def)

lemma keyed_mono: "keyed rows s \<Longrightarrow> drawn s \<subseteq> drawn s' \<Longrightarrow> keyed rows s'"
  by (auto simp: keyed_def)

lemma keyed_Nil [simp]: "keyed [] s"
  by (simp add: keyed_def)

lemma keyed_snoc:
  assumes "keyed rows s" "inj (uuid_gen s)" "fresh_uuid s = (row_id r, s')"
  shows "keyed (rows @ [r]) s'"
  using assms fresh_uuid_new [OF assms(2,3)] fresh_uuid_drawn [OF assms(3)]
  by (auto simp: keyed_def)

lemma keyed_map:
  "(\<And>r. row_id (f r) = row_id r) \<Longrightarrow> keyed (map f rows) s = keyed rows s"
  by (simp add: keyed_def comp_def)

end
