(* ===== verification/Ledger.thy ===== *)
theory Ledger
  imports Prelude "HOL-Library.Multiset"
begin

text \<open>
  The contract of the append-only ledgers of this program: a balance per account is the sum of
  the entries posted to that account, so posting moves one balance by the posted amount and no
  other. The stock ledger, the customer accounts, the supplier accounts and the register journal
  are its interpretations; what follows from the contract alone is proved here once.
\<close>

locale ledger =
  fixes balance :: "'s \<Rightarrow> 'k \<Rightarrow> rat"
    and posts :: "'k \<Rightarrow> rat \<Rightarrow> 's \<Rightarrow> 's \<Rightarrow> bool"
  assumes post_own: "posts k a s s' \<Longrightarrow> balance s' k = balance s k + a"
    and post_other: "posts k a s s' \<Longrightarrow> k' \<noteq> k \<Longrightarrow> balance s' k' = balance s k'"
begin

fun run :: "('k \<times> rat) list \<Rightarrow> 's \<Rightarrow> 's \<Rightarrow> bool" where
  \<comment> \<open>the entries are posted one after another\<close>
  "run [] s s' \<longleftrightarrow> s' = s"
| "run ((k, a) # es) s s' \<longleftrightarrow> (\<exists>t. posts k a s t \<and> run es t s')"

abbreviation entries_of :: "'k \<Rightarrow> ('k \<times> rat) list \<Rightarrow> rat" where
  "entries_of k es \<equiv> sum_where snd (\<lambda>e. fst e = k) es"

lemma post_balance:
  "posts k a s s' \<Longrightarrow> balance s' k' = balance s k' + (if k' = k then a else 0)"
  using post_own post_other by auto

lemma run_append: "run (es @ fs) s s' \<longleftrightarrow> (\<exists>t. run es s t \<and> run fs t s')"
  by (induction es arbitrary: s) (auto, blast+)

lemma run_balance: "run es s s' \<Longrightarrow> balance s' k = balance s k + entries_of k es"
proof (induction es arbitrary: s)
  case (Cons e es)
  obtain l a where e: "e = (l, a)" by (cases e)
  with Cons.prems obtain t where "posts l a s t" "run es t s'" by auto
  with Cons.IH [of t] show ?case by (auto simp: e post_balance)
qed simp

lemma run_other: "run es s s' \<Longrightarrow> k \<notin> fst ` set es \<Longrightarrow> balance s' k = balance s k"
  by (auto simp: run_balance image_iff intro!: sum_where_none)

lemma entries_of_mset: "mset es = mset fs \<Longrightarrow> entries_of k es = entries_of k fs"
  by (simp add: sum_where_def flip: sum_mset_sum_list)

lemma run_order: \<comment> \<open>the order of posting does not matter\<close>
  "run es s s' \<Longrightarrow> run fs s s'' \<Longrightarrow> mset es = mset fs \<Longrightarrow> balance s' k = balance s'' k"
  by (metis run_balance entries_of_mset)

lemma entries_of_negated: "entries_of k (map (\<lambda>(k, a). (k, - a)) es) = - entries_of k es"
  by (induction es) auto

lemma run_reversed: \<comment> \<open>posting every entry again with the opposite sign undoes it\<close>
  assumes "run es s t" "run (map (\<lambda>(k, a). (k, - a)) es) t s'"
  shows "balance s' k = balance s k"
  using run_balance [OF assms(1), of k] run_balance [OF assms(2), of k]
  by (simp add: entries_of_negated)

lemma entries_total:
  assumes "finite K" "fst ` set es \<subseteq> K"
  shows "(\<Sum>k\<in>K. entries_of k es) = sum_list (map snd es)"
  using assms(2)
proof (induction es)
  case (Cons e es)
  have "(\<Sum>k\<in>K. if fst e = k then snd e else 0) = snd e"
    using assms(1) Cons.prems by (simp add: sum.delta')
  with Cons show ?case by (simp add: sum.distrib)
qed simp

lemma run_total: \<comment> \<open>what is posted inside a set of accounts moves their total by its sum\<close>
  assumes "run es s s'" "finite K" "fst ` set es \<subseteq> K"
  shows "(\<Sum>k\<in>K. balance s' k) = (\<Sum>k\<in>K. balance s k) + sum_list (map snd es)"
  using run_balance [OF assms(1)] entries_total [OF assms(2,3)] by (simp add: sum.distrib)

end

end
