(* ===== verification/Stock.thy ===== *)
theory Stock
  imports Models Ledger
begin

text \<open>
  \<open>app/services/stock_service.py\<close>: document numbers, the lookups every handler starts with, and
  the stock ledger, whose balances are sums of signed movements. The clock of a request gives
  the instant \<open>_now()\<close> reads and the local date key \<open>local_date_key(zone)\<close> of
  \<open>app/services/business_time.py\<close>; every read during one request sees the same instant. Row and
  advisory locks do not appear: a handler is one transaction and the model runs them one at a
  time, which is what the locks are taken for.
\<close>

record clock =
  now :: datetime
  date_key :: string

section \<open>Document numbers\<close>

definition digit_char :: "nat \<Rightarrow> char" where
  "digit_char d = char_of (48 + d)"

fun digits :: "nat \<Rightarrow> string" where
  "digits n = (if n < 10 then [digit_char n] else digits (n div 10) @ [digit_char (n mod 10)])"

declare digits.simps [simp del]

definition pad4 :: "nat \<Rightarrow> string" where
  \<comment> \<open>\<open>f"{seq:04d}"\<close>\<close>
  "pad4 n = replicate (4 - length (digits n)) CHR ''0'' @ digits n"

definition counter_is :: "uuid \<Rightarrow> string \<Rightarrow> string \<Rightarrow> document_number_counter \<Rightarrow> bool" where
  "counter_is bid prefix key r \<longleftrightarrow>
     dnc_business_id r = bid \<and> dnc_prefix r = prefix \<and> dnc_date_key r = key"

definition generate_document_number :: "clock \<Rightarrow> uuid \<Rightarrow> string \<Rightarrow> db \<Rightarrow> string \<times> db" where
  "generate_document_number c bid prefix s =
     (let date_str = date_key c;
          (seq, s') =
            (case filter (counter_is bid prefix date_str) (counters s) of
               r # _ \<Rightarrow>
                 (Suc (dnc_last_sequence r),
                  s\<lparr>counters := update_where (counter_is bid prefix date_str)
                      (\<lambda>r. r\<lparr>dnc_last_sequence := Suc (dnc_last_sequence r)\<rparr>) (counters s)\<rparr>)
             | [] \<Rightarrow>
                 (let (i, s) = fresh_uuid s
                  in (1, s\<lparr>counters := counters s @
                        [\<lparr>dnc_id = i, dnc_business_id = bid, dnc_prefix = prefix,
                          dnc_date_key = date_str, dnc_last_sequence = 1\<rparr>]\<rparr>)))
      in (prefix @ ''-'' @ date_str @ ''-'' @ pad4 seq, s'))"

section \<open>Lookups\<close>

definition live :: "'a row_scheme \<Rightarrow> bool" where
  "live r \<longleftrightarrow> deleted_at r = None"

definition verify_branch :: "db \<Rightarrow> uuid \<Rightarrow> uuid \<Rightarrow> branch res" where
  "verify_branch s branch_id bid =
     require_one (HTTPException 400 ''Branch not found'' [])
       (filter (\<lambda>b. row_id b = branch_id \<and> business_id b = bid \<and> live b) (branches s))"

definition verify_product :: "db \<Rightarrow> uuid \<Rightarrow> uuid \<Rightarrow> product res" where
  "verify_product s product_id bid =
     require_one (HTTPException 400 ''Product not found'' [])
       (filter (\<lambda>p. row_id p = product_id \<and> business_id p = bid \<and> live p) (products s))"

definition verify_variation :: "db \<Rightarrow> uuid \<Rightarrow> uuid \<Rightarrow> uuid \<Rightarrow> product_variation res" where
  "verify_variation s variation_id product_id bid =
     require_one (HTTPException 400 ''Variation not found for product'' [])
       (filter (\<lambda>v. row_id v = variation_id \<and> pv_product_id v = product_id \<and>
                     business_id v = bid \<and> live v) (variations s))"

definition get_allow_negative_stock :: "db \<Rightarrow> uuid \<Rightarrow> bool res" where
  "get_allow_negative_stock s bid =
     bind_res (scalar_one_or_none
       (map allow_negative_stock
         (filter (\<lambda>c. business_id c = bid \<and> live c) (business_configs s))))
       (\<lambda>value. Inr (case value of Some b \<Rightarrow> b | None \<Rightarrow> False))"

section \<open>The stock ledger\<close>

definition in_position :: "uuid \<Rightarrow> uuid \<Rightarrow> uuid \<Rightarrow> uuid option \<Rightarrow> stock_movement \<Rightarrow> bool" where
  "in_position bid branch_id product_id variation_id m \<longleftrightarrow>
     business_id m = bid \<and> sm_branch_id m = branch_id \<and> sm_product_id m = product_id \<and>
     live m \<and> sm_variation_id m = variation_id"

definition get_stock_balance :: "db \<Rightarrow> uuid \<Rightarrow> uuid \<Rightarrow> uuid \<Rightarrow> uuid option \<Rightarrow> decimal" where
  "get_stock_balance s bid branch_id product_id variation_id =
     sum_where sm_qty (in_position bid branch_id product_id variation_id) (movements s)"

definition create_stock_movement ::
  "clock \<Rightarrow> uuid \<Rightarrow> uuid \<Rightarrow> uuid \<Rightarrow> uuid option \<Rightarrow> StockMovementTypeEnum \<Rightarrow> decimal \<Rightarrow> decimal \<Rightarrow>
   ReferenceTypeEnum \<Rightarrow> uuid \<Rightarrow> uuid \<Rightarrow> uuid option \<Rightarrow> string option \<Rightarrow> date option \<Rightarrow>
   string option \<Rightarrow> datetime option \<Rightarrow> nat option \<Rightarrow> db \<Rightarrow> stock_movement \<times> db" where
  "create_stock_movement c bid branch_id product_id variation_id movement_type qty cost_per_unit
     reference_type reference_id user purchase_line_id batch_number expiry_date notes
     movement_at movement_sequence s =
     (let (i, s) = fresh_uuid s;
          movement = new_row i bid (Some user) (now c)
            \<lparr>sm_branch_id = branch_id, sm_product_id = product_id,
             sm_variation_id = variation_id, sm_movement_type = movement_type,
             sm_qty = qty, sm_cost_per_unit = cost_per_unit,
             sm_reference_type = reference_type, sm_reference_id = reference_id,
             sm_purchase_line_id = purchase_line_id, sm_batch_number = batch_number,
             sm_expiry_date = expiry_date, sm_notes = notes,
             sm_movement_at = or_else movement_at (now c),
             sm_movement_sequence = movement_sequence\<rparr>
      in (movement, s\<lparr>movements := movements s @ [movement]\<rparr>))"

definition check_sufficient_stock ::
  "db \<Rightarrow> uuid \<Rightarrow> uuid \<Rightarrow> uuid \<Rightarrow> uuid option \<Rightarrow> decimal \<Rightarrow> bool" where
  "check_sufficient_stock s bid branch_id product_id variation_id required_qty \<longleftrightarrow>
     required_qty \<le> get_stock_balance s bid branch_id product_id variation_id"

record StockBalanceResponse =
  sb_product_id :: uuid
  sb_variation_id :: "uuid option"
  sb_branch_id :: uuid
  sb_current_qty :: decimal
  sb_last_movement_at :: "datetime option"

definition max_at :: "stock_movement list \<Rightarrow> datetime option" where
  \<comment> \<open>\<open>func.max\<close>: NULL over no rows\<close>
  "max_at ms = (if ms = [] then None else Some (Max (sm_movement_at ` set ms)))"

definition get_stock_balance_detail ::
  "db \<Rightarrow> uuid \<Rightarrow> uuid \<Rightarrow> uuid \<Rightarrow> uuid option \<Rightarrow> StockBalanceResponse" where
  "get_stock_balance_detail s bid branch_id product_id variation_id =
     (let rows = filter (in_position bid branch_id product_id variation_id) (movements s)
      in \<lparr>sb_product_id = product_id, sb_variation_id = variation_id, sb_branch_id = branch_id,
          sb_current_qty = sum_list (map sm_qty rows), sb_last_movement_at = max_at rows\<rparr>)"

definition get_stock_balances_for_branch ::
  "db \<Rightarrow> uuid \<Rightarrow> uuid \<Rightarrow> uuid list \<Rightarrow> StockBalanceResponse list" where
  \<comment> \<open>one row per group, in the order the groups first occur\<close>
  "get_stock_balances_for_branch s bid branch_id product_ids =
     (let rows = filter (\<lambda>m. business_id m = bid \<and> sm_branch_id m = branch_id \<and> live m \<and>
                             (product_ids = [] \<or> sm_product_id m \<in> set product_ids)) (movements s);
          key = (\<lambda>m. (sm_product_id m, sm_variation_id m))
      in map (\<lambda>(p, v).
           let g = filter (\<lambda>m. key m = (p, v)) rows
           in \<lparr>sb_product_id = p, sb_variation_id = v, sb_branch_id = branch_id,
               sb_current_qty = sum_list (map sm_qty g), sb_last_movement_at = max_at g\<rparr>)
         (remdups (map key rows)))"

definition opt_eq :: "'a option \<Rightarrow> 'a \<Rightarrow> bool" where
  \<comment> \<open>an optional filter of a query\<close>
  "opt_eq f x \<longleftrightarrow> (case f of None \<Rightarrow> True | Some v \<Rightarrow> x = v)"

definition get_stock_movements ::
  "db \<Rightarrow> uuid \<Rightarrow> uuid option \<Rightarrow> uuid option \<Rightarrow> StockMovementTypeEnum option \<Rightarrow> nat \<Rightarrow> nat \<Rightarrow>
     stock_movement list \<times> nat" where
  "get_stock_movements s bid branch_id product_id movement_type skip limit =
     (let rows = filter (\<lambda>m. business_id m = bid \<and> live m \<and> opt_eq branch_id (sm_branch_id m) \<and>
                   opt_eq product_id (sm_product_id m) \<and>
                   opt_eq movement_type (sm_movement_type m)) (movements s)
      in (take limit (drop skip (sort_key (\<lambda>m. - sm_movement_at m) rows)), length rows))"

section \<open>Document numbers never repeat\<close>

definition dec_val :: "string \<Rightarrow> nat" where
  "dec_val = foldl (\<lambda>n ch. 10 * n + (of_char ch - 48)) 0"

lemma of_digit_char: "d < 10 \<Longrightarrow> of_char (digit_char d) - 48 = d"
  by (simp add: digit_char_def)

lemma dec_val_digits: "dec_val (digits n) = n"
proof (induction n rule: digits.induct)
  case (1 n)
  show ?case
    by (subst digits.simps) (use 1 in \<open>auto simp: dec_val_def of_digit_char\<close>)
qed

lemma dec_val_zeros: "dec_val (replicate k CHR ''0'' @ ds) = dec_val ds"
  by (induction k) (simp_all add: dec_val_def)

lemma dec_val_pad4: "dec_val (pad4 n) = n"
  by (simp add: pad4_def dec_val_zeros dec_val_digits)

lemma pad4_inj: "pad4 m = pad4 n \<longleftrightarrow> m = n"
  by (metis dec_val_pad4)

lemma append_dash_inject:
  assumes "CHR ''-'' \<notin> set p" "CHR ''-'' \<notin> set q"
  shows "p @ CHR ''-'' # x = q @ CHR ''-'' # y \<longleftrightarrow> p = q \<and> x = y"
  using assms by (induction p arbitrary: q) (case_tac q; auto)+

lemma number_inject:
  assumes "CHR ''-'' \<notin> set p" "CHR ''-'' \<notin> set q" "CHR ''-'' \<notin> set d" "CHR ''-'' \<notin> set e"
  shows "p @ ''-'' @ d @ ''-'' @ pad4 m = q @ ''-'' @ e @ ''-'' @ pad4 n \<longleftrightarrow> p = q \<and> d = e \<and> m = n"
  using append_dash_inject [OF assms(1,2)] append_dash_inject [OF assms(3,4)] by (simp add: pad4_inj)

definition last_seq :: "db \<Rightarrow> uuid \<Rightarrow> string \<Rightarrow> string \<Rightarrow> nat" where
  "last_seq s bid prefix key =
     (case filter (counter_is bid prefix key) (counters s) of [] \<Rightarrow> 0 | r # _ \<Rightarrow> dnc_last_sequence r)"

lemma filter_update_same:
  "(\<And>r. P (f r) = P r) \<Longrightarrow> filter P (update_where P f rs) = map f (filter P rs)"
  by (induction rs) auto

lemma filter_update_other:
  "(\<And>r. P r \<Longrightarrow> \<not> Q r) \<Longrightarrow> (\<And>r. P r \<Longrightarrow> \<not> Q (f r)) \<Longrightarrow>
     filter Q (update_where P f rs) = filter Q rs"
  by (induction rs) auto

lemma generate_document_number_seq:
  assumes "generate_document_number c bid prefix s = (n, s')"
  shows "n = prefix @ ''-'' @ date_key c @ ''-'' @ pad4 (Suc (last_seq s bid prefix (date_key c)))"
    and "last_seq s' b p k =
           (if (b, p, k) = (bid, prefix, date_key c) then Suc (last_seq s b p k) else last_seq s b p k)"
proof -
  let ?P = "counter_is bid prefix (date_key c)"
  let ?f = "\<lambda>r. r\<lparr>dnc_last_sequence := Suc (dnc_last_sequence r)\<rparr>"
  have same: "?P (?f r) = ?P r" for r by (simp add: counter_is_def)
  have fs: "filter ?P (update_where ?P ?f rs) = map ?f (filter ?P rs)" for rs
    by (rule filter_update_same) (rule same)
  have other: "\<not> counter_is b p k r" if "?P r" "(b, p, k) \<noteq> (bid, prefix, date_key c)" for r
    using that by (auto simp: counter_is_def)
  show "n = prefix @ ''-'' @ date_key c @ ''-'' @ pad4 (Suc (last_seq s bid prefix (date_key c)))"
    using assms by (auto simp: generate_document_number_def last_seq_def fresh_uuid_def Let_def
        split: list.splits prod.splits)
  show "last_seq s' b p k =
      (if (b, p, k) = (bid, prefix, date_key c) then Suc (last_seq s b p k) else last_seq s b p k)"
  proof (cases "(b, p, k) = (bid, prefix, date_key c)")
    case True
    then have eq: "counter_is b p k = ?P" by simp
    then show ?thesis using assms True
      by (auto simp: generate_document_number_def last_seq_def fresh_uuid_def Let_def
          fs counter_is_def split: list.splits prod.splits)
  next
    case False
    have "filter (counter_is b p k) (update_where ?P f (counters s)) = filter (counter_is b p k) (counters s)"
      if "\<And>r. ?P (f r) = ?P r" for f
      by (rule filter_update_other) (use that other [OF _ False] in auto)
    from this [of ?f, OF same] show ?thesis
      using assms False
      by (auto simp: generate_document_number_def last_seq_def fresh_uuid_def Let_def
          counter_is_def split: list.splits prod.splits)
  qed
qed

lemma drawn_le: "uuid_gen s' = uuid_gen s \<Longrightarrow> uuid_next s \<le> uuid_next s' \<Longrightarrow> drawn s \<subseteq> drawn s'"
  by (auto simp: drawn_def)

lemma generate_document_number_frame:
  assumes "generate_document_number c bid prefix s = (n, s')"
  shows "s' = s\<lparr>counters := counters s', uuid_next := uuid_next s'\<rparr>" "uuid_next s \<le> uuid_next s'"
  using assms by (auto simp: generate_document_number_def fresh_uuid_def Let_def split: list.splits)

fun issue :: "uuid \<Rightarrow> (clock \<times> string) list \<Rightarrow> db \<Rightarrow> string list" where
  \<comment> \<open>the numbers a business is given by a sequence of requests, each a clock and a prefix\<close>
  "issue bid [] s = []"
| "issue bid ((c, p) # rs) s =
     (let (n, s') = generate_document_number c bid p s in n # issue bid rs s')"

definition plain_keys :: "(clock \<times> string) list \<Rightarrow> bool" where
  \<comment> \<open>no prefix and no date key holds the separator\<close>
  "plain_keys rs \<longleftrightarrow> (\<forall>(c, p)\<in>set rs. CHR ''-'' \<notin> set p \<and> CHR ''-'' \<notin> set (date_key c))"

lemma issue_later:
  assumes "plain_keys rs" "n \<in> set (issue bid rs s)"
  shows "\<exists>c p m. (c, p) \<in> set rs \<and> last_seq s bid p (date_key c) < m \<and>
     n = p @ ''-'' @ date_key c @ ''-'' @ pad4 m"
  using assms
proof (induction rs arbitrary: s)
  case (Cons r rs)
  obtain c p where r: "r = (c, p)" by (cases r)
  obtain n0 s' where g: "generate_document_number c bid p s = (n0, s')" by fastforce
  note G = generate_document_number_seq [OF g]
  have ks: "plain_keys rs" using Cons.prems(1) by (simp add: plain_keys_def)
  from Cons.prems(2) consider "n = n0" | "n \<in> set (issue bid rs s')"
    by (auto simp: r g)
  then show ?case
  proof cases
    case 1
    then show ?thesis using G(1) by (auto simp: r)
  next
    case 2
    from Cons.IH [OF ks 2] obtain c' p' m where
      "(c', p') \<in> set rs" "last_seq s' bid p' (date_key c') < m"
      "n = p' @ ''-'' @ date_key c' @ ''-'' @ pad4 m" by blast
    then show ?thesis using G(2) [of bid p' "date_key c'"]
      by (intro exI [of _ c'] exI [of _ p'] exI [of _ m]) (auto split: if_splits)
  qed
qed simp

text \<open>
  C34. However the requests of a business for invoice, return, order and other numbers follow one
  another, over any sequence of days, no document number is handed out twice.
\<close>

theorem document_numbers_unique:
  assumes "plain_keys rs"
  shows "distinct (issue bid rs s)"
  using assms
proof (induction rs arbitrary: s)
  case (Cons r rs)
  obtain c p where r: "r = (c, p)" by (cases r)
  obtain n s' where g: "generate_document_number c bid p s = (n, s')" by fastforce
  note G = generate_document_number_seq [OF g]
  have ks: "plain_keys rs" using Cons.prems by (simp add: plain_keys_def)
  have "n \<notin> set (issue bid rs s')"
  proof
    assume "n \<in> set (issue bid rs s')"
    from issue_later [OF ks this] obtain c' p' m where
      m: "(c', p') \<in> set rs" "last_seq s' bid p' (date_key c') < m"
      "n = p' @ ''-'' @ date_key c' @ ''-'' @ pad4 m" by blast
    have sep: "CHR ''-'' \<notin> set p" "CHR ''-'' \<notin> set p'"
      "CHR ''-'' \<notin> set (date_key c)" "CHR ''-'' \<notin> set (date_key c')"
      using Cons.prems m(1) by (auto simp: plain_keys_def r)
    have "p @ ''-'' @ date_key c @ ''-'' @ pad4 (Suc (last_seq s bid p (date_key c)))
        = p' @ ''-'' @ date_key c' @ ''-'' @ pad4 m" using m(3) G(1) by simp
    then have "p = p'" "date_key c = date_key c'" "Suc (last_seq s bid p (date_key c)) = m"
      unfolding number_inject [OF sep] by blast+
    with m(2) G(2) [of bid p "date_key c"] show False by simp
  qed
  with Cons.IH [OF ks] show ?case by (simp add: r g)
qed simp

lemma document_numbers_unique_witness:
  "distinct (issue 1 [(\<lparr>now = 0, date_key = ''20250101''\<rparr>, ''INV''),
                      (\<lparr>now = 5, date_key = ''20250101''\<rparr>, ''INV''),
                      (\<lparr>now = 9, date_key = ''20250102''\<rparr>, ''INV'')] (empty_db id))"
  by (rule document_numbers_unique) (simp add: plain_keys_def)

section \<open>The stock ledger as a ledger\<close>

type_synonym position = "uuid \<times> uuid \<times> uuid \<times> uuid option"
  \<comment> \<open>business, branch, product, variation\<close>

definition position_of :: "stock_movement \<Rightarrow> position" where
  "position_of m = (business_id m, sm_branch_id m, sm_product_id m, sm_variation_id m)"

definition stock_at :: "db \<Rightarrow> position \<Rightarrow> decimal" where
  "stock_at s = (\<lambda>(b, br, p, v). get_stock_balance s b br p v)"

definition posted_movement :: "position \<Rightarrow> rat \<Rightarrow> db \<Rightarrow> db \<Rightarrow> bool" where
  "posted_movement k q s s' \<longleftrightarrow>
     (\<exists>m. movements s' = movements s @ [m] \<and> live m \<and> position_of m = k \<and> sm_qty m = q)"

lemma stock_at_sum: "stock_at s k = sum_where sm_qty (\<lambda>m. live m \<and> position_of m = k) (movements s)"
  by (auto simp: stock_at_def get_stock_balance_def in_position_def position_of_def
      intro!: sum_where_cong split: prod.splits)

interpretation stock: ledger stock_at posted_movement
  by unfold_locales (auto simp: posted_movement_def stock_at_sum split: if_splits)

lemma live_new_row [simp]: "live (new_row i b u t x)"
  by (simp add: live_def)

lemma create_stock_movement_eq:
  assumes "create_stock_movement c bid br p v mt q cost rt rid user pl bat ex notes mat sq s = (m, s')"
  shows "s' = s\<lparr>uuid_next := Suc (uuid_next s), movements := movements s @ [m]\<rparr>"
    and "live m" "position_of m = (bid, br, p, v)" "sm_qty m = q" "sm_purchase_line_id m = pl"
    "row_id m = uuid_gen s (uuid_next s)" "sm_movement_type m = mt" "sm_reference_type m = rt"
    "sm_reference_id m = rid" "sm_cost_per_unit m = cost" "sm_movement_sequence m = sq"
    "sm_movement_at m = or_else mat (now c)" "created_at m = now c"
  using assms
  by (auto simp: create_stock_movement_def fresh_uuid_def Let_def position_of_def live_def)

lemma create_stock_movement_posts:
  assumes "create_stock_movement c bid br p v mt q cost rt rid user pl bat ex notes mat sq s = (m, s')"
  shows "posted_movement (bid, br, p, v) q s s'"
  using create_stock_movement_eq(1-4) [OF assms] by (auto simp: posted_movement_def)

text \<open>
  C38. The branch stock overview lists exactly the positions with a live movement in the branch
  (of the requested products), each once, and its quantities and last-movement times are those of
  the single-position queries.
\<close>

theorem branch_balances_agree:
  "distinct (map (\<lambda>r. (sb_product_id r, sb_variation_id r)) (get_stock_balances_for_branch s bid br ps)) \<and>
   (\<forall>r\<in>set (get_stock_balances_for_branch s bid br ps).
      r = get_stock_balance_detail s bid br (sb_product_id r) (sb_variation_id r) \<and>
      sb_current_qty r = get_stock_balance s bid br (sb_product_id r) (sb_variation_id r)) \<and>
   (\<forall>p v. (p, v) \<in> (\<lambda>r. (sb_product_id r, sb_variation_id r)) ` set (get_stock_balances_for_branch s bid br ps)
      \<longleftrightarrow> (ps = [] \<or> p \<in> set ps) \<and> (\<exists>m\<in>set (movements s). in_position bid br p v m))"
proof -
  let ?rows = "filter (\<lambda>m. business_id m = bid \<and> sm_branch_id m = br \<and> live m \<and>
      (ps = [] \<or> sm_product_id m \<in> set ps)) (movements s)"
  let ?key = "\<lambda>m. (sm_product_id m, sm_variation_id m)"
  let ?g = "\<lambda>p v. filter (\<lambda>m. ?key m = (p, v)) ?rows"
  let ?resp = "\<lambda>(p, v). \<lparr>sb_product_id = p, sb_variation_id = v, sb_branch_id = br,
      sb_current_qty = sum_list (map sm_qty (?g p v)), sb_last_movement_at = max_at (?g p v)\<rparr>"
  have L: "get_stock_balances_for_branch s bid br ps = map ?resp (remdups (map ?key ?rows))"
    by (simp add: get_stock_balances_for_branch_def Let_def)
  have g: "?g p v = filter (in_position bid br p v) (movements s)" if "ps = [] \<or> p \<in> set ps" for p v
    unfolding filter_filter by (rule filter_cong) (use that in \<open>auto simp: in_position_def\<close>)
  have keys: "(\<lambda>r. (sb_product_id r, sb_variation_id r)) \<circ> ?resp = id" by auto
  have "distinct (map (\<lambda>r. (sb_product_id r, sb_variation_id r)) (get_stock_balances_for_branch s bid br ps))"
    unfolding L map_map keys by simp
  moreover have "\<forall>r\<in>set (get_stock_balances_for_branch s bid br ps).
      r = get_stock_balance_detail s bid br (sb_product_id r) (sb_variation_id r) \<and>
      sb_current_qty r = get_stock_balance s bid br (sb_product_id r) (sb_variation_id r)"
    unfolding L get_stock_balance_detail_def get_stock_balance_def sum_where_def Let_def
    using g by fastforce
  moreover have "(p, v) \<in> (\<lambda>r. (sb_product_id r, sb_variation_id r)) ` set (get_stock_balances_for_branch s bid br ps)
      \<longleftrightarrow> (ps = [] \<or> p \<in> set ps) \<and> (\<exists>m\<in>set (movements s). in_position bid br p v m)" for p v
    unfolding L set_map set_remdups image_image [of _ ?resp] using keys
    by (auto simp: in_position_def image_iff comp_def fun_eq_iff)
  ultimately show ?thesis by blast
qed

definition demo_movement :: stock_movement where
  "demo_movement = new_row 3 1 None 0
     \<lparr>sm_branch_id = 2, sm_product_id = 5, sm_variation_id = None,
      sm_movement_type = StockMovementType_opening, sm_qty = 8, sm_cost_per_unit = 3,
      sm_reference_type = ReferenceType_stock_adjustment_line, sm_reference_id = 50,
      sm_purchase_line_id = None, sm_batch_number = None, sm_expiry_date = None, sm_notes = None,
      sm_movement_at = 0, sm_movement_sequence = None\<rparr>"

lemma branch_balances_agree_witness:
  "\<exists>r\<in>set (get_stock_balances_for_branch ((empty_db id)\<lparr>movements := [demo_movement]\<rparr>) 1 2 []).
     sb_product_id r = 5 \<and> sb_current_qty r = 8"
proof -
  let ?s = "(empty_db id)\<lparr>movements := [demo_movement]\<rparr>"
  note T = branch_balances_agree [of ?s 1 2 "[]"]
  have "in_position 1 2 5 None demo_movement" by (simp add: demo_movement_def in_position_def live_def)
  then have "(5, None) \<in> (\<lambda>r. (sb_product_id r, sb_variation_id r)) ` set (get_stock_balances_for_branch ?s 1 2 [])"
    using T by simp
  then obtain r where r: "r \<in> set (get_stock_balances_for_branch ?s 1 2 [])" "sb_product_id r = 5" "sb_variation_id r = None"
    by auto
  have "sb_current_qty r = get_stock_balance ?s 1 2 5 None" using T r by metis
  also have "\<dots> = 8" by (simp add: get_stock_balance_def demo_movement_def in_position_def live_def)
  finally show ?thesis using r by blast
qed

end
