(* ===== verification/Notifications.thy ===== *)
theory Notifications
  imports Stock
begin

text \<open>
  \<open>app/services/notification_service.py\<close> (the in-app notification log) and
  \<open>app/services/audit_helper.py\<close> (the audit trail), which the other services write to.
  A title or body is its f-string with the interpolated values; in a payload, \<open>JUuid\<close> is
  \<open>str(id)\<close> and \<open>JNum\<close> is \<open>str(amount)\<close>.
\<close>

section \<open>Notifications\<close>

definition create_notification ::
  "clock \<Rightarrow> uuid \<Rightarrow> NotificationTypeEnum \<Rightarrow> NotificationChannelEnum \<Rightarrow> string \<times> fmt_arg list \<Rightarrow>
   (string \<times> fmt_arg list) option \<Rightarrow> (string \<times> json) list \<Rightarrow> uuid option \<Rightarrow> uuid option \<Rightarrow>
   uuid option \<Rightarrow> db \<Rightarrow> db" where
  "create_notification c bid notification_type channel title body payload_json user_id branch_id user s =
     (let (i, s) = fresh_uuid s
      in s\<lparr>notifications := notifications s @
            [new_row i bid user (now c)
               \<lparr>nl_branch_id = branch_id, nl_user_id = user_id,
                nl_notification_type = notification_type, nl_channel = channel,
                nl_title = title, nl_body = body, nl_payload_json = payload_json,
                nl_is_read = False, nl_read_at = None\<rparr>]\<rparr>)"

definition notification_filter ::
  "uuid \<Rightarrow> uuid option \<Rightarrow> uuid option \<Rightarrow> bool option \<Rightarrow> NotificationTypeEnum option \<Rightarrow>
     notification_log \<Rightarrow> bool" where
  "notification_filter bid user_id branch_id is_read notification_type n \<longleftrightarrow>
     business_id n = bid \<and> live n \<and>
     (case user_id of None \<Rightarrow> True | Some u \<Rightarrow> nl_user_id n = None \<or> nl_user_id n = Some u) \<and>
     (case branch_id of None \<Rightarrow> True | Some b \<Rightarrow> nl_branch_id n = Some b) \<and>
     opt_eq is_read (nl_is_read n) \<and> opt_eq notification_type (nl_notification_type n)"

definition get_notifications ::
  "db \<Rightarrow> uuid \<Rightarrow> uuid option \<Rightarrow> uuid option \<Rightarrow> bool option \<Rightarrow> NotificationTypeEnum option \<Rightarrow>
     nat \<Rightarrow> nat \<Rightarrow> notification_log list \<times> nat \<times> nat" where
  "get_notifications s bid user_id branch_id is_read notification_type skip limit =
     (let rows = filter (notification_filter bid user_id branch_id is_read notification_type) (notifications s)
      in (take limit (drop skip (sort_key (\<lambda>n. - created_at n) rows)), length rows,
          length (filter (\<lambda>n. \<not> nl_is_read n) rows)))"

definition read_now :: "clock \<Rightarrow> notification_log \<Rightarrow> notification_log" where
  "read_now c n = n\<lparr>nl_is_read := True, nl_read_at := Some (now c), updated_at := now c\<rparr>"

definition mark_as_read :: "clock \<Rightarrow> uuid \<Rightarrow> uuid list \<Rightarrow> uuid \<Rightarrow> db \<Rightarrow> nat \<times> db" where
  "mark_as_read c bid notification_ids user_id s =
     (let P = (\<lambda>n. row_id n \<in> set notification_ids \<and> business_id n = bid \<and> live n \<and> \<not> nl_is_read n)
      in (length (filter P (notifications s)),
          s\<lparr>notifications := update_where P (read_now c) (notifications s)\<rparr>))"

definition mark_all_as_read :: "clock \<Rightarrow> uuid \<Rightarrow> uuid \<Rightarrow> db \<Rightarrow> nat \<times> db" where
  "mark_all_as_read c bid user_id s =
     (let P = (\<lambda>n. business_id n = bid \<and> live n \<and> \<not> nl_is_read n \<and>
                    (nl_user_id n = None \<or> nl_user_id n = Some user_id))
      in (length (filter P (notifications s)),
          s\<lparr>notifications := update_where P (read_now c) (notifications s)\<rparr>))"

definition delete_notification :: "clock \<Rightarrow> uuid \<Rightarrow> uuid \<Rightarrow> db \<Rightarrow> db res" where
  "delete_notification c bid notification_id s =
     bind_res (require_one (HTTPException 404 ''Notification not found'' [])
       (filter (\<lambda>n. row_id n = notification_id \<and> business_id n = bid \<and> live n) (notifications s)))
       (\<lambda>notification. Inr (s\<lparr>notifications :=
          update_where (\<lambda>n. row_id n = notification_id)
            (\<lambda>n. n\<lparr>deleted_at := Some (now c), updated_at := now c\<rparr>) (notifications s)\<rparr>))"

definition ALERT_LOOKBACK :: int where
  \<comment> \<open>24 hours in microseconds\<close>
  "ALERT_LOOKBACK = 24 * 3600 * 1000000"

definition recent_alert_exists ::
  "clock \<Rightarrow> db \<Rightarrow> uuid \<Rightarrow> NotificationTypeEnum \<Rightarrow> uuid \<Rightarrow> uuid \<Rightarrow> bool" where
  "recent_alert_exists c s bid notification_type product_id branch_id \<longleftrightarrow>
     (\<exists>n\<in>set (notifications s). business_id n = bid \<and> live n \<and>
        nl_notification_type n = notification_type \<and> now c - ALERT_LOOKBACK < created_at n \<and>
        map_of (nl_payload_json n) ''product_id'' = Some (JUuid product_id) \<and>
        map_of (nl_payload_json n) ''branch_id'' = Some (JUuid branch_id))"

section \<open>The audit trail\<close>

definition AUTH_ACTION_MAP :: "(string \<times> AuditActionEnum) list" where
  "AUTH_ACTION_MAP =
     [(''login_success'', AuditAction_login), (''login_failed'', AuditAction_login),
      (''account_locked'', AuditAction_login), (''token_refreshed'', AuditAction_login),
      (''logout'', AuditAction_logout), (''refresh_reuse_detected'', AuditAction_login),
      (''password_changed'', AuditAction_update), (''password_reset'', AuditAction_update),
      (''pin_changed'', AuditAction_update), (''pin_reset'', AuditAction_update),
      (''user_deactivated'', AuditAction_update), (''user_reactivated'', AuditAction_update),
      (''user_deleted'', AuditAction_delete)]"

definition log_audit ::
  "uuid \<Rightarrow> uuid option \<Rightarrow> uuid option \<Rightarrow> AuditActionEnum \<Rightarrow> string \<Rightarrow> uuid \<Rightarrow>
   (string \<times> json) list option \<Rightarrow> (string \<times> json) list option \<Rightarrow> db \<Rightarrow> db" where
  \<comment> \<open>a caller that leaves \<open>ip_address\<close> and \<open>device_id\<close> at their defaults\<close>
  "log_audit bid user_id branch_id action table_name record_id old_values new_values s =
     s\<lparr>audits := audits s @
        [\<lparr>al_business_id = bid, al_user_id = user_id, al_branch_id = branch_id, al_action = action,
          al_table_name = table_name, al_record_id = record_id, al_old_values = old_values,
          al_new_values = new_values, al_ip_address = None, al_user_agent = None, al_device_id = None\<rparr>]\<rparr>"

definition log_device_audit ::
  "uuid \<Rightarrow> uuid option \<Rightarrow> uuid option \<Rightarrow> AuditActionEnum \<Rightarrow> string \<Rightarrow> uuid \<Rightarrow>
   (string \<times> json) list option \<Rightarrow> string \<Rightarrow> db \<Rightarrow> db" where
  \<comment> \<open>\<open>log_audit\<close> with a \<open>device_id\<close> and no \<open>old_values\<close>, as the push service calls it\<close>
  "log_device_audit bid user_id branch_id action table_name record_id new_values device_id s =
     s\<lparr>audits := audits s @
        [\<lparr>al_business_id = bid, al_user_id = user_id, al_branch_id = branch_id, al_action = action,
          al_table_name = table_name, al_record_id = record_id, al_old_values = None,
          al_new_values = new_values, al_ip_address = None, al_user_agent = None,
          al_device_id = Some device_id\<rparr>]\<rparr>"

definition log_auth_event ::
  "uuid \<Rightarrow> uuid option \<Rightarrow> string \<Rightarrow> uuid \<Rightarrow> string option \<Rightarrow> string option \<Rightarrow>
   (string \<times> json) list \<Rightarrow> uuid option \<Rightarrow> db \<Rightarrow> db" where
  "log_auth_event bid user_id event record_id ip_address user_agent extra branch_id s =
     (let action = or_else (map_of AUTH_ACTION_MAP event) AuditAction_login
      in s\<lparr>audits := audits s @
        [\<lparr>al_business_id = bid, al_user_id = user_id, al_branch_id = branch_id, al_action = action,
          al_table_name = ''users'', al_record_id = record_id, al_old_values = None,
          al_new_values = Some ((''event'', JStr event) # extra),
          al_ip_address = ip_address, al_user_agent = user_agent, al_device_id = None\<rparr>]\<rparr>)"

section \<open>Reading\<close>

lemma length_filter_update_where:
  "(\<And>r. r \<in> set rs \<Longrightarrow> P r \<Longrightarrow> Q (f r) = False) \<Longrightarrow> (\<And>r. r \<in> set rs \<Longrightarrow> Q r \<Longrightarrow> P r) \<Longrightarrow>
     filter Q (update_where P f rs) = []"
  by (induction rs) auto

lemma mark_all_as_read_clears:
  assumes "mark_all_as_read c bid user_id s = (n, s')"
  shows "snd (snd (get_notifications s' bid (Some user_id) br None ty sk li)) = 0"
proof -
  let ?P = "\<lambda>n. business_id n = bid \<and> live n \<and> \<not> nl_is_read n \<and>
      (nl_user_id n = None \<or> nl_user_id n = Some user_id)"
  have "notifications s' = update_where ?P (read_now c) (notifications s)"
    using assms by (auto simp: mark_all_as_read_def Let_def)
  moreover have "filter (\<lambda>n. \<not> nl_is_read n \<and> notification_filter bid (Some user_id) br None ty n)
      (update_where ?P (read_now c) (notifications s)) = []"
    by (rule length_filter_update_where) (auto simp: read_now_def notification_filter_def)
  ultimately show ?thesis by (simp add: get_notifications_def Let_def conj_commute)
qed

lemma create_notification_unread:
  "snd (snd (get_notifications (create_notification c bid ty ch title body payload None br user s)
       bid u None None None sk li)) = Suc (snd (snd (get_notifications s bid u None None None sk li)))"
  by (auto simp: create_notification_def get_notifications_def fresh_uuid_def notification_filter_def
      opt_eq_def Let_def live_def split: option.splits)

lemma create_notification_frame [simp]:
  "movements (create_notification c bid ty ch title body payload u br user s) = movements s"
  "purchase_lines (create_notification c bid ty ch title body payload u br user s) = purchase_lines s"
  "uuid_gen (create_notification c bid ty ch title body payload u br user s) = uuid_gen s"
  "drawn s \<subseteq> drawn (create_notification c bid ty ch title body payload u br user s)"
  by (auto simp: create_notification_def fresh_uuid_def drawn_def)

lemma log_audit_frame [simp]:
  "movements (log_audit b u br a t r x y s) = movements s"
  "purchase_lines (log_audit b u br a t r x y s) = purchase_lines s"
  "uuid_gen (log_audit b u br a t r x y s) = uuid_gen s"
  "drawn (log_audit b u br a t r x y s) = drawn s"
  by (auto simp: log_audit_def drawn_def)

end
