(* ===== verification/Registers.thy ===== *)
theory Registers
  imports Notifications
begin

text \<open>
  \<open>app/services/register_service.py\<close>: cash registers, the shifts cashiers open on them and the
  transactions posted to a shift. The names the responses attach to a shift (opener, closer) are
  presentation and left out.
\<close>

section \<open>Requests and responses\<close>

record CreateCashRegisterRequest =
  ccr_name :: string
  ccr_branch_id :: uuid
  ccr_device_identifier :: "string option"

record UpdateCashRegisterRequest =
  ucr_name :: "string option"
  ucr_device_identifier :: "string option"
  ucr_is_active :: "bool option"

record OpenShiftRequest =
  os_cash_register_id :: uuid
  os_opening_float :: decimal
  os_notes :: "string option"

record CloseShiftRequest =
  cs_actual_cash :: decimal
  cs_notes :: "string option"

record CreateRegisterTransactionRequest =
  crt_tx_type :: RegisterTxTypeEnum
  crt_amount :: decimal
  crt_notes :: "string option"
  crt_reference_type :: "ReferenceTypeEnum option"
  crt_reference_id :: "uuid option"

record ShiftSummaryResponse =
  ss_shift_id :: uuid
  ss_status :: ShiftStatusEnum
  ss_opening_float :: decimal
  ss_total_cash_sales :: decimal
  ss_total_card_sales :: decimal
  ss_total_wallet_sales :: decimal
  ss_total_other_sales :: decimal
  ss_total_returns :: decimal
  ss_total_cash_in :: decimal
  ss_total_cash_out :: decimal
  ss_total_expenses :: decimal
  ss_expected_cash :: decimal
  ss_actual_cash :: "decimal option"
  ss_cash_difference :: "decimal option"

section \<open>Sums over a shift\<close>

definition WALLET_METHODS :: "PaymentMethodEnum set" where
  "WALLET_METHODS = {PaymentMethod_wallet, PaymentMethod_upi}"

definition sum_amounts ::
  "register_transaction list \<Rightarrow> RegisterTxTypeEnum option \<Rightarrow> RegisterTxTypeEnum set option \<Rightarrow>
   PaymentMethodEnum option \<Rightarrow> PaymentMethodEnum set option \<Rightarrow> PaymentMethodEnum set option \<Rightarrow>
   decimal" where
  "sum_amounts transactions tx_type tx_types payment_method payment_methods exclude =
     fold (\<lambda>tx total.
       if \<not> live tx then total
       else if (case tx_type of Some t \<Rightarrow> rt_tx_type tx \<noteq> t | None \<Rightarrow> False) then total
       else if (case tx_types of Some ts \<Rightarrow> rt_tx_type tx \<notin> ts | None \<Rightarrow> False) then total
       else if (case payment_method of Some p \<Rightarrow> rt_payment_method tx \<noteq> p | None \<Rightarrow> False) then total
       else if (case payment_methods of Some ps \<Rightarrow> rt_payment_method tx \<notin> ps | None \<Rightarrow> False) then total
       else if (case exclude of Some ps \<Rightarrow> rt_payment_method tx \<in> ps | None \<Rightarrow> False) then total
       else total + rt_amount tx) transactions 0"

definition calculate_expected_cash :: "register_shift \<Rightarrow> register_transaction list \<Rightarrow> decimal" where
  "calculate_expected_cash shift transactions =
     (let cash_sales = sum_amounts transactions (Some RegisterTxType_sale) None (Some PaymentMethod_cash) None None;
          cash_returns = sum_amounts transactions (Some RegisterTxType_sale_return) None (Some PaymentMethod_cash) None None;
          cash_in = sum_amounts transactions (Some RegisterTxType_cash_in) None None None None;
          cash_out = sum_amounts transactions (Some RegisterTxType_cash_out) None None None None;
          cash_expenses = sum_amounts transactions (Some RegisterTxType_expense) None (Some PaymentMethod_cash) None None
      in rs_opening_float shift + cash_sales - cash_returns + cash_in - cash_out - cash_expenses)"

definition build_shift_summary ::
  "register_shift \<Rightarrow> register_transaction list \<Rightarrow> ShiftSummaryResponse" where
  "build_shift_summary shift transactions =
     (let known_sale_methods = {PaymentMethod_cash, PaymentMethod_card} \<union> WALLET_METHODS;
          sale = Some RegisterTxType_sale;
          expected_cash =
            (case rs_expected_cash shift of
               Some e \<Rightarrow> if rs_status shift = ShiftStatus_closed then e
                         else calculate_expected_cash shift transactions
             | None \<Rightarrow> calculate_expected_cash shift transactions)
      in \<lparr>ss_shift_id = row_id shift, ss_status = rs_status shift,
          ss_opening_float = rs_opening_float shift,
          ss_total_cash_sales = sum_amounts transactions sale None (Some PaymentMethod_cash) None None,
          ss_total_card_sales = sum_amounts transactions sale None (Some PaymentMethod_card) None None,
          ss_total_wallet_sales = sum_amounts transactions sale None None (Some WALLET_METHODS) None,
          ss_total_other_sales = sum_amounts transactions sale None None None (Some known_sale_methods),
          ss_total_returns = sum_amounts transactions (Some RegisterTxType_sale_return) None None None None,
          ss_total_cash_in = sum_amounts transactions (Some RegisterTxType_cash_in) None None None None,
          ss_total_cash_out = sum_amounts transactions (Some RegisterTxType_cash_out) None None None None,
          ss_total_expenses = sum_amounts transactions (Some RegisterTxType_expense) None None None None,
          ss_expected_cash = expected_cash, ss_actual_cash = rs_actual_cash shift,
          ss_cash_difference = rs_cash_difference shift\<rparr>)"

definition load_shift_transactions :: "db \<Rightarrow> uuid \<Rightarrow> uuid \<Rightarrow> register_transaction list" where
  "load_shift_transactions s shift_id bid =
     filter (\<lambda>t. rt_register_shift_id t = shift_id \<and> business_id t = bid \<and> live t) (register_txs s)"

definition add_register_tx ::
  "clock \<Rightarrow> uuid \<Rightarrow> uuid \<Rightarrow> RegisterTxTypeEnum \<Rightarrow> PaymentMethodEnum \<Rightarrow> decimal \<Rightarrow>
   ReferenceTypeEnum option \<Rightarrow> uuid option \<Rightarrow> string option \<Rightarrow> datetime \<Rightarrow> uuid \<Rightarrow> db \<Rightarrow>
   register_transaction \<times> db" where
  \<comment> \<open>\<open>db.add(RegisterTransaction(...))\<close>\<close>
  "add_register_tx c bid shift_id tx_type payment_method amount reference_type reference_id notes
     transacted_at user s =
     (let (i, s) = fresh_uuid s;
          tx = new_row i bid (Some user) (now c)
            \<lparr>rt_register_shift_id = shift_id, rt_tx_type = tx_type,
             rt_payment_method = payment_method, rt_amount = amount,
             rt_reference_type = reference_type, rt_reference_id = reference_id,
             rt_notes = notes, rt_transacted_at = transacted_at\<rparr>
      in (tx, s\<lparr>register_txs := register_txs s @ [tx]\<rparr>))"

section \<open>Registers\<close>

definition get_cash_register_by_id :: "db \<Rightarrow> uuid \<Rightarrow> uuid \<Rightarrow> cash_register res" where
  "get_cash_register_by_id s register_id bid =
     require_one (HTTPException 404 ''Cash register not found'' [])
       (filter (\<lambda>r. row_id r = register_id \<and> business_id r = bid \<and> live r) (cash_registers s))"

definition create_cash_register ::
  "clock \<Rightarrow> uuid \<Rightarrow> CreateCashRegisterRequest \<Rightarrow> uuid \<Rightarrow> db \<Rightarrow> (cash_register \<times> db) res" where
  "create_cash_register c bid data user s =
     bind_res (verify_branch s (ccr_branch_id data) bid) (\<lambda>_.
       let (i, s) = fresh_uuid s;
           register = (new_row i bid (Some user) (now c)
             \<lparr>cr_branch_id = ccr_branch_id data, cr_name = ccr_name data,
              cr_device_identifier = ccr_device_identifier data, cr_is_active = True\<rparr>)
             \<lparr>updated_by := Some user\<rparr>
       in Inr (register, s\<lparr>cash_registers := cash_registers s @ [register]\<rparr>))"

definition update_cash_register ::
  "clock \<Rightarrow> uuid \<Rightarrow> uuid \<Rightarrow> UpdateCashRegisterRequest \<Rightarrow> uuid \<Rightarrow> db \<Rightarrow> db res" where
  "update_cash_register c register_id bid data user s =
     bind_res (get_cash_register_by_id s register_id bid) (\<lambda>register.
       Inr (s\<lparr>cash_registers := update_where (\<lambda>r. row_id r = row_id register)
         (\<lambda>r. r\<lparr>cr_name := or_else (ucr_name data) (cr_name r),
                cr_device_identifier :=
                  (case ucr_device_identifier data of Some d \<Rightarrow> Some d | None \<Rightarrow> cr_device_identifier r),
                cr_is_active := or_else (ucr_is_active data) (cr_is_active r),
                updated_by := Some user, updated_at := now c\<rparr>) (cash_registers s)\<rparr>))"

section \<open>Shifts\<close>

definition open_shift_of :: "(register_shift \<Rightarrow> bool) \<Rightarrow> uuid \<Rightarrow> register_shift \<Rightarrow> bool" where
  "open_shift_of P bid sh \<longleftrightarrow>
     P sh \<and> business_id sh = bid \<and> rs_status sh = ShiftStatus_open \<and> live sh"

definition get_active_shift :: "db \<Rightarrow> uuid \<Rightarrow> uuid \<Rightarrow> register_shift option res" where
  "get_active_shift s bid cash_register_id =
     scalar_one_or_none
       (filter (open_shift_of (\<lambda>sh. rs_cash_register_id sh = cash_register_id) bid) (shifts s))"

definition get_active_shift_for_user :: "db \<Rightarrow> uuid \<Rightarrow> uuid \<Rightarrow> register_shift option res" where
  "get_active_shift_for_user s bid user_id =
     scalar_one_or_none (filter (open_shift_of (\<lambda>sh. rs_opened_by sh = user_id) bid) (shifts s))"

definition get_shift_by_id :: "db \<Rightarrow> uuid \<Rightarrow> uuid \<Rightarrow> register_shift res" where
  "get_shift_by_id s shift_id bid =
     require_one (HTTPException 404 ''Shift not found'' [])
       (filter (\<lambda>sh. row_id sh = shift_id \<and> business_id sh = bid \<and> live sh) (shifts s))"

text \<open>
  The \<open>IntegrityError\<close> branch of \<open>open_shift\<close> is the database's answer to a lost race with
  another request; run one at a time, requests never reach it.
\<close>

definition open_shift ::
  "clock \<Rightarrow> uuid \<Rightarrow> OpenShiftRequest \<Rightarrow> uuid \<Rightarrow> db \<Rightarrow> (register_shift \<times> db) res" where
  "open_shift c bid data user s =
     bind_res (get_cash_register_by_id s (os_cash_register_id data) bid) (\<lambda>register.
     if \<not> cr_is_active register then bad_request ''Register is inactive''
     else bind_res (get_active_shift s bid (os_cash_register_id data)) (\<lambda>existing_register_shift.
     if existing_register_shift \<noteq> None then bad_request ''A shift is already open for this register''
     else bind_res (get_active_shift_for_user s bid user) (\<lambda>existing_user_shift.
     if existing_user_shift \<noteq> None then bad_request ''You already have an open shift''
     else
       let (i, s) = fresh_uuid s;
           shift = new_row i bid (Some user) (now c)
             \<lparr>rs_branch_id = cr_branch_id register, rs_cash_register_id = os_cash_register_id data,
              rs_opened_by = user, rs_closed_by = None, rs_status = ShiftStatus_open,
              rs_opening_float = os_opening_float data, rs_expected_cash = None,
              rs_actual_cash = None, rs_cash_difference = None, rs_opened_at = now c,
              rs_closed_at = None, rs_notes = os_notes data\<rparr>;
           s = s\<lparr>shifts := shifts s @ [shift]\<rparr>;
           s = (if 0 < os_opening_float data then
                  snd (add_register_tx c bid i RegisterTxType_opening_float PaymentMethod_cash
                         (os_opening_float data) None None None (now c) user s)
                else s);
           s = log_audit bid (Some user) (Some (rs_branch_id shift)) AuditAction_create
                 ''register_shifts'' i None
                 (Some [(''event'', JStr ''shift_opened''),
                        (''register_id'', JUuid (os_cash_register_id data))]) s
       in bind_res (get_shift_by_id s i bid) (\<lambda>shift. Inr (shift, s)))))"

definition closed_shift ::
  "clock \<Rightarrow> decimal \<Rightarrow> CloseShiftRequest \<Rightarrow> uuid \<Rightarrow> register_shift \<Rightarrow> register_shift" where
  "closed_shift c expected_cash data user shift =
     shift\<lparr>rs_status := ShiftStatus_closed, rs_closed_at := Some (now c), rs_closed_by := Some user,
           rs_expected_cash := Some expected_cash, rs_actual_cash := Some (cs_actual_cash data),
           rs_cash_difference := Some (cs_actual_cash data - expected_cash),
           updated_by := Some user, updated_at := now c,
           rs_notes := (case cs_notes data of Some n \<Rightarrow> Some n | None \<Rightarrow> rs_notes shift)\<rparr>"

definition close_shift ::
  "clock \<Rightarrow> uuid \<Rightarrow> uuid \<Rightarrow> CloseShiftRequest \<Rightarrow> uuid \<Rightarrow> bool \<Rightarrow> db \<Rightarrow>
     (ShiftSummaryResponse \<times> db) res" where
  "close_shift c bid shift_id data user can_manage_shifts s =
     bind_res (get_shift_by_id s shift_id bid) (\<lambda>shift.
     if rs_status shift \<noteq> ShiftStatus_open then bad_request ''Shift is already closed''
     else if rs_opened_by shift \<noteq> user \<and> \<not> can_manage_shifts then
       forbidden ''Only the user who opened this shift, an owner, or a user with shifts.manage can close it''
     else
       let transactions = load_shift_transactions s shift_id bid;
           expected_cash = calculate_expected_cash shift transactions;
           cash_difference = cs_actual_cash data - expected_cash;
           shift' = closed_shift c expected_cash data user shift;
           s = s\<lparr>shifts := update_where (\<lambda>sh. row_id sh = row_id shift)
                   (closed_shift c expected_cash data user) (shifts s)\<rparr>;
           (transactions, s) =
             (if 0 < cs_actual_cash data then
                let (closing_tx, s) = add_register_tx c bid (row_id shift) RegisterTxType_closing_count
                      PaymentMethod_cash (cs_actual_cash data) None None None (now c) user s
                in (transactions @ [closing_tx], s)
              else (transactions, s));
           s = log_audit bid (Some user) (Some (rs_branch_id shift)) AuditAction_update
                 ''register_shifts'' (row_id shift)
                 (Some [(''status'', JStr ''open''), (''expected_cash'', JNum expected_cash),
                        (''opened_by'', JUuid (rs_opened_by shift))])
                 (Some [(''event'', JStr ''shift_closed''), (''expected'', JNum expected_cash),
                        (''actual'', JNum (cs_actual_cash data)),
                        (''difference'', JNum cash_difference), (''closed_by'', JUuid user),
                        (''closed_other_users_shift'', JBool (rs_opened_by shift \<noteq> user))]) s
       in Inr (build_shift_summary shift' transactions, s))"

definition require_caller_shift ::
  "db \<Rightarrow> uuid \<Rightarrow> uuid \<Rightarrow> uuid option \<Rightarrow> uuid option \<Rightarrow> string \<Rightarrow> register_shift res" where
  "require_caller_shift s bid user_id branch_id requested_shift_id action =
     (case first_row (filter (open_shift_of (\<lambda>sh. rs_opened_by sh = user_id) bid) (shifts s)) of
        None \<Rightarrow>
          bind_res
            (case requested_shift_id of
               None \<Rightarrow> Inr ()
             | Some r \<Rightarrow>
                 bind_res (get_shift_by_id s r bid) (\<lambda>other.
                   if rs_opened_by other \<noteq> user_id
                   then forbidden ''That shift belongs to another user'' else Inr ()))
            (\<lambda>_. Inl (HTTPException 400 ''Cannot {} - no open shift. Open a shift first'' [AStr action]))
      | Some shift \<Rightarrow>
          bind_res
            (case requested_shift_id of
               None \<Rightarrow> Inr ()
             | Some r \<Rightarrow>
                 if r = row_id shift then Inr ()
                 else bind_res (scalar_one_or_none (map rs_opened_by
                        (filter (\<lambda>sh. row_id sh = r \<and> business_id sh = bid) (shifts s)))) (\<lambda>owner.
                   if (case owner of Some u \<Rightarrow> u \<noteq> user_id | None \<Rightarrow> False)
                   then forbidden ''That shift belongs to another user''
                   else bad_request ''register_shift_id does not match your open shift''))
            (\<lambda>_. if (case branch_id of Some b \<Rightarrow> rs_branch_id shift \<noteq> b | None \<Rightarrow> False)
                 then bad_request ''Your open shift belongs to a different branch''
                 else Inr shift))"

definition verify_open_register_shift :: "db \<Rightarrow> uuid \<Rightarrow> uuid \<Rightarrow> string \<Rightarrow> register_shift res" where
  "verify_open_register_shift s shift_id bid closed_detail =
     bind_res (get_shift_by_id s shift_id bid) (\<lambda>shift.
       if rs_status shift \<noteq> ShiftStatus_open then bad_request closed_detail else Inr shift)"

definition add_cash_movement ::
  "clock \<Rightarrow> uuid \<Rightarrow> uuid \<Rightarrow> CreateRegisterTransactionRequest \<Rightarrow> uuid \<Rightarrow> db \<Rightarrow>
     (register_transaction \<times> db) res" where
  "add_cash_movement c bid shift_id data user s =
     bind_res (require_caller_shift s bid user None (Some shift_id) ''record a cash movement'') (\<lambda>shift.
     if crt_tx_type data \<notin> {RegisterTxType_cash_in, RegisterTxType_cash_out}
     then bad_request ''Only cash_in and cash_out allowed''
     else
       let (tx, s) = add_register_tx c bid (row_id shift) (crt_tx_type data) PaymentMethod_cash
             (crt_amount data) (crt_reference_type data) (crt_reference_id data) (crt_notes data)
             (now c) user s;
           s = log_audit bid (Some user) (Some (rs_branch_id shift)) AuditAction_create
                 ''register_transactions'' (row_id tx) None
                 (Some [(''event'', JStr (RegisterTxTypeEnum_value (crt_tx_type data))),
                        (''amount'', JNum (rt_amount tx)), (''shift_id'', JUuid (row_id shift))]) s
       in Inr (tx, s))"

definition get_shift_summary :: "db \<Rightarrow> uuid \<Rightarrow> uuid \<Rightarrow> ShiftSummaryResponse res" where
  "get_shift_summary s bid shift_id =
     bind_res (get_shift_by_id s shift_id bid) (\<lambda>shift.
       Inr (build_shift_summary shift
         (filter (\<lambda>t. rt_register_shift_id t = row_id shift \<and> live t) (register_txs s))))"

definition get_shifts ::
  "db \<Rightarrow> uuid \<Rightarrow> uuid option \<Rightarrow> uuid option \<Rightarrow> ShiftStatusEnum option \<Rightarrow> nat \<Rightarrow> nat \<Rightarrow>
     register_shift list \<times> nat" where
  "get_shifts s bid branch_id register_id status skip limit =
     (let rows = filter (\<lambda>sh. business_id sh = bid \<and> live sh \<and> opt_eq branch_id (rs_branch_id sh) \<and>
                   opt_eq register_id (rs_cash_register_id sh) \<and> opt_eq status (rs_status sh)) (shifts s)
      in (take limit (drop skip (sort_key (\<lambda>sh. - rs_opened_at sh) rows)), length rows))"

section \<open>The drawer as a ledger\<close>

definition cash_effect :: "register_transaction \<Rightarrow> decimal" where
  \<comment> \<open>what a transaction changes in the drawer\<close>
  "cash_effect tx =
     (case rt_tx_type tx of
        RegisterTxType_sale \<Rightarrow> if rt_payment_method tx = PaymentMethod_cash then rt_amount tx else 0
      | RegisterTxType_sale_return \<Rightarrow> if rt_payment_method tx = PaymentMethod_cash then - rt_amount tx else 0
      | RegisterTxType_expense \<Rightarrow> if rt_payment_method tx = PaymentMethod_cash then - rt_amount tx else 0
      | RegisterTxType_cash_in \<Rightarrow> rt_amount tx
      | RegisterTxType_cash_out \<Rightarrow> - rt_amount tx
      | _ \<Rightarrow> 0)"

definition drawer :: "db \<Rightarrow> uuid \<times> uuid \<Rightarrow> decimal" where
  \<comment> \<open>net cash posted to a shift of a business\<close>
  "drawer s k = sum_where cash_effect
     (\<lambda>t. live t \<and> (business_id t, rt_register_shift_id t) = k) (register_txs s)"

definition posted_tx :: "uuid \<times> uuid \<Rightarrow> rat \<Rightarrow> db \<Rightarrow> db \<Rightarrow> bool" where
  "posted_tx k a s s' \<longleftrightarrow> (\<exists>t. register_txs s' = register_txs s @ [t] \<and> live t \<and>
     (business_id t, rt_register_shift_id t) = k \<and> cash_effect t = a)"

interpretation drawer: ledger drawer posted_tx
  by unfold_locales (auto simp: posted_tx_def drawer_def split: if_splits)

lemma sum_amounts_eq:
  "sum_amounts txs ty tys pm pms ex = sum_where rt_amount (\<lambda>t. live t \<and>
     (case ty of Some x \<Rightarrow> rt_tx_type t = x | None \<Rightarrow> True) \<and>
     (case tys of Some x \<Rightarrow> rt_tx_type t \<in> x | None \<Rightarrow> True) \<and>
     (case pm of Some x \<Rightarrow> rt_payment_method t = x | None \<Rightarrow> True) \<and>
     (case pms of Some x \<Rightarrow> rt_payment_method t \<in> x | None \<Rightarrow> True) \<and>
     (case ex of Some x \<Rightarrow> rt_payment_method t \<notin> x | None \<Rightarrow> True)) txs"
proof -
  have "fold (\<lambda>tx total.
       if \<not> live tx then total
       else if (case ty of Some t \<Rightarrow> rt_tx_type tx \<noteq> t | None \<Rightarrow> False) then total
       else if (case tys of Some ts \<Rightarrow> rt_tx_type tx \<notin> ts | None \<Rightarrow> False) then total
       else if (case pm of Some p \<Rightarrow> rt_payment_method tx \<noteq> p | None \<Rightarrow> False) then total
       else if (case pms of Some ps \<Rightarrow> rt_payment_method tx \<notin> ps | None \<Rightarrow> False) then total
       else if (case ex of Some ps \<Rightarrow> rt_payment_method tx \<in> ps | None \<Rightarrow> False) then total
       else total + rt_amount tx) txs a = a + sum_where rt_amount (\<lambda>t. live t \<and>
     (case ty of Some x \<Rightarrow> rt_tx_type t = x | None \<Rightarrow> True) \<and>
     (case tys of Some x \<Rightarrow> rt_tx_type t \<in> x | None \<Rightarrow> True) \<and>
     (case pm of Some x \<Rightarrow> rt_payment_method t = x | None \<Rightarrow> True) \<and>
     (case pms of Some x \<Rightarrow> rt_payment_method t \<in> x | None \<Rightarrow> True) \<and>
     (case ex of Some x \<Rightarrow> rt_payment_method t \<notin> x | None \<Rightarrow> True)) txs" for a
    by (induction txs arbitrary: a) (auto split: option.splits)
  from this [of 0] show ?thesis by (simp add: sum_amounts_def)
qed

lemma expected_cash_effects:
  "calculate_expected_cash sh txs = rs_opening_float sh + sum_where cash_effect live txs"
  unfolding calculate_expected_cash_def Let_def sum_amounts_eq
  by (induction txs) (auto simp: cash_effect_def split: RegisterTxTypeEnum.splits)

lemma expected_cash_drawer:
  "calculate_expected_cash sh (load_shift_transactions s i bid) = rs_opening_float sh + drawer s (bid, i)"
  unfolding expected_cash_effects drawer_def load_shift_transactions_def
  by (simp add: sum_where_def conj_ac)

lemma add_register_tx_eq:
  assumes "add_register_tx c bid sh ty pm a rt rid notes at_time user s = (t, s')"
  shows "s' = s\<lparr>uuid_next := Suc (uuid_next s), register_txs := register_txs s @ [t]\<rparr>"
    "live t" "business_id t = bid" "rt_register_shift_id t = sh" "rt_tx_type t = ty"
    "rt_payment_method t = pm" "rt_amount t = a" "row_id t = uuid_gen s (uuid_next s)"
  using assms by (auto simp: add_register_tx_def fresh_uuid_def Let_def live_def)

lemma add_register_tx_posts:
  assumes "add_register_tx c bid sh ty pm a rt rid notes at_time user s = (t, s')"
  shows "posted_tx (bid, sh) (cash_effect t) s s'"
  using add_register_tx_eq(1-4) [OF assms] by (auto simp: posted_tx_def)

section \<open>One open shift per register and per cashier\<close>

definition one_open :: "db \<Rightarrow> bool" where
  "one_open s \<longleftrightarrow> (\<forall>bid.
     (\<forall>r. length (filter (open_shift_of (\<lambda>sh. rs_cash_register_id sh = r) bid) (shifts s)) \<le> 1) \<and>
     (\<forall>u. length (filter (open_shift_of (\<lambda>sh. rs_opened_by sh = u) bid) (shifts s)) \<le> 1))"

lemma one_open_cong: "shifts s' = shifts s \<Longrightarrow> one_open s' = one_open s"
  by (simp add: one_open_def)

lemma open_shift_Inr:
  assumes "open_shift c bid data user s = Inr (sh, s')"
  shows "\<exists>new. shifts s' = shifts s @ [new] \<and> business_id new = bid \<and> live new \<and>
    rs_status new = ShiftStatus_open \<and> rs_opened_by new = user \<and>
    rs_cash_register_id new = os_cash_register_id data \<and> rs_opening_float new = os_opening_float data \<and>
    row_id new = uuid_gen s (uuid_next s) \<and>
    filter (open_shift_of (\<lambda>sh. rs_cash_register_id sh = os_cash_register_id data) bid) (shifts s) = [] \<and>
    filter (open_shift_of (\<lambda>sh. rs_opened_by sh = user) bid) (shifts s) = []"
  using assms
  by (auto simp: open_shift_def handler_simps Let_def fresh_uuid_def get_active_shift_def
      get_active_shift_for_user_def add_register_tx_def log_audit_def live_def split: if_splits)

lemma open_shift_one_open:
  assumes "one_open s" "open_shift c bid data user s = Inr (sh, s')"
  shows "one_open s'"
proof -
  from open_shift_Inr [OF assms(2)] obtain new where new: "shifts s' = shifts s @ [new]" "business_id new = bid"
    "rs_opened_by new = user" "rs_cash_register_id new = os_cash_register_id data"
    and none: "filter (open_shift_of (\<lambda>sh. rs_cash_register_id sh = os_cash_register_id data) bid) (shifts s) = []"
      "filter (open_shift_of (\<lambda>sh. rs_opened_by sh = user) bid) (shifts s) = []" by blast
  have "length (filter (open_shift_of (\<lambda>sh. rs_cash_register_id sh = r) b) (shifts s')) \<le> 1" for b r
  proof (cases "b = bid \<and> r = os_cash_register_id data")
    case True
    then show ?thesis using none by (simp add: new(1))
  next
    case False
    then have "\<not> open_shift_of (\<lambda>sh. rs_cash_register_id sh = r) b new" using new by (auto simp: open_shift_of_def)
    then show ?thesis using assms(1) by (simp add: new(1) one_open_def)
  qed
  moreover have "length (filter (open_shift_of (\<lambda>sh. rs_opened_by sh = u) b) (shifts s')) \<le> 1" for b u
  proof (cases "b = bid \<and> u = user")
    case True
    then show ?thesis using none by (simp add: new(1))
  next
    case False
    then have "\<not> open_shift_of (\<lambda>sh. rs_opened_by sh = u) b new" using new by (auto simp: open_shift_of_def)
    then show ?thesis using assms(1) by (simp add: new(1) one_open_def)
  qed
  ultimately show ?thesis by (simp add: one_open_def)
qed

lemma close_shift_Inr:
  assumes "close_shift c bid i data user mng s = Inr (sm, s')"
  obtains sh where "get_shift_by_id s i bid = Inr sh" "row_id sh = i" "rs_status sh = ShiftStatus_open"
    "rs_opened_by sh = user \<or> mng"
    "shifts s' = update_where (\<lambda>x. row_id x = i)
       (closed_shift c (rs_opening_float sh + drawer s (bid, i)) data user) (shifts s)"
    "ss_expected_cash sm = rs_opening_float sh + drawer s (bid, i)"
    "ss_actual_cash sm = Some (cs_actual_cash data)"
    "ss_cash_difference sm = Some (cs_actual_cash data - (rs_opening_float sh + drawer s (bid, i)))"
proof -
  from assms obtain sh where sh: "get_shift_by_id s i bid = Inr sh"
    by (auto simp: close_shift_def handler_simps)
  then have i: "row_id sh = i" by (auto simp: get_shift_by_id_def handler_simps filter_eq_Cons_iff)
  have st: "rs_status sh = ShiftStatus_open" "rs_opened_by sh = user \<or> mng"
    using assms sh by (auto simp: close_shift_def handler_simps split: if_splits)
  let ?e = "rs_opening_float sh + drawer s (bid, i)"
  let ?s = "s\<lparr>shifts := update_where (\<lambda>x. row_id x = i) (closed_shift c ?e data user) (shifts s)\<rparr>"
  let ?tx = "add_register_tx c bid i RegisterTxType_closing_count PaymentMethod_cash
      (cs_actual_cash data) None None None (now c) user ?s"
  have r: "shifts s' = shifts (if 0 < cs_actual_cash data then snd ?tx else ?s) \<and>
    (\<exists>txs. sm = build_shift_summary (closed_shift c ?e data user sh) txs)"
  proof (cases "0 < cs_actual_cash data")
    case True
    with assms sh st i show ?thesis
      by (auto simp: close_shift_def Let_def expected_cash_drawer log_audit_def case_prod_unfold)
  next
    case False
    with assms sh st i show ?thesis
      by (auto simp: close_shift_def Let_def expected_cash_drawer log_audit_def)
  qed
  have s': "shifts s' = update_where (\<lambda>x. row_id x = i) (closed_shift c ?e data user) (shifts s)"
    using r by (simp add: add_register_tx_def fresh_uuid_def Let_def split: if_splits)
  from r obtain txs where sm: "sm = build_shift_summary (closed_shift c ?e data user sh) txs" by blast
  show thesis
    by (rule that [OF sh i st s']) (simp_all add: sm build_shift_summary_def closed_shift_def Let_def)
qed

lemma filter_closed:
  "length (filter (open_shift_of P bid) (update_where Q (closed_shift c e data user) rs))
     \<le> length (filter (open_shift_of P bid) rs)"
  by (induction rs) (auto simp: open_shift_of_def closed_shift_def)

lemma close_shift_one_open:
  assumes "one_open s" "close_shift c bid i data user mng s = Inr (sm, s')"
  shows "one_open s'"
  using assms(2)
proof (rule close_shift_Inr)
  fix sh assume eq: "shifts s' = update_where (\<lambda>x. row_id x = i)
       (closed_shift c (rs_opening_float sh + drawer s (bid, i)) data user) (shifts s)"
  have "length (filter (open_shift_of P b) (shifts s')) \<le> 1"
    if "length (filter (open_shift_of P b) (shifts s)) \<le> 1" for P b
    unfolding eq by (rule le_trans [OF filter_closed that])
  then show ?thesis using assms(1) unfolding one_open_def by blast
qed


text \<open>
  The shift table as a state machine: cashiers open and close shifts, and everything else the back
  end does leaves the table alone.
\<close>

inductive shift_step :: "db \<Rightarrow> db \<Rightarrow> bool" where
  step_open: "open_shift c bid data user s = Inr (sh, s') \<Longrightarrow> shift_step s s'"
| step_close: "close_shift c bid i data user mng s = Inr (sm, s') \<Longrightarrow> shift_step s s'"
| step_other: "shifts s' = shifts s \<Longrightarrow> shift_step s s'"

inductive shift_reachable :: "db \<Rightarrow> bool" where
  reach_init: "shifts s = [] \<Longrightarrow> shift_reachable s"
| reach_step: "shift_reachable s \<Longrightarrow> shift_step s s' \<Longrightarrow> shift_reachable s'"

inductive_cases shift_stepE: "shift_step s s'"


definition sample_register :: cash_register where
  "sample_register = new_row 4 1 None 0
     \<lparr>cr_branch_id = 2, cr_name = ''Front'', cr_device_identifier = None, cr_is_active = True\<rparr>"

definition sample_till :: db where
  "sample_till = (empty_db id)\<lparr>uuid_next := 100, cash_registers := [sample_register]\<rparr>"

definition sample_opening :: OpenShiftRequest where
  "sample_opening = \<lparr>os_cash_register_id = 4, os_opening_float = 50, os_notes = None\<rparr>"

definition sample_now :: clock where
  "sample_now = \<lparr>now = 1000, date_key = ''20250101''\<rparr>"

lemma sample_open: "\<exists>sh s'. open_shift sample_now 1 sample_opening 9 sample_till = Inr (sh, s') \<and>
   length (shifts s') = 1"
  by (simp add: open_shift_def sample_till_def sample_register_def sample_opening_def sample_now_def
      empty_db_def get_cash_register_by_id_def get_active_shift_def get_active_shift_for_user_def
      get_shift_by_id_def scalar_one_or_none_def live_def fresh_uuid_def add_register_tx_def log_audit_def Let_def)


section \<open>Closing and posting\<close>

lemma filter_update_sub:
  "(\<And>r. P r \<Longrightarrow> Q r) \<Longrightarrow> (\<And>r. Q r \<Longrightarrow> P (f r) = P r) \<Longrightarrow>
     filter P (update_where Q f rs) = map f (filter P rs)"
  by (induction rs) auto

text \<open>
  A shift posts only while it is open, for the cashier who opened it: the shift
  \<open>require_caller_shift\<close> returns is a live open shift of the caller in the business, at the branch
  and with the id the request names, if it names one.
\<close>

theorem require_caller_shift_sound:
  assumes "require_caller_shift s bid user br req act = Inr sh"
  shows "sh \<in> set (shifts s) \<and> live sh \<and> rs_status sh = ShiftStatus_open \<and> rs_opened_by sh = user \<and>
    business_id sh = bid \<and> (\<forall>b. br = Some b \<longrightarrow> rs_branch_id sh = b) \<and> (\<forall>r. req = Some r \<longrightarrow> row_id sh = r)"
proof -
  from assms obtain xs where f: "filter (open_shift_of (\<lambda>sh. rs_opened_by sh = user) bid) (shifts s) = sh # xs"
    by (auto simp: require_caller_shift_def first_row_def handler_simps split: option.splits list.splits if_splits)
  then have "sh \<in> set (shifts s)" "open_shift_of (\<lambda>sh. rs_opened_by sh = user) bid sh"
    by (auto simp: filter_eq_Cons_iff)
  moreover have "(\<forall>b. br = Some b \<longrightarrow> rs_branch_id sh = b) \<and> (\<forall>r. req = Some r \<longrightarrow> row_id sh = r)"
    using assms f by (auto simp: require_caller_shift_def first_row_def handler_simps split: option.splits if_splits)
  ultimately show ?thesis by (simp add: open_shift_of_def)
qed

text \<open>
  Closing a shift needs it open and the caller to be its cashier or a shift manager; it records
  the opening float plus every cash effect posted to the shift as expected cash, and the counted
  cash less that as the difference. Afterwards the shift is closed for good as far as posting goes:
  no caller is given it as a shift to post to, and its summary keeps the recorded figures whatever
  is posted later.
\<close>

theorem close_shift_correct:
  assumes "close_shift c bid i data user mng s = Inr (sm, s')"
  shows "\<exists>sh. get_shift_by_id s i bid = Inr sh \<and> rs_status sh = ShiftStatus_open \<and>
    (rs_opened_by sh = user \<or> mng) \<and>
    ss_expected_cash sm = rs_opening_float sh + drawer s (bid, i) \<and>
    ss_cash_difference sm = Some (cs_actual_cash data - ss_expected_cash sm) \<and>
    (\<forall>t bid' u br req act x. shifts t = shifts s' \<longrightarrow>
       require_caller_shift t bid' u br req act = Inr x \<longrightarrow> row_id x \<noteq> i) \<and>
    (\<forall>t. shifts t = shifts s' \<longrightarrow> (\<exists>sm'. get_shift_summary t bid i = Inr sm' \<and>
       ss_expected_cash sm' = ss_expected_cash sm \<and> ss_cash_difference sm' = ss_cash_difference sm))"
  using assms
proof (rule close_shift_Inr)
  fix sh :: register_shift
  let ?e = "rs_opening_float sh + drawer s (bid, i)"
  assume sh: "get_shift_by_id s i bid = Inr sh" "row_id sh = i" "rs_status sh = ShiftStatus_open"
    "rs_opened_by sh = user \<or> mng"
    and upd: "shifts s' = update_where (\<lambda>x. row_id x = i) (closed_shift c ?e data user) (shifts s)"
    and sm: "ss_expected_cash sm = ?e" "ss_actual_cash sm = Some (cs_actual_cash data)"
      "ss_cash_difference sm = Some (cs_actual_cash data - ?e)"
  have closed: "rs_status x = ShiftStatus_closed" if x: "x \<in> set (shifts s')" "row_id x = i" for x
  proof -
    obtain y where y: "x = (if row_id y = i then closed_shift c ?e data user y else y)"
      using x(1) unfolding upd set_update_where by blast
    with x(2) have "row_id y = i" by (auto split: if_splits)
    with y show ?thesis by (simp add: closed_shift_def)
  qed
  have no: "row_id x \<noteq> i" if "shifts t = shifts s'" "require_caller_shift t bid' u br req act = Inr x"
    for t bid' u br req act x
    using require_caller_shift_sound [OF that(2)] closed that(1) by fastforce
  have "filter (\<lambda>x. row_id x = i \<and> business_id x = bid \<and> live x) (shifts s') =
      map (closed_shift c ?e data user) (filter (\<lambda>x. row_id x = i \<and> business_id x = bid \<and> live x) (shifts s))"
    unfolding upd by (rule filter_update_sub) (auto simp: closed_shift_def live_def)
  also have "\<dots> = [closed_shift c ?e data user sh]"
    using sh(1) by (auto simp: get_shift_by_id_def handler_simps)
  finally have "get_shift_by_id t i bid = Inr (closed_shift c ?e data user sh)" if "shifts t = shifts s'" for t
    using that by (simp add: get_shift_by_id_def)
  then have "\<exists>sm'. get_shift_summary t bid i = Inr sm' \<and>
       ss_expected_cash sm' = ss_expected_cash sm \<and> ss_cash_difference sm' = ss_cash_difference sm"
    if "shifts t = shifts s'" for t
    using that sm by (simp add: get_shift_summary_def build_shift_summary_def closed_shift_def Let_def)
  with sh sm no show ?thesis by (intro exI [of _ sh]) auto
qed

definition sample_shift :: register_shift where
  "sample_shift = new_row 6 1 None 0 \<lparr>rs_branch_id = 2, rs_cash_register_id = 4, rs_opened_by = 9,
     rs_closed_by = None, rs_status = ShiftStatus_open, rs_opening_float = 50, rs_expected_cash = None,
     rs_actual_cash = None, rs_cash_difference = None, rs_opened_at = 0, rs_closed_at = None,
     rs_notes = None\<rparr>"

definition sample_open_till :: db where
  "sample_open_till = sample_till\<lparr>shifts := [sample_shift]\<rparr>"

lemma close_shift_correct_witness:
  "\<exists>sm s'. close_shift sample_now 1 6 \<lparr>cs_actual_cash = 45, cs_notes = None\<rparr> 9 False sample_open_till = Inr (sm, s') \<and>
     ss_expected_cash sm = 50 \<and> ss_cash_difference sm = Some (- 5)"
proof -
  have g: "get_shift_by_id sample_open_till 6 1 = Inr sample_shift"
    by (simp add: get_shift_by_id_def sample_open_till_def sample_shift_def live_def)
  then obtain sm s' where r: "close_shift sample_now 1 6 \<lparr>cs_actual_cash = 45, cs_notes = None\<rparr> 9 False
      sample_open_till = Inr (sm, s')"
    by (auto simp: close_shift_def sample_shift_def Let_def case_prod_unfold)
  have "drawer sample_open_till (1, 6) = 0" by (simp add: drawer_def sample_open_till_def sample_till_def empty_db_def)
  with close_shift_correct [OF r] g r show ?thesis by (auto simp: sample_shift_def)
qed

lemma require_caller_shift_sound_witness:
  "require_caller_shift sample_open_till 1 9 (Some 2) None ''record a sale'' = Inr sample_shift \<and>
   rs_branch_id sample_shift = 2"
proof -
  have r: "require_caller_shift sample_open_till 1 9 (Some 2) None ''record a sale'' = Inr sample_shift"
    by (simp add: require_caller_shift_def sample_open_till_def sample_shift_def open_shift_of_def
        first_row_def live_def Let_def)
  with require_caller_shift_sound [OF r] show ?thesis by blast
qed

end
