(* ===== verification/Customers.thy ===== *)
theory Customers
  imports Registers
begin

text \<open>
  \<open>app/services/customer_service.py\<close> and \<open>app/services/supplier_ledger_service.py\<close>: customers, their
  credit, and the two account ledgers. A negative customer balance is what the customer owes.
\<close>

section \<open>Customers\<close>

record CreateCustomerRequest =
  ccu_name :: string
  ccu_email :: "string option"
  ccu_phone :: "string option"
  ccu_tax_id :: "string option"
  ccu_address_line1 :: "string option"
  ccu_city :: "string option"
  ccu_credit_limit :: decimal

record UpdateCustomerRequest =
  ucu_name :: "string option"
  ucu_email :: "string option"
  ucu_phone :: "string option"
  ucu_credit_limit :: "decimal option"
  ucu_is_active :: "bool option"

definition get_customer_by_id :: "db \<Rightarrow> uuid \<Rightarrow> uuid \<Rightarrow> customer res" where
  "get_customer_by_id s customer_id bid =
     require_one (HTTPException 404 ''Customer not found'' [])
       (filter (\<lambda>c. row_id c = customer_id \<and> business_id c = bid \<and> live c) (customers s))"

definition lock_customer :: "db \<Rightarrow> uuid \<Rightarrow> uuid \<Rightarrow> customer res" where
  \<comment> \<open>the same query with \<open>FOR UPDATE\<close>\<close>
  "lock_customer s customer_id bid =
     require_one (HTTPException 404 ''Customer not found'' [])
       (filter (\<lambda>c. row_id c = customer_id \<and> business_id c = bid \<and> live c) (customers s))"

definition create_customer ::
  "clock \<Rightarrow> uuid \<Rightarrow> CreateCustomerRequest \<Rightarrow> uuid \<Rightarrow> db \<Rightarrow> customer \<times> db" where
  "create_customer c bid data user s =
     (let (i, s) = fresh_uuid s;
          customer = new_row i bid (Some user) (now c)
            \<lparr>cu_name = ccu_name data,
             cu_email = (case ccu_email data of Some e \<Rightarrow> if e = [] then None else Some e | None \<Rightarrow> None),
             cu_phone = ccu_phone data, cu_tax_id = ccu_tax_id data,
             cu_address_line1 = ccu_address_line1 data, cu_city = ccu_city data,
             cu_credit_limit = ccu_credit_limit data, cu_is_active = True\<rparr>
      in (customer, s\<lparr>customers := customers s @ [customer]\<rparr>))"

definition set_some :: "'a option \<Rightarrow> 'a option \<Rightarrow> 'a option" where
  \<comment> \<open>\<open>if data.x is not None: row.x = data.x\<close> on a nullable column\<close>
  "set_some new old = (case new of Some v \<Rightarrow> Some v | None \<Rightarrow> old)"

definition update_customer ::
  "clock \<Rightarrow> uuid \<Rightarrow> uuid \<Rightarrow> UpdateCustomerRequest \<Rightarrow> uuid \<Rightarrow> db \<Rightarrow> db res" where
  "update_customer c customer_id bid data user s =
     bind_res (get_customer_by_id s customer_id bid) (\<lambda>customer.
       Inr (s\<lparr>customers := update_where (\<lambda>r. row_id r = row_id customer)
         (\<lambda>r. r\<lparr>cu_name := or_else (ucu_name data) (cu_name r),
                cu_email := set_some (ucu_email data) (cu_email r),
                cu_phone := set_some (ucu_phone data) (cu_phone r),
                cu_credit_limit := or_else (ucu_credit_limit data) (cu_credit_limit r),
                cu_is_active := or_else (ucu_is_active data) (cu_is_active r),
                updated_by := Some user, updated_at := now c\<rparr>) (customers s)\<rparr>))"

section \<open>The customer ledger\<close>

definition entry_of :: "uuid \<Rightarrow> uuid \<Rightarrow> customer_ledger \<Rightarrow> bool" where
  "entry_of customer_id bid e \<longleftrightarrow> cl_customer_id e = customer_id \<and> business_id e = bid \<and> live e"

definition get_customer_balance :: "db \<Rightarrow> uuid \<Rightarrow> uuid \<Rightarrow> decimal res" where
  "get_customer_balance s customer_id bid =
     bind_res (get_customer_by_id s customer_id bid) (\<lambda>_.
       Inr (sum_where cl_amount (entry_of customer_id bid) (customer_ledgers s)))"

definition get_customer_ledger ::
  "db \<Rightarrow> uuid \<Rightarrow> uuid \<Rightarrow> nat \<Rightarrow> nat \<Rightarrow> (customer_ledger list \<times> nat) res" where
  "get_customer_ledger s customer_id bid skip limit =
     bind_res (get_customer_by_id s customer_id bid) (\<lambda>_.
       let rows = filter (entry_of customer_id bid) (customer_ledgers s)
       in Inr (take limit (drop skip (sort_key (\<lambda>e. - cl_entry_at e) rows)), length rows))"

definition create_ledger_entry ::
  "clock \<Rightarrow> uuid \<Rightarrow> uuid \<Rightarrow> LedgerEntryTypeEnum \<Rightarrow> decimal \<Rightarrow> uuid \<Rightarrow> ReferenceTypeEnum option \<Rightarrow>
   uuid option \<Rightarrow> string option \<Rightarrow> db \<Rightarrow> customer_ledger \<times> db" where
  "create_ledger_entry c bid customer_id entry_type amount user reference_type reference_id notes s =
     (let (i, s) = fresh_uuid s;
          entry = new_row i bid (Some user) (now c)
            \<lparr>cl_customer_id = customer_id, cl_entry_type = entry_type, cl_amount = amount,
             cl_reference_type = reference_type, cl_reference_id = reference_id,
             cl_entry_at = now c, cl_notes = notes\<rparr>
      in (entry, s\<lparr>customer_ledgers := customer_ledgers s @ [entry]\<rparr>))"

definition assert_credit_available :: "db \<Rightarrow> uuid \<Rightarrow> uuid \<Rightarrow> decimal \<Rightarrow> unit res" where
  "assert_credit_available s bid customer_id credit_amount =
     bind_res (lock_customer s customer_id bid) (\<lambda>customer.
     if credit_amount \<le> 0 \<or> cu_credit_limit customer \<le> 0 then Inr ()
     else bind_res (get_customer_balance s customer_id bid) (\<lambda>current_balance.
       let projected_balance = current_balance - credit_amount
       in if projected_balance < 0 \<and> cu_credit_limit customer < \<bar>projected_balance\<bar> then
            let available = (if current_balance < 0 then cu_credit_limit customer - \<bar>current_balance\<bar>
                             else cu_credit_limit customer)
            in Inl (HTTPException 400
                 ''Credit limit exceeded. Customer's available credit is Rs. {}, but this sale requires Rs. {} on credit.''
                 [ADec available, ADec credit_amount])
          else Inr ()))"

section \<open>Customer payments\<close>

record CreateCustomerPaymentRequest =
  cp_amount :: decimal
  cp_payment_method :: PaymentMethodEnum
  cp_reference_no :: "string option"
  cp_notes :: "string option"
  cp_register_shift_id :: "uuid option"

definition valid_customer_payment :: "CreateCustomerPaymentRequest \<Rightarrow> bool" where
  "valid_customer_payment d \<longleftrightarrow> 0 < cp_amount d \<and> cp_payment_method d \<noteq> PaymentMethod_credit"

record CustomerPaymentResponse =
  cpr_ledger_entry_id :: uuid
  cpr_customer_id :: uuid
  cpr_amount :: decimal
  cpr_new_balance :: decimal

fun join :: "string \<Rightarrow> string list \<Rightarrow> string" where
  "join sep [] = []"
| "join sep [x] = x"
| "join sep (x # xs) = x @ sep @ join sep xs"

definition nonempty :: "string option \<Rightarrow> string option" where
  \<comment> \<open>the truth test \<open>if data.x:\<close> on an optional string\<close>
  "nonempty t = (case t of Some x \<Rightarrow> if x = [] then None else Some x | None \<Rightarrow> None)"

definition payment_notes :: "CreateCustomerPaymentRequest \<Rightarrow> string" where
  "payment_notes data = join '' | ''
     ([''Payment received via '' @ PaymentMethodEnum_value (cp_payment_method data)] @
      (case nonempty (cp_reference_no data) of Some r \<Rightarrow> [''Ref: '' @ r] | None \<Rightarrow> []) @
      (case nonempty (cp_notes data) of Some n \<Rightarrow> [n] | None \<Rightarrow> []))"

definition record_customer_payment ::
  "clock \<Rightarrow> uuid \<Rightarrow> uuid \<Rightarrow> CreateCustomerPaymentRequest \<Rightarrow> uuid \<Rightarrow> db \<Rightarrow>
     (CustomerPaymentResponse \<times> db) res" where
  "record_customer_payment c bid customer_id data user s =
     bind_res (get_customer_by_id s customer_id bid) (\<lambda>_.
     bind_res
       (case cp_register_shift_id data of
          None \<Rightarrow> Inr ()
        | Some sh \<Rightarrow>
            bind_res (verify_open_register_shift s sh bid ''Cannot record payment - shift is not open'')
              (\<lambda>_. Inr ())) (\<lambda>_.
     let ledger_notes = payment_notes data;
         (entry, s) = create_ledger_entry c bid customer_id LedgerEntryType_payment (cp_amount data)
           user (Some ReferenceType_manual) (Some customer_id) (Some ledger_notes) s;
         s = (case cp_register_shift_id data of
                Some sh \<Rightarrow>
                  if cp_payment_method data = PaymentMethod_cash then
                    snd (add_register_tx c bid sh RegisterTxType_cash_in PaymentMethod_cash
                           (cp_amount data) (Some ReferenceType_manual) (Some (row_id entry))
                           (Some ledger_notes) (now c) user s)
                  else s
              | None \<Rightarrow> s)
     in bind_res (get_customer_balance s customer_id bid) (\<lambda>new_balance.
        Inr (\<lparr>cpr_ledger_entry_id = row_id entry, cpr_customer_id = customer_id,
              cpr_amount = cp_amount data, cpr_new_balance = new_balance\<rparr>, s))))"

section \<open>Supplier accounts\<close>

definition get_supplier_by_id :: "db \<Rightarrow> uuid \<Rightarrow> uuid \<Rightarrow> supplier res" where
  "get_supplier_by_id s supplier_id bid =
     require_one (HTTPException 404 ''Supplier not found'' [])
       (filter (\<lambda>r. row_id r = supplier_id \<and> business_id r = bid \<and> live r) (suppliers s))"

definition supplier_entry_of :: "uuid \<Rightarrow> uuid \<Rightarrow> supplier_ledger \<Rightarrow> bool" where
  "supplier_entry_of supplier_id bid e \<longleftrightarrow>
     sl_supplier_id e = supplier_id \<and> business_id e = bid \<and> live e"

definition get_supplier_balance :: "db \<Rightarrow> uuid \<Rightarrow> uuid \<Rightarrow> decimal res" where
  "get_supplier_balance s supplier_id bid =
     bind_res (get_supplier_by_id s supplier_id bid) (\<lambda>_.
       Inr (sum_where sl_amount (supplier_entry_of supplier_id bid) (supplier_ledgers s)))"

definition get_supplier_ledger ::
  "db \<Rightarrow> uuid \<Rightarrow> uuid \<Rightarrow> nat \<Rightarrow> nat \<Rightarrow> (supplier_ledger list \<times> nat) res" where
  "get_supplier_ledger s supplier_id bid skip limit =
     bind_res (get_supplier_by_id s supplier_id bid) (\<lambda>_.
       let rows = filter (supplier_entry_of supplier_id bid) (supplier_ledgers s)
       in Inr (take limit (drop skip (sort_key (\<lambda>e. - sl_entry_at e) rows)), length rows))"

definition create_supplier_ledger_entry ::
  "clock \<Rightarrow> uuid \<Rightarrow> uuid \<Rightarrow> LedgerEntryTypeEnum \<Rightarrow> decimal \<Rightarrow> ReferenceTypeEnum option \<Rightarrow>
   uuid option \<Rightarrow> string option \<Rightarrow> uuid option \<Rightarrow> db \<Rightarrow> supplier_ledger \<times> db" where
  "create_supplier_ledger_entry c bid supplier_id entry_type amount reference_type reference_id
     notes user s =
     (let (i, s) = fresh_uuid s;
          entry = new_row i bid user (now c)
            \<lparr>sl_supplier_id = supplier_id, sl_entry_type = entry_type, sl_amount = amount,
             sl_reference_type = reference_type, sl_reference_id = reference_id,
             sl_entry_at = now c, sl_notes = notes\<rparr>
      in (entry, s\<lparr>supplier_ledgers := supplier_ledgers s @ [entry]\<rparr>))"

record SupplierPaymentRequest =
  spr_amount :: decimal
  spr_payment_method :: PaymentMethodEnum
  spr_reference_no :: "string option"
  spr_notes :: "string option"

definition record_supplier_payment ::
  "clock \<Rightarrow> uuid \<Rightarrow> uuid \<Rightarrow> SupplierPaymentRequest \<Rightarrow> uuid \<Rightarrow> db \<Rightarrow> (supplier_ledger \<times> db) res" where
  "record_supplier_payment c bid supplier_id data user s =
     bind_res (get_supplier_by_id s supplier_id bid) (\<lambda>_.
       Inr (create_supplier_ledger_entry c bid supplier_id LedgerEntryType_payment (spr_amount data)
              None None (case nonempty (spr_notes data) of Some n \<Rightarrow> Some n | None \<Rightarrow> spr_reference_no data)
              (Some user) s))"

section \<open>The account ledgers as ledgers\<close>

definition customer_account :: "db \<Rightarrow> uuid \<times> uuid \<Rightarrow> decimal" where
  "customer_account s = (\<lambda>(bid, cid). sum_where cl_amount (entry_of cid bid) (customer_ledgers s))"

definition posted_entry :: "uuid \<times> uuid \<Rightarrow> rat \<Rightarrow> db \<Rightarrow> db \<Rightarrow> bool" where
  "posted_entry k a s s' \<longleftrightarrow> (\<exists>e. customer_ledgers s' = customer_ledgers s @ [e] \<and> live e \<and>
     (business_id e, cl_customer_id e) = k \<and> cl_amount e = a)"

interpretation accounts: ledger customer_account posted_entry
  by unfold_locales (auto simp: posted_entry_def customer_account_def entry_of_def split: if_splits)

definition supplier_account :: "db \<Rightarrow> uuid \<times> uuid \<Rightarrow> decimal" where
  "supplier_account s = (\<lambda>(bid, sid). sum_where sl_amount (supplier_entry_of sid bid) (supplier_ledgers s))"

definition posted_supplier_entry :: "uuid \<times> uuid \<Rightarrow> rat \<Rightarrow> db \<Rightarrow> db \<Rightarrow> bool" where
  "posted_supplier_entry k a s s' \<longleftrightarrow> (\<exists>e. supplier_ledgers s' = supplier_ledgers s @ [e] \<and> live e \<and>
     (business_id e, sl_supplier_id e) = k \<and> sl_amount e = a)"

interpretation payables: ledger supplier_account posted_supplier_entry
  by unfold_locales (auto simp: posted_supplier_entry_def supplier_account_def supplier_entry_of_def
      split: if_splits)

lemma get_customer_balance_Inr:
  "get_customer_balance s cid bid = Inr b \<longleftrightarrow>
     (\<exists>cu. get_customer_by_id s cid bid = Inr cu) \<and> b = customer_account s (bid, cid)"
  by (auto simp: get_customer_balance_def customer_account_def handler_simps)

lemma create_ledger_entry_eq:
  assumes "create_ledger_entry c bid cid et a user rt rid notes s = (e, s')"
  shows "s' = s\<lparr>uuid_next := Suc (uuid_next s), customer_ledgers := customer_ledgers s @ [e]\<rparr>"
    "live e" "business_id e = bid" "cl_customer_id e = cid" "cl_amount e = a"
  using assms by (auto simp: create_ledger_entry_def fresh_uuid_def Let_def live_def)

lemma create_ledger_entry_posts:
  assumes "create_ledger_entry c bid cid et a user rt rid notes s = (e, s')"
  shows "posted_entry (bid, cid) a s s'"
  using create_ledger_entry_eq [OF assms] by (auto simp: posted_entry_def)

lemma get_customer_by_id_cong:
  "customers s' = customers s \<Longrightarrow> get_customer_by_id s' = get_customer_by_id s"
  by (simp add: get_customer_by_id_def fun_eq_iff)

text \<open>
  C26. A sale on account that passes the credit check and is then posted to the customer's ledger
  never takes the customer below minus the credit limit, when a limit is set; and the check only
  refuses an amount that would.
\<close>

theorem credit_limit_respected:
  assumes "get_customer_by_id s cid bid = Inr cu" "0 < amount" "0 < cu_credit_limit cu"
    and "create_ledger_entry c bid cid et (- amount) user rt rid notes s = (e, s')"
  shows "case assert_credit_available s bid cid amount of
      Inr _ \<Rightarrow> (\<exists>b. get_customer_balance s' cid bid = Inr b \<and> - cu_credit_limit cu \<le> b)
    | Inl _ \<Rightarrow> (\<exists>b. get_customer_balance s' cid bid = Inr b \<and> b < - cu_credit_limit cu)"
proof -
  have lock: "lock_customer s cid bid = Inr cu"
    using assms(1) by (simp add: lock_customer_def get_customer_by_id_def)
  have "get_customer_by_id s' cid bid = Inr cu"
    using assms(1) by (simp add: get_customer_by_id_def create_ledger_entry_eq(1) [OF assms(4)])
  moreover have "customer_account s' (bid, cid) = customer_account s (bid, cid) - amount"
    using accounts.post_own [OF create_ledger_entry_posts [OF assms(4)]] by simp
  ultimately have b: "get_customer_balance s' cid bid = Inr (customer_account s (bid, cid) - amount)"
    by (simp add: get_customer_balance_Inr)
  have "get_customer_balance s cid bid = Inr (customer_account s (bid, cid))"
    using assms(1) by (simp add: get_customer_balance_Inr)
  then show ?thesis using assms(2,3) lock b
    by (auto simp: assert_credit_available_def Let_def split: sum.splits if_splits)
qed

definition sample_customer :: customer where
  "sample_customer = new_row 8 1 None 0
     \<lparr>cu_name = ''Ada'', cu_email = None, cu_phone = None, cu_tax_id = None, cu_address_line1 = None,
      cu_city = None, cu_credit_limit = 100, cu_is_active = True\<rparr>"

definition sample_shop :: db where
  "sample_shop = (empty_db id)\<lparr>uuid_next := 100, customers := [sample_customer]\<rparr>"

lemma sample_customer_found: "get_customer_by_id sample_shop 8 1 = Inr sample_customer"
  by (simp add: get_customer_by_id_def sample_shop_def sample_customer_def live_def)

lemma credit_limit_respected_witness:
  "\<exists>e s'. create_ledger_entry sample_now 1 8 LedgerEntryType_sale (- 60) 9 None None None sample_shop = (e, s') \<and>
     (\<exists>b. get_customer_balance s' 8 1 = Inr b \<and> - 100 \<le> b)"
proof -
  obtain e s' where r: "create_ledger_entry sample_now 1 8 LedgerEntryType_sale (- 60) 9 None None None sample_shop = (e, s')"
    by fastforce
  have "assert_credit_available sample_shop 1 8 60 = Inr ()"
    by (simp add: assert_credit_available_def lock_customer_def sample_shop_def sample_customer_def
        live_def get_customer_balance_def get_customer_by_id_def empty_db_def Let_def)
  with credit_limit_respected [OF sample_customer_found, of 60 sample_now LedgerEntryType_sale 9 None None None e s'] r
  show ?thesis by (simp add: sample_customer_def)
qed

text \<open>
  Recording a customer payment raises that customer's account by exactly the amount and no
  other account, returns the new balance, and raises the drawer of the named shift by the amount
  when it was paid in cash into a shift, and no drawer otherwise.
\<close>

theorem record_customer_payment_correct:
  assumes "record_customer_payment c bid cid data user s = Inr (r, s')"
  shows "(\<forall>k. customer_account s' k = customer_account s k + (if k = (bid, cid) then cp_amount data else 0)) \<and>
    cpr_new_balance r = customer_account s' (bid, cid) \<and>
    (\<forall>b sh. drawer s' (b, sh) = drawer s (b, sh) +
       (if b = bid \<and> cp_register_shift_id data = Some sh \<and> cp_payment_method data = PaymentMethod_cash
        then cp_amount data else 0)) \<and>
    (\<forall>sh. cp_register_shift_id data = Some sh \<longrightarrow>
       (\<exists>x. get_shift_by_id s sh bid = Inr x \<and> rs_status x = ShiftStatus_open))"
proof -
  let ?nts = "payment_notes data"
  obtain ent t where e: "create_ledger_entry c bid cid LedgerEntryType_payment (cp_amount data) user
      (Some ReferenceType_manual) (Some cid) (Some ?nts) s = (ent, t)"
    by fastforce
  have s': "s' = (case cp_register_shift_id data of
                Some sh \<Rightarrow>
                  if cp_payment_method data = PaymentMethod_cash then
                    snd (add_register_tx c bid sh RegisterTxType_cash_in PaymentMethod_cash
                           (cp_amount data) (Some ReferenceType_manual) (Some (row_id ent))
                           (Some ?nts) (now c) user t)
                  else t
              | None \<Rightarrow> t)"
    and b: "get_customer_balance s' cid bid = Inr (cpr_new_balance r)"
    using assms unfolding record_customer_payment_def Let_def e prod.case
    by (auto simp: handler_simps)
  have sh: "\<forall>sh. cp_register_shift_id data = Some sh \<longrightarrow>
       (\<exists>x. get_shift_by_id s sh bid = Inr x \<and> rs_status x = ShiftStatus_open)"
    using assms unfolding record_customer_payment_def Let_def e prod.case
    by (auto simp: handler_simps verify_open_register_shift_def split: if_splits)
  have acc: "customer_account t k = customer_account s k + (if k = (bid, cid) then cp_amount data else 0)" for k
    using accounts.post_balance [OF create_ledger_entry_posts [OF e]] .
  have "customer_account s' k = customer_account t k" for k
    by (auto simp: s' customer_account_def add_register_tx_def fresh_uuid_def Let_def split: option.splits)
  moreover have "drawer t k = drawer s k" for k
    using create_ledger_entry_eq(1) [OF e] by (simp add: drawer_def)
  moreover have "drawer s' (b, x) = drawer t (b, x) +
       (if b = bid \<and> cp_register_shift_id data = Some x \<and> cp_payment_method data = PaymentMethod_cash
        then cp_amount data else 0)" for b x
  proof (cases "cp_register_shift_id data")
    case None
    then show ?thesis by (simp add: s')
  next
    case (Some y)
    obtain tx u where tx: "add_register_tx c bid y RegisterTxType_cash_in PaymentMethod_cash
        (cp_amount data) (Some ReferenceType_manual) (Some (row_id ent)) (Some ?nts) (now c) user t = (tx, u)"
      by fastforce
    have "cash_effect tx = cp_amount data" using add_register_tx_eq [OF tx] by (simp add: cash_effect_def)
    with drawer.post_balance [OF add_register_tx_posts [OF tx], of "(b, x)"] show ?thesis
      by (auto simp: s' Some tx)
  qed
  ultimately show ?thesis using acc b sh by (simp add: get_customer_balance_Inr)
qed

definition sample_payment :: CreateCustomerPaymentRequest where
  "sample_payment = \<lparr>cp_amount = 30, cp_payment_method = PaymentMethod_cash, cp_reference_no = Some ''R1'',
     cp_notes = None, cp_register_shift_id = Some 6\<rparr>"

lemma record_customer_payment_correct_witness:
  "\<exists>r s'. record_customer_payment sample_now 1 8 sample_payment 9 (sample_shop\<lparr>shifts := [sample_shift]\<rparr>) = Inr (r, s') \<and>
     customer_account s' (1, 8) = 30 \<and> drawer s' (1, 6) = 30"
proof -
  let ?s = "sample_shop\<lparr>shifts := [sample_shift]\<rparr>"
  have "\<exists>r s'. record_customer_payment sample_now 1 8 sample_payment 9 ?s = Inr (r, s')"
    by (simp add: record_customer_payment_def sample_shop_def sample_customer_def sample_payment_def
        sample_shift_def verify_open_register_shift_def get_shift_by_id_def get_customer_by_id_def
        get_customer_balance_def create_ledger_entry_def fresh_uuid_def add_register_tx_def live_def Let_def)
  then obtain r s' where r: "record_customer_payment sample_now 1 8 sample_payment 9 ?s = Inr (r, s')" by blast
  have "customer_account ?s (1, 8) = 0" "drawer ?s (1, 6) = 0"
    by (simp_all add: customer_account_def drawer_def sample_shop_def empty_db_def)
  with record_customer_payment_correct [OF r] r show ?thesis by (simp add: sample_payment_def)
qed

end
