(* ===== verification/Pricing.thy ===== *)
theory Pricing
  imports Models
begin

text \<open>
  \<open>app/services/pricing_engine.py\<close>: the arithmetic of a sale line, of a sale and of its
  status. The two \<open>_round2\<close> helpers of the services round differently (this one half up, the
  one of \<open>app/services/invoice_service.py\<close> half even); both are instances of \<open>quantizer\<close>.
\<close>

section \<open>Rounding to cents\<close>

definition round2 :: "decimal \<Rightarrow> decimal" where
  "round2 value = quantize_up 2 value"

definition invoice_round2 :: "decimal \<Rightarrow> decimal" where
  "invoice_round2 value = quantize_even 2 value"

interpretation cents: quantizer round2 "1 / 100"
  using quantizer_up [of 2] by (simp add: round2_def [abs_def])

interpretation invoice_cents: quantizer invoice_round2 "1 / 100"
  using quantizer_even [of 2] by (simp add: invoice_round2_def [abs_def])

section \<open>Lines and totals\<close>

record line_calc =
  lc_line_subtotal :: decimal
  lc_effective_discount :: decimal
  lc_taxable_amount :: decimal
  lc_tax_amount :: decimal
  lc_line_total :: decimal

definition calculate_line_total ::
  "decimal \<Rightarrow> decimal \<Rightarrow> decimal \<Rightarrow> decimal \<Rightarrow> decimal \<Rightarrow> line_calc" where
  "calculate_line_total qty unit_price discount_pct discount_amount tax_rate =
     (let line_subtotal = round2 (qty * unit_price);
          pct_discount = round2 (line_subtotal * discount_pct / 100);
          effective_discount = max discount_amount pct_discount;
          effective_discount = round2 effective_discount;
          taxable_amount = round2 (line_subtotal - effective_discount);
          tax_amount = round2 (taxable_amount * tax_rate / 100);
          line_total = round2 (taxable_amount + tax_amount)
      in \<lparr>lc_line_subtotal = line_subtotal,
          lc_effective_discount = effective_discount,
          lc_taxable_amount = taxable_amount,
          lc_tax_amount = tax_amount,
          lc_line_total = line_total\<rparr>)"

record sale_totals =
  t_subtotal :: decimal
  t_total_discount :: decimal
  t_total_tax :: decimal
  t_total_amount :: decimal

definition calculate_sale_totals :: "line_calc list \<Rightarrow> sale_totals" where
  "calculate_sale_totals lines =
     (let (subtotal, total_discount, total_tax) =
            fold (\<lambda>line (subtotal, total_discount, total_tax).
                    (subtotal + lc_line_subtotal line,
                     total_discount + lc_effective_discount line,
                     total_tax + lc_tax_amount line)) lines (0, 0, 0);
          subtotal = round2 subtotal;
          total_discount = round2 total_discount;
          total_tax = round2 total_tax;
          total_amount = round2 (subtotal - total_discount + total_tax)
      in \<lparr>t_subtotal = subtotal, t_total_discount = total_discount,
          t_total_tax = total_tax, t_total_amount = total_amount\<rparr>)"

definition determine_sale_status :: "decimal \<Rightarrow> decimal \<Rightarrow> SaleStatusEnum" where
  "determine_sale_status total_amount total_paid =
     (if total_amount = 0 then SaleStatus_completed
      else if total_paid = 0 then SaleStatus_draft
      else if total_paid < total_amount then SaleStatus_partially_paid
      else SaleStatus_completed)"

section \<open>The line\<close>

lemma lc_fields:
  fixes q p dp da t
  defines "l \<equiv> calculate_line_total q p dp da t"
  shows "lc_line_subtotal l = round2 (q * p)"
    and "lc_effective_discount l = round2 (max da (round2 (round2 (q * p) * dp / 100)))"
    and "lc_taxable_amount l = lc_line_subtotal l - lc_effective_discount l"
    and "lc_tax_amount l = round2 (lc_taxable_amount l * t / 100)"
    and "lc_line_total l = lc_taxable_amount l + lc_tax_amount l"
  unfolding l_def calculate_line_total_def Let_def
  by (simp_all add: cents.fixed_grid cents.on_grid_add cents.on_grid_diff)

lemma lc_grid:
  fixes q p dp da t
  defines "l \<equiv> calculate_line_total q p dp da t"
  shows "cents.on_grid (lc_line_subtotal l)" "cents.on_grid (lc_effective_discount l)"
    "cents.on_grid (lc_taxable_amount l)" "cents.on_grid (lc_tax_amount l)"
    "cents.on_grid (lc_line_total l)"
  unfolding l_def calculate_line_total_def Let_def by simp_all

lemma abs_trans:
  fixes a b c :: rat
  shows "\<bar>a - b\<bar> \<le> e \<Longrightarrow> \<bar>b - c\<bar> \<le> f \<Longrightarrow> \<bar>a - c\<bar> \<le> f + e"
  by linarith

lemma abs_add_error:
  fixes a b c d :: rat
  shows "\<bar>a - b\<bar> \<le> e \<Longrightarrow> \<bar>c - d\<bar> \<le> f \<Longrightarrow> \<bar>a + c - (b + d)\<bar> \<le> e + f"
  by linarith

lemma percent_error:
  fixes a b e p :: rat
  assumes "\<bar>a - b\<bar> \<le> e" "0 \<le> p"
  shows "\<bar>round2 (a * p / 100) - b * p / 100\<bar> \<le> e * p / 100 + 1 / 200"
proof -
  have "\<bar>a * p / 100 - b * p / 100\<bar> = \<bar>a - b\<bar> * (p / 100)"
    using assms(2) by (simp add: left_diff_distrib [symmetric] abs_mult flip: diff_divide_distrib)
  also have "\<dots> \<le> e * (p / 100)" using assms by (intro mult_right_mono) auto
  finally have "\<bar>a * p / 100 - b * p / 100\<bar> \<le> e * p / 100" by simp
  from abs_trans [OF cents.error this] show ?thesis by simp
qed

text \<open>
  A sale line's total stays within two and a half cents, plus two cents per 100% of tax, of
  the exact price \<open>(subtotal - max(discount_amount, discount_pct% of subtotal)) * (1 + tax%)\<close>,
  although the line rounds five times on the way.
\<close>

theorem line_total_error:
  assumes "0 \<le> dp" "dp \<le> 100" "0 \<le> t"
  shows "\<bar>lc_line_total (calculate_line_total q p dp da t)
      - (q * p - max da (q * p * dp / 100)) * (1 + t / 100)\<bar> \<le> 25 / 1000 + 2 * t / 10000"
proof -
  let ?l = "calculate_line_total q p dp da t" and ?d = "max da (q * p * dp / 100)"
  have s: "\<bar>lc_line_subtotal ?l - q * p\<bar> \<le> 1 / 200"
    using cents.error [of "q * p"] by (simp add: lc_fields(1))
  have "\<bar>round2 (round2 (q * p) * dp / 100) - q * p * dp / 100\<bar> \<le> 1 / 200 * dp / 100 + 1 / 200"
    using percent_error [OF s [unfolded lc_fields(1)] assms(1)] .
  with assms have "\<bar>round2 (round2 (q * p) * dp / 100) - q * p * dp / 100\<bar> \<le> 1 / 100" by simp
  then have "\<bar>max da (round2 (round2 (q * p) * dp / 100)) - ?d\<bar> \<le> 1 / 100" 
    by (auto simp: max_def abs_le_iff)
  then have "\<bar>lc_effective_discount ?l - ?d\<bar> \<le> 15 / 1000"
    using cents.error [of "max da (round2 (round2 (q * p) * dp / 100))"]
    unfolding lc_fields(2) by linarith
  with s have x: "\<bar>lc_taxable_amount ?l - (q * p - ?d)\<bar> \<le> 2 / 100"
    unfolding lc_fields(3) by linarith
  have "\<bar>lc_tax_amount ?l - (q * p - ?d) * t / 100\<bar> \<le> 2 / 100 * t / 100 + 1 / 200"
    using percent_error [OF x assms(3)] unfolding lc_fields(4) .
  from abs_add_error [OF x this] show ?thesis
    unfolding lc_fields(5) by (simp only: distrib_left) simp
qed

lemma line_total_error_witness:
  "\<bar>lc_line_total (calculate_line_total 3 (1999 / 100) 10 0 8)
      - (3 * (1999 / 100) - max 0 (3 * (1999 / 100) * 10 / 100)) * (1 + 8 / 100)\<bar>
     \<le> 25 / 1000 + 2 * 8 / (10000 :: rat)"
  by (rule line_total_error) simp_all

lemma line_amounts_nonneg:
  assumes "0 \<le> q" "0 \<le> p" "0 \<le> dp" "dp \<le> 100" "da \<le> round2 (q * p)" "0 \<le> t"
  shows "0 \<le> lc_effective_discount (calculate_line_total q p dp da t)"
    and "lc_effective_discount (calculate_line_total q p dp da t)
       \<le> lc_line_subtotal (calculate_line_total q p dp da t)"
    and "0 \<le> lc_tax_amount (calculate_line_total q p dp da t)"
    and "0 \<le> lc_line_total (calculate_line_total q p dp da t)"
proof -
  let ?s = "round2 (q * p)"
  let ?l = "calculate_line_total q p dp da t"
  have s: "0 \<le> ?s" using assms by (intro cents.nonneg) simp
  have "?s * dp / 100 \<le> ?s"
    using mult_left_mono [OF assms(4) s] by simp
  then have pct: "round2 (?s * dp / 100) \<le> ?s" by (rule cents.le_grid) simp
  have pct0: "0 \<le> round2 (?s * dp / 100)" using s assms by (intro cents.nonneg) simp
  then show d0: "0 \<le> lc_effective_discount ?l"
    unfolding lc_fields(2) by (intro cents.nonneg) (simp add: max_def)
  show ds: "lc_effective_discount ?l \<le> lc_line_subtotal ?l"
    unfolding lc_fields(1,2) using pct assms(5) by (intro cents.le_grid) auto
  then have x: "0 \<le> lc_taxable_amount ?l" by (simp add: lc_fields(3))
  then show t: "0 \<le> lc_tax_amount ?l"
    unfolding lc_fields(4) using assms by (intro cents.nonneg) simp
  with x show "0 \<le> lc_line_total ?l" by (simp add: lc_fields(5))
qed

section \<open>The sale\<close>

lemma sale_totals_fold:
  "fold (\<lambda>line (a, b, c).
       (a + lc_line_subtotal line, b + lc_effective_discount line, c + lc_tax_amount line)) ls (a, b, c)
   = (a + sum_list (map lc_line_subtotal ls), b + sum_list (map lc_effective_discount ls),
      c + sum_list (map lc_tax_amount ls))"
  by (induction ls arbitrary: a b c) (simp_all add: add.assoc)

lemma calculate_sale_totals_eq:
  "calculate_sale_totals ls =
     (let s = round2 (sum_list (map lc_line_subtotal ls));
          d = round2 (sum_list (map lc_effective_discount ls));
          x = round2 (sum_list (map lc_tax_amount ls))
      in \<lparr>t_subtotal = s, t_total_discount = d, t_total_tax = x,
          t_total_amount = round2 (s - d + x)\<rparr>)"
  by (simp add: calculate_sale_totals_def sale_totals_fold)

lemma totals_of_lines:
  fixes args :: "(decimal \<times> decimal \<times> decimal \<times> decimal \<times> decimal) list"
  defines "ls \<equiv> map (\<lambda>(q, p, dp, da, t). calculate_line_total q p dp da t) args"
  shows "t_subtotal (calculate_sale_totals ls) = sum_list (map lc_line_subtotal ls)"
    and "t_total_discount (calculate_sale_totals ls) = sum_list (map lc_effective_discount ls)"
    and "t_total_tax (calculate_sale_totals ls) = sum_list (map lc_tax_amount ls)"
    and "t_total_amount (calculate_sale_totals ls) = sum_list (map lc_line_total ls)"
proof -
  have g: "cents.on_grid (sum_list (map f ls))"
    if "f \<in> {lc_line_subtotal, lc_effective_discount, lc_tax_amount}" for f
    by (rule cents.on_grid_sum_list) (use that in \<open>auto simp: ls_def lc_grid\<close>)
  note e = g [THEN cents.fixed_grid]
  show s: "t_subtotal (calculate_sale_totals ls) = sum_list (map lc_line_subtotal ls)"
    and d: "t_total_discount (calculate_sale_totals ls) = sum_list (map lc_effective_discount ls)"
    and x: "t_total_tax (calculate_sale_totals ls) = sum_list (map lc_tax_amount ls)"
    by (simp_all add: calculate_sale_totals_eq Let_def e)
  have "sum_list (map lc_line_total ls) = sum_list (map lc_line_subtotal ls)
      - sum_list (map lc_effective_discount ls) + sum_list (map lc_tax_amount ls)"
    unfolding ls_def by (induction args) (auto simp: lc_fields)
  then show "t_total_amount (calculate_sale_totals ls) = sum_list (map lc_line_total ls)"
    by (simp add: calculate_sale_totals_eq Let_def e cents.fixed_grid cents.on_grid_add
        cents.on_grid_diff g)
qed

lemma sale_status_completed_iff:
  "0 \<le> paid \<Longrightarrow> determine_sale_status tot paid = SaleStatus_completed
     \<longleftrightarrow> tot = 0 \<or> (0 < paid \<and> tot \<le> paid)"
  by (auto simp: determine_sale_status_def)

end
