(* ===== verification/Discounts.thy ===== *)
theory Discounts
  imports Pricing
begin

text \<open>
  \<open>app/services/discount_engine.py\<close>: which lines of a sale a discount scheme covers and how
  much of it each line gets. A request line is \<open>CreateSaleLineRequest\<close> of
  \<open>app/schemas/sales.py\<close>, with the checks its validators make.
\<close>

section \<open>Request lines\<close>

record CreateSaleLineRequest =
  li_product_id :: uuid
  li_variation_id :: "uuid option"
  li_qty :: decimal
  li_unit_price :: decimal
  li_discount_pct :: decimal
  li_discount_amount :: decimal
  li_tax_rate :: "decimal option"
  li_notes :: "string option"
  li_line_order :: int
  li_modifier_ids :: "uuid list"

definition valid_sale_line :: "CreateSaleLineRequest \<Rightarrow> bool" where
  "valid_sale_line l \<longleftrightarrow>
     0 < li_qty l \<and> 0 \<le> li_unit_price l \<and>
     0 \<le> li_discount_pct l \<and> li_discount_pct l \<le> 100 \<and>
     0 \<le> li_discount_amount l \<and>
     (case li_tax_rate l of None \<Rightarrow> True | Some v \<Rightarrow> 0 \<le> v \<and> v \<le> 100)"

definition has_manual_discount :: "CreateSaleLineRequest \<Rightarrow> bool" where
  "has_manual_discount line \<longleftrightarrow> 0 < li_discount_pct line \<or> 0 < li_discount_amount line"

definition line_subtotal :: "decimal \<Rightarrow> decimal \<Rightarrow> decimal" where
  "line_subtotal qty unit_price = invoice_round2 (qty * unit_price)"

section \<open>Scope of a scheme\<close>

fun falsy :: "json \<Rightarrow> bool" where
  \<comment> \<open>Python truth of a JSON value\<close>
  "falsy JNull \<longleftrightarrow> True"
| "falsy (JBool b) \<longleftrightarrow> \<not> b"
| "falsy (JNum n) \<longleftrightarrow> n = 0"
| "falsy (JStr t) \<longleftrightarrow> t = []"
| "falsy (JUuid u) \<longleftrightarrow> False"
| "falsy (JList js) \<longleftrightarrow> js = []"
| "falsy (JObj kvs) \<longleftrightarrow> kvs = []"

fun as_uuid :: "json \<Rightarrow> uuid res" where
  \<comment> \<open>\<open>UUID(str(value))\<close>; \<open>JUuid\<close> is a string that holds a UUID\<close>
  "as_uuid (JUuid u) = Inr u"
| "as_uuid _ = Inl (PyError ''ValueError'')"

fun as_uuids :: "json list \<Rightarrow> uuid set res" where
  "as_uuids [] = Inr {}"
| "as_uuids (v # vs) = bind_res (as_uuid v) (\<lambda>u. bind_res (as_uuids vs) (\<lambda>us. Inr (insert u us)))"

definition as_uuid_set :: "json option \<Rightarrow> uuid set res" where
  "as_uuid_set values =
     (case values of
        None \<Rightarrow> Inr {}
      | Some v \<Rightarrow>
          if falsy v then Inr {}
          else (case v of
                  JList vs \<Rightarrow> as_uuids vs
                | JNum _ \<Rightarrow> Inl (PyError ''TypeError'')
                | JBool _ \<Rightarrow> Inl (PyError ''TypeError'')
                | _ \<Rightarrow> Inl (PyError ''ValueError'')))"

record applies_to =
  ap_scope :: json
  ap_product_ids :: "uuid set"
  ap_category_ids :: "uuid set"

definition parse_applies_to :: "(string \<times> json) list \<Rightarrow> applies_to res" where
  "parse_applies_to applies_to_json =
     (if applies_to_json = [] then
        Inr \<lparr>ap_scope = JStr ''all'', ap_product_ids = {}, ap_category_ids = {}\<rparr>
      else
        let scope = (case map_of applies_to_json ''scope'' of
                       None \<Rightarrow> JStr ''all''
                     | Some v \<Rightarrow> if falsy v then JStr ''all'' else v)
        in bind_res (as_uuid_set (map_of applies_to_json ''product_ids'')) (\<lambda>ps.
           bind_res (as_uuid_set (map_of applies_to_json ''category_ids'')) (\<lambda>cs.
             Inr \<lparr>ap_scope = scope, ap_product_ids = ps, ap_category_ids = cs\<rparr>)))"

definition is_line_scope_eligible :: "uuid \<Rightarrow> uuid option \<Rightarrow> applies_to \<Rightarrow> bool" where
  "is_line_scope_eligible product_id category_id applies =
     (let scope = ap_scope applies in
      if scope = JStr ''all'' then True
      else if scope = JStr ''product'' then product_id \<in> ap_product_ids applies
      else if scope = JStr ''category'' then
        (case category_id of None \<Rightarrow> False | Some c \<Rightarrow> c \<in> ap_category_ids applies)
      else False)"

section \<open>Allocation\<close>

type_synonym line_discount = "decimal \<times> decimal"
  \<comment> \<open>\<open>discount_pct\<close> and \<open>discount_amount\<close>\<close>

definition merge_line_discount_inputs ::
  "CreateSaleLineRequest \<Rightarrow> line_discount option \<Rightarrow> decimal \<times> decimal" where
  "merge_line_discount_inputs line scheme_inputs =
     (if has_manual_discount line then (li_discount_pct line, li_discount_amount line)
      else case scheme_inputs of
             Some (pct, amount) \<Rightarrow> (pct, amount)
           | None \<Rightarrow> (li_discount_pct line, li_discount_amount line))"

definition fixed_share ::
  "decimal \<Rightarrow> decimal \<Rightarrow> nat \<Rightarrow> decimal list \<Rightarrow> nat \<times> nat \<Rightarrow>
     line_discount list \<times> decimal \<Rightarrow> (line_discount list \<times> decimal) res" where
  \<comment> \<open>one iteration of the fixed-amount loop: \<open>(position, index)\<close>, then results and allocated\<close>
  "fixed_share total_discount eligible_subtotal eligible_count subtotals = (\<lambda>(position, index) (results, allocated).
     let line_total = subtotals ! index in
     bind_res
       (if position = eligible_count - 1 then
          Inr (invoice_round2 (total_discount - allocated), allocated)
        else if eligible_subtotal = 0 then
          Inl (PyError (if total_discount * line_total = 0 then ''InvalidOperation'' else ''DivisionByZero''))
        else
          let share = dec_div (total_discount * line_total) eligible_subtotal;
              line_discount = invoice_round2 share
          in Inr (line_discount, allocated + line_discount))
       (\<lambda>(line_discount, allocated).
          Inr (results[index := (0, min line_discount line_total)], allocated)))"

definition eligible_lines ::
  "applies_to \<Rightarrow> (uuid \<rightharpoonup> uuid option) \<Rightarrow> CreateSaleLineRequest list \<Rightarrow> nat list" where
  "eligible_lines applies product_category_by_id lines =
     [index. (index, line) \<leftarrow> enumerate 0 lines,
       \<not> has_manual_discount line,
       is_line_scope_eligible (li_product_id line)
         (or_else (product_category_by_id (li_product_id line)) None) applies]"

text \<open>
  The column holds one of the two labels of \<open>discount_type_enum\<close>, so the final
  \<open>Unsupported discount scheme type\<close> branch of the source has no value to reach it with.
\<close>

definition apply_discount_scheme ::
  "discount_scheme \<Rightarrow> CreateSaleLineRequest list \<Rightarrow> (uuid \<rightharpoonup> uuid option) \<Rightarrow>
     line_discount list res" where
  "apply_discount_scheme scheme lines product_category_by_id =
     bind_res (parse_applies_to (ds_applies_to_json scheme)) (\<lambda>applies.
     let subtotals = map (\<lambda>l. line_subtotal (li_qty l) (li_unit_price l)) lines;
         eligible_indices = eligible_lines applies product_category_by_id lines
     in if eligible_indices = [] then bad_request ''No sale lines eligible for discount scheme''
     else let eligible_subtotal = invoice_round2 (sum_list (map ((!) subtotals) eligible_indices))
     in if (case ds_min_purchase_amount scheme of None \<Rightarrow> False | Some m \<Rightarrow> eligible_subtotal < m)
        then bad_request ''Minimum purchase amount not met for discount scheme''
     else let results = map (\<lambda>_. (0, 0)) lines
     in case ds_discount_type scheme of
          DiscountType_percentage \<Rightarrow>
            Inr (fold (\<lambda>index rs. rs[index := (ds_discount_value scheme, 0)]) eligible_indices results)
        | DiscountType_fixed_amount \<Rightarrow>
            let total_discount = min (ds_discount_value scheme) eligible_subtotal
            in bind_res
                 (fold_res (fixed_share total_discount eligible_subtotal (length eligible_indices) subtotals)
                    (enumerate 0 eligible_indices) (results, 0))
                 (\<lambda>(results, allocated). Inr results))"

section \<open>What the allocation grants\<close>

lemma eligible_filter:
  "[i. (i, x) \<leftarrow> ps, \<not> P x, Q x] = map fst (filter (\<lambda>(i, x). \<not> P x \<and> Q x) ps)"
  by (induction ps) (auto split: if_splits)

lemma eligible_lines_props:
  "distinct (eligible_lines a m ls)"
  "i \<in> set (eligible_lines a m ls) \<longleftrightarrow> i < length ls \<and> \<not> has_manual_discount (ls ! i) \<and>
     is_line_scope_eligible (li_product_id (ls ! i)) (or_else (m (li_product_id (ls ! i))) None) a"
proof -
  have "eligible_lines a m ls = map fst (filter (\<lambda>(i, l). \<not> has_manual_discount l \<and>
      is_line_scope_eligible (li_product_id l) (or_else (m (li_product_id l)) None) a) (enumerate 0 ls))"
    unfolding eligible_lines_def by (rule eligible_filter)
  then show "distinct (eligible_lines a m ls)"
    "i \<in> set (eligible_lines a m ls) \<longleftrightarrow> i < length ls \<and> \<not> has_manual_discount (ls ! i) \<and>
     is_line_scope_eligible (li_product_id (ls ! i)) (or_else (m (li_product_id (ls ! i))) None) a"
    by (auto simp: distinct_map_filter in_set_enumerate_eq image_iff)
qed

lemma fixed_share_Inr:
  "fixed_share td el n subs (k, i) (rs, al) = Inr (rs', al') \<Longrightarrow>
     \<exists>d. rs' = rs[i := (0, min d (subs ! i))] \<and>
         (if k = n - 1 then d = invoice_round2 (td - al) \<and> al' = al
          else d = invoice_round2 (dec_div (td * subs ! i) el) \<and> al' = al + d)"
  by (auto simp: fixed_share_def Let_def handler_simps split: if_splits)

lemma fixed_loop:
  assumes "fold_res (fixed_share td el n subs) (enumerate k idx) (rs, al) = Inr (rs', al')"
    and "k + length idx = n" "distinct idx" "set idx \<subseteq> {..<length rs}"
  shows "length rs' = length rs \<and> (\<forall>j. j \<notin> set idx \<longrightarrow> rs' ! j = rs ! j) \<and>
    (\<forall>j\<in>set idx. fst (rs' ! j) = 0 \<and> snd (rs' ! j) \<le> subs ! j) \<and>
    (idx \<noteq> [] \<longrightarrow> cents.on_grid td \<longrightarrow> cents.on_grid al \<longrightarrow>
       (\<Sum>j\<in>set idx. snd (rs' ! j)) \<le> td - al)"
  using assms
proof (induction idx arbitrary: k rs al)
  case Nil
  then show ?case by simp
next
  case (Cons i idx)
  from Cons.prems(1) obtain rs1 al1 where
    st: "fixed_share td el n subs (k, i) (rs, al) = Inr (rs1, al1)"
    and rest: "fold_res (fixed_share td el n subs) (enumerate (Suc k) idx) (rs1, al1) = Inr (rs', al')"
    by (auto simp: handler_simps)
  from fixed_share_Inr [OF st] obtain d where
    rs1: "rs1 = rs[i := (0, min d (subs ! i))]"
    and d: "if k = n - 1 then d = invoice_round2 (td - al) \<and> al1 = al
            else d = invoice_round2 (dec_div (td * subs ! i) el) \<and> al1 = al + d" by blast
  have ih: "length rs' = length rs1 \<and> (\<forall>j. j \<notin> set idx \<longrightarrow> rs' ! j = rs1 ! j) \<and>
    (\<forall>j\<in>set idx. fst (rs' ! j) = 0 \<and> snd (rs' ! j) \<le> subs ! j) \<and>
    (idx \<noteq> [] \<longrightarrow> cents.on_grid td \<longrightarrow> cents.on_grid al1 \<longrightarrow>
       (\<Sum>j\<in>set idx. snd (rs' ! j)) \<le> td - al1)"
    using Cons.prems by (intro Cons.IH [OF rest]) (auto simp: rs1)
  have i: "i \<notin> set idx" "i < length rs" using Cons.prems by auto
  then have at: "rs' ! i = (0, min d (subs ! i))" using ih by (simp add: rs1)
  have total: "(\<Sum>j\<in>set (i # idx). snd (rs' ! j)) \<le> td - al"
    if g: "cents.on_grid td" "cents.on_grid al"
  proof (cases "idx = []")
    case True
    then have "d = td - al"
      using d Cons.prems(2) g by (simp add: cents.on_grid_diff invoice_cents.fixed_grid)
    then show ?thesis using True by (simp add: at)
  next
    case False
    then have al1: "al1 = al + d" "cents.on_grid al1"
      using False d Cons.prems(2) g by (cases idx; auto simp: cents.on_grid_add split: if_splits)+
    then have "(\<Sum>j\<in>set idx. snd (rs' ! j)) \<le> td - al1" using ih g False by blast
    with al1 i show ?thesis by (simp add: at)
  qed
  then show ?case using ih i at by (auto simp: rs1 nth_list_update)
qed

definition scheme_scope :: "discount_scheme \<Rightarrow> (uuid \<rightharpoonup> uuid option) \<Rightarrow>
    CreateSaleLineRequest list \<Rightarrow> nat set" where
  \<comment> \<open>the lines a scheme covers: in scope, and without a manual discount\<close>
  "scheme_scope scheme m ls =
     (case parse_applies_to (ds_applies_to_json scheme) of Inl _ \<Rightarrow> {}
      | Inr a \<Rightarrow> set (eligible_lines a m ls))"

lemma apply_discount_scheme_Inr:
  assumes "apply_discount_scheme scheme ls m = Inr rs"
  obtains a idx el subs where
    "parse_applies_to (ds_applies_to_json scheme) = Inr a" "idx = eligible_lines a m ls" "idx \<noteq> []"
    "subs = map (\<lambda>l. line_subtotal (li_qty l) (li_unit_price l)) ls"
    "el = invoice_round2 (sum_list (map ((!) subs) idx))"
    "\<And>x. ds_min_purchase_amount scheme = Some x \<Longrightarrow> x \<le> el"
    "ds_discount_type scheme = DiscountType_percentage \<Longrightarrow>
       rs = fold (\<lambda>i rs. rs[i := (ds_discount_value scheme, 0)]) idx (map (\<lambda>_. (0, 0)) ls)"
    "ds_discount_type scheme = DiscountType_fixed_amount \<Longrightarrow>
       \<exists>al. fold_res (fixed_share (min (ds_discount_value scheme) el) el (length idx) subs)
              (enumerate 0 idx) (map (\<lambda>_. (0, 0)) ls, 0) = Inr (rs, al)"
  using assms unfolding apply_discount_scheme_def Let_def
  by (cases "ds_discount_type scheme")
    (auto simp: handler_simps not_less split: option.splits)

lemma fixed_discount_parts:
  assumes "apply_discount_scheme scheme ls m = Inr rs"
    and "ds_discount_type scheme = DiscountType_fixed_amount"
    and "\<exists>n::int. ds_discount_value scheme = of_int n / 100"
  shows "length rs = length ls"
    and "\<forall>i < length ls. if i \<in> scheme_scope scheme m ls
           then fst (rs ! i) = 0 \<and> snd (rs ! i) \<le> line_subtotal (li_qty (ls ! i)) (li_unit_price (ls ! i))
           else rs ! i = (0, 0)"
    and "sum_list (map snd rs) \<le> ds_discount_value scheme"
    and "sum_list (map snd rs) \<le>
           (\<Sum>i\<in>scheme_scope scheme m ls. line_subtotal (li_qty (ls ! i)) (li_unit_price (ls ! i)))"
proof -
  from assms(1) obtain a idx el subs where
    a: "parse_applies_to (ds_applies_to_json scheme) = Inr a" and idx: "idx = eligible_lines a m ls" "idx \<noteq> []"
    and subs: "subs = map (\<lambda>l. line_subtotal (li_qty l) (li_unit_price l)) ls"
    and el: "el = invoice_round2 (sum_list (map ((!) subs) idx))"
    and loop: "ds_discount_type scheme = DiscountType_fixed_amount \<Longrightarrow>
       \<exists>al. fold_res (fixed_share (min (ds_discount_value scheme) el) el (length idx) subs)
              (enumerate 0 idx) (map (\<lambda>_. (0, 0)) ls, 0) = Inr (rs, al)"
    by (rule apply_discount_scheme_Inr) (rule that; assumption)
  let ?td = "min (ds_discount_value scheme) el"
  have scope: "scheme_scope scheme m ls = set idx" by (simp add: scheme_scope_def a idx)
  have lt: "set idx \<subseteq> {..<length ls}" using eligible_lines_props(2) idx by blast
  have dist: "distinct idx" using eligible_lines_props(1) idx by blast
  have sub: "subs ! i = line_subtotal (li_qty (ls ! i)) (li_unit_price (ls ! i))" if "i < length ls" for i
    using that by (simp add: subs)
  have "cents.on_grid (sum_list (map ((!) subs) idx))"
    by (rule cents.on_grid_sum_list) (use lt in \<open>auto simp: sub line_subtotal_def\<close>)
  then have el': "el = sum_list (map ((!) subs) idx)" by (simp add: el invoice_cents.fixed_grid)
  have g: "cents.on_grid ?td"
    using assms(3) unfolding el by (intro cents.on_grid_min invoice_cents.on_gridI)
      (simp add: cents.on_grid_def)
  from loop [OF assms(2)] obtain al where
    run: "fold_res (fixed_share ?td el (length idx) subs) (enumerate 0 idx) (map (\<lambda>_. (0, 0)) ls, 0) = Inr (rs, al)"
    by blast
  note L = fixed_loop [OF run _ dist, simplified, OF lt]
  show len: "length rs = length ls" using L by simp
  show "\<forall>i < length ls. if i \<in> scheme_scope scheme m ls
           then fst (rs ! i) = 0 \<and> snd (rs ! i) \<le> line_subtotal (li_qty (ls ! i)) (li_unit_price (ls ! i))
           else rs ! i = (0, 0)"
    using L by (auto simp: scope sub)
  have "sum_list (map snd rs) = (\<Sum>j<length ls. snd (rs ! j))"
    by (simp add: sum_list_sum_nth len atLeast0LessThan)
  also have "\<dots> = (\<Sum>j\<in>set idx. snd (rs ! j))"
    by (rule sum.mono_neutral_right) (use lt L in auto)
  also have "\<dots> \<le> ?td" using L idx(2) g by simp
  finally have le: "sum_list (map snd rs) \<le> ?td" .
  then show "sum_list (map snd rs) \<le> ds_discount_value scheme" by simp
  have "el = (\<Sum>i\<in>set idx. subs ! i)"
    unfolding el' using dist by (simp add: sum_list_distinct_conv_sum_set)
  also have "\<dots> = (\<Sum>i\<in>set idx. line_subtotal (li_qty (ls ! i)) (li_unit_price (ls ! i)))"
    by (rule sum.cong) (use lt sub in auto)
  finally show "sum_list (map snd rs) \<le>
           (\<Sum>i\<in>scheme_scope scheme m ls. line_subtotal (li_qty (ls ! i)) (li_unit_price (ls ! i)))"
    using le by (simp add: scope)
qed

text \<open>
  A fixed-amount scheme leaves the lines it does not cover alone, gives each covered line at
  most its own subtotal, and hands out in total no more than its value and no more than the
  covered subtotal.
\<close>

theorem fixed_discount_bounded:
  assumes "apply_discount_scheme scheme ls m = Inr rs"
    and "ds_discount_type scheme = DiscountType_fixed_amount"
    and "\<exists>n::int. ds_discount_value scheme = of_int n / 100"
  shows "length rs = length ls \<and>
    (\<forall>i < length ls. if i \<in> scheme_scope scheme m ls
       then fst (rs ! i) = 0 \<and> snd (rs ! i) \<le> line_subtotal (li_qty (ls ! i)) (li_unit_price (ls ! i))
       else rs ! i = (0, 0)) \<and>
    sum_list (map snd rs) \<le> ds_discount_value scheme \<and>
    sum_list (map snd rs) \<le>
      (\<Sum>i\<in>scheme_scope scheme m ls. line_subtotal (li_qty (ls ! i)) (li_unit_price (ls ! i)))"
  using fixed_discount_parts [OF assms] by blast

definition sample_line :: "decimal \<Rightarrow> CreateSaleLineRequest" where
  "sample_line price = \<lparr>li_product_id = 1, li_variation_id = None, li_qty = 1, li_unit_price = price,
     li_discount_pct = 0, li_discount_amount = 0, li_tax_rate = None, li_notes = None,
     li_line_order = 0, li_modifier_ids = []\<rparr>"

definition sample_scheme :: "decimal \<Rightarrow> discount_scheme" where
  "sample_scheme v = new_row 7 1 None 0 \<lparr>ds_name = ''Promo'', ds_discount_type = DiscountType_fixed_amount,
    ds_discount_value = v, ds_min_purchase_amount = None, ds_valid_from = None, ds_valid_to = None,
    ds_is_active = True, ds_applies_to_json = []\<rparr>"

lemmas sample_simps = apply_discount_scheme_def sample_scheme_def sample_line_def
  parse_applies_to_def eligible_lines_def has_manual_discount_def is_line_scope_eligible_def
  line_subtotal_def fixed_share_def Let_def

lemma sample_over:
  "apply_discount_scheme (sample_scheme (5 / 100)) (map sample_line [1, 1, 1, 1 / 100]) Map.empty
     = Inr [(0, 2 / 100), (0, 2 / 100), (0, 2 / 100), (0, - 1 / 100)]"
proof -
  have r: "invoice_round2 (dec_div (1 / 20) (301 / 100)) = 1 / 50" "invoice_round2 (301 / 100) = 301 / 100"
     "invoice_round2 (- (1 / 100)) = - (1 / 100)" "invoice_round2 (1 / 100) = 1 / 100"  "invoice_round2 1 = 1"
    by code_simp+
  show ?thesis by (simp add: sample_simps eval_nat_numeral r)
qed

lemma fixed_discount_bounded_witness:
  "sum_list (map snd [(0, 2 / 100), (0, 2 / 100), (0, 2 / 100), (0, - 1 / 100) :: line_discount])
     \<le> ds_discount_value (sample_scheme (5 / 100))"
proof -
  have "\<exists>n::int. ds_discount_value (sample_scheme (5 / 100)) = of_int n / 100"
    by (rule exI [of _ 5]) (simp add: sample_scheme_def)
  with fixed_discount_bounded [OF sample_over] show ?thesis
    by (simp add: sample_scheme_def)
qed

text \<open>
  The last covered line takes what is left after the earlier shares were rounded, which can be
  negative; \<open>calculate_line_total\<close> replaces a negative amount by zero, so the sale grants the
  earlier shares in full: six cents here, from a scheme worth five.
\<close>

lemma fixed_discount_overgrants:
  "\<exists>rs. apply_discount_scheme (sample_scheme (5 / 100)) (map sample_line [1, 1, 1, 1 / 100]) Map.empty = Inr rs \<and>
     t_total_discount (calculate_sale_totals
       (map2 (\<lambda>l d. calculate_line_total (li_qty l) (li_unit_price l)
                (fst (merge_line_discount_inputs l (Some d))) (snd (merge_line_discount_inputs l (Some d))) 0)
          (map sample_line [1, 1, 1, 1 / 100]) rs)) = 6 / 100"
proof -
  have r: "round2 (1 / 50) = 1 / 50" "round2 0 = 0" "round2 (3 / 50) = 3 / 50" by code_simp+
  show ?thesis unfolding sample_over
    by (simp add: calculate_sale_totals_eq Let_def lc_fields merge_line_discount_inputs_def
        has_manual_discount_def sample_line_def r)
qed

text \<open>
  Two covered lines that cost nothing make the fixed-amount branch divide zero by zero, which
  raises \<open>decimal.InvalidOperation\<close> rather than a client error.
\<close>

lemma fixed_discount_free_lines_crash:
  "apply_discount_scheme (sample_scheme 5) [sample_line 0, sample_line 0] Map.empty
     = Inl (PyError ''InvalidOperation'')"
  by (simp add: sample_simps)

text \<open>The two \<open>_round2\<close> helpers disagree on a line of 0.5 at 0.25: 0.12 against 0.13.\<close>

lemma subtotals_disagree:
  "line_subtotal (1 / 2) (1 / 4) = 12 / 100"
  "lc_line_subtotal (calculate_line_total (1 / 2) (1 / 4) 0 0 0) = 13 / 100"
  unfolding lc_fields(1) by code_simp+

end
