(* ===== verification/Catalog.thy ===== *)
theory Catalog
  imports Customers Discounts
begin

text \<open>
  \<open>app/services/tax_service.py\<close> and \<open>app/services/price_service.py\<close>: tax rates, price lists,
  and the two lookups that price a sale line. A unique constraint of \<open>schema/*.sql\<close> that a
  service does not handle surfaces as \<open>IntegrityError\<close>, a 500 response; it counts deleted rows.
\<close>

section \<open>Requests\<close>

record CreateTaxRateRequest =
  ctr_name :: string
  ctr_rate :: decimal
  ctr_is_compound :: bool

record UpdateTaxRateRequest =
  utr_name :: "string option"
  utr_rate :: "decimal option"
  utr_is_active :: "bool option"

record CreatePriceListRequest =
  cpl_name :: string
  cpl_list_type :: PriceListTypeEnum
  cpl_is_default :: bool
  cpl_valid_from :: "datetime option"
  cpl_valid_to :: "datetime option"

record SetPriceRequest =
  spr_product_id :: uuid
  spr_variation_id :: "uuid option"
  spr_unit_price :: decimal
  spr_min_qty :: decimal

definition commit_unique :: "('r \<Rightarrow> 'k) \<Rightarrow> 'r list \<Rightarrow> 'a \<Rightarrow> 'a res" where
  "commit_unique key rows x =
     (if distinct (map key rows) then Inr x else Inl (PyError ''IntegrityError''))"

section \<open>Tax rates\<close>

definition get_tax_rate_by_id :: "db \<Rightarrow> uuid \<Rightarrow> uuid \<Rightarrow> tax_rate res" where
  "get_tax_rate_by_id s tax_rate_id bid =
     require_one (HTTPException 404 ''Tax rate not found'' [])
       (filter (\<lambda>r. row_id r = tax_rate_id \<and> business_id r = bid \<and> live r) (tax_rates s))"

definition create_tax_rate ::
  "clock \<Rightarrow> uuid \<Rightarrow> CreateTaxRateRequest \<Rightarrow> uuid \<Rightarrow> db \<Rightarrow> (tax_rate \<times> db) res" where
  "create_tax_rate c bid data user s =
     (let (i, s) = fresh_uuid s;
          tax_rate = new_row i bid (Some user) (now c)
            \<lparr>tr_name = ctr_name data, tr_rate = ctr_rate data, tr_is_compound = ctr_is_compound data,
             tr_is_active = True\<rparr>;
          rows = tax_rates s @ [tax_rate]
      in commit_unique (\<lambda>r. (business_id r, tr_name r)) rows (tax_rate, s\<lparr>tax_rates := rows\<rparr>))"

definition edit_tax_rate :: "clock \<Rightarrow> UpdateTaxRateRequest \<Rightarrow> uuid \<Rightarrow> tax_rate \<Rightarrow> tax_rate" where
  "edit_tax_rate c data user r =
     r\<lparr>tr_name := or_else (utr_name data) (tr_name r), tr_rate := or_else (utr_rate data) (tr_rate r),
       tr_is_active := or_else (utr_is_active data) (tr_is_active r),
       updated_by := Some user, updated_at := now c\<rparr>"

definition update_tax_rate ::
  "clock \<Rightarrow> uuid \<Rightarrow> uuid \<Rightarrow> UpdateTaxRateRequest \<Rightarrow> uuid \<Rightarrow> db \<Rightarrow> (tax_rate \<times> db) res" where
  "update_tax_rate c tax_rate_id bid data user s =
     bind_res (get_tax_rate_by_id s tax_rate_id bid) (\<lambda>tax_rate.
       let rows = update_where (\<lambda>r. row_id r = row_id tax_rate) (edit_tax_rate c data user) (tax_rates s)
       in commit_unique (\<lambda>r. (business_id r, tr_name r)) rows
            (edit_tax_rate c data user tax_rate, s\<lparr>tax_rates := rows\<rparr>))"

definition OVERRIDE_TAX_PERMISSION :: string where
  "OVERRIDE_TAX_PERMISSION = ''sales.override_tax''"

definition product_tax_rates :: "db \<Rightarrow> uuid \<Rightarrow> product \<Rightarrow> decimal option list" where
  \<comment> \<open>the rows the outer join gives one product: a missing rate is NULL\<close>
  "product_tax_rates s bid p =
     (case filter (\<lambda>t. Some (row_id t) = p_tax_rate_id p \<and> business_id t = bid \<and>
                       tr_is_active t \<and> live t) (tax_rates s) of
        [] \<Rightarrow> [None]
      | ts \<Rightarrow> map (\<lambda>t. Some (tr_rate t)) ts)"

definition resolve_product_tax_rates :: "db \<Rightarrow> uuid \<Rightarrow> uuid list \<Rightarrow> (uuid \<rightharpoonup> decimal)" where
  \<comment> \<open>a dict comprehension: the last row of a product wins\<close>
  "resolve_product_tax_rates s bid product_ids =
     (if product_ids = [] then Map.empty
      else map_of (rev [(row_id p, or_else rate 0).
        p \<leftarrow> filter (\<lambda>p. row_id p \<in> set product_ids \<and> business_id p = bid) (products s),
        rate \<leftarrow> product_tax_rates s bid p]))"

definition resolve_line_tax_rates ::
  "db \<Rightarrow> uuid \<Rightarrow> CreateSaleLineRequest list \<Rightarrow> string set \<Rightarrow> decimal list" where
  "resolve_line_tax_rates s bid lines permission_keys =
     (let server = resolve_product_tax_rates s bid (map li_product_id lines);
          may_override = OVERRIDE_TAX_PERMISSION \<in> permission_keys
      in map (\<lambda>line. case li_tax_rate line of
                Some requested \<Rightarrow>
                  if may_override then requested else or_else (server (li_product_id line)) 0
              | None \<Rightarrow> or_else (server (li_product_id line)) 0) lines)"

section \<open>Price lists\<close>

definition get_price_list_by_id :: "db \<Rightarrow> uuid \<Rightarrow> uuid \<Rightarrow> price_list res" where
  "get_price_list_by_id s price_list_id bid =
     require_one (HTTPException 404 ''Price list not found'' [])
       (filter (\<lambda>r. row_id r = price_list_id \<and> business_id r = bid \<and> live r) (price_lists s))"

definition default_list :: "uuid \<Rightarrow> price_list \<Rightarrow> bool" where
  "default_list bid r \<longleftrightarrow> business_id r = bid \<and> live r \<and> prl_is_default r"

definition create_price_list ::
  "clock \<Rightarrow> uuid \<Rightarrow> CreatePriceListRequest \<Rightarrow> uuid \<Rightarrow> db \<Rightarrow> (price_list \<times> db) res" where
  "create_price_list c bid data user s =
     (let s = (if cpl_is_default data then
                 s\<lparr>price_lists := update_where (default_list bid)
                    (\<lambda>r. r\<lparr>prl_is_default := False, updated_by := Some user, updated_at := now c\<rparr>)
                    (price_lists s)\<rparr>
               else s);
          (i, s) = fresh_uuid s;
          price_list = new_row i bid (Some user) (now c)
            \<lparr>prl_name = cpl_name data, prl_list_type = cpl_list_type data,
             prl_is_default = cpl_is_default data, prl_is_active = True,
             prl_valid_from = cpl_valid_from data, prl_valid_to = cpl_valid_to data\<rparr>;
          rows = price_lists s @ [price_list]
      in bind_res (commit_unique (\<lambda>r. (business_id r, prl_name r)) rows (s\<lparr>price_lists := rows\<rparr>)) (\<lambda>s.
         bind_res (get_price_list_by_id s i bid) (\<lambda>r. Inr (r, s))))"

definition item_of :: "uuid \<Rightarrow> uuid \<Rightarrow> uuid \<Rightarrow> uuid option \<Rightarrow> price_list_item \<Rightarrow> bool" where
  "item_of bid list_id product_id variation_id r \<longleftrightarrow>
     pli_price_list_id r = list_id \<and> pli_product_id r = product_id \<and> business_id r = bid \<and> live r \<and>
     pli_variation_id r = variation_id"

definition upsert_price ::
  "clock \<Rightarrow> uuid \<Rightarrow> uuid \<Rightarrow> SetPriceRequest \<Rightarrow> uuid \<Rightarrow> price_list_item option \<Rightarrow> db \<Rightarrow>
     price_list_item \<times> db" where
  "upsert_price c price_list_id bid data user found s =
     (case found of
        Some item \<Rightarrow>
          (let edit = (\<lambda>r. r\<lparr>pli_unit_price := spr_unit_price data, pli_min_qty := spr_min_qty data,
                               updated_by := Some user, updated_at := now c\<rparr>)
           in (edit item, s\<lparr>price_list_items :=
                 update_where (\<lambda>r. row_id r = row_id item) edit (price_list_items s)\<rparr>))
      | None \<Rightarrow>
          (let (i, s) = fresh_uuid s;
               item = new_row i bid (Some user) (now c)
                 \<lparr>pli_price_list_id = price_list_id, pli_product_id = spr_product_id data,
                  pli_variation_id = spr_variation_id data,
                  pli_unit_price = spr_unit_price data, pli_min_qty = spr_min_qty data\<rparr>
           in (item, s\<lparr>price_list_items := price_list_items s @ [item]\<rparr>)))"

definition set_price ::
  "clock \<Rightarrow> uuid \<Rightarrow> uuid \<Rightarrow> SetPriceRequest \<Rightarrow> uuid \<Rightarrow> db \<Rightarrow> (price_list_item \<times> db) res" where
  "set_price c price_list_id bid data user s =
     bind_res (get_price_list_by_id s price_list_id bid) (\<lambda>_.
     bind_res (verify_product s (spr_product_id data) bid) (\<lambda>_.
     if spr_unit_price data < 0 then bad_request ''Price cannot be negative''
     else bind_res (scalar_one_or_none
         (filter (item_of bid price_list_id (spr_product_id data) (spr_variation_id data)) (price_list_items s)))
       (\<lambda>found.
        let (item, s) = upsert_price c price_list_id bid data user found s;
            s = log_audit bid (Some user) None
                  (case found of Some _ \<Rightarrow> AuditAction_update | None \<Rightarrow> AuditAction_create)
                  ''price_list_items'' (row_id item)
                  (map_option (\<lambda>old. [(''unit_price'', JNum (pli_unit_price old))]) found)
                  (Some [(''price_list_id'', JUuid price_list_id), (''product_id'', JUuid (spr_product_id data)),
                         (''variation_id'', (case spr_variation_id data of Some v \<Rightarrow> JUuid v | None \<Rightarrow> JNull)),
                         (''unit_price'', JNum (spr_unit_price data)),
                         (''min_qty'', JNum (spr_min_qty data))]) s
        in commit_unique
             (\<lambda>r. (business_id r, pli_price_list_id r, pli_product_id r, the (pli_variation_id r), pli_min_qty r))
             (filter (\<lambda>r. pli_variation_id r \<noteq> None) (price_list_items s)) (item, s))))"

definition get_product_price ::
  "db \<Rightarrow> uuid \<Rightarrow> uuid \<Rightarrow> uuid option \<Rightarrow> uuid option \<Rightarrow> decimal option res" where
  "get_product_price s bid product_id variation_id price_list_id =
     bind_res
       (case price_list_id of
          Some l \<Rightarrow> bind_res (get_price_list_by_id s l bid) (\<lambda>_. Inr (Some l))
        | None \<Rightarrow> scalar_one_or_none (map row_id (filter (default_list bid) (price_lists s))))
       (\<lambda>target. case target of
          None \<Rightarrow> Inr None
        | Some list_id \<Rightarrow> scalar_one_or_none (map pli_unit_price
            (filter (item_of bid list_id product_id variation_id) (price_list_items s))))"

section \<open>Prices are what was set last\<close>

lemma filter_update_where:
  "(\<And>r. P (f r) = P r) \<Longrightarrow> filter P (update_where Q f rs) = update_where Q f (filter P rs)"
  by (induction rs) auto

lemma update_where_none: "(\<And>r. r \<in> set rs \<Longrightarrow> \<not> P r) \<Longrightarrow> update_where P f rs = rs"
  by (induction rs) auto

definition item_key :: "price_list_item \<Rightarrow> uuid \<times> uuid \<times> uuid \<times> uuid option" where
  "item_key r = (business_id r, pli_price_list_id r, pli_product_id r, pli_variation_id r)"

lemma item_of_key: "item_of bid l p v r \<longleftrightarrow> live r \<and> item_key r = (bid, l, p, v)"
  by (auto simp: item_of_def item_key_def)

definition price_at :: "db \<Rightarrow> uuid \<times> uuid \<times> uuid \<times> uuid option \<Rightarrow> decimal option res" where
  "price_at s k = scalar_one_or_none
     (map pli_unit_price (filter (\<lambda>r. live r \<and> item_key r = k) (price_list_items s)))"

lemma get_product_price_listed:
  "get_product_price s bid p v (Some l) =
     bind_res (get_price_list_by_id s l bid) (\<lambda>_. price_at s (bid, l, p, v))"
proof -
  have "item_of bid l p v = (\<lambda>r. live r \<and> item_key r = (bid, l, p, v))"
    by (rule ext) (rule item_of_key)
  then show ?thesis
    by (cases "get_price_list_by_id s l bid") (simp_all add: get_product_price_def price_at_def)
qed

lemma commit_unique_Inr: "commit_unique key rows x = Inr y \<longleftrightarrow> distinct (map key rows) \<and> y = x"
  by (auto simp: commit_unique_def)

lemma set_price_upserts:
  assumes "set_price c l bid data user s = Inr (item, s')"
  obtains found t where
    "scalar_one_or_none (filter (\<lambda>r. live r \<and> item_key r = (bid, l, spr_product_id data, spr_variation_id data))
       (price_list_items s)) = Inr found"
    "upsert_price c l bid data user found s = (item, t)"
    "price_list_items s' = price_list_items t" "price_lists s' = price_lists t"
    "\<exists>r. get_price_list_by_id s l bid = Inr r" "0 \<le> spr_unit_price data"
proof -
  have eq: "item_of bid l p v = (\<lambda>r. live r \<and> item_key r = (bid, l, p, v))" for p v
    by (rule ext) (rule item_of_key)
  obtain found where f: "scalar_one_or_none (filter (\<lambda>r. live r \<and> item_key r =
      (bid, l, spr_product_id data, spr_variation_id data)) (price_list_items s)) = Inr found"
    and pre: "\<exists>r. get_price_list_by_id s l bid = Inr r" "0 \<le> spr_unit_price data"
    using assms unfolding set_price_def bind_res_Inr eq if_Inr by (force simp: not_less)
  obtain it t where u: "upsert_price c l bid data user found s = (it, t)" by fastforce
  show thesis
    by (rule that [OF f _ _ _ pre, of t])
      (use assms pre f u in \<open>auto simp: set_price_def eq bind_res_Inr commit_unique_Inr log_audit_def Let_def\<close>)
qed

lemma set_price_Inr:
  assumes "set_price c l bid data user s = Inr (item, s')" "distinct (map row_id (price_list_items s))"
  defines "k \<equiv> (bid, l, spr_product_id data, spr_variation_id data)"
  shows "price_lists s' = price_lists s" "price_at s' k = Inr (Some (spr_unit_price data))"
    "k' \<noteq> k \<Longrightarrow> price_at s' k' = price_at s k'"
proof -
  let ?P = "\<lambda>k r. live r \<and> item_key r = k"
  obtain found t where f: "scalar_one_or_none (filter (?P k) (price_list_items s)) = Inr found"
    and t: "upsert_price c l bid data user found s = (item, t)"
    and s': "price_list_items s' = price_list_items t" "price_lists s' = price_lists t"
    unfolding k_def by (rule set_price_upserts [OF assms(1)])
  show "price_lists s' = price_lists s"
    using t by (auto simp: s' upsert_price_def fresh_uuid_def Let_def split: option.splits)
  have "price_at s' k = Inr (Some (spr_unit_price data)) \<and> (k' \<noteq> k \<longrightarrow> price_at s' k' = price_at s k')"
  proof (cases found)
    case None
    with f have none: "filter (?P k) (price_list_items s) = []" by (auto simp: scalar_one_or_none_Inr)
    have "price_list_items t = price_list_items s @ [item]" "live item" "item_key item = k"
      "pli_unit_price item = spr_unit_price data"
      using t None by (auto simp: upsert_price_def fresh_uuid_def Let_def live_def item_key_def k_def)
    with none show ?thesis by (auto simp: price_at_def s' scalar_one_or_none_def)
  next
    case (Some old)
    with f have one: "filter (?P k) (price_list_items s) = [old]" by (auto simp: scalar_one_or_none_Inr)
    then have old: "old \<in> set (price_list_items s)" "live old" "item_key old = k"
      by (auto simp: filter_eq_Cons_iff)
    let ?edit = "\<lambda>r. r\<lparr>pli_unit_price := spr_unit_price data, pli_min_qty := spr_min_qty data,
        updated_by := Some user, updated_at := now c\<rparr>"
    have swap: "filter (?P k') (price_list_items s') =
        update_where (\<lambda>r. row_id r = row_id old) ?edit (filter (?P k') (price_list_items s))" for k'
      using t by (auto simp: s' Some upsert_price_def Let_def live_def item_key_def
          intro!: filter_update_where)
    have "row_id r \<noteq> row_id old" if "r \<in> set (filter (?P k') (price_list_items s))" "k' \<noteq> k" for r
      using that old assms(2) by (auto simp: distinct_map dest: inj_onD)
    then have "k' \<noteq> k \<Longrightarrow> filter (?P k') (price_list_items s') = filter (?P k') (price_list_items s)"
      unfolding swap by (intro update_where_none) blast
    with swap [of k] one show ?thesis by (auto simp: price_at_def scalar_one_or_none_def)
  qed
  then show "price_at s' k = Inr (Some (spr_unit_price data))" "k' \<noteq> k \<Longrightarrow> price_at s' k' = price_at s k'"
    by auto
qed


definition sample_branch :: branch where
  "sample_branch = new_row 2 1 None 0
     \<lparr>br_name = ''Main'', br_code = Some ''M'', br_is_head_office = True, br_is_active = True,
      br_address_line1 = None, br_address_line2 = None, br_city = None, br_state = None,
      br_postal_code = None, br_phone = None, br_email = None\<rparr>"

definition sample_product :: product where
  "sample_product = new_row 5 1 None 0
     \<lparr>p_category_id = None, p_brand_id = None, p_base_unit_id = None, p_tax_rate_id = Some 30,
      p_name = ''Tea'', p_sku = None, p_product_type = ProductType_standard,
      p_tracking_type = TrackingType_none, p_is_sellable = True, p_is_purchasable = True,
      p_is_active = True, p_description = None, p_image_url = None, p_shelf_life_days = None,
      p_min_stock_level = None, p_max_stock_level = None\<rparr>"

definition sample_price_list :: price_list where
  "sample_price_list = new_row 20 1 None 0
     \<lparr>prl_name = ''Retail'', prl_list_type = PriceListType_retail, prl_is_default = True,
      prl_is_active = True, prl_valid_from = None, prl_valid_to = None\<rparr>"

definition sample_catalog :: db where
  "sample_catalog = (empty_db id)\<lparr>uuid_next := 100, products := [sample_product],
     price_lists := [sample_price_list]\<rparr>"

definition sample_price :: "decimal \<Rightarrow> SetPriceRequest" where
  "sample_price p = \<lparr>spr_product_id = 5, spr_variation_id = None, spr_unit_price = p, spr_min_qty = 1\<rparr>"

lemma sample_set_price:
  "\<exists>item s'. set_price sample_now 20 1 (sample_price 7) 9 sample_catalog = Inr (item, s')"
  by (simp add: set_price_def get_price_list_by_id_def verify_product_def sample_catalog_def
      sample_price_list_def sample_product_def sample_price_def live_def scalar_one_or_none_def
      upsert_price_def fresh_uuid_def log_audit_def commit_unique_def empty_db_def Let_def)


section \<open>The default price list\<close>

definition one_default :: "db \<Rightarrow> bool" where
  "one_default s \<longleftrightarrow> (\<forall>b. length (filter (default_list b) (price_lists s)) \<le> 1)"

lemma create_price_list_Inr:
  assumes "create_price_list c bid data user s = Inr (r, s')"
  obtains new where "price_lists s' = (if cpl_is_default data then update_where (default_list bid)
      (\<lambda>r. r\<lparr>prl_is_default := False, updated_by := Some user, updated_at := now c\<rparr>) (price_lists s)
      else price_lists s) @ [new]"
    "business_id new = bid" "live new" "prl_is_default new = cpl_is_default data" "r = new"
proof -
  let ?own = "\<lambda>x. row_id x = uuid_gen s (uuid_next s) \<and> business_id x = bid \<and> live x"
  have one: "filter ?own (price_lists s') = [r]"
    using assms by (cases "cpl_is_default data")
      (auto simp: create_price_list_def bind_res_Inr commit_unique_Inr get_price_list_by_id_def
        require_one_Inr fresh_uuid_def Let_def simp del: new_row_def)
  obtain new where new: "price_lists s' = (if cpl_is_default data then update_where (default_list bid)
      (\<lambda>r. r\<lparr>prl_is_default := False, updated_by := Some user, updated_at := now c\<rparr>) (price_lists s)
      else price_lists s) @ [new]"
    "business_id new = bid" "live new" "prl_is_default new = cpl_is_default data"
    "row_id new = uuid_gen s (uuid_next s)"
    using assms by (auto simp: create_price_list_def handler_simps commit_unique_Inr fresh_uuid_def
        live_def Let_def)
  have "r = new" using one new by (auto split: if_splits)
  with new(1-4) show thesis by (rule that)
qed

text \<open>
  A business has at most one default price list: creating a list keeps it that way, a list
  created as the default becomes the one the price lookup uses, and a list created otherwise
  leaves the choice alone.
\<close>

theorem one_default_price_list:
  assumes "one_default s" "create_price_list c bid data user s = Inr (r, s')"
  shows "one_default s' \<and>
    (if cpl_is_default data then filter (default_list bid) (price_lists s') = [r]
     else filter (default_list bid) (price_lists s') = filter (default_list bid) (price_lists s))"
proof -
  obtain new where eq: "price_lists s' = (if cpl_is_default data then update_where (default_list bid)
      (\<lambda>r. r\<lparr>prl_is_default := False, updated_by := Some user, updated_at := now c\<rparr>) (price_lists s)
      else price_lists s) @ [new]"
    and new: "business_id new = bid" "live new" "prl_is_default new = cpl_is_default data" "r = new"
    using assms(2) by (rule create_price_list_Inr)
  let ?f = "\<lambda>r. r\<lparr>prl_is_default := False, updated_by := Some user, updated_at := now c\<rparr>"
  have gone: "filter (default_list bid) (update_where (default_list bid) ?f rs) = []" for rs
    by (induction rs) (auto simp: default_list_def)
  have other: "filter (default_list b) (update_where (default_list bid) ?f rs) = filter (default_list b) rs"
    if "b \<noteq> bid" for b rs
    using that by (induction rs) (auto simp: default_list_def)
  have mine: "default_list b new \<longleftrightarrow> b = bid \<and> cpl_is_default data" for b
    using new by (auto simp: default_list_def)
  have "length (filter (default_list b) (price_lists s')) \<le> 1" for b
    using assms(1) gone other [of b] mine by (cases "b = bid") (auto simp: eq one_default_def)
  then show ?thesis using gone mine new(4) by (simp add: one_default_def eq)
qed

definition sample_new_list :: CreatePriceListRequest where
  "sample_new_list = \<lparr>cpl_name = ''Eid'', cpl_list_type = PriceListType_retail, cpl_is_default = True,
     cpl_valid_from = None, cpl_valid_to = None\<rparr>"

lemma one_default_price_list_witness:
  "\<exists>r s'. create_price_list sample_now 1 sample_new_list 9 sample_catalog = Inr (r, s') \<and>
     filter (default_list 1) (price_lists s') = [r]"
proof -
  obtain r s' where r: "create_price_list sample_now 1 sample_new_list 9 sample_catalog = Inr (r, s')"
    by (simp add: create_price_list_def sample_new_list_def sample_catalog_def sample_price_list_def
        default_list_def live_def fresh_uuid_def commit_unique_def get_price_list_by_id_def
        empty_db_def Let_def)
  have "one_default sample_catalog" by (simp add: one_default_def sample_catalog_def)
  from one_default_price_list [OF this r] r show ?thesis by (simp add: sample_new_list_def)
qed

lemma min_qty_ignored:
  \<comment> \<open>a price that was set for ten or more units is the price of a single unit, and setting another
     tier overwrites it\<close>
  "\<exists>item s item' s'.
     set_price sample_now 20 1 (sample_price 7) 9 sample_catalog = Inr (item, s) \<and>
     set_price sample_now 20 1 ((sample_price 5)\<lparr>spr_min_qty := 10\<rparr>) 9 s = Inr (item', s') \<and>
     price_list_items s' = [item'] \<and> pli_min_qty item' = 10 \<and>
     get_product_price s' 1 5 None None = Inr (Some 5)"
  by (simp add: set_price_def get_price_list_by_id_def verify_product_def sample_catalog_def
      sample_price_list_def sample_product_def sample_price_def live_def scalar_one_or_none_def
      upsert_price_def fresh_uuid_def log_audit_def commit_unique_def empty_db_def item_of_def
      get_product_price_def default_list_def Let_def)

end
