(* ===== verification/Fifo.thy ===== *)
theory Fifo
  imports Pricing Notifications
begin

text \<open>
  \<open>app/services/fifo_service.py\<close>: FIFO cost layers. A layer is a \<open>purchase_lines\<close> row holding
  \<open>qty_remaining\<close> of the \<open>received_qty\<close> it was opened with; sales, waste, adjustments and
  transfers consume the oldest layers first, returns and voids put quantities back.
\<close>

section \<open>Costs\<close>

definition round4 :: "decimal \<Rightarrow> decimal" where
  "round4 value = quantize_up 4 value"

interpretation cost4: quantizer round4 "1 / 10000"
  using quantizer_up [of 4] by (simp add: round4_def [abs_def])

record FifoLayerConsumption =
  fc_purchase_line_id :: "uuid option"
  fc_qty :: decimal
  fc_cost_per_unit :: decimal

definition compute_weighted_cost_per_unit :: "decimal \<Rightarrow> FifoLayerConsumption list \<Rightarrow> decimal" where
  "compute_weighted_cost_per_unit total_qty slices =
     (if total_qty \<le> 0 then 0
      else let total_cost = sum_list (map (\<lambda>s. fc_qty s * fc_cost_per_unit s) slices)
           in round4 (dec_div total_cost total_qty))"

definition layer_age :: "purchase_line \<Rightarrow> datetime \<times> uuid" where
  \<comment> \<open>\<open>ORDER BY created_at ASC, id ASC\<close>\<close>
  "layer_age l = (created_at l, row_id l)"

definition movement_age :: "stock_movement \<Rightarrow> datetime \<times> uuid" where
  "movement_age m = (sm_movement_at m, row_id m)"

definition newest :: "'a list \<Rightarrow> 'a option" where
  \<comment> \<open>\<open>ORDER BY ... DESC LIMIT 1\<close> of rows already sorted ascending\<close>
  "newest rows = first_row (rev rows)"

definition get_fallback_cost_per_unit :: "db \<Rightarrow> uuid \<Rightarrow> uuid \<Rightarrow> uuid option \<Rightarrow> decimal" where
  "get_fallback_cost_per_unit s bid product_id variation_id =
     (let layer = newest (sort_key layer_age
            (filter (\<lambda>l. business_id l = bid \<and> pl_product_id l = product_id \<and> live l \<and>
               0 < pl_cost_per_unit l \<and> 0 < pl_received_qty l \<and> pl_variation_id l = variation_id)
              (purchase_lines s)));
          movement = newest (sort_key movement_age
            (filter (\<lambda>m. business_id m = bid \<and> sm_product_id m = product_id \<and> live m \<and>
               0 < sm_qty m \<and> 0 < sm_cost_per_unit m \<and> sm_variation_id m = variation_id)
              (movements s)))
      in case layer of
           Some l \<Rightarrow> round4 (pl_cost_per_unit l)
         | None \<Rightarrow> (case movement of Some m \<Rightarrow> round4 (sm_cost_per_unit m) | None \<Rightarrow> 0))"

section \<open>Consumption\<close>

definition layer_filter :: "uuid \<Rightarrow> uuid \<Rightarrow> uuid \<Rightarrow> uuid option \<Rightarrow> purchase_line \<Rightarrow> bool" where
  "layer_filter bid branch_id product_id variation_id l \<longleftrightarrow>
     business_id l = bid \<and> pl_branch_id l = Some branch_id \<and> pl_product_id l = product_id \<and>
     live l \<and> 0 < pl_qty_remaining l \<and> pl_variation_id l = variation_id"

definition take_from :: "clock \<Rightarrow> decimal \<Rightarrow> purchase_line \<Rightarrow> purchase_line" where
  "take_from c q l = l\<lparr>pl_qty_remaining := pl_qty_remaining l - q, updated_at := now c\<rparr>"

definition consume_step ::
  "clock \<Rightarrow> purchase_line \<Rightarrow> decimal \<times> FifoLayerConsumption list \<times> purchase_line list \<Rightarrow>
     decimal \<times> FifoLayerConsumption list \<times> purchase_line list" where
  \<comment> \<open>one iteration; after the \<open>break\<close> the remaining iterations change nothing\<close>
  "consume_step c layer = (\<lambda>(remaining, consumptions, lines).
     if remaining \<le> 0 then (remaining, consumptions, lines)
     else let take = min remaining (pl_qty_remaining layer) in
       if take \<le> 0 then (remaining, consumptions, lines)
       else (remaining - take,
             consumptions @ [\<lparr>fc_purchase_line_id = Some (row_id layer), fc_qty = take,
                              fc_cost_per_unit = pl_cost_per_unit layer\<rparr>],
             update_where (\<lambda>l. row_id l = row_id layer) (take_from c take) lines))"

definition consume_fifo_layers ::
  "clock \<Rightarrow> uuid \<Rightarrow> uuid \<Rightarrow> uuid \<Rightarrow> uuid option \<Rightarrow> decimal \<Rightarrow> db \<Rightarrow>
     FifoLayerConsumption list \<times> decimal \<times> db" where
  "consume_fifo_layers c bid branch_id product_id variation_id qty s =
     (if qty \<le> 0 then ([], 0, s)
      else
        let layers = sort_key layer_age
              (filter (layer_filter bid branch_id product_id variation_id) (purchase_lines s));
            (remaining, consumptions, lines) =
              fold (consume_step c) layers (qty, [], purchase_lines s)
        in (consumptions, remaining, s\<lparr>purchase_lines := lines\<rparr>))"

definition allocate_sale_line_fifo ::
  "clock \<Rightarrow> uuid \<Rightarrow> uuid \<Rightarrow> uuid \<Rightarrow> uuid option \<Rightarrow> decimal \<Rightarrow> db \<Rightarrow>
     (decimal \<times> FifoLayerConsumption list \<times> decimal) \<times> db" where
  "allocate_sale_line_fifo c bid branch_id product_id variation_id qty s =
     (let (layer_consumptions, short_qty, s) =
            consume_fifo_layers c bid branch_id product_id variation_id qty s;
          slices =
            (if 0 < short_qty then
               layer_consumptions @
                 [\<lparr>fc_purchase_line_id = None, fc_qty = short_qty,
                   fc_cost_per_unit = get_fallback_cost_per_unit s bid product_id variation_id\<rparr>]
             else layer_consumptions);
          weighted = compute_weighted_cost_per_unit qty slices
      in ((weighted, slices, short_qty), s))"

section \<open>New layers\<close>

definition create_fifo_layer ::
  "clock \<Rightarrow> uuid \<Rightarrow> uuid \<Rightarrow> uuid \<Rightarrow> uuid option \<Rightarrow> decimal \<Rightarrow> decimal \<Rightarrow> uuid \<Rightarrow> string \<Rightarrow>
   datetime option \<Rightarrow> string option \<Rightarrow> date option \<Rightarrow> db \<Rightarrow> purchase_line \<times> db" where
  "create_fifo_layer c bid branch_id product_id variation_id qty cost_per_unit user source
     created batch_number expiry_date s =
     (let t = or_else created (now c);
          (i, s) = fresh_uuid s;
          layer = new_row i bid (Some user) t
            \<lparr>pl_purchase_order_id = None, pl_production_order_id = None,
             pl_product_id = product_id, pl_variation_id = variation_id,
             pl_ordered_qty = qty, pl_received_qty = qty, pl_qty_remaining = qty,
             pl_cost_per_unit = round4 cost_per_unit, pl_tax_rate = 0,
             pl_branch_id = Some branch_id, pl_layer_source = source,
             pl_batch_number = batch_number, pl_expiry_date = expiry_date\<rparr>
      in (layer, s\<lparr>purchase_lines := purchase_lines s @ [layer]\<rparr>))"

section \<open>Movements out\<close>

definition slice_movement ::
  "clock \<Rightarrow> uuid \<Rightarrow> uuid \<Rightarrow> uuid \<Rightarrow> uuid option \<Rightarrow> StockMovementTypeEnum \<Rightarrow> ReferenceTypeEnum \<Rightarrow>
   uuid \<Rightarrow> uuid \<Rightarrow> datetime \<Rightarrow> string option \<Rightarrow> date option \<Rightarrow> string option \<Rightarrow>
   nat \<times> FifoLayerConsumption \<Rightarrow> db \<Rightarrow> db" where
  \<comment> \<open>the outgoing movement of slice \<open>index\<close>\<close>
  "slice_movement c bid branch_id product_id variation_id movement_type reference_type reference_id
     user movement_at batch_number expiry_date notes = (\<lambda>(index, piece) s.
     snd (create_stock_movement c bid branch_id product_id variation_id movement_type
            (- fc_qty piece) (fc_cost_per_unit piece) reference_type reference_id user
            (fc_purchase_line_id piece) batch_number expiry_date notes (Some movement_at)
            (Some index) s))"

definition consume_to_movements ::
  "clock \<Rightarrow> uuid \<Rightarrow> uuid \<Rightarrow> uuid \<Rightarrow> uuid option \<Rightarrow> decimal \<Rightarrow> StockMovementTypeEnum \<Rightarrow>
   ReferenceTypeEnum \<Rightarrow> uuid \<Rightarrow> uuid \<Rightarrow> datetime \<Rightarrow> string option \<Rightarrow> date option \<Rightarrow>
   string option \<Rightarrow> db \<Rightarrow> (decimal \<times> FifoLayerConsumption list \<times> decimal) \<times> db" where
  "consume_to_movements c bid branch_id product_id variation_id qty movement_type reference_type
     reference_id user movement_at batch_number expiry_date notes s =
     (let ((weighted, slices, short_qty), s) =
            allocate_sale_line_fifo c bid branch_id product_id variation_id qty s
      in ((weighted, slices, short_qty),
          fold (slice_movement c bid branch_id product_id variation_id movement_type reference_type
                  reference_id user movement_at batch_number expiry_date notes)
            (enumerate 0 slices) s))"

definition create_sale_line_stock_movements ::
  "clock \<Rightarrow> uuid \<Rightarrow> uuid \<Rightarrow> uuid \<Rightarrow> uuid option \<Rightarrow> uuid \<Rightarrow> FifoLayerConsumption list \<Rightarrow>
   uuid \<Rightarrow> datetime \<Rightarrow> db \<Rightarrow> db" where
  "create_sale_line_stock_movements c bid branch_id product_id variation_id sale_line_id
     consumptions user movement_at s =
     fold (slice_movement c bid branch_id product_id variation_id StockMovementType_sale
             ReferenceType_sale_line sale_line_id user movement_at None None None)
       (enumerate 0 consumptions) s"

section \<open>Putting stock back\<close>

definition restore_layer :: "clock \<Rightarrow> decimal \<Rightarrow> purchase_line \<Rightarrow> purchase_line" where
  "restore_layer c qty layer =
     (let restored = pl_qty_remaining layer + qty;
          restored = (if pl_received_qty layer < restored then pl_received_qty layer else restored)
      in layer\<lparr>pl_qty_remaining := restored, updated_at := now c\<rparr>)"

definition restore_step :: "clock \<Rightarrow> uuid \<Rightarrow> FifoLayerConsumption \<Rightarrow> db \<Rightarrow> db" where
  "restore_step c bid consumption s =
     (case fc_purchase_line_id consumption of
        None \<Rightarrow> s
      | Some i \<Rightarrow>
          s\<lparr>purchase_lines :=
             update_where (\<lambda>l. row_id l = i \<and> business_id l = bid \<and> live l)
               (restore_layer c (fc_qty consumption)) (purchase_lines s)\<rparr>)"

definition restore_fifo_layers :: "clock \<Rightarrow> uuid \<Rightarrow> FifoLayerConsumption list \<Rightarrow> db \<Rightarrow> db" where
  "restore_fifo_layers c bid consumptions s = fold (restore_step c bid) consumptions s"

definition sale_line_movement :: "uuid \<Rightarrow> uuid \<Rightarrow> stock_movement \<Rightarrow> bool" where
  "sale_line_movement bid sale_line_id m \<longleftrightarrow>
     business_id m = bid \<and> sm_movement_type m = StockMovementType_sale \<and>
     sm_reference_type m = ReferenceType_sale_line \<and> sm_reference_id m = sale_line_id \<and> live m"

definition trace_order :: "stock_movement \<Rightarrow> (nat \<times> nat) \<times> datetime \<times> datetime \<times> uuid" where
  \<comment> \<open>\<open>movement_sequence ASC NULLS LAST, movement_at, created_at, id\<close>\<close>
  "trace_order m =
     ((case sm_movement_sequence m of Some k \<Rightarrow> (0, k) | None \<Rightarrow> (1, 0)),
      sm_movement_at m, created_at m, row_id m)"

definition get_traced_sale_line_consumptions :: "db \<Rightarrow> uuid \<Rightarrow> uuid \<Rightarrow> FifoLayerConsumption list" where
  "get_traced_sale_line_consumptions s bid sale_line_id =
     map (\<lambda>m. \<lparr>fc_purchase_line_id = sm_purchase_line_id m, fc_qty = \<bar>sm_qty m\<bar>,
                fc_cost_per_unit = sm_cost_per_unit m\<rparr>)
       (filter (\<lambda>m. 0 < \<bar>sm_qty m\<bar>)
         (sort_key trace_order
           (filter (\<lambda>m. sale_line_movement bid sale_line_id m \<and> sm_purchase_line_id m \<noteq> None)
             (movements s))))"

definition get_untraced_sale_line_qty :: "db \<Rightarrow> uuid \<Rightarrow> uuid \<Rightarrow> decimal" where
  "get_untraced_sale_line_qty s bid sale_line_id =
     sum_where (\<lambda>m. \<bar>sm_qty m\<bar>)
       (\<lambda>m. sale_line_movement bid sale_line_id m \<and> sm_purchase_line_id m = None) (movements s)"

fun plan_lifo :: "decimal \<Rightarrow> FifoLayerConsumption list \<Rightarrow> FifoLayerConsumption list" where
  \<comment> \<open>the loop of \<open>plan_lifo_restoration\<close> over the reversed list\<close>
  "plan_lifo remaining [] = []"
| "plan_lifo remaining (consumption # rest) =
     (if remaining \<le> 0 then []
      else let restore_qty = min remaining (fc_qty consumption) in
        if restore_qty \<le> 0 then plan_lifo remaining rest
        else \<lparr>fc_purchase_line_id = fc_purchase_line_id consumption, fc_qty = restore_qty,
              fc_cost_per_unit = fc_cost_per_unit consumption\<rparr>
             # plan_lifo (remaining - restore_qty) rest)"

definition plan_lifo_restoration ::
  "FifoLayerConsumption list \<Rightarrow> decimal \<Rightarrow> FifoLayerConsumption list" where
  "plan_lifo_restoration traced_consumptions qty_to_restore =
     (if qty_to_restore \<le> 0 \<or> traced_consumptions = [] then []
      else plan_lifo qty_to_restore (rev traced_consumptions))"

definition restore_untraced ::
  "clock \<Rightarrow> uuid \<Rightarrow> uuid \<Rightarrow> uuid \<Rightarrow> uuid option \<Rightarrow> decimal \<Rightarrow> decimal \<Rightarrow> StockMovementTypeEnum \<Rightarrow>
   ReferenceTypeEnum \<Rightarrow> uuid \<Rightarrow> uuid \<Rightarrow> datetime \<Rightarrow> db \<Rightarrow> db" where
  "restore_untraced c bid branch_id product_id variation_id qty cost_per_unit movement_type
     reference_type reference_id user movement_at s =
     (let (layer, s) = create_fifo_layer c bid branch_id product_id variation_id qty cost_per_unit
            user ''return'' (Some movement_at) None None s
      in snd (create_stock_movement c bid branch_id product_id variation_id movement_type qty
           cost_per_unit reference_type reference_id user (Some (row_id layer)) None None None
           (Some movement_at) None s))"

definition restore_movement ::
  "clock \<Rightarrow> uuid \<Rightarrow> uuid \<Rightarrow> uuid \<Rightarrow> uuid option \<Rightarrow> StockMovementTypeEnum \<Rightarrow> ReferenceTypeEnum \<Rightarrow>
   uuid \<Rightarrow> uuid \<Rightarrow> datetime \<Rightarrow> FifoLayerConsumption \<Rightarrow> db \<Rightarrow> db" where
  "restore_movement c bid branch_id product_id variation_id movement_type reference_type
     reference_id user movement_at consumption s =
     snd (create_stock_movement c bid branch_id product_id variation_id movement_type
       (fc_qty consumption) (fc_cost_per_unit consumption) reference_type reference_id user
       (fc_purchase_line_id consumption) None None None (Some movement_at) None s)"

definition restore_sale_line_inventory ::
  "clock \<Rightarrow> uuid \<Rightarrow> uuid \<Rightarrow> uuid \<Rightarrow> uuid option \<Rightarrow> uuid \<Rightarrow> decimal \<Rightarrow> decimal \<Rightarrow> decimal \<Rightarrow>
   StockMovementTypeEnum \<Rightarrow> ReferenceTypeEnum \<Rightarrow> uuid \<Rightarrow> uuid \<Rightarrow> datetime \<Rightarrow> db \<Rightarrow> db" where
  "restore_sale_line_inventory c bid branch_id product_id variation_id sale_line_id sale_line_qty
     sale_line_cost_per_unit qty_to_restore movement_type reference_type reference_id user
     movement_at s =
     (let traced = get_traced_sale_line_consumptions s bid sale_line_id
      in if traced = [] then
           restore_untraced c bid branch_id product_id variation_id qty_to_restore
             sale_line_cost_per_unit movement_type reference_type reference_id user movement_at s
         else
           let traced_total = sum_list (map fc_qty traced);
               untraced_total = get_untraced_sale_line_qty s bid sale_line_id;
               untraced_total =
                 (if traced_total + untraced_total \<noteq> sale_line_qty
                  then max (sale_line_qty - traced_total) 0 else untraced_total);
               restore_plan = plan_lifo_restoration traced (min qty_to_restore traced_total);
               s = restore_fifo_layers c bid restore_plan s;
               s = fold (restore_movement c bid branch_id product_id variation_id movement_type
                           reference_type reference_id user movement_at) restore_plan s;
               remaining = qty_to_restore - sum_list (map fc_qty restore_plan)
           in if 0 < remaining \<and> 0 < untraced_total then
                restore_untraced c bid branch_id product_id variation_id
                  (min remaining untraced_total) sale_line_cost_per_unit movement_type
                  reference_type reference_id user movement_at s
              else s)"

section \<open>Shortfall alerts\<close>

definition recent_fifo_alert_exists ::
  "clock \<Rightarrow> db \<Rightarrow> uuid \<Rightarrow> uuid \<Rightarrow> uuid option \<Rightarrow> uuid \<Rightarrow> bool" where
  "recent_fifo_alert_exists c s bid product_id variation_id branch_id \<longleftrightarrow>
     (\<exists>n\<in>set (notifications s). business_id n = bid \<and> live n \<and>
        nl_notification_type n = NotificationType_system \<and>
        now c - ALERT_LOOKBACK < created_at n \<and>
        map_of (nl_payload_json n) ''alert_kind'' = Some (JStr ''fifo_insufficient_layers'') \<and>
        map_of (nl_payload_json n) ''product_id'' = Some (JUuid product_id) \<and>
        map_of (nl_payload_json n) ''branch_id'' = Some (JUuid branch_id) \<and>
        (case map_of (nl_payload_json n) ''variation_id'' of
           Some (JUuid v) \<Rightarrow> variation_id = Some v
         | Some (JStr t) \<Rightarrow> t = [] \<and> variation_id = None
         | Some JNull \<Rightarrow> variation_id = None
         | None \<Rightarrow> variation_id = None
         | _ \<Rightarrow> False))"

definition maybe_notify_fifo_shortfall ::
  "clock \<Rightarrow> uuid \<Rightarrow> uuid \<Rightarrow> uuid \<Rightarrow> uuid option \<Rightarrow> uuid \<Rightarrow> decimal \<Rightarrow> decimal \<Rightarrow> decimal \<Rightarrow>
   decimal \<Rightarrow> uuid option \<Rightarrow> db \<Rightarrow> db res" where
  "maybe_notify_fifo_shortfall c bid branch_id product_id variation_id sale_line_id requested_qty
     consumed_from_layers_qty short_qty fallback_cost_per_unit user s =
     (if short_qty \<le> 0 then Inr s
      else if recent_fifo_alert_exists c s bid product_id variation_id branch_id then Inr s
      else bind_res (verify_product s product_id bid) (\<lambda>product.
        Inr (create_notification c bid NotificationType_system NotificationChannel_in_app
          (''FIFO cost incomplete: {}'', [AStr (p_name product)])
          (Some (''Sale consumed {} unit(s) from FIFO layers but {} unit(s) used fallback cost Rs. {}.'',
                 [ADec consumed_from_layers_qty, ADec short_qty, ADec fallback_cost_per_unit]))
          [(''alert_kind'', JStr ''fifo_insufficient_layers''),
           (''product_id'', JUuid product_id),
           (''variation_id'', case variation_id of Some v \<Rightarrow> JUuid v | None \<Rightarrow> JNull),
           (''branch_id'', JUuid branch_id),
           (''sale_line_id'', JUuid sale_line_id),
           (''requested_qty'', JNum requested_qty),
           (''consumed_from_layers_qty'', JNum consumed_from_layers_qty),
           (''short_qty'', JNum short_qty),
           (''fallback_cost_per_unit'', JNum fallback_cost_per_unit)]
          None (Some branch_id) user s)))"

section \<open>First in, first out\<close>

fun slices_of :: "decimal \<Rightarrow> purchase_line list \<Rightarrow> FifoLayerConsumption list" where
  \<comment> \<open>what consuming \<open>q\<close> from layers, oldest first, takes\<close>
  "slices_of q [] = []"
| "slices_of q (l # ls) =
     (if q \<le> 0 then []
      else \<lparr>fc_purchase_line_id = Some (row_id l), fc_qty = min q (pl_qty_remaining l),
            fc_cost_per_unit = pl_cost_per_unit l\<rparr>
           # slices_of (q - min q (pl_qty_remaining l)) ls)"

definition taken :: "FifoLayerConsumption list \<Rightarrow> uuid \<Rightarrow> decimal" where
  \<comment> \<open>the quantity slices take from (or put back to) one layer\<close>
  "taken sl i = sum_where fc_qty (\<lambda>x. fc_purchase_line_id x = Some i) sl"

definition shifted :: "(uuid \<Rightarrow> decimal) \<Rightarrow> purchase_line list \<Rightarrow> purchase_line list \<Rightarrow> bool" where
  \<comment> \<open>the layers changed in their remaining quantities only, by the given amounts\<close>
  "shifted d ls ls' \<longleftrightarrow>
     list_all2 (\<lambda>l l'. \<exists>t. l' = l\<lparr>pl_qty_remaining := pl_qty_remaining l + d (row_id l),
                                   updated_at := t\<rparr>) ls ls'"

lemma slices_of_zero [simp]: "q \<le> 0 \<Longrightarrow> slices_of q ls = []"
  by (cases ls) auto

lemma taken_simps [simp]:
  "taken [] i = 0"
  "taken (x # xs) i = (if fc_purchase_line_id x = Some i then fc_qty x else 0) + taken xs i"
  "taken (xs @ ys) i = taken xs i + taken ys i"
  by (simp_all add: taken_def)

lemma shifted_refl [simp]: "shifted (\<lambda>_. 0) ls ls"
proof -
  have "\<exists>t. l = l\<lparr>pl_qty_remaining := pl_qty_remaining l + 0, updated_at := t\<rparr>" for l :: purchase_line
    by (rule exI [of _ "updated_at l"]) simp
  then show ?thesis by (auto simp: shifted_def intro: list_all2_refl)
qed

lemma shifted_trans: "shifted d ls ls' \<Longrightarrow> shifted e ls' ls'' \<Longrightarrow> shifted (\<lambda>i. d i + e i) ls ls''"
  unfolding shifted_def by (rule list_all2_trans) (auto simp: add.assoc)

lemma shifted_update:
  assumes "\<And>l. l \<in> set ls \<Longrightarrow> P l \<Longrightarrow>
      \<exists>t. f l = l\<lparr>pl_qty_remaining := pl_qty_remaining l + d (row_id l), updated_at := t\<rparr>"
    and "\<And>l. l \<in> set ls \<Longrightarrow> \<not> P l \<Longrightarrow> d (row_id l) = 0"
  shows "shifted d ls (update_where P f ls)"
  using assms
proof (induction ls)
  case Nil
  then show ?case by (simp add: shifted_def)
next
  case (Cons l ls)
  have "\<exists>t. l = l\<lparr>pl_qty_remaining := pl_qty_remaining l, updated_at := t\<rparr>"
    by (rule exI [of _ "updated_at l"]) simp
  moreover have "shifted d ls (update_where P f ls)" using Cons by simp
  ultimately show ?case using Cons.prems [of l] by (auto simp: shifted_def)
qed

lemma shifted_take: "shifted (\<lambda>i. if i = j then - q else 0) ls (update_where (\<lambda>l. row_id l = j) (take_from c q) ls)"
  by (rule shifted_update) (auto simp: take_from_def)

lemma consume_loop:
  assumes "\<forall>l\<in>set ls. 0 < pl_qty_remaining l" "0 \<le> q"
    and "fold (consume_step c) ls (q, cs, lines) = (q', cs', lines')"
  shows "cs' = cs @ slices_of q ls \<and> q' = q - sum_list (map fc_qty (slices_of q ls)) \<and> 0 \<le> q' \<and>
    shifted (\<lambda>i. - taken (slices_of q ls) i) lines lines'"
  using assms
proof (induction ls arbitrary: q cs lines)
  case Nil
  then show ?case by simp
next
  case (Cons l ls)
  show ?case
  proof (cases "q \<le> 0")
    case True
    then have "fold (consume_step c) xs (q, cs, lines) = (q, cs, lines)" for xs
      by (induction xs) (auto simp: consume_step_def)
    from this [of "l # ls"] Cons.prems True show ?thesis by auto
  next
    case False
    let ?t = "min q (pl_qty_remaining l)"
    have t: "0 < ?t" using False Cons.prems by simp
    let ?x = "\<lparr>fc_purchase_line_id = Some (row_id l), fc_qty = ?t, fc_cost_per_unit = pl_cost_per_unit l\<rparr>"
    let ?ls = "update_where (\<lambda>x. row_id x = row_id l) (take_from c ?t) lines"
    have "fold (consume_step c) ls (q - ?t, cs @ [?x], ?ls) = (q', cs', lines')"
    proof -
      have "consume_step c l (q, cs, lines) = (q - ?t, cs @ [?x], ?ls)"
        using False t by (simp add: consume_step_def Let_def)
      then show ?thesis using Cons.prems(3) by simp
    qed
    from Cons.IH [OF _ _ this] Cons.prems have
      ih: "cs' = (cs @ [?x]) @ slices_of (q - ?t) ls" "q' = q - ?t - sum_list (map fc_qty (slices_of (q - ?t) ls))"
        "0 \<le> q'" "shifted (\<lambda>i. - taken (slices_of (q - ?t) ls) i) ?ls lines'" by auto
    have "shifted (\<lambda>i. (if i = row_id l then - ?t else 0) + - taken (slices_of (q - ?t) ls) i) lines lines'"
      using shifted_trans [OF shifted_take ih(4)] .
    also have "(\<lambda>i. (if i = row_id l then - ?t else 0) + - taken (slices_of (q - ?t) ls) i)
        = (\<lambda>i. - taken (slices_of q (l # ls)) i)"
      using False by (auto simp: fun_eq_iff)
    finally show ?thesis using ih False by simp
  qed
qed

lemma slices_of_shape:
  assumes "\<forall>l\<in>set ls. 0 < pl_qty_remaining l" "0 \<le> q"
  defines "sl \<equiv> slices_of q ls"
  shows "length sl \<le> length ls \<and>
    (\<forall>k < length sl. fc_purchase_line_id (sl ! k) = Some (row_id (ls ! k)) \<and>
       fc_cost_per_unit (sl ! k) = pl_cost_per_unit (ls ! k) \<and>
       0 < fc_qty (sl ! k) \<and> fc_qty (sl ! k) \<le> pl_qty_remaining (ls ! k) \<and>
       (Suc k < length sl \<or> sum_list (map fc_qty sl) < q \<longrightarrow> fc_qty (sl ! k) = pl_qty_remaining (ls ! k))) \<and>
    (sum_list (map fc_qty sl) < q \<longrightarrow> length sl = length ls)"
  unfolding sl_def using assms(1,2)
proof (induction ls arbitrary: q)
  case Nil
  then show ?case by simp
next
  case (Cons l ls)
  show ?case
  proof (cases "q \<le> 0")
    case True
    with Cons.prems show ?thesis by simp
  next
    case False
    let ?t = "min q (pl_qty_remaining l)" and ?sl = "slices_of (q - min q (pl_qty_remaining l)) ls"
    have sum: "0 < sum_list (map fc_qty ?sl) \<longrightarrow> ?sl \<noteq> []" by auto
    have full: "?sl \<noteq> [] \<Longrightarrow> ?t = pl_qty_remaining l" by (auto simp: min_def split: if_splits)
    have ih: "length ?sl \<le> length ls \<and>
      (\<forall>k < length ?sl. fc_purchase_line_id (?sl ! k) = Some (row_id (ls ! k)) \<and>
         fc_cost_per_unit (?sl ! k) = pl_cost_per_unit (ls ! k) \<and>
         0 < fc_qty (?sl ! k) \<and> fc_qty (?sl ! k) \<le> pl_qty_remaining (ls ! k) \<and>
         (Suc k < length ?sl \<or> sum_list (map fc_qty ?sl) < q - ?t \<longrightarrow> fc_qty (?sl ! k) = pl_qty_remaining (ls ! k))) \<and>
      (sum_list (map fc_qty ?sl) < q - ?t \<longrightarrow> length ?sl = length ls)"
      using Cons.prems by (intro Cons.IH) auto
    have short: "?t = pl_qty_remaining l" if "sum_list (map fc_qty ?sl) < q - ?t"
    proof (rule ccontr)
      assume "?t \<noteq> pl_qty_remaining l"
      then have "?t = q" by (auto simp: min_def split: if_splits)
      with that show False by simp
    qed
    have "(Suc k < length (slices_of q (l # ls)) \<or> sum_list (map fc_qty (slices_of q (l # ls))) < q \<longrightarrow>
        fc_qty (slices_of q (l # ls) ! k) = pl_qty_remaining ((l # ls) ! k))"
      if "k < length (slices_of q (l # ls))" for k
    proof (cases k)
      case 0
      then show ?thesis using False full short by auto
    next
      case (Suc j)
      then show ?thesis using False ih that by auto
    qed
    moreover have "fc_purchase_line_id (slices_of q (l # ls) ! k) = Some (row_id ((l # ls) ! k)) \<and>
         fc_cost_per_unit (slices_of q (l # ls) ! k) = pl_cost_per_unit ((l # ls) ! k) \<and>
         0 < fc_qty (slices_of q (l # ls) ! k) \<and> fc_qty (slices_of q (l # ls) ! k) \<le> pl_qty_remaining ((l # ls) ! k)"
      if "k < length (slices_of q (l # ls))" for k
      using that False ih Cons.prems by (cases k) auto
    moreover have "length (slices_of q (l # ls)) \<le> length (l # ls)" using ih False by simp
    moreover have "sum_list (map fc_qty (slices_of q (l # ls))) < q \<longrightarrow> length (slices_of q (l # ls)) = length (l # ls)"
      using ih False by auto
    ultimately show ?thesis by blast
  qed
qed

abbreviation layers_at :: "db \<Rightarrow> uuid \<Rightarrow> uuid \<Rightarrow> uuid \<Rightarrow> uuid option \<Rightarrow> purchase_line list" where
  "layers_at s bid br p v \<equiv> sort_key layer_age (filter (layer_filter bid br p v) (purchase_lines s))"

lemma layers_at_pos: "\<forall>l\<in>set (layers_at s bid br p v). 0 < pl_qty_remaining l"
  by (simp add: layer_filter_def)

lemma consume_fifo_layers_eq:
  assumes "consume_fifo_layers c bid br p v q s = (sl, short, s')" "0 \<le> q"
  shows "sl = slices_of q (layers_at s bid br p v) \<and> short = q - sum_list (map fc_qty sl) \<and> 0 \<le> short \<and>
    shifted (\<lambda>i. - taken sl i) (purchase_lines s) (purchase_lines s') \<and>
    s' = s\<lparr>purchase_lines := purchase_lines s'\<rparr>"
proof (cases "q \<le> 0")
  case True
  then show ?thesis using assms by (auto simp: consume_fifo_layers_def)
next
  case False
  obtain r cs ls where f: "fold (consume_step c) (layers_at s bid br p v) (q, [], purchase_lines s) = (r, cs, ls)"
    by (metis prod_cases3)
  with assms False have "sl = cs" "short = r" "s' = s\<lparr>purchase_lines := ls\<rparr>"
    by (auto simp: consume_fifo_layers_def Let_def)
  with consume_loop [OF layers_at_pos assms(2) f] show ?thesis by simp
qed

text \<open>
  C14. Consuming a quantity takes it from the branch's layers in order of age: the slices belong to
  the oldest layers, each is positive and within its layer and carries the layer's cost, every
  layer before the last one taken from is emptied, and what is left uncovered is exactly the
  requested quantity less the slices, which can only be positive once all layers are empty. No
  other layer changes.
\<close>

theorem consume_fifo_layers_correct:
  assumes "0 \<le> q"
  shows "case consume_fifo_layers c bid br p v q s of (sl, short, s') \<Rightarrow>
    short = q - sum_list (map fc_qty sl) \<and> 0 \<le> short \<and>
    length sl \<le> length (layers_at s bid br p v) \<and>
    (0 < short \<longrightarrow> length sl = length (layers_at s bid br p v)) \<and>
    (\<forall>k < length sl. let l = layers_at s bid br p v ! k in
       fc_purchase_line_id (sl ! k) = Some (row_id l) \<and> fc_cost_per_unit (sl ! k) = pl_cost_per_unit l \<and>
       0 < fc_qty (sl ! k) \<and> fc_qty (sl ! k) \<le> pl_qty_remaining l \<and>
       (Suc k < length sl \<or> 0 < short \<longrightarrow> fc_qty (sl ! k) = pl_qty_remaining l)) \<and>
    shifted (\<lambda>i. - taken sl i) (purchase_lines s) (purchase_lines s') \<and>
    s' = s\<lparr>purchase_lines := purchase_lines s'\<rparr>"
proof -
  obtain sl short s' where r: "consume_fifo_layers c bid br p v q s = (sl, short, s')"
    by (metis prod_cases3)
  note E = consume_fifo_layers_eq [OF r assms]
  from slices_of_shape [OF layers_at_pos [where s = s and bid = bid and br = br and p = p and v = v] assms] E show ?thesis
    by (auto simp: r Let_def)
qed

definition sample_layer :: "uuid \<Rightarrow> datetime \<Rightarrow> decimal \<Rightarrow> decimal \<Rightarrow> purchase_line" where
  "sample_layer i t q cost = new_row i 1 None t
     \<lparr>pl_purchase_order_id = None, pl_production_order_id = None, pl_product_id = 5,
      pl_variation_id = None, pl_ordered_qty = q, pl_received_qty = q, pl_qty_remaining = q,
      pl_cost_per_unit = cost, pl_tax_rate = 0, pl_branch_id = Some 2, pl_layer_source = ''purchase'',
      pl_batch_number = None, pl_expiry_date = None\<rparr>"

definition sample_stock :: db where
  "sample_stock = (empty_db id)\<lparr>purchase_lines := [sample_layer 11 20 4 3, sample_layer 10 10 2 5]\<rparr>"

definition sample_clock :: clock where
  "sample_clock = \<lparr>now = 30, date_key = ''20250101''\<rparr>"

lemma consume_fifo_layers_correct_witness:
  "\<exists>s'. consume_fifo_layers sample_clock 1 2 5 None 3 sample_stock =
     ([\<lparr>fc_purchase_line_id = Some 10, fc_qty = 2, fc_cost_per_unit = 5\<rparr>,
       \<lparr>fc_purchase_line_id = Some 11, fc_qty = 1, fc_cost_per_unit = 3\<rparr>], 0, s') \<and>
     s' = sample_stock\<lparr>purchase_lines := purchase_lines s'\<rparr>"
proof -
  have l: "layers_at sample_stock 1 2 5 None = [sample_layer 10 10 2 5, sample_layer 11 20 4 3]"
    by (simp add: sample_stock_def empty_db_def sample_layer_def layer_filter_def layer_age_def live_def
        less_eq_prod_def)
  obtain sl short s' where r: "consume_fifo_layers sample_clock 1 2 5 None 3 sample_stock = (sl, short, s')"
    by (metis prod_cases3)
  have sl: "sl = slices_of 3 (layers_at sample_stock 1 2 5 None)"
    using consume_fifo_layers_eq [OF r] by simp
  have "(0::rat) \<le> 3" by simp
  from consume_fifo_layers_correct [OF this, where c = sample_clock and bid = 1 and br = 2 and p = 5 and v = None and s = sample_stock]
  show ?thesis unfolding r sl l by (simp add: sample_layer_def)
qed

section \<open>The unit cost of a consumption\<close>

lemma total_cost_bounds:
  assumes "\<forall>x\<in>set sl. 0 \<le> fc_qty x \<and> lo \<le> fc_cost_per_unit x \<and> fc_cost_per_unit x \<le> hi"
  shows "lo * sum_list (map fc_qty sl) \<le> sum_list (map (\<lambda>x. fc_qty x * fc_cost_per_unit x) sl) \<and>
    sum_list (map (\<lambda>x. fc_qty x * fc_cost_per_unit x) sl) \<le> hi * sum_list (map fc_qty sl)"
  using assms
proof (induction sl)
  case (Cons x sl)
  then show ?case
    using mult_left_mono [of lo "fc_cost_per_unit x" "fc_qty x"]
      mult_left_mono [of "fc_cost_per_unit x" hi "fc_qty x"] by (simp add: algebra_simps)
qed simp

lemma cost4_fixed:
  assumes "\<exists>n::int. x = of_int n / 10 ^ 4 \<and> \<bar>n\<bar> < 10 ^ 28"
  shows "dec_ctx x = x" "round4 x = x"
proof -
  from assms obtain n :: int where n: "x = of_int n / 10 ^ 4" "\<bar>n\<bar> < 10 ^ 28" by blast
  have "(10::rat) powi (- 4) = 1 / 10 ^ 4" by (simp add: power_int_minus)
  then have "x = of_int n * 10 powi (- 4)" by (simp add: n(1))
  then show "dec_ctx x = x" using dec_ctx_fixed [OF n(2), of "- 4"] by (simp only:)
  show "round4 x = x" using cost4.fixed [of n] by (simp add: n)
qed

lemma weighted_cost_bounds:
  assumes "0 < q" "sum_list (map fc_qty sl) = q"
    and "\<forall>x\<in>set sl. 0 \<le> fc_qty x \<and> lo \<le> fc_cost_per_unit x \<and> fc_cost_per_unit x \<le> hi"
    and "\<exists>n::int. lo = of_int n / 10 ^ 4 \<and> \<bar>n\<bar> < 10 ^ 28" "\<exists>n::int. hi = of_int n / 10 ^ 4 \<and> \<bar>n\<bar> < 10 ^ 28"
  shows "lo \<le> compute_weighted_cost_per_unit q sl \<and> compute_weighted_cost_per_unit q sl \<le> hi"
proof -
  let ?t = "sum_list (map (\<lambda>x. fc_qty x * fc_cost_per_unit x) sl)"
  have "lo \<le> ?t / q" "?t / q \<le> hi"
    using total_cost_bounds [OF assms(3)] assms(1,2) by (simp_all add: pos_le_divide_eq pos_divide_le_eq)
  then have "dec_ctx lo \<le> dec_div ?t q" "dec_div ?t q \<le> dec_ctx hi"
    by (simp_all add: dec_div_def dec_ctx_mono)
  then have "lo \<le> dec_div ?t q" "dec_div ?t q \<le> hi" using cost4_fixed assms(4,5) by simp_all
  then have "round4 lo \<le> round4 (dec_div ?t q)" "round4 (dec_div ?t q) \<le> round4 hi"
    by (simp_all add: cost4.mono)
  then show ?thesis using assms(1) cost4_fixed(2) [OF assms(4)] cost4_fixed(2) [OF assms(5)]
    by (simp add: compute_weighted_cost_per_unit_def Let_def)
qed

section \<open>Last in, first out\<close>

lemma plan_lifo_props:
  assumes "\<forall>x\<in>set cs. 0 < fc_qty x"
  shows "sum_list (map fc_qty (plan_lifo q cs)) = min (max q 0) (sum_list (map fc_qty cs)) \<and>
    length (plan_lifo q cs) \<le> length cs \<and>
    (\<forall>k < length (plan_lifo q cs).
       fc_purchase_line_id (plan_lifo q cs ! k) = fc_purchase_line_id (cs ! k) \<and>
       fc_cost_per_unit (plan_lifo q cs ! k) = fc_cost_per_unit (cs ! k) \<and>
       0 < fc_qty (plan_lifo q cs ! k) \<and> fc_qty (plan_lifo q cs ! k) \<le> fc_qty (cs ! k) \<and>
       (Suc k < length (plan_lifo q cs) \<longrightarrow> fc_qty (plan_lifo q cs ! k) = fc_qty (cs ! k)))"
  using assms
proof (induction cs arbitrary: q)
  case Nil
  then show ?case by simp
next
  case (Cons x cs)
  have nn: "0 \<le> sum_list (map fc_qty cs)"
    by (rule sum_list_nonneg) (use Cons.prems in \<open>auto simp: less_imp_le\<close>)
  have x: "0 < fc_qty x" using Cons.prems by simp
  show ?case
  proof (cases "q \<le> 0")
    case True
    then show ?thesis using nn x by (simp add: min_def max_def)
  next
    case False
    let ?t = "min q (fc_qty x)"
    have t: "\<not> ?t \<le> 0" using False x by simp
    have full: "?t = fc_qty x" if "plan_lifo (q - ?t) cs \<noteq> []"
    proof (rule ccontr)
      assume "?t \<noteq> fc_qty x"
      then have "q - ?t = 0" by (auto simp: min_def split: if_splits)
      with that show False by (cases cs) simp_all
    qed
    note ih = Cons.IH [of "q - ?t"]
    have p: "plan_lifo q (x # cs) = \<lparr>fc_purchase_line_id = fc_purchase_line_id x, fc_qty = ?t,
        fc_cost_per_unit = fc_cost_per_unit x\<rparr> # plan_lifo (q - ?t) cs"
      using False t by (simp add: Let_def)
    have "sum_list (map fc_qty (plan_lifo q (x # cs))) = min (max q 0) (sum_list (map fc_qty (x # cs)))"
      using ih Cons.prems False x nn unfolding p by (auto simp: min_def max_def)
    moreover have "length (plan_lifo q (x # cs)) \<le> length (x # cs)" using ih Cons.prems unfolding p by simp
    moreover have "fc_purchase_line_id (plan_lifo q (x # cs) ! k) = fc_purchase_line_id ((x # cs) ! k) \<and>
       fc_cost_per_unit (plan_lifo q (x # cs) ! k) = fc_cost_per_unit ((x # cs) ! k) \<and>
       0 < fc_qty (plan_lifo q (x # cs) ! k) \<and> fc_qty (plan_lifo q (x # cs) ! k) \<le> fc_qty ((x # cs) ! k) \<and>
       (Suc k < length (plan_lifo q (x # cs)) \<longrightarrow> fc_qty (plan_lifo q (x # cs) ! k) = fc_qty ((x # cs) ! k))"
      if "k < length (plan_lifo q (x # cs))" for k
    proof (cases k)
      case 0
      then show ?thesis using t full unfolding p by fastforce
    next
      case (Suc j)
      then show ?thesis using that ih Cons.prems unfolding p by simp
    qed
    ultimately show ?thesis by blast
  qed
qed

lemma plan_lifo_all:
  assumes "\<forall>x\<in>set cs. 0 < fc_qty x"
  shows "plan_lifo (sum_list (map fc_qty cs)) cs = cs"
  using assms
proof (induction cs)
  case (Cons x cs)
  have "0 \<le> sum_list (map fc_qty cs)"
    by (rule sum_list_nonneg) (use Cons.prems in \<open>auto simp: less_imp_le\<close>)
  with Cons show ?case by (auto simp: Let_def min_def)
qed simp

end
