(* ===== verification/Reconcile.thy ===== *)
theory Reconcile
  imports Fifo
begin

text \<open>
  The two records of stock agree: the remaining quantity of every cost layer is the sum of the
  movements traced to it, so a position's balance is its layers plus the movements no layer
  backs (units sold short). The invariant \<open>stock_ok d\<close> carries a pending outflow \<open>d\<close> per layer,
  the quantity that has left the layers while its movements are still to be written, because the
  code consumes layers first and writes movements afterwards.
\<close>

section \<open>The invariant\<close>

definition layer_position :: "purchase_line \<Rightarrow> uuid \<times> uuid option \<times> uuid \<times> uuid option" where
  "layer_position l = (business_id l, pl_branch_id l, pl_product_id l, pl_variation_id l)"

definition layer_at :: "position \<Rightarrow> purchase_line \<Rightarrow> bool" where
  "layer_at = (\<lambda>(b, br, p, v) l. live l \<and> layer_position l = (b, Some br, p, v))"

definition traced :: "db \<Rightarrow> uuid \<Rightarrow> decimal" where
  "traced s i = sum_where sm_qty (\<lambda>m. live m \<and> sm_purchase_line_id m = Some i) (movements s)"

definition untraced :: "db \<Rightarrow> position \<Rightarrow> decimal" where
  "untraced s k =
     sum_where sm_qty (\<lambda>m. live m \<and> position_of m = k \<and> sm_purchase_line_id m = None) (movements s)"

definition layered :: "purchase_line list \<Rightarrow> position \<Rightarrow> uuid option \<Rightarrow> bool" where
  \<comment> \<open>a reference to a layer, if there is one, is to a live layer of the position\<close>
  "layered ls k r \<longleftrightarrow> (case r of None \<Rightarrow> True | Some i \<Rightarrow> \<exists>l\<in>set ls. row_id l = i \<and> layer_at k l)"

definition stock_ok :: "(uuid \<Rightarrow> decimal) \<Rightarrow> db \<Rightarrow> bool" where
  "stock_ok d s \<longleftrightarrow>
     inj (uuid_gen s) \<and> keyed (purchase_lines s) s \<and>
     (\<forall>l\<in>set (purchase_lines s). 0 \<le> pl_qty_remaining l \<and> pl_qty_remaining l \<le> pl_received_qty l) \<and>
     (\<forall>l\<in>set (purchase_lines s). live l \<longrightarrow> pl_qty_remaining l = traced s (row_id l) - d (row_id l)) \<and>
     (\<forall>m\<in>set (movements s). live m \<longrightarrow> layered (purchase_lines s) (position_of m) (sm_purchase_line_id m))"

abbreviation reconciled :: "db \<Rightarrow> bool" where
  "reconciled s \<equiv> stock_ok (\<lambda>_. 0) s"

lemma stock_okD:
  assumes "stock_ok d s"
  shows "inj (uuid_gen s)" "keyed (purchase_lines s) s"
    and "l \<in> set (purchase_lines s) \<Longrightarrow> 0 \<le> pl_qty_remaining l \<and> pl_qty_remaining l \<le> pl_received_qty l"
    and "l \<in> set (purchase_lines s) \<Longrightarrow> live l \<Longrightarrow> pl_qty_remaining l = traced s (row_id l) - d (row_id l)"
    and "m \<in> set (movements s) \<Longrightarrow> live m \<Longrightarrow> layered (purchase_lines s) (position_of m) (sm_purchase_line_id m)"
  using assms by (auto simp: stock_ok_def)

lemma reconciled_empty: "inj g \<Longrightarrow> reconciled (empty_db g)"
  by (simp add: stock_ok_def empty_db_def)

lemma stock_ok_frame:
  assumes "stock_ok d s" "purchase_lines s' = purchase_lines s" "movements s' = movements s"
    and "uuid_gen s' = uuid_gen s" "drawn s \<subseteq> drawn s'"
  shows "stock_ok d s'"
  using assms keyed_mono [of "purchase_lines s" s s'] by (auto simp: stock_ok_def traced_def)

section \<open>Balance and layers\<close>

lemma sum_where_keys:
  assumes "distinct (map row_id ls)"
  shows "sum_list (map (\<lambda>l. sum_where g (\<lambda>m. P m \<and> f m = Some (row_id l)) ms) ls) =
    sum_where g (\<lambda>m. P m \<and> (\<exists>l\<in>set ls. f m = Some (row_id l))) ms"
proof (induction ms)
  case Nil
  then show ?case by (simp add: sum_list_0)
next
  case (Cons m ms)
  have "sum_list (map (\<lambda>l. if f m = Some (row_id l) then g m else 0) ls)
      = (if \<exists>l\<in>set ls. f m = Some (row_id l) then g m else 0)"
    using assms by (induction ls) (auto simp: image_iff)
  moreover have "sum_list (map (\<lambda>l. if P m \<and> f m = Some (row_id l) then g m else 0) ls)
      = (if P m then sum_list (map (\<lambda>l. if f m = Some (row_id l) then g m else 0) ls) else 0)"
    by (simp add: sum_list_0)
  ultimately show ?case using Cons by (auto simp: sum_list_addf)
qed

lemma sum_where_split:
  "sum_where f P rs = sum_where f (\<lambda>r. P r \<and> Q r) rs + sum_where f (\<lambda>r. P r \<and> \<not> Q r) rs"
  by (induction rs) auto

lemma keyed_unique:
  "distinct (map row_id ls) \<Longrightarrow> l \<in> set ls \<Longrightarrow> l' \<in> set ls \<Longrightarrow> row_id l = row_id l' \<Longrightarrow> l = l'"
  by (metis distinct_map inj_onD)

lemma layer_at_unique: "layer_at k l \<Longrightarrow> layer_at k' l \<Longrightarrow> k = k'"
  by (auto simp: layer_at_def split: prod.splits)


section \<open>What the operations keep\<close>

lemma shifted_set:
  assumes "shifted e ls ls'"
  shows "l' \<in> set ls' \<Longrightarrow> \<exists>l\<in>set ls. \<exists>t. l' = l\<lparr>pl_qty_remaining := pl_qty_remaining l + e (row_id l), updated_at := t\<rparr>"
    and "l \<in> set ls \<Longrightarrow> \<exists>l'\<in>set ls'. \<exists>t. l' = l\<lparr>pl_qty_remaining := pl_qty_remaining l + e (row_id l), updated_at := t\<rparr>"
proof -
  show "\<exists>l\<in>set ls. \<exists>t. l' = l\<lparr>pl_qty_remaining := pl_qty_remaining l + e (row_id l), updated_at := t\<rparr>"
    if "l' \<in> set ls'"
  proof -
    obtain k where "k < length ls'" "ls' ! k = l'" using \<open>l' \<in> set ls'\<close> by (auto simp: in_set_conv_nth)
    then show ?thesis using list_all2_nthD2 [OF assms [unfolded shifted_def]] list_all2_lengthD [OF assms [unfolded shifted_def]]
      by (metis nth_mem)
  qed
  show "\<exists>l'\<in>set ls'. \<exists>t. l' = l\<lparr>pl_qty_remaining := pl_qty_remaining l + e (row_id l), updated_at := t\<rparr>"
    if "l \<in> set ls"
  proof -
    obtain k where "k < length ls" "ls ! k = l" using \<open>l \<in> set ls\<close> by (auto simp: in_set_conv_nth)
    then show ?thesis using list_all2_nthD [OF assms [unfolded shifted_def]] list_all2_lengthD [OF assms [unfolded shifted_def]]
      by (metis nth_mem)
  qed
qed

lemma shifted_ids: "shifted e ls ls' \<Longrightarrow> map row_id ls' = map row_id ls"
  unfolding shifted_def by (induction rule: list_all2_induct) auto

lemma shifted_layered:
  assumes "shifted e ls ls'"
  shows "layered ls' k r \<longleftrightarrow> layered ls k r"
proof (cases r)
  case (Some i)
  have "\<exists>l\<in>set ls. row_id l = i \<and> layer_at k l" if l': "l' \<in> set ls'" "row_id l' = i" "layer_at k l'" for l'
    using shifted_set(1) [OF assms l'(1)] l'(2,3) by (auto simp: layer_at_def layer_position_def live_def split: prod.splits)
  moreover have "\<exists>l'\<in>set ls'. row_id l' = i \<and> layer_at k l'" if l: "l \<in> set ls" "row_id l = i" "layer_at k l" for l
  proof -
    obtain l' t where "l' \<in> set ls'" "l' = l\<lparr>pl_qty_remaining := pl_qty_remaining l + e (row_id l), updated_at := t\<rparr>"
      using shifted_set(2) [OF assms l(1)] by blast
    then show ?thesis using l(2,3)
      by (intro bexI [of _ l']) (auto simp: layer_at_def layer_position_def live_def split: prod.splits)
  qed
  ultimately show ?thesis by (auto simp: layered_def Some)
qed (simp add: layered_def)

lemma stock_ok_shifted:
  assumes "stock_ok d s" "shifted e (purchase_lines s) (purchase_lines s')"
    and "movements s' = movements s" "uuid_gen s' = uuid_gen s" "drawn s \<subseteq> drawn s'"
    and "\<And>l. l \<in> set (purchase_lines s) \<Longrightarrow>
       0 \<le> pl_qty_remaining l + e (row_id l) \<and> pl_qty_remaining l + e (row_id l) \<le> pl_received_qty l"
  shows "stock_ok (\<lambda>i. d i - e i) s'"
  unfolding stock_ok_def
proof (intro conjI ballI impI)
  note ok = stock_okD [OF assms(1)]
  show "inj (uuid_gen s')" using ok(1) assms(4) by simp
  show "keyed (purchase_lines s') s'"
    using ok(2) assms(5) shifted_ids [OF assms(2)] unfolding keyed_def
    by (metis set_map subset_trans)
  fix l' assume l': "l' \<in> set (purchase_lines s')"
  obtain l t where l: "l \<in> set (purchase_lines s)"
    "l' = l\<lparr>pl_qty_remaining := pl_qty_remaining l + e (row_id l), updated_at := t\<rparr>"
    using shifted_set(1) [OF assms(2) l'] by blast
  show "0 \<le> pl_qty_remaining l'" "pl_qty_remaining l' \<le> pl_received_qty l'"
    using assms(6) [OF l(1)] l(2) by simp_all
  show "pl_qty_remaining l' = traced s' (row_id l') - (d (row_id l') - e (row_id l'))" if "live l'"
    using ok(4) [OF l(1)] that l(2) by (simp add: traced_def assms(3) live_def)
next
  fix m assume "m \<in> set (movements s')" "live m"
  then show "layered (purchase_lines s') (position_of m) (sm_purchase_line_id m)"
    using stock_okD(5) [OF assms(1)] assms(3) by (simp add: shifted_layered [OF assms(2)])
qed

lemma stock_ok_movement:
  assumes "stock_ok d s" "movements s' = movements s @ [m]" "live m"
    and "layered (purchase_lines s) (position_of m) (sm_purchase_line_id m)"
    and "purchase_lines s' = purchase_lines s" "uuid_gen s' = uuid_gen s" "drawn s \<subseteq> drawn s'"
  shows "stock_ok (\<lambda>i. d i + (if sm_purchase_line_id m = Some i then sm_qty m else 0)) s'"
  unfolding stock_ok_def
proof (intro conjI ballI impI)
  note ok = stock_okD [OF assms(1)]
  show "inj (uuid_gen s')" using ok(1) assms(6) by simp
  show "keyed (purchase_lines s') s'" using ok(2) assms(5,7) keyed_mono by simp
  fix l assume "l \<in> set (purchase_lines s')"
  then have l: "l \<in> set (purchase_lines s)" by (simp add: assms(5))
  show "0 \<le> pl_qty_remaining l" "pl_qty_remaining l \<le> pl_received_qty l" using ok(3) [OF l] by simp_all
  show "pl_qty_remaining l = traced s' (row_id l) - (d (row_id l) +
      (if sm_purchase_line_id m = Some (row_id l) then sm_qty m else 0))" if "live l"
    using ok(4) [OF l that] assms(3) by (simp add: traced_def assms(2))
next
  fix x assume "x \<in> set (movements s')" "live x"
  then show "layered (purchase_lines s') (position_of x) (sm_purchase_line_id x)"
    using stock_okD(5) [OF assms(1)] assms(2,4,5) by auto
qed

lemma create_stock_movement_ok:
  assumes "create_stock_movement c bid br p v mt q cost rt rid user pl bat ex notes mat sq s = (m, s')"
    and "stock_ok d s" "layered (purchase_lines s) (bid, br, p, v) pl"
  shows "stock_ok (\<lambda>i. d i + (if pl = Some i then q else 0)) s'"
proof -
  note E = create_stock_movement_eq [OF assms(1)]
  have "drawn s \<subseteq> drawn s'" by (auto simp: E(1) drawn_def)
  from stock_ok_movement [OF assms(2) _ E(2) _ _ _ this, unfolded E(3-5)] assms(3) show ?thesis
    by (simp add: E(1))
qed

lemma layered_slices:
  assumes "\<forall>x\<in>set sl. layered ls k (fc_purchase_line_id x)" "fc_purchase_line_id y = fc_purchase_line_id x" "x \<in> set sl"
  shows "layered ls k (fc_purchase_line_id y)"
  using assms by simp

lemma slice_movements_ok:
  assumes "stock_ok d s" "\<forall>x\<in>set sl. layered (purchase_lines s) (bid, br, p, v) (fc_purchase_line_id x)"
    and "fold (slice_movement c bid br p v mt rt rid user mat bat ex notes) (enumerate n sl) s = s'"
  shows "stock_ok (\<lambda>i. d i - taken sl i) s' \<and>
    stock.run (map (\<lambda>x. ((bid, br, p, v), - fc_qty x)) sl) s s' \<and>
    s' = s\<lparr>uuid_next := uuid_next s', movements := movements s'\<rparr>"
  using assms
proof (induction sl arbitrary: n s d)
  case Nil
  then show ?case by simp
next
  case (Cons x sl)
  obtain m t where t: "create_stock_movement c bid br p v mt (- fc_qty x) (fc_cost_per_unit x) rt rid user
      (fc_purchase_line_id x) bat ex notes (Some mat) (Some n) s = (m, t)" by fastforce
  note E = create_stock_movement_eq [OF t]
  have rest: "fold (slice_movement c bid br p v mt rt rid user mat bat ex notes) (enumerate (Suc n) sl) t = s'"
    using Cons.prems(3) t by (simp add: slice_movement_def)
  have "stock_ok (\<lambda>i. d i + (if fc_purchase_line_id x = Some i then - fc_qty x else 0)) t"
    by (rule create_stock_movement_ok [OF t Cons.prems(1)]) (use Cons.prems(2) in simp)
  from Cons.IH [OF this _ rest] Cons.prems(2)
  have "stock_ok (\<lambda>i. d i + (if fc_purchase_line_id x = Some i then - fc_qty x else 0) - taken sl i) s'"
    and r: "stock.run (map (\<lambda>x. ((bid, br, p, v), - fc_qty x)) sl) t s'"
    and f: "s' = t\<lparr>uuid_next := uuid_next s', movements := movements s'\<rparr>" by (auto simp: E(1))
  moreover have "(\<lambda>i. d i + (if fc_purchase_line_id x = Some i then - fc_qty x else 0) - taken sl i)
      = (\<lambda>i. d i - taken (x # sl) i)" by auto
  moreover have "posted_movement (bid, br, p, v) (- fc_qty x) s t"
    by (rule create_stock_movement_posts [OF t])
  moreover have "s' = s\<lparr>uuid_next := uuid_next s', movements := movements s'\<rparr>"
    by (subst f) (simp add: E(1))
  ultimately show ?case by auto
qed

section \<open>Consuming\<close>

lemma taken_slices_of:
  assumes "\<forall>l\<in>set ls. 0 < pl_qty_remaining l" "distinct (map row_id ls)" "0 \<le> q"
  shows "(\<forall>l\<in>set ls. 0 \<le> taken (slices_of q ls) (row_id l) \<and>
            taken (slices_of q ls) (row_id l) \<le> pl_qty_remaining l) \<and>
    (\<forall>i. i \<notin> row_id ` set ls \<longrightarrow> taken (slices_of q ls) i = 0)"
  using assms
proof (induction ls arbitrary: q)
  case Nil
  then show ?case by simp
next
  case (Cons l ls)
  have "(\<forall>l'\<in>set ls. 0 \<le> taken (slices_of (q - min q (pl_qty_remaining l)) ls) (row_id l') \<and>
            taken (slices_of (q - min q (pl_qty_remaining l)) ls) (row_id l') \<le> pl_qty_remaining l') \<and>
    (\<forall>i. i \<notin> row_id ` set ls \<longrightarrow> taken (slices_of (q - min q (pl_qty_remaining l)) ls) i = 0)"
    using Cons.prems by (intro Cons.IH) auto
  then show ?case using Cons.prems by (cases "q \<le> 0") (auto simp: less_imp_le)
qed

lemma slices_layered:
  "x \<in> set (slices_of q ls) \<Longrightarrow> \<exists>l\<in>set ls. fc_purchase_line_id x = Some (row_id l)"
  by (induction ls arbitrary: q) (auto split: if_splits)

lemma consume_fifo_layers_ok:
  assumes "stock_ok d s" "0 \<le> q" "consume_fifo_layers c bid br p v q s = (sl, short, s')"
  shows "stock_ok (\<lambda>i. d i + taken sl i) s' \<and>
    (\<forall>x\<in>set sl. layered (purchase_lines s') (bid, br, p, v) (fc_purchase_line_id x))"
proof -
  let ?ls = "layers_at s bid br p v"
  note ok = stock_okD [OF assms(1)] and E = consume_fifo_layers_eq [OF assms(3,2)]
  have dist: "distinct (map row_id (purchase_lines s))" using ok(2) by (simp add: keyed_def)
  have inj: "inj_on row_id (set (purchase_lines s))" "distinct (purchase_lines s)"
    using dist by (simp_all add: distinct_map)
  have dist': "distinct (map row_id ?ls)"
    unfolding distinct_map using inj by (auto intro: inj_on_subset)
  note T = taken_slices_of [OF layers_at_pos dist' assms(2)]
  have sh: "shifted (\<lambda>i. - taken sl i) (purchase_lines s) (purchase_lines s')" using E by blast
  have s': "movements s' = movements s" "uuid_gen s' = uuid_gen s" "drawn s' = drawn s"
  proof -
    have e: "s' = s\<lparr>purchase_lines := purchase_lines s'\<rparr>" using E by blast
    show "movements s' = movements s" "uuid_gen s' = uuid_gen s" "drawn s' = drawn s"
      by (subst e, simp add: drawn_def)+
  qed
  have bound: "0 \<le> pl_qty_remaining l + - taken sl (row_id l) \<and>
      pl_qty_remaining l + - taken sl (row_id l) \<le> pl_received_qty l" if l: "l \<in> set (purchase_lines s)" for l
  proof (cases "l \<in> set ?ls")
    case True
    then show ?thesis using T E ok(3) [OF l] by force
  next
    case False
    then have "row_id l \<notin> row_id ` set ?ls" using inj(1) l by (auto dest: inj_onD)
    then show ?thesis using T E ok(3) [OF l] by simp
  qed
  have "stock_ok (\<lambda>i. d i - - taken sl i) s'"
    by (rule stock_ok_shifted [OF assms(1) sh s'(1,2) _ bound]) (simp_all add: s'(3))
  moreover have "\<forall>x\<in>set sl. layered (purchase_lines s) (bid, br, p, v) (fc_purchase_line_id x)"
  proof
    fix x assume "x \<in> set sl"
    then obtain l where l: "l \<in> set ?ls" "fc_purchase_line_id x = Some (row_id l)"
      using E slices_layered by blast
    then show "layered (purchase_lines s) (bid, br, p, v) (fc_purchase_line_id x)"
      by (auto simp: layered_def layer_filter_def layer_at_def layer_position_def)
  qed
  ultimately show ?thesis using shifted_layered [OF sh] by simp
qed

lemma allocate_sale_line_fifo_ok:
  assumes "stock_ok d s" "0 \<le> q" "allocate_sale_line_fifo c bid br p v q s = ((w, sl, short), s')"
  shows "stock_ok (\<lambda>i. d i + taken sl i) s' \<and>
    (\<forall>x\<in>set sl. layered (purchase_lines s') (bid, br, p, v) (fc_purchase_line_id x)) \<and>
    sum_list (map fc_qty sl) = q \<and> 0 \<le> short \<and> short \<le> q \<and>
    s' = s\<lparr>purchase_lines := purchase_lines s'\<rparr> \<and>
    shifted (\<lambda>i. - taken sl i) (purchase_lines s) (purchase_lines s')"
proof -
  obtain ls sh t where t: "consume_fifo_layers c bid br p v q s = (ls, sh, t)" by (metis prod_cases3)
  note E = consume_fifo_layers_eq [OF t assms(2)] and C = consume_fifo_layers_ok [OF assms(1,2) t]
  have r: "short = sh" "s' = t" "sl = (if 0 < sh then ls @ [\<lparr>fc_purchase_line_id = None, fc_qty = sh,
      fc_cost_per_unit = get_fallback_cost_per_unit t bid p v\<rparr>] else ls)"
    using assms(3) by (auto simp: allocate_sale_line_fifo_def t Let_def)
  have tk: "taken sl = taken ls" by (auto simp: r fun_eq_iff)
  have "0 \<le> sum_list (map fc_qty ls)"
  proof (rule sum_list_nonneg)
    fix x assume "x \<in> set (map fc_qty ls)"
    then obtain k where "k < length ls" "x = fc_qty (ls ! k)" by (auto simp: in_set_conv_nth)
    moreover have "ls = slices_of q (layers_at s bid br p v)" using E by blast
    ultimately show "0 \<le> x" using slices_of_shape [OF layers_at_pos assms(2)] by (auto simp: less_imp_le)
  qed
  moreover have "\<forall>x\<in>set sl. layered (purchase_lines s') (bid, br, p, v) (fc_purchase_line_id x)"
    using C by (auto simp: r layered_def)
  moreover have "sh = q - sum_list (map fc_qty ls)" "0 \<le> sh" using E by blast+
  moreover have "sum_list (map fc_qty sl) = q" using calculation by (auto simp: r)
  moreover have "s' = s\<lparr>purchase_lines := purchase_lines s'\<rparr>"
    "shifted (\<lambda>i. - taken sl i) (purchase_lines s) (purchase_lines s')"
    "stock_ok (\<lambda>i. d i + taken sl i) s'"
    unfolding tk r(2) using C E by blast+
  ultimately show ?thesis using r(1) by (intro conjI) (assumption | linarith)+
qed

lemma run_slices:
  assumes "stock.run (map (\<lambda>x. (k, - fc_qty x)) sl) s s'"
  shows "stock_at s' k' = stock_at s k' - (if k' = k then sum_list (map fc_qty sl) else 0)"
proof -
  have "sum_where snd (\<lambda>e. fst e = k') (map (\<lambda>x. (k, - fc_qty x)) sl)
      = - (if k' = k then sum_list (map fc_qty sl) else 0)"
    by (induction sl) auto
  then show ?thesis using stock.run_balance [OF assms, of k'] by simp
qed

lemma consume_to_movements_ok:
  assumes "reconciled s" "0 \<le> q"
    and "consume_to_movements c bid br p v q mt rt rid user mat bat ex notes s = ((w, sl, short), s')"
  shows "reconciled s'" "stock_at s' k = stock_at s k - (if k = (bid, br, p, v) then q else 0)"
    "sum_list (map fc_qty sl) = q" "w = compute_weighted_cost_per_unit q sl" "0 \<le> short" "short \<le> q"
    "s' = s\<lparr>uuid_next := uuid_next s', purchase_lines := purchase_lines s', movements := movements s'\<rparr>"
    "\<forall>x\<in>set sl. layered (purchase_lines s') (bid, br, p, v) (fc_purchase_line_id x)"
proof -
  obtain t where t: "allocate_sale_line_fifo c bid br p v q s = ((w, sl, short), t)"
    and s': "fold (slice_movement c bid br p v mt rt rid user mat bat ex notes) (enumerate 0 sl) t = s'"
    using assms(3) by (auto simp: consume_to_movements_def split: prod.splits)
  note A = allocate_sale_line_fifo_ok [OF assms(1,2) t]
  have ok: "stock_ok (\<lambda>i. 0 + taken sl i) t" and lay: "\<forall>x\<in>set sl. layered (purchase_lines t) (bid, br, p, v) (fc_purchase_line_id x)"
    and q: "sum_list (map fc_qty sl) = q" using A by blast+
  obtain pls where T: "t = s\<lparr>purchase_lines := pls\<rparr>" using A by blast
  note M = slice_movements_ok [OF ok lay s']
  obtain n ms where S: "s' = t\<lparr>uuid_next := n, movements := ms\<rparr>" using M by blast
  have "(\<lambda>i. 0 + taken sl i - taken sl i) = (\<lambda>_. 0)" by simp
  then show "reconciled s'" using M by simp
  show "stock_at s' k = stock_at s k - (if k = (bid, br, p, v) then q else 0)"
    using run_slices [OF M [THEN conjunct2, THEN conjunct1], of k] by (simp add: q T stock_at_sum)
  show "w = compute_weighted_cost_per_unit q sl"
    using t by (auto simp: allocate_sale_line_fifo_def Let_def split: prod.splits)
  show "s' = s\<lparr>uuid_next := uuid_next s', purchase_lines := purchase_lines s', movements := movements s'\<rparr>"
    by (simp add: S T)
  show "sum_list (map fc_qty sl) = q" "0 \<le> short" "short \<le> q" using A by blast+
  show "\<forall>x\<in>set sl. layered (purchase_lines s') (bid, br, p, v) (fc_purchase_line_id x)"
    using lay by (simp add: S)
qed

text \<open>
  Taking stock out (waste, negative adjustments, outgoing transfers) lowers the balance of its
  position by exactly the quantity taken and no other balance, and keeps layers and movements
  reconciled; the unit cost returned is the weighted cost of slices that add up to the quantity.
\<close>

theorem consume_to_movements_correct:
  assumes "reconciled s" "0 \<le> q"
    and "consume_to_movements c bid br p v q mt rt rid user mat bat ex notes s = ((w, sl, short), s')"
  shows "reconciled s' \<and>
    (\<forall>b' br' p' v'. get_stock_balance s' b' br' p' v' =
       get_stock_balance s b' br' p' v' - (if (b', br', p', v') = (bid, br, p, v) then q else 0)) \<and>
    sum_list (map fc_qty sl) = q \<and> w = compute_weighted_cost_per_unit q sl \<and> 0 \<le> short \<and> short \<le> q"
  using consume_to_movements_ok(2) [OF assms, of "(b', br', p', v')" for b' br' p' v']
    consume_to_movements_ok(1,3-6) [OF assms] by (auto simp: stock_at_def)

definition sample_movement :: "uuid \<Rightarrow> decimal \<Rightarrow> uuid \<Rightarrow> stock_movement" where
  "sample_movement i q l = new_row i 1 None 0
     \<lparr>sm_branch_id = 2, sm_product_id = 5, sm_variation_id = None,
      sm_movement_type = StockMovementType_purchase, sm_qty = q, sm_cost_per_unit = 3,
      sm_reference_type = ReferenceType_purchase_receipt_line, sm_reference_id = 50,
      sm_purchase_line_id = Some l, sm_batch_number = None, sm_expiry_date = None, sm_notes = None,
      sm_movement_at = 0, sm_movement_sequence = None\<rparr>"

definition sample_warehouse :: db where
  "sample_warehouse = sample_stock\<lparr>uuid_next := 100,
     movements := [sample_movement 12 4 11, sample_movement 13 2 10]\<rparr>"

lemma sample_warehouse_ok: "reconciled sample_warehouse"
  by (auto simp: stock_ok_def sample_warehouse_def sample_stock_def empty_db_def sample_layer_def
      sample_movement_def keyed_def drawn_def traced_def layered_def layer_at_def layer_position_def
      position_of_def live_def)

lemma sample_warehouse_balance: "get_stock_balance sample_warehouse 1 2 5 None = 6"
  by (simp add: get_stock_balance_def sample_warehouse_def sample_stock_def empty_db_def
      sample_movement_def in_position_def live_def)

lemma consume_to_movements_correct_witness:
  "\<exists>w sl short s'. consume_to_movements sample_clock 1 2 5 None 5 StockMovementType_waste
       ReferenceType_waste_entry_line 60 7 30 None None None sample_warehouse = ((w, sl, short), s') \<and>
     reconciled s' \<and> get_stock_balance s' 1 2 5 None = 1"
proof -
  obtain w sl short s' where r: "consume_to_movements sample_clock 1 2 5 None 5 StockMovementType_waste
       ReferenceType_waste_entry_line 60 7 30 None None None sample_warehouse = ((w, sl, short), s')"
    by (metis prod.exhaust)
  have "(0::rat) \<le> 5" by simp
  from consume_to_movements_correct [OF sample_warehouse_ok this r] r show ?thesis
    by (simp add: sample_warehouse_balance del: One_nat_def)
qed

section \<open>New layers\<close>

lemma create_fifo_layer_eq:
  assumes "create_fifo_layer c bid br p v q cost user src cr bat ex s = (l, s')"
  shows "s' = s\<lparr>uuid_next := Suc (uuid_next s), purchase_lines := purchase_lines s @ [l]\<rparr>"
    and "row_id l = uuid_gen s (uuid_next s)" "layer_at (bid, br, p, v) l" "live l"
    "pl_qty_remaining l = q" "pl_received_qty l = q" "pl_cost_per_unit l = round4 cost"
    "created_at l = or_else cr (now c)" "pl_layer_source l = src"
  using assms
  by (auto simp: create_fifo_layer_def fresh_uuid_def Let_def layer_at_def layer_position_def live_def)

lemma untraced_fresh:
  assumes "stock_ok d s" "i \<notin> drawn s"
  shows "traced s i = 0"
  unfolding traced_def
proof (rule sum_where_none)
  fix m assume m: "m \<in> set (movements s)"
  show "\<not> (live m \<and> sm_purchase_line_id m = Some i)"
    using stock_okD(5) [OF assms(1) m] stock_okD(2) [OF assms(1)] assms(2)
    by (auto simp: layered_def keyed_def) blast
qed

lemma create_fifo_layer_ok:
  assumes "stock_ok d s" "0 \<le> q" "create_fifo_layer c bid br p v q cost user src cr bat ex s = (l, s')"
    and "d (row_id l) = 0"
  shows "stock_ok (\<lambda>i. d i - (if i = row_id l then q else 0)) s' \<and>
    layered (purchase_lines s') (bid, br, p, v) (Some (row_id l))"
proof -
  note E = create_fifo_layer_eq [OF assms(3)] and ok = stock_okD [OF assms(1)]
  have f: "fresh_uuid s = (row_id l, s\<lparr>uuid_next := Suc (uuid_next s)\<rparr>)"
    by (simp add: fresh_uuid_def E(2))
  have new: "row_id l \<notin> drawn s" by (rule fresh_uuid_new [OF ok(1) f])
  have "keyed (purchase_lines s @ [l]) (s\<lparr>uuid_next := Suc (uuid_next s)\<rparr>)"
    by (rule keyed_snoc [OF ok(2,1) f])
  then have k: "keyed (purchase_lines s') s'" by (simp add: E(1) keyed_def drawn_def)
  have other: "row_id x \<noteq> row_id l" if "x \<in> set (purchase_lines s)" for x
    using that ok(2) new by (auto simp: keyed_def)
  have tr: "traced s' = traced s" by (simp add: traced_def E(1) fun_eq_iff)
  have "stock_ok (\<lambda>i. d i - (if i = row_id l then q else 0)) s'"
    unfolding stock_ok_def
  proof (intro conjI ballI impI)
    show "inj (uuid_gen s')" using ok(1) by (simp add: E(1))
    show "keyed (purchase_lines s') s'" by (rule k)
    fix x assume x: "x \<in> set (purchase_lines s')"
    then show "0 \<le> pl_qty_remaining x" "pl_qty_remaining x \<le> pl_received_qty x"
      using ok(3) assms(2) E by auto
    show "pl_qty_remaining x = traced s' (row_id x) - (d (row_id x) - (if row_id x = row_id l then q else 0))"
      if "live x"
      unfolding tr
      using x that ok(4) other untraced_fresh [OF assms(1) new] assms(4) E(5) by (auto simp: E(1))
  next
    fix m assume "m \<in> set (movements s')" "live m"
    then show "layered (purchase_lines s') (position_of m) (sm_purchase_line_id m)"
      using ok(5) [of m] by (fastforce simp: E(1) layered_def split: option.splits)
  qed
  moreover have "layered (purchase_lines s') (bid, br, p, v) (Some (row_id l))"
    using E(3) by (auto simp: layered_def E(1))
  ultimately show ?thesis by blast
qed

lemma layer_movement_ok:
  \<comment> \<open>a new layer and the movement that fills it\<close>
  assumes "stock_ok d s" "0 \<le> q" "\<And>i. i \<notin> drawn s \<Longrightarrow> d i = 0"
    and "create_fifo_layer c bid br p v q cost user src cr bat ex s = (l, t)"
    and "create_stock_movement c bid br p v mt q mcost rt rid user (Some (row_id l)) bat' ex' notes mat sq t = (m, s')"
  shows "stock_ok d s' \<and> posted_movement (bid, br, p, v) q s s'"
proof -
  note E = create_fifo_layer_eq [OF assms(4)]
  have "fresh_uuid s = (row_id l, s\<lparr>uuid_next := Suc (uuid_next s)\<rparr>)"
    by (simp add: fresh_uuid_def E(2))
  then have "d (row_id l) = 0" using fresh_uuid_new stock_okD(1) [OF assms(1)] assms(3) by blast
  note L = create_fifo_layer_ok [OF assms(1,2,4) this]
  have "stock_ok (\<lambda>i. d i - (if i = row_id l then q else 0) + (if Some (row_id l) = Some i then q else 0)) s'"
    by (rule create_stock_movement_ok [OF assms(5)]) (use L in blast)+
  moreover have "(\<lambda>i. d i - (if i = row_id l then q else 0) + (if Some (row_id l) = Some i then q else 0)) = d"
    by (auto simp: fun_eq_iff)
  moreover have "posted_movement (bid, br, p, v) q s s'"
    using create_stock_movement_posts [OF assms(5)] by (simp add: posted_movement_def E(1))
  ultimately show ?thesis by simp
qed

definition receive_layer ::
  "clock \<Rightarrow> uuid \<Rightarrow> uuid \<Rightarrow> uuid \<Rightarrow> uuid option \<Rightarrow> decimal \<Rightarrow> decimal \<Rightarrow> uuid \<Rightarrow> string \<Rightarrow>
   datetime option \<Rightarrow> string option \<Rightarrow> date option \<Rightarrow> StockMovementTypeEnum \<Rightarrow> decimal \<Rightarrow>
   ReferenceTypeEnum \<Rightarrow> uuid \<Rightarrow> string option \<Rightarrow> datetime option \<Rightarrow> db \<Rightarrow> db" where
  \<comment> \<open>the pair of calls by which adjustments and returns bring stock in\<close>
  "receive_layer c bid br p v q cost user src cr bat ex mt mcost rt rid notes mat s =
     (let (l, s) = create_fifo_layer c bid br p v q cost user src cr bat ex s
      in snd (create_stock_movement c bid br p v mt q mcost rt rid user (Some (row_id l)) bat ex
           notes mat None s))"

lemma receive_layer_ok:
  assumes "stock_ok d s" "0 \<le> q" "\<And>i. i \<notin> drawn s \<Longrightarrow> d i = 0"
    and "receive_layer c bid br p v q cost user src cr bat ex mt mcost rt rid notes mat s = s'"
  shows "stock_ok d s' \<and> posted_movement (bid, br, p, v) q s s'"
proof -
  obtain l t where t: "create_fifo_layer c bid br p v q cost user src cr bat ex s = (l, t)" by fastforce
  then obtain m where "create_stock_movement c bid br p v mt q mcost rt rid user (Some (row_id l)) bat ex
      notes mat None t = (m, s')"
    using assms(4) by (cases "create_stock_movement c bid br p v mt q mcost rt rid user (Some (row_id l)) bat ex
      notes mat None t") (simp add: receive_layer_def)
  from layer_movement_ok [OF assms(1-3) t this] show ?thesis .
qed

lemma restore_untraced_receives:
  "restore_untraced c bid br p v q cost mt rt rid user mat s =
     receive_layer c bid br p v q cost user ''return'' (Some mat) None None mt cost rt rid None (Some mat) s"
  by (simp add: restore_untraced_def receive_layer_def)

section \<open>Restoring\<close>

lemma restore_step_shifted:
  assumes "stock_ok d s" "layered (purchase_lines s) (bid, br, p, v) (fc_purchase_line_id x)" "0 \<le> fc_qty x"
    and "\<And>l. l \<in> set (purchase_lines s) \<Longrightarrow> pl_qty_remaining l + taken [x] (row_id l) \<le> pl_received_qty l"
  shows "shifted (taken [x]) (purchase_lines s) (purchase_lines (restore_step c bid x s))"
proof (cases "fc_purchase_line_id x")
  case None
  then have "taken [x] = (\<lambda>_. 0)" by auto
  then show ?thesis by (simp add: restore_step_def None)
next
  case (Some i)
  have dist: "distinct (map row_id (purchase_lines s))" using stock_okD(2) [OF assms(1)] by (simp add: keyed_def)
  obtain l0 where l0: "l0 \<in> set (purchase_lines s)" "row_id l0 = i" "layer_at (bid, br, p, v) l0"
    using assms(2) by (auto simp: layered_def Some)
  have own: "business_id l = bid \<and> live l" if "l \<in> set (purchase_lines s)" "row_id l = i" for l
    using keyed_unique [OF dist that(1) l0(1)] that(2) l0(2,3) by (auto simp: layer_at_def layer_position_def)
  have "shifted (taken [x]) (purchase_lines s) (update_where (\<lambda>l. row_id l = i \<and> business_id l = bid \<and> live l)
      (restore_layer c (fc_qty x)) (purchase_lines s))"
  proof (rule shifted_update)
    fix l assume l: "l \<in> set (purchase_lines s)"
    show "\<exists>t. restore_layer c (fc_qty x) l = l\<lparr>pl_qty_remaining := pl_qty_remaining l + taken [x] (row_id l), updated_at := t\<rparr>"
      if "row_id l = i \<and> business_id l = bid \<and> live l"
      using assms(4) [OF l] that by (intro exI [of _ "now c"]) (simp add: restore_layer_def Some)
    show "taken [x] (row_id l) = 0" if "\<not> (row_id l = i \<and> business_id l = bid \<and> live l)"
      using that own [OF l] by (auto simp: Some)
  qed
  then show ?thesis by (simp add: restore_step_def Some)
qed

lemma restore_step_frame:
  "movements (restore_step c bid x s) = movements s" "uuid_gen (restore_step c bid x s) = uuid_gen s"
  "drawn (restore_step c bid x s) = drawn s"
  by (auto simp: restore_step_def drawn_def split: option.splits)

lemma taken_nonneg: "\<forall>x\<in>set xs. 0 \<le> fc_qty x \<Longrightarrow> 0 \<le> taken xs i"
  unfolding taken_def by (rule sum_where_nonneg) auto

lemma restore_fifo_layers_ok:
  assumes "stock_ok d s"
    and "\<forall>x\<in>set xs. 0 \<le> fc_qty x \<and> layered (purchase_lines s) (bid, br, p, v) (fc_purchase_line_id x)"
    and "\<And>l. l \<in> set (purchase_lines s) \<Longrightarrow> pl_qty_remaining l + taken xs (row_id l) \<le> pl_received_qty l"
  shows "stock_ok (\<lambda>i. d i - taken xs i) (restore_fifo_layers c bid xs s) \<and>
    movements (restore_fifo_layers c bid xs s) = movements s \<and>
    drawn (restore_fifo_layers c bid xs s) = drawn s \<and>
    (\<forall>k r. layered (purchase_lines (restore_fifo_layers c bid xs s)) k r = layered (purchase_lines s) k r)"
  using assms
proof (induction xs arbitrary: s d)
  case Nil
  then show ?case by (simp add: restore_fifo_layers_def)
next
  case (Cons x xs)
  let ?t = "restore_step c bid x s"
  have nn: "0 \<le> taken xs i" for i using Cons.prems(2) by (intro taken_nonneg) auto
  have x: "layered (purchase_lines s) (bid, br, p, v) (fc_purchase_line_id x)" "0 \<le> fc_qty x"
    using Cons.prems(2) by auto
  have room: "pl_qty_remaining l + taken [x] (row_id l) \<le> pl_received_qty l"
    if "l \<in> set (purchase_lines s)" for l
    using Cons.prems(3) [OF that] nn [of "row_id l"] by simp
  note sh = restore_step_shifted [OF Cons.prems(1) x room, of c]
  have "stock_ok (\<lambda>i. d i - taken [x] i) ?t"
  proof (rule stock_ok_shifted [OF Cons.prems(1) sh restore_step_frame(1,2)])
    show "drawn s \<subseteq> drawn ?t" by (simp add: restore_step_frame)
    show "0 \<le> pl_qty_remaining l + taken [x] (row_id l) \<and> pl_qty_remaining l + taken [x] (row_id l) \<le> pl_received_qty l"
      if "l \<in> set (purchase_lines s)" for l
      using stock_okD(3) [OF Cons.prems(1) that] room [OF that] x(2) by auto
  qed
  from Cons.IH [OF this]
  have "stock_ok (\<lambda>i. d i - taken [x] i - taken xs i) (restore_fifo_layers c bid xs ?t) \<and>
    movements (restore_fifo_layers c bid xs ?t) = movements ?t \<and>
    drawn (restore_fifo_layers c bid xs ?t) = drawn ?t \<and>
    (\<forall>k r. layered (purchase_lines (restore_fifo_layers c bid xs ?t)) k r = layered (purchase_lines ?t) k r)"
  proof -
    have "pl_qty_remaining l' + taken xs (row_id l') \<le> pl_received_qty l'"
      if "l' \<in> set (purchase_lines ?t)" for l'
      using shifted_set(1) [OF sh that] Cons.prems(3) by (fastforce simp: add.assoc)
    then show ?thesis
      using Cons.IH [OF \<open>stock_ok (\<lambda>i. d i - taken [x] i) ?t\<close>] Cons.prems(2) by (simp add: shifted_layered [OF sh])
  qed
  moreover have "(\<lambda>i. d i - taken [x] i - taken xs i) = (\<lambda>i. d i - taken (x # xs) i)" by auto
  ultimately show ?case by (simp add: restore_fifo_layers_def restore_step_frame shifted_layered [OF sh])
qed

lemma restore_movements_ok:
  assumes "stock_ok d s" "\<forall>x\<in>set xs. layered (purchase_lines s) (bid, br, p, v) (fc_purchase_line_id x)"
    and "fold (restore_movement c bid br p v mt rt rid user mat) xs s = s'"
  shows "stock_ok (\<lambda>i. d i + taken xs i) s' \<and> drawn s \<subseteq> drawn s' \<and>
    stock.run (map (\<lambda>x. ((bid, br, p, v), fc_qty x)) xs) s s'"
  using assms
proof (induction xs arbitrary: s d)
  case Nil
  then show ?case by simp
next
  case (Cons x xs)
  obtain m t where t: "create_stock_movement c bid br p v mt (fc_qty x) (fc_cost_per_unit x) rt rid user
      (fc_purchase_line_id x) None None None (Some mat) None s = (m, t)" by fastforce
  note E = create_stock_movement_eq(1) [OF t]
  have rest: "fold (restore_movement c bid br p v mt rt rid user mat) xs t = s'"
  proof -
    have "restore_movement c bid br p v mt rt rid user mat x s = t" using t by (simp add: restore_movement_def)
    then show ?thesis using Cons.prems(3) by simp
  qed
  have "stock_ok (\<lambda>i. d i + (if fc_purchase_line_id x = Some i then fc_qty x else 0)) t"
    by (rule create_stock_movement_ok [OF t Cons.prems(1)]) (use Cons.prems(2) in simp)
  from Cons.IH [OF this _ rest] Cons.prems(2)
  have "stock_ok (\<lambda>i. d i + (if fc_purchase_line_id x = Some i then fc_qty x else 0) + taken xs i) s'"
    and r: "stock.run (map (\<lambda>x. ((bid, br, p, v), fc_qty x)) xs) t s'" "drawn t \<subseteq> drawn s'" by (auto simp: E)
  moreover have "(\<lambda>i. d i + (if fc_purchase_line_id x = Some i then fc_qty x else 0) + taken xs i)
      = (\<lambda>i. d i + taken (x # xs) i)" by auto
  moreover have "posted_movement (bid, br, p, v) (fc_qty x) s t"
    by (rule create_stock_movement_posts [OF t])
  moreover have "drawn s \<subseteq> drawn t" by (auto simp: E drawn_def)
  ultimately show ?case by auto
qed

definition consumed :: "db \<Rightarrow> uuid \<Rightarrow> uuid \<Rightarrow> uuid \<Rightarrow> decimal" where
  \<comment> \<open>what a sale line took from one layer\<close>
  "consumed s bid sale_line_id i =
     sum_where (\<lambda>m. \<bar>sm_qty m\<bar>)
       (\<lambda>m. sale_line_movement bid sale_line_id m \<and> sm_purchase_line_id m = Some i) (movements s)"

definition sale_line_at :: "db \<Rightarrow> position \<Rightarrow> uuid \<Rightarrow> bool" where
  \<comment> \<open>the movements of a sale line are those of its own position\<close>
  "sale_line_at s k sale_line_id \<longleftrightarrow>
     (\<forall>m\<in>set (movements s). sale_line_movement (fst k) sale_line_id m \<longrightarrow> position_of m = k)"

definition room_for :: "db \<Rightarrow> uuid \<Rightarrow> uuid \<Rightarrow> bool" where
  \<comment> \<open>no layer would be filled beyond what it received if the sale line were put back\<close>
  "room_for s bid sale_line_id \<longleftrightarrow>
     (\<forall>l\<in>set (purchase_lines s). pl_qty_remaining l + consumed s bid sale_line_id (row_id l) \<le> pl_received_qty l)"

lemma sum_where_sort: "sum_where f P (sort_key g xs) = sum_where f P xs"
proof -
  have "mset (map f (filter P (sort_key g xs))) = mset (map f (filter P xs))" by simp
  then show ?thesis unfolding sum_where_def by (metis sum_mset_sum_list)
qed

lemma taken_traced: "taken (get_traced_sale_line_consumptions s bid sl) i = consumed s bid sl i"
proof -
  have "taken (get_traced_sale_line_consumptions s bid sl) i =
      sum_where (\<lambda>m. \<bar>sm_qty m\<bar>) (\<lambda>m. 0 < \<bar>sm_qty m\<bar> \<and> sm_purchase_line_id m = Some i)
        (sort_key trace_order (filter (\<lambda>m. sale_line_movement bid sl m \<and> sm_purchase_line_id m \<noteq> None) (movements s)))"
    unfolding get_traced_sale_line_consumptions_def
    by (simp add: taken_def sum_where_def filter_map comp_def conj_commute)
  also have "\<dots> = sum_where (\<lambda>m. \<bar>sm_qty m\<bar>) (\<lambda>m. 0 < \<bar>sm_qty m\<bar> \<and> sm_purchase_line_id m = Some i)
        (filter (\<lambda>m. sale_line_movement bid sl m \<and> sm_purchase_line_id m \<noteq> None) (movements s))"
    by (rule sum_where_sort)
  also have "\<dots> = consumed s bid sl i"
  proof -
    have "sum_where (\<lambda>m. \<bar>sm_qty m\<bar>) (\<lambda>m. 0 < \<bar>sm_qty m\<bar> \<and> sm_purchase_line_id m = Some i)
        (filter (\<lambda>m. sale_line_movement bid sl m \<and> sm_purchase_line_id m \<noteq> None) ms) =
      sum_where (\<lambda>m. \<bar>sm_qty m\<bar>) (\<lambda>m. sale_line_movement bid sl m \<and> sm_purchase_line_id m = Some i) ms" for ms
      by (induction ms) auto
    then show ?thesis by (simp only: consumed_def)
  qed
  finally show ?thesis .
qed

lemma traced_positive: "\<forall>x\<in>set (get_traced_sale_line_consumptions s bid sl). 0 < fc_qty x"
  by (auto simp: get_traced_sale_line_consumptions_def)

lemma traced_layered:
  assumes "stock_ok d s" "sale_line_at s (bid, br, p, v) sl" "x \<in> set (get_traced_sale_line_consumptions s bid sl)"
  shows "layered (purchase_lines s) (bid, br, p, v) (fc_purchase_line_id x)"
proof -
  from assms(3) obtain m where m: "m \<in> set (movements s)" "sale_line_movement bid sl m"
    "fc_purchase_line_id x = sm_purchase_line_id m"
    by (auto simp: get_traced_sale_line_consumptions_def)
  moreover have "live m" "position_of m = (bid, br, p, v)"
    using m assms(2) by (auto simp: sale_line_movement_def sale_line_at_def)
  ultimately show ?thesis using stock_okD(5) [OF assms(1) m(1)] by simp
qed

lemma plan_lifo_from:
  "x \<in> set (plan_lifo q cs) \<Longrightarrow>
     0 < fc_qty x \<and> (\<exists>y\<in>set cs. fc_purchase_line_id y = fc_purchase_line_id x)"
  by (induction q cs rule: plan_lifo.induct) (auto simp: Let_def split: if_splits)

lemma taken_plan: "\<forall>x\<in>set cs. 0 < fc_qty x \<Longrightarrow> taken (plan_lifo q cs) i \<le> taken cs i"
proof (induction q cs rule: plan_lifo.induct)
  case (2 q x cs)
  have "0 \<le> taken cs i" using 2(3) by (intro taken_nonneg) (auto simp: less_imp_le)
  with 2 show ?case by (auto simp: Let_def)
qed simp

lemma taken_rev: "taken (rev xs) i = taken xs i"
  by (induction xs) auto

lemma run_restores:
  assumes "stock.run (map (\<lambda>x. (k, fc_qty x)) sl) s s'"
  shows "stock_at s' k' = stock_at s k' + (if k' = k then sum_list (map fc_qty sl) else 0)"
proof -
  have "sum_where snd (\<lambda>e. fst e = k') (map (\<lambda>x. (k, fc_qty x)) sl) = (if k' = k then sum_list (map fc_qty sl) else 0)"
    by (induction sl) auto
  then show ?thesis using stock.run_balance [OF assms, of k'] by simp
qed

lemma restore_planned:
  fixes q :: decimal and c mt rt rid user mat
  assumes "reconciled s" "sale_line_at s (bid, br, p, v) sl" "room_for s bid sl"
  defines "tr \<equiv> get_traced_sale_line_consumptions s bid sl"
  defines "plan \<equiv> plan_lifo_restoration tr q"
  defines "t \<equiv> fold (restore_movement c bid br p v mt rt rid user mat) plan (restore_fifo_layers c bid plan s)"
  shows "reconciled t \<and> drawn s \<subseteq> drawn t \<and> sum_list (map fc_qty plan) = min (max q 0) (sum_list (map fc_qty tr)) \<and>
    (\<forall>k. stock_at t k = stock_at s k + (if k = (bid, br, p, v) then sum_list (map fc_qty plan) else 0))"
proof -
  have pos: "\<forall>x\<in>set (rev tr). 0 < fc_qty x" using traced_positive by (simp add: tr_def)
  have plan: "plan = plan_lifo q (rev tr)" if "tr \<noteq> []" "0 < q" using that by (simp add: plan_def plan_lifo_restoration_def)
  have nil: "plan = []" if "tr = [] \<or> q \<le> 0" using that by (auto simp: plan_def plan_lifo_restoration_def)
  have xs: "\<forall>x\<in>set plan. 0 \<le> fc_qty x \<and> layered (purchase_lines s) (bid, br, p, v) (fc_purchase_line_id x)"
  proof
    fix x assume x: "x \<in> set plan"
    with nil plan have "x \<in> set (plan_lifo q (rev tr))" by force
    from plan_lifo_from [OF this] obtain y where y: "0 < fc_qty x" "y \<in> set tr" "fc_purchase_line_id y = fc_purchase_line_id x"
      by auto
    with traced_layered [OF assms(1,2) y(2) [unfolded tr_def]]
    show "0 \<le> fc_qty x \<and> layered (purchase_lines s) (bid, br, p, v) (fc_purchase_line_id x)" by simp
  qed
  have tk: "taken plan i \<le> consumed s bid sl i" for i
  proof (cases "tr = [] \<or> q \<le> 0")
    case True
    have "0 \<le> consumed s bid sl i" unfolding consumed_def by (rule sum_where_nonneg) simp
    then show ?thesis by (simp add: nil [OF True])
  next
    case False
    then show ?thesis using taken_plan [OF pos, of q i] plan
      by (simp add: taken_rev tr_def taken_traced)
  qed
  have room: "pl_qty_remaining l + taken plan (row_id l) \<le> pl_received_qty l" if "l \<in> set (purchase_lines s)" for l
    using assms(3) tk [of "row_id l"] that by (fastforce simp: room_for_def)
  let ?u = "restore_fifo_layers c bid plan s"
  note R = restore_fifo_layers_ok [OF assms(1) xs room, of c]
  have ok: "stock_ok (\<lambda>i. 0 - taken plan i) ?u"
    and lay: "\<forall>x\<in>set plan. layered (purchase_lines ?u) (bid, br, p, v) (fc_purchase_line_id x)"
    using R xs by auto
  note M = restore_movements_ok [OF ok lay t_def [THEN meta_eq_to_obj_eq, symmetric]]
  have "(\<lambda>i. 0 - taken plan i + taken plan i) = (\<lambda>_. 0)" by simp
  then have rec: "reconciled t" using M by simp
  have same: "stock_at ?u k = stock_at s k" for k using R by (simp add: stock_at_sum)
  have run: "stock.run (map (\<lambda>x. ((bid, br, p, v), fc_qty x)) plan) ?u t" using M by blast
  have bal: "\<forall>k. stock_at t k = stock_at s k + (if k = (bid, br, p, v) then sum_list (map fc_qty plan) else 0)"
    using run_restores [OF run] same by simp
  have "sum_list (map fc_qty plan) = min (max q 0) (sum_list (map fc_qty tr))"
  proof (cases "tr = [] \<or> q \<le> 0")
    case True
    have "0 \<le> sum_list (map fc_qty tr)" by (rule sum_list_nonneg) (use pos in \<open>auto simp: less_imp_le\<close>)
    then show ?thesis using True nil by auto
  next
    case False
    then show ?thesis using plan_lifo_props [OF pos, of q] plan by (simp add: rev_map [symmetric])
  qed
  then show ?thesis using rec bal M R by auto
qed

lemma restore_sale_line_inventory_ok:
  assumes "reconciled s" "0 \<le> q" "q \<le> sale_line_qty"
    and "sale_line_at s (bid, br, p, v) sl" "room_for s bid sl"
    and "restore_sale_line_inventory c bid br p v sl sale_line_qty cost q mt rt rid user mat s = s'"
  shows "reconciled s' \<and> (\<forall>k. stock_at s' k = stock_at s k + (if k = (bid, br, p, v) then q else 0))"
proof -
  let ?tr = "get_traced_sale_line_consumptions s bid sl" and ?k = "(bid, br, p, v)"
  let ?tt = "sum_list (map fc_qty ?tr)"
  let ?plan = "plan_lifo_restoration ?tr (min q ?tt)"
  let ?t = "fold (restore_movement c bid br p v mt rt rid user mat) ?plan (restore_fifo_layers c bid ?plan s)"
  note s'_def = assms(6) [symmetric]
  have tt: "0 \<le> ?tt" by (rule sum_list_nonneg) (use traced_positive in \<open>auto simp: less_imp_le\<close>)
  note P = restore_planned [OF assms(1,4,5), where q = "min q ?tt" and c = c and mt = mt and rt = rt and
    rid = rid and user = user and mat = mat]
  have sum: "sum_list (map fc_qty ?plan) = min q ?tt" using P assms(2) tt by simp
  show ?thesis
  proof (cases "?tr = []")
    case True
    then have "s' = restore_untraced c bid br p v q cost mt rt rid user mat s"
      by (simp add: s'_def restore_sale_line_inventory_def)
    from receive_layer_ok [OF assms(1,2) _ this [symmetric, unfolded restore_untraced_receives]]
    show ?thesis using stock.post_balance by auto
  next
    case False
    define un where "un = (if ?tt + get_untraced_sale_line_qty s bid sl \<noteq> sale_line_qty
        then max (sale_line_qty - ?tt) 0 else get_untraced_sale_line_qty s bid sl)"
    have "0 \<le> get_untraced_sale_line_qty s bid sl"
      unfolding get_untraced_sale_line_qty_def by (rule sum_where_nonneg) simp
    then have un: "sale_line_qty \<le> ?tt + un" "0 \<le> un" by (auto simp: un_def)
    have s': "s' = (if 0 < q - min q ?tt \<and> 0 < un then
        restore_untraced c bid br p v (min (q - min q ?tt) un) cost mt rt rid user mat ?t else ?t)"
      using False by (simp add: s'_def restore_sale_line_inventory_def Let_def sum un_def)
    show ?thesis
    proof (cases "0 < q - min q ?tt \<and> 0 < un")
      case True
      have m: "min (q - min q ?tt) un = q - min q ?tt" using un assms(3) by (auto simp: min_def)
      have "restore_untraced c bid br p v (q - min q ?tt) cost mt rt rid user mat ?t = s'"
        using s' True m by simp
      from receive_layer_ok [OF _ _ _ this [unfolded restore_untraced_receives], of "\<lambda>_. 0"] P True
      have "reconciled s'" "posted_movement ?k (q - min q ?tt) ?t s'" by simp_all
      then show ?thesis using stock.post_balance [of ?k "q - min q ?tt" ?t s'] P sum by auto
    next
      case False
      then have "q = min q ?tt" using un assms(3) by (auto simp: min_def split: if_splits)
      moreover have "s' = ?t" using s' False by auto
      ultimately show ?thesis using P sum by simp
    qed
  qed
qed


definition sample_sold :: db where
  \<comment> \<open>sale line 70 took both units of layer 10 and one of the four of layer 11\<close>
  "sample_sold = (empty_db id)\<lparr>uuid_next := 100,
     purchase_lines := [sample_layer 10 10 2 5\<lparr>pl_qty_remaining := 0\<rparr>,
                        sample_layer 11 20 4 3\<lparr>pl_qty_remaining := 3\<rparr>],
     movements := [sample_movement 12 4 11, sample_movement 13 2 10,
       (sample_movement 14 (- 2) 10)\<lparr>sm_movement_type := StockMovementType_sale,
          sm_reference_type := ReferenceType_sale_line, sm_reference_id := 70, sm_movement_sequence := Some 0\<rparr>,
       (sample_movement 15 (- 1) 11)\<lparr>sm_movement_type := StockMovementType_sale,
          sm_reference_type := ReferenceType_sale_line, sm_reference_id := 70, sm_movement_sequence := Some 1\<rparr>]\<rparr>"

definition sample_return :: "decimal \<Rightarrow> db \<Rightarrow> db" where
  "sample_return q = restore_sale_line_inventory sample_clock 1 2 5 None 70 3 4 q
     StockMovementType_sale_return ReferenceType_sale_return_line 80 7 40"

lemmas sample_sold_simps = sample_sold_def sample_stock_def empty_db_def sample_layer_def
  sample_movement_def live_def

lemma sample_sold_ok: "reconciled sample_sold"
  by (auto simp: stock_ok_def sample_sold_simps keyed_def drawn_def traced_def layered_def layer_at_def
      layer_position_def position_of_def)


text \<open>
  Without the room hypothesis the two records drift apart. The unwind plan starts from the sale
  line's original consumptions every time, so a second partial return goes back to the newest
  layer although the first one already refilled it: the layer is capped at what it received, the
  movement is written in full, and the older layer stays short.
\<close>

lemma second_partial_return_drifts:
  "map pl_qty_remaining (purchase_lines (sample_return 1 (sample_return 1 sample_sold))) = [0, 4] \<and>
   traced (sample_return 1 (sample_return 1 sample_sold)) 11 = 5 \<and>
   \<not> reconciled (sample_return 1 (sample_return 1 sample_sold))"
proof -
  let ?s = "sample_return 1 (sample_return 1 sample_sold)"
  have r: "map pl_qty_remaining (purchase_lines ?s) = [0, 4]" "map row_id (purchase_lines ?s) = [10, 11]"
    "map deleted_at (purchase_lines ?s) = [None, None]" by code_simp+
  have t: "traced ?s 11 = 5" by code_simp
  have "\<not> reconciled ?s"
  proof
    assume ok: "reconciled ?s"
    obtain l m where ls: "purchase_lines ?s = [l, m]" using r(1) by (auto simp: map_eq_Cons_conv)
    then have "m \<in> set (purchase_lines ?s)" "live m" "row_id m = 11" "pl_qty_remaining m = 4"
      using r by (simp_all add: live_def)
    with stock_okD(4) [OF ok] t show False by fastforce
  qed
  with r t show ?thesis by simp
qed


end
