(* ===== verification/Settlement.thy ===== *)
theory Settlement
  imports Models
begin

text \<open>
  \<open>app/services/settlement.py\<close>: turning the tenders on a sale into the payments applied to it.
  Cash may exceed what is due and gives change; every other method must fit.
\<close>

record CreatePaymentRequest =
  pay_method :: PaymentMethodEnum
  pay_amount :: decimal
  pay_reference_no :: "string option"
  pay_paid_at :: "datetime option"

record AppliedPayment =
  ap_method :: PaymentMethodEnum
  ap_amount :: decimal
  ap_tendered :: decimal
  ap_change :: decimal
  ap_reference_no :: "string option"
  ap_paid_at :: "datetime option"

record Settlement =
  se_payments :: "AppliedPayment list"
  se_total_applied :: decimal
  se_change_given :: decimal
  se_credit_amount :: decimal

definition tender_step ::
  "CreatePaymentRequest \<Rightarrow> decimal \<times> decimal \<Rightarrow> (decimal \<times> decimal) res" where
  \<comment> \<open>the first loop: \<open>(non_cash, cash_tendered)\<close>\<close>
  "tender_step payment = (\<lambda>(non_cash, cash_tendered).
     if pay_amount payment \<le> 0 then bad_request ''Payment amounts must be greater than 0''
     else if pay_method payment = PaymentMethod_cash
       then Inr (non_cash, cash_tendered + pay_amount payment)
       else Inr (non_cash + pay_amount payment, cash_tendered))"

definition apply_step ::
  "CreatePaymentRequest \<Rightarrow> AppliedPayment list \<times> decimal \<times> nat option \<Rightarrow>
     AppliedPayment list \<times> decimal \<times> nat option" where
  \<comment> \<open>the second loop: \<open>(applied, cash_left, last_cash_index)\<close>\<close>
  "apply_step payment = (\<lambda>(applied, cash_left, last_cash_index).
     if pay_method payment \<noteq> PaymentMethod_cash then
       (applied @ [\<lparr>ap_method = pay_method payment, ap_amount = pay_amount payment,
                    ap_tendered = pay_amount payment, ap_change = 0,
                    ap_reference_no = pay_reference_no payment, ap_paid_at = pay_paid_at payment\<rparr>],
        cash_left, last_cash_index)
     else
       let take = min (pay_amount payment) cash_left;
           cash_left = cash_left - take
       in if take \<le> 0 then (applied, cash_left, last_cash_index)
          else
            (applied @ [\<lparr>ap_method = pay_method payment, ap_amount = take,
                         ap_tendered = pay_amount payment, ap_change = pay_amount payment - take,
                         ap_reference_no = pay_reference_no payment, ap_paid_at = pay_paid_at payment\<rparr>],
             cash_left, Some (length applied)))"

definition fold_extra_change ::
  "decimal \<Rightarrow> AppliedPayment list \<Rightarrow> nat option \<Rightarrow> AppliedPayment list" where
  "fold_extra_change change_total applied last_cash_index =
     (let accounted = sum_list (map ap_change applied)
      in case last_cash_index of
           None \<Rightarrow> applied
         | Some k \<Rightarrow>
             if accounted \<noteq> change_total then
               let last = applied ! k; extra = change_total - accounted
               in applied[k := last\<lparr>ap_tendered := ap_tendered last + extra,
                                    ap_change := ap_change last + extra\<rparr>]
             else applied)"

definition settle_payments ::
  "decimal \<Rightarrow> CreatePaymentRequest list \<Rightarrow> bool \<Rightarrow> Settlement res" where
  "settle_payments total_due payments require_payment =
     (if payments = [] then
        if require_payment \<and> 0 < total_due then bad_request ''At least one payment is required''
        else Inr \<lparr>se_payments = [], se_total_applied = 0, se_change_given = 0, se_credit_amount = 0\<rparr>
      else bind_res (fold_res tender_step payments (0, 0)) (\<lambda>(non_cash, cash_tendered).
        if total_due < non_cash then
          Inl (HTTPException 400 ''Non-cash payments ({}) exceed the amount due ({})''
                 [ADec non_cash, ADec total_due])
        else let cash_due = total_due - non_cash
        in if 0 < cash_tendered \<and> cash_due \<le> 0 then
             bad_request ''Cash was tendered but nothing is left to pay in cash''
        else
          let cash_applied_total = min cash_tendered cash_due;
              change_total = cash_tendered - cash_applied_total;
              (applied, cash_left, last_cash_index) =
                fold apply_step payments ([], cash_applied_total, None);
              applied = fold_extra_change change_total applied last_cash_index;
              total_applied = sum_list (map ap_amount applied);
              credit_amount =
                sum_list (map ap_amount (filter (\<lambda>p. ap_method p = PaymentMethod_credit) applied))
          in Inr \<lparr>se_payments = applied, se_total_applied = total_applied,
                  se_change_given = change_total, se_credit_amount = credit_amount\<rparr>))"

section \<open>What is tendered\<close>

abbreviation is_cash :: "CreatePaymentRequest \<Rightarrow> bool" where
  "is_cash p \<equiv> pay_method p = PaymentMethod_cash"

abbreviation cash_of :: "CreatePaymentRequest list \<Rightarrow> decimal" where
  "cash_of ps \<equiv> sum_where pay_amount is_cash ps"

abbreviation non_cash_of :: "CreatePaymentRequest list \<Rightarrow> decimal" where
  "non_cash_of ps \<equiv> sum_where pay_amount (\<lambda>p. \<not> is_cash p) ps"

lemma tender_loop:
  "fold_res tender_step ps (n, c) = Inr (n', c') \<longleftrightarrow>
     (\<forall>p\<in>set ps. 0 < pay_amount p) \<and> n' = n + non_cash_of ps \<and> c' = c + cash_of ps"
  by (induction ps arbitrary: n c) (auto simp: tender_step_def handler_simps)

lemma tender_loop_Inl:
  "fold_res tender_step ps (n, c) = Inl e \<longleftrightarrow>
     (\<exists>p\<in>set ps. pay_amount p \<le> 0) \<and> e = HTTPException 400 ''Payment amounts must be greater than 0'' []"
  by (induction ps arbitrary: n c) (auto simp: tender_step_def handler_simps)

lemma cash_plus_non_cash: "non_cash_of ps + cash_of ps = sum_list (map pay_amount ps)"
  by (induction ps) auto

section \<open>What is applied\<close>

text \<open>The state of the second loop after the tenders \<open>ps\<close>, started with \<open>left\<close> in cash to apply.\<close>

definition applied_ok ::
  "CreatePaymentRequest list \<Rightarrow> decimal \<Rightarrow> AppliedPayment list \<times> decimal \<times> nat option \<Rightarrow> bool" where
  "applied_ok ps start = (\<lambda>(ap, left, k).
     left = start - min (cash_of ps) start \<and>
     sum_list (map ap_amount ap) = non_cash_of ps + min (cash_of ps) start \<and>
     (\<forall>p\<in>set ap. 0 < ap_amount p \<and> 0 \<le> ap_change p \<and> ap_tendered p = ap_amount p + ap_change p \<and>
        (ap_method p \<noteq> PaymentMethod_cash \<longrightarrow> ap_change p = 0)) \<and>
     sum_list (map ap_change ap) \<le> cash_of ps - min (cash_of ps) start \<and>
     (case k of None \<Rightarrow> sum_list (map ap_change ap) = 0 \<and> (cash_of ps = 0 \<or> start = 0)
      | Some i \<Rightarrow> i < length ap \<and> ap_method (ap ! i) = PaymentMethod_cash) \<and>
     filter (\<lambda>p. ap_method p = PaymentMethod_credit) ap =
       map (\<lambda>p. \<lparr>ap_method = pay_method p, ap_amount = pay_amount p, ap_tendered = pay_amount p,
                  ap_change = 0, ap_reference_no = pay_reference_no p, ap_paid_at = pay_paid_at p\<rparr>)
         (filter (\<lambda>p. pay_method p = PaymentMethod_credit) ps))"

lemma cash_of_nonneg: "\<forall>p\<in>set ps. 0 < pay_amount p \<Longrightarrow> 0 \<le> cash_of ps"
  by (rule sum_where_nonneg) auto

lemma apply_step_ok:
  assumes "applied_ok ps start st" "0 < pay_amount p" "\<forall>p\<in>set ps. 0 < pay_amount p" "0 \<le> start"
  shows "applied_ok (ps @ [p]) start (apply_step p st)"
proof (cases "is_cash p")
  case False
  obtain ap left k where st: "st = (ap, left, k)" by (cases st) auto
  show ?thesis using assms False
    by (auto simp: st applied_ok_def apply_step_def nth_append split: option.splits)
next
  case True
  obtain ap left k where st: "st = (ap, left, k)" by (cases st) auto
  have c: "0 \<le> cash_of ps" using assms(3) by (rule cash_of_nonneg)
  have "left = start - min (cash_of ps) start" using assms(1) by (simp add: st applied_ok_def)
  then consider "left = 0" "start \<le> cash_of ps" | "0 < left" "left = start - cash_of ps" by linarith
  then show ?thesis
  proof cases
    case 1
    then show ?thesis using assms True
      by (auto simp: st applied_ok_def apply_step_def min_def split: option.splits)
  next
    case 2
    then have "0 < min (pay_amount p) left" using assms(2) by simp
    then show ?thesis using assms True 2 c
      by (auto simp: st applied_ok_def apply_step_def Let_def min_def split: option.splits)
  qed
qed

lemma apply_loop_ok:
  assumes "\<forall>p\<in>set ps. 0 < pay_amount p" "0 \<le> start"
  shows "applied_ok ps start (fold apply_step ps ([], start, None))"
  using assms
proof (induction ps rule: rev_induct)
  case Nil
  then show ?case by (simp add: applied_ok_def)
next
  case (snoc p ps)
  then show ?case by (simp add: apply_step_ok)
qed

lemma sum_list_map_update:
  fixes f :: "'a \<Rightarrow> rat"
  shows "k < length xs \<Longrightarrow> sum_list (map f (xs[k := y])) = sum_list (map f xs) + f y - f (xs ! k)"
  by (induction xs arbitrary: k) (auto split: nat.split)

lemma filter_update:
  "k < length xs \<Longrightarrow> \<not> P (xs ! k) \<Longrightarrow> \<not> P y \<Longrightarrow> filter P (xs[k := y]) = filter P xs"
  by (induction xs arbitrary: k) (auto split: nat.split)

lemma fold_extra_change_ok:
  assumes "applied_ok ps start (ap, left, k)" "0 \<le> start"
    and ct: "ct = cash_of ps - min (cash_of ps) start" and c0: "0 \<le> cash_of ps"
    and "0 < cash_of ps \<longrightarrow> 0 < start"
  defines "ap' \<equiv> fold_extra_change ct ap k"
  shows "sum_list (map ap_amount ap') = sum_list (map ap_amount ap)"
    and "sum_list (map ap_change ap') = ct"
    and "\<forall>p\<in>set ap'. 0 < ap_amount p \<and> 0 \<le> ap_change p \<and> ap_tendered p = ap_amount p + ap_change p \<and>
           (ap_method p \<noteq> PaymentMethod_cash \<longrightarrow> ap_change p = 0)"
    and "filter (\<lambda>p. ap_method p = PaymentMethod_credit) ap' = filter (\<lambda>p. ap_method p = PaymentMethod_credit) ap"
proof -
  have base: "\<forall>p\<in>set ap. 0 < ap_amount p \<and> 0 \<le> ap_change p \<and> ap_tendered p = ap_amount p + ap_change p \<and>
      (ap_method p \<noteq> PaymentMethod_cash \<longrightarrow> ap_change p = 0)"
    and le: "sum_list (map ap_change ap) \<le> ct"
    using assms(1) by (auto simp: applied_ok_def ct)
  have all: "sum_list (map ap_amount ap') = sum_list (map ap_amount ap) \<and>
    sum_list (map ap_change ap') = ct \<and>
    (\<forall>p\<in>set ap'. 0 < ap_amount p \<and> 0 \<le> ap_change p \<and> ap_tendered p = ap_amount p + ap_change p \<and>
       (ap_method p \<noteq> PaymentMethod_cash \<longrightarrow> ap_change p = 0)) \<and>
    filter (\<lambda>p. ap_method p = PaymentMethod_credit) ap' = filter (\<lambda>p. ap_method p = PaymentMethod_credit) ap"
  proof (cases k)
    case None
    then have "ct = 0" "sum_list (map ap_change ap) = 0"
      using assms(1,2,5) c0 by (auto simp: applied_ok_def ct min_def)
    then show ?thesis using base by (simp add: ap'_def fold_extra_change_def None)
  next
    case (Some i)
    then have i: "i < length ap" "ap_method (ap ! i) = PaymentMethod_cash"
      using assms(1) by (auto simp: applied_ok_def)
    define y where "y = (ap ! i)\<lparr>ap_tendered := ap_tendered (ap ! i) + (ct - sum_list (map ap_change ap)),
        ap_change := ap_change (ap ! i) + (ct - sum_list (map ap_change ap))\<rparr>"
    show ?thesis
    proof (cases "sum_list (map ap_change ap) = ct")
      case True
      then show ?thesis using base by (simp add: ap'_def fold_extra_change_def Some)
    next
      case False
      then have ap': "ap' = ap[i := y]"
        by (simp add: ap'_def fold_extra_change_def Some y_def Let_def)
      have y: "0 < ap_amount y \<and> 0 \<le> ap_change y \<and> ap_tendered y = ap_amount y + ap_change y \<and>
          (ap_method y \<noteq> PaymentMethod_cash \<longrightarrow> ap_change y = 0)" "ap_method y = PaymentMethod_cash"
          "ap_amount y = ap_amount (ap ! i)"
          "ap_change y = ap_change (ap ! i) + (ct - sum_list (map ap_change ap))"
        using base i le nth_mem [OF i(1)] by (auto simp: y_def)
      have "set ap' \<subseteq> insert y (set ap)" unfolding ap' by (rule set_update_subset_insert)
      then show ?thesis using base y i
        by (auto simp: ap' sum_list_map_update filter_update)
    qed
  qed
  show "sum_list (map ap_amount ap') = sum_list (map ap_amount ap)"
    "sum_list (map ap_change ap') = ct" using all by blast+
  show "\<forall>p\<in>set ap'. 0 < ap_amount p \<and> 0 \<le> ap_change p \<and> ap_tendered p = ap_amount p + ap_change p \<and>
           (ap_method p \<noteq> PaymentMethod_cash \<longrightarrow> ap_change p = 0)" using all by blast
  show "filter (\<lambda>p. ap_method p = PaymentMethod_credit) ap' = filter (\<lambda>p. ap_method p = PaymentMethod_credit) ap"
    using all by blast
qed

section \<open>The settlement\<close>

lemma settle_payments_Inr:
  assumes "settle_payments due ps req = Inr s" "ps \<noteq> []"
  shows "(\<forall>p\<in>set ps. 0 < pay_amount p) \<and> non_cash_of ps \<le> due \<and> (0 < cash_of ps \<longrightarrow> non_cash_of ps < due) \<and>
    se_total_applied s = min due (sum_list (map pay_amount ps)) \<and>
    se_change_given s = sum_list (map pay_amount ps) - se_total_applied s \<and>
    se_credit_amount s = sum_where pay_amount (\<lambda>p. pay_method p = PaymentMethod_credit) ps \<and>
    sum_list (map ap_amount (se_payments s)) = se_total_applied s \<and>
    sum_list (map ap_change (se_payments s)) = se_change_given s \<and>
    (\<forall>p\<in>set (se_payments s). 0 < ap_amount p \<and> 0 \<le> ap_change p \<and>
        ap_tendered p = ap_amount p + ap_change p \<and>
        (ap_method p \<noteq> PaymentMethod_cash \<longrightarrow> ap_change p = 0))"
proof -
  have pos: "\<forall>p\<in>set ps. 0 < pay_amount p" and nc: "non_cash_of ps \<le> due"
    and cd: "0 < cash_of ps \<longrightarrow> non_cash_of ps < due"
    using assms by (auto simp: settle_payments_def handler_simps tender_loop Let_def not_less not_le)
  let ?start = "min (cash_of ps) (due - non_cash_of ps)"
  have c0: "0 \<le> cash_of ps" using pos by (rule cash_of_nonneg)
  then have s0: "0 \<le> ?start" using nc by simp
  obtain ap left k where L: "fold apply_step ps ([], ?start, None) = (ap, left, k)"
    by (metis prod_cases3)
  have ok: "applied_ok ps ?start (ap, left, k)" using apply_loop_ok [OF pos s0] by (simp add: L)
  have start: "min (cash_of ps) ?start = ?start" by simp
  have s: "s = \<lparr>se_payments = fold_extra_change (cash_of ps - ?start) ap k,
        se_total_applied = sum_list (map ap_amount (fold_extra_change (cash_of ps - ?start) ap k)),
        se_change_given = cash_of ps - ?start,
        se_credit_amount = sum_list (map ap_amount (filter (\<lambda>p. ap_method p = PaymentMethod_credit)
           (fold_extra_change (cash_of ps - ?start) ap k)))\<rparr>"
    using assms by (auto simp: settle_payments_def handler_simps tender_loop Let_def L split: if_splits)
  note E = fold_extra_change_ok [OF ok s0, unfolded start, OF refl c0]
  have E5: "0 < cash_of ps \<longrightarrow> 0 < ?start" using cd by simp
  have tot: "sum_list (map ap_amount ap) = non_cash_of ps + ?start"
    using ok by (simp add: applied_ok_def start)
  have cr: "sum_list (map ap_amount (filter (\<lambda>p. ap_method p = PaymentMethod_credit) ap)) =
      sum_where pay_amount (\<lambda>p. pay_method p = PaymentMethod_credit) ps"
    using ok by (simp add: applied_ok_def comp_def sum_where_def)
  have m: "non_cash_of ps + ?start = min due (sum_list (map pay_amount ps))"
    by (simp add: min_def flip: cash_plus_non_cash)
  have "se_total_applied s = min due (sum_list (map pay_amount ps))"
    "se_change_given s = sum_list (map pay_amount ps) - se_total_applied s"
    "se_credit_amount s = sum_where pay_amount (\<lambda>p. pay_method p = PaymentMethod_credit) ps"
    "sum_list (map ap_amount (se_payments s)) = se_total_applied s"
    "sum_list (map ap_change (se_payments s)) = se_change_given s"
    using E(1,2,4) [OF E5] tot cr m by (simp_all add: s flip: cash_plus_non_cash)
  moreover have "\<forall>p\<in>set (se_payments s). 0 < ap_amount p \<and> 0 \<le> ap_change p \<and>
        ap_tendered p = ap_amount p + ap_change p \<and>
        (ap_method p \<noteq> PaymentMethod_cash \<longrightarrow> ap_change p = 0)"
    using E(3) [OF E5] by (simp add: s)
  ultimately show ?thesis using pos nc cd by blast
qed

text \<open>
  C15. Settling a bill with at least one tender succeeds exactly when every tender is positive, the
  tenders other than cash fit in the bill and cash is only tendered if some of the bill is left
  for it. The settlement then applies the smaller of the bill and the tenders, gives the rest
  back as change, and its payments account for both: each records what was handed over as the
  amount applied plus its change, and only cash has change.
\<close>

theorem settle_payments_correct:
  assumes "ps \<noteq> []"
  shows "(case settle_payments due ps req of
       Inl e \<Rightarrow> (\<exists>p\<in>set ps. pay_amount p \<le> 0) \<or> due < non_cash_of ps \<or>
                (0 < cash_of ps \<and> due \<le> non_cash_of ps)
     | Inr s \<Rightarrow> (\<forall>p\<in>set ps. 0 < pay_amount p) \<and> non_cash_of ps \<le> due \<and>
                (0 < cash_of ps \<longrightarrow> non_cash_of ps < due) \<and>
                se_total_applied s = min due (sum_list (map pay_amount ps)) \<and>
                se_change_given s = sum_list (map pay_amount ps) - se_total_applied s \<and>
                se_credit_amount s = sum_where pay_amount (\<lambda>p. pay_method p = PaymentMethod_credit) ps \<and>
                sum_list (map ap_amount (se_payments s)) = se_total_applied s \<and>
                sum_list (map ap_change (se_payments s)) = se_change_given s \<and>
                (\<forall>p\<in>set (se_payments s). 0 < ap_amount p \<and> 0 \<le> ap_change p \<and>
                   ap_tendered p = ap_amount p + ap_change p \<and>
                   (ap_method p \<noteq> PaymentMethod_cash \<longrightarrow> ap_change p = 0)))"
proof (cases "settle_payments due ps req")
  case (Inl e)
  have "(\<exists>p\<in>set ps. pay_amount p \<le> 0) \<or> due < non_cash_of ps \<or> (0 < cash_of ps \<and> due \<le> non_cash_of ps)"
    using Inl assms
    by (auto simp: settle_payments_def handler_simps tender_loop tender_loop_Inl Let_def
      split: if_splits prod.splits)
  then show ?thesis by (simp add: Inl)
next
  case (Inr s)
  show ?thesis unfolding Inr sum.case by (rule settle_payments_Inr [OF Inr assms])
qed

lemma settle_payments_none:
  "settle_payments due [] req =
     (if req \<and> 0 < due then bad_request ''At least one payment is required''
      else Inr \<lparr>se_payments = [], se_total_applied = 0, se_change_given = 0, se_credit_amount = 0\<rparr>)"
  by (simp add: settle_payments_def)

definition sample_tenders :: "CreatePaymentRequest list" where
  "sample_tenders =
     [\<lparr>pay_method = PaymentMethod_cash, pay_amount = 5, pay_reference_no = None, pay_paid_at = None\<rparr>,
      \<lparr>pay_method = PaymentMethod_credit, pay_amount = 6, pay_reference_no = None, pay_paid_at = None\<rparr>,
      \<lparr>pay_method = PaymentMethod_cash, pay_amount = 5, pay_reference_no = None, pay_paid_at = None\<rparr>,
      \<lparr>pay_method = PaymentMethod_cash, pay_amount = 2, pay_reference_no = None, pay_paid_at = None\<rparr>]"

lemma settle_payments_correct_witness:
  "(\<exists>s. settle_payments 12 sample_tenders True = Inr s \<and>
      se_total_applied s = 12 \<and> se_change_given s = 6 \<and> se_credit_amount s = 6)"
proof -
  have "sample_tenders \<noteq> []" by (simp add: sample_tenders_def)
  from settle_payments_correct [OF this, of 12 True] show ?thesis
    by (auto simp: sample_tenders_def split: sum.splits)
qed

end
