(* ===== verification/Sales.thy ===== *)
theory Sales
  imports Catalog Reconcile Settlement "HOL-Library.AList"
begin

text \<open>
  \<open>app/services/sale_service.py\<close>: pricing a sale and recording it. A sale allocates every line
  from the cost layers, writes the sale with its lines and payments, posts each payment to the
  shift's register and each line to the stock ledger, and puts what is bought on account on the
  customer's ledger. Voiding and cancelling are in \<open>Voids\<close>.
\<close>

section \<open>Requests and responses\<close>

record CreateSaleRequest =
  cs_branch_id :: uuid
  cs_register_shift_id :: "uuid option"
  cs_customer_id :: "uuid option"
  cs_sale_type :: SaleTypeEnum
  cs_price_list_id :: "uuid option"
  cs_discount_scheme_id :: "uuid option"
  cs_notes :: "string option"
  cs_sold_at :: "datetime option"
  cs_lines :: "CreateSaleLineRequest list"
  cs_payments :: "CreatePaymentRequest list"

definition valid_sale_request :: "CreateSaleRequest \<Rightarrow> bool" where
  \<comment> \<open>the validators of \<open>CreateSaleRequest\<close>, its lines and its payments\<close>
  "valid_sale_request data \<longleftrightarrow> cs_lines data \<noteq> [] \<and> (\<forall>l\<in>set (cs_lines data). valid_sale_line l) \<and>
     (\<forall>p\<in>set (cs_payments data). 0 < pay_amount p)"

record SalePricePreviewLineResponse =
  spl_product_id :: uuid
  spl_variation_id :: "uuid option"
  spl_qty :: decimal
  spl_unit_price :: decimal
  spl_line_order :: int
  spl_line_subtotal :: decimal
  spl_discount_pct :: decimal
  spl_discount_amount :: decimal
  spl_tax_rate :: decimal
  spl_tax_amount :: decimal
  spl_line_total :: decimal

record SalePricePreviewResponse =
  spp_discount_scheme_id :: "uuid option"
  spp_subtotal :: decimal
  spp_total_discount :: decimal
  spp_total_tax :: decimal
  spp_total_amount :: decimal
  spp_lines :: "SalePricePreviewLineResponse list"

section \<open>Pricing a sale\<close>

definition verify_discount_scheme :: "clock \<Rightarrow> db \<Rightarrow> uuid \<Rightarrow> uuid \<Rightarrow> discount_scheme res" where
  "verify_discount_scheme c s scheme_id bid =
     bind_res (require_one (HTTPException 400 ''Discount scheme not found or inactive'' [])
       (filter (\<lambda>r. row_id r = scheme_id \<and> business_id r = bid \<and> live r \<and> ds_is_active r)
          (discount_schemes s))) (\<lambda>scheme.
     if (case ds_valid_from scheme of None \<Rightarrow> False | Some t \<Rightarrow> now c < t)
     then bad_request ''Discount scheme is not yet valid''
     else if (case ds_valid_to scheme of None \<Rightarrow> False | Some t \<Rightarrow> t < now c)
     then bad_request ''Discount scheme has expired''
     else Inr scheme)"

definition APPLY_DISCOUNT_PERMISSION :: string where
  "APPLY_DISCOUNT_PERMISSION = ''sales.apply_discount''"

definition OVERRIDE_PRICE_PERMISSION :: string where
  "OVERRIDE_PRICE_PERMISSION = ''sales.override_price''"

definition permission_required :: "string \<Rightarrow> 'a res" where
  "permission_required p = Inl (HTTPException 403 ''Permission required: {}'' [AStr p])"

definition enforce_sale_pricing_permissions ::
  "db \<Rightarrow> uuid \<Rightarrow> CreateSaleRequest \<Rightarrow> string set \<Rightarrow> unit res" where
  "enforce_sale_pricing_permissions s bid data permission_keys =
     (if (\<exists>line\<in>set (cs_lines data). has_manual_discount line) \<and>
         APPLY_DISCOUNT_PERMISSION \<notin> permission_keys
      then permission_required APPLY_DISCOUNT_PERMISSION
      else if OVERRIDE_PRICE_PERMISSION \<notin> permission_keys then
        check_each (\<lambda>line.
          bind_res (get_product_price s bid (li_product_id line) (li_variation_id line)
                      (cs_price_list_id data)) (\<lambda>catalog_price.
            case catalog_price of
              None \<Rightarrow> Inr ()
            | Some p \<Rightarrow>
                if invoice_round2 (li_unit_price line) \<noteq> invoice_round2 p
                then permission_required OVERRIDE_PRICE_PERMISSION else Inr ())) (cs_lines data)
      else Inr ())"

definition product_category_by_id :: "db \<Rightarrow> uuid \<Rightarrow> uuid list \<Rightarrow> (uuid \<rightharpoonup> uuid option)" where
  "product_category_by_id s bid product_ids =
     map_of (rev (map (\<lambda>p. (row_id p, p_category_id p))
       (filter (\<lambda>p. row_id p \<in> set product_ids \<and> business_id p = bid) (products s))))"

definition scheme_discounts ::
  "clock \<Rightarrow> db \<Rightarrow> uuid \<Rightarrow> CreateSaleRequest \<Rightarrow> line_discount list option res" where
  "scheme_discounts c s bid data =
     (case cs_discount_scheme_id data of
        None \<Rightarrow> Inr None
      | Some scheme_id \<Rightarrow>
          bind_res (verify_discount_scheme c s scheme_id bid) (\<lambda>scheme.
          bind_res (apply_discount_scheme scheme (cs_lines data)
             (product_category_by_id s bid (map li_product_id (cs_lines data)))) (\<lambda>ds. Inr (Some ds))))"

definition verify_line_products :: "db \<Rightarrow> uuid \<Rightarrow> CreateSaleLineRequest \<Rightarrow> unit res" where
  "verify_line_products s bid line =
     bind_res (verify_product s (li_product_id line) bid) (\<lambda>_.
       case li_variation_id line of
         None \<Rightarrow> Inr ()
       | Some v \<Rightarrow> bind_res (verify_variation s v (li_product_id line) bid) (\<lambda>_. Inr ()))"

definition line_amounts :: "CreateSaleLineRequest \<times> line_discount option \<times> decimal \<Rightarrow> line_calc" where
  "line_amounts = (\<lambda>(line, scheme_inputs, rate).
     let (discount_pct, discount_amount) = merge_line_discount_inputs line scheme_inputs
     in calculate_line_total (li_qty line) (li_unit_price line) discount_pct discount_amount rate)"

definition preview_line ::
  "CreateSaleLineRequest \<times> line_discount option \<times> decimal \<Rightarrow> SalePricePreviewLineResponse" where
  "preview_line = (\<lambda>(line, scheme_inputs, rate).
     let amounts = line_amounts (line, scheme_inputs, rate)
     in \<lparr>spl_product_id = li_product_id line, spl_variation_id = li_variation_id line,
         spl_qty = li_qty line, spl_unit_price = li_unit_price line, spl_line_order = li_line_order line,
         spl_line_subtotal = lc_line_subtotal amounts, spl_discount_pct = li_discount_pct line,
         spl_discount_amount = lc_effective_discount amounts, spl_tax_rate = rate,
         spl_tax_amount = lc_tax_amount amounts, spl_line_total = lc_line_total amounts\<rparr>)"

definition line_inputs ::
  "CreateSaleLineRequest list \<Rightarrow> line_discount list option \<Rightarrow> decimal list \<Rightarrow>
     (CreateSaleLineRequest \<times> line_discount option \<times> decimal) list" where
  \<comment> \<open>what iteration \<open>line_index\<close> of the pricing loop reads\<close>
  "line_inputs lines scheme_line_discounts rates =
     map (\<lambda>(i, line). (line, map_option (\<lambda>ds. ds ! i) scheme_line_discounts, rates ! i))
       (enumerate 0 lines)"

definition compute_sale_pricing ::
  "clock \<Rightarrow> db \<Rightarrow> uuid \<Rightarrow> CreateSaleRequest \<Rightarrow> string set \<Rightarrow> SalePricePreviewResponse res" where
  "compute_sale_pricing c s bid data permission_keys =
     bind_res (verify_branch s (cs_branch_id data) bid) (\<lambda>_.
     bind_res (enforce_sale_pricing_permissions s bid data permission_keys) (\<lambda>_.
     bind_res (scheme_discounts c s bid data) (\<lambda>scheme_line_discounts.
     bind_res (check_each (verify_line_products s bid) (cs_lines data)) (\<lambda>_.
       let rates = resolve_line_tax_rates s bid (cs_lines data) permission_keys;
           inputs = line_inputs (cs_lines data) scheme_line_discounts rates;
           totals = calculate_sale_totals (map line_amounts inputs)
       in Inr \<lparr>spp_discount_scheme_id = cs_discount_scheme_id data,
               spp_subtotal = t_subtotal totals, spp_total_discount = t_total_discount totals,
               spp_total_tax = t_total_tax totals, spp_total_amount = t_total_amount totals,
               spp_lines = map preview_line inputs\<rparr>))))"

section \<open>Stock on hand\<close>

type_synonym item = "uuid \<times> uuid option"

definition demand_of :: "(item \<times> decimal) list \<Rightarrow> (item \<times> decimal) list" where
  \<comment> \<open>a dict from item to quantity, in insertion order\<close>
  "demand_of lines = fold (\<lambda>(key, qty) demand.
     AList.update key (or_else (map_of demand key) 0 + qty) demand) lines []"

definition assert_stock_available :: "db \<Rightarrow> uuid \<Rightarrow> uuid \<Rightarrow> (item \<times> decimal) list \<Rightarrow> unit res" where
  "assert_stock_available s bid branch_id lines =
     check_each (\<lambda>((product_id, variation_id), qty).
       if \<not> check_sufficient_stock s bid branch_id product_id variation_id qty then
         bind_res (verify_product s product_id bid) (\<lambda>product.
           Inl (HTTPException 400 ''Insufficient stock for {}'' [AStr (p_name product)]))
       else Inr ()) (demand_of lines)"

definition line_item :: "CreateSaleLineRequest \<Rightarrow> item" where
  "line_item l = (li_product_id l, li_variation_id l)"

section \<open>Recording a sale\<close>

record line_snapshot =
  sn_line_data :: CreateSaleLineRequest
  sn_cost_per_unit :: decimal
  sn_consumptions :: "FifoLayerConsumption list"
  sn_short_qty :: decimal
  sn_consumed_from_layers_qty :: decimal
  sn_effective_discount :: decimal
  sn_tax_rate :: decimal
  sn_tax_amount :: decimal

definition allocate_line ::
  "clock \<Rightarrow> uuid \<Rightarrow> uuid \<Rightarrow> CreateSaleLineRequest \<times> SalePricePreviewLineResponse \<Rightarrow>
     line_snapshot list \<times> db \<Rightarrow> line_snapshot list \<times> db" where
  "allocate_line c bid branch_id = (\<lambda>(line, preview) (snapshots, s).
     let ((cost_per_unit, consumptions, short_qty), s) =
           allocate_sale_line_fifo c bid branch_id (li_product_id line) (li_variation_id line) (li_qty line) s
     in (snapshots @ [\<lparr>sn_line_data = line, sn_cost_per_unit = cost_per_unit,
                       sn_consumptions = consumptions, sn_short_qty = short_qty,
                       sn_consumed_from_layers_qty = li_qty line - short_qty,
                       sn_effective_discount = spl_discount_amount preview,
                       sn_tax_rate = spl_tax_rate preview, sn_tax_amount = spl_tax_amount preview\<rparr>], s))"

definition add_sale_line ::
  "clock \<Rightarrow> uuid \<Rightarrow> uuid \<Rightarrow> uuid \<Rightarrow> line_snapshot \<Rightarrow> sale_line list \<times> db \<Rightarrow> sale_line list \<times> db" where
  "add_sale_line c bid user sale_id snapshot = (\<lambda>(created, s).
     let line = sn_line_data snapshot;
         (i, s) = fresh_uuid s;
         sale_line = new_row i bid (Some user) (now c)
           \<lparr>sln_sale_id = sale_id, sln_product_id = li_product_id line,
            sln_variation_id = li_variation_id line, sln_qty = li_qty line,
            sln_unit_price = li_unit_price line, sln_discount_pct = li_discount_pct line,
            sln_discount_amount = sn_effective_discount snapshot, sln_tax_rate = sn_tax_rate snapshot,
            sln_tax_amount = sn_tax_amount snapshot, sln_cost_per_unit = sn_cost_per_unit snapshot,
            sln_cost_estimated = (0 < sn_short_qty snapshot), sln_notes = li_notes line,
            sln_line_order = li_line_order line\<rparr>
     in (created @ [sale_line], s\<lparr>sale_lines := sale_lines s @ [sale_line]\<rparr>))"

definition add_payment ::
  "clock \<Rightarrow> uuid \<Rightarrow> uuid \<Rightarrow> uuid \<Rightarrow> uuid \<Rightarrow> AppliedPayment \<Rightarrow> db \<Rightarrow> db" where
  "add_payment c bid user sale_id shift_id applied s =
     (let paid_at = or_else (ap_paid_at applied) (now c);
          (i, s) = fresh_uuid s;
          payment = new_row i bid (Some user) (now c)
            \<lparr>sp_sale_id = sale_id, sp_payment_method = ap_method applied, sp_amount = ap_amount applied,
             sp_tendered_amount = Some (ap_tendered applied), sp_change_given = ap_change applied,
             sp_status = PaymentStatus_completed, sp_reference_no = ap_reference_no applied,
             sp_paid_at = paid_at\<rparr>;
          s = s\<lparr>sale_payments := sale_payments s @ [payment]\<rparr>
      in snd (add_register_tx c bid shift_id RegisterTxType_sale (sp_payment_method payment)
                (ap_amount applied) (Some ReferenceType_sale) (Some sale_id) None paid_at user s))"

definition fallback_cost :: "FifoLayerConsumption list \<Rightarrow> decimal" where
  \<comment> \<open>the cost of the last slice that no layer backs\<close>
  "fallback_cost consumptions =
     (case filter (\<lambda>x. fc_purchase_line_id x = None) (rev consumptions) of
        [] \<Rightarrow> 0 | x # _ \<Rightarrow> fc_cost_per_unit x)"

definition issue_line ::
  "clock \<Rightarrow> uuid \<Rightarrow> uuid \<Rightarrow> uuid \<Rightarrow> datetime \<Rightarrow> sale_line \<times> line_snapshot \<Rightarrow> db \<Rightarrow> db res" where
  "issue_line c bid branch_id user sold_at = (\<lambda>(sale_line, snapshot) s.
     let s = create_sale_line_stock_movements c bid branch_id (sln_product_id sale_line)
               (sln_variation_id sale_line) (row_id sale_line) (sn_consumptions snapshot) user sold_at s
     in if 0 < sn_short_qty snapshot then
          maybe_notify_fifo_shortfall c bid branch_id (sln_product_id sale_line)
            (sln_variation_id sale_line) (row_id sale_line) (sln_qty sale_line)
            (sn_consumed_from_layers_qty snapshot) (sn_short_qty snapshot)
            (fallback_cost (sn_consumptions snapshot)) (Some user) s
        else Inr s)"

definition check_credit :: "db \<Rightarrow> uuid \<Rightarrow> uuid option \<Rightarrow> decimal \<Rightarrow> unit res" where
  "check_credit s bid customer_id credit_amount =
     (if 0 < credit_amount then
        (case customer_id of
           None \<Rightarrow> bad_request ''customer_id is required for credit payments''
         | Some cu \<Rightarrow> assert_credit_available s bid cu credit_amount)
      else Inr ())"

definition charge_account ::
  "clock \<Rightarrow> uuid \<Rightarrow> uuid \<Rightarrow> uuid option \<Rightarrow> uuid \<Rightarrow> decimal \<Rightarrow> db \<Rightarrow> db" where
  "charge_account c bid user customer_id sale_id credit_amount s =
     (case customer_id of
        None \<Rightarrow> s
      | Some cu \<Rightarrow>
          if 0 < credit_amount then
            snd (create_ledger_entry c bid cu LedgerEntryType_sale (- credit_amount) user
                   (Some ReferenceType_sale) (Some sale_id) None s)
          else s)"

definition add_sale ::
  "clock \<Rightarrow> uuid \<Rightarrow> CreateSaleRequest \<Rightarrow> uuid \<Rightarrow> uuid \<Rightarrow> string \<Rightarrow> SaleStatusEnum \<Rightarrow> db \<Rightarrow> sale \<times> db" where
  "add_sale c bid data user shift_id sale_number sale_status s =
     (let (i, s) = fresh_uuid s;
          sl = new_row i bid (Some user) (now c)
            \<lparr>s_branch_id = cs_branch_id data, s_customer_id = cs_customer_id data,
             s_register_shift_id = Some shift_id, s_price_list_id = cs_price_list_id data,
             s_sale_number = sale_number, s_sale_type = cs_sale_type data, s_status = sale_status,
             s_sold_at = or_else (cs_sold_at data) (now c), s_notes = cs_notes data,
             s_discount_scheme_id = cs_discount_scheme_id data, s_table_id = None,
             s_client_receipt_no = None, s_sync_flags = [], s_is_offline = False,
             s_client_created_at = None,
              s_device_id = None, s_synced_at = None\<rparr>
      in (sl, s\<lparr>sales := sales s @ [sl]\<rparr>))"

definition write_sale ::
  "clock \<Rightarrow> uuid \<Rightarrow> CreateSaleRequest \<Rightarrow> uuid \<Rightarrow> uuid \<Rightarrow> SalePricePreviewResponse \<Rightarrow> Settlement \<Rightarrow>
     db \<Rightarrow> (sale \<times> db) res" where
  \<comment> \<open>what \<open>create_sale\<close> does once every check has passed\<close>
  "write_sale c bid data user shift_id pricing settlement s =
     (let (sale_number, s) = generate_document_number c bid ''INV'' s;
          (snapshots, s) = fold (allocate_line c bid (cs_branch_id data))
             (zip (cs_lines data) (spp_lines pricing)) ([], s);
          sale_status = determine_sale_status (spp_total_amount pricing) (se_total_applied settlement);
          (sl, s) = add_sale c bid data user shift_id sale_number sale_status s;
          (created, s) = fold (add_sale_line c bid user (row_id sl)) snapshots ([], s);
          s = fold (add_payment c bid user (row_id sl) shift_id) (se_payments settlement) s
      in bind_res (fold_res (issue_line c bid (cs_branch_id data) user (or_else (cs_sold_at data) (now c)))
                     (zip created snapshots) s) (\<lambda>s.
         Inr (sl, charge_account c bid user (cs_customer_id data) (row_id sl) (se_credit_amount settlement) s)))"

definition create_sale ::
  "clock \<Rightarrow> uuid \<Rightarrow> CreateSaleRequest \<Rightarrow> uuid \<Rightarrow> string set \<Rightarrow> db \<Rightarrow> (sale \<times> db) res" where
  \<comment> \<open>the last step, \<open>get_sale_by_id\<close>, reads the new row back\<close>
  "create_sale c bid data user permission_keys s =
     bind_res (get_allow_negative_stock s bid) (\<lambda>allow_negative.
     bind_res (require_caller_shift s bid user (Some (cs_branch_id data)) (cs_register_shift_id data)
                 ''record a sale'') (\<lambda>shift.
     bind_res (case cs_customer_id data of
                 None \<Rightarrow> Inr ()
               | Some cu \<Rightarrow> bind_res (get_customer_by_id s cu bid) (\<lambda>_. Inr ())) (\<lambda>_.
     bind_res (compute_sale_pricing c s bid data permission_keys) (\<lambda>pricing.
     bind_res (settle_payments (spp_total_amount pricing) (cs_payments data) True) (\<lambda>settlement.
     bind_res (check_credit s bid (cs_customer_id data) (se_credit_amount settlement)) (\<lambda>_.
     bind_res (if allow_negative then Inr ()
               else assert_stock_available s bid (cs_branch_id data)
                      (map (\<lambda>l. (line_item l, li_qty l)) (cs_lines data))) (\<lambda>_.
       write_sale c bid data user (row_id shift) pricing settlement s)))))))"

section \<open>What each phase does\<close>

definition item_at :: "uuid \<Rightarrow> uuid \<Rightarrow> item \<Rightarrow> position" where
  "item_at bid branch_id i = (bid, branch_id, fst i, snd i)"

definition snapshot_ok :: "purchase_line list \<Rightarrow> uuid \<Rightarrow> uuid \<Rightarrow> line_snapshot \<Rightarrow> bool" where
  "snapshot_ok ls bid br sn \<longleftrightarrow>
     (\<forall>x\<in>set (sn_consumptions sn). layered ls (item_at bid br (line_item (sn_line_data sn))) (fc_purchase_line_id x)) \<and>
     sum_list (map fc_qty (sn_consumptions sn)) = li_qty (sn_line_data sn)"

definition pending :: "line_snapshot list \<Rightarrow> uuid \<Rightarrow> decimal" where
  "pending sns i = sum_list (map (\<lambda>sn. taken (sn_consumptions sn) i) sns)"

lemma pending_simps [simp]:
  "pending [] = (\<lambda>_. 0)" "pending (sn # sns) i = taken (sn_consumptions sn) i + pending sns i"
  "pending (sns @ sns') i = pending sns i + pending sns' i"
  by (simp_all add: pending_def fun_eq_iff)

lemma allocate_lines:
  assumes "fold (allocate_line c bid br) ps (sns, s) = (sns', s')"
    and "\<forall>(l, p)\<in>set ps. 0 \<le> li_qty l" "stock_ok (pending sns) s" "\<forall>sn\<in>set sns. snapshot_ok (purchase_lines s) bid br sn"
  shows "stock_ok (pending sns') s' \<and> (\<forall>sn\<in>set sns'. snapshot_ok (purchase_lines s') bid br sn) \<and>
    s' = s\<lparr>purchase_lines := purchase_lines s'\<rparr> \<and>
    map sn_line_data sns' = map sn_line_data sns @ map fst ps"
  using assms
proof (induction ps arbitrary: sns s)
  case Nil
  then show ?case by simp
next
  case (Cons a ps)
  obtain l p where a: "a = (l, p)" by fastforce
  obtain w cs sh t where t: "allocate_sale_line_fifo c bid br (li_product_id l) (li_variation_id l) (li_qty l) s
      = ((w, cs, sh), t)" by (metis prod_cases3 surj_pair)
  define sn where "sn = \<lparr>sn_line_data = l, sn_cost_per_unit = w, sn_consumptions = cs, sn_short_qty = sh,
      sn_consumed_from_layers_qty = li_qty l - sh, sn_effective_discount = spl_discount_amount p,
      sn_tax_rate = spl_tax_rate p, sn_tax_amount = spl_tax_amount p\<rparr>"
  have rest: "fold (allocate_line c bid br) ps (sns @ [sn], t) = (sns', s')"
    using Cons.prems(1) by (simp add: a allocate_line_def t sn_def)
  have q: "0 \<le> li_qty l" using Cons.prems(2) by (simp add: a)
  note A = allocate_sale_line_fifo_ok [OF Cons.prems(3) q t]
  have sh: "shifted (\<lambda>i. - taken cs i) (purchase_lines s) (purchase_lines t)" using A by blast
  have "(\<lambda>i. pending sns i + taken cs i) = pending (sns @ [sn])" by (auto simp: sn_def)
  then have ok: "stock_ok (pending (sns @ [sn])) t" using A by simp
  have snaps: "\<forall>sn'\<in>set (sns @ [sn]). snapshot_ok (purchase_lines t) bid br sn'"
    using A Cons.prems(4)
    by (auto simp: snapshot_ok_def shifted_layered [OF sh] sn_def item_at_def line_item_def simp del: split_paired_All)
  have "\<forall>(l, p)\<in>set ps. 0 \<le> li_qty l" using Cons.prems(2) by simp
  note IH = Cons.IH [OF rest this ok snaps]
  have f: "t = s\<lparr>purchase_lines := purchase_lines t\<rparr>" "s' = t\<lparr>purchase_lines := purchase_lines s'\<rparr>"
    using A IH by blast+
  have "s' = s\<lparr>purchase_lines := purchase_lines s'\<rparr>"
    by (subst f(2), subst f(1)) simp
  with IH show ?case by (simp add: a sn_def)
qed

lemma add_sale_eq:
  assumes "add_sale c bid data user sh n st s = (sl, s')"
  shows "s' = s\<lparr>uuid_next := Suc (uuid_next s), sales := sales s @ [sl]\<rparr>" "live sl" "business_id sl = bid"
    "row_id sl = uuid_gen s (uuid_next s)" "s_branch_id sl = cs_branch_id data"
    "s_customer_id sl = cs_customer_id data" "s_register_shift_id sl = Some sh" "s_status sl = st"
    "s_sale_number sl = n" "s_sale_type sl = cs_sale_type data"
  using assms by (auto simp: add_sale_def fresh_uuid_def Let_def live_def)

definition line_of_snapshot :: "uuid \<Rightarrow> uuid \<Rightarrow> line_snapshot \<Rightarrow> sale_line \<Rightarrow> bool" where
  "line_of_snapshot bid sale_id sn l \<longleftrightarrow> live l \<and> business_id l = bid \<and> sln_sale_id l = sale_id \<and>
     (sln_product_id l, sln_variation_id l) = line_item (sn_line_data sn) \<and>
     sln_qty l = li_qty (sn_line_data sn) \<and> sln_unit_price l = li_unit_price (sn_line_data sn) \<and>
     sln_discount_amount l = sn_effective_discount sn \<and> sln_tax_amount l = sn_tax_amount sn"

lemma add_sale_lines:
  assumes "fold (add_sale_line c bid user i) sns (ls, s) = (ls', s')"
  shows "\<exists>new. ls' = ls @ new \<and> list_all2 (line_of_snapshot bid i) sns new \<and>
    s' = s\<lparr>uuid_next := uuid_next s + length sns, sale_lines := sale_lines s @ new\<rparr> \<and>
    map row_id new = map (uuid_gen s) [uuid_next s ..< uuid_next s + length sns]"
  using assms
proof (induction sns arbitrary: ls s)
  case Nil
  then show ?case by simp
next
  case (Cons sn sns)
  obtain l t where t: "add_sale_line c bid user i sn (ls, s) = (ls @ [l], t)"
    and E: "t = s\<lparr>uuid_next := Suc (uuid_next s), sale_lines := sale_lines s @ [l]\<rparr>"
    and l: "line_of_snapshot bid i sn l" "row_id l = uuid_gen s (uuid_next s)"
    by (simp add: add_sale_line_def fresh_uuid_def Let_def line_of_snapshot_def line_item_def live_def)
  have "fold (add_sale_line c bid user i) sns (ls @ [l], t) = (ls', s')"
    using Cons.prems t by simp
  from Cons.IH [OF this] obtain new where new: "ls' = (ls @ [l]) @ new" "list_all2 (line_of_snapshot bid i) sns new"
    "s' = t\<lparr>uuid_next := uuid_next t + length sns, sale_lines := sale_lines t @ new\<rparr>"
    "map row_id new = map (uuid_gen t) [uuid_next t ..< uuid_next t + length sns]" by blast
  have "[uuid_next s ..< uuid_next s + length (sn # sns)] =
      uuid_next s # [Suc (uuid_next s) ..< Suc (uuid_next s) + length sns]"
    by (subst upt_rec) simp
  with new l show ?case by (intro exI [of _ "l # new"]) (simp add: E)
qed

definition payment_of :: "uuid \<Rightarrow> uuid \<Rightarrow> AppliedPayment \<Rightarrow> sale_payment \<Rightarrow> bool" where
  "payment_of bid sale_id ap p \<longleftrightarrow> live p \<and> business_id p = bid \<and> sp_sale_id p = sale_id \<and>
     sp_payment_method p = ap_method ap \<and> sp_amount p = ap_amount ap \<and>
     sp_change_given p = ap_change ap \<and> sp_tendered_amount p = Some (ap_tendered ap) \<and>
     sp_status p = PaymentStatus_completed"

definition cash_part :: "AppliedPayment \<Rightarrow> decimal" where
  \<comment> \<open>what an applied payment leaves in the drawer\<close>
  "cash_part ap = (if ap_method ap = PaymentMethod_cash then ap_amount ap else 0)"

lemma add_payments:
  assumes "fold (add_payment c bid user i sh) aps s = s'"
  shows "\<exists>new txs. list_all2 (payment_of bid i) aps new \<and>
    s' = s\<lparr>uuid_next := uuid_next s + 2 * length aps, sale_payments := sale_payments s @ new,
      register_txs := register_txs s @ txs\<rparr> \<and>
    drawer.run (map (\<lambda>ap. ((bid, sh), cash_part ap)) aps) s s'"
  using assms
proof (induction aps arbitrary: s)
  case Nil
  then show ?case by (intro exI [of _ "[]"]) simp
next
  case (Cons ap aps)
  define p where "p = (new_row (uuid_gen s (uuid_next s)) bid (Some user) (now c)
            \<lparr>sp_sale_id = i, sp_payment_method = ap_method ap, sp_amount = ap_amount ap,
             sp_tendered_amount = Some (ap_tendered ap), sp_change_given = ap_change ap,
             sp_status = PaymentStatus_completed, sp_reference_no = ap_reference_no ap,
             sp_paid_at = or_else (ap_paid_at ap) (now c)\<rparr> :: sale_payment)"
  let ?s = "s\<lparr>uuid_next := Suc (uuid_next s), sale_payments := sale_payments s @ [p]\<rparr>"
  obtain tx t where tx: "add_register_tx c bid sh RegisterTxType_sale (sp_payment_method p) (ap_amount ap)
      (Some ReferenceType_sale) (Some i) None (or_else (ap_paid_at ap) (now c)) user ?s = (tx, t)"
    by fastforce
  have t: "add_payment c bid user i sh ap s = t"
    using tx by (simp add: add_payment_def fresh_uuid_def Let_def p_def)
  have E: "t = s\<lparr>uuid_next := Suc (Suc (uuid_next s)), sale_payments := sale_payments s @ [p],
      register_txs := register_txs s @ [tx]\<rparr>"
    using add_register_tx_eq(1) [OF tx] by simp
  have "cash_effect tx = cash_part ap"
    using add_register_tx_eq [OF tx] by (simp add: cash_effect_def cash_part_def p_def)
  then have post: "posted_tx (bid, sh) (cash_part ap) s t"
    using add_register_tx_posts [OF tx] by (simp add: posted_tx_def)
  have "fold (add_payment c bid user i sh) aps t = s'" using Cons.prems t by simp
  from Cons.IH [OF this] obtain new txs where new: "list_all2 (payment_of bid i) aps new"
    "s' = t\<lparr>uuid_next := uuid_next t + 2 * length aps, sale_payments := sale_payments t @ new,
      register_txs := register_txs t @ txs\<rparr>"
    "drawer.run (map (\<lambda>ap. ((bid, sh), cash_part ap)) aps) t s'" by blast
  have "payment_of bid i ap p" by (simp add: payment_of_def p_def live_def)
  with new post show ?case
    by (intro exI [of _ "p # new"] exI [of _ "tx # txs"]) (auto simp: E)
qed

lemma maybe_notify_fifo_shortfall_frame:
  assumes "maybe_notify_fifo_shortfall c bid br p v i q cq sq fc user s = Inr s'"
  shows "\<exists>ns. s' = s\<lparr>uuid_next := uuid_next s', notifications := ns\<rparr> \<and> uuid_next s \<le> uuid_next s'"
proof -
  consider "s' = s" | ns where "s' = s\<lparr>uuid_next := Suc (uuid_next s), notifications := ns\<rparr>"
    using assms
    by (auto simp: maybe_notify_fifo_shortfall_def handler_simps create_notification_def fresh_uuid_def
        Let_def split: if_splits)
  then show ?thesis
  proof cases
    case 1
    then show ?thesis by (intro exI [of _ "notifications s"]) simp
  next
    case (2 ns)
    then show ?thesis by (intro exI [of _ ns]) simp
  qed
qed

lemma issue_lines:
  assumes "fold_res (issue_line c bid br user sold_at) (zip ls sns) s = Inr s'"
    and "list_all2 (line_of_snapshot bid i) sns ls" "stock_ok (\<lambda>i. d i + pending sns i) s"
    and "\<forall>sn\<in>set sns. snapshot_ok (purchase_lines s) bid br sn"
  shows "stock_ok d s' \<and>
    (\<forall>k. stock_at s' k = stock_at s k -
       sum_where (\<lambda>sn. li_qty (sn_line_data sn)) (\<lambda>sn. item_at bid br (line_item (sn_line_data sn)) = k) sns) \<and>
    (\<exists>ms ns n. s' = s\<lparr>uuid_next := n, movements := ms, notifications := ns\<rparr>)"
  using assms(2,1,3,4)
proof (induction arbitrary: s d rule: list_all2_induct)
  case Nil
  then show ?case by (auto intro!: exI [of _ "movements s"] exI [of _ "notifications s"] exI [of _ "uuid_next s"])
next
  case (Cons sn sns l ls)
  let ?k = "item_at bid br (line_item (sn_line_data sn))" and ?cs = "sn_consumptions sn"
  have k: "?k = (bid, br, sln_product_id l, sln_variation_id l)"
    using Cons.hyps(1) by (auto simp: line_of_snapshot_def item_at_def line_item_def)
  define t where "t = fold (slice_movement c bid br (sln_product_id l) (sln_variation_id l) StockMovementType_sale
      ReferenceType_sale_line (row_id l) user sold_at None None None) (enumerate 0 ?cs) s"
  obtain u where u: "issue_line c bid br user sold_at (l, sn) s = Inr u"
    and rest: "fold_res (issue_line c bid br user sold_at) (zip ls sns) u = Inr s'"
    using Cons.prems(1) by (auto simp: bind_res_Inr)
  have "\<exists>ns. u = t\<lparr>uuid_next := uuid_next u, notifications := ns\<rparr> \<and> uuid_next t \<le> uuid_next u"
    using u by (auto simp: issue_line_def create_sale_line_stock_movements_def t_def [symmetric] Let_def
        dest: maybe_notify_fifo_shortfall_frame split: if_splits intro: exI [of _ "notifications t"])
  then obtain ns where U: "u = t\<lparr>uuid_next := uuid_next u, notifications := ns\<rparr>" "uuid_next t \<le> uuid_next u"
    by blast
  have lay: "\<forall>x\<in>set ?cs. layered (purchase_lines s) (bid, br, sln_product_id l, sln_variation_id l) (fc_purchase_line_id x)"
    using Cons.prems(3) by (simp add: snapshot_ok_def k)
  note M = slice_movements_ok [OF Cons.prems(2) lay t_def [symmetric]]
  have T: "t = s\<lparr>uuid_next := uuid_next t, movements := movements t\<rparr>" using M by blast
  have q: "sum_list (map fc_qty ?cs) = li_qty (sn_line_data sn)" using Cons.prems(3) by (simp add: snapshot_ok_def)
  have "(\<lambda>i. d i + pending (sn # sns) i - taken ?cs i) = (\<lambda>i. d i + pending sns i)" by auto
  then have ok: "stock_ok (\<lambda>i. d i + pending sns i) t" using M by simp
  have same: "purchase_lines u = purchase_lines t" "movements u = movements t" "uuid_gen u = uuid_gen t"
    by (subst U(1), simp)+
  have ok: "stock_ok (\<lambda>i. d i + pending sns i) u"
    by (rule stock_ok_frame [OF ok same drawn_le]) (use same U(2) in auto)
  have "purchase_lines u = purchase_lines s" unfolding same(1) by (subst T) simp
  then have "\<forall>sn\<in>set sns. snapshot_ok (purchase_lines u) bid br sn" using Cons.prems(3) by simp
  note IH = Cons.IH [OF rest ok this]
  have run: "stock.run (map (\<lambda>x. (?k, - fc_qty x)) ?cs) s t" using M by (simp add: k)
  have bal: "stock_at u k' = stock_at s k' - (if k' = ?k then li_qty (sn_line_data sn) else 0)" for k'
    using run_slices [OF run, of k'] same(2) by (simp add: q stock_at_sum)
  obtain ms' ns' n' where F: "s' = u\<lparr>uuid_next := n', movements := ms', notifications := ns'\<rparr>" using IH by blast
  have "s' = s\<lparr>uuid_next := n', movements := ms', notifications := ns'\<rparr>"
    by (subst F, subst U(1), subst T) simp
  then show ?case using IH bal by auto
qed

section \<open>A recorded sale\<close>

lemma charge_account_eq:
  assumes "charge_account c bid user cu i a s = s'"
  shows "\<exists>es n. s' = s\<lparr>uuid_next := n, customer_ledgers := es\<rparr> \<and> uuid_next s \<le> n"
    "customer_account s' k = customer_account s k - (if 0 < a \<and> cu = Some (snd k) \<and> fst k = bid then a else 0)"
proof -
  have "\<exists>es n. s' = s\<lparr>uuid_next := n, customer_ledgers := es\<rparr> \<and> uuid_next s \<le> n \<and>
      customer_account s' k = customer_account s k - (if 0 < a \<and> cu = Some (snd k) \<and> fst k = bid then a else 0)"
  proof (cases "cu \<noteq> None \<and> 0 < a")
    case True
    then obtain x where x: "cu = Some x" by blast
    obtain e where e: "create_ledger_entry c bid x LedgerEntryType_sale (- a) user (Some ReferenceType_sale)
        (Some i) None s = (e, s')"
      using assms True by (simp add: charge_account_def x) (metis prod.collapse)
    have "customer_account s' k = customer_account s k + (if k = (bid, x) then - a else 0)"
      by (rule accounts.post_balance [OF create_ledger_entry_posts [OF e]])
    moreover have "(0 < a \<and> cu = Some (snd k) \<and> fst k = bid) = (k = (bid, x))"
      using True x by (cases k) auto
    ultimately show ?thesis using create_ledger_entry_eq(1) [OF e]
      by (intro exI [of _ "customer_ledgers s @ [e]"] exI [of _ "Suc (uuid_next s)"]) simp
  next
    case False
    then have "s' = s" using assms by (auto simp: charge_account_def split: option.splits)
    moreover have "\<not> (0 < a \<and> cu = Some (snd k) \<and> fst k = bid)" using False by auto
    ultimately show ?thesis
      by (intro exI [of _ "customer_ledgers s"] exI [of _ "uuid_next s"]) simp
  qed
  then show "\<exists>es n. s' = s\<lparr>uuid_next := n, customer_ledgers := es\<rparr> \<and> uuid_next s \<le> n"
    "customer_account s' k = customer_account s k - (if 0 < a \<and> cu = Some (snd k) \<and> fst k = bid then a else 0)"
    by blast+
qed

lemma sum_where_map: "sum_where f P (map g xs) = sum_where (f \<circ> g) (P \<circ> g) xs"
  by (induction xs) auto

lemma run_cash:
  assumes "drawer.run (map (\<lambda>ap. (k, cash_part ap)) aps) s s'"
  shows "drawer s' k' = drawer s k' + (if k' = k then sum_list (map cash_part aps) else 0)"
proof -
  have "sum_where snd (\<lambda>e. fst e = k') (map (\<lambda>ap. (k, cash_part ap)) aps)
      = (if k' = k then sum_list (map cash_part aps) else 0)"
    by (induction aps) auto
  then show ?thesis using drawer.run_balance [OF assms, of k'] by simp
qed

definition sale_recorded ::
  "uuid \<Rightarrow> CreateSaleRequest \<Rightarrow> uuid \<Rightarrow> Settlement \<Rightarrow> db \<Rightarrow> sale \<Rightarrow> db \<Rightarrow> bool" where
  \<comment> \<open>stock, accounts, drawers and rows after the sale \<open>sl\<close> was written\<close>
  "sale_recorded bid data sh se s sl s' \<longleftrightarrow>
     (\<forall>k. stock_at s' k = stock_at s k -
        sum_where li_qty (\<lambda>l. item_at bid (cs_branch_id data) (line_item l) = k) (cs_lines data)) \<and>
     (\<forall>k. customer_account s' k = customer_account s k -
        (if 0 < se_credit_amount se \<and> cs_customer_id data = Some (snd k) \<and> fst k = bid
         then se_credit_amount se else 0)) \<and>
     (\<forall>k. drawer s' k = drawer s k + (if k = (bid, sh) then sum_list (map cash_part (se_payments se)) else 0)) \<and>
     sales s' = sales s @ [sl] \<and>
     (\<exists>ps. sale_payments s' = sale_payments s @ ps \<and> list_all2 (payment_of bid (row_id sl)) (se_payments se) ps)"

lemma write_sale_Inr:
  assumes "write_sale c bid data user sh pricing se s = Inr (sl, s')" "reconciled s"
    and "\<forall>l\<in>set (cs_lines data). 0 \<le> li_qty l" "length (spp_lines pricing) = length (cs_lines data)"
  shows "reconciled s' \<and> sale_recorded bid data sh se s sl s' \<and>
    live sl \<and> business_id sl = bid \<and> s_register_shift_id sl = Some sh \<and> s_customer_id sl = cs_customer_id data \<and>
    s_status sl = determine_sale_status (spp_total_amount pricing) (se_total_applied se)"
proof -
  let ?br = "cs_branch_id data" and ?P = "zip (cs_lines data) (spp_lines pricing)"
  let ?st = "determine_sale_status (spp_total_amount pricing) (se_total_applied se)"
  obtain n s1 where s1: "generate_document_number c bid ''INV'' s = (n, s1)" by fastforce
  obtain sns s2 where s2: "fold (allocate_line c bid ?br) ?P ([], s1) = (sns, s2)" by fastforce
  obtain sl' s3 where s3: "add_sale c bid data user sh n ?st s2 = (sl', s3)" by fastforce
  obtain ls s4 where s4: "fold (add_sale_line c bid user (row_id sl')) sns ([], s3) = (ls, s4)" by fastforce
  define s5 where "s5 = fold (add_payment c bid user (row_id sl') sh) (se_payments se) s4"
  obtain s6 where s6: "fold_res (issue_line c bid ?br user (or_else (cs_sold_at data) (now c))) (zip ls sns) s5 = Inr s6"
    and sl: "sl = sl'" and s': "charge_account c bid user (cs_customer_id data) (row_id sl) (se_credit_amount se) s6 = s'"
    using assms(1) unfolding write_sale_def Let_def s1 prod.case s2 s3 s4 s5_def [symmetric]
    by (auto simp: bind_res_Inr)
  note F1 = generate_document_number_frame [OF s1]
  have e1: "purchase_lines s1 = purchase_lines s" "movements s1 = movements s" "uuid_gen s1 = uuid_gen s"
    "sales s1 = sales s" "sale_lines s1 = sale_lines s" "sale_payments s1 = sale_payments s"
    "register_txs s1 = register_txs s" "customer_ledgers s1 = customer_ledgers s"
    by (subst F1(1), simp)+
  have ok1: "stock_ok (pending []) s1"
    using stock_ok_frame [OF assms(2) e1(1-3) drawn_le [OF e1(3) F1(2)]] by simp
  have q: "\<forall>(l, p)\<in>set ?P. 0 \<le> li_qty l" using assms(3) by (auto dest: set_zip_leftD)
  have "\<forall>sn\<in>set []. snapshot_ok (purchase_lines s1) bid ?br sn" by simp
  note A = allocate_lines [OF s2 q ok1 this]
  have F2: "s2 = s1\<lparr>purchase_lines := purchase_lines s2\<rparr>" using A by blast
  have e2: "movements s2 = movements s1" "uuid_gen s2 = uuid_gen s1" "uuid_next s2 = uuid_next s1"
    "sales s2 = sales s1" "sale_lines s2 = sale_lines s1" "sale_payments s2 = sale_payments s1"
    "register_txs s2 = register_txs s1" "customer_ledgers s2 = customer_ledgers s1"
    by (subst F2, simp)+
  have data: "map sn_line_data sns = cs_lines data" using A assms(4) by (simp add: map_fst_zip)
  note F3 = add_sale_eq [OF s3]
  obtain new where L: "ls = [] @ new" "list_all2 (line_of_snapshot bid (row_id sl')) sns new"
    "s4 = s3\<lparr>uuid_next := uuid_next s3 + length sns, sale_lines := sale_lines s3 @ new\<rparr>"
    using add_sale_lines [OF s4] by blast
  obtain ps txs where P: "list_all2 (payment_of bid (row_id sl')) (se_payments se) ps"
    "s5 = s4\<lparr>uuid_next := uuid_next s4 + 2 * length (se_payments se), sale_payments := sale_payments s4 @ ps,
      register_txs := register_txs s4 @ txs\<rparr>"
    "drawer.run (map (\<lambda>ap. ((bid, sh), cash_part ap)) (se_payments se)) s4 s5"
    using add_payments [OF s5_def [symmetric]] by blast
  have e5: "purchase_lines s5 = purchase_lines s2" "movements s5 = movements s2" "uuid_gen s5 = uuid_gen s2"
    "uuid_next s2 \<le> uuid_next s5" "sales s5 = sales s @ [sl]" "sale_payments s5 = sale_payments s @ ps"
    "customer_ledgers s5 = customer_ledgers s" "register_txs s4 = register_txs s"
    by (simp_all add: P(2) L(3) F3(1) e2 e1 sl)
  have "stock_ok (pending sns) s2" using A by blast
  from stock_ok_frame [OF this e5(1-3) drawn_le [OF e5(3,4)]]
  have ok5: "stock_ok (\<lambda>i. 0 + pending sns i) s5" by simp
  have ls: "list_all2 (line_of_snapshot bid (row_id sl')) sns ls" using L(1,2) by simp
  have "\<forall>sn\<in>set sns. snapshot_ok (purchase_lines s5) bid ?br sn" using A e5(1) by simp
  note I = issue_lines [OF s6 ls ok5 this, THEN conjunct1]
    issue_lines [OF s6 ls ok5 this, THEN conjunct2, THEN conjunct1, THEN spec]
    issue_lines [OF s6 ls ok5 this, THEN conjunct2, THEN conjunct2]
  obtain ms ns m where F6: "s6 = s5\<lparr>uuid_next := m, movements := ms, notifications := ns\<rparr>" using I(3) by blast
  note C = charge_account_eq [OF s']
  obtain es m' where F7: "s' = s6\<lparr>uuid_next := m', customer_ledgers := es\<rparr>" "uuid_next s6 \<le> m'" using C(1) by blast
  have e7: "purchase_lines s' = purchase_lines s6" "movements s' = movements s6" "uuid_gen s' = uuid_gen s6"
    "sales s' = sales s6" "sale_payments s' = sale_payments s6" "register_txs s' = register_txs s6"
    "uuid_next s6 \<le> uuid_next s'"
    by (simp_all add: F7)
  have "reconciled s'" by (rule stock_ok_frame [OF I(1) e7(1-3) drawn_le [OF e7(3,7)]])
  moreover have "stock_at s' k = stock_at s k - sum_where li_qty (\<lambda>l. item_at bid ?br (line_item l) = k) (cs_lines data)" for k
    using I(2) [of k] unfolding data [symmetric] sum_where_map
    by (simp add: stock_at_sum e7(2) e5(2) e2(1) e1(2) comp_def)
  moreover have "customer_account s6 k = customer_account s k" for k
    by (simp add: customer_account_def F6 e5(7))
  moreover have "drawer s' k = drawer s k + (if k = (bid, sh) then sum_list (map cash_part (se_payments se)) else 0)" for k
    using run_cash [OF P(3), of k] by (simp add: drawer_def e7(6) F6 e5(8))
  moreover have "sales s' = sales s @ [sl]" "sale_payments s' = sale_payments s @ ps"
    by (simp_all add: e7 F6 e5)
  ultimately show ?thesis
    unfolding sale_recorded_def using C(2) P(1) F3 sl by auto
qed

lemma demand_fold:
  "map_of (fold (\<lambda>(key, qty) demand. AList.update key (or_else (map_of demand key) 0 + qty) demand) ls d) k =
     (if k \<in> fst ` set ls then Some (or_else (map_of d k) 0 + sum_where snd (\<lambda>e. fst e = k) ls) else map_of d k)"
proof (induction ls arbitrary: d)
  case (Cons e ls)
  obtain key q where e: "e = (key, q)" by fastforce
  have "sum_where snd (\<lambda>e. fst e = k) ls = 0" if "k \<notin> fst ` set ls"
    using that by (intro sum_where_none) (auto simp: image_iff)
  with Cons show ?case by (auto simp: e update_conv')
qed simp

lemma demand_of_map:
  "map_of (demand_of ls) k =
     (if k \<in> fst ` set ls then Some (sum_where snd (\<lambda>e. fst e = k) ls) else None)"
  by (simp add: demand_of_def demand_fold)

lemma assert_stock_available_Inr:
  assumes "assert_stock_available s bid br ls = Inr u" "k \<in> fst ` set ls"
  shows "sum_where snd (\<lambda>e. fst e = k) ls \<le> stock_at s (item_at bid br k)"
proof -
  have "(k, sum_where snd (\<lambda>e. fst e = k) ls) \<in> set (demand_of ls)"
    using demand_of_map [of ls k] assms(2) by (auto dest: map_of_SomeD)
  with assms(1) show ?thesis
    by (cases k) (fastforce simp: assert_stock_available_def check_each_Inr check_sufficient_stock_def
        stock_at_def item_at_def bind_res_Inr split: if_splits)
qed

lemma create_sale_Inr:
  assumes "create_sale c bid data user keys s = Inr (sl, s')"
  obtains allow sh pricing se where "get_allow_negative_stock s bid = Inr allow"
    "require_caller_shift s bid user (Some (cs_branch_id data)) (cs_register_shift_id data) ''record a sale'' = Inr sh"
    "compute_sale_pricing c s bid data keys = Inr pricing"
    "settle_payments (spp_total_amount pricing) (cs_payments data) True = Inr se"
    "check_credit s bid (cs_customer_id data) (se_credit_amount se) = Inr ()"
    "\<not> allow \<longrightarrow> assert_stock_available s bid (cs_branch_id data)
       (map (\<lambda>l. (line_item l, li_qty l)) (cs_lines data)) = Inr ()"
    "write_sale c bid data user (row_id sh) pricing se s = Inr (sl, s')"
  using assms unfolding create_sale_def bind_res_Inr by (auto split: if_splits) blast?

lemma compute_sale_pricing_Inr:
  assumes "compute_sale_pricing c s bid data keys = Inr pricing"
  obtains ds where "enforce_sale_pricing_permissions s bid data keys = Inr ()"
    "scheme_discounts c s bid data = Inr ds"
    "pricing = (let inputs = line_inputs (cs_lines data) ds (resolve_line_tax_rates s bid (cs_lines data) keys);
         totals = calculate_sale_totals (map line_amounts inputs)
       in \<lparr>spp_discount_scheme_id = cs_discount_scheme_id data,
           spp_subtotal = t_subtotal totals, spp_total_discount = t_total_discount totals,
           spp_total_tax = t_total_tax totals, spp_total_amount = t_total_amount totals,
           spp_lines = map preview_line inputs\<rparr>)"
    "length (spp_lines pricing) = length (cs_lines data)"
  using assms unfolding compute_sale_pricing_def bind_res_Inr
  by (auto simp: Let_def line_inputs_def)


text \<open>
  C20. A business that does not allow negative stock never sells below zero: after an accepted
  sale, however its lines repeat an item, the balance of every item sold is still nonnegative.
\<close>

theorem create_sale_never_oversells:
  assumes "create_sale c bid data user keys s = Inr (sl, s')" "reconciled s" "valid_sale_request data"
    and "get_allow_negative_stock s bid = Inr False" "l \<in> set (cs_lines data)"
  shows "0 \<le> get_stock_balance s' bid (cs_branch_id data) (li_product_id l) (li_variation_id l)"
proof -
  let ?k = "item_at bid (cs_branch_id data) (line_item l)"
  let ?ls = "map (\<lambda>l. (line_item l, li_qty l)) (cs_lines data)"
  obtain allow pricing se and sh :: register_shift where a: "get_allow_negative_stock s bid = Inr allow"
    and p: "compute_sale_pricing c s bid data keys = Inr pricing"
    and av: "\<not> allow \<longrightarrow> assert_stock_available s bid (cs_branch_id data) ?ls = Inr ()"
    and w: "write_sale c bid data user (row_id sh) pricing se s = Inr (sl, s')"
    using assms(1) by (rule create_sale_Inr)
  have st: "assert_stock_available s bid (cs_branch_id data) ?ls = Inr ()"
    using a assms(4) av by simp
  have len: "length (spp_lines pricing) = length (cs_lines data)"
    using p by (rule compute_sale_pricing_Inr)
  have q: "\<forall>l\<in>set (cs_lines data). 0 \<le> li_qty l"
    using assms(3) by (auto simp: valid_sale_request_def valid_sale_line_def less_imp_le)
  have "stock_at s' ?k = stock_at s ?k -
      sum_where li_qty (\<lambda>x. item_at bid (cs_branch_id data) (line_item x) = ?k) (cs_lines data)"
    using write_sale_Inr [OF w assms(2) q len] unfolding sale_recorded_def by blast
  moreover have "sum_where li_qty (\<lambda>x. item_at bid (cs_branch_id data) (line_item x) = ?k) (cs_lines data)
      = sum_where snd (\<lambda>e. fst e = line_item l) ?ls"
    unfolding sum_where_map by (intro sum_where_cong) (auto simp: item_at_def prod_eq_iff)
  moreover have "sum_where snd (\<lambda>e. fst e = line_item l) ?ls \<le> stock_at s ?k"
    using assms(5) by (intro assert_stock_available_Inr [OF st]) force
  ultimately have "0 \<le> stock_at s' ?k" by simp
  then show ?thesis by (simp add: stock_at_def item_at_def line_item_def)
qed

definition sample_store :: db where
  \<comment> \<open>six units of product 5 in branch 2, cashier 9 with shift 6 open\<close>
  "sample_store = sample_warehouse\<lparr>branches := [sample_branch], products := [sample_product],
     shifts := [sample_shift], customers := [sample_customer]\<rparr>"

definition sample_line :: "decimal \<Rightarrow> CreateSaleLineRequest" where
  "sample_line q = \<lparr>li_product_id = 5, li_variation_id = None, li_qty = q, li_unit_price = 10,
     li_discount_pct = 0, li_discount_amount = 0, li_tax_rate = None, li_notes = None,
     li_line_order = 0, li_modifier_ids = []\<rparr>"

definition sample_sale :: CreateSaleRequest where
  \<comment> \<open>three units for 30, paid with 20 in cash and 10 on account\<close>
  "sample_sale = \<lparr>cs_branch_id = 2, cs_register_shift_id = None, cs_customer_id = Some 8,
     cs_sale_type = SaleType_pos, cs_price_list_id = None, cs_discount_scheme_id = None,
     cs_notes = None, cs_sold_at = None, cs_lines = [sample_line 2, sample_line 1],
     cs_payments =
       [\<lparr>pay_method = PaymentMethod_cash, pay_amount = 25, pay_reference_no = None, pay_paid_at = None\<rparr>,
        \<lparr>pay_method = PaymentMethod_credit, pay_amount = 10, pay_reference_no = None, pay_paid_at = None\<rparr>]\<rparr>"

lemma sample_store_ok: "reconciled sample_store"
  by (rule stock_ok_frame [OF sample_warehouse_ok]) (simp_all add: sample_store_def drawn_def)

section \<open>Nothing fails once the checks have passed\<close>

lemma slice_movements_products: "products (fold (slice_movement c bid br p v mt rt rid user mat bat ex notes) xs s) = products s"
  by (induction xs arbitrary: s)
    (auto simp: slice_movement_def create_stock_movement_def fresh_uuid_def Let_def split: prod.splits)

lemma issue_line_total:
  assumes "\<exists>x. verify_product s (sln_product_id l) bid = Inr x"
  shows "\<exists>s'. issue_line c bid br user sold_at (l, sn) s = Inr s' \<and> products s' = products s"
proof -
  define t where "t = create_sale_line_stock_movements c bid br (sln_product_id l) (sln_variation_id l)
      (row_id l) (sn_consumptions sn) user sold_at s"
  have p: "products t = products s" by (simp add: t_def create_sale_line_stock_movements_def slice_movements_products)
  then obtain x where "verify_product t (sln_product_id l) bid = Inr x"
    using assms by (auto simp: verify_product_def)
  then show ?thesis
    by (auto simp: issue_line_def t_def [symmetric] maybe_notify_fifo_shortfall_def create_notification_def
        fresh_uuid_def Let_def p)
qed

lemma issue_lines_total:
  assumes "\<forall>l\<in>set ls. \<exists>x. verify_product s (sln_product_id l) bid = Inr x"
  shows "\<exists>s'. fold_res (issue_line c bid br user sold_at) (zip ls sns) s = Inr s'"
  using assms
proof (induction ls arbitrary: s sns)
  case (Cons l ls)
  show ?case
  proof (cases sns)
    case (Cons sn sns')
    obtain t where "issue_line c bid br user sold_at (l, sn) s = Inr t" "products t = products s"
      using issue_line_total Cons.prems by fastforce
    then show ?thesis using Cons.IH [of t sns'] Cons.prems Cons by (simp add: verify_product_def)
  qed simp
qed simp

lemma consume_fifo_layers_products:
  "consume_fifo_layers c bid br p v q s = (sl, short, s') \<Longrightarrow> products s' = products s"
  by (auto simp: consume_fifo_layers_def Let_def split: if_splits prod.splits)

lemma allocate_line_step:
  assumes "allocate_line c bid br (l, p) (sns, s) = (sns', s')"
  shows "products s' = products s" "\<exists>sn. sns' = sns @ [sn] \<and> sn_line_data sn = l"
  using assms
  by (auto simp: allocate_line_def allocate_sale_line_fifo_def Let_def dest: consume_fifo_layers_products
      split: prod.splits)

lemma allocate_lines_products:
  "fold (allocate_line c bid br) ps (sns, s) = (sns', s') \<Longrightarrow>
     products s' = products s \<and> map sn_line_data sns' = map sn_line_data sns @ map fst ps"
proof (induction ps arbitrary: sns s)
  case (Cons a ps)
  obtain l p where a: "a = (l, p)" by fastforce
  obtain sns1 s1 where s1: "allocate_line c bid br (l, p) (sns, s) = (sns1, s1)" by fastforce
  with Cons.prems have "fold (allocate_line c bid br) ps (sns1, s1) = (sns', s')" by (simp add: a)
  from Cons.IH [OF this] allocate_line_step [OF s1] show ?case by (auto simp: a)
qed simp

lemma list_all2_right: "list_all2 P xs ys \<Longrightarrow> y \<in> set ys \<Longrightarrow> \<exists>x\<in>set xs. P x y"
  by (induction rule: list_all2_induct) auto

lemma write_sale_total:
  assumes "\<forall>l\<in>set (cs_lines data). \<exists>x. verify_product s (li_product_id l) bid = Inr x"
    and "length (spp_lines pricing) = length (cs_lines data)"
  shows "\<exists>sl s'. write_sale c bid data user sh pricing se s = Inr (sl, s')"
proof -
  let ?br = "cs_branch_id data" and ?P = "zip (cs_lines data) (spp_lines pricing)"
  let ?st = "determine_sale_status (spp_total_amount pricing) (se_total_applied se)"
  obtain n s1 where s1: "generate_document_number c bid ''INV'' s = (n, s1)" by fastforce
  obtain sns s2 where s2: "fold (allocate_line c bid ?br) ?P ([], s1) = (sns, s2)" by fastforce
  obtain sl s3 where s3: "add_sale c bid data user sh n ?st s2 = (sl, s3)" by fastforce
  obtain ls s4 where s4: "fold (add_sale_line c bid user (row_id sl)) sns ([], s3) = (ls, s4)" by fastforce
  define s5 where "s5 = fold (add_payment c bid user (row_id sl) sh) (se_payments se) s4"
  have "products s1 = products s" by (subst generate_document_number_frame(1) [OF s1]) simp
  moreover have "products s2 = products s1" and items: "map sn_line_data sns = cs_lines data"
    using allocate_lines_products [OF s2] assms(2) by (simp_all add: map_fst_zip)
  moreover have "products s3 = products s2" by (simp add: add_sale_eq(1) [OF s3])
  moreover obtain new where new: "ls = [] @ new" "list_all2 (line_of_snapshot bid (row_id sl)) sns new"
    "s4 = s3\<lparr>uuid_next := uuid_next s3 + length sns, sale_lines := sale_lines s3 @ new\<rparr>"
    using add_sale_lines [OF s4] by blast
  moreover have "products s5 = products s4" using add_payments [OF s5_def [symmetric]] by auto
  ultimately have p: "products s5 = products s" by simp
  have "\<exists>x. verify_product s5 (sln_product_id l) bid = Inr x" if "l \<in> set ls" for l
  proof -
    obtain sn where "sn \<in> set sns" "line_of_snapshot bid (row_id sl) sn l"
      using list_all2_right [OF new(2), of l] \<open>l \<in> set ls\<close> new(1) by auto
    then have "sln_product_id l = li_product_id (sn_line_data sn)" "sn_line_data sn \<in> set (cs_lines data)"
      by (auto simp: line_of_snapshot_def line_item_def simp flip: items)
    then show ?thesis using assms(1) by (simp add: verify_product_def p)
  qed
  then obtain s6 where "fold_res (issue_line c bid ?br user (or_else (cs_sold_at data) (now c))) (zip ls sns) s5 = Inr s6"
    using issue_lines_total by blast
  then show ?thesis unfolding write_sale_def Let_def s1 prod.case s2 s3 s4 s5_def [symmetric] by simp
qed

lemma create_sale_succeeds:
  assumes "get_allow_negative_stock s bid = Inr allow"
    "require_caller_shift s bid user (Some (cs_branch_id data)) (cs_register_shift_id data) ''record a sale'' = Inr sh"
    "\<exists>cu. cs_customer_id data = None \<or> get_customer_by_id s (the (cs_customer_id data)) bid = Inr cu"
    "compute_sale_pricing c s bid data keys = Inr pricing"
    "settle_payments (spp_total_amount pricing) (cs_payments data) True = Inr se"
    "check_credit s bid (cs_customer_id data) (se_credit_amount se) = Inr ()"
    "allow \<or> assert_stock_available s bid (cs_branch_id data)
         (map (\<lambda>l. (line_item l, li_qty l)) (cs_lines data)) = Inr ()"
  shows "\<exists>sl s'. create_sale c bid data user keys s = Inr (sl, s')"
proof -
  have "length (spp_lines pricing) = length (cs_lines data)"
    using assms(4) by (rule compute_sale_pricing_Inr)
  moreover have "\<forall>l\<in>set (cs_lines data). \<exists>x. verify_product s (li_product_id l) bid = Inr x"
    using assms(4) by (fastforce simp: compute_sale_pricing_def bind_res_Inr check_each_Inr verify_line_products_def)
  ultimately obtain sl s' where "write_sale c bid data user (row_id sh) pricing se s = Inr (sl, s')"
    using write_sale_total by blast
  then show ?thesis using assms by (cases "cs_customer_id data") (auto simp: create_sale_def)
qed


lemma sample_pricing:
  "\<exists>pricing. compute_sale_pricing sample_clock sample_store 1 sample_sale {} = Inr pricing \<and>
     spp_total_amount pricing = 30"
proof -
  let ?ls = "cs_lines sample_sale"
  have b: "verify_branch sample_store 2 1 = Inr sample_branch"
    by (simp add: verify_branch_def sample_store_def sample_branch_def live_def)
  have p: "verify_product sample_store 5 1 = Inr sample_product"
    by (simp add: verify_product_def sample_store_def sample_product_def live_def)
  have perm: "enforce_sale_pricing_permissions sample_store 1 sample_sale {} = Inr ()"
    by (simp add: enforce_sale_pricing_permissions_def sample_sale_def sample_line_def has_manual_discount_def
        get_product_price_def sample_store_def sample_warehouse_def sample_stock_def empty_db_def
        scalar_one_or_none_def)
  have none: "scheme_discounts sample_clock sample_store 1 sample_sale = Inr None"
    by (simp add: scheme_discounts_def sample_sale_def)
  have ver: "check_each (verify_line_products sample_store 1) ?ls = Inr ()"
    using p by (simp add: sample_sale_def sample_line_def verify_line_products_def del: One_nat_def)
  have rates: "resolve_line_tax_rates sample_store 1 ?ls {} = [0, 0]"
    by (simp add: resolve_line_tax_rates_def sample_sale_def sample_line_def resolve_product_tax_rates_def
        sample_store_def sample_warehouse_def sample_stock_def empty_db_def sample_product_def
        product_tax_rates_def)
  have r: "round2 20 = 20" "round2 10 = 10" "round2 30 = 30" "round2 0 = 0"
    using cents.fixed [of 2000] cents.fixed [of 1000] cents.fixed [of 3000] cents.fixed [of 0] by simp_all
  have "calculate_sale_totals (map line_amounts (line_inputs ?ls None [0, 0])) =
      \<lparr>t_subtotal = 30, t_total_discount = 0, t_total_tax = 0, t_total_amount = 30\<rparr>"
    by (simp add: sample_sale_def sample_line_def line_inputs_def line_amounts_def has_manual_discount_def
        merge_line_discount_inputs_def calculate_line_total_def calculate_sale_totals_def r Let_def)
  then show ?thesis using b perm none ver rates
    by (simp add: compute_sale_pricing_def Let_def sample_sale_def del: One_nat_def)
qed

lemma sample_settlement:
  "\<exists>se. settle_payments 30 (cs_payments sample_sale) True = Inr se \<and> se_credit_amount se = 10 \<and>
     sum_list (map cash_part (se_payments se)) = 20"
  by (simp add: settle_payments_def sample_sale_def tender_step_def apply_step_def fold_extra_change_def
      cash_part_def Let_def)

lemma sample_shift_required:
  "require_caller_shift sample_store 1 9 (Some 2) None ''record a sale'' = Inr sample_shift"
  by (simp add: require_caller_shift_def sample_store_def sample_shift_def open_shift_of_def
      first_row_def live_def Let_def)

lemma sample_store_balance: "get_stock_balance sample_store b br p v = get_stock_balance sample_warehouse b br p v"
  by (simp add: get_stock_balance_def sample_store_def)

lemma sample_sale_accepted:
  "\<exists>sl s'. create_sale sample_clock 1 sample_sale 9 {} sample_store = Inr (sl, s')"
proof -
  obtain pricing where p: "compute_sale_pricing sample_clock sample_store 1 sample_sale {} = Inr pricing"
    "spp_total_amount pricing = 30" using sample_pricing by blast
  obtain se where se: "settle_payments 30 (cs_payments sample_sale) True = Inr se" "se_credit_amount se = 10"
    using sample_settlement by blast
  have cu: "get_customer_by_id sample_store 8 1 = Inr sample_customer"
    by (simp add: get_customer_by_id_def sample_store_def sample_customer_def live_def)
  show ?thesis
  proof (rule create_sale_succeeds)
    show "get_allow_negative_stock sample_store 1 = Inr False"
      by (simp add: get_allow_negative_stock_def sample_store_def sample_warehouse_def sample_stock_def
          empty_db_def scalar_one_or_none_def)
    show "require_caller_shift sample_store 1 9 (Some (cs_branch_id sample_sale)) (cs_register_shift_id sample_sale)
        ''record a sale'' = Inr sample_shift"
      using sample_shift_required by (simp add: sample_sale_def del: One_nat_def)
    show "\<exists>x. cs_customer_id sample_sale = None \<or> get_customer_by_id sample_store (the (cs_customer_id sample_sale)) 1 = Inr x"
      using cu by (simp add: sample_sale_def del: One_nat_def)
    show "settle_payments (spp_total_amount pricing) (cs_payments sample_sale) True = Inr se"
      using se p by simp
    show "check_credit sample_store 1 (cs_customer_id sample_sale) (se_credit_amount se) = Inr ()"
      using se cu
      by (simp add: check_credit_def sample_sale_def assert_credit_available_def lock_customer_def
          sample_store_def sample_customer_def live_def get_customer_balance_Inr get_customer_balance_def
          get_customer_by_id_def sample_warehouse_def sample_stock_def empty_db_def Let_def)
    have "demand_of (map (\<lambda>l. (line_item l, li_qty l)) (cs_lines sample_sale)) = [((5, None), 3)]"
      by (simp add: demand_of_def sample_sale_def sample_line_def line_item_def)
    then show "False \<or> assert_stock_available sample_store 1 (cs_branch_id sample_sale)
         (map (\<lambda>l. (line_item l, li_qty l)) (cs_lines sample_sale)) = Inr ()"
      using sample_warehouse_balance
      by (simp add: assert_stock_available_def check_sufficient_stock_def sample_store_balance
          sample_sale_def del: One_nat_def)
  qed (rule p(1))
qed

lemma sample_sale_valid: "valid_sale_request sample_sale"
  by (simp add: valid_sale_request_def sample_sale_def sample_line_def valid_sale_line_def)


lemma create_sale_never_oversells_witness:
  "\<exists>sl s'. create_sale sample_clock 1 sample_sale 9 {} sample_store = Inr (sl, s') \<and>
     0 \<le> get_stock_balance s' 1 2 5 None"
proof -
  obtain sl s' where r: "create_sale sample_clock 1 sample_sale 9 {} sample_store = Inr (sl, s')"
    using sample_sale_accepted by blast
  have "get_allow_negative_stock sample_store 1 = Inr False"
    by (simp add: get_allow_negative_stock_def sample_store_def sample_warehouse_def sample_stock_def
        empty_db_def scalar_one_or_none_def)
  moreover have "sample_line 2 \<in> set (cs_lines sample_sale)" by (simp add: sample_sale_def)
  ultimately have "0 \<le> get_stock_balance s' 1 2 5 None"
    using create_sale_never_oversells [OF r sample_store_ok sample_sale_valid, of "sample_line 2"]
    by (simp add: sample_sale_def sample_line_def del: One_nat_def)
  with r show ?thesis by blast
qed

section \<open>Pricing is the server's\<close>

lemma line_inputs_nth:
  "i < length ls \<Longrightarrow> line_inputs ls ds rs ! i = (ls ! i, map_option (\<lambda>d. d ! i) ds, rs ! i)"
  by (simp add: line_inputs_def nth_enumerate_eq)

lemma length_line_inputs [simp]: "length (line_inputs ls ds rs) = length ls"
  by (simp add: line_inputs_def)

lemma line_amounts_args:
  "\<exists>args. map line_amounts inputs = map (\<lambda>(q, p, dp, da, t). calculate_line_total q p dp da t) args"
proof (induction inputs)
  case (Cons x xs)
  obtain line ds rate where x: "x = (line, ds, rate)" by (metis prod_cases3)
  obtain dp da where "merge_line_discount_inputs line ds = (dp, da)" by fastforce
  then have "line_amounts x = calculate_line_total (li_qty line) (li_unit_price line) dp da rate"
    by (simp add: line_amounts_def x)
  with Cons show ?case by (metis (no_types, lifting) list.simps(9) case_prod_conv)
qed simp

text \<open>
  C27. A priced sale charges what the server decides. The total is the sum of the line totals;
  without the matching permission the client's manual discounts are refused, every unit price is
  the catalog's (to the cent) where the price list has one, and every tax rate is the one
  configured for the product.
\<close>

theorem sale_pricing_sound:
  assumes "compute_sale_pricing c s bid data keys = Inr pricing"
  shows "spp_total_amount pricing = sum_list (map spl_line_total (spp_lines pricing)) \<and>
    length (spp_lines pricing) = length (cs_lines data) \<and>
    (APPLY_DISCOUNT_PERMISSION \<notin> keys \<longrightarrow> (\<forall>l\<in>set (cs_lines data). \<not> has_manual_discount l)) \<and>
    (OVERRIDE_PRICE_PERMISSION \<notin> keys \<longrightarrow> (\<forall>l\<in>set (cs_lines data). \<forall>p.
       get_product_price s bid (li_product_id l) (li_variation_id l) (cs_price_list_id data) = Inr (Some p) \<longrightarrow>
       invoice_round2 (li_unit_price l) = invoice_round2 p)) \<and>
    (OVERRIDE_TAX_PERMISSION \<notin> keys \<longrightarrow> (\<forall>i<length (cs_lines data). spl_tax_rate (spp_lines pricing ! i) =
       or_else (resolve_product_tax_rates s bid (map li_product_id (cs_lines data))
         (li_product_id (cs_lines data ! i))) 0))"
proof -
  let ?rates = "resolve_line_tax_rates s bid (cs_lines data) keys"
  obtain ds where perm: "enforce_sale_pricing_permissions s bid data keys = Inr ()"
    and p: "pricing = (let inputs = line_inputs (cs_lines data) ds ?rates;
         totals = calculate_sale_totals (map line_amounts inputs)
       in \<lparr>spp_discount_scheme_id = cs_discount_scheme_id data,
           spp_subtotal = t_subtotal totals, spp_total_discount = t_total_discount totals,
           spp_total_tax = t_total_tax totals, spp_total_amount = t_total_amount totals,
           spp_lines = map preview_line inputs\<rparr>)"
    and len: "length (spp_lines pricing) = length (cs_lines data)"
    using assms by (rule compute_sale_pricing_Inr)
  obtain args where args: "map line_amounts (line_inputs (cs_lines data) ds ?rates) =
      map (\<lambda>(q, p, dp, da, t). calculate_line_total q p dp da t) args"
    using line_amounts_args by blast
  have "spl_line_total (preview_line x) = lc_line_total (line_amounts x)" for x
    by (simp add: preview_line_def Let_def split: prod.splits)
  then have lt: "map spl_line_total (spp_lines pricing) =
      map lc_line_total (map line_amounts (line_inputs (cs_lines data) ds ?rates))"
    by (simp add: p Let_def)
  have "spp_total_amount pricing = sum_list (map spl_line_total (spp_lines pricing))"
    unfolding lt args totals_of_lines(4) [symmetric] by (simp add: p Let_def args)
  moreover have "\<not> has_manual_discount l" if "APPLY_DISCOUNT_PERMISSION \<notin> keys" "l \<in> set (cs_lines data)" for l
    using perm that by (auto simp: enforce_sale_pricing_permissions_def permission_required_def split: if_splits)
  moreover have "invoice_round2 (li_unit_price l) = invoice_round2 pr"
    if "OVERRIDE_PRICE_PERMISSION \<notin> keys" "l \<in> set (cs_lines data)"
      "get_product_price s bid (li_product_id l) (li_variation_id l) (cs_price_list_id data) = Inr (Some pr)" for l pr
    using perm that by (auto simp: enforce_sale_pricing_permissions_def permission_required_def
        check_each_Inr split: if_splits)
  moreover have "spl_tax_rate (spp_lines pricing ! i) = or_else (resolve_product_tax_rates s bid
      (map li_product_id (cs_lines data)) (li_product_id (cs_lines data ! i))) 0"
    if "OVERRIDE_TAX_PERMISSION \<notin> keys" "i < length (cs_lines data)" for i
    using that by (simp add: p Let_def line_inputs_nth preview_line_def resolve_line_tax_rates_def
        split: option.splits)
  ultimately show ?thesis using len by blast
qed

lemma sale_pricing_sound_witness:
  "\<exists>pricing. compute_sale_pricing sample_clock sample_store 1 sample_sale {} = Inr pricing \<and>
     sum_list (map spl_line_total (spp_lines pricing)) = 30 \<and> length (spp_lines pricing) = 2"
proof -
  obtain pricing where p: "compute_sale_pricing sample_clock sample_store 1 sample_sale {} = Inr pricing"
    "spp_total_amount pricing = 30" using sample_pricing by blast
  with sale_pricing_sound [OF p(1)] show ?thesis
    by (intro exI [of _ pricing]) (simp add: sample_sale_def)
qed

end
