(* ===== verification/Machines.thy ===== *)
theory Machines
  imports Models
begin

text \<open>
  The contract of the rows that carry a status: a step of the program keeps every row and moves
  its status along an allowed edge or not at all. Shifts, dining tables, sales and the other
  documents interpret it with their own steps and edges; what follows for a whole run is proved
  here once.
\<close>

locale status_machine =
  fixes status :: "'d \<Rightarrow> 'k \<Rightarrow> 's option"
    and step :: "'d \<Rightarrow> 'd \<Rightarrow> bool"
    and allowed :: "'s \<Rightarrow> 's \<Rightarrow> bool"
  assumes step_status: "step d d' \<Longrightarrow> status d k = Some a \<Longrightarrow>
    \<exists>b. status d' k = Some b \<and> (b = a \<or> allowed a b)"
begin

lemma run_status:
  "step\<^sup>*\<^sup>* d d' \<Longrightarrow> status d k = Some a \<Longrightarrow> \<exists>b. status d' k = Some b \<and> allowed\<^sup>*\<^sup>* a b"
proof (induction rule: rtranclp_induct)
  case (step d' d'')
  then obtain b where b: "status d' k = Some b" "allowed\<^sup>*\<^sup>* a b" by blast
  with step_status [OF step.hyps(2) b(1)] show ?case
    by (metis rtranclp.rtrancl_into_rtrancl)
qed simp

lemma run_final:
  assumes "step\<^sup>*\<^sup>* d d'" "status d k = Some a" "\<And>b. \<not> allowed a b"
  shows "status d' k = Some a"
  using run_status [OF assms(1,2)] assms(3) by (auto elim: converse_rtranclpE)

lemma run_closed: \<comment> \<open>a set of statuses no edge leaves is never left\<close>
  assumes "step\<^sup>*\<^sup>* d d'" "status d k = Some a" "a \<in> A" "\<And>x y. x \<in> A \<Longrightarrow> allowed x y \<Longrightarrow> y \<in> A"
  shows "\<exists>b\<in>A. status d' k = Some b"
proof -
  obtain b where b: "status d' k = Some b" "allowed\<^sup>*\<^sup>* a b" using run_status [OF assms(1,2)] by blast
  from b(2) have "b \<in> A" by (induction rule: rtranclp_induct) (use assms(3,4) in auto)
  with b(1) show ?thesis by blast
qed

lemma run_no_return:
  \<comment> \<open>over an acyclic graph a status that has been left does not come back\<close>
  assumes "step\<^sup>*\<^sup>* d e" "step\<^sup>*\<^sup>* e f" "status d k = Some a" "status e k = Some b" "status f k = Some a"
    and "acyclicP allowed"
  shows "b = a"
proof (rule ccontr)
  assume "b \<noteq> a"
  have "allowed\<^sup>*\<^sup>* a b" "allowed\<^sup>*\<^sup>* b a"
    using run_status [OF assms(1,3)] run_status [OF assms(2,4)] assms(4,5) by auto
  with \<open>b \<noteq> a\<close> have "allowed\<^sup>+\<^sup>+ a a" by (metis rtranclpD tranclp_trans)
  with assms(6) show False by (simp add: acyclic_def tranclp_unfold [symmetric])
qed

lemma run_gate:
  \<comment> \<open>when every edge into \<open>B\<close> leaves from \<open>A\<close>, a run into \<open>B\<close> passes through \<open>A\<close>\<close>
  assumes "step\<^sup>*\<^sup>* d f" "status d k = Some a" "a \<notin> B" "status f k = Some b" "b \<in> B"
    and gate: "\<And>x y. allowed x y \<Longrightarrow> x \<notin> B \<Longrightarrow> y \<in> B \<Longrightarrow> x \<in> A"
  shows "\<exists>e. step\<^sup>*\<^sup>* d e \<and> step\<^sup>*\<^sup>* e f \<and> (\<exists>x\<in>A. status e k = Some x)"
  using assms(1-5)
proof (induction arbitrary: b rule: rtranclp_induct)
  case base
  then show ?case by simp
next
  case (step e f)
  obtain x where x: "status e k = Some x" using run_status [OF step.hyps(1) step.prems(1)] by blast
  then have move: "b = x \<or> allowed x b" using step_status [OF step.hyps(2)] step.prems(3) by fastforce
  show ?case
  proof (cases "x \<in> B")
    case True
    then show ?thesis using step.IH [OF step.prems(1,2) x] step.hyps(2)
      by (meson rtranclp.rtrancl_into_rtrancl)
  next
    case False
    then have "x \<in> A" using move gate step.prems(4) by blast
    then show ?thesis using x step.hyps by blast
  qed
qed

end

text \<open>The status of the row with a given key in a table.\<close>

definition status_in :: "('a row_scheme \<Rightarrow> 's) \<Rightarrow> 'a row_scheme list \<Rightarrow> uuid \<Rightarrow> 's option" where
  "status_in st rows i = map_option st (first_row (filter (\<lambda>r. row_id r = i) rows))"

lemma status_in_simps [simp]:
  "status_in st [] i = None"
  "status_in st (r # rs) i = (if row_id r = i then Some (st r) else status_in st rs i)"
  by (simp_all add: status_in_def first_row_def)

lemma status_in_append:
  "status_in st (rs @ rs') i = (case status_in st rs i of Some a \<Rightarrow> Some a | None \<Rightarrow> status_in st rs' i)"
  by (induction rs) auto

lemma status_in_dom: "(\<exists>a. status_in st rs i = Some a) \<longleftrightarrow> i \<in> row_id ` set rs"
  by (induction rs) auto

lemma status_in_kept:
  "status_in st rs i = Some a \<Longrightarrow> status_in st (rs @ rs') i = Some a"
  by (simp add: status_in_append)

lemma status_in_update:
  assumes "\<And>r. row_id (f r) = row_id r"
  shows "status_in st (update_where P f rs) i =
    map_option st (map_option (\<lambda>r. if P r then f r else r) (first_row (filter (\<lambda>r. row_id r = i) rs)))"
  using assms by (induction rs) (auto simp: first_row_def)

lemma status_in_edited:
  assumes "\<And>r. row_id (f r) = row_id r" "\<And>r. st (f r) = st r"
  shows "status_in st (update_where P f rs) i = status_in st rs i"
  using assms by (induction rs) auto

lemma status_in_moved:
  \<comment> \<open>rewriting the row of one key\<close>
  assumes "status_in st rs i = Some a" "\<And>r. row_id (f r) = row_id r"
    and "\<And>r. r \<in> set rs \<Longrightarrow> row_id r = i \<Longrightarrow> P r \<Longrightarrow> st (f r) = st r \<or> E (st r) (st (f r))"
  shows "\<exists>b. status_in st (update_where P f rs) i = Some b \<and> (b = a \<or> E a b)"
  using assms(1,3) by (induction rs) (auto simp: assms(2) split: if_splits)

end
