(* ===== verification/Tables.thy ===== *)
theory Tables
  imports Machines Catalog "HOL-Library.List_Lexorder" "HOL-Library.Char_ord"
begin

text \<open>
  \<open>app/services/restaurant_table_service.py\<close> with \<open>app/services/feature_flags.py\<close>: the floor
  plans and dining tables of a branch, the status a table moves through while it is served, and
  the hooks of \<open>app/services/restaurant_tab_service.py\<close> that run when a tab is cancelled. The
  unique constraints are those of \<open>schema/007_group6_restaurant.sql\<close>; they count deleted rows.
\<close>

section \<open>Feature flags\<close>

definition lower_char :: "char \<Rightarrow> char" where
  "lower_char ch = (if 65 \<le> (of_char ch :: nat) \<and> (of_char ch :: nat) \<le> 90
     then char_of (of_char ch + 32 :: nat) else ch)"

definition get_feature_flag :: "(string \<times> json) list \<Rightarrow> string \<Rightarrow> bool" where
  "get_feature_flag config key =
     (if config = [] then False
      else case map_of config key of
             None \<Rightarrow> False
           | Some (JBool b) \<Rightarrow> b
           | Some (JStr t) \<Rightarrow> map lower_char t \<in> {''true'', ''1'', ''yes''}
           | Some (JUuid _) \<Rightarrow> False
           | Some v \<Rightarrow> \<not> falsy v)"

definition merge_config_json :: "(string \<times> json) list \<Rightarrow> (string \<times> json) list \<Rightarrow> (string \<times> json) list" where
  \<comment> \<open>a dict is an association list without repeated keys, in insertion order\<close>
  "merge_config_json base overrides =
     fold (\<lambda>(k, v) d. if k \<in> fst ` set d then map (\<lambda>(k', v'). (k', if k' = k then v else v')) d
                       else d @ [(k, v)]) overrides base"

section \<open>Requests and responses\<close>

record CreateFloorPlanRequest =
  cfp_branch_id :: uuid
  cfp_name :: string
  cfp_sort_order :: int
  cfp_layout_json :: "(string \<times> json) list"

record UpdateFloorPlanRequest =
  ufp_name :: "string option"
  ufp_sort_order :: "int option"
  ufp_is_active :: "bool option"
  ufp_layout_json :: "(string \<times> json) list option"

record CreateDiningTableRequest =
  cdt_branch_id :: uuid
  cdt_floor_plan_id :: "uuid option"
  cdt_table_number :: string
  cdt_capacity :: int
  cdt_pos_x :: "decimal option"
  cdt_pos_y :: "decimal option"

record UpdateDiningTableRequest =
  udt_floor_plan_id :: "uuid option"
  udt_table_number :: "string option"
  udt_capacity :: "int option"
  udt_pos_x :: "decimal option"
  udt_pos_y :: "decimal option"
  udt_is_active :: "bool option"

record FloorLayoutResponse =
  fl_branch_id :: uuid
  fl_floor_plans :: "(floor_plan \<times> (dining_table \<times> uuid option) list) list"
  fl_unassigned_tables :: "(dining_table \<times> uuid option) list"

definition strip_ws :: "string \<Rightarrow> string" where
  \<comment> \<open>\<open>str.strip()\<close> on ASCII text\<close>
  "strip_ws t = (let ws = (\<lambda>ch. of_char ch \<in> {9, 10, 11, 12, 13, 28, 29, 30, 31, 32 :: nat})
     in rev (dropWhile ws (rev (dropWhile ws t))))"

section \<open>Table status\<close>

definition ACTIVE_TAB_STATUSES :: "SaleStatusEnum list" where
  "ACTIVE_TAB_STATUSES = [SaleStatus_held, SaleStatus_draft, SaleStatus_partially_paid]"

fun TABLE_STATUS_TRANSITIONS :: "TableStatusEnum \<Rightarrow> TableStatusEnum list" where
  "TABLE_STATUS_TRANSITIONS TableStatus_available = [TableStatus_occupied, TableStatus_reserved]"
| "TABLE_STATUS_TRANSITIONS TableStatus_reserved = [TableStatus_occupied, TableStatus_available]"
| "TABLE_STATUS_TRANSITIONS TableStatus_occupied = [TableStatus_billing, TableStatus_available]"
| "TABLE_STATUS_TRANSITIONS TableStatus_billing = [TableStatus_cleaning, TableStatus_occupied]"
| "TABLE_STATUS_TRANSITIONS TableStatus_cleaning = [TableStatus_available]"

definition is_valid_table_status_transition :: "TableStatusEnum \<Rightarrow> TableStatusEnum \<Rightarrow> bool \<Rightarrow> bool" where
  "is_valid_table_status_transition current target force \<longleftrightarrow>
     (if force \<or> current = target then True else target \<in> set (TABLE_STATUS_TRANSITIONS current))"

definition set_table_status ::
  "clock \<Rightarrow> TableStatusEnum \<Rightarrow> uuid \<Rightarrow> dining_table \<Rightarrow> dining_table" where
  "set_table_status c new_status user r =
     r\<lparr>dt_status := new_status, updated_by := Some user, updated_at := now c\<rparr>"

definition transition_table_status ::
  "clock \<Rightarrow> dining_table \<Rightarrow> TableStatusEnum \<Rightarrow> uuid \<Rightarrow> bool \<Rightarrow> db \<Rightarrow> (dining_table \<times> db) res" where
  "transition_table_status c table new_status user force s =
     (let current = dt_status table in
      if \<not> is_valid_table_status_transition current new_status force then
        Inl (HTTPException 400 (''Invalid table status transition from '{}' to '{}'' @ [CHR 0x27])
          [AStr (TableStatusEnum_value current), AStr (TableStatusEnum_value new_status)])
      else Inr (set_table_status c new_status user table,
        s\<lparr>dining_tables := update_where (\<lambda>r. row_id r = row_id table)
             (set_table_status c new_status user) (dining_tables s)\<rparr>))"

definition get_dining_table_by_id :: "db \<Rightarrow> uuid \<Rightarrow> uuid \<Rightarrow> dining_table res" where
  "get_dining_table_by_id s table_id bid =
     require_one (HTTPException 404 ''Table not found'' [])
       (filter (\<lambda>r. row_id r = table_id \<and> business_id r = bid \<and> live r) (dining_tables s))"

definition update_dining_table_status ::
  "clock \<Rightarrow> uuid \<Rightarrow> uuid \<Rightarrow> TableStatusEnum \<Rightarrow> uuid \<Rightarrow> bool \<Rightarrow> db \<Rightarrow> (dining_table \<times> db) res" where
  "update_dining_table_status c table_id bid new_status user force s =
     bind_res (get_dining_table_by_id s table_id bid) (\<lambda>table.
       transition_table_status c table new_status user force s)"

section \<open>Floor plans\<close>

definition verify_floor_plan :: "db \<Rightarrow> uuid \<Rightarrow> uuid \<Rightarrow> floor_plan res" where
  "verify_floor_plan s floor_plan_id bid =
     require_one (HTTPException 404 ''Floor plan not found'' [])
       (filter (\<lambda>r. row_id r = floor_plan_id \<and> business_id r = bid \<and> live r) (floor_plans s))"

definition floor_plans_unique :: "floor_plan list \<Rightarrow> bool" where
  \<comment> \<open>\<open>uq_floor_plans_name\<close>\<close>
  "floor_plans_unique rows \<longleftrightarrow> distinct (map (\<lambda>r. (business_id r, fp_branch_id r, fp_name r)) rows)"

definition commit_floor_plans :: "floor_plan \<Rightarrow> db \<Rightarrow> (floor_plan \<times> db) res" where
  "commit_floor_plans r s =
     (if floor_plans_unique (floor_plans s) then Inr (r, s)
      else bad_request ''Floor plan name already exists for this branch'')"

definition create_floor_plan ::
  "clock \<Rightarrow> uuid \<Rightarrow> CreateFloorPlanRequest \<Rightarrow> uuid \<Rightarrow> db \<Rightarrow> (floor_plan \<times> db) res" where
  "create_floor_plan c bid data user s =
     bind_res (verify_branch s (cfp_branch_id data) bid) (\<lambda>_.
       let (i, s) = fresh_uuid s;
           plan = new_row i bid (Some user) (now c)
             \<lparr>fp_branch_id = cfp_branch_id data, fp_name = strip_ws (cfp_name data),
              fp_sort_order = cfp_sort_order data, fp_is_active = True,
              fp_layout_json = cfp_layout_json data\<rparr>
       in commit_floor_plans plan (s\<lparr>floor_plans := floor_plans s @ [plan]\<rparr>))"

definition update_floor_plan ::
  "clock \<Rightarrow> uuid \<Rightarrow> uuid \<Rightarrow> UpdateFloorPlanRequest \<Rightarrow> uuid \<Rightarrow> db \<Rightarrow> (floor_plan \<times> db) res" where
  "update_floor_plan c floor_plan_id bid data user s =
     bind_res (verify_floor_plan s floor_plan_id bid) (\<lambda>plan.
       let edit = (\<lambda>r. r\<lparr>fp_name := (case ufp_name data of Some n \<Rightarrow> strip_ws n | None \<Rightarrow> fp_name r),
                         fp_sort_order := or_else (ufp_sort_order data) (fp_sort_order r),
                         fp_is_active := or_else (ufp_is_active data) (fp_is_active r),
                         fp_layout_json := or_else (ufp_layout_json data) (fp_layout_json r),
                         updated_by := Some user, updated_at := now c\<rparr>)
       in commit_floor_plans (edit plan)
            (s\<lparr>floor_plans := update_where (\<lambda>r. row_id r = row_id plan) edit (floor_plans s)\<rparr>))"

definition soft_delete :: "clock \<Rightarrow> uuid \<Rightarrow> 'a row_scheme \<Rightarrow> 'a row_scheme" where
  "soft_delete c user r =
     r\<lparr>deleted_at := Some (now c), deleted_by := Some user, updated_at := now c, updated_by := Some user\<rparr>"

definition delete_floor_plan :: "clock \<Rightarrow> uuid \<Rightarrow> uuid \<Rightarrow> uuid \<Rightarrow> db \<Rightarrow> db res" where
  "delete_floor_plan c floor_plan_id bid user s =
     bind_res (verify_floor_plan s floor_plan_id bid) (\<lambda>plan.
       Inr (s\<lparr>floor_plans := update_where (\<lambda>r. row_id r = row_id plan) (soft_delete c user) (floor_plans s)\<rparr>))"

definition get_floor_plans :: "db \<Rightarrow> uuid \<Rightarrow> uuid option \<Rightarrow> floor_plan list" where
  "get_floor_plans s bid branch_id =
     sort_key (\<lambda>r. (fp_sort_order r, fp_name r))
       (filter (\<lambda>r. business_id r = bid \<and> live r \<and> opt_eq branch_id (fp_branch_id r)) (floor_plans s))"

section \<open>Dining tables\<close>

definition active_tab_on :: "uuid \<Rightarrow> uuid \<Rightarrow> sale \<Rightarrow> bool" where
  "active_tab_on bid table_id r \<longleftrightarrow> business_id r = bid \<and> s_table_id r = Some table_id \<and> live r \<and>
     s_status r \<in> set ACTIVE_TAB_STATUSES"

definition get_active_sale_ids_by_table_ids :: "db \<Rightarrow> uuid \<Rightarrow> uuid list \<Rightarrow> (uuid \<rightharpoonup> uuid)" where
  \<comment> \<open>the newest open dine-in tab of each table: the first row wins\<close>
  "get_active_sale_ids_by_table_ids s bid table_ids =
     (let rows = sort_key (\<lambda>r. - s_sold_at r)
           (filter (\<lambda>r. (\<exists>t\<in>set table_ids. active_tab_on bid t r) \<and> s_sale_type r = SaleType_dine_in) (sales s))
      in map_of [(t, row_id r). r \<leftarrow> rows, t \<leftarrow> (case s_table_id r of Some t \<Rightarrow> [t] | None \<Rightarrow> [])])"

definition opt_eq2 :: "'a option \<Rightarrow> 'a option \<Rightarrow> bool" where
  \<comment> \<open>an optional filter on a nullable column\<close>
  "opt_eq2 f x \<longleftrightarrow> (case f of None \<Rightarrow> True | Some v \<Rightarrow> x = Some v)"

definition get_dining_tables ::
  "db \<Rightarrow> uuid \<Rightarrow> uuid option \<Rightarrow> uuid option \<Rightarrow> TableStatusEnum option \<Rightarrow> dining_table list" where
  "get_dining_tables s bid branch_id floor_plan_id table_status =
     sort_key dt_table_number
       (filter (\<lambda>r. business_id r = bid \<and> live r \<and> opt_eq branch_id (dt_branch_id r) \<and>
                     opt_eq2 floor_plan_id (dt_floor_plan_id r) \<and> opt_eq table_status (dt_status r))
          (dining_tables s))"

definition list_dining_table_responses ::
  "db \<Rightarrow> uuid \<Rightarrow> uuid option \<Rightarrow> uuid option \<Rightarrow> TableStatusEnum option \<Rightarrow> (dining_table \<times> uuid option) list" where
  "list_dining_table_responses s bid branch_id floor_plan_id table_status =
     (let tables = get_dining_tables s bid branch_id floor_plan_id table_status;
          sale_by_table = get_active_sale_ids_by_table_ids s bid (map row_id tables)
      in map (\<lambda>t. (t, sale_by_table (row_id t))) tables)"

definition get_dining_table_response :: "db \<Rightarrow> uuid \<Rightarrow> uuid \<Rightarrow> (dining_table \<times> uuid option) res" where
  "get_dining_table_response s table_id bid =
     bind_res (get_dining_table_by_id s table_id bid) (\<lambda>table.
       Inr (table, get_active_sale_ids_by_table_ids s bid [row_id table] (row_id table)))"

definition tables_unique :: "dining_table list \<Rightarrow> bool" where
  \<comment> \<open>\<open>uq_tables_number\<close>\<close>
  "tables_unique rows \<longleftrightarrow> distinct (map (\<lambda>r. (business_id r, dt_branch_id r, dt_table_number r)) rows)"

definition commit_tables :: "dining_table \<Rightarrow> db \<Rightarrow> (dining_table \<times> db) res" where
  "commit_tables r s =
     (if tables_unique (dining_tables s) then Inr (r, s)
      else bad_request ''Table number already exists for this branch'')"

definition verify_plan_of_branch :: "db \<Rightarrow> uuid option \<Rightarrow> uuid \<Rightarrow> uuid \<Rightarrow> string \<Rightarrow> unit res" where
  "verify_plan_of_branch s floor_plan_id bid branch_id mismatch =
     (case floor_plan_id of
        None \<Rightarrow> Inr ()
      | Some i \<Rightarrow> bind_res (verify_floor_plan s i bid) (\<lambda>plan.
          if fp_branch_id plan \<noteq> branch_id then bad_request mismatch else Inr ()))"

definition create_dining_table ::
  "clock \<Rightarrow> uuid \<Rightarrow> CreateDiningTableRequest \<Rightarrow> uuid \<Rightarrow> db \<Rightarrow> (dining_table \<times> db) res" where
  "create_dining_table c bid data user s =
     bind_res (verify_branch s (cdt_branch_id data) bid) (\<lambda>_.
     bind_res (verify_plan_of_branch s (cdt_floor_plan_id data) bid (cdt_branch_id data)
                 ''Floor plan does not belong to the specified branch'') (\<lambda>_.
       let (i, s) = fresh_uuid s;
           table = new_row i bid (Some user) (now c)
             \<lparr>dt_branch_id = cdt_branch_id data, dt_floor_plan_id = cdt_floor_plan_id data,
              dt_table_number = cdt_table_number data, dt_capacity = cdt_capacity data,
              dt_status = TableStatus_available, dt_pos_x = cdt_pos_x data, dt_pos_y = cdt_pos_y data,
              dt_is_active = True\<rparr>
       in commit_tables table (s\<lparr>dining_tables := dining_tables s @ [table]\<rparr>)))"

definition edit_dining_table :: "clock \<Rightarrow> UpdateDiningTableRequest \<Rightarrow> uuid \<Rightarrow> dining_table \<Rightarrow> dining_table" where
  "edit_dining_table c data user r =
     r\<lparr>dt_floor_plan_id := set_some (udt_floor_plan_id data) (dt_floor_plan_id r),
       dt_table_number := or_else (udt_table_number data) (dt_table_number r),
       dt_capacity := or_else (udt_capacity data) (dt_capacity r),
       dt_pos_x := set_some (udt_pos_x data) (dt_pos_x r),
       dt_pos_y := set_some (udt_pos_y data) (dt_pos_y r),
       dt_is_active := or_else (udt_is_active data) (dt_is_active r),
       updated_by := Some user, updated_at := now c\<rparr>"

definition update_dining_table ::
  "clock \<Rightarrow> uuid \<Rightarrow> uuid \<Rightarrow> UpdateDiningTableRequest \<Rightarrow> uuid \<Rightarrow> db \<Rightarrow> (dining_table \<times> db) res" where
  "update_dining_table c table_id bid data user s =
     bind_res (get_dining_table_by_id s table_id bid) (\<lambda>table.
     bind_res (verify_plan_of_branch s (udt_floor_plan_id data) bid (dt_branch_id table)
                 ''Floor plan does not belong to the table branch'') (\<lambda>_.
       commit_tables (edit_dining_table c data user table)
         (s\<lparr>dining_tables := update_where (\<lambda>r. row_id r = row_id table)
              (edit_dining_table c data user) (dining_tables s)\<rparr>)))"

definition delete_dining_table :: "clock \<Rightarrow> uuid \<Rightarrow> uuid \<Rightarrow> uuid \<Rightarrow> db \<Rightarrow> db res" where
  "delete_dining_table c table_id bid user s =
     bind_res (get_dining_table_by_id s table_id bid) (\<lambda>table.
       Inr (s\<lparr>dining_tables := update_where (\<lambda>r. row_id r = row_id table) (soft_delete c user) (dining_tables s)\<rparr>))"

definition get_floor_layout :: "db \<Rightarrow> uuid \<Rightarrow> uuid \<Rightarrow> FloorLayoutResponse res" where
  "get_floor_layout s bid branch_id =
     bind_res (verify_branch s branch_id bid) (\<lambda>_.
       let plans = get_floor_plans s bid (Some branch_id);
           all_tables = get_dining_tables s bid (Some branch_id) None None;
           sale_by_table = get_active_sale_ids_by_table_ids s bid (map row_id all_tables);
           respond = (\<lambda>t. (t, sale_by_table (row_id t)))
       in Inr \<lparr>fl_branch_id = branch_id,
               fl_floor_plans = map (\<lambda>p. (p, map respond
                 (filter (\<lambda>t. dt_floor_plan_id t = Some (row_id p)) all_tables))) plans,
               fl_unassigned_tables = map respond (filter (\<lambda>t. dt_floor_plan_id t = None) all_tables)\<rparr>)"

section \<open>When a tab is cancelled\<close>

definition get_business_config :: "db \<Rightarrow> uuid \<Rightarrow> business_config res" where
  "get_business_config s bid =
     require_one (HTTPException 404 ''Business configuration not found'' [])
       (filter (\<lambda>r. business_id r = bid \<and> live r) (business_configs s))"

definition count_active_tabs_on_table :: "db \<Rightarrow> uuid \<Rightarrow> uuid \<Rightarrow> uuid option \<Rightarrow> nat" where
  "count_active_tabs_on_table s bid table_id exclude_sale_id =
     length (filter (\<lambda>r. active_tab_on bid table_id r \<and>
       (case exclude_sale_id of Some i \<Rightarrow> row_id r \<noteq> i | None \<Rightarrow> True)) (sales s))"

definition maybe_release_dining_table :: "clock \<Rightarrow> sale \<Rightarrow> uuid \<Rightarrow> db \<Rightarrow> db res" where
  "maybe_release_dining_table c sl user s =
     (case s_table_id sl of
        None \<Rightarrow> Inr s
      | Some t \<Rightarrow>
          if s_sale_type sl \<noteq> SaleType_dine_in then Inr s
          else if 0 < count_active_tabs_on_table s (business_id sl) t None then Inr s
          else bind_res (get_dining_table_by_id s t (business_id sl)) (\<lambda>table.
               bind_res (transition_table_status c table TableStatus_available user True s) (\<lambda>(_, s).
                 Inr s)))"

definition cancel_kot_orders_for_sale :: "clock \<Rightarrow> uuid \<Rightarrow> uuid \<Rightarrow> db \<Rightarrow> db" where
  "cancel_kot_orders_for_sale c bid sale_id s =
     s\<lparr>kot_orders := update_where
        (\<lambda>r. business_id r = bid \<and> ko_sale_id r = Some sale_id \<and> live r \<and> ko_status r \<noteq> KotStatus_cancelled)
        (\<lambda>r. r\<lparr>ko_status := KotStatus_cancelled, updated_at := now c\<rparr>) (kot_orders s)\<rparr>"

definition on_held_tab_cancelled :: "clock \<Rightarrow> sale \<Rightarrow> uuid \<Rightarrow> db \<Rightarrow> db res" where
  "on_held_tab_cancelled c sl user s =
     (if s_sale_type sl \<noteq> SaleType_dine_in then Inr s
      else if s_status sl \<noteq> SaleStatus_cancelled then Inr s
      else bind_res (get_business_config s (business_id sl)) (\<lambda>config.
        if \<not> get_feature_flag (config_json config) ''enable_restaurant'' then Inr s
        else
          let s = cancel_kot_orders_for_sale c (business_id sl) (row_id sl) s
          in if get_feature_flag (config_json config) ''enable_table_management''
             then maybe_release_dining_table c sl user s else Inr s))"

section \<open>Tables as a state machine\<close>

inductive table_step :: "db \<Rightarrow> db \<Rightarrow> bool" where
  \<comment> \<open>what a client can do to the tables without \<open>force\<close>; the ids are the primary key\<close>
  step_status: "distinct (map row_id (dining_tables s)) \<Longrightarrow>
    update_dining_table_status c t bid st user False s = Inr (r, s') \<Longrightarrow> table_step s s'"
| step_create: "create_dining_table c bid new user s = Inr (r, s') \<Longrightarrow> table_step s s'"
| step_update: "update_dining_table c t bid data user s = Inr (r, s') \<Longrightarrow> table_step s s'"
| step_delete: "delete_dining_table c t bid user s = Inr s' \<Longrightarrow> table_step s s'"
| step_elsewhere: "dining_tables s' = dining_tables s \<Longrightarrow> table_step s s'"

abbreviation table_status :: "db \<Rightarrow> uuid \<Rightarrow> TableStatusEnum option" where
  "table_status s \<equiv> status_in dt_status (dining_tables s)"

lemma get_dining_table_by_id_Inr:
  assumes "get_dining_table_by_id s t bid = Inr r"
  shows "r \<in> set (dining_tables s)" "row_id r = t" "business_id r = bid" "live r"
proof -
  have "r \<in> set (filter (\<lambda>r. row_id r = t \<and> business_id r = bid \<and> live r) (dining_tables s))"
    using assms by (auto simp: get_dining_table_by_id_def handler_simps)
  then show "r \<in> set (dining_tables s)" "row_id r = t" "business_id r = bid" "live r" by auto
qed

lemma transition_table_status_Inr:
  "transition_table_status c table st user force s = Inr (r, s') \<longleftrightarrow>
     is_valid_table_status_transition (dt_status table) st force \<and> r = set_table_status c st user table \<and>
     s' = s\<lparr>dining_tables := update_where (\<lambda>r. row_id r = row_id table)
       (set_table_status c st user) (dining_tables s)\<rparr>"
  by (auto simp: transition_table_status_def Let_def)

lemma update_dining_table_status_Inr:
  "update_dining_table_status c t bid st user force s = Inr (r, s') \<longleftrightarrow>
     (\<exists>table. get_dining_table_by_id s t bid = Inr table \<and>
        transition_table_status c table st user force s = Inr (r, s'))"
  by (simp add: update_dining_table_status_def bind_res_Inr)

lemma distinct_row_unique:
  "distinct (map row_id rs) \<Longrightarrow> r \<in> set rs \<Longrightarrow> r' \<in> set rs \<Longrightarrow> row_id r = row_id r' \<Longrightarrow> r = r'"
  by (auto simp: distinct_map inj_on_def)

interpretation tables: status_machine table_status table_step
  "\<lambda>a b. b \<in> set (TABLE_STATUS_TRANSITIONS a)"
proof unfold_locales
  fix d d' k a
  assume "table_step d d'" and a: "status_in dt_status (dining_tables d) k = Some a"
  let ?moved = "\<exists>b. status_in dt_status (dining_tables d') k = Some b \<and>
    (b = a \<or> b \<in> set (TABLE_STATUS_TRANSITIONS a))"
  from \<open>table_step d d'\<close> show ?moved
  proof cases
    case (step_status c t bid st user r)
    then obtain table where tb: "get_dining_table_by_id d t bid = Inr table"
      and v: "is_valid_table_status_transition (dt_status table) st False"
      and d': "dining_tables d' = update_where (\<lambda>r. row_id r = row_id table)
        (set_table_status c st user) (dining_tables d)"
      by (auto simp: update_dining_table_status_Inr transition_table_status_Inr)
    have "row = table" if "row \<in> set (dining_tables d)" "row_id row = row_id table" for row
      by (rule distinct_row_unique [OF step_status(1) that(1) get_dining_table_by_id_Inr(1) [OF tb] that(2)])
    with v show ?thesis unfolding d'
      by (intro status_in_moved [OF a])
        (auto simp: set_table_status_def is_valid_table_status_transition_def split: if_splits)
  next
    case (step_create c bid new user r)
    then obtain row where "dining_tables d' = dining_tables d @ [row]"
      by (auto simp: create_dining_table_def handler_simps fresh_uuid_def commit_tables_def Let_def
          split: if_splits)
    then show ?thesis using a by (simp add: status_in_kept)
  next
    case (step_update c t bid data user r)
    then obtain i where "dining_tables d' =
        update_where (\<lambda>r. row_id r = i) (edit_dining_table c data user) (dining_tables d)"
      by (auto simp: update_dining_table_def handler_simps commit_tables_def split: if_splits)
    then show ?thesis using a by (simp add: status_in_edited edit_dining_table_def)
  next
    case (step_delete c t bid user)
    then obtain i where "dining_tables d' =
        update_where (\<lambda>r. row_id r = i) (soft_delete c user) (dining_tables d)"
      by (auto simp: delete_dining_table_def handler_simps)
    then show ?thesis using a by (simp add: status_in_edited soft_delete_def)
  next
    case step_elsewhere
    then show ?thesis using a by simp
  qed
qed

text \<open>
  However clients create, edit, delete and move tables without \<open>force\<close>, a table only comes to
  be cleaned by way of the bill: on every run that takes it from another status to \<open>cleaning\<close>
  there is a moment at which it was \<open>billing\<close>. And a table is only billed after it was occupied.
\<close>

theorem table_served_in_order:
  assumes "table_step\<^sup>*\<^sup>* d f" "table_status d t = Some a"
  shows "(a \<noteq> TableStatus_cleaning \<and> table_status f t = Some TableStatus_cleaning \<longrightarrow>
      (\<exists>e. table_step\<^sup>*\<^sup>* d e \<and> table_step\<^sup>*\<^sup>* e f \<and> table_status e t = Some TableStatus_billing)) \<and>
    (a \<noteq> TableStatus_billing \<and> table_status f t = Some TableStatus_billing \<longrightarrow>
      (\<exists>e. table_step\<^sup>*\<^sup>* d e \<and> table_step\<^sup>*\<^sup>* e f \<and> table_status e t = Some TableStatus_occupied))"
proof -
  have "x = TableStatus_billing"
    if "TableStatus_cleaning \<in> set (TABLE_STATUS_TRANSITIONS x)" for x
    using that by (cases x) auto
  moreover have "x = TableStatus_occupied"
    if "TableStatus_billing \<in> set (TABLE_STATUS_TRANSITIONS x)" for x
    using that by (cases x) auto
  ultimately show ?thesis
    using tables.run_gate [OF assms, of "{TableStatus_cleaning}" _ "{TableStatus_billing}"]
      tables.run_gate [OF assms, of "{TableStatus_billing}" _ "{TableStatus_occupied}"]
    by auto
qed

definition sample_table :: "uuid \<Rightarrow> TableStatusEnum \<Rightarrow> dining_table" where
  "sample_table i st = new_row i 1 None 0
     \<lparr>dt_branch_id = 2, dt_floor_plan_id = None, dt_table_number = ''T1'', dt_capacity = 4,
      dt_status = st, dt_pos_x = None, dt_pos_y = None, dt_is_active = True\<rparr>"

definition sample_floor :: "TableStatusEnum \<Rightarrow> db" where
  "sample_floor st = (empty_db id)\<lparr>dining_tables := [sample_table 7 st]\<rparr>"

lemma sample_table_found: "get_dining_table_by_id (sample_floor st) 7 1 = Inr (sample_table 7 st)"
  by (simp add: get_dining_table_by_id_def sample_floor_def sample_table_def live_def)

lemma sample_moves:
  assumes "st' \<in> set (TABLE_STATUS_TRANSITIONS st)" "st \<noteq> st'"
  shows "\<exists>s. table_step (sample_floor st) s \<and> table_status s 7 = Some st'"
proof -
  have v: "is_valid_table_status_transition st st' False"
    using assms by (simp add: is_valid_table_status_transition_def)
  have dt: "dt_status (sample_table 7 st) = st" "row_id (sample_table 7 st) = 7"
    by (simp_all add: sample_table_def)
  obtain r s where r: "update_dining_table_status sample_now 7 1 st' 9 False (sample_floor st) = Inr (r, s)"
    and s: "s = (sample_floor st)\<lparr>dining_tables := update_where (\<lambda>r. row_id r = 7)
      (set_table_status sample_now st' 9) (dining_tables (sample_floor st))\<rparr>"
    using v by (simp add: update_dining_table_status_def sample_table_found transition_table_status_def dt
        del: One_nat_def)
  have "table_step (sample_floor st) s"
    by (rule table_step.step_status [OF _ r]) (simp add: sample_floor_def)
  moreover have "table_status s 7 = Some st'"
    by (simp add: s sample_floor_def dt set_table_status_def)
  ultimately show ?thesis by blast
qed

lemma table_served_in_order_witness:
  "\<exists>d e f. table_step\<^sup>*\<^sup>* d e \<and> table_step\<^sup>*\<^sup>* e f \<and> table_status d 7 = Some TableStatus_occupied \<and>
     table_status e 7 = Some TableStatus_occupied \<and> table_status f 7 = Some TableStatus_billing"
proof -
  let ?d = "sample_floor TableStatus_occupied"
  obtain f where "table_step ?d f" "table_status f 7 = Some TableStatus_billing"
    using sample_moves [of TableStatus_billing TableStatus_occupied] by auto
  moreover have "table_status ?d 7 = Some TableStatus_occupied"
    by (simp add: sample_floor_def sample_table_def)
  ultimately show ?thesis using table_served_in_order [of ?d f 7 TableStatus_occupied] by blast
qed

section \<open>Table numbers\<close>

lemma tables_unique_edited:
  assumes "\<And>r. (business_id (f r), dt_branch_id (f r), dt_table_number (f r)) =
    (business_id r, dt_branch_id r, dt_table_number r)"
  shows "tables_unique (update_where P f rs) = tables_unique rs"
  unfolding tables_unique_def using assms by (subst map_update_where) auto

lemma create_dining_table_Inr:
  assumes "create_dining_table c bid new user s = Inr (r, s')"
  shows "dining_tables s' = dining_tables s @ [r]" "tables_unique (dining_tables s')"
    "business_id r = bid" "dt_branch_id r = cdt_branch_id new" "dt_table_number r = cdt_table_number new"
    "dt_status r = TableStatus_available" "live r"
  using assms by (auto simp: create_dining_table_def handler_simps fresh_uuid_def commit_tables_def
      Let_def live_def split: if_splits)

lemma table_step_unique:
  assumes "table_step s s'" "tables_unique (dining_tables s)"
  shows "tables_unique (dining_tables s')"
  using assms(1)
proof cases
  case (step_status c t bid st user r)
  then show ?thesis using assms(2)
    by (auto simp: update_dining_table_status_Inr transition_table_status_Inr tables_unique_edited
        set_table_status_def)
next
  case (step_create c bid new user r)
  then show ?thesis by (rule create_dining_table_Inr(2))
next
  case (step_update c t bid data user r)
  then show ?thesis
    by (auto simp: update_dining_table_def handler_simps commit_tables_def split: if_splits)
next
  case (step_delete c t bid user)
  then show ?thesis using assms(2)
    by (auto simp: delete_dining_table_def handler_simps tables_unique_edited soft_delete_def)
qed (use assms(2) in simp)

text \<open>
  The number of a table identifies it within its branch on every run, and creating a table
  succeeds only with a number no table of the branch has or ever had: a number stays taken after
  its table was deleted.
\<close>

theorem table_numbers_unique:
  assumes "tables_unique (dining_tables d)" "table_step\<^sup>*\<^sup>* d s" "create_dining_table c bid new user s = Inr (r, s')"
  shows "tables_unique (dining_tables s') \<and>
    (\<forall>x\<in>set (dining_tables s). business_id x = bid \<and> dt_branch_id x = cdt_branch_id new \<longrightarrow>
       dt_table_number x \<noteq> cdt_table_number new) \<and>
    (\<forall>k. k \<in> row_id ` set (dining_tables d) \<longrightarrow> k \<in> row_id ` set (dining_tables s')) \<and>
    (\<exists>r\<in>set (dining_tables s'). live r \<and> dt_table_number r = cdt_table_number new \<and>
       dt_status r = TableStatus_available)"
proof -
  note new = create_dining_table_Inr [OF assms(3)]
  have "\<forall>x\<in>set (dining_tables s). (business_id x, dt_branch_id x, dt_table_number x) \<noteq>
      (bid, cdt_branch_id new, cdt_table_number new)"
    using new(2) by (force simp: new(1,3-5) tables_unique_def)
  moreover have "k \<in> row_id ` set (dining_tables s')" if "k \<in> row_id ` set (dining_tables d)" for k
  proof -
    obtain a where a: "table_status d k = Some a"
      using \<open>k \<in> row_id ` set (dining_tables d)\<close> status_in_dom [of dt_status] by metis
    have "table_step\<^sup>*\<^sup>* d s'"
      using assms(2) table_step.step_create [OF assms(3)] by (rule rtranclp.rtrancl_into_rtrancl)
    from tables.run_status [OF this a] show ?thesis using status_in_dom [of dt_status] by metis
  qed
  ultimately show ?thesis using new by auto
qed

definition sample_new_table :: "string \<Rightarrow> CreateDiningTableRequest" where
  "sample_new_table n = \<lparr>cdt_branch_id = 2, cdt_floor_plan_id = None, cdt_table_number = n,
     cdt_capacity = 2, cdt_pos_x = None, cdt_pos_y = None\<rparr>"

lemma table_numbers_unique_witness:
  "\<exists>r s'. create_dining_table sample_now 1 (sample_new_table ''T2'') 9
       ((sample_floor TableStatus_available)\<lparr>branches := [sample_branch]\<rparr>) = Inr (r, s') \<and>
     tables_unique (dining_tables s') \<and> length (dining_tables s') = 2"
proof -
  let ?s = "(sample_floor TableStatus_available)\<lparr>branches := [sample_branch]\<rparr>"
  obtain r s' where r: "create_dining_table sample_now 1 (sample_new_table ''T2'') 9 ?s = Inr (r, s')"
    by (simp add: create_dining_table_def verify_branch_def sample_floor_def sample_branch_def live_def
        verify_plan_of_branch_def sample_new_table_def fresh_uuid_def commit_tables_def tables_unique_def
        sample_table_def Let_def)
  have "tables_unique (dining_tables ?s)" by (simp add: tables_unique_def sample_floor_def)
  from table_numbers_unique [OF this _ r] r create_dining_table_Inr(1) [OF r] show ?thesis
    by (simp add: sample_floor_def)
qed

lemma deleted_table_keeps_number:
  \<comment> \<open>the number of a deleted table cannot be given to a new one\<close>
  "\<exists>s. delete_dining_table sample_now 7 1 9
         ((sample_floor TableStatus_available)\<lparr>branches := [sample_branch]\<rparr>) = Inr s \<and>
     get_dining_tables s 1 None None None = [] \<and>
     create_dining_table sample_now 1 (sample_new_table ''T1'') 9 s =
       bad_request ''Table number already exists for this branch''"
  by (simp add: delete_dining_table_def get_dining_table_by_id_def create_dining_table_def
      verify_branch_def sample_floor_def sample_branch_def live_def verify_plan_of_branch_def
      sample_new_table_def fresh_uuid_def commit_tables_def tables_unique_def sample_table_def
      get_dining_tables_def soft_delete_def Let_def)

end
