(* ===== verification/Voids.thy ===== *)
theory Voids
  imports Sales Tables
begin

text \<open>
  \<open>void_sale\<close> and \<open>cancel_sale\<close> of \<open>app/services/sale_service.py\<close>: undoing a sale. Its lines go
  back to the cost layers, its completed payments are refunded and reversed in the register, and
  what was put on account is taken off again. In the audit trail an instant is \<open>JNum\<close>.
\<close>

section \<open>The rows of a sale\<close>

definition lines_of :: "db \<Rightarrow> sale \<Rightarrow> sale_line list" where
  \<comment> \<open>\<open>sale.lines\<close>\<close>
  "lines_of s sl = filter (\<lambda>l. sln_sale_id l = row_id sl) (sale_lines s)"

definition payments_of :: "db \<Rightarrow> sale \<Rightarrow> sale_payment list" where
  \<comment> \<open>\<open>sale.payments\<close>\<close>
  "payments_of s sl = filter (\<lambda>p. sp_sale_id p = row_id sl) (sale_payments s)"

definition sale_invoice_total :: "sale_line list \<Rightarrow> decimal" where
  "sale_invoice_total lines =
     invoice_round2 (sum_where (\<lambda>l. sln_qty l * sln_unit_price l - sln_discount_amount l + sln_tax_amount l)
       live lines)"

definition completed_payment :: "sale_payment \<Rightarrow> bool" where
  "completed_payment p \<longleftrightarrow> live p \<and> sp_status p = PaymentStatus_completed"

definition sale_has_completed_payments :: "db \<Rightarrow> sale \<Rightarrow> bool" where
  "sale_has_completed_payments s sl \<longleftrightarrow> (\<exists>p\<in>set (payments_of s sl). completed_payment p)"

definition return_of_sale :: "uuid \<Rightarrow> uuid \<Rightarrow> sale_return \<Rightarrow> bool" where
  "return_of_sale bid sale_id r \<longleftrightarrow> sr_sale_id r = Some sale_id \<and> business_id r = bid \<and> live r"

definition sale_has_return_lines :: "db \<Rightarrow> uuid \<Rightarrow> uuid \<Rightarrow> bool" where
  "sale_has_return_lines s bid sale_id \<longleftrightarrow>
     (\<exists>l\<in>set (sale_return_lines s). live l \<and>
        (\<exists>r\<in>set (sale_returns s). srl_sale_return_id l = row_id r \<and> return_of_sale bid sale_id r))"

definition get_sale_for_update :: "db \<Rightarrow> uuid \<Rightarrow> uuid \<Rightarrow> sale res" where
  "get_sale_for_update s sale_id bid =
     require_one (HTTPException 404 ''Sale not found'' [])
       (filter (\<lambda>r. row_id r = sale_id \<and> business_id r = bid \<and> live r) (sales s))"

section \<open>Undoing\<close>

definition restore_line ::
  "clock \<Rightarrow> uuid \<Rightarrow> uuid \<Rightarrow> uuid \<Rightarrow> datetime \<Rightarrow> sale_line \<Rightarrow> db \<Rightarrow> db" where
  "restore_line c bid branch_id user movement_at l s =
     (if \<not> live l then s
      else restore_sale_line_inventory c bid branch_id (sln_product_id l) (sln_variation_id l) (row_id l)
             (sln_qty l) (sln_cost_per_unit l) (sln_qty l) StockMovementType_sale_return
             ReferenceType_sale_line (row_id l) user movement_at s)"

definition restore_all_sale_line_inventory ::
  "clock \<Rightarrow> sale \<Rightarrow> uuid \<Rightarrow> uuid \<Rightarrow> datetime \<Rightarrow> db \<Rightarrow> db" where
  "restore_all_sale_line_inventory c sl bid user movement_at s =
     fold (restore_line c bid (s_branch_id sl) user movement_at) (lines_of s sl) s"

definition reverse_payment ::
  "clock \<Rightarrow> sale \<Rightarrow> uuid \<Rightarrow> uuid \<Rightarrow> datetime \<Rightarrow> sale_payment \<Rightarrow> decimal \<times> db \<Rightarrow> decimal \<times> db" where
  "reverse_payment c sl bid user transacted_at payment = (\<lambda>(reversed_credit, s).
     if \<not> completed_payment payment then (reversed_credit, s)
     else
       let s = s\<lparr>sale_payments := update_where (\<lambda>p. row_id p = row_id payment)
                  (\<lambda>p. p\<lparr>sp_status := PaymentStatus_refunded, updated_at := transacted_at\<rparr>) (sale_payments s)\<rparr>;
           reversed_credit = (if sp_payment_method payment = PaymentMethod_credit
                              then reversed_credit + sp_amount payment else reversed_credit);
           s = (case s_register_shift_id sl of
                  None \<Rightarrow> s
                | Some sh \<Rightarrow> snd (add_register_tx c bid sh RegisterTxType_sale_return
                    (sp_payment_method payment) (sp_amount payment) (Some ReferenceType_sale)
                    (Some (row_id sl)) None transacted_at user s))
       in (reversed_credit, s))"

definition reverse_completed_sale_settlements ::
  "clock \<Rightarrow> sale \<Rightarrow> uuid \<Rightarrow> uuid \<Rightarrow> datetime \<Rightarrow> db \<Rightarrow> db" where
  "reverse_completed_sale_settlements c sl bid user transacted_at s =
     (let (reversed_credit, s) = fold (reverse_payment c sl bid user transacted_at) (payments_of s sl) (0, s)
      in case s_customer_id sl of
           None \<Rightarrow> s
         | Some cu \<Rightarrow>
             if 0 < reversed_credit then
               snd (create_ledger_entry c bid cu LedgerEntryType_refund reversed_credit user
                      (Some ReferenceType_sale) (Some (row_id sl)) (Some ''Sale settlement reversed'') s)
             else s)"

definition set_sale :: "sale \<Rightarrow> (sale \<Rightarrow> sale) \<Rightarrow> db \<Rightarrow> db" where
  "set_sale sl f s = s\<lparr>sales := update_where (\<lambda>r. row_id r = row_id sl) f (sales s)\<rparr>"

definition voided :: "clock \<Rightarrow> uuid \<Rightarrow> sale \<Rightarrow> sale" where
  "voided c user r = r\<lparr>s_status := SaleStatus_voided, updated_by := Some user, updated_at := now c\<rparr>"

definition log_sale_audit ::
  "uuid \<Rightarrow> uuid \<Rightarrow> sale \<Rightarrow> (string \<times> json) list \<Rightarrow> (string \<times> json) list \<Rightarrow> db \<Rightarrow> db" where
  "log_sale_audit bid user sl old_values new_values s =
     log_audit bid (Some user) (Some (s_branch_id sl)) AuditAction_update ''sales'' (row_id sl)
       (Some old_values) (Some new_values) s"

definition void_sale :: "clock \<Rightarrow> uuid \<Rightarrow> uuid \<Rightarrow> uuid \<Rightarrow> db \<Rightarrow> db res" where
  "void_sale c sale_id bid user s =
     bind_res (get_sale_for_update s sale_id bid) (\<lambda>sl.
     if s_status sl \<noteq> SaleStatus_completed then
       Inl (HTTPException 400 ''Only completed sales can be voided (status is '{}')''
         [AStr (SaleStatusEnum_value (s_status sl))])
     else case s_register_shift_id sl of
       None \<Rightarrow> bad_request ''Void is not available for sales without a register shift - use Returns''
     | Some sh \<Rightarrow>
         if sale_has_return_lines s bid (row_id sl)
         then bad_request ''Cannot void a sale that already has return lines - use Returns''
         else bind_res (verify_open_register_shift s sh bid
                 ''Shift is closed - use Returns instead of voiding this sale'') (\<lambda>_.
           let s = restore_all_sale_line_inventory c sl bid user (now c) s;
               s = reverse_completed_sale_settlements c sl bid user (now c) s;
               s = set_sale sl (voided c user) s;
               s = log_sale_audit bid user sl
                     [(''status'', JStr (SaleStatusEnum_value (s_status sl))),
                      (''total'', JNum (sale_invoice_total (lines_of s sl))),
                      (''sale_number'', JStr (s_sale_number sl))]
                     [(''status'', JStr (SaleStatusEnum_value SaleStatus_voided)), (''action'', JStr ''void''),
                      (''voided_at'', JNum (of_int (now c))), (''voided_by'', JUuid user)] s
           in Inr s))"

definition cancelled :: "clock \<Rightarrow> uuid \<Rightarrow> sale \<Rightarrow> sale" where
  "cancelled c user r = r\<lparr>s_status := SaleStatus_cancelled, deleted_by := Some user,
     updated_by := Some user, updated_at := now c\<rparr>"

definition skip_inventory_restore :: "sale \<Rightarrow> bool" where
  "skip_inventory_restore sl \<longleftrightarrow> s_sale_type sl = SaleType_dine_in \<and>
     s_status sl \<in> {SaleStatus_held, SaleStatus_draft, SaleStatus_partially_paid}"

definition cancel_sale :: "clock \<Rightarrow> uuid \<Rightarrow> uuid \<Rightarrow> uuid \<Rightarrow> db \<Rightarrow> db res" where
  "cancel_sale c sale_id bid user s =
     bind_res (get_sale_for_update s sale_id bid) (\<lambda>sl.
     if s_status sl \<in> {SaleStatus_completed, SaleStatus_voided} then
       Inl (HTTPException 400 (''Cannot cancel sale with status '{}'' @ [CHR 0x27])
         [AStr (SaleStatusEnum_value (s_status sl))])
     else if sale_has_return_lines s bid (row_id sl)
       then bad_request ''Cannot cancel a sale that already has return lines - use Returns''
     else
       let s = (if skip_inventory_restore sl then s
                else restore_all_sale_line_inventory c sl bid user (now c) s);
           s = (if sale_has_completed_payments s sl
                then reverse_completed_sale_settlements c sl bid user (now c) s else s);
           s = set_sale sl (cancelled c user) s;
           s = log_sale_audit bid user sl
                 [(''status'', JStr (SaleStatusEnum_value (s_status sl))),
                  (''sale_number'', JStr (s_sale_number sl)),
                  (''total'', JNum (sale_invoice_total (lines_of s sl)))]
                 [(''status'', JStr (SaleStatusEnum_value SaleStatus_cancelled)), (''action'', JStr ''cancel'')] s
       in on_held_tab_cancelled c (cancelled c user sl) user s)"

section \<open>What putting a line back leaves behind\<close>

abbreviation layer_meta :: "purchase_line \<Rightarrow> uuid \<times> decimal \<times> bool" where
  "layer_meta l \<equiv> (row_id l, pl_received_qty l, live l)"

lemma restore_layers_meta:
  "map layer_meta (purchase_lines (restore_fifo_layers c bid xs s)) = map layer_meta (purchase_lines s) \<and>
   (\<exists>ls. restore_fifo_layers c bid xs s = s\<lparr>purchase_lines := ls\<rparr>)"
proof (induction xs arbitrary: s)
  case Nil
  then show ?case by (auto simp: restore_fifo_layers_def intro: exI [of _ "purchase_lines s"])
next
  case (Cons x xs)
  have step: "map layer_meta (purchase_lines (restore_step c bid x s)) = map layer_meta (purchase_lines s)"
    by (auto simp: restore_step_def restore_layer_def live_def Let_def map_update_where split: option.splits)
  obtain ls where ls: "restore_step c bid x s = s\<lparr>purchase_lines := ls\<rparr>"
    by (cases "fc_purchase_line_id x") (auto simp: restore_step_def intro: that [of "purchase_lines s"])
  show ?case using Cons [of "restore_step c bid x s"] step ls by (auto simp: restore_fifo_layers_def)
qed

lemma restore_movements_eq:
  "\<exists>ms. fold (restore_movement c bid br p v mt rt rid user mat) xs s =
      s\<lparr>uuid_next := uuid_next s + length xs, movements := movements s @ ms\<rparr> \<and>
    (\<forall>m\<in>set ms. live m \<and> sm_movement_type m = mt) \<and>
    (\<forall>i. sum_where sm_qty (\<lambda>m. sm_purchase_line_id m = Some i) ms = taken xs i)"
proof (induction xs arbitrary: s)
  case Nil
  then show ?case by (intro exI [of _ "[]"]) simp
next
  case (Cons x xs)
  obtain m t where t: "create_stock_movement c bid br p v mt (fc_qty x) (fc_cost_per_unit x) rt rid user
      (fc_purchase_line_id x) None None None (Some mat) None s = (m, t)" by fastforce
  note E = create_stock_movement_eq [OF t]
  have mt: "sm_movement_type m = mt"
    using t by (auto simp: create_stock_movement_def fresh_uuid_def Let_def)
  obtain ms where "fold (restore_movement c bid br p v mt rt rid user mat) xs t =
      t\<lparr>uuid_next := uuid_next t + length xs, movements := movements t @ ms\<rparr>"
    "\<forall>m\<in>set ms. live m \<and> sm_movement_type m = mt"
    "\<forall>i. sum_where sm_qty (\<lambda>m. sm_purchase_line_id m = Some i) ms = taken xs i" using Cons by blast
  moreover have "restore_movement c bid br p v mt rt rid user mat x s = t" by (simp add: restore_movement_def t)
  ultimately show ?case using mt E(2,4,5)
    by (intro exI [of _ "m # ms"]) (simp add: E(1))
qed

definition put_back :: "uuid \<Rightarrow> uuid \<Rightarrow> StockMovementTypeEnum \<Rightarrow> db \<Rightarrow> db \<Rightarrow> bool" where
  \<comment> \<open>movements of one type were added, no old layer got more than the sale line took from it, and
     nothing else changed but the layers\<close>
  "put_back bid sl mt s s' \<longleftrightarrow>
     (\<exists>ms ls. s' = s\<lparr>uuid_next := uuid_next s', purchase_lines := purchase_lines s', movements := movements s @ ms\<rparr> \<and>
        uuid_next s \<le> uuid_next s' \<and> (\<forall>m\<in>set ms. live m \<and> sm_movement_type m = mt) \<and>
        (\<forall>i\<in>drawn s. sum_where sm_qty (\<lambda>m. sm_purchase_line_id m = Some i) ms \<le> consumed s bid sl i) \<and>
        map layer_meta (purchase_lines s') = map layer_meta (purchase_lines s) @ ls)"

lemma restore_untraced_eq:
  assumes "restore_untraced c bid br p v q cost mt rt rid user mat s = s'"
  obtains l m where "s' = s\<lparr>uuid_next := uuid_next s + 2, purchase_lines := purchase_lines s @ [l],
      movements := movements s @ [m]\<rparr>"
    "live m" "sm_movement_type m = mt" "sm_purchase_line_id m = Some (uuid_gen s (uuid_next s))"
proof -
  obtain l t where l: "create_fifo_layer c bid br p v q cost user ''return'' (Some mat) None None s = (l, t)"
    by fastforce
  obtain m u where m: "create_stock_movement c bid br p v mt q cost rt rid user (Some (row_id l)) None None None
      (Some mat) None t = (m, u)" by fastforce
  have "s' = u" using assms by (simp add: restore_untraced_def l m)
  moreover have "sm_movement_type m = mt"
    using m by (auto simp: create_stock_movement_def fresh_uuid_def Let_def)
  ultimately show thesis
    using create_fifo_layer_eq(1,2) [OF l] create_stock_movement_eq(1,2,5) [OF m]
    by (intro that [of m l]) simp_all
qed

lemma consumed_nonneg: "0 \<le> consumed s bid sl i"
  unfolding consumed_def by (rule sum_where_nonneg) simp

lemma put_back_untraced:
  assumes "inj (uuid_gen s)" "restore_untraced c bid br p v q cost mt rt rid user mat s = s'"
  shows "put_back bid sl mt s s'"
proof -
  obtain l m where s': "s' = s\<lparr>uuid_next := uuid_next s + 2, purchase_lines := purchase_lines s @ [l],
      movements := movements s @ [m]\<rparr>"
    and m: "live m" "sm_movement_type m = mt" "sm_purchase_line_id m = Some (uuid_gen s (uuid_next s))"
    using assms(2) by (rule restore_untraced_eq)
  have "uuid_gen s (uuid_next s) \<notin> drawn s" using assms(1) by (auto simp: drawn_def inj_def)
  then have "\<forall>i\<in>drawn s. sum_where sm_qty (\<lambda>m. sm_purchase_line_id m = Some i) [m] \<le> consumed s bid sl i"
    using m consumed_nonneg by auto
  then show ?thesis unfolding put_back_def
    by (intro exI [of _ "[m]"] exI [of _ "[layer_meta l]"]) (use m in \<open>simp add: s'\<close>)
qed

lemma put_back_restore:
  assumes "inj (uuid_gen s)"
    and "restore_sale_line_inventory c bid br p v sl lq cost q mt rt rid user mat s = s'"
  shows "put_back bid sl mt s s'"
proof -
  let ?tr = "get_traced_sale_line_consumptions s bid sl"
  define plan where "plan = plan_lifo_restoration ?tr (min q (sum_list (map fc_qty ?tr)))"
  define t where "t = fold (restore_movement c bid br p v mt rt rid user mat) plan (restore_fifo_layers c bid plan s)"
  have pos: "\<forall>x\<in>set (rev ?tr). 0 < fc_qty x" using traced_positive by simp
  have tk: "taken plan i \<le> consumed s bid sl i" for i
    using taken_plan [OF pos, of _ i] consumed_nonneg [of s bid sl i]
    by (auto simp: plan_def plan_lifo_restoration_def taken_rev taken_traced)
  obtain ls where ls: "restore_fifo_layers c bid plan s = s\<lparr>purchase_lines := ls\<rparr>"
    "map layer_meta ls = map layer_meta (purchase_lines s)"
    using restore_layers_meta [of c bid plan s] by auto
  obtain ms where ms: "t = s\<lparr>purchase_lines := ls, uuid_next := uuid_next s + length plan, movements := movements s @ ms\<rparr>"
    "\<forall>m\<in>set ms. live m \<and> sm_movement_type m = mt"
    "\<forall>i. sum_where sm_qty (\<lambda>m. sm_purchase_line_id m = Some i) ms = taken plan i"
    using restore_movements_eq [of c bid br p v mt rt rid user mat plan "restore_fifo_layers c bid plan s"]
    by (auto simp: t_def ls(1))
  consider "restore_untraced c bid br p v q cost mt rt rid user mat s = s'" | "s' = t"
    | un where "restore_untraced c bid br p v un cost mt rt rid user mat t = s'"
    using assms(2) by (auto simp: restore_sale_line_inventory_def Let_def plan_def t_def split: if_splits)
  then show ?thesis
  proof cases
    case 1
    then show ?thesis by (rule put_back_untraced [OF assms(1)])
  next
    case 2
    then show ?thesis unfolding put_back_def
      by (intro exI [of _ ms] exI [of _ "[]"]) (use ms ls tk in simp)
  next
    case (3 un)
    obtain l m where s': "s' = t\<lparr>uuid_next := uuid_next t + 2, purchase_lines := purchase_lines t @ [l],
        movements := movements t @ [m]\<rparr>"
      and m: "live m" "sm_movement_type m = mt" "sm_purchase_line_id m = Some (uuid_gen t (uuid_next t))"
      using 3 by (rule restore_untraced_eq)
    have "uuid_gen t (uuid_next t) \<notin> drawn s" using assms(1) by (auto simp: drawn_def inj_def ms(1))
    then have "\<forall>i\<in>drawn s. sum_where sm_qty (\<lambda>m. sm_purchase_line_id m = Some i) (ms @ [m]) \<le> consumed s bid sl i"
      using m ms(3) tk by auto
    then show ?thesis unfolding put_back_def
      by (intro exI [of _ "ms @ [m]"] exI [of _ "[layer_meta l]"]) (use ms(1,2) ls m in \<open>auto simp: s'\<close>)
  qed
qed

section \<open>Putting every line back\<close>

definition room_for_lines :: "db \<Rightarrow> uuid \<Rightarrow> uuid list \<Rightarrow> bool" where
  \<comment> \<open>no layer would be filled beyond what it received if all the sale lines were put back\<close>
  "room_for_lines s bid ids \<longleftrightarrow>
     (\<forall>l\<in>set (purchase_lines s). pl_qty_remaining l + sum_list (map (\<lambda>i. consumed s bid i (row_id l)) ids)
        \<le> pl_received_qty l)"

lemma consumed_unlayered:
  assumes "stock_ok d s" "\<And>l. l \<in> set (purchase_lines s) \<Longrightarrow> row_id l = i \<Longrightarrow> \<not> live l"
  shows "consumed s bid sl i = 0"
  unfolding consumed_def
proof (rule sum_where_none)
  fix m assume m: "m \<in> set (movements s)"
  show "\<not> (sale_line_movement bid sl m \<and> sm_purchase_line_id m = Some i)"
    using stock_okD(5) [OF assms(1) m] assms(2)
    by (auto simp: sale_line_movement_def layered_def layer_at_def split: prod.splits)
qed

lemma put_backE:
  assumes "put_back bid sl mt s s'"
  obtains ms ls where "movements s' = movements s @ ms" "\<forall>m\<in>set ms. live m" "\<forall>m\<in>set ms. sm_movement_type m = mt"
    "\<forall>i\<in>drawn s. sum_where sm_qty (\<lambda>m. sm_purchase_line_id m = Some i) ms \<le> consumed s bid sl i"
    "map layer_meta (purchase_lines s') = map layer_meta (purchase_lines s) @ ls"
    "uuid_gen s' = uuid_gen s" "uuid_next s \<le> uuid_next s'"
    "s' = s\<lparr>uuid_next := uuid_next s', purchase_lines := purchase_lines s', movements := movements s'\<rparr>"
proof -
  obtain ms ls where eq: "s' = s\<lparr>uuid_next := uuid_next s', purchase_lines := purchase_lines s',
      movements := movements s @ ms\<rparr>"
    and rest: "uuid_next s \<le> uuid_next s'" "\<forall>m\<in>set ms. live m \<and> sm_movement_type m = mt"
    "\<forall>i\<in>drawn s. sum_where sm_qty (\<lambda>m. sm_purchase_line_id m = Some i) ms \<le> consumed s bid sl i"
    "map layer_meta (purchase_lines s') = map layer_meta (purchase_lines s) @ ls"
    using assms unfolding put_back_def by blast
  have ms: "movements s' = movements s @ ms" "uuid_gen s' = uuid_gen s" by (subst eq, simp)+
  show thesis by (rule that [OF ms(1) _ _ rest(3,4) ms(2) rest(1)]) (use rest(2) eq ms(1) in simp_all)
qed

lemma put_back_sales:
  assumes "put_back bid sl mt s s'" "mt \<noteq> StockMovementType_sale"
  shows "consumed s' b i j = consumed s b i j" "sale_line_at s' k i = sale_line_at s k i"
proof -
  obtain ms where ms: "movements s' = movements s @ ms" "\<forall>m\<in>set ms. sm_movement_type m = mt"
    using assms(1) by (rule put_backE) blast
  then have "\<forall>m\<in>set ms. \<not> sale_line_movement b i m" for b i
    using assms(2) by (auto simp: sale_line_movement_def)
  then show "consumed s' b i j = consumed s b i j" "sale_line_at s' k i = sale_line_at s k i"
    by (auto simp: consumed_def sale_line_at_def ms(1) intro!: sum_where_none)
qed

lemma put_back_room:
  assumes "put_back bid sl mt s s'" "mt \<noteq> StockMovementType_sale" "reconciled s" "reconciled s'"
    and "room_for_lines s bid (sl # ids)"
  shows "room_for_lines s' bid ids"
  unfolding room_for_lines_def
proof
  fix l' assume l': "l' \<in> set (purchase_lines s')"
  obtain ms ls where ms: "movements s' = movements s @ ms" "\<forall>m\<in>set ms. live m"
    "\<forall>i\<in>drawn s. sum_where sm_qty (\<lambda>m. sm_purchase_line_id m = Some i) ms \<le> consumed s bid sl i"
    "map layer_meta (purchase_lines s') = map layer_meta (purchase_lines s) @ ls"
    using assms(1) by (rule put_backE)
  note ok = stock_okD [OF assms(3)] and ok' = stock_okD [OF assms(4)]
  note same = put_back_sales(1) [OF assms(1,2)]
  have dist: "distinct (map row_id (purchase_lines s'))" using ok'(2) by (simp add: keyed_def)
  have z: "sum_list (map (\<lambda>i. consumed s' bid i (row_id l')) ids) = sum_list (map (\<lambda>i. consumed s bid i (row_id l')) ids)"
    by (simp add: same)
  show "pl_qty_remaining l' + sum_list (map (\<lambda>i. consumed s' bid i (row_id l')) ids) \<le> pl_received_qty l'"
  proof (cases "live l' \<and> row_id l' \<in> row_id ` set (purchase_lines s)")
    case True
    then obtain l where l: "l \<in> set (purchase_lines s)" "row_id l = row_id l'" by auto
    have "layer_meta l \<in> set (map layer_meta (purchase_lines s'))" using l(1) unfolding ms(4) by auto
    then obtain x where x: "x \<in> set (purchase_lines s')" "layer_meta x = layer_meta l" by auto
    then have "x = l'" using keyed_unique [OF dist x(1) l'] l(2) by simp
    then have m: "pl_received_qty l' = pl_received_qty l" "live l" using x(2) True by auto
    have "row_id l \<in> drawn s" using l(1) ok(2) by (auto simp: keyed_def)
    then have "sum_where sm_qty (\<lambda>m. live m \<and> sm_purchase_line_id m = Some (row_id l)) ms \<le> consumed s bid sl (row_id l)"
      using ms(3) sum_where_cong [of ms "\<lambda>m. live m \<and> sm_purchase_line_id m = Some (row_id l)"
          "\<lambda>m. sm_purchase_line_id m = Some (row_id l)" sm_qty sm_qty] ms(2) by auto
    moreover have "pl_qty_remaining l' = traced s (row_id l) +
        sum_where sm_qty (\<lambda>m. live m \<and> sm_purchase_line_id m = Some (row_id l)) ms"
      using ok'(4) [OF l'] True l(2) by (simp add: traced_def ms(1))
    moreover have "pl_qty_remaining l = traced s (row_id l)" using ok(4) [OF l(1) m(2)] by simp
    moreover have "pl_qty_remaining l + (consumed s bid sl (row_id l) +
        sum_list (map (\<lambda>i. consumed s bid i (row_id l)) ids)) \<le> pl_received_qty l"
      using assms(5) l(1) by (simp add: room_for_lines_def)
    ultimately show ?thesis by (simp add: same m(1) flip: l(2))
  next
    case False
    have "consumed s bid i (row_id l') = 0" for i
    proof (cases "live l'")
      case True
      then show ?thesis using False by (intro consumed_unlayered [OF assms(3)]) (metis image_eqI)
    next
      case dead: False
      have "consumed s' bid i (row_id l') = 0"
        using keyed_unique [OF dist _ l'] dead by (intro consumed_unlayered [OF assms(4)]) metis
      then show ?thesis by (simp add: same)
    qed
    then show ?thesis using ok'(3) [OF l'] by (simp add: z)
  qed
qed

definition line_position :: "uuid \<Rightarrow> uuid \<Rightarrow> sale_line \<Rightarrow> position" where
  "line_position bid br l = (bid, br, sln_product_id l, sln_variation_id l)"

definition restorable :: "db \<Rightarrow> uuid \<Rightarrow> uuid \<Rightarrow> sale_line list \<Rightarrow> bool" where
  \<comment> \<open>the sale lines' movements are at their own positions and their layers have room for them\<close>
  "restorable s bid br ls \<longleftrightarrow>
     (\<forall>l\<in>set ls. live l \<longrightarrow> 0 \<le> sln_qty l \<and> sale_line_at s (line_position bid br l) (row_id l)) \<and>
     room_for_lines s bid (map row_id (filter live ls))"

lemma room_for_first:
  assumes "room_for_lines s bid (i # ids)"
  shows "room_for s bid i"
  unfolding room_for_def
proof
  fix l assume "l \<in> set (purchase_lines s)"
  then have "pl_qty_remaining l + (consumed s bid i (row_id l) + sum_list (map (\<lambda>i. consumed s bid i (row_id l)) ids))
      \<le> pl_received_qty l"
    using assms by (simp add: room_for_lines_def)
  moreover have "0 \<le> sum_list (map (\<lambda>i. consumed s bid i (row_id l)) ids)"
    by (rule sum_list_nonneg) (auto simp: consumed_nonneg)
  ultimately show "pl_qty_remaining l + consumed s bid i (row_id l) \<le> pl_received_qty l" by simp
qed

lemma restore_lines_ok:
  assumes "reconciled s" "restorable s bid br ls" "fold (restore_line c bid br user mat) ls s = s'"
  shows "reconciled s' \<and>
    (\<forall>k. stock_at s' k = stock_at s k + sum_where sln_qty (\<lambda>l. live l \<and> line_position bid br l = k) ls) \<and>
    (\<exists>n ps ms. s' = s\<lparr>uuid_next := n, purchase_lines := ps, movements := ms\<rparr> \<and> uuid_next s \<le> n)"
  using assms
proof (induction ls arbitrary: s)
  case Nil
  then show ?case
    by (auto intro!: exI [of _ "uuid_next s'"] exI [of _ "purchase_lines s'"] exI [of _ "movements s'"])
next
  case (Cons l ls)
  show ?case
  proof (cases "live l")
    case False
    then show ?thesis using Cons.IH [OF Cons.prems(1)] Cons.prems(2,3)
      by (simp add: restore_line_def restorable_def)
  next
    case True
    define t where "t = restore_line c bid br user mat l s"
    have t: "restore_sale_line_inventory c bid br (sln_product_id l) (sln_variation_id l) (row_id l)
        (sln_qty l) (sln_cost_per_unit l) (sln_qty l) StockMovementType_sale_return
        ReferenceType_sale_line (row_id l) user mat s = t"
      by (simp add: t_def restore_line_def True)
    have first: "0 \<le> sln_qty l" "sale_line_at s (bid, br, sln_product_id l, sln_variation_id l) (row_id l)"
      and room: "room_for_lines s bid (row_id l # map row_id (filter live ls))"
      using Cons.prems(2) True by (simp_all add: restorable_def line_position_def)
    have R: "reconciled t"
      "\<forall>k. stock_at t k = stock_at s k + (if k = line_position bid br l then sln_qty l else 0)"
      using restore_sale_line_inventory_ok [OF Cons.prems(1) first(1) order_refl first(2) room_for_first [OF room] t]
      by (simp_all add: line_position_def)
    have pb: "put_back bid (row_id l) StockMovementType_sale_return s t"
      by (rule put_back_restore [OF stock_okD(1) [OF Cons.prems(1)] t])
    have "room_for_lines t bid (map row_id (filter live ls))"
      by (rule put_back_room [OF pb _ Cons.prems(1) R(1) room]) simp
    then have "restorable t bid br ls"
      using Cons.prems(2) put_back_sales(2) [OF pb] by (simp add: restorable_def)
    moreover have "fold (restore_line c bid br user mat) ls t = s'" using Cons.prems(3) by (simp add: t_def)
    ultimately have IH: "reconciled s'"
      "\<forall>k. stock_at s' k = stock_at t k + sum_where sln_qty (\<lambda>l. live l \<and> line_position bid br l = k) ls"
      "\<exists>n ps ms. s' = t\<lparr>uuid_next := n, purchase_lines := ps, movements := ms\<rparr> \<and> uuid_next t \<le> n"
      using Cons.IH [OF R(1)] by blast+
    then obtain n ps ms where F: "s' = t\<lparr>uuid_next := n, purchase_lines := ps, movements := ms\<rparr>" "uuid_next t \<le> n"
      by blast
    obtain G: "t = s\<lparr>uuid_next := uuid_next t, purchase_lines := purchase_lines t, movements := movements t\<rparr>"
      "uuid_next s \<le> uuid_next t" using pb by (rule put_backE)
    have "s' = s\<lparr>uuid_next := n, purchase_lines := ps, movements := ms\<rparr>"
      by (subst F(1), subst G(1)) simp
    then show ?thesis using IH(1,2) R(2) True F(2) G(2)
      by (intro conjI exI [of _ n] exI [of _ ps] exI [of _ ms]) auto
  qed
qed

section \<open>Reversing the settlement\<close>

definition refund_row :: "datetime \<Rightarrow> sale_payment \<Rightarrow> sale_payment \<Rightarrow> sale_payment" where
  "refund_row t payment p = (if row_id p = row_id payment
     then p\<lparr>sp_status := PaymentStatus_refunded, updated_at := t\<rparr> else p)"

definition cash_paid :: "sale_payment list \<Rightarrow> decimal" where
  "cash_paid ps = sum_where sp_amount (\<lambda>p. completed_payment p \<and> sp_payment_method p = PaymentMethod_cash) ps"

definition credit_paid :: "sale_payment list \<Rightarrow> decimal" where
  "credit_paid ps = sum_where sp_amount (\<lambda>p. completed_payment p \<and> sp_payment_method p = PaymentMethod_credit) ps"

lemma paid_simps [simp]:
  "cash_paid [] = 0" "credit_paid [] = 0"
  "cash_paid (p # ps) = (if completed_payment p \<and> sp_payment_method p = PaymentMethod_cash then sp_amount p else 0) + cash_paid ps"
  "credit_paid (p # ps) = (if completed_payment p \<and> sp_payment_method p = PaymentMethod_credit then sp_amount p else 0) + credit_paid ps"
  by (simp_all add: cash_paid_def credit_paid_def)

lemma reverse_payment_step:
  assumes "reverse_payment c sl bid user t p (cr, s) = (cr', s')" "completed_payment p"
  shows "cr' = cr + (if sp_payment_method p = PaymentMethod_credit then sp_amount p else 0)"
    "sale_payments s' = map (refund_row t p) (sale_payments s)"
    "drawer s' k = drawer s k - (if s_register_shift_id sl = Some (snd k) \<and> fst k = bid \<and>
        sp_payment_method p = PaymentMethod_cash then sp_amount p else 0)"
    "\<exists>n txs. s' = s\<lparr>uuid_next := n, sale_payments := sale_payments s', register_txs := txs\<rparr> \<and> uuid_next s \<le> n"
proof -
  let ?u = "s\<lparr>sale_payments := map (refund_row t p) (sale_payments s)\<rparr>"
  have upd: "update_where (\<lambda>r. row_id r = row_id p) (\<lambda>r. r\<lparr>sp_status := PaymentStatus_refunded, updated_at := t\<rparr>) rows
      = map (refund_row t p) rows" for rows
    by (simp add: update_where_def refund_row_def)
  show "cr' = cr + (if sp_payment_method p = PaymentMethod_credit then sp_amount p else 0)"
    using assms by (auto simp: reverse_payment_def Let_def)
  have s': "s' = (case s_register_shift_id sl of None \<Rightarrow> ?u
      | Some sh \<Rightarrow> snd (add_register_tx c bid sh RegisterTxType_sale_return (sp_payment_method p) (sp_amount p)
          (Some ReferenceType_sale) (Some (row_id sl)) None t user ?u))"
    using assms by (auto simp: reverse_payment_def Let_def upd)
  have "sale_payments s' = map (refund_row t p) (sale_payments s) \<and>
    drawer s' k = drawer s k - (if s_register_shift_id sl = Some (snd k) \<and> fst k = bid \<and>
        sp_payment_method p = PaymentMethod_cash then sp_amount p else 0) \<and>
    (\<exists>n txs. s' = s\<lparr>uuid_next := n, sale_payments := sale_payments s', register_txs := txs\<rparr> \<and> uuid_next s \<le> n)"
  proof (cases "s_register_shift_id sl")
    case None
    then show ?thesis
      by (simp add: s' drawer_def) (rule exI [of _ "uuid_next s"], rule conjI, rule exI [of _ "register_txs s"], simp_all)
  next
    case (Some sh)
    obtain tx u where tx: "add_register_tx c bid sh RegisterTxType_sale_return (sp_payment_method p) (sp_amount p)
          (Some ReferenceType_sale) (Some (row_id sl)) None t user ?u = (tx, u)" by fastforce
    note E = add_register_tx_eq [OF tx]
    have "cash_effect tx = (if sp_payment_method p = PaymentMethod_cash then - sp_amount p else 0)"
      using E by (simp add: cash_effect_def)
    then have "drawer u k = drawer ?u k + (if k = (bid, sh)
        then (if sp_payment_method p = PaymentMethod_cash then - sp_amount p else 0) else 0)"
      using drawer.post_balance [OF add_register_tx_posts [OF tx], of k] by simp
    moreover have "drawer ?u k = drawer s k" by (simp add: drawer_def)
    moreover have "s' = u" by (simp add: s' Some tx)
    ultimately show ?thesis using E(1) Some
      by (cases k) (auto intro!: exI [of _ "Suc (uuid_next s)"] exI [of _ "register_txs s @ [tx]"])
  qed
  then show "sale_payments s' = map (refund_row t p) (sale_payments s)"
    "drawer s' k = drawer s k - (if s_register_shift_id sl = Some (snd k) \<and> fst k = bid \<and>
        sp_payment_method p = PaymentMethod_cash then sp_amount p else 0)"
    "\<exists>n txs. s' = s\<lparr>uuid_next := n, sale_payments := sale_payments s', register_txs := txs\<rparr> \<and> uuid_next s \<le> n"
    by blast+
qed

lemma reverse_payments:
  assumes "fold (reverse_payment c sl bid user t) ps (cr, s) = (cr', s')"
  shows "cr' = cr + credit_paid ps \<and>
    (\<forall>k. drawer s' k = drawer s k -
       (if s_register_shift_id sl = Some (snd k) \<and> fst k = bid then cash_paid ps else 0)) \<and>
    sale_payments s' = fold (\<lambda>p. map (refund_row t p)) (filter completed_payment ps) (sale_payments s) \<and>
    (\<exists>n pys txs. s' = s\<lparr>uuid_next := n, sale_payments := pys, register_txs := txs\<rparr> \<and> uuid_next s \<le> n)"
  using assms
proof (induction ps arbitrary: cr s)
  case Nil
  then show ?case by (auto intro!: exI [of _ "uuid_next s'"] exI [of _ "sale_payments s'"] exI [of _ "register_txs s'"])
next
  case (Cons p ps)
  obtain cr1 s1 where one: "reverse_payment c sl bid user t p (cr, s) = (cr1, s1)" by fastforce
  have rest: "fold (reverse_payment c sl bid user t) ps (cr1, s1) = (cr', s')" using Cons.prems one by simp
  note IH = Cons.IH [OF rest]
  show ?case
  proof (cases "completed_payment p")
    case False
    then have "cr1 = cr" "s1 = s" using one by (simp_all add: reverse_payment_def)
    with IH False show ?thesis by simp
  next
    case True
    note S = reverse_payment_step [OF one True]
    obtain n txs where F: "s1 = s\<lparr>uuid_next := n, sale_payments := sale_payments s1, register_txs := txs\<rparr>" "uuid_next s \<le> n"
      using S(4) by blast
    obtain n' pys txs' where G: "s' = s1\<lparr>uuid_next := n', sale_payments := pys, register_txs := txs'\<rparr>"
      "uuid_next s1 \<le> n'" using IH by blast
    have "s' = s\<lparr>uuid_next := n', sale_payments := pys, register_txs := txs'\<rparr>"
      by (subst G(1), subst F(1)) simp
    moreover have "uuid_next s1 = n" by (subst F(1)) simp
    ultimately have "\<exists>n pys txs. s' = s\<lparr>uuid_next := n, sale_payments := pys, register_txs := txs\<rparr> \<and> uuid_next s \<le> n"
      using F(2) G(2) by fastforce
    then show ?thesis using IH S(1,2) S(3) True by auto
  qed
qed

lemma refund_rows:
  "p \<in> set (fold (\<lambda>p. map (refund_row t p)) qs ps) \<Longrightarrow>
     (\<exists>q\<in>set ps. row_id p = row_id q \<and> sp_sale_id p = sp_sale_id q \<and>
        (if row_id q \<in> row_id ` set qs then sp_status p = PaymentStatus_refunded else p = q))"
proof (induction qs arbitrary: ps)
  case (Cons x qs)
  then obtain q where q: "q \<in> set (map (refund_row t x) ps)" "row_id p = row_id q" "sp_sale_id p = sp_sale_id q"
    "if row_id q \<in> row_id ` set qs then sp_status p = PaymentStatus_refunded else p = q" by fastforce
  then obtain r where r: "r \<in> set ps" "q = refund_row t x r" by auto
  with q show ?case by (intro bexI [of _ r]) (auto simp: refund_row_def split: if_splits)
qed auto

lemma none_completed:
  assumes "sale_payments s' = fold (\<lambda>p. map (refund_row t p)) (filter completed_payment (payments_of s sl)) (sale_payments s)"
  shows "\<not> sale_has_completed_payments s' sl"
proof
  assume "sale_has_completed_payments s' sl"
  then obtain p where p: "p \<in> set (sale_payments s')" "sp_sale_id p = row_id sl" "completed_payment p"
    by (auto simp: sale_has_completed_payments_def payments_of_def)
  from refund_rows [OF p(1) [unfolded assms]] obtain q where q: "q \<in> set (sale_payments s)" "sp_sale_id p = sp_sale_id q"
    "if row_id q \<in> row_id ` set (filter completed_payment (payments_of s sl))
     then sp_status p = PaymentStatus_refunded else p = q" by blast
  have "row_id q \<notin> row_id ` set (filter completed_payment (payments_of s sl))"
  proof
    assume "row_id q \<in> row_id ` set (filter completed_payment (payments_of s sl))"
    then have "sp_status p = PaymentStatus_refunded" using q(3) by simp
    then show False using p(3) by (simp add: completed_payment_def)
  qed
  then have "q = p" "q \<notin> set (filter completed_payment (payments_of s sl))" using q(3) by auto
  then show False using p q(1) by (simp add: payments_of_def)
qed

lemma reverse_settlements_ok:
  assumes "reverse_completed_sale_settlements c sl bid user t s = s'"
  shows "(\<forall>k. drawer s' k = drawer s k -
       (if s_register_shift_id sl = Some (snd k) \<and> fst k = bid then cash_paid (payments_of s sl) else 0)) \<and>
    (\<forall>k. customer_account s' k = customer_account s k +
       (if s_customer_id sl = Some (snd k) \<and> fst k = bid then max (credit_paid (payments_of s sl)) 0 else 0)) \<and>
    \<not> sale_has_completed_payments s' sl \<and>
    (\<exists>n ps txs es. s' = s\<lparr>uuid_next := n, sale_payments := ps, register_txs := txs, customer_ledgers := es\<rparr> \<and> uuid_next s \<le> n)"
proof -
  obtain cr u where u: "fold (reverse_payment c sl bid user t) (payments_of s sl) (0, s) = (cr, u)" by fastforce
  note R = reverse_payments [OF u]
  obtain n pys txs where F: "u = s\<lparr>uuid_next := n, sale_payments := pys, register_txs := txs\<rparr>" "uuid_next s \<le> n"
    using R by blast
  have cu: "customer_ledgers u = customer_ledgers s" "uuid_next u = n" by (subst F(1), simp)+
  have cr: "cr = credit_paid (payments_of s sl)" using R by simp
  have paidback: "\<not> sale_has_completed_payments u sl" using R by (intro none_completed) blast
  have s': "s' = (case s_customer_id sl of None \<Rightarrow> u | Some cu \<Rightarrow> if 0 < cr then
      snd (create_ledger_entry c bid cu LedgerEntryType_refund cr user (Some ReferenceType_sale) (Some (row_id sl))
        (Some ''Sale settlement reversed'') u) else u)"
    using assms by (simp add: reverse_completed_sale_settlements_def u)
  have "(\<forall>k. customer_account s' k = customer_account u k +
       (if s_customer_id sl = Some (snd k) \<and> fst k = bid then max cr 0 else 0)) \<and>
    (\<exists>m es. s' = u\<lparr>uuid_next := m, customer_ledgers := es\<rparr> \<and> uuid_next u \<le> m)"
  proof (cases "s_customer_id sl = None \<or> cr \<le> 0")
    case True
    then have "s' = u" by (cases "s_customer_id sl") (auto simp: s')
    then show ?thesis using True by (auto intro!: exI [of _ "uuid_next u"] exI [of _ "customer_ledgers u"])
  next
    case False
    then obtain x where x: "s_customer_id sl = Some x" by auto
    obtain e v where e: "create_ledger_entry c bid x LedgerEntryType_refund cr user (Some ReferenceType_sale)
        (Some (row_id sl)) (Some ''Sale settlement reversed'') u = (e, v)" by fastforce
    have v: "s' = v" using False by (simp add: s' x e)
    have "customer_account v k = customer_account u k + (if k = (bid, x) then cr else 0)" for k
      by (rule accounts.post_balance [OF create_ledger_entry_posts [OF e]])
    then show ?thesis using create_ledger_entry_eq(1) [OF e] False
      by (auto simp: v x intro!: exI [of _ "Suc (uuid_next u)"] exI [of _ "customer_ledgers u @ [e]"])
  qed
  then obtain m es where G: "s' = u\<lparr>uuid_next := m, customer_ledgers := es\<rparr>" "uuid_next u \<le> m"
    and acc: "\<forall>k. customer_account s' k = customer_account u k +
       (if s_customer_id sl = Some (snd k) \<and> fst k = bid then max cr 0 else 0)" by blast
  have "s' = s\<lparr>uuid_next := m, sale_payments := pys, register_txs := txs, customer_ledgers := es\<rparr>"
    by (subst G(1), subst F(1)) simp
  moreover have "\<forall>k. drawer s' k = drawer s k -
       (if s_register_shift_id sl = Some (snd k) \<and> fst k = bid then cash_paid (payments_of s sl) else 0)"
    using R by (simp add: drawer_def G(1))
  moreover have "\<not> sale_has_completed_payments s' sl"
    using paidback by (simp add: sale_has_completed_payments_def payments_of_def G(1))
  moreover have "\<forall>k. customer_account s' k = customer_account s k +
       (if s_customer_id sl = Some (snd k) \<and> fst k = bid then max (credit_paid (payments_of s sl)) 0 else 0)"
    using acc cu(1) by (simp add: customer_account_def cr)
  moreover have "uuid_next s \<le> m" using F(2) G(2) cu(2) by simp
  ultimately show ?thesis by blast
qed

section \<open>Voiding\<close>

lemma get_sale_for_update_Inr:
  assumes "get_sale_for_update s i bid = Inr sl"
  shows "sl \<in> set (sales s)" "row_id sl = i" "business_id sl = bid" "live sl"
proof -
  have "sl \<in> set (filter (\<lambda>r. row_id r = i \<and> business_id r = bid \<and> live r) (sales s))"
    using assms by (auto simp: get_sale_for_update_def handler_simps)
  then show "sl \<in> set (sales s)" "row_id sl = i" "business_id sl = bid" "live sl" by auto
qed

lemma status_in_set:
  assumes "i \<in> row_id ` set rs" "\<And>r. row_id (f r) = row_id r" "\<And>r. st (f r) = v"
  shows "status_in st (update_where (\<lambda>r. row_id r = i) f rs) i = Some v"
  using assms by (induction rs) auto

lemma status_in_unset:
  assumes "\<And>r. row_id (f r) = row_id r" "j \<noteq> i"
  shows "status_in st (update_where (\<lambda>r. row_id r = i) f rs) j = status_in st rs j"
  using assms by (induction rs) auto

abbreviation sale_status :: "db \<Rightarrow> uuid \<Rightarrow> SaleStatusEnum option" where
  "sale_status s \<equiv> status_in s_status (sales s)"

definition stock_undone :: "uuid \<Rightarrow> sale \<Rightarrow> db \<Rightarrow> db \<Rightarrow> bool" where
  \<comment> \<open>the quantities of the sale's lines are back, each at its own position\<close>
  "stock_undone bid sl s s' \<longleftrightarrow>
     (\<forall>k. stock_at s' k = stock_at s k +
        sum_where sln_qty (\<lambda>l. live l \<and> line_position bid (s_branch_id sl) l = k) (lines_of s sl))"

definition money_undone :: "uuid \<Rightarrow> sale \<Rightarrow> db \<Rightarrow> db \<Rightarrow> bool" where
  \<comment> \<open>drawers and accounts are without the sale's completed payments, and none is left\<close>
  "money_undone bid sl s s' \<longleftrightarrow>
     (\<forall>k. drawer s' k = drawer s k -
        (if s_register_shift_id sl = Some (snd k) \<and> fst k = bid then cash_paid (payments_of s sl) else 0)) \<and>
     (\<forall>k. customer_account s' k = customer_account s k +
        (if s_customer_id sl = Some (snd k) \<and> fst k = bid then max (credit_paid (payments_of s sl)) 0 else 0)) \<and>
     \<not> sale_has_completed_payments s' sl"

lemma restore_all_ok:
  assumes "reconciled s" "restorable s bid (s_branch_id sl) (lines_of s sl)"
    and t: "restore_all_sale_line_inventory c sl bid user mat s = t"
  shows "reconciled t \<and> stock_undone bid sl s t \<and>
    (\<exists>n ps ms. t = s\<lparr>uuid_next := n, purchase_lines := ps, movements := ms\<rparr> \<and> uuid_next s \<le> n)"
  using restore_lines_ok [OF assms(1,2) t [unfolded restore_all_sale_line_inventory_def]]
  by (simp add: stock_undone_def)

lemma reverse_ok:
  assumes "reconciled t"
    and u: "(if sale_has_completed_payments t sl then reverse_completed_sale_settlements c sl bid user tm t else t) = u"
  shows "reconciled u \<and> money_undone bid sl t u \<and> (\<forall>k. stock_at u k = stock_at t k) \<and>
    (\<exists>n ps txs es. u = t\<lparr>uuid_next := n, sale_payments := ps, register_txs := txs, customer_ledgers := es\<rparr>)"
proof (cases "sale_has_completed_payments t sl")
  case True
  then have u: "reverse_completed_sale_settlements c sl bid user tm t = u" using u by simp
  note S = reverse_settlements_ok [OF u]
  obtain m py txs es where G: "u = t\<lparr>uuid_next := m, sale_payments := py, register_txs := txs, customer_ledgers := es\<rparr>"
    "uuid_next t \<le> m" using S by blast
  have "reconciled u"
    by (rule stock_ok_frame [OF assms(1)]) (use G(2) in \<open>auto simp: G(1) drawn_def\<close>)
  moreover have "\<forall>k. stock_at u k = stock_at t k" by (simp add: stock_at_sum G(1))
  moreover have "money_undone bid sl t u" using S by (simp add: money_undone_def)
  ultimately show ?thesis using G(1) by blast
next
  case False
  then have "u = t" using u by simp
  moreover have "cash_paid (payments_of t sl) = 0" "credit_paid (payments_of t sl) = 0"
    using False unfolding cash_paid_def credit_paid_def sale_has_completed_payments_def
    by (auto intro!: sum_where_none)
  ultimately show ?thesis using False assms(1)
    by (auto simp: money_undone_def intro!: exI [of _ "uuid_next t"] exI [of _ "sale_payments t"]
        exI [of _ "register_txs t"] exI [of _ "customer_ledgers t"])
qed

lemma reverse_always:
  "\<not> sale_has_completed_payments t sl \<Longrightarrow> reverse_completed_sale_settlements c sl bid user tm t = t"
proof -
  assume "\<not> sale_has_completed_payments t sl"
  then have none: "\<forall>p\<in>set (payments_of t sl). \<not> completed_payment p"
    by (simp add: sale_has_completed_payments_def)
  have "fold (reverse_payment c sl bid user tm) ps (0, t) = (0, t)" if "\<forall>p\<in>set ps. \<not> completed_payment p" for ps
    using that by (induction ps) (simp_all add: reverse_payment_def)
  from this [OF none] show ?thesis
    by (simp add: reverse_completed_sale_settlements_def split: option.splits)
qed

lemma frame_after_undo:
  assumes "reconciled u" "v = log_sale_audit bid user sl old new (set_sale sl f u)"
  shows "reconciled v" "stock_at v k = stock_at u k" "money_undone bid sl t v = money_undone bid sl t u"
    "sales v = update_where (\<lambda>r. row_id r = row_id sl) f (sales u)"
    "business_configs v = business_configs u" "dining_tables v = dining_tables u"
proof -
  have e: "purchase_lines v = purchase_lines u" "movements v = movements u" "uuid_gen v = uuid_gen u"
    "uuid_next v = uuid_next u" "register_txs v = register_txs u" "customer_ledgers v = customer_ledgers u"
    "sale_payments v = sale_payments u"
    by (simp_all add: assms(2) log_sale_audit_def log_audit_def set_sale_def)
  show "reconciled v" by (rule stock_ok_frame [OF assms(1) e(1-3)]) (simp add: drawn_def e)
  show "stock_at v k = stock_at u k" by (simp add: stock_at_sum e)
  show "money_undone bid sl t v = money_undone bid sl t u"
    by (simp add: money_undone_def drawer_def customer_account_def e sale_has_completed_payments_def payments_of_def)
  show "sales v = update_where (\<lambda>r. row_id r = row_id sl) f (sales u)"
    "business_configs v = business_configs u" "dining_tables v = dining_tables u"
    by (simp_all add: assms(2) log_sale_audit_def log_audit_def set_sale_def)
qed

text \<open>
  C8. Only a completed sale without returns, whose shift is still open, can be voided. Voiding it
  puts every line back into the stock of its own item, takes exactly the cash it had brought out
  of that shift's drawer, credits the customer with what was put on account, leaves the sale with
  no completed payment and the status \<open>voided\<close>, and keeps layers and stock movements reconciled.
\<close>

theorem void_sale_correct:
  assumes "void_sale c i bid user s = Inr s'" "get_sale_for_update s i bid = Inr sl"
    and "reconciled s" "restorable s bid (s_branch_id sl) (lines_of s sl)"
  shows "s_status sl = SaleStatus_completed \<and> \<not> sale_has_return_lines s bid i \<and>
    (\<exists>sh x. s_register_shift_id sl = Some sh \<and> get_shift_by_id s sh bid = Inr x \<and> rs_status x = ShiftStatus_open) \<and>
    reconciled s' \<and> stock_undone bid sl s s' \<and> money_undone bid sl s s' \<and>
    sale_status s' i = Some SaleStatus_voided \<and>
    (\<forall>j. j \<noteq> i \<longrightarrow> sale_status s' j = sale_status s j)"
proof -
  note sl = get_sale_for_update_Inr [OF assms(2)]
  define t where "t = restore_all_sale_line_inventory c sl bid user (now c) s"
  define u where "u = reverse_completed_sale_settlements c sl bid user (now c) t"
  obtain old new where s': "s' = log_sale_audit bid user sl old new (set_sale sl (voided c user) u)"
    and guards: "s_status sl = SaleStatus_completed" "\<not> sale_has_return_lines s bid i"
      "\<exists>sh x. s_register_shift_id sl = Some sh \<and> get_shift_by_id s sh bid = Inr x \<and> rs_status x = ShiftStatus_open"
    using assms(1) unfolding void_sale_def assms(2) bind_res_simps
    by (auto simp: t_def u_def sl(2) bind_res_Inr verify_open_register_shift_def Let_def
        split: option.splits if_splits)
  note T = restore_all_ok [OF assms(3,4) t_def [symmetric]]
  obtain n ps ms where F: "t = s\<lparr>uuid_next := n, purchase_lines := ps, movements := ms\<rparr>" using T by blast
  have "reconciled t" using T by blast
  from reverse_ok [OF this, of sl c bid user "now c" u]
  have U: "reconciled u" "money_undone bid sl t u" "\<forall>k. stock_at u k = stock_at t k"
    "\<exists>n ps txs es. u = t\<lparr>uuid_next := n, sale_payments := ps, register_txs := txs, customer_ledgers := es\<rparr>"
    using reverse_always [of t sl] by (auto simp: u_def split: if_splits)
  have money: "money_undone bid sl t x = money_undone bid sl s x" for x
    by (simp add: money_undone_def F drawer_def customer_account_def payments_of_def)
  have "sales u = sales s" using U(4) by (auto simp: F)
  note V = frame_after_undo [OF U(1) s']
  have v: "reconciled s'" "stock_undone bid sl s s'" "money_undone bid sl s s'"
    "sales s' = update_where (\<lambda>r. row_id r = i) (voided c user) (sales s)"
    using V U(2,3) T \<open>sales u = sales s\<close> sl(2) by (simp_all add: stock_undone_def money)
  have "i \<in> row_id ` set (sales s)" using sl(1,2) by blast
  then have "sale_status s' i = Some SaleStatus_voided"
    unfolding v(4) by (rule status_in_set) (simp_all add: voided_def)
  moreover have "sale_status s' j = sale_status s j" if "j \<noteq> i" for j
    unfolding v(4) by (rule status_in_unset [OF _ that]) (simp add: voided_def)
  ultimately show ?thesis using guards v(1-3) by blast
qed

section \<open>Cancelling\<close>

lemma release_none: "s_table_id sl = None \<Longrightarrow> maybe_release_dining_table c sl user s = Inr s"
  by (simp add: maybe_release_dining_table_def)

lemma release_skip:
  "s_table_id sl = Some t \<Longrightarrow>
   s_sale_type sl \<noteq> SaleType_dine_in \<or> 0 < count_active_tabs_on_table s (business_id sl) t None \<Longrightarrow>
   maybe_release_dining_table c sl user s = Inr s"
  by (auto simp: maybe_release_dining_table_def)

lemma release_free:
  assumes "s_table_id sl = Some t" "s_sale_type sl = SaleType_dine_in"
    and "count_active_tabs_on_table s (business_id sl) t None = 0"
    and "maybe_release_dining_table c sl user s = Inr s'"
  shows "(\<exists>ts. s' = s\<lparr>dining_tables := ts\<rparr>) \<and> table_status s' t = Some TableStatus_available"
proof -
  obtain table where r: "get_dining_table_by_id s t (business_id sl) = Inr table"
    and s': "s' = s\<lparr>dining_tables := update_where (\<lambda>r. row_id r = row_id table)
         (set_table_status c TableStatus_available user) (dining_tables s)\<rparr>"
    using assms(4) by (auto simp: maybe_release_dining_table_def assms(1-3) bind_res_Inr
        transition_table_status_Inr split: prod.splits)
  have "row_id table = t" using get_dining_table_by_id_Inr(2) [OF r] .
  moreover have "t \<in> row_id ` set (dining_tables s)"
    using get_dining_table_by_id_Inr(1,2) [OF r] by blast
  ultimately have "table_status s' t = Some TableStatus_available"
    unfolding s' db.simps using status_in_set [of t "dining_tables s" _ dt_status TableStatus_available]
    by (simp add: set_table_status_def)
  then show ?thesis using s' by blast
qed

lemma release_frame:
  assumes "maybe_release_dining_table c sl user s = Inr s'"
  shows "\<exists>ts. s' = s\<lparr>dining_tables := ts\<rparr>"
proof -
  consider "s' = s" | t where "s_table_id sl = Some t" "s_sale_type sl = SaleType_dine_in"
    "count_active_tabs_on_table s (business_id sl) t None = 0"
    using assms release_none [of sl c user s] release_skip [of sl _ s c user] by (cases "s_table_id sl") auto
  then show ?thesis
  proof cases
    case 1
    then show ?thesis by (intro exI [of _ "dining_tables s"]) simp
  next
    case 2
    then show ?thesis using release_free [OF 2 assms] by blast
  qed
qed

lemma cancel_kots_frame: "\<exists>ks. cancel_kot_orders_for_sale c bid i s = s\<lparr>kot_orders := ks\<rparr>"
  by (auto simp: cancel_kot_orders_for_sale_def)

lemma cancel_kots_count:
  "count_active_tabs_on_table (cancel_kot_orders_for_sale c bid i s) b t None = count_active_tabs_on_table s b t None"
  by (simp add: count_active_tabs_on_table_def cancel_kot_orders_for_sale_def)

lemma on_held_tab_cancelled_frame:
  assumes "on_held_tab_cancelled c sl user s = Inr s'"
  shows "\<exists>ks ts. s' = s\<lparr>kot_orders := ks, dining_tables := ts\<rparr>"
proof -
  let ?k = "cancel_kot_orders_for_sale c (business_id sl) (row_id sl) s"
  obtain ks where k: "?k = s\<lparr>kot_orders := ks\<rparr>" using cancel_kots_frame by blast
  have "s' = s \<or> s' = ?k \<or> maybe_release_dining_table c sl user ?k = Inr s'"
    using assms unfolding on_held_tab_cancelled_def
    by (cases "get_business_config s (business_id sl)") (simp_all add: Let_def split: if_splits)
  then consider "s' = s" | "s' = ?k" | ts where "s' = ?k\<lparr>dining_tables := ts\<rparr>"
    using release_frame by blast
  then show ?thesis
  proof cases
    case 1
    show ?thesis by (intro exI [of _ "kot_orders s"] exI [of _ "dining_tables s"]) (simp add: 1)
  next
    case 2
    show ?thesis by (intro exI [of _ ks] exI [of _ "dining_tables s"]) (simp add: 2 k)
  next
    case 3
    show ?thesis by (intro exI [of _ ks] exI [of _ ts]) (simp add: 3 k)
  qed
qed

lemma on_held_tab_cancelled_frees:
  assumes "on_held_tab_cancelled c sl user s = Inr s'"
    and "get_business_config s (business_id sl) = Inr cfg" "get_feature_flag (config_json cfg) ''enable_restaurant''"
    and "get_feature_flag (config_json cfg) ''enable_table_management''" "s_sale_type sl = SaleType_dine_in"
    and "s_status sl = SaleStatus_cancelled" "s_table_id sl = Some t"
    and "count_active_tabs_on_table s (business_id sl) t None = 0"
  shows "table_status s' t = Some TableStatus_available"
proof -
  have "maybe_release_dining_table c sl user
      (cancel_kot_orders_for_sale c (business_id sl) (row_id sl) s) = Inr s'"
    using assms(1) by (simp add: on_held_tab_cancelled_def Let_def assms(2-6))
  from release_free [OF assms(7,5) _ this] show ?thesis by (simp add: cancel_kots_count assms(8))
qed

text \<open>
  C31. Cancelling reverses a sale that is neither completed nor voided and has no returns: its
  completed payments come off the drawer and the account, its lines go back to stock unless it is
  an open dine-in tab (whose stock was never issued), and its status becomes \<open>cancelled\<close>. When
  restaurant tables are in use and no other tab is open on its table, the table is free again.
\<close>

theorem cancel_sale_correct:
  assumes "cancel_sale c i bid user s = Inr s'" "get_sale_for_update s i bid = Inr sl" "reconciled s"
    and "skip_inventory_restore sl \<or> restorable s bid (s_branch_id sl) (lines_of s sl)"
  shows "s_status sl \<noteq> SaleStatus_completed \<and> s_status sl \<noteq> SaleStatus_voided \<and> \<not> sale_has_return_lines s bid i \<and>
    reconciled s' \<and> money_undone bid sl s s' \<and>
    (if skip_inventory_restore sl then \<forall>k. stock_at s' k = stock_at s k else stock_undone bid sl s s') \<and>
    sale_status s' i = Some SaleStatus_cancelled \<and>
    (\<forall>cfg t. get_business_config s bid = Inr cfg \<and> s_sale_type sl = SaleType_dine_in \<and>
       get_feature_flag (config_json cfg) ''enable_restaurant'' \<and>
       get_feature_flag (config_json cfg) ''enable_table_management'' \<and> s_table_id sl = Some t \<and>
       count_active_tabs_on_table s' bid t None = 0 \<longrightarrow>
       table_status s' t = Some TableStatus_available)"
proof -
  note sl = get_sale_for_update_Inr [OF assms(2)]
  let ?skip = "skip_inventory_restore sl"
  define t where "t = (if ?skip then s else restore_all_sale_line_inventory c sl bid user (now c) s)"
  define u where "u = (if sale_has_completed_payments t sl
      then reverse_completed_sale_settlements c sl bid user (now c) t else t)"
  obtain old new where hook: "on_held_tab_cancelled c (cancelled c user sl) user
      (log_sale_audit bid user sl old new (set_sale sl (cancelled c user) u)) = Inr s'"
    and guards: "s_status sl \<noteq> SaleStatus_completed" "s_status sl \<noteq> SaleStatus_voided" "\<not> sale_has_return_lines s bid i"
    using assms(1) unfolding cancel_sale_def assms(2) bind_res_simps
    by (auto simp: t_def u_def sl(2) Let_def split: if_splits)
  define v where "v = log_sale_audit bid user sl old new (set_sale sl (cancelled c user) u)"
  have T: "reconciled t" "if ?skip then \<forall>k. stock_at t k = stock_at s k else stock_undone bid sl s t"
    "\<exists>n ps ms. t = s\<lparr>uuid_next := n, purchase_lines := ps, movements := ms\<rparr>"
  proof -
    have "reconciled t \<and> (if ?skip then \<forall>k. stock_at t k = stock_at s k else stock_undone bid sl s t) \<and>
      (\<exists>n ps ms. t = s\<lparr>uuid_next := n, purchase_lines := ps, movements := ms\<rparr>)"
    proof (cases ?skip)
      case True
      then show ?thesis using assms(3) by (auto simp: t_def intro!: exI [of _ "uuid_next s"]
          exI [of _ "purchase_lines s"] exI [of _ "movements s"])
    next
      case False
      with assms(4) have "restorable s bid (s_branch_id sl) (lines_of s sl)" by blast
      moreover have "restore_all_sale_line_inventory c sl bid user (now c) s = t" using False by (simp add: t_def)
      ultimately show ?thesis using restore_all_ok [OF assms(3)] False by (simp only: if_False) blast
    qed
    then show "reconciled t" "if ?skip then \<forall>k. stock_at t k = stock_at s k else stock_undone bid sl s t"
      "\<exists>n ps ms. t = s\<lparr>uuid_next := n, purchase_lines := ps, movements := ms\<rparr>" by blast+
  qed
  then obtain n ps ms where F: "t = s\<lparr>uuid_next := n, purchase_lines := ps, movements := ms\<rparr>" by blast
  note U = reverse_ok [OF T(1) u_def [symmetric]]
  have money: "money_undone bid sl t x = money_undone bid sl s x" for x
    by (simp add: money_undone_def F drawer_def customer_account_def payments_of_def)
  obtain m py txs es where G: "u = t\<lparr>uuid_next := m, sale_payments := py, register_txs := txs, customer_ledgers := es\<rparr>"
    using U by blast
  have "reconciled u" using U by blast
  note V = frame_after_undo [OF this v_def]
  obtain ks ts where H: "s' = v\<lparr>kot_orders := ks, dining_tables := ts\<rparr>"
    using on_held_tab_cancelled_frame [OF hook [folded v_def]] by blast
  have "sales s' = update_where (\<lambda>r. row_id r = i) (cancelled c user) (sales s)"
    using V(4) sl(2) by (simp add: H G F)
  moreover have "i \<in> row_id ` set (sales s)" using sl(1,2) by blast
  ultimately have st: "sale_status s' i = Some SaleStatus_cancelled"
    using status_in_set [of i "sales s" "cancelled c user" s_status SaleStatus_cancelled] by (simp add: cancelled_def)
  have rec: "reconciled s'" by (rule stock_ok_frame [OF V(1)]) (simp_all add: H drawn_def)
  have stock: "if ?skip then \<forall>k. stock_at s' k = stock_at s k else stock_undone bid sl s s'"
    using T(2) U V(2) by (auto simp: H stock_at_sum stock_undone_def split: if_splits)
  have "money_undone bid sl s v" using U V(3) money by blast
  then have mon: "money_undone bid sl s s'"
    by (simp add: money_undone_def H drawer_def customer_account_def sale_has_completed_payments_def payments_of_def)
  have free: "table_status s' x = Some TableStatus_available"
    if "get_business_config s bid = Inr cfg" "s_sale_type sl = SaleType_dine_in"
       "get_feature_flag (config_json cfg) ''enable_restaurant''"
       "get_feature_flag (config_json cfg) ''enable_table_management''" "s_table_id sl = Some x"
       "count_active_tabs_on_table s' bid x None = 0" for cfg x
  proof (rule on_held_tab_cancelled_frees [OF hook [folded v_def] _ that(3,4)])
    show "get_business_config v (business_id (cancelled c user sl)) = Inr cfg"
      using that(1) by (simp add: get_business_config_def V(5) G F cancelled_def sl(3))
    show "count_active_tabs_on_table v (business_id (cancelled c user sl)) x None = 0"
      using that(6) by (simp add: count_active_tabs_on_table_def H cancelled_def sl(3))
  qed (use that in \<open>simp_all add: cancelled_def\<close>)
  show ?thesis using guards rec stock mon st free by blast
qed

section \<open>Samples\<close>

definition sample_invoice :: "SaleStatusEnum \<Rightarrow> sale" where
  "sample_invoice st = new_row 60 1 None 30 \<lparr>s_branch_id = 2, s_customer_id = Some 8,
     s_register_shift_id = Some 6, s_price_list_id = None, s_sale_number = ''INV-1'', s_sale_type = SaleType_pos,
     s_status = st, s_sold_at = 30, s_notes = None, s_discount_scheme_id = None, s_table_id = None,
     s_client_receipt_no = None, s_sync_flags = [], s_is_offline = False, s_client_created_at = None,
              s_device_id = None, s_synced_at = None\<rparr>"

definition sample_invoice_line :: sale_line where
  "sample_invoice_line = new_row 70 1 None 30 \<lparr>sln_sale_id = 60, sln_product_id = 5, sln_variation_id = None,
     sln_qty = 3, sln_unit_price = 10, sln_discount_pct = 0, sln_discount_amount = 0, sln_tax_rate = 0,
     sln_tax_amount = 0, sln_cost_per_unit = 4, sln_cost_estimated = False, sln_notes = None, sln_line_order = 0\<rparr>"

definition sample_invoice_payment :: "uuid \<Rightarrow> PaymentMethodEnum \<Rightarrow> decimal \<Rightarrow> sale_payment" where
  "sample_invoice_payment i method x = new_row i 1 None 30 \<lparr>sp_sale_id = 60, sp_payment_method = method,
     sp_amount = x, sp_tendered_amount = None, sp_change_given = 0, sp_status = PaymentStatus_completed,
     sp_reference_no = None, sp_paid_at = 30\<rparr>"

definition sample_invoiced :: "SaleStatusEnum \<Rightarrow> db" where
  \<comment> \<open>the sale line 70 of \<open>sample_sold\<close> with its sale: 20 paid in cash, 10 on account\<close>
  "sample_invoiced st = sample_sold\<lparr>shifts := [sample_shift], sales := [sample_invoice st],
     sale_lines := [sample_invoice_line],
     sale_payments := [sample_invoice_payment 71 PaymentMethod_cash 20,
                       sample_invoice_payment 72 PaymentMethod_credit 10]\<rparr>"

lemmas sample_invoiced_simps = sample_invoiced_def sample_invoice_def sample_invoice_line_def
  sample_invoice_payment_def sample_sold_simps sample_shift_def

lemma sample_invoiced_ok: "reconciled (sample_invoiced st)"
  by (rule stock_ok_frame [OF sample_sold_ok]) (simp_all add: sample_invoiced_def drawn_def)

lemma sample_invoiced_sale:
  "get_sale_for_update (sample_invoiced st) 60 1 = Inr (sample_invoice st)"
  "lines_of (sample_invoiced st) (sample_invoice st) = [sample_invoice_line]"
  by (simp_all add: get_sale_for_update_def lines_of_def sample_invoiced_simps require_one_def scalar_one_or_none_def)

lemma sample_invoiced_restorable:
  "restorable (sample_invoiced st) 1 2 [sample_invoice_line]"
  by (simp add: restorable_def line_position_def sale_line_at_def room_for_lines_def consumed_def
      sale_line_movement_def position_of_def sample_invoiced_simps)

lemma sample_void_runs: "\<exists>s'. void_sale sample_clock 60 1 9 (sample_invoiced SaleStatus_completed) = Inr s'"
  unfolding void_sale_def sample_invoiced_sale
  by (simp add: sample_invoice_def verify_open_register_shift_def get_shift_by_id_def sample_invoiced_def
      sample_shift_def sample_sold_def empty_db_def sale_has_return_lines_def require_one_def
      scalar_one_or_none_def live_def Let_def)

lemma sample_invoiced_amounts:
  "s_branch_id (sample_invoice st) = 2" "s_register_shift_id (sample_invoice st) = Some 6"
  "sum_where sln_qty (\<lambda>l. live l \<and> line_position 1 2 l = (1, 2, 5, None)) [sample_invoice_line] = 3"
  "cash_paid (payments_of (sample_invoiced st) (sample_invoice st)) = 20"
  by (simp_all add: sum_where_def line_position_def cash_paid_def payments_of_def completed_payment_def
      sample_invoiced_simps)

lemma void_sale_correct_witness:
  "\<exists>s'. void_sale sample_clock 60 1 9 (sample_invoiced SaleStatus_completed) = Inr s' \<and> reconciled s' \<and>
     stock_at s' (1, 2, 5, None) = stock_at (sample_invoiced SaleStatus_completed) (1, 2, 5, None) + 3 \<and>
     drawer s' (1, 6) = drawer (sample_invoiced SaleStatus_completed) (1, 6) - 20 \<and>
     sale_status s' 60 = Some SaleStatus_voided"
proof -
  obtain s' where s': "void_sale sample_clock 60 1 9 (sample_invoiced SaleStatus_completed) = Inr s'"
    using sample_void_runs by blast
  let ?s = "sample_invoiced SaleStatus_completed" and ?sl = "sample_invoice SaleStatus_completed"
  have "restorable ?s 1 (s_branch_id ?sl) (lines_of ?s ?sl)"
    using sample_invoiced_restorable by (simp add: sample_invoiced_amounts sample_invoiced_sale(2))
  note V = void_sale_correct [OF s' sample_invoiced_sale(1) sample_invoiced_ok this]
  then have "stock_undone 1 ?sl ?s s'" "money_undone 1 ?sl ?s s'" by blast+
  then have "stock_at s' (1, 2, 5, None) = stock_at ?s (1, 2, 5, None) + 3" "drawer s' (1, 6) = drawer ?s (1, 6) - 20"
    unfolding stock_undone_def money_undone_def sample_invoiced_sale(2)
    by (simp_all only: sample_invoiced_amounts fst_conv snd_conv simp_thms if_True)
  then show ?thesis using s' V by blast
qed


lemma cancel_runs:
  assumes "get_sale_for_update s i bid = Inr sl" "s_status sl \<noteq> SaleStatus_completed" "s_status sl \<noteq> SaleStatus_voided"
    and "\<not> sale_has_return_lines s bid (row_id sl)" "s_sale_type sl \<noteq> SaleType_dine_in"
  shows "\<exists>s'. cancel_sale c i bid user s = Inr s'"
  unfolding cancel_sale_def assms(1) bind_res_simps
  using assms(2-5) by (simp add: Let_def on_held_tab_cancelled_def cancelled_def)

lemma sample_cancel_runs:
  "\<exists>s'. cancel_sale sample_clock 60 1 9 (sample_invoiced SaleStatus_partially_paid) = Inr s'"
  by (rule cancel_runs [OF sample_invoiced_sale(1)])
    (simp_all add: sale_has_return_lines_def sample_invoice_def sample_invoiced_def sample_sold_def empty_db_def)

lemma cancel_sale_correct_witness:
  "\<exists>s'. cancel_sale sample_clock 60 1 9 (sample_invoiced SaleStatus_partially_paid) = Inr s' \<and> reconciled s' \<and>
     stock_at s' (1, 2, 5, None) = stock_at (sample_invoiced SaleStatus_partially_paid) (1, 2, 5, None) + 3 \<and>
     drawer s' (1, 6) = drawer (sample_invoiced SaleStatus_partially_paid) (1, 6) - 20 \<and>
     sale_status s' 60 = Some SaleStatus_cancelled"
proof -
  obtain s' where s': "cancel_sale sample_clock 60 1 9 (sample_invoiced SaleStatus_partially_paid) = Inr s'"
    using sample_cancel_runs by blast
  let ?s = "sample_invoiced SaleStatus_partially_paid" and ?sl = "sample_invoice SaleStatus_partially_paid"
  have skip: "\<not> skip_inventory_restore ?sl" by (simp add: skip_inventory_restore_def sample_invoice_def)
  have "restorable ?s 1 (s_branch_id ?sl) (lines_of ?s ?sl)"
    using sample_invoiced_restorable by (simp add: sample_invoiced_amounts sample_invoiced_sale(2))
  then have "skip_inventory_restore ?sl \<or> restorable ?s 1 (s_branch_id ?sl) (lines_of ?s ?sl)" ..
  note V = cancel_sale_correct [OF s' sample_invoiced_sale(1) sample_invoiced_ok this]
  then have "stock_undone 1 ?sl ?s s'" "money_undone 1 ?sl ?s s'" using skip by simp_all
  then have "stock_at s' (1, 2, 5, None) = stock_at ?s (1, 2, 5, None) + 3" "drawer s' (1, 6) = drawer ?s (1, 6) - 20"
    unfolding stock_undone_def money_undone_def sample_invoiced_sale(2)
    by (simp_all only: sample_invoiced_amounts fst_conv snd_conv simp_thms if_True)
  then show ?thesis using s' V by blast
qed

text \<open>
  A cancelled sale stays readable and its status is not one that the guard refuses, so it can be
  cancelled again, and the second cancellation puts its quantities into stock a second time.
\<close>

lemma cancelled_again_restores_again:
  "get_stock_balance (case cancel_sale sample_clock 60 1 9 (sample_invoiced SaleStatus_partially_paid) of
      Inr s \<Rightarrow> (case cancel_sale sample_clock 60 1 9 s of Inr s' \<Rightarrow> s' | Inl _ \<Rightarrow> s)
    | Inl _ \<Rightarrow> empty_db id) 1 2 5 None =
   get_stock_balance (sample_invoiced SaleStatus_partially_paid) 1 2 5 None + 6"
  by code_simp

end
