(* ===== verification/Returns.thy ===== *)
theory Returns
  imports Voids
begin

text \<open>
  \<open>app/services/return_service.py\<close>: returning goods, against a sale or without one. A return
  linked to a sale line is bounded by what is left of that line and takes its money from it; a
  free return names its own product and price. Also the read side of \<open>app/services/sale_service.py\<close>
  that shows how much of each line has come back.
\<close>

section \<open>Requests\<close>

record CreateReturnLineRequest =
  crl_product_id :: "uuid option"
  crl_variation_id :: "uuid option"
  crl_sale_line_id :: "uuid option"
  crl_qty :: decimal
  crl_unit_price :: "decimal option"
  crl_tax_amount :: "decimal option"

definition valid_return_line :: "CreateReturnLineRequest \<Rightarrow> bool" where
  "valid_return_line l \<longleftrightarrow>
     (crl_sale_line_id l = None \<longrightarrow> crl_product_id l \<noteq> None \<and> crl_unit_price l \<noteq> None) \<and>
     0 < crl_qty l \<and> (\<forall>p. crl_unit_price l = Some p \<longrightarrow> 0 \<le> p) \<and> (\<forall>t. crl_tax_amount l = Some t \<longrightarrow> 0 \<le> t)"

lemma valid_return_line_code [code]:
  "valid_return_line l \<longleftrightarrow>
     (crl_sale_line_id l = None \<longrightarrow> crl_product_id l \<noteq> None \<and> crl_unit_price l \<noteq> None) \<and>
     0 < crl_qty l \<and> (case crl_unit_price l of None \<Rightarrow> True | Some p \<Rightarrow> 0 \<le> p) \<and>
     (case crl_tax_amount l of None \<Rightarrow> True | Some t \<Rightarrow> 0 \<le> t)"
  by (auto simp: valid_return_line_def split: option.split)

record CreateRefundPaymentRequest =
  crp_payment_method :: PaymentMethodEnum
  crp_amount :: decimal

record CreateSaleReturnRequest =
  csr_branch_id :: uuid
  csr_register_shift_id :: "uuid option"
  csr_sale_id :: "uuid option"
  csr_customer_id :: "uuid option"
  csr_reason :: "string option"
  csr_returned_at :: "datetime option"
  csr_lines :: "CreateReturnLineRequest list"
  csr_refund_payments :: "CreateRefundPaymentRequest list"

definition valid_return_request :: "CreateSaleReturnRequest \<Rightarrow> bool" where
  \<comment> \<open>the validators of the request, its lines and its refunds\<close>
  "valid_return_request data \<longleftrightarrow> csr_lines data \<noteq> [] \<and> (\<forall>l\<in>set (csr_lines data). valid_return_line l) \<and>
     (\<forall>r\<in>set (csr_refund_payments data). 0 < crp_amount r)"

section \<open>What has already come back\<close>

definition returned_with :: "db \<Rightarrow> (sale_return \<Rightarrow> bool) \<Rightarrow> uuid \<Rightarrow> uuid \<Rightarrow> sale_return_line \<Rightarrow> bool" where
  \<comment> \<open>the join of return lines with their live returns\<close>
  "returned_with s P bid sale_line_id l \<longleftrightarrow>
     srl_sale_line_id l = Some sale_line_id \<and> business_id l = bid \<and> live l \<and>
     (\<exists>r\<in>set (sale_returns s). row_id r = srl_sale_return_id l \<and> P r \<and> live r)"

definition sum_returned_qty_for_sale_line :: "db \<Rightarrow> uuid \<Rightarrow> uuid \<Rightarrow> decimal" where
  "sum_returned_qty_for_sale_line s bid sale_line_id =
     sum_where srl_qty (returned_with s (\<lambda>r. business_id r = bid) bid sale_line_id) (sale_return_lines s)"

definition get_returned_qty_by_sale_line_ids :: "db \<Rightarrow> uuid \<Rightarrow> uuid list \<Rightarrow> (uuid \<rightharpoonup> decimal)" where
  "get_returned_qty_by_sale_line_ids s bid sale_line_ids =
     map_of (map (\<lambda>i. (i, sum_where srl_qty (returned_with s (\<lambda>r. business_id r = bid) bid i) (sale_return_lines s)))
       sale_line_ids)"

definition already_returned_amounts :: "db \<Rightarrow> uuid \<Rightarrow> uuid \<Rightarrow> decimal \<times> decimal \<times> decimal" where
  "already_returned_amounts s bid sale_line_id =
     (let back = filter (returned_with s (\<lambda>_. True) bid sale_line_id) (sale_return_lines s)
      in (sum_list (map srl_qty back), sum_list (map srl_discount_amount back), sum_list (map srl_tax_amount back)))"

definition get_sale_return_by_id :: "db \<Rightarrow> uuid \<Rightarrow> uuid \<Rightarrow> sale_return res" where
  "get_sale_return_by_id s return_id bid =
     require_one (HTTPException 404 ''Sale return not found'' [])
       (filter (\<lambda>r. row_id r = return_id \<and> business_id r = bid \<and> live r) (sale_returns s))"

definition get_sale_returns :: "db \<Rightarrow> uuid \<Rightarrow> uuid option \<Rightarrow> nat \<Rightarrow> nat \<Rightarrow> sale_return list \<times> nat" where
  "get_sale_returns s bid branch_id skip limit =
     (let rows = filter (\<lambda>r. business_id r = bid \<and> live r \<and> opt_eq branch_id (sr_branch_id r)) (sale_returns s)
      in (take limit (drop skip (sort_key (\<lambda>r. - sr_returned_at r) rows)), length rows))"

definition get_sale_by_id :: "db \<Rightarrow> uuid \<Rightarrow> uuid \<Rightarrow> (sale \<times> (sale_line \<times> decimal) list) res" where
  \<comment> \<open>the sale, and its lines with the quantity returned of each\<close>
  "get_sale_by_id s sale_id bid =
     bind_res (require_one (HTTPException 404 ''Sale not found'' [])
       (filter (\<lambda>r. row_id r = sale_id \<and> business_id r = bid \<and> live r) (sales s))) (\<lambda>sl.
     let returned_by_line = get_returned_qty_by_sale_line_ids s bid (map row_id (filter live (lines_of s sl)))
     in Inr (sl, map (\<lambda>l. (l, if live l then or_else (returned_by_line (row_id l)) 0 else 0)) (lines_of s sl)))"

section \<open>The money of a returned line\<close>

definition share :: "decimal \<Rightarrow> decimal \<Rightarrow> decimal \<Rightarrow> decimal" where
  "share tot qty line_qty = (if line_qty \<le> 0 then 0 else round2 (dec_div (tot * qty) line_qty))"

definition compute_return_line_amounts ::
  "decimal \<Rightarrow> decimal \<Rightarrow> decimal \<Rightarrow> decimal \<Rightarrow> decimal \<Rightarrow> decimal \<Rightarrow> decimal \<Rightarrow> decimal \<times> decimal" where
  "compute_return_line_amounts return_qty original_qty original_discount original_tax
     returned_qty returned_discount returned_tax =
     (if original_qty \<le> returned_qty + return_qty
      then (max (original_discount - returned_discount) 0, max (original_tax - returned_tax) 0)
      else (share original_discount return_qty original_qty, share original_tax return_qty original_qty))"

section \<open>Preparing a return\<close>

record prepared_line =
  pr_request :: CreateReturnLineRequest
  pr_original :: "sale_line option"
  pr_product_id :: uuid
  pr_variation_id :: "uuid option"
  pr_unit_price :: decimal
  pr_discount :: decimal
  pr_tax :: decimal

definition requested_line_ids :: "CreateReturnLineRequest list \<Rightarrow> uuid list" where
  "requested_line_ids lines =
     sorted_list_of_set (set (List.map_filter crl_sale_line_id lines))"

definition lock_original_lines :: "db \<Rightarrow> uuid \<Rightarrow> uuid list \<Rightarrow> sale_line list res" where
  \<comment> \<open>the values of \<open>original_lines\<close>, in the order of their ids\<close>
  "lock_original_lines s bid line_ids =
     (let rows = sort_key row_id (filter (\<lambda>l. row_id l \<in> set line_ids \<and> business_id l = bid \<and> live l) (sale_lines s))
      in if \<exists>i\<in>set line_ids. i \<notin> row_id ` set rows then bad_request ''Original sale line not found''
         else Inr rows)"

definition sale_of_lines :: "uuid option \<Rightarrow> sale_line list \<Rightarrow> uuid option res" where
  "sale_of_lines sale_id originals =
     fold_res (\<lambda>original sale_id.
       case sale_id of
         None \<Rightarrow> Inr (Some (sln_sale_id original))
       | Some i \<Rightarrow> if sln_sale_id original \<noteq> i then bad_request ''sale_line_id does not belong to sale_id''
                  else Inr (Some i)) originals sale_id"

definition resolve_original_sale :: "db \<Rightarrow> uuid \<Rightarrow> uuid \<Rightarrow> uuid option \<Rightarrow> sale option res" where
  "resolve_original_sale s bid branch_id sale_id =
     (case sale_id of
        None \<Rightarrow> Inr None
      | Some i \<Rightarrow>
          bind_res (require_one (HTTPException 400 ''Original sale not found'' [])
            (filter (\<lambda>r. row_id r = i \<and> business_id r = bid \<and> live r) (sales s))) (\<lambda>sl.
          if s_status sl \<in> {SaleStatus_cancelled, SaleStatus_voided, SaleStatus_draft, SaleStatus_held}
          then Inl (HTTPException 400 ''Cannot return against a {} sale'' [AStr (SaleStatusEnum_value (s_status sl))])
          else if s_branch_id sl \<noteq> branch_id
          then bad_request ''Return branch must match the original sale branch''
          else Inr (Some sl)))"

definition resolve_return_customer ::
  "db \<Rightarrow> uuid \<Rightarrow> uuid option \<Rightarrow> sale option \<Rightarrow> uuid option res" where
  "resolve_return_customer s bid requested original_sale =
     (let customer_id = (case requested of
            None \<Rightarrow> (case original_sale of Some sl \<Rightarrow> s_customer_id sl | None \<Rightarrow> None)
          | Some cu \<Rightarrow> Some cu)
      in if (case original_sale of
               Some sl \<Rightarrow> requested \<noteq> None \<and> s_customer_id sl \<noteq> None \<and> requested \<noteq> s_customer_id sl
             | None \<Rightarrow> False)
         then bad_request ''customer_id does not match the original sale''
         else case customer_id of
           None \<Rightarrow> Inr None
         | Some cu \<Rightarrow> bind_res (lock_customer s cu bid) (\<lambda>_. Inr (Some cu)))"


definition prepare_linked ::
  "db \<Rightarrow> uuid \<Rightarrow> sale_line \<Rightarrow> CreateReturnLineRequest \<Rightarrow>
     (uuid \<rightharpoonup> decimal) \<times> prepared_line list \<Rightarrow> ((uuid \<rightharpoonup> decimal) \<times> prepared_line list) res" where
  "prepare_linked s bid original line = (\<lambda>(pending_qty, prepared).
     if crl_product_id line \<noteq> None \<and> crl_product_id line \<noteq> Some (sln_product_id original)
     then bad_request ''product_id does not match the original sale line''
     else if crl_variation_id line \<noteq> None \<and> crl_variation_id line \<noteq> sln_variation_id original
     then bad_request ''variation_id does not match the original sale line''
     else
       let (returned_qty, returned_disc, returned_tax) = already_returned_amounts s bid (row_id original);
           in_request = or_else (pending_qty (row_id original)) 0;
           remaining = sln_qty original - returned_qty - in_request
       in if remaining < crl_qty line then
            Inl (HTTPException 400
              (''Cannot return {} units - only {} units remain returnable for this item '' @
               ''(originally sold: {}, already returned: {})'')
              [ADec (crl_qty line), ADec remaining, ADec (sln_qty original), ADec returned_qty])
          else
            let (discount, tax) = compute_return_line_amounts (crl_qty line) (sln_qty original)
                  (sln_discount_amount original) (sln_tax_amount original) (returned_qty + in_request)
                  returned_disc returned_tax
            in Inr (pending_qty(row_id original \<mapsto> in_request + crl_qty line),
                    prepared @ [\<lparr>pr_request = line, pr_original = Some original,
                      pr_product_id = sln_product_id original, pr_variation_id = sln_variation_id original,
                      pr_unit_price = sln_unit_price original, pr_discount = discount, pr_tax = tax\<rparr>]))"

definition prepare_free ::
  "db \<Rightarrow> uuid \<Rightarrow> CreateReturnLineRequest \<Rightarrow> prepared_line res" where
  \<comment> \<open>the validator of the request has a product and a price here\<close>
  "prepare_free s bid line =
     (case crl_product_id line of
        None \<Rightarrow> bad_request ''Product not found''
      | Some p \<Rightarrow>
          bind_res (verify_product s p bid) (\<lambda>_.
          bind_res (case crl_variation_id line of
                      None \<Rightarrow> Inr ()
                    | Some v \<Rightarrow> bind_res (verify_variation s v p bid) (\<lambda>_. Inr ())) (\<lambda>_.
          case crl_unit_price line of
            None \<Rightarrow> Inl (PyError ''TypeError'')
          | Some price \<Rightarrow> Inr \<lparr>pr_request = line, pr_original = None, pr_product_id = p,
              pr_variation_id = crl_variation_id line, pr_unit_price = price, pr_discount = 0,
              pr_tax = or_else (crl_tax_amount line) 0\<rparr>)))"

definition prepare_line ::
  "db \<Rightarrow> uuid \<Rightarrow> sale_line list \<Rightarrow> CreateReturnLineRequest \<Rightarrow>
     (uuid \<rightharpoonup> decimal) \<times> prepared_line list \<Rightarrow> ((uuid \<rightharpoonup> decimal) \<times> prepared_line list) res" where
  "prepare_line s bid originals line = (\<lambda>(pending_qty, prepared).
     case crl_sale_line_id line of
       Some i \<Rightarrow> (case map_of (map (\<lambda>l. (row_id l, l)) originals) i of
                   None \<Rightarrow> Inl (PyError ''KeyError'')
                 | Some original \<Rightarrow> prepare_linked s bid original line (pending_qty, prepared))
     | None \<Rightarrow> bind_res (prepare_free s bid line) (\<lambda>item. Inr (pending_qty, prepared @ [item])))"

definition item_refund :: "prepared_line \<Rightarrow> decimal" where
  "item_refund item =
     round2 (crl_qty (pr_request item) * pr_unit_price item - pr_discount item + pr_tax item)"

definition total_refund :: "prepared_line list \<Rightarrow> decimal" where
  "total_refund prepared = fold (\<lambda>item acc. acc + item_refund item) prepared 0"

definition check_refund ::
  "CreateRefundPaymentRequest list \<Rightarrow> decimal \<Rightarrow> uuid option \<Rightarrow> (decimal \<times> decimal) res" where
  \<comment> \<open>what is paid out other than to the account, and what is left for the account\<close>
  "check_refund refunds refundable customer_id =
     (let paid_out = fold (\<lambda>r acc. acc + crp_amount r) refunds 0
      in if refundable < paid_out then
           Inl (HTTPException 400 ''Refund payments ({}) exceed the amount refundable ({})''
             [ADec paid_out, ADec refundable])
         else
           let cash_out = sum_where crp_amount (\<lambda>r. crp_payment_method r \<noteq> PaymentMethod_credit) refunds;
               credit_portion = refundable - cash_out
           in if 0 < credit_portion \<and> customer_id = None then
                bad_request (''Refund payments must cover the whole refund unless the return '' @
                  ''is linked to a customer account'')
              else Inr (cash_out, credit_portion))"

section \<open>Recording a return\<close>

definition add_sale_return ::
  "clock \<Rightarrow> uuid \<Rightarrow> CreateSaleReturnRequest \<Rightarrow> uuid \<Rightarrow> uuid option \<Rightarrow> uuid option \<Rightarrow> string \<Rightarrow> db \<Rightarrow>
     sale_return \<times> db" where
  "add_sale_return c bid data user sale_id customer_id return_number s =
     (let (i, s) = fresh_uuid s;
          r = new_row i bid (Some user) (now c)
            \<lparr>sr_branch_id = csr_branch_id data, sr_sale_id = sale_id, sr_customer_id = customer_id,
             sr_return_number = return_number, sr_returned_at = or_else (csr_returned_at data) (now c),
             sr_reason = csr_reason data\<rparr>
      in (r, s\<lparr>sale_returns := sale_returns s @ [r]\<rparr>))"

definition add_return_line ::
  "clock \<Rightarrow> uuid \<Rightarrow> uuid \<Rightarrow> uuid \<Rightarrow> prepared_line \<Rightarrow> db \<Rightarrow> sale_return_line \<times> db" where
  "add_return_line c bid user return_id item s =
     (let (i, s) = fresh_uuid s;
          l = new_row i bid (Some user) (now c)
            \<lparr>srl_sale_return_id = return_id, srl_sale_line_id = crl_sale_line_id (pr_request item),
             srl_product_id = pr_product_id item, srl_variation_id = pr_variation_id item,
             srl_qty = crl_qty (pr_request item), srl_unit_price = pr_unit_price item,
             srl_discount_amount = pr_discount item, srl_tax_amount = pr_tax item\<rparr>
      in (l, s\<lparr>sale_return_lines := sale_return_lines s @ [l]\<rparr>))"

definition restock_item ::
  "clock \<Rightarrow> uuid \<Rightarrow> uuid \<Rightarrow> uuid \<Rightarrow> datetime \<Rightarrow> prepared_line \<Rightarrow> uuid \<Rightarrow> db \<Rightarrow> db" where
  "restock_item c bid branch_id user returned_at item return_line_id s =
     (let qty = crl_qty (pr_request item)
      in case pr_original item of
           Some original \<Rightarrow>
             restore_sale_line_inventory c bid branch_id (pr_product_id item) (pr_variation_id item)
               (row_id original) (sln_qty original) (sln_cost_per_unit original) qty
               StockMovementType_sale_return ReferenceType_sale_return_line return_line_id user returned_at s
         | None \<Rightarrow>
             let cost = get_fallback_cost_per_unit s bid (pr_product_id item) (pr_variation_id item);
                 (layer, s) = create_fifo_layer c bid branch_id (pr_product_id item) (pr_variation_id item)
                   qty cost user ''return'' (Some returned_at) None None s
             in snd (create_stock_movement c bid branch_id (pr_product_id item) (pr_variation_id item)
                  StockMovementType_sale_return qty cost ReferenceType_sale_return_line return_line_id user
                  (Some (row_id layer)) None None None (Some returned_at) None s))"

definition write_return_item ::
  "clock \<Rightarrow> uuid \<Rightarrow> uuid \<Rightarrow> uuid \<Rightarrow> datetime \<Rightarrow> uuid \<Rightarrow> prepared_line \<Rightarrow> db \<Rightarrow> db" where
  "write_return_item c bid branch_id user returned_at return_id item s =
     (let (l, s) = add_return_line c bid user return_id item s
      in restock_item c bid branch_id user returned_at item (row_id l) s)"

definition write_refund ::
  "clock \<Rightarrow> uuid \<Rightarrow> uuid \<Rightarrow> uuid \<Rightarrow> datetime \<Rightarrow> uuid \<Rightarrow> CreateRefundPaymentRequest \<Rightarrow> db \<Rightarrow> db" where
  "write_refund c bid user shift_id returned_at return_id refund s =
     (let (i, s) = fresh_uuid s;
          payment = new_row i bid (Some user) (now c)
            \<lparr>srp_sale_return_id = return_id, srp_payment_method = crp_payment_method refund,
             srp_amount = crp_amount refund, srp_status = PaymentStatus_completed, srp_refunded_at = returned_at\<rparr>;
          s = s\<lparr>sale_return_payments := sale_return_payments s @ [payment]\<rparr>
      in snd (add_register_tx c bid shift_id RegisterTxType_sale_return (srp_payment_method payment)
                (srp_amount payment) (Some ReferenceType_sale_return) (Some return_id) None returned_at user s))"

definition credit_return ::
  "clock \<Rightarrow> uuid \<Rightarrow> uuid \<Rightarrow> uuid option \<Rightarrow> uuid \<Rightarrow> decimal \<Rightarrow> db \<Rightarrow> db" where
  "credit_return c bid user customer_id return_id credit_portion s =
     (case customer_id of
        None \<Rightarrow> s
      | Some cu \<Rightarrow>
          if 0 < credit_portion then
            snd (create_ledger_entry c bid cu LedgerEntryType_return credit_portion user
                   (Some ReferenceType_sale_return) (Some return_id) None s)
          else s)"

definition log_return ::
  "uuid \<Rightarrow> uuid \<Rightarrow> uuid \<Rightarrow> uuid option \<Rightarrow> sale_return \<Rightarrow> decimal \<Rightarrow> decimal \<Rightarrow> decimal \<Rightarrow> prepared_line list \<Rightarrow> db \<Rightarrow> db" where
  "log_return bid user branch_id sale_id r refundable cash_out credit_portion prepared s =
     (let id_str = (\<lambda>x. case x of Some i \<Rightarrow> JUuid i | None \<Rightarrow> JStr ''None'')
      in log_audit bid (Some user) (Some branch_id) AuditAction_create ''sale_returns'' (row_id r)
           (Some [(''sale_id'', id_str sale_id)])
           (Some [(''event'', JStr ''return''), (''return_number'', JStr (sr_return_number r)),
                  (''total_refund'', JNum refundable), (''cash_out'', JNum cash_out),
                  (''credit_to_account'', JNum credit_portion),
                  (''lines'', JList (map (\<lambda>i. JObj
                     [(''sale_line_id'', id_str (crl_sale_line_id (pr_request i))),
                      (''qty'', JNum (crl_qty (pr_request i)))]) prepared))]) s)"


definition write_return ::
  "clock \<Rightarrow> uuid \<Rightarrow> CreateSaleReturnRequest \<Rightarrow> uuid \<Rightarrow> uuid \<Rightarrow> uuid option \<Rightarrow> uuid option \<Rightarrow>
     prepared_line list \<Rightarrow> decimal \<times> decimal \<Rightarrow> db \<Rightarrow> sale_return \<times> db" where
  \<comment> \<open>what \<open>create_sale_return\<close> does once every check has passed\<close>
  "write_return c bid data user shift_id sale_id customer_id prepared = (\<lambda>(cash_out, credit_portion) s.
     let returned_at = or_else (csr_returned_at data) (now c);
         (return_number, s) = generate_document_number c bid ''RET'' s;
         (r, s) = add_sale_return c bid data user sale_id customer_id return_number s;
         s = fold (write_return_item c bid (csr_branch_id data) user returned_at (row_id r)) prepared s;
         s = fold (write_refund c bid user shift_id returned_at (row_id r)) (csr_refund_payments data) s;
         s = credit_return c bid user customer_id (row_id r) credit_portion s;
         s = log_return bid user (csr_branch_id data) sale_id r (total_refund prepared) cash_out credit_portion
               prepared s
     in (r, s))"

definition check_return ::
  "db \<Rightarrow> uuid \<Rightarrow> CreateSaleReturnRequest \<Rightarrow> uuid \<Rightarrow>
     (uuid \<times> uuid option \<times> uuid option \<times> prepared_line list \<times> decimal \<times> decimal) res" where
  \<comment> \<open>every check of \<open>create_sale_return\<close>, in order, with what the later steps use\<close>
  "check_return s bid data user =
     bind_res (verify_branch s (csr_branch_id data) bid) (\<lambda>_.
     bind_res (require_caller_shift s bid user (Some (csr_branch_id data)) (csr_register_shift_id data)
                 ''record a return'') (\<lambda>shift.
     bind_res (lock_original_lines s bid (requested_line_ids (csr_lines data))) (\<lambda>originals.
     bind_res (sale_of_lines (csr_sale_id data) originals) (\<lambda>sale_id.
     bind_res (resolve_original_sale s bid (csr_branch_id data) sale_id) (\<lambda>original_sale.
     bind_res (resolve_return_customer s bid (csr_customer_id data) original_sale) (\<lambda>customer_id.
     bind_res (fold_res (prepare_line s bid originals) (csr_lines data) (Map.empty, [])) (\<lambda>(_, prepared).
     bind_res (check_refund (csr_refund_payments data) (total_refund prepared) customer_id)
       (\<lambda>(cash_out, credit_portion).
       Inr (row_id shift, sale_id, customer_id, prepared, cash_out, credit_portion)))))))))"

definition create_sale_return ::
  "clock \<Rightarrow> uuid \<Rightarrow> CreateSaleReturnRequest \<Rightarrow> uuid \<Rightarrow> db \<Rightarrow> (sale_return \<times> db) res" where
  \<comment> \<open>the last step, \<open>get_sale_return_by_id\<close>, reads the new row back\<close>
  "create_sale_return c bid data user s =
     bind_res (check_return s bid data user) (\<lambda>(shift_id, sale_id, customer_id, prepared, amounts).
       Inr (write_return c bid data user shift_id sale_id customer_id prepared amounts s))"

section \<open>Shares\<close>

text \<open>
  The return that clears a line takes whatever discount and tax is left, but the rounded shares of
  the earlier ones may already be more than the line had: returning in pieces gives back the larger
  of the original amount and the shares paid out.
\<close>

fun returned_in_pieces :: "decimal \<Rightarrow> decimal \<Rightarrow> decimal list \<Rightarrow> decimal \<Rightarrow> decimal \<Rightarrow> decimal" where
  \<comment> \<open>the tax given back by successive returns of one line, after \<open>rq\<close> units and \<open>rt\<close> tax\<close>
  "returned_in_pieces oq ot [] rq rt = rt"
| "returned_in_pieces oq ot (q # qs) rq rt =
     returned_in_pieces oq ot qs (rq + q) (rt + snd (compute_return_line_amounts q oq 0 ot rq 0 rt))"

lemma pieces_before_last:
  assumes "rq + sum_list qs < oq" "\<forall>q\<in>set qs. 0 \<le> q"
  shows "returned_in_pieces oq ot qs rq rt = rt + sum_list (map (\<lambda>q. share ot q oq) qs)"
  using assms
proof (induction qs arbitrary: rq rt)
  case (Cons q qs)
  have "0 \<le> sum_list qs" using Cons.prems(2) by (intro sum_list_nonneg) simp
  then have "rq + q < oq" using Cons.prems by simp
  then show ?case using Cons by (simp add: compute_return_line_amounts_def ac_simps)
qed simp

lemma pieces_append:
  "returned_in_pieces oq ot (xs @ ys) rq rt =
     returned_in_pieces oq ot ys (rq + sum_list xs) (returned_in_pieces oq ot xs rq rt)"
  by (induction xs arbitrary: rq rt) (simp_all add: ac_simps)

lemma share_nonneg: "0 \<le> t \<Longrightarrow> 0 \<le> q \<Longrightarrow> 0 \<le> share t q oq"
  unfolding share_def using dec_ctx_mono [of 0 "t * q / oq"] cents.mono [of 0 "dec_div (t * q) oq"]
  by (auto simp: dec_div_def)

lemma dec_ctx_mono_fixed:
  assumes "x \<le> y" "dec_ctx y = y"
  shows "dec_ctx x \<le> y"
  using dec_ctx_mono [OF assms(1)] assms(2) by simp


lemma dec_ctx_error: "\<bar>dec_ctx x - x\<bar> \<le> \<bar>x\<bar> / 10 ^ 27"
proof (cases "x = 0")
  case False
  let ?u = "(10::rat) powi (adjusted x - 27)"
  have u: "0 < ?u" by simp
  have e: "\<bar>of_int (round_half_even (x / ?u)) - x / ?u\<bar> \<le> 1"
    using round_half_even_bounds [of "x / ?u"] by (auto simp: abs_le_iff)
  have "of_int (round_half_even (x / ?u)) * ?u - x = (of_int (round_half_even (x / ?u)) - x / ?u) * ?u"
    using u by (simp add: left_diff_distrib)
  then have "\<bar>of_int (round_half_even (x / ?u)) * ?u - x\<bar> = \<bar>of_int (round_half_even (x / ?u)) - x / ?u\<bar> * ?u"
    using u by (simp add: abs_mult)
  also have "\<dots> \<le> 1 * ?u" using e u by (intro mult_right_mono) auto
  also have "\<dots> = 10 powi adjusted x / 10 ^ 27" by (simp add: power_int_diff)
  also have "\<dots> \<le> \<bar>x\<bar> / 10 ^ 27" using adjusted_bounds [OF False] by (intro divide_right_mono) auto
  finally show ?thesis using False by (simp add: dec_ctx_def Let_def)
qed simp

lemma share_upper:
  assumes "0 \<le> t" "0 \<le> q" "0 < oq"
  shows "share t q oq \<le> t * q / oq * (1 + 1 / 10 ^ 27) + 1 / 200"
proof -
  let ?x = "t * q / oq"
  have x: "0 \<le> ?x" using assms by simp
  have "dec_div (t * q) oq - ?x \<le> ?x / 10 ^ 27"
    using dec_ctx_error [of ?x] unfolding abs_of_nonneg [OF x] dec_div_def by (rule order_trans [OF abs_ge_self])
  then have "dec_div (t * q) oq \<le> ?x + ?x / 10 ^ 27" by linarith
  moreover have "share t q oq \<le> dec_div (t * q) oq + 1 / 200"
    using cents.error [of "dec_div (t * q) oq"] assms(3) unfolding abs_le_iff share_def by simp
  ultimately show ?thesis
    by (simp only: distrib_left [of ?x] mult_1_right times_divide_eq_right [of ?x 1])
qed

lemma shares_upper:
  assumes "0 \<le> t" "\<forall>q\<in>set qs. 0 \<le> q" "0 < oq"
  shows "sum_list (map (\<lambda>q. share t q oq) qs) \<le>
    t * sum_list qs / oq * (1 + 1 / 10 ^ 27) + of_nat (length qs) / 200"
  using assms(2)
proof (induction qs)
  case (Cons q qs)
  have q: "share t q oq \<le> t * q / oq * (1 + 1 / 10 ^ 27) + 1 / 200"
    using share_upper [OF assms(1) _ assms(3)] Cons.prems by simp
  have "t * sum_list (q # qs) / oq * (1 + 1 / 10 ^ 27) + of_nat (length (q # qs)) / 200 =
      (t * q / oq * (1 + 1 / 10 ^ 27) + 1 / 200) +
      (t * sum_list qs / oq * (1 + 1 / 10 ^ 27) + of_nat (length qs) / 200)"
    by (simp add: distrib_left distrib_right add_divide_distrib)
  with q Cons show ?case by simp
qed simp



text \<open>
  Nine returns of one unit each from a line of nine units with a tax of five cents give back eight
  cents, although the last one adds nothing. Two lines of one request for the same sale line do not
  see each other's money at all: the second one is given the whole tax again.
\<close>

lemma pieces_overrefund: "returned_in_pieces 9 (5 / 100) (replicate 9 1) 0 0 = 8 / 100"
proof -
  have "share (5 / 100) 1 9 = 1 / 100"
  proof -
    have "dec_div (5 / 100 * 1) 9 = 5555555555555555555555555556 / 10 ^ 30" by code_simp
    moreover have "round2 (5555555555555555555555555556 / 10 ^ 30) = 1 / 100" by code_simp
    ultimately have "round2 (dec_div (5 / 100 * 1) 9) = 1 / 100" by (simp only:)
    then show ?thesis unfolding share_def by simp
  qed
  then have "sum_list (map (\<lambda>q. share (5 / 100) q 9) (replicate 8 1)) = 8 / 100" by (simp add: numeral_eq_Suc)
  moreover have "returned_in_pieces 9 (5 / 100) (replicate 8 1 @ [1]) 0 0 =
      max (5 / 100) (sum_list (map (\<lambda>q. share (5 / 100) q 9) (replicate 8 1)))"
    using pieces_before_last [of 0 "replicate 8 (1 :: rat)" 9 "5 / 100" 0]
    by (simp add: pieces_append compute_return_line_amounts_def max_def sum_list_replicate)
  moreover have "replicate 9 (1 :: rat) = replicate 8 1 @ [1]" by (simp add: numeral_eq_Suc)
  ultimately show ?thesis by simp
qed


lemma two_lines_overrefund:
  "(case fold_res (prepare_line
       (empty_db id) 1 [\<lparr>row_id = 70, business_id = 1, created_at = 0, updated_at = 0, deleted_at = None,
          created_by = None, updated_by = None, deleted_by = None, sln_sale_id = 60, sln_product_id = 5,
          sln_variation_id = None, sln_qty = 2, sln_unit_price = 50, sln_discount_pct = 0,
          sln_discount_amount = 0, sln_tax_rate = 10, sln_tax_amount = 10, sln_cost_per_unit = 4,
          sln_cost_estimated = False, sln_notes = None, sln_line_order = 0\<rparr>])
       (replicate 2 \<lparr>crl_product_id = None, crl_variation_id = None, crl_sale_line_id = Some 70,
          crl_qty = 1, crl_unit_price = None, crl_tax_amount = None\<rparr>) (Map.empty, []) of
     Inr (_, prepared) \<Rightarrow> map pr_tax prepared | Inl _ \<Rightarrow> []) = [5, 10]"
  by code_simp

section \<open>What a prepared return contains\<close>

definition wanted :: "prepared_line list \<Rightarrow> uuid \<Rightarrow> decimal" where
  \<comment> \<open>what the return takes back of one sale line\<close>
  "wanted prepared i = sum_where (\<lambda>it. crl_qty (pr_request it))
     (\<lambda>it. crl_sale_line_id (pr_request it) = Some i) prepared"

definition item_ok :: "sale_line list \<Rightarrow> prepared_line \<Rightarrow> bool" where
  \<comment> \<open>a linked item agrees with its sale line\<close>
  "item_ok originals it \<longleftrightarrow> (case pr_original it of
       None \<Rightarrow> crl_sale_line_id (pr_request it) = None
     | Some o' \<Rightarrow> o' \<in> set originals \<and> crl_sale_line_id (pr_request it) = Some (row_id o') \<and>
         pr_product_id it = sln_product_id o' \<and> pr_variation_id it = sln_variation_id o')"

definition returned_qty :: "db \<Rightarrow> uuid \<Rightarrow> uuid \<Rightarrow> decimal" where
  "returned_qty s bid i = fst (already_returned_amounts s bid i)"

definition prepared_ok ::
  "db \<Rightarrow> uuid \<Rightarrow> sale_line list \<Rightarrow> (uuid \<rightharpoonup> decimal) \<times> prepared_line list \<Rightarrow> bool" where
  "prepared_ok s bid originals = (\<lambda>(pending_qty, prepared).
     (\<forall>i. or_else (pending_qty i) 0 = wanted prepared i) \<and>
     (\<forall>it\<in>set prepared. item_ok originals it) \<and>
     (\<forall>it\<in>set prepared. \<forall>o'. pr_original it = Some o' \<longrightarrow>
        returned_qty s bid (row_id o') + wanted prepared (row_id o') \<le> sln_qty o'))"

lemma wanted_simps [simp]:
  "wanted [] i = 0"
  "wanted (xs @ ys) i = wanted xs i + wanted ys i"
  "wanted (it # xs) i = (if crl_sale_line_id (pr_request it) = Some i then crl_qty (pr_request it) else 0) + wanted xs i"
  by (simp_all add: wanted_def)

lemma map_of_rows: "map_of (map (\<lambda>l. (row_id l, l)) ls) i = Some l \<Longrightarrow> l \<in> set ls \<and> row_id l = i"
  by (auto dest: map_of_SomeD)

lemma prepare_linked_ok:
  assumes "prepare_linked s bid o' line (pend, prepared) = Inr (pend', prepared')"
    and "crl_sale_line_id line = Some (row_id o')" "o' \<in> set originals"
    and "prepared_ok s bid originals (pend, prepared)" "distinct (map row_id originals)"
  shows "prepared_ok s bid originals (pend', prepared') \<and> map pr_request prepared' = map pr_request prepared @ [line]"
proof -
  obtain rq rd rt where al: "already_returned_amounts s bid (row_id o') = (rq, rd, rt)" by (metis prod_cases3)
  obtain di ta where am: "compute_return_line_amounts (crl_qty line) (sln_qty o') (sln_discount_amount o')
      (sln_tax_amount o') (rq + or_else (pend (row_id o')) 0) rd rt = (di, ta)" by fastforce
  define it where "it = \<lparr>pr_request = line, pr_original = Some o',
      pr_product_id = sln_product_id o', pr_variation_id = sln_variation_id o',
      pr_unit_price = sln_unit_price o', pr_discount = di, pr_tax = ta\<rparr>"
  have le: "crl_qty line \<le> sln_qty o' - rq - or_else (pend (row_id o')) 0"
    and new: "pend' = pend(row_id o' \<mapsto> or_else (pend (row_id o')) 0 + crl_qty line)" "prepared' = prepared @ [it]"
    using assms(1) by (auto simp: prepare_linked_def al am Let_def it_def split: if_splits)
  have P: "or_else (pend i) 0 = wanted prepared i" "it' \<in> set prepared \<Longrightarrow> item_ok originals it'"
    "it' \<in> set prepared \<Longrightarrow> pr_original it' = Some p \<Longrightarrow>
       returned_qty s bid (row_id p) + wanted prepared (row_id p) \<le> sln_qty p" for i it' p
    using assms(4) by (auto simp: prepared_ok_def)
  have it: "pr_request it = line" "pr_original it = Some o'" "item_ok originals it"
    using assms(2,3) by (simp_all add: it_def item_ok_def)
  have own: "returned_qty s bid (row_id o') + wanted prepared' (row_id o') \<le> sln_qty o'"
    using le P(1) [of "row_id o'"] assms(2) by (simp add: returned_qty_def al new(2) it(1))
  have "returned_qty s bid (row_id p) + wanted prepared' (row_id p) \<le> sln_qty p"
    if "it' \<in> set prepared'" "pr_original it' = Some p" for it' p
  proof (cases "row_id p = row_id o'")
    case True
    have "item_ok originals it'" using that(1) P(2) it(3) new(2) by auto
    then have "p \<in> set originals" using that(2) by (simp add: item_ok_def)
    then have "p = o'" using True assms(3,5) by (auto simp: distinct_map inj_on_def)
    then show ?thesis using own by simp
  next
    case False
    then have "it' \<in> set prepared" using that it(2) new(2) by auto
    then show ?thesis using P(3) [OF _ that(2)] False assms(2) by (simp add: new(2) it(1))
  qed
  moreover have "or_else (pend' i) 0 = wanted prepared' i" for i
    using P(1) [of i] assms(2) by (auto simp: new it(1))
  moreover have "\<forall>it'\<in>set prepared'. item_ok originals it'" using P(2) it(3) by (auto simp: new(2))
  ultimately show ?thesis unfolding prepared_ok_def by (auto simp: new(2) it(1))
qed

lemma prepare_line_ok:
  assumes "prepare_line s bid originals line a = Inr b"
    and "prepared_ok s bid originals a" "distinct (map row_id originals)"
  shows "prepared_ok s bid originals b \<and> map pr_request (snd b) = map pr_request (snd a) @ [line]"
proof -
  obtain pend prepared pend' prepared' where ab: "a = (pend, prepared)" "b = (pend', prepared')" by fastforce
  show ?thesis
  proof (cases "crl_sale_line_id line")
    case None
    obtain it where it: "prepare_free s bid line = Inr it" "b = (pend, prepared @ [it])"
      using assms(1) by (auto simp: prepare_line_def None ab(1) bind_res_Inr)
    have f: "pr_request it = line" "pr_original it = None"
      using it(1) by (auto simp: prepare_free_def handler_simps split: option.splits)
    have "item_ok originals it" using None by (simp add: item_ok_def f)
    then show ?thesis using assms(2) None by (auto simp: prepared_ok_def ab(1) it(2) f)
  next
    case (Some i)
    obtain o' where o': "map_of (map (\<lambda>l. (row_id l, l)) originals) i = Some o'"
      "prepare_linked s bid o' line (pend, prepared) = Inr (pend', prepared')"
      using assms(1) by (auto simp: prepare_line_def Some ab split: option.splits)
    then have "o' \<in> set originals" "crl_sale_line_id line = Some (row_id o')"
      using map_of_rows Some by blast+
    from prepare_linked_ok [OF o'(2) this(2,1) assms(2) [unfolded ab(1)] assms(3)] show ?thesis
      by (simp add: ab)
  qed
qed

lemma prepare_lines_ok:
  assumes "fold_res (prepare_line s bid originals) lines a = Inr b"
    and "prepared_ok s bid originals a" "distinct (map row_id originals)"
  shows "prepared_ok s bid originals b \<and> map pr_request (snd b) = map pr_request (snd a) @ lines"
  using assms(1,2)
proof (induction lines arbitrary: a)
  case (Cons line lines)
  then obtain t where t: "prepare_line s bid originals line a = Inr t"
    "fold_res (prepare_line s bid originals) lines t = Inr b" by (auto simp: bind_res_Inr)
  from prepare_line_ok [OF t(1) Cons.prems(2) assms(3)] Cons.IH [OF t(2)] show ?case by simp
qed simp


section \<open>What a recorded return changes\<close>

definition line_of_item :: "uuid \<Rightarrow> uuid \<Rightarrow> prepared_line \<Rightarrow> sale_return_line \<Rightarrow> bool" where
  "line_of_item bid rid it l \<longleftrightarrow> live l \<and> business_id l = bid \<and> srl_sale_return_id l = rid \<and>
     srl_sale_line_id l = crl_sale_line_id (pr_request it) \<and> srl_qty l = crl_qty (pr_request it)"

definition item_place :: "uuid \<Rightarrow> uuid \<Rightarrow> prepared_line \<Rightarrow> position" where
  "item_place bid br it = (bid, br, pr_product_id it, pr_variation_id it)"

lemma restock_free:
  "pr_original it = None \<Longrightarrow> restock_item c bid br user at' it i s =
     receive_layer c bid br (pr_product_id it) (pr_variation_id it) (crl_qty (pr_request it))
       (get_fallback_cost_per_unit s bid (pr_product_id it) (pr_variation_id it)) user ''return'' (Some at') None None
       StockMovementType_sale_return (get_fallback_cost_per_unit s bid (pr_product_id it) (pr_variation_id it))
       ReferenceType_sale_return_line i None (Some at') s"
  by (simp add: restock_item_def receive_layer_def Let_def)

lemma receive_layer_frame:
  assumes "receive_layer c bid br p v q cost user src cr bat ex mt mcost rt rid notes mat s = s'"
  shows "s' = s\<lparr>uuid_next := uuid_next s', purchase_lines := purchase_lines s', movements := movements s'\<rparr>"
    "uuid_next s \<le> uuid_next s'"
    "\<exists>l m. movements s' = movements s @ [m] \<and> purchase_lines s' = purchase_lines s @ [l] \<and>
       live m \<and> sm_movement_type m = mt \<and> sm_purchase_line_id m = Some (uuid_gen s (uuid_next s))"
  using assms
  by (auto simp: receive_layer_def create_fifo_layer_def create_stock_movement_def fresh_uuid_def Let_def live_def)

lemma put_back_receive:
  assumes "inj (uuid_gen s)" "receive_layer c bid br p v q cost user src cr bat ex mt mcost rt rid notes mat s = s'"
  shows "put_back bid sl mt s s'"
proof -
  note F = receive_layer_frame [OF assms(2)]
  obtain l m where lm: "movements s' = movements s @ [m]" "purchase_lines s' = purchase_lines s @ [l]" "live m"
    "sm_movement_type m = mt" "sm_purchase_line_id m = Some (uuid_gen s (uuid_next s))" using F(3) by blast
  have "uuid_gen s (uuid_next s) \<notin> drawn s" using assms(1) by (auto simp: drawn_def inj_def)
  then have "\<forall>i\<in>drawn s. sum_where sm_qty (\<lambda>m. sm_purchase_line_id m = Some i) [m] \<le> consumed s bid sl i"
    using lm(5) consumed_nonneg by auto
  moreover have "s' = s\<lparr>uuid_next := uuid_next s', purchase_lines := purchase_lines s', movements := movements s @ [m]\<rparr>"
    using F(1) lm(1) by simp
  ultimately show ?thesis unfolding put_back_def
    by (intro exI [of _ "[m]"] exI [of _ "[layer_meta l]"]) (use lm F(2) in simp)
qed

lemma put_back_item:
  assumes "inj (uuid_gen s)" "restock_item c bid br user at' it i s = s'"
  shows "put_back bid (case pr_original it of Some o' \<Rightarrow> row_id o' | None \<Rightarrow> j) StockMovementType_sale_return s s'"
proof (cases "pr_original it")
  case None
  then show ?thesis using put_back_receive [OF assms(1), of _ bid] assms(2) by (simp add: restock_free)
next
  case (Some o')
  from put_back_restore [OF assms(1) assms(2) [unfolded restock_item_def Some option.case Let_def]] show ?thesis
    by (simp add: Some)
qed

lemma add_return_line_eq:
  assumes "add_return_line c bid user rid it s = (l, s')"
  shows "s' = s\<lparr>uuid_next := Suc (uuid_next s), sale_return_lines := sale_return_lines s @ [l]\<rparr>"
    "line_of_item bid rid it l"
  using assms by (auto simp: add_return_line_def fresh_uuid_def Let_def line_of_item_def live_def)

lemma write_return_items_frame:
  assumes "fold (write_return_item c bid br user at' rid) its s = s'" "inj (uuid_gen s)"
  shows "\<exists>new n ps ms. list_all2 (line_of_item bid rid) its new \<and> uuid_next s \<le> n \<and>
    s' = s\<lparr>uuid_next := n, purchase_lines := ps, movements := ms, sale_return_lines := sale_return_lines s @ new\<rparr>"
  using assms
proof (induction its arbitrary: s)
  case Nil
  then show ?case by (intro exI [of _ "[]"] exI [of _ "uuid_next s"] exI [of _ "purchase_lines s"]
        exI [of _ "movements s"]) simp
next
  case (Cons it its)
  obtain l t where l: "add_return_line c bid user rid it s = (l, t)" by fastforce
  define u where "u = restock_item c bid br user at' it (row_id l) t"
  note L = add_return_line_eq [OF l]
  have "inj (uuid_gen t)" using Cons.prems(2) by (simp add: L(1))
  from put_backE [OF put_back_item [OF this u_def [symmetric], of 0]]
  obtain U: "u = t\<lparr>uuid_next := uuid_next u, purchase_lines := purchase_lines u, movements := movements u\<rparr>"
    "uuid_next t \<le> uuid_next u" "uuid_gen u = uuid_gen t" by blast
  have "write_return_item c bid br user at' rid it s = u" by (simp add: write_return_item_def l u_def)
  then have rest: "fold (write_return_item c bid br user at' rid) its u = s'" using Cons.prems(1) by simp
  have "inj (uuid_gen u)" using Cons.prems(2) by (simp add: U(3) L(1))
  from Cons.IH [OF rest this] obtain new n ps ms where N: "list_all2 (line_of_item bid rid) its new" "uuid_next u \<le> n"
    "s' = u\<lparr>uuid_next := n, purchase_lines := ps, movements := ms, sale_return_lines := sale_return_lines u @ new\<rparr>"
    by blast
  have "sale_return_lines u = sale_return_lines s @ [l]" by (subst U(1)) (simp add: L(1))
  moreover have "s' = s\<lparr>uuid_next := n, purchase_lines := ps, movements := ms,
      sale_return_lines := sale_return_lines u @ new\<rparr>"
    by (subst N(3), subst U(1)) (simp add: L(1))
  moreover have "uuid_next s \<le> n" using N(2) U(2) by (simp add: L(1))
  ultimately show ?case using L(2) N(1)
    by (intro exI [of _ "l # new"] exI [of _ n] exI [of _ ps] exI [of _ ms]) simp
qed

definition cash_refund :: "CreateRefundPaymentRequest \<Rightarrow> decimal" where
  "cash_refund r = (if crp_payment_method r = PaymentMethod_cash then crp_amount r else 0)"

lemma write_refunds_eq:
  assumes "fold (write_refund c bid user sh at' rid) rs s = s'"
  shows "\<exists>n ps txs. uuid_next s \<le> n \<and> s' = s\<lparr>uuid_next := n, sale_return_payments := ps, register_txs := txs\<rparr> \<and>
    (\<forall>k. drawer s' k = drawer s k - (if k = (bid, sh) then sum_list (map cash_refund rs) else 0))"
  using assms
proof (induction rs arbitrary: s)
  case Nil
  then show ?case by (intro exI [of _ "uuid_next s"] exI [of _ "sale_return_payments s"] exI [of _ "register_txs s"]) simp
next
  case (Cons r rs)
  define t where "t = write_refund c bid user sh at' rid r s"
  have one: "\<exists>n ps txs. uuid_next s \<le> n \<and> t = s\<lparr>uuid_next := n, sale_return_payments := ps, register_txs := txs\<rparr> \<and>
    (\<forall>k. drawer t k = drawer s k - (if k = (bid, sh) then cash_refund r else 0))"
  proof -
    define p where "p = (new_row (uuid_gen s (uuid_next s)) bid (Some user) (now c)
            \<lparr>srp_sale_return_id = rid, srp_payment_method = crp_payment_method r,
             srp_amount = crp_amount r, srp_status = PaymentStatus_completed, srp_refunded_at = at'\<rparr> :: sale_return_payment)"
    let ?s = "s\<lparr>uuid_next := Suc (uuid_next s), sale_return_payments := sale_return_payments s @ [p]\<rparr>"
    obtain tx u where tx: "add_register_tx c bid sh RegisterTxType_sale_return (crp_payment_method r) (crp_amount r)
        (Some ReferenceType_sale_return) (Some rid) None at' user ?s = (tx, u)" by fastforce
    have t: "t = u" using tx by (simp add: t_def write_refund_def fresh_uuid_def Let_def p_def)
    note E = add_register_tx_eq [OF tx]
    have "cash_effect tx = - cash_refund r" using E by (simp add: cash_effect_def cash_refund_def)
    then have "drawer t k = drawer ?s k + (if k = (bid, sh) then - cash_refund r else 0)" for k
      using drawer.post_balance [OF add_register_tx_posts [OF tx], of k] by (simp add: t)
    moreover have "drawer ?s k = drawer s k" for k by (simp add: drawer_def)
    ultimately show ?thesis using E(1)
      by (intro exI [of _ "Suc (Suc (uuid_next s))"] exI [of _ "sale_return_payments s @ [p]"]
          exI [of _ "register_txs s @ [tx]"]) (simp add: t)
  qed
  then obtain n ps txs where T: "uuid_next s \<le> n" "t = s\<lparr>uuid_next := n, sale_return_payments := ps, register_txs := txs\<rparr>"
    "\<forall>k. drawer t k = drawer s k - (if k = (bid, sh) then cash_refund r else 0)" by blast
  have "fold (write_refund c bid user sh at' rid) rs t = s'" using Cons.prems by (simp add: t_def)
  from Cons.IH [OF this] obtain n' ps' txs' where N: "uuid_next t \<le> n'"
    "s' = t\<lparr>uuid_next := n', sale_return_payments := ps', register_txs := txs'\<rparr>"
    "\<forall>k. drawer s' k = drawer t k - (if k = (bid, sh) then sum_list (map cash_refund rs) else 0)" by blast
  show ?case using N(1,3) T(1,3)
    by (intro exI [of _ n'] exI [of _ ps'] exI [of _ txs']) (auto simp: N(2) T(2))
qed


lemma unsold_line: "\<exists>j. \<forall>i. consumed s bid j i = 0"
proof -
  obtain j where j: "j \<notin> sm_reference_id ` set (movements s)"
    using ex_new_if_finite [of "sm_reference_id ` set (movements s)"] infinite_UNIV_nat by blast
  then have "consumed s bid j i = 0" for i
    unfolding consumed_def by (intro sum_where_none) (auto simp: sale_line_movement_def)
  then show ?thesis by blast
qed

definition restock_ready :: "db \<Rightarrow> uuid \<Rightarrow> uuid \<Rightarrow> prepared_line list \<Rightarrow> bool" where
  \<comment> \<open>linked items take back no more than was sold, at the place it was sold from, and the layers
     have room for them\<close>
  "restock_ready s bid br its \<longleftrightarrow>
     (\<forall>it\<in>set its. 0 < crl_qty (pr_request it) \<and>
        (\<forall>o'. pr_original it = Some o' \<longrightarrow>
           crl_qty (pr_request it) \<le> sln_qty o' \<and> sale_line_at s (item_place bid br it) (row_id o'))) \<and>
     room_for_lines s bid (map row_id (List.map_filter pr_original its))"

lemma restock_item_ok:
  assumes "restock_item c bid br user at' it i s = s'" "reconciled s" "restock_ready s bid br (it # its)"
  shows "reconciled s' \<and> restock_ready s' bid br its \<and>
    (\<forall>k. stock_at s' k = stock_at s k + (if k = item_place bid br it then crl_qty (pr_request it) else 0))"
proof -
  let ?q = "crl_qty (pr_request it)" and ?ids = "map row_id (List.map_filter pr_original its)"
  have q: "0 \<le> ?q" using assms(3) by (auto simp: restock_ready_def less_imp_le)
  obtain j where j: "\<forall>i. consumed s bid j i = 0" using unsold_line by blast
  let ?sl = "case pr_original it of Some o' \<Rightarrow> row_id o' | None \<Rightarrow> j"
  have pb: "put_back bid ?sl StockMovementType_sale_return s s'"
    by (rule put_back_item [OF stock_okD(1) [OF assms(2)] assms(1)])
  have room: "room_for_lines s bid (?sl # ?ids)"
    using assms(3) j by (cases "pr_original it") (auto simp: restock_ready_def room_for_lines_def map_filter_simps)
  have R: "reconciled s' \<and> (\<forall>k. stock_at s' k = stock_at s k + (if k = item_place bid br it then ?q else 0))"
  proof (cases "pr_original it")
    case None
    from receive_layer_ok [OF assms(2) q, OF _ assms(1) [unfolded restock_free [OF None]]]
    show ?thesis using stock.post_balance by (auto simp: item_place_def)
  next
    case (Some o')
    have o': "?q \<le> sln_qty o'" "sale_line_at s (bid, br, pr_product_id it, pr_variation_id it) (row_id o')"
      using assms(3) Some by (auto simp: restock_ready_def item_place_def)
    have "room_for s bid (row_id o')" using room_for_first [OF room] by (simp add: Some)
    from restore_sale_line_inventory_ok [OF assms(2) q o' this
        assms(1) [unfolded restock_item_def Some option.case Let_def]]
    show ?thesis by (simp add: item_place_def)
  qed
  have "room_for_lines s' bid ?ids"
    by (rule put_back_room [OF pb _ assms(2) R [THEN conjunct1] room]) simp
  then have "restock_ready s' bid br its"
    using assms(3) put_back_sales(2) [OF pb] by (simp add: restock_ready_def)
  with R show ?thesis by blast
qed

lemma restock_items_ok:
  assumes "fold (write_return_item c bid br user at' rid) its s = s'" "reconciled s" "restock_ready s bid br its"
  shows "reconciled s' \<and> (\<forall>k. stock_at s' k = stock_at s k +
    sum_where (\<lambda>it. crl_qty (pr_request it)) (\<lambda>it. item_place bid br it = k) its)"
  using assms
proof (induction its arbitrary: s)
  case (Cons it its)
  obtain l t where l: "add_return_line c bid user rid it s = (l, t)" by fastforce
  define u where "u = restock_item c bid br user at' it (row_id l) t"
  note L = add_return_line_eq [OF l]
  have "write_return_item c bid br user at' rid it s = u" by (simp add: write_return_item_def l u_def)
  then have rest: "fold (write_return_item c bid br user at' rid) its u = s'" using Cons.prems(1) by simp
  have "reconciled t" by (rule stock_ok_frame [OF Cons.prems(2)]) (auto simp: L(1) drawn_def)
  moreover have "restock_ready t bid br (it # its)"
    using Cons.prems(3) by (simp add: restock_ready_def L(1) sale_line_at_def room_for_lines_def consumed_def)
  ultimately have U: "reconciled u" "restock_ready u bid br its"
    "\<forall>k. stock_at u k = stock_at t k + (if k = item_place bid br it then crl_qty (pr_request it) else 0)"
    using restock_item_ok [OF u_def [symmetric]] by blast+
  have "stock_at t k = stock_at s k" for k by (simp add: stock_at_sum L(1))
  with Cons.IH [OF rest U(1,2)] U(3) show ?case by auto
qed simp

lemma credit_return_eq:
  assumes "credit_return c bid user cu i a s = s'"
  shows "\<exists>es n. s' = s\<lparr>uuid_next := n, customer_ledgers := es\<rparr> \<and> uuid_next s \<le> n \<and>
    (\<forall>k. customer_account s' k = customer_account s k +
       (if 0 < a \<and> cu = Some (snd k) \<and> fst k = bid then a else 0))"
proof (cases "cu \<noteq> None \<and> 0 < a")
  case True
  then obtain x where x: "cu = Some x" by blast
  obtain e where e: "create_ledger_entry c bid x LedgerEntryType_return a user (Some ReferenceType_sale_return)
      (Some i) None s = (e, s')"
    using assms True by (simp add: credit_return_def x) (metis prod.collapse)
  have "customer_account s' k = customer_account s k + (if k = (bid, x) then a else 0)" for k
    by (rule accounts.post_balance [OF create_ledger_entry_posts [OF e]])
  moreover have "(0 < a \<and> cu = Some (snd k) \<and> fst k = bid) = (k = (bid, x))" for k
    using True x by (cases k) auto
  ultimately show ?thesis using create_ledger_entry_eq(1) [OF e]
    by (intro exI [of _ "customer_ledgers s @ [e]"] exI [of _ "Suc (uuid_next s)"]) simp
next
  case False
  then have "s' = s" using assms by (auto simp: credit_return_def split: option.splits)
  with False show ?thesis
    by (intro exI [of _ "customer_ledgers s"] exI [of _ "uuid_next s"]) auto
qed


lemma add_sale_return_eq:
  assumes "add_sale_return c bid data user sid cu n s = (r, s')"
  shows "s' = s\<lparr>uuid_next := Suc (uuid_next s), sale_returns := sale_returns s @ [r]\<rparr>" "live r"
    "business_id r = bid" "row_id r = uuid_gen s (uuid_next s)" "sr_sale_id r = sid" "sr_customer_id r = cu"
  using assms by (auto simp: add_sale_return_def fresh_uuid_def Let_def live_def)

definition return_recorded ::
  "uuid \<Rightarrow> CreateSaleReturnRequest \<Rightarrow> uuid \<Rightarrow> uuid option \<Rightarrow> decimal \<Rightarrow> db \<Rightarrow> sale_return \<Rightarrow> db \<Rightarrow> bool" where
  \<comment> \<open>accounts and drawers after the return \<open>r\<close> was written\<close>
  "return_recorded bid data sh cu credit s r s' \<longleftrightarrow>
     (\<forall>k. customer_account s' k = customer_account s k +
        (if 0 < credit \<and> cu = Some (snd k) \<and> fst k = bid then credit else 0)) \<and>
     (\<forall>k. drawer s' k = drawer s k -
        (if k = (bid, sh) then sum_list (map cash_refund (csr_refund_payments data)) else 0)) \<and>
     sale_returns s' = sale_returns s @ [r]"

lemma write_return_eq:
  assumes "write_return c bid data user sh sid cu prepared (cash, credit) s = (r, s')" "inj (uuid_gen s)"
  shows "return_recorded bid data sh cu credit s r s'"
    and "\<exists>new. sale_return_lines s' = sale_return_lines s @ new \<and> list_all2 (line_of_item bid (row_id r)) prepared new"
    and "live r" "business_id r = bid" "row_id r \<notin> drawn s" "row_id r \<in> drawn s'" "uuid_gen s' = uuid_gen s"
    and "drawn s \<subseteq> drawn s'" "sale_lines s' = sale_lines s"
    and "reconciled s \<Longrightarrow> restock_ready s bid (csr_branch_id data) prepared \<Longrightarrow>
      reconciled s' \<and> (\<forall>k. stock_at s' k = stock_at s k +
        sum_where (\<lambda>it. crl_qty (pr_request it)) (\<lambda>it. item_place bid (csr_branch_id data) it = k) prepared)"
proof -
  let ?br = "csr_branch_id data" and ?at = "or_else (csr_returned_at data) (now c)"
  obtain n s1 where s1: "generate_document_number c bid ''RET'' s = (n, s1)" by fastforce
  obtain r' s2 where s2: "add_sale_return c bid data user sid cu n s1 = (r', s2)" by fastforce
  define s3 where "s3 = fold (write_return_item c bid ?br user ?at (row_id r')) prepared s2"
  define s4 where "s4 = fold (write_refund c bid user sh ?at (row_id r')) (csr_refund_payments data) s3"
  define s5 where "s5 = credit_return c bid user cu (row_id r') credit s4"
  have r: "r = r'" and s': "s' = log_return bid user ?br sid r' (total_refund prepared) cash credit prepared s5"
    using assms(1) by (auto simp: write_return_def s1 s2 s3_def s4_def s5_def Let_def)
  note F1 = generate_document_number_frame [OF s1]
  note F2 = add_sale_return_eq [OF s2]
  have e1: "uuid_gen s1 = uuid_gen s" "purchase_lines s1 = purchase_lines s" "movements s1 = movements s"
    "sale_returns s1 = sale_returns s" "sale_return_lines s1 = sale_return_lines s" "sale_lines s1 = sale_lines s"
    "register_txs s1 = register_txs s" "customer_ledgers s1 = customer_ledgers s"
    by (subst F1(1), simp)+
  have e2: "uuid_gen s2 = uuid_gen s" "purchase_lines s2 = purchase_lines s" "movements s2 = movements s"
    "sale_returns s2 = sale_returns s @ [r]" "sale_return_lines s2 = sale_return_lines s" "sale_lines s2 = sale_lines s"
    "register_txs s2 = register_txs s" "customer_ledgers s2 = customer_ledgers s" "uuid_next s2 = Suc (uuid_next s1)"
    by (simp_all add: F2(1) e1 r)
  obtain new n3 ps ms where N: "list_all2 (line_of_item bid (row_id r')) prepared new" "uuid_next s2 \<le> n3"
    "s3 = s2\<lparr>uuid_next := n3, purchase_lines := ps, movements := ms, sale_return_lines := sale_return_lines s2 @ new\<rparr>"
    using write_return_items_frame [OF s3_def [symmetric]] assms(2) e2(1) by auto
  obtain n4 ps4 txs where P: "uuid_next s3 \<le> n4"
    "s4 = s3\<lparr>uuid_next := n4, sale_return_payments := ps4, register_txs := txs\<rparr>"
    "\<forall>k. drawer s4 k = drawer s3 k - (if k = (bid, sh) then sum_list (map cash_refund (csr_refund_payments data)) else 0)"
    using write_refunds_eq [OF s4_def [symmetric]] by blast
  obtain es n5 where C: "s5 = s4\<lparr>uuid_next := n5, customer_ledgers := es\<rparr>" "uuid_next s4 \<le> n5"
    "\<forall>k. customer_account s5 k = customer_account s4 k + (if 0 < credit \<and> cu = Some (snd k) \<and> fst k = bid then credit else 0)"
    using credit_return_eq [OF s5_def [symmetric]] by blast
  have e: "uuid_gen s' = uuid_gen s" "uuid_next s' = n5" "sale_returns s' = sale_returns s @ [r]"
    "sale_return_lines s' = sale_return_lines s @ new" "sale_lines s' = sale_lines s"
    "purchase_lines s' = purchase_lines s3" "movements s' = movements s3"
    "customer_ledgers s' = customer_ledgers s5" "register_txs s' = register_txs s4"
    by (simp_all add: s' log_return_def log_audit_def Let_def C(1) P(2) N(3) e2)
  have next_le: "uuid_next s \<le> uuid_next s1" "Suc (uuid_next s1) \<le> n3" "n3 \<le> n4" "n4 \<le> n5"
    using F1(2) N(2) P(1) C(2) by (simp_all add: N(3) P(2) e2(9))
  have "row_id r = uuid_gen s (uuid_next s1)" using F2(4) by (simp add: r e1(1))
  then show "row_id r \<notin> drawn s" "row_id r \<in> drawn s'"
    using next_le inj_eq [OF assms(2)] by (auto simp: drawn_def e(1,2))
  show "drawn s \<subseteq> drawn s'" using next_le by (intro drawn_le) (simp_all add: e)
  show "uuid_gen s' = uuid_gen s" "sale_lines s' = sale_lines s" by (fact e)+
  show "live r" "business_id r = bid" using F2(2,3) r by simp_all
  show "\<exists>new. sale_return_lines s' = sale_return_lines s @ new \<and> list_all2 (line_of_item bid (row_id r)) prepared new"
    using N(1) e(4) r by blast
  have "customer_account s4 k = customer_account s k" "drawer s3 k = drawer s k" for k
    by (simp_all add: customer_account_def drawer_def P(2) N(3) e2)
  moreover have "customer_account s' k = customer_account s5 k" "drawer s' k = drawer s4 k" for k
    by (simp_all add: customer_account_def drawer_def e)
  ultimately show "return_recorded bid data sh cu credit s r s'"
    using C(3) P(3) e(3) by (simp add: return_recorded_def)
  assume rec: "reconciled s" and ready: "restock_ready s bid ?br prepared"
  have "drawn s \<subseteq> drawn s2" using next_le by (intro drawn_le) (simp_all add: e2)
  then have "reconciled s2" by (rule stock_ok_frame [OF rec e2(2,3,1)])
  moreover have "restock_ready s2 bid ?br prepared"
    using ready by (simp add: restock_ready_def e2 sale_line_at_def room_for_lines_def consumed_def)
  ultimately have R: "reconciled s3" "\<forall>k. stock_at s3 k = stock_at s2 k +
      sum_where (\<lambda>it. crl_qty (pr_request it)) (\<lambda>it. item_place bid ?br it = k) prepared"
    using restock_items_ok [OF s3_def [symmetric]] by blast+
  have "drawn s3 \<subseteq> drawn s'" using next_le by (intro drawn_le) (simp_all add: N(3) e e2(1))
  then have "reconciled s'" by (rule stock_ok_frame [OF R(1) e(6,7), rotated]) (simp add: e(1) N(3) e2(1))
  then show "reconciled s' \<and> (\<forall>k. stock_at s' k = stock_at s k +
        sum_where (\<lambda>it. crl_qty (pr_request it)) (\<lambda>it. item_place bid ?br it = k) prepared)"
    using R(2) by (simp add: stock_at_sum e(7) e2(3))
qed


section \<open>Returns and sales\<close>

definition returns_ok :: "db \<Rightarrow> bool" where
  \<comment> \<open>return lines belong to existing returns, and no sale line had more come back than it sold\<close>
  "returns_ok s \<longleftrightarrow> inj (uuid_gen s) \<and> distinct (map row_id (sale_lines s)) \<and>
     (\<forall>l\<in>set (sale_return_lines s). srl_sale_return_id l \<in> drawn s \<and> 0 \<le> srl_qty l) \<and>
     (\<forall>l\<in>set (sale_lines s). live l \<longrightarrow> 0 \<le> sln_qty l \<and> returned_qty s (business_id l) (row_id l) \<le> sln_qty l)"

lemma returned_qty_sum:
  "returned_qty s bid i = sum_where srl_qty (returned_with s (\<lambda>_. True) bid i) (sale_return_lines s)"
  by (simp add: returned_qty_def already_returned_amounts_def sum_where_def Let_def)

lemma lock_original_lines_Inr:
  assumes "lock_original_lines s bid ids = Inr rows"
  shows "set rows = {l \<in> set (sale_lines s). row_id l \<in> set ids \<and> business_id l = bid \<and> live l}"
    "distinct (map row_id (sale_lines s)) \<Longrightarrow> distinct (map row_id rows)"
proof -
  have rows: "rows = sort_key row_id (filter (\<lambda>l. row_id l \<in> set ids \<and> business_id l = bid \<and> live l) (sale_lines s))"
    using assms by (auto simp: lock_original_lines_def Let_def split: if_splits)
  show "set rows = {l \<in> set (sale_lines s). row_id l \<in> set ids \<and> business_id l = bid \<and> live l}"
    by (simp add: rows)
  assume d: "distinct (map row_id (sale_lines s))"
  have "inj_on row_id (set (sale_lines s))" "distinct (sale_lines s)" using d by (simp_all add: distinct_map)
  then show "distinct (map row_id rows)" unfolding rows
    by (auto simp: distinct_map distinct_filter intro: inj_on_subset)
qed

lemma create_sale_return_Inr:
  assumes "create_sale_return c bid data user s = Inr (r, s')"
  obtains sh sid cu prepared cash credit originals pend where
    "check_return s bid data user = Inr (sh, sid, cu, prepared, cash, credit)"
    "lock_original_lines s bid (requested_line_ids (csr_lines data)) = Inr originals"
    "fold_res (prepare_line s bid originals) (csr_lines data) (Map.empty, []) = Inr (pend, prepared)"
    "check_refund (csr_refund_payments data) (total_refund prepared) cu = Inr (cash, credit)"
    "write_return c bid data user sh sid cu prepared (cash, credit) s = (r, s')"
  using assms unfolding create_sale_return_def bind_res_Inr
  by (clarsimp simp: check_return_def bind_res_Inr) blast

lemma prepared_of_return:
  assumes "lock_original_lines s bid ids = Inr originals" "returns_ok s"
    and "fold_res (prepare_line s bid originals) lines (Map.empty, []) = Inr (pend, prepared)"
  shows "prepared_ok s bid originals (pend, prepared)" "map pr_request prepared = lines"
    "distinct (map row_id originals)"
proof -
  show d: "distinct (map row_id originals)"
    using lock_original_lines_Inr(2) [OF assms(1)] assms(2) by (simp add: returns_ok_def)
  have "prepared_ok s bid originals (Map.empty, [])" by (simp add: prepared_ok_def)
  from prepare_lines_ok [OF assms(3) this d]
  show "prepared_ok s bid originals (pend, prepared)" "map pr_request prepared = lines" by simp_all
qed

lemma returned_after:
  assumes "sale_return_lines s' = sale_return_lines s @ new" "list_all2 (line_of_item bid (row_id r)) prepared new"
    and "sale_returns s' = sale_returns s @ [r]" "live r" "business_id r = bid"
    and "\<forall>l\<in>set (sale_return_lines s). srl_sale_return_id l \<noteq> row_id r"
  shows "returned_qty s' b i = returned_qty s b i + (if b = bid then wanted prepared i else 0)"
proof -
  have "sum_where srl_qty (returned_with s' (\<lambda>_. True) b i) (sale_return_lines s) = returned_qty s b i"
    unfolding returned_qty_sum using assms(3,6)
    by (intro sum_where_cong) (auto simp: returned_with_def)
  moreover have "sum_where srl_qty (returned_with s' (\<lambda>_. True) b i) new = (if b = bid then wanted prepared i else 0)"
    using assms(2,3,4,5)
    by (induction rule: list_all2_induct) (auto simp: returned_with_def line_of_item_def)
  ultimately show ?thesis by (simp add: returned_qty_sum assms(1))
qed

text \<open>
  C21. However a sale line is returned, in one request or several, in one line of a request or many,
  the quantities that came back never exceed the quantity sold: recording a return keeps this.
\<close>

theorem never_returns_more_than_sold:
  assumes "create_sale_return c bid data user s = Inr (r, s')" "returns_ok s" "valid_return_request data"
  shows "returns_ok s'"
proof -
  obtain sh sid cu prepared cash credit originals pend where
    orig: "lock_original_lines s bid (requested_line_ids (csr_lines data)) = Inr originals"
    and prep: "fold_res (prepare_line s bid originals) (csr_lines data) (Map.empty, []) = Inr (pend, prepared)"
    and wr: "write_return c bid data user sh sid cu prepared (cash, credit) s = (r, s')"
    using assms(1) by (rule create_sale_return_Inr)
  have inj: "inj (uuid_gen s)" using assms(2) by (simp add: returns_ok_def)
  note W = write_return_eq [OF wr inj] and P = prepared_of_return [OF orig assms(2) prep]
  obtain new where new: "sale_return_lines s' = sale_return_lines s @ new"
    "list_all2 (line_of_item bid (row_id r)) prepared new" using W(2) by blast
  have "\<forall>l\<in>set (sale_return_lines s). srl_sale_return_id l \<noteq> row_id r"
    using assms(2) W(5) by (auto simp: returns_ok_def)
  note after = returned_after [OF new _ W(3,4) this]
  have ret: "sale_returns s' = sale_returns s @ [r]" using W(1) by (simp add: return_recorded_def)
  have "0 < crl_qty (pr_request it)" if "it \<in> set prepared" for it
  proof -
    have "pr_request it \<in> set (csr_lines data)" using that by (simp flip: P(2))
    then show ?thesis using assms(3) by (simp add: valid_return_request_def valid_return_line_def)
  qed
  with new(2) have "\<forall>l\<in>set new. srl_sale_return_id l = row_id r \<and> 0 \<le> srl_qty l"
    by (auto simp: line_of_item_def less_imp_le dest!: list_all2_right)
  then have lines: "\<forall>l\<in>set (sale_return_lines s'). srl_sale_return_id l \<in> drawn s' \<and> 0 \<le> srl_qty l"
    using assms(2) W(6,8) by (auto simp: new(1) returns_ok_def)
  have "returned_qty s' (business_id l) (row_id l) \<le> sln_qty l"
    if l: "l \<in> set (sale_lines s)" "live l" for l
  proof (cases "business_id l = bid \<and> (\<exists>it\<in>set prepared. crl_sale_line_id (pr_request it) = Some (row_id l))")
    case True
    then obtain it where it: "it \<in> set prepared" "crl_sale_line_id (pr_request it) = Some (row_id l)" by blast
    with P(1) obtain o' where o': "pr_original it = Some o'" "o' \<in> set originals" "row_id o' = row_id l"
      by (fastforce simp: prepared_ok_def item_ok_def split: option.splits)
    then have "o' \<in> set (sale_lines s)" using lock_original_lines_Inr(1) [OF orig] by simp
    then have "o' = l" using l(1) o'(3) assms(2) by (auto simp: returns_ok_def distinct_map inj_on_def)
    then have "returned_qty s bid (row_id l) + wanted prepared (row_id l) \<le> sln_qty l"
      using P(1) it(1) o'(1) by (auto simp: prepared_ok_def)
    then show ?thesis using True after [OF ret] by simp
  next
    case False
    then have "business_id l = bid \<Longrightarrow> wanted prepared (row_id l) = 0"
      unfolding wanted_def by (intro sum_where_none) blast
    then show ?thesis using l assms(2) after [OF ret, of "business_id l" "row_id l"]
      by (auto simp: returns_ok_def)
  qed
  then show ?thesis using assms(2) inj lines by (simp add: returns_ok_def W(7,9))
qed


definition returnable :: "db \<Rightarrow> uuid \<Rightarrow> CreateSaleReturnRequest \<Rightarrow> bool" where
  \<comment> \<open>the requested sale lines' movements are at their own positions and their layers have room\<close>
  "returnable s bid data \<longleftrightarrow>
     (let ids = List.map_filter crl_sale_line_id (csr_lines data)
      in room_for_lines s bid ids \<and>
         (\<forall>l\<in>set (sale_lines s). row_id l \<in> set ids \<longrightarrow>
            sale_line_at s (line_position bid (csr_branch_id data) l) (row_id l)))"

lemma original_ids:
  assumes "\<forall>it\<in>set its. item_ok originals it"
  shows "map row_id (List.map_filter pr_original its) = List.map_filter crl_sale_line_id (map pr_request its)"
  using assms by (induction its) (auto simp: map_filter_simps item_ok_def split: option.splits)

lemma wanted_member:
  "it \<in> set its \<Longrightarrow> crl_sale_line_id (pr_request it) = Some i \<Longrightarrow> \<forall>it\<in>set its. 0 \<le> crl_qty (pr_request it) \<Longrightarrow>
     crl_qty (pr_request it) \<le> wanted its i"
proof (induction its)
  case (Cons x its)
  have "0 \<le> wanted its i" unfolding wanted_def using Cons.prems(3) by (intro sum_where_nonneg) simp
  with Cons show ?case by auto
qed simp

lemma restock_ready_prepared:
  assumes "lock_original_lines s bid (requested_line_ids (csr_lines data)) = Inr originals" "returns_ok s"
    and "prepared_ok s bid originals (pend, prepared)" "map pr_request prepared = csr_lines data"
    and "valid_return_request data" "returnable s bid data"
  shows "restock_ready s bid (csr_branch_id data) prepared"
proof -
  have ok: "\<forall>it\<in>set prepared. item_ok originals it" using assms(3) by (simp add: prepared_ok_def)
  have pos: "\<forall>it\<in>set prepared. 0 < crl_qty (pr_request it)"
  proof
    fix it assume "it \<in> set prepared"
    then have "pr_request it \<in> set (csr_lines data)" by (simp flip: assms(4))
    then show "0 < crl_qty (pr_request it)" using assms(5) by (simp add: valid_return_request_def valid_return_line_def)
  qed
  have "crl_qty (pr_request it) \<le> sln_qty o' \<and> sale_line_at s (item_place bid (csr_branch_id data) it) (row_id o')"
    if it: "it \<in> set prepared" "pr_original it = Some o'" for it o'
  proof -
    have o': "o' \<in> set originals" "crl_sale_line_id (pr_request it) = Some (row_id o')"
      "pr_product_id it = sln_product_id o'" "pr_variation_id it = sln_variation_id o'"
      using ok it by (auto simp: item_ok_def)
    have "0 \<le> returned_qty s bid (row_id o')" unfolding returned_qty_sum
      using assms(2) by (intro sum_where_nonneg) (simp add: returns_ok_def)
    moreover have "crl_qty (pr_request it) \<le> wanted prepared (row_id o')"
      using pos by (intro wanted_member [OF it(1) o'(2)]) (simp add: less_imp_le)
    moreover have "returned_qty s bid (row_id o') + wanted prepared (row_id o') \<le> sln_qty o'"
      using assms(3) it by (simp add: prepared_ok_def)
    ultimately have "crl_qty (pr_request it) \<le> sln_qty o'" by linarith
    moreover have "o' \<in> set (sale_lines s)" "row_id o' \<in> set (requested_line_ids (csr_lines data))"
      using o'(1) lock_original_lines_Inr(1) [OF assms(1)] by auto
    ultimately show ?thesis using assms(6) o'(3,4)
      by (simp add: returnable_def Let_def requested_line_ids_def line_position_def item_place_def)
  qed
  moreover have "room_for_lines s bid (map row_id (List.map_filter pr_original prepared))"
    using assms(6) by (simp add: original_ids [OF ok] assms(4) returnable_def Let_def)
  ultimately show ?thesis using pos by (simp add: restock_ready_def)
qed

lemma check_refund_Inr:
  assumes "check_refund refunds refundable cu = Inr (cash, credit)"
  shows "cash + credit = refundable" "0 < credit \<Longrightarrow> cu \<noteq> None"
    "sum_list (map crp_amount refunds) \<le> refundable"
    "cash = sum_where crp_amount (\<lambda>r. crp_payment_method r \<noteq> PaymentMethod_credit) refunds"
proof -
  have "fold (\<lambda>r acc. acc + crp_amount r) rs a = a + sum_list (map crp_amount rs)" for rs a
    by (induction rs arbitrary: a) simp_all
  then have "fold (\<lambda>r acc. acc + crp_amount r) refunds 0 = sum_list (map crp_amount refunds)"
    by (metis add_0)
  with assms show "cash + credit = refundable" "0 < credit \<Longrightarrow> cu \<noteq> None"
    "sum_list (map crp_amount refunds) \<le> refundable"
    "cash = sum_where crp_amount (\<lambda>r. crp_payment_method r \<noteq> PaymentMethod_credit) refunds"
    by (auto simp: check_refund_def Let_def split: if_splits)
qed

text \<open>
  C9. A recorded return puts every returned quantity back into the stock of its item at the return's
  branch and nowhere else, takes exactly the cash refunds out of the cashier's drawer, credits the
  customer with what was not paid out, and the two parts together are the total refund, which the
  refund payments never exceed; layers and stock movements stay reconciled.
\<close>

theorem create_sale_return_correct:
  assumes "create_sale_return c bid data user s = Inr (r, s')" "reconciled s" "returns_ok s"
    and "valid_return_request data" "returnable s bid data"
  shows "\<exists>sh sid cu prepared cash credit. check_return s bid data user = Inr (sh, sid, cu, prepared, cash, credit) \<and>
    map pr_request prepared = csr_lines data \<and> reconciled s' \<and>
    (\<forall>k. stock_at s' k = stock_at s k +
       sum_where (\<lambda>it. crl_qty (pr_request it)) (\<lambda>it. item_place bid (csr_branch_id data) it = k) prepared) \<and>
    return_recorded bid data sh cu credit s r s' \<and>
    cash + credit = total_refund prepared \<and>
    sum_list (map crp_amount (csr_refund_payments data)) \<le> total_refund prepared"
proof -
  obtain sh sid cu prepared cash credit originals pend where
    ch: "check_return s bid data user = Inr (sh, sid, cu, prepared, cash, credit)"
    and orig: "lock_original_lines s bid (requested_line_ids (csr_lines data)) = Inr originals"
    and prep: "fold_res (prepare_line s bid originals) (csr_lines data) (Map.empty, []) = Inr (pend, prepared)"
    and ref: "check_refund (csr_refund_payments data) (total_refund prepared) cu = Inr (cash, credit)"
    and wr: "write_return c bid data user sh sid cu prepared (cash, credit) s = (r, s')"
    using assms(1) by (rule create_sale_return_Inr)
  note P = prepared_of_return [OF orig assms(3) prep]
  note ready = restock_ready_prepared [OF orig assms(3) P(1,2) assms(4,5)]
  note W = write_return_eq [OF wr stock_okD(1) [OF assms(2)]]
  show ?thesis
    using ch P(2) W(1) W(10) [OF assms(2) ready] check_refund_Inr(1,3) [OF ref] by blast
qed

section \<open>Samples\<close>

definition sample_returning :: db where
  "sample_returning = (sample_invoiced SaleStatus_completed)\<lparr>branches := [sample_branch],
     products := [sample_product], customers := [sample_customer]\<rparr>"

definition sample_return_request :: CreateSaleReturnRequest where
  \<comment> \<open>two of the three units, five of the twenty paid out in cash\<close>
  "sample_return_request = \<lparr>csr_branch_id = 2, csr_register_shift_id = None, csr_sale_id = Some 60,
     csr_customer_id = None, csr_reason = None, csr_returned_at = None,
     csr_lines = [\<lparr>crl_product_id = None, crl_variation_id = None, crl_sale_line_id = Some 70, crl_qty = 2,
       crl_unit_price = None, crl_tax_amount = None\<rparr>],
     csr_refund_payments = [\<lparr>crp_payment_method = PaymentMethod_cash, crp_amount = 5\<rparr>]\<rparr>"

lemma sample_check_return:
  "check_return sample_returning 1 sample_return_request 9 =
     Inr (6, Some 60, Some 8, [\<lparr>pr_request = hd (csr_lines sample_return_request), pr_original = Some sample_invoice_line,
       pr_product_id = 5, pr_variation_id = None, pr_unit_price = 10, pr_discount = 0, pr_tax = 0\<rparr>], 5, 15)"
  by code_simp


lemma sample_return_runs: "\<exists>r s'. create_sale_return sample_clock 1 sample_return_request 9 sample_returning = Inr (r, s')"
  unfolding create_sale_return_def sample_check_return by (simp add: write_return_def split: prod.splits)

lemma sample_returning_ok:
  "reconciled sample_returning" "returns_ok sample_returning" "valid_return_request sample_return_request"
  "returnable sample_returning 1 sample_return_request"
proof -
  show "reconciled sample_returning"
    by (rule stock_ok_frame [OF sample_invoiced_ok]) (auto simp: sample_returning_def drawn_def)
  show "returns_ok sample_returning"
    by (simp add: returns_ok_def sample_returning_def sample_invoiced_simps returned_qty_sum inj_on_def)
  show "valid_return_request sample_return_request"
    by (simp add: valid_return_request_def valid_return_line_def sample_return_request_def)
  show "returnable sample_returning 1 sample_return_request"
    using sample_invoiced_restorable
    by (simp add: returnable_def sample_return_request_def map_filter_simps sample_returning_def restorable_def
        sample_invoiced_def sample_invoice_line_def live_def room_for_lines_def consumed_def sale_line_at_def)
qed

lemma never_returns_more_than_sold_witness:
  "\<exists>r s'. create_sale_return sample_clock 1 sample_return_request 9 sample_returning = Inr (r, s') \<and> returns_ok s'"
  using sample_return_runs never_returns_more_than_sold [OF _ sample_returning_ok(2,3)] by blast

lemma create_sale_return_correct_witness:
  "\<exists>r s'. create_sale_return sample_clock 1 sample_return_request 9 sample_returning = Inr (r, s') \<and> reconciled s' \<and>
     stock_at s' (1, 2, 5, None) = stock_at sample_returning (1, 2, 5, None) + 2 \<and>
     drawer s' (1, 6) = drawer sample_returning (1, 6) - 5 \<and>
     customer_account s' (1, 8) = customer_account sample_returning (1, 8) + 15"
proof -
  obtain r s' where s': "create_sale_return sample_clock 1 sample_return_request 9 sample_returning = Inr (r, s')"
    using sample_return_runs by blast
  let ?it = "\<lparr>pr_request = hd (csr_lines sample_return_request), pr_original = Some sample_invoice_line,
       pr_product_id = 5, pr_variation_id = None, pr_unit_price = 10, pr_discount = 0, pr_tax = 0\<rparr>"
  from create_sale_return_correct [OF s' sample_returning_ok]
  have "reconciled s'" "\<forall>k. stock_at s' k = stock_at sample_returning k +
      sum_where (\<lambda>it. crl_qty (pr_request it)) (\<lambda>it. item_place 1 (csr_branch_id sample_return_request) it = k) [?it]"
    "return_recorded 1 sample_return_request 6 (Some 8) 15 sample_returning r s'"
    unfolding sample_check_return by auto
  then have "stock_at s' (1, 2, 5, None) = stock_at sample_returning (1, 2, 5, None) + 2"
    "drawer s' (1, 6) = drawer sample_returning (1, 6) - 5"
    "customer_account s' (1, 8) = customer_account sample_returning (1, 8) + 15"
    unfolding return_recorded_def
    by (simp_all only: sum_where_simps) (simp_all add: item_place_def sample_return_request_def cash_refund_def)
  then show ?thesis using s' \<open>reconciled s'\<close> by blast
qed

end
