(* ===== verification/Kitchen.thy ===== *)
theory Kitchen
  imports Tables "HOL-Library.Product_Lexorder"
begin

text \<open>
  \<open>app/services/restaurant_modifier_service.py\<close>: modifier groups, their modifiers, the products they
  apply to, and the check of a line's selection; and \<open>app/services/restaurant_kot_service.py\<close>: the
  kitchen's order tickets, whose header follows the slowest of their lines.
\<close>

section \<open>Modifier groups\<close>

record CreateModifierGroupRequest =
  cmg_name :: string
  cmg_selection_type :: ModifierSelectionTypeEnum
  cmg_min_selections :: int
  cmg_max_selections :: "int option"
  cmg_is_required :: bool
  cmg_sort_order :: int

definition valid_modifier_group :: "CreateModifierGroupRequest \<Rightarrow> bool" where
  \<comment> \<open>\<open>validate_selection_bounds\<close>\<close>
  "valid_modifier_group data \<longleftrightarrow>
     (case cmg_max_selections data of None \<Rightarrow> True | Some m \<Rightarrow> cmg_min_selections data \<le> m) \<and>
     (cmg_selection_type data = ModifierSelectionType_single \<longrightarrow>
        (case cmg_max_selections data of None \<Rightarrow> True | Some m \<Rightarrow> m \<le> 1))"

record UpdateModifierGroupRequest =
  umg_name :: "string option"
  umg_selection_type :: "ModifierSelectionTypeEnum option"
  umg_min_selections :: "int option"
  umg_max_selections :: "int option"
  umg_is_required :: "bool option"
  umg_sort_order :: "int option"
  umg_is_active :: "bool option"

record CreateModifierRequest =
  cmd_name :: string
  cmd_price_delta :: decimal
  cmd_sort_order :: int

record UpdateModifierRequest =
  umd_name :: "string option"
  umd_price_delta :: "decimal option"
  umd_sort_order :: "int option"
  umd_is_active :: "bool option"

definition effective_min_selections :: "modifier_group \<Rightarrow> int" where
  "effective_min_selections grp =
     (if mg_is_required grp \<and> mg_min_selections grp < 1 then 1 else mg_min_selections grp)"

definition validate_group_selection_count :: "modifier_group \<Rightarrow> int \<Rightarrow> unit res" where
  "validate_group_selection_count grp selected_count =
     (let minimum = effective_min_selections grp in
      if selected_count < minimum then
        Inl (HTTPException 400 ''Modifier group '{}' requires at least {} selection(s), got {}''
          [AStr (mg_name grp), ADec (of_int minimum), ADec (of_int selected_count)])
      else if (case mg_max_selections grp of Some m \<Rightarrow> m < selected_count | None \<Rightarrow> False) then
        Inl (HTTPException 400 ''Modifier group '{}' allows at most {} selection(s), got {}''
          [AStr (mg_name grp), ADec (of_int (or_else (mg_max_selections grp) 0)), ADec (of_int selected_count)])
      else if mg_selection_type grp = ModifierSelectionType_single \<and> 1 < selected_count then
        Inl (HTTPException 400 ''Modifier group '{}' allows only one selection'' [AStr (mg_name grp)])
      else Inr ())"

definition get_modifier_group :: "db \<Rightarrow> uuid \<Rightarrow> uuid \<Rightarrow> modifier_group res" where
  "get_modifier_group s group_id bid =
     require_one (HTTPException 404 ''Modifier group not found'' [])
       (filter (\<lambda>g. row_id g = group_id \<and> business_id g = bid \<and> live g) (modifier_groups s))"

definition get_modifier :: "db \<Rightarrow> uuid \<Rightarrow> uuid \<Rightarrow> modifier res" where
  "get_modifier s modifier_id bid =
     require_one (HTTPException 404 ''Modifier not found'' [])
       (filter (\<lambda>r. row_id r = modifier_id \<and> business_id r = bid \<and> live r) (modifiers s))"

definition modifiers_of :: "db \<Rightarrow> modifier_group \<Rightarrow> modifier list" where
  \<comment> \<open>the relationship \<open>group.modifiers\<close>\<close>
  "modifiers_of s grp = filter (\<lambda>r. md_modifier_group_id r = row_id grp) (modifiers s)"

definition by_order_and_name :: "modifier_group list \<Rightarrow> modifier_group list" where
  \<comment> \<open>\<open>ORDER BY sort_order, name\<close>\<close>
  "by_order_and_name = sort_key (\<lambda>g. (mg_sort_order g, mg_name g))"

definition get_modifier_groups :: "db \<Rightarrow> uuid \<Rightarrow> (modifier_group \<times> modifier list) list" where
  "get_modifier_groups s bid =
     map (\<lambda>g. (g, filter live (modifiers_of s g)))
       (by_order_and_name (filter (\<lambda>g. business_id g = bid \<and> live g) (modifier_groups s)))"

definition get_modifier_group_by_id :: "db \<Rightarrow> uuid \<Rightarrow> uuid \<Rightarrow> (modifier_group \<times> modifier list) res" where
  "get_modifier_group_by_id s group_id bid =
     bind_res (get_modifier_group s group_id bid) (\<lambda>g. Inr (g, filter live (modifiers_of s g)))"

definition commit_modifier_groups :: "db \<Rightarrow> db res" where
  \<comment> \<open>\<open>uq_modifier_groups_name\<close>\<close>
  "commit_modifier_groups s =
     (if distinct (map (\<lambda>g. (business_id g, mg_name g)) (modifier_groups s)) then Inr s
      else bad_request ''Modifier group name already exists'')"

definition create_modifier_group ::
  "clock \<Rightarrow> uuid \<Rightarrow> CreateModifierGroupRequest \<Rightarrow> uuid \<Rightarrow> db \<Rightarrow> db res" where
  "create_modifier_group c bid data user s =
     (let (i, s) = fresh_uuid s;
          grp = new_row i bid (Some user) (now c)
            \<lparr>mg_name = strip_ws (cmg_name data), mg_selection_type = cmg_selection_type data,
             mg_min_selections = cmg_min_selections data, mg_max_selections = cmg_max_selections data,
             mg_is_required = cmg_is_required data, mg_sort_order = cmg_sort_order data, mg_is_active = True\<rparr>
      in commit_modifier_groups (s\<lparr>modifier_groups := modifier_groups s @ [grp]\<rparr>))"

definition edit_modifier_group ::
  "clock \<Rightarrow> UpdateModifierGroupRequest \<Rightarrow> uuid \<Rightarrow> modifier_group \<Rightarrow> modifier_group" where
  "edit_modifier_group c data user g =
     g\<lparr>mg_name := (case umg_name data of Some n \<Rightarrow> strip_ws n | None \<Rightarrow> mg_name g),
       mg_selection_type := or_else (umg_selection_type data) (mg_selection_type g),
       mg_min_selections := or_else (umg_min_selections data) (mg_min_selections g),
       mg_max_selections := set_some (umg_max_selections data) (mg_max_selections g),
       mg_is_required := or_else (umg_is_required data) (mg_is_required g),
       mg_sort_order := or_else (umg_sort_order data) (mg_sort_order g),
       mg_is_active := or_else (umg_is_active data) (mg_is_active g),
       updated_by := Some user, updated_at := now c\<rparr>"

definition update_modifier_group ::
  "clock \<Rightarrow> uuid \<Rightarrow> uuid \<Rightarrow> UpdateModifierGroupRequest \<Rightarrow> uuid \<Rightarrow> db \<Rightarrow> db res" where
  "update_modifier_group c group_id bid data user s =
     bind_res (get_modifier_group s group_id bid) (\<lambda>grp.
       let g = edit_modifier_group c data user grp in
       if (case mg_max_selections g of Some m \<Rightarrow> m < mg_min_selections g | None \<Rightarrow> False)
       then bad_request ''max_selections must be >= min_selections''
       else if mg_selection_type g = ModifierSelectionType_single \<and>
               (case mg_max_selections g of Some m \<Rightarrow> 1 < m | None \<Rightarrow> False)
       then bad_request ''single selection groups cannot have max_selections > 1''
       else commit_modifier_groups (s\<lparr>modifier_groups :=
              update_where (\<lambda>r. row_id r = row_id grp) (edit_modifier_group c data user) (modifier_groups s)\<rparr>))"

definition delete_modifier_group :: "clock \<Rightarrow> uuid \<Rightarrow> uuid \<Rightarrow> uuid \<Rightarrow> db \<Rightarrow> db res" where
  "delete_modifier_group c group_id bid user s =
     bind_res (get_modifier_group s group_id bid) (\<lambda>grp.
       Inr (s\<lparr>modifier_groups :=
                update_where (\<lambda>r. row_id r = row_id grp) (soft_delete c user) (modifier_groups s),
              modifiers := update_where (\<lambda>r. md_modifier_group_id r = row_id grp \<and> live r)
                (soft_delete c user) (modifiers s)\<rparr>))"

section \<open>Modifiers\<close>

definition commit_modifiers :: "db \<Rightarrow> db res" where
  \<comment> \<open>\<open>uq_modifiers_name\<close>\<close>
  "commit_modifiers s =
     (if distinct (map (\<lambda>r. (business_id r, md_modifier_group_id r, md_name r)) (modifiers s)) then Inr s
      else bad_request ''Modifier name already exists in this group'')"

definition create_modifier ::
  "clock \<Rightarrow> uuid \<Rightarrow> uuid \<Rightarrow> CreateModifierRequest \<Rightarrow> uuid \<Rightarrow> db \<Rightarrow> db res" where
  "create_modifier c group_id bid data user s =
     bind_res (get_modifier_group s group_id bid) (\<lambda>_.
       let (i, s) = fresh_uuid s;
           r = new_row i bid (Some user) (now c)
             \<lparr>md_modifier_group_id = group_id, md_name = strip_ws (cmd_name data),
              md_price_delta = cmd_price_delta data, md_is_active = True, md_sort_order = cmd_sort_order data\<rparr>
       in commit_modifiers (s\<lparr>modifiers := modifiers s @ [r]\<rparr>))"

definition edit_modifier :: "clock \<Rightarrow> UpdateModifierRequest \<Rightarrow> uuid \<Rightarrow> modifier \<Rightarrow> modifier" where
  "edit_modifier c data user r =
     r\<lparr>md_name := (case umd_name data of Some n \<Rightarrow> strip_ws n | None \<Rightarrow> md_name r),
       md_price_delta := or_else (umd_price_delta data) (md_price_delta r),
       md_sort_order := or_else (umd_sort_order data) (md_sort_order r),
       md_is_active := or_else (umd_is_active data) (md_is_active r),
       updated_by := Some user, updated_at := now c\<rparr>"

definition update_modifier ::
  "clock \<Rightarrow> uuid \<Rightarrow> uuid \<Rightarrow> UpdateModifierRequest \<Rightarrow> uuid \<Rightarrow> db \<Rightarrow> db res" where
  "update_modifier c modifier_id bid data user s =
     bind_res (get_modifier s modifier_id bid) (\<lambda>r.
       commit_modifiers (s\<lparr>modifiers :=
         update_where (\<lambda>x. row_id x = row_id r) (edit_modifier c data user) (modifiers s)\<rparr>))"

definition delete_modifier :: "clock \<Rightarrow> uuid \<Rightarrow> uuid \<Rightarrow> uuid \<Rightarrow> db \<Rightarrow> db res" where
  "delete_modifier c modifier_id bid user s =
     bind_res (get_modifier s modifier_id bid) (\<lambda>r.
       Inr (s\<lparr>modifiers := update_where (\<lambda>x. row_id x = row_id r) (soft_delete c user) (modifiers s)\<rparr>))"

section \<open>Products and their groups\<close>

definition linked_to :: "db \<Rightarrow> uuid \<Rightarrow> uuid \<Rightarrow> modifier_group \<Rightarrow> bool" where
  "linked_to s bid product_id g \<longleftrightarrow>
     (\<exists>l\<in>set (product_modifier_groups s). pmg_modifier_group_id l = row_id g \<and> pmg_business_id l = bid \<and>
        pmg_product_id l = product_id) \<and> business_id g = bid \<and> live g"

definition get_product_modifier_groups ::
  "db \<Rightarrow> uuid \<Rightarrow> uuid \<Rightarrow> (modifier_group \<times> modifier list) list res" where
  "get_product_modifier_groups s product_id bid =
     bind_res (verify_product s product_id bid) (\<lambda>_.
       Inr (map (\<lambda>g. (g, filter (\<lambda>r. live r \<and> md_is_active r) (modifiers_of s g)))
              (by_order_and_name (filter (linked_to s bid product_id) (modifier_groups s)))))"

definition replace_product_modifier_groups ::
  "clock \<Rightarrow> uuid \<Rightarrow> uuid \<Rightarrow> uuid list \<Rightarrow> uuid \<Rightarrow> db \<Rightarrow> db res" where
  \<comment> \<open>\<open>dict.fromkeys\<close> keeps the first of equal ids\<close>
  "replace_product_modifier_groups c product_id bid modifier_group_ids user s =
     bind_res (verify_product s product_id bid) (\<lambda>_.
       let ids = rev (remdups (rev modifier_group_ids));
           found_ids = set (map row_id (filter (\<lambda>g. business_id g = bid \<and> live g \<and> row_id g \<in> set ids)
             (modifier_groups s)));
           missing = filter (\<lambda>i. i \<notin> found_ids) ids
       in if missing \<noteq> [] then Inl (HTTPException 400 ''Unknown modifier groups: {}'' (map AUuid missing))
          else
            let s = s\<lparr>product_modifier_groups := filter
                  (\<lambda>l. \<not> (pmg_business_id l = bid \<and> pmg_product_id l = product_id)) (product_modifier_groups s)\<rparr>
            in Inr (fold (\<lambda>g s. let (i, s) = fresh_uuid s in
                 s\<lparr>product_modifier_groups := product_modifier_groups s @
                   [\<lparr>pmg_id = i, pmg_business_id = bid, pmg_product_id = product_id,
                     pmg_modifier_group_id = g, pmg_created_at = now c, pmg_created_by = Some user\<rparr>]\<rparr>) ids s))"


section \<open>The selection of a line\<close>

type_synonym ModifierSnapshot = "uuid \<times> string \<times> decimal"

definition select_modifier :: "(uuid \<rightharpoonup> modifier) \<Rightarrow> uuid \<Rightarrow> modifier list \<Rightarrow> modifier list res" where
  "select_modifier allowed_modifiers modifier_id selected =
     (case allowed_modifiers modifier_id of
        None \<Rightarrow> Inl (HTTPException 400 ''Modifier {} is not allowed for this product'' [AUuid modifier_id])
      | Some r \<Rightarrow>
          if \<not> md_is_active r
          then Inl (HTTPException 400 (''Modifier '{}' is not active'') [AStr (md_name r)])
          else Inr (selected @ [r]))"

definition snapshot_key :: "modifier_group list \<Rightarrow> modifier \<Rightarrow> int \<times> int \<times> string" where
  "snapshot_key linked_groups r =
     (case filter (\<lambda>g. row_id g = md_modifier_group_id r) linked_groups of
        g # _ \<Rightarrow> mg_sort_order g | [] \<Rightarrow> 0, md_sort_order r, md_name r)"

definition validate_line_modifiers :: "db \<Rightarrow> uuid \<Rightarrow> uuid \<Rightarrow> uuid list \<Rightarrow> ModifierSnapshot list res" where
  "validate_line_modifiers s bid product_id selected_modifier_ids =
     bind_res (verify_product s product_id bid) (\<lambda>_.
     bind_res (get_product_modifier_groups s product_id bid) (\<lambda>linked.
       let allowed_modifiers = map_of (rev (map (\<lambda>r. (row_id r, r)) (concat (map snd linked)))) in
       if \<not> distinct selected_modifier_ids
       then bad_request ''Duplicate modifier selections are not allowed''
       else
         bind_res (fold_res (select_modifier allowed_modifiers) selected_modifier_ids []) (\<lambda>selected.
         bind_res (check_each (\<lambda>(g, _). validate_group_selection_count g
             (int (length (filter (\<lambda>r. md_modifier_group_id r = row_id g) selected)))) linked) (\<lambda>_.
           Inr (map (\<lambda>r. (row_id r, md_name r, md_price_delta r))
                  (sort_key (snapshot_key (map fst linked)) selected))))))"

lemma validate_count_Inr:
  "validate_group_selection_count g n = Inr u \<longleftrightarrow>
     effective_min_selections g \<le> n \<and> (\<forall>m. mg_max_selections g = Some m \<longrightarrow> n \<le> m) \<and>
     (mg_selection_type g = ModifierSelectionType_single \<longrightarrow> n \<le> 1)"
  by (auto simp: validate_group_selection_count_def Let_def split: option.splits)

lemma select_modifiers:
  assumes "fold_res (select_modifier am) ids acc = Inr sel"
  shows "\<exists>rs. sel = acc @ rs \<and> list_all2 (\<lambda>i r. am i = Some r \<and> md_is_active r) ids rs"
  using assms
proof (induction ids arbitrary: acc)
  case (Cons i ids)
  then obtain t where t: "select_modifier am i acc = Inr t" "fold_res (select_modifier am) ids t = Inr sel"
    by (auto simp: bind_res_Inr)
  from t(1) obtain r where r: "am i = Some r" "md_is_active r" "t = acc @ [r]"
    by (auto simp: select_modifier_def split: option.splits if_splits)
  from Cons.IH [OF t(2)] obtain rs where "sel = t @ rs" "list_all2 (\<lambda>i r. am i = Some r \<and> md_is_active r) ids rs" by blast
  then show ?case using r by (intro exI [of _ "r # rs"]) simp
qed simp

definition offered :: "db \<Rightarrow> uuid \<Rightarrow> uuid \<Rightarrow> modifier \<Rightarrow> bool" where
  \<comment> \<open>a modifier that may be chosen with a product\<close>
  "offered s bid product_id r \<longleftrightarrow> r \<in> set (modifiers s) \<and> live r \<and> md_is_active r \<and>
     (\<exists>g\<in>set (modifier_groups s). linked_to s bid product_id g \<and> md_modifier_group_id r = row_id g)"

lemma linked_groups:
  assumes "get_product_modifier_groups s p bid = Inr linked"
  shows "set (map fst linked) = {g \<in> set (modifier_groups s). linked_to s bid p g}"
    and "set (concat (map snd linked)) = {r. offered s bid p r}"
proof -
  have linked: "linked = map (\<lambda>g. (g, filter (\<lambda>r. live r \<and> md_is_active r) (modifiers_of s g)))
      (by_order_and_name (filter (linked_to s bid p) (modifier_groups s)))"
    using assms by (auto simp: get_product_modifier_groups_def bind_res_Inr)
  show "set (map fst linked) = {g \<in> set (modifier_groups s). linked_to s bid p g}"
    by (auto simp: linked by_order_and_name_def image_image)
  show "set (concat (map snd linked)) = {r. offered s bid p r}"
    unfolding set_eq_iff
    by (simp add: linked by_order_and_name_def offered_def modifiers_of_def) blast
qed

lemma list_all2_map_of_ids:
  assumes "list_all2 (\<lambda>i r. map_of (rev (map (\<lambda>r. (row_id r, r)) rows)) i = Some r \<and> Q r) ids rs"
  shows "map row_id rs = ids" "\<forall>r\<in>set rs. r \<in> set rows"
  using assms by (induction rule: list_all2_induct) (auto dest!: map_of_SomeD)

text \<open>
  An accepted selection names every chosen modifier once and no other, each one active, not
  deleted and of a group that applies to the product, with its current name and price; and in every
  group that applies, the number chosen is within the group's bounds (at least one where the group
  is required, at most one where it is single).
\<close>

theorem line_modifiers_sound:
  assumes "validate_line_modifiers s bid p ids = Inr snaps"
  shows "\<exists>chosen. mset (map row_id chosen) = mset ids \<and> distinct ids \<and>
    snaps = map (\<lambda>r. (row_id r, md_name r, md_price_delta r)) chosen \<and>
    (\<forall>r\<in>set chosen. offered s bid p r) \<and>
    (\<forall>g\<in>set (modifier_groups s). linked_to s bid p g \<longrightarrow>
      (let n = int (length (filter (\<lambda>r. md_modifier_group_id r = row_id g) chosen))
       in effective_min_selections g \<le> n \<and> (\<forall>m. mg_max_selections g = Some m \<longrightarrow> n \<le> m) \<and>
          (mg_selection_type g = ModifierSelectionType_single \<longrightarrow> n \<le> 1)))"
proof -
  obtain linked sel where linked: "get_product_modifier_groups s p bid = Inr linked"
    and sel: "fold_res (select_modifier (map_of (rev (map (\<lambda>r. (row_id r, r)) (concat (map snd linked)))))) ids [] = Inr sel"
    and d: "distinct ids"
    and ok': "check_each (\<lambda>(g, _). validate_group_selection_count g
        (int (length (filter (\<lambda>r. md_modifier_group_id r = row_id g) sel)))) linked = Inr ()"
    and snaps: "snaps = map (\<lambda>r. (row_id r, md_name r, md_price_delta r)) (sort_key (snapshot_key (map fst linked)) sel)"
    using assms unfolding validate_line_modifiers_def Let_def by (auto simp: bind_res_Inr split: if_splits)
  have ok: "validate_group_selection_count g (int (length (filter (\<lambda>r. md_modifier_group_id r = row_id g) sel))) = Inr ()"
    if "(g, x) \<in> set linked" for g x
    using ok' that unfolding check_each_Inr by fastforce
  let ?ch = "sort_key (snapshot_key (map fst linked)) sel"
  note L = linked_groups [OF linked]
  have sel': "map row_id sel = ids" "\<forall>r\<in>set sel. offered s bid p r"
    using select_modifiers [OF sel] list_all2_map_of_ids L(2) by fastforce+
  have "length (filter P ?ch) = length (filter P sel)" for P
    by (metis mset_filter mset_sort size_mset)
  moreover have "\<exists>x. (g, x) \<in> set linked" if "g \<in> set (modifier_groups s)" "linked_to s bid p g" for g
    using L(1) that by (force simp: set_eq_iff)
  ultimately have "let n = int (length (filter (\<lambda>r. md_modifier_group_id r = row_id g) ?ch))
      in effective_min_selections g \<le> n \<and> (\<forall>m. mg_max_selections g = Some m \<longrightarrow> n \<le> m) \<and>
        (mg_selection_type g = ModifierSelectionType_single \<longrightarrow> n \<le> 1)"
    if "g \<in> set (modifier_groups s)" "linked_to s bid p g" for g
    using ok that unfolding Let_def by (fastforce simp: validate_count_Inr)
  moreover have "mset (map row_id ?ch) = mset ids" using sel'(1) by (metis mset_map mset_sort)
  ultimately show ?thesis using d snaps sel'(2) by (intro exI [of _ ?ch]) auto
qed


definition sample_menu :: db where
  \<comment> \<open>product 5 with one required single-choice group of two modifiers\<close>
  "sample_menu = (empty_db id)\<lparr>products := [sample_product],
     modifier_groups := [new_row 30 1 None 0 \<lparr>mg_name = ''Size'', mg_selection_type = ModifierSelectionType_single,
       mg_min_selections = 0, mg_max_selections = None, mg_is_required = True, mg_sort_order = 0, mg_is_active = True\<rparr>],
     modifiers := [new_row 31 1 None 0 \<lparr>md_modifier_group_id = 30, md_name = ''Large'', md_price_delta = 2,
         md_is_active = True, md_sort_order = 0\<rparr>,
       new_row 32 1 None 0 \<lparr>md_modifier_group_id = 30, md_name = ''Small'', md_price_delta = 0,
         md_is_active = True, md_sort_order = 1\<rparr>],
     product_modifier_groups := [\<lparr>pmg_id = 33, pmg_business_id = 1, pmg_product_id = 5,
       pmg_modifier_group_id = 30, pmg_created_at = 0, pmg_created_by = None\<rparr>]\<rparr>"

lemma line_modifiers_sound_witness:
  "\<exists>chosen :: modifier list. mset (map row_id chosen) = {#31#} \<and> [(31, ''Large'', 2)] = map (\<lambda>r. (row_id r, md_name r, md_price_delta r)) chosen"
proof -
  have "validate_line_modifiers sample_menu 1 5 [31] = Inr [(31, ''Large'', 2)]" by code_simp
  from line_modifiers_sound [OF this] obtain chosen :: "modifier list"
    where "mset (map row_id chosen) = mset [31]"
      "[(31, ''Large'', 2)] = map (\<lambda>r. (row_id r, md_name r, md_price_delta r)) chosen"
    by (elim exE conjE) (rule that)
  then show ?thesis by (intro exI [of _ chosen]) simp
qed

section \<open>Order tickets\<close>

definition ACTIVE_KOT_STATUSES :: "KotStatusEnum list" where
  "ACTIVE_KOT_STATUSES = [KotStatus_pending, KotStatus_preparing, KotStatus_ready]"

fun KOT_STATUS_PRIORITY :: "KotStatusEnum \<Rightarrow> nat" where
  \<comment> \<open>the dict has no entry for \<open>cancelled\<close>; its readers exclude it\<close>
  "KOT_STATUS_PRIORITY KotStatus_pending = 0"
| "KOT_STATUS_PRIORITY KotStatus_preparing = 1"
| "KOT_STATUS_PRIORITY KotStatus_ready = 2"
| "KOT_STATUS_PRIORITY KotStatus_served = 3"

fun KOT_LINE_STATUS_TRANSITIONS :: "KotStatusEnum \<Rightarrow> KotStatusEnum list" where
  "KOT_LINE_STATUS_TRANSITIONS KotStatus_pending = [KotStatus_preparing, KotStatus_cancelled]"
| "KOT_LINE_STATUS_TRANSITIONS KotStatus_preparing = [KotStatus_ready, KotStatus_cancelled]"
| "KOT_LINE_STATUS_TRANSITIONS KotStatus_ready = [KotStatus_served, KotStatus_cancelled]"
| "KOT_LINE_STATUS_TRANSITIONS KotStatus_served = []"
| "KOT_LINE_STATUS_TRANSITIONS KotStatus_cancelled = []"

fun KOT_HEADER_STATUS_TRANSITIONS :: "KotStatusEnum \<Rightarrow> KotStatusEnum list" where
  "KOT_HEADER_STATUS_TRANSITIONS KotStatus_pending = [KotStatus_preparing, KotStatus_cancelled]"
| "KOT_HEADER_STATUS_TRANSITIONS KotStatus_preparing = [KotStatus_ready, KotStatus_cancelled]"
| "KOT_HEADER_STATUS_TRANSITIONS KotStatus_ready = [KotStatus_served, KotStatus_cancelled]"
| "KOT_HEADER_STATUS_TRANSITIONS KotStatus_served = []"
| "KOT_HEADER_STATUS_TRANSITIONS KotStatus_cancelled = []"

definition is_valid_kot_status_transition ::
  "KotStatusEnum \<Rightarrow> KotStatusEnum \<Rightarrow> (KotStatusEnum \<Rightarrow> KotStatusEnum list) \<Rightarrow> bool" where
  "is_valid_kot_status_transition current target transitions \<longleftrightarrow>
     (if current = target then True else target \<in> set (transitions current))"

definition derive_kot_header_status :: "KotStatusEnum list \<Rightarrow> KotStatusEnum" where
  \<comment> \<open>\<open>min\<close> with a key: the first of the least\<close>
  "derive_kot_header_status line_statuses =
     (let active = filter (\<lambda>st. st \<noteq> KotStatus_cancelled) line_statuses
      in if active = [] then KotStatus_cancelled else arg_min_list KOT_STATUS_PRIORITY active)"

definition apply_header_timestamps :: "KotStatusEnum \<Rightarrow> datetime \<Rightarrow> kot_order \<Rightarrow> kot_order" where
  "apply_header_timestamps header_status t r =
     (let r = (if header_status \<in> {KotStatus_ready, KotStatus_served} \<and> ko_ready_at r = None
               then r\<lparr>ko_ready_at := Some t\<rparr> else r)
      in if header_status = KotStatus_served \<and> ko_served_at r = None then r\<lparr>ko_served_at := Some t\<rparr> else r)"

definition kot_lines_of :: "db \<Rightarrow> uuid \<Rightarrow> kot_order_line list" where
  \<comment> \<open>the relationship \<open>order.lines\<close>\<close>
  "kot_lines_of s order_id = filter (\<lambda>l. kol_kot_order_id l = order_id) (kot_order_lines s)"

definition set_line_status :: "KotStatusEnum \<Rightarrow> datetime \<Rightarrow> kot_order_line \<Rightarrow> kot_order_line" where
  "set_line_status st t l = l\<lparr>kol_status := st, updated_at := t\<rparr>"

definition promote_lines_to_status :: "uuid \<Rightarrow> KotStatusEnum \<Rightarrow> datetime \<Rightarrow> db \<Rightarrow> db" where
  "promote_lines_to_status order_id target t s =
     s\<lparr>kot_order_lines := update_where (\<lambda>l. kol_kot_order_id l = order_id \<and> kol_status l \<noteq> KotStatus_cancelled \<and>
          KOT_STATUS_PRIORITY (kol_status l) < KOT_STATUS_PRIORITY target)
        (set_line_status target t) (kot_order_lines s)\<rparr>"

definition cancel_lines :: "uuid \<Rightarrow> datetime \<Rightarrow> db \<Rightarrow> db" where
  "cancel_lines order_id t s =
     s\<lparr>kot_order_lines := update_where (\<lambda>l. kol_kot_order_id l = order_id \<and> kol_status l \<noteq> KotStatus_cancelled)
        (set_line_status KotStatus_cancelled t) (kot_order_lines s)\<rparr>"

definition sync_kot_order_status_from_lines :: "datetime \<Rightarrow> kot_order_line list \<Rightarrow> kot_order \<Rightarrow> kot_order" where
  "sync_kot_order_status_from_lines t ls r =
     (let derived = derive_kot_header_status (map kol_status ls)
      in apply_header_timestamps derived t (r\<lparr>ko_status := derived\<rparr>))"

record KotOrderResponse =
  kr_order :: kot_order
  kr_table_number :: "string option"
  kr_lines :: "(kot_order_line \<times> string) list"

definition build_kot_response :: "db \<Rightarrow> kot_order \<Rightarrow> KotOrderResponse" where
  \<comment> \<open>each line with the name of its product\<close>
  "build_kot_response s order =
     \<lparr>kr_order = order,
      kr_table_number = map_option dt_table_number
        (first_row (filter (\<lambda>t. Some (row_id t) = ko_table_id order) (dining_tables s))),
      kr_lines = map (\<lambda>l. (l, case first_row (filter (\<lambda>p. row_id p = kol_product_id l) (products s)) of
         Some p \<Rightarrow> p_name p | None \<Rightarrow> [])) (kot_lines_of s (row_id order))\<rparr>"

definition get_kot_order_for_update :: "db \<Rightarrow> uuid \<Rightarrow> uuid \<Rightarrow> kot_order res" where
  "get_kot_order_for_update s kot_id bid =
     require_one (HTTPException 404 ''KOT order not found'' [])
       (filter (\<lambda>r. row_id r = kot_id \<and> business_id r = bid \<and> live r) (kot_orders s))"

definition active_kot :: "uuid \<Rightarrow> kot_order \<Rightarrow> bool" where
  "active_kot bid r \<longleftrightarrow> business_id r = bid \<and> live r \<and> ko_status r \<in> set ACTIVE_KOT_STATUSES"

definition get_active_kot_orders :: "db \<Rightarrow> uuid \<Rightarrow> uuid option \<Rightarrow> KotOrderResponse list" where
  "get_active_kot_orders s bid branch_id =
     map (build_kot_response s) (sort_key ko_fired_at
       (filter (\<lambda>r. active_kot bid r \<and> opt_eq branch_id (ko_branch_id r)) (kot_orders s)))"

definition get_kot_order_by_id :: "db \<Rightarrow> uuid \<Rightarrow> uuid \<Rightarrow> KotOrderResponse res" where
  "get_kot_order_by_id s kot_id bid =
     bind_res (require_one (HTTPException 404 ''KOT order not found'' [])
       (filter (\<lambda>r. row_id r = kot_id \<and> business_id r = bid \<and> live r) (kot_orders s)))
       (\<lambda>r. Inr (build_kot_response s r))"

definition get_kot_orders_by_table :: "db \<Rightarrow> uuid \<Rightarrow> uuid \<Rightarrow> KotOrderResponse list" where
  "get_kot_orders_by_table s table_id bid =
     map (build_kot_response s) (sort_key ko_fired_at
       (filter (\<lambda>r. active_kot bid r \<and> ko_table_id r = Some table_id) (kot_orders s)))"

definition invalid_kot_transition :: "string \<Rightarrow> KotStatusEnum \<Rightarrow> KotStatusEnum \<Rightarrow> 'a res" where
  "invalid_kot_transition what current target =
     Inl (HTTPException 400 (''Invalid '' @ what @ '' status transition from '{}' to '{}'' @ [CHR 0x27])
       [AStr (KotStatusEnum_value current), AStr (KotStatusEnum_value target)])"

definition update_kot_order_status ::
  "clock \<Rightarrow> uuid \<Rightarrow> uuid \<Rightarrow> KotStatusEnum \<Rightarrow> uuid \<Rightarrow> db \<Rightarrow> db res" where
  "update_kot_order_status c kot_id bid new_status user s =
     bind_res (get_kot_order_for_update s kot_id bid) (\<lambda>order.
       if \<not> is_valid_kot_status_transition (ko_status order) new_status KOT_HEADER_STATUS_TRANSITIONS
       then invalid_kot_transition ''KOT'' (ko_status order) new_status
       else
         let t = now c;
             s = (if new_status = KotStatus_cancelled then cancel_lines (row_id order) t s
                  else if new_status \<noteq> KotStatus_pending then promote_lines_to_status (row_id order) new_status t s
                  else s)
         in Inr (s\<lparr>kot_orders := update_where (\<lambda>r. row_id r = row_id order)
              (\<lambda>r. apply_header_timestamps new_status t
                (r\<lparr>ko_status := new_status, updated_by := Some user, updated_at := t\<rparr>)) (kot_orders s)\<rparr>))"

definition update_kot_order_line_status ::
  "clock \<Rightarrow> uuid \<Rightarrow> uuid \<Rightarrow> KotStatusEnum \<Rightarrow> uuid \<Rightarrow> db \<Rightarrow> db res" where
  "update_kot_order_line_status c line_id bid new_status user s =
     bind_res (require_one (HTTPException 404 ''KOT line not found'' [])
       (filter (\<lambda>l. row_id l = line_id \<and> business_id l = bid) (kot_order_lines s))) (\<lambda>line.
     case filter (\<lambda>r. row_id r = kol_kot_order_id line) (kot_orders s) of
       [] \<Rightarrow> Inl (PyError ''AttributeError'')
     | order # _ \<Rightarrow>
         if deleted_at order \<noteq> None then not_found ''KOT order not found''
         else if \<not> is_valid_kot_status_transition (kol_status line) new_status KOT_LINE_STATUS_TRANSITIONS
         then invalid_kot_transition ''KOT line'' (kol_status line) new_status
         else
           let t = now c;
               s = s\<lparr>kot_order_lines := update_where (\<lambda>l. row_id l = row_id line)
                     (set_line_status new_status t) (kot_order_lines s)\<rparr>
           in Inr (s\<lparr>kot_orders := update_where (\<lambda>r. row_id r = row_id order)
                (\<lambda>r. sync_kot_order_status_from_lines t (kot_lines_of s (row_id order))
                  (r\<lparr>updated_by := Some user, updated_at := t\<rparr>)) (kot_orders s)\<rparr>))"


section \<open>The header follows the slowest line\<close>

lemma priority_inj:
  "a \<noteq> KotStatus_cancelled \<Longrightarrow> b \<noteq> KotStatus_cancelled \<Longrightarrow> KOT_STATUS_PRIORITY a = KOT_STATUS_PRIORITY b \<Longrightarrow> a = b"
  by (cases a; cases b) simp_all

lemma derive_iff:
  "derive_kot_header_status sts = x \<longleftrightarrow>
     (if \<forall>st\<in>set sts. st = KotStatus_cancelled then x = KotStatus_cancelled
      else x \<in> set sts \<and> x \<noteq> KotStatus_cancelled \<and>
        (\<forall>st\<in>set sts. st \<noteq> KotStatus_cancelled \<longrightarrow> KOT_STATUS_PRIORITY x \<le> KOT_STATUS_PRIORITY st))"
proof -
  let ?a = "filter (\<lambda>st. st \<noteq> KotStatus_cancelled) sts"
  let ?d = "derive_kot_header_status sts"
  show ?thesis
  proof (cases "?a = []")
    case True
    then show ?thesis by (auto simp: derive_kot_header_status_def filter_empty_conv)
  next
    case False
    then have d: "?d = arg_min_list KOT_STATUS_PRIORITY ?a" by (simp add: derive_kot_header_status_def)
    have "?d \<in> set ?a" using arg_min_list_in [OF False] by (simp add: d)
    moreover have "KOT_STATUS_PRIORITY ?d \<le> KOT_STATUS_PRIORITY st" if "st \<in> set ?a" for st
      using f_arg_min_list_f [OF False, of KOT_STATUS_PRIORITY] that by (simp add: d del: set_filter)
    ultimately have least: "?d \<in> set sts" "?d \<noteq> KotStatus_cancelled"
      "\<forall>st\<in>set sts. st \<noteq> KotStatus_cancelled \<longrightarrow> KOT_STATUS_PRIORITY ?d \<le> KOT_STATUS_PRIORITY st" by auto
    have "x = ?d" if "x \<in> set sts" "x \<noteq> KotStatus_cancelled"
      "\<forall>st\<in>set sts. st \<noteq> KotStatus_cancelled \<longrightarrow> KOT_STATUS_PRIORITY x \<le> KOT_STATUS_PRIORITY st"
      using that least by (intro priority_inj) (auto intro: antisym)
    then show ?thesis using least False by (auto simp: filter_empty_conv)
  qed
qed

definition promoted :: "KotStatusEnum \<Rightarrow> KotStatusEnum \<Rightarrow> KotStatusEnum" where
  "promoted target st = (if st \<noteq> KotStatus_cancelled \<and> KOT_STATUS_PRIORITY st < KOT_STATUS_PRIORITY target
     then target else st)"

lemma derive_promoted:
  assumes "is_valid_kot_status_transition (derive_kot_header_status sts) target KOT_HEADER_STATUS_TRANSITIONS"
    and "target \<noteq> KotStatus_cancelled"
  shows "derive_kot_header_status (map (promoted target) sts) = target"
proof -
  let ?d = "derive_kot_header_status sts"
  have d: "?d \<noteq> KotStatus_cancelled" "KOT_STATUS_PRIORITY ?d \<le> KOT_STATUS_PRIORITY target"
    using assms by (cases ?d; auto simp: is_valid_kot_status_transition_def split: if_splits)+
  have least: "?d \<in> set sts" "\<forall>st\<in>set sts. st \<noteq> KotStatus_cancelled \<longrightarrow> KOT_STATUS_PRIORITY ?d \<le> KOT_STATUS_PRIORITY st"
    using derive_iff [of sts ?d] d(1) by (auto split: if_splits)
  have "promoted target ?d = target"
    using d priority_inj [OF d(1) assms(2)] by (auto simp: promoted_def)
  then have "target \<in> set (map (promoted target) sts)" using least(1) by force
  moreover have "KOT_STATUS_PRIORITY target \<le> KOT_STATUS_PRIORITY (promoted target st)" if "st \<noteq> KotStatus_cancelled" for st
    using that by (simp add: promoted_def)
  ultimately show ?thesis using assms(2) unfolding derive_iff by (auto simp: promoted_def split: if_splits)
qed

definition kot_ok :: "db \<Rightarrow> bool" where
  \<comment> \<open>ids are keys, and a header that is not cancelled is the status derived from its lines\<close>
  "kot_ok s \<longleftrightarrow> distinct (map row_id (kot_orders s)) \<and> distinct (map row_id (kot_order_lines s)) \<and>
     (\<forall>r\<in>set (kot_orders s). ko_status r = KotStatus_cancelled \<or>
        ko_status r = derive_kot_header_status (map kol_status (kot_lines_of s (row_id r))))"

lemma apply_header_timestamps_simps [simp]:
  "row_id (apply_header_timestamps h t r) = row_id r" "ko_status (apply_header_timestamps h t r) = ko_status r"
  "live (apply_header_timestamps h t r) = live r"
  by (simp_all add: apply_header_timestamps_def Let_def live_def)

lemma set_line_status_simps [simp]:
  "row_id (set_line_status st t l) = row_id l" "kol_status (set_line_status st t l) = st"
  "kol_kot_order_id (set_line_status st t l) = kol_kot_order_id l"
  by (simp_all add: set_line_status_def)

lemma lines_updated:
  "map kol_status (filter (\<lambda>l. kol_kot_order_id l = i) (update_where P (set_line_status st t) ls)) =
   map (\<lambda>l. if P l then st else kol_status l) (filter (\<lambda>l. kol_kot_order_id l = i) ls)"
  by (induction ls) auto

lemma kot_ok_update:
  \<comment> \<open>one order's lines and header change together\<close>
  assumes "kot_ok s" "s' = s\<lparr>kot_order_lines := update_where P (set_line_status st t) (kot_order_lines s),
      kot_orders := update_where (\<lambda>r. row_id r = i) f (kot_orders s)\<rparr>"
    and "\<And>r. row_id (f r) = row_id r" "\<And>l. l \<in> set (kot_order_lines s) \<Longrightarrow> P l \<Longrightarrow> kol_kot_order_id l = i"
    and "\<And>r. r \<in> set (kot_orders s) \<Longrightarrow> row_id r = i \<Longrightarrow> ko_status (f r) = KotStatus_cancelled \<or> ko_status (f r) =
      derive_kot_header_status (map (\<lambda>l. if P l then st else kol_status l) (kot_lines_of s i))"
  shows "kot_ok s'"
proof -
  have "map row_id (update_where (\<lambda>r. row_id r = i) f (kot_orders s)) = map row_id (kot_orders s)"
    by (rule map_update_where) (simp add: assms(3))
  moreover have "map row_id (update_where P (set_line_status st t) (kot_order_lines s)) = map row_id (kot_order_lines s)"
    by (rule map_update_where) simp
  moreover have "ko_status r' = KotStatus_cancelled \<or> ko_status r' = derive_kot_header_status (map kol_status (kot_lines_of s' (row_id r')))"
    if r': "r' \<in> set (kot_orders s')" for r'
  proof -
    obtain r where r: "r \<in> set (kot_orders s)" "r' = (if row_id r = i then f r else r)"
      using r' by (auto simp: assms(2) set_update_where)
    have ls: "map kol_status (kot_lines_of s' j) = map (\<lambda>l. if P l then st else kol_status l) (kot_lines_of s j)" for j
      by (simp add: assms(2) kot_lines_of_def lines_updated)
    show ?thesis
    proof (cases "row_id r = i")
      case True
      then show ?thesis using assms(3) assms(5) [OF r(1)] by (simp add: r(2) ls)
    next
      case False
      then have "map kol_status (kot_lines_of s' (row_id r)) = map kol_status (kot_lines_of s (row_id r))"
        unfolding ls using assms(4) by (auto simp: kot_lines_of_def)
      then show ?thesis using assms(1) r False by (simp add: kot_ok_def)
    qed
  qed
  ultimately show ?thesis using assms(1) by (simp add: kot_ok_def assms(2))
qed


lemma get_kot_order_Inr:
  assumes "get_kot_order_for_update s i bid = Inr r"
  shows "r \<in> set (kot_orders s)" "row_id r = i" "live r" "business_id r = bid"
proof -
  have "r \<in> set (filter (\<lambda>r. row_id r = i \<and> business_id r = bid \<and> live r) (kot_orders s))"
    using assms by (auto simp: get_kot_order_for_update_def handler_simps)
  then show "r \<in> set (kot_orders s)" "row_id r = i" "live r" "business_id r = bid" by auto
qed

lemma update_kot_order_status_Inr:
  assumes "update_kot_order_status c i bid st user s = Inr s'"
  obtains order P where "get_kot_order_for_update s i bid = Inr order"
    "is_valid_kot_status_transition (ko_status order) st KOT_HEADER_STATUS_TRANSITIONS"
    "P = (\<lambda>l. kol_kot_order_id l = i \<and> kol_status l \<noteq> KotStatus_cancelled \<and>
       (st = KotStatus_cancelled \<or> st \<noteq> KotStatus_pending \<and> KOT_STATUS_PRIORITY (kol_status l) < KOT_STATUS_PRIORITY st))"
    "s' = s\<lparr>kot_order_lines := update_where P (set_line_status st (now c)) (kot_order_lines s),
       kot_orders := update_where (\<lambda>r. row_id r = i) (\<lambda>r. apply_header_timestamps st (now c)
         (r\<lparr>ko_status := st, updated_by := Some user, updated_at := now c\<rparr>)) (kot_orders s)\<rparr>"
proof -
  obtain order where o': "get_kot_order_for_update s i bid = Inr order"
    "is_valid_kot_status_transition (ko_status order) st KOT_HEADER_STATUS_TRANSITIONS"
    using assms by (auto simp: update_kot_order_status_def bind_res_Inr invalid_kot_transition_def split: if_splits)
  have i: "row_id order = i" using get_kot_order_Inr(2) [OF o'(1)] .
  have none: "update_where (\<lambda>_. False) f ls = ls" for f :: "kot_order_line \<Rightarrow> kot_order_line" and ls
    by (induction ls) simp_all
  show thesis
    by (rule that [OF o' refl])
      (use assms in \<open>auto simp: update_kot_order_status_def o' i Let_def cancel_lines_def
         promote_lines_to_status_def none\<close>)
qed

lemma kot_ok_order_status:
  assumes "update_kot_order_status c i bid st user s = Inr s'" "kot_ok s"
  shows "kot_ok s'"
proof -
  obtain order P where o': "get_kot_order_for_update s i bid = Inr order"
    and valid: "is_valid_kot_status_transition (ko_status order) st KOT_HEADER_STATUS_TRANSITIONS"
    and P: "P = (\<lambda>l. kol_kot_order_id l = i \<and> kol_status l \<noteq> KotStatus_cancelled \<and>
       (st = KotStatus_cancelled \<or> st \<noteq> KotStatus_pending \<and> KOT_STATUS_PRIORITY (kol_status l) < KOT_STATUS_PRIORITY st))"
    and s': "s' = s\<lparr>kot_order_lines := update_where P (set_line_status st (now c)) (kot_order_lines s),
       kot_orders := update_where (\<lambda>r. row_id r = i) (\<lambda>r. apply_header_timestamps st (now c)
         (r\<lparr>ko_status := st, updated_by := Some user, updated_at := now c\<rparr>)) (kot_orders s)\<rparr>"
    using assms(1) by (rule update_kot_order_status_Inr)
  let ?sts = "map kol_status (kot_lines_of s i)"
  have d: "ko_status order = KotStatus_cancelled \<or> ko_status order = derive_kot_header_status ?sts"
    using get_kot_order_Inr [OF o'] assms(2) by (auto simp: kot_ok_def)
  have here: "\<forall>l\<in>set (kot_lines_of s i). kol_kot_order_id l = i" by (simp add: kot_lines_of_def)
  have "st = derive_kot_header_status (map (\<lambda>l. if P l then st else kol_status l) (kot_lines_of s i))"
  proof (cases "st = KotStatus_cancelled")
    case True
    then have "\<forall>l\<in>set (kot_lines_of s i). (if P l then st else kol_status l) = KotStatus_cancelled"
      using here by (auto simp: P)
    then show ?thesis using True derive_iff [of "map (\<lambda>l. if P l then st else kol_status l) (kot_lines_of s i)" st]
      by auto
  next
    case False
    have valid': "is_valid_kot_status_transition (derive_kot_header_status ?sts) st KOT_HEADER_STATUS_TRANSITIONS"
      using d valid False by (auto simp: is_valid_kot_status_transition_def)
    have "map (\<lambda>l. if P l then st else kol_status l) (kot_lines_of s i) = map (promoted st) ?sts"
      using here False by (cases "st = KotStatus_pending") (auto simp: P promoted_def)
    then show ?thesis using derive_promoted [OF valid' False] by (simp only:)
  qed
  then show ?thesis by (intro kot_ok_update [OF assms(2) s']) (auto simp: P)
qed

lemma update_kot_order_line_status_Inr:
  assumes "update_kot_order_line_status c i bid st user s = Inr s'"
  obtains line order rest f where "filter (\<lambda>l. row_id l = i \<and> business_id l = bid) (kot_order_lines s) = [line]"
    "filter (\<lambda>r. row_id r = kol_kot_order_id line) (kot_orders s) = order # rest"
    "is_valid_kot_status_transition (kol_status line) st KOT_LINE_STATUS_TRANSITIONS"
    "f = (\<lambda>r. sync_kot_order_status_from_lines (now c)
        (kot_lines_of (s\<lparr>kot_order_lines := update_where (\<lambda>l. row_id l = row_id line) (set_line_status st (now c))
           (kot_order_lines s)\<rparr>) (row_id order)) (r\<lparr>updated_by := Some user, updated_at := now c\<rparr>))"
    "s' = s\<lparr>kot_order_lines := update_where (\<lambda>l. row_id l = row_id line) (set_line_status st (now c))
         (kot_order_lines s), kot_orders := update_where (\<lambda>r. row_id r = row_id order) f (kot_orders s)\<rparr>"
proof -
  obtain line where line: "filter (\<lambda>l. row_id l = i \<and> business_id l = bid) (kot_order_lines s) = [line]"
    using assms(1) unfolding update_kot_order_line_status_def bind_res_Inr require_one_Inr by blast
  moreover obtain order rest where "filter (\<lambda>r. row_id r = kol_kot_order_id line) (kot_orders s) = order # rest"
    using assms(1) by (cases "filter (\<lambda>r. row_id r = kol_kot_order_id line) (kot_orders s)")
      (auto simp: update_kot_order_line_status_def line)
  ultimately show thesis
    by (rule that [OF _ _ _ refl])
      (use assms(1) line \<open>filter _ (kot_orders s) = order # rest\<close> in
        \<open>auto simp: update_kot_order_line_status_def invalid_kot_transition_def Let_def split: if_splits\<close>)
qed

lemma kot_ok_line_status:
  assumes "update_kot_order_line_status c i bid st user s = Inr s'" "kot_ok s"
  shows "kot_ok s'"
proof -
  obtain line order rest f where line: "filter (\<lambda>l. row_id l = i \<and> business_id l = bid) (kot_order_lines s) = [line]"
    and o': "filter (\<lambda>r. row_id r = kol_kot_order_id line) (kot_orders s) = order # rest"
    and f: "f = (\<lambda>r. sync_kot_order_status_from_lines (now c)
        (kot_lines_of (s\<lparr>kot_order_lines := update_where (\<lambda>l. row_id l = row_id line) (set_line_status st (now c))
           (kot_order_lines s)\<rparr>) (row_id order)) (r\<lparr>updated_by := Some user, updated_at := now c\<rparr>))"
    and s': "s' = s\<lparr>kot_order_lines := update_where (\<lambda>l. row_id l = row_id line) (set_line_status st (now c))
         (kot_order_lines s), kot_orders := update_where (\<lambda>r. row_id r = row_id order) f (kot_orders s)\<rparr>"
    using assms(1) by (rule update_kot_order_line_status_Inr)
  have "line \<in> set (filter (\<lambda>l. row_id l = i \<and> business_id l = bid) (kot_order_lines s))" by (simp only: line) simp
  then have lm: "line \<in> set (kot_order_lines s)" by simp
  have "order \<in> set (filter (\<lambda>r. row_id r = kol_kot_order_id line) (kot_orders s))" unfolding o' by simp
  then have oi: "row_id order = kol_kot_order_id line" by simp
  let ?P = "\<lambda>l. row_id l = row_id line"
  have only: "kol_kot_order_id l = row_id order" if "l \<in> set (kot_order_lines s)" "?P l" for l
  proof -
    have "l = line" using that lm assms(2) by (auto simp: kot_ok_def distinct_map inj_on_def)
    then show ?thesis by (simp add: oi)
  qed
  have "map kol_status (kot_lines_of (s\<lparr>kot_order_lines := update_where ?P (set_line_status st (now c)) (kot_order_lines s)\<rparr>) j)
      = map (\<lambda>l. if ?P l then st else kol_status l) (kot_lines_of s j)" for j
    by (simp add: kot_lines_of_def lines_updated)
  then show ?thesis
    by (intro kot_ok_update [OF assms(2) s'])
      (simp_all add: only f sync_kot_order_status_from_lines_def Let_def)
qed

end
