(* ===== verification/Json.thy ===== *)
theory Json
  imports Stock
begin

text \<open>
  The texts the program writes and reads with Python's standard library: \<open>json.dumps\<close> and
  \<open>json.loads\<close>, \<open>str(UUID)\<close> and \<open>UUID(text)\<close>, \<open>str(Decimal)\<close> of a \<open>Numeric(15, 2)\<close> column and
  \<open>Decimal(text)\<close>. A \<open>string\<close> is a list of code points below 256, so a text is Latin-1 here, and a
  \<open>\u\<close> escape beyond it is not read; the float of a JSON number is kept as its text; \<open>NaN\<close> and
  \<open>Infinity\<close> are not read. A text that is refused gives \<open>None\<close>.
\<close>

section \<open>JSON texts\<close>

datatype jvalue = JvNull | JvBool bool | JvInt int | JvFloat string | JvStr string
  | JvList "jvalue list" | JvObj "(string \<times> jvalue) list"

definition quote :: char where "quote = CHR 0x22"
definition backslash :: char where "backslash = CHR 0x5C"

lemma quote_not_backslash [simp]: "quote \<noteq> backslash" "backslash \<noteq> quote"
  by (simp_all add: quote_def backslash_def)

definition hex_char :: "nat \<Rightarrow> char" where
  "hex_char d = char_of (if d < 10 then 48 + d else 87 + d)"

definition hex_val :: "char \<Rightarrow> nat option" where
  "hex_val ch = (let n = of_char ch :: nat in
     if 48 \<le> n \<and> n \<le> 57 then Some (n - 48)
     else if 97 \<le> n \<and> n \<le> 102 then Some (n - 87)
     else if 65 \<le> n \<and> n \<le> 70 then Some (n - 55) else None)"

definition escape_char :: "char \<Rightarrow> string" where
  \<comment> \<open>\<open>ensure_ascii\<close>\<close>
  "escape_char ch = (let n = of_char ch :: nat in
     if ch = quote \<or> ch = backslash then [backslash, ch]
     else if n = 10 then [backslash, CHR ''n'']
     else if n = 13 then [backslash, CHR ''r'']
     else if n = 9 then [backslash, CHR ''t'']
     else if n = 12 then [backslash, CHR ''f'']
     else if n = 8 then [backslash, CHR ''b'']
     else if 32 \<le> n \<and> n \<le> 126 then [ch]
     else [backslash, CHR ''u'', CHR ''0'', CHR ''0'', hex_char (n div 16), hex_char (n mod 16)])"

definition dumps_str :: "string \<Rightarrow> string" where
  "dumps_str t = quote # concat (map escape_char t) @ [quote]"

definition dumps_int :: "int \<Rightarrow> string" where
  "dumps_int i = (if i < 0 then CHR ''-'' # digits (nat (- i)) else digits (nat i))"

fun join :: "string list \<Rightarrow> string" where
  \<comment> \<open>with the separator \<open>', '\<close>\<close>
  "join [] = []"
| "join [x] = x"
| "join (x # y # zs) = x @ '', '' @ join (y # zs)"

fun dumps :: "jvalue \<Rightarrow> string" where
  "dumps JvNull = ''null''"
| "dumps (JvBool b) = (if b then ''true'' else ''false'')"
| "dumps (JvInt i) = dumps_int i"
| "dumps (JvFloat t) = t"
| "dumps (JvStr t) = dumps_str t"
| "dumps (JvList vs) = ''['' @ join (map dumps vs) @ '']''"
| "dumps (JvObj kvs) = ''{'' @ join (map (\<lambda>(k, v). dumps_str k @ '': '' @ dumps v) kvs) @ ''}''"

definition hex4 :: "char \<Rightarrow> char \<Rightarrow> char \<Rightarrow> char \<Rightarrow> nat option" where
  "hex4 a b c d = (case (hex_val a, hex_val b, hex_val c, hex_val d) of
     (Some a, Some b, Some c, Some d) \<Rightarrow> Some (((a * 16 + b) * 16 + c) * 16 + d) | _ \<Rightarrow> None)"

definition short_escape :: "char \<Rightarrow> char option" where
  "short_escape e = (if e = quote \<or> e = backslash \<or> e = CHR ''/'' then Some e
     else if e = CHR ''n'' then Some (char_of (10::nat)) else if e = CHR ''r'' then Some (char_of (13::nat))
     else if e = CHR ''t'' then Some (char_of (9::nat)) else if e = CHR ''f'' then Some (char_of (12::nat))
     else if e = CHR ''b'' then Some (char_of (8::nat)) else None)"

definition unescape :: "string \<Rightarrow> (char \<times> string) option" where
  \<comment> \<open>the character an escape stands for, from the text after its backslash\<close>
  "unescape cs =
     (case cs of
        [] \<Rightarrow> None
      | e # es \<Rightarrow>
          if e = CHR ''u'' then
            (case es of
               a # b # c # d # rest \<Rightarrow>
                 (case hex4 a b c d of
                    Some n \<Rightarrow> if n < 256 then Some (char_of n, rest) else None
                  | None \<Rightarrow> None)
             | _ \<Rightarrow> None)
          else map_option (\<lambda>x. (x, es)) (short_escape e))"

lemma unescape_length [termination_simp]:
  "unescape cs = Some (x, r) \<Longrightarrow> length r < length cs"
  by (auto simp: unescape_def split: list.splits if_splits option.splits)

fun scan_string :: "string \<Rightarrow> (string \<times> string) option" where
  \<comment> \<open>after the opening quote: the characters up to the closing one, and the text after it\<close>
  "scan_string [] = None"
| "scan_string (ch # cs) =
     (if ch = quote then Some ([], cs)
      else if ch = backslash then
        (case unescape cs of
           None \<Rightarrow> None
         | Some (x, rest) \<Rightarrow> map_option (apfst (Cons x)) (scan_string rest))
      else if (of_char ch :: nat) < 32 then None
      else map_option (apfst (Cons ch)) (scan_string cs))"

definition json_space :: "char \<Rightarrow> bool" where
  "json_space ch \<longleftrightarrow> (of_char ch :: nat) \<in> {9, 10, 13, 32}"

abbreviation skip_space :: "string \<Rightarrow> string" where
  "skip_space \<equiv> dropWhile json_space"

definition is_digit :: "char \<Rightarrow> bool" where
  "is_digit ch \<longleftrightarrow> 48 \<le> (of_char ch :: nat) \<and> (of_char ch :: nat) \<le> 57"

definition scan_frac :: "string \<Rightarrow> string \<times> string" where
  \<comment> \<open>\<open>(\.\d+)?\<close>\<close>
  "scan_frac t = (case t of
     p # r \<Rightarrow> if p = CHR ''.'' \<and> takeWhile is_digit r \<noteq> [] then (p # takeWhile is_digit r, dropWhile is_digit r)
              else ([], t)
   | [] \<Rightarrow> ([], []))"

definition exp_sign :: "string \<Rightarrow> string" where
  "exp_sign r = (case r of s # _ \<Rightarrow> if s = CHR ''-'' \<or> s = CHR ''+'' then [s] else [] | [] \<Rightarrow> [])"

definition scan_exp :: "string \<Rightarrow> string \<times> string" where
  \<comment> \<open>\<open>([eE][-+]?\d+)?\<close>\<close>
  "scan_exp t = (case t of
     e # r \<Rightarrow>
       let ds = drop (length (exp_sign r)) r
       in if (e = CHR ''e'' \<or> e = CHR ''E'') \<and> takeWhile is_digit ds \<noteq> []
          then (e # exp_sign r @ takeWhile is_digit ds, dropWhile is_digit ds) else ([], t)
   | [] \<Rightarrow> ([], []))"

definition scan_number :: "string \<Rightarrow> (jvalue \<times> string) option" where
  \<comment> \<open>\<open>(-?(?:0|[1-9]\d*))(\.\d+)?([eE][-+]?\d+)?\<close>\<close>
  "scan_number t =
     (let (neg, u) = (case t of m # r \<Rightarrow> if m = CHR ''-'' then (True, r) else (False, t) | [] \<Rightarrow> (False, t));
          ip = (case u of z # _ \<Rightarrow> if z = CHR ''0'' then [z] else takeWhile is_digit u | [] \<Rightarrow> [])
      in if ip = [] then None
         else
           let (fr, u') = scan_frac (drop (length ip) u);
               (ex, rest) = scan_exp u';
               v = int (dec_val ip)
           in Some (if fr = [] \<and> ex = [] then JvInt (if neg then - v else v)
                    else JvFloat ((if neg then [CHR ''-''] else []) @ ip @ fr @ ex), rest))"

definition scan_literal :: "string \<Rightarrow> (jvalue \<times> string) option" where
  "scan_literal t =
     (if take 4 t = ''null'' then Some (JvNull, drop 4 t)
      else if take 4 t = ''true'' then Some (JvBool True, drop 4 t)
      else if take 5 t = ''false'' then Some (JvBool False, drop 5 t)
      else scan_number t)"

definition next_is :: "char \<Rightarrow> string \<Rightarrow> string option" where
  \<comment> \<open>the text after \<open>ch\<close>, if that is what follows the white space\<close>
  "next_is ch t = (case skip_space t of e # es \<Rightarrow> if e = ch then Some es else None | [] \<Rightarrow> None)"

definition scan_key :: "string \<Rightarrow> (string \<times> string) option" where
  \<comment> \<open>a member's key and colon\<close>
  "scan_key t =
     (case t of
        [] \<Rightarrow> None
      | q # qs \<Rightarrow>
          if q \<noteq> quote then None
          else case scan_string qs of
                 None \<Rightarrow> None
               | Some (k, r) \<Rightarrow> map_option (\<lambda>cs. (k, skip_space cs)) (next_is CHR '':'' r))"

fun scan_once :: "nat \<Rightarrow> string \<Rightarrow> (jvalue \<times> string) option"
  and scan_elems :: "nat \<Rightarrow> string \<Rightarrow> (jvalue list \<times> string) option"
  and scan_members :: "nat \<Rightarrow> string \<Rightarrow> ((string \<times> jvalue) list \<times> string) option" where
  \<comment> \<open>the first argument is fuel: the calls nest at most two deep for each character read\<close>
  "scan_once 0 t = None"
| "scan_once (Suc n) t =
     (case t of
        [] \<Rightarrow> None
      | ch # cs \<Rightarrow>
          if ch = quote then map_option (apfst JvStr) (scan_string cs)
          else if ch = CHR ''['' then
            (case next_is CHR '']'' cs of
               Some es \<Rightarrow> Some (JvList [], es)
             | None \<Rightarrow> map_option (apfst JvList) (scan_elems n (skip_space cs)))
          else if ch = CHR ''{'' then
            (case next_is CHR ''}'' cs of
               Some es \<Rightarrow> Some (JvObj [], es)
             | None \<Rightarrow> map_option (apfst JvObj) (scan_members n (skip_space cs)))
          else scan_literal t)"
| "scan_elems 0 t = None"
| "scan_elems (Suc n) t =
     (case scan_once n t of
        None \<Rightarrow> None
      | Some (v, r) \<Rightarrow>
          (case next_is CHR '']'' r of
             Some es \<Rightarrow> Some ([v], es)
           | None \<Rightarrow>
               (case next_is CHR '','' r of
                  Some es \<Rightarrow> map_option (apfst (Cons v)) (scan_elems n (skip_space es))
                | None \<Rightarrow> None)))"
| "scan_members 0 t = None"
| "scan_members (Suc n) t =
     (case scan_key t of
        None \<Rightarrow> None
      | Some (k, cs) \<Rightarrow>
          (case scan_once n cs of
             None \<Rightarrow> None
           | Some (v, r) \<Rightarrow>
               (case next_is CHR ''}'' r of
                  Some es \<Rightarrow> Some ([(k, v)], es)
                | None \<Rightarrow>
                    (case next_is CHR '','' r of
                       Some es \<Rightarrow> map_option (apfst (Cons (k, v))) (scan_members n (skip_space es))
                     | None \<Rightarrow> None))))"

definition loads :: "string \<Rightarrow> jvalue option" where
  "loads t =
     (case scan_once (Suc (2 * length t)) (skip_space t) of
        Some (v, rest) \<Rightarrow> if skip_space rest = [] then Some v else None
      | None \<Rightarrow> None)"

definition jget :: "(string \<times> jvalue) list \<Rightarrow> string \<Rightarrow> jvalue option" where
  \<comment> \<open>of equal keys in an object the last one counts\<close>
  "jget kvs k = map_of (rev kvs) k"

subsection \<open>The fuel is enough\<close>

lemma scan_string_length: "scan_string t = Some (x, r) \<Longrightarrow> length r < length t"
proof (induction t arbitrary: x r rule: scan_string.induct)
  case (2 ch cs)
  show ?case
  proof (cases "ch = quote \<or> ch \<noteq> backslash")
    case True
    then show ?thesis using 2 by (auto split: if_splits intro: less_SucI)
  next
    case False
    then obtain y rest z where u: "unescape cs = Some (y, rest)" "scan_string rest = Some (z, r)"
      using 2(3) by (auto split: option.splits)
    then show ?thesis using 2(1) [of "(y, rest)" y rest z r] False unescape_length [OF u(1)] by simp
  qed
qed simp

lemma skip_space_length: "length (skip_space t) \<le> length t"
  by (rule length_dropWhile_le)

lemma scan_frac_length: "scan_frac t = (x, r) \<Longrightarrow> length r \<le> length t"
  by (auto simp: scan_frac_def length_dropWhile_le le_SucI split: list.splits if_splits)

lemma scan_exp_length: "scan_exp t = (x, r) \<Longrightarrow> length r \<le> length t"
proof -
  have "length (dropWhile is_digit (drop k u)) \<le> Suc (length u)" for k u
    by (rule order_trans [OF length_dropWhile_le]) simp
  then show "scan_exp t = (x, r) \<Longrightarrow> length r \<le> length t"
    by (cases t) (auto simp: scan_exp_def Let_def simp del: length_drop split: if_splits)
qed

lemma scan_number_length:
  assumes "scan_number t = Some (v, r)" shows "length r < length t"
proof -
  define u where "u = (case t of m # r \<Rightarrow> if m = CHR ''-'' then r else t | [] \<Rightarrow> t)"
  define ip where "ip = (case u of z # _ \<Rightarrow> if z = CHR ''0'' then [z] else takeWhile is_digit u | [] \<Rightarrow> [])"
  have u: "length u \<le> length t" by (auto simp: u_def split: list.splits)
  have ip: "ip \<noteq> []" and r: "r = snd (scan_exp (snd (scan_frac (drop (length ip) u))))"
    using assms by (auto simp: scan_number_def Let_def u_def ip_def split: prod.splits list.splits if_splits)
  have "length ip \<le> length u" unfolding ip_def by (auto split: list.splits simp: length_takeWhile_le)
  then have "length (drop (length ip) u) < length t" using u ip by (cases ip) auto
  then show ?thesis
    using scan_frac_length [OF surjective_pairing] scan_exp_length [OF surjective_pairing] r by (metis le_less_trans)
qed

lemma scan_literal_length: "scan_literal t = Some (v, r) \<Longrightarrow> length r < length t"
  by (auto simp: scan_literal_def scan_number_length split: if_splits)
    (cases t; auto)+

lemma next_is_length: "next_is ch t = Some es \<Longrightarrow> length es < length t"
  using skip_space_length [of t] by (auto simp: next_is_def split: list.splits if_splits)

lemma scan_key_length: "scan_key t = Some (k, r) \<Longrightarrow> length r < length t"
proof -
  assume "scan_key t = Some (k, r)"
  then obtain q qs u es where "t = q # qs" "scan_string qs = Some (k, u)" "next_is CHR '':'' u = Some es" "r = skip_space es"
    by (auto simp: scan_key_def split: list.splits if_splits option.splits)
  then show ?thesis using skip_space_length [of es] scan_string_length [of qs k u] next_is_length [of _ u es] by fastforce
qed

lemma scan_length:
  "scan_once n t = Some (v, r) \<Longrightarrow> length r < length t"
  "scan_elems n t = Some (vs, r) \<Longrightarrow> length r < length t"
  "scan_members n t = Some (kvs, r) \<Longrightarrow> length r < length t"
proof (induction n t and n t and n t arbitrary: v r and vs r and kvs r rule: scan_once_scan_elems_scan_members.induct)
  case (2 n t)
  then obtain ch cs where t: "t = ch # cs" by (auto split: list.splits)
  have "length r < Suc (length cs)" if "length r < length (skip_space cs)"
    using that skip_space_length [of cs] by simp
  then show ?case
    using 2 scan_string_length [of cs] scan_literal_length [of t] next_is_length [of _ cs] unfolding t
    by (auto split: if_split_asm option.split_asm intro: less_SucI)
next
  case (4 n t)
  then obtain w q where w: "scan_once n t = Some (w, q)" "length q < length t" by (auto split: option.splits)
  have "length r < length t" if "next_is CHR '','' q = Some es" "length r < length (skip_space es)" for es
    using that w(2) skip_space_length [of es] next_is_length [of _ q es] by fastforce
  then show ?case
    using 4 w next_is_length [of _ q] by (auto split: option.split_asm) (meson less_trans)
next
  case (6 n t)
  then obtain k cs w q where w: "scan_key t = Some (k, cs)" "scan_once n cs = Some (w, q)" "length q < length cs"
    by (auto split: option.splits)
  have "length r < length t" if "next_is CHR '','' q = Some es" "length r < length (skip_space es)" for es
    using that w(3) scan_key_length [OF w(1)] skip_space_length [of es] next_is_length [of _ q es] by fastforce
  then show ?case
    using 6 w scan_key_length [OF w(1)] next_is_length [of _ q] by (auto split: option.split_asm) (meson less_trans)
qed simp_all

lemma fuel_enough:
  "2 * length t < n \<Longrightarrow> scan_once (Suc n) t = scan_once n t"
  "2 * length t + 1 < n \<Longrightarrow> scan_elems (Suc n) t = scan_elems n t"
  "2 * length t + 1 < n \<Longrightarrow> scan_members (Suc n) t = scan_members n t"
proof (induction n t and n t and n t rule: scan_once_scan_elems_scan_members.induct)
  case (2 n t)
  show ?case
  proof (cases t)
    case (Cons ch cs)
    have "2 * length (skip_space cs) + 1 < n" using 2(3) skip_space_length [of cs] Cons by simp
    then show ?thesis using 2(1,2) Cons
      by (simp del: scan_elems.simps scan_members.simps split: option.split)
  qed simp
next
  case (4 n t)
  have *: "2 * length (skip_space es) + 1 < n" if "scan_once n t = Some (v, r)" "next_is ch r = Some es" for v r ch es
    using scan_length(1) [OF that(1)] next_is_length [OF that(2)] skip_space_length [of es] 4(3) by simp
  have "scan_once (Suc n) t = scan_once n t" using 4 by simp
  then show ?case unfolding scan_elems.simps(2) [of "Suc n" t] scan_elems.simps(2) [of n t]
    using 4(2) * by (auto simp del: scan_once.simps scan_elems.simps split: option.split)
next
  case (6 n t)
  have *: "2 * length (skip_space es) + 1 < n"
    if "scan_key t = Some (k, cs)" "scan_once n cs = Some (v, r)" "next_is ch r = Some es" for k cs v r ch es
    using scan_key_length [OF that(1)] scan_length(1) [OF that(2)] next_is_length [OF that(3)] skip_space_length [of es] 6(3) by simp
  have "scan_once (Suc n) cs = scan_once n cs" if "scan_key t = Some (k, cs)" for k cs
    using 6(1) that scan_key_length [OF that] 6(3) by simp
  then show ?case unfolding scan_members.simps(2) [of "Suc n" t] scan_members.simps(2) [of n t]
    using 6(2) * by (auto simp del: scan_once.simps scan_members.simps split: option.split)
qed simp_all

subsection \<open>Reading back what was written\<close>

lemma hex_val_char: "d < 16 \<Longrightarrow> hex_val (hex_char d) = Some d"
  by (auto simp: hex_val_def hex_char_def)

lemma hex4_byte: "n < 256 \<Longrightarrow> hex4 CHR ''0'' CHR ''0'' (hex_char (n div 16)) (hex_char (n mod 16)) = Some n"
  by (simp add: hex4_def hex_val_char) (simp add: hex_val_def)

lemma of_char_less: "(of_char ch :: nat) < 256"
  using nat_of_char_less_256 [of ch] by simp

lemma scan_escape_char: "scan_string (escape_char ch @ u) = map_option (apfst (Cons ch)) (scan_string u)"
proof -
  let ?n = "of_char ch :: nat"
  have ch: "ch = char_of ?n" by simp
  have esc: "scan_string (backslash # e # u) = map_option (apfst (Cons x)) (scan_string u)"
    if "e \<noteq> CHR ''u''" "short_escape e = Some x" for e x
    using that by (simp add: unescape_def)
  have uni: "scan_string (backslash # CHR ''u'' # CHR ''0'' # CHR ''0'' # hex_char (?n div 16) # hex_char (?n mod 16) # u) =
      map_option (apfst (Cons ch)) (scan_string u)"
    using hex4_byte [OF of_char_less, of ch] of_char_less [of ch] by (simp add: unescape_def)
  have n: "?n = k \<Longrightarrow> ch = char_of k" for k :: nat using ch by metis
  consider "ch = quote \<or> ch = backslash" | "?n = 10" | "?n = 13" | "?n = 9" | "?n = 12" | "?n = 8"
    | "ch \<noteq> quote" "ch \<noteq> backslash" "32 \<le> ?n" "?n \<le> 126"
    | "ch \<noteq> quote" "ch \<noteq> backslash" "?n \<notin> {8, 9, 10, 12, 13}" "\<not> (32 \<le> ?n \<and> ?n \<le> 126)" by blast
  then show ?thesis
  proof cases
    case 1
    then show ?thesis using esc [of ch ch]
      by (auto simp: escape_char_def short_escape_def quote_def backslash_def)
  next
    case 7
    then show ?thesis by (auto simp: escape_char_def)
  next
    case 8
    then have "escape_char ch = [backslash, CHR ''u'', CHR ''0'', CHR ''0'', hex_char (?n div 16), hex_char (?n mod 16)]"
      by (simp add: escape_char_def Let_def)
    then show ?thesis using uni by simp
  qed (use esc in \<open>auto simp: escape_char_def short_escape_def quote_def backslash_def dest!: n\<close>)
qed

lemma scan_dumps_str: "scan_string (concat (map escape_char t) @ quote # rest) = Some (t, rest)"
  by (induction t) (simp_all add: scan_escape_char)

fun textual :: "jvalue \<Rightarrow> bool" where
  \<comment> \<open>a value without numbers\<close>
  "textual (JvInt i) = False"
| "textual (JvFloat t) = False"
| "textual (JvList vs) = list_all textual vs"
| "textual (JvObj kvs) = list_all (\<lambda>(k, v). textual v) kvs"
| "textual v = True"

definition member :: "string \<times> jvalue \<Rightarrow> string" where
  "member = (\<lambda>(k, v). dumps_str k @ '': '' @ dumps v)"

lemma dumps_first: "textual v \<Longrightarrow> \<exists>ch cs. dumps v = ch # cs \<and> \<not> json_space ch \<and> ch \<noteq> CHR '']''"
  by (cases v) (auto simp: dumps_str_def quote_def json_space_def)

lemma skip_dumps: "textual v \<Longrightarrow> skip_space (dumps v @ r) = dumps v @ r"
  using dumps_first [of v] by auto

lemma skip_quote [simp]: "skip_space (quote # r) = quote # r"
  by (simp add: json_space_def quote_def)

lemma next_is_simps [simp]:
  "\<not> json_space ch \<Longrightarrow> next_is ch (ch # r) = Some r"
  "\<not> json_space e \<Longrightarrow> e \<noteq> ch \<Longrightarrow> next_is ch (e # r) = None"
  by (simp_all add: next_is_def)

lemma marks [simp]:
  "\<not> json_space CHR '']''" "\<not> json_space CHR '',''" "\<not> json_space CHR ''}''" "\<not> json_space CHR '':''"
  "json_space CHR '' ''" "\<not> json_space quote" "quote \<noteq> CHR ''}''" "quote \<noteq> CHR ''[''" "quote \<noteq> CHR ''{''"
  by (simp_all add: json_space_def quote_def)

lemma scan_key_member: "scan_key (dumps_str k @ '': '' @ dumps v @ r) = Some (k, dumps v @ r)" if "textual v"
  using that by (simp add: scan_key_def dumps_str_def scan_dumps_str skip_dumps)

lemma join_Cons: "xs \<noteq> [] \<Longrightarrow> join (x # xs) = x @ '', '' @ join xs"
  by (cases xs) simp_all

lemma scan_elems_dumps:
  assumes "\<And>v n r. v \<in> set vs \<Longrightarrow> 2 * length (dumps v) < n \<Longrightarrow> scan_once n (dumps v @ r) = Some (v, r)"
    and "list_all textual vs" "vs \<noteq> []" "2 * length (join (map dumps vs)) + 1 < n"
  shows "scan_elems n (join (map dumps vs) @ '']'' @ rest) = Some (vs, rest)"
  using assms
proof (induction vs arbitrary: n)
  case (Cons v vs)
  obtain m where n: "n = Suc m" using Cons.prems(4) by (cases n) auto
  show ?case
  proof (cases "vs = []")
    case True
    then show ?thesis using Cons.prems by (simp add: n)
  next
    case False
    let ?t = "join (map dumps vs) @ '']'' @ rest"
    have once: "scan_once m (dumps v @ '', '' @ ?t) = Some (v, '', '' @ ?t)"
      using Cons.prems(4) False by (intro Cons.prems(1)) (auto simp: n join_Cons)
    have "scan_elems m ?t = Some (vs, rest)"
      using Cons.prems False by (intro Cons.IH) (auto simp: n join_Cons)
    moreover have "skip_space ?t = ?t"
      using Cons.prems(2) False by (cases vs; cases "tl vs") (auto simp: skip_dumps join_Cons)
    ultimately show ?thesis using False once by (simp add: n join_Cons)
  qed
qed simp

lemma scan_members_dumps:
  assumes "\<And>k v n r. (k, v) \<in> set kvs \<Longrightarrow> 2 * length (dumps v) < n \<Longrightarrow> scan_once n (dumps v @ r) = Some (v, r)"
    and "list_all (\<lambda>(k, v). textual v) kvs" "kvs \<noteq> []" "2 * length (join (map member kvs)) + 1 < n"
  shows "scan_members n (join (map member kvs) @ ''}'' @ rest) = Some (kvs, rest)"
  using assms
proof (induction kvs arbitrary: n)
  case (Cons kv kvs)
  obtain k v where kv: "kv = (k, v)" by fastforce
  obtain m where n: "n = Suc m" using Cons.prems(4) by (cases n) auto
  have tv: "textual v" using Cons.prems(2) by (simp add: kv)
  show ?case
  proof (cases "kvs = []")
    case True
    then have "scan_once m (dumps v @ ''}'' @ rest) = Some (v, ''}'' @ rest)"
      using Cons.prems(4) by (intro Cons.prems(1)) (auto simp: n kv member_def)
    then show ?thesis using True scan_key_member [OF tv] by (simp add: n kv member_def)
  next
    case False
    let ?t = "join (map member kvs) @ ''}'' @ rest"
    have once: "scan_once m (dumps v @ '', '' @ ?t) = Some (v, '', '' @ ?t)"
      using Cons.prems(4) False by (intro Cons.prems(1)) (auto simp: n kv join_Cons member_def)
    have "scan_members m ?t = Some (kvs, rest)"
      using Cons.prems False by (intro Cons.IH) (auto simp: n join_Cons)
    moreover have "skip_space ?t = ?t"
      using False by (cases kvs; cases "tl kvs") (auto simp: join_Cons member_def dumps_str_def)
    ultimately show ?thesis using False once scan_key_member [OF tv] by (simp add: n kv join_Cons member_def)
  qed
qed simp

lemma scan_dumps: "textual v \<Longrightarrow> 2 * length (dumps v) < n \<Longrightarrow> scan_once n (dumps v @ r) = Some (v, r)"
proof (induction v arbitrary: n r)
  case (JvList vs)
  then obtain m where n: "n = Suc m" by (cases n) auto
  show ?case
  proof (cases "vs = []")
    case False
    let ?t = "join (map dumps vs) @ '']'' @ r"
    obtain v ws where vs: "vs = v # ws" using False by (cases vs) auto
    obtain ch cs where "dumps v = ch # cs" "\<not> json_space ch" "ch \<noteq> CHR '']''"
      using dumps_first [of v] JvList.prems(1) vs by auto
    then have "skip_space ?t = ?t" "next_is CHR '']'' ?t = None"
      by (cases ws; simp add: vs join_Cons)+
    moreover have "scan_elems m ?t = Some (vs, r)"
      using JvList False by (intro scan_elems_dumps) (auto simp: n list_all_iff)
    ultimately show ?thesis by (simp add: n quote_def)
  qed (simp add: n quote_def)
next
  case (JvObj kvs)
  then obtain m where n: "n = Suc m" by (cases n) auto
  have d: "dumps (JvObj kvs) = ''{'' @ join (map member kvs) @ ''}''" by (simp add: member_def)
  show ?case
  proof (cases "kvs = []")
    case False
    let ?t = "join (map member kvs) @ ''}'' @ r"
    obtain k v ws where kvs: "kvs = (k, v) # ws" using False by (cases kvs) auto
    have "skip_space ?t = ?t" "next_is CHR ''}'' ?t = None"
      by (cases ws; simp add: kvs join_Cons member_def dumps_str_def)+
    moreover have "scan_members m ?t = Some (kvs, r)"
      using JvObj.prems False d by (intro scan_members_dumps JvObj.IH) (auto simp: n list_all_iff)
    ultimately show ?thesis unfolding d by (simp add: n quote_def)
  qed (simp add: n quote_def)
next
  case (JvStr t)
  then obtain m where "n = Suc m" by (cases n) auto
  then show ?case by (simp add: dumps_str_def scan_dumps_str)
next
  case JvNull
  then obtain m where "n = Suc m" by (cases n) auto
  then show ?case by (simp add: scan_literal_def quote_def)
next
  case (JvBool b)
  then obtain m where "n = Suc m" by (cases n) auto
  then show ?case by (simp add: scan_literal_def quote_def)
qed simp_all

lemma loads_dumps: "textual v \<Longrightarrow> loads (dumps v) = Some v"
  using scan_dumps [of v "Suc (2 * length (dumps v))" "[]"] skip_dumps [of v "[]"]
  by (simp add: loads_def del: scan_once.simps)

section \<open>UUID texts\<close>

fun hex_digits :: "nat \<Rightarrow> nat \<Rightarrow> string" where
  \<comment> \<open>the last \<open>k\<close> hex digits\<close>
  "hex_digits 0 n = []"
| "hex_digits (Suc k) n = hex_digits k (n div 16) @ [hex_char (n mod 16)]"

definition uuid_str :: "uuid \<Rightarrow> string" where
  "uuid_str u = (let h = hex_digits 32 u in
     take 8 h @ ''-'' @ take 4 (drop 8 h) @ ''-'' @ take 4 (drop 12 h) @ ''-'' @ take 4 (drop 16 h) @ ''-'' @ drop 20 h)"

fun hex_number :: "string \<Rightarrow> nat \<Rightarrow> nat option" where
  "hex_number [] acc = Some acc"
| "hex_number (ch # cs) acc = (case hex_val ch of None \<Rightarrow> None | Some d \<Rightarrow> hex_number cs (16 * acc + d))"

fun remove_all :: "string \<Rightarrow> nat \<Rightarrow> string \<Rightarrow> string" where
  \<comment> \<open>\<open>text.replace(pat, '')\<close>; the second argument counts the characters of a match still to skip\<close>
  "remove_all pat k [] = []"
| "remove_all pat (Suc k) (ch # cs) = remove_all pat k cs"
| "remove_all pat 0 (ch # cs) =
     (if take (length pat) (ch # cs) = pat then remove_all pat (length pat - 1) cs else ch # remove_all pat 0 cs)"

definition uuid_of_str :: "string \<Rightarrow> uuid option" where
  \<comment> \<open>the texts \<open>int(hex, 16)\<close> also reads, with underscores, blanks or a \<open>0x\<close>, are refused here\<close>
  "uuid_of_str t =
     (let t = remove_all ''uuid:'' 0 (remove_all ''urn:'' 0 t);
          brace = (\<lambda>ch. ch = CHR ''{'' \<or> ch = CHR ''}'');
          h = filter (\<lambda>ch. ch \<noteq> CHR ''-'') (rev (dropWhile brace (rev (dropWhile brace t))))
      in if length h = 32 then hex_number h 0 else None)"

lemma length_hex_digits [simp]: "length (hex_digits k n) = k"
  by (induction k arbitrary: n) simp_all

lemma hex_number_append:
  "hex_number (xs @ ys) a = (case hex_number xs a of None \<Rightarrow> None | Some b \<Rightarrow> hex_number ys b)"
  by (induction xs arbitrary: a) (auto split: option.splits)

lemma hex_number_digits: "n < 16 ^ k \<Longrightarrow> hex_number (hex_digits k n) 0 = Some n"
proof (induction k arbitrary: n)
  case (Suc k)
  then have "n div 16 < 16 ^ k" by (simp add: less_mult_imp_div_less mult.commute)
  with Suc.IH show ?case by (simp add: hex_number_append hex_val_char)
qed simp

definition hex_set :: "char set" where
  "hex_set = set ''0123456789abcdef''"

lemma hex_digits_set: "set (hex_digits k n) \<subseteq> hex_set"
proof -
  have "\<forall>d\<in>set [0..<16]. hex_char d \<in> hex_set" by code_simp
  then have "d < 16 \<Longrightarrow> hex_char d \<in> hex_set" for d by simp
  then show ?thesis by (induction k arbitrary: n) auto
qed

lemma remove_all_none:
  assumes "a \<in> set pat" "a \<notin> set t" shows "remove_all pat 0 t = t"
proof -
  have "take (length pat) (ch # cs) \<noteq> pat" if "a \<notin> set (ch # cs)" for ch cs
    using that assms(1) by (metis in_set_takeD)
  then show ?thesis using assms(2) by (induction t) (simp_all del: take_Cons)
qed

lemma uuid_of_str_str:
  assumes "u < 2 ^ 128" shows "uuid_of_str (uuid_str u) = Some u"
proof -
  let ?h = "hex_digits 32 u" and ?t = "uuid_str u"
  have sub: "set (take i (drop j ?h)) \<subseteq> hex_set" "set (drop j ?h) \<subseteq> hex_set" "set (take i ?h) \<subseteq> hex_set" for i j
    using hex_digits_set [of 32 u] by (meson in_set_takeD in_set_dropD subset_iff)+
  have "set ?t \<subseteq> insert CHR ''-'' hex_set"
    using sub(3) [of 8] sub(1) [of 4 8] sub(1) [of 4 12] sub(1) [of 4 16] sub(2) [of 20]
    by (auto simp: uuid_str_def Let_def)
  then have no: "CHR ''u'' \<notin> set ?t" "CHR ''{'' \<notin> set ?t" "CHR ''}'' \<notin> set ?t" by (auto simp: hex_set_def)
  have r: "remove_all ''uuid:'' 0 (remove_all ''urn:'' 0 ?t) = ?t"
    using no(1) by (simp add: remove_all_none [of "CHR ''u''"])
  have stay: "dropWhile (\<lambda>ch. ch = CHR ''{'' \<or> ch = CHR ''}'') xs = xs" if "set xs = set ?t" for xs
    unfolding dropWhile_eq_self_iff using no(2,3) that hd_in_set [of xs] by metis
  have "filter (\<lambda>ch. ch \<noteq> CHR ''-'') xs = xs" if "set xs \<subseteq> hex_set" for xs
    using that by (auto simp: filter_id_conv hex_set_def)
  then have "filter (\<lambda>ch. ch \<noteq> CHR ''-'') ?t =
      take 8 ?h @ take 4 (drop 8 ?h) @ take 4 (drop 12 ?h) @ take 4 (drop 16 ?h) @ drop 20 ?h"
    using sub by (simp add: uuid_str_def Let_def)
  also have "\<dots> = ?h"
    using append_take_drop_id [of 8 ?h] append_take_drop_id [of 4 "drop 8 ?h"] append_take_drop_id [of 4 "drop 12 ?h"]
      append_take_drop_id [of 4 "drop 16 ?h"] by (simp only: drop_drop) simp
  finally show ?thesis
    using assms by (simp add: uuid_of_str_def r stay Let_def hex_number_digits)
qed

section \<open>Decimal texts\<close>

definition two_digits :: "nat \<Rightarrow> string" where
  "two_digits n = [digit_char (n div 10 mod 10), digit_char (n mod 10)]"

definition money_str :: "decimal \<Rightarrow> string" where
  \<comment> \<open>\<open>str\<close> of a value with two decimal places, as a \<open>Numeric(15, 2)\<close> column gives it\<close>
  "money_str d = (let cents = nat \<bar>\<lfloor>d * 100\<rfloor>\<bar> in
     (if d < 0 then [CHR ''-''] else []) @ digits (cents div 100) @ ''.'' @ two_digits (cents mod 100))"

definition decimal_of_str :: "string \<Rightarrow> decimal option" where
  \<comment> \<open>\<open>Decimal(text)\<close> of a finite number: a sign, digits with a point, an exponent; blanks around
    them and underscores, which \<open>Decimal\<close> drops, are refused\<close>
  "decimal_of_str t =
     (let (neg, u) = (case t of m # r \<Rightarrow> if m = CHR ''-'' then (True, r) else if m = CHR ''+'' then (False, r)
                                 else (False, t) | [] \<Rightarrow> (False, t));
          ip = takeWhile is_digit u;
          v = dropWhile is_digit u;
          (fp, w) = (case v of p # r \<Rightarrow> if p = CHR ''.'' then (takeWhile is_digit r, dropWhile is_digit r)
                                 else ([], v) | [] \<Rightarrow> ([], []));
          (ex, rest) = scan_exp w;
          e = (if ex = [] then 0
               else (if CHR ''-'' \<in> set ex then -1 else 1) * int (dec_val (filter is_digit ex)));
          m = of_nat (dec_val (ip @ fp)) / 10 ^ length fp :: rat
      in if ip @ fp = [] \<or> rest \<noteq> [] then None
         else Some ((if neg then -1 else 1) * m * (if 0 \<le> e then 10 ^ nat e else 1 / 10 ^ nat (- e))))"

lemma digit_char_is_digit: "d < 10 \<Longrightarrow> is_digit (digit_char d)"
  by (simp add: is_digit_def digit_char_def)

lemma digits_are_digits: "\<forall>ch\<in>set (digits n). is_digit ch"
  by (induction n rule: digits.induct) (subst digits.simps, auto intro: digit_char_is_digit)

lemma digits_nonempty: "digits n \<noteq> []"
  by (subst digits.simps) simp

lemma dec_val_append: "dec_val (xs @ ys) = dec_val xs * 10 ^ length ys + dec_val ys"
proof (induction ys rule: rev_induct)
  case (snoc y ys)
  then show ?case unfolding dec_val_def append_assoc [symmetric] foldl_append by simp
qed (simp add: dec_val_def)

lemma decimal_of_money:
  assumes "d = of_int k / 100" shows "decimal_of_str (money_str d) = Some d"
proof -
  define c where "c = nat \<bar>k\<bar>"
  define f where "f = two_digits (c mod 100)"
  let ?i = "digits (c div 100)" and ?f = f
  have k: "\<lfloor>d * 100\<rfloor> = k" "d < 0 \<longleftrightarrow> k < 0" by (simp_all add: assms)
  have m: "money_str d = (if d < 0 then [CHR ''-''] else []) @ ?i @ CHR ''.'' # ?f"
    by (simp add: money_str_def k(1) c_def f_def Let_def)
  have dot: "\<not> is_digit CHR ''.''" by (simp add: is_digit_def)
  have fd: "\<forall>ch\<in>set ?f. is_digit ch" by (simp add: f_def two_digits_def digit_char_is_digit)
  have t: "takeWhile is_digit (?i @ CHR ''.'' # r) = ?i" "dropWhile is_digit (?i @ CHR ''.'' # r) = CHR ''.'' # r"
    "takeWhile is_digit ?f = ?f" "dropWhile is_digit ?f = []" for r
    using digits_are_digits fd by (simp_all add: dot takeWhile_append2 dropWhile_append2)
  have hd: "\<exists>x xs. ?i @ r = x # xs \<and> x \<noteq> CHR ''-'' \<and> x \<noteq> CHR ''+''" for r
    using digits_are_digits [of "c div 100"] digits_nonempty [of "c div 100"]
    by (cases ?i) (auto simp: is_digit_def)
  have lf: "length f = 2" by (simp add: f_def two_digits_def)
  have "dec_val ?f = c mod 100" by (simp add: f_def dec_val_def two_digits_def of_digit_char)
  then have v: "dec_val (?i @ ?f) = c" by (simp add: dec_val_append dec_val_digits lf)
  have sgn: "(case money_str d of m # r \<Rightarrow> if m = CHR ''-'' then (True, r) else if m = CHR ''+'' then (False, r)
      else (False, money_str d) | [] \<Rightarrow> (False, money_str d)) = (d < 0, ?i @ CHR ''.'' # ?f)"
    using hd [of "CHR ''.'' # ?f"] by (cases "d < 0") (auto simp: m)
  have "decimal_of_str (money_str d) = Some ((if d < 0 then -1 else 1) * (of_nat c / 100))"
    unfolding decimal_of_str_def sgn Let_def by (simp add: t v lf scan_exp_def digits_nonempty)
  also have "(if d < 0 then -1 else 1) * (of_nat c / 100) = d"
    using assms k(2) by (simp add: c_def of_nat_nat)
  finally show ?thesis .
qed

end
