(* ===== verification/Tabs.thy ===== *)
theory Tabs
  imports Returns Kitchen Json
begin

text \<open>
  \<open>app/services/restaurant_tab_service.py\<close>: a dine-in tab from opening to the kitchen (its bill and
  payment are in \<open>Checkout\<close>). A line's modifiers travel in its \<open>notes\<close> as a tagged JSON text until the line is fired to the kitchen.
\<close>

section \<open>Notes of a line\<close>

definition LINE_NOTES_PREFIX :: string where
  "LINE_NOTES_PREFIX = ''restaurant:''"

definition modifier_object :: "ModifierSnapshot \<Rightarrow> jvalue" where
  "modifier_object = (\<lambda>(modifier_id, name, price_delta).
     JvObj [(''modifier_id'', JvStr (uuid_str modifier_id)), (''name'', JvStr name),
            (''price_delta'', JvStr (money_str price_delta))])"

definition encode_sale_line_notes :: "string option \<Rightarrow> ModifierSnapshot list \<Rightarrow> string option" where
  "encode_sale_line_notes kitchen_notes snapshots =
     (if snapshots \<noteq> [] then
        Some (LINE_NOTES_PREFIX @ dumps (JvObj
          [(''kitchen_notes'', case kitchen_notes of None \<Rightarrow> JvNull | Some n \<Rightarrow> JvStr n),
           (''modifiers'', JvList (map modifier_object snapshots))]))
      else kitchen_notes)"

fun py_str :: "jvalue \<Rightarrow> string" where
  \<comment> \<open>\<open>str(value)\<close>; the text of a list or an object is no UUID and no number, whatever it holds\<close>
  "py_str JvNull = ''None''"
| "py_str (JvBool b) = (if b then ''True'' else ''False'')"
| "py_str (JvInt i) = dumps_int i"
| "py_str (JvFloat t) = t"
| "py_str (JvStr t) = t"
| "py_str (JvList vs) = ''[''"
| "py_str (JvObj kvs) = ''{''"

definition or_raise :: "string \<Rightarrow> 'a option \<Rightarrow> 'a res" where
  "or_raise e x = (case x of None \<Rightarrow> Inl (PyError e) | Some v \<Rightarrow> Inr v)"

fun item_get :: "jvalue \<Rightarrow> string \<Rightarrow> jvalue res" where
  \<comment> \<open>\<open>item[key]\<close>\<close>
  "item_get (JvObj kvs) k = or_raise ''KeyError'' (jget kvs k)"
| "item_get v k = Inl (PyError ''TypeError'')"

fun iterate :: "jvalue \<Rightarrow> jvalue list res" where
  "iterate (JvList vs) = Inr vs"
| "iterate (JvObj kvs) = Inr (map JvStr (remdups (map fst kvs)))"
| "iterate (JvStr t) = Inr (map (\<lambda>ch. JvStr [ch]) t)"
| "iterate v = Inl (PyError ''TypeError'')"

type_synonym DecodedModifier = "uuid \<times> jvalue \<times> decimal"

definition decode_modifier :: "jvalue \<Rightarrow> DecodedModifier list \<Rightarrow> DecodedModifier list res" where
  "decode_modifier item decoded =
     bind_res (item_get item ''modifier_id'') (\<lambda>i.
     bind_res (or_raise ''ValueError'' (uuid_of_str (py_str i))) (\<lambda>u.
     bind_res (item_get item ''name'') (\<lambda>n.
     bind_res (item_get item ''price_delta'') (\<lambda>d.
     bind_res (or_raise ''InvalidOperation'' (decimal_of_str (py_str d))) (\<lambda>p.
       Inr (decoded @ [(u, n, p)]))))))"

definition decode_sale_line_notes :: "string option \<Rightarrow> (jvalue \<times> DecodedModifier list) res" where
  "decode_sale_line_notes line_notes =
     (case line_notes of
        None \<Rightarrow> Inr (JvNull, [])
      | Some t \<Rightarrow>
          if take (length LINE_NOTES_PREFIX) t \<noteq> LINE_NOTES_PREFIX then Inr (JvStr t, [])
          else bind_res (or_raise ''JSONDecodeError'' (loads (drop (length LINE_NOTES_PREFIX) t))) (\<lambda>payload.
            case payload of
              JvObj kvs \<Rightarrow>
                bind_res (iterate (or_else (jget kvs ''modifiers'') (JvList []))) (\<lambda>items.
                bind_res (fold_res decode_modifier items []) (\<lambda>decoded.
                  Inr (or_else (jget kvs ''kitchen_notes'') JvNull, decoded)))
            | _ \<Rightarrow> Inl (PyError ''AttributeError'')))"

section \<open>Guards\<close>

definition require_tab_feature_flags :: "business_config \<Rightarrow> string list \<Rightarrow> unit res" where
  "require_tab_feature_flags config flag_keys =
     check_each (\<lambda>k. if get_feature_flag (config_json config) k then Inr ()
       else Inl (HTTPException 403 ''Feature not enabled: {}'' [AStr k])) flag_keys"

definition assert_no_active_tab_on_table :: "db \<Rightarrow> uuid \<Rightarrow> uuid \<Rightarrow> uuid option \<Rightarrow> unit res" where
  "assert_no_active_tab_on_table s bid table_id exclude_sale_id =
     (if 0 < count_active_tabs_on_table s bid table_id exclude_sale_id
      then bad_request ''Table already has an active tab'' else Inr ())"

definition get_tab_sale_for_update :: "db \<Rightarrow> uuid \<Rightarrow> uuid \<Rightarrow> sale res" where
  "get_tab_sale_for_update s sale_id bid =
     bind_res (require_one (HTTPException 404 ''Sale not found'' [])
       (filter (\<lambda>r. row_id r = sale_id \<and> business_id r = bid \<and> live r) (sales s))) (\<lambda>sl.
     if s_sale_type sl \<noteq> SaleType_dine_in then bad_request ''Sale is not a dine-in tab'' else Inr sl)"

definition assert_tab_mutable :: "sale \<Rightarrow> unit res" where
  "assert_tab_mutable sl =
     (if s_status sl \<notin> set ACTIVE_TAB_STATUSES then
        Inl (HTTPException 400 (''Tab is not open (status is '{}')'') [AStr (SaleStatusEnum_value (s_status sl))])
      else Inr ())"

definition tab_lines :: "db \<Rightarrow> sale \<Rightarrow> sale_line list" where
  \<comment> \<open>the lines of \<open>sale.lines\<close> that are not deleted\<close>
  "tab_lines s sl = filter live (lines_of s sl)"

definition tab_invoice_total :: "db \<Rightarrow> sale \<Rightarrow> decimal" where
  "tab_invoice_total s sl =
     invoice_round2 (sum_list (map (\<lambda>l. sln_qty l * sln_unit_price l - sln_discount_amount l + sln_tax_amount l)
       (tab_lines s sl)))"

definition touch_sale :: "clock \<Rightarrow> uuid \<Rightarrow> uuid \<Rightarrow> db \<Rightarrow> db" where
  "touch_sale c sale_id user s = s\<lparr>sales := update_where (\<lambda>r. row_id r = sale_id)
     (\<lambda>r. r\<lparr>updated_by := Some user, updated_at := now c\<rparr>) (sales s)\<rparr>"

section \<open>Opening\<close>

record OpenTabRequest =
  ot_branch_id :: uuid
  ot_table_id :: uuid
  ot_register_shift_id :: "uuid option"
  ot_customer_id :: "uuid option"
  ot_price_list_id :: "uuid option"
  ot_notes :: "string option"

definition check_some :: "'a option \<Rightarrow> ('a \<Rightarrow> 'b res) \<Rightarrow> unit res" where
  \<comment> \<open>\<open>if x is not None: f(x)\<close>\<close>
  "check_some x f = (case x of None \<Rightarrow> Inr () | Some v \<Rightarrow> bind_res (f v) (\<lambda>_. Inr ()))"

definition open_tab :: "clock \<Rightarrow> uuid \<Rightarrow> OpenTabRequest \<Rightarrow> uuid \<Rightarrow> db \<Rightarrow> (sale \<times> db) res" where
  "open_tab c bid data user s =
     bind_res (get_business_config s bid) (\<lambda>config.
     bind_res (require_tab_feature_flags config [''enable_restaurant'', ''enable_table_management'']) (\<lambda>_.
     bind_res (verify_branch s (ot_branch_id data) bid) (\<lambda>_.
     bind_res (get_dining_table_by_id s (ot_table_id data) bid) (\<lambda>table.
     if dt_branch_id table \<noteq> ot_branch_id data
     then bad_request ''Table does not belong to the specified branch''
     else
     bind_res (assert_no_active_tab_on_table s bid (ot_table_id data) None) (\<lambda>_.
     bind_res (check_some (ot_register_shift_id data) (\<lambda>sh.
       verify_open_register_shift s sh bid ''Cannot open tab - shift is not open'')) (\<lambda>_.
     bind_res (check_some (ot_customer_id data) (\<lambda>cu. get_customer_by_id s cu bid)) (\<lambda>_.
       let (sale_number, s) = generate_document_number c bid ''INV'' s;
           (i, s) = fresh_uuid s;
           sl = new_row i bid (Some user) (now c)
             \<lparr>s_branch_id = ot_branch_id data, s_customer_id = ot_customer_id data,
              s_register_shift_id = ot_register_shift_id data, s_price_list_id = ot_price_list_id data,
              s_sale_number = sale_number, s_sale_type = SaleType_dine_in, s_status = SaleStatus_held,
              s_sold_at = now c, s_notes = ot_notes data, s_discount_scheme_id = None,
              s_table_id = Some (ot_table_id data), s_client_receipt_no = None, s_sync_flags = [],
              s_is_offline = False, s_client_created_at = None,
              s_device_id = None, s_synced_at = None\<rparr>;
           s = s\<lparr>sales := sales s @ [sl]\<rparr>
       in bind_res (transition_table_status c table TableStatus_occupied user False s) (\<lambda>(_, s).
            Inr (sl, s)))))))))"

section \<open>Adding lines\<close>

definition price_check_request :: "uuid \<Rightarrow> uuid option \<Rightarrow> CreateSaleLineRequest \<Rightarrow> CreateSaleRequest" where
  \<comment> \<open>the request the permission check is given: the line without its modifiers\<close>
  "price_check_request branch_id price_list_id line =
     \<lparr>cs_branch_id = branch_id, cs_register_shift_id = None, cs_customer_id = None,
      cs_sale_type = SaleType_pos, cs_price_list_id = price_list_id, cs_discount_scheme_id = None,
      cs_notes = None, cs_sold_at = None, cs_lines = [line\<lparr>li_modifier_ids := []\<rparr>], cs_payments = []\<rparr>"

record tab_line_pricing =
  tp_unit_price :: decimal
  tp_discount :: decimal
  tp_tax_amount :: decimal
  tp_notes :: "string option"
  tp_modifiers :: "ModifierSnapshot list"
  tp_tax_rate :: decimal

definition prepare_tab_line_pricing ::
  "db \<Rightarrow> uuid \<Rightarrow> uuid \<Rightarrow> CreateSaleLineRequest \<Rightarrow> uuid option \<Rightarrow> string set \<Rightarrow> tab_line_pricing res" where
  "prepare_tab_line_pricing s bid branch_id line price_list_id permission_keys =
     bind_res (validate_line_modifiers s bid (li_product_id line) (li_modifier_ids line)) (\<lambda>modifier_snapshots.
       let modifier_total = sum_list (map (\<lambda>(_, _, price_delta). price_delta) modifier_snapshots);
           effective_unit_price = invoice_round2 (li_unit_price line + modifier_total)
       in bind_res (verify_line_products s bid line) (\<lambda>_.
          bind_res (enforce_sale_pricing_permissions s bid (price_check_request branch_id price_list_id line)
                      permission_keys) (\<lambda>_.
            let (discount_pct, discount_amount) = merge_line_discount_inputs line None;
                effective_tax_rate = hd (resolve_line_tax_rates s bid [line] permission_keys);
                amounts = calculate_line_total (li_qty line) effective_unit_price discount_pct discount_amount
                            effective_tax_rate
            in Inr \<lparr>tp_unit_price = effective_unit_price, tp_discount = lc_effective_discount amounts,
                    tp_tax_amount = lc_tax_amount amounts,
                    tp_notes = encode_sale_line_notes (li_notes line) modifier_snapshots,
                    tp_modifiers = modifier_snapshots, tp_tax_rate = effective_tax_rate\<rparr>)))"

definition add_tab_line ::
  "clock \<Rightarrow> uuid \<Rightarrow> sale \<Rightarrow> uuid \<Rightarrow> string set \<Rightarrow> CreateSaleLineRequest \<Rightarrow> int \<times> db \<Rightarrow> (int \<times> db) res" where
  "add_tab_line c bid sl user permission_keys line = (\<lambda>(next_line_order, s).
     let (line, next_line_order) =
           (if li_line_order line = 0 then (line\<lparr>li_line_order := next_line_order\<rparr>, next_line_order + 1)
            else (line, next_line_order))
     in bind_res (prepare_tab_line_pricing s bid (s_branch_id sl) line (s_price_list_id sl) permission_keys) (\<lambda>p.
          let (i, s) = fresh_uuid s;
              sale_line = new_row i bid (Some user) (now c)
                \<lparr>sln_sale_id = row_id sl, sln_product_id = li_product_id line,
                 sln_variation_id = li_variation_id line, sln_qty = li_qty line,
                 sln_unit_price = tp_unit_price p, sln_discount_pct = li_discount_pct line,
                 sln_discount_amount = tp_discount p, sln_tax_rate = tp_tax_rate p,
                 sln_tax_amount = tp_tax_amount p, sln_cost_per_unit = 0, sln_cost_estimated = False,
                 sln_notes = tp_notes p, sln_line_order = li_line_order line\<rparr>
          in Inr (next_line_order, s\<lparr>sale_lines := sale_lines s @ [sale_line]\<rparr>)))"

definition next_line_order :: "sale_line list \<Rightarrow> int" where
  "next_line_order ls = (if ls = [] then -1 else Max (set (map sln_line_order ls))) + 1"

definition add_lines_to_tab ::
  "clock \<Rightarrow> uuid \<Rightarrow> uuid \<Rightarrow> CreateSaleLineRequest list \<Rightarrow> uuid \<Rightarrow> string set \<Rightarrow> db \<Rightarrow> db res" where
  "add_lines_to_tab c bid sale_id lines user permission_keys s =
     bind_res (get_business_config s bid) (\<lambda>config.
     bind_res (require_tab_feature_flags config [''enable_restaurant'']) (\<lambda>_.
     bind_res (get_tab_sale_for_update s sale_id bid) (\<lambda>sl.
     bind_res (assert_tab_mutable sl) (\<lambda>_.
     bind_res (fold_res (add_tab_line c bid sl user permission_keys) lines
                 (next_line_order (tab_lines s sl), s)) (\<lambda>(_, s).
       Inr (touch_sale c (row_id sl) user s))))))"

section \<open>Firing to the kitchen\<close>

definition get_fired_sale_line_ids :: "db \<Rightarrow> uuid \<Rightarrow> uuid \<Rightarrow> uuid set" where
  "get_fired_sale_line_ids s bid sale_id =
     (let kots = set (map row_id (filter (\<lambda>r. business_id r = bid \<and> ko_sale_id r = Some sale_id \<and> live r \<and>
            ko_status r \<noteq> KotStatus_cancelled) (kot_orders s)))
      in set (List.map_filter kol_sale_line_id
           (filter (\<lambda>l. business_id l = bid \<and> kol_kot_order_id l \<in> kots) (kot_order_lines s))))"

fun json_of :: "jvalue \<Rightarrow> json" where
  "json_of JvNull = JNull"
| "json_of (JvBool b) = JBool b"
| "json_of (JvInt i) = JNum (of_int i)"
| "json_of (JvFloat t) = JNum (or_else (decimal_of_str t) 0)"
| "json_of (JvStr t) = JStr t"
| "json_of (JvList vs) = JList (map json_of vs)"
| "json_of (JvObj kvs) = JObj (map (\<lambda>(k, v). (k, json_of v)) kvs)"

fun text_column :: "jvalue \<Rightarrow> string option res" where
  \<comment> \<open>a text column takes a string or NULL\<close>
  "text_column JvNull = Inr None"
| "text_column (JvStr t) = Inr (Some t)"
| "text_column v = Inl (PyError ''DBAPIError'')"

definition kot_line_modifier :: "DecodedModifier \<Rightarrow> json" where
  "kot_line_modifier = (\<lambda>(modifier_id, name, price_delta).
     JObj [(''modifier_id'', JUuid modifier_id), (''name'', json_of name), (''price_delta'', JNum price_delta)])"

definition fire_line :: "clock \<Rightarrow> uuid \<Rightarrow> uuid \<Rightarrow> uuid \<Rightarrow> sale_line \<Rightarrow> db \<Rightarrow> db res" where
  "fire_line c bid kot_id user line s =
     bind_res (decode_sale_line_notes (sln_notes line)) (\<lambda>(kitchen_notes, decoded).
     bind_res (text_column kitchen_notes) (\<lambda>kitchen_notes.
       let (i, s) = fresh_uuid s;
           l = new_row i bid (Some user) (now c)
             \<lparr>kol_kot_order_id = kot_id, kol_sale_line_id = Some (row_id line),
              kol_product_id = sln_product_id line, kol_variation_id = sln_variation_id line,
              kol_qty = sln_qty line, kol_modifiers_json = map kot_line_modifier decoded,
              kol_kitchen_notes = kitchen_notes, kol_status = KotStatus_pending\<rparr>
       in Inr (s\<lparr>kot_order_lines := kot_order_lines s @ [l]\<rparr>)))"

definition lines_to_fire :: "db \<Rightarrow> uuid \<Rightarrow> sale \<Rightarrow> uuid list option \<Rightarrow> sale_line list res" where
  "lines_to_fire s bid sl sale_line_ids =
     (let unfired_lines = filter (\<lambda>l. row_id l \<notin> get_fired_sale_line_ids s bid (row_id sl)) (tab_lines s sl)
      in if unfired_lines = [] then bad_request ''No unfired lines to send to kitchen''
         else case sale_line_ids of
           None \<Rightarrow> Inr unfired_lines
         | Some ids \<Rightarrow>
             let unfired_lines = filter (\<lambda>l. row_id l \<in> set ids) unfired_lines
             in if unfired_lines = [] then bad_request ''No matching unfired lines to send to kitchen''
                else Inr unfired_lines)"

definition fire_tab_to_kitchen ::
  "clock \<Rightarrow> uuid \<Rightarrow> uuid \<Rightarrow> uuid list option \<Rightarrow> string option \<Rightarrow> uuid \<Rightarrow> db \<Rightarrow> (kot_order \<times> db) res" where
  "fire_tab_to_kitchen c bid sale_id sale_line_ids kot_notes user s =
     bind_res (get_business_config s bid) (\<lambda>config.
     bind_res (require_tab_feature_flags config [''enable_restaurant'', ''enable_kot'']) (\<lambda>_.
     bind_res (get_tab_sale_for_update s sale_id bid) (\<lambda>sl.
     bind_res (assert_tab_mutable sl) (\<lambda>_.
     bind_res (lines_to_fire s bid sl sale_line_ids) (\<lambda>unfired_lines.
       let (kot_number, s) = generate_document_number c bid ''KOT'' s;
           (i, s) = fresh_uuid s;
           kot_order = new_row i bid (Some user) (now c)
             \<lparr>ko_branch_id = s_branch_id sl, ko_sale_id = Some (row_id sl), ko_table_id = s_table_id sl,
              ko_kot_number = kot_number, ko_status = KotStatus_pending, ko_fired_at = now c,
              ko_ready_at = None, ko_served_at = None, ko_notes = kot_notes\<rparr>;
           s = s\<lparr>kot_orders := kot_orders s @ [kot_order]\<rparr>
       in bind_res (fold_res (fire_line c bid i user) unfired_lines s) (\<lambda>s.
            Inr (kot_order, touch_sale c (row_id sl) user s)))))))"

section \<open>The notes come back\<close>

lemma decode_modifier_objects:
  assumes "\<forall>(u, n, p)\<in>set ms. u < 2 ^ 128 \<and> (\<exists>k. p = of_int k / 100)"
  shows "fold_res decode_modifier (map modifier_object ms) acc = Inr (acc @ map (\<lambda>(u, n, p). (u, JvStr n, p)) ms)"
  using assms
proof (induction ms arbitrary: acc)
  case (Cons m ms)
  obtain u n p where m: "m = (u, n, p)" by (metis prod_cases3)
  have u: "uuid_of_str (uuid_str u) = Some u" and p: "decimal_of_str (money_str p) = Some p"
    using Cons.prems by (auto simp: m intro: uuid_of_str_str decimal_of_money)
  have "decode_modifier (modifier_object m) acc = Inr (acc @ [(u, JvStr n, p)])"
    by (simp add: m modifier_object_def decode_modifier_def jget_def or_raise_def u p)
  with Cons show ?case by (simp add: m)
qed simp

text \<open>
  What is decoded from a line's notes when it is fired is what was encoded when it was added:
  the kitchen notes and every modifier with its id, name and price, through the JSON text, the UUID
  text and the decimal text. Plain notes, without modifiers, come back as they are unless they
  start with the tag.
\<close>

theorem notes_roundtrip:
  assumes "\<forall>(u, n, p)\<in>set ms. u < 2 ^ 128 \<and> (\<exists>k. p = of_int k / 100)"
    and "ms = [] \<Longrightarrow> \<forall>t. kn = Some t \<longrightarrow> take (length LINE_NOTES_PREFIX) t \<noteq> LINE_NOTES_PREFIX"
  shows "decode_sale_line_notes (encode_sale_line_notes kn ms) =
    Inr (case kn of None \<Rightarrow> JvNull | Some t \<Rightarrow> JvStr t, map (\<lambda>(u, n, p). (u, JvStr n, p)) ms)"
proof (cases "ms = []")
  case True
  then show ?thesis using assms(2)
    by (auto simp: encode_sale_line_notes_def decode_sale_line_notes_def split: option.splits)
next
  case False
  let ?k = "case kn of None \<Rightarrow> JvNull | Some n \<Rightarrow> JvStr n"
  let ?v = "JvObj [(''kitchen_notes'', ?k), (''modifiers'', JvList (map modifier_object ms))]"
  have "textual ?v" by (auto simp: modifier_object_def list_all_iff split: option.splits)
  then have l: "loads (dumps ?v) = Some ?v" by (rule loads_dumps)
  have e: "encode_sale_line_notes kn ms = Some (LINE_NOTES_PREFIX @ dumps ?v)"
    using False by (simp add: encode_sale_line_notes_def)
  have "decode_sale_line_notes (Some (LINE_NOTES_PREFIX @ dumps ?v)) =
      bind_res (fold_res decode_modifier (map modifier_object ms) []) (\<lambda>decoded. Inr (?k, decoded))"
    by (simp add: decode_sale_line_notes_def l or_raise_def jget_def del: dumps.simps)
  then show ?thesis unfolding e decode_modifier_objects [OF assms(1)] by simp
qed

lemma notes_roundtrip_witness:
  "decode_sale_line_notes (encode_sale_line_notes (Some ''no \"salt\"'') [(31, ''Large'', 2)]) =
     Inr (JvStr ''no \"salt\"'', [(31, JvStr ''Large'', 2)])"
proof -
  have "\<exists>k::int. (2::rat) = of_int k / 100" by (rule exI [of _ 200]) simp
  then show ?thesis using notes_roundtrip [of "[(31, ''Large'', 2)]" "Some ''no \"salt\"''"] by simp
qed

lemma plain_notes_with_tag_fail:
  \<comment> \<open>a guest's note that happens to start with the tag cannot be fired\<close>
  "decode_sale_line_notes (encode_sale_line_notes (Some ''restaurant: no salt'') []) =
     Inl (PyError ''JSONDecodeError'')"
  by code_simp

section \<open>Tickets over a whole run\<close>

inductive kot_step :: "db \<Rightarrow> db \<Rightarrow> bool" where
  kot_fire: "fire_tab_to_kitchen c bid sale_id ids n user s = Inr (r, s') \<Longrightarrow> kot_step s s'"
| kot_order: "update_kot_order_status c i bid st user s = Inr s' \<Longrightarrow> kot_step s s'"
| kot_line: "update_kot_order_line_status c i bid st user s = Inr s' \<Longrightarrow> kot_step s s'"
| kot_tab_cancelled: "on_held_tab_cancelled c sl user s = Inr s' \<Longrightarrow> kot_step s s'"
| kot_elsewhere: "kot_orders s' = kot_orders s \<Longrightarrow> kot_order_lines s' = kot_order_lines s \<Longrightarrow>
    uuid_gen s' = uuid_gen s \<Longrightarrow> uuid_next s \<le> uuid_next s' \<Longrightarrow> kot_step s s'"

definition kot_inv :: "db \<Rightarrow> bool" where
  \<comment> \<open>with fresh ids, what lets a new ticket in\<close>
  "kot_inv s \<longleftrightarrow> kot_ok s \<and> inj (uuid_gen s) \<and> keyed (kot_orders s) s \<and> keyed (kot_order_lines s) s \<and>
     (\<forall>l\<in>set (kot_order_lines s). kol_kot_order_id l \<in> drawn s)"

lemma kot_inv_mono:
  assumes "kot_inv s" "kot_ok s'" "uuid_gen s' = uuid_gen s" "uuid_next s \<le> uuid_next s'"
    and "map row_id (kot_orders s') = map row_id (kot_orders s)"
    and "map row_id (kot_order_lines s') = map row_id (kot_order_lines s)"
    and "kol_kot_order_id ` set (kot_order_lines s') = kol_kot_order_id ` set (kot_order_lines s)"
  shows "kot_inv s'"
proof -
  have k: "keyed (kot_orders s) s" "keyed (kot_order_lines s) s" using assms(1) by (simp_all add: kot_inv_def)
  have "keyed (kot_orders s') s'" "keyed (kot_order_lines s') s'"
    using k drawn_le [OF assms(3,4)] unfolding keyed_def assms(5,6) by auto
  moreover have "\<forall>l\<in>set (kot_order_lines s'). kol_kot_order_id l \<in> drawn s'"
  proof -
    have "kol_kot_order_id ` set (kot_order_lines s) \<subseteq> drawn s" using assms(1) by (auto simp: kot_inv_def)
    then have "kol_kot_order_id ` set (kot_order_lines s') \<subseteq> drawn s'"
      unfolding assms(7) using drawn_le [OF assms(3,4)] by (rule order_trans)
    then show ?thesis by auto
  qed
  ultimately show ?thesis using assms(1-3) by (simp add: kot_inv_def)
qed

lemma fire_line_Inr:
  assumes "fire_line c bid kid user line s = Inr s'"
  obtains l ms nt where "decode_sale_line_notes (sln_notes line) = Inr (nt, ms)"
    "row_id l = uuid_gen s (uuid_next s)" "live l" "business_id l = bid" "kol_kot_order_id l = kid"
    "kol_sale_line_id l = Some (row_id line)" "kol_product_id l = sln_product_id line"
    "kol_variation_id l = sln_variation_id line" "kol_qty l = sln_qty line"
    "kol_modifiers_json l = map kot_line_modifier ms" "text_column nt = Inr (kol_kitchen_notes l)"
    "kol_status l = KotStatus_pending"
    "s' = s\<lparr>uuid_next := Suc (uuid_next s), kot_order_lines := kot_order_lines s @ [l]\<rparr>"
proof -
  obtain nt ms kn where n: "decode_sale_line_notes (sln_notes line) = Inr (nt, ms)" "text_column nt = Inr kn"
    using assms by (auto simp: fire_line_def bind_res_Inr)
  show thesis
    by (rule that [OF n(1), where l = "new_row (uuid_gen s (uuid_next s)) bid (Some user) (now c)
             \<lparr>kol_kot_order_id = kid, kol_sale_line_id = Some (row_id line),
              kol_product_id = sln_product_id line, kol_variation_id = sln_variation_id line,
              kol_qty = sln_qty line, kol_modifiers_json = map kot_line_modifier ms,
              kol_kitchen_notes = kn, kol_status = KotStatus_pending\<rparr>"])
      (use assms n in \<open>auto simp: fire_line_def fresh_uuid_def Let_def live_def\<close>)
qed

definition ticket_line :: "uuid \<Rightarrow> uuid \<Rightarrow> sale_line \<Rightarrow> kot_order_line \<Rightarrow> bool" where
  \<comment> \<open>\<open>l\<close> is the pending ticket line of \<open>line\<close>, with the notes and modifiers its text holds\<close>
  "ticket_line bid kid line l \<longleftrightarrow> live l \<and> business_id l = bid \<and> kol_kot_order_id l = kid \<and>
     kol_sale_line_id l = Some (row_id line) \<and> kol_product_id l = sln_product_id line \<and>
     kol_variation_id l = sln_variation_id line \<and> kol_qty l = sln_qty line \<and> kol_status l = KotStatus_pending \<and>
     (\<exists>ms nt. decode_sale_line_notes (sln_notes line) = Inr (nt, ms) \<and>
        kol_modifiers_json l = map kot_line_modifier ms \<and> text_column nt = Inr (kol_kitchen_notes l))"

lemma fire_lines:
  assumes "fold_res (fire_line c bid kid user) ls s = Inr s'"
  shows "\<exists>new. list_all2 (ticket_line bid kid) ls new \<and>
    s' = s\<lparr>uuid_next := uuid_next s + length ls, kot_order_lines := kot_order_lines s @ new\<rparr> \<and>
    map row_id new = map (uuid_gen s) [uuid_next s ..< uuid_next s + length ls]"
  using assms
proof (induction ls arbitrary: s)
  case Nil
  then show ?case by simp
next
  case (Cons line ls)
  obtain t where t: "fire_line c bid kid user line s = Inr t" "fold_res (fire_line c bid kid user) ls t = Inr s'"
    using Cons.prems by (auto simp: bind_res_Inr)
  obtain l where l: "ticket_line bid kid line l" "row_id l = uuid_gen s (uuid_next s)"
    "t = s\<lparr>uuid_next := Suc (uuid_next s), kot_order_lines := kot_order_lines s @ [l]\<rparr>"
    using t(1) by (rule fire_line_Inr) (auto simp: ticket_line_def)
  obtain new where new: "list_all2 (ticket_line bid kid) ls new"
    "s' = t\<lparr>uuid_next := uuid_next t + length ls, kot_order_lines := kot_order_lines t @ new\<rparr>"
    "map row_id new = map (uuid_gen t) [uuid_next t ..< uuid_next t + length ls]" using Cons.IH [OF t(2)] by blast
  have "[uuid_next s ..< uuid_next s + length (line # ls)] =
      uuid_next s # [Suc (uuid_next s) ..< Suc (uuid_next s) + length ls]"
    by (subst upt_rec) simp
  with new l show ?case by (intro exI [of _ "l # new"]) (simp add: l(3))
qed

lemma lines_to_fire_Inr:
  assumes "lines_to_fire s bid sl ids = Inr ls"
  shows "ls \<noteq> [] \<and> ls = filter (\<lambda>l. row_id l \<notin> get_fired_sale_line_ids s bid (row_id sl) \<and>
    (\<forall>r. ids = Some r \<longrightarrow> row_id l \<in> set r)) (tab_lines s sl)"
  using assms by (auto simp: lines_to_fire_def Let_def filter_empty_conv conj_commute split: if_splits option.splits)

lemma fire_tab_Inr:
  assumes "fire_tab_to_kitchen c bid sale_id ids kn user s = Inr (r, s')"
  obtains sl ls new n cs where "get_tab_sale_for_update s sale_id bid = Inr sl" "assert_tab_mutable sl = Inr ()"
    "lines_to_fire s bid sl ids = Inr ls" "list_all2 (ticket_line bid (row_id r)) ls new"
    "live r" "business_id r = bid" "ko_sale_id r = Some (row_id sl)" "ko_table_id r = s_table_id sl"
    "ko_status r = KotStatus_pending" "row_id r = uuid_gen s n" "uuid_next s \<le> n"
    "map row_id new = map (uuid_gen s) [Suc n ..< Suc n + length ls]"
    "s' = touch_sale c (row_id sl) user (s\<lparr>counters := cs, uuid_next := Suc n + length ls,
       kot_orders := kot_orders s @ [r], kot_order_lines := kot_order_lines s @ new\<rparr>)"
proof -
  obtain sl ls m s1 where sl: "get_tab_sale_for_update s sale_id bid = Inr sl" "assert_tab_mutable sl = Inr ()"
    "lines_to_fire s bid sl ids = Inr ls" and s1: "generate_document_number c bid ''KOT'' s = (m, s1)"
    using assms by (force simp: fire_tab_to_kitchen_def bind_res_Inr)
  obtain cs n where G: "s1 = s\<lparr>counters := cs, uuid_next := n\<rparr>" "uuid_next s \<le> n"
    using generate_document_number_frame [OF s1] by blast
  define s2 where "s2 = s1\<lparr>uuid_next := Suc (uuid_next s1), kot_orders := kot_orders s1 @ [r]\<rparr>"
  have r: "r = new_row (uuid_gen s1 (uuid_next s1)) bid (Some user) (now c)
      \<lparr>ko_branch_id = s_branch_id sl, ko_sale_id = Some (row_id sl), ko_table_id = s_table_id sl,
       ko_kot_number = m, ko_status = KotStatus_pending, ko_fired_at = now c,
       ko_ready_at = None, ko_served_at = None, ko_notes = kn\<rparr>"
    using assms by (auto simp: fire_tab_to_kitchen_def bind_res_Inr sl s1 fresh_uuid_def Let_def)
  obtain s3 where s3: "fold_res (fire_line c bid (row_id r) user) ls s2 = Inr s3" and s': "s' = touch_sale c (row_id sl) user s3"
    using assms by (auto simp: fire_tab_to_kitchen_def bind_res_Inr sl s1 fresh_uuid_def Let_def r s2_def)
  obtain new where new: "list_all2 (ticket_line bid (row_id r)) ls new"
    "s3 = s2\<lparr>uuid_next := uuid_next s2 + length ls, kot_order_lines := kot_order_lines s2 @ new\<rparr>"
    "map row_id new = map (uuid_gen s2) [uuid_next s2 ..< uuid_next s2 + length ls]" using fire_lines [OF s3] by blast
  have "map row_id new = map (uuid_gen s) [Suc n ..< Suc n + length ls]"
    using new(3) unfolding s2_def G(1) by simp
  moreover have "s3 = s\<lparr>counters := cs, uuid_next := Suc n + length ls,
       kot_orders := kot_orders s @ [r], kot_order_lines := kot_order_lines s @ new\<rparr>"
    unfolding new(2) s2_def G(1) by simp
  ultimately show thesis
    by (intro that [OF sl new(1) _ _ _ _ _ _ G(2)]) (simp_all add: r live_def G(1) s')
qed

lemma kot_ok_fired:
  assumes "kot_inv s" "row_id r = uuid_gen s n" "uuid_next s \<le> n" "ko_status r = KotStatus_pending"
    and "list_all2 (ticket_line bid (row_id r)) ls new" "ls \<noteq> []"
    and "map row_id new = map (uuid_gen s) [Suc n ..< Suc n + length ls]"
    and s': "s' = touch_sale c i user (s\<lparr>counters := cs, uuid_next := Suc n + length ls,
       kot_orders := kot_orders s @ [r], kot_order_lines := kot_order_lines s @ new\<rparr>)"
  shows "kot_inv s'"
proof -
  have inj: "inj (uuid_gen s)" and k: "keyed (kot_orders s) s" "keyed (kot_order_lines s) s"
    and own: "\<forall>l\<in>set (kot_order_lines s). kol_kot_order_id l \<in> drawn s" and ok: "kot_ok s"
    using assms(1) by (auto simp: kot_inv_def)
  have fresh: "uuid_gen s m \<notin> drawn s" if "uuid_next s \<le> m" for m
    using inj that by (auto simp: drawn_def inj_eq)
  have D: "drawn s' = uuid_gen s ` {..<Suc n + length ls}" by (simp add: s' touch_sale_def drawn_def)
  then have sub: "drawn s \<subseteq> drawn s'" using assms(3) by (auto simp: drawn_def)
  have rows: "kot_orders s' = kot_orders s @ [r]" "kot_order_lines s' = kot_order_lines s @ new"
    "uuid_gen s' = uuid_gen s" by (simp_all add: s' touch_sale_def)
  have rid: "row_id r \<notin> drawn s" "row_id r \<in> drawn s'" using fresh [OF assms(3)] by (auto simp: assms(2) D)
  have K1: "keyed (kot_orders s') s'"
    using k(1) rid sub by (auto simp: keyed_def rows)
  have ids: "set (map row_id new) = uuid_gen s ` {Suc n ..< Suc n + length ls}"
    by (simp only: assms(7) set_map set_upt)
  have dist: "distinct (map row_id new)" using inj_on_subset [OF inj]
    by (simp only: assms(7) distinct_map distinct_upt) simp
  have "set (map row_id new) \<inter> drawn s = {}" using assms(3) fresh unfolding ids by auto
  moreover have "set (map row_id new) \<subseteq> drawn s'" unfolding ids D by auto
  ultimately have K2: "keyed (kot_order_lines s') s'"
    using k(2) dist sub unfolding keyed_def rows map_append distinct_append set_append by blast
  have new: "kol_kot_order_id l = row_id r \<and> kol_status l = KotStatus_pending" if "l \<in> set new" for l
    using assms(5) that by (auto simp: list_all2_conv_all_nth in_set_conv_nth ticket_line_def)
  have O: "\<forall>l\<in>set (kot_order_lines s'). kol_kot_order_id l \<in> drawn s'"
    using own sub new rid(2) by (auto simp: rows)
  have "new \<noteq> []" using assms(5,6) by auto
  have none: "kot_lines_of s (row_id r) = []"
    using own rid(1) by (auto simp: kot_lines_of_def filter_empty_conv)
  have all: "filter (\<lambda>l. kol_kot_order_id l = row_id r) new = new" using new by (simp add: filter_id_conv)
  have pend: "derive_kot_header_status (map kol_status new) = KotStatus_pending"
    using new \<open>new \<noteq> []\<close> unfolding derive_iff by (cases new) auto
  have "ko_status x = KotStatus_cancelled \<or>
      ko_status x = derive_kot_header_status (map kol_status (kot_lines_of s' (row_id x)))"
    if x: "x \<in> set (kot_orders s')" for x
  proof (cases "row_id x = row_id r")
    case True
    then have "x = r" using x k(1) rid(1) by (auto simp: rows keyed_def)
    moreover have "kot_lines_of s' (row_id r) = new" using none all by (simp add: kot_lines_of_def rows)
    ultimately show ?thesis using pend assms(4) by simp
  next
    case False
    then have "filter (\<lambda>l. kol_kot_order_id l = row_id x) new = []" using new by (auto simp: filter_empty_conv)
    then have "kot_lines_of s' (row_id x) = kot_lines_of s (row_id x)" by (simp add: kot_lines_of_def rows)
    then show ?thesis using x False ok by (auto simp: rows kot_ok_def)
  qed
  then have "kot_ok s'" using K1 K2 by (simp add: kot_ok_def keyed_def)
  then show ?thesis using K1 K2 O inj by (simp add: kot_inv_def rows)
qed

lemma kot_inv_updated:
  assumes "kot_inv s" "kot_ok s'"
    and "s' = s\<lparr>kot_order_lines := update_where P (set_line_status st t) (kot_order_lines s),
      kot_orders := update_where Q f (kot_orders s)\<rparr>" "\<And>r. row_id (f r) = row_id r"
  shows "kot_inv s'"
proof -
  have "map row_id (kot_orders s') = map row_id (kot_orders s)"
    unfolding assms(3) by (simp add: map_update_where assms(4) del: map_eq_conv)
  moreover have "map row_id (kot_order_lines s') = map row_id (kot_order_lines s)"
    unfolding assms(3) by (simp add: map_update_where del: map_eq_conv)
  moreover have "map kol_kot_order_id (kot_order_lines s') = map kol_kot_order_id (kot_order_lines s)"
    unfolding assms(3) by (simp add: map_update_where del: map_eq_conv)
  then have "kol_kot_order_id ` set (kot_order_lines s') = kol_kot_order_id ` set (kot_order_lines s)"
    by (metis set_map)
  ultimately show ?thesis by (intro kot_inv_mono [OF assms(1,2)]) (simp_all add: assms(3))
qed

lemma no_line_update: "s = s\<lparr>kot_order_lines := update_where (\<lambda>_. False) g (kot_order_lines s)\<rparr>"
proof -
  have "update_where (\<lambda>_. False) g ls = ls" for ls :: "kot_order_line list" by (induction ls) simp_all
  then show ?thesis by simp
qed

lemma on_held_tab_cancelled_kots:
  assumes "on_held_tab_cancelled c sl user s = Inr s'"
  obtains P where "kot_orders s' = update_where P (\<lambda>r. r\<lparr>ko_status := KotStatus_cancelled, updated_at := now c\<rparr>) (kot_orders s)"
    "kot_order_lines s' = kot_order_lines s" "uuid_gen s' = uuid_gen s" "uuid_next s' = uuid_next s"
proof -
  have none: "kot_orders s = update_where (\<lambda>_. False) f (kot_orders s)" for f :: "kot_order \<Rightarrow> kot_order"
    by (induction "kot_orders s") (simp_all add: update_where_def)
  show thesis
    using assms that none
    by (auto simp: on_held_tab_cancelled_def maybe_release_dining_table_def transition_table_status_def
        cancel_kot_orders_for_sale_def handler_simps Let_def split: if_splits option.splits)
qed

lemma kot_inv_step:
  assumes "kot_step s s'" "kot_inv s"
  shows "kot_inv s'"
  using assms
proof (induction rule: kot_step.induct)
  case (kot_fire c bid sale_id ids n user s r s')
  show ?case
    using kot_fire(1) by (rule fire_tab_Inr) (rule kot_ok_fired [OF kot_fire(2)], (assumption | simp add: lines_to_fire_Inr)+)
next
  case (kot_order c i bid st user s s')
  have "kot_ok s'" using kot_ok_order_status [OF kot_order(1)] kot_order(2) by (simp add: kot_inv_def)
  then show ?case using kot_order(1)
    by (elim update_kot_order_status_Inr) (rule kot_inv_updated [OF kot_order(2)], assumption+, simp)
next
  case (kot_line c i bid st user s s')
  have "kot_ok s'" using kot_ok_line_status [OF kot_line(1)] kot_line(2) by (simp add: kot_inv_def)
  then show ?case using kot_line(1)
    by (elim update_kot_order_line_status_Inr)
      (rule kot_inv_updated [OF kot_line(2)], assumption+, simp add: sync_kot_order_status_from_lines_def Let_def)
next
  case (kot_tab_cancelled c sl user s s')
  obtain P where P: "kot_orders s' = update_where P (\<lambda>r. r\<lparr>ko_status := KotStatus_cancelled, updated_at := now c\<rparr>) (kot_orders s)"
    "kot_order_lines s' = kot_order_lines s" "uuid_gen s' = uuid_gen s" "uuid_next s' = uuid_next s"
    using kot_tab_cancelled(1) by (rule on_held_tab_cancelled_kots)
  have ids: "map row_id (kot_orders s') = map row_id (kot_orders s)"
    unfolding P(1) by (rule map_update_where) simp
  have "kot_ok s'"
    using kot_tab_cancelled(2) ids unfolding kot_inv_def kot_ok_def
    by (auto simp: P(1,2) set_update_where kot_lines_of_def split: if_splits)
  then show ?case by (rule kot_inv_mono [OF kot_tab_cancelled(2)]) (use P ids in simp_all)
next
  case (kot_elsewhere s' s)
  have "kot_ok s'" using kot_elsewhere by (simp add: kot_inv_def kot_ok_def kot_lines_of_def)
  then show ?case by (rule kot_inv_mono [OF kot_elsewhere(5)]) (use kot_elsewhere in simp_all)
qed

lemma kot_inv_run: "kot_step\<^sup>*\<^sup>* s s' \<Longrightarrow> kot_inv s \<Longrightarrow> kot_inv s'"
  by (induction rule: rtranclp_induct) (auto intro: kot_inv_step)

text \<open>
  C30. Whatever the waiters and the kitchen do, a ticket that is not cancelled shows its slowest
  line: some line of it has the ticket's status, and no line that is still wanted is behind it.
\<close>

theorem ticket_shows_slowest_line:
  assumes "kot_step\<^sup>*\<^sup>* s s'" "kot_inv s" "r \<in> set (kot_orders s')" "ko_status r \<noteq> KotStatus_cancelled"
  shows "(\<exists>l\<in>set (kot_lines_of s' (row_id r)). kol_status l = ko_status r) \<and>
    (\<forall>l\<in>set (kot_lines_of s' (row_id r)). kol_status l \<noteq> KotStatus_cancelled \<longrightarrow>
       KOT_STATUS_PRIORITY (ko_status r) \<le> KOT_STATUS_PRIORITY (kol_status l))"
proof -
  have "kot_inv s'" using kot_inv_run assms(1,2) .
  then have "ko_status r = derive_kot_header_status (map kol_status (kot_lines_of s' (row_id r)))"
    using assms(3,4) by (auto simp: kot_inv_def kot_ok_def)
  then show ?thesis
    using assms(4) derive_iff [of "map kol_status (kot_lines_of s' (row_id r))" "ko_status r"]
    by (auto split: if_splits)
qed

definition sample_ticket :: kot_order where
  "sample_ticket = new_row 0 1 None 0 \<lparr>ko_branch_id = 2, ko_sale_id = Some 40, ko_table_id = None,
     ko_kot_number = ''KOT-1'', ko_status = KotStatus_pending, ko_fired_at = 0, ko_ready_at = None,
     ko_served_at = None, ko_notes = None\<rparr>"

definition sample_ticket_line :: "uuid \<Rightarrow> KotStatusEnum \<Rightarrow> kot_order_line" where
  "sample_ticket_line i st = new_row i 1 None 0 \<lparr>kol_kot_order_id = 0, kol_sale_line_id = Some 41,
     kol_product_id = 5, kol_variation_id = None, kol_qty = 1, kol_modifiers_json = [],
     kol_kitchen_notes = None, kol_status = st\<rparr>"

definition sample_kitchen :: "KotStatusEnum \<Rightarrow> db" where
  "sample_kitchen st = (empty_db id)\<lparr>uuid_next := 3, kot_orders := [sample_ticket],
     kot_order_lines := [sample_ticket_line 1 KotStatus_pending, sample_ticket_line 2 st]\<rparr>"

lemma sample_kitchen_inv: "kot_inv (sample_kitchen KotStatus_pending)"
proof -
  have "drawn (sample_kitchen KotStatus_pending) = {0, 1, 2}"
    by (auto simp: drawn_def sample_kitchen_def empty_db_def)
  then show ?thesis
    by (simp add: kot_inv_def kot_ok_def keyed_def kot_lines_of_def sample_kitchen_def sample_ticket_def
        sample_ticket_line_def empty_db_def derive_kot_header_status_def)
qed

lemma ticket_shows_slowest_line_witness:
  "\<exists>s'. update_kot_order_line_status sample_clock 2 1 KotStatus_preparing 9 (sample_kitchen KotStatus_pending) = Inr s' \<and>
    (\<forall>r\<in>set (kot_orders s'). \<exists>l\<in>set (kot_lines_of s' (row_id r)). kol_status l = ko_status r)"
proof -
  obtain s' where s': "update_kot_order_line_status sample_clock 2 1 KotStatus_preparing 9 (sample_kitchen KotStatus_pending) = Inr s'"
    "\<forall>r\<in>set (kot_orders s'). ko_status r \<noteq> KotStatus_cancelled"
    by (simp add: update_kot_order_line_status_def sample_kitchen_def sample_ticket_def sample_ticket_line_def
        empty_db_def is_valid_kot_status_transition_def sync_kot_order_status_from_lines_def
        derive_kot_header_status_def kot_lines_of_def apply_header_timestamps_def set_line_status_def Let_def)
  have "kot_step\<^sup>*\<^sup>* (sample_kitchen KotStatus_pending) s'" using kot_line [OF s'(1)] by blast
  from ticket_shows_slowest_line [OF this sample_kitchen_inv] s' show ?thesis by blast
qed

subsection \<open>Lines only move forward\<close>

definition line_moves :: "KotStatusEnum \<Rightarrow> KotStatusEnum \<Rightarrow> bool" where
  "line_moves a b \<longleftrightarrow> a \<noteq> KotStatus_cancelled \<and>
     (b = KotStatus_cancelled \<or> KOT_STATUS_PRIORITY a < KOT_STATUS_PRIORITY b)"

lemma line_transition_moves:
  "is_valid_kot_status_transition a b KOT_LINE_STATUS_TRANSITIONS \<Longrightarrow> b = a \<or> line_moves a b"
  by (cases a; cases b) (simp_all add: is_valid_kot_status_transition_def line_moves_def)

abbreviation kot_line_status :: "db \<Rightarrow> uuid \<Rightarrow> KotStatusEnum option" where
  "kot_line_status s \<equiv> status_in kol_status (kot_order_lines s)"

lemma kot_line_step:
  assumes "kot_step s s'" "kot_inv s" "kot_line_status s k = Some a"
  shows "\<exists>b. kot_line_status s' k = Some b \<and> (b = a \<or> line_moves a b)"
  using assms(1)
proof (cases rule: kot_step.cases)
  case (kot_fire c bid sale_id ids n user r)
  then obtain new where "kot_order_lines s' = kot_order_lines s @ new"
    by (elim fire_tab_Inr) (auto simp: touch_sale_def)
  then show ?thesis using assms(3) by (simp add: status_in_kept)
next
  case (kot_order c i bid st user)
  then obtain P Q f where P: "P = (\<lambda>l. kol_kot_order_id l = i \<and> kol_status l \<noteq> KotStatus_cancelled \<and>
       (st = KotStatus_cancelled \<or> st \<noteq> KotStatus_pending \<and> KOT_STATUS_PRIORITY (kol_status l) < KOT_STATUS_PRIORITY st))"
    and s': "s' = s\<lparr>kot_order_lines := update_where P (set_line_status st (now c)) (kot_order_lines s),
       kot_orders := update_where Q f (kot_orders s)\<rparr>"
    by (rule update_kot_order_status_Inr) blast
  have "\<exists>b. status_in kol_status (update_where P (set_line_status st (now c)) (kot_order_lines s)) k = Some b \<and>
      (b = a \<or> line_moves a b)"
    by (rule status_in_moved [OF assms(3)]) (auto simp: P line_moves_def)
  then show ?thesis by (simp add: s')
next
  case (kot_line c i bid st user)
  then obtain line Q f where l: "filter (\<lambda>l. row_id l = i \<and> business_id l = bid) (kot_order_lines s) = [line]"
    and v: "is_valid_kot_status_transition (kol_status line) st KOT_LINE_STATUS_TRANSITIONS"
    and s': "s' = s\<lparr>kot_order_lines := update_where (\<lambda>l. row_id l = row_id line) (set_line_status st (now c))
         (kot_order_lines s), kot_orders := update_where Q f (kot_orders s)\<rparr>"
    by (rule update_kot_order_line_status_Inr) blast
  have "line \<in> set (filter (\<lambda>l. row_id l = i \<and> business_id l = bid) (kot_order_lines s))" by (simp only: l) simp
  then have only: "x = line" if "x \<in> set (kot_order_lines s)" "row_id x = row_id line" for x
    using that assms(2) by (auto simp: kot_inv_def keyed_def distinct_map inj_on_def)
  have "\<exists>b. status_in kol_status (update_where (\<lambda>l. row_id l = row_id line) (set_line_status st (now c))
      (kot_order_lines s)) k = Some b \<and> (b = a \<or> line_moves a b)"
    by (rule status_in_moved [OF assms(3)]) (use only line_transition_moves [OF v] in auto)
  then show ?thesis by (simp add: s')
next
  case (kot_tab_cancelled c sl user)
  then show ?thesis using assms(3) by (elim on_held_tab_cancelled_kots) simp
next
  case kot_elsewhere
  then show ?thesis using assms(3) by simp
qed

interpretation kot_line: status_machine kot_line_status "\<lambda>s s'. kot_step s s' \<and> kot_inv s" line_moves
  by unfold_locales (blast intro: kot_line_step)

lemma kot_line_run:
  assumes "kot_step\<^sup>*\<^sup>* s s'" "kot_inv s"
  shows "(\<lambda>s s'. kot_step s s' \<and> kot_inv s)\<^sup>*\<^sup>* s s'"
  using assms
proof (induction rule: rtranclp_induct)
  case (step s' s'')
  then have "kot_inv s'" using kot_inv_run by blast
  then show ?case using step by (auto intro: rtranclp.rtrancl_into_rtrancl)
qed simp

lemma line_moves_run:
  "line_moves\<^sup>*\<^sup>* a b \<Longrightarrow> b = a \<or> line_moves a b"
  by (induction rule: rtranclp_induct) (auto simp: line_moves_def)

text \<open>
  A line sent to the kitchen never goes back: over any run its status stays, moves further
  along pending, preparing, ready, served, or becomes cancelled, and a cancelled line stays cancelled.
\<close>

theorem kitchen_lines_move_forward:
  assumes "kot_step\<^sup>*\<^sup>* s s'" "kot_inv s" "kot_line_status s k = Some a"
  shows "\<exists>b. kot_line_status s' k = Some b \<and>
    (a = KotStatus_cancelled \<longrightarrow> b = KotStatus_cancelled) \<and>
    (b \<noteq> KotStatus_cancelled \<longrightarrow> KOT_STATUS_PRIORITY a \<le> KOT_STATUS_PRIORITY b)"
proof -
  obtain b where "kot_line_status s' k = Some b" "line_moves\<^sup>*\<^sup>* a b"
    using kot_line.run_status [OF kot_line_run [OF assms(1,2)] assms(3)] by blast
  then show ?thesis using line_moves_run [of a b] by (auto simp: line_moves_def)
qed

lemma kitchen_lines_move_forward_witness:
  "\<exists>s' b. update_kot_order_status sample_clock 0 1 KotStatus_preparing 9 (sample_kitchen KotStatus_pending) = Inr s' \<and>
    kot_line_status s' 2 = Some b \<and> (b \<noteq> KotStatus_cancelled \<longrightarrow> 0 \<le> KOT_STATUS_PRIORITY b)"
proof -
  obtain s' where s': "update_kot_order_status sample_clock 0 1 KotStatus_preparing 9 (sample_kitchen KotStatus_pending) = Inr s'"
    by (simp add: update_kot_order_status_def get_kot_order_for_update_def sample_kitchen_def sample_ticket_def
        empty_db_def live_def is_valid_kot_status_transition_def Let_def)
  have run: "kot_step\<^sup>*\<^sup>* (sample_kitchen KotStatus_pending) s'" using kot_order [OF s'] by blast
  have "kot_line_status (sample_kitchen KotStatus_pending) 2 = Some KotStatus_pending"
    by (simp add: sample_kitchen_def sample_ticket_line_def)
  from kitchen_lines_move_forward [OF run sample_kitchen_inv this] s' show ?thesis by auto
qed

lemma held_tab_cancel_is_undone:
  \<comment> \<open>cancelling a held tab cancels its tickets but not their lines, so one more step of a line
    brings the ticket back\<close>
  "\<exists>s s'. s = cancel_kot_orders_for_sale sample_clock 1 40 (sample_kitchen KotStatus_pending) \<and>
     map ko_status (kot_orders s) = [KotStatus_cancelled] \<and>
     update_kot_order_line_status sample_clock 2 1 KotStatus_preparing 9 s = Inr s' \<and>
     map ko_status (kot_orders s') = [KotStatus_pending]"
  by (simp add: update_kot_order_line_status_def sample_kitchen_def sample_ticket_def sample_ticket_line_def
        cancel_kot_orders_for_sale_def live_def
        empty_db_def is_valid_kot_status_transition_def sync_kot_order_status_from_lines_def
        derive_kot_header_status_def kot_lines_of_def apply_header_timestamps_def set_line_status_def Let_def)


end
