(* ===== verification/Checkout.thy ===== *)
theory Checkout
  imports Tabs
begin

text \<open>
  The end of a dine-in tab in \<open>app/services/restaurant_tab_service.py\<close>: the bill is asked for, the
  tenders are settled against the tab's total, its lines leave the stock and its table is freed.
\<close>

section \<open>Bill and payment\<close>

definition request_tab_bill :: "clock \<Rightarrow> uuid \<Rightarrow> uuid \<Rightarrow> uuid \<Rightarrow> db \<Rightarrow> db res" where
  "request_tab_bill c bid sale_id user s =
     bind_res (get_business_config s bid) (\<lambda>config.
     bind_res (require_tab_feature_flags config [''enable_restaurant'', ''enable_table_management'']) (\<lambda>_.
     bind_res (get_tab_sale_for_update s sale_id bid) (\<lambda>sl.
     bind_res (assert_tab_mutable sl) (\<lambda>_.
     case s_table_id sl of
       None \<Rightarrow> bad_request ''Tab has no table assigned''
     | Some t \<Rightarrow>
         bind_res (get_dining_table_by_id s t bid) (\<lambda>table.
         bind_res (transition_table_status c table TableStatus_billing user False s) (\<lambda>(_, s).
           Inr (touch_sale c (row_id sl) user s)))))))"

record CompleteTabRequest =
  ct_register_shift_id :: "uuid option"
  ct_payments :: "CreatePaymentRequest list"
  ct_sold_at :: "datetime option"

definition costed_line :: "clock \<Rightarrow> decimal \<Rightarrow> decimal \<Rightarrow> sale_line \<Rightarrow> sale_line" where
  "costed_line c cost_per_unit short_qty l =
     l\<lparr>sln_cost_per_unit := cost_per_unit, sln_cost_estimated := 0 < short_qty, updated_at := now c\<rparr>"

definition complete_line :: "clock \<Rightarrow> uuid \<Rightarrow> uuid \<Rightarrow> uuid \<Rightarrow> datetime \<Rightarrow> sale_line \<Rightarrow> db \<Rightarrow> db res" where
  "complete_line c bid branch_id user sold_at line s =
     (let ((cost_per_unit, consumptions, short_qty), s) =
            allocate_sale_line_fifo c bid branch_id (sln_product_id line) (sln_variation_id line) (sln_qty line) s;
          s = s\<lparr>sale_lines := update_where (\<lambda>l. row_id l = row_id line) (costed_line c cost_per_unit short_qty)
                (sale_lines s)\<rparr>;
          s = create_sale_line_stock_movements c bid branch_id (sln_product_id line) (sln_variation_id line)
                (row_id line) consumptions user sold_at s
      in if 0 < short_qty then
           maybe_notify_fifo_shortfall c bid branch_id (sln_product_id line) (sln_variation_id line) (row_id line)
             (sln_qty line) (sln_qty line - short_qty) short_qty (fallback_cost consumptions) (Some user) s
         else Inr s)"

definition release_table_to_cleaning :: "clock \<Rightarrow> uuid \<Rightarrow> sale \<Rightarrow> uuid \<Rightarrow> db \<Rightarrow> db res" where
  "release_table_to_cleaning c bid sl user s =
     (case s_table_id sl of
        None \<Rightarrow> Inr s
      | Some t \<Rightarrow>
          bind_res (get_dining_table_by_id s t bid) (\<lambda>table.
            if dt_status table = TableStatus_billing then
              bind_res (transition_table_status c table TableStatus_cleaning user False s) (\<lambda>(_, s). Inr s)
            else if dt_status table = TableStatus_occupied then
              bind_res (transition_table_status c table TableStatus_cleaning user True s) (\<lambda>(_, s). Inr s)
            else Inr s))"

definition tab_line_item :: "sale_line \<Rightarrow> item" where
  "tab_line_item l = (sln_product_id l, sln_variation_id l)"

definition finish_tab :: "clock \<Rightarrow> uuid \<Rightarrow> SaleStatusEnum \<Rightarrow> datetime \<Rightarrow> uuid \<Rightarrow> sale \<Rightarrow> sale" where
  "finish_tab c shift_id st sold_at user r =
     r\<lparr>s_register_shift_id := Some shift_id, s_status := st, s_sold_at := sold_at,
       updated_by := Some user, updated_at := now c\<rparr>"

definition write_tab ::
  "clock \<Rightarrow> uuid \<Rightarrow> sale \<Rightarrow> sale_line list \<Rightarrow> uuid \<Rightarrow> Settlement \<Rightarrow> decimal \<Rightarrow> datetime \<Rightarrow> uuid \<Rightarrow> db \<Rightarrow> db res" where
  \<comment> \<open>what \<open>complete_tab\<close> does once every check has passed\<close>
  "write_tab c bid sl active_lines shift_id settlement total_amount sold_at user s =
     bind_res (fold_res (complete_line c bid (s_branch_id sl) user sold_at) active_lines s) (\<lambda>s.
       let s = fold (add_payment c bid user (row_id sl) shift_id) (se_payments settlement) s;
           s = charge_account c bid user (s_customer_id sl) (row_id sl) (se_credit_amount settlement) s;
           s = s\<lparr>sales := update_where (\<lambda>r. row_id r = row_id sl) (finish_tab c shift_id
                 (determine_sale_status total_amount (se_total_applied settlement)) sold_at user) (sales s)\<rparr>
       in release_table_to_cleaning c bid sl user s)"

definition complete_tab ::
  "clock \<Rightarrow> uuid \<Rightarrow> uuid \<Rightarrow> CompleteTabRequest \<Rightarrow> uuid \<Rightarrow> db \<Rightarrow> db res" where
  "complete_tab c bid sale_id data user s =
     bind_res (get_business_config s bid) (\<lambda>config.
     bind_res (require_tab_feature_flags config [''enable_restaurant'', ''enable_table_management'']) (\<lambda>_.
     bind_res (get_allow_negative_stock s bid) (\<lambda>allow_negative.
     bind_res (get_tab_sale_for_update s sale_id bid) (\<lambda>sl.
     bind_res (assert_tab_mutable sl) (\<lambda>_.
     let active_lines = tab_lines s sl in
     if active_lines = [] then bad_request ''Tab has no lines to complete''
     else
     bind_res (require_caller_shift s bid user (Some (s_branch_id sl)) (ct_register_shift_id data)
                 ''complete this tab'') (\<lambda>shift.
     let total_amount = tab_invoice_total s sl in
     bind_res (settle_payments total_amount (ct_payments data) True) (\<lambda>settlement.
     if se_total_applied settlement < total_amount then bad_request ''Payments do not cover tab total''
     else
     bind_res (check_credit s bid (s_customer_id sl) (se_credit_amount settlement)) (\<lambda>_.
     bind_res (if allow_negative then Inr ()
               else assert_stock_available s bid (s_branch_id sl)
                      (map (\<lambda>l. (tab_line_item l, sln_qty l)) active_lines)) (\<lambda>_.
       write_tab c bid sl active_lines (row_id shift) settlement total_amount
         (or_else (ct_sold_at data) (now c)) user s)))))))))"

section \<open>What paying a tab does\<close>

lemma complete_line_ok:
  assumes "complete_line c bid br user sold_at l s = Inr s'" "stock_ok d s" "0 \<le> sln_qty l"
  shows "stock_ok d s' \<and>
    (\<forall>k. stock_at s' k = stock_at s k - (if k = item_at bid br (tab_line_item l) then sln_qty l else 0)) \<and>
    (\<exists>pls f ms nts n. s' = s\<lparr>uuid_next := n, purchase_lines := pls, movements := ms, notifications := nts,
       sale_lines := update_where (\<lambda>x. row_id x = row_id l) f (sale_lines s)\<rparr> \<and> (\<forall>x. sln_sale_id (f x) = sln_sale_id x))"
proof -
  let ?k = "(bid, br, sln_product_id l, sln_variation_id l)"
  obtain w cs sh t where t: "allocate_sale_line_fifo c bid br (sln_product_id l) (sln_variation_id l) (sln_qty l) s
      = ((w, cs, sh), t)" by (metis prod_cases3 surj_pair)
  note A = allocate_sale_line_fifo_ok [OF assms(2,3) t]
  obtain pls where T: "t = s\<lparr>purchase_lines := pls\<rparr>" using A by blast
  define t1 where "t1 = t\<lparr>sale_lines := update_where (\<lambda>x. row_id x = row_id l) (costed_line c w sh) (sale_lines t)\<rparr>"
  define u where "u = create_sale_line_stock_movements c bid br (sln_product_id l) (sln_variation_id l) (row_id l) cs user sold_at t1"
  have ok1: "stock_ok (\<lambda>i. d i + taken cs i) t1"
    by (rule stock_ok_frame [OF A [THEN conjunct1]]) (simp_all add: t1_def drawn_def)
  have lay: "\<forall>x\<in>set cs. layered (purchase_lines t1) ?k (fc_purchase_line_id x)" using A by (simp add: t1_def)
  note M = slice_movements_ok [OF ok1 lay, OF u_def [symmetric, unfolded create_sale_line_stock_movements_def]]
  have "(\<lambda>i. d i + taken cs i - taken cs i) = d" by auto
  then have okd: "stock_ok d u" using M by simp
  obtain ms n where U: "u = t1\<lparr>uuid_next := n, movements := ms\<rparr>" using M by blast
  have q: "sum_list (map fc_qty cs) = sln_qty l" using A by blast
  have bal: "stock_at u k = stock_at s k - (if k = ?k then sln_qty l else 0)" for k
    using run_slices [OF M [THEN conjunct2, THEN conjunct1], of k] by (simp add: q stock_at_sum t1_def T)
  have "\<exists>ns m. s' = u\<lparr>uuid_next := m, notifications := ns\<rparr> \<and> uuid_next u \<le> m"
  proof (cases "0 < sh")
    case True
    then have "maybe_notify_fifo_shortfall c bid br (sln_product_id l) (sln_variation_id l) (row_id l) (sln_qty l)
        (sln_qty l - sh) sh (fallback_cost cs) (Some user) u = Inr s'"
      using assms(1) by (simp add: complete_line_def t Let_def t1_def [symmetric] u_def [symmetric])
    then show ?thesis using maybe_notify_fifo_shortfall_frame by blast
  next
    case False
    then have "s' = u" using assms(1) by (simp add: complete_line_def t Let_def t1_def [symmetric] u_def [symmetric])
    then show ?thesis by (intro exI [of _ "notifications u"] exI [of _ "uuid_next u"]) simp
  qed
  then obtain nts m where S: "s' = u\<lparr>uuid_next := m, notifications := nts\<rparr>" "uuid_next u \<le> m" by blast
  have "stock_ok d s'" by (rule stock_ok_frame [OF okd]) (use S in \<open>auto simp: drawn_def\<close>)
  moreover have "stock_at s' k = stock_at u k" for k by (simp add: S(1) stock_at_sum)
  moreover have "s' = s\<lparr>uuid_next := m, purchase_lines := pls, movements := ms, notifications := nts,
       sale_lines := update_where (\<lambda>x. row_id x = row_id l) (costed_line c w sh) (sale_lines s)\<rparr>"
    by (simp add: S(1) U t1_def T)
  moreover have "\<forall>x. sln_sale_id (costed_line c w sh x) = sln_sale_id x" by (simp add: costed_line_def)
  ultimately show ?thesis using bal by (simp add: item_at_def tab_line_item_def) blast
qed

lemma complete_lines_ok:
  assumes "fold_res (complete_line c bid br user sold_at) ls s = Inr s'" "stock_ok d s" "\<forall>l\<in>set ls. 0 \<le> sln_qty l"
  shows "stock_ok d s' \<and>
    (\<forall>k. stock_at s' k = stock_at s k - sum_where sln_qty (\<lambda>l. item_at bid br (tab_line_item l) = k) ls) \<and>
    (\<exists>pls sls ms nts n. s' = s\<lparr>uuid_next := n, purchase_lines := pls, movements := ms, notifications := nts,
       sale_lines := sls\<rparr>)"
  using assms
proof (induction ls arbitrary: s)
  case Nil
  then show ?case
    by (auto intro!: exI [of _ "purchase_lines s"] exI [of _ "movements s"] exI [of _ "notifications s"]
        exI [of _ "uuid_next s"] exI [of _ "sale_lines s"])
next
  case (Cons l ls)
  obtain t where t: "complete_line c bid br user sold_at l s = Inr t"
    "fold_res (complete_line c bid br user sold_at) ls t = Inr s'"
    using Cons.prems(1) by (auto simp: bind_res_Inr)
  have q: "0 \<le> sln_qty l" using Cons.prems(3) by simp
  note L = complete_line_ok [OF t(1) Cons.prems(2) q]
  have "stock_ok d t" "\<forall>l\<in>set ls. 0 \<le> sln_qty l" using L Cons.prems(3) by auto
  note IH = Cons.IH [OF t(2) this]
  obtain pls sls ms nts n where T: "t = s\<lparr>uuid_next := n, purchase_lines := pls, movements := ms,
      notifications := nts, sale_lines := sls\<rparr>" using L by blast
  obtain pls' sls' ms' nts' n' where S: "s' = t\<lparr>uuid_next := n', purchase_lines := pls', movements := ms',
      notifications := nts', sale_lines := sls'\<rparr>" using IH by blast
  have "s' = s\<lparr>uuid_next := n', purchase_lines := pls', movements := ms', notifications := nts', sale_lines := sls'\<rparr>"
    by (simp add: S T)
  moreover have "stock_at s' k = stock_at s k - sum_where sln_qty (\<lambda>l. item_at bid br (tab_line_item l) = k) (l # ls)" for k
    using L [THEN conjunct2, THEN conjunct1, THEN spec, of k] IH [THEN conjunct2, THEN conjunct1, THEN spec, of k] by auto
  ultimately show ?case using IH by blast
qed

lemma release_table_frame:
  assumes "release_table_to_cleaning c bid sl user s = Inr s'"
  obtains ts where "s' = s\<lparr>dining_tables := ts\<rparr>"
  using assms that [of "dining_tables s"]
  by (auto simp: release_table_to_cleaning_def transition_table_status_def bind_res_Inr Let_def
      split: option.splits if_splits)

definition tab_paid :: "uuid \<Rightarrow> sale \<Rightarrow> sale_line list \<Rightarrow> uuid \<Rightarrow> Settlement \<Rightarrow> db \<Rightarrow> db \<Rightarrow> bool" where
  \<comment> \<open>stock, accounts, drawers and payments after the tab \<open>sl\<close> was paid\<close>
  "tab_paid bid sl ls sh se s s' \<longleftrightarrow>
     (\<forall>k. stock_at s' k = stock_at s k -
        sum_where sln_qty (\<lambda>l. item_at bid (s_branch_id sl) (tab_line_item l) = k) ls) \<and>
     (\<forall>k. customer_account s' k = customer_account s k -
        (if 0 < se_credit_amount se \<and> s_customer_id sl = Some (snd k) \<and> fst k = bid then se_credit_amount se else 0)) \<and>
     (\<forall>k. drawer s' k = drawer s k + (if k = (bid, sh) then sum_list (map cash_part (se_payments se)) else 0)) \<and>
     (\<exists>ps. sale_payments s' = sale_payments s @ ps \<and> list_all2 (payment_of bid (row_id sl)) (se_payments se) ps)"

lemma write_tab_ok:
  assumes "write_tab c bid sl ls sh se tot sold_at user s = Inr s'" "reconciled s" "\<forall>l\<in>set ls. 0 \<le> sln_qty l"
  shows "reconciled s' \<and> tab_paid bid sl ls sh se s s' \<and>
    sales s' = update_where (\<lambda>r. row_id r = row_id sl)
      (finish_tab c sh (determine_sale_status tot (se_total_applied se)) sold_at user) (sales s)"
proof -
  let ?fin = "update_where (\<lambda>r. row_id r = row_id sl)
      (finish_tab c sh (determine_sale_status tot (se_total_applied se)) sold_at user)"
  obtain s1 where s1: "fold_res (complete_line c bid (s_branch_id sl) user sold_at) ls s = Inr s1"
    using assms(1) by (auto simp: write_tab_def bind_res_Inr)
  define s2 where "s2 = fold (add_payment c bid user (row_id sl) sh) (se_payments se) s1"
  define s3 where "s3 = charge_account c bid user (s_customer_id sl) (row_id sl) (se_credit_amount se) s2"
  have "release_table_to_cleaning c bid sl user (s3\<lparr>sales := ?fin (sales s3)\<rparr>) = Inr s'"
    using assms(1) by (simp add: write_tab_def s1 Let_def s2_def [symmetric] s3_def [symmetric])
  then obtain ts where S': "s' = s3\<lparr>sales := ?fin (sales s3), dining_tables := ts\<rparr>"
    by (elim release_table_frame) simp
  note L = complete_lines_ok [OF s1 assms(2,3)]
  obtain pls sls ms nts n where S1: "s1 = s\<lparr>uuid_next := n, purchase_lines := pls, movements := ms,
      notifications := nts, sale_lines := sls\<rparr>" using L by blast
  obtain ps txs where P: "list_all2 (payment_of bid (row_id sl)) (se_payments se) ps"
    "s2 = s1\<lparr>uuid_next := uuid_next s1 + 2 * length (se_payments se), sale_payments := sale_payments s1 @ ps,
      register_txs := register_txs s1 @ txs\<rparr>"
    "drawer.run (map (\<lambda>ap. ((bid, sh), cash_part ap)) (se_payments se)) s1 s2"
    using add_payments [OF s2_def [symmetric]] by blast
  note C = charge_account_eq [OF s3_def [symmetric]]
  obtain es m where S3: "s3 = s2\<lparr>uuid_next := m, customer_ledgers := es\<rparr>" "uuid_next s2 \<le> m" using C(1) by blast
  have "reconciled s'"
    by (rule stock_ok_frame [OF L [THEN conjunct1]]) (use S3(2) in \<open>auto simp: S' S3(1) P(2) drawn_def\<close>)
  moreover have "stock_at s' k = stock_at s1 k" for k by (simp add: S' S3 P(2) stock_at_sum)
  moreover have "customer_account s2 k = customer_account s k" "customer_account s' k = customer_account s3 k" for k
    by (simp_all add: customer_account_def S' P(2) S1)
  moreover have "drawer s' k = drawer s2 k" "drawer s1 k = drawer s k" for k
    by (simp_all add: drawer_def S' S3 S1)
  moreover have "sale_payments s' = sale_payments s @ ps" "sales s3 = sales s" by (simp_all add: S' S3 P(2) S1)
  ultimately show ?thesis
    using L C(2) run_cash [OF P(3)] P(1) unfolding tab_paid_def by (simp add: S')
qed

lemma complete_tab_Inr:
  assumes "complete_tab c bid sale_id data user s = Inr s'"
  obtains sl sh se allow where "get_tab_sale_for_update s sale_id bid = Inr sl" "s_status sl \<in> set ACTIVE_TAB_STATUSES"
    "get_allow_negative_stock s bid = Inr allow" "tab_lines s sl \<noteq> []"
    "require_caller_shift s bid user (Some (s_branch_id sl)) (ct_register_shift_id data) ''complete this tab'' = Inr sh"
    "settle_payments (tab_invoice_total s sl) (ct_payments data) True = Inr se"
    "tab_invoice_total s sl \<le> se_total_applied se"
    "check_credit s bid (s_customer_id sl) (se_credit_amount se) = Inr ()"
    "\<not> allow \<longrightarrow> assert_stock_available s bid (s_branch_id sl)
       (map (\<lambda>l. (tab_line_item l, sln_qty l)) (tab_lines s sl)) = Inr ()"
    "write_tab c bid sl (tab_lines s sl) (row_id sh) se (tab_invoice_total s sl) (or_else (ct_sold_at data) (now c)) user s = Inr s'"
proof -
  obtain sl allow where sl: "get_tab_sale_for_update s sale_id bid = Inr sl" "assert_tab_mutable sl = Inr ()"
    "get_allow_negative_stock s bid = Inr allow"
    using assms unfolding complete_tab_def bind_res_Inr by (auto split: if_splits)
  from assms obtain sh se where "tab_lines s sl \<noteq> []"
    "require_caller_shift s bid user (Some (s_branch_id sl)) (ct_register_shift_id data) ''complete this tab'' = Inr sh"
    "settle_payments (tab_invoice_total s sl) (ct_payments data) True = Inr se"
    "tab_invoice_total s sl \<le> se_total_applied se"
    "check_credit s bid (s_customer_id sl) (se_credit_amount se) = Inr ()"
    "\<not> allow \<longrightarrow> assert_stock_available s bid (s_branch_id sl)
       (map (\<lambda>l. (tab_line_item l, sln_qty l)) (tab_lines s sl)) = Inr ()"
    "write_tab c bid sl (tab_lines s sl) (row_id sh) se (tab_invoice_total s sl) (or_else (ct_sold_at data) (now c)) user s = Inr s'"
    unfolding complete_tab_def by (auto simp: Let_def bind_res_Inr sl not_less split: if_splits)
  moreover have "s_status sl \<in> set ACTIVE_TAB_STATUSES" using sl(2) by (simp add: assert_tab_mutable_def split: if_splits)
  ultimately show thesis using that sl by blast
qed

text \<open>
  C7. A tab that is paid was open and had lines; its tenders cover the lines' total, rounded to
  cents; every line's quantity leaves the stock of its item at the tab's branch and no other
  balance moves; the cash kept goes into the caller's own open drawer, the credit tender on the
  customer's account, one completed payment per applied tender is recorded, the sale is marked
  completed under that shift, and layers and movements stay reconciled.
\<close>

theorem complete_tab_correct:
  assumes "complete_tab c bid sale_id data user s = Inr s'" "reconciled s"
    and "\<forall>l\<in>set (sale_lines s). 0 \<le> sln_qty l"
  shows "\<exists>(sl :: sale) (sh :: register_shift) se. get_tab_sale_for_update s sale_id bid = Inr sl \<and>
    s_status sl \<in> set ACTIVE_TAB_STATUSES \<and> tab_lines s sl \<noteq> [] \<and>
    rs_opened_by sh = user \<and> rs_status sh = ShiftStatus_open \<and> rs_branch_id sh = s_branch_id sl \<and>
    settle_payments (tab_invoice_total s sl) (ct_payments data) True = Inr se \<and>
    tab_invoice_total s sl \<le> se_total_applied se \<and>
    reconciled s' \<and> tab_paid bid sl (tab_lines s sl) (row_id sh) se s s' \<and>
    (\<forall>r\<in>set (sales s'). row_id r = row_id sl \<longrightarrow>
       s_register_shift_id r = Some (row_id sh) \<and>
       (0 \<le> tab_invoice_total s sl \<longrightarrow> s_status r = SaleStatus_completed))"
proof -
  obtain sl se and sh :: register_shift where C: "get_tab_sale_for_update s sale_id bid = Inr sl"
    "s_status sl \<in> set ACTIVE_TAB_STATUSES" "tab_lines s sl \<noteq> []"
    "settle_payments (tab_invoice_total s sl) (ct_payments data) True = Inr se"
    "tab_invoice_total s sl \<le> se_total_applied se"
    and sh: "require_caller_shift s bid user (Some (s_branch_id sl)) (ct_register_shift_id data) ''complete this tab'' = Inr sh"
    and w: "write_tab c bid sl (tab_lines s sl) (row_id sh) se (tab_invoice_total s sl) (or_else (ct_sold_at data) (now c)) user s = Inr s'"
    using assms(1) by (rule complete_tab_Inr)
  have "rs_opened_by sh = user \<and> rs_status sh = ShiftStatus_open \<and> rs_branch_id sh = s_branch_id sl"
    using sh by (auto simp: require_caller_shift_def first_row_def open_shift_of_def handler_simps
        filter_eq_Cons_iff split: list.splits if_splits)
  moreover have "\<forall>l\<in>set (tab_lines s sl). 0 \<le> sln_qty l" using assms(3) by (simp add: tab_lines_def lines_of_def)
  note W = write_tab_ok [OF w assms(2) this]
  moreover have "\<forall>r\<in>set (sales s'). row_id r = row_id sl \<longrightarrow>
      s_register_shift_id r = Some (row_id sh) \<and>
      (0 \<le> tab_invoice_total s sl \<longrightarrow> s_status r = SaleStatus_completed)"
    using W C(5) by (auto simp: set_update_where finish_tab_def determine_sale_status_def)
  ultimately show ?thesis using C by blast
qed

definition sample_config :: business_config where
  \<comment> \<open>a restaurant with tables and tickets, its stock not to fall below zero\<close>
  "sample_config = new_row 3 1 None 0
     \<lparr>allow_negative_stock = False, enable_restaurant = True, enable_manufacturing = False,
      enable_loyalty = False, enable_multi_price_list = False, enable_batch_tracking = False,
      enable_expiry_tracking = False, enable_weight_billing = False, enable_table_management = True,
      enable_kot = True, enable_offline_mode = False, enable_accounting = False,
      default_tax_inclusive = False, fifo_costing_enabled = True, receipt_prefix = None,
      invoice_prefix = None, po_prefix = None,
      config_json = [(''enable_restaurant'', JBool True), (''enable_table_management'', JBool True),
                     (''enable_kot'', JBool True)]\<rparr>"

definition sample_tab :: sale where
  "sample_tab = (sample_invoice SaleStatus_held)\<lparr>s_sale_type := SaleType_dine_in, s_table_id := Some 7\<rparr>"

definition sample_dining :: db where
  \<comment> \<open>table 7 wants to pay for the three units of sale line 70\<close>
  "sample_dining = sample_store\<lparr>business_configs := [sample_config], sales := [sample_tab],
     sale_lines := [sample_invoice_line], dining_tables := [sample_table 7 TableStatus_billing]\<rparr>"

definition sample_payment :: CompleteTabRequest where
  "sample_payment = \<lparr>ct_register_shift_id = None,
     ct_payments = [\<lparr>pay_method = PaymentMethod_cash, pay_amount = 40, pay_reference_no = None, pay_paid_at = None\<rparr>],
     ct_sold_at = None\<rparr>"

lemma sample_tab_paid:
  "(case complete_tab sample_clock 1 60 sample_payment 9 sample_dining of Inl e \<Rightarrow> False
    | Inr s' \<Rightarrow> map dt_status (dining_tables s') = [TableStatus_cleaning] \<and> map sp_change_given (sale_payments s') = [10])"
  by code_simp

lemma complete_tab_correct_witness:
  "\<exists>s'. complete_tab sample_clock 1 60 sample_payment 9 sample_dining = Inr s' \<and> reconciled s' \<and>
     stock_at s' (1, 2, 5, None) = stock_at sample_dining (1, 2, 5, None) - 3"
proof -
  obtain s' where s': "complete_tab sample_clock 1 60 sample_payment 9 sample_dining = Inr s'"
    using sample_tab_paid by (auto split: sum.splits)
  have ok: "reconciled sample_dining"
    by (rule stock_ok_frame [OF sample_store_ok]) (simp_all add: sample_dining_def drawn_def)
  have "\<forall>l\<in>set (sale_lines sample_dining). 0 \<le> sln_qty l"
    by (simp add: sample_dining_def sample_invoice_line_def)
  from complete_tab_correct [OF s' ok this] obtain sl :: sale and sh se where x:
    "get_tab_sale_for_update sample_dining 60 1 = Inr sl" "reconciled s'"
    "tab_paid 1 sl (tab_lines sample_dining sl) sh se sample_dining s'" by blast
  have "sl = sample_tab"
    using x(1) by (simp add: get_tab_sale_for_update_def sample_dining_def sample_tab_def sample_invoice_def live_def)
  moreover have "tab_lines sample_dining sample_tab = [sample_invoice_line]" "s_branch_id sample_tab = 2"
    by (simp_all add: tab_lines_def lines_of_def sample_dining_def sample_tab_def sample_invoice_def
        sample_invoice_line_def live_def)
  ultimately have "stock_at s' (1, 2, 5, None) = stock_at sample_dining (1, 2, 5, None) -
      sum_where sln_qty (\<lambda>l. item_at 1 2 (tab_line_item l) = (1, 2, 5, None)) [sample_invoice_line]"
    using x(3) by (simp add: tab_paid_def del: sum_where_simps One_nat_def)
  then show ?thesis using s' x(2) by (simp add: item_at_def tab_line_item_def sample_invoice_line_def)
qed

lemma sample_tab_fired:
  "(case fire_tab_to_kitchen sample_clock 1 60 None None 9 sample_dining of Inl e \<Rightarrow> False
    | Inr (r, s') \<Rightarrow> map kol_sale_line_id (kot_order_lines s') = [Some 70])"
  by code_simp


end
