(* ===== verification/Documents.thy ===== *)
theory Documents
  imports Sales "HOL-Library.AList"
begin

text \<open>
  The stock documents: \<open>app/services/transfer_service.py\<close> (goods leave one branch when the transfer is
  made and enter the other when it is received), \<open>app/services/adjustment_service.py\<close> and
  \<open>app/services/waste_service.py\<close>. Each writes its lines one by one, taking from or opening cost
  layers; a request's unit costs are ignored, costs come from the layers.
\<close>

section \<open>Lines\<close>

definition verify_lines :: "db \<Rightarrow> uuid \<Rightarrow> item list \<Rightarrow> unit res" where
  "verify_lines s bid items =
     check_each (\<lambda>(product_id, variation_id). bind_res (verify_product s product_id bid) (\<lambda>_.
       case variation_id of
         None \<Rightarrow> Inr ()
       | Some v \<Rightarrow> bind_res (verify_variation s v product_id bid) (\<lambda>_. Inr ()))) items"

section \<open>Transfers\<close>

record CreateTransferLineRequest =
  ctl_product_id :: uuid
  ctl_variation_id :: "uuid option"
  ctl_qty :: decimal

record CreateStockTransferRequest =
  ctr_source_branch_id :: uuid
  ctr_dest_branch_id :: uuid
  ctr_notes :: "string option"
  ctr_lines :: "CreateTransferLineRequest list"

definition valid_transfer :: "CreateStockTransferRequest \<Rightarrow> bool" where
  "valid_transfer data \<longleftrightarrow> ctr_source_branch_id data \<noteq> ctr_dest_branch_id data \<and> ctr_lines data \<noteq> [] \<and>
     (\<forall>l\<in>set (ctr_lines data). 0 < ctl_qty l)"

definition ctl_item :: "CreateTransferLineRequest \<Rightarrow> item" where
  "ctl_item l = (ctl_product_id l, ctl_variation_id l)"

definition transfer_load :: "uuid \<Rightarrow> uuid option \<Rightarrow> string option \<Rightarrow> stock_transfer \<Rightarrow> bool" where
  "transfer_load bid branch_id st r \<longleftrightarrow> business_id r = bid \<and> live r \<and>
     (case branch_id of None \<Rightarrow> True | Some b \<Rightarrow> st_source_branch_id r = b \<or> st_dest_branch_id r = b) \<and>
     (case st of None \<Rightarrow> True | Some x \<Rightarrow> TransferStatusEnum_value (st_status r) = x)"

definition get_stock_transfers ::
  "db \<Rightarrow> uuid \<Rightarrow> uuid option \<Rightarrow> string option \<Rightarrow> nat \<Rightarrow> nat \<Rightarrow> stock_transfer list \<times> nat" where
  "get_stock_transfers s bid branch_id st skip limit =
     (let rows = filter (transfer_load bid branch_id st) (transfers s)
      in (take limit (drop skip (sort_key (\<lambda>r. - created_at r) rows)), length rows))"

definition get_stock_transfer_by_id :: "db \<Rightarrow> uuid \<Rightarrow> uuid \<Rightarrow> stock_transfer res" where
  "get_stock_transfer_by_id s transfer_id bid =
     require_one (HTTPException 404 ''Stock transfer not found'' [])
       (filter (\<lambda>r. row_id r = transfer_id \<and> business_id r = bid \<and> live r) (transfers s))"

definition check_source_stock :: "db \<Rightarrow> uuid \<Rightarrow> uuid \<Rightarrow> (item \<times> decimal) list \<Rightarrow> unit res" where
  "check_source_stock s bid source demand =
     check_each (\<lambda>((product_id, variation_id), qty).
       let available = get_stock_balance s bid source product_id variation_id in
       if available < qty then
         bind_res (verify_product s product_id bid) (\<lambda>product.
           Inl (HTTPException 400 ''Insufficient stock at source branch for {}. Available: {}, Required: {}''
             [AStr (p_name product), ADec available, ADec qty]))
       else Inr ()) demand"

definition dispatch_line ::
  "clock \<Rightarrow> uuid \<Rightarrow> uuid \<Rightarrow> uuid \<Rightarrow> uuid \<Rightarrow> CreateTransferLineRequest \<Rightarrow> db \<Rightarrow> db" where
  "dispatch_line c bid source transfer_id user data s =
     (let (i, s) = fresh_uuid s;
          line = new_row i bid (Some user) (now c)
            \<lparr>stl_stock_transfer_id = transfer_id, stl_product_id = ctl_product_id data,
             stl_variation_id = ctl_variation_id data, stl_qty = ctl_qty data, stl_cost_per_unit = 0,
             stl_qty_received = 0\<rparr>;
          s = s\<lparr>transfer_lines := transfer_lines s @ [line]\<rparr>;
          ((weighted, _, _), s) = consume_to_movements c bid source (ctl_product_id data) (ctl_variation_id data)
            (ctl_qty data) StockMovementType_transfer_out ReferenceType_stock_transfer_line i user (now c)
            None None None s
      in s\<lparr>transfer_lines := update_where (\<lambda>r. row_id r = i) (\<lambda>r. r\<lparr>stl_cost_per_unit := weighted\<rparr>)
             (transfer_lines s)\<rparr>)"

definition create_stock_transfer ::
  "clock \<Rightarrow> uuid \<Rightarrow> CreateStockTransferRequest \<Rightarrow> uuid \<Rightarrow> db \<Rightarrow> (stock_transfer \<times> db) res" where
  "create_stock_transfer c bid data user s =
     bind_res (verify_branch s (ctr_source_branch_id data) bid) (\<lambda>_.
     bind_res (verify_branch s (ctr_dest_branch_id data) bid) (\<lambda>_.
     bind_res (verify_lines s bid (map ctl_item (ctr_lines data))) (\<lambda>_.
     bind_res (check_source_stock s bid (ctr_source_branch_id data)
                 (demand_of (map (\<lambda>l. (ctl_item l, ctl_qty l)) (ctr_lines data)))) (\<lambda>_.
       let (transfer_number, s) = generate_document_number c bid ''TRF'' s;
           (i, s) = fresh_uuid s;
           transfer = new_row i bid (Some user) (now c)
             \<lparr>st_transfer_number = transfer_number, st_source_branch_id = ctr_source_branch_id data,
              st_dest_branch_id = ctr_dest_branch_id data, st_status = TransferStatus_draft,
              st_transferred_at = None, st_received_at = None, st_notes = ctr_notes data\<rparr>;
           s = s\<lparr>transfers := transfers s @ [transfer]\<rparr>;
           s = fold (dispatch_line c bid (ctr_source_branch_id data) i user) (ctr_lines data) s;
           dispatched = (\<lambda>r. r\<lparr>st_status := TransferStatus_in_transit, st_transferred_at := Some (now c),
                          updated_by := Some user, updated_at := now c\<rparr>)
       in Inr (dispatched transfer,
               s\<lparr>transfers := update_where (\<lambda>r. row_id r = i) dispatched (transfers s)\<rparr>)))))"

definition slice_order :: "stock_movement \<Rightarrow> (nat \<times> nat) \<times> datetime \<times> uuid" where
  \<comment> \<open>\<open>ORDER BY movement_sequence NULLS LAST, created_at, id\<close>\<close>
  "slice_order m =
     ((case sm_movement_sequence m of Some k \<Rightarrow> (0, k) | None \<Rightarrow> (1, 0)), created_at m, row_id m)"

definition transfer_slices :: "db \<Rightarrow> uuid \<Rightarrow> uuid \<Rightarrow> stock_movement list" where
  "transfer_slices s bid line_id =
     sort_key slice_order
       (filter (\<lambda>m. business_id m = bid \<and> sm_movement_type m = StockMovementType_transfer_out \<and>
          sm_reference_type m = ReferenceType_stock_transfer_line \<and> sm_reference_id m = line_id \<and> live m)
          (movements s))"

definition receive_slice ::
  "clock \<Rightarrow> uuid \<Rightarrow> uuid \<Rightarrow> stock_transfer_line \<Rightarrow> uuid \<Rightarrow> nat \<times> stock_movement \<Rightarrow> db \<Rightarrow> db" where
  "receive_slice c bid dest line user = (\<lambda>(index, out) s.
     let qty = \<bar>sm_qty out\<bar>;
         cost = sm_cost_per_unit out;
         (layer, s) = create_fifo_layer c bid dest (stl_product_id line) (stl_variation_id line) qty cost user
           ''transfer'' (Some (now c + int index)) (sm_batch_number out) (sm_expiry_date out) s
     in snd (create_stock_movement c bid dest (stl_product_id line) (stl_variation_id line)
          StockMovementType_transfer_in qty cost ReferenceType_stock_transfer_line (row_id line) user
          (Some (row_id layer)) (sm_batch_number out) (sm_expiry_date out) None (Some (now c)) (Some index) s))"

definition receive_line ::
  "clock \<Rightarrow> uuid \<Rightarrow> uuid \<Rightarrow> uuid \<Rightarrow> stock_transfer_line \<Rightarrow> db \<Rightarrow> db" where
  "receive_line c bid dest user line s =
     (if \<not> live line then s
      else
        let s = fold (receive_slice c bid dest line user) (enumerate 0 (transfer_slices s bid (row_id line))) s
        in s\<lparr>transfer_lines := update_where (\<lambda>r. row_id r = row_id line)
               (\<lambda>r. r\<lparr>stl_qty_received := stl_qty r, updated_at := now c\<rparr>) (transfer_lines s)\<rparr>)"

definition receive_stock_transfer ::
  "clock \<Rightarrow> uuid \<Rightarrow> uuid \<Rightarrow> uuid \<Rightarrow> uuid set option option \<Rightarrow> db \<Rightarrow> db res" where
  \<comment> \<open>\<open>receiver\<close>: the branches the receiving user may access, if a user is given and is restricted\<close>
  "receive_stock_transfer c transfer_id bid user receiver s =
     bind_res (get_stock_transfer_by_id s transfer_id bid) (\<lambda>transfer.
     if st_status transfer \<noteq> TransferStatus_in_transit
     then bad_request ''Transfer must be in_transit to receive''
     else if (case receiver of Some (Some allowed) \<Rightarrow> st_dest_branch_id transfer \<notin> allowed | _ \<Rightarrow> False)
     then forbidden ''Only staff of the destination branch can receive this transfer''
     else
       let lines = filter (\<lambda>l. stl_stock_transfer_id l = row_id transfer) (transfer_lines s);
           s = fold (receive_line c bid (st_dest_branch_id transfer) user) lines s
       in Inr (s\<lparr>transfers := update_where (\<lambda>r. row_id r = row_id transfer)
            (\<lambda>r. r\<lparr>st_status := TransferStatus_received, st_received_at := Some (now c),
               updated_by := Some user, updated_at := now c\<rparr>) (transfers s)\<rparr>))"

section \<open>Adjustments\<close>

record CreateAdjustmentLineRequest =
  cal_product_id :: uuid
  cal_variation_id :: "uuid option"
  cal_qty_delta :: decimal
  cal_cost_per_unit :: "decimal option"
  cal_notes :: "string option"

record CreateStockAdjustmentRequest =
  caj_branch_id :: uuid
  caj_reason :: AdjustmentReasonEnum
  caj_notes :: "string option"
  caj_adjusted_at :: "datetime option"
  caj_lines :: "CreateAdjustmentLineRequest list"

definition valid_adjustment :: "CreateStockAdjustmentRequest \<Rightarrow> bool" where
  "valid_adjustment data \<longleftrightarrow> caj_lines data \<noteq> [] \<and> (\<forall>l\<in>set (caj_lines data). cal_qty_delta l \<noteq> 0 \<and>
     (case cal_cost_per_unit l of None \<Rightarrow> True | Some x \<Rightarrow> 0 \<le> x))"

definition cal_item :: "CreateAdjustmentLineRequest \<Rightarrow> item" where
  "cal_item l = (cal_product_id l, cal_variation_id l)"

definition get_stock_adjustments ::
  "db \<Rightarrow> uuid \<Rightarrow> uuid option \<Rightarrow> nat \<Rightarrow> nat \<Rightarrow> stock_adjustment list \<times> nat" where
  "get_stock_adjustments s bid branch_id skip limit =
     (let rows = filter (\<lambda>r. business_id r = bid \<and> live r \<and>
            (case branch_id of None \<Rightarrow> True | Some b \<Rightarrow> sa_branch_id r = b)) (adjustments s)
      in (take limit (drop skip (sort_key (\<lambda>r. - sa_adjusted_at r) rows)), length rows))"

definition get_stock_adjustment_by_id :: "db \<Rightarrow> uuid \<Rightarrow> uuid \<Rightarrow> stock_adjustment res" where
  "get_stock_adjustment_by_id s adj_id bid =
     require_one (HTTPException 404 ''Stock adjustment not found'' [])
       (filter (\<lambda>r. row_id r = adj_id \<and> business_id r = bid \<and> live r) (adjustments s))"

definition adjustment_unit_cost ::
  "db \<Rightarrow> uuid \<Rightarrow> AdjustmentReasonEnum \<Rightarrow> CreateAdjustmentLineRequest \<Rightarrow> decimal" where
  \<comment> \<open>of goods an adjustment brings in\<close>
  "adjustment_unit_cost s bid reason data =
     (case (reason, cal_cost_per_unit data) of
        (AdjustmentReason_opening_balance, Some x) \<Rightarrow> x
      | _ \<Rightarrow> get_fallback_cost_per_unit s bid (cal_product_id data) (cal_variation_id data))"

definition adjust_line ::
  "clock \<Rightarrow> uuid \<Rightarrow> uuid \<Rightarrow> AdjustmentReasonEnum \<Rightarrow> datetime \<Rightarrow> uuid \<Rightarrow> uuid \<Rightarrow> CreateAdjustmentLineRequest \<Rightarrow> db \<Rightarrow> db" where
  "adjust_line c bid branch_id reason adjusted_at adjustment_id user data s =
     (let (i, s) = fresh_uuid s;
          line = new_row i bid (Some user) (now c)
            \<lparr>sal_stock_adjustment_id = adjustment_id, sal_product_id = cal_product_id data,
             sal_variation_id = cal_variation_id data, sal_qty_delta = cal_qty_delta data,
             sal_cost_per_unit = 0, sal_notes = cal_notes data\<rparr>;
          s = s\<lparr>adjustment_lines := adjustment_lines s @ [line]\<rparr>;
          (cost, s) =
            (if 0 < cal_qty_delta data then
               let unit_cost = adjustment_unit_cost s bid reason data;
                   (layer, s) = create_fifo_layer c bid branch_id (cal_product_id data) (cal_variation_id data)
                     (cal_qty_delta data) unit_cost user ''adjustment'' (Some adjusted_at) None None s
               in (pl_cost_per_unit layer,
                   snd (create_stock_movement c bid branch_id (cal_product_id data) (cal_variation_id data)
                     StockMovementType_adjustment_in (cal_qty_delta data) (pl_cost_per_unit layer)
                     ReferenceType_stock_adjustment_line i user (Some (row_id layer)) None None (cal_notes data)
                     (Some adjusted_at) None s))
             else
               let ((weighted, _, _), s) = consume_to_movements c bid branch_id (cal_product_id data)
                     (cal_variation_id data) \<bar>cal_qty_delta data\<bar> StockMovementType_adjustment_out
                     ReferenceType_stock_adjustment_line i user adjusted_at None None (cal_notes data) s
               in (weighted, s))
      in s\<lparr>adjustment_lines := update_where (\<lambda>r. row_id r = i) (\<lambda>r. r\<lparr>sal_cost_per_unit := cost\<rparr>)
             (adjustment_lines s)\<rparr>)"

record audit_line =
  aul_item :: item
  aul_qty_before :: decimal
  aul_qty_delta :: decimal
  aul_qty_after :: decimal

definition audit_step ::
  "CreateAdjustmentLineRequest \<Rightarrow> audit_line list \<times> (item \<rightharpoonup> decimal) \<Rightarrow> audit_line list \<times> (item \<rightharpoonup> decimal)" where
  "audit_step l = (\<lambda>(acc, running).
     let before = or_else (running (cal_item l)) 0
     in (acc @ [\<lparr>aul_item = cal_item l, aul_qty_before = before, aul_qty_delta = cal_qty_delta l,
                 aul_qty_after = before + cal_qty_delta l\<rparr>],
         running(cal_item l \<mapsto> before + cal_qty_delta l)))"

definition audit_lines_of :: "(item \<rightharpoonup> decimal) \<Rightarrow> CreateAdjustmentLineRequest list \<Rightarrow> audit_line list" where
  \<comment> \<open>with the running quantity of each item\<close>
  "audit_lines_of on_hand_before lines = fst (fold audit_step lines ([], on_hand_before))"

definition audit_line_json :: "audit_line \<Rightarrow> json" where
  "audit_line_json l = JObj [(''product_id'', JUuid (fst (aul_item l))),
     (''variation_id'', case snd (aul_item l) of None \<Rightarrow> JNull | Some v \<Rightarrow> JUuid v),
     (''qty_before'', JNum (aul_qty_before l)), (''qty_delta'', JNum (aul_qty_delta l)),
     (''qty_after'', JNum (aul_qty_after l))]"

definition uuid_key :: "uuid \<Rightarrow> string" where
  \<comment> \<open>a dict key \<open>str(product_id)\<close>, by its number\<close>
  "uuid_key u = digits u"

definition log_adjustment ::
  "uuid \<Rightarrow> CreateStockAdjustmentRequest \<Rightarrow> uuid \<Rightarrow> uuid \<Rightarrow> string \<Rightarrow> audit_line list \<Rightarrow> db \<Rightarrow> db" where
  "log_adjustment bid data user adjustment_id adjustment_number audit_lines s =
     log_audit bid (Some user) (Some (caj_branch_id data)) AuditAction_create ''stock_adjustments'' adjustment_id
       (Some [(''qty_before'', JObj (AList.updates (map (\<lambda>l. uuid_key (fst (aul_item l))) audit_lines)
          (map (\<lambda>l. JNum (aul_qty_before l)) audit_lines) []))])
       (Some [(''event'', JStr ''stock_adjustment''), (''adjustment_number'', JStr adjustment_number),
          (''reason'', JStr (AdjustmentReasonEnum_value (caj_reason data))),
          (''lines'', JList (map audit_line_json audit_lines))]) s"

definition create_stock_adjustment ::
  "clock \<Rightarrow> uuid \<Rightarrow> CreateStockAdjustmentRequest \<Rightarrow> uuid \<Rightarrow> db \<Rightarrow> (stock_adjustment \<times> db) res" where
  "create_stock_adjustment c bid data user s =
     (let adjusted_at = or_else (caj_adjusted_at data) (now c) in
     bind_res (get_allow_negative_stock s bid) (\<lambda>allow_negative.
     bind_res (verify_branch s (caj_branch_id data) bid) (\<lambda>_.
     bind_res (verify_lines s bid (map cal_item (caj_lines data))) (\<lambda>_.
     let on_hand_before = map_of (map (\<lambda>(p, v). ((p, v), get_stock_balance s bid (caj_branch_id data) p v))
           (map cal_item (caj_lines data))) in
     bind_res (if allow_negative then Inr ()
               else assert_stock_available s bid (caj_branch_id data)
                      (map (\<lambda>l. (cal_item l, \<bar>cal_qty_delta l\<bar>)) (filter (\<lambda>l. cal_qty_delta l < 0) (caj_lines data)))) (\<lambda>_.
       let (adjustment_number, s) = generate_document_number c bid ''ADJ'' s;
           (i, s) = fresh_uuid s;
           adjustment = new_row i bid (Some user) (now c)
             \<lparr>sa_branch_id = caj_branch_id data, sa_adjustment_number = adjustment_number,
              sa_reason = caj_reason data, sa_adjusted_at = adjusted_at, sa_notes = caj_notes data\<rparr>;
           s = s\<lparr>adjustments := adjustments s @ [adjustment]\<rparr>;
           s = fold (adjust_line c bid (caj_branch_id data) (caj_reason data) adjusted_at i user) (caj_lines data) s
       in Inr (adjustment, log_adjustment bid data user i adjustment_number
            (audit_lines_of on_hand_before (caj_lines data)) s))))))"

section \<open>Waste\<close>

record CreateWasteLineRequest =
  cwl_product_id :: uuid
  cwl_variation_id :: "uuid option"
  cwl_qty :: decimal
  cwl_batch_number :: "string option"
  cwl_expiry_date :: "date option"

record CreateWasteEntryRequest =
  cwe_branch_id :: uuid
  cwe_reason :: AdjustmentReasonEnum
  cwe_notes :: "string option"
  cwe_wasted_at :: "datetime option"
  cwe_lines :: "CreateWasteLineRequest list"

definition valid_waste :: "CreateWasteEntryRequest \<Rightarrow> bool" where
  "valid_waste data \<longleftrightarrow> cwe_lines data \<noteq> [] \<and> (\<forall>l\<in>set (cwe_lines data). 0 < cwl_qty l)"

definition cwl_item :: "CreateWasteLineRequest \<Rightarrow> item" where
  "cwl_item l = (cwl_product_id l, cwl_variation_id l)"

definition get_waste_entries ::
  "db \<Rightarrow> uuid \<Rightarrow> uuid option \<Rightarrow> nat \<Rightarrow> nat \<Rightarrow> waste_entry list \<times> nat" where
  "get_waste_entries s bid branch_id skip limit =
     (let rows = filter (\<lambda>r. business_id r = bid \<and> live r \<and>
            (case branch_id of None \<Rightarrow> True | Some b \<Rightarrow> we_branch_id r = b)) (wastes s)
      in (take limit (drop skip (sort_key (\<lambda>r. - we_wasted_at r) rows)), length rows))"

definition get_waste_entry_by_id :: "db \<Rightarrow> uuid \<Rightarrow> uuid \<Rightarrow> waste_entry res" where
  "get_waste_entry_by_id s waste_id bid =
     require_one (HTTPException 404 ''Waste entry not found'' [])
       (filter (\<lambda>r. row_id r = waste_id \<and> business_id r = bid \<and> live r) (wastes s))"

definition waste_line ::
  "clock \<Rightarrow> uuid \<Rightarrow> uuid \<Rightarrow> datetime \<Rightarrow> uuid \<Rightarrow> uuid \<Rightarrow> CreateWasteLineRequest \<Rightarrow> db \<Rightarrow> db" where
  "waste_line c bid branch_id wasted_at waste_id user data s =
     (let (i, s) = fresh_uuid s;
          line = new_row i bid (Some user) (now c)
            \<lparr>wel_waste_entry_id = waste_id, wel_product_id = cwl_product_id data,
             wel_variation_id = cwl_variation_id data, wel_qty = cwl_qty data, wel_cost_per_unit = 0,
             wel_batch_number = cwl_batch_number data, wel_expiry_date = cwl_expiry_date data\<rparr>;
          s = s\<lparr>waste_lines := waste_lines s @ [line]\<rparr>;
          ((weighted, _, _), s) = consume_to_movements c bid branch_id (cwl_product_id data) (cwl_variation_id data)
            (cwl_qty data) StockMovementType_waste ReferenceType_waste_entry_line i user wasted_at
            (cwl_batch_number data) (cwl_expiry_date data) None s
      in s\<lparr>waste_lines := update_where (\<lambda>r. row_id r = i) (\<lambda>r. r\<lparr>wel_cost_per_unit := weighted\<rparr>) (waste_lines s)\<rparr>)"

definition create_waste_entry ::
  "clock \<Rightarrow> uuid \<Rightarrow> CreateWasteEntryRequest \<Rightarrow> uuid \<Rightarrow> db \<Rightarrow> (waste_entry \<times> db) res" where
  "create_waste_entry c bid data user s =
     (let wasted_at = or_else (cwe_wasted_at data) (now c) in
     bind_res (get_allow_negative_stock s bid) (\<lambda>allow_negative.
     bind_res (verify_branch s (cwe_branch_id data) bid) (\<lambda>_.
     bind_res (verify_lines s bid (map cwl_item (cwe_lines data))) (\<lambda>_.
     bind_res (if allow_negative then Inr ()
               else assert_stock_available s bid (cwe_branch_id data)
                      (map (\<lambda>l. (cwl_item l, cwl_qty l)) (cwe_lines data))) (\<lambda>_.
       let (waste_number, s) = generate_document_number c bid ''WST'' s;
           (i, s) = fresh_uuid s;
           entry = new_row i bid (Some user) (now c)
             \<lparr>we_branch_id = cwe_branch_id data, we_waste_number = waste_number, we_wasted_at = wasted_at,
              we_reason = cwe_reason data, we_notes = cwe_notes data\<rparr>;
           s = s\<lparr>wastes := wastes s @ [entry]\<rparr>
       in Inr (entry, fold (waste_line c bid (cwe_branch_id data) wasted_at i user) (cwe_lines data) s))))))"

section \<open>What one line does to stock\<close>

definition moved :: "position \<Rightarrow> rat \<Rightarrow> db \<Rightarrow> db \<Rightarrow> bool" where
  \<comment> \<open>a reconciled stock changes at one position only, and stays reconciled\<close>
  "moved k a s s' \<longleftrightarrow> reconciled s \<and> reconciled s' \<and>
     (\<forall>k'. stock_at s' k' = stock_at s k' + (if k' = k then a else 0))"

interpretation goods: ledger stock_at moved
  by unfold_locales (auto simp: moved_def simp del: split_paired_All)

lemma moved_frame:
  \<comment> \<open>what is written around a movement of goods does not matter\<close>
  assumes "moved k a s t"
    and "purchase_lines r = purchase_lines s" "movements r = movements s" "uuid_gen r = uuid_gen s" "drawn r \<subseteq> drawn s"
    and "purchase_lines s' = purchase_lines t" "movements s' = movements t" "uuid_gen s' = uuid_gen t" "drawn t \<subseteq> drawn s'"
    and "reconciled r"
  shows "moved k a r s'"
  using assms stock_ok_frame [of "\<lambda>_. 0" t s'] by (simp add: moved_def stock_at_sum)

lemma moved_add: "moved k a s t \<Longrightarrow> moved k b t u \<Longrightarrow> moved k (a + b) s u"
  by (simp add: moved_def)

lemma moved_zero: "reconciled s \<Longrightarrow> moved k 0 s s"
  by (simp add: moved_def)

lemma sum_where_minus: "sum_where (\<lambda>x. - f x) P xs = - sum_where f P xs"
  by (induction xs) auto

lemma runs_reconciled: "goods.run es s s' \<Longrightarrow> reconciled s \<Longrightarrow> reconciled s'"
  by (induction es arbitrary: s) (auto simp: moved_def)

lemma runs_map_stock:
  "goods.run (map (\<lambda>x. (f x, g x)) xs) s s' \<Longrightarrow> stock_at s' k = stock_at s k + sum_where g (\<lambda>x. f x = k) xs"
  by (drule goods.run_balance [where k = k]) (simp add: sum_where_map comp_def)

definition out_row :: "uuid \<Rightarrow> uuid \<Rightarrow> StockMovementTypeEnum \<Rightarrow> ReferenceTypeEnum \<Rightarrow> uuid \<Rightarrow> stock_movement \<Rightarrow> bool" where
  "out_row bid br mt rt rid m \<longleftrightarrow> business_id m = bid \<and> live m \<and> sm_branch_id m = br \<and> sm_movement_type m = mt \<and>
     sm_reference_type m = rt \<and> sm_reference_id m = rid"

lemma slice_movements_rows:
  "\<exists>ms. fold (slice_movement c bid br p v mt rt rid user mat bat ex notes) xs s =
      s\<lparr>uuid_next := uuid_next s + length xs, movements := movements s @ ms\<rparr> \<and>
    (\<forall>m\<in>set ms. out_row bid br mt rt rid m) \<and> map sm_qty ms = map (\<lambda>x. - fc_qty (snd x)) xs"
proof (induction xs arbitrary: s)
  case Nil
  then show ?case by (intro exI [of _ "[]"]) simp
next
  case (Cons x xs)
  obtain n y where x: "x = (n, y)" by fastforce
  obtain m t where t: "create_stock_movement c bid br p v mt (- fc_qty y) (fc_cost_per_unit y) rt rid user
      (fc_purchase_line_id y) bat ex notes (Some mat) (Some n) s = (m, t)" by fastforce
  note E = create_stock_movement_eq [OF t]
  obtain ms where "fold (slice_movement c bid br p v mt rt rid user mat bat ex notes) xs t =
      t\<lparr>uuid_next := uuid_next t + length xs, movements := movements t @ ms\<rparr>"
    "\<forall>m\<in>set ms. out_row bid br mt rt rid m" "map sm_qty ms = map (\<lambda>x. - fc_qty (snd x)) xs" using Cons by blast
  moreover have "slice_movement c bid br p v mt rt rid user mat bat ex notes x s = t"
    by (simp add: slice_movement_def x t)
  ultimately show ?case using E(2-9)
    by (intro exI [of _ "m # ms"]) (simp add: E(1) x out_row_def position_of_def)
qed

lemma slices_nonneg:
  assumes "0 \<le> q" "allocate_sale_line_fifo c bid br p v q s = ((w, sl, short), s')"
  shows "\<forall>x\<in>set sl. 0 \<le> fc_qty x"
proof -
  obtain ls sh t where t: "consume_fifo_layers c bid br p v q s = (ls, sh, t)" by (metis prod_cases3)
  note E = consume_fifo_layers_eq [OF t assms(1)]
  have "0 < fc_qty (ls ! k)" if "k < length ls" for k
    using slices_of_shape [OF layers_at_pos assms(1)] that E by auto
  then have "\<forall>x\<in>set ls. 0 \<le> fc_qty x" by (auto simp: in_set_conv_nth less_imp_le)
  with assms(2) show ?thesis by (auto simp: allocate_sale_line_fifo_def t Let_def split: if_splits)
qed

lemma consume_to_movements_moves:
  assumes "reconciled s" "0 \<le> q"
    and "consume_to_movements c bid br p v q mt rt rid user mat bat ex notes s = (r, s')"
  obtains n ls ms where "s' = s\<lparr>uuid_next := n, purchase_lines := ls, movements := movements s @ ms\<rparr>"
    "uuid_next s \<le> n" "\<forall>m\<in>set ms. out_row bid br mt rt rid m" "sum_list (map (\<lambda>m. \<bar>sm_qty m\<bar>) ms) = q"
    "moved (bid, br, p, v) (- q) s s'"
proof -
  obtain w sl short where r: "r = (w, sl, short)" by (metis prod_cases3)
  obtain t where t: "allocate_sale_line_fifo c bid br p v q s = ((w, sl, short), t)"
    and s': "fold (slice_movement c bid br p v mt rt rid user mat bat ex notes) (enumerate 0 sl) t = s'"
    using assms(3) by (auto simp: consume_to_movements_def r split: prod.splits)
  note C = consume_to_movements_ok [OF assms(1,2) assms(3) [unfolded r]]
  obtain ls where ls: "t = s\<lparr>purchase_lines := ls\<rparr>"
    using allocate_sale_line_fifo_ok [OF assms(1,2) t] by blast
  obtain ms where ms: "s' = t\<lparr>uuid_next := uuid_next t + length (enumerate 0 sl), movements := movements t @ ms\<rparr>"
    "\<forall>m\<in>set ms. out_row bid br mt rt rid m" "map sm_qty ms = map (\<lambda>x. - fc_qty (snd x)) (enumerate 0 sl)"
    using slice_movements_rows [where xs = "enumerate 0 sl" and s = t] s' by metis
  have "map sm_qty ms = map (\<lambda>x. - fc_qty x) sl" unfolding ms(3)
    by (simp add: comp_def flip: map_map [of "\<lambda>x. - fc_qty x" snd, unfolded comp_def])
  then have "map (\<lambda>m. \<bar>sm_qty m\<bar>) ms = map (\<lambda>x. \<bar>- fc_qty x\<bar>) sl"
    by (metis (no_types, lifting) list.map_comp comp_def map_cong)
  moreover have "map (\<lambda>x. \<bar>- fc_qty x\<bar>) sl = map fc_qty sl"
    using slices_nonneg [OF assms(2) t] by (intro map_cong) simp_all
  ultimately have "map (\<lambda>m. \<bar>sm_qty m\<bar>) ms = map fc_qty sl" by (simp only:)
  then have "sum_list (map (\<lambda>m. \<bar>sm_qty m\<bar>) ms) = q" using C(3) by (simp only:)
  moreover have "moved (bid, br, p, v) (- q) s s'" using C(1,2) assms(1) by (simp add: moved_def)
  ultimately show thesis using ms(1,2) ls
    by (intro that [of ms ls "uuid_next s + length sl"]) simp_all
qed

lemma layer_movement_moves:
  assumes "reconciled s" "0 \<le> q"
    and "create_fifo_layer c bid br p v q cost user src cr bat ex s = (l, t)"
    and "create_stock_movement c bid br p v mt q mcost rt rid user (Some (row_id l)) bat' ex' notes mat sq t = (m, s')"
  shows "moved (bid, br, p, v) q s s'"
    "s' = s\<lparr>uuid_next := uuid_next s + 2, purchase_lines := purchase_lines s @ [l], movements := movements s @ [m]\<rparr>"
    "out_row bid br mt rt rid m"
proof -
  from layer_movement_ok [OF assms(1,2) _ assms(3,4)]
  have "reconciled s'" and p: "posted_movement (bid, br, p, v) q s s'" by simp_all
  with stock.post_balance [OF p] assms(1) show "moved (bid, br, p, v) q s s'" by (simp add: moved_def)
  note E = create_stock_movement_eq [OF assms(4)]
  show "s' = s\<lparr>uuid_next := uuid_next s + 2, purchase_lines := purchase_lines s @ [l], movements := movements s @ [m]\<rparr>"
    by (simp add: E(1) create_fifo_layer_eq(1) [OF assms(3)])
  show "out_row bid br mt rt rid m" using E(2-9) by (simp add: out_row_def position_of_def)
qed

section \<open>Transfers conserve stock\<close>

definition in_transit :: "db \<Rightarrow> stock_transfer_line \<Rightarrow> decimal" where
  \<comment> \<open>what left the source for a transfer line, read off its movements\<close>
  "in_transit s l = sum_list (map (\<lambda>m. \<bar>sm_qty m\<bar>) (transfer_slices s (business_id l) (row_id l)))"

definition transfers_ok :: "db \<Rightarrow> bool" where
  \<comment> \<open>keys and references in the transfer tables were drawn, and transfer movements refer to drawn ids\<close>
  "transfers_ok s \<longleftrightarrow> keyed (transfers s) s \<and> keyed (transfer_lines s) s \<and>
     (\<forall>l\<in>set (transfer_lines s). stl_stock_transfer_id l \<in> drawn s) \<and>
     (\<forall>m\<in>set (movements s). sm_reference_type m = ReferenceType_stock_transfer_line \<longrightarrow> sm_reference_id m \<in> drawn s)"

definition slice_row :: "uuid \<Rightarrow> uuid \<Rightarrow> stock_movement \<Rightarrow> bool" where
  "slice_row bid i m \<longleftrightarrow> business_id m = bid \<and> sm_movement_type m = StockMovementType_transfer_out \<and>
     sm_reference_type m = ReferenceType_stock_transfer_line \<and> sm_reference_id m = i \<and> live m"

lemma transfer_slices_row: "transfer_slices s bid i = sort_key slice_order (filter (slice_row bid i) (movements s))"
  by (simp add: transfer_slices_def slice_row_def [abs_def])

lemma in_transit_sum:
  "in_transit s l = sum_where (\<lambda>m. \<bar>sm_qty m\<bar>) (slice_row (business_id l) (row_id l)) (movements s)"
proof -
  have "in_transit s l = sum_where (\<lambda>m. \<bar>sm_qty m\<bar>) (\<lambda>_. True)
      (sort_key slice_order (filter (slice_row (business_id l) (row_id l)) (movements s)))"
    by (simp add: in_transit_def transfer_slices_row sum_where_def)
  also have "\<dots> = sum_where (\<lambda>m. \<bar>sm_qty m\<bar>) (\<lambda>_. True) (filter (slice_row (business_id l) (row_id l)) (movements s))"
    by (rule sum_where_sort)
  finally show ?thesis by (simp add: sum_where_def)
qed

definition line_for :: "uuid \<Rightarrow> uuid \<Rightarrow> CreateTransferLineRequest \<Rightarrow> stock_transfer_line \<Rightarrow> bool" where
  "line_for bid i d l \<longleftrightarrow> business_id l = bid \<and> stl_stock_transfer_id l = i \<and> live l \<and>
     stl_product_id l = ctl_product_id d \<and> stl_variation_id l = ctl_variation_id d \<and> stl_qty l = ctl_qty d"

definition away :: "uuid \<Rightarrow> uuid \<Rightarrow> CreateTransferLineRequest \<Rightarrow> position" where
  "away bid br d = item_at bid br (ctl_item d)"

lemma update_where_unmatched: "(\<And>r. r \<in> set rs \<Longrightarrow> \<not> P r) \<Longrightarrow> update_where P f rs = rs"
  by (induction rs) auto

definition dispatched :: "uuid \<Rightarrow> uuid \<Rightarrow> CreateTransferLineRequest list \<Rightarrow> db \<Rightarrow> db \<Rightarrow> bool" where
  \<comment> \<open>lines were added for the requested ones, each with movements that carry its quantity\<close>
  "dispatched bid i ds s s' \<longleftrightarrow>
     (\<exists>n pls ms ls. s' = s\<lparr>uuid_next := n, purchase_lines := pls, movements := movements s @ ms,
          transfer_lines := transfer_lines s @ ls\<rparr> \<and> uuid_next s \<le> n \<and> transfers_ok s' \<and>
        (\<forall>m\<in>set ms. sm_reference_id m \<notin> drawn s) \<and>
        list_all2 (line_for bid i) ds ls \<and> (\<forall>l\<in>set ls. row_id l \<notin> drawn s) \<and>
        (\<forall>l\<in>set ls. in_transit s' l = stl_qty l))"

lemma dispatch_line_step:
  assumes "reconciled s" "transfers_ok s" "i \<in> drawn s" "0 \<le> ctl_qty d"
    and "dispatch_line c bid src i user d s = s'"
  shows "moved (away bid src d) (- ctl_qty d) s s' \<and> dispatched bid i [d] s s'"
proof -
  note ok = stock_okD [OF assms(1)]
  define j where "j = uuid_gen s (uuid_next s)"
  define l where "l = (new_row j bid (Some user) (now c)
      \<lparr>stl_stock_transfer_id = i, stl_product_id = ctl_product_id d, stl_variation_id = ctl_variation_id d,
       stl_qty = ctl_qty d, stl_cost_per_unit = 0, stl_qty_received = 0\<rparr> :: stock_transfer_line)"
  let ?s = "s\<lparr>uuid_next := Suc (uuid_next s), transfer_lines := transfer_lines s @ [l]\<rparr>"
  have f: "fresh_uuid s = (j, s\<lparr>uuid_next := Suc (uuid_next s)\<rparr>)" by (simp add: fresh_uuid_def j_def)
  have new: "j \<notin> drawn s" by (rule fresh_uuid_new [OF ok(1) f])
  have dr: "drawn ?s = insert j (drawn s)" using fresh_uuid_drawn [OF f] by (simp add: drawn_def)
  have rec: "reconciled ?s" by (rule stock_ok_frame [OF assms(1)]) (simp_all add: dr subset_insertI)
  obtain w sl sh t where t: "consume_to_movements c bid src (ctl_product_id d) (ctl_variation_id d) (ctl_qty d)
      StockMovementType_transfer_out ReferenceType_stock_transfer_line j user (now c) None None None ?s = ((w, sl, sh), t)"
    by (metis prod_cases3 surj_pair)
  obtain n pls ms where T: "t = ?s\<lparr>uuid_next := n, purchase_lines := pls, movements := movements ?s @ ms\<rparr>"
    "uuid_next ?s \<le> n" and ms: "\<forall>m\<in>set ms. out_row bid src StockMovementType_transfer_out ReferenceType_stock_transfer_line j m"
    "sum_list (map (\<lambda>m. \<bar>sm_qty m\<bar>) ms) = ctl_qty d"
    and mv: "moved (bid, src, ctl_product_id d, ctl_variation_id d) (- ctl_qty d) ?s t"
    by (rule consume_to_movements_moves [OF rec assms(4) t])
  let ?l = "l\<lparr>stl_cost_per_unit := w\<rparr>"
  have "row_id r \<noteq> j" if "r \<in> set (transfer_lines s)" for r
    using that assms(2) new by (auto simp: transfers_ok_def keyed_def)
  then have "update_where (\<lambda>r. row_id r = j) (\<lambda>r. r\<lparr>stl_cost_per_unit := w\<rparr>) (transfer_lines s) = transfer_lines s"
    by (rule update_where_unmatched) 
  then have up: "update_where (\<lambda>r. row_id r = j) (\<lambda>r. r\<lparr>stl_cost_per_unit := w\<rparr>) (transfer_lines t)
      = transfer_lines s @ [?l]" by (simp add: T l_def)
  have s': "s' = s\<lparr>uuid_next := n, purchase_lines := pls, movements := movements s @ ms,
      transfer_lines := transfer_lines s @ [?l]\<rparr>"
    using assms(5) t up by (simp add: dispatch_line_def f l_def [symmetric] T del: new_row_def)
  have sub: "drawn ?s \<subseteq> drawn s'" using T(2) by (intro drawn_le) (simp_all add: s')
  have "moved (away bid src d) (- ctl_qty d) s s'"
    using moved_frame [OF mv, of s s'] assms(1) dr by (simp add: s' T drawn_def away_def item_at_def ctl_item_def subset_insertI)
  moreover have "transfers_ok s'"
  proof -
    have "keyed (transfer_lines s @ [?l]) s'"
      using assms(2) new dr sub by (auto simp: transfers_ok_def keyed_def l_def)
    moreover have "keyed (transfers s) s'"
      using assms(2) dr sub by (auto simp: transfers_ok_def keyed_def)
    ultimately show ?thesis using assms(2,3) ms(1) dr sub
      by (auto simp: transfers_ok_def s' out_row_def l_def)
  qed
  moreover have "line_for bid i d ?l" "row_id ?l = j" by (simp_all add: line_for_def l_def live_def)
  moreover have "in_transit s' ?l = ctl_qty d"
  proof -
    have "sum_where (\<lambda>m. \<bar>sm_qty m\<bar>) (slice_row bid j) (movements s) = 0"
      using assms(2) new by (intro sum_where_none) (auto simp: transfers_ok_def slice_row_def)
    moreover have "sum_where (\<lambda>m. \<bar>sm_qty m\<bar>) (slice_row bid j) ms = ctl_qty d"
      using ms by (simp add: sum_where_def out_row_def slice_row_def filter_id_conv [THEN iffD2])
    ultimately show ?thesis by (simp add: in_transit_sum s' l_def)
  qed
  moreover have "stl_qty ?l = ctl_qty d" by (simp add: l_def)
  moreover have "\<forall>m\<in>set ms. sm_reference_id m \<notin> drawn s" using ms(1) new by (simp add: out_row_def)
  moreover have "uuid_next s \<le> n" using T(2) by simp
  ultimately show ?thesis unfolding dispatched_def
    using new by (intro conjI exI [of _ n] exI [of _ pls] exI [of _ ms] exI [of _ "[?l]"]) (simp_all add: s')
qed

lemma dispatchedE:
  assumes "dispatched bid i ds s s'"
  obtains n pls ms ls where "s' = s\<lparr>uuid_next := n, purchase_lines := pls, movements := movements s @ ms,
      transfer_lines := transfer_lines s @ ls\<rparr>" "uuid_next s \<le> n" "transfers_ok s'"
    "\<forall>m\<in>set ms. sm_reference_id m \<notin> drawn s" "list_all2 (line_for bid i) ds ls"
    "\<forall>l\<in>set ls. row_id l \<notin> drawn s" "\<forall>l\<in>set ls. in_transit s' l = stl_qty l"
  using assms unfolding dispatched_def by blast

lemma dispatched_Nil: "transfers_ok s \<Longrightarrow> dispatched bid i [] s s"
  unfolding dispatched_def
  by (intro exI [of _ "uuid_next s"] exI [of _ "purchase_lines s"] exI [of _ "[]"]) simp

lemma dispatched_trans:
  assumes "dispatched bid i ds s t" "dispatched bid i es t u"
  shows "dispatched bid i (ds @ es) s u"
proof -
  obtain n pls ms ls where t: "t = s\<lparr>uuid_next := n, purchase_lines := pls, movements := movements s @ ms,
      transfer_lines := transfer_lines s @ ls\<rparr>" "uuid_next s \<le> n" "transfers_ok t"
    "\<forall>m\<in>set ms. sm_reference_id m \<notin> drawn s" "list_all2 (line_for bid i) ds ls"
    "\<forall>l\<in>set ls. row_id l \<notin> drawn s" "\<forall>l\<in>set ls. in_transit t l = stl_qty l"
    by (rule dispatchedE [OF assms(1)])
  obtain n' pls' ms' ls' where u: "u = t\<lparr>uuid_next := n', purchase_lines := pls', movements := movements t @ ms',
      transfer_lines := transfer_lines t @ ls'\<rparr>" "uuid_next t \<le> n'" "transfers_ok u"
    "\<forall>m\<in>set ms'. sm_reference_id m \<notin> drawn t" "list_all2 (line_for bid i) es ls'"
    "\<forall>l\<in>set ls'. row_id l \<notin> drawn t" "\<forall>l\<in>set ls'. in_transit u l = stl_qty l"
    by (rule dispatchedE [OF assms(2)])
  have sub: "drawn s \<subseteq> drawn t" using t(2) by (intro drawn_le) (simp_all add: t(1))
  have "in_transit u l = in_transit t l" if "l \<in> set ls" for l
  proof -
    have "row_id l \<in> drawn t" using t(3) that by (auto simp: transfers_ok_def keyed_def t(1))
    then have "sum_where (\<lambda>m. \<bar>sm_qty m\<bar>) (slice_row (business_id l) (row_id l)) ms' = 0"
      using u(4) by (intro sum_where_none) (auto simp: slice_row_def)
    then show ?thesis by (simp add: in_transit_sum u(1))
  qed
  then have "\<forall>l\<in>set (ls @ ls'). in_transit u l = stl_qty l" using t(7) u(7) by auto
  moreover have "u = s\<lparr>uuid_next := n', purchase_lines := pls', movements := movements s @ ms @ ms',
      transfer_lines := transfer_lines s @ ls @ ls'\<rparr>" "uuid_next s \<le> n'"
    using t(2) u(2) by (simp_all add: u(1) t(1))
  moreover have "list_all2 (line_for bid i) (ds @ es) (ls @ ls')"
    using t(5) u(5) by (rule list_all2_appendI)
  moreover have "\<forall>m\<in>set (ms @ ms'). sm_reference_id m \<notin> drawn s" "\<forall>l\<in>set (ls @ ls'). row_id l \<notin> drawn s"
    using t(4,6) u(4,6) sub by auto
  ultimately show ?thesis unfolding dispatched_def using u(3)
    by (intro exI [of _ n'] exI [of _ pls'] exI [of _ "ms @ ms'"] exI [of _ "ls @ ls'"] conjI)
qed

lemma dispatch_lines:
  assumes "reconciled s" "transfers_ok s" "i \<in> drawn s" "\<forall>d\<in>set ds. 0 \<le> ctl_qty d"
  shows "goods.run (map (\<lambda>d. (away bid src d, - ctl_qty d)) ds) s (fold (dispatch_line c bid src i user) ds s) \<and>
    dispatched bid i ds s (fold (dispatch_line c bid src i user) ds s)"
  using assms
proof (induction ds arbitrary: s)
  case Nil
  then show ?case by (simp add: dispatched_Nil)
next
  case (Cons d ds)
  define t where "t = dispatch_line c bid src i user d s"
  have q: "0 \<le> ctl_qty d" using Cons.prems(4) by simp
  note S = dispatch_line_step [OF Cons.prems(1-3) q t_def [symmetric]]
  then have d: "dispatched bid i [d] s t" and m: "moved (away bid src d) (- ctl_qty d) s t" by blast+
  have ok: "transfers_ok t" and sub: "drawn s \<subseteq> drawn t"
    by (rule dispatchedE [OF d], assumption) (rule dispatchedE [OF d], rule drawn_le, simp_all)
  have "reconciled t" "i \<in> drawn t" "\<forall>d\<in>set ds. 0 \<le> ctl_qty d"
    using m sub Cons.prems by (auto simp: moved_def)
  note IH = Cons.IH [OF this(1) ok this(2,3)]
  from dispatched_trans [OF d conjunct2 [OF IH]] IH m show ?case
    by (simp only: fold_simps t_def [symmetric] list.map goods.run.simps append_Cons append_Nil) blast
qed

subsection \<open>Receiving\<close>

lemma receive_slice_step:
  assumes "reconciled s" "receive_slice c bid dest l user x s = s'"
  shows "moved (bid, dest, stl_product_id l, stl_variation_id l) \<bar>sm_qty (snd x)\<bar> s s' \<and>
    (\<exists>pls m. s' = s\<lparr>uuid_next := uuid_next s + 2, purchase_lines := pls, movements := movements s @ [m]\<rparr> \<and>
       sm_movement_type m = StockMovementType_transfer_in)"
proof -
  obtain n out where x: "x = (n, out)" by fastforce
  obtain la t where t: "create_fifo_layer c bid dest (stl_product_id l) (stl_variation_id l) \<bar>sm_qty out\<bar>
      (sm_cost_per_unit out) user ''transfer'' (Some (now c + int n)) (sm_batch_number out) (sm_expiry_date out) s = (la, t)"
    by fastforce
  obtain m u where u: "create_stock_movement c bid dest (stl_product_id l) (stl_variation_id l)
      StockMovementType_transfer_in \<bar>sm_qty out\<bar> (sm_cost_per_unit out) ReferenceType_stock_transfer_line (row_id l) user
      (Some (row_id la)) (sm_batch_number out) (sm_expiry_date out) None (Some (now c)) (Some n) t = (m, u)" by fastforce
  have "s' = u" using assms(2) by (simp add: receive_slice_def x t u Let_def)
  with layer_movement_moves [OF assms(1) _ t u] show ?thesis by (auto simp: x out_row_def)
qed

lemma receive_slices:
  assumes "reconciled s" "fold (receive_slice c bid dest l user) xs s = s'"
  shows "moved (bid, dest, stl_product_id l, stl_variation_id l) (sum_list (map (\<lambda>x. \<bar>sm_qty (snd x)\<bar>) xs)) s s' \<and>
    (\<exists>n pls ms. s' = s\<lparr>uuid_next := n, purchase_lines := pls, movements := movements s @ ms\<rparr> \<and> uuid_next s \<le> n \<and>
       (\<forall>m\<in>set ms. sm_movement_type m = StockMovementType_transfer_in))"
  using assms
proof (induction xs arbitrary: s)
  case Nil
  then show ?case
    by (auto simp: moved_def intro!: exI [of _ "uuid_next s'"] exI [of _ "purchase_lines s'"]
        exI [of _ "[] :: stock_movement list"])
next
  case (Cons x xs)
  define t where "t = receive_slice c bid dest l user x s"
  have m: "moved (bid, dest, stl_product_id l, stl_variation_id l) \<bar>sm_qty (snd x)\<bar> s t"
    and f: "\<exists>pls m. t = s\<lparr>uuid_next := uuid_next s + 2, purchase_lines := pls, movements := movements s @ [m]\<rparr> \<and>
       sm_movement_type m = StockMovementType_transfer_in"
    using receive_slice_step [OF Cons.prems(1) t_def [symmetric]] by blast+
  then obtain pls m where T: "t = s\<lparr>uuid_next := uuid_next s + 2, purchase_lines := pls, movements := movements s @ [m]\<rparr>"
    "sm_movement_type m = StockMovementType_transfer_in" by blast
  have "reconciled t" "fold (receive_slice c bid dest l user) xs t = s'"
    using m Cons.prems(2) by (simp_all add: moved_def t_def)
  note IH = Cons.IH [OF this]
  then obtain n pls' ms where F: "s' = t\<lparr>uuid_next := n, purchase_lines := pls', movements := movements t @ ms\<rparr>"
    "uuid_next t \<le> n" "\<forall>m\<in>set ms. sm_movement_type m = StockMovementType_transfer_in" by blast
  have "s' = s\<lparr>uuid_next := n, purchase_lines := pls', movements := movements s @ (m # ms)\<rparr>" by (simp add: F(1) T(1))
  moreover have "uuid_next s \<le> n" using F(2) by (simp add: T(1))
  moreover have "\<forall>m\<in>set (m # ms). sm_movement_type m = StockMovementType_transfer_in" using F(3) T(2) by simp
  ultimately have "\<exists>n pls ms. s' = s\<lparr>uuid_next := n, purchase_lines := pls, movements := movements s @ ms\<rparr> \<and>
      uuid_next s \<le> n \<and> (\<forall>m\<in>set ms. sm_movement_type m = StockMovementType_transfer_in)" by blast
  with moved_add [OF m conjunct1 [OF IH]] show ?case by simp
qed

definition arrived :: "db \<Rightarrow> db \<Rightarrow> bool" where
  \<comment> \<open>only incoming transfer movements were added, apart from layers and transfer lines\<close>
  "arrived s s' \<longleftrightarrow>
     (\<exists>n pls ms ls. s' = s\<lparr>uuid_next := n, purchase_lines := pls, movements := movements s @ ms, transfer_lines := ls\<rparr> \<and>
        uuid_next s \<le> n \<and> (\<forall>m\<in>set ms. sm_movement_type m = StockMovementType_transfer_in))"

lemma arrived_refl: "arrived s s"
  unfolding arrived_def
  by (intro exI [of _ "uuid_next s"] exI [of _ "purchase_lines s"] exI [of _ "[] :: stock_movement list"]
      exI [of _ "transfer_lines s"]) simp

lemma arrived_trans:
  assumes "arrived s t" "arrived t u"
  shows "arrived s u"
proof -
  obtain n pls ms ls where t: "t = s\<lparr>uuid_next := n, purchase_lines := pls, movements := movements s @ ms, transfer_lines := ls\<rparr>"
    "uuid_next s \<le> n" "\<forall>m\<in>set ms. sm_movement_type m = StockMovementType_transfer_in"
    using assms(1) unfolding arrived_def by blast
  obtain n' pls' ms' ls' where u: "u = t\<lparr>uuid_next := n', purchase_lines := pls', movements := movements t @ ms', transfer_lines := ls'\<rparr>"
    "uuid_next t \<le> n'" "\<forall>m\<in>set ms'. sm_movement_type m = StockMovementType_transfer_in"
    using assms(2) unfolding arrived_def by blast
  have "u = s\<lparr>uuid_next := n', purchase_lines := pls', movements := movements s @ (ms @ ms'), transfer_lines := ls'\<rparr>"
    "uuid_next s \<le> n'" "\<forall>m\<in>set (ms @ ms'). sm_movement_type m = StockMovementType_transfer_in"
    using t u by auto
  then show ?thesis unfolding arrived_def by blast
qed

lemma arrived_in_transit:
  assumes "arrived s s'"
  shows "in_transit s' l = in_transit s l"
proof -
  from assms obtain ms where ms: "movements s' = movements s @ ms"
    "\<forall>m\<in>set ms. sm_movement_type m = StockMovementType_transfer_in" by (auto simp: arrived_def)
  have "sum_where (\<lambda>m. \<bar>sm_qty m\<bar>) (slice_row (business_id l) (row_id l)) ms = 0"
    using ms(2) by (intro sum_where_none) (auto simp: slice_row_def)
  then show ?thesis by (simp add: in_transit_sum ms(1))
qed

definition arrival :: "uuid \<Rightarrow> uuid \<Rightarrow> stock_transfer_line \<Rightarrow> position" where
  "arrival bid dest l = (bid, dest, stl_product_id l, stl_variation_id l)"

lemma receive_line_step:
  assumes "reconciled s" "live l" "business_id l = bid" "receive_line c bid dest user l s = s'"
  shows "moved (arrival bid dest l) (in_transit s l) s s' \<and> arrived s s'"
proof -
  let ?xs = "enumerate 0 (transfer_slices s bid (row_id l))"
  define t where "t = fold (receive_slice c bid dest l user) ?xs s"
  have s': "s' = t\<lparr>transfer_lines := update_where (\<lambda>r. row_id r = row_id l)
      (\<lambda>r. r\<lparr>stl_qty_received := stl_qty r, updated_at := now c\<rparr>) (transfer_lines t)\<rparr>"
    using assms(2,4) by (simp add: receive_line_def t_def Let_def)
  note R = receive_slices [OF assms(1) t_def [symmetric]]
  have "map (\<lambda>x. \<bar>sm_qty (snd x)\<bar>) ?xs = map (\<lambda>m. \<bar>sm_qty m\<bar>) (map snd ?xs)"
    by (simp only: list.map_comp comp_def)
  then have "sum_list (map (\<lambda>x. \<bar>sm_qty (snd x)\<bar>) ?xs) = in_transit s l"
    unfolding in_transit_def assms(3) map_snd_enumerate by (simp only:)
  with R have m: "moved (arrival bid dest l) (in_transit s l) s t" by (simp add: arrival_def)
  have "moved (arrival bid dest l) (in_transit s l) s s'"
    by (rule moved_frame [OF m]) (simp_all add: s' assms(1) drawn_def)
  moreover obtain n pls ms where T: "t = s\<lparr>uuid_next := n, purchase_lines := pls, movements := movements s @ ms\<rparr>"
    "uuid_next s \<le> n" "\<forall>m\<in>set ms. sm_movement_type m = StockMovementType_transfer_in" using R by blast
  moreover have "arrived s s'" unfolding arrived_def using T(2,3)
    by (intro exI [of _ n] exI [of _ pls] exI [of _ ms] exI [of _ "transfer_lines s'"]) (simp add: s' T(1))
  ultimately show ?thesis by blast
qed

lemma receive_lines:
  assumes "reconciled s" "\<forall>l\<in>set ls. live l \<and> business_id l = bid"
  shows "goods.run (map (\<lambda>l. (arrival bid dest l, in_transit s l)) ls) s (fold (receive_line c bid dest user) ls s) \<and>
    arrived s (fold (receive_line c bid dest user) ls s)"
  using assms
proof (induction ls arbitrary: s)
  case Nil
  then show ?case by (simp add: arrived_refl)
next
  case (Cons l ls)
  define t where "t = receive_line c bid dest user l s"
  have "live l" "business_id l = bid" using Cons.prems(2) by simp_all
  note S = receive_line_step [OF Cons.prems(1) this t_def [symmetric]]
  then have "reconciled t" "\<forall>l\<in>set ls. live l \<and> business_id l = bid" using Cons.prems(2) by (simp_all add: moved_def)
  note IH = Cons.IH [OF this]
  have "map (\<lambda>l. (arrival bid dest l, in_transit t l)) ls = map (\<lambda>l. (arrival bid dest l, in_transit s l)) ls"
    by (simp add: arrived_in_transit [OF conjunct2 [OF S]])
  with S IH arrived_trans [OF conjunct2 [OF S] conjunct2 [OF IH]] show ?case
    by (simp only: fold_simps t_def [symmetric] list.map goods.run.simps) blast
qed

lemma check_source_stock_Inr:
  assumes "check_source_stock s bid src (demand_of ls) = Inr u" "k \<in> fst ` set ls"
  shows "sum_where snd (\<lambda>e. fst e = k) ls \<le> stock_at s (item_at bid src k)"
proof -
  have "(k, sum_where snd (\<lambda>e. fst e = k) ls) \<in> set (demand_of ls)"
    using demand_of_map [of ls k] assms(2) by (auto dest: map_of_SomeD)
  with assms(1) show ?thesis
    by (cases k) (fastforce simp: check_source_stock_def check_each_Inr stock_at_def item_at_def bind_res_Inr Let_def
        split: if_splits)
qed

lemma lines_total:
  "list_all2 (line_for bid i) ds ls \<Longrightarrow>
     sum_where stl_qty (\<lambda>l. arrival bid dest l = k) ls = sum_where ctl_qty (\<lambda>d. away bid dest d = k) ds"
  by (induction rule: list_all2_induct) (auto simp: line_for_def arrival_def away_def item_at_def ctl_item_def)

lemma create_stock_transfer_Inr:
  assumes "reconciled s" "transfers_ok s" "\<forall>d\<in>set (ctr_lines data). 0 \<le> ctl_qty d"
    and "create_stock_transfer c bid data user s = Inr (t, s1)"
  defines "src \<equiv> ctr_source_branch_id data" and "dest \<equiv> ctr_dest_branch_id data"
  obtains s0 ls u where "reconciled s0" "\<forall>k. stock_at s0 k = stock_at s k" "row_id t \<in> drawn s0"
    "goods.run (map (\<lambda>d. (away bid src d, - ctl_qty d)) (ctr_lines data)) s0 u"
    "dispatched bid (row_id t) (ctr_lines data) s0 u" "reconciled u"
    "\<forall>l\<in>set (transfer_lines s0). stl_stock_transfer_id l \<noteq> row_id t"
    "s1 = u\<lparr>transfers := transfers s @ [t]\<rparr>" "\<forall>r\<in>set (transfers s). row_id r \<noteq> row_id t"
    "business_id t = bid" "live t" "st_status t = TransferStatus_in_transit" "st_dest_branch_id t = dest"
proof -
  obtain n s2 where n: "generate_document_number c bid ''TRF'' s = (n, s2)" by fastforce
  note N = generate_document_number_frame [OF n]
  define i where "i = uuid_gen s2 (uuid_next s2)"
  define r0 where "r0 = (new_row i bid (Some user) (now c)
      \<lparr>st_transfer_number = n, st_source_branch_id = src, st_dest_branch_id = dest, st_status = TransferStatus_draft,
       st_transferred_at = None, st_received_at = None, st_notes = ctr_notes data\<rparr> :: stock_transfer)"
  let ?g = "\<lambda>r. r\<lparr>st_status := TransferStatus_in_transit, st_transferred_at := Some (now c),
      updated_by := Some user, updated_at := now c\<rparr>"
  define s0 where "s0 = s2\<lparr>uuid_next := Suc (uuid_next s2), transfers := transfers s2 @ [r0]\<rparr>"
  define u where "u = fold (dispatch_line c bid src i user) (ctr_lines data) s0"
  have f: "fresh_uuid s2 = (i, s2\<lparr>uuid_next := Suc (uuid_next s2)\<rparr>)" by (simp add: fresh_uuid_def i_def)
  have t: "t = ?g r0" and s1: "s1 = u\<lparr>transfers := update_where (\<lambda>r. row_id r = i) ?g (transfers u)\<rparr>"
    using assms(4)
    by (auto simp: create_stock_transfer_def bind_res_Inr n f src_def [symmetric] dest_def [symmetric]
        r0_def [symmetric] s0_def [symmetric] u_def [symmetric] simp del: new_row_def)
  obtain cs k where s2: "s2 = s\<lparr>counters := cs, uuid_next := k\<rparr>" "uuid_next s \<le> k" using N by (cases s) auto
  have i: "row_id t = i" "row_id r0 = i" by (simp_all add: t r0_def)
  have sub: "drawn s \<subseteq> drawn s2" by (rule drawn_le) (simp_all add: s2)
  have new: "i \<notin> drawn s2" by (rule fresh_uuid_new [OF _ f]) (simp add: s2 stock_okD(1) [OF assms(1)])
  have dr: "drawn s0 = insert i (drawn s2)" using fresh_uuid_drawn [OF f] by (simp add: s0_def drawn_def)
  have rec: "reconciled s0"
    by (rule stock_ok_frame [OF assms(1)]) (use sub dr in \<open>auto simp: s0_def s2(1)\<close>)
  have notin: "row_id r \<noteq> i" if "r \<in> set (transfers s)" for r
    using assms(2) that new sub by (auto simp: transfers_ok_def keyed_def)
  have ok: "transfers_ok s0"
  proof -
    have "keyed (transfers s @ [r0]) s0"
      using assms(2) new sub dr notin by (auto simp: transfers_ok_def keyed_def i)
    moreover have "keyed (transfer_lines s) s0" using assms(2) sub dr by (auto simp: transfers_ok_def keyed_def)
    ultimately show ?thesis using assms(2) sub dr by (auto simp: transfers_ok_def s0_def s2(1))
  qed
  have "i \<in> drawn s0" by (simp add: dr)
  note D = dispatch_lines [OF rec ok this assms(3), of bid src c user, folded u_def]
  obtain n' pls ms ls where U: "u = s0\<lparr>uuid_next := n', purchase_lines := pls, movements := movements s0 @ ms,
      transfer_lines := transfer_lines s0 @ ls\<rparr>"
    by (rule dispatchedE [OF conjunct2 [OF D]])
  have "transfers u = transfers s @ [r0]" by (simp add: U s0_def s2(1))
  moreover have "update_where (\<lambda>r. row_id r = i) ?g (transfers s) = transfers s" using notin by (rule update_where_unmatched)
  ultimately have "s1 = u\<lparr>transfers := transfers s @ [t]\<rparr>" by (simp add: s1 i t)
  moreover have "\<forall>l\<in>set (transfer_lines s0). stl_stock_transfer_id l \<noteq> i"
    using assms(2) new sub by (auto simp: transfers_ok_def s0_def s2(1))
  moreover have "\<forall>k. stock_at s0 k = stock_at s k" by (simp add: stock_at_sum s0_def s2(1))
  moreover have "reconciled u" by (rule runs_reconciled [OF conjunct1 [OF D] rec])
  moreover have "business_id t = bid" "live t" "st_status t = TransferStatus_in_transit" "st_dest_branch_id t = dest"
    by (simp_all add: t r0_def live_def)
  ultimately show thesis using D rec notin i by (intro that [of s0 u]) (simp_all add: dr)
qed

text \<open>
  C13. A stock transfer conserves goods. It is only made when the source branch holds what is asked
  of each item; making it takes exactly the requested quantities from the source and credits
  nobody; it can then be received, which adds exactly the same quantities at the destination,
  whatever layers they came from; a second receipt is refused. Layers and movements stay
  reconciled throughout.
\<close>

theorem transfer_conserves_stock:
  assumes "reconciled s" "transfers_ok s" "valid_transfer data"
    and "create_stock_transfer c bid data user s = Inr (t, s1)"
  shows "(\<forall>d\<in>set (ctr_lines data). sum_where ctl_qty (\<lambda>e. ctl_item e = ctl_item d) (ctr_lines data) \<le>
       stock_at s (away bid (ctr_source_branch_id data) d)) \<and>
    reconciled s1 \<and>
    (\<forall>k. stock_at s1 k = stock_at s k -
       sum_where ctl_qty (\<lambda>d. away bid (ctr_source_branch_id data) d = k) (ctr_lines data)) \<and>
    (\<exists>s2. receive_stock_transfer c' (row_id t) bid user' None s1 = Inr s2 \<and> reconciled s2 \<and>
       (\<forall>k. stock_at s2 k = stock_at s1 k +
          sum_where ctl_qty (\<lambda>d. away bid (ctr_dest_branch_id data) d = k) (ctr_lines data)) \<and>
       receive_stock_transfer c'' (row_id t) bid user'' r s2 = bad_request ''Transfer must be in_transit to receive'')"
proof (intro conjI)
  let ?src = "ctr_source_branch_id data" and ?dest = "ctr_dest_branch_id data" and ?ds = "ctr_lines data"
  have q: "\<forall>d\<in>set ?ds. 0 \<le> ctl_qty d" using assms(3) by (auto simp: valid_transfer_def less_imp_le)
  show "\<forall>d\<in>set ?ds. sum_where ctl_qty (\<lambda>e. ctl_item e = ctl_item d) ?ds \<le> stock_at s (away bid ?src d)"
  proof
    fix d assume d: "d \<in> set ?ds"
    have "check_source_stock s bid ?src (demand_of (map (\<lambda>l. (ctl_item l, ctl_qty l)) ?ds)) = Inr ()"
      using assms(4) by (auto simp: create_stock_transfer_def bind_res_Inr simp del: new_row_def)
    from check_source_stock_Inr [OF this, of "ctl_item d"] d
    show "sum_where ctl_qty (\<lambda>e. ctl_item e = ctl_item d) ?ds \<le> stock_at s (away bid ?src d)"
      by (auto simp: sum_where_map comp_def away_def image_image)
  qed
  obtain s0 u where S0: "reconciled s0" "\<forall>k. stock_at s0 k = stock_at s k" "row_id t \<in> drawn s0"
    and run: "goods.run (map (\<lambda>d. (away bid ?src d, - ctl_qty d)) ?ds) s0 u"
    and dis: "dispatched bid (row_id t) ?ds s0 u" and ru: "reconciled u"
    and other: "\<forall>l\<in>set (transfer_lines s0). stl_stock_transfer_id l \<noteq> row_id t"
    and s1: "s1 = u\<lparr>transfers := transfers s @ [t]\<rparr>" and new: "\<forall>r\<in>set (transfers s). row_id r \<noteq> row_id t"
    and t: "business_id t = bid" "live t" "st_status t = TransferStatus_in_transit" "st_dest_branch_id t = ?dest"
    by (rule create_stock_transfer_Inr [OF assms(1,2) q assms(4)])
  show r1: "reconciled s1" by (rule stock_ok_frame [OF ru]) (simp_all add: s1 drawn_def)
  have at1: "stock_at s1 = stock_at u" by (simp add: stock_at_sum s1 fun_eq_iff)
  show "\<forall>k. stock_at s1 k = stock_at s k - sum_where ctl_qty (\<lambda>d. away bid ?src d = k) ?ds"
    using runs_map_stock [OF run] S0(2) by (simp add: at1 sum_where_minus)
  obtain n pls ms ls where U: "u = s0\<lparr>uuid_next := n, purchase_lines := pls, movements := movements s0 @ ms,
      transfer_lines := transfer_lines s0 @ ls\<rparr>" "list_all2 (line_for bid (row_id t)) ?ds ls"
    "\<forall>l\<in>set ls. in_transit u l = stl_qty l"
    by (rule dispatchedE [OF dis])
  have ls: "filter (\<lambda>l. stl_stock_transfer_id l = row_id t) (transfer_lines s1) = ls"
    using other list_all2_right [OF U(2)] by (auto simp: s1 U(1) line_for_def filter_id_conv filter_empty_conv)
  have lv: "\<forall>l\<in>set ls. live l \<and> business_id l = bid"
    using list_all2_right [OF U(2)] by (fastforce simp: line_for_def)
  define v where "v = fold (receive_line c' bid ?dest user') ls s1"
  note R = receive_lines [OF r1 lv, of ?dest c' user', folded v_def]
  define s2 where "s2 = v\<lparr>transfers := update_where (\<lambda>r. row_id r = row_id t)
      (\<lambda>r. r\<lparr>st_status := TransferStatus_received, st_received_at := Some (now c'),
         updated_by := Some user', updated_at := now c'\<rparr>) (transfers v)\<rparr>"
  have tr: "transfers v = transfers s @ [t]" using conjunct2 [OF R] by (auto simp: arrived_def s1)
  have "get_stock_transfer_by_id s1 (row_id t) bid = Inr t"
    using new t by (simp add: get_stock_transfer_by_id_def require_one_Inr s1 filter_empty_conv)
  then have rcv: "receive_stock_transfer c' (row_id t) bid user' None s1 = Inr s2"
    using t by (simp add: receive_stock_transfer_def ls v_def [symmetric] s2_def)
  have r2: "reconciled s2"
    by (rule stock_ok_frame [OF runs_reconciled [OF conjunct1 [OF R] r1]]) (simp_all add: s2_def drawn_def)
  have "sum_where (in_transit s1) (\<lambda>l. arrival bid ?dest l = k) ls = sum_where ctl_qty (\<lambda>d. away bid ?dest d = k) ?ds" for k
  proof -
    have "\<forall>l\<in>set ls. in_transit s1 l = stl_qty l" using U(3) by (simp add: in_transit_sum s1)
    then have "sum_where (in_transit s1) (\<lambda>l. arrival bid ?dest l = k) ls = sum_where stl_qty (\<lambda>l. arrival bid ?dest l = k) ls"
      by (intro sum_where_cong) simp_all
    then show ?thesis using lines_total [OF U(2)] by simp
  qed
  then have "\<forall>k. stock_at s2 k = stock_at s1 k + sum_where ctl_qty (\<lambda>d. away bid ?dest d = k) ?ds"
    using runs_map_stock [OF conjunct1 [OF R]] by (simp add: stock_at_sum s2_def)
  moreover have "receive_stock_transfer c'' (row_id t) bid user'' r s2 = bad_request ''Transfer must be in_transit to receive''"
    using new t by (simp add: receive_stock_transfer_def get_stock_transfer_by_id_def s2_def tr update_where_unmatched
        filter_empty_conv [THEN iffD2] live_def)
  ultimately show "\<exists>s2. receive_stock_transfer c' (row_id t) bid user' None s1 = Inr s2 \<and> reconciled s2 \<and>
       (\<forall>k. stock_at s2 k = stock_at s1 k + sum_where ctl_qty (\<lambda>d. away bid ?dest d = k) ?ds) \<and>
       receive_stock_transfer c'' (row_id t) bid user'' r s2 = bad_request ''Transfer must be in_transit to receive''"
    using rcv r2 by blast
qed

definition sample_depot :: db where
  \<comment> \<open>the store's six units of product 5, and a second branch 3\<close>
  "sample_depot = sample_store\<lparr>branches := [sample_branch, sample_branch\<lparr>row_id := 3\<rparr>]\<rparr>"

definition sample_transfer :: CreateStockTransferRequest where
  \<comment> \<open>four units, from two layers, and one more\<close>
  "sample_transfer = \<lparr>ctr_source_branch_id = 2, ctr_dest_branch_id = 3, ctr_notes = None,
     ctr_lines = [\<lparr>ctl_product_id = 5, ctl_variation_id = None, ctl_qty = 4\<rparr>,
                  \<lparr>ctl_product_id = 5, ctl_variation_id = None, ctl_qty = 1\<rparr>]\<rparr>"

lemma sample_depot_ok: "reconciled sample_depot"
  by (rule stock_ok_frame [OF sample_store_ok]) (simp_all add: sample_depot_def drawn_def)

lemma sample_transfer_accepted:
  "\<exists>t s1. create_stock_transfer sample_clock 1 sample_transfer 9 sample_depot = Inr (t, s1)"
proof -
  have "(case verify_branch sample_depot 2 1 of Inl _ \<Rightarrow> False | Inr _ \<Rightarrow> True)"
    "(case verify_branch sample_depot 3 1 of Inl _ \<Rightarrow> False | Inr _ \<Rightarrow> True)" by code_simp+
  then obtain b b' where "verify_branch sample_depot 2 1 = Inr b" "verify_branch sample_depot 3 1 = Inr b'"
    by (auto split: sum.splits)
  moreover have "verify_lines sample_depot 1 (map ctl_item (ctr_lines sample_transfer)) = Inr ()"
    "check_source_stock sample_depot 1 2
       (demand_of (map (\<lambda>l. (ctl_item l, ctl_qty l)) (ctr_lines sample_transfer))) = Inr ()" by code_simp+
  moreover have "ctr_source_branch_id sample_transfer = 2" "ctr_dest_branch_id sample_transfer = 3"
    by (simp_all add: sample_transfer_def)
  ultimately show ?thesis
    by (simp add: create_stock_transfer_def Let_def split_beta del: new_row_def One_nat_def)
qed

lemma transfer_conserves_stock_witness:
  "\<exists>t s1 s2. create_stock_transfer sample_clock 1 sample_transfer 9 sample_depot = Inr (t, s1) \<and>
     receive_stock_transfer sample_clock (row_id t) 1 9 None s1 = Inr s2 \<and>
     stock_at s1 (1, 2, 5, None) = 1 \<and> stock_at s2 (1, 3, 5, None) = 5 \<and> reconciled s2"
proof -
  obtain t s1 where t: "create_stock_transfer sample_clock 1 sample_transfer 9 sample_depot = Inr (t, s1)"
    using sample_transfer_accepted by blast
  have ok: "transfers_ok sample_depot"
    by (simp add: transfers_ok_def sample_depot_def sample_store_def sample_warehouse_def sample_stock_def
        empty_db_def sample_movement_def)
  have "valid_transfer sample_transfer" by (simp add: valid_transfer_def sample_transfer_def)
  note T = transfer_conserves_stock [OF sample_depot_ok ok this t, of sample_clock 9]
  then obtain s2 where s2: "receive_stock_transfer sample_clock (row_id t) 1 9 None s1 = Inr s2" "reconciled s2"
    "\<forall>k. stock_at s2 k = stock_at s1 k +
       sum_where ctl_qty (\<lambda>d. away 1 (ctr_dest_branch_id sample_transfer) d = k) (ctr_lines sample_transfer)" by blast
  have s1: "\<forall>k. stock_at s1 k = stock_at sample_depot k -
       sum_where ctl_qty (\<lambda>d. away 1 (ctr_source_branch_id sample_transfer) d = k) (ctr_lines sample_transfer)"
    using T by blast
  have "stock_at sample_depot (1, 2, 5, None) = 6" "stock_at sample_depot (1, 3, 5, None) = 0" by code_simp+
  with s1 s2(3) have "stock_at s1 (1, 2, 5, None) = 1" "stock_at s2 (1, 3, 5, None) = 5"
    by (simp_all add: sample_transfer_def away_def item_at_def ctl_item_def del: One_nat_def)
  then show ?thesis using t s2(1,2) by blast
qed

section \<open>Adjustments and waste\<close>

lemma moved_around:
  \<comment> \<open>a handler's line: a row is written, goods move, the row's cost is filled in\<close>
  assumes "reconciled s" "moved k a t u"
    and "purchase_lines t = purchase_lines s" "movements t = movements s" "uuid_gen t = uuid_gen s"
    and "purchase_lines s' = purchase_lines u" "movements s' = movements u" "uuid_gen s' = uuid_gen u"
      "uuid_next s' = uuid_next u" "uuid_next s \<le> uuid_next t"
  shows "moved k a s s'"
proof -
  have "drawn s \<subseteq> drawn t" using assms by (intro drawn_le) simp_all
  then show ?thesis using moved_frame [OF assms(2), of s s'] assms by (simp add: drawn_def)
qed

lemma reconciled_around:
  "reconciled s \<Longrightarrow> purchase_lines t = purchase_lines s \<Longrightarrow> movements t = movements s \<Longrightarrow>
     uuid_gen t = uuid_gen s \<Longrightarrow> uuid_next s \<le> uuid_next t \<Longrightarrow> reconciled t"
  by (rule stock_ok_frame) (auto intro: drawn_le [THEN subsetD])

lemma adjust_line_step:
  assumes "reconciled s" "adjust_line c bid br reason t aid user d s = s'"
  shows "moved (item_at bid br (cal_item d)) (cal_qty_delta d) s s' \<and> audits s' = audits s"
proof -
  define i where "i = uuid_gen s (uuid_next s)"
  define l where "l = (new_row i bid (Some user) (now c)
            \<lparr>sal_stock_adjustment_id = aid, sal_product_id = cal_product_id d,
             sal_variation_id = cal_variation_id d, sal_qty_delta = cal_qty_delta d,
             sal_cost_per_unit = 0, sal_notes = cal_notes d\<rparr> :: stock_adjustment_line)"
  let ?s = "s\<lparr>uuid_next := Suc (uuid_next s), adjustment_lines := adjustment_lines s @ [l]\<rparr>"
  let ?k = "(bid, br, cal_product_id d, cal_variation_id d)"
  have k: "item_at bid br (cal_item d) = ?k" by (simp add: item_at_def cal_item_def)
  have f: "fresh_uuid s = (i, s\<lparr>uuid_next := Suc (uuid_next s)\<rparr>)" by (simp add: fresh_uuid_def i_def)
  have rec: "reconciled ?s" by (rule reconciled_around [OF assms(1)]) simp_all
  have "\<exists>u cost. moved ?k (cal_qty_delta d) ?s u \<and> audits u = audits s \<and> s' = u\<lparr>adjustment_lines :=
      update_where (\<lambda>r. row_id r = i) (\<lambda>r. r\<lparr>sal_cost_per_unit := cost\<rparr>) (adjustment_lines u)\<rparr>"
  proof (cases "0 < cal_qty_delta d")
    case True
    define uc where "uc = adjustment_unit_cost ?s bid reason d"
    obtain la u where la: "create_fifo_layer c bid br (cal_product_id d) (cal_variation_id d) (cal_qty_delta d) uc user
        ''adjustment'' (Some t) None None ?s = (la, u)" by fastforce
    obtain m v where m: "create_stock_movement c bid br (cal_product_id d) (cal_variation_id d)
        StockMovementType_adjustment_in (cal_qty_delta d) (pl_cost_per_unit la) ReferenceType_stock_adjustment_line i user
        (Some (row_id la)) None None (cal_notes d) (Some t) None u = (m, v)" by fastforce
    have "s' = v\<lparr>adjustment_lines := update_where (\<lambda>r. row_id r = i)
        (\<lambda>r. r\<lparr>sal_cost_per_unit := pl_cost_per_unit la\<rparr>) (adjustment_lines v)\<rparr>"
      using assms(2) True m
      by (simp add: adjust_line_def f l_def [symmetric] uc_def [symmetric] la Let_def del: new_row_def)
    moreover have "moved ?k (cal_qty_delta d) ?s v" "audits v = audits s"
      using layer_movement_moves [OF rec _ la m] True by simp_all
    ultimately show ?thesis by blast
  next
    case False
    obtain w sl sh u where u: "consume_to_movements c bid br (cal_product_id d) (cal_variation_id d) \<bar>cal_qty_delta d\<bar>
        StockMovementType_adjustment_out ReferenceType_stock_adjustment_line i user t None None (cal_notes d) ?s
        = ((w, sl, sh), u)" by (metis prod_cases3 surj_pair)
    have "s' = u\<lparr>adjustment_lines := update_where (\<lambda>r. row_id r = i)
        (\<lambda>r. r\<lparr>sal_cost_per_unit := w\<rparr>) (adjustment_lines u)\<rparr>"
      using assms(2) False u by (simp add: adjust_line_def f l_def [symmetric] Let_def del: new_row_def)
    moreover have "moved ?k (- \<bar>cal_qty_delta d\<bar>) ?s u \<and> audits u = audits s"
      by (rule consume_to_movements_moves [OF rec _ u]) simp_all
    moreover have "- \<bar>cal_qty_delta d\<bar> = cal_qty_delta d" using False by simp
    ultimately show ?thesis by metis
  qed
  then obtain u cost where u: "moved ?k (cal_qty_delta d) ?s u" "audits u = audits s" and s': "s' = u\<lparr>adjustment_lines :=
      update_where (\<lambda>r. row_id r = i) (\<lambda>r. r\<lparr>sal_cost_per_unit := cost\<rparr>) (adjustment_lines u)\<rparr>" by blast
  have "moved ?k (cal_qty_delta d) s s'" by (rule moved_around [OF assms(1) u(1)]) (simp_all add: s')
  then show ?thesis using u(2) by (simp add: k s')
qed

lemma moves_fold:
  \<comment> \<open>a loop whose every iteration moves goods\<close>
  assumes "reconciled s" "\<And>x s s'. x \<in> set xs \<Longrightarrow> reconciled s \<Longrightarrow> f x s = s' \<Longrightarrow> moved (k x) (a x) s s' \<and> g s' = g s"
  shows "goods.run (map (\<lambda>x. (k x, a x)) xs) s (fold f xs s) \<and> g (fold f xs s) = g s"
  using assms
proof (induction xs arbitrary: s)
  case (Cons x xs)
  have x: "moved (k x) (a x) s (f x s) \<and> g (f x s) = g s" by (rule Cons.prems(2)) (simp_all add: Cons.prems(1))
  have "goods.run (map (\<lambda>x. (k x, a x)) xs) (f x s) (fold f xs (f x s)) \<and> g (fold f xs (f x s)) = g (f x s)"
    by (rule Cons.IH) (use x Cons.prems(2) in \<open>auto simp: moved_def\<close>)
  with x show ?case by (simp only: fold_simps list.map goods.run.simps) auto
qed simp

lemma waste_line_step:
  assumes "reconciled s" "0 \<le> cwl_qty d" "waste_line c bid br t wid user d s = s'"
  shows "moved (item_at bid br (cwl_item d)) (- cwl_qty d) s s' \<and> wastes s' = wastes s"
proof -
  define i where "i = uuid_gen s (uuid_next s)"
  define l where "l = (new_row i bid (Some user) (now c)
            \<lparr>wel_waste_entry_id = wid, wel_product_id = cwl_product_id d,
             wel_variation_id = cwl_variation_id d, wel_qty = cwl_qty d, wel_cost_per_unit = 0,
             wel_batch_number = cwl_batch_number d, wel_expiry_date = cwl_expiry_date d\<rparr> :: waste_entry_line)"
  let ?s = "s\<lparr>uuid_next := Suc (uuid_next s), waste_lines := waste_lines s @ [l]\<rparr>"
  have f: "fresh_uuid s = (i, s\<lparr>uuid_next := Suc (uuid_next s)\<rparr>)" by (simp add: fresh_uuid_def i_def)
  have rec: "reconciled ?s" by (rule reconciled_around [OF assms(1)]) simp_all
  obtain w sl sh u where u: "consume_to_movements c bid br (cwl_product_id d) (cwl_variation_id d) (cwl_qty d)
      StockMovementType_waste ReferenceType_waste_entry_line i user t (cwl_batch_number d) (cwl_expiry_date d) None ?s
      = ((w, sl, sh), u)" by (metis prod_cases3 surj_pair)
  have s': "s' = u\<lparr>waste_lines := update_where (\<lambda>r. row_id r = i) (\<lambda>r. r\<lparr>wel_cost_per_unit := w\<rparr>) (waste_lines u)\<rparr>"
    using assms(3) u by (simp add: waste_line_def f l_def [symmetric] Let_def del: new_row_def)
  have "moved (bid, br, cwl_product_id d, cwl_variation_id d) (- cwl_qty d) ?s u \<and> wastes u = wastes s"
    by (rule consume_to_movements_moves [OF rec assms(2) u]) simp_all
  then have "moved (bid, br, cwl_product_id d, cwl_variation_id d) (- cwl_qty d) s s' \<and> wastes s' = wastes s"
    using moved_around [OF assms(1), of _ _ ?s u s'] by (simp add: s')
  then show ?thesis by (simp add: item_at_def cwl_item_def)
qed

definition audit_line_at :: "(item \<rightharpoonup> decimal) \<Rightarrow> CreateAdjustmentLineRequest list \<Rightarrow> nat \<Rightarrow> audit_line" where
  \<comment> \<open>what the trail says of line \<open>n\<close>: the quantity before it counts the earlier lines of its item\<close>
  "audit_line_at r ls n =
     (let l = ls ! n; before = or_else (r (cal_item l)) 0 +
            sum_where cal_qty_delta (\<lambda>e. cal_item e = cal_item l) (List.take n ls)
      in \<lparr>aul_item = cal_item l, aul_qty_before = before, aul_qty_delta = cal_qty_delta l,
          aul_qty_after = before + cal_qty_delta l\<rparr>)"

lemma audit_lines_of_fold:
  "fst (fold audit_step ls (acc, r)) = acc @ map (audit_line_at r ls) [0..<length ls]"
proof (induction ls arbitrary: acc r)
  case (Cons l ls)
  obtain acc' r' where s: "audit_step l (acc, r) = (acc', r')" by fastforce
  then have e: "acc' = acc @ [audit_line_at r (l # ls) 0]"
    "r' = r(cal_item l \<mapsto> or_else (r (cal_item l)) 0 + cal_qty_delta l)"
    by (auto simp: audit_step_def Let_def audit_line_at_def)
  have "audit_line_at r' ls n = audit_line_at r (l # ls) (Suc n)" for n
    by (auto simp: audit_line_at_def e(2) Let_def)
  then show ?case
    by (simp only: fold_simps s Cons.IH e(1) list.size map_upt_Suc add_Suc_right add_0_right append_assoc append_Cons append_Nil
        Suc_eq_plus1 [symmetric])
qed simp

definition truthful :: "db \<Rightarrow> uuid \<Rightarrow> uuid \<Rightarrow> CreateAdjustmentLineRequest list \<Rightarrow> audit_line list \<Rightarrow> bool" where
  \<comment> \<open>each line of the trail names the item's quantity before and after that line\<close>
  "truthful s bid br ls al \<longleftrightarrow> length al = length ls \<and>
     (\<forall>n < length ls. let i = cal_item (ls ! n) in
        aul_item (al ! n) = i \<and> aul_qty_delta (al ! n) = cal_qty_delta (ls ! n) \<and>
        aul_qty_before (al ! n) = stock_at s (item_at bid br i) +
          sum_where cal_qty_delta (\<lambda>e. cal_item e = i) (List.take n ls) \<and>
        aul_qty_after (al ! n) = stock_at s (item_at bid br i) +
          sum_where cal_qty_delta (\<lambda>e. cal_item e = i) (List.take (Suc n) ls))"

lemma on_hand_of:
  assumes "i \<in> set is"
  shows "map_of (map (\<lambda>(p, v). ((p, v), get_stock_balance s bid br p v)) is) i = Some (stock_at s (item_at bid br i))"
  using assms by (induction "is") (auto simp: stock_at_def item_at_def)

lemma audit_lines_truthful:
  "truthful s bid br ls (audit_lines_of (map_of (map (\<lambda>(p, v). ((p, v), get_stock_balance s bid br p v)) (map cal_item ls))) ls)"
  unfolding truthful_def audit_lines_of_def audit_lines_of_fold
  by (auto simp: audit_line_at_def Let_def take_Suc_conv_app_nth on_hand_of simp del: map_map)

text \<open>
  C32. A stock adjustment moves the balance of every position by exactly the sum of its lines'
  deltas and no other, and keeps layers and movements reconciled, whether a line opens a layer or
  consumes some. Unless negative stock is allowed, what its outgoing lines take of an item was
  there. Its audit entry tells the truth: line by line, the quantities of the item before and
  after that line.
\<close>

theorem stock_adjustment_correct:
  assumes "reconciled s" "create_stock_adjustment c bid data user s = Inr (adj, s')"
  defines "br \<equiv> caj_branch_id data" and "ls \<equiv> caj_lines data"
  shows "reconciled s' \<and>
    (\<forall>k. stock_at s' k = stock_at s k + sum_where cal_qty_delta (\<lambda>l. item_at bid br (cal_item l) = k) ls) \<and>
    (get_allow_negative_stock s bid = Inr False \<longrightarrow> (\<forall>l\<in>set ls. cal_qty_delta l < 0 \<longrightarrow>
       sum_where (\<lambda>e. \<bar>cal_qty_delta e\<bar>) (\<lambda>e. cal_qty_delta e < 0 \<and> cal_item e = cal_item l) ls \<le>
       stock_at s (item_at bid br (cal_item l)))) \<and>
    (\<exists>entry al. audits s' = audits s @ [entry] \<and> al_record_id entry = row_id adj \<and> truthful s bid br ls al \<and>
       map_of (the (al_new_values entry)) ''lines'' = Some (JList (map audit_line_json al)))"
proof -
  let ?outs = "map (\<lambda>l. (cal_item l, \<bar>cal_qty_delta l\<bar>)) (filter (\<lambda>l. cal_qty_delta l < 0) ls)"
  obtain n s2 where n: "generate_document_number c bid ''ADJ'' s = (n, s2)" by fastforce
  obtain cs k where s2: "s2 = s\<lparr>counters := cs, uuid_next := k\<rparr>" "uuid_next s \<le> k"
    using generate_document_number_frame [OF n] by (cases s) auto
  define i where "i = uuid_gen s2 (uuid_next s2)"
  define at0 where "at0 = or_else (caj_adjusted_at data) (now c)"
  define r0 where "r0 = (new_row i bid (Some user) (now c)
      \<lparr>sa_branch_id = br, sa_adjustment_number = n, sa_reason = caj_reason data, sa_adjusted_at = at0,
       sa_notes = caj_notes data\<rparr> :: stock_adjustment)"
  define s0 where "s0 = s2\<lparr>uuid_next := Suc (uuid_next s2), adjustments := adjustments s2 @ [r0]\<rparr>"
  define u where "u = fold (adjust_line c bid br (caj_reason data) at0 i user) ls s0"
  define al where "al = audit_lines_of (map_of (map (\<lambda>(p, v). ((p, v), get_stock_balance s bid br p v)) (map cal_item ls))) ls"
  have f: "fresh_uuid s2 = (i, s2\<lparr>uuid_next := Suc (uuid_next s2)\<rparr>)" by (simp add: fresh_uuid_def i_def)
  have r: "adj = r0" "s' = log_adjustment bid data user i n al u"
    and av: "get_allow_negative_stock s bid = Inr False \<longrightarrow> assert_stock_available s bid br ?outs = Inr ()"
    using assms(2)
    by (auto simp: create_stock_adjustment_def bind_res_Inr n f br_def [symmetric] ls_def [symmetric] al_def [symmetric]
        at0_def [symmetric] r0_def [symmetric] s0_def [symmetric] u_def [symmetric] Let_def simp del: new_row_def map_map split: if_splits)
  have rec: "reconciled s0" by (rule reconciled_around [OF assms(1)]) (use s2(2) in \<open>simp_all add: s0_def s2(1)\<close>)
  have "goods.run (map (\<lambda>l. (item_at bid br (cal_item l), cal_qty_delta l)) ls) s0 u \<and> audits u = audits s0"
    unfolding u_def by (rule moves_fold [OF rec]) (rule adjust_line_step)
  then have run: "goods.run (map (\<lambda>l. (item_at bid br (cal_item l), cal_qty_delta l)) ls) s0 u"
    and au: "audits u = audits s" by (simp_all add: s0_def s2(1))
  have log: "stock_at s' = stock_at u" "reconciled s' = reconciled u"
    by (auto simp: r(2) log_adjustment_def stock_at_sum fun_eq_iff elim: reconciled_around
        intro: stock_ok_frame [of "\<lambda>_. 0" u] stock_ok_frame [of "\<lambda>_. 0" "log_adjustment bid data user i n al u" u])
  have "stock_at s0 = stock_at s" by (simp add: stock_at_sum s0_def s2(1) fun_eq_iff)
  then have "\<forall>k. stock_at s' k = stock_at s k + sum_where cal_qty_delta (\<lambda>l. item_at bid br (cal_item l) = k) ls"
    using runs_map_stock [OF run] by (simp add: log(1))
  moreover have "reconciled s'" using runs_reconciled [OF run rec] log(2) by simp
  moreover have "sum_where (\<lambda>e. \<bar>cal_qty_delta e\<bar>) (\<lambda>e. cal_qty_delta e < 0 \<and> cal_item e = cal_item l) ls \<le>
       stock_at s (item_at bid br (cal_item l))"
    if "get_allow_negative_stock s bid = Inr False" "l \<in> set ls" "cal_qty_delta l < 0" for l
  proof -
    have "sum_where snd (\<lambda>e. fst e = cal_item l) ?outs \<le> stock_at s (item_at bid br (cal_item l))"
      using assert_stock_available_Inr [OF av [rule_format, OF that(1)], of "cal_item l"] that(2,3) by force
    then show ?thesis by (simp add: sum_where_def filter_map comp_def)
  qed
  moreover have "\<exists>entry. audits s' = audits s @ [entry] \<and> al_record_id entry = row_id adj \<and>
      map_of (the (al_new_values entry)) ''lines'' = Some (JList (map audit_line_json al))"
    by (simp add: r log_adjustment_def log_audit_def au r0_def)
  moreover have "truthful s bid br ls al" unfolding al_def by (rule audit_lines_truthful)
  ultimately show ?thesis by blast
qed

definition sample_adjustment :: CreateStockAdjustmentRequest where
  \<comment> \<open>two units found, five lost, of an item with six\<close>
  "sample_adjustment = \<lparr>caj_branch_id = 2, caj_reason = AdjustmentReason_count_correction, caj_notes = None,
     caj_adjusted_at = None,
     caj_lines = [\<lparr>cal_product_id = 5, cal_variation_id = None, cal_qty_delta = 2, cal_cost_per_unit = None, cal_notes = None\<rparr>,
       \<lparr>cal_product_id = 5, cal_variation_id = None, cal_qty_delta = - 5, cal_cost_per_unit = None, cal_notes = None\<rparr>]\<rparr>"

lemma sample_adjustment_accepted:
  "\<exists>a s'. create_stock_adjustment sample_clock 1 sample_adjustment 9 sample_store = Inr (a, s')"
proof -
  have "(case verify_branch sample_store 2 1 of Inl _ \<Rightarrow> False | Inr _ \<Rightarrow> True)" by code_simp
  then obtain b where "verify_branch sample_store 2 1 = Inr b" by (auto split: sum.splits)
  moreover have "verify_lines sample_store 1 (map cal_item (caj_lines sample_adjustment)) = Inr ()"
    "get_allow_negative_stock sample_store 1 = Inr False"
    "assert_stock_available sample_store 1 2 (map (\<lambda>l. (cal_item l, \<bar>cal_qty_delta l\<bar>))
       (filter (\<lambda>l. cal_qty_delta l < 0) (caj_lines sample_adjustment))) = Inr ()" by code_simp+
  moreover have "caj_branch_id sample_adjustment = 2" by (simp add: sample_adjustment_def)
  ultimately show ?thesis
    by (simp add: create_stock_adjustment_def Let_def split_beta del: new_row_def One_nat_def)
qed

lemma stock_adjustment_correct_witness:
  "\<exists>a s'. create_stock_adjustment sample_clock 1 sample_adjustment 9 sample_store = Inr (a, s') \<and>
     reconciled s' \<and> stock_at s' (1, 2, 5, None) = 3"
proof -
  obtain a s' where a: "create_stock_adjustment sample_clock 1 sample_adjustment 9 sample_store = Inr (a, s')"
    using sample_adjustment_accepted by blast
  have "stock_at sample_store (1, 2, 5, None) = 6" by code_simp
  moreover note stock_adjustment_correct [OF sample_store_ok a]
  ultimately show ?thesis using a
    by (simp add: sample_adjustment_def item_at_def cal_item_def del: One_nat_def)
qed

text \<open>
  The old values of that entry are a dictionary by product alone, so of two lines for one product,
  a second variation or the same item again, the last one's running quantity replaces the first's.
\<close>

lemma audit_before_overwritten:
  "(let ls = caj_lines sample_adjustment; al = audit_lines_of [(5, None) \<mapsto> 6] ls
    in map aul_qty_before al = [6, 8] \<and>
       AList.updates (map (\<lambda>l. uuid_key (fst (aul_item l))) al) (map (\<lambda>l. aul_qty_before l) al) [] = [(''5'', 8)])"
  by code_simp

lemma create_waste_entry_correct:
  assumes "reconciled s" "valid_waste data" "create_waste_entry c bid data user s = Inr (entry, s')"
  shows "reconciled s' \<and> wastes s' = wastes s @ [entry] \<and>
    (\<forall>k. stock_at s' k = stock_at s k -
       sum_where cwl_qty (\<lambda>l. item_at bid (cwe_branch_id data) (cwl_item l) = k) (cwe_lines data))"
proof -
  let ?br = "cwe_branch_id data" and ?ls = "cwe_lines data"
  obtain n s2 where n: "generate_document_number c bid ''WST'' s = (n, s2)" by fastforce
  obtain cs k where s2: "s2 = s\<lparr>counters := cs, uuid_next := k\<rparr>" "uuid_next s \<le> k"
    using generate_document_number_frame [OF n] by (cases s) auto
  define i where "i = uuid_gen s2 (uuid_next s2)"
  define at0 where "at0 = or_else (cwe_wasted_at data) (now c)"
  have f: "fresh_uuid s2 = (i, s2\<lparr>uuid_next := Suc (uuid_next s2)\<rparr>)" by (simp add: fresh_uuid_def i_def)
  define s0 where "s0 = s2\<lparr>uuid_next := Suc (uuid_next s2), wastes := wastes s2 @ [entry]\<rparr>"
  have s': "s' = fold (waste_line c bid ?br at0 i user) ?ls s0"
    using assms(3)
    by (auto simp: create_waste_entry_def bind_res_Inr n f at0_def [symmetric] s0_def Let_def simp del: new_row_def)
  have rec: "reconciled s0" by (rule reconciled_around [OF assms(1)]) (use s2(2) in \<open>simp_all add: s0_def s2(1)\<close>)
  have q: "\<forall>l\<in>set ?ls. 0 \<le> cwl_qty l" using assms(2) by (auto simp: valid_waste_def less_imp_le)
  have "goods.run (map (\<lambda>l. (item_at bid ?br (cwl_item l), - cwl_qty l)) ?ls) s0 s' \<and> wastes s' = wastes s0"
    unfolding s' by (rule moves_fold [OF rec]) (use q waste_line_step in blast)
  then have run: "goods.run (map (\<lambda>l. (item_at bid ?br (cwl_item l), - cwl_qty l)) ?ls) s0 s'"
    and w: "wastes s' = wastes s @ [entry]" by (simp_all add: s0_def s2(1))
  have "stock_at s0 = stock_at s" by (simp add: stock_at_sum s0_def s2(1) fun_eq_iff)
  then show ?thesis
    using runs_map_stock [OF run] runs_reconciled [OF run rec] w by (simp add: sum_where_minus)
qed

end
