(* ===== verification/Purchasing.thy ===== *)
theory Purchasing
  imports Documents
begin

text \<open>
  \<open>app/services/supplier_service.py\<close> and \<open>app/services/purchase_service.py\<close>: suppliers, purchase
  orders and goods receipts. A line of a purchase order doubles as a cost layer for the goods that
  arrive at its price; goods invoiced at another price open a layer of their own.
\<close>

section \<open>Suppliers\<close>

record CreateSupplierRequest =
  csu_name :: string
  csu_contact_person :: "string option"
  csu_email :: "string option"
  csu_phone :: "string option"
  csu_tax_id :: "string option"
  csu_address_line1 :: "string option"
  csu_city :: "string option"
  csu_payment_terms_days :: int

record UpdateSupplierRequest =
  usu_name :: "string option"
  usu_contact_person :: "string option"
  usu_email :: "string option"
  usu_phone :: "string option"
  usu_is_active :: "bool option"
  usu_payment_terms_days :: "int option"

definition create_supplier :: "clock \<Rightarrow> uuid \<Rightarrow> CreateSupplierRequest \<Rightarrow> uuid \<Rightarrow> db \<Rightarrow> supplier \<times> db" where
  "create_supplier c bid data user s =
     (let (i, s) = fresh_uuid s;
          supplier = new_row i bid (Some user) (now c)
            \<lparr>su_name = csu_name data, su_contact_person = csu_contact_person data,
             su_email = nonempty (csu_email data), su_phone = csu_phone data, su_tax_id = csu_tax_id data,
             su_address_line1 = csu_address_line1 data, su_city = csu_city data,
             su_payment_terms_days = csu_payment_terms_days data, su_is_active = True\<rparr>
      in (supplier, s\<lparr>suppliers := suppliers s @ [supplier]\<rparr>))"

definition edit_supplier :: "clock \<Rightarrow> UpdateSupplierRequest \<Rightarrow> uuid \<Rightarrow> supplier \<Rightarrow> supplier" where
  "edit_supplier c data user r = r\<lparr>
     su_name := or_else (usu_name data) (su_name r),
     su_contact_person := set_some (usu_contact_person data) (su_contact_person r),
     su_email := set_some (usu_email data) (su_email r),
     su_phone := set_some (usu_phone data) (su_phone r),
     su_is_active := or_else (usu_is_active data) (su_is_active r),
     su_payment_terms_days := or_else (usu_payment_terms_days data) (su_payment_terms_days r),
     updated_by := Some user, updated_at := now c\<rparr>"

definition update_supplier ::
  "clock \<Rightarrow> uuid \<Rightarrow> uuid \<Rightarrow> UpdateSupplierRequest \<Rightarrow> uuid \<Rightarrow> db \<Rightarrow> db res" where
  "update_supplier c supplier_id bid data user s =
     bind_res (get_supplier_by_id s supplier_id bid) (\<lambda>r.
       Inr (s\<lparr>suppliers := update_where (\<lambda>x. row_id x = row_id r) (edit_supplier c data user) (suppliers s)\<rparr>))"

definition open_order_of :: "uuid \<Rightarrow> uuid \<Rightarrow> purchase_order \<Rightarrow> bool" where
  "open_order_of bid supplier_id r \<longleftrightarrow> po_supplier_id r = supplier_id \<and> business_id r = bid \<and> live r \<and>
     po_status r \<noteq> PurchaseOrderStatus_cancelled"

definition delete_supplier :: "clock \<Rightarrow> uuid \<Rightarrow> uuid \<Rightarrow> uuid \<Rightarrow> db \<Rightarrow> db res" where
  "delete_supplier c supplier_id bid user s =
     bind_res (get_supplier_by_id s supplier_id bid) (\<lambda>r.
       if 0 < length (filter (open_order_of bid supplier_id) (purchase_orders s))
       then bad_request ''Cannot delete supplier with active purchase orders''
       else Inr (s\<lparr>suppliers := update_where (\<lambda>x. row_id x = row_id r)
              (\<lambda>x. x\<lparr>deleted_at := Some (now c), deleted_by := Some user, updated_at := now c,
                     updated_by := Some user\<rparr>) (suppliers s)\<rparr>))"

section \<open>Purchase orders\<close>

record CreatePurchaseLineRequest =
  cpl_product_id :: uuid
  cpl_variation_id :: "uuid option"
  cpl_ordered_qty :: decimal
  cpl_cost_per_unit :: decimal
  cpl_tax_rate :: decimal
  cpl_batch_number :: "string option"
  cpl_expiry_date :: "date option"

record CreatePurchaseOrderRequest =
  cpo_supplier_id :: uuid
  cpo_branch_id :: uuid
  cpo_expected_at :: "datetime option"
  cpo_notes :: "string option"
  cpo_lines :: "CreatePurchaseLineRequest list"

definition valid_purchase_order :: "CreatePurchaseOrderRequest \<Rightarrow> bool" where
  "valid_purchase_order data \<longleftrightarrow> cpo_lines data \<noteq> [] \<and> (\<forall>l\<in>set (cpo_lines data).
     0 < cpl_ordered_qty l \<and> 0 \<le> cpl_cost_per_unit l \<and> 0 \<le> cpl_tax_rate l \<and> cpl_tax_rate l \<le> 100)"

definition get_purchase_orders ::
  "db \<Rightarrow> uuid \<Rightarrow> uuid option \<Rightarrow> uuid option \<Rightarrow> string option \<Rightarrow> nat \<Rightarrow> nat \<Rightarrow> purchase_order list \<times> nat" where
  "get_purchase_orders s bid branch_id supplier_id st skip limit =
     (let rows = filter (\<lambda>r. business_id r = bid \<and> live r \<and> opt_eq branch_id (po_branch_id r) \<and>
            opt_eq supplier_id (po_supplier_id r) \<and>
            opt_eq st (PurchaseOrderStatusEnum_value (po_status r))) (purchase_orders s)
      in (take limit (drop skip (sort_key (\<lambda>r. - created_at r) rows)), length rows))"

definition get_purchase_order_by_id :: "db \<Rightarrow> uuid \<Rightarrow> uuid \<Rightarrow> purchase_order res" where
  "get_purchase_order_by_id s po_id bid =
     require_one (HTTPException 404 ''Purchase order not found'' [])
       (filter (\<lambda>r. row_id r = po_id \<and> business_id r = bid \<and> live r) (purchase_orders s))"

definition cpl_item :: "CreatePurchaseLineRequest \<Rightarrow> item" where
  "cpl_item l = (cpl_product_id l, cpl_variation_id l)"

definition add_purchase_line ::
  "clock \<Rightarrow> uuid \<Rightarrow> uuid \<Rightarrow> uuid \<Rightarrow> uuid \<Rightarrow> CreatePurchaseLineRequest \<Rightarrow> db \<Rightarrow> db" where
  "add_purchase_line c bid branch_id po_id user data s =
     (let (i, s) = fresh_uuid s;
          line = new_row i bid (Some user) (now c)
            \<lparr>pl_purchase_order_id = Some po_id, pl_production_order_id = None,
             pl_product_id = cpl_product_id data, pl_variation_id = cpl_variation_id data,
             pl_ordered_qty = cpl_ordered_qty data, pl_received_qty = 0, pl_qty_remaining = 0,
             pl_cost_per_unit = cpl_cost_per_unit data, pl_tax_rate = cpl_tax_rate data,
             pl_branch_id = Some branch_id, pl_layer_source = ''purchase'',
             pl_batch_number = cpl_batch_number data, pl_expiry_date = cpl_expiry_date data\<rparr>
      in s\<lparr>purchase_lines := purchase_lines s @ [line]\<rparr>)"

definition create_purchase_order ::
  "clock \<Rightarrow> uuid \<Rightarrow> CreatePurchaseOrderRequest \<Rightarrow> uuid \<Rightarrow> db \<Rightarrow> (purchase_order \<times> db) res" where
  "create_purchase_order c bid data user s =
     bind_res (get_supplier_by_id s (cpo_supplier_id data) bid) (\<lambda>_.
     bind_res (verify_branch s (cpo_branch_id data) bid) (\<lambda>_.
     bind_res (verify_lines s bid (map cpl_item (cpo_lines data))) (\<lambda>_.
       let (number, s) = generate_document_number c bid ''PO'' s;
           (i, s) = fresh_uuid s;
           po = new_row i bid (Some user) (now c)
             \<lparr>po_branch_id = cpo_branch_id data, po_supplier_id = cpo_supplier_id data, po_number = number,
              po_status = PurchaseOrderStatus_draft, po_ordered_at = None,
              po_expected_at = cpo_expected_at data, po_notes = cpo_notes data\<rparr>;
           s = s\<lparr>purchase_orders := purchase_orders s @ [po]\<rparr>
       in Inr (po, fold (add_purchase_line c bid (cpo_branch_id data) i user) (cpo_lines data) s))))"

fun ALLOWED_TRANSITIONS :: "PurchaseOrderStatusEnum \<Rightarrow> PurchaseOrderStatusEnum set" where
  "ALLOWED_TRANSITIONS PurchaseOrderStatus_draft = {PurchaseOrderStatus_ordered, PurchaseOrderStatus_cancelled}"
| "ALLOWED_TRANSITIONS PurchaseOrderStatus_ordered = {PurchaseOrderStatus_cancelled}"
| "ALLOWED_TRANSITIONS _ = {}"

definition invalid_order_transition :: "PurchaseOrderStatusEnum \<Rightarrow> PurchaseOrderStatusEnum \<Rightarrow> 'a res" where
  "invalid_order_transition current target = Inl (HTTPException 400 ''Invalid status transition from {} to {}''
     [AStr (PurchaseOrderStatusEnum_value current), AStr (PurchaseOrderStatusEnum_value target)])"

definition update_purchase_order_status ::
  "clock \<Rightarrow> uuid \<Rightarrow> uuid \<Rightarrow> PurchaseOrderStatusEnum \<Rightarrow> uuid \<Rightarrow> db \<Rightarrow> db res" where
  "update_purchase_order_status c po_id bid target user s =
     bind_res (get_purchase_order_by_id s po_id bid) (\<lambda>po.
       let current = po_status po in
       if current = PurchaseOrderStatus_received
       then bad_request ''Cannot change status of a received purchase order''
       else if current = PurchaseOrderStatus_partial then invalid_order_transition current target
       else if target \<notin> ALLOWED_TRANSITIONS current then invalid_order_transition current target
       else Inr (s\<lparr>purchase_orders := update_where (\<lambda>r. row_id r = row_id po)
              (\<lambda>r. r\<lparr>po_status := target, updated_by := Some user, updated_at := now c,
                 po_ordered_at := (if target = PurchaseOrderStatus_ordered \<and> po_ordered_at r = None
                                   then Some (now c) else po_ordered_at r)\<rparr>) (purchase_orders s)\<rparr>))"

section \<open>Goods receipts\<close>

record CreateReceiptLineRequest =
  crl_product_id :: uuid
  crl_variation_id :: "uuid option"
  crl_purchase_line_id :: "uuid option"
  crl_qty_received :: decimal
  crl_cost_per_unit :: decimal
  crl_batch_number :: "string option"
  crl_expiry_date :: "date option"

record CreatePurchaseReceiptRequest =
  cpr_branch_id :: uuid
  cpr_supplier_id :: uuid
  cpr_purchase_order_id :: "uuid option"
  cpr_supplier_invoice_no :: "string option"
  cpr_notes :: "string option"
  cpr_received_at :: "datetime option"
  cpr_lines :: "CreateReceiptLineRequest list"

definition valid_purchase_receipt :: "CreatePurchaseReceiptRequest \<Rightarrow> bool" where
  "valid_purchase_receipt data \<longleftrightarrow> cpr_lines data \<noteq> [] \<and> (\<forall>l\<in>set (cpr_lines data).
     0 < crl_qty_received l \<and> 0 \<le> crl_cost_per_unit l)"

definition crl_item :: "CreateReceiptLineRequest \<Rightarrow> item" where
  "crl_item l = (crl_product_id l, crl_variation_id l)"

definition order_lines :: "db \<Rightarrow> purchase_order \<Rightarrow> purchase_line list" where
  "order_lines s po = filter (\<lambda>l. pl_purchase_order_id l = Some (row_id po) \<and> business_id l = business_id po \<and>
     live l) (purchase_lines s)"

definition update_po_status_from_receipt :: "clock \<Rightarrow> uuid \<Rightarrow> purchase_order \<Rightarrow> db \<Rightarrow> db" where
  "update_po_status_from_receipt c user po s =
     (if order_lines s po = [] then s
      else s\<lparr>purchase_orders := update_where (\<lambda>r. row_id r = row_id po)
        (\<lambda>r. r\<lparr>po_status := (if list_all (\<lambda>l. pl_ordered_qty l \<le> pl_received_qty l) (order_lines s po)
               then PurchaseOrderStatus_received else PurchaseOrderStatus_partial),
               updated_by := Some user, updated_at := now c\<rparr>) (purchase_orders s)\<rparr>)"

definition receipt_order :: "db \<Rightarrow> uuid \<Rightarrow> CreatePurchaseReceiptRequest \<Rightarrow> purchase_order option res" where
  "receipt_order s bid data =
     (case cpr_purchase_order_id data of None \<Rightarrow> Inr None
      | Some po_id \<Rightarrow> bind_res (get_purchase_order_by_id s po_id bid) (\<lambda>po.
          if po_status po = PurchaseOrderStatus_cancelled
          then bad_request ''Cannot receive goods against a cancelled purchase order''
          else if po_supplier_id po \<noteq> cpr_supplier_id data
          then bad_request ''supplier_id does not match the purchase order''
          else if po_branch_id po \<noteq> cpr_branch_id data
          then bad_request ''branch_id does not match the purchase order''
          else Inr (Some po)))"

definition line_ids_of :: "CreatePurchaseReceiptRequest \<Rightarrow> uuid list" where
  "line_ids_of data = remdups (List.map_filter crl_purchase_line_id (cpr_lines data))"

definition lock_order_lines ::
  "db \<Rightarrow> uuid \<Rightarrow> purchase_order option \<Rightarrow> uuid list \<Rightarrow> (uuid \<rightharpoonup> purchase_line) res" where
  \<comment> \<open>\<open>po_lines\<close>, as the rows are before the receipt writes anything\<close>
  "lock_order_lines s bid po line_ids =
     (if line_ids = [] then Inr Map.empty
      else case po of None \<Rightarrow> bad_request ''purchase_order_id is required when purchase_line_id is given''
        | Some po \<Rightarrow>
            let locked = map_of (map (\<lambda>l. (row_id l, l)) (filter (\<lambda>l. row_id l \<in> set line_ids \<and> business_id l = bid \<and>
                  pl_purchase_order_id l = Some (row_id po) \<and> live l) (purchase_lines s)))
            in if list_ex (\<lambda>i. locked i = None) line_ids
               then bad_request ''Purchase line does not belong to this purchase order''
               else Inr locked)"

definition check_receipt_line ::
  "db \<Rightarrow> uuid \<Rightarrow> (uuid \<rightharpoonup> purchase_line) \<Rightarrow> CreateReceiptLineRequest \<Rightarrow> (uuid \<Rightarrow> decimal) \<Rightarrow> (uuid \<Rightarrow> decimal) res" where
  \<comment> \<open>carries \<open>pending_by_line\<close>, 0 where it has no entry\<close>
  "check_receipt_line s bid po_lines line pend =
     bind_res (verify_product s (crl_product_id line) bid) (\<lambda>_.
     bind_res (case crl_variation_id line of None \<Rightarrow> Inr ()
               | Some v \<Rightarrow> bind_res (verify_variation s v (crl_product_id line) bid) (\<lambda>_. Inr ())) (\<lambda>_.
     case crl_purchase_line_id line of None \<Rightarrow> Inr pend
     | Some i \<Rightarrow> (case po_lines i of None \<Rightarrow> Inl (PyError ''KeyError'')
       | Some pl \<Rightarrow>
         if pl_product_id pl \<noteq> crl_product_id line \<or> pl_variation_id pl \<noteq> crl_variation_id line
         then bad_request ''Receipt line product/variation does not match the purchase line''
         else if pl_ordered_qty pl < pl_received_qty pl + pend i + crl_qty_received line
         then Inl (HTTPException 400 ''Over-receipt: ordered {}, already received {}, this receipt adds {}''
                [ADec (pl_ordered_qty pl), ADec (pl_received_qty pl), ADec (crl_qty_received line)])
         else Inr (pend(i := pend i + crl_qty_received line)))))"

definition fill_order_line ::
  "clock \<Rightarrow> uuid \<Rightarrow> datetime \<Rightarrow> uuid \<Rightarrow> CreateReceiptLineRequest \<Rightarrow> bool \<Rightarrow> purchase_line \<Rightarrow> purchase_line" where
  \<comment> \<open>the mutations of the order line, \<open>at_its_cost\<close> when it is to be the layer\<close>
  "fill_order_line c branch_id received_at user line at_its_cost pl =
     (let first_receipt = pl_received_qty pl = 0;
          pl = pl\<lparr>pl_received_qty := pl_received_qty pl + crl_qty_received line,
                 updated_by := Some user, updated_at := now c\<rparr>
      in if at_its_cost then
           pl\<lparr>pl_qty_remaining := pl_qty_remaining pl + crl_qty_received line,
              pl_branch_id := Some branch_id,
              created_at := (if first_receipt then received_at else created_at pl),
              pl_batch_number := set_some (crl_batch_number line) (pl_batch_number pl),
              pl_expiry_date := set_some (crl_expiry_date line) (pl_expiry_date pl)\<rparr>
         else pl)"

definition order_line_at :: "db \<Rightarrow> uuid option \<Rightarrow> purchase_line option" where
  "order_line_at s i = (case i of None \<Rightarrow> None | Some i \<Rightarrow> first_row (filter (\<lambda>l. row_id l = i) (purchase_lines s)))"

definition receipt_layer ::
  "clock \<Rightarrow> uuid \<Rightarrow> uuid \<Rightarrow> datetime \<Rightarrow> uuid \<Rightarrow> CreateReceiptLineRequest \<Rightarrow> db \<Rightarrow> uuid \<times> db" where
  \<comment> \<open>the layer the goods of a receipt line go to: the order line itself, or a new one\<close>
  "receipt_layer c bid branch_id received_at user line s =
     (let cost = round4 (crl_cost_per_unit line);
          new_layer = (\<lambda>s. let (layer, s) = create_fifo_layer c bid branch_id (crl_product_id line)
              (crl_variation_id line) (crl_qty_received line) cost user ''receipt'' (Some received_at)
              (crl_batch_number line) (crl_expiry_date line) s in (row_id layer, s))
      in case order_line_at s (crl_purchase_line_id line) of
           None \<Rightarrow> new_layer s
         | Some pl \<Rightarrow>
             let at_its_cost = (round4 (pl_cost_per_unit pl) = cost);
                 s = s\<lparr>purchase_lines := update_where (\<lambda>l. row_id l = row_id pl)
                        (fill_order_line c branch_id received_at user line at_its_cost) (purchase_lines s)\<rparr>
             in if at_its_cost then (row_id pl, s) else new_layer s)"

definition receive_goods ::
  "clock \<Rightarrow> uuid \<Rightarrow> CreatePurchaseReceiptRequest \<Rightarrow> datetime \<Rightarrow> string \<Rightarrow> uuid \<Rightarrow> uuid \<Rightarrow>
   CreateReceiptLineRequest \<Rightarrow> db \<Rightarrow> db" where
  "receive_goods c bid data received_at receipt_number receipt_id user line s =
     (let (i, s) = fresh_uuid s;
          receipt_line = new_row i bid (Some user) (now c)
            \<lparr>prn_purchase_receipt_id = receipt_id, prn_purchase_line_id = crl_purchase_line_id line,
             prn_product_id = crl_product_id line, prn_variation_id = crl_variation_id line,
             prn_qty_received = crl_qty_received line, prn_cost_per_unit = crl_cost_per_unit line,
             prn_batch_number = crl_batch_number line, prn_expiry_date = crl_expiry_date line\<rparr>;
          s = s\<lparr>purchase_receipt_lines := purchase_receipt_lines s @ [receipt_line]\<rparr>;
          cost = round4 (crl_cost_per_unit line);
          (layer, s) = receipt_layer c bid (cpr_branch_id data) received_at user line s;
          (_, s) = create_stock_movement c bid (cpr_branch_id data) (crl_product_id line) (crl_variation_id line)
            StockMovementType_purchase (crl_qty_received line) cost ReferenceType_purchase_receipt_line i user
            (Some layer) (crl_batch_number line) (crl_expiry_date line) None (Some received_at) None s;
          value = quantize_even 2 (crl_qty_received line * cost)
      in if 0 < value then
           snd (create_supplier_ledger_entry c bid (cpr_supplier_id data) LedgerEntryType_sale (- value)
             (Some ReferenceType_purchase_receipt_line) (Some i) (Some (''Goods receipt '' @ receipt_number)) (Some user) s)
         else s)"

definition roll_up_order :: "clock \<Rightarrow> uuid \<Rightarrow> purchase_order option \<Rightarrow> db \<Rightarrow> db" where
  "roll_up_order c user po s = (case po of None \<Rightarrow> s | Some po \<Rightarrow> update_po_status_from_receipt c user po s)"

definition create_purchase_receipt ::
  "clock \<Rightarrow> uuid \<Rightarrow> CreatePurchaseReceiptRequest \<Rightarrow> uuid \<Rightarrow> db \<Rightarrow> (purchase_receipt \<times> db) res" where
  "create_purchase_receipt c bid data user s =
     (let received_at = or_else (cpr_received_at data) (now c) in
     bind_res (verify_branch s (cpr_branch_id data) bid) (\<lambda>_.
     bind_res (get_supplier_by_id s (cpr_supplier_id data) bid) (\<lambda>_.
     bind_res (receipt_order s bid data) (\<lambda>po.
     bind_res (lock_order_lines s bid po (line_ids_of data)) (\<lambda>po_lines.
     bind_res (fold_res (check_receipt_line s bid po_lines) (cpr_lines data) (\<lambda>_. 0)) (\<lambda>_.
       let (number, s) = generate_document_number c bid ''GRN'' s;
           (i, s) = fresh_uuid s;
           receipt = new_row i bid (Some user) (now c)
             \<lparr>pr_branch_id = cpr_branch_id data, pr_purchase_order_id = cpr_purchase_order_id data,
              pr_supplier_id = cpr_supplier_id data, pr_receipt_number = number, pr_received_at = received_at,
              pr_supplier_invoice_no = cpr_supplier_invoice_no data, pr_notes = cpr_notes data\<rparr>;
           s = s\<lparr>purchase_receipts := purchase_receipts s @ [receipt]\<rparr>;
           s = fold (receive_goods c bid data received_at number i user) (cpr_lines data) s
       in Inr (receipt, roll_up_order c user po s)))))))"

definition get_purchase_receipt_by_id :: "db \<Rightarrow> uuid \<Rightarrow> uuid \<Rightarrow> purchase_receipt res" where
  "get_purchase_receipt_by_id s receipt_id bid =
     require_one (HTTPException 404 ''Purchase receipt not found'' [])
       (filter (\<lambda>r. row_id r = receipt_id \<and> business_id r = bid \<and> live r) (purchase_receipts s))"

section \<open>What a receipt does to the order lines\<close>

definition same_place :: "purchase_line \<Rightarrow> purchase_line \<Rightarrow> bool" where
  "same_place r r' \<longleftrightarrow> row_id r' = row_id r \<and> deleted_at r' = deleted_at r \<and> layer_position r' = layer_position r \<and>
     pl_purchase_order_id r' = pl_purchase_order_id r \<and> pl_ordered_qty r' = pl_ordered_qty r"

lemma same_placeD:
  assumes "same_place r r'"
  shows "row_id r' = row_id r" "live r' = live r" "layer_at k r' = layer_at k r" "business_id r' = business_id r"
    "pl_branch_id r' = pl_branch_id r" "pl_product_id r' = pl_product_id r" "pl_variation_id r' = pl_variation_id r"
    "pl_purchase_order_id r' = pl_purchase_order_id r" "pl_ordered_qty r' = pl_ordered_qty r"
  using assms by (auto simp: same_place_def live_def layer_at_def layer_position_def)

lemma layered_same_place:
  assumes "list_all2 same_place ls ls'"
  shows "layered ls' k r = layered ls k r"
proof -
  have "(\<exists>l\<in>set ls'. row_id l = i \<and> layer_at k l) \<longleftrightarrow> (\<exists>l\<in>set ls. row_id l = i \<and> layer_at k l)" for i
    using assms by (induction rule: list_all2_induct) (auto simp: same_placeD)
  then show ?thesis by (simp add: layered_def split: option.splits)
qed

lemma list_all2_update_where:
  assumes "\<And>r. r \<in> set rs \<Longrightarrow> P r \<Longrightarrow> R r (f r)" "\<And>r. R r r"
  shows "list_all2 R rs (update_where P f rs)"
  using assms by (induction rs) auto

lemma list_all2_update_where_strong:
  "(\<And>r. r \<in> set rs \<Longrightarrow> R r (if P r then f r else r)) \<Longrightarrow> list_all2 R rs (update_where P f rs)"
  by (induction rs) auto

lemma keyed_same_place: "list_all2 same_place ls ls' \<Longrightarrow> keyed ls' s = keyed ls s"
proof -
  assume "list_all2 same_place ls ls'"
  then have "map row_id ls' = map row_id ls" by (induction rule: list_all2_induct) (simp_all add: same_placeD)
  then show ?thesis by (simp only: keyed_def)
qed

lemma stock_ok_fill:
  assumes ok: "stock_ok d s" and b: "0 \<le> b" "b \<le> a"
    and f: "\<And>r. r \<in> set (purchase_lines s) \<Longrightarrow> row_id r = i \<Longrightarrow> same_place r (f r) \<and>
       pl_qty_remaining (f r) = pl_qty_remaining r + b \<and> pl_received_qty (f r) = pl_received_qty r + a"
    and s': "s' = s\<lparr>purchase_lines := update_where (\<lambda>r. row_id r = i) f (purchase_lines s)\<rparr>"
  shows "stock_ok (\<lambda>j. d j - (if j = i then b else 0)) s' \<and> list_all2 same_place (purchase_lines s) (purchase_lines s')"
proof -
  have sp: "list_all2 same_place (purchase_lines s) (purchase_lines s')"
    unfolding s' using f by (simp add: list_all2_update_where same_place_def [of r r for r])
  have row: "\<exists>r\<in>set (purchase_lines s). l = (if row_id r = i then f r else r)" if "l \<in> set (purchase_lines s')" for l
    using that by (auto simp: s' set_update_where)
  have "stock_ok (\<lambda>j. d j - (if j = i then b else 0)) s'"
    unfolding stock_ok_def
  proof (intro conjI ballI impI)
    show "inj (uuid_gen s')" using stock_okD(1) [OF ok] by (simp add: s')
    show "keyed (purchase_lines s') s'"
      using stock_okD(2) [OF ok] keyed_same_place [OF sp] by (simp add: keyed_def s' drawn_def)
    fix l assume "l \<in> set (purchase_lines s')"
    then obtain r where r: "r \<in> set (purchase_lines s)" "l = (if row_id r = i then f r else r)" using row by blast
    note K = stock_okD(3,4) [OF ok r(1)]
    show "0 \<le> pl_qty_remaining l" "pl_qty_remaining l \<le> pl_received_qty l"
      using K(1) f [OF r(1)] b r(2) by auto
    have tr: "traced s' = traced s" by (simp add: traced_def s' fun_eq_iff)
    assume l: "live l"
    show "pl_qty_remaining l = traced s' (row_id l) - (d (row_id l) - (if row_id l = i then b else 0))"
    proof (cases "row_id r = i")
      case True
      note F = f [OF r(1) True]
      have "row_id (f r) = i" "live r" using same_placeD(1,2) [OF conjunct1 [OF F]] True l r(2) by simp_all
      then show ?thesis using K(2) F True r(2) by (simp add: tr)
    next
      case False
      then show ?thesis using K(2) l r(2) by (simp add: tr)
    qed
  next
    fix m assume "m \<in> set (movements s')" "live m"
    then show "layered (purchase_lines s') (position_of m) (sm_purchase_line_id m)"
      using stock_okD(5) [OF ok, of m] by (simp only: layered_same_place [OF sp]) (simp add: s')
  qed
  with sp show ?thesis by blast
qed

definition fits :: "db \<Rightarrow> uuid \<Rightarrow> uuid \<Rightarrow> CreateReceiptLineRequest list \<Rightarrow> bool" where
  \<comment> \<open>the order lines named by receipt lines are of the branch and the item, and have room for all of them\<close>
  "fits s bid br ls \<longleftrightarrow> (\<forall>l\<in>set ls. \<forall>i. crl_purchase_line_id l = Some i \<longrightarrow>
     (\<exists>pl\<in>set (purchase_lines s). row_id pl = i \<and> layer_at (bid, br, crl_product_id l, crl_variation_id l) pl \<and>
        pl_received_qty pl + sum_where crl_qty_received (\<lambda>e. crl_purchase_line_id e = Some i) ls \<le> pl_ordered_qty pl))"

definition grown :: "(uuid \<Rightarrow> decimal) \<Rightarrow> db \<Rightarrow> db \<Rightarrow> bool" where
  \<comment> \<open>order lines stayed in place and received the given quantities; new layers belong to no order\<close>
  "grown e s s' \<longleftrightarrow> (\<exists>ls extra. purchase_lines s' = ls @ extra \<and>
     list_all2 (\<lambda>r r'. same_place r r' \<and> pl_received_qty r' = pl_received_qty r + e (row_id r)) (purchase_lines s) ls \<and>
     (\<forall>r\<in>set extra. pl_purchase_order_id r = None \<and> pl_received_qty r \<le> pl_ordered_qty r \<and> row_id r \<notin> drawn s))"

definition receipt_of :: "CreateReceiptLineRequest list \<Rightarrow> uuid \<Rightarrow> decimal" where
  "receipt_of ls i = sum_where crl_qty_received (\<lambda>e. crl_purchase_line_id e = Some i) ls"

lemma grown_refl: "grown (\<lambda>_. 0) s s"
  unfolding grown_def
  by (intro exI [of _ "purchase_lines s"] exI [of _ "[]"]) (simp add: list_all2_same same_place_def)

lemma grown_frame:
  "grown e s t \<Longrightarrow> purchase_lines r = purchase_lines s \<Longrightarrow> purchase_lines u = purchase_lines t \<Longrightarrow>
     drawn r \<subseteq> drawn s \<Longrightarrow> grown e r u"
  unfolding grown_def by (elim exE conjE, intro exI conjI) auto

lemma fits_grown:
  assumes "fits s bid br (l # ls)" "grown (receipt_of [l]) s t" "keyed (purchase_lines s) s"
  shows "fits t bid br ls"
  unfolding fits_def
proof (intro ballI allI impI)
  fix x i assume x: "x \<in> set ls" "crl_purchase_line_id x = Some i"
  then obtain pl where pl: "pl \<in> set (purchase_lines s)" "row_id pl = i"
    "layer_at (bid, br, crl_product_id x, crl_variation_id x) pl"
    "pl_received_qty pl + sum_where crl_qty_received (\<lambda>e. crl_purchase_line_id e = Some i) (l # ls) \<le> pl_ordered_qty pl"
    using assms(1) by (fastforce simp: fits_def)
  obtain as extra where g: "purchase_lines t = as @ extra"
    "list_all2 (\<lambda>r r'. same_place r r' \<and> pl_received_qty r' = pl_received_qty r + receipt_of [l] (row_id r)) (purchase_lines s) as"
    using assms(2) unfolding grown_def by blast
  obtain k where k: "k < length (purchase_lines s)" "purchase_lines s ! k = pl" using pl(1) by (auto simp: in_set_conv_nth)
  then have a: "as ! k \<in> set as" "same_place pl (as ! k)" "pl_received_qty (as ! k) = pl_received_qty pl + receipt_of [l] (row_id pl)"
    using list_all2_nthD [OF g(2) k(1)] list_all2_lengthD [OF g(2)] k by simp_all
  show "\<exists>pl\<in>set (purchase_lines t). row_id pl = i \<and> layer_at (bid, br, crl_product_id x, crl_variation_id x) pl \<and>
        pl_received_qty pl + sum_where crl_qty_received (\<lambda>e. crl_purchase_line_id e = Some i) ls \<le> pl_ordered_qty pl"
  proof (intro bexI conjI)
    show "as ! k \<in> set (purchase_lines t)" using a(1) by (simp add: g(1))
    show "row_id (as ! k) = i" using pl(2) by (simp only: same_placeD(1) [OF a(2)])
    show "layer_at (bid, br, crl_product_id x, crl_variation_id x) (as ! k)"
      using pl(3) by (simp only: same_placeD(3) [OF a(2)])
    show "pl_received_qty (as ! k) + sum_where crl_qty_received (\<lambda>e. crl_purchase_line_id e = Some i) ls \<le> pl_ordered_qty (as ! k)"
      using pl(4) unfolding a(3) same_placeD(9) [OF a(2)] pl(2) by (simp add: receipt_of_def add.assoc)
  qed
qed

lemma receipt_layer_ok:
  assumes ok: "reconciled s" and q: "0 \<le> crl_qty_received line" and fit: "fits s bid br (line # ls)"
    and r: "receipt_layer c bid br t0 user line s = (la, t)"
  defines "q \<equiv> crl_qty_received line" and "k \<equiv> (bid, br, crl_product_id line, crl_variation_id line)"
  shows "stock_ok (\<lambda>i. - (if i = la then q else 0)) t \<and> layered (purchase_lines t) k (Some la) \<and>
    grown (receipt_of [line]) s t \<and> (\<exists>n pls. t = s\<lparr>uuid_next := n, purchase_lines := pls\<rparr> \<and> uuid_next s \<le> n)"
proof -
  have dist: "distinct (map row_id (purchase_lines s))" using stock_okD(2) [OF ok] by (simp add: keyed_def)
  have new: "stock_ok (\<lambda>i. - (if i = row_id l then q else 0)) w \<and> layered (purchase_lines w) k (Some (row_id l)) \<and>
      purchase_lines w = purchase_lines v @ [l] \<and> pl_purchase_order_id l = None \<and> pl_received_qty l \<le> pl_ordered_qty l \<and>
      row_id l \<notin> drawn v \<and> w = v\<lparr>uuid_next := Suc (uuid_next v), purchase_lines := purchase_lines v @ [l]\<rparr>"
    if v: "reconciled v" and w: "create_fifo_layer c bid br (crl_product_id line) (crl_variation_id line) q
        (round4 (crl_cost_per_unit line)) user ''receipt'' (Some t0) (crl_batch_number line) (crl_expiry_date line) v = (l, w)"
    for l v w
  proof -
    note E = create_fifo_layer_eq [OF w]
    have "pl_purchase_order_id l = None" "pl_received_qty l \<le> pl_ordered_qty l"
      using w by (auto simp: create_fifo_layer_def fresh_uuid_def Let_def)
    moreover have "row_id l \<notin> drawn v"
      using fresh_uuid_new [OF stock_okD(1) [OF v]] E(2) by (simp add: fresh_uuid_def)
    moreover have "stock_ok (\<lambda>i. 0 - (if i = row_id l then q else 0)) w \<and> layered (purchase_lines w) k (Some (row_id l))"
      unfolding k_def by (rule create_fifo_layer_ok [OF v _ w]) (simp_all add: q_def q)
    ultimately show ?thesis using E(1) by simp
  qed
  show ?thesis
  proof (cases "order_line_at s (crl_purchase_line_id line)")
    case None
    have no: "crl_purchase_line_id line = None"
    proof (rule ccontr)
      assume "crl_purchase_line_id line \<noteq> None"
      then obtain i where i: "crl_purchase_line_id line = Some i" by blast
      then obtain pl where "pl \<in> set (purchase_lines s)" "row_id pl = i" using fit unfolding fits_def by force
      with None i show False by (auto simp: order_line_at_def first_row_def filter_empty_conv split: list.splits)
    qed
    then have e: "receipt_of [line] = (\<lambda>_. 0)" by (simp add: receipt_of_def fun_eq_iff)
    obtain l w where w: "create_fifo_layer c bid br (crl_product_id line) (crl_variation_id line) q
        (round4 (crl_cost_per_unit line)) user ''receipt'' (Some t0) (crl_batch_number line) (crl_expiry_date line) s = (l, w)"
      by fastforce
    then have t: "la = row_id l" "t = w" using r None by (simp_all add: receipt_layer_def q_def)
    note N = new [OF ok w]
    have "grown (receipt_of [line]) s t" unfolding grown_def e
      by (intro exI [of _ "purchase_lines s"] exI [of _ "[l]"]) (use N in \<open>simp add: t list_all2_same same_place_def\<close>)
    moreover have "\<exists>n pls. t = s\<lparr>uuid_next := n, purchase_lines := pls\<rparr> \<and> uuid_next s \<le> n"
      using N t by (intro exI [of _ "Suc (uuid_next s)"] exI [of _ "purchase_lines s @ [l]"]) simp
    ultimately show ?thesis using N unfolding t by blast
  next
    case (Some pl)
    then obtain i where i: "crl_purchase_line_id line = Some i" by (auto simp: order_line_at_def split: option.splits)
    have pl: "pl \<in> set (purchase_lines s)" "row_id pl = i"
      using Some by (auto simp: order_line_at_def i first_row_def filter_eq_Cons_iff split: list.splits)
    obtain pl' where "pl' \<in> set (purchase_lines s)" "row_id pl' = i" "layer_at k pl'"
      using fit i unfolding fits_def k_def by force
    with keyed_unique [OF dist _ pl(1)] pl(2) have lay: "layer_at k pl" by metis
    define b where "b = (round4 (pl_cost_per_unit pl) = round4 (crl_cost_per_unit line))"
    define f where "f = fill_order_line c br t0 user line b"
    let ?v = "s\<lparr>purchase_lines := update_where (\<lambda>l. row_id l = i) f (purchase_lines s)\<rparr>"
    have f: "same_place x (f x) \<and> pl_qty_remaining (f x) = pl_qty_remaining x + (if b then q else 0) \<and>
        pl_received_qty (f x) = pl_received_qty x + q" if "x \<in> set (purchase_lines s)" "row_id x = i" for x
    proof -
      have "x = pl" using keyed_unique [OF dist that(1) pl(1)] that(2) pl(2) by simp
      then show ?thesis using lay
        by (auto simp: f_def fill_order_line_def same_place_def q_def layer_at_def layer_position_def k_def Let_def)
    qed
    have "0 \<le> (if b then q else 0)" "(if b then q else 0) \<le> q" using q by (simp_all add: q_def)
    then have F: "stock_ok (\<lambda>j. 0 - (if j = i then if b then q else 0 else 0)) ?v \<and>
        list_all2 same_place (purchase_lines s) (purchase_lines ?v)"
      by (rule stock_ok_fill [OF ok _ _ f refl])
    have e: "receipt_of [line] j = (if j = i then q else 0)" for j by (auto simp: receipt_of_def i q_def)
    have grow: "list_all2 (\<lambda>r r'. same_place r r' \<and> pl_received_qty r' = pl_received_qty r + receipt_of [line] (row_id r))
        (purchase_lines s) (purchase_lines ?v)"
      by simp (rule list_all2_update_where_strong, simp add: e f same_place_def [of r r for r])
    show ?thesis
    proof (cases b)
      case True
      then have t: "la = i" "t = ?v" using r Some by (auto simp: receipt_layer_def b_def [symmetric] f_def pl(2) Let_def)
      have "layered (purchase_lines s) k (Some la)" using pl lay t(1) by (auto simp: layered_def)
      then have "layered (purchase_lines t) k (Some la)"
        using layered_same_place [OF conjunct2 [OF F]] by (simp only: t(2))
      moreover have "grown (receipt_of [line]) s t" unfolding grown_def
        by (intro exI [of _ "purchase_lines ?v"] exI [of _ "[]"]) (use grow in \<open>simp add: t(2)\<close>)
      moreover have "\<exists>n pls. t = s\<lparr>uuid_next := n, purchase_lines := pls\<rparr> \<and> uuid_next s \<le> n"
        by (intro exI [of _ "uuid_next s"] exI [of _ "purchase_lines ?v"]) (simp add: t(2))
      moreover have "stock_ok (\<lambda>j. - (if j = i then q else 0)) ?v" using F by (simp only: True if_True diff_0)
      ultimately show ?thesis unfolding t by blast
    next
      case False
      then have v: "reconciled ?v" using F by (simp cong: if_cong)
      obtain l w where w: "create_fifo_layer c bid br (crl_product_id line) (crl_variation_id line) q
          (round4 (crl_cost_per_unit line)) user ''receipt'' (Some t0) (crl_batch_number line) (crl_expiry_date line) ?v = (l, w)"
        by fastforce
      then have t: "la = row_id l" "t = w"
        using r Some False by (auto simp: receipt_layer_def b_def [symmetric] f_def pl(2) Let_def q_def)
      note N = new [OF v w]
      have "grown (receipt_of [line]) s t" unfolding grown_def
        by (intro exI [of _ "purchase_lines ?v"] exI [of _ "[l]"]) (use N grow in \<open>simp add: t drawn_def\<close>)
      moreover have "\<exists>n pls. t = s\<lparr>uuid_next := n, purchase_lines := pls\<rparr> \<and> uuid_next s \<le> n"
        using N t by (intro exI [of _ "Suc (uuid_next s)"] exI [of _ "purchase_lines ?v @ [l]"]) simp
      ultimately show ?thesis using N unfolding t by blast
    qed
  qed
qed

section \<open>A receipt, line by line\<close>

lemma grown_trans:
  assumes "grown d s t" "grown e t u" "drawn s \<subseteq> drawn t" "keyed (purchase_lines s) s"
    and e: "\<And>i. e i \<noteq> 0 \<Longrightarrow> i \<in> drawn s"
  shows "grown (\<lambda>i. d i + e i) s u"
proof -
  obtain as xs where t: "purchase_lines t = as @ xs"
    "list_all2 (\<lambda>r r'. same_place r r' \<and> pl_received_qty r' = pl_received_qty r + d (row_id r)) (purchase_lines s) as"
    "\<forall>r\<in>set xs. pl_purchase_order_id r = None \<and> pl_received_qty r \<le> pl_ordered_qty r \<and> row_id r \<notin> drawn s"
    using assms(1) unfolding grown_def by blast
  obtain bs ys where u: "purchase_lines u = bs @ ys"
    "list_all2 (\<lambda>r r'. same_place r r' \<and> pl_received_qty r' = pl_received_qty r + e (row_id r)) (as @ xs) bs"
    "\<forall>r\<in>set ys. pl_purchase_order_id r = None \<and> pl_received_qty r \<le> pl_ordered_qty r \<and> row_id r \<notin> drawn t"
    using assms(2) unfolding grown_def t(1) by blast
  obtain bs1 bs2 where b: "bs = bs1 @ bs2"
    "list_all2 (\<lambda>r r'. same_place r r' \<and> pl_received_qty r' = pl_received_qty r + e (row_id r)) as bs1"
    "list_all2 (\<lambda>r r'. same_place r r' \<and> pl_received_qty r' = pl_received_qty r + e (row_id r)) xs bs2"
    using u(2) unfolding list_all2_append1 by blast
  have L: "list_all2 (\<lambda>r r'. same_place r r' \<and> pl_received_qty r' = pl_received_qty r + (d (row_id r) + e (row_id r))) (purchase_lines s) bs1"
    by (rule list_all2_trans [OF _ t(2) b(2)]) (simp add: same_place_def)
  have R: "\<forall>r\<in>set bs2. pl_purchase_order_id r = None \<and> pl_received_qty r \<le> pl_ordered_qty r \<and> row_id r \<notin> drawn s"
  proof
    fix r assume "r \<in> set bs2"
    then obtain x where x: "x \<in> set xs" "same_place x r" "pl_received_qty r = pl_received_qty x + e (row_id x)"
      using list_all2_right [OF b(3)] by blast
    have "e (row_id x) = 0" using t(3) x(1) e by blast
    then show "pl_purchase_order_id r = None \<and> pl_received_qty r \<le> pl_ordered_qty r \<and> row_id r \<notin> drawn s"
      using t(3) x by (simp add: same_placeD [OF x(2)])
  qed
  have "purchase_lines u = bs1 @ (bs2 @ ys)" by (simp add: u(1) b(1))
  moreover have "\<forall>r\<in>set (bs2 @ ys). pl_purchase_order_id r = None \<and> pl_received_qty r \<le> pl_ordered_qty r \<and> row_id r \<notin> drawn s"
    using R u(3) assms(3) by auto
  ultimately show ?thesis unfolding grown_def using L by blast
qed

definition goods_value :: "CreateReceiptLineRequest \<Rightarrow> decimal" where
  "goods_value l = quantize_even 2 (crl_qty_received l * round4 (crl_cost_per_unit l))"

definition owed :: "CreateReceiptLineRequest \<Rightarrow> decimal" where
  \<comment> \<open>what a receipt line is booked for: nothing when it rounds to zero\<close>
  "owed l = max (goods_value l) 0"

definition goods_in :: "uuid \<Rightarrow> CreatePurchaseReceiptRequest \<Rightarrow> CreateReceiptLineRequest list \<Rightarrow> db \<Rightarrow> db \<Rightarrow> bool" where
  "goods_in bid data ls s s' \<longleftrightarrow>
     reconciled s' \<and> grown (receipt_of ls) s s' \<and> uuid_gen s' = uuid_gen s \<and> uuid_next s \<le> uuid_next s' \<and>
     purchase_orders s' = purchase_orders s \<and>
     (\<forall>k. stock_at s' k = stock_at s k +
        sum_where crl_qty_received (\<lambda>l. item_at bid (cpr_branch_id data) (crl_item l) = k) ls) \<and>
     (\<forall>k. supplier_account s' k = supplier_account s k -
        (if k = (bid, cpr_supplier_id data) then sum_list (map owed ls) else 0))"

lemma receive_goods_step:
  assumes ok: "reconciled s" and q: "0 \<le> crl_qty_received line" and fit: "fits s bid (cpr_branch_id data) (line # ls)"
    and s': "receive_goods c bid data t0 number rid user line s = s'"
  shows "goods_in bid data [line] s s'"
proof -
  let ?br = "cpr_branch_id data"
  define i where "i = uuid_gen s (uuid_next s)"
  define r0 where "r0 = (new_row i bid (Some user) (now c)
            \<lparr>prn_purchase_receipt_id = rid, prn_purchase_line_id = crl_purchase_line_id line,
             prn_product_id = crl_product_id line, prn_variation_id = crl_variation_id line,
             prn_qty_received = crl_qty_received line, prn_cost_per_unit = crl_cost_per_unit line,
             prn_batch_number = crl_batch_number line, prn_expiry_date = crl_expiry_date line\<rparr> :: purchase_receipt_line)"
  define s1 where "s1 = s\<lparr>uuid_next := Suc (uuid_next s), purchase_receipt_lines := purchase_receipt_lines s @ [r0]\<rparr>"
  have f: "fresh_uuid s = (i, s\<lparr>uuid_next := Suc (uuid_next s)\<rparr>)" by (simp add: fresh_uuid_def i_def)
  have ok1: "reconciled s1" by (rule reconciled_around [OF ok]) (simp_all add: s1_def)
  have fit1: "fits s1 bid ?br (line # ls)" using fit by (simp add: fits_def s1_def)
  obtain la t where la: "receipt_layer c bid ?br t0 user line s1 = (la, t)" by fastforce
  note L = receipt_layer_ok [OF ok1 q fit1 la]
  obtain n pls where t: "t = s1\<lparr>uuid_next := n, purchase_lines := pls\<rparr>" "uuid_next s1 \<le> n" using L by blast
  obtain m u where m: "create_stock_movement c bid ?br (crl_product_id line) (crl_variation_id line)
            StockMovementType_purchase (crl_qty_received line) (round4 (crl_cost_per_unit line))
            ReferenceType_purchase_receipt_line i user
            (Some la) (crl_batch_number line) (crl_expiry_date line) None (Some t0) None t = (m, u)" by fastforce
  note M = create_stock_movement_eq [OF m]
  define v where "v = (if 0 < goods_value line then
           snd (create_supplier_ledger_entry c bid (cpr_supplier_id data) LedgerEntryType_sale (- goods_value line)
             (Some ReferenceType_purchase_receipt_line) (Some i) (Some (''Goods receipt '' @ number)) (Some user) u) else u)"
  have s'v: "s' = v"
    using s' by (auto simp: receive_goods_def f r0_def [symmetric] s1_def [symmetric] la m v_def goods_value_def Let_def
        simp del: new_row_def)
  obtain k sl where v: "v = u\<lparr>uuid_next := k, supplier_ledgers := supplier_ledgers u @ sl\<rparr>" "uuid_next u \<le> k"
    and sl: "\<forall>key. sum_where sl_amount (supplier_entry_of (snd key) (fst key)) sl = - (if key = (bid, cpr_supplier_id data) then owed line else 0)"
  proof (cases "0 < goods_value line")
    case True
    then show thesis
      by (intro that [of "drop (length (supplier_ledgers u)) (supplier_ledgers v)" "uuid_next v"])
        (auto simp: v_def create_supplier_ledger_entry_def fresh_uuid_def supplier_entry_of_def live_def owed_def max_def
          Let_def split: if_splits)
  next
    case False
    then show thesis by (intro that [of "[]" "uuid_next u"]) (auto simp: v_def owed_def max_def)
  qed
  have "stock_ok (\<lambda>j. - (if j = la then crl_qty_received line else 0) + (if Some la = Some j then crl_qty_received line else 0)) u"
    by (rule create_stock_movement_ok [OF m]) (use L in blast)+
  moreover have "(\<lambda>j. - (if j = la then crl_qty_received line else 0) + (if Some la = Some j then crl_qty_received line else 0))
      = (\<lambda>_. 0)" by (auto simp: fun_eq_iff)
  ultimately have "reconciled u" by simp
  then have "reconciled s'" by (rule reconciled_around) (simp_all add: s'v v)
  moreover have "grown (receipt_of [line]) s s'"
    by (rule grown_frame [of _ s1 t]) (use L in \<open>auto simp: s'v v(1) M(1) s1_def drawn_def\<close>)
  moreover have "stock_at s' k = stock_at s k + sum_where crl_qty_received (\<lambda>l. item_at bid ?br (crl_item l) = k) [line]" for k
    using M(2-4) by (simp add: stock_at_sum s'v v(1) M(1) t(1) s1_def item_at_def crl_item_def)
  moreover have "supplier_account s' key = supplier_account s key -
        (if key = (bid, cpr_supplier_id data) then sum_list (map owed [line]) else 0)" for key
    using sl [rule_format, of key] by (cases key) (simp add: supplier_account_def s'v v(1) M(1) t(1) s1_def)
  moreover have "uuid_next s \<le> uuid_next s'" using t(2) v(2) by (simp add: s'v v(1) M(1) t(1) s1_def)
  ultimately show ?thesis by (simp add: goods_in_def s'v v(1) M(1) t(1) s1_def)
qed

lemma receive_goods_all:
  assumes "reconciled s" "\<forall>l\<in>set ls. 0 \<le> crl_qty_received l" "fits s bid (cpr_branch_id data) ls"
  shows "goods_in bid data ls s (fold (receive_goods c bid data t0 number rid user) ls s)"
  using assms
proof (induction ls arbitrary: s)
  case Nil
  have "receipt_of [] = (\<lambda>_. 0)" by (simp add: receipt_of_def fun_eq_iff)
  then show ?case using Nil grown_refl [of s] by (simp add: goods_in_def)
next
  case (Cons l ls)
  define t where "t = receive_goods c bid data t0 number rid user l s"
  define u where "u = fold (receive_goods c bid data t0 number rid user) ls t"
  have q: "0 \<le> crl_qty_received l" using Cons.prems(2) by simp
  note S = receive_goods_step [OF Cons.prems(1) q Cons.prems(3) t_def [symmetric]]
  have g: "grown (receipt_of [l]) s t" and r: "reconciled t" using S unfolding goods_in_def by blast+
  have k: "keyed (purchase_lines s) s" by (rule stock_okD(2) [OF Cons.prems(1)])
  have "\<forall>l\<in>set ls. 0 \<le> crl_qty_received l" using Cons.prems(2) by simp
  note IH = Cons.IH [OF r this fits_grown [OF Cons.prems(3) g k], folded u_def]
  have dr: "drawn s \<subseteq> drawn t" using S by (intro drawn_le) (simp_all add: goods_in_def)
  have known: "i \<in> drawn s" if "receipt_of ls i \<noteq> 0" for i
  proof -
    have "\<exists>x\<in>set ls. crl_purchase_line_id x = Some i"
    proof (rule ccontr)
      assume "\<not> ?thesis"
      then have "receipt_of ls i = 0" unfolding receipt_of_def by (intro sum_where_none) blast
      with that show False by simp
    qed
    then obtain x where x: "x \<in> set ls" "crl_purchase_line_id x = Some i" by blast
    then obtain pl where "pl \<in> set (purchase_lines s)" "row_id pl = i" using Cons.prems(3) unfolding fits_def by force
    then show ?thesis using k by (auto simp: keyed_def)
  qed
  have sum: "(\<lambda>i. receipt_of [l] i + receipt_of ls i) = receipt_of (l # ls)"
    by (auto simp: receipt_of_def fun_eq_iff)
  have g': "grown (receipt_of ls) t u" using IH by (simp add: goods_in_def)
  have "grown (\<lambda>i. receipt_of [l] i + receipt_of ls i) s u"
    by (rule grown_trans [OF g g' dr k]) (rule known)
  then have "grown (receipt_of (l # ls)) s u" by (simp only: sum)
  moreover have "uuid_next s \<le> uuid_next u" using S IH by (simp add: goods_in_def)
  ultimately have "goods_in bid data (l # ls) s u" using S IH unfolding goods_in_def by simp
  then show ?case by (simp add: u_def t_def)
qed

lemma fold_res_append1: "fold_res f (x # xs) s = Inr r \<longleftrightarrow> (\<exists>t. f x s = Inr t \<and> fold_res f xs t = Inr r)"
  by (simp add: bind_res_Inr)

lemma check_receipt_lines:
  assumes "fold_res (check_receipt_line s bid po_lines) ls pend = Inr pend'" "\<forall>l\<in>set ls. 0 \<le> crl_qty_received l"
  shows "(\<forall>i. pend' i = pend i + receipt_of ls i) \<and>
    (\<forall>l\<in>set ls. \<forall>i. crl_purchase_line_id l = Some i \<longrightarrow> (\<exists>pl. po_lines i = Some pl \<and>
       pl_product_id pl = crl_product_id l \<and> pl_variation_id pl = crl_variation_id l \<and>
       pl_received_qty pl + pend' i \<le> pl_ordered_qty pl))"
  using assms
proof (induction ls arbitrary: pend)
  case Nil
  then show ?case by (simp add: receipt_of_def)
next
  case (Cons l ls)
  obtain t where t: "check_receipt_line s bid po_lines l pend = Inr t" "fold_res (check_receipt_line s bid po_lines) ls t = Inr pend'"
    using Cons.prems(1) unfolding fold_res_append1 by blast
  note IH = Cons.IH [OF t(2)]
  have nn: "0 \<le> receipt_of ls i" for i
    unfolding receipt_of_def by (rule sum_where_nonneg) (use Cons.prems(2) in simp)
  show ?case
  proof (cases "crl_purchase_line_id l")
    case None
    then have "t = pend" using t(1) by (auto simp: check_receipt_line_def bind_res_Inr)
    then show ?thesis using IH Cons.prems(2) None by (auto simp: receipt_of_def)
  next
    case (Some i)
    then obtain pl where pl: "po_lines i = Some pl" "pl_product_id pl = crl_product_id l" "pl_variation_id pl = crl_variation_id l"
      "pl_received_qty pl + pend i + crl_qty_received l \<le> pl_ordered_qty pl" "t = pend(i := pend i + crl_qty_received l)"
      using t(1) by (auto simp: check_receipt_line_def bind_res_Inr split: option.splits if_splits)
    have p: "pend' j = pend j + receipt_of (l # ls) j" for j
      using IH Cons.prems(2) by (simp add: pl(5) receipt_of_def Some)
    have "pl_received_qty pl + pend' i \<le> pl_ordered_qty pl"
    proof (cases "\<exists>x\<in>set ls. crl_purchase_line_id x = Some i")
      case True
      then show ?thesis using IH Cons.prems(2) pl(1) by fastforce
    next
      case False
      then have "receipt_of ls i = 0" unfolding receipt_of_def by (intro sum_where_none) blast
      then show ?thesis using pl(4) p [of i] by (simp add: receipt_of_def Some)
    qed
    then show ?thesis using p pl IH Cons.prems(2) Some by auto
  qed
qed

section \<open>Goods receipts\<close>

definition orders_ok :: "db \<Rightarrow> bool" where
  \<comment> \<open>no line received more than was ordered, and the lines of an order belong to its branch\<close>
  "orders_ok s \<longleftrightarrow> keyed (purchase_orders s) s \<and> (\<forall>l\<in>set (purchase_lines s).
     pl_received_qty l \<le> pl_ordered_qty l \<and> (\<forall>p. pl_purchase_order_id l = Some p \<longrightarrow> p \<in> drawn s) \<and>
     (\<forall>po\<in>set (purchase_orders s). pl_purchase_order_id l = Some (row_id po) \<longrightarrow> pl_branch_id l = Some (po_branch_id po)))"

lemma receipt_checks_fit:
  assumes "orders_ok s" "receipt_order s bid data = Inr po" "lock_order_lines s bid po (line_ids_of data) = Inr po_lines"
    and "fold_res (check_receipt_line s bid po_lines) (cpr_lines data) (\<lambda>_. 0) = Inr pend"
    and "\<forall>l\<in>set (cpr_lines data). 0 \<le> crl_qty_received l"
  shows "fits s bid (cpr_branch_id data) (cpr_lines data)"
  unfolding fits_def
proof (intro ballI allI impI)
  fix l i assume l: "l \<in> set (cpr_lines data)" "crl_purchase_line_id l = Some i"
  note C = check_receipt_lines [OF assms(4,5)]
  obtain pl where pl: "po_lines i = Some pl" "pl_product_id pl = crl_product_id l" "pl_variation_id pl = crl_variation_id l"
    "pl_received_qty pl + pend i \<le> pl_ordered_qty pl" using C l by blast
  have ne: "line_ids_of data \<noteq> []" using pl(1) assms(3) by (auto simp: lock_order_lines_def)
  then obtain p where p: "po = Some p" using assms(3) by (cases po) (auto simp: lock_order_lines_def)
  have "pl \<in> set (purchase_lines s) \<and> row_id pl = i \<and> business_id pl = bid \<and> pl_purchase_order_id pl = Some (row_id p) \<and> live pl"
    using assms(3) pl(1) ne by (auto simp: lock_order_lines_def p Let_def split: if_splits dest!: map_of_SomeD)
  moreover have "p \<in> set (purchase_orders s)" "po_branch_id p = cpr_branch_id data"
    using assms(2) by (auto simp: receipt_order_def p bind_res_Inr get_purchase_order_by_id_def require_one_Inr
        filter_eq_Cons_iff split: option.splits if_splits)
  ultimately show "\<exists>pl\<in>set (purchase_lines s). row_id pl = i \<and>
        layer_at (bid, cpr_branch_id data, crl_product_id l, crl_variation_id l) pl \<and>
        pl_received_qty pl + sum_where crl_qty_received (\<lambda>e. crl_purchase_line_id e = Some i) (cpr_lines data) \<le> pl_ordered_qty pl"
    using assms(1) pl C by (intro bexI [of _ pl]) (auto simp: orders_ok_def layer_at_def layer_position_def receipt_of_def)
qed

lemma orders_ok_grown:
  assumes "orders_ok s" "fits s bid br ls" "grown (receipt_of ls) s t" "keyed (purchase_lines s) s"
    and "purchase_orders t = purchase_orders s" "drawn s \<subseteq> drawn t"
  shows "orders_ok t"
proof -
  obtain as xs where t: "purchase_lines t = as @ xs"
    "list_all2 (\<lambda>r r'. same_place r r' \<and> pl_received_qty r' = pl_received_qty r + receipt_of ls (row_id r)) (purchase_lines s) as"
    "\<forall>r\<in>set xs. pl_purchase_order_id r = None \<and> pl_received_qty r \<le> pl_ordered_qty r \<and> row_id r \<notin> drawn s"
    using assms(3) unfolding grown_def by blast
  have "pl_received_qty l \<le> pl_ordered_qty l \<and> (\<forall>p. pl_purchase_order_id l = Some p \<longrightarrow> p \<in> drawn s) \<and>
     (\<forall>po\<in>set (purchase_orders s). pl_purchase_order_id l = Some (row_id po) \<longrightarrow> pl_branch_id l = Some (po_branch_id po))"
    if l: "l \<in> set as" for l
  proof -
    obtain r where r: "r \<in> set (purchase_lines s)" "same_place r l"
      "pl_received_qty l = pl_received_qty r + receipt_of ls (row_id r)" using list_all2_right [OF t(2) l] by blast
    have "pl_received_qty r + receipt_of ls (row_id r) \<le> pl_ordered_qty r"
    proof (cases "\<exists>x\<in>set ls. crl_purchase_line_id x = Some (row_id r)")
      case True
      then obtain x where "x \<in> set ls" "crl_purchase_line_id x = Some (row_id r)" by blast
      with assms(2) obtain pl where "pl \<in> set (purchase_lines s)" "row_id pl = row_id r"
        "pl_received_qty pl + receipt_of ls (row_id r) \<le> pl_ordered_qty pl" unfolding fits_def receipt_of_def by blast
      moreover have "pl = r" using keyed_unique [OF _ calculation(1) r(1) calculation(2)] assms(4) by (simp add: keyed_def)
      ultimately show ?thesis by simp
    next
      case False
      then have "receipt_of ls (row_id r) = 0" unfolding receipt_of_def by (intro sum_where_none) blast
      then show ?thesis using assms(1) r(1) by (simp add: orders_ok_def)
    qed
    then show ?thesis using assms(1) r(1,3) by (simp add: orders_ok_def same_placeD(5,8,9) [OF r(2)])
  qed
  moreover have "keyed (purchase_orders t) t" using assms(1,5,6) by (auto simp: orders_ok_def keyed_def)
  ultimately show ?thesis using t(1,3) assms(5,6) by (auto simp: orders_ok_def)
qed


definition sample_supplier :: supplier where
  "sample_supplier = new_row 40 1 None 0
     \<lparr>su_name = ''Mills'', su_contact_person = None, su_email = None, su_phone = None, su_tax_id = None,
      su_address_line1 = None, su_city = None, su_payment_terms_days = 30, su_is_active = True\<rparr>"

definition sample_order :: purchase_order where
  "sample_order = new_row 41 1 None 0
     \<lparr>po_branch_id = 2, po_supplier_id = 40, po_number = ''PO-1'', po_status = PurchaseOrderStatus_ordered,
      po_ordered_at = Some 0, po_expected_at = None, po_notes = None\<rparr>"

definition sample_order_line :: purchase_line where
  \<comment> \<open>six of product 5 ordered at 4\<close>
  "sample_order_line = (sample_layer 42 0 6 4)\<lparr>pl_purchase_order_id := Some 41, pl_received_qty := 0, pl_qty_remaining := 0\<rparr>"

definition sample_buying :: db where
  "sample_buying = sample_store\<lparr>suppliers := [sample_supplier], purchase_orders := [sample_order],
     purchase_lines := purchase_lines sample_store @ [sample_order_line]\<rparr>"

definition sample_receipt :: CreatePurchaseReceiptRequest where
  \<comment> \<open>four of them arrive at 4, two are invoiced at 5\<close>
  "sample_receipt = \<lparr>cpr_branch_id = 2, cpr_supplier_id = 40, cpr_purchase_order_id = Some 41,
     cpr_supplier_invoice_no = None, cpr_notes = None, cpr_received_at = None,
     cpr_lines = [\<lparr>crl_product_id = 5, crl_variation_id = None, crl_purchase_line_id = Some 42, crl_qty_received = 4,
         crl_cost_per_unit = 4, crl_batch_number = None, crl_expiry_date = None\<rparr>,
       \<lparr>crl_product_id = 5, crl_variation_id = None, crl_purchase_line_id = Some 42, crl_qty_received = 2,
         crl_cost_per_unit = 5, crl_batch_number = None, crl_expiry_date = None\<rparr>]\<rparr>"

lemmas sample_buying_simps = sample_buying_def sample_order_def sample_order_line_def sample_supplier_def
  sample_store_def sample_warehouse_def sample_stock_def sample_layer_def sample_movement_def empty_db_def

lemma sample_buying_ok: "reconciled sample_buying" "orders_ok sample_buying"
  by (auto simp: stock_ok_def orders_ok_def sample_buying_simps keyed_def drawn_def traced_def layered_def
      layer_at_def layer_position_def position_of_def live_def)

lemma sample_receipt_accepted:
  "\<exists>r s'. create_purchase_receipt sample_clock 1 sample_receipt 9 sample_buying = Inr (r, s')"
proof -
  have "(case verify_branch sample_buying 2 1 of Inl _ \<Rightarrow> False | Inr _ \<Rightarrow> True)"
    "(case get_supplier_by_id sample_buying 40 1 of Inl _ \<Rightarrow> False | Inr _ \<Rightarrow> True)" by code_simp+
  then obtain b su where "verify_branch sample_buying 2 1 = Inr b" "get_supplier_by_id sample_buying 40 1 = Inr su"
    by (auto split: sum.splits)
  moreover have "receipt_order sample_buying 1 sample_receipt = Inr (Some sample_order)"
    by (simp add: receipt_order_def sample_receipt_def get_purchase_order_by_id_def sample_buying_simps live_def)
  moreover have "line_ids_of sample_receipt = [42]" by (simp add: line_ids_of_def sample_receipt_def List.map_filter_def)
  moreover have "lock_order_lines sample_buying 1 (Some sample_order) [42] = Inr [42 \<mapsto> sample_order_line]"
    by (simp add: lock_order_lines_def sample_buying_simps live_def)
  moreover have "\<exists>pend. fold_res (check_receipt_line sample_buying 1 [42 \<mapsto> sample_order_line]) (cpr_lines sample_receipt) (\<lambda>_. 0) = Inr pend"
    by (simp add: sample_receipt_def check_receipt_line_def verify_product_def sample_buying_simps sample_product_def live_def)
  moreover have "cpr_branch_id sample_receipt = 2" "cpr_supplier_id sample_receipt = 40" by (simp_all add: sample_receipt_def)
  ultimately show ?thesis
    by (auto simp: create_purchase_receipt_def Let_def split_beta simp del: new_row_def One_nat_def)
qed


text \<open>
  The age of a layer is when its goods arrived, unless the first goods of an order line came at
  another price: they count as its first receipt, so the line keeps the instant the order was
  typed in as the age of the layer later goods at its own price go to.
\<close>

lemma late_goods_keep_order_age:
  "(let l = \<lparr>crl_product_id = 5, crl_variation_id = None, crl_purchase_line_id = Some 42, crl_qty_received = 2,
         crl_cost_per_unit = 5, crl_batch_number = None, crl_expiry_date = None\<rparr>;
       pl = fill_order_line sample_clock 2 20 9 l False sample_order_line;
       pl = fill_order_line sample_clock 2 30 9 (l\<lparr>crl_cost_per_unit := 4\<rparr>) True pl
    in created_at pl = 0 \<and> pl_qty_remaining pl = 2)"
  by (simp add: fill_order_line_def sample_order_line_def sample_layer_def)

section \<open>Orders keep the receipts' hypotheses\<close>

lemma add_purchase_line_ok:
  assumes "reconciled s" "orders_ok s" "0 \<le> cpl_ordered_qty d" "po \<in> set (purchase_orders s)" "po_branch_id po = br"
    "row_id po = i"
  shows "reconciled (add_purchase_line c bid br i user d s) \<and> orders_ok (add_purchase_line c bid br i user d s) \<and>
    purchase_orders (add_purchase_line c bid br i user d s) = purchase_orders s"
proof -
  define l where "l = (new_row (uuid_gen s (uuid_next s)) bid (Some user) (now c)
            \<lparr>pl_purchase_order_id = Some i, pl_production_order_id = None,
             pl_product_id = cpl_product_id d, pl_variation_id = cpl_variation_id d,
             pl_ordered_qty = cpl_ordered_qty d, pl_received_qty = 0, pl_qty_remaining = 0,
             pl_cost_per_unit = cpl_cost_per_unit d, pl_tax_rate = cpl_tax_rate d,
             pl_branch_id = Some br, pl_layer_source = ''purchase'',
             pl_batch_number = cpl_batch_number d, pl_expiry_date = cpl_expiry_date d\<rparr> :: purchase_line)"
  define s' where "s' = s\<lparr>uuid_next := Suc (uuid_next s), purchase_lines := purchase_lines s @ [l]\<rparr>"
  have a: "add_purchase_line c bid br i user d s = s'"
    by (simp add: add_purchase_line_def fresh_uuid_def s'_def l_def Let_def)
  note ok = stock_okD [OF assms(1)]
  have f: "fresh_uuid s = (row_id l, s\<lparr>uuid_next := Suc (uuid_next s)\<rparr>)" by (simp add: fresh_uuid_def l_def)
  have new: "row_id l \<notin> drawn s" by (rule fresh_uuid_new [OF ok(1) f])
  have k: "keyed (purchase_lines s') s'" using keyed_snoc [OF ok(2,1) f] by (simp add: s'_def keyed_def drawn_def)
  have dr: "drawn s \<subseteq> drawn s'" by (rule drawn_le) (simp_all add: s'_def)
  have "i \<in> drawn s" using assms(2,4,6) by (auto simp: orders_ok_def keyed_def)
  moreover have "po' = po" if "po' \<in> set (purchase_orders s)" "row_id po' = i" for po'
    by (rule keyed_unique [of "purchase_orders s"]) (use assms(2,4,6) that in \<open>simp_all add: orders_ok_def keyed_def\<close>)
  ultimately have new_ok: "i \<in> drawn s'" "\<forall>p\<in>set (purchase_orders s'). pl_purchase_order_id l = Some (row_id p) \<longrightarrow>
      pl_branch_id l = Some (po_branch_id p)"
    using dr assms(5) by (auto simp: s'_def l_def)
  have "keyed (purchase_orders s') s'" using assms(2) dr by (auto simp: orders_ok_def keyed_def s'_def)
  then have "orders_ok s'" unfolding orders_ok_def
  proof (intro conjI ballI)
    fix x assume "x \<in> set (purchase_lines s')"
    then consider "x \<in> set (purchase_lines s)" | "x = l" by (auto simp: s'_def)
    then show "pl_received_qty x \<le> pl_ordered_qty x" "\<forall>p. pl_purchase_order_id x = Some p \<longrightarrow> p \<in> drawn s'"
      "\<And>po. po \<in> set (purchase_orders s') \<Longrightarrow> pl_purchase_order_id x = Some (row_id po) \<longrightarrow> pl_branch_id x = Some (po_branch_id po)"
      using assms(2,3) new_ok dr by (cases; fastforce simp: orders_ok_def s'_def l_def)+
  qed simp_all
  moreover have "reconciled s'"
    unfolding stock_ok_def
  proof (intro conjI ballI impI)
    show "inj (uuid_gen s')" using ok(1) by (simp add: s'_def)
    show "keyed (purchase_lines s') s'" by (rule k)
    fix x assume x: "x \<in> set (purchase_lines s')"
    show "0 \<le> pl_qty_remaining x" "pl_qty_remaining x \<le> pl_received_qty x"
      using x ok(3) by (auto simp: s'_def l_def)
    have tr: "traced s' = traced s" by (simp add: traced_def s'_def fun_eq_iff)
    assume "live x"
    then show "pl_qty_remaining x = traced s' (row_id x) - 0"
      using x ok(4) untraced_fresh [OF assms(1) new] unfolding tr by (auto simp: s'_def l_def)
  next
    fix m assume "m \<in> set (movements s')" "live m"
    then show "layered (purchase_lines s') (position_of m) (sm_purchase_line_id m)"
      using ok(5) [of m] by (fastforce simp: s'_def layered_def split: option.splits)
  qed
  ultimately show ?thesis by (simp add: a s'_def)
qed

lemma add_purchase_lines_ok:
  assumes "reconciled s" "orders_ok s" "po \<in> set (purchase_orders s)" "\<forall>d\<in>set ds. 0 \<le> cpl_ordered_qty d"
    and "row_id po = i" "po_branch_id po = br"
  shows "reconciled (fold (add_purchase_line c bid br i user) ds s) \<and>
    orders_ok (fold (add_purchase_line c bid br i user) ds s) \<and>
    po \<in> set (purchase_orders (fold (add_purchase_line c bid br i user) ds s))"
  using assms
proof (induction ds arbitrary: s)
  case (Cons d ds)
  then have q: "0 \<le> cpl_ordered_qty d" by simp
  note S = add_purchase_line_ok [OF Cons.prems(1,2) q Cons.prems(3,6,5), where c = c and bid = bid and user = user]
  show ?case unfolding fold_simps by (rule Cons.IH) (use S Cons.prems in simp_all)
qed simp

lemma create_purchase_order_ok:
  assumes "reconciled s" "orders_ok s" "valid_purchase_order data"
    and "create_purchase_order c bid data user s = Inr (po, s')"
  shows "reconciled s' \<and> orders_ok s' \<and> po \<in> set (purchase_orders s') \<and> po_status po = PurchaseOrderStatus_draft"
proof -
  obtain n s2 where n: "generate_document_number c bid ''PO'' s = (n, s2)" by fastforce
  obtain cs k where s2: "s2 = s\<lparr>counters := cs, uuid_next := k\<rparr>" "uuid_next s \<le> k"
    using generate_document_number_frame [OF n] by (cases s) auto
  define i where "i = uuid_gen s2 (uuid_next s2)"
  have f: "fresh_uuid s2 = (i, s2\<lparr>uuid_next := Suc (uuid_next s2)\<rparr>)" by (simp add: fresh_uuid_def i_def)
  define s0 where "s0 = s2\<lparr>uuid_next := Suc (uuid_next s2), purchase_orders := purchase_orders s2 @ [po]\<rparr>"
  have r: "row_id po = i" "po_branch_id po = cpo_branch_id data" "po_status po = PurchaseOrderStatus_draft"
    and s': "s' = fold (add_purchase_line c bid (cpo_branch_id data) i user) (cpo_lines data) s0"
    using assms(4) by (auto simp: create_purchase_order_def bind_res_Inr n f s0_def Let_def)
  have sub: "drawn s \<subseteq> drawn s2" by (rule drawn_le) (use s2(2) in \<open>simp_all add: s2(1)\<close>)
  have new: "i \<notin> drawn s2" by (rule fresh_uuid_new [OF _ f]) (simp add: s2(1) stock_okD(1) [OF assms(1)])
  have dr: "drawn s0 = insert i (drawn s2)" using fresh_uuid_drawn [OF f] by (simp add: s0_def drawn_def)
  have "reconciled s0" by (rule reconciled_around [OF assms(1)]) (use s2(2) in \<open>simp_all add: s0_def s2(1)\<close>)
  moreover have "orders_ok s0"
    using assms(2) sub dr new r(1) by (fastforce simp: orders_ok_def keyed_def s0_def s2(1))
  moreover have "po \<in> set (purchase_orders s0)" by (simp add: s0_def)
  moreover have "\<forall>d\<in>set (cpo_lines data). 0 \<le> cpl_ordered_qty d"
    using assms(3) by (auto simp: valid_purchase_order_def less_imp_le)
  ultimately have "reconciled s' \<and> orders_ok s' \<and> po \<in> set (purchase_orders s')" unfolding s'
    using r by (intro add_purchase_lines_ok)
  with r show ?thesis by simp
qed

end
