(* ===== verification/Accounts.thy ===== *)
theory Accounts
  imports Tables "HOL-Library.Multiset"
begin

text \<open>
  The chart of accounts: \<open>app/services/accounting_coa_service.py\<close> and
  \<open>app/services/accounting_coa_seed_service.py\<close>. An account may have a parent account; before an
  account is given a new parent its descendants are walked with an explicit stack and no record of
  the accounts seen, so the walk is a partial function, and that it returns rests on the hierarchy
  being free of cycles, which the walk is there to keep.
\<close>

section \<open>The default chart\<close>

definition DEFAULT_CHART_ACCOUNTS :: "(string \<times> string \<times> AccountTypeEnum \<times> AccountSubtypeEnum) list" where
  "DEFAULT_CHART_ACCOUNTS =
     [(''1000'', ''Cash on Hand'', AccountType_asset, AccountSubtype_cash),
      (''1010'', ''Bank'', AccountType_asset, AccountSubtype_bank),
      (''1100'', ''Accounts Receivable'', AccountType_asset, AccountSubtype_accounts_receivable),
      (''1200'', ''Inventory'', AccountType_asset, AccountSubtype_inventory),
      (''2000'', ''Accounts Payable'', AccountType_liability, AccountSubtype_accounts_payable),
      (''2100'', ''Sales Tax Payable'', AccountType_liability, AccountSubtype_tax_payable),
      (''3000'', ''Owner'' @ [CHR 0x27] @ ''s Capital'', AccountType_equity, AccountSubtype_other),
      (''3100'', ''Owner'' @ [CHR 0x27] @ ''s Drawings'', AccountType_equity, AccountSubtype_other),
      (''4000'', ''Sales Revenue'', AccountType_income, AccountSubtype_sales_revenue),
      (''5000'', ''Cost of Goods Sold'', AccountType_expense, AccountSubtype_cogs),
      (''6000'', ''Operating Expenses'', AccountType_expense, AccountSubtype_other),
      (''6100'', ''Rent Expense'', AccountType_expense, AccountSubtype_other),
      (''6200'', ''Utilities Expense'', AccountType_expense, AccountSubtype_other),
      (''6300'', ''Salaries & Wages'', AccountType_expense, AccountSubtype_other)]"

definition chart_of :: "db \<Rightarrow> uuid \<Rightarrow> chart_of_account list" where
  "chart_of s bid = filter (\<lambda>r. business_id r = bid \<and> live r) (accounts s)"

definition chart_of_accounts_exists :: "db \<Rightarrow> uuid \<Rightarrow> bool" where
  "chart_of_accounts_exists s bid \<longleftrightarrow> 0 < length (chart_of s bid)"

definition add_default_account ::
  "clock \<Rightarrow> uuid \<Rightarrow> uuid option \<Rightarrow> string \<times> string \<times> AccountTypeEnum \<times> AccountSubtypeEnum \<Rightarrow> db \<Rightarrow> db" where
  "add_default_account c bid user = (\<lambda>(code, name, ty, sub) s.
     let (i, s) = fresh_uuid s;
         account = (new_row i bid user (now c)
           \<lparr>coa_parent_id = None, coa_account_code = code, coa_account_name = name, coa_account_type = ty,
            coa_account_subtype = Some sub, coa_is_system = True, coa_is_active = True, coa_description = None\<rparr>)
           \<lparr>updated_by := user\<rparr>
     in s\<lparr>accounts := accounts s @ [account]\<rparr>)"

definition seed_default_chart_of_accounts :: "clock \<Rightarrow> uuid \<Rightarrow> uuid option \<Rightarrow> db \<Rightarrow> nat \<times> db" where
  "seed_default_chart_of_accounts c bid user s =
     (if chart_of_accounts_exists s bid then (0, s)
      else (length DEFAULT_CHART_ACCOUNTS, fold (add_default_account c bid user) DEFAULT_CHART_ACCOUNTS s))"

definition ensure_default_chart_of_accounts :: "clock \<Rightarrow> uuid \<Rightarrow> uuid option \<Rightarrow> db \<Rightarrow> nat \<times> db" where
  "ensure_default_chart_of_accounts = seed_default_chart_of_accounts"

section \<open>Validation\<close>

definition VALID_ACCOUNT_TYPES :: "AccountTypeEnum list" where
  "VALID_ACCOUNT_TYPES = [AccountType_asset, AccountType_liability, AccountType_equity, AccountType_income, AccountType_expense]"

definition VALID_ACCOUNT_SUBTYPES :: "AccountSubtypeEnum list" where
  "VALID_ACCOUNT_SUBTYPES = [AccountSubtype_cash, AccountSubtype_bank, AccountSubtype_accounts_receivable,
     AccountSubtype_accounts_payable, AccountSubtype_inventory, AccountSubtype_cogs, AccountSubtype_sales_revenue,
     AccountSubtype_tax_payable, AccountSubtype_other]"

definition validate_account_type :: "string \<Rightarrow> AccountTypeEnum res" where
  \<comment> \<open>and the column value the string stands for\<close>
  "validate_account_type t = (case find (\<lambda>x. AccountTypeEnum_value x = t) VALID_ACCOUNT_TYPES of
       None \<Rightarrow> Inl (HTTPException 400 ''Invalid account_type: {}'' [AStr t])
     | Some x \<Rightarrow> Inr x)"

definition validate_account_subtype :: "string option \<Rightarrow> AccountSubtypeEnum option res" where
  "validate_account_subtype t = (case t of None \<Rightarrow> Inr None
     | Some t \<Rightarrow> (case find (\<lambda>x. AccountSubtypeEnum_value x = t) VALID_ACCOUNT_SUBTYPES of
         None \<Rightarrow> Inl (HTTPException 400 ''Invalid account_subtype: {}'' [AStr t])
       | Some x \<Rightarrow> Inr (Some x)))"

definition get_account_row :: "db \<Rightarrow> uuid \<Rightarrow> uuid \<Rightarrow> chart_of_account res" where
  "get_account_row s account_id bid =
     require_one (HTTPException 404 ''Chart of accounts entry not found'' [])
       (filter (\<lambda>r. row_id r = account_id \<and> business_id r = bid \<and> live r) (accounts s))"

definition assert_unique_account_code :: "db \<Rightarrow> uuid \<Rightarrow> string \<Rightarrow> uuid option \<Rightarrow> unit res" where
  "assert_unique_account_code s bid code exclude_id =
     bind_res (scalar_one_or_none (filter (\<lambda>r. business_id r = bid \<and> coa_account_code r = code \<and> live r \<and>
                 (case exclude_id of None \<Rightarrow> True | Some i \<Rightarrow> row_id r \<noteq> i)) (accounts s)))
       (\<lambda>r. case r of None \<Rightarrow> Inr ()
          | Some _ \<Rightarrow> Inl (HTTPException 409 ''Account code already exists: {}'' [AStr code]))"

definition has_journal_lines :: "db \<Rightarrow> uuid \<Rightarrow> bool" where
  "has_journal_lines s account_id \<longleftrightarrow> 0 < length (filter (\<lambda>l. jl_account_id l = account_id) (journal_lines s))"

definition children_of :: "db \<Rightarrow> uuid \<Rightarrow> uuid \<Rightarrow> uuid list" where
  "children_of s bid i = map row_id (filter (\<lambda>r. business_id r = bid \<and> coa_parent_id r = Some i \<and> live r) (accounts s))"

definition has_active_children :: "db \<Rightarrow> uuid \<Rightarrow> uuid \<Rightarrow> bool" where
  "has_active_children s account_id bid \<longleftrightarrow> 0 < length (children_of s bid account_id)"

partial_function (option) walk_descendants :: "db \<Rightarrow> uuid \<Rightarrow> uuid \<Rightarrow> uuid list \<Rightarrow> unit res option" where
  \<comment> \<open>the \<open>while to_visit\<close> loop; \<open>None\<close> if it does not end\<close>
  "walk_descendants s bid parent_id to_visit =
     (if to_visit = [] then Some (Inr ())
      else let current = last to_visit; descendants = children_of s bid current
        in if parent_id \<in> set descendants
           then Some (bad_request ''Parent assignment would create a cycle in chart of accounts hierarchy'')
           else walk_descendants s bid parent_id (butlast to_visit @ descendants))"

definition assert_no_parent_cycle :: "db \<Rightarrow> uuid \<Rightarrow> uuid \<Rightarrow> uuid \<Rightarrow> unit res option" where
  "assert_no_parent_cycle s bid account_id parent_id = walk_descendants s bid parent_id [account_id]"

definition validate_parent :: "db \<Rightarrow> uuid \<Rightarrow> uuid option \<Rightarrow> uuid option \<Rightarrow> unit res option" where
  "validate_parent s bid parent_id account_id =
     (case parent_id of None \<Rightarrow> Some (Inr ())
      | Some p \<Rightarrow> if account_id = Some p then Some (bad_request ''Account cannot be its own parent'')
        else case get_account_row s p bid of Inl e \<Rightarrow> Some (Inl e)
          | Inr _ \<Rightarrow> (case account_id of None \<Rightarrow> Some (Inr ()) | Some i \<Rightarrow> assert_no_parent_cycle s bid i p))"

section \<open>Operations\<close>

record CreateChartOfAccountRequest =
  cca_account_code :: string
  cca_account_name :: string
  cca_account_type :: string
  cca_account_subtype :: "string option"
  cca_parent_id :: "uuid option"
  cca_description :: "string option"
  cca_is_active :: bool

record UpdateChartOfAccountRequest =
  uca_account_code :: "string option"
  uca_account_name :: "string option"
  uca_account_type :: "string option"
  uca_account_subtype :: "string option"
  uca_parent_id :: "uuid option option"  \<comment> \<open>\<open>None\<close> when the field is not in the request\<close>
  uca_description :: "string option"
  uca_is_active :: "bool option"

definition commit_accounts :: "db \<Rightarrow> db res" where
  \<comment> \<open>the constraint \<open>uq_coa_code\<close>, which deleted rows count for\<close>
  "commit_accounts s =
     (if distinct (map (\<lambda>r. (business_id r, coa_account_code r)) (accounts s)) then Inr s
      else Inl (PyError ''IntegrityError''))"

definition create_chart_of_account ::
  "clock \<Rightarrow> uuid \<Rightarrow> CreateChartOfAccountRequest \<Rightarrow> uuid \<Rightarrow> db \<Rightarrow> (chart_of_account \<times> db) res option" where
  "create_chart_of_account c bid data user s =
     (case bind_res (validate_account_type (cca_account_type data)) (\<lambda>ty.
             bind_res (validate_account_subtype (cca_account_subtype data)) (\<lambda>sub. Inr (ty, sub))) of
        Inl e \<Rightarrow> Some (Inl e)
      | Inr (ty, sub) \<Rightarrow> (case validate_parent s bid (cca_parent_id data) None of
          None \<Rightarrow> None | Some (Inl e) \<Rightarrow> Some (Inl e)
        | Some (Inr _) \<Rightarrow> Some (
          bind_res (assert_unique_account_code s bid (cca_account_code data) None) (\<lambda>_.
          let (i, s) = fresh_uuid s;
              account = (new_row i bid (Some user) (now c)
                \<lparr>coa_parent_id = cca_parent_id data, coa_account_code = cca_account_code data,
                 coa_account_name = cca_account_name data, coa_account_type = ty, coa_account_subtype = sub,
                 coa_is_system = False, coa_is_active = cca_is_active data, coa_description = cca_description data\<rparr>)
                \<lparr>updated_by := Some user\<rparr>
          in bind_res (commit_accounts (s\<lparr>accounts := accounts s @ [account]\<rparr>)) (\<lambda>s. Inr (account, s))))))"

definition new_code :: "db \<Rightarrow> uuid \<Rightarrow> chart_of_account \<Rightarrow> UpdateChartOfAccountRequest \<Rightarrow> string res" where
  "new_code s bid account data = (case uca_account_code data of None \<Rightarrow> Inr (coa_account_code account)
     | Some code \<Rightarrow>
         if coa_is_system account then bad_request ''Cannot change account_code on system accounts''
         else bind_res (assert_unique_account_code s bid code (Some (row_id account))) (\<lambda>_. Inr code))"

definition new_type :: "bool \<Rightarrow> chart_of_account \<Rightarrow> UpdateChartOfAccountRequest \<Rightarrow> AccountTypeEnum res" where
  "new_type has_lines account data = (case uca_account_type data of None \<Rightarrow> Inr (coa_account_type account)
     | Some t \<Rightarrow> bind_res (validate_account_type t) (\<lambda>ty.
         if has_lines \<and> ty \<noteq> coa_account_type account
         then bad_request ''Cannot change account_type on accounts with journal lines'' else Inr ty))"

definition new_subtype :: "bool \<Rightarrow> chart_of_account \<Rightarrow> UpdateChartOfAccountRequest \<Rightarrow> AccountSubtypeEnum option res" where
  "new_subtype has_lines account data = (case uca_account_subtype data of None \<Rightarrow> Inr (coa_account_subtype account)
     | Some t \<Rightarrow> bind_res (validate_account_subtype (Some t)) (\<lambda>sub.
         if has_lines \<and> sub \<noteq> coa_account_subtype account
         then bad_request ''Cannot change account_subtype on accounts with journal lines'' else Inr sub))"

definition edit_account ::
  "clock \<Rightarrow> uuid \<Rightarrow> UpdateChartOfAccountRequest \<Rightarrow> string \<Rightarrow> AccountTypeEnum \<Rightarrow> AccountSubtypeEnum option \<Rightarrow>
   chart_of_account \<Rightarrow> chart_of_account" where
  "edit_account c user data code ty sub r = r\<lparr>
     coa_parent_id := or_else (uca_parent_id data) (coa_parent_id r), coa_account_code := code,
     coa_account_name := or_else (uca_account_name data) (coa_account_name r),
     coa_description := set_some (uca_description data) (coa_description r),
     coa_is_active := or_else (uca_is_active data) (coa_is_active r),
     coa_account_type := ty, coa_account_subtype := sub, updated_by := Some user, updated_at := now c\<rparr>"

definition update_chart_of_account ::
  "clock \<Rightarrow> uuid \<Rightarrow> uuid \<Rightarrow> UpdateChartOfAccountRequest \<Rightarrow> uuid \<Rightarrow> db \<Rightarrow> db res option" where
  "update_chart_of_account c account_id bid data user s =
     (case get_account_row s account_id bid of Inl e \<Rightarrow> Some (Inl e)
      | Inr account \<Rightarrow>
        let has_lines = has_journal_lines s account_id in
        (case validate_parent s bid (or_else (uca_parent_id data) None) (Some account_id) of
           None \<Rightarrow> None | Some (Inl e) \<Rightarrow> Some (Inl e)
         | Some (Inr _) \<Rightarrow> Some (
             bind_res (new_code s bid account data) (\<lambda>code.
             bind_res (new_type has_lines account data) (\<lambda>ty.
             bind_res (new_subtype has_lines account data) (\<lambda>sub.
               commit_accounts (s\<lparr>accounts := update_where (\<lambda>r. row_id r = row_id account)
                 (edit_account c user data code ty sub) (accounts s)\<rparr>)))))))"

definition delete_chart_of_account :: "clock \<Rightarrow> uuid \<Rightarrow> uuid \<Rightarrow> uuid \<Rightarrow> db \<Rightarrow> db res" where
  "delete_chart_of_account c account_id bid user s =
     bind_res (get_account_row s account_id bid) (\<lambda>account.
     if coa_is_system account then bad_request ''Cannot delete system accounts''
     else if has_active_children s account_id bid then bad_request ''Cannot delete account with child accounts''
     else if has_journal_lines s account_id then bad_request ''Cannot delete account with journal lines''
     else Inr (s\<lparr>accounts := update_where (\<lambda>r. row_id r = row_id account) (soft_delete c user) (accounts s)\<rparr>))"

section \<open>Listing\<close>

datatype account_node = Account_node (node_account: chart_of_account) (node_children: "account_node list")

fun node_of :: "nat \<Rightarrow> chart_of_account list \<Rightarrow> chart_of_account \<Rightarrow> account_node" where
  \<comment> \<open>the children of a node, at most so many levels down\<close>
  "node_of 0 listed r = Account_node r []"
| "node_of (Suc n) listed r =
     Account_node r (map (node_of n listed) (filter (\<lambda>x. coa_parent_id x = Some (row_id r)) listed))"

definition is_root :: "chart_of_account list \<Rightarrow> chart_of_account \<Rightarrow> bool" where
  "is_root listed r \<longleftrightarrow> (case coa_parent_id r of None \<Rightarrow> True | Some p \<Rightarrow> p \<notin> row_id ` set listed)"

definition build_tree :: "chart_of_account list \<Rightarrow> account_node list" where
  "build_tree listed = map (node_of (length listed) listed) (filter (is_root listed) listed)"

definition list_chart_of_accounts :: "clock \<Rightarrow> uuid \<Rightarrow> bool \<Rightarrow> uuid option \<Rightarrow> db \<Rightarrow> chart_of_account list \<times> db" where
  \<comment> \<open>the flat list; the seeded rows are only flushed, nothing here commits them\<close>
  "list_chart_of_accounts c bid active_only user s =
     (let (_, s) = ensure_default_chart_of_accounts c bid user s;
          rows = sort_key coa_account_code (chart_of s bid)
      in (filter (\<lambda>r. active_only \<longrightarrow> coa_is_active r) rows, s))"

section \<open>The hierarchy\<close>

definition parent_rel :: "db \<Rightarrow> uuid \<Rightarrow> (uuid \<times> uuid) set" where
  \<comment> \<open>live child and parent\<close>
  "parent_rel s bid = {(row_id r, p) | r p. r \<in> set (accounts s) \<and> business_id r = bid \<and> live r \<and> coa_parent_id r = Some p}"

definition coa_ok :: "db \<Rightarrow> bool" where
  "coa_ok s \<longleftrightarrow> inj (uuid_gen s) \<and> keyed (accounts s) s \<and> (\<forall>bid. acyclic (parent_rel s bid)) \<and>
     (\<forall>r\<in>set (accounts s). \<forall>p. coa_parent_id r = Some p \<longrightarrow> p \<in> drawn s)"

lemma children_rel: "x \<in> set (children_of s bid i) \<longleftrightarrow> (x, i) \<in> parent_rel s bid"
  by (auto simp: children_of_def parent_rel_def)

lemma parent_rel_image:
  "parent_rel s bid = set (map (\<lambda>r. (row_id r, the (coa_parent_id r)))
     (filter (\<lambda>r. business_id r = bid \<and> live r \<and> coa_parent_id r \<noteq> None) (accounts s)))"
  by (force simp: parent_rel_def)

lemma finite_parent_rel: "finite (parent_rel s bid)"
  unfolding parent_rel_image by (rule finite_set)

lemma trancl_children:
  "(p, i) \<in> (parent_rel s bid)\<^sup>+ \<longleftrightarrow> p \<in> set (children_of s bid i) \<or>
     (\<exists>d\<in>set (children_of s bid i). (p, d) \<in> (parent_rel s bid)\<^sup>+)"
proof
  assume "(p, i) \<in> (parent_rel s bid)\<^sup>+"
  then show "p \<in> set (children_of s bid i) \<or> (\<exists>d\<in>set (children_of s bid i). (p, d) \<in> (parent_rel s bid)\<^sup>+)"
    by (cases rule: tranclE) (auto simp: children_rel)
next
  assume "p \<in> set (children_of s bid i) \<or> (\<exists>d\<in>set (children_of s bid i). (p, d) \<in> (parent_rel s bid)\<^sup>+)"
  then show "(p, i) \<in> (parent_rel s bid)\<^sup>+"
    by (elim disjE bexE) (auto simp: children_rel intro: trancl_into_trancl)
qed

definition cycle_error :: "unit res" where
  "cycle_error = bad_request ''Parent assignment would create a cycle in chart of accounts hierarchy''"

lemma walk_returns:
  assumes "wf (parent_rel s bid)"
  shows "walk_descendants s bid p xs =
    Some (if \<exists>x\<in>set xs. (p, x) \<in> (parent_rel s bid)\<^sup>+ then cycle_error else Inr ())"
proof (induction "mset xs" arbitrary: xs rule: wf_induct_rule [OF wf_mult [OF assms]])
  case 1
  show ?case
  proof (cases "xs = []")
    case True
    then show ?thesis by (simp add: walk_descendants.simps)
  next
    case False
    let ?cur = "last xs" and ?ds = "children_of s bid (last xs)"
    have xs: "xs = butlast xs @ [?cur]" using False by simp
    show ?thesis
    proof (cases "p \<in> set ?ds")
      case True
      then have "(p, ?cur) \<in> (parent_rel s bid)\<^sup>+" using trancl_children [of p ?cur] by blast
      then show ?thesis using True False last_in_set [OF False]
        by (subst walk_descendants.simps) (force simp: Let_def cycle_error_def)
    next
      case no: False
      have m: "mset xs = add_mset ?cur (mset (butlast xs))" by (subst xs) simp
      have "(mset (butlast xs) + mset ?ds, mset xs) \<in> mult1 (parent_rel s bid)"
        unfolding m mult1_def
        by (simp, intro exI [of _ ?cur] exI [of _ "mset (butlast xs)"] conjI refl exI [of _ "mset ?ds"])
          (simp add: children_rel)
      then have lt: "(mset (butlast xs @ ?ds), mset xs) \<in> mult (parent_rel s bid)"
        by (simp add: mult_def)
      have "walk_descendants s bid p xs = walk_descendants s bid p (butlast xs @ ?ds)"
        using False no by (subst walk_descendants.simps) (simp add: Let_def)
      also have "\<dots> = Some (if \<exists>x\<in>set (butlast xs @ ?ds). (p, x) \<in> (parent_rel s bid)\<^sup>+ then cycle_error else Inr ())"
        by (rule 1 [OF lt])
      also have "(\<exists>x\<in>set (butlast xs @ ?ds). (p, x) \<in> (parent_rel s bid)\<^sup>+) \<longleftrightarrow>
          (\<exists>x\<in>set (butlast xs @ [?cur]). (p, x) \<in> (parent_rel s bid)\<^sup>+)"
        using no trancl_children [of p ?cur s bid] by auto
      finally show ?thesis by (simp only: xs [symmetric])
    qed
  qed
qed

lemma coa_ok_wf: "coa_ok s \<Longrightarrow> wf (parent_rel s bid)"
  by (simp add: coa_ok_def finite_acyclic_wf finite_parent_rel)

lemma validate_parent_returns:
  assumes "coa_ok s"
  shows "\<exists>r. validate_parent s bid p i = Some r"
  using walk_returns [OF coa_ok_wf [OF assms]]
  by (auto simp: validate_parent_def assert_no_parent_cycle_def split: option.splits sum.splits)

lemma coa_ok_frame:
  "coa_ok s \<Longrightarrow> accounts s' = accounts s \<Longrightarrow> uuid_gen s' = uuid_gen s \<Longrightarrow> drawn s \<subseteq> drawn s' \<Longrightarrow> coa_ok s'"
  by (auto simp: coa_ok_def parent_rel_def keyed_def)

lemma add_account_ok:
  assumes ok: "coa_ok s" and f: "fresh_uuid s = (row_id r, t)" and p: "\<And>p. coa_parent_id r = Some p \<Longrightarrow> p \<in> drawn s"
  shows "coa_ok (t\<lparr>accounts := accounts s @ [r]\<rparr>)"
proof -
  let ?s = "t\<lparr>accounts := accounts s @ [r]\<rparr>"
  have t: "t = s\<lparr>uuid_next := Suc (uuid_next s)\<rparr>" using f by (simp add: fresh_uuid_def)
  have inj: "inj (uuid_gen s)" using ok by (simp add: coa_ok_def)
  have new: "row_id r \<notin> drawn s" by (rule fresh_uuid_new [OF inj f])
  have dr: "drawn ?s = insert (row_id r) (drawn s)" using fresh_uuid_drawn [OF f] by (simp add: drawn_def)
  have "keyed (accounts s) s" using ok by (simp add: coa_ok_def)
  from keyed_snoc [OF this inj f] have "keyed (accounts ?s) ?s" by (simp add: keyed_def drawn_def)
  moreover have "acyclic (parent_rel ?s bid)" for bid
  proof -
    have ac: "acyclic (parent_rel s bid)" using ok by (simp add: coa_ok_def)
    show ?thesis
    proof (cases "coa_parent_id r")
      case None
      then have "parent_rel ?s bid \<subseteq> parent_rel s bid" by (auto simp: parent_rel_def)
      then show ?thesis using ac acyclic_subset by blast
    next
      case (Some q)
      have "(q, row_id r) \<notin> (parent_rel s bid)\<^sup>*"
      proof
        assume "(q, row_id r) \<in> (parent_rel s bid)\<^sup>*"
        then show False
        proof (cases rule: rtranclE)
          case base
          then show False using p [OF Some] new by simp
        next
          case (step y)
          then show False using ok new by (auto simp: parent_rel_def coa_ok_def)
        qed
      qed
      then have "acyclic (insert (row_id r, q) (parent_rel s bid))" using ac by (simp add: acyclic_insert)
      moreover have "parent_rel ?s bid \<subseteq> insert (row_id r, q) (parent_rel s bid)" using Some by (auto simp: parent_rel_def)
      ultimately show ?thesis using acyclic_subset by blast
    qed
  qed
  moreover have "inj (uuid_gen ?s)" using inj by (simp add: t)
  ultimately show ?thesis using ok p by (auto simp: coa_ok_def dr)
qed


lemma get_account_rowD:
  "get_account_row s i bid = Inr r \<Longrightarrow> r \<in> set (accounts s) \<and> row_id r = i \<and> business_id r = bid \<and> live r"
  by (auto simp: get_account_row_def require_one_Inr dest: filter_eq_ConsD)

lemma validate_parent_accepts:
  assumes ok: "coa_ok s" and v: "validate_parent s bid (Some p) (Some i) = Some (Inr ())"
  shows "(p, i) \<notin> (parent_rel s bid)\<^sup>*" "p \<in> drawn s"
proof -
  from v obtain r where ne: "p \<noteq> i" and r: "get_account_row s p bid = Inr r"
    and w: "assert_no_parent_cycle s bid i p = Some (Inr ())"
    by (auto simp: validate_parent_def split: if_splits sum.splits)
  from w have "(p, i) \<notin> (parent_rel s bid)\<^sup>+"
    using walk_returns [OF coa_ok_wf [OF ok], of bid p "[i]"]
    by (auto simp: assert_no_parent_cycle_def cycle_error_def split: if_splits)
  then show "(p, i) \<notin> (parent_rel s bid)\<^sup>*" using ne by (simp add: rtrancl_eq_or_trancl)
  show "p \<in> drawn s" using get_account_rowD [OF r] ok by (auto simp: coa_ok_def keyed_def)
qed

lemma reparent_ok:
  fixes f :: "chart_of_account \<Rightarrow> chart_of_account"
  assumes ok: "coa_ok s" and acc: "account \<in> set (accounts s)" "business_id account = bid"
    and f: "\<And>r. row_id (f r) = row_id r" "\<And>r. business_id (f r) = business_id r"
      "\<And>r. live (f r) \<Longrightarrow> live r"
    and par: "\<And>r q. coa_parent_id (f r) = Some q \<Longrightarrow> coa_parent_id r = Some q \<or>
       ((q, row_id account) \<notin> (parent_rel s bid)\<^sup>* \<and> q \<in> drawn s \<and> P = Some q)"
  shows "coa_ok (s\<lparr>accounts := update_where (\<lambda>r. row_id r = row_id account) f (accounts s)\<rparr>)"
proof -
  let ?s = "s\<lparr>accounts := update_where (\<lambda>r. row_id r = row_id account) f (accounts s)\<rparr>"
  have k: "keyed (accounts s) s" using ok by (simp add: coa_ok_def)
  have only: "r = account" if "r \<in> set (accounts s)" "row_id r = row_id account" for r
    using k that acc(1) unfolding keyed_def distinct_map by (meson inj_onD)
  have sub: "parent_rel ?s b \<subseteq> parent_rel s b \<union>
      (if b = bid then {(row_id account, q) | q. P = Some q \<and> (q, row_id account) \<notin> (parent_rel s bid)\<^sup>*} else {})" for b
  proof
    fix e assume "e \<in> parent_rel ?s b"
    then obtain r q where r: "r \<in> set (accounts s)" and e: "e = (row_id r, q)" and b: "business_id r = b" and l: "live r"
      and q: "coa_parent_id (if row_id r = row_id account then f r else r) = Some q"
      by (auto simp: parent_rel_def set_update_where f split: if_splits dest: f(3))
    show "e \<in> parent_rel s b \<union>
      (if b = bid then {(row_id account, q) | q. P = Some q \<and> (q, row_id account) \<notin> (parent_rel s bid)\<^sup>*} else {})"
    proof (cases "coa_parent_id r = Some q")
      case True
      then show ?thesis using r e b l by (auto simp: parent_rel_def)
    next
      case False
      then have "row_id r = row_id account" using q by (auto split: if_splits)
      moreover from this have "coa_parent_id (f r) = Some q" using q by simp
      ultimately show ?thesis using par [of r q] False e b only [OF r] acc(2) by auto
    qed
  qed
  have "acyclic (parent_rel ?s b)" for b
  proof -
    have ac: "acyclic (parent_rel s b)" using ok by (simp add: coa_ok_def)
    show ?thesis
    proof (cases "b = bid \<and> (\<exists>q. P = Some q \<and> (q, row_id account) \<notin> (parent_rel s bid)\<^sup>*)")
      case True
      then obtain q where q: "P = Some q" "(q, row_id account) \<notin> (parent_rel s b)\<^sup>*" by auto
      then have "acyclic (insert (row_id account, q) (parent_rel s b))" using ac by (simp add: acyclic_insert)
      moreover have "parent_rel ?s b \<subseteq> insert (row_id account, q) (parent_rel s b)"
        using sub [of b] q True by auto
      ultimately show ?thesis using acyclic_subset by blast
    next
      case False
      then have "parent_rel ?s b \<subseteq> parent_rel s b" using sub [of b] by (auto split: if_splits)
      then show ?thesis using ac acyclic_subset by blast
    qed
  qed
  moreover have "keyed (accounts ?s) ?s" using k f(1) by (simp add: keyed_def drawn_def map_update_where)
  moreover have "\<forall>r\<in>set (accounts ?s). \<forall>q. coa_parent_id r = Some q \<longrightarrow> q \<in> drawn ?s"
    using ok par by (fastforce simp: coa_ok_def set_update_where drawn_def)
  ultimately show ?thesis using ok by (simp add: coa_ok_def)
qed


lemma seed_ok: "coa_ok s \<Longrightarrow> coa_ok (fold (add_default_account c bid user) ds s)"
proof (induction ds arbitrary: s)
  case (Cons d ds)
  obtain code name ty sub where d: "d = (code, name, ty, sub)" by (cases d)
  obtain i t where f: "fresh_uuid s = (i, t)" by fastforce
  have "coa_ok (add_default_account c bid user d s)"
    using add_account_ok [OF Cons.prems, of "(new_row i bid user (now c)
           \<lparr>coa_parent_id = None, coa_account_code = code, coa_account_name = name, coa_account_type = ty,
            coa_account_subtype = Some sub, coa_is_system = True, coa_is_active = True, coa_description = None\<rparr>)
           \<lparr>updated_by := user\<rparr>" t] f
    by (simp add: add_default_account_def d fresh_uuid_def new_row_def Let_def split: prod.splits)
  then show ?case using Cons.IH by simp
qed simp

lemma create_chart_of_account_Inr:
  assumes "create_chart_of_account c bid data user s = Some (Inr (a, s'))"
  obtains t where "fresh_uuid s = (row_id a, t)" "s' = t\<lparr>accounts := accounts t @ [a]\<rparr>"
    "coa_parent_id a = cca_parent_id data" "validate_parent s bid (cca_parent_id data) None = Some (Inr ())"
proof -
  obtain i t where "fresh_uuid s = (i, t)" by fastforce
  with assms that [of t] show ?thesis
    by (auto simp: create_chart_of_account_def bind_res_Inr commit_accounts_def new_row_def Let_def
        split: sum.splits option.splits if_splits)
qed

lemma update_chart_of_account_Inr:
  assumes "update_chart_of_account c i bid data user s = Some (Inr s')"
  obtains account code ty sub where "get_account_row s i bid = Inr account"
    "validate_parent s bid (or_else (uca_parent_id data) None) (Some i) = Some (Inr ())"
    "s' = s\<lparr>accounts := update_where (\<lambda>r. row_id r = row_id account)
             (edit_account c user data code ty sub) (accounts s)\<rparr>"
  using assms by (auto simp: update_chart_of_account_def bind_res_Inr commit_accounts_def Let_def
      split: sum.splits option.splits if_splits)

lemma delete_chart_of_account_Inr:
  assumes "delete_chart_of_account c i bid user s = Inr s'"
  obtains account where "get_account_row s i bid = Inr account" "\<not> has_journal_lines s i"
    "s' = s\<lparr>accounts := update_where (\<lambda>r. row_id r = row_id account) (soft_delete c user) (accounts s)\<rparr>"
  using assms by (auto simp: delete_chart_of_account_def bind_res_Inr split: if_splits)

lemma create_chart_of_account_ok:
  assumes ok: "coa_ok s" and r: "create_chart_of_account c bid data user s = Some (Inr (a, s'))"
  shows "coa_ok s'"
proof -
  from create_chart_of_account_Inr [OF r] obtain t where t: "fresh_uuid s = (row_id a, t)"
    "s' = t\<lparr>accounts := accounts t @ [a]\<rparr>" and a: "coa_parent_id a = cca_parent_id data"
    and v: "validate_parent s bid (cca_parent_id data) None = Some (Inr ())" .
  have "q \<in> drawn s" if "coa_parent_id a = Some q" for q
    using that v a ok get_account_rowD [of s q bid]
    by (auto simp: validate_parent_def coa_ok_def keyed_def split: sum.splits)
  moreover have "accounts t = accounts s" using t by (auto simp: fresh_uuid_def)
  ultimately show ?thesis using add_account_ok [OF ok t(1)] t(2) by auto
qed

lemma update_chart_of_account_ok:
  assumes ok: "coa_ok s" and r: "update_chart_of_account c i bid data user s = Some (Inr s')"
  shows "coa_ok s'"
proof -
  from update_chart_of_account_Inr [OF r] obtain account code ty sub where g: "get_account_row s i bid = Inr account"
    and v: "validate_parent s bid (or_else (uca_parent_id data) None) (Some i) = Some (Inr ())"
    and s': "s' = s\<lparr>accounts := update_where (\<lambda>r. row_id r = row_id account)
                 (edit_account c user data code ty sub) (accounts s)\<rparr>" .
  note a = get_account_rowD [OF g]
  have par: "coa_parent_id r = Some q \<or> (q, row_id account) \<notin> (parent_rel s bid)\<^sup>* \<and> q \<in> drawn s \<and>
      or_else (uca_parent_id data) None = Some q"
    if "coa_parent_id (edit_account c user data code ty sub r) = Some q" for r q
    using that validate_parent_accepts [OF ok, of bid q i] v a
    by (cases "uca_parent_id data") (auto simp: edit_account_def)
  show ?thesis unfolding s'
    by (rule reparent_ok [OF ok, where P = "or_else (uca_parent_id data) None" and bid = bid])
      (use a par in \<open>auto simp: edit_account_def live_def\<close>)
qed

lemma delete_chart_of_account_ok:
  assumes ok: "coa_ok s" and r: "delete_chart_of_account c i bid user s = Inr s'"
  shows "coa_ok s'"
proof -
  from delete_chart_of_account_Inr [OF r] obtain account where g: "get_account_row s i bid = Inr account"
    and s': "s' = s\<lparr>accounts := update_where (\<lambda>r. row_id r = row_id account) (soft_delete c user) (accounts s)\<rparr>" .
  show ?thesis unfolding s'
    by (rule reparent_ok [OF ok, where P = None and bid = bid])
      (use get_account_rowD [OF g] in \<open>auto simp: soft_delete_def live_def\<close>)
qed

inductive coa_step :: "db \<Rightarrow> db \<Rightarrow> bool" where
  create: "create_chart_of_account c bid data user s = Some (Inr (a, s')) \<Longrightarrow> coa_step s s'"
| update: "update_chart_of_account c i bid upd user s = Some (Inr s') \<Longrightarrow> coa_step s s'"
| delete: "delete_chart_of_account c i bid user s = Inr s' \<Longrightarrow> coa_step s s'"
| seed: "ensure_default_chart_of_accounts c bid u s = (n, s') \<Longrightarrow> coa_step s s'"

lemma coa_step_ok: "coa_step s s' \<Longrightarrow> coa_ok s \<Longrightarrow> coa_ok s'"
proof (induction rule: coa_step.induct)
  case (seed c bid u s n s')
  then show ?case
    by (auto simp: ensure_default_chart_of_accounts_def seed_default_chart_of_accounts_def seed_ok split: if_splits)
qed (blast intro: create_chart_of_account_ok update_chart_of_account_ok delete_chart_of_account_ok)+

lemma coa_steps_ok: "coa_step\<^sup>*\<^sup>* s s' \<Longrightarrow> coa_ok s \<Longrightarrow> coa_ok s'"
  by (induction rule: rtranclp_induct) (blast intro: coa_step_ok)+

lemma chart_updates_return:
  assumes "coa_ok s"
  shows "\<exists>r. create_chart_of_account c bid data user s = Some r"
    and "\<exists>r. update_chart_of_account c i bid upd user s = Some r"
  using validate_parent_returns [OF assms, of bid "cca_parent_id data" None]
    validate_parent_returns [OF assms, of bid "or_else (uca_parent_id upd) None" "Some i"]
  by (auto simp: create_chart_of_account_def update_chart_of_account_def Let_def split: sum.splits)

text \<open>
  C33. The walks over the hierarchy end. Whatever requests created, changed, deleted and seeded
  accounts, starting from a chart whose parent links make no cycle: the walk that looks for a cycle
  before account \<open>i\<close> is given parent \<open>p\<close> returns, and refuses exactly when \<open>p\<close> is below \<open>i\<close>; creating and
  updating an account return (a result or an error); and the hierarchy of every business is still
  free of cycles.
\<close>

theorem chart_walks_return:
  assumes "coa_ok s" and "coa_step\<^sup>*\<^sup>* s s'"
  shows "assert_no_parent_cycle s' bid i p =
      Some (if (p, i) \<in> (parent_rel s' bid)\<^sup>+
            then Inl (HTTPException 400 ''Parent assignment would create a cycle in chart of accounts hierarchy'' [])
            else Inr ()) \<and>
    (\<exists>r. create_chart_of_account c bid data user s' = Some r) \<and>
    (\<exists>r. update_chart_of_account c i bid upd user s' = Some r) \<and>
    acyclic (parent_rel s' bid)"
proof -
  note ok = coa_steps_ok [OF assms(2,1)]
  have "acyclic (parent_rel s' bid)" using ok by (simp add: coa_ok_def)
  then show ?thesis
    using walk_returns [OF coa_ok_wf [OF ok], of bid p "[i]"] chart_updates_return [OF ok]
    by (simp add: assert_no_parent_cycle_def cycle_error_def)
qed


definition sample_chart_account :: "uuid \<Rightarrow> string \<Rightarrow> uuid option \<Rightarrow> chart_of_account" where
  "sample_chart_account i code p = new_row i 1 (Some 9) (now sample_now)
     \<lparr>coa_parent_id = p, coa_account_code = code, coa_account_name = ''Cash'',
      coa_account_type = AccountType_asset, coa_account_subtype = Some AccountSubtype_cash, coa_is_system = False,
      coa_is_active = True, coa_description = None\<rparr>"

definition sample_chart :: db where
  \<comment> \<open>three accounts, each below the one before\<close>
  "sample_chart = (empty_db id)\<lparr>uuid_next := 100, accounts := [sample_chart_account 1 ''1000'' None,
     sample_chart_account 2 ''1010'' (Some 1), sample_chart_account 3 ''1011'' (Some 2)]\<rparr>"

lemma sample_chart_rel: "parent_rel sample_chart bid = (if bid = 1 then {(2, 1), (3, 2)} else {})"
  by (auto simp: parent_rel_image sample_chart_def sample_chart_account_def new_row_def live_def)

lemma sample_chart_ok: "coa_ok sample_chart"
proof -
  have "acyclic (parent_rel sample_chart bid)" for bid
    by (rule acyclic_subset [OF wf_acyclic [OF wf_measure [of "\<lambda>x. 10 - x"]]]) (auto simp: sample_chart_rel)
  then show ?thesis
    by (auto simp: coa_ok_def keyed_def drawn_def sample_chart_def sample_chart_account_def new_row_def empty_db_def)
qed

definition emptied_chart :: db where
  \<comment> \<open>the third account deleted\<close>
  "emptied_chart = sample_chart\<lparr>accounts := [sample_chart_account 1 ''1000'' None,
     sample_chart_account 2 ''1010'' (Some 1), soft_delete sample_now 9 (sample_chart_account 3 ''1011'' (Some 2))]\<rparr>"

lemma sample_chart_step: "coa_step sample_chart emptied_chart"
proof (rule coa_step.delete)
  show "delete_chart_of_account sample_now 3 1 9 sample_chart = Inr emptied_chart"
    by (simp add: delete_chart_of_account_def get_account_row_def has_active_children_def children_of_def
        has_journal_lines_def sample_chart_def emptied_chart_def sample_chart_account_def new_row_def live_def
        soft_delete_def empty_db_def)
qed

lemma chart_walks_return_witness:
  "assert_no_parent_cycle emptied_chart 1 1 2 =
     Some (Inl (HTTPException 400 ''Parent assignment would create a cycle in chart of accounts hierarchy'' [])) \<and>
   assert_no_parent_cycle emptied_chart 1 1 3 = Some (Inr ())"
proof -
  have r: "parent_rel emptied_chart 1 = {(2, 1)}"
    by (auto simp: parent_rel_image emptied_chart_def sample_chart_def sample_chart_account_def new_row_def live_def
        soft_delete_def)
  have "(2, 1) \<in> (parent_rel emptied_chart 1)\<^sup>+" "(3, 1) \<notin> (parent_rel emptied_chart 1)\<^sup>+"
    unfolding r by (auto elim: converse_tranclE)
  then show ?thesis
    using chart_walks_return [OF sample_chart_ok r_into_rtranclp [of coa_step, OF sample_chart_step], of 1 1] by simp
qed

end
