(* ===== verification/Journal.thy ===== *)
theory Journal
  imports Accounts
begin

text \<open>
  The general journal: \<open>app/services/accounting_journal_service.py\<close>. An entry is a draft until it is
  posted; a draft's lines are replaced as a whole, and a posted entry is balanced and never changed
  again. Amounts are stored in \<open>Numeric(15, 2)\<close> columns, which round half away from zero; the posting
  check reads the stored amounts.
\<close>

section \<open>Requests\<close>

record JournalLineInput =
  jli_account_id :: uuid
  jli_debit_amount :: decimal
  jli_credit_amount :: decimal
  jli_description :: "string option"
  jli_line_order :: int

definition validate_one_side :: "JournalLineInput \<Rightarrow> bool" where
  \<comment> \<open>with the \<open>ge=0\<close> of the two fields\<close>
  "validate_one_side l \<longleftrightarrow> 0 \<le> jli_debit_amount l \<and> 0 \<le> jli_credit_amount l \<and>
     (0 < jli_debit_amount l) \<noteq> (0 < jli_credit_amount l)"

record CreateJournalEntryRequest =
  cje_entry_date :: "date option"
  cje_description :: "string option"
  cje_branch_id :: "uuid option"
  cje_lines :: "JournalLineInput list"

record UpdateJournalEntryRequest =
  uje_entry_date :: "date option"
  uje_description :: "string option"
  uje_branch_id :: "uuid option"
  uje_lines :: "JournalLineInput list option"

definition valid_new_entry :: "CreateJournalEntryRequest \<Rightarrow> bool" where
  "valid_new_entry data \<longleftrightarrow> cje_lines data \<noteq> [] \<and> list_all validate_one_side (cje_lines data)"

definition valid_entry_update :: "UpdateJournalEntryRequest \<Rightarrow> bool" where
  "valid_entry_update data \<longleftrightarrow> (case uje_lines data of None \<Rightarrow> True | Some ls \<Rightarrow> list_all validate_one_side ls)"

section \<open>Reading\<close>

definition entry_lines :: "db \<Rightarrow> uuid \<Rightarrow> journal_line list" where
  \<comment> \<open>the relationship \<open>JournalEntry.lines\<close>\<close>
  "entry_lines s i = sort_key jl_line_order (filter (\<lambda>l. jl_journal_entry_id l = i) (journal_lines s))"

definition line_totals :: "journal_line list \<Rightarrow> decimal \<times> decimal" where
  "line_totals ls = (sum_list (map jl_debit_amount ls), sum_list (map jl_credit_amount ls))"

record JournalLineResponse =
  jlr_line :: journal_line
  jlr_account_code :: string
  jlr_account_name :: string

record JournalEntryResponse =
  jer_entry :: journal_entry
  jer_lines :: "JournalLineResponse list"
  jer_total_debit :: decimal
  jer_total_credit :: decimal

definition to_line_response :: "db \<Rightarrow> journal_line \<Rightarrow> JournalLineResponse res" where
  "to_line_response s l = (case first_row (filter (\<lambda>a. row_id a = jl_account_id l) (accounts s)) of
       None \<Rightarrow> Inl (PyError ''AttributeError'')
     | Some a \<Rightarrow> Inr \<lparr>jlr_line = l, jlr_account_code = coa_account_code a, jlr_account_name = coa_account_name a\<rparr>)"

definition to_entry_response :: "db \<Rightarrow> journal_entry \<Rightarrow> JournalEntryResponse res" where
  "to_entry_response s e =
     (let (total_debit, total_credit) = line_totals (entry_lines s (row_id e))
      in bind_res (fold_res (\<lambda>l rs. bind_res (to_line_response s l) (\<lambda>r. Inr (rs @ [r]))) (entry_lines s (row_id e)) [])
           (\<lambda>rs. Inr \<lparr>jer_entry = e, jer_lines = rs, jer_total_debit = total_debit, jer_total_credit = total_credit\<rparr>))"

definition to_list_response :: "db \<Rightarrow> journal_entry \<Rightarrow> journal_entry \<times> decimal \<times> decimal" where
  "to_list_response s e = (e, line_totals (entry_lines s (row_id e)))"

definition list_journal_entries ::
  "db \<Rightarrow> uuid \<Rightarrow> string option \<Rightarrow> date option \<Rightarrow> date option \<Rightarrow> uuid option \<Rightarrow> nat \<Rightarrow> nat \<Rightarrow>
   (journal_entry \<times> decimal \<times> decimal) list" where
  "list_journal_entries s bid status_filter date_from date_to branch_id skip limit =
     map (to_list_response s) (take limit (drop skip (sort_key (\<lambda>e. - je_entry_date e) (sort_key (\<lambda>e. - created_at e)
       (filter (\<lambda>e. business_id e = bid \<and> live e \<and>
          (case status_filter of None \<Rightarrow> True | Some t \<Rightarrow> JournalEntryStatusEnum_value (je_status e) = t) \<and>
          (case date_from of None \<Rightarrow> True | Some d \<Rightarrow> d \<le> je_entry_date e) \<and>
          (case date_to of None \<Rightarrow> True | Some d \<Rightarrow> je_entry_date e \<le> d) \<and>
          (case branch_id of None \<Rightarrow> True | Some b \<Rightarrow> je_branch_id e = Some b)) (journal_entries s))))))"

definition get_journal_entry_row :: "db \<Rightarrow> uuid \<Rightarrow> uuid \<Rightarrow> journal_entry res" where
  "get_journal_entry_row s entry_id bid =
     require_one (HTTPException 404 ''Journal entry not found'' [])
       (filter (\<lambda>e. row_id e = entry_id \<and> business_id e = bid \<and> live e) (journal_entries s))"

definition get_journal_entry_by_id :: "db \<Rightarrow> uuid \<Rightarrow> uuid \<Rightarrow> JournalEntryResponse res" where
  "get_journal_entry_by_id s entry_id bid = bind_res (get_journal_entry_row s entry_id bid) (to_entry_response s)"

section \<open>Checks\<close>

definition assert_draft :: "journal_entry \<Rightarrow> string \<Rightarrow> unit res" where
  "assert_draft e action =
     (if je_status e \<noteq> JournalEntryStatus_draft
      then Inl (HTTPException 400 ''Cannot {} {} journal entries'' [AStr action, AStr (JournalEntryStatusEnum_value (je_status e))])
      else Inr ())"

definition assert_balanced_for_post :: "journal_line list \<Rightarrow> unit res" where
  "assert_balanced_for_post ls =
     (if length ls < 2 then bad_request ''Journal entry must have at least two lines to post''
      else let (total_debit, total_credit) = line_totals ls in
        if quantize_even 2 total_debit \<noteq> quantize_even 2 total_credit
        then bad_request ''Journal entry is not balanced; debits must equal credits''
        else Inr ())"

definition validate_accounts :: "db \<Rightarrow> uuid \<Rightarrow> uuid list \<Rightarrow> unit res" where
  "validate_accounts s bid account_ids =
     (let found = row_id ` set (filter (\<lambda>a. business_id a = bid \<and> live a \<and> coa_is_active a) (accounts s))
      in if list_ex (\<lambda>i. i \<notin> found) account_ids then bad_request ''One or more accounts are invalid or inactive''
         else Inr ())"

definition verify_entry_branch :: "db \<Rightarrow> uuid \<Rightarrow> uuid option \<Rightarrow> unit res" where
  "verify_entry_branch s bid branch_id =
     (case branch_id of None \<Rightarrow> Inr () | Some b \<Rightarrow> bind_res (verify_branch s b bid) (\<lambda>_. Inr ()))"

section \<open>Operations\<close>

definition add_journal_line :: "clock \<Rightarrow> uuid \<Rightarrow> uuid \<Rightarrow> uuid \<Rightarrow> nat \<times> JournalLineInput \<Rightarrow> db \<Rightarrow> db" where
  "add_journal_line c bid entry_id user = (\<lambda>(index, data) s.
     let (i, s) = fresh_uuid s;
         line = new_row i bid (Some user) (now c)
           \<lparr>jl_journal_entry_id = entry_id, jl_account_id = jli_account_id data,
            jl_debit_amount = quantize_up 2 (jli_debit_amount data),
            jl_credit_amount = quantize_up 2 (jli_credit_amount data),
            jl_description = jli_description data,
            jl_line_order = (if jli_line_order data \<noteq> 0 then jli_line_order data else int index)\<rparr>
     in s\<lparr>journal_lines := journal_lines s @ [line]\<rparr>)"

definition delete_lines_of :: "uuid \<Rightarrow> db \<Rightarrow> db" where
  "delete_lines_of entry_id s = s\<lparr>journal_lines := filter (\<lambda>l. jl_journal_entry_id l \<noteq> entry_id) (journal_lines s)\<rparr>"

definition replace_journal_lines :: "clock \<Rightarrow> uuid \<Rightarrow> uuid \<Rightarrow> uuid \<Rightarrow> JournalLineInput list \<Rightarrow> db \<Rightarrow> db" where
  "replace_journal_lines c bid entry_id user ls s =
     fold (add_journal_line c bid entry_id user) (enumerate 0 ls) (delete_lines_of entry_id s)"

definition day_of :: "datetime \<Rightarrow> date" where
  "day_of t = t div (86400 * 10 ^ 6)"

definition create_journal_entry ::
  "clock \<Rightarrow> uuid \<Rightarrow> CreateJournalEntryRequest \<Rightarrow> uuid \<Rightarrow> db \<Rightarrow> (journal_entry \<times> db) res" where
  "create_journal_entry c bid data user s =
     bind_res (validate_accounts s bid (map jli_account_id (cje_lines data))) (\<lambda>_.
     bind_res (verify_entry_branch s bid (cje_branch_id data)) (\<lambda>_.
       let entry_date = or_else (cje_entry_date data) (day_of (now c));
           (entry_number, s) = generate_document_number c bid ''JE'' s;
           (i, s) = fresh_uuid s;
           entry = (new_row i bid (Some user) (now c)
             \<lparr>je_branch_id = cje_branch_id data, je_entry_number = entry_number,
              je_status = JournalEntryStatus_draft, je_entry_date = entry_date,
              je_description = cje_description data, je_reference_type = Some ReferenceType_manual,
              je_reference_id = None, je_posted_at = None\<rparr>)\<lparr>updated_by := Some user\<rparr>;
           s = s\<lparr>journal_entries := journal_entries s @ [entry]\<rparr>
       in Inr (entry, replace_journal_lines c bid i user (cje_lines data) s)))"

definition edit_entry :: "clock \<Rightarrow> UpdateJournalEntryRequest \<Rightarrow> uuid \<Rightarrow> journal_entry \<Rightarrow> journal_entry" where
  "edit_entry c data user e = e\<lparr>
     je_entry_date := or_else (uje_entry_date data) (je_entry_date e),
     je_description := set_some (uje_description data) (je_description e),
     je_branch_id := set_some (uje_branch_id data) (je_branch_id e),
     updated_by := Some user, updated_at := now c\<rparr>"

definition update_journal_entry ::
  "clock \<Rightarrow> uuid \<Rightarrow> uuid \<Rightarrow> UpdateJournalEntryRequest \<Rightarrow> uuid \<Rightarrow> db \<Rightarrow> db res" where
  "update_journal_entry c entry_id bid data user s =
     bind_res (get_journal_entry_row s entry_id bid) (\<lambda>entry.
     bind_res (assert_draft entry ''update'') (\<lambda>_.
     bind_res (case uje_lines data of None \<Rightarrow> Inr ()
               | Some ls \<Rightarrow> validate_accounts s bid (map jli_account_id ls)) (\<lambda>_.
     bind_res (verify_entry_branch s bid (uje_branch_id data)) (\<lambda>_.
       let s = (case uje_lines data of None \<Rightarrow> s
                | Some ls \<Rightarrow> replace_journal_lines c (business_id entry) (row_id entry) user ls s)
       in Inr (s\<lparr>journal_entries := update_where (\<lambda>e. row_id e = row_id entry) (edit_entry c data user)
                 (journal_entries s)\<rparr>)))))"

definition delete_journal_entry :: "clock \<Rightarrow> uuid \<Rightarrow> uuid \<Rightarrow> uuid \<Rightarrow> db \<Rightarrow> db res" where
  "delete_journal_entry c entry_id bid user s =
     bind_res (get_journal_entry_row s entry_id bid) (\<lambda>entry.
     bind_res (assert_draft entry ''delete'') (\<lambda>_.
       let s = delete_lines_of (row_id entry) s
       in Inr (s\<lparr>journal_entries := update_where (\<lambda>e. row_id e = row_id entry) (soft_delete c user)
                 (journal_entries s)\<rparr>)))"

definition post_entry :: "clock \<Rightarrow> uuid \<Rightarrow> journal_entry \<Rightarrow> journal_entry" where
  "post_entry c user e = e\<lparr>je_status := JournalEntryStatus_posted, je_posted_at := Some (now c),
     updated_by := Some user, updated_at := now c\<rparr>"

definition post_journal_entry :: "clock \<Rightarrow> uuid \<Rightarrow> uuid \<Rightarrow> uuid \<Rightarrow> db \<Rightarrow> db res" where
  "post_journal_entry c entry_id bid user s =
     bind_res (get_journal_entry_row s entry_id bid) (\<lambda>entry.
     bind_res (assert_draft entry ''post'') (\<lambda>_.
     bind_res (assert_balanced_for_post (entry_lines s (row_id entry))) (\<lambda>_.
     bind_res (validate_accounts s bid (map jl_account_id (entry_lines s (row_id entry)))) (\<lambda>_.
       Inr (s\<lparr>journal_entries := update_where (\<lambda>e. row_id e = row_id entry) (post_entry c user)
              (journal_entries s)\<rparr>)))))"


section \<open>The book of posted entries\<close>

type_synonym posted_entry = "uuid \<times> string \<times> date \<times> (uuid \<times> decimal \<times> decimal) list"
  \<comment> \<open>business, number, date and the accounts with their debits and credits\<close>
type_synonym book = "uuid \<rightharpoonup> posted_entry"

definition posted_lines :: "db \<Rightarrow> uuid \<Rightarrow> (uuid \<times> decimal \<times> decimal) list" where
  "posted_lines s i = map (\<lambda>l. (jl_account_id l, jl_debit_amount l, jl_credit_amount l)) (entry_lines s i)"

definition book :: "db \<Rightarrow> book" where
  \<comment> \<open>what is left of the journal when drafts, deleted entries and bookkeeping columns are forgotten\<close>
  "book s i = (case find (\<lambda>e. row_id e = i) (journal_entries s) of None \<Rightarrow> None
     | Some e \<Rightarrow> if live e \<and> je_status e = JournalEntryStatus_posted
         then Some (business_id e, je_entry_number e, je_entry_date e, posted_lines s i) else None)"

definition balanced :: "posted_entry \<Rightarrow> bool" where
  "balanced = (\<lambda>(_, _, _, ls). 2 \<le> length ls \<and> (\<Sum>(_, d, _)\<leftarrow>ls. d) = (\<Sum>(_, _, k)\<leftarrow>ls. k) \<and>
     (\<forall>(_, d, k)\<in>set ls. 0 \<le> d \<and> 0 \<le> k))"

inductive book_step :: "book \<Rightarrow> book \<Rightarrow> bool" where
  \<comment> \<open>the specification: a book only ever grows, by balanced entries\<close>
  enter: "b i = None \<Longrightarrow> balanced e \<Longrightarrow> book_step b (b(i \<mapsto> e))"

lemma book_steps_grow: "book_step\<^sup>*\<^sup>* b b' \<Longrightarrow> b \<subseteq>\<^sub>m b'"
proof (induction rule: rtranclp_induct)
  case (step y z)
  then show ?case by (auto elim!: book_step.cases simp: map_le_def) (metis domI option.distinct(1))
qed simp

lemma book_steps_balanced:
  "book_step\<^sup>*\<^sup>* b b' \<Longrightarrow> b' i = Some e \<Longrightarrow> b i = Some e \<or> balanced e"
  by (induction rule: rtranclp_induct) (auto elim!: book_step.cases split: if_splits)

section \<open>The invariant\<close>

interpretation column: quantizer "quantize_up 2" "1 / 100"
  using quantizer_up [of 2] by simp

interpretation posting: quantizer "quantize_even 2" "1 / 100"
  using quantizer_even [of 2] by simp

definition account_of_line :: "db \<Rightarrow> journal_line \<Rightarrow> chart_of_account \<Rightarrow> bool" where
  "account_of_line s l a \<longleftrightarrow>
     a \<in> set (accounts s) \<and> row_id a = jl_account_id l \<and> business_id a = business_id l \<and> live a"

definition line_ok :: "db \<Rightarrow> journal_line \<Rightarrow> bool" where
  "line_ok s l \<longleftrightarrow> jl_journal_entry_id l \<in> drawn s \<and> 0 \<le> jl_debit_amount l \<and> 0 \<le> jl_credit_amount l \<and>
     column.on_grid (jl_debit_amount l) \<and> column.on_grid (jl_credit_amount l) \<and> (\<exists>a. account_of_line s l a)"

definition journal_ok :: "db \<Rightarrow> bool" where
  "journal_ok s \<longleftrightarrow> coa_ok s \<and> keyed (journal_entries s) s \<and> (\<forall>l\<in>set (journal_lines s). line_ok s l)"

inductive journal_step :: "db \<Rightarrow> db \<Rightarrow> bool" where
  create: "valid_new_entry data \<Longrightarrow> create_journal_entry c bid data user s = Inr (e, s') \<Longrightarrow> journal_step s s'"
| update: "valid_entry_update upd \<Longrightarrow> update_journal_entry c i bid upd user s = Inr s' \<Longrightarrow> journal_step s s'"
| delete: "delete_journal_entry c i bid user s = Inr s' \<Longrightarrow> journal_step s s'"
| post: "post_journal_entry c i bid user s = Inr s' \<Longrightarrow> journal_step s s'"
| chart: "coa_step s s' \<Longrightarrow> journal_step s s'"

lemma find_update_where:
  fixes f :: "journal_entry \<Rightarrow> journal_entry"
  shows "(\<And>r. row_id (f r) = row_id r) \<Longrightarrow>
    find (\<lambda>e. row_id e = j) (update_where (\<lambda>e. row_id e = k) f es) =
    map_option (\<lambda>e. if j = k then f e else e) (find (\<lambda>e. row_id e = j) es)"
  by (induction es) auto

lemma find_keyed:
  fixes es :: "journal_entry list"
  shows "distinct (map row_id es) \<Longrightarrow> e \<in> set es \<Longrightarrow> find (\<lambda>x. row_id x = row_id e) es = Some e"
  by (induction es) (auto simp: rev_image_eqI)

lemma get_journal_entry_rowD:
  "get_journal_entry_row s i bid = Inr e \<Longrightarrow>
     e \<in> set (journal_entries s) \<and> row_id e = i \<and> business_id e = bid \<and> live e"
  by (auto simp: get_journal_entry_row_def require_one_Inr dest: filter_eq_ConsD)

lemma entry_lines_cong:
  "filter (\<lambda>l. jl_journal_entry_id l = i) (journal_lines s') = filter (\<lambda>l. jl_journal_entry_id l = i) (journal_lines s) \<Longrightarrow>
     entry_lines s' i = entry_lines s i"
  by (simp add: entry_lines_def)

lemma set_entry_lines: "set (entry_lines s i) = {l \<in> set (journal_lines s). jl_journal_entry_id l = i}"
  by (auto simp: entry_lines_def)


lemma seed_frame:
  "journal_entries (fold (add_default_account c bid u) ds s) = journal_entries s \<and>
   journal_lines (fold (add_default_account c bid u) ds s) = journal_lines s \<and>
   drawn s \<subseteq> drawn (fold (add_default_account c bid u) ds s) \<and>
   set (accounts s) \<subseteq> set (accounts (fold (add_default_account c bid u) ds s))"
proof (induction ds arbitrary: s)
  case (Cons d ds)
  have "journal_entries (add_default_account c bid u d s) = journal_entries s"
    "journal_lines (add_default_account c bid u d s) = journal_lines s"
    "drawn s \<subseteq> drawn (add_default_account c bid u d s)"
    "set (accounts s) \<subseteq> set (accounts (add_default_account c bid u d s))"
    by (auto simp: add_default_account_def fresh_uuid_def drawn_def Let_def split: prod.splits)
  then show ?case using Cons.IH [of "add_default_account c bid u d s"] by auto
qed simp_all

lemma coa_step_journal:
  assumes "coa_step s s'"
  shows "journal_entries s' = journal_entries s" "journal_lines s' = journal_lines s" "drawn s \<subseteq> drawn s'"
    and "\<forall>a\<in>set (accounts s). live a \<longrightarrow> has_journal_lines s (row_id a) \<longrightarrow>
      (\<exists>a'\<in>set (accounts s'). row_id a' = row_id a \<and> business_id a' = business_id a \<and> live a')"
proof -
  have "journal_entries s' = journal_entries s \<and> journal_lines s' = journal_lines s \<and> drawn s \<subseteq> drawn s' \<and>
    (\<forall>a\<in>set (accounts s). live a \<longrightarrow> has_journal_lines s (row_id a) \<longrightarrow>
      (\<exists>a'\<in>set (accounts s'). row_id a' = row_id a \<and> business_id a' = business_id a \<and> live a'))"
    using assms
  proof cases
    case (create c bid data user a)
    from create_chart_of_account_Inr [OF create] obtain t where "fresh_uuid s = (row_id a, t)"
      "s' = t\<lparr>accounts := accounts t @ [a]\<rparr>" .
    then show ?thesis by (auto simp: fresh_uuid_def drawn_def)
  next
    case (update c i bid upd user)
    from update_chart_of_account_Inr [OF update] obtain account code ty sub where
      "get_account_row s i bid = Inr account"
      "validate_parent s bid (or_else (uca_parent_id upd) None) (Some i) = Some (Inr ())"
      and s': "s' = s\<lparr>accounts := update_where (\<lambda>r. row_id r = row_id account)
             (edit_account c user upd code ty sub) (accounts s)\<rparr>" .
    have "\<exists>a'\<in>set (accounts s'). row_id a' = row_id a \<and> business_id a' = business_id a \<and> live a'"
      if "a \<in> set (accounts s)" "live a" for a
      using that unfolding s' by (simp, intro update_where_keeps) (auto simp: edit_account_def live_def)
    then show ?thesis using s' by (auto simp: drawn_def)
  next
    case (delete c i bid user)
    from delete_chart_of_account_Inr [OF delete] obtain account where
      g: "get_account_row s i bid = Inr account" "\<not> has_journal_lines s i"
      and s': "s' = s\<lparr>accounts := update_where (\<lambda>r. row_id r = row_id account) (soft_delete c user) (accounts s)\<rparr>" .
    have "\<exists>a'\<in>set (accounts s'). row_id a' = row_id a \<and> business_id a' = business_id a \<and> live a'"
      if "a \<in> set (accounts s)" "live a" "has_journal_lines s (row_id a)" for a
      using that g(2) get_account_rowD [OF g(1)] unfolding s'
      by (simp, intro update_where_keeps) auto
    then show ?thesis using s' by (auto simp: drawn_def)
  next
    case (seed c bid u n)
    then show ?thesis using seed_frame [of c bid u DEFAULT_CHART_ACCOUNTS s]
      by (auto simp: ensure_default_chart_of_accounts_def seed_default_chart_of_accounts_def split: if_splits)
  qed
  then show "journal_entries s' = journal_entries s" "journal_lines s' = journal_lines s" "drawn s \<subseteq> drawn s'"
    "\<forall>a\<in>set (accounts s). live a \<longrightarrow> has_journal_lines s (row_id a) \<longrightarrow>
      (\<exists>a'\<in>set (accounts s'). row_id a' = row_id a \<and> business_id a' = business_id a \<and> live a')" by simp_all
qed

text \<open>What the four operations do to the tables.\<close>

lemma validate_accounts_Inr:
  "validate_accounts s bid is = Inr () \<longleftrightarrow>
     (\<forall>i\<in>set is. \<exists>a\<in>set (accounts s). row_id a = i \<and> business_id a = bid \<and> live a \<and> coa_is_active a)"
proof -
  let ?found = "row_id ` set (filter (\<lambda>a. business_id a = bid \<and> live a \<and> coa_is_active a) (accounts s))"
  have "list_ex (\<lambda>i. i \<notin> ?found) is \<longleftrightarrow> \<not> set is \<subseteq> ?found" by (auto simp: list_ex_iff)
  then have "validate_accounts s bid is = Inr () \<longleftrightarrow> set is \<subseteq> ?found" by (simp add: validate_accounts_def Let_def)
  also have "\<dots> \<longleftrightarrow> (\<forall>i\<in>set is. \<exists>a\<in>set (accounts s). row_id a = i \<and> business_id a = bid \<and> live a \<and> coa_is_active a)"
    by (auto simp: subset_iff image_iff)
  finally show ?thesis .
qed

definition new_line :: "uuid \<Rightarrow> uuid \<Rightarrow> JournalLineInput list \<Rightarrow> journal_line \<Rightarrow> bool" where
  "new_line bid i ls l \<longleftrightarrow> business_id l = bid \<and> jl_journal_entry_id l = i \<and> (\<exists>x\<in>set ls.
     jl_account_id l = jli_account_id x \<and> jl_debit_amount l = quantize_up 2 (jli_debit_amount x) \<and>
     jl_credit_amount l = quantize_up 2 (jli_credit_amount x))"

lemma add_journal_lines:
  "\<exists>news. fold (add_journal_line c bid i user) (enumerate n ls) s =
       s\<lparr>uuid_next := uuid_next s + length ls, journal_lines := journal_lines s @ news\<rparr> \<and>
     (\<forall>l\<in>set news. new_line bid i ls l)"
proof (induction ls arbitrary: n s)
  case Nil
  show ?case by (intro exI [of _ "[]"]) simp
next
  case (Cons x ls)
  define r where "r = (new_row (uuid_gen s (uuid_next s)) bid (Some user) (now c)
      \<lparr>jl_journal_entry_id = i, jl_account_id = jli_account_id x,
       jl_debit_amount = quantize_up 2 (jli_debit_amount x), jl_credit_amount = quantize_up 2 (jli_credit_amount x),
       jl_description = jli_description x,
       jl_line_order = (if jli_line_order x \<noteq> 0 then jli_line_order x else int n)\<rparr> :: journal_line)"
  have one: "add_journal_line c bid i user (n, x) s =
      s\<lparr>uuid_next := Suc (uuid_next s), journal_lines := journal_lines s @ [r]\<rparr>"
    by (simp add: add_journal_line_def fresh_uuid_def r_def Let_def)
  have "new_line bid i (x # ls) r" by (simp add: new_line_def r_def new_row_def)
  with Cons.IH [of "Suc n" "s\<lparr>uuid_next := Suc (uuid_next s), journal_lines := journal_lines s @ [r]\<rparr>"]
  obtain news where "fold (add_journal_line c bid i user) (enumerate (Suc n) ls)
        (add_journal_line c bid i user (n, x) s) =
      s\<lparr>uuid_next := uuid_next s + length (x # ls), journal_lines := journal_lines s @ (r # news)\<rparr>"
    "\<forall>l\<in>set (r # news). new_line bid i (x # ls) l"
    by (auto simp: one new_line_def)
  then show ?case by (intro exI [of _ "r # news"]) simp
qed

lemma replace_journal_lines_eq:
  obtains news where "replace_journal_lines c bid i user ls s =
      s\<lparr>uuid_next := uuid_next s + length ls,
        journal_lines := filter (\<lambda>l. jl_journal_entry_id l \<noteq> i) (journal_lines s) @ news\<rparr>"
    "\<forall>l\<in>set news. new_line bid i ls l"
  using add_journal_lines [of c bid i user 0 ls "delete_lines_of i s"]
  by (auto simp: replace_journal_lines_def delete_lines_of_def)


text \<open>What the operations do to the book.\<close>

definition book_entry :: "db \<Rightarrow> journal_entry \<Rightarrow> posted_entry" where
  "book_entry s e = (business_id e, je_entry_number e, je_entry_date e, posted_lines s (row_id e))"

lemma find_id: "find (\<lambda>e. row_id e = i) es = Some e \<Longrightarrow> e \<in> set es \<and> row_id e = i"
  by (auto simp: find_Some_iff)

lemma book_alt: "book s i = (case find (\<lambda>e. row_id e = i) (journal_entries s) of None \<Rightarrow> None
    | Some e \<Rightarrow> if live e \<and> je_status e = JournalEntryStatus_posted then Some (book_entry s e) else None)"
  by (auto simp: book_def book_entry_def split: option.split dest: find_id)

lemma lines_of_others:
  assumes "journal_lines s' = filter (\<lambda>l. jl_journal_entry_id l \<noteq> i) (journal_lines s) @ news"
    "\<forall>l\<in>set news. jl_journal_entry_id l = i" "j \<noteq> i"
  shows "entry_lines s' j = entry_lines s j"
proof (rule entry_lines_cong)
  have "filter (\<lambda>l. jl_journal_entry_id l = j) news = []" using assms(2,3) by (auto simp: filter_empty_conv)
  moreover have "filter (\<lambda>l. jl_journal_entry_id l = j) (filter (\<lambda>l. jl_journal_entry_id l \<noteq> i) ls) =
      filter (\<lambda>l. jl_journal_entry_id l = j) ls" for ls
    using assms(3) by (auto intro: filter_cong)
  ultimately show "filter (\<lambda>l. jl_journal_entry_id l = j) (journal_lines s') =
      filter (\<lambda>l. jl_journal_entry_id l = j) (journal_lines s)" by (simp add: assms(1))
qed

lemma book_of_draft:
  assumes k: "keyed (journal_entries s) s" and e: "e \<in> set (journal_entries s)" "je_status e = JournalEntryStatus_draft"
    and f: "\<And>r. row_id (f r) = row_id r" "\<And>r. je_status (f r) = je_status r"
    and s': "journal_entries s' = update_where (\<lambda>r. row_id r = row_id e) f (journal_entries s)"
    and ls: "\<And>j. j \<noteq> row_id e \<Longrightarrow> entry_lines s' j = entry_lines s j"
  shows "book s' = book s"
proof
  fix j
  show "book s' j = book s j"
  proof (cases "j = row_id e")
    case True
    have "find (\<lambda>x. row_id x = j) (journal_entries s) = Some e"
      using k e(1) unfolding True keyed_def by (intro find_keyed) auto
    then show ?thesis using e(2) f True by (simp add: book_def s' find_update_where)
  next
    case False
    then show ?thesis
      by (simp add: book_def s' find_update_where f posted_lines_def ls option.map_ident split: option.split)
  qed
qed

lemma book_of_new:
  assumes "journal_entries s' = journal_entries s @ [e]" "je_status e = JournalEntryStatus_draft"
    and "\<And>j. j \<noteq> row_id e \<Longrightarrow> entry_lines s' j = entry_lines s j" "row_id e \<notin> row_id ` set (journal_entries s)"
  shows "book s' = book s"
proof
  fix j
  show "book s' j = book s j"
  proof (cases "find (\<lambda>x. row_id x = j) (journal_entries s)")
    case None
    then show ?thesis using assms(2) by (auto simp: book_def assms(1) find_append)
  next
    case (Some x)
    then have "j \<noteq> row_id e" using assms(4) find_id [OF Some] by (metis image_eqI)
    then show ?thesis using Some assms(3) by (simp add: book_def assms(1) find_append posted_lines_def)
  qed
qed

lemma book_of_posted:
  assumes k: "keyed (journal_entries s) s" and e: "e \<in> set (journal_entries s)" "je_status e = JournalEntryStatus_draft" "live e"
    and s': "s' = s\<lparr>journal_entries := update_where (\<lambda>r. row_id r = row_id e) (post_entry c user) (journal_entries s)\<rparr>"
  shows "book s (row_id e) = None" "book s' = (book s)(row_id e \<mapsto> book_entry s e)"
proof -
  have fe: "find (\<lambda>x. row_id x = row_id e) (journal_entries s) = Some e"
    using k e(1) unfolding keyed_def by (intro find_keyed) auto
  then show "book s (row_id e) = None" using e(2) by (simp add: book_def)
  have f: "row_id (post_entry c user r) = row_id r" for r by (simp add: post_entry_def)
  have same: "posted_lines s' i = posted_lines s i" for i by (simp add: posted_lines_def entry_lines_def s')
  show "book s' = (book s)(row_id e \<mapsto> book_entry s e)"
  proof
    fix j
    show "book s' j = ((book s)(row_id e \<mapsto> book_entry s e)) j"
    proof (cases "j = row_id e")
      case True
      have "journal_entries s' = update_where (\<lambda>r. row_id r = row_id e) (post_entry c user) (journal_entries s)"
        by (simp add: s')
      then show ?thesis using fe e(3) True
        by (simp add: book_def find_update_where f same) (simp add: post_entry_def live_def book_entry_def)
    next
      case False
      then show ?thesis
        using same by (auto simp: book_def s' find_update_where f option.map_ident split: option.split)
    qed
  qed
qed


section \<open>The invariant is kept\<close>

lemma line_ok_mono:
  assumes "line_ok s l" "drawn s \<subseteq> drawn s'" "set (accounts s) \<subseteq> set (accounts s')"
  shows "line_ok s' l"
  using assms by (auto simp: line_ok_def account_of_line_def)

lemma new_lines_ok:
  assumes "new_line bid i ls l" "list_all validate_one_side ls" "i \<in> drawn s"
    and "validate_accounts s0 bid (map jli_account_id ls) = Inr ()" "accounts s = accounts s0"
  shows "line_ok s l"
proof -
  from assms(1) obtain x where x: "x \<in> set ls" "jl_account_id l = jli_account_id x"
    "jl_debit_amount l = quantize_up 2 (jli_debit_amount x)" "jl_credit_amount l = quantize_up 2 (jli_credit_amount x)"
    and l: "business_id l = bid" "jl_journal_entry_id l = i" by (auto simp: new_line_def)
  from assms(2) x(1) have "0 \<le> jli_debit_amount x" "0 \<le> jli_credit_amount x"
    by (auto simp: list_all_iff validate_one_side_def)
  moreover from assms(4) x(1) obtain a where "a \<in> set (accounts s0)" "row_id a = jli_account_id x" "business_id a = bid" "live a"
    unfolding validate_accounts_Inr by auto
  ultimately show ?thesis using x l assms(3,5)
    by (auto simp: line_ok_def account_of_line_def column.nonneg)
qed

lemma journal_ok_written:
  \<comment> \<open>lines of one entry are replaced, entries keep their ids\<close>
  assumes ok: "journal_ok s"
    and s': "journal_lines s' = filter (\<lambda>l. jl_journal_entry_id l \<noteq> i) (journal_lines s) @ news"
    and news: "\<And>l. l \<in> set news \<Longrightarrow> line_ok s' l"
    and fr: "accounts s' = accounts s" "uuid_gen s' = uuid_gen s" "drawn s \<subseteq> drawn s'" "keyed (journal_entries s') s'"
  shows "journal_ok s'"
proof -
  have "line_ok s' l" if "l \<in> set (journal_lines s')" for l
    using that ok news fr line_ok_mono [of s l s'] by (auto simp: s' journal_ok_def)
  moreover have "coa_ok s'" using ok fr by (auto simp: journal_ok_def intro: coa_ok_frame)
  ultimately show ?thesis using fr by (simp add: journal_ok_def)
qed

lemma create_journal_entry_step:
  assumes ok: "journal_ok s" and v: "valid_new_entry data" and r: "create_journal_entry c bid data user s = Inr (e, s')"
  shows "journal_ok s' \<and> book s' = book s"
proof -
  have inj: "inj (uuid_gen s)" using ok by (simp add: journal_ok_def coa_ok_def)
  obtain n t where n: "generate_document_number c bid ''JE'' s = (n, t)" by fastforce
  note N = generate_document_number_frame [OF n]
  obtain i u where i: "fresh_uuid t = (i, u)" by fastforce
  have injt: "inj (uuid_gen t)" by (subst N(1)) (simp add: inj)
  have dt: "drawn s \<subseteq> drawn t" by (rule drawn_le) (subst N(1), simp, rule N(2))
  have u: "u = t\<lparr>uuid_next := Suc (uuid_next t)\<rparr>" using i by (simp add: fresh_uuid_def)
  have new: "i \<notin> drawn t" by (rule fresh_uuid_new [OF injt i])
  from r n i have va: "validate_accounts s bid (map jli_account_id (cje_lines data)) = Inr ()"
    and e: "row_id e = i" "je_status e = JournalEntryStatus_draft"
    and s': "s' = replace_journal_lines c bid i user (cje_lines data) (u\<lparr>journal_entries := journal_entries u @ [e]\<rparr>)"
    by (auto simp: create_journal_entry_def bind_res_Inr new_row_def Let_def)
  obtain news where w: "s' = u\<lparr>journal_entries := journal_entries u @ [e],
        uuid_next := uuid_next u + length (cje_lines data),
        journal_lines := filter (\<lambda>l. jl_journal_entry_id l \<noteq> i) (journal_lines u) @ news\<rparr>"
    and nl: "\<forall>l\<in>set news. new_line bid i (cje_lines data) l"
    by (rule replace_journal_lines_eq [of c bid i user "cje_lines data" "u\<lparr>journal_entries := journal_entries u @ [e]\<rparr>"])
      (simp add: s')
  have same: "journal_entries u = journal_entries s" "journal_lines u = journal_lines s" "accounts u = accounts s"
    "uuid_gen u = uuid_gen s" by (simp_all add: u, (subst N(1), simp)+)
  have du: "drawn u = insert i (drawn t)" by (rule fresh_uuid_drawn [OF i])
  have ds: "drawn u \<subseteq> drawn s'" by (rule drawn_le) (simp_all add: w)
  have k: "keyed (journal_entries s) t" using ok dt by (auto simp: journal_ok_def intro: keyed_mono)
  have "keyed (journal_entries s') s'"
    using keyed_mono [OF keyed_snoc [OF k injt, of e u]] i e(1) ds by (simp add: w same)
  moreover have "line_ok s' l" if "l \<in> set news" for l
    by (rule new_lines_ok [OF _ _ _ va]) (use that nl v ds du in \<open>auto simp: valid_new_entry_def w same\<close>)
  ultimately have "journal_ok s'"
    by (intro journal_ok_written [OF ok, where i = i and news = news]) (use ds du dt in \<open>auto simp: w same\<close>)
  moreover have "book s' = book s"
  proof (rule book_of_new)
    show "journal_entries s' = journal_entries s @ [e]" by (simp add: w same)
    show "row_id e \<notin> row_id ` set (journal_entries s)" using k new by (auto simp: e keyed_def)
    show "entry_lines s' j = entry_lines s j" if "j \<noteq> row_id e" for j
      by (rule lines_of_others [where i = i and news = news]) (use nl that e in \<open>auto simp: w same new_line_def\<close>)
  qed (rule e(2))
  ultimately show ?thesis ..
qed


lemma keyed_update:
  fixes f :: "journal_entry \<Rightarrow> journal_entry"
  assumes "keyed (journal_entries s) s" "\<And>r. row_id (f r) = row_id r" "drawn s \<subseteq> drawn s'"
  shows "keyed (update_where P f (journal_entries s)) s'"
  using assms by (auto simp: keyed_def map_update_where set_update_where)

lemma journal_ok_entries:
  assumes ok: "journal_ok s" and f: "\<And>r. row_id (f r) = row_id r"
  shows "journal_ok (s\<lparr>journal_entries := update_where P f (journal_entries s)\<rparr>)"
proof -
  let ?s = "s\<lparr>journal_entries := update_where P f (journal_entries s)\<rparr>"
  have d: "drawn ?s = drawn s" by (simp add: drawn_def)
  then have "line_ok ?s l \<longleftrightarrow> line_ok s l" for l by (simp add: line_ok_def account_of_line_def)
  moreover have "keyed (journal_entries ?s) ?s"
    using ok keyed_update [of s f ?s P] f d by (simp add: journal_ok_def)
  moreover have "coa_ok ?s" using ok by (auto simp: journal_ok_def d intro: coa_ok_frame)
  ultimately show ?thesis using ok by (simp add: journal_ok_def)
qed

lemma update_journal_entry_step:
  assumes ok: "journal_ok s" and v: "valid_entry_update data" and r: "update_journal_entry c i bid data user s = Inr s'"
  shows "journal_ok s' \<and> book s' = book s"
proof -
  let ?f = "edit_entry c data user"
  from r obtain e where g: "get_journal_entry_row s i bid = Inr e" and d: "je_status e = JournalEntryStatus_draft"
    and va: "\<And>ls. uje_lines data = Some ls \<Longrightarrow> validate_accounts s bid (map jli_account_id ls) = Inr ()"
    and s': "s' = (case uje_lines data of None \<Rightarrow> s | Some ls \<Rightarrow> replace_journal_lines c (business_id e) (row_id e) user ls s)
       \<lparr>journal_entries := update_where (\<lambda>x. row_id x = row_id e) ?f
          (journal_entries (case uje_lines data of None \<Rightarrow> s
             | Some ls \<Rightarrow> replace_journal_lines c (business_id e) (row_id e) user ls s))\<rparr>"
    by (auto simp: update_journal_entry_def bind_res_Inr assert_draft_def Let_def split: option.splits if_splits)
  note G = get_journal_entry_rowD [OF g]
  have k: "keyed (journal_entries s) s" using ok by (simp add: journal_ok_def)
  have di: "row_id e \<in> drawn s" using k G by (auto simp: keyed_def)
  have f: "row_id (?f x) = row_id x" "je_status (?f x) = je_status x" for x by (simp_all add: edit_entry_def)
  show ?thesis
  proof (cases "uje_lines data")
    case None
    then have s': "s' = s\<lparr>journal_entries := update_where (\<lambda>x. row_id x = row_id e) ?f (journal_entries s)\<rparr>"
      using s' by simp
    have "entry_lines s' j = entry_lines s j" for j by (simp add: s' entry_lines_def)
    then have "book s' = book s" by (intro book_of_draft [OF k _ d f]) (use G in \<open>simp_all add: s'\<close>)
    then show ?thesis using journal_ok_entries [OF ok f(1)] by (simp add: s')
  next
    case (Some ls)
    obtain news where w: "replace_journal_lines c (business_id e) (row_id e) user ls s =
        s\<lparr>uuid_next := uuid_next s + length ls,
          journal_lines := filter (\<lambda>l. jl_journal_entry_id l \<noteq> row_id e) (journal_lines s) @ news\<rparr>"
      and nl: "\<forall>l\<in>set news. new_line (business_id e) (row_id e) ls l" by (rule replace_journal_lines_eq)
    with Some s' have s': "s' = s\<lparr>uuid_next := uuid_next s + length ls,
          journal_lines := filter (\<lambda>l. jl_journal_entry_id l \<noteq> row_id e) (journal_lines s) @ news,
          journal_entries := update_where (\<lambda>x. row_id x = row_id e) ?f (journal_entries s)\<rparr>" by simp
    have ds: "drawn s \<subseteq> drawn s'" by (rule drawn_le) (simp_all add: s')
    have "line_ok s' l" if "l \<in> set news" for l
      by (rule new_lines_ok [OF _ _ _ va [OF Some]]) (use that nl v di ds G Some in \<open>auto simp: valid_entry_update_def s'\<close>)
    then have "journal_ok s'"
      by (intro journal_ok_written [OF ok, where i = "row_id e" and news = news])
        (use ds in \<open>auto simp: s' intro!: keyed_update [OF k] f\<close>)
    moreover have "entry_lines s' j = entry_lines s j" if "j \<noteq> row_id e" for j
      by (rule lines_of_others [where i = "row_id e" and news = news]) (use nl that in \<open>auto simp: s' new_line_def\<close>)
    then have "book s' = book s" by (intro book_of_draft [OF k _ d f]) (use G in \<open>simp_all add: s'\<close>)
    ultimately show ?thesis ..
  qed
qed

lemma delete_journal_entry_step:
  assumes ok: "journal_ok s" and r: "delete_journal_entry c i bid user s = Inr s'"
  shows "journal_ok s' \<and> book s' = book s"
proof -
  from r obtain e where g: "get_journal_entry_row s i bid = Inr e" and d: "je_status e = JournalEntryStatus_draft"
    and w: "s' = s\<lparr>journal_lines := filter (\<lambda>l. jl_journal_entry_id l \<noteq> row_id e) (journal_lines s),
      journal_entries := update_where (\<lambda>x. row_id x = row_id e) (soft_delete c user) (journal_entries s)\<rparr>"
    by (auto simp: delete_journal_entry_def bind_res_Inr assert_draft_def delete_lines_of_def Let_def split: if_splits)
  note G = get_journal_entry_rowD [OF g]
  have k: "keyed (journal_entries s) s" using ok by (simp add: journal_ok_def)
  have f: "row_id (soft_delete c user x) = row_id x" "je_status (soft_delete c user x) = je_status x"
    for x :: journal_entry by (simp_all add: soft_delete_def)
  have ds: "drawn s \<subseteq> drawn s'" by (rule drawn_le) (simp_all add: w)
  have "journal_ok s'"
    by (rule journal_ok_written [OF ok, where i = "row_id e" and news = "[]"])
      (use ds in \<open>auto simp: w intro!: keyed_update [OF k] f\<close>)
  moreover have "book s' = book s"
  proof (rule book_of_draft [OF k _ d f])
    show "entry_lines s' j = entry_lines s j" if "j \<noteq> row_id e" for j
      by (rule lines_of_others [where i = "row_id e" and news = "[]"]) (use that in \<open>simp_all add: w\<close>)
  qed (use G in \<open>simp_all add: w\<close>)
  ultimately show ?thesis ..
qed

lemma assert_balanced_Inr:
  assumes "assert_balanced_for_post ls = Inr ()"
    and "\<And>l. l \<in> set ls \<Longrightarrow> column.on_grid (jl_debit_amount l)" "\<And>l. l \<in> set ls \<Longrightarrow> column.on_grid (jl_credit_amount l)"
  shows "2 \<le> length ls" "sum_list (map jl_debit_amount ls) = sum_list (map jl_credit_amount ls)"
proof -
  have "column.on_grid (sum_list (map jl_debit_amount ls))" "column.on_grid (sum_list (map jl_credit_amount ls))"
    using assms(2,3) by (auto intro!: column.on_grid_sum_list)
  then have "quantize_even 2 (sum_list (map jl_debit_amount ls)) = sum_list (map jl_debit_amount ls)"
    "quantize_even 2 (sum_list (map jl_credit_amount ls)) = sum_list (map jl_credit_amount ls)"
    by (simp_all add: posting.fixed_grid)
  then show "2 \<le> length ls" "sum_list (map jl_debit_amount ls) = sum_list (map jl_credit_amount ls)"
    using assms(1) by (auto simp: assert_balanced_for_post_def line_totals_def split: if_splits)
qed

lemma post_journal_entry_step:
  assumes ok: "journal_ok s" and r: "post_journal_entry c i bid user s = Inr s'"
  shows "journal_ok s' \<and> book_step (book s) (book s') \<and> book s i = None \<and> (\<exists>e. book s' = (book s)(i \<mapsto> e))"
proof -
  from r obtain e where g: "get_journal_entry_row s i bid = Inr e" and d: "je_status e = JournalEntryStatus_draft"
    and b: "assert_balanced_for_post (entry_lines s (row_id e)) = Inr ()"
    and w: "s' = s\<lparr>journal_entries := update_where (\<lambda>x. row_id x = row_id e) (post_entry c user) (journal_entries s)\<rparr>"
    by (auto simp: post_journal_entry_def bind_res_Inr assert_draft_def split: if_splits)
  note G = get_journal_entry_rowD [OF g]
  have k: "keyed (journal_entries s) s" using ok by (simp add: journal_ok_def)
  have lok: "line_ok s l" if "l \<in> set (entry_lines s (row_id e))" for l
    using that ok by (simp add: set_entry_lines journal_ok_def)
  have j: "journal_ok s'" unfolding w by (rule journal_ok_entries [OF ok]) (simp add: post_entry_def)
  have "column.on_grid (jl_debit_amount l)" "column.on_grid (jl_credit_amount l)"
    if "l \<in> set (entry_lines s (row_id e))" for l
    using lok [OF that] by (simp_all add: line_ok_def)
  from assert_balanced_Inr [OF b this] have bal: "balanced (book_entry s e)"
    using lok by (auto simp: balanced_def book_entry_def posted_lines_def comp_def case_prod_beta line_ok_def)
  have e: "e \<in> set (journal_entries s)" "live e" using G by simp_all
  note B = book_of_posted [OF k e(1) d e(2) w]
  have "book_step (book s) (book s')" unfolding B(2) by (rule book_step.enter) (rule B(1), rule bal)
  moreover have "row_id e = i" using G by simp
  ultimately show ?thesis using j B by blast
qed

lemma chart_step:
  assumes ok: "journal_ok s" and r: "coa_step s s'"
  shows "journal_ok s' \<and> book s' = book s"
proof -
  note F = coa_step_journal [OF r]
  have "line_ok s' l" if l: "l \<in> set (journal_lines s')" for l
  proof -
    have ls: "l \<in> set (journal_lines s)" using l F(2) by simp
    then have "line_ok s l" using ok by (simp add: journal_ok_def)
    then obtain a where a: "account_of_line s l a" by (auto simp: line_ok_def)
    then have "has_journal_lines s (row_id a)"
      using ls by (auto simp: has_journal_lines_def account_of_line_def length_greater_0_conv [THEN iffD2] filter_empty_conv)
    then obtain a' where "a' \<in> set (accounts s')" "row_id a' = row_id a" "business_id a' = business_id a" "live a'"
      using F(4) a by (auto simp: account_of_line_def)
    then have "account_of_line s' l a'" using a by (simp add: account_of_line_def)
    then show ?thesis using \<open>line_ok s l\<close> F(3) by (auto simp: line_ok_def)
  qed
  moreover have "keyed (journal_entries s') s'" using ok F(1,3) by (auto simp: journal_ok_def intro: keyed_mono)
  moreover have "coa_ok s'" using ok coa_step_ok [OF r] by (simp add: journal_ok_def)
  moreover have "book s' = book s"
    using F(1,2) by (auto simp: book_def posted_lines_def entry_lines_def split: option.split)
  ultimately show ?thesis by (simp add: journal_ok_def)
qed

lemma journal_step_refines:
  "journal_step s s' \<Longrightarrow> journal_ok s \<Longrightarrow> journal_ok s' \<and> book_step\<^sup>=\<^sup>= (book s) (book s')"
proof (induction rule: journal_step.induct)
  case (post c i bid user s s')
  then show ?case using post_journal_entry_step by blast
next
  case (create data c bid user s e s')
  then show ?case using create_journal_entry_step by simp
next
  case (update upd c i bid user s s')
  then show ?case using update_journal_entry_step by simp
next
  case (delete c i bid user s s')
  then show ?case using delete_journal_entry_step by simp
next
  case (chart s s')
  then show ?case using chart_step by simp
qed

lemma journal_steps_refine:
  "journal_step\<^sup>*\<^sup>* s s' \<Longrightarrow> journal_ok s \<Longrightarrow> journal_ok s' \<and> book_step\<^sup>*\<^sup>* (book s) (book s')"
proof (induction rule: rtranclp_induct)
  case (step t u)
  then show ?case using journal_step_refines [OF step.hyps(2)] by (auto intro: rtranclp.rtrancl_into_rtrancl)
qed simp

text \<open>
  C10. The journal refines the book. Under any sequence of requests that create, edit, delete and
  post entries and change the chart of accounts, the posted entries behave as the append-only book
  does: a step leaves the book as it is or enters one new entry, of at least two lines, none
  negative, whose debits equal its credits to the cent. What was posted is never changed or lost,
  posting an entry enters it, and every line of the journal keeps a live account of its own
  business.
\<close>

theorem journal_refines_book:
  assumes "journal_ok s" and "journal_step\<^sup>*\<^sup>* s s'"
  shows "book_step\<^sup>*\<^sup>* (book s) (book s') \<and> book s \<subseteq>\<^sub>m book s' \<and>
    (\<forall>i e. book s' i = Some e \<longrightarrow> book s i = Some e \<or> balanced e) \<and>
    (\<forall>c i bid user t. post_journal_entry c i bid user s' = Inr t \<longrightarrow>
       book s' i = None \<and> (\<exists>e. book t = (book s')(i \<mapsto> e))) \<and>
    (\<forall>l\<in>set (journal_lines s'). \<exists>a. account_of_line s' l a)"
proof -
  note R = journal_steps_refine [OF assms(2,1)]
  then have "book_step\<^sup>*\<^sup>* (book s) (book s')" by simp
  moreover note book_steps_grow [OF this] book_steps_balanced [OF this]
  moreover have "\<forall>l\<in>set (journal_lines s'). line_ok s' l" using R by (simp add: journal_ok_def)
  moreover have "journal_ok s'" using R by simp
  note post_journal_entry_step [OF this]
  ultimately show ?thesis by (simp add: line_ok_def)
qed


definition sample_journal_line :: "uuid \<Rightarrow> uuid \<Rightarrow> decimal \<Rightarrow> decimal \<Rightarrow> int \<Rightarrow> journal_line" where
  "sample_journal_line i a d k n = new_row i 1 (Some 9) (now sample_now)
     \<lparr>jl_journal_entry_id = 50, jl_account_id = a, jl_debit_amount = d, jl_credit_amount = k,
      jl_description = None, jl_line_order = n\<rparr>"

definition sample_draft :: journal_entry where
  "sample_draft = new_row 50 1 (Some 9) (now sample_now)
     \<lparr>je_branch_id = None, je_entry_number = ''JE-20250101-0001'', je_status = JournalEntryStatus_draft,
      je_entry_date = 20089, je_description = None, je_reference_type = Some ReferenceType_manual,
      je_reference_id = None, je_posted_at = None\<rparr>"

definition sample_journal :: db where
  "sample_journal = sample_chart\<lparr>journal_entries := [sample_draft],
     journal_lines := [sample_journal_line 51 1 10 0 0, sample_journal_line 52 2 0 10 1]\<rparr>"

lemma sample_lines: "entry_lines sample_journal 50 = [sample_journal_line 51 1 10 0 0, sample_journal_line 52 2 0 10 1]"
  by (simp add: entry_lines_def sample_journal_def sample_journal_line_def new_row_def)

lemma sample_journal_ok: "journal_ok sample_journal"
proof -
  have d: "drawn sample_journal = {..<100}" "drawn sample_chart = {..<100}"
    by (simp_all add: drawn_def sample_journal_def sample_chart_def empty_db_def)
  have "coa_ok sample_journal"
    by (rule coa_ok_frame [OF sample_chart_ok]) (simp_all add: d, simp_all add: sample_journal_def)
  moreover have "column.on_grid 10" unfolding column.on_grid_def by (rule exI [of _ 1000]) simp
  moreover have "account_of_line sample_journal (sample_journal_line 51 1 10 0 0) (sample_chart_account 1 ''1000'' None)"
    "account_of_line sample_journal (sample_journal_line 52 2 0 10 1) (sample_chart_account 2 ''1010'' (Some 1))"
    by (simp_all add: account_of_line_def sample_journal_def sample_journal_line_def sample_chart_def
        sample_chart_account_def new_row_def live_def)
  ultimately have "line_ok sample_journal (sample_journal_line 51 1 10 0 0)"
    "line_ok sample_journal (sample_journal_line 52 2 0 10 1)" "coa_ok sample_journal"
    by (auto simp: line_ok_def d) (simp_all add: sample_journal_line_def new_row_def)
  then show ?thesis
    by (simp add: journal_ok_def keyed_def d) (simp add: sample_journal_def sample_draft_def new_row_def)
qed

lemma journal_refines_book_witness:
  "\<exists>s'. post_journal_entry sample_now 50 1 9 sample_journal = Inr s' \<and> book sample_journal = Map.empty \<and>
     (\<exists>e. book s' 50 = Some e \<and> balanced e)"
proof -
  have e: "get_journal_entry_row sample_journal 50 1 = Inr sample_draft"
    by (simp add: get_journal_entry_row_def sample_journal_def sample_draft_def new_row_def live_def)
  have b: "assert_balanced_for_post (entry_lines sample_journal 50) = Inr ()"
    by (simp add: sample_lines assert_balanced_for_post_def line_totals_def sample_journal_line_def new_row_def)
  have a: "validate_accounts sample_journal 1 (map jl_account_id (entry_lines sample_journal 50)) = Inr ()"
    unfolding validate_accounts_Inr sample_lines
    by (simp add: sample_journal_line_def sample_journal_def sample_chart_def sample_chart_account_def new_row_def live_def)
  have "row_id sample_draft = 50" "je_status sample_draft = JournalEntryStatus_draft"
    by (simp_all add: sample_draft_def new_row_def)
  then obtain s' where s': "post_journal_entry sample_now 50 1 9 sample_journal = Inr s'"
    using a b by (simp add: post_journal_entry_def e assert_draft_def del: One_nat_def)
  have empty: "book sample_journal = Map.empty"
    by (auto simp: book_def sample_journal_def sample_draft_def new_row_def fun_eq_iff)
  have one: "journal_step\<^sup>*\<^sup>* sample_journal s'" using journal_step.post [OF s'] by blast
  note J = journal_refines_book [OF sample_journal_ok one] journal_refines_book [OF sample_journal_ok rtranclp.rtrancl_refl]
  then obtain e where "book s' = [50 \<mapsto> e]" using s' empty by metis
  moreover from this have "balanced e" using J(1) empty by (metis fun_upd_same option.distinct(1))
  ultimately show ?thesis using s' empty by (intro exI [of _ s'] conjI exI [of _ e]) simp_all
qed

text \<open>
  An amount below half a cent passes the request's check that one side is positive, is stored as
  zero, and the entry can be posted with a line that has neither a debit nor a credit.
\<close>

lemma tiny_line_stored_as_zero:
  assumes l: "l = \<lparr>jli_account_id = a, jli_debit_amount = 1 / 1000, jli_credit_amount = 0, jli_description = None,
      jli_line_order = 0\<rparr>"
    and s': "add_journal_line c bid i user (n, l) s = s'"
  shows "validate_one_side l \<and> jl_debit_amount (last (journal_lines s')) = 0 \<and>
    jl_credit_amount (last (journal_lines s')) = 0"
proof -
  have "quantize_up 2 (1 / 1000) = 0" by (simp add: quantize_up_def round_half_up_def floor_eq_iff)
  then show ?thesis using s' by (auto simp: l validate_one_side_def add_journal_line_def fresh_uuid_def new_row_def Let_def)
qed

end
