(* ===== verification/Manufacturing.thy ===== *)
theory Manufacturing
  imports Documents Tables
begin

text \<open>
  Manufacturing: \<open>app/services/manufacturing_bom_service.py\<close> (bills of materials) and
  \<open>app/services/manufacturing_production_service.py\<close> (production orders). Completing an order takes
  the ingredients from the branch's layers, oldest first, and puts the finished goods in as a new
  layer that carries the cost of what was taken.
\<close>

section \<open>Bills of materials\<close>

record BomLineRequest =
  blr_ingredient_product_id :: uuid
  blr_ingredient_variation_id :: "uuid option"
  blr_qty_required :: decimal
  blr_unit_id :: "uuid option"
  blr_wastage_pct :: decimal
  blr_sort_order :: int

definition valid_bom_line :: "BomLineRequest \<Rightarrow> bool" where
  "valid_bom_line l \<longleftrightarrow> 0 < blr_qty_required l \<and> 0 \<le> blr_wastage_pct l \<and> blr_wastage_pct l \<le> 100"

record CreateBomRequest =
  cbr_product_id :: uuid
  cbr_variation_id :: "uuid option"
  cbr_name :: string
  cbr_output_qty :: decimal
  cbr_is_active :: bool
  cbr_lines :: "BomLineRequest list"

record UpdateBomRequest =
  ubr_name :: "string option"
  ubr_output_qty :: "decimal option"
  ubr_is_active :: "bool option"
  ubr_lines :: "BomLineRequest list option"

definition active_bom_lines :: "db \<Rightarrow> uuid \<Rightarrow> bom_line list" where
  "active_bom_lines s bom_id = filter (\<lambda>l. bl_bom_header_id l = bom_id \<and> live l) (bom_lines s)"

definition compute_ingredient_qty_for_production ::
  "decimal \<Rightarrow> decimal \<Rightarrow> decimal \<Rightarrow> decimal \<Rightarrow> (decimal \<times> decimal) res" where
  "compute_ingredient_qty_for_production qty_required output_qty wastage_pct qty_to_produce =
     (if output_qty \<le> 0 then Inl (PyError ''ValueError'')
      else let per_unit = invoice_round2 (dec_ctx (dec_div qty_required output_qty * (1 + dec_div wastage_pct 100)))
        in Inr (per_unit, invoice_round2 (per_unit * qty_to_produce)))"

definition named :: "db \<Rightarrow> uuid \<Rightarrow> string res" where
  \<comment> \<open>\<open>.product.name\<close> of a row that refers to a product\<close>
  "named s i = (case first_row (filter (\<lambda>p. row_id p = i) (products s)) of
       None \<Rightarrow> Inl (PyError ''AttributeError'') | Some p \<Rightarrow> Inr (p_name p))"

definition map_res :: "('a \<Rightarrow> 'b res) \<Rightarrow> 'a list \<Rightarrow> 'b list res" where
  "map_res f xs = fold_res (\<lambda>x ys. bind_res (f x) (\<lambda>y. Inr (ys @ [y]))) xs []"

record BomHeaderResponse =
  bhr_bom :: bom_header
  bhr_product_name :: string
  bhr_lines :: "(bom_line \<times> string) list"

definition build_bom_response :: "db \<Rightarrow> bom_header \<Rightarrow> BomHeaderResponse res" where
  "build_bom_response s bom =
     bind_res (named s (bh_product_id bom)) (\<lambda>pname.
     bind_res (map_res (\<lambda>l. bind_res (named s (bl_ingredient_product_id l)) (\<lambda>n. Inr (l, n)))
                (active_bom_lines s (row_id bom))) (\<lambda>ls.
       Inr \<lparr>bhr_bom = bom, bhr_product_name = pname, bhr_lines = ls\<rparr>))"

definition verify_manufactured_product :: "db \<Rightarrow> uuid \<Rightarrow> uuid \<Rightarrow> uuid option \<Rightarrow> product res" where
  "verify_manufactured_product s product_id bid variation_id =
     bind_res (verify_product s product_id bid) (\<lambda>product.
     if p_product_type product \<noteq> ProductType_manufactured
     then bad_request (''BOM finished product must have product_type 'manufactured'' @ [CHR 0x27])
     else case variation_id of None \<Rightarrow> Inr product
       | Some v \<Rightarrow> bind_res (verify_variation s v product_id bid) (\<lambda>_. Inr product))"

definition verify_unit :: "db \<Rightarrow> uuid \<Rightarrow> uuid \<Rightarrow> unit_of_measure res" where
  "verify_unit s unit_id bid =
     require_one (HTTPException 400 ''Unit not found'' [])
       (filter (\<lambda>u. row_id u = unit_id \<and> business_id u = bid \<and> live u) (units_of_measure s))"


definition check_bom_line ::
  "db \<Rightarrow> uuid \<Rightarrow> uuid \<Rightarrow> BomLineRequest \<Rightarrow> (uuid \<times> uuid option) set \<Rightarrow> (uuid \<times> uuid option) set res" where
  \<comment> \<open>one iteration, carrying \<open>seen\<close>\<close>
  "check_bom_line s bid finished_product_id line seen =
     (let key = (blr_ingredient_product_id line, blr_ingredient_variation_id line)
      in if blr_ingredient_product_id line = finished_product_id
         then bad_request ''BOM ingredient cannot be the same as the finished product''
         else if key \<in> seen then bad_request ''Duplicate ingredient line in BOM''
         else bind_res (verify_product s (blr_ingredient_product_id line) bid) (\<lambda>_.
              bind_res (case blr_ingredient_variation_id line of None \<Rightarrow> Inr ()
                | Some v \<Rightarrow> bind_res (verify_variation s v (blr_ingredient_product_id line) bid) (\<lambda>_. Inr ())) (\<lambda>_.
              bind_res (case blr_unit_id line of None \<Rightarrow> Inr ()
                | Some u \<Rightarrow> bind_res (verify_unit s u bid) (\<lambda>_. Inr ())) (\<lambda>_.
                Inr (insert key seen)))))"

definition validate_bom_lines :: "db \<Rightarrow> uuid \<Rightarrow> uuid \<Rightarrow> BomLineRequest list \<Rightarrow> unit res" where
  "validate_bom_lines s bid finished_product_id ls =
     (if ls = [] then bad_request ''BOM must have at least one ingredient line''
      else bind_res (fold_res (check_bom_line s bid finished_product_id) ls {}) (\<lambda>_. Inr ()))"

definition bom_of_product :: "uuid \<Rightarrow> uuid \<Rightarrow> uuid option \<Rightarrow> bom_header \<Rightarrow> bool" where
  "bom_of_product bid product_id variation_id b \<longleftrightarrow>
     business_id b = bid \<and> bh_product_id b = product_id \<and> live b \<and> bh_variation_id b = variation_id"

definition next_bom_version :: "db \<Rightarrow> uuid \<Rightarrow> uuid \<Rightarrow> uuid option \<Rightarrow> int" where
  "next_bom_version s bid product_id variation_id =
     (let vs = map bh_version (filter (bom_of_product bid product_id variation_id) (boms s))
      in (if vs = [] then 0 else Max (set vs)) + 1)"

definition deactivate_other_active_boms ::
  "clock \<Rightarrow> uuid \<Rightarrow> uuid \<Rightarrow> uuid option \<Rightarrow> uuid option \<Rightarrow> uuid \<Rightarrow> db \<Rightarrow> db" where
  "deactivate_other_active_boms c bid product_id variation_id exclude_bom_id user s =
     s\<lparr>boms := update_where (\<lambda>b. bom_of_product bid product_id variation_id b \<and> bh_is_active b \<and>
          exclude_bom_id \<noteq> Some (row_id b))
        (\<lambda>b. b\<lparr>bh_is_active := False, updated_by := Some user, updated_at := now c\<rparr>) (boms s)\<rparr>"

definition add_bom_line :: "clock \<Rightarrow> uuid \<Rightarrow> uuid \<Rightarrow> uuid \<Rightarrow> BomLineRequest \<Rightarrow> db \<Rightarrow> db" where
  "add_bom_line c bid bom_id user data s =
     (let (i, s) = fresh_uuid s;
          line = new_row i bid (Some user) (now c)
            \<lparr>bl_bom_header_id = bom_id, bl_ingredient_product_id = blr_ingredient_product_id data,
             bl_ingredient_variation_id = blr_ingredient_variation_id data,
             bl_qty_required = blr_qty_required data, bl_unit_id = blr_unit_id data,
             bl_wastage_pct = blr_wastage_pct data, bl_sort_order = blr_sort_order data\<rparr>
      in s\<lparr>bom_lines := bom_lines s @ [line]\<rparr>)"

definition retire_bom_lines :: "clock \<Rightarrow> uuid \<Rightarrow> uuid \<Rightarrow> db \<Rightarrow> db" where
  "retire_bom_lines c bom_id user s =
     s\<lparr>bom_lines := update_where (\<lambda>l. bl_bom_header_id l = bom_id \<and> live l)
        (\<lambda>l. l\<lparr>deleted_at := Some (now c), updated_by := Some user, updated_at := now c\<rparr>) (bom_lines s)\<rparr>"

definition replace_bom_lines :: "clock \<Rightarrow> uuid \<Rightarrow> uuid \<Rightarrow> BomLineRequest list \<Rightarrow> uuid \<Rightarrow> db \<Rightarrow> db" where
  "replace_bom_lines c bid bom_id ls user s =
     fold (add_bom_line c bid bom_id user) ls (retire_bom_lines c bom_id user s)"

definition get_bom_header :: "db \<Rightarrow> uuid \<Rightarrow> uuid \<Rightarrow> bom_header res" where
  "get_bom_header s bom_id bid =
     require_one (HTTPException 404 ''BOM not found'' [])
       (filter (\<lambda>b. row_id b = bom_id \<and> business_id b = bid \<and> live b) (boms s))"

definition get_bom_headers :: "db \<Rightarrow> uuid \<Rightarrow> uuid option \<Rightarrow> bool \<Rightarrow> BomHeaderResponse list res" where
  "get_bom_headers s bid product_id active_only =
     map_res (build_bom_response s)
       (sort_key (\<lambda>b. (bh_product_id b, - bh_version b))
         (filter (\<lambda>b. business_id b = bid \<and> live b \<and>
            (case product_id of None \<Rightarrow> True | Some p \<Rightarrow> bh_product_id b = p) \<and> (active_only \<longrightarrow> bh_is_active b)) (boms s)))"

definition get_bom_header_by_id :: "db \<Rightarrow> uuid \<Rightarrow> uuid \<Rightarrow> BomHeaderResponse res" where
  "get_bom_header_by_id s bom_id bid = bind_res (get_bom_header s bom_id bid) (build_bom_response s)"

definition get_boms_by_product ::
  "db \<Rightarrow> uuid \<Rightarrow> uuid \<Rightarrow> uuid option \<Rightarrow> bool \<Rightarrow> BomHeaderResponse list res" where
  "get_boms_by_product s product_id bid variation_id active_only =
     bind_res (verify_product s product_id bid) (\<lambda>_.
     map_res (build_bom_response s)
       (sort_key (\<lambda>b. - bh_version b)
         (filter (\<lambda>b. business_id b = bid \<and> bh_product_id b = product_id \<and> live b \<and>
            (variation_id \<noteq> None \<longrightarrow> bh_variation_id b = variation_id) \<and> (active_only \<longrightarrow> bh_is_active b)) (boms s))))"

definition create_bom_header ::
  "clock \<Rightarrow> uuid \<Rightarrow> CreateBomRequest \<Rightarrow> uuid \<Rightarrow> db \<Rightarrow> (bom_header \<times> db) res" where
  "create_bom_header c bid data user s =
     bind_res (verify_manufactured_product s (cbr_product_id data) bid (cbr_variation_id data)) (\<lambda>_.
     bind_res (validate_bom_lines s bid (cbr_product_id data) (cbr_lines data)) (\<lambda>_.
       let version = next_bom_version s bid (cbr_product_id data) (cbr_variation_id data);
           s = (if cbr_is_active data
                then deactivate_other_active_boms c bid (cbr_product_id data) (cbr_variation_id data) None user s
                else s);
           (i, s) = fresh_uuid s;
           bom = new_row i bid (Some user) (now c)
             \<lparr>bh_product_id = cbr_product_id data, bh_variation_id = cbr_variation_id data,
              bh_name = cbr_name data, bh_output_qty = cbr_output_qty data,
              bh_is_active = cbr_is_active data, bh_version = version\<rparr>;
           s = s\<lparr>boms := boms s @ [bom]\<rparr>
       in Inr (bom, replace_bom_lines c bid i (cbr_lines data) user s)))"

definition edit_bom :: "clock \<Rightarrow> UpdateBomRequest \<Rightarrow> uuid \<Rightarrow> bom_header \<Rightarrow> bom_header" where
  "edit_bom c data user b = b\<lparr>bh_name := or_else (ubr_name data) (bh_name b),
     bh_output_qty := or_else (ubr_output_qty data) (bh_output_qty b),
     bh_is_active := or_else (ubr_is_active data) (bh_is_active b),
     updated_by := Some user, updated_at := now c\<rparr>"

definition update_bom_header ::
  "clock \<Rightarrow> uuid \<Rightarrow> uuid \<Rightarrow> UpdateBomRequest \<Rightarrow> uuid \<Rightarrow> db \<Rightarrow> db res" where
  "update_bom_header c bom_id bid data user s =
     bind_res (get_bom_header s bom_id bid) (\<lambda>bom.
     bind_res (case ubr_lines data of None \<Rightarrow> Inr ()
               | Some ls \<Rightarrow> validate_bom_lines s bid (bh_product_id bom) ls) (\<lambda>_.
       let s = (if ubr_is_active data = Some True
                then deactivate_other_active_boms c bid (bh_product_id bom) (bh_variation_id bom)
                       (Some (row_id bom)) user s
                else s);
           s = (case ubr_lines data of None \<Rightarrow> s
                | Some ls \<Rightarrow> replace_bom_lines c (business_id bom) (row_id bom) ls user s)
       in Inr (s\<lparr>boms := update_where (\<lambda>b. row_id b = row_id bom) (edit_bom c data user) (boms s)\<rparr>)))"

definition delete_bom_header :: "clock \<Rightarrow> uuid \<Rightarrow> uuid \<Rightarrow> uuid \<Rightarrow> db \<Rightarrow> db res" where
  "delete_bom_header c bom_id bid user s =
     bind_res (get_bom_header s bom_id bid) (\<lambda>bom.
       let s = retire_bom_lines c (row_id bom) user s
       in Inr (s\<lparr>boms := update_where (\<lambda>b. row_id b = row_id bom)
                 (\<lambda>b. (soft_delete c user b)\<lparr>bh_is_active := False\<rparr>) (boms s)\<rparr>))"

record BomPreviewLineResponse =
  bpl_ingredient_product_id :: uuid
  bpl_ingredient_product_name :: string
  bpl_ingredient_variation_id :: "uuid option"
  bpl_qty_per_output_unit :: decimal
  bpl_total_qty_required :: decimal
  bpl_wastage_pct :: decimal

definition preview_bom_requirements ::
  "db \<Rightarrow> uuid \<Rightarrow> uuid \<Rightarrow> decimal \<Rightarrow> (bom_header \<times> BomPreviewLineResponse list) res" where
  "preview_bom_requirements s bid bom_header_id qty_to_produce =
     bind_res (get_bom_header s bom_header_id bid) (\<lambda>bom.
     bind_res (map_res (\<lambda>l.
         bind_res (compute_ingredient_qty_for_production (bl_qty_required l) (bh_output_qty bom) (bl_wastage_pct l)
                     qty_to_produce) (\<lambda>(per_unit, tot).
         bind_res (named s (bl_ingredient_product_id l)) (\<lambda>n.
           Inr \<lparr>bpl_ingredient_product_id = bl_ingredient_product_id l, bpl_ingredient_product_name = n,
                bpl_ingredient_variation_id = bl_ingredient_variation_id l, bpl_qty_per_output_unit = per_unit,
                bpl_total_qty_required = tot, bpl_wastage_pct = bl_wastage_pct l\<rparr>)))
       (active_bom_lines s (row_id bom))) (\<lambda>ls. Inr (bom, ls)))"


section \<open>Production orders\<close>

record CreateProductionOrderRequest =
  cpd_branch_id :: uuid
  cpd_bom_header_id :: uuid
  cpd_qty_to_produce :: decimal
  cpd_notes :: "string option"

record UpdateProductionOrderRequest =
  upd_bom_header_id :: "uuid option"
  upd_qty_to_produce :: "decimal option"
  upd_notes :: "string option"

definition get_production_order :: "db \<Rightarrow> uuid \<Rightarrow> uuid \<Rightarrow> production_order res" where
  "get_production_order s order_id bid =
     require_one (HTTPException 404 ''Production order not found'' [])
       (filter (\<lambda>r. row_id r = order_id \<and> business_id r = bid \<and> live r) (production_orders s))"

definition bom_header_of :: "db \<Rightarrow> production_order \<Rightarrow> bom_header res" where
  \<comment> \<open>the relationship \<open>order.bom_header\<close>, deleted or not\<close>
  "bom_header_of s order = (case first_row (filter (\<lambda>b. row_id b = po_bom_header_id order) (boms s)) of
       None \<Rightarrow> Inl (PyError ''AttributeError'') | Some b \<Rightarrow> Inr b)"

record ProductionOrderResponse =
  por_order :: production_order
  por_bom :: bom_header
  por_product_name :: string
  por_lines :: "(production_line \<times> string) list"

definition build_production_order_response :: "db \<Rightarrow> production_order \<Rightarrow> ProductionOrderResponse res" where
  "build_production_order_response s order =
     bind_res (bom_header_of s order) (\<lambda>bom.
     bind_res (named s (bh_product_id bom)) (\<lambda>pname.
     bind_res (map_res (\<lambda>l. bind_res (named s (pdl_product_id l)) (\<lambda>n. Inr (l, n)))
                (filter (\<lambda>l. pdl_production_order_id l = row_id order \<and> live l) (production_lines s))) (\<lambda>ls.
       Inr \<lparr>por_order = order, por_bom = bom, por_product_name = pname, por_lines = ls\<rparr>)))"

definition verify_active_bom :: "db \<Rightarrow> uuid \<Rightarrow> uuid \<Rightarrow> bom_header res" where
  "verify_active_bom s bom_header_id bid =
     bind_res (require_one (HTTPException 400 ''BOM not found'' [])
       (filter (\<lambda>b. row_id b = bom_header_id \<and> business_id b = bid \<and> live b) (boms s))) (\<lambda>bom.
     if \<not> bh_is_active bom then bad_request ''Production order requires an active BOM''
     else if active_bom_lines s (row_id bom) = [] then bad_request ''BOM has no ingredient lines''
     else Inr bom)"

definition assert_draft_order :: "production_order \<Rightarrow> unit res" where
  "assert_draft_order r =
     (if po_production_status r \<noteq> ProductionOrderStatus_draft
      then Inl (HTTPException 400 ''Production order must be in draft status (current: {})''
             [AStr (ProductionOrderStatusEnum_value (po_production_status r))])
      else Inr ())"

definition assert_cancellable :: "production_order \<Rightarrow> unit res" where
  "assert_cancellable r =
     (if po_production_status r \<in> {ProductionOrderStatus_completed, ProductionOrderStatus_cancelled}
      then Inl (HTTPException 400 (''Cannot cancel production order in status '{}'' @ [CHR 0x27])
             [AStr (ProductionOrderStatusEnum_value (po_production_status r))])
      else Inr ())"

definition get_production_orders ::
  "db \<Rightarrow> uuid \<Rightarrow> uuid option \<Rightarrow> string option \<Rightarrow> uuid option \<Rightarrow> nat \<Rightarrow> nat \<Rightarrow> ProductionOrderResponse list res" where
  "get_production_orders s bid branch_id status_filter bom_header_id skip limit =
     map_res (build_production_order_response s)
       (take limit (drop skip (sort_key (\<lambda>r. - created_at r)
         (filter (\<lambda>r. business_id r = bid \<and> live r \<and>
            (case branch_id of None \<Rightarrow> True | Some b \<Rightarrow> po_branch r = b) \<and>
            (case status_filter of None \<Rightarrow> True | Some t \<Rightarrow> ProductionOrderStatusEnum_value (po_production_status r) = t) \<and>
            (case bom_header_id of None \<Rightarrow> True | Some b \<Rightarrow> po_bom_header_id r = b)) (production_orders s)))))"

definition get_production_order_by_id :: "db \<Rightarrow> uuid \<Rightarrow> uuid \<Rightarrow> ProductionOrderResponse res" where
  "get_production_order_by_id s order_id bid =
     bind_res (get_production_order s order_id bid) (build_production_order_response s)"

definition create_production_order ::
  "clock \<Rightarrow> uuid \<Rightarrow> CreateProductionOrderRequest \<Rightarrow> uuid \<Rightarrow> db \<Rightarrow> (production_order \<times> db) res" where
  "create_production_order c bid data user s =
     bind_res (verify_branch s (cpd_branch_id data) bid) (\<lambda>_.
     bind_res (verify_active_bom s (cpd_bom_header_id data) bid) (\<lambda>_.
       let (number, s) = generate_document_number c bid ''PRD'' s;
           (i, s) = fresh_uuid s;
           order = new_row i bid (Some user) (now c)
             \<lparr>po_branch = cpd_branch_id data, po_bom_header_id = cpd_bom_header_id data,
              po_production_number = number, po_production_status = ProductionOrderStatus_draft,
              po_qty_to_produce = cpd_qty_to_produce data, po_qty_produced = 0, po_started_at = None,
              po_completed_at = None, po_production_notes = cpd_notes data\<rparr>
       in Inr (order, s\<lparr>production_orders := production_orders s @ [order]\<rparr>)))"

definition set_order :: "uuid \<Rightarrow> (production_order \<Rightarrow> production_order) \<Rightarrow> db \<Rightarrow> db" where
  "set_order i f s = s\<lparr>production_orders := update_where (\<lambda>r. row_id r = i) f (production_orders s)\<rparr>"

definition update_production_order ::
  "clock \<Rightarrow> uuid \<Rightarrow> uuid \<Rightarrow> UpdateProductionOrderRequest \<Rightarrow> uuid \<Rightarrow> db \<Rightarrow> db res" where
  "update_production_order c order_id bid data user s =
     bind_res (get_production_order s order_id bid) (\<lambda>order.
     bind_res (assert_draft_order order) (\<lambda>_.
     bind_res (case upd_bom_header_id data of None \<Rightarrow> Inr ()
               | Some b \<Rightarrow> bind_res (verify_active_bom s b bid) (\<lambda>_. Inr ())) (\<lambda>_.
       Inr (set_order (row_id order) (\<lambda>r. r\<lparr>
              po_bom_header_id := or_else (upd_bom_header_id data) (po_bom_header_id r),
              po_qty_to_produce := or_else (upd_qty_to_produce data) (po_qty_to_produce r),
              po_production_notes := set_some (upd_notes data) (po_production_notes r),
              updated_by := Some user, updated_at := now c\<rparr>) s))))"

definition start_production_order :: "clock \<Rightarrow> uuid \<Rightarrow> uuid \<Rightarrow> uuid \<Rightarrow> db \<Rightarrow> db res" where
  "start_production_order c order_id bid user s =
     bind_res (get_production_order s order_id bid) (\<lambda>order.
     bind_res (assert_draft_order order) (\<lambda>_.
     bind_res (verify_active_bom s (po_bom_header_id order) bid) (\<lambda>_.
       Inr (set_order (row_id order) (\<lambda>r. r\<lparr>po_production_status := ProductionOrderStatus_in_progress,
              po_started_at := Some (now c), updated_by := Some user, updated_at := now c\<rparr>) s))))"

definition cancel_production_order :: "clock \<Rightarrow> uuid \<Rightarrow> uuid \<Rightarrow> uuid \<Rightarrow> db \<Rightarrow> db res" where
  "cancel_production_order c order_id bid user s =
     bind_res (get_production_order s order_id bid) (\<lambda>order.
     bind_res (assert_cancellable order) (\<lambda>_.
       Inr (set_order (row_id order) (\<lambda>r. r\<lparr>po_production_status := ProductionOrderStatus_cancelled,
              updated_by := Some user, updated_at := now c\<rparr>) s)))"

definition get_bom_lines_for_production :: "db \<Rightarrow> uuid \<Rightarrow> uuid \<Rightarrow> bom_line list res" where
  "get_bom_lines_for_production s bom_header_id bid =
     (let ls = sort_key (\<lambda>l. (bl_sort_order l, row_id l))
            (filter (\<lambda>l. bl_bom_header_id l = bom_header_id \<and> business_id l = bid \<and> live l) (bom_lines s))
      in if ls = [] then bad_request ''BOM has no ingredient lines'' else Inr ls)"

definition consume_ingredient_fifo ::
  "clock \<Rightarrow> uuid \<Rightarrow> uuid \<Rightarrow> uuid \<Rightarrow> uuid option \<Rightarrow> decimal \<Rightarrow> uuid \<Rightarrow> uuid \<Rightarrow> datetime \<Rightarrow> bool \<Rightarrow> db \<Rightarrow>
   ((decimal \<times> decimal) \<times> db) res" where
  "consume_ingredient_fifo c bid branch_id product_id variation_id qty production_line_id user movement_at
     allow_negative s =
     (if \<not> allow_negative \<and> \<not> check_sufficient_stock s bid branch_id product_id variation_id qty
      then bad_request ''Insufficient ingredient stock for production''
      else let ((weighted_cost, consumptions, _), s) =
             consume_to_movements c bid branch_id product_id variation_id qty StockMovementType_production_out
               ReferenceType_production_line production_line_id user movement_at None None None s
        in Inr ((weighted_cost, sum_list (map (\<lambda>x. fc_qty x * fc_cost_per_unit x) consumptions)), s))"

definition take_ingredient ::
  "clock \<Rightarrow> uuid \<Rightarrow> production_order \<Rightarrow> uuid \<Rightarrow> bool \<Rightarrow> bom_line \<Rightarrow> decimal \<Rightarrow> decimal \<times> db \<Rightarrow> (decimal \<times> db) res" where
  \<comment> \<open>the production line of an ingredient, of which there is some\<close>
  "take_ingredient c bid order user allow_negative bom_line qty = (\<lambda>(total_cost, s).
     let (i, s) = fresh_uuid s;
         line = new_row i bid (Some user) (now c)
           \<lparr>pdl_production_order_id = row_id order, pdl_bom_line_id = Some (row_id bom_line),
            pdl_product_id = bl_ingredient_product_id bom_line,
            pdl_variation_id = bl_ingredient_variation_id bom_line, pdl_qty_consumed = qty,
            pdl_cost_per_unit = 0\<rparr>;
         s = s\<lparr>production_lines := production_lines s @ [line]\<rparr>
     in bind_res (consume_ingredient_fifo c bid (po_branch order) (bl_ingredient_product_id bom_line)
            (bl_ingredient_variation_id bom_line) qty i user (now c) allow_negative s) (\<lambda>((weighted_cost, line_cost), s).
          Inr (total_cost + line_cost, s\<lparr>production_lines :=
            update_where (\<lambda>r. row_id r = i) (\<lambda>r. r\<lparr>pdl_cost_per_unit := weighted_cost\<rparr>) (production_lines s)\<rparr>)))"

definition use_bom_line ::
  "clock \<Rightarrow> uuid \<Rightarrow> production_order \<Rightarrow> bom_header \<Rightarrow> decimal \<Rightarrow> uuid \<Rightarrow> bool \<Rightarrow> bom_line \<Rightarrow> decimal \<times> db \<Rightarrow>
   (decimal \<times> db) res" where
  "use_bom_line c bid order bom qty_produced user allow_negative bom_line st =
     bind_res (compute_ingredient_qty_for_production (bl_qty_required bom_line) (bh_output_qty bom)
                 (bl_wastage_pct bom_line) qty_produced) (\<lambda>(_, ingredient_qty).
     if ingredient_qty \<le> 0 then Inr st
     else take_ingredient c bid order user allow_negative bom_line ingredient_qty st)"

definition finish_production ::
  "clock \<Rightarrow> uuid \<Rightarrow> production_order \<Rightarrow> bom_header \<Rightarrow> decimal \<Rightarrow> uuid \<Rightarrow> decimal \<Rightarrow> db \<Rightarrow> db" where
  "finish_production c bid order bom qty_produced user total_ingredient_cost s =
     (let finished_unit_cost = round4 (dec_div total_ingredient_cost qty_produced);
          (i, s) = fresh_uuid s;
          finished_layer = new_row i bid (Some user) (now c)
            \<lparr>pl_purchase_order_id = None, pl_production_order_id = Some (row_id order),
             pl_product_id = bh_product_id bom, pl_variation_id = bh_variation_id bom,
             pl_ordered_qty = qty_produced, pl_received_qty = qty_produced, pl_qty_remaining = qty_produced,
             pl_cost_per_unit = finished_unit_cost, pl_tax_rate = 0, pl_branch_id = Some (po_branch order),
             pl_layer_source = ''production'', pl_batch_number = None, pl_expiry_date = None\<rparr>;
          s = s\<lparr>purchase_lines := purchase_lines s @ [finished_layer]\<rparr>;
          (_, s) = create_stock_movement c bid (po_branch order) (bh_product_id bom) (bh_variation_id bom)
            StockMovementType_production_in qty_produced finished_unit_cost ReferenceType_production_order
            (row_id order) user (Some i) None None None (Some (now c)) None s
      in set_order (row_id order) (\<lambda>r. r\<lparr>po_qty_produced := qty_produced,
           po_production_status := ProductionOrderStatus_completed, po_completed_at := Some (now c),
           updated_by := Some user, updated_at := now c\<rparr>) s)"

definition complete_production_order ::
  "clock \<Rightarrow> uuid \<Rightarrow> uuid \<Rightarrow> decimal \<Rightarrow> uuid \<Rightarrow> db \<Rightarrow> db res" where
  "complete_production_order c order_id bid qty_produced user s =
     bind_res (get_production_order s order_id bid) (\<lambda>order.
     if po_production_status order \<noteq> ProductionOrderStatus_in_progress
     then Inl (HTTPException 400 ''Production order must be in progress to complete (current: {})''
            [AStr (ProductionOrderStatusEnum_value (po_production_status order))])
     else if 0 < po_qty_produced order then bad_request ''Production order has already been completed''
     else if po_qty_to_produce order < qty_produced then bad_request ''qty_produced cannot exceed qty_to_produce''
     else bind_res (bom_header_of s order) (\<lambda>bom.
          bind_res (get_bom_lines_for_production s (po_bom_header_id order) bid) (\<lambda>ls.
          bind_res (get_allow_negative_stock s bid) (\<lambda>allow_negative.
          bind_res (fold_res (use_bom_line c bid order bom qty_produced user allow_negative) ls (0, s)) (\<lambda>(tot, s).
            Inr (finish_production c bid order bom qty_produced user tot s))))))"


section \<open>One active bill per product\<close>

definition one_active_bom :: "db \<Rightarrow> bool" where
  "one_active_bom s \<longleftrightarrow> (\<forall>b\<in>set (boms s). \<forall>b'\<in>set (boms s).
     live b \<and> bh_is_active b \<and> live b' \<and> bh_is_active b' \<and> business_id b' = business_id b \<and>
     bh_product_id b' = bh_product_id b \<and> bh_variation_id b' = bh_variation_id b \<longrightarrow> row_id b = row_id b')"

lemma add_bom_lines_frame:
  "boms (fold (add_bom_line c bid i user) ls s) = boms s \<and>
   production_orders (fold (add_bom_line c bid i user) ls s) = production_orders s"
  by (induction ls arbitrary: s) (auto simp: add_bom_line_def fresh_uuid_def Let_def)

lemma replace_bom_lines_frame:
  "boms (replace_bom_lines c bid i ls user s) = boms s"
  "production_orders (replace_bom_lines c bid i ls user s) = production_orders s"
  by (simp_all add: replace_bom_lines_def retire_bom_lines_def add_bom_lines_frame)

lemma deactivated:
  assumes "b \<in> set (boms (deactivate_other_active_boms c bid p v x user s))" "live b" "bh_is_active b"
  shows "b \<in> set (boms s) \<and> (bom_of_product bid p v b \<longrightarrow> x = Some (row_id b))"
  using assms by (auto simp: deactivate_other_active_boms_def set_update_where bom_of_product_def live_def)

lemma get_bom_headerD:
  "get_bom_header s i bid = Inr b \<Longrightarrow> b \<in> set (boms s) \<and> row_id b = i \<and> business_id b = bid \<and> live b"
  by (auto simp: get_bom_header_def require_one_Inr dest: filter_eq_ConsD)

lemma create_bom_header_active:
  assumes "one_active_bom s" and r: "create_bom_header c bid data user s = Inr (b, s')"
  shows "one_active_bom s'"
proof -
  from r obtain t where t: "t = (if cbr_is_active data
      then deactivate_other_active_boms c bid (cbr_product_id data) (cbr_variation_id data) None user s else s)"
    and b: "business_id b = bid" "bh_product_id b = cbr_product_id data" "bh_variation_id b = cbr_variation_id data"
      "bh_is_active b = cbr_is_active data"
    and s': "boms s' = boms t @ [b]"
    by (auto simp: create_bom_header_def bind_res_Inr Let_def fresh_uuid_def new_row_def replace_bom_lines_frame
        split: prod.splits)
  have "x \<in> set (boms s) \<and> (cbr_is_active data \<longrightarrow> \<not> bom_of_product bid (cbr_product_id data) (cbr_variation_id data) x)"
    if "x \<in> set (boms t)" "live x" "bh_is_active x" for x
    using that deactivated [of x c bid "cbr_product_id data" "cbr_variation_id data" None user s]
    by (auto simp: t split: if_splits)
  then show ?thesis using assms(1) b
    unfolding one_active_bom_def s' bom_of_product_def by (auto; metis)
qed


lemma update_bom_header_active:
  assumes "one_active_bom s" "keyed (boms s) s" and r: "update_bom_header c i bid data user s = Inr s'"
  shows "one_active_bom s'"
proof -
  from r obtain b where g: "get_bom_header s i bid = Inr b" by (auto simp: update_bom_header_def bind_res_Inr)
  note G = get_bom_headerD [OF g]
  define t where "t = (if ubr_is_active data = Some True
      then deactivate_other_active_boms c bid (bh_product_id b) (bh_variation_id b) (Some (row_id b)) user s else s)"
  have s': "boms s' = update_where (\<lambda>x. row_id x = row_id b) (edit_bom c data user) (boms t)"
    using r by (auto simp: update_bom_header_def g bind_res_Inr Let_def t_def replace_bom_lines_frame
        split: option.splits if_splits)
  have same: "business_id x = bid" "bh_product_id x = bh_product_id b" "bh_variation_id x = bh_variation_id b"
    if "x \<in> set (boms t)" "row_id x = row_id b" for x
  proof -
    from that(1) obtain y where y: "y \<in> set (boms s)" "row_id y = row_id x" "business_id y = business_id x"
      "bh_product_id y = bh_product_id x" "bh_variation_id y = bh_variation_id x"
      by (auto simp: t_def deactivate_other_active_boms_def set_update_where split: if_splits)
    then have "y = b" using assms(2) G that(2) by (auto simp: keyed_def distinct_map dest: inj_onD)
    then show "business_id x = bid" "bh_product_id x = bh_product_id b" "bh_variation_id x = bh_variation_id b"
      using y G by simp_all
  qed
  have act: "\<exists>y\<in>set (boms t). row_id y = row_id x \<and> business_id y = business_id x \<and> bh_product_id y = bh_product_id x \<and>
       bh_variation_id y = bh_variation_id x \<and> live y \<and>
       (bh_is_active y \<or> (row_id x = row_id b \<and> ubr_is_active data = Some True))"
    if "x \<in> set (boms s')" "live x" "bh_is_active x" for x
    using that by (cases "ubr_is_active data")
      (auto simp: s' set_update_where edit_bom_def live_def split: if_splits)
  have orig: "y \<in> set (boms s) \<and> (ubr_is_active data = Some True \<longrightarrow>
      bom_of_product bid (bh_product_id b) (bh_variation_id b) y \<longrightarrow> row_id y = row_id b)"
    if "y \<in> set (boms t)" "live y" "bh_is_active y" for y
    using that deactivated [of y c bid "bh_product_id b" "bh_variation_id b" "Some (row_id b)" user s]
    by (auto simp: t_def split: if_splits)
  show ?thesis unfolding one_active_bom_def
  proof (intro ballI impI, elim conjE)
    fix x x' assume x: "x \<in> set (boms s')" "live x" "bh_is_active x" and x': "x' \<in> set (boms s')" "live x'" "bh_is_active x'"
      and eq: "business_id x' = business_id x" "bh_product_id x' = bh_product_id x" "bh_variation_id x' = bh_variation_id x"
    obtain y where y: "y \<in> set (boms t)" "row_id y = row_id x" "business_id y = business_id x"
      "bh_product_id y = bh_product_id x" "bh_variation_id y = bh_variation_id x" "live y"
      "bh_is_active y \<or> (row_id x = row_id b \<and> ubr_is_active data = Some True)" using act [OF x] by blast
    obtain y' where y': "y' \<in> set (boms t)" "row_id y' = row_id x'" "business_id y' = business_id x'"
      "bh_product_id y' = bh_product_id x'" "bh_variation_id y' = bh_variation_id x'" "live y'"
      "bh_is_active y' \<or> (row_id x' = row_id b \<and> ubr_is_active data = Some True)" using act [OF x'] by blast
    show "row_id x = row_id x'"
    proof (cases "bh_is_active y \<and> bh_is_active y'")
      case True
      then show ?thesis
        using orig [of y] orig [of y'] y y' eq assms(1) unfolding one_active_bom_def by metis
    next
      case False
      then show ?thesis
        using orig [of y] orig [of y'] y y' eq same [of y] same [of y'] unfolding bom_of_product_def by metis
    qed
  qed
qed

lemma delete_bom_header_active:
  assumes "one_active_bom s" and r: "delete_bom_header c i bid user s = Inr s'"
  shows "one_active_bom s'"
proof -
  from r obtain b where "get_bom_header s i bid = Inr b" by (auto simp: delete_bom_header_def bind_res_Inr)
  with r have "boms s' = update_where (\<lambda>x. row_id x = row_id b)
      (\<lambda>x. (soft_delete c user x)\<lparr>bh_is_active := False\<rparr>) (boms s)"
    by (auto simp: delete_bom_header_def retire_bom_lines_def)
  then have "\<And>x. x \<in> set (boms s') \<Longrightarrow> bh_is_active x \<Longrightarrow> x \<in> set (boms s)"
    by (auto simp: set_update_where)
  then show ?thesis using assms(1) by (simp add: one_active_bom_def)
qed


section \<open>What completing an order does\<close>

definition out_value :: "stock_movement list \<Rightarrow> decimal" where
  \<comment> \<open>the value of the goods that left\<close>
  "out_value ms = sum_list (map (\<lambda>m. - sm_qty m * sm_cost_per_unit m) ms)"

definition ingredient_at :: "uuid \<Rightarrow> production_order \<Rightarrow> bom_line \<Rightarrow> position" where
  "ingredient_at bid order l = (bid, po_branch order, bl_ingredient_product_id l, bl_ingredient_variation_id l)"

definition ingredient_qty :: "bom_header \<Rightarrow> decimal \<Rightarrow> bom_line \<Rightarrow> decimal" where
  "ingredient_qty bom n l = (case compute_ingredient_qty_for_production (bl_qty_required l) (bh_output_qty bom)
       (bl_wastage_pct l) n of Inl _ \<Rightarrow> 0 | Inr (_, q) \<Rightarrow> max 0 q)"

lemma slice_movements_value:
  "\<exists>ms. movements (fold (slice_movement c bid br p v mt rt rid user mat bat ex notes) xs s) = movements s @ ms \<and>
     out_value ms = sum_list (map (\<lambda>x. fc_qty (snd x) * fc_cost_per_unit (snd x)) xs)"
proof (induction xs arbitrary: s)
  case Nil
  show ?case by (simp add: out_value_def)
next
  case (Cons x xs)
  obtain n y where x: "x = (n, y)" by fastforce
  obtain m t where t: "create_stock_movement c bid br p v mt (- fc_qty y) (fc_cost_per_unit y) rt rid user
      (fc_purchase_line_id y) bat ex notes (Some mat) (Some n) s = (m, t)" by fastforce
  note E = create_stock_movement_eq [OF t]
  have "slice_movement c bid br p v mt rt rid user mat bat ex notes x s = t" by (simp add: slice_movement_def x t)
  with Cons.IH [of t] E(1,4,10) show ?case by (auto simp: x out_value_def)
qed

lemma consume_to_movements_value:
  assumes "consume_to_movements c bid br p v q mt rt rid user mat bat ex notes s = ((w, sl, short), s')"
    and "movements s' = movements s @ ms" "0 \<le> q" "reconciled s"
  shows "out_value ms = sum_list (map (\<lambda>x. fc_qty x * fc_cost_per_unit x) sl)"
proof -
  obtain t where t: "allocate_sale_line_fifo c bid br p v q s = ((w, sl, short), t)"
    and s': "fold (slice_movement c bid br p v mt rt rid user mat bat ex notes) (enumerate 0 sl) t = s'"
    using assms(1) by (auto simp: consume_to_movements_def split: prod.splits)
  obtain ls where "t = s\<lparr>purchase_lines := ls\<rparr>" using allocate_sale_line_fifo_ok [OF assms(4,3) t] by blast
  moreover obtain ms' where "movements s' = movements t @ ms'"
    "out_value ms' = sum_list (map (\<lambda>x. fc_qty (snd x) * fc_cost_per_unit (snd x)) (enumerate 0 sl))"
    using slice_movements_value [where xs = "enumerate 0 sl" and s = t] s' by metis
  moreover have "map (\<lambda>x. fc_qty (snd x) * fc_cost_per_unit (snd x)) (enumerate 0 sl) =
      map (\<lambda>x. fc_qty x * fc_cost_per_unit x) (map snd (enumerate 0 sl))" by (simp only: list.map_comp comp_def)
  ultimately show ?thesis using assms(2) by simp
qed

lemma consume_ingredient_step:
  assumes "reconciled s" "0 \<le> q"
    and "consume_ingredient_fifo c bid br p v q i user t allow s = Inr ((w, cost), s')"
  obtains n ls ms where "s' = s\<lparr>uuid_next := n, purchase_lines := ls, movements := movements s @ ms\<rparr>"
    "uuid_next s \<le> n" "\<forall>m\<in>set ms. sm_movement_type m = StockMovementType_production_out" "out_value ms = cost"
    "moved (bid, br, p, v) (- q) s s'" "\<not> allow \<longrightarrow> q \<le> stock_at s (bid, br, p, v)"
proof -
  obtain w' sl sh s1 where r1: "consume_to_movements c bid br p v q StockMovementType_production_out
      ReferenceType_production_line i user t None None None s = ((w', sl, sh), s1)" by (metis prod_cases3 surj_pair)
  with assms(3) have st0: "allow \<or> q \<le> get_stock_balance s bid br p v"
    and e: "w' = w" "sum_list (map (\<lambda>x. fc_qty x * fc_cost_per_unit x) sl) = cost" "s1 = s'"
    by (simp_all add: consume_ingredient_fifo_def check_sufficient_stock_def split: if_splits)
  from st0 have st: "\<not> allow \<longrightarrow> q \<le> stock_at s (bid, br, p, v)" by (auto simp: stock_at_def)
  note r = r1 [unfolded e]
  from consume_to_movements_moves [OF assms(1,2) r] obtain n ls ms where
    M: "s' = s\<lparr>uuid_next := n, purchase_lines := ls, movements := movements s @ ms\<rparr>" "uuid_next s \<le> n"
    "\<forall>m\<in>set ms. out_row bid br StockMovementType_production_out ReferenceType_production_line i m"
    "sum_list (map (\<lambda>m. \<bar>sm_qty m\<bar>) ms) = q" "moved (bid, br, p, v) (- q) s s'" .
  have "out_value ms = cost" unfolding e(2) [symmetric]
    by (rule consume_to_movements_value [OF r _ assms(2,1)]) (simp add: M(1))
  with st show thesis
    by (intro that [of ms ls n] M(1,2,5)) (use M(3) in \<open>simp_all add: out_row_def\<close>)
qed

lemma reconciled_relabel:
  assumes "reconciled u" "purchase_lines u = ls @ [l]"
    and "row_id l' = row_id l" "deleted_at l' = deleted_at l" "layer_position l' = layer_position l"
    and "pl_qty_remaining l' = pl_qty_remaining l" "pl_received_qty l' = pl_received_qty l"
  shows "reconciled (u\<lparr>purchase_lines := ls @ [l']\<rparr>)"
proof -
  have "live l' = live l" using assms(4) by (simp add: live_def)
  then have "layer_at k l' = layer_at k l" for k using assms(5) by (cases k) (simp add: layer_at_def)
  then have "layered (ls @ [l']) k r = layered (ls @ [l]) k r" for k r
    using assms(3) by (auto simp: layered_def split: option.split)
  then show ?thesis using assms \<open>live l' = live l\<close>
    by (simp add: stock_ok_def keyed_def traced_def drawn_def)
qed

lemma production_layer_ok:
  assumes "reconciled s" "0 \<le> n" "finish_production c bid order bom n user tot s = s'"
  obtains l m where "moved (bid, po_branch order, bh_product_id bom, bh_variation_id bom) n s s'"
    "movements s' = movements s @ [m]" "sm_movement_type m = StockMovementType_production_in"
    "purchase_lines s' = purchase_lines s @ [l]" "pl_qty_remaining l = n"
    "pl_cost_per_unit l = round4 (dec_div tot n)" "pl_production_order_id l = Some (row_id order)"
    "production_orders s' = update_where (\<lambda>r. row_id r = row_id order) (\<lambda>r. r\<lparr>po_qty_produced := n,
         po_production_status := ProductionOrderStatus_completed, po_completed_at := Some (now c),
         updated_by := Some user, updated_at := now c\<rparr>) (production_orders s)"
proof -
  let ?k = "(bid, po_branch order, bh_product_id bom, bh_variation_id bom)" and ?cost = "round4 (dec_div tot n)"
  obtain l t where l: "create_fifo_layer c bid (po_branch order) (bh_product_id bom) (bh_variation_id bom) n ?cost user
      ''production'' None None None s = (l, t)" by fastforce
  obtain m u where m: "create_stock_movement c bid (po_branch order) (bh_product_id bom) (bh_variation_id bom)
      StockMovementType_production_in n ?cost ReferenceType_production_order (row_id order) user (Some (row_id l))
      None None None (Some (now c)) None t = (m, u)" by fastforce
  note L = layer_movement_moves [OF assms(1,2) l m] and E = create_fifo_layer_eq [OF l]
  let ?l = "l\<lparr>pl_production_order_id := Some (row_id order)\<rparr>"
  let ?u = "u\<lparr>purchase_lines := purchase_lines s @ [?l]\<rparr>"
  have s': "s' = set_order (row_id order) (\<lambda>r. r\<lparr>po_qty_produced := n,
           po_production_status := ProductionOrderStatus_completed, po_completed_at := Some (now c),
           updated_by := Some user, updated_at := now c\<rparr>) ?u"
    using assms(3) l m unfolding finish_production_def create_fifo_layer_def create_stock_movement_def
    by (auto simp: fresh_uuid_def Let_def new_row_def set_order_def)
  have ru: "reconciled u" using L(1) by (simp add: moved_def)
  have "reconciled ?u"
    by (rule reconciled_relabel [OF ru, where l = l])
      (simp_all add: L(2) layer_position_def)
  then have "reconciled s'" by (rule stock_ok_frame) (simp_all add: s' set_order_def drawn_def)
  moreover have "stock_at s' k = stock_at u k" for k by (simp add: stock_at_sum s' set_order_def)
  ultimately have "moved ?k n s s'" using L(1) by (simp add: moved_def)
  moreover have "production_orders u = production_orders s" by (simp add: L(2))
  ultimately show thesis
    using that [of m ?l] create_stock_movement_eq(7) [OF m] E(5,7) L(2)
    by (simp add: s' set_order_def cost4.idem)
qed


definition used_up ::
  "uuid \<Rightarrow> production_order \<Rightarrow> bom_header \<Rightarrow> decimal \<Rightarrow> bool \<Rightarrow> bom_line list \<Rightarrow> decimal \<Rightarrow> db \<Rightarrow> db \<Rightarrow> bool" where
  \<comment> \<open>the ingredients leave the branch, each as much as there is, and their value is counted\<close>
  "used_up bid order bom n allow ls cost s s' \<longleftrightarrow>
     goods.run (map (\<lambda>l. (ingredient_at bid order l, - ingredient_qty bom n l)) ls) s s' \<and>
     (\<exists>ms. movements s' = movements s @ ms \<and> out_value ms = cost \<and>
        (\<forall>m\<in>set ms. sm_movement_type m = StockMovementType_production_out)) \<and>
     production_orders s' = production_orders s \<and>
     (\<not> allow \<longrightarrow> (\<forall>l\<in>set ls. 0 < ingredient_qty bom n l \<longrightarrow>
        sum_where (ingredient_qty bom n) (\<lambda>l'. ingredient_at bid order l' = ingredient_at bid order l) ls
          \<le> stock_at s (ingredient_at bid order l)))"

lemma take_ingredient_step:
  assumes "reconciled s" "0 \<le> q" "take_ingredient c bid order user allow l q (cost, s) = Inr (cost', s')"
  shows "moved (ingredient_at bid order l) (- q) s s' \<and>
    (\<exists>ms. movements s' = movements s @ ms \<and> out_value ms = cost' - cost \<and>
        (\<forall>m\<in>set ms. sm_movement_type m = StockMovementType_production_out)) \<and>
    production_orders s' = production_orders s \<and>
    (\<not> allow \<longrightarrow> q \<le> stock_at s (ingredient_at bid order l))"
proof -
  define i where "i = uuid_gen s (uuid_next s)"
  define r where "r = (new_row i bid (Some user) (now c)
           \<lparr>pdl_production_order_id = row_id order, pdl_bom_line_id = Some (row_id l),
            pdl_product_id = bl_ingredient_product_id l,
            pdl_variation_id = bl_ingredient_variation_id l, pdl_qty_consumed = q,
            pdl_cost_per_unit = 0\<rparr> :: production_line)"
  let ?s = "s\<lparr>uuid_next := Suc (uuid_next s), production_lines := production_lines s @ [r]\<rparr>"
  have f: "fresh_uuid s = (i, s\<lparr>uuid_next := Suc (uuid_next s)\<rparr>)" by (simp add: fresh_uuid_def i_def)
  from assms(3) obtain w k t where t: "consume_ingredient_fifo c bid (po_branch order) (bl_ingredient_product_id l)
      (bl_ingredient_variation_id l) q i user (now c) allow ?s = Inr ((w, k), t)"
    and s': "s' = t\<lparr>production_lines :=
            update_where (\<lambda>r. row_id r = i) (\<lambda>r. r\<lparr>pdl_cost_per_unit := w\<rparr>) (production_lines t)\<rparr>" "cost' = cost + k"
    by (auto simp: take_ingredient_def f r_def [symmetric] bind_res_Inr simp del: new_row_def)
  have rec: "reconciled ?s" by (rule reconciled_around [OF assms(1)]) simp_all
  from consume_ingredient_step [OF rec assms(2) t] obtain n ls ms where
    M: "t = ?s\<lparr>uuid_next := n, purchase_lines := ls, movements := movements ?s @ ms\<rparr>"
    "\<forall>m\<in>set ms. sm_movement_type m = StockMovementType_production_out" "out_value ms = k"
    "moved (bid, po_branch order, bl_ingredient_product_id l, bl_ingredient_variation_id l) (- q) ?s t"
    "\<not> allow \<longrightarrow> q \<le> stock_at ?s (bid, po_branch order, bl_ingredient_product_id l, bl_ingredient_variation_id l)" .
  have "moved (ingredient_at bid order l) (- q) s s'" unfolding ingredient_at_def
    by (rule moved_around [OF assms(1) M(4)]) (simp_all add: s')
  moreover have "stock_at ?s k = stock_at s k" for k by (simp add: stock_at_sum)
  ultimately show ?thesis using M(2,3,5) by (simp add: s' M(1) ingredient_at_def)
qed

lemma use_bom_line_step:
  assumes "reconciled s" "use_bom_line c bid order bom n user allow l (cost, s) = Inr (cost', s')"
  shows "moved (ingredient_at bid order l) (- ingredient_qty bom n l) s s' \<and>
    (\<exists>ms. movements s' = movements s @ ms \<and> out_value ms = cost' - cost \<and>
        (\<forall>m\<in>set ms. sm_movement_type m = StockMovementType_production_out)) \<and>
    production_orders s' = production_orders s \<and>
    (\<not> allow \<longrightarrow> 0 < ingredient_qty bom n l \<longrightarrow> ingredient_qty bom n l \<le> stock_at s (ingredient_at bid order l))"
proof -
  from assms(2) obtain pu q where q: "compute_ingredient_qty_for_production (bl_qty_required l) (bh_output_qty bom)
      (bl_wastage_pct l) n = Inr (pu, q)"
    and r: "(if q \<le> 0 then Inr (cost, s) else take_ingredient c bid order user allow l q (cost, s)) = Inr (cost', s')"
    by (auto simp: use_bom_line_def bind_res_Inr)
  have iq: "ingredient_qty bom n l = max 0 q" by (simp add: ingredient_qty_def q)
  show ?thesis
  proof (cases "q \<le> 0")
    case True
    then show ?thesis using r moved_zero [OF assms(1)] by (auto simp: iq out_value_def)
  next
    case False
    then show ?thesis using r take_ingredient_step [OF assms(1), of q c bid order user allow l cost cost' s']
      by (simp add: iq)
  qed
qed

lemma use_bom_lines:
  assumes "fold_res (use_bom_line c bid order bom n user allow) ls (cost, s) = Inr (cost', s')" "reconciled s"
  shows "used_up bid order bom n allow ls (cost' - cost) s s'"
  using assms
proof (induction ls arbitrary: cost s)
  case Nil
  then show ?case by (simp add: used_up_def out_value_def)
next
  case (Cons l ls)
  let ?q = "ingredient_qty bom n" and ?at = "ingredient_at bid order"
  from Cons.prems(1) obtain k t where t: "use_bom_line c bid order bom n user allow l (cost, s) = Inr (k, t)"
    and r: "fold_res (use_bom_line c bid order bom n user allow) ls (k, t) = Inr (cost', s')"
    by (auto simp: bind_res_Inr)
  note S = use_bom_line_step [OF Cons.prems(2) t]
  have rt: "reconciled t" using S by (simp add: moved_def)
  note U = Cons.IH [OF r rt, unfolded used_up_def]
  have run: "goods.run (map (\<lambda>l. (?at l, - ?q l)) (l # ls)) s s'" using S U by auto
  obtain ms ms' where "movements t = movements s @ ms" "out_value ms = k - cost"
    "\<forall>m\<in>set ms. sm_movement_type m = StockMovementType_production_out"
    "movements s' = movements t @ ms'" "out_value ms' = cost' - k"
    "\<forall>m\<in>set ms'. sm_movement_type m = StockMovementType_production_out" using S U by blast
  then have mov: "\<exists>ms. movements s' = movements s @ ms \<and> out_value ms = cost' - cost \<and>
        (\<forall>m\<in>set ms. sm_movement_type m = StockMovementType_production_out)"
    by (intro exI [of _ "ms @ ms'"]) (auto simp: out_value_def)
  have at: "stock_at t k = stock_at s k - (if k = ?at l then ?q l else 0)" for k
    using goods.post_balance [OF conjunct1 [OF S], of k] by (simp split: if_splits)
  have nonneg: "0 \<le> ?q l" for l by (simp add: ingredient_qty_def split: sum.split)
  have "sum_where ?q (\<lambda>l'. ?at l' = ?at x) (l # ls) \<le> stock_at s (?at x)"
    if "\<not> allow" "x \<in> set (l # ls)" "0 < ?q x" for x
  proof (cases "\<exists>y\<in>set ls. 0 < ?q y \<and> ?at y = ?at x")
    case True
    then obtain y where "y \<in> set ls" "0 < ?q y" "?at y = ?at x" by blast
    then have "sum_where ?q (\<lambda>l'. ?at l' = ?at x) ls \<le> stock_at t (?at x)" using U that(1) by metis
    then show ?thesis by (simp add: at split: if_splits)
  next
    case False
    then have "sum_where ?q (\<lambda>l'. ?at l' = ?at x) ls = sum_where (\<lambda>_. 0) (\<lambda>l'. ?at l' = ?at x) ls"
      using nonneg by (intro sum_where_cong) (auto simp: order_less_le)
    also have "\<dots> = 0" by (simp add: sum_where_def)
    finally show ?thesis using S that False by auto
  qed
  then show ?case using run mov S U by (simp only: used_up_def) blast
qed


lemma get_production_orderD:
  "get_production_order s i bid = Inr r \<Longrightarrow> row_id r = i \<and> business_id r = bid \<and> live r"
  by (auto simp: get_production_order_def require_one_Inr dest: filter_eq_ConsD)

lemma get_production_order_set:
  assumes "get_production_order s i bid = Inr r"
    and "production_orders s' = update_where (\<lambda>x. row_id x = i) f (production_orders s)"
    and "\<And>x. row_id (f x) = row_id x \<and> business_id (f x) = business_id x \<and> live (f x) = live x"
  shows "get_production_order s' i bid = Inr (f r)"
proof -
  have "filter (\<lambda>x. row_id x = i \<and> business_id x = bid \<and> live x) (update_where (\<lambda>x. row_id x = i) f xs) =
      map f (filter (\<lambda>x. row_id x = i \<and> business_id x = bid \<and> live x) xs)" for xs
    using assms(3) by (induction xs) auto
  then show ?thesis using assms(1,2) by (auto simp: get_production_order_def require_one_Inr)
qed

lemma complete_production_order_Inr:
  assumes "complete_production_order c i bid n user s = Inr s'" "reconciled s"
  obtains order bom ls allow cost t where "get_production_order s i bid = Inr order"
    "po_production_status order = ProductionOrderStatus_in_progress" "n \<le> po_qty_to_produce order"
    "bom_header_of s order = Inr bom" "get_bom_lines_for_production s (po_bom_header_id order) bid = Inr ls"
    "get_allow_negative_stock s bid = Inr allow" "used_up bid order bom n allow ls cost s t"
    "finish_production c bid order bom n user cost t = s'"
proof -
  from assms(1) obtain order bom ls allow cost t where o: "get_production_order s i bid = Inr order"
    "po_production_status order = ProductionOrderStatus_in_progress" "n \<le> po_qty_to_produce order"
    "bom_header_of s order = Inr bom" "get_bom_lines_for_production s (po_bom_header_id order) bid = Inr ls"
    "get_allow_negative_stock s bid = Inr allow"
    and f: "fold_res (use_bom_line c bid order bom n user allow) ls (0, s) = Inr (cost, t)"
      "finish_production c bid order bom n user cost t = s'"
    by (auto simp: complete_production_order_def bind_res_Inr split: if_splits)
  from use_bom_lines [OF f(1) assms(2)] have "used_up bid order bom n allow ls cost s t" by simp
  with that o f(2) show thesis by blast
qed

text \<open>
  C12. Completing a production order. When it succeeds, the order was in progress and asked for at
  least the quantity produced; each ingredient of its bill left the branch in exactly the quantity
  the bill gives for it, no more than was there (unless the business allows negative stock); the
  finished goods came in as one new layer whose unit cost is the value of what left over the
  quantity produced, rounded to four places; no other balance changed, balances and layers still
  agree, and the order is completed and cannot be completed again.
\<close>

theorem complete_production_order_correct:
  assumes "reconciled s" "0 < n" and "complete_production_order c i bid n user s = Inr s'"
  shows "\<exists>order bom ls allow ms m l. get_production_order s i bid = Inr order \<and>
    po_production_status order = ProductionOrderStatus_in_progress \<and> n \<le> po_qty_to_produce order \<and>
    bom_header_of s order = Inr bom \<and> get_bom_lines_for_production s (po_bom_header_id order) bid = Inr ls \<and>
    get_allow_negative_stock s bid = Inr allow \<and>
    (\<forall>k. stock_at s' k = stock_at s k -
       sum_where (ingredient_qty bom n) (\<lambda>x. ingredient_at bid order x = k) ls +
       (if k = (bid, po_branch order, bh_product_id bom, bh_variation_id bom) then n else 0)) \<and>
    (\<not> allow \<longrightarrow> (\<forall>x\<in>set ls. 0 < ingredient_qty bom n x \<longrightarrow>
       sum_where (ingredient_qty bom n) (\<lambda>y. ingredient_at bid order y = ingredient_at bid order x) ls
         \<le> stock_at s (ingredient_at bid order x))) \<and>
    movements s' = movements s @ ms @ [m] \<and> last (purchase_lines s') = l \<and> pl_qty_remaining l = n \<and>
    pl_cost_per_unit l = round4 (dec_div (out_value ms) n) \<and> reconciled s' \<and>
    (\<forall>c' n' user'. \<exists>e. complete_production_order c' i bid n' user' s' = Inl e)"
proof -
  from complete_production_order_Inr [OF assms(3,1)] obtain order bom ls allow cost t where
    o: "get_production_order s i bid = Inr order"
      "po_production_status order = ProductionOrderStatus_in_progress" "n \<le> po_qty_to_produce order"
      "bom_header_of s order = Inr bom" "get_bom_lines_for_production s (po_bom_header_id order) bid = Inr ls"
      "get_allow_negative_stock s bid = Inr allow"
    and u: "used_up bid order bom n allow ls cost s t" and f: "finish_production c bid order bom n user cost t = s'" .
  from u obtain ms where ms: "movements t = movements s @ ms" "out_value ms = cost" by (auto simp: used_up_def)
  from u have run: "goods.run (map (\<lambda>l. (ingredient_at bid order l, - ingredient_qty bom n l)) ls) s t"
    and po: "production_orders t = production_orders s" by (simp_all add: used_up_def)
  have rt: "reconciled t" by (rule runs_reconciled [OF run assms(1)])
  have n0: "0 \<le> n" using assms(2) by simp
  from production_layer_ok [OF rt n0 f] obtain l m where
    L: "moved (bid, po_branch order, bh_product_id bom, bh_variation_id bom) n t s'" "movements s' = movements t @ [m]"
      "purchase_lines s' = purchase_lines t @ [l]" "pl_qty_remaining l = n" "pl_cost_per_unit l = round4 (dec_div cost n)"
      "production_orders s' = update_where (\<lambda>r. row_id r = row_id order) (\<lambda>r. r\<lparr>po_qty_produced := n,
         po_production_status := ProductionOrderStatus_completed, po_completed_at := Some (now c),
         updated_by := Some user, updated_at := now c\<rparr>) (production_orders t)" .
  have stock: "stock_at s' k = stock_at s k - sum_where (ingredient_qty bom n) (\<lambda>x. ingredient_at bid order x = k) ls +
       (if k = (bid, po_branch order, bh_product_id bom, bh_variation_id bom) then n else 0)" for k
    using goods.post_balance [OF L(1), of k] runs_map_stock [OF run, of k] by (simp add: sum_where_minus)
  have "row_id order = i" using get_production_orderD [OF o(1)] by simp
  then have "get_production_order s' i bid = Inr (order\<lparr>po_qty_produced := n,
         po_production_status := ProductionOrderStatus_completed, po_completed_at := Some (now c),
         updated_by := Some user, updated_at := now c\<rparr>)"
    by (intro get_production_order_set [OF o(1)]) (simp_all add: L(6) po live_def)
  then have again: "\<exists>e. complete_production_order c' i bid n' user' s' = Inl e" for c' n' user'
    by (simp add: complete_production_order_def)
  have "reconciled s'" using L(1) by (simp add: moved_def)
  then show ?thesis using o u ms L(2-5) stock again unfolding used_up_def
    by (intro exI [of _ order] exI [of _ bom] exI [of _ ls] exI [of _ allow] exI [of _ ms] exI [of _ m] exI [of _ l])
      simp
qed


definition sample_bom :: bom_header where
  "sample_bom = new_row 60 1 (Some 9) 0
     \<lparr>bh_product_id = 6, bh_variation_id = None, bh_name = ''Pie'', bh_output_qty = 1, bh_is_active = True,
      bh_version = 1\<rparr>"

definition sample_bom_line :: bom_line where
  "sample_bom_line = new_row 61 1 (Some 9) 0
     \<lparr>bl_bom_header_id = 60, bl_ingredient_product_id = 5, bl_ingredient_variation_id = None,
      bl_qty_required = 2, bl_unit_id = None, bl_wastage_pct = 0, bl_sort_order = 0\<rparr>"

definition sample_order_2 :: production_order where
  "sample_order_2 = new_row 70 1 (Some 9) 0
     \<lparr>po_branch = 2, po_bom_header_id = 60, po_production_number = ''PRD-20250101-0001'',
      po_production_status = ProductionOrderStatus_in_progress, po_qty_to_produce = 2, po_qty_produced = 0,
      po_started_at = Some 0, po_completed_at = None, po_production_notes = None\<rparr>"

definition sample_works :: db where
  \<comment> \<open>two pieces of product 6 are being made, of two units of product 5 each\<close>
  "sample_works = sample_store\<lparr>boms := [sample_bom], bom_lines := [sample_bom_line],
     production_orders := [sample_order_2]\<rparr>"

lemma sample_works_ok: "reconciled sample_works"
  by (rule stock_ok_frame [OF sample_store_ok]) (simp_all add: sample_works_def drawn_def)

lemma sample_order_completes: "\<exists>s'. complete_production_order sample_clock 70 1 2 9 sample_works = Inr s'"
proof -
  have "(case complete_production_order sample_clock 70 1 2 9 sample_works of Inl _ \<Rightarrow> False | Inr _ \<Rightarrow> True)"
    by code_simp
  then show ?thesis by (auto split: sum.splits)
qed

lemma complete_production_order_correct_witness:
  "\<exists>s'. complete_production_order sample_clock 70 1 2 9 sample_works = Inr s' \<and>
     stock_at s' (1, 2, 5, None) = 2 \<and> stock_at s' (1, 2, 6, None) = 2 \<and> reconciled s'"
proof -
  obtain s' where s': "complete_production_order sample_clock 70 1 2 9 sample_works = Inr s'"
    using sample_order_completes by blast
  have "(0::rat) < 2" by simp
  from complete_production_order_correct [OF sample_works_ok this s'] obtain order bom ls where
    o: "get_production_order sample_works 70 1 = Inr order" "bom_header_of sample_works order = Inr bom"
      "get_bom_lines_for_production sample_works (po_bom_header_id order) 1 = Inr ls" "reconciled s'"
    and st: "\<And>k. stock_at s' k = stock_at sample_works k -
       sum_where (ingredient_qty bom 2) (\<lambda>x. ingredient_at 1 order x = k) ls +
       (if k = (1, po_branch order, bh_product_id bom, bh_variation_id bom) then 2 else 0)" by metis
  have "order = sample_order_2" using o(1)
    by (simp add: get_production_order_def sample_works_def sample_order_2_def new_row_def live_def)
  moreover from this have "bom = sample_bom" using o(2)
    by (simp add: bom_header_of_def sample_works_def sample_bom_def sample_order_2_def new_row_def first_row_def)
  moreover from calculation have "ls = [sample_bom_line]" using o(3)
    by (simp add: get_bom_lines_for_production_def sample_works_def sample_bom_line_def sample_order_2_def new_row_def live_def)
  moreover have "ingredient_qty sample_bom 2 sample_bom_line = 4" by code_simp
  moreover have "stock_at sample_works (1, 2, 5, None) = 6" "stock_at sample_works (1, 2, 6, None) = 0" by code_simp+
  ultimately have "stock_at s' (1, 2, 5, None) = 2" "stock_at s' (1, 2, 6, None) = 2"
    by (simp_all add: st ingredient_at_def sample_order_2_def sample_bom_def sample_bom_line_def new_row_def)
  then show ?thesis using s' o(4) by blast
qed

section \<open>Small ingredients\<close>

lemma small_ingredient_never_used:
  \<comment> \<open>four grams of spice in a batch of a thousand pieces: a thousand pieces take none\<close>
  "compute_ingredient_qty_for_production 4 1000 0 1000 = Inr (0, 0)"
  by code_simp

end
