(* ===== verification/Expenses.thy ===== *)
theory Expenses
  imports Registers Customers
begin

text \<open>
  \<open>app/services/expense_service.py\<close>: expense categories, expenses and their payments. A cash payment
  also leaves the drawer of the shift that is open at the branch, and an expense of a supplier is
  booked on the supplier's account. Shown here: what each operation does to the drawer and to the
  account, that later payments never exceed what is owed, and that a category in use is kept.
\<close>

section \<open>Requests\<close>

record CreateExpenseCategoryRequest =
  cec_name :: string
  cec_parent_id :: "uuid option"
  cec_is_active :: bool

record UpdateExpenseCategoryRequest =
  uec_name :: "string option"
  uec_is_active :: "bool option"

record CreateExpensePaymentRequest =
  cep_payment_method :: PaymentMethodEnum
  cep_amount :: decimal
  cep_reference_no :: "string option"
  cep_paid_at :: "datetime option"

definition valid_expense_payment :: "CreateExpensePaymentRequest \<Rightarrow> bool" where
  "valid_expense_payment p \<longleftrightarrow> 0 < cep_amount p \<and> cep_payment_method p \<noteq> PaymentMethod_credit"

record CreateExpenseRequest =
  cer_branch_id :: uuid
  cer_expense_category_id :: uuid
  cer_supplier_id :: "uuid option"
  cer_description :: "string option"
  cer_expense_date :: date
  cer_amount :: decimal
  cer_tax_amount :: decimal
  cer_payments :: "CreateExpensePaymentRequest list"

definition valid_expense :: "CreateExpenseRequest \<Rightarrow> bool" where
  "valid_expense data \<longleftrightarrow> 0 < cer_amount data \<and> 0 \<le> cer_tax_amount data \<and>
     (\<forall>p\<in>set (cer_payments data). valid_expense_payment p)"

record UpdateExpenseRequest =
  uer_description :: "string option"
  uer_expense_date :: "date option"
  uer_amount :: "decimal option"
  uer_tax_amount :: "decimal option"

definition valid_expense_update :: "UpdateExpenseRequest \<Rightarrow> bool" where
  "valid_expense_update data \<longleftrightarrow>
     (case uer_amount data of Some a \<Rightarrow> 0 < a | None \<Rightarrow> True) \<and>
     (case uer_tax_amount data of Some t \<Rightarrow> 0 \<le> t | None \<Rightarrow> True)"

record ExpensePaymentResponse =
  epr_id :: uuid
  epr_expense_id :: uuid
  epr_payment_method :: PaymentMethodEnum
  epr_amount :: decimal
  epr_status :: PaymentStatusEnum
  epr_reference_no :: "string option"
  epr_paid_at :: datetime
  epr_created_at :: datetime
  epr_total_paid :: decimal
  epr_remaining_balance :: decimal

section \<open>Categories\<close>

definition get_active_shift_for_branch :: "db \<Rightarrow> uuid \<Rightarrow> uuid \<Rightarrow> register_shift option" where
  \<comment> \<open>\<open>LIMIT 1\<close> without an order: the first open shift of the table\<close>
  "get_active_shift_for_branch s bid branch_id =
     first_row (filter (\<lambda>sh. business_id sh = bid \<and> rs_branch_id sh = branch_id \<and>
       rs_status sh = ShiftStatus_open \<and> live sh) (shifts s))"

definition category_children :: "db \<Rightarrow> expense_category \<Rightarrow> expense_category list" where
  \<comment> \<open>the relationship \<open>children\<close>: every row with that parent, deleted or not\<close>
  "category_children s r = filter (\<lambda>k. ec_parent_id k = Some (row_id r)) (expense_categories s)"

definition get_expense_categories ::
  "db \<Rightarrow> uuid \<Rightarrow> (expense_category \<times> (expense_category \<times> expense_category list) list) list" where
  "get_expense_categories s bid =
     map (\<lambda>r. (r, map (\<lambda>k. (k, category_children s k)) (category_children s r)))
       (sort_key ec_name (filter (\<lambda>r. business_id r = bid \<and> live r \<and> ec_parent_id r = None)
          (expense_categories s)))"

definition get_expense_category_by_id :: "db \<Rightarrow> uuid \<Rightarrow> uuid \<Rightarrow> expense_category res" where
  "get_expense_category_by_id s category_id bid =
     require_one (HTTPException 404 ''Expense category not found'' [])
       (filter (\<lambda>r. row_id r = category_id \<and> business_id r = bid \<and> live r) (expense_categories s))"

definition create_expense_category ::
  "clock \<Rightarrow> uuid \<Rightarrow> CreateExpenseCategoryRequest \<Rightarrow> uuid \<Rightarrow> db \<Rightarrow> (expense_category \<times> db) res" where
  "create_expense_category c bid data user s =
     bind_res (case cec_parent_id data of None \<Rightarrow> Inr None
               | Some p \<Rightarrow> bind_res (get_expense_category_by_id s p bid) (\<lambda>r. Inr (Some r))) (\<lambda>_.
       let (i, s) = fresh_uuid s;
           category = (new_row i bid (Some user) (now c)
             \<lparr>ec_name = cec_name data, ec_parent_id = cec_parent_id data, ec_is_active = cec_is_active data\<rparr>)
             \<lparr>updated_by := Some user\<rparr>
       in Inr (category, s\<lparr>expense_categories := expense_categories s @ [category]\<rparr>))"

definition update_expense_category ::
  "clock \<Rightarrow> uuid \<Rightarrow> uuid \<Rightarrow> UpdateExpenseCategoryRequest \<Rightarrow> uuid \<Rightarrow> db \<Rightarrow> db res" where
  "update_expense_category c category_id bid data user s =
     bind_res (get_expense_category_by_id s category_id bid) (\<lambda>category.
       Inr (s\<lparr>expense_categories := update_where (\<lambda>r. row_id r = row_id category)
         (\<lambda>r. r\<lparr>ec_name := or_else (uec_name data) (ec_name r),
                ec_is_active := or_else (uec_is_active data) (ec_is_active r),
                updated_by := Some user, updated_at := now c\<rparr>) (expense_categories s)\<rparr>))"

definition expense_in :: "uuid \<Rightarrow> uuid \<Rightarrow> expense \<Rightarrow> bool" where
  "expense_in bid category_id e \<longleftrightarrow>
     ex_expense_category_id e = category_id \<and> business_id e = bid \<and> live e"

definition delete_expense_category :: "clock \<Rightarrow> uuid \<Rightarrow> uuid \<Rightarrow> uuid \<Rightarrow> db \<Rightarrow> db res" where
  "delete_expense_category c category_id bid user s =
     bind_res (get_expense_category_by_id s category_id bid) (\<lambda>category.
       if 0 < length (filter (expense_in bid category_id) (expenses s))
       then bad_request ''Cannot delete category with active expenses''
       else Inr (s\<lparr>expense_categories := update_where (\<lambda>r. row_id r = row_id category)
              (\<lambda>r. r\<lparr>deleted_at := Some (now c), deleted_by := Some user, updated_by := Some user,
                     updated_at := now c\<rparr>) (expense_categories s)\<rparr>))"

section \<open>Expenses\<close>

definition get_expenses ::
  "db \<Rightarrow> uuid \<Rightarrow> uuid option \<Rightarrow> uuid option \<Rightarrow> uuid option \<Rightarrow> date option \<Rightarrow> date option \<Rightarrow> nat \<Rightarrow> nat \<Rightarrow>
     expense list \<times> nat" where
  "get_expenses s bid branch_id category_id supplier_id date_from date_to skip limit =
     (let rows = filter (\<lambda>e. business_id e = bid \<and> live e \<and> opt_eq branch_id (ex_branch_id e) \<and>
            opt_eq category_id (ex_expense_category_id e) \<and>
            (case supplier_id of None \<Rightarrow> True | Some x \<Rightarrow> ex_supplier_id e = Some x) \<and>
            (case date_from of None \<Rightarrow> True | Some d \<Rightarrow> d \<le> ex_expense_date e) \<and>
            (case date_to of None \<Rightarrow> True | Some d \<Rightarrow> ex_expense_date e \<le> d)) (expenses s)
      in (take limit (drop skip (sort_key (\<lambda>e. (- ex_expense_date e, - created_at e)) rows)), length rows))"

definition get_expense_by_id :: "db \<Rightarrow> uuid \<Rightarrow> uuid \<Rightarrow> expense res" where
  "get_expense_by_id s expense_id bid =
     require_one (HTTPException 404 ''Expense not found'' [])
       (filter (\<lambda>e. row_id e = expense_id \<and> business_id e = bid \<and> live e) (expenses s))"

definition sum_expense_payments :: "db \<Rightarrow> uuid \<Rightarrow> uuid \<Rightarrow> decimal" where
  "sum_expense_payments s bid expense_id =
     sum_where ep_amount (\<lambda>p. ep_expense_id p = expense_id \<and> business_id p = bid \<and> live p \<and>
       ep_status p = PaymentStatus_completed) (expense_payments s)"

definition write_expense_payment ::
  "clock \<Rightarrow> uuid \<Rightarrow> uuid \<Rightarrow> CreateExpensePaymentRequest \<Rightarrow> uuid \<Rightarrow> db \<Rightarrow> expense_payment \<times> db" where
  "write_expense_payment c bid expense_id data user s =
     (let (i, s) = fresh_uuid s;
          payment = new_row i bid (Some user) (now c)
            \<lparr>ep_expense_id = expense_id, ep_payment_method = cep_payment_method data,
             ep_amount = cep_amount data, ep_status = PaymentStatus_completed,
             ep_paid_at = or_else (cep_paid_at data) (now c), ep_reference_no = cep_reference_no data\<rparr>
      in (payment, s\<lparr>expense_payments := expense_payments s @ [payment]\<rparr>))"

definition expense_leaves_drawer ::
  "clock \<Rightarrow> uuid \<Rightarrow> uuid \<Rightarrow> register_shift option \<Rightarrow> CreateExpensePaymentRequest \<Rightarrow> uuid \<Rightarrow> db \<Rightarrow> db" where
  "expense_leaves_drawer c bid expense_id active_shift data user s =
     (if cep_payment_method data = PaymentMethod_cash
      then (case active_shift of None \<Rightarrow> s
        | Some sh \<Rightarrow> snd (add_register_tx c bid (row_id sh) RegisterTxType_expense PaymentMethod_cash
              (cep_amount data) (Some ReferenceType_expense) (Some expense_id) None
              (or_else (cep_paid_at data) (now c)) user s))
      else s)"

definition add_expense_payment ::
  "clock \<Rightarrow> uuid \<Rightarrow> uuid \<Rightarrow> CreateExpensePaymentRequest \<Rightarrow> uuid \<Rightarrow> db \<Rightarrow>
     (ExpensePaymentResponse \<times> db) res" where
  "add_expense_payment c bid expense_id data user s =
     bind_res (get_expense_by_id s expense_id bid) (\<lambda>expense.
       let total_liability = ex_amount expense + ex_tax_amount expense;
           current_paid = sum_expense_payments s bid expense_id;
           remaining = max (total_liability - current_paid) 0
       in if remaining < cep_amount data
          then Inl (HTTPException 400 ''Payment of Rs. {} exceeds remaining balance of Rs. {}''
                 [ADec (cep_amount data), ADec remaining])
          else
            let (payment, s) = write_expense_payment c bid (row_id expense) data user s;
                s = expense_leaves_drawer c bid (row_id expense)
                      (get_active_shift_for_branch s bid (ex_branch_id expense)) data user s;
                total_paid = current_paid + cep_amount data
            in Inr (\<lparr>epr_id = row_id payment, epr_expense_id = ep_expense_id payment,
                     epr_payment_method = ep_payment_method payment, epr_amount = ep_amount payment,
                     epr_status = ep_status payment, epr_reference_no = ep_reference_no payment,
                     epr_paid_at = ep_paid_at payment, epr_created_at = created_at payment,
                     epr_total_paid = total_paid,
                     epr_remaining_balance = max (total_liability - total_paid) 0\<rparr>, s))"

definition pay_new_expense ::
  "clock \<Rightarrow> uuid \<Rightarrow> uuid \<Rightarrow> register_shift option \<Rightarrow> uuid \<Rightarrow> CreateExpensePaymentRequest \<Rightarrow> db \<Rightarrow> db" where
  "pay_new_expense c bid expense_id active_shift user data s =
     expense_leaves_drawer c bid expense_id active_shift data user
       (snd (write_expense_payment c bid expense_id data user s))"

definition book_liability :: "clock \<Rightarrow> uuid \<Rightarrow> uuid \<Rightarrow> CreateExpenseRequest \<Rightarrow> uuid \<Rightarrow> db \<Rightarrow> db" where
  "book_liability c bid expense_id data user s =
     (case cer_supplier_id data of None \<Rightarrow> s
      | Some sid \<Rightarrow> snd (create_supplier_ledger_entry c bid sid LedgerEntryType_sale
          (- (cer_amount data + cer_tax_amount data)) (Some ReferenceType_expense) (Some expense_id)
          None (Some user) s))"

definition create_expense ::
  "clock \<Rightarrow> uuid \<Rightarrow> CreateExpenseRequest \<Rightarrow> uuid \<Rightarrow> db \<Rightarrow> (expense \<times> db) res" where
  "create_expense c bid data user s =
     bind_res (verify_branch s (cer_branch_id data) bid) (\<lambda>_.
     bind_res (get_expense_category_by_id s (cer_expense_category_id data) bid) (\<lambda>_.
     bind_res (case cer_supplier_id data of None \<Rightarrow> Inr None
               | Some sid \<Rightarrow> bind_res (get_supplier_by_id s sid bid) (\<lambda>r. Inr (Some r))) (\<lambda>_.
       let (number, s) = generate_document_number c bid ''EXP'' s;
           (i, s) = fresh_uuid s;
           expense = new_row i bid (Some user) (now c)
             \<lparr>ex_branch_id = cer_branch_id data, ex_expense_category_id = cer_expense_category_id data,
              ex_supplier_id = cer_supplier_id data, ex_expense_number = number,
              ex_description = cer_description data, ex_expense_date = cer_expense_date data,
              ex_amount = cer_amount data, ex_tax_amount = cer_tax_amount data\<rparr>;
           s = s\<lparr>expenses := expenses s @ [expense]\<rparr>;
           active_shift = get_active_shift_for_branch s bid (cer_branch_id data);
           s = fold (pay_new_expense c bid i active_shift user) (cer_payments data) s;
           s = book_liability c bid i data user s
       in Inr (expense, s))))"

definition update_expense ::
  "clock \<Rightarrow> uuid \<Rightarrow> uuid \<Rightarrow> UpdateExpenseRequest \<Rightarrow> uuid \<Rightarrow> db \<Rightarrow> db res" where
  "update_expense c expense_id bid data user s =
     bind_res (get_expense_by_id s expense_id bid) (\<lambda>expense.
       Inr (s\<lparr>expenses := update_where (\<lambda>e. row_id e = row_id expense)
         (\<lambda>e. e\<lparr>ex_description := set_some (uer_description data) (ex_description e),
                ex_expense_date := or_else (uer_expense_date data) (ex_expense_date e),
                ex_amount := or_else (uer_amount data) (ex_amount e),
                ex_tax_amount := or_else (uer_tax_amount data) (ex_tax_amount e),
                updated_by := Some user, updated_at := now c\<rparr>) (expenses s)\<rparr>))"

definition delete_expense :: "clock \<Rightarrow> uuid \<Rightarrow> uuid \<Rightarrow> uuid \<Rightarrow> db \<Rightarrow> db res" where
  "delete_expense c expense_id bid user s =
     bind_res (get_expense_by_id s expense_id bid) (\<lambda>expense.
       Inr (s\<lparr>expenses := update_where (\<lambda>e. row_id e = row_id expense)
              (\<lambda>e. e\<lparr>deleted_at := Some (now c), deleted_by := Some user, updated_by := Some user,
                     updated_at := now c\<rparr>) (expenses s),
            expense_payments := update_where (\<lambda>p. ep_expense_id p = row_id expense \<and> live p)
              (\<lambda>p. p\<lparr>deleted_at := Some (now c), updated_at := now c\<rparr>) (expense_payments s)\<rparr>))"

section \<open>What the operations do\<close>

definition cash_paid :: "CreateExpensePaymentRequest list \<Rightarrow> decimal" where
  "cash_paid ps = sum_where cep_amount (\<lambda>p. cep_payment_method p = PaymentMethod_cash) ps"

definition drawer_share :: "uuid \<Rightarrow> register_shift option \<Rightarrow> decimal \<Rightarrow> uuid \<times> uuid \<Rightarrow> decimal" where
  \<comment> \<open>what an amount taken from the drawer of the branch means for each drawer\<close>
  "drawer_share bid sh a k = (case sh of None \<Rightarrow> 0 | Some x \<Rightarrow> if k = (bid, row_id x) then a else 0)"

lemma drawer_share_add: "drawer_share bid sh (a + b) k = drawer_share bid sh a k + drawer_share bid sh b k"
  by (simp add: drawer_share_def split: option.split)

lemma write_expense_payment_eq:
  assumes "write_expense_payment c bid i data user s = (p, s')"
  shows "s' = s\<lparr>uuid_next := Suc (uuid_next s), expense_payments := expense_payments s @ [p]\<rparr>"
    "live p" "business_id p = bid" "ep_expense_id p = i" "ep_amount p = cep_amount data"
    "ep_status p = PaymentStatus_completed" "row_id p = uuid_gen s (uuid_next s)"
  using assms by (auto simp: write_expense_payment_def fresh_uuid_def Let_def live_def)

lemma expense_leaves_drawer_step:
  "\<exists>n txs. expense_leaves_drawer c bid i sh data user s = s\<lparr>uuid_next := n, register_txs := txs\<rparr> \<and>
     (\<forall>k. drawer (expense_leaves_drawer c bid i sh data user s) k =
        drawer s k - drawer_share bid sh (cash_paid [data]) k)"
proof (cases "cep_payment_method data = PaymentMethod_cash \<and> sh \<noteq> None")
  case True
  then obtain x where x: "sh = Some x" by auto
  obtain t s' where t: "add_register_tx c bid (row_id x) RegisterTxType_expense PaymentMethod_cash
      (cep_amount data) (Some ReferenceType_expense) (Some i) None
      (or_else (cep_paid_at data) (now c)) user s = (t, s')" by fastforce
  note A = add_register_tx_eq [OF t]
  have s': "expense_leaves_drawer c bid i sh data user s = s'"
    using True x t by (simp add: expense_leaves_drawer_def)
  have "drawer s' k = drawer s k - drawer_share bid sh (cash_paid [data]) k" for k
    using drawer.post_balance [OF add_register_tx_posts [OF t], of k] A(5-7) True x
    by (simp add: cash_effect_def drawer_share_def cash_paid_def)
  then show ?thesis unfolding s' using A(1) by blast
next
  case False
  then have same: "expense_leaves_drawer c bid i sh data user s = s"
    and none: "drawer_share bid sh (cash_paid [data]) k = 0" for k
    by (auto simp: expense_leaves_drawer_def drawer_share_def cash_paid_def split: option.split)
  show ?thesis
    by (rule exI [of _ "uuid_next s"], rule exI [of _ "register_txs s"]) (simp add: same none)
qed

lemma sum_expense_payments_append:
  assumes "expense_payments s' = expense_payments s @ [p]" "live p" "business_id p = bid"
    "ep_expense_id p = i" "ep_status p = PaymentStatus_completed"
  shows "sum_expense_payments s' b j =
    sum_expense_payments s b j + (if (b, j) = (bid, i) then ep_amount p else 0)"
  using assms by (auto simp: sum_expense_payments_def)

definition paid_out :: "uuid \<Rightarrow> uuid \<Rightarrow> register_shift option \<Rightarrow> CreateExpensePaymentRequest list \<Rightarrow> db \<Rightarrow> db \<Rightarrow> bool" where
  \<comment> \<open>payments of one expense recorded, the cash among them taken from the drawer of a shift\<close>
  "paid_out bid i sh ps s s' \<longleftrightarrow>
     (\<forall>k. drawer s' k = drawer s k - drawer_share bid sh (cash_paid ps) k) \<and>
     (\<forall>b j. sum_expense_payments s' b j = sum_expense_payments s b j +
        (if (b, j) = (bid, i) then sum_list (map cep_amount ps) else 0)) \<and>
     (\<exists>n txs rows. s' = s\<lparr>uuid_next := n, register_txs := txs, expense_payments := rows\<rparr>)"

lemma pay_new_expense_step: "paid_out bid i sh [p] s (pay_new_expense c bid i sh user p s)"
proof -
  obtain r t where r: "write_expense_payment c bid i p user s = (r, t)" by fastforce
  note W = write_expense_payment_eq [OF r]
  let ?u = "expense_leaves_drawer c bid i sh p user t"
  obtain n txs where u: "?u = t\<lparr>uuid_next := n, register_txs := txs\<rparr>"
    and d: "\<And>k. drawer ?u k = drawer t k - drawer_share bid sh (cash_paid [p]) k"
    using expense_leaves_drawer_step [of c bid i sh p user t] by blast
  have dt: "drawer t k = drawer s k" for k by (simp add: W(1) drawer_def)
  have pay: "expense_payments ?u = expense_payments s @ [r]" by (simp only: u) (simp add: W(1))
  have "\<exists>n txs rows. ?u = s\<lparr>uuid_next := n, register_txs := txs, expense_payments := rows\<rparr>"
    by (intro exI [of _ n] exI [of _ txs] exI [of _ "expense_payments s @ [r]"]) (simp only: u, simp add: W(1))
  then have "paid_out bid i sh [p] s ?u"
    using d dt sum_expense_payments_append [OF pay W(2-4,6)] W(5) by (simp add: paid_out_def)
  then show ?thesis by (simp add: pay_new_expense_def r)
qed

lemma paid_out_trans:
  assumes "paid_out bid i sh ps s t" "paid_out bid i sh qs t u"
  shows "paid_out bid i sh (ps @ qs) s u"
proof -
  have "\<exists>n txs rows. u = s\<lparr>uuid_next := n, register_txs := txs, expense_payments := rows\<rparr>"
    using assms unfolding paid_out_def by force
  then show ?thesis
    using assms by (simp add: paid_out_def cash_paid_def drawer_share_add)
qed

lemma paid_out_refl: "paid_out bid i sh [] s s"
  unfolding paid_out_def
  by (intro conjI allI exI [of _ "uuid_next s"] exI [of _ "register_txs s"] exI [of _ "expense_payments s"])
    (simp_all add: cash_paid_def drawer_share_def split: option.split)

lemma pay_new_expenses: "paid_out bid i sh ps s (fold (pay_new_expense c bid i sh user) ps s)"
proof (induction ps arbitrary: s)
  case (Cons p ps)
  show ?case
    using paid_out_trans [OF pay_new_expense_step [of bid i sh p s c user] Cons.IH] by simp
qed (simp add: paid_out_refl)

lemma book_liability_eq:
  "\<exists>n rows. book_liability c bid i data user s = s\<lparr>uuid_next := n, supplier_ledgers := rows\<rparr> \<and>
     (\<forall>k. supplier_account (book_liability c bid i data user s) k = supplier_account s k -
        (if map_option (Pair bid) (cer_supplier_id data) = Some k
         then cer_amount data + cer_tax_amount data else 0))"
proof (cases "cer_supplier_id data")
  case None
  then show ?thesis
    by (intro exI [of _ "uuid_next s"] exI [of _ "supplier_ledgers s"]) (simp add: book_liability_def)
next
  case (Some sid)
  obtain e s' where e: "create_supplier_ledger_entry c bid sid LedgerEntryType_sale
      (- (cer_amount data + cer_tax_amount data)) (Some ReferenceType_expense) (Some i) None (Some user) s =
      (e, s')" by fastforce
  have s': "book_liability c bid i data user s = s'" using Some e by (simp add: book_liability_def)
  have E: "s' = s\<lparr>uuid_next := Suc (uuid_next s), supplier_ledgers := supplier_ledgers s @ [e]\<rparr>"
    "live e" "business_id e = bid" "sl_supplier_id e = sid" "sl_amount e = - (cer_amount data + cer_tax_amount data)"
    using e by (auto simp: create_supplier_ledger_entry_def fresh_uuid_def Let_def live_def)
  have "posted_supplier_entry (bid, sid) (- (cer_amount data + cer_tax_amount data)) s s'"
    using E unfolding posted_supplier_entry_def by auto
  from payables.post_balance [OF this] show ?thesis
    unfolding s' using E(1) Some
    by (intro exI [of _ "Suc (uuid_next s)"] exI [of _ "supplier_ledgers s @ [e]"]) auto
qed

lemma create_expense_effects:
  assumes "create_expense c bid data user s = Inr (e, s')"
  shows "expenses s' = expenses s @ [e]"
    and "business_id e = bid \<and> live e \<and> ex_amount e = cer_amount data \<and> ex_tax_amount e = cer_tax_amount data"
    and "drawer s' k = drawer s k - drawer_share bid
           (get_active_shift_for_branch s bid (cer_branch_id data)) (cash_paid (cer_payments data)) k"
    and "sum_expense_payments s' b j = sum_expense_payments s b j +
           (if (b, j) = (bid, row_id e) then sum_list (map cep_amount (cer_payments data)) else 0)"
    and "supplier_account s' k = supplier_account s k -
           (if map_option (Pair bid) (cer_supplier_id data) = Some k
            then cer_amount data + cer_tax_amount data else 0)"
proof -
  obtain number t where n: "generate_document_number c bid ''EXP'' s = (number, t)" by fastforce
  obtain cs m0 where T: "t = s\<lparr>counters := cs, uuid_next := m0\<rparr>"
    using generate_document_number_frame(1) [OF n] by (rule that)
  define i where "i = uuid_gen t (uuid_next t)"
  define t' where "t' = t\<lparr>uuid_next := Suc (uuid_next t), expenses := expenses t @ [e]\<rparr>"
  define sh where "sh = get_active_shift_for_branch s bid (cer_branch_id data)"
  define u where "u = fold (pay_new_expense c bid i sh user) (cer_payments data) t'"
  have sh: "get_active_shift_for_branch t' bid (cer_branch_id data) = sh"
    by (simp add: sh_def t'_def get_active_shift_for_branch_def T)
  have e: "row_id e = i" "business_id e = bid" "live e" "ex_amount e = cer_amount data" "ex_tax_amount e = cer_tax_amount data"
    and s': "s' = book_liability c bid i data user u"
    using assms sh
    by (auto simp: create_expense_def handler_simps n Let_def fresh_uuid_def i_def live_def u_def t'_def
        get_active_shift_for_branch_def)
  have U: "paid_out bid i sh (cer_payments data) t' u" unfolding u_def by (rule pay_new_expenses)
  then obtain m txs rows where u: "u = t'\<lparr>uuid_next := m, register_txs := txs, expense_payments := rows\<rparr>"
    unfolding paid_out_def by blast
  obtain m' rows' where b: "s' = u\<lparr>uuid_next := m', supplier_ledgers := rows'\<rparr>"
    and L: "supplier_account s' k = supplier_account u k -
        (if map_option (Pair bid) (cer_supplier_id data) = Some k then cer_amount data + cer_tax_amount data else 0)" for k
    using book_liability_eq [of c bid i data user u] unfolding s' by blast
  show "expenses s' = expenses s @ [e]" unfolding b u t'_def by (simp add: T)
  show "business_id e = bid \<and> live e \<and> ex_amount e = cer_amount data \<and> ex_tax_amount e = cer_tax_amount data"
    using e by simp
  have "drawer s' k = drawer u k" "drawer t' k = drawer s k" by (simp_all add: b t'_def drawer_def T)
  then show "drawer s' k = drawer s k - drawer_share bid sh (cash_paid (cer_payments data)) k"
    using U by (simp add: paid_out_def del: split_paired_All)
  have "sum_expense_payments s' b j = sum_expense_payments u b j"
    "sum_expense_payments t' b j = sum_expense_payments s b j" 
    by (simp_all add: b t'_def sum_expense_payments_def T)
  then show "sum_expense_payments s' b j = sum_expense_payments s b j +
      (if (b, j) = (bid, row_id e) then sum_list (map cep_amount (cer_payments data)) else 0)"
    using U e(1) by (simp add: paid_out_def)
  have "supplier_account u k = supplier_account s k" by (simp add: u t'_def supplier_account_def T)
  then show "supplier_account s' k = supplier_account s k -
      (if map_option (Pair bid) (cer_supplier_id data) = Some k then cer_amount data + cer_tax_amount data else 0)"
    using L by simp
qed

text \<open>
  C36. Creating an expense records the expense with its amounts, takes the cash payments out of the
  drawer of the branch's open shift and out of no other, records all its payments as paid on it, and
  puts amount and tax as owed on the supplier's account; nothing else moves.
\<close>


theorem create_expense_correct:
  assumes "create_expense c bid data user s = Inr (e, s')"
  shows "expenses s' = expenses s @ [e] \<and>
    (business_id e = bid \<and> live e \<and> ex_amount e = cer_amount data \<and> ex_tax_amount e = cer_tax_amount data) \<and>
    (\<forall>k. drawer s' k = drawer s k - drawer_share bid
           (get_active_shift_for_branch s bid (cer_branch_id data)) (cash_paid (cer_payments data)) k) \<and>
    (\<forall>b j. sum_expense_payments s' b j = sum_expense_payments s b j +
           (if (b, j) = (bid, row_id e) then sum_list (map cep_amount (cer_payments data)) else 0)) \<and>
    (\<forall>k. supplier_account s' k = supplier_account s k -
           (if map_option (Pair bid) (cer_supplier_id data) = Some k
            then cer_amount data + cer_tax_amount data else 0))"
  by (intro conjI allI create_expense_effects [OF assms])


lemma add_expense_payment_correct:
  assumes "add_expense_payment c bid i data user s = Inr (r, s')" "0 < cep_amount data"
  obtains e where "get_expense_by_id s i bid = Inr e"
    "sum_expense_payments s' bid i = sum_expense_payments s bid i + cep_amount data"
    "sum_expense_payments s' bid i \<le> ex_amount e + ex_tax_amount e"
    "epr_total_paid r = sum_expense_payments s' bid i"
    "epr_remaining_balance r = ex_amount e + ex_tax_amount e - sum_expense_payments s' bid i"
    "\<And>k. drawer s' k = drawer s k -
       drawer_share bid (get_active_shift_for_branch s bid (ex_branch_id e)) (cash_paid [data]) k"
    "expenses s' = expenses s" "supplier_ledgers s' = supplier_ledgers s"
proof -
  obtain e where e: "get_expense_by_id s i bid = Inr e"
    using assms(1) by (auto simp: add_expense_payment_def handler_simps)
  then have i: "row_id e = i" by (auto simp: get_expense_by_id_def handler_simps filter_eq_Cons_iff)
  define sh where "sh = get_active_shift_for_branch s bid (ex_branch_id e)"
  obtain p t where p: "write_expense_payment c bid i data user s = (p, t)" by fastforce
  have sh: "get_active_shift_for_branch t bid (ex_branch_id e) = sh"
    by (simp add: write_expense_payment_eq(1) [OF p] sh_def get_active_shift_for_branch_def)
  let ?rest = "max (ex_amount e + ex_tax_amount e - sum_expense_payments s bid i) 0"
  have ok: "\<not> ?rest < cep_amount data"
    and r: "epr_total_paid r = sum_expense_payments s bid i + cep_amount data"
      "epr_remaining_balance r = max (ex_amount e + ex_tax_amount e -
         (sum_expense_payments s bid i + cep_amount data)) 0"
    and s': "s' = pay_new_expense c bid i sh user data s"
    using assms(1) e i p sh
    by (auto simp: add_expense_payment_def handler_simps Let_def pay_new_expense_def split: if_splits)
  have U: "paid_out bid i sh [data] s s'" unfolding s' by (rule pay_new_expense_step)
  have paid: "sum_expense_payments s' bid i = sum_expense_payments s bid i + cep_amount data"
    using U by (simp add: paid_out_def)
  have bound: "sum_expense_payments s' bid i \<le> ex_amount e + ex_tax_amount e"
    using ok assms(2) by (simp add: paid max_def split: if_splits)
  obtain m txs rows where "s' = s\<lparr>uuid_next := m, register_txs := txs, expense_payments := rows\<rparr>"
    using U unfolding paid_out_def by blast
  then have "expenses s' = expenses s" "supplier_ledgers s' = supplier_ledgers s" by simp_all
  moreover have "drawer s' k = drawer s k - drawer_share bid sh (cash_paid [data]) k" for k
    using U by (simp add: paid_out_def del: split_paired_All)
  ultimately show ?thesis
    using that [OF e paid bound] r paid bound by (simp add: sh_def max_def)
qed

lemma category_in_use_kept:
  assumes "e \<in> set (expenses s)" "expense_in bid category_id e"
  shows "\<exists>x. delete_expense_category c category_id bid user s = Inl x"
proof -
  have "filter (expense_in bid category_id) (expenses s) \<noteq> []" using assms by (auto simp: filter_empty_conv)
  then show ?thesis
    by (cases "get_expense_category_by_id s category_id bid") (auto simp: delete_expense_category_def)
qed

lemma update_where_none_left:
  "(\<And>r. Q r \<Longrightarrow> \<not> Q (f r)) \<Longrightarrow> p \<in> set (update_where Q f rows) \<Longrightarrow> \<not> Q p"
  by (induction rows) (auto split: if_splits)

lemma delete_expense_keeps_money:
  assumes "delete_expense c i bid user s = Inr s'"
  shows "drawer s' k = drawer s k" "supplier_account s' k = supplier_account s k"
    "sum_expense_payments s' bid i = 0"
proof -
  obtain e where e: "get_expense_by_id s i bid = Inr e"
    using assms by (auto simp: delete_expense_def handler_simps)
  then have i: "row_id e = i" by (auto simp: get_expense_by_id_def handler_simps filter_eq_Cons_iff)
  have s': "s' = s\<lparr>expenses := update_where (\<lambda>e. row_id e = i)
      (\<lambda>e. e\<lparr>deleted_at := Some (now c), deleted_by := Some user, updated_by := Some user, updated_at := now c\<rparr>) (expenses s),
    expense_payments := update_where (\<lambda>p. ep_expense_id p = i \<and> live p)
      (\<lambda>p. p\<lparr>deleted_at := Some (now c), updated_at := now c\<rparr>) (expense_payments s)\<rparr>"
    using assms e i by (simp add: delete_expense_def)
  show "drawer s' k = drawer s k" "supplier_account s' k = supplier_account s k"
    by (simp_all add: s' drawer_def supplier_account_def)
  show "sum_expense_payments s' bid i = 0"
    by (simp add: sum_expense_payments_def s' , rule sum_where_none, drule update_where_none_left [rotated])
      (auto simp: live_def)
qed

section \<open>Samples\<close>

definition sample_office :: db where
  \<comment> \<open>a branch with an open shift, a category and a supplier\<close>
  "sample_office = sample_open_till\<lparr>
     branches := [new_row 2 1 None 0 \<lparr>br_name = ''Main'', br_code = None, br_is_head_office = True,
       br_is_active = True, br_address_line1 = None, br_address_line2 = None, br_city = None, br_state = None,
       br_postal_code = None, br_phone = None, br_email = None\<rparr>],
     expense_categories := [new_row 30 1 None 0 \<lparr>ec_name = ''Rent'', ec_parent_id = None, ec_is_active = True\<rparr>],
     suppliers := [new_row 40 1 None 0 \<lparr>su_name = ''Landlord'', su_contact_person = None, su_email = None,
       su_phone = None, su_tax_id = None, su_address_line1 = None, su_city = None, su_payment_terms_days = 0,
       su_is_active = True\<rparr>]\<rparr>"

definition sample_rent :: CreateExpenseRequest where
  \<comment> \<open>100 of rent, and a cash payment of 130\<close>
  "sample_rent = \<lparr>cer_branch_id = 2, cer_expense_category_id = 30, cer_supplier_id = Some 40,
     cer_description = None, cer_expense_date = 10, cer_amount = 100, cer_tax_amount = 0,
     cer_payments = [\<lparr>cep_payment_method = PaymentMethod_cash, cep_amount = 130, cep_reference_no = None,
       cep_paid_at = None\<rparr>]\<rparr>"

lemma sample_rent_accepted: "\<exists>e s'. create_expense sample_now 1 sample_rent 9 sample_office = Inr (e, s')"
proof -
  have "\<exists>x. verify_branch sample_office 2 1 = Inr x" "\<exists>x. get_expense_category_by_id sample_office 30 1 = Inr x"
    "\<exists>x. get_supplier_by_id sample_office 40 1 = Inr x"
    by (simp_all add: verify_branch_def get_expense_category_by_id_def get_supplier_by_id_def sample_office_def live_def)
  then show ?thesis
    by (auto simp: create_expense_def sample_rent_def case_prod_unfold Let_def simp del: One_nat_def)
qed

lemma create_expense_correct_witness:
  "\<exists>e s'. create_expense sample_now 1 sample_rent 9 sample_office = Inr (e, s') \<and>
     drawer s' (1, 6) = - 130 \<and> supplier_account s' (1, 40) = - 100 \<and>
     sum_expense_payments s' 1 (row_id e) = 130"
proof -
  obtain e s' where r: "create_expense sample_now 1 sample_rent 9 sample_office = Inr (e, s')"
    using sample_rent_accepted by blast
  have shift: "get_active_shift_for_branch sample_office 1 2 = Some sample_shift"
    by (simp add: get_active_shift_for_branch_def sample_office_def sample_open_till_def sample_shift_def
        live_def first_row_def)
  have "drawer sample_office (1, 6) = 0" "supplier_account sample_office (1, 40) = 0"
    "sum_expense_payments sample_office b j = 0" for b j
    by (simp_all add: drawer_def supplier_account_def sum_expense_payments_def sample_office_def
        sample_open_till_def sample_till_def empty_db_def)
  moreover have "cash_paid (cer_payments sample_rent) = 130" "map cep_amount (cer_payments sample_rent) = [130]"
    "cer_branch_id sample_rent = 2" "cer_supplier_id sample_rent = Some 40"
    "cer_amount sample_rent + cer_tax_amount sample_rent = 100"
    by (simp_all add: cash_paid_def sample_rent_def)
  ultimately show ?thesis
    using r create_expense_correct [OF r, THEN conjunct2, THEN conjunct2]
    by (simp add: shift drawer_share_def sample_shift_def del: One_nat_def)
qed

lemma payments_of_new_expense_unchecked:
  \<comment> \<open>the payments that come with a new expense may exceed it, and none of them is credited to the supplier\<close>
  "valid_expense sample_rent \<and> sum_list (map cep_amount (cer_payments sample_rent)) = 130 \<and>
   cer_amount sample_rent + cer_tax_amount sample_rent = 100 \<and>
   (\<exists>e s'. create_expense sample_now 1 sample_rent 9 sample_office = Inr (e, s'))"
  using sample_rent_accepted by (simp add: valid_expense_def valid_expense_payment_def sample_rent_def)

end
