(* ===== verification/Access.thy ===== *)
theory Access
  imports Tables
begin

text \<open>
  Who may do what: the subscription of a business (\<open>app/services/subscription.py\<close>), the cache of
  permission keys (\<open>app/core/permission_cache.py\<close>) and the guards every request passes
  (\<open>app/dependencies.py\<close>). Decoding a token is left to a parameter (JWT is a library); what its
  claims are used for is modelled. Shown here: the phases of a subscription only move forward, the
  keys of a user come from live grants of their own business only, the cache never serves keys
  older than its limit or than the last change of a role, and which requests get through.
\<close>

section \<open>Subscriptions\<close>

datatype subscription_phase = TRIAL | ACTIVE | GRACE | EXPIRED | SUSPENDED | CANCELLED

record SubscriptionState =
  st_status :: subscription_phase
  st_trial_ends_at :: "datetime option"
  st_subscription_ends_at :: "datetime option"
  st_expires_at :: "datetime option"
  st_days_left :: "int option"
  st_in_grace :: bool

definition blocked_code :: "SubscriptionState \<Rightarrow> string option" where
  "blocked_code state =
     (case st_status state of EXPIRED \<Rightarrow> Some ''subscription_expired''
      | SUSPENDED \<Rightarrow> Some ''subscription_suspended''
      | CANCELLED \<Rightarrow> Some ''subscription_cancelled''
      | _ \<Rightarrow> None)"

definition day_us :: int where
  "day_us = 86400 * 1000000"

definition days_left :: "datetime option \<Rightarrow> datetime \<Rightarrow> int option" where
  "days_left end_at t =
     (case end_at of None \<Rightarrow> None
      | Some e \<Rightarrow> (let delta = of_int (e - t) / (of_int day_us :: rat)
                  in Some (if 0 \<le> delta then \<lceil>delta\<rceil> else \<lfloor>delta\<rfloor>)))"

definition compute_state :: "nat \<Rightarrow> business \<Rightarrow> datetime \<Rightarrow> SubscriptionState" where
  \<comment> \<open>\<open>grace_days\<close> is a setting\<close>
  "compute_state grace_days b t =
     (let grace = int grace_days * day_us;
          trial_end = bu_trial_ends_at b;
          sub_end = bu_subscription_ends_at b;
          state = (\<lambda>phase expires in_grace.
            \<lparr>st_status = phase, st_trial_ends_at = trial_end, st_subscription_ends_at = sub_end,
             st_expires_at = expires, st_days_left = days_left expires t, st_in_grace = in_grace\<rparr>)
      in case bu_subscription_status b of
           SubscriptionStatus_suspended \<Rightarrow> state SUSPENDED None False
         | SubscriptionStatus_cancelled \<Rightarrow> state CANCELLED None False
         | SubscriptionStatus_trial \<Rightarrow>
             (case trial_end of
                Some e \<Rightarrow> if e < t then state EXPIRED trial_end False else state TRIAL trial_end False
              | None \<Rightarrow> state TRIAL trial_end False)
         | _ \<Rightarrow>
             (case sub_end of
                None \<Rightarrow> state ACTIVE sub_end False
              | Some e \<Rightarrow> if t \<le> e then state ACTIVE sub_end False
                          else if t \<le> e + grace then state GRACE sub_end True
                          else state EXPIRED sub_end False))"

definition block_message :: "nat \<Rightarrow> SubscriptionState \<Rightarrow> bool \<Rightarrow> datetime \<Rightarrow> string \<times> fmt_arg list" where
  "block_message grace_days state trial t =
     (case st_status state of
        SUSPENDED \<Rightarrow> (''Your account is suspended. Please contact support.'', [])
      | CANCELLED \<Rightarrow> (''Your subscription was cancelled. Please contact support.'', [])
      | GRACE \<Rightarrow>
          (let days = max 0 \<lceil>of_int (or_else (st_subscription_ends_at state) t + int grace_days * day_us - t) /
                 (of_int day_us :: rat)\<rceil>
           in (''Your subscription has expired and the app is read-only for {} more day{}. Please renew to keep working.'',
               [ADec (of_int days), AStr (if days \<noteq> 1 then ''s'' else [])]))
      | _ \<Rightarrow> if trial then (''Your free trial has ended. Please subscribe to continue.'', [])
             else (''Your subscription has expired. Please renew to continue.'', []))"

definition build_blocked :: "nat \<Rightarrow> SubscriptionState \<Rightarrow> business \<Rightarrow> bool \<Rightarrow> datetime \<Rightarrow> http_error" where
  \<comment> \<open>\<open>SubscriptionBlocked\<close>, rendered as a 402: the code is its detail here, the message and the date
      its arguments; the contact details of the platform are left out\<close>
  "build_blocked grace_days state b grace_write t =
     (let blocked = (\<lambda>code message at_time. HTTPException 402 code
            ([AStr (fst message)] @ snd message @
             (case at_time of Some x \<Rightarrow> [ADec (of_int x)] | None \<Rightarrow> [])))
      in if grace_write
         then blocked ''subscription_grace_readonly'' (block_message grace_days state False t) (st_subscription_ends_at state)
         else blocked (or_else (blocked_code state) ''subscription_expired'')
           (block_message grace_days state (bu_subscription_status b = SubscriptionStatus_trial) t)
           (st_expires_at state))"

subsection \<open>Calendar months\<close>

definition leap_year :: "int \<Rightarrow> bool" where
  "leap_year y \<longleftrightarrow> 4 dvd y \<and> (\<not> 100 dvd y \<or> 400 dvd y)"

definition month_days :: "int \<Rightarrow> int \<Rightarrow> int" where
  "month_days y m = (if m = 2 then (if leap_year y then 29 else 28)
     else if m \<in> {4, 6, 9, 11} then 30 else 31)"

definition valid_date :: "int \<times> int \<times> int \<Rightarrow> bool" where
  \<comment> \<open>the dates that \<open>datetime.replace\<close> accepts\<close>
  "valid_date = (\<lambda>(y, m, d). 1 \<le> y \<and> y \<le> 9999 \<and> 1 \<le> m \<and> m \<le> 12 \<and> 1 \<le> d \<and> d \<le> month_days y m)"

partial_function (option) clip_day :: "int \<Rightarrow> int \<Rightarrow> int \<Rightarrow> (int \<times> int \<times> int) option" where
  \<comment> \<open>\<open>while True: try: return moment.replace(...) except ValueError: day -= 1\<close>\<close>
  "clip_day y m d = (if valid_date (y, m, d) then Some (y, m, d) else clip_day y m (d - 1))"

declare clip_day.simps [code]

definition add_months :: "int \<times> int \<times> int \<Rightarrow> int \<Rightarrow> (int \<times> int \<times> int) option" where
  \<comment> \<open>on the date of a moment; its time of day is kept\<close>
  "add_months = (\<lambda>(y, m, d) months.
     (let month_index = m - 1 + months
      in clip_day (y + month_index div 12) (month_index mod 12 + 1) d))"

section \<open>The permission cache\<close>

record permission_cache =
  pc_role_version :: nat
  pc_store :: "((uuid \<times> nat) \<times> (int \<times> string set)) list"

definition TTL_us :: int where
  "TTL_us = 15 * 1000000"

definition MAX_ENTRIES :: nat where
  "MAX_ENTRIES = 5000"

definition cache_get :: "int \<Rightarrow> uuid \<Rightarrow> permission_cache \<Rightarrow> string set option \<times> permission_cache" where
  \<comment> \<open>the first argument is the monotonic clock\<close>
  "cache_get t user_id p =
     (case map_of (pc_store p) (user_id, pc_role_version p) of
        None \<Rightarrow> (None, p)
      | Some (expires_at, keys) \<Rightarrow>
          if expires_at < t
          then (None, p\<lparr>pc_store := filter (\<lambda>e. fst e \<noteq> (user_id, pc_role_version p)) (pc_store p)\<rparr>)
          else (Some keys, p))"

definition cache_put :: "int \<Rightarrow> uuid \<Rightarrow> string set \<Rightarrow> permission_cache \<Rightarrow> permission_cache" where
  "cache_put t user_id keys p =
     (let store = (if MAX_ENTRIES \<le> length (pc_store p) then [] else pc_store p);
          k = (user_id, pc_role_version p)
      in p\<lparr>pc_store := filter (\<lambda>e. fst e \<noteq> k) store @ [(k, (t + TTL_us, keys))]\<rparr>)"

definition cache_invalidate_all :: "permission_cache \<Rightarrow> permission_cache" where
  "cache_invalidate_all p = \<lparr>pc_role_version = Suc (pc_role_version p), pc_store = []\<rparr>"

section \<open>Roles, permission keys and branches\<close>

definition user_roles_of :: "db \<Rightarrow> app_user \<Rightarrow> user_role list" where
  "user_roles_of s u = filter (\<lambda>ur. ur_user_id ur = row_id u) (user_roles s)"

definition role_of :: "db \<Rightarrow> user_role \<Rightarrow> role option" where
  "role_of s ur = find (\<lambda>r. row_id r = ur_role_id ur) (roles s)"

definition permission_of :: "db \<Rightarrow> role_permission \<Rightarrow> permission option" where
  "permission_of s rp = find (\<lambda>p. pe_id p = rp_permission_id rp) (permissions s)"

definition user_role_names :: "db \<Rightarrow> app_user \<Rightarrow> string set" where
  "user_role_names s u = set (concat (map (\<lambda>ur.
     if \<not> live ur then []
     else case role_of s ur of
       Some r \<Rightarrow> if live r then [map lower_char (ro_name r)] else []
     | None \<Rightarrow> []) (user_roles_of s u)))"

definition role_keys :: "db \<Rightarrow> uuid \<Rightarrow> role \<Rightarrow> string list" where
  "role_keys s bid r = concat (map (\<lambda>rp.
     if rp_business_id rp \<noteq> bid then []
     else case permission_of s rp of Some p \<Rightarrow> [pe_permission_key p] | None \<Rightarrow> [])
       (filter (\<lambda>rp. rp_role_id rp = row_id r) (role_permissions s)))"

definition compute_permission_keys :: "db \<Rightarrow> app_user \<Rightarrow> string set" where
  "compute_permission_keys s u =
     (let bid = business_id u
      in set (concat (map (\<lambda>ur.
        if \<not> live ur then []
        else case role_of s ur of None \<Rightarrow> []
          | Some r \<Rightarrow>
              if business_id ur \<noteq> bid then []
              else if \<not> live r \<or> business_id r \<noteq> bid then []
              else role_keys s bid r) (user_roles_of s u))))"

definition owner_role :: "role \<Rightarrow> bool" where
  "owner_role r \<longleftrightarrow> map lower_char (ro_name r) = ''owner''"

fun scan_branches :: "db \<Rightarrow> app_user \<Rightarrow> user_role list \<Rightarrow> uuid set \<Rightarrow> bool \<Rightarrow> (uuid set \<times> bool) option" where
  \<comment> \<open>the loop of \<open>allowed_branch_ids\<close>; \<open>None\<close> is its early return for an owner\<close>
  "scan_branches s u [] scoped unscoped = Some (scoped, unscoped)"
| "scan_branches s u (ur # urs) scoped unscoped =
     (if \<not> live ur then scan_branches s u urs scoped unscoped
      else case role_of s ur of
        None \<Rightarrow> scan_branches s u urs scoped unscoped
      | Some r \<Rightarrow>
          if \<not> live r then scan_branches s u urs scoped unscoped
          else if business_id ur \<noteq> business_id u then scan_branches s u urs scoped unscoped
          else if owner_role r then None
          else case ur_branch_id ur of
            None \<Rightarrow> scan_branches s u urs scoped True
          | Some b \<Rightarrow> scan_branches s u urs (insert b scoped) unscoped)"

definition allowed_branch_ids :: "db \<Rightarrow> app_user \<Rightarrow> uuid set option" where
  "allowed_branch_ids s u =
     (case scan_branches s u (user_roles_of s u) {} False of
        None \<Rightarrow> None
      | Some (scoped, unscoped) \<Rightarrow>
          (case us_default_branch_id u of
             Some d \<Rightarrow> Some (insert d scoped)
           | None \<Rightarrow> if unscoped \<or> scoped = {} then None else Some scoped))"

definition user_can_access_branch :: "db \<Rightarrow> app_user \<Rightarrow> uuid \<Rightarrow> bool" where
  "user_can_access_branch s u branch_id \<longleftrightarrow>
     (case allowed_branch_ids s u of None \<Rightarrow> True | Some bs \<Rightarrow> branch_id \<in> bs)"

definition user_roles_for_response :: "db \<Rightarrow> app_user \<Rightarrow> string list" where
  "user_roles_for_response s u =
     sort_key (map lower_char) (concat (map (\<lambda>ur.
       if \<not> live ur then []
       else case role_of s ur of None \<Rightarrow> []
         | Some r \<Rightarrow>
             if business_id ur \<noteq> business_id u then []
             else if \<not> live r \<or> business_id r \<noteq> business_id u then []
             else [ro_name r]) (user_roles_of s u)))"

section \<open>The guards of a request\<close>

record request =
  rq_method :: string
  rq_subscription_exempt :: bool  \<comment> \<open>the route depends on \<open>subscription_exempt\<close>\<close>
  rq_grace_write_ok :: bool  \<comment> \<open>the route depends on \<open>allow_in_grace\<close>\<close>

definition READ_METHODS :: "string set" where
  "READ_METHODS = {''GET'', ''HEAD'', ''OPTIONS''}"

definition enforce_subscription :: "nat \<Rightarrow> request \<Rightarrow> business \<Rightarrow> datetime \<Rightarrow> unit res" where
  "enforce_subscription grace_days rq b t =
     (if rq_subscription_exempt rq then Inr ()
      else let state = compute_state grace_days b t
      in if st_status state = ACTIVE \<or> st_status state = TRIAL then Inr ()
         else if st_status state = GRACE then
           if rq_method rq \<in> READ_METHODS \<or> rq_grace_write_ok rq then Inr ()
           else Inl (build_blocked grace_days state b True t)
         else Inl (build_blocked grace_days state b False t))"

definition business_of :: "db \<Rightarrow> app_user \<Rightarrow> business option" where
  "business_of s u = find (\<lambda>b. row_id b = business_id u) (businesses s)"

definition check_user :: "db \<Rightarrow> nat \<Rightarrow> datetime \<Rightarrow> request \<Rightarrow> int \<Rightarrow> app_user \<Rightarrow> unit res" where
  \<comment> \<open>the checks on the user a token names, in their order\<close>
  "check_user s grace_days t rq tv u =
     (if deleted_at u \<noteq> None then forbidden ''User account is inactive''
      else if us_status u \<noteq> UserStatus_active then forbidden ''User account is inactive''
      else if us_is_locked u then forbidden ''User account is locked''
      else case business_of s u of
        None \<Rightarrow> forbidden ''Business account is inactive''
      | Some b \<Rightarrow>
          if \<not> bu_is_active b then forbidden ''Business account is inactive''
          else if deleted_at b \<noteq> None then forbidden ''Business account is inactive''
          else if tv \<noteq> us_token_version u
          then Inl (HTTPException 401 ''Token is no longer valid'' [])
          else enforce_subscription grace_days rq b t)"

definition get_current_user ::
  "(string \<Rightarrow> (uuid \<times> int) option) \<Rightarrow> nat \<Rightarrow> datetime \<Rightarrow> int \<Rightarrow> request \<Rightarrow> string \<Rightarrow> db \<Rightarrow>
     permission_cache \<Rightarrow> (app_user \<times> string set) res \<times> permission_cache" where
  \<comment> \<open>the first argument decodes a token: the user its subject names and its \<open>tv\<close> claim, 0 without one;
      times are the wall clock and the monotonic one\<close>
  "get_current_user decode grace_days t m rq token s p =
     (case decode token of
        None \<Rightarrow> (Inl (HTTPException 401 ''Could not validate credentials'' []), p)
      | Some (user_id, tv) \<Rightarrow>
          (let (cached_keys, p) = cache_get m user_id p
           in case find (\<lambda>u. row_id u = user_id) (app_users s) of
                None \<Rightarrow> (Inl (HTTPException 401 ''User not found'' []), p)
              | Some u \<Rightarrow>
                  (case check_user s grace_days t rq tv u of
                     Inl e \<Rightarrow> (Inl e, p)
                   | Inr _ \<Rightarrow>
                       (case cached_keys of
                          Some keys \<Rightarrow> (Inr (u, keys), p)
                        | None \<Rightarrow> (let keys = compute_permission_keys s u
                                  in (Inr (u, keys), cache_put m (row_id u) keys p))))))"

definition require_owner :: "db \<Rightarrow> app_user \<Rightarrow> unit res" where
  "require_owner s u =
     (if ''owner'' \<notin> user_role_names s u then forbidden ''Owner role required'' else Inr ())"

definition require_manager :: "db \<Rightarrow> app_user \<Rightarrow> unit res" where
  "require_manager s u =
     (if user_role_names s u \<inter> {''owner'', ''manager''} = {} then forbidden ''Manager or owner role required''
      else Inr ())"

definition require_permission :: "string \<Rightarrow> string set \<Rightarrow> unit res" where
  "require_permission key keys =
     (if key \<notin> keys then Inl (HTTPException 403 ''Permission required: {}'' [AStr key]) else Inr ())"

definition require_any_permission :: "string list \<Rightarrow> string set \<Rightarrow> unit res" where
  "require_any_permission wanted keys =
     (if keys \<inter> set wanted = {}
      then Inl (HTTPException 403 ''One of these permissions required: {}'' (map AStr wanted)) else Inr ())"

definition require_feature_flags :: "string list \<Rightarrow> db \<Rightarrow> app_user \<Rightarrow> business_config res" where
  \<comment> \<open>\<open>require_feature_flag\<close> is the case of one key\<close>
  "require_feature_flags flag_keys s u =
     bind_res (get_business_config s (business_id u)) (\<lambda>config.
     bind_res (check_each (\<lambda>k. if get_feature_flag (config_json config) k then Inr ()
         else Inl (HTTPException 403 ''Feature not enabled: {}'' [AStr k])) flag_keys) (\<lambda>_.
       Inr config))"

section \<open>Subscriptions only move forward\<close>

fun phase_rank :: "subscription_phase \<Rightarrow> nat" where
  "phase_rank TRIAL = 0" | "phase_rank ACTIVE = 0" | "phase_rank GRACE = 1" | "phase_rank EXPIRED = 2"
| "phase_rank SUSPENDED = 3" | "phase_rank CANCELLED = 3"

lemma compute_state_simps:
  "compute_state g b t = \<lparr>st_status = st_status (compute_state g b t), st_trial_ends_at = bu_trial_ends_at b,
     st_subscription_ends_at = bu_subscription_ends_at b, st_expires_at = st_expires_at (compute_state g b t),
     st_days_left = days_left (st_expires_at (compute_state g b t)) t,
     st_in_grace = (st_status (compute_state g b t) = GRACE)\<rparr>"
  by (auto simp: compute_state_def Let_def days_left_def split: subscription_status_enum.splits option.splits)

lemma phases_forward:
  assumes "t \<le> t'"
  shows "phase_rank (st_status (compute_state g b t)) \<le> phase_rank (st_status (compute_state g b t'))"
  using assms
  by (auto simp: compute_state_def Let_def day_us_def split: subscription_status_enum.splits option.splits)

lemma blocked_code_None: "blocked_code st = None \<longleftrightarrow> phase_rank (st_status st) < 2"
  by (cases "st_status st") (simp_all add: blocked_code_def)

lemma grace_window:
  "st_status (compute_state g b t) = GRACE \<longleftrightarrow>
     bu_subscription_status b \<in> {SubscriptionStatus_active, SubscriptionStatus_past_due} \<and>
     (\<exists>e. bu_subscription_ends_at b = Some e \<and> e < t \<and> t \<le> e + int g * day_us)"
  by (auto simp: compute_state_def Let_def split: subscription_status_enum.splits option.splits)

lemma days_left_sign:
  "days_left (Some e) t = Some d \<Longrightarrow> 0 \<le> d \<longleftrightarrow> t \<le> e"
  by (auto simp: days_left_def day_us_def Let_def ceiling_le_iff zero_le_divide_iff le_floor_iff split: if_splits)

lemma month_days_range: "28 \<le> month_days y m" "month_days y m \<le> 31"
  by (auto simp: month_days_def)

lemma clip_day_valid:
  assumes "1 \<le> y" "y \<le> 9999" "1 \<le> m" "m \<le> 12" "1 \<le> d"
  shows "clip_day y m d = Some (y, m, min d (month_days y m))"
  using assms(5)
proof (induction "nat d" arbitrary: d)
  case (Suc n)
  show ?case
  proof (cases "d \<le> month_days y m")
    case True
    then show ?thesis using assms Suc.prems by (subst clip_day.simps) (simp add: valid_date_def min_def)
  next
    case False
    then have "1 \<le> d - 1" using month_days_range(1) [of y m] by linarith
    moreover have "n = nat (d - 1)" using Suc(2) by linarith
    ultimately have "clip_day y m (d - 1) = Some (y, m, min (d - 1) (month_days y m))"
      using Suc.hyps(1) by blast
    then show ?thesis using False by (subst clip_day.simps) (simp add: valid_date_def min_def)
  qed
qed simp

lemma add_months_returns: \<comment> \<open>the day is kept, or clipped to the last one of the month\<close>
  assumes "valid_date (y, m, d)" "1 \<le> y + (m - 1 + k) div 12" "y + (m - 1 + k) div 12 \<le> 9999"
  shows "add_months (y, m, d) k = Some (y + (m - 1 + k) div 12, (m - 1 + k) mod 12 + 1,
    min d (month_days (y + (m - 1 + k) div 12) ((m - 1 + k) mod 12 + 1)))"
  using assms pos_mod_bound [of 12 "m - 1 + k"] pos_mod_sign [of 12 "m - 1 + k"]
  unfolding add_months_def Let_def prod.case by (intro clip_day_valid) (auto simp: valid_date_def)
section \<open>Keys come from live grants of the user's own business\<close>

lemma find_Some_iff_member:
  "find P xs = Some x \<Longrightarrow> x \<in> set xs \<and> P x"
  by (induction xs) (auto split: if_splits)

definition granted :: "db \<Rightarrow> app_user \<Rightarrow> string \<Rightarrow> bool" where
  \<comment> \<open>a live assignment of a live role that has the key, all of the user's business\<close>
  "granted s u k \<longleftrightarrow> (\<exists>ur\<in>set (user_roles s). \<exists>rp\<in>set (role_permissions s). \<exists>r p.
     ur_user_id ur = row_id u \<and> live ur \<and> business_id ur = business_id u \<and>
     role_of s ur = Some r \<and> live r \<and> business_id r = business_id u \<and>
     rp_role_id rp = row_id r \<and> rp_business_id rp = business_id u \<and>
     permission_of s rp = Some p \<and> k = pe_permission_key p)"

lemma in_concat_map: "k \<in> set (concat (map f xs)) \<longleftrightarrow> (\<exists>x\<in>set xs. k \<in> set (f x))"
  by auto

lemma in_case_option: "k \<in> set (case m of None \<Rightarrow> [] | Some p \<Rightarrow> f p) \<longleftrightarrow> (\<exists>p. m = Some p \<and> k \<in> set (f p))"
  by (cases m) auto

lemma in_if_set: "k \<in> set (if b then [] else xs) \<longleftrightarrow> \<not> b \<and> k \<in> set xs"
  by simp

lemma role_keys_iff:
  "k \<in> set (role_keys s bid r) \<longleftrightarrow> (\<exists>rp\<in>set (role_permissions s). \<exists>p.
     rp_role_id rp = row_id r \<and> rp_business_id rp = bid \<and> permission_of s rp = Some p \<and> k = pe_permission_key p)"
  unfolding role_keys_def in_concat_map in_case_option in_if_set by auto

lemma compute_permission_keys_iff: "k \<in> compute_permission_keys s u \<longleftrightarrow> granted s u k"
  unfolding compute_permission_keys_def granted_def Let_def in_concat_map in_case_option in_if_set role_keys_iff
    user_roles_of_def
  by auto

lemma foreign_rows_grant_nothing:
  assumes "business_id ur \<noteq> business_id u" "rp_business_id rp \<noteq> business_id u"
  shows "compute_permission_keys (s\<lparr>user_roles := user_roles s @ [ur], role_permissions := role_permissions s @ [rp]\<rparr>) u =
    compute_permission_keys s u"
  using assms by (auto simp: set_eq_iff compute_permission_keys_iff granted_def role_of_def permission_of_def)

section \<open>Branches\<close>

definition counts :: "db \<Rightarrow> app_user \<Rightarrow> user_role \<Rightarrow> role \<Rightarrow> bool" where
  "counts s u ur r \<longleftrightarrow> live ur \<and> role_of s ur = Some r \<and> live r \<and> business_id ur = business_id u"

lemma scan_branches_eq:
  "scan_branches s u urs sc un =
     (if \<exists>ur\<in>set urs. \<exists>r. counts s u ur r \<and> owner_role r then None
      else Some (sc \<union> {b. \<exists>ur\<in>set urs. \<exists>r. counts s u ur r \<and> ur_branch_id ur = Some b},
                 un \<or> (\<exists>ur\<in>set urs. \<exists>r. counts s u ur r \<and> ur_branch_id ur = None)))"
proof (induction urs arbitrary: sc un)
  case (Cons ur urs)
  show ?case
  proof (cases "\<exists>r. counts s u ur r")
    case True
    then obtain r where r: "counts s u ur r" by blast
    then have only: "counts s u ur r' \<longleftrightarrow> r' = r" for r' by (auto simp: counts_def)
    have step: "scan_branches s u (ur # urs) sc un =
        (if owner_role r then None
         else case ur_branch_id ur of None \<Rightarrow> scan_branches s u urs sc True
              | Some b \<Rightarrow> scan_branches s u urs (insert b sc) un)"
      using r by (simp add: counts_def)
    show ?thesis
      unfolding step Cons.IH by (cases "ur_branch_id ur") (auto simp: only)
  next
    case False
    then have "scan_branches s u (ur # urs) sc un = scan_branches s u urs sc un"
      by (auto simp: counts_def split: option.split)
    then show ?thesis using False by (simp only: Cons.IH) auto
  qed
qed simp

lemma roleless_user_sees_every_branch:
  \<comment> \<open>no assigned branch and no role at all means every branch\<close>
  assumes "us_default_branch_id u = None" "\<And>ur. ur \<in> set (user_roles s) \<Longrightarrow> ur_user_id ur \<noteq> row_id u"
  shows "user_can_access_branch s u b"
proof -
  have "user_roles_of s u = []" using assms(2) by (auto simp: user_roles_of_def filter_empty_conv)
  then show ?thesis using assms(1) by (simp add: user_can_access_branch_def allowed_branch_ids_def)
qed

lemma assigned_user_confined:
  assumes "us_default_branch_id u = Some d" "allowed_branch_ids s u \<noteq> None"
  shows "user_can_access_branch s u b \<longleftrightarrow> b = d \<or>
    (\<exists>ur\<in>set (user_roles_of s u). \<exists>r. counts s u ur r \<and> ur_branch_id ur = Some b)"
  using assms unfolding user_can_access_branch_def allowed_branch_ids_def scan_branches_eq
  by (simp split: if_splits) blast

section \<open>The cache\<close>

datatype gate_event =
    Request datetime int request string db  \<comment> \<open>a request: both clocks, the route, the token, the database\<close>
  | Roles_changed  \<comment> \<open>an operation that calls \<open>invalidate_all\<close>\<close>

fun gate_step :: "(string \<Rightarrow> (uuid \<times> int) option) \<Rightarrow> nat \<Rightarrow> gate_event \<Rightarrow> permission_cache \<Rightarrow> permission_cache" where
  "gate_step decode g (Request t m rq token s) p = snd (get_current_user decode g t m rq token s p)"
| "gate_step decode g Roles_changed p = cache_invalidate_all p"

definition recent_step :: "gate_event \<Rightarrow> (int \<times> db) list \<Rightarrow> (int \<times> db) list" where
  \<comment> \<open>the requests since the last change of a role\<close>
  "recent_step e rs = (case e of Request t m rq token s \<Rightarrow> (m, s) # rs | Roles_changed \<Rightarrow> [])"

definition cache_from :: "(int \<times> db) list \<Rightarrow> permission_cache \<Rightarrow> bool" where
  \<comment> \<open>every entry was computed for its user from the database of one of these requests\<close>
  "cache_from rs p \<longleftrightarrow> (\<forall>i v e ks. ((i, v), (e, ks)) \<in> set (pc_store p) \<longrightarrow>
     (\<exists>m s u. (m, s) \<in> set rs \<and> e = m + TTL_us \<and> row_id u = i \<and> ks = compute_permission_keys s u))"

lemma cache_from_mono: "cache_from rs p \<Longrightarrow> set rs \<subseteq> set rs' \<Longrightarrow> cache_from rs' p"
  unfolding cache_from_def by blast

lemma cache_get_from:
  assumes "cache_from rs p" "cache_get t i p = (r, p')"
  shows "cache_from rs p'"
    and "r = Some ks \<Longrightarrow> \<exists>m s u. (m, s) \<in> set rs \<and> t \<le> m + TTL_us \<and> row_id u = i \<and> ks = compute_permission_keys s u"
proof -
  have "set (pc_store p') \<subseteq> set (pc_store p)"
    using assms(2) by (auto simp: cache_get_def split: option.splits if_splits)
  with assms(1) show "cache_from rs p'" unfolding cache_from_def by blast
  assume "r = Some ks"
  then obtain e where "map_of (pc_store p) (i, pc_role_version p) = Some (e, ks)" "\<not> e < t"
    using assms(2) by (auto simp: cache_get_def split: option.splits if_splits)
  then have "((i, pc_role_version p), (e, ks)) \<in> set (pc_store p)" "t \<le> e" by (auto dest: map_of_SomeD)
  with assms(1) show "\<exists>m s u. (m, s) \<in> set rs \<and> t \<le> m + TTL_us \<and> row_id u = i \<and> ks = compute_permission_keys s u"
    unfolding cache_from_def by blast
qed

lemma cache_put_from:
  assumes "cache_from rs p"
  shows "cache_from ((m, s) # rs) (cache_put m (row_id u) (compute_permission_keys s u) p)"
proof -
  have "\<exists>m' s' u'. (m', s') \<in> set ((m, s) # rs) \<and> e = m' + TTL_us \<and> row_id u' = i \<and> ks = compute_permission_keys s' u'"
    if "((i, v), (e, ks)) \<in> set (pc_store (cache_put m (row_id u) (compute_permission_keys s u) p))" for i v e ks
  proof (cases "((i, v), (e, ks)) \<in> set (pc_store p)")
    case True
    then show ?thesis using assms unfolding cache_from_def by (meson list.set_intros(2))
  next
    case False
    then have "e = m + TTL_us" "i = row_id u" "ks = compute_permission_keys s u"
      using that by (auto simp: cache_put_def Let_def split: if_splits)
    then show ?thesis by (metis list.set_intros(1))
  qed
  then show ?thesis unfolding cache_from_def by blast
qed

lemma get_current_user_from:
  assumes "cache_from rs p" "get_current_user decode g0 t m rq token s p = (r, p')"
  shows "cache_from ((m, s) # rs) p'"
    and "r = Inr (u, keys) \<Longrightarrow> \<exists>m' s' u'. (m', s') \<in> set ((m, s) # rs) \<and> m \<le> m' + TTL_us \<and>
      row_id u' = row_id u \<and> keys = compute_permission_keys s' u'"
proof -
  have more: "cache_from ((m, s) # rs) q" if "cache_from rs q" for q
    using that by (rule cache_from_mono) auto
  have "cache_from ((m, s) # rs) p' \<and> (r = Inr (u, keys) \<longrightarrow> (\<exists>m' s' u'. (m', s') \<in> set ((m, s) # rs) \<and>
      m \<le> m' + TTL_us \<and> row_id u' = row_id u \<and> keys = compute_permission_keys s' u'))"
  proof (cases "decode token")
    case None
    then show ?thesis using assms more by (auto simp: get_current_user_def)
  next
    case (Some d)
    obtain i tv where d: "d = (i, tv)" by fastforce
    obtain c q where g: "cache_get m i p = (c, q)" by fastforce
    note C = cache_get_from [OF assms(1) g]
    show ?thesis
    proof (cases "find (\<lambda>u. row_id u = i) (app_users s)")
      case None
      then show ?thesis using assms Some d g more [OF C(1)] by (auto simp: get_current_user_def)
    next
      case (Some u0)
      then have u0: "row_id u0 = i" by (auto dest: find_Some_iff_member)
      note D = Some \<open>decode token = Some d\<close> d g
      show ?thesis
      proof (cases "check_user s g0 t rq tv u0")
        case (Inl x)
        then show ?thesis using assms(2) D more [OF C(1)] by (auto simp: get_current_user_def)
      next
        case (Inr x)
        show ?thesis
        proof (cases c)
          case None
          let ?ks = "compute_permission_keys s u0"
          have "r = Inr (u0, ?ks)" "p' = cache_put m (row_id u0) ?ks q"
            using assms(2) D None Inr by (auto simp: get_current_user_def Let_def)
          moreover have "m \<le> m + TTL_us" by (simp add: TTL_us_def)
          ultimately show ?thesis
            using cache_put_from [OF C(1), of m s u0] by (intro conjI impI exI [of _ m] exI [of _ s] exI [of _ u0]) auto
        next
          case (Some ks)
          then have "r = Inr (u0, ks)" "p' = q"
            using assms(2) D Inr by (auto simp: get_current_user_def)
          with Some show ?thesis using C(2) more [OF C(1)] u0 by auto
        qed
      qed
    qed
  qed
  then show "cache_from ((m, s) # rs) p'"
    "r = Inr (u, keys) \<Longrightarrow> \<exists>m' s' u'. (m', s') \<in> set ((m, s) # rs) \<and> m \<le> m' + TTL_us \<and>
      row_id u' = row_id u \<and> keys = compute_permission_keys s' u'" by blast+
qed

lemma gate_run_from:
  "cache_from rs p \<Longrightarrow> cache_from (fold recent_step evs rs) (fold (gate_step decode g) evs p)"
proof (induction evs arbitrary: rs p)
  case (Cons e evs)
  have "cache_from (recent_step e rs) (gate_step decode g e p)"
  proof (cases e)
    case (Request t m rq token s)
    obtain r p' where r: "get_current_user decode g t m rq token s p = (r, p')" by fastforce
    show ?thesis using get_current_user_from(1) [OF Cons.prems r] r Request by (simp add: recent_step_def)
  next
    case Roles_changed
    then show ?thesis by (simp add: cache_from_def cache_invalidate_all_def recent_step_def)
  qed
  with Cons.IH show ?case by simp
qed simp
lemma served_requests:
  assumes "get_current_user decode g t m rq token s
      (fold (gate_step decode g) evs \<lparr>pc_role_version = v, pc_store = []\<rparr>) = (Inr (u, keys), p')"
  shows "\<exists>m0 s0 u0. (m0, s0) \<in> insert (m, s) (set (fold recent_step evs [])) \<and> m \<le> m0 + TTL_us \<and>
      row_id u0 = row_id u \<and> (\<forall>k. k \<in> keys \<longleftrightarrow> granted s0 u0 k)"
    and "\<exists>b. decode token = Some (row_id u, us_token_version u) \<and> u \<in> set (app_users s) \<and> live u \<and>
      us_status u = UserStatus_active \<and> \<not> us_is_locked u \<and> b \<in> set (businesses s) \<and>
      row_id b = business_id u \<and> live b \<and> bu_is_active b \<and>
      (rq_subscription_exempt rq \<or> st_status (compute_state g b t) \<in> {TRIAL, ACTIVE} \<or>
       st_status (compute_state g b t) = GRACE \<and> (rq_method rq \<in> READ_METHODS \<or> rq_grace_write_ok rq))"
proof -
  have "cache_from (fold recent_step evs []) (fold (gate_step decode g) evs \<lparr>pc_role_version = v, pc_store = []\<rparr>)"
    by (rule gate_run_from) (simp add: cache_from_def)
  from get_current_user_from(2) [OF this assms refl]
  show "\<exists>m0 s0 u0. (m0, s0) \<in> insert (m, s) (set (fold recent_step evs [])) \<and> m \<le> m0 + TTL_us \<and>
      row_id u0 = row_id u \<and> (\<forall>k. k \<in> keys \<longleftrightarrow> granted s0 u0 k)"
    unfolding compute_permission_keys_iff [symmetric] by auto
  show "\<exists>b. decode token = Some (row_id u, us_token_version u) \<and> u \<in> set (app_users s) \<and> live u \<and>
      us_status u = UserStatus_active \<and> \<not> us_is_locked u \<and> b \<in> set (businesses s) \<and>
      row_id b = business_id u \<and> live b \<and> bu_is_active b \<and>
      (rq_subscription_exempt rq \<or> st_status (compute_state g b t) \<in> {TRIAL, ACTIVE} \<or>
       st_status (compute_state g b t) = GRACE \<and> (rq_method rq \<in> READ_METHODS \<or> rq_grace_write_ok rq))"
    using assms
    by (auto simp: get_current_user_def check_user_def business_of_def enforce_subscription_def live_def Let_def
        split: option.splits prod.splits sum.splits if_splits dest!: find_Some_iff_member)
qed

text \<open>
  C19. The permission keys a request is served with are the keys of its user in the database as an
  earlier request saw it, at most fifteen seconds ago and after the last change of a role in this
  process, or as this request sees it; and the request is served only when the token is current, the
  user and the business are live and active, the user is not locked, and the subscription of the
  business allows a request of this kind.
\<close>


theorem served_requests_authorised:
  assumes "get_current_user decode g t m rq token s
      (fold (gate_step decode g) evs \<lparr>pc_role_version = v, pc_store = []\<rparr>) = (Inr (u, keys), p')"
  shows "(\<exists>m0 s0 u0. (m0, s0) \<in> insert (m, s) (set (fold recent_step evs [])) \<and> m \<le> m0 + TTL_us \<and>
      row_id u0 = row_id u \<and> (\<forall>k. k \<in> keys \<longleftrightarrow> granted s0 u0 k)) \<and>
    (\<exists>b. decode token = Some (row_id u, us_token_version u) \<and> u \<in> set (app_users s) \<and> live u \<and>
      us_status u = UserStatus_active \<and> \<not> us_is_locked u \<and> b \<in> set (businesses s) \<and>
      row_id b = business_id u \<and> live b \<and> bu_is_active b \<and>
      (rq_subscription_exempt rq \<or> st_status (compute_state g b t) \<in> {TRIAL, ACTIVE} \<or>
       st_status (compute_state g b t) = GRACE \<and> (rq_method rq \<in> READ_METHODS \<or> rq_grace_write_ok rq)))"
  by (intro conjI served_requests [OF assms])

definition sample_business :: business where
  "sample_business = new_row 1 1 None 0 \<lparr>bu_name = ''Shop'', bu_legal_name = None, bu_tax_id = None, bu_email = None,
     bu_phone = None, bu_address_line1 = None, bu_address_line2 = None, bu_city = None, bu_state = None,
     bu_postal_code = None, bu_country_code = ''PK'', bu_currency_code = ''PKR'', bu_timezone = ''Asia/Karachi'',
     bu_logo_url = None, bu_subscription_plan = SubscriptionPlan_basic,
     bu_subscription_status = SubscriptionStatus_active, bu_trial_ends_at = None,
     bu_subscription_ends_at = Some 5000, bu_plan_id = None, bu_is_active = True\<rparr>"

definition sample_user :: app_user where
  "sample_user = new_row 9 1 None 0 \<lparr>us_default_branch_id = None, us_email = None, us_phone = None,
     us_password_hash = None, us_full_name = ''Ada'', us_pin_hash = None, us_is_locked = False,
     us_failed_login_attempts = 0, us_locked_until = None, us_password_changed_at = None, us_token_version = 2,
     us_status = UserStatus_active, us_last_login_at = None\<rparr>"

definition sample_access :: db where
  "sample_access = (empty_db id)\<lparr>uuid_next := 100, businesses := [sample_business], app_users := [sample_user],
     roles := [new_row 20 1 None 0 \<lparr>ro_name = ''Cashier'', ro_description = None, ro_is_system = True\<rparr>],
     permissions := [\<lparr>pe_id = 30, pe_permission_key = ''sales.create'', pe_module = ''sales'', pe_description = None\<rparr>],
     role_permissions := [\<lparr>rp_id = 31, rp_business_id = 1, rp_role_id = 20, rp_permission_id = 30, rp_created_at = 0,
       rp_created_by = None\<rparr>],
     user_roles := [new_row 32 1 None 0 \<lparr>ur_user_id = 9, ur_role_id = 20, ur_branch_id = None\<rparr>]\<rparr>"

definition sample_request :: request where
  "sample_request = \<lparr>rq_method = ''POST'', rq_subscription_exempt = False, rq_grace_write_ok = False\<rparr>"

definition sample_decode :: "string \<Rightarrow> (uuid \<times> int) option" where
  "sample_decode token = (if token = ''t'' then Some (9, 2) else None)"

lemma served_requests_authorised_witness:
  "\<exists>p'. get_current_user sample_decode 3 4000 (10 ^ 7) sample_request ''t'' sample_access
      (fold (gate_step sample_decode 3) [Request 4000 0 sample_request ''t'' sample_access]
        \<lparr>pc_role_version = 0, pc_store = []\<rparr>) = (Inr (sample_user, {''sales.create''}), p') \<and>
     (\<exists>m0 s0 u0. (m0, s0) \<in> {(10 ^ 7, sample_access), (0, sample_access)} \<and> row_id u0 = 9 \<and>
        granted s0 u0 ''sales.create'')"
proof -
  have keys: "compute_permission_keys sample_access sample_user = {''sales.create''}"
    by (simp add: compute_permission_keys_def user_roles_of_def role_of_def role_keys_def permission_of_def
        sample_access_def sample_user_def live_def)
  have user: "find (\<lambda>u. row_id u = 9) (app_users sample_access) = Some sample_user"
    by (simp add: sample_access_def sample_user_def)
  have checked: "check_user sample_access 3 4000 sample_request 2 sample_user = Inr ()"
    by (simp add: check_user_def business_of_def enforce_subscription_def compute_state_def sample_access_def
        sample_user_def sample_business_def Let_def)
  have id: "row_id sample_user = 9" by (simp add: sample_user_def)
  let ?p = "fold (gate_step sample_decode 3) [Request 4000 0 sample_request ''t'' sample_access]
        \<lparr>pc_role_version = 0, pc_store = []\<rparr>"
  have "?p = \<lparr>pc_role_version = 0, pc_store = [((9, 0), (TTL_us, {''sales.create''}))]\<rparr>"
    by (simp add: get_current_user_def sample_decode_def cache_get_def user checked keys id cache_put_def
        MAX_ENTRIES_def Let_def)
  then have "get_current_user sample_decode 3 4000 (10 ^ 7) sample_request ''t'' sample_access ?p =
      (Inr (sample_user, {''sales.create''}), ?p)"
    by (simp only:) (simp add: get_current_user_def sample_decode_def cache_get_def user checked TTL_us_def)
  then have r: "get_current_user sample_decode 3 4000 (10 ^ 7) sample_request ''t'' sample_access ?p =
      (Inr (sample_user, {''sales.create''}), ?p)" .
  with id r served_requests_authorised [OF r, THEN conjunct1] show ?thesis by (auto simp: recent_step_def simp del: fold_simps)
qed

lemma foreign_owner_passes:
  \<comment> \<open>the guard for owners does not look at the business of the role, the keys do\<close>
  "\<exists>s u. require_owner s u = Inr () \<and> compute_permission_keys s u = {} \<and> business_id u = 1 \<and>
     (\<forall>r\<in>set (roles s). business_id r = 2)"
proof -
  let ?s = "sample_access\<lparr>roles := [new_row 20 2 None 0 \<lparr>ro_name = ''Owner'', ro_description = None, ro_is_system = True\<rparr>]\<rparr>"
  have lower: "map lower_char ''Owner'' = ''owner''" by code_simp
  have "require_owner ?s sample_user = Inr ()"
    by (simp add: require_owner_def user_role_names_def user_roles_of_def role_of_def sample_access_def
        sample_user_def live_def lower [symmetric] del: list.map)
  moreover have "compute_permission_keys ?s sample_user = {}"
    by (simp add: compute_permission_keys_def user_roles_of_def role_of_def sample_access_def sample_user_def)
  ultimately show ?thesis by (intro exI [of _ ?s] exI [of _ sample_user]) (simp add: sample_user_def)
qed

end
