(* ===== verification/SyncPush.thy ===== *)
theory SyncPush
  imports Returns Expenses Access "HOL-Library.Sublist"
begin

text \<open>
  \<open>app/services/sync_push.py\<close> with \<open>app/schemas/sync.py\<close>: the operations an offline till recorded are
  replayed on the server, each once. An operation runs in a savepoint: when its handler raises, its
  effects are dropped and the rejection is its result; when it returns, effects, stored result and
  audit entry are written together. The model runs one batch at a time: locks, and the retries after
  a deadlock, have no counterpart.

  What pydantic and \<open>hashlib\<close> do is a parameter (\<open>sync_codec\<close>): splitting a raw operation into its
  envelope, reading a payload by its type, and the hash of an operation. The validators the payload
  classes add are modelled (\<open>valid_payload\<close>).
\<close>

section \<open>Payloads\<close>

record CustomerCreatePayload =
  pcc_id :: uuid
  pcc_name :: string
  pcc_phone :: "string option"
  pcc_email :: "string option"
  pcc_tax_id :: "string option"
  pcc_address_line1 :: "string option"
  pcc_city :: "string option"
  pcc_credit_limit :: decimal

record SaleLinePayload =
  pyl_id :: "uuid option"
  pyl_product_id :: uuid
  pyl_variation_id :: "uuid option"
  pyl_qty :: decimal
  pyl_unit_price :: decimal
  pyl_discount_pct :: decimal
  pyl_discount_amount :: decimal
  pyl_tax_rate :: decimal
  pyl_tax_amount :: decimal
  pyl_notes :: "string option"
  pyl_line_order :: "int option"

record SalePaymentPayload =
  pyp_payment_method :: PaymentMethodEnum
  pyp_amount :: decimal
  pyp_tendered_amount :: "decimal option"
  pyp_change_given :: decimal
  pyp_reference_no :: "string option"
  pyp_paid_at :: "datetime option"

record SaleCreatePayload =
  psc_id :: uuid
  psc_client_receipt_no :: string
  psc_branch_id :: uuid
  psc_register_shift_id :: "uuid option"
  psc_customer_id :: "uuid option"
  psc_sale_type :: SaleTypeEnum
  psc_price_list_id :: "uuid option"
  psc_discount_scheme_id :: "uuid option"
  psc_notes :: "string option"
  psc_lines :: "SaleLinePayload list"
  psc_payments :: "SalePaymentPayload list"

record SaleVoidPayload =
  psv_sale_id :: uuid
  psv_reason :: "string option"

record CustomerPaymentPayload =
  pcp_id :: "uuid option"
  pcp_customer_id :: uuid
  pcp_amount :: decimal
  pcp_payment_method :: PaymentMethodEnum
  pcp_register_shift_id :: "uuid option"
  pcp_reference_no :: "string option"
  pcp_notes :: "string option"

record ExpensePaymentPayload =
  pep_payment_method :: PaymentMethodEnum
  pep_amount :: decimal
  pep_reference_no :: "string option"
  pep_paid_at :: "datetime option"

record ExpenseCreatePayload =
  pex_branch_id :: uuid
  pex_expense_category_id :: uuid
  pex_supplier_id :: "uuid option"
  pex_description :: "string option"
  pex_expense_date :: date
  pex_amount :: decimal
  pex_tax_amount :: decimal
  pex_payments :: "ExpensePaymentPayload list"

record ShiftOpenPayload =
  pso_id :: uuid
  pso_cash_register_id :: uuid
  pso_opening_float :: decimal
  pso_notes :: "string option"

record ShiftClosePayload =
  psh_shift_id :: uuid
  psh_actual_cash :: decimal
  psh_notes :: "string option"

record ReturnLinePayload =
  pyr_sale_line_id :: "uuid option"
  pyr_product_id :: "uuid option"
  pyr_variation_id :: "uuid option"
  pyr_qty :: decimal
  pyr_unit_price :: "decimal option"
  pyr_tax_amount :: "decimal option"

record RefundPaymentPayload =
  pyf_payment_method :: PaymentMethodEnum
  pyf_amount :: decimal
  pyf_reference_no :: "string option"

record ReturnCreatePayload =
  prc_branch_id :: uuid
  prc_sale_id :: "uuid option"
  prc_register_shift_id :: "uuid option"
  prc_customer_id :: "uuid option"
  prc_reason :: "string option"
  prc_lines :: "ReturnLinePayload list"
  prc_refund_payments :: "RefundPaymentPayload list"

datatype op_payload =
    Customer_create CustomerCreatePayload
  | Sale_create SaleCreatePayload
  | Sale_void SaleVoidPayload
  | Customer_payment CustomerPaymentPayload
  | Expense_create ExpenseCreatePayload
  | Shift_open ShiftOpenPayload
  | Shift_close ShiftClosePayload
  | Return_create ReturnCreatePayload

definition valid_sale_line_payload :: "SaleLinePayload \<Rightarrow> bool" where
  "valid_sale_line_payload l \<longleftrightarrow> 0 < pyl_qty l \<and> 0 \<le> pyl_unit_price l \<and> 0 \<le> pyl_discount_pct l \<and>
     0 \<le> pyl_discount_amount l \<and> 0 \<le> pyl_tax_rate l \<and> 0 \<le> pyl_tax_amount l"

definition valid_sale_payment_payload :: "SalePaymentPayload \<Rightarrow> bool" where
  "valid_sale_payment_payload p \<longleftrightarrow> 0 < pyp_amount p \<and> 0 \<le> pyp_change_given p"

fun valid_payload :: "op_payload \<Rightarrow> bool" where
  "valid_payload (Customer_create p) \<longleftrightarrow> 0 \<le> pcc_credit_limit p"
| "valid_payload (Sale_create p) \<longleftrightarrow> psc_lines p \<noteq> [] \<and> (\<forall>l\<in>set (psc_lines p). valid_sale_line_payload l) \<and>
     (\<forall>q\<in>set (psc_payments p). valid_sale_payment_payload q)"
| "valid_payload (Customer_payment p) \<longleftrightarrow> 0 < pcp_amount p"
| "valid_payload (Shift_open p) \<longleftrightarrow> 0 \<le> pso_opening_float p"
| "valid_payload (Shift_close p) \<longleftrightarrow> 0 \<le> psh_actual_cash p"
| "valid_payload (Return_create p) \<longleftrightarrow> prc_lines p \<noteq> []"
| "valid_payload (Sale_void p) \<longleftrightarrow> True"
| "valid_payload (Expense_create p) \<longleftrightarrow> True"

section \<open>Operations, contexts and outcomes\<close>

type_synonym json_object = "(string \<times> json) list"

record OpEnvelope =
  env_op_id :: uuid
  env_type :: string
  env_client_created_at :: datetime
  env_occurred_at :: datetime
  env_payload :: json_object
  env_depends_on :: "uuid list"

record PushRequest =
  pq_device_id :: string
  pq_batch_id :: string
  pq_ops :: "json_object list"

record sync_codec =
  sc_op_id :: "json_object \<Rightarrow> uuid option"  \<comment> \<open>\<open>UUID(str(raw.get("op_id")))\<close>\<close>
  sc_envelope :: "json_object \<Rightarrow> string + OpEnvelope"  \<comment> \<open>\<open>OpEnvelope.model_validate\<close>, or its first error\<close>
  sc_payload :: "string \<Rightarrow> json_object \<Rightarrow> string + op_payload"  \<comment> \<open>the payload class of a type reading its fields\<close>
  sc_invalid :: "op_payload \<Rightarrow> string"  \<comment> \<open>the text of the first error a validator raises\<close>
  sc_expense_invalid :: "CreateExpenseRequest \<Rightarrow> string"
  sc_return_invalid :: "CreateSaleReturnRequest \<Rightarrow> string"
  sc_payload_size :: "json_object \<Rightarrow> nat"  \<comment> \<open>bytes of its JSON text\<close>
  sc_hash :: "string \<Rightarrow> json_object \<Rightarrow> datetime \<Rightarrow> string"  \<comment> \<open>SHA-256 of the canonical JSON text\<close>

record sync_settings =
  cfg_max_offline_days :: nat
  cfg_allow_negative_stock_on_sync :: bool
  cfg_max_payload_bytes :: nat
  cfg_grace_days :: nat

record Ctx =
  cx_business_id :: uuid
  cx_user_id :: uuid
  cx_permissions :: "string set"
  cx_branches :: "uuid set option"
  cx_state :: SubscriptionState
  cx_device_id :: string
  cx_batch_id :: string
  cx_clock :: clock

record OpReject =
  rj_code :: string
  rj_message :: "string \<times> fmt_arg list"
  rj_retryable :: bool
  rj_status :: string

record Outcome =
  oc_server_id :: "uuid option"
  oc_official_number :: "string option"
  oc_flags :: "string list"
  oc_table :: string
  oc_branch_id :: "uuid option"
  oc_already_applied :: bool

datatype op_exn = Rejected OpReject | Conflicts | Raised http_error
  \<comment> \<open>\<open>OpReject\<close>, \<open>IntegrityError\<close>, or what a service raised\<close>

definition rejects :: "string \<Rightarrow> string \<Rightarrow> fmt_arg list \<Rightarrow> bool \<Rightarrow> string \<Rightarrow> op_exn + 'a" where
  "rejects code message args retryable status =
     Inl (Rejected \<lparr>rj_code = code, rj_message = (message, args), rj_retryable = retryable, rj_status = status\<rparr>)"

definition reject :: "string \<Rightarrow> string \<Rightarrow> op_exn + 'a" where
  "reject code message = rejects code message [] False ''rejected''"

definition catch_http :: "'a res \<Rightarrow> (http_error \<Rightarrow> op_exn + 'a) \<Rightarrow> op_exn + 'a" where
  \<comment> \<open>\<open>try: ... except HTTPException\<close>\<close>
  "catch_http r handle = (case r of Inr x \<Rightarrow> Inr x
     | Inl e \<Rightarrow> (case e of HTTPException _ _ _ \<Rightarrow> handle e | PyError _ \<Rightarrow> Inl (Raised e)))"

definition lift :: "'a res \<Rightarrow> op_exn + 'a" where
  "lift r = (case r of Inr x \<Rightarrow> Inr x | Inl e \<Rightarrow> Inl (Raised e))"

definition lapsed :: "Ctx \<Rightarrow> bool" where
  "lapsed cx \<longleftrightarrow> st_status (cx_state cx) \<in> {EXPIRED, SUSPENDED, CANCELLED}"

definition can_access_branch :: "Ctx \<Rightarrow> uuid \<Rightarrow> bool" where
  "can_access_branch cx branch_id \<longleftrightarrow> (case cx_branches cx of None \<Rightarrow> True | Some bs \<Rightarrow> branch_id \<in> bs)"

definition require_branch :: "Ctx \<Rightarrow> uuid \<Rightarrow> op_exn + unit" where
  "require_branch cx branch_id =
     (if can_access_branch cx branch_id then Inr ()
      else reject ''branch_forbidden'' ''You do not have access to this branch'')"

definition outcome :: "uuid \<Rightarrow> string option \<Rightarrow> string list \<Rightarrow> string \<Rightarrow> uuid option \<Rightarrow> Outcome" where
  "outcome i number flags table branch_id = \<lparr>oc_server_id = Some i, oc_official_number = number,
     oc_flags = flags, oc_table = table, oc_branch_id = branch_id, oc_already_applied = False\<rparr>"

section \<open>Handlers\<close>

subsection \<open>Customers and shifts\<close>

definition h_customer_create ::
  "Ctx \<Rightarrow> CustomerCreatePayload \<Rightarrow> OpEnvelope \<Rightarrow> db \<Rightarrow> op_exn + Outcome \<times> db" where
  "h_customer_create cx p op s =
     (if \<exists>r\<in>set (customers s). row_id r = pcc_id p
      then rejects ''id_exists'' ''A customer with this id already exists'' [] False ''conflict''
      else
        let customer = new_row (pcc_id p) (cx_business_id cx) (Some (cx_user_id cx)) (env_occurred_at op)
              \<lparr>cu_name = pcc_name p, cu_email = pcc_email p, cu_phone = pcc_phone p, cu_tax_id = pcc_tax_id p,
               cu_address_line1 = pcc_address_line1 p, cu_city = pcc_city p,
               cu_credit_limit = pcc_credit_limit p, cu_is_active = True\<rparr>
        in Inr (outcome (pcc_id p) None [] ''customers'' None,
             s\<lparr>customers := customers s @ [customer\<lparr>updated_at := now (cx_clock cx)\<rparr>]\<rparr>))"

definition h_shift_open :: "Ctx \<Rightarrow> ShiftOpenPayload \<Rightarrow> OpEnvelope \<Rightarrow> db \<Rightarrow> op_exn + Outcome \<times> db" where
  "h_shift_open cx p op s =
     (let bid = cx_business_id cx; user = cx_user_id cx; c = cx_clock cx in
     bind_res (catch_http (get_cash_register_by_id s (pso_cash_register_id p) bid)
         (\<lambda>_. rejects ''unknown_register'' ''Cash register not found'' [] True ''rejected'')) (\<lambda>register.
     bind_res (require_branch cx (cr_branch_id register)) (\<lambda>_.
     if \<not> cr_is_active register then reject ''register_inactive'' ''Register is inactive''
     else if \<exists>sh\<in>set (shifts s). row_id sh = pso_id p
     then rejects ''id_exists'' ''A shift with this id already exists'' [] False ''conflict''
     else bind_res (lift (get_active_shift s bid (pso_cash_register_id p))) (\<lambda>on_register.
     if on_register \<noteq> None
     then rejects ''shift_conflict'' ''A shift is already open for this register'' [] False ''conflict''
     else bind_res (lift (get_active_shift_for_user s bid user)) (\<lambda>of_user.
     if of_user \<noteq> None
     then rejects ''shift_conflict'' ''You already have an open shift'' [] False ''conflict''
     else
       let shift = new_row (pso_id p) bid (Some user) (now c)
             \<lparr>rs_branch_id = cr_branch_id register, rs_cash_register_id = pso_cash_register_id p,
              rs_opened_by = user, rs_closed_by = None, rs_status = ShiftStatus_open,
              rs_opening_float = pso_opening_float p, rs_expected_cash = None, rs_actual_cash = None,
              rs_cash_difference = None, rs_opened_at = env_occurred_at op, rs_closed_at = None,
              rs_notes = pso_notes p\<rparr>;
           s = s\<lparr>shifts := shifts s @ [shift]\<rparr>;
           s = (if 0 < pso_opening_float p
                then snd (add_register_tx c bid (row_id shift) RegisterTxType_opening_float PaymentMethod_cash
                       (pso_opening_float p) None None None (env_occurred_at op) user s)
                else s)
       in Inr (outcome (row_id shift) None [] ''register_shifts'' (Some (cr_branch_id register)), s))))))"

definition shift_by_id :: "db \<Rightarrow> uuid \<Rightarrow> uuid \<Rightarrow> register_shift option res" where
  "shift_by_id s shift_id bid =
     scalar_one_or_none (filter (\<lambda>sh. row_id sh = shift_id \<and> business_id sh = bid \<and> live sh) (shifts s))"

definition close_by_push :: "Ctx \<Rightarrow> ShiftClosePayload \<Rightarrow> OpEnvelope \<Rightarrow> decimal \<Rightarrow> register_shift \<Rightarrow> register_shift" where
  "close_by_push cx p op expected sh = sh\<lparr>rs_status := ShiftStatus_closed, rs_closed_at := Some (env_occurred_at op),
     rs_closed_by := Some (cx_user_id cx), rs_expected_cash := Some expected,
     rs_actual_cash := Some (psh_actual_cash p), rs_cash_difference := Some (psh_actual_cash p - expected),
     updated_by := Some (cx_user_id cx), updated_at := now (cx_clock cx),
     rs_notes := set_some (psh_notes p) (rs_notes sh)\<rparr>"

definition h_shift_close :: "Ctx \<Rightarrow> ShiftClosePayload \<Rightarrow> OpEnvelope \<Rightarrow> db \<Rightarrow> op_exn + Outcome \<times> db" where
  "h_shift_close cx p op s =
     (let bid = cx_business_id cx; user = cx_user_id cx; c = cx_clock cx in
     bind_res (lift (shift_by_id s (psh_shift_id p) bid)) (\<lambda>found. case found of
       None \<Rightarrow> rejects ''unknown_shift'' ''Shift not found (has its shift.open been synced?)'' [] True ''rejected''
     | Some shift \<Rightarrow>
     bind_res (require_branch cx (rs_branch_id shift)) (\<lambda>_.
     if rs_opened_by shift \<noteq> user \<and> ''shifts.manage'' \<notin> cx_permissions cx
     then reject ''permission_denied'' ''Only the user who opened this shift can close it''
     else if rs_status shift \<noteq> ShiftStatus_open
     then rejects ''shift_already_closed'' ''Shift is already closed'' [] False ''conflict''
     else if env_occurred_at op < rs_opened_at shift
     then reject ''occurred_before_open'' ''Shift cannot close before it opened''
     else
       let expected = calculate_expected_cash shift (load_shift_transactions s (row_id shift) bid);
           s = s\<lparr>shifts := update_where (\<lambda>sh. row_id sh = row_id shift) (close_by_push cx p op expected) (shifts s)\<rparr>;
           s = (if 0 < psh_actual_cash p
                then snd (add_register_tx c bid (row_id shift) RegisterTxType_closing_count PaymentMethod_cash
                       (psh_actual_cash p) None None None (env_occurred_at op) user s)
                else s)
       in Inr (outcome (row_id shift) None [] ''register_shifts'' (Some (rs_branch_id shift)), s))))"

definition refresh_closed_shift_totals :: "register_shift \<Rightarrow> db \<Rightarrow> db" where
  "refresh_closed_shift_totals shift s =
     (if rs_status shift \<noteq> ShiftStatus_closed then s
      else let expected = calculate_expected_cash shift
                 (load_shift_transactions s (row_id shift) (business_id shift))
           in s\<lparr>shifts := update_where (\<lambda>sh. row_id sh = row_id shift)
                (\<lambda>sh. sh\<lparr>rs_expected_cash := Some expected,
                        rs_cash_difference := (case rs_actual_cash sh of Some a \<Rightarrow> Some (a - expected)
                          | None \<Rightarrow> rs_cash_difference sh)\<rparr>) (shifts s)\<rparr>)"

definition lock_shift :: "db \<Rightarrow> Ctx \<Rightarrow> uuid option \<Rightarrow> register_shift option res" where
  "lock_shift s cx shift_id =
     (case shift_id of None \<Rightarrow> Inr None | Some i \<Rightarrow> shift_by_id s i (cx_business_id cx))"

definition shift_covers :: "register_shift \<Rightarrow> datetime \<Rightarrow> bool" where
  "shift_covers shift moment \<longleftrightarrow> \<not> moment < rs_opened_at shift \<and>
     (case rs_closed_at shift of None \<Rightarrow> True | Some e \<Rightarrow> moment \<le> e)"

subsection \<open>Sales\<close>

definition flag :: "string \<Rightarrow> string list \<Rightarrow> string list" where
  "flag name flags = (if name \<notin> set flags then flags @ [name] else flags)"

definition flag_if :: "bool \<Rightarrow> string \<Rightarrow> string list \<Rightarrow> string list" where
  "flag_if b name flags = (if b then flag name flags else flags)"

definition known_sale :: "Ctx \<Rightarrow> SaleCreatePayload \<Rightarrow> db \<Rightarrow> op_exn + sale option" where
  \<comment> \<open>the sale with this id or with this receipt number\<close>
  "known_sale cx p s =
     bind_res (lift (scalar_one_or_none (filter (\<lambda>r. row_id r = psc_id p) (sales s)))) (\<lambda>by_id.
     if (case by_id of Some r \<Rightarrow> business_id r \<noteq> cx_business_id cx | None \<Rightarrow> False)
     then reject ''id_conflict'' ''This sale id belongs to another business''
     else bind_res (lift (scalar_one_or_none (filter (\<lambda>r. business_id r = cx_business_id cx \<and>
            s_client_receipt_no r = Some (psc_client_receipt_no p)) (sales s)))) (\<lambda>other.
       Inr (case by_id of Some r \<Rightarrow> Some r | None \<Rightarrow> other)))"

definition same_sale :: "SaleCreatePayload \<Rightarrow> sale \<Rightarrow> bool" where
  "same_sale p r \<longleftrightarrow> row_id r = psc_id p \<and> s_client_receipt_no r = Some (psc_client_receipt_no p) \<and>
     s_branch_id r = psc_branch_id p"

definition check_products :: "Ctx \<Rightarrow> SaleCreatePayload \<Rightarrow> db \<Rightarrow> op_exn + unit" where
  "check_products cx p s =
     (let product_ids = remdups (map pyl_product_id (psc_lines p));
          missing = sort (filter (\<lambda>i. \<not> (\<exists>r\<in>set (products s). row_id r = i \<and> business_id r = cx_business_id cx))
            product_ids);
          variation_ids = List.map_filter pyl_variation_id (psc_lines p)
      in if missing \<noteq> []
         then rejects ''unknown_product'' ''Unknown product(s): {}'' (map AUuid missing) False ''rejected''
         else if \<exists>v\<in>set variation_ids. \<not> (\<exists>r\<in>set (variations s). row_id r = v \<and> business_id r = cx_business_id cx)
         then reject ''unknown_product'' ''Unknown product variation'' else Inr ())"

definition round_cents :: "decimal \<Rightarrow> decimal" where
  \<comment> \<open>\<open>value.quantize(Decimal("0.01"))\<close>\<close>
  "round_cents = quantize_even 2"

definition frozen_total :: "SaleLinePayload \<Rightarrow> decimal" where
  "frozen_total l = round_cents (pyl_qty l * pyl_unit_price l - pyl_discount_amount l + pyl_tax_amount l)"

definition as_request_line :: "SaleLinePayload \<Rightarrow> CreateSaleLineRequest" where
  \<comment> \<open>what \<open>resolve_line_tax_rates\<close> reads of a line\<close>
  "as_request_line l = \<lparr>li_product_id = pyl_product_id l, li_variation_id = pyl_variation_id l, li_qty = pyl_qty l,
     li_unit_price = pyl_unit_price l, li_discount_pct = pyl_discount_pct l,
     li_discount_amount = pyl_discount_amount l, li_tax_rate = Some (pyl_tax_rate l), li_notes = pyl_notes l,
     li_line_order = or_else (pyl_line_order l) 0, li_modifier_ids = []\<rparr>"

definition price_flags ::
  "Ctx \<Rightarrow> db \<Rightarrow> uuid option \<Rightarrow> SaleLinePayload \<times> decimal \<Rightarrow> string list \<Rightarrow> op_exn + string list" where
  "price_flags cx s price_list_id = (\<lambda>(l, server_rate) flags.
     (let expected = calculate_line_total (pyl_qty l) (pyl_unit_price l) (pyl_discount_pct l)
            (pyl_discount_amount l) server_rate;
          flags = flag_if (1 / 100 < \<bar>lc_tax_amount expected - pyl_tax_amount l\<bar> \<or> pyl_tax_rate l \<noteq> server_rate)
            ''tax_mismatch'' flags
      in bind_res (catch_http (get_product_price s (cx_business_id cx) (pyl_product_id l) (pyl_variation_id l)
             price_list_id) (\<lambda>_. Inr None)) (\<lambda>catalog.
           Inr (flag_if (case catalog of Some x \<Rightarrow> round_cents (pyl_unit_price l) \<noteq> round_cents x | None \<Rightarrow> False)
             ''price_mismatch'' flags))))"

definition credit_flag :: "Ctx \<Rightarrow> db \<Rightarrow> customer option \<Rightarrow> decimal \<Rightarrow> string list \<Rightarrow> op_exn + string list" where
  "credit_flag cx s customer credit_amount flags =
     (case customer of None \<Rightarrow> Inr flags
      | Some cu \<Rightarrow>
          if 0 < credit_amount \<and> 0 < cu_credit_limit cu
          then bind_res (lift (get_customer_balance s (row_id cu) (cx_business_id cx))) (\<lambda>balance.
            let projected = balance - credit_amount
            in Inr (flag_if (projected < 0 \<and> cu_credit_limit cu < \<bar>projected\<bar>) ''credit_limit_exceeded'' flags))
          else Inr flags)"

definition stock_flag ::
  "sync_settings \<Rightarrow> Ctx \<Rightarrow> db \<Rightarrow> uuid \<Rightarrow> item \<times> decimal \<Rightarrow> string list \<Rightarrow> op_exn + string list" where
  "stock_flag cfg cx s branch_id = (\<lambda>((product_id, variation_id), qty) flags.
     if get_stock_balance s (cx_business_id cx) branch_id product_id variation_id < qty
     then if \<not> cfg_allow_negative_stock_on_sync cfg
          then rejects ''insufficient_stock'' ''Insufficient stock for a replayed sale'' [] True ''rejected''
          else Inr (flag ''oversold'' flags)
     else Inr flags)"

definition payload_item :: "SaleLinePayload \<Rightarrow> item" where
  "payload_item l = (pyl_product_id l, pyl_variation_id l)"

type_synonym allocated = "SaleLinePayload \<times> decimal \<times> FifoLayerConsumption list \<times> decimal"

definition allocate_payload ::
  "Ctx \<Rightarrow> uuid \<Rightarrow> SaleLinePayload \<Rightarrow> allocated list \<times> string list \<times> db \<Rightarrow> allocated list \<times> string list \<times> db" where
  "allocate_payload cx branch_id l = (\<lambda>(snapshots, flags, s).
     (let ((cost, consumptions, short), s) = allocate_sale_line_fifo (cx_clock cx) (cx_business_id cx) branch_id
            (pyl_product_id l) (pyl_variation_id l) (pyl_qty l) s
      in (snapshots @ [(l, cost, consumptions, short)], flag_if (0 < short) ''cost_estimated'' flags, s)))"
definition add_pushed_line ::
  "Ctx \<Rightarrow> uuid \<Rightarrow> nat \<times> allocated \<Rightarrow> (uuid list \<times> db) \<Rightarrow> op_exn + uuid list \<times> db" where
  \<comment> \<open>the ids of the lines written so far, in order; an id that is taken breaks the primary key\<close>
  "add_pushed_line cx sale_id = (\<lambda>(index, l, cost, consumptions, short) (ids, s).
     (let (i, s) = (case pyl_id l of Some i \<Rightarrow> (i, s) | None \<Rightarrow> fresh_uuid s);
          sale_line = new_row i (cx_business_id cx) (Some (cx_user_id cx)) (now (cx_clock cx))
            \<lparr>sln_sale_id = sale_id, sln_product_id = pyl_product_id l, sln_variation_id = pyl_variation_id l,
             sln_qty = pyl_qty l, sln_unit_price = pyl_unit_price l, sln_discount_pct = pyl_discount_pct l,
             sln_discount_amount = pyl_discount_amount l, sln_tax_rate = pyl_tax_rate l,
             sln_tax_amount = pyl_tax_amount l, sln_cost_per_unit = cost, sln_cost_estimated = (0 < short),
             sln_notes = pyl_notes l, sln_line_order = or_else (pyl_line_order l) (int index)\<rparr>
      in if \<exists>r\<in>set (sale_lines s). row_id r = i then Inl Conflicts
         else Inr (ids @ [i], s\<lparr>sale_lines := sale_lines s @ [sale_line]\<rparr>)))"

definition add_pushed_payment ::
  "Ctx \<Rightarrow> uuid \<Rightarrow> register_shift option \<Rightarrow> datetime \<Rightarrow> SalePaymentPayload \<Rightarrow> db \<Rightarrow> db" where
  "add_pushed_payment cx sale_id usable_shift sold_at pay s =
     (let bid = cx_business_id cx; user = cx_user_id cx; c = cx_clock cx;
          paid_at = or_else (pyp_paid_at pay) sold_at;
          (i, s) = fresh_uuid s;
          payment = new_row i bid (Some user) (now c)
            \<lparr>sp_sale_id = sale_id, sp_payment_method = pyp_payment_method pay, sp_amount = pyp_amount pay,
             sp_tendered_amount = Some (or_else (pyp_tendered_amount pay) (pyp_amount pay + pyp_change_given pay)),
             sp_change_given = pyp_change_given pay, sp_status = PaymentStatus_completed,
             sp_reference_no = pyp_reference_no pay, sp_paid_at = paid_at\<rparr>;
          s = s\<lparr>sale_payments := sale_payments s @ [payment]\<rparr>
      in case usable_shift of None \<Rightarrow> s
         | Some sh \<Rightarrow> snd (add_register_tx c bid (row_id sh) RegisterTxType_sale (pyp_payment_method pay)
             (pyp_amount pay) (Some ReferenceType_sale) (Some sale_id) None paid_at user s))"

definition issue_pushed_line :: "Ctx \<Rightarrow> uuid \<Rightarrow> datetime \<Rightarrow> uuid \<times> allocated \<Rightarrow> db \<Rightarrow> db" where
  "issue_pushed_line cx branch_id sold_at = (\<lambda>(line_id, l, cost, consumptions, short) s.
     create_sale_line_stock_movements (cx_clock cx) (cx_business_id cx) branch_id (pyl_product_id l)
       (pyl_variation_id l) line_id consumptions (cx_user_id cx) sold_at s)"

definition charge_pushed_sale :: "Ctx \<Rightarrow> uuid \<Rightarrow> customer option \<Rightarrow> decimal \<Rightarrow> datetime \<Rightarrow> db \<Rightarrow> db" where
  "charge_pushed_sale cx sale_id customer credit_amount sold_at s =
     (case customer of None \<Rightarrow> s
      | Some cu \<Rightarrow>
          if 0 < credit_amount
          then let (i, s) = fresh_uuid s;
                   entry = new_row i (cx_business_id cx) (Some (cx_user_id cx)) (now (cx_clock cx))
                     \<lparr>cl_customer_id = row_id cu, cl_entry_type = LedgerEntryType_sale, cl_amount = - credit_amount,
                      cl_reference_type = Some ReferenceType_sale, cl_reference_id = Some sale_id,
                      cl_entry_at = sold_at, cl_notes = None\<rparr>
               in s\<lparr>customer_ledgers := customer_ledgers s @ [entry]\<rparr>
          else s)"

definition comma_separated :: "string list \<Rightarrow> string" where
  "comma_separated xs = concat (case xs of [] \<Rightarrow> [] | x # ys \<Rightarrow> x # map ((@) '', '') ys)"

definition report_flags :: "Ctx \<Rightarrow> SaleCreatePayload \<Rightarrow> string \<Rightarrow> string list \<Rightarrow> db \<Rightarrow> db" where
  "report_flags cx p official_number flags s =
     (if flags = [] then s
      else let s = create_notification (cx_clock cx) (cx_business_id cx) NotificationType_sync_conflict
             NotificationChannel_in_app
             (''Offline sale {} needs review'', [AStr official_number])
             (Some (''Receipt {} from device {}: {}'',
                [AStr (psc_client_receipt_no p), AStr (cx_device_id cx), AStr (comma_separated flags)]))
             [(''sale_id'', JUuid (psc_id p)), (''sale_number'', JStr official_number),
              (''client_receipt_no'', JStr (psc_client_receipt_no p)), (''device_id'', JStr (cx_device_id cx)),
              (''flags'', JList (map JStr flags))]
             None (Some (psc_branch_id p)) (Some (cx_user_id cx)) s
           in log_device_audit (cx_business_id cx) (Some (cx_user_id cx)) (Some (psc_branch_id p)) AuditAction_sync
             ''sales'' (psc_id p)
             (Some [(''event'', JStr ''sync_sale_flagged''), (''flags'', JList (map JStr flags)),
                (''sale_number'', JStr official_number), (''client_receipt_no'', JStr (psc_client_receipt_no p))])
             (cx_device_id cx) s)"

definition references_exist :: "SaleCreatePayload \<Rightarrow> db \<Rightarrow> bool" where
  \<comment> \<open>the foreign keys of a sale that the handler has not looked up itself\<close>
  "references_exist p s \<longleftrightarrow>
     (case psc_price_list_id p of None \<Rightarrow> True | Some i \<Rightarrow> \<exists>r\<in>set (price_lists s). row_id r = i) \<and>
     (case psc_discount_scheme_id p of None \<Rightarrow> True | Some i \<Rightarrow> \<exists>r\<in>set (discount_schemes s). row_id r = i)"

definition pushed_sale ::
  "Ctx \<Rightarrow> SaleCreatePayload \<Rightarrow> OpEnvelope \<Rightarrow> customer option \<Rightarrow> register_shift option \<Rightarrow> string \<Rightarrow>
     SaleStatusEnum \<Rightarrow> sale" where
  "pushed_sale cx p op customer usable_shift official_number st =
     new_row (psc_id p) (cx_business_id cx) (Some (cx_user_id cx)) (now (cx_clock cx))
       \<lparr>s_branch_id = psc_branch_id p, s_customer_id = map_option row_id customer,
        s_register_shift_id = map_option row_id usable_shift, s_price_list_id = psc_price_list_id p,
        s_sale_number = official_number, s_sale_type = psc_sale_type p, s_status = st,
        s_sold_at = env_occurred_at op, s_notes = psc_notes p, s_discount_scheme_id = psc_discount_scheme_id p,
        s_table_id = None, s_client_receipt_no = Some (psc_client_receipt_no p), s_sync_flags = [],
        s_is_offline = True, s_client_created_at = Some (env_client_created_at op),
        s_device_id = Some (cx_device_id cx), s_synced_at = Some (now (cx_clock cx))\<rparr>"

definition write_pushed_sale ::
  "Ctx \<Rightarrow> SaleCreatePayload \<Rightarrow> OpEnvelope \<Rightarrow> customer option \<Rightarrow> register_shift option \<Rightarrow> decimal \<Rightarrow>
     string list \<Rightarrow> db \<Rightarrow> op_exn + Outcome \<times> db" where
  \<comment> \<open>from the document number on\<close>
  "write_pushed_sale cx p op customer usable_shift credit_amount flags s =
     (let sold_at = env_occurred_at op;
          total_amount = sum_list (map frozen_total (psc_lines p));
          total_applied = sum_list (map pyp_amount (psc_payments p));
          (official_number, s) = generate_document_number (cx_clock cx) (cx_business_id cx) ''INV'' s;
          (snapshots, flags, s) = fold (allocate_payload cx (psc_branch_id p)) (psc_lines p) ([], flags, s);
          sale = pushed_sale cx p op customer usable_shift official_number
            (determine_sale_status total_amount total_applied)
      in if \<not> references_exist p s then Inl Conflicts
      else bind_res (fold_res (add_pushed_line cx (psc_id p)) (enumerate 0 snapshots)
             ([], s\<lparr>sales := sales s @ [sale]\<rparr>)) (\<lambda>(line_ids, s).
        let s = fold (add_pushed_payment cx (psc_id p) usable_shift sold_at) (psc_payments p) s;
            s = fold (issue_pushed_line cx (psc_branch_id p) sold_at) (zip line_ids snapshots) s;
            s = charge_pushed_sale cx (psc_id p) customer credit_amount sold_at s;
            s = (case usable_shift of None \<Rightarrow> s | Some sh \<Rightarrow> refresh_closed_shift_totals sh s);
            s = s\<lparr>sales := update_where (\<lambda>r. row_id r = psc_id p) (\<lambda>r. r\<lparr>s_sync_flags := flags\<rparr>) (sales s)\<rparr>;
            s = report_flags cx p official_number flags s
        in Inr (outcome (psc_id p) (Some official_number) flags ''sales'' (Some (psc_branch_id p)), s)))"

definition shift_flags ::
  "Ctx \<Rightarrow> SaleCreatePayload \<Rightarrow> datetime \<Rightarrow> register_shift option \<Rightarrow> string list \<Rightarrow>
     string list \<times> register_shift option" where
  \<comment> \<open>the flags, and the shift whose drawer the money may go to\<close>
  "shift_flags cx p sold_at shift flags =
     (case shift of
        None \<Rightarrow> (flag ''shift_mismatch'' flags, None)
      | Some sh \<Rightarrow>
          (flag_if (rs_opened_by sh \<noteq> cx_user_id cx \<or> rs_branch_id sh \<noteq> psc_branch_id p \<or> \<not> shift_covers sh sold_at)
             ''shift_mismatch'' flags,
           if rs_opened_by sh = cx_user_id cx \<and> rs_branch_id sh = psc_branch_id p then Some sh else None))"

definition h_sale_create ::
  "sync_settings \<Rightarrow> Ctx \<Rightarrow> SaleCreatePayload \<Rightarrow> OpEnvelope \<Rightarrow> db \<Rightarrow> op_exn + Outcome \<times> db" where
  "h_sale_create cfg cx p op s =
     (let bid = cx_business_id cx in
     bind_res (known_sale cx p s) (\<lambda>existing. case existing of
       Some r \<Rightarrow>
         if same_sale p r
         then Inr (\<lparr>oc_server_id = Some (row_id r), oc_official_number = Some (s_sale_number r),
                oc_flags = s_sync_flags r, oc_table = ''sales'', oc_branch_id = Some (s_branch_id r),
                oc_already_applied = True\<rparr>, s)
         else rejects ''duplicate_receipt'' ''Receipt {} was already synced with different content''
           [AStr (psc_client_receipt_no p)] False ''rejected''
     | None \<Rightarrow>
     bind_res (require_branch cx (psc_branch_id p)) (\<lambda>_.
     bind_res (catch_http (verify_branch s (psc_branch_id p) bid)
         (\<lambda>_. reject ''unknown_branch'' ''Branch not found'')) (\<lambda>_.
     bind_res (check_products cx p s) (\<lambda>_.
     bind_res (lift (lock_shift s cx (psc_register_shift_id p))) (\<lambda>shift.
       let flags = flag_if (lapsed cx) ''subscription_expired'' [];
           (flags, usable_shift) = shift_flags cx p (env_occurred_at op) shift flags in
     bind_res (case psc_customer_id p of None \<Rightarrow> Inr None
         | Some i \<Rightarrow> bind_res (catch_http (lock_customer s i bid)
             (\<lambda>_. rejects ''unknown_customer'' ''Customer not found (has its customer.create been synced?)''
                     [] True ''rejected'')) (\<lambda>cu. Inr (Some cu))) (\<lambda>customer.
       let credit_amount = sum_where pyp_amount (\<lambda>q. pyp_payment_method q = PaymentMethod_credit) (psc_payments p);
           server_rates = resolve_line_tax_rates s bid (map as_request_line (psc_lines p)) {} in
     if 0 < credit_amount \<and> customer = None
     then reject ''malformed_payload'' ''customer_id is required for credit payments''
     else
     bind_res (fold_res (price_flags cx s (psc_price_list_id p)) (zip (psc_lines p) server_rates) flags) (\<lambda>flags.
     bind_res (credit_flag cx s customer credit_amount flags) (\<lambda>flags.
     bind_res (fold_res (stock_flag cfg cx s (psc_branch_id p))
         (demand_of (map (\<lambda>l. (payload_item l, pyl_qty l)) (psc_lines p))) flags) (\<lambda>flags.
       write_pushed_sale cx p op customer usable_shift credit_amount flags s))))))))))"

subsection \<open>Voids, payments, expenses and returns\<close>

definition h_sale_void :: "Ctx \<Rightarrow> SaleVoidPayload \<Rightarrow> OpEnvelope \<Rightarrow> db \<Rightarrow> op_exn + Outcome \<times> db" where
  "h_sale_void cx p op s =
     bind_res (lift (scalar_one_or_none (filter (\<lambda>r. row_id r = psv_sale_id p \<and> business_id r = cx_business_id cx \<and>
         live r) (sales s)))) (\<lambda>found. case found of
       None \<Rightarrow> rejects ''sale_not_synced'' ''Sale has not been synced yet'' [] True ''rejected''
     | Some sl \<Rightarrow>
     bind_res (require_branch cx (s_branch_id sl)) (\<lambda>_.
     bind_res (catch_http (void_sale (cx_clock cx) (psv_sale_id p) (cx_business_id cx) (cx_user_id cx) s)
         (\<lambda>e. rejects ''sale_not_voidable'' (detail e) (detail_args e) False ''conflict'')) (\<lambda>s.
       Inr (outcome (psv_sale_id p) (Some (s_sale_number sl)) [] ''sales'' (Some (s_branch_id sl)), s))))"

definition payment_received_notes :: "CustomerPaymentPayload \<Rightarrow> string" where
  "payment_received_notes p = join '' | ''
     ([''Payment received via '' @ PaymentMethodEnum_value (pcp_payment_method p)] @
      (case nonempty (pcp_reference_no p) of Some r \<Rightarrow> [''Ref: '' @ r] | None \<Rightarrow> []) @
      (case nonempty (pcp_notes p) of Some n \<Rightarrow> [n] | None \<Rightarrow> []))"

definition h_customer_payment ::
  "Ctx \<Rightarrow> CustomerPaymentPayload \<Rightarrow> OpEnvelope \<Rightarrow> db \<Rightarrow> op_exn + Outcome \<times> db" where
  "h_customer_payment cx p op s =
     (let bid = cx_business_id cx; user = cx_user_id cx; c = cx_clock cx in
     bind_res (catch_http (get_customer_by_id s (pcp_customer_id p) bid)
         (\<lambda>_. rejects ''unknown_customer'' ''Customer not found (has its customer.create been synced?)''
                 [] True ''rejected'')) (\<lambda>_.
       let (entry_id, s) = (case pcp_id p of Some i \<Rightarrow> (i, s) | None \<Rightarrow> fresh_uuid s) in
     if \<exists>r\<in>set (customer_ledgers s). row_id r = entry_id
     then rejects ''id_exists'' ''A ledger entry with this id already exists'' [] False ''conflict''
     else
       let flags = (if lapsed cx then [''subscription_expired''] else []);
           note = payment_received_notes p;
           entry = new_row entry_id bid (Some user) (now c)
             \<lparr>cl_customer_id = pcp_customer_id p, cl_entry_type = LedgerEntryType_payment, cl_amount = pcp_amount p,
              cl_reference_type = Some ReferenceType_manual, cl_reference_id = Some (pcp_customer_id p),
              cl_entry_at = env_occurred_at op, cl_notes = Some note\<rparr>;
           s = s\<lparr>customer_ledgers := customer_ledgers s @ [entry]\<rparr>;
           done_with = (\<lambda>flags s. Inr (outcome entry_id None flags ''customer_ledger'' None, s))
       in if pcp_payment_method p = PaymentMethod_cash \<and> pcp_register_shift_id p \<noteq> None
          then bind_res (lift (lock_shift s cx (pcp_register_shift_id p))) (\<lambda>shift.
            case shift of None \<Rightarrow> done_with (flags @ [''shift_mismatch'']) s
            | Some sh \<Rightarrow>
                if rs_opened_by sh \<noteq> user then done_with (flags @ [''shift_mismatch'']) s
                else done_with flags (refresh_closed_shift_totals sh
                  (snd (add_register_tx c bid (row_id sh) RegisterTxType_cash_in PaymentMethod_cash (pcp_amount p)
                     (Some ReferenceType_manual) (Some entry_id) (Some note) (env_occurred_at op) user s))))
          else done_with flags s))"

definition expense_request :: "ExpenseCreatePayload \<Rightarrow> datetime \<Rightarrow> CreateExpenseRequest" where
  "expense_request p occurred_at = \<lparr>cer_branch_id = pex_branch_id p,
     cer_expense_category_id = pex_expense_category_id p, cer_supplier_id = pex_supplier_id p,
     cer_description = pex_description p, cer_expense_date = pex_expense_date p, cer_amount = pex_amount p,
     cer_tax_amount = pex_tax_amount p,
     cer_payments = map (\<lambda>q. \<lparr>cep_payment_method = pep_payment_method q, cep_amount = pep_amount q,
       cep_reference_no = pep_reference_no q,
       cep_paid_at = Some (or_else (pep_paid_at q) occurred_at)\<rparr>) (pex_payments p)\<rparr>"

definition h_expense_create ::
  "sync_codec \<Rightarrow> Ctx \<Rightarrow> ExpenseCreatePayload \<Rightarrow> OpEnvelope \<Rightarrow> db \<Rightarrow> op_exn + Outcome \<times> db" where
  "h_expense_create codec cx p op s =
     bind_res (require_branch cx (pex_branch_id p)) (\<lambda>_.
       let data = expense_request p (env_occurred_at op) in
     if \<not> valid_expense data then reject ''malformed_payload'' (sc_expense_invalid codec data)
     else bind_res (catch_http (create_expense (cx_clock cx) (cx_business_id cx) data (cx_user_id cx) s)
         (\<lambda>e. rejects ''invalid_reference'' (detail e) (detail_args e) False ''rejected'')) (\<lambda>(expense, s).
       Inr (outcome (row_id expense) (Some (ex_expense_number expense)) [] ''expenses'' (Some (pex_branch_id p)), s)))"

definition return_request :: "ReturnCreatePayload \<Rightarrow> datetime \<Rightarrow> CreateSaleReturnRequest" where
  "return_request p occurred_at = \<lparr>csr_branch_id = prc_branch_id p, csr_register_shift_id = prc_register_shift_id p,
     csr_sale_id = prc_sale_id p, csr_customer_id = prc_customer_id p, csr_reason = prc_reason p,
     csr_returned_at = Some occurred_at,
     csr_lines = map (\<lambda>l. \<lparr>crl_product_id = pyr_product_id l, crl_variation_id = pyr_variation_id l,
       crl_sale_line_id = pyr_sale_line_id l, crl_qty = pyr_qty l, crl_unit_price = pyr_unit_price l,
       crl_tax_amount = pyr_tax_amount l\<rparr>) (prc_lines p),
     csr_refund_payments = map (\<lambda>q. \<lparr>crp_payment_method = pyf_payment_method q, crp_amount = pyf_amount q\<rparr>)
       (prc_refund_payments p)\<rparr>"

definition h_return_create ::
  "sync_codec \<Rightarrow> Ctx \<Rightarrow> ReturnCreatePayload \<Rightarrow> OpEnvelope \<Rightarrow> db \<Rightarrow> op_exn + Outcome \<times> db" where
  "h_return_create codec cx p op s =
     bind_res (require_branch cx (prc_branch_id p)) (\<lambda>_.
     bind_res (case prc_sale_id p of None \<Rightarrow> Inr True
         | Some i \<Rightarrow> bind_res (lift (scalar_one_or_none (filter (\<lambda>r. row_id r = i \<and>
             business_id r = cx_business_id cx) (sales s)))) (\<lambda>found. Inr (found \<noteq> None))) (\<lambda>known.
     if \<not> known
     then rejects ''sale_not_synced'' ''Original sale has not been synced yet'' [] True ''rejected''
     else
       let data = return_request p (env_occurred_at op) in
     if \<not> valid_return_request data then reject ''malformed_payload'' (sc_return_invalid codec data)
     else bind_res (catch_http (create_sale_return (cx_clock cx) (cx_business_id cx) data (cx_user_id cx) s)
         (\<lambda>e. if sublist ''no open shift'' (detail e)
              then rejects ''no_open_shift'' ''Returns need the user's open shift at sync time'' [] True ''rejected''
              else rejects ''return_rejected'' (detail e) (detail_args e) False ''conflict'')) (\<lambda>(r, s).
       Inr (outcome (row_id r) (Some (sr_return_number r)) [] ''sale_returns'' (Some (prc_branch_id p)), s))))"
fun payload_fits :: "string \<Rightarrow> op_payload \<Rightarrow> bool" where
  \<comment> \<open>the payload class that \<open>HANDLERS\<close> names for a type\<close>
  "payload_fits t (Customer_create p) \<longleftrightarrow> t = ''customer.create''"
| "payload_fits t (Sale_create p) \<longleftrightarrow> t = ''sale.create''"
| "payload_fits t (Sale_void p) \<longleftrightarrow> t = ''sale.void''"
| "payload_fits t (Customer_payment p) \<longleftrightarrow> t = ''customer.payment''"
| "payload_fits t (Expense_create p) \<longleftrightarrow> t = ''expense.create''"
| "payload_fits t (Shift_open p) \<longleftrightarrow> t = ''shift.open''"
| "payload_fits t (Shift_close p) \<longleftrightarrow> t = ''shift.close''"
| "payload_fits t (Return_create p) \<longleftrightarrow> t = ''return.create''"

fun handle :: "sync_settings \<Rightarrow> sync_codec \<Rightarrow> Ctx \<Rightarrow> op_payload \<Rightarrow> OpEnvelope \<Rightarrow> db \<Rightarrow> op_exn + Outcome \<times> db" where
  "handle cfg codec cx (Customer_create p) op s = h_customer_create cx p op s"
| "handle cfg codec cx (Sale_create p) op s = h_sale_create cfg cx p op s"
| "handle cfg codec cx (Sale_void p) op s = h_sale_void cx p op s"
| "handle cfg codec cx (Customer_payment p) op s = h_customer_payment cx p op s"
| "handle cfg codec cx (Expense_create p) op s = h_expense_create codec cx p op s"
| "handle cfg codec cx (Shift_open p) op s = h_shift_open cx p op s"
| "handle cfg codec cx (Shift_close p) op s = h_shift_close cx p op s"
| "handle cfg codec cx (Return_create p) op s = h_return_create codec cx p op s"

section \<open>One operation\<close>

definition LAPSED_ALLOWED :: "string set" where
  "LAPSED_ALLOWED = {''sale.create'', ''customer.payment'', ''shift.close''}"

definition OP_PERMISSIONS :: "(string \<times> string) list" where
  "OP_PERMISSIONS = [(''customer.create'', ''customers.create''), (''sale.create'', ''sales.create''),
     (''sale.void'', ''sales.void''), (''customer.payment'', ''customers.update''),
     (''expense.create'', ''expenses.create''), (''shift.open'', ''shifts.open''),
     (''shift.close'', ''shifts.close''), (''return.create'', ''sales.returns.create'')]"

definition FUTURE_SKEW :: int where
  "FUTURE_SKEW = 5 * 60 * 1000000"

definition gate :: "sync_settings \<Rightarrow> Ctx \<Rightarrow> OpEnvelope \<Rightarrow> op_exn + unit" where
  "gate cfg cx op =
     (let state = cx_state cx; t = now (cx_clock cx) in
     if st_status state = GRACE \<and> env_type op \<notin> LAPSED_ALLOWED
     then rejects ''subscription_grace_readonly'' ''Subscription is in its read-only grace period: only sales, customer payments and shift closes are accepted'' [] True ''rejected''
     else if lapsed cx \<and> env_type op \<notin> LAPSED_ALLOWED
     then rejects (or_else (blocked_code state) ''subscription_expired'') ''Subscription is not active: only sales, customer payments and shift closes are accepted'' [] True ''rejected''
     else if env_occurred_at op < t - int (cfg_max_offline_days cfg) * day_us
     then rejects ''occurred_too_old'' ''occurred_at is more than {} days in the past''
       [ADec (of_nat (cfg_max_offline_days cfg))] False ''rejected''
     else if t + FUTURE_SKEW < env_occurred_at op
     then reject ''occurred_in_future'' ''occurred_at is in the future beyond the allowed clock skew''
     else case map_of OP_PERMISSIONS (env_type op) of
       None \<Rightarrow> Inl (Raised (PyError ''KeyError''))
     | Some required \<Rightarrow>
         if required \<notin> cx_permissions cx
         then rejects ''permission_denied'' ''Permission required: {}'' [AStr required] False ''rejected''
         else Inr ())"

definition read_payload :: "sync_codec \<Rightarrow> OpEnvelope \<Rightarrow> op_exn + op_payload" where
  "read_payload codec op =
     (case sc_payload codec (env_type op) (env_payload op) of
        Inl message \<Rightarrow> reject ''malformed_payload'' message
      | Inr p \<Rightarrow> if valid_payload p then Inr p else reject ''malformed_payload'' (sc_invalid codec p))"

definition failed :: "uuid option \<Rightarrow> string \<Rightarrow> string \<times> fmt_arg list \<Rightarrow> bool \<Rightarrow> op_result" where
  \<comment> \<open>\<open>_result(op_id, "rejected", error=_error(code, message, retryable))\<close>\<close>
  "failed op_id code message retryable = \<lparr>or_op_id = op_id, or_status = ''rejected'', or_server_id = None,
     or_official_number = None, or_flags = [],
     or_error = Some \<lparr>oe_code = code, oe_message = message, oe_retryable = retryable\<rparr>,
     or_original_status = None\<rparr>"

definition store_op ::
  "sync_codec \<Rightarrow> Ctx \<Rightarrow> OpEnvelope \<Rightarrow> string \<Rightarrow> op_result \<Rightarrow> db \<Rightarrow> db" where
  "store_op codec cx op status result s =
     (let (i, s) = fresh_uuid s
      in s\<lparr>sync_ops := sync_ops s @ [\<lparr>so_id = i, so_business_id = cx_business_id cx, so_op_id = env_op_id op,
            so_device_id = cx_device_id cx, so_batch_id = Some (cx_batch_id cx), so_user_id = Some (cx_user_id cx),
            so_op_type = env_type op, so_status = status,
            so_payload_hash = sc_hash codec (env_type op) (env_payload op) (env_occurred_at op),
            so_result = result, so_client_created_at = Some (env_client_created_at op),
            so_occurred_at = Some (env_occurred_at op), so_received_at = now (cx_clock cx)\<rparr>]\<rparr>)"

definition finish_rejected :: "sync_codec \<Rightarrow> Ctx \<Rightarrow> OpEnvelope \<Rightarrow> OpReject \<Rightarrow> db \<Rightarrow> op_result \<times> db" where
  "finish_rejected codec cx op r s =
     (let result = (failed (Some (env_op_id op)) (rj_code r) (rj_message r) (rj_retryable r))\<lparr>or_status := rj_status r\<rparr>
      in (result, if \<not> rj_retryable r then store_op codec cx op (rj_status r) result s else s))"

definition map_http :: "http_error \<Rightarrow> OpReject" where
  "map_http e = \<lparr>rj_code = (if status_code e = 403 then ''permission_denied''
       else if status_code e = 404 then ''not_found'' else ''invalid_request''),
     rj_message = (detail e, detail_args e), rj_retryable = False, rj_status = ''rejected''\<rparr>"

definition applied_audit :: "Ctx \<Rightarrow> OpEnvelope \<Rightarrow> Outcome \<Rightarrow> string list \<Rightarrow> db \<Rightarrow> db" where
  "applied_audit cx op oc flags s =
     log_device_audit (cx_business_id cx) (Some (cx_user_id cx)) (oc_branch_id oc) AuditAction_sync (oc_table oc)
       (or_else (oc_server_id oc) (env_op_id op))
       (Some [(''event'', JStr ''sync_op_applied''), (''op_type'', JStr (env_type op)),
          (''op_id'', JUuid (env_op_id op)), (''batch_id'', JStr (cx_batch_id cx)),
          (''occurred_at'', JNum (of_int (env_occurred_at op))),
          (''official_number'', case oc_official_number oc of Some n \<Rightarrow> JStr n | None \<Rightarrow> JNull),
          (''flags'', JList (map JStr flags))])
       (cx_device_id cx) s"

definition finish_applied :: "sync_codec \<Rightarrow> Ctx \<Rightarrow> OpEnvelope \<Rightarrow> Outcome \<Rightarrow> db \<Rightarrow> op_result \<times> db" where
  "finish_applied codec cx op oc s =
     (let flags = (if lapsed cx \<and> ''subscription_expired'' \<notin> set (oc_flags oc)
            then oc_flags oc @ [''subscription_expired''] else oc_flags oc);
          result = \<lparr>or_op_id = Some (env_op_id op),
            or_status = (if oc_already_applied oc then ''duplicate'' else ''applied''),
            or_server_id = oc_server_id oc, or_official_number = oc_official_number oc, or_flags = flags,
            or_error = None, or_original_status = (if oc_already_applied oc then Some ''applied'' else None)\<rparr>;
          s = store_op codec cx op ''applied'' (result\<lparr>or_status := ''applied'', or_original_status := None\<rparr>) s
      in (result, if oc_already_applied oc then s else applied_audit cx op oc flags s))"

definition as_duplicate :: "op_result \<Rightarrow> op_result" where
  "as_duplicate r = r\<lparr>or_status := ''duplicate'', or_original_status := Some ''applied''\<rparr>"

definition replay_stored :: "sync_codec \<Rightarrow> OpEnvelope \<Rightarrow> sync_op \<Rightarrow> op_result" where
  "replay_stored codec op stored =
     (if so_payload_hash stored \<noteq> sc_hash codec (env_type op) (env_payload op) (env_occurred_at op)
      then failed (Some (env_op_id op)) ''idempotency_key_reused''
        (''op_id was already used for a different operation'', []) False
      else if so_status stored = ''applied'' then as_duplicate (so_result stored)
      else so_result stored)"

definition apply_op ::
  "sync_settings \<Rightarrow> sync_codec \<Rightarrow> Ctx \<Rightarrow> OpEnvelope \<Rightarrow> db \<Rightarrow> op_exn + Outcome \<times> db" where
  "apply_op cfg codec cx op s =
     bind_res (gate cfg cx op) (\<lambda>_. bind_res (read_payload codec op) (\<lambda>p. handle cfg codec cx p op s))"

definition internal_error :: "OpEnvelope \<Rightarrow> op_result" where
  "internal_error op = failed (Some (env_op_id op)) ''internal_error'' (''Internal error'', []) True"

definition stored_op :: "db \<Rightarrow> uuid \<Rightarrow> uuid \<Rightarrow> sync_op option res" where
  "stored_op s bid op_id = scalar_one_or_none (filter (\<lambda>r. so_business_id r = bid \<and> so_op_id r = op_id) (sync_ops s))"

definition run_op :: "sync_settings \<Rightarrow> sync_codec \<Rightarrow> Ctx \<Rightarrow> OpEnvelope \<Rightarrow> db \<Rightarrow> op_result \<times> db" where
  \<comment> \<open>\<open>_run_op\<close> with \<open>_run_op_once\<close>: whatever is raised, the effects of the handler are rolled back\<close>
  "run_op cfg codec cx op s =
     (case stored_op s (cx_business_id cx) (env_op_id op) of
        Inl _ \<Rightarrow> (internal_error op, s)
      | Inr (Some stored) \<Rightarrow> (replay_stored codec op stored, s)
      | Inr None \<Rightarrow>
          (case apply_op cfg codec cx op s of
             Inr (oc, s') \<Rightarrow> finish_applied codec cx op oc s'
           | Inl (Rejected r) \<Rightarrow> finish_rejected codec cx op r s
           | Inl Conflicts \<Rightarrow> finish_rejected codec cx op
               \<lparr>rj_code = ''id_conflict'', rj_message = (''Conflicts with existing data'', []),
                rj_retryable = False, rj_status = ''conflict''\<rparr> s
           | Inl (Raised e) \<Rightarrow>
               (case e of HTTPException _ _ _ \<Rightarrow> finish_rejected codec cx op (map_http e) s
                | PyError _ \<Rightarrow> (internal_error op, s))))"

section \<open>A batch\<close>

definition HANDLERS :: "string set" where
  "HANDLERS = fst ` set OP_PERMISSIONS"

definition parse_op :: "sync_settings \<Rightarrow> sync_codec \<Rightarrow> json_object \<Rightarrow> op_result + OpEnvelope" where
  "parse_op cfg codec raw =
     (case sc_envelope codec raw of
        Inl message \<Rightarrow> Inl (failed (sc_op_id codec raw) ''malformed_op'' (message, []) False)
      | Inr op \<Rightarrow>
          if env_type op \<notin> HANDLERS
          then Inl (failed (Some (env_op_id op)) ''unsupported_op_type''
            (if prefix ''held'' (env_type op) \<or> prefix ''order.hold'' (env_type op)
             then (''Held orders are not synced'', [])
             else (''Unsupported op type {}'', [AStr (env_type op)])) False)
          else if cfg_max_payload_bytes cfg < sc_payload_size codec (env_payload op)
          then Inl (failed (Some (env_op_id op)) ''payload_too_large''
            (''payload exceeds {} bytes'', [ADec (of_nat (cfg_max_payload_bytes cfg))]) False)
          else Inr op)"

type_synonym finished = "(uuid \<times> op_result) list"

fun dependency_error :: "Ctx \<Rightarrow> finished \<Rightarrow> db \<Rightarrow> uuid list \<Rightarrow> op_error option" where
  "dependency_error cx batch s [] = None"
| "dependency_error cx batch s (dep # deps) =
     (case map_of batch dep of
        None \<Rightarrow>
          (case filter (\<lambda>r. so_business_id r = cx_business_id cx \<and> so_op_id r = dep) (sync_ops s) of
             [] \<Rightarrow> Some \<lparr>oe_code = ''dependency_missing'',
                 oe_message = (''Dependency {} has not been synced'', [AUuid dep]), oe_retryable = True\<rparr>
           | r # _ \<Rightarrow>
               if so_status r \<noteq> ''applied''
               then Some \<lparr>oe_code = ''dependency_failed'',
                   oe_message = (''Dependency {} was {}'', [AUuid dep, AStr (so_status r)]), oe_retryable = False\<rparr>
               else dependency_error cx batch s deps)
      | Some r \<Rightarrow>
          if or_status r \<in> {''applied'', ''duplicate''} then dependency_error cx batch s deps
          else Some \<lparr>oe_code = ''dependency_failed'',
             oe_message = (''Dependency {} failed: {}'',
               [AUuid dep, AStr (case or_error r of Some e \<Rightarrow> oe_code e | None \<Rightarrow> ''None'')]),
             oe_retryable = (case or_error r of Some e \<Rightarrow> oe_retryable e | None \<Rightarrow> False)\<rparr>)"

definition ready :: "uuid list \<Rightarrow> finished \<Rightarrow> OpEnvelope \<Rightarrow> bool" where
  "ready in_batch batch op \<longleftrightarrow>
     (\<forall>d\<in>set (env_depends_on op). d \<in> set in_batch \<and> d \<noteq> env_op_id op \<longrightarrow> d \<in> fst ` set batch)"

definition run_or_refuse ::
  "sync_settings \<Rightarrow> sync_codec \<Rightarrow> Ctx \<Rightarrow> finished \<Rightarrow> OpEnvelope \<Rightarrow> db \<Rightarrow> op_result \<times> db" where
  "run_or_refuse cfg codec cx batch op s =
     (case dependency_error cx batch s (env_depends_on op) of
        Some e \<Rightarrow> (failed (Some (env_op_id op)) (oe_code e) (oe_message e) (oe_retryable e), s)
      | None \<Rightarrow> run_op cfg codec cx op s)"

definition next_op ::
  "sync_settings \<Rightarrow> sync_codec \<Rightarrow> Ctx \<Rightarrow> uuid list \<Rightarrow> OpEnvelope list \<Rightarrow> finished \<Rightarrow> db \<Rightarrow>
     OpEnvelope \<times> op_result \<times> db" where
  \<comment> \<open>one turn of the loop: the first operation whose dependencies have finished, or, when there is
      none, the first one, which is refused\<close>
  "next_op cfg codec cx in_batch remaining batch s =
     (case find (ready in_batch batch) remaining of
        Some op \<Rightarrow> (op, run_or_refuse cfg codec cx batch op s)
      | None \<Rightarrow> (hd remaining, failed (Some (env_op_id (hd remaining))) ''dependency_cycle''
                  (''Circular depends_on'', []) False, s))"

fun run_batch ::
  "nat \<Rightarrow> sync_settings \<Rightarrow> sync_codec \<Rightarrow> Ctx \<Rightarrow> uuid list \<Rightarrow> OpEnvelope list \<Rightarrow> finished \<Rightarrow> db \<Rightarrow> finished \<times> db" where
  \<comment> \<open>\<open>while remaining\<close>, with as many turns as there are operations\<close>
  "run_batch 0 cfg codec cx in_batch remaining batch s = (batch, s)"
| "run_batch (Suc n) cfg codec cx in_batch remaining batch s =
     (if remaining = [] then (batch, s)
      else let (op, result, s) = next_op cfg codec cx in_batch remaining batch s
           in run_batch n cfg codec cx in_batch (remove1 op remaining) (batch @ [(env_op_id op, result)]) s)"

fun first_of_each :: "OpEnvelope list \<Rightarrow> uuid list \<Rightarrow> OpEnvelope list" where
  \<comment> \<open>an id that occurs again in the batch is not run again\<close>
  "first_of_each [] seen = []"
| "first_of_each (op # ops) seen =
     (if env_op_id op \<in> set seen then first_of_each ops seen
      else op # first_of_each ops (env_op_id op # seen))"

fun collect_results :: "(op_result + OpEnvelope) list \<Rightarrow> finished \<Rightarrow> uuid list \<Rightarrow> op_result list" where
  \<comment> \<open>the results in the order of the request\<close>
  "collect_results [] batch seen = []"
| "collect_results (Inl r # parsed) batch seen = r # collect_results parsed batch seen"
| "collect_results (Inr op # parsed) batch seen =
     (case map_of batch (env_op_id op) of
        None \<Rightarrow> collect_results parsed batch seen
      | Some r \<Rightarrow>
          (if env_op_id op \<in> set seen \<and> or_status r = ''applied'' then as_duplicate r else r) #
            collect_results parsed batch (env_op_id op # seen))"

definition push_context :: "sync_settings \<Rightarrow> clock \<Rightarrow> app_user \<Rightarrow> business \<Rightarrow> string set \<Rightarrow> PushRequest \<Rightarrow> db \<Rightarrow> Ctx" where
  "push_context cfg c u b keys rq s = \<lparr>cx_business_id = business_id u, cx_user_id = row_id u, cx_permissions = keys,
     cx_branches = allowed_branch_ids s u, cx_state = compute_state (cfg_grace_days cfg) b (now c),
     cx_device_id = pq_device_id rq, cx_batch_id = pq_batch_id rq, cx_clock = c\<rparr>"

definition process_push ::
  "sync_settings \<Rightarrow> sync_codec \<Rightarrow> clock \<Rightarrow> app_user \<Rightarrow> business \<Rightarrow> string set \<Rightarrow> PushRequest \<Rightarrow> db \<Rightarrow>
     op_result list \<times> db" where
  "process_push cfg codec c u b keys rq s =
     (let cx = push_context cfg c u b keys rq s;
          parsed = map (parse_op cfg codec) (pq_ops rq);
          ops = first_of_each (List.map_filter (\<lambda>p. case p of Inr op \<Rightarrow> Some op | Inl _ \<Rightarrow> None) parsed) [];
          (batch, s) = run_batch (length ops) cfg codec cx (map env_op_id ops) ops [] s
      in (collect_results parsed batch [], s))"

end
