(* ===== verification/Replay.thy ===== *)
theory Replay
  imports SyncPush
begin

text \<open>
  What the push service promises a till: every operation of a batch is answered, once and in its
  place; an operation whose outcome was stored is answered from the store and changes nothing, however
  often and whenever it is sent again; an operation runs only after the operations it depends on. The
  services the handlers call never touch the store of outcomes (\<open>keeps_store\<close>).
\<close>

section \<open>The services leave the store alone\<close>

named_theorems keeps_store \<open>steps that do not change the table of stored outcomes\<close>

lemma fold_keeps_store: "(\<And>x s. sync_ops (f x s) = sync_ops s) \<Longrightarrow> sync_ops (fold f xs s) = sync_ops s"
  by (induction xs arbitrary: s) simp_all

lemma fold_pair_keeps_store:
  "(\<And>x a s. sync_ops (snd (f x (a, s))) = sync_ops s) \<Longrightarrow> sync_ops (snd (fold f xs (a, s))) = sync_ops s"
proof (induction xs arbitrary: a s)
  case (Cons x xs)
  obtain b t where t: "f x (a, s) = (b, t)" by fastforce
  then show ?case using Cons.IH [OF Cons.prems, of b t] Cons.prems [of x a s] by simp
qed simp

lemma fresh_keeps_store [keeps_store]: "sync_ops (snd (fresh_uuid s)) = sync_ops s"
  by (simp add: fresh_uuid_def)

lemma number_keeps_store [keeps_store]: "sync_ops (snd (generate_document_number c bid p s)) = sync_ops s"
  by (simp add: generate_document_number_def fresh_uuid_def Let_def split: list.split)

lemma register_tx_keeps_store [keeps_store]:
  "sync_ops (snd (add_register_tx c bid sh ty pm a rt rid n t user s)) = sync_ops s"
  by (simp add: add_register_tx_def fresh_uuid_def Let_def)

lemma ledger_entry_keeps_store [keeps_store]:
  "sync_ops (snd (create_ledger_entry c bid cu ty a user rt rid n s)) = sync_ops s"
  by (simp add: create_ledger_entry_def fresh_uuid_def Let_def)

lemma movement_keeps_store [keeps_store]:
  "sync_ops (snd (create_stock_movement c bid b p v ty q cost rt rid user l x y z t sq s)) = sync_ops s"
  by (simp add: create_stock_movement_def fresh_uuid_def Let_def)

lemma layer_keeps_store [keeps_store]:
  "sync_ops (snd (create_fifo_layer c bid b p v q cost user src t x y s)) = sync_ops s"
  by (simp add: create_fifo_layer_def fresh_uuid_def Let_def)

lemma audit_keeps_store [keeps_store]:
  "sync_ops (log_audit bid u b a t r old new s) = sync_ops s"
  "sync_ops (log_device_audit bid u b a t r new d s) = sync_ops s"
  by (simp_all add: log_audit_def log_device_audit_def)

lemma notification_keeps_store [keeps_store]:
  "sync_ops (create_notification c bid ty ch ti bo pl u b user s) = sync_ops s"
  by (simp add: create_notification_def fresh_uuid_def Let_def)

lemma restore_keeps_store [keeps_store]:
  "sync_ops (restore_untraced c bid b p v q cost ty rt rid user t s) = sync_ops s"
  "sync_ops (restore_movement c bid b p v ty rt rid user t k s) = sync_ops s"
  "sync_ops (restore_fifo_layers c bid ks s) = sync_ops s"
  "sync_ops (restore_sale_line_inventory c bid b p v l q cost w ty rt rid user t s) = sync_ops s"
proof -
  show u: "sync_ops (restore_untraced c bid b p v q cost ty rt rid user t s) = sync_ops s" for q s
    by (simp add: restore_untraced_def Let_def case_prod_unfold keeps_store)
  show m: "sync_ops (restore_movement c bid b p v ty rt rid user t k s) = sync_ops s" for k s
    by (simp add: restore_movement_def keeps_store)
  show l: "sync_ops (restore_fifo_layers c bid ks s) = sync_ops s" for ks s
    unfolding restore_fifo_layers_def
    by (rule fold_keeps_store) (simp add: restore_step_def split: option.split)
  show "sync_ops (restore_sale_line_inventory c bid b p v l q cost w ty rt rid user t s) = sync_ops s"
    by (simp add: restore_sale_line_inventory_def Let_def u l fold_keeps_store m)
qed

lemma void_keeps_store:
  assumes "void_sale c i bid user s = Inr s'"
  shows "sync_ops s' = sync_ops s"
proof -
  have r: "sync_ops (restore_all_sale_line_inventory c sl bid user t s) = sync_ops s" for sl t s
    unfolding restore_all_sale_line_inventory_def
    by (rule fold_keeps_store) (simp add: restore_line_def keeps_store)
  have "sync_ops (snd (fold (reverse_payment c sl bid user t) ps (a, s))) = sync_ops s" for sl t ps a s
    by (rule fold_pair_keeps_store) (simp add: reverse_payment_def Let_def keeps_store split: option.split)
  then have "sync_ops (reverse_completed_sale_settlements c sl bid user t s) = sync_ops s" for sl t s
    by (simp add: reverse_completed_sale_settlements_def Let_def case_prod_unfold keeps_store split: option.split)
  then show ?thesis
    using assms by (auto simp: void_sale_def handler_simps Let_def log_sale_audit_def keeps_store set_sale_def r
        split: option.splits)
qed

lemma return_keeps_store:
  assumes "create_sale_return c bid data user s = Inr (r, s')"
  shows "sync_ops s' = sync_ops s"
proof -
  have item: "sync_ops (write_return_item c bid b user t i it s) = sync_ops s" for b t i it s
    by (simp add: write_return_item_def add_return_line_def restock_item_def fresh_uuid_def Let_def
        case_prod_unfold keeps_store split: option.split)
  have refund: "sync_ops (write_refund c bid user sh t i f s) = sync_ops s" for sh t i f s
    by (simp add: write_refund_def fresh_uuid_def Let_def keeps_store)
  obtain sh sid cu prepared cash credit where
    "write_return c bid data user sh sid cu prepared (cash, credit) s = (r, s')"
    using assms by (rule create_sale_return_Inr)
  then have "s' = snd (write_return c bid data user sh sid cu prepared (cash, credit) s)" by simp
  then show ?thesis
    by (simp add: write_return_def Let_def case_prod_unfold add_sale_return_def log_return_def credit_return_def
        keeps_store fold_keeps_store item refund split: option.split)
qed

lemma expense_keeps_store:
  assumes "create_expense c bid data user s = Inr (e, s')"
  shows "sync_ops s' = sync_ops s"
proof -
  have "sync_ops (pay_new_expense c bid i sh user p s) = sync_ops s" for i sh p s
    by (simp add: pay_new_expense_def expense_leaves_drawer_def write_expense_payment_def Let_def case_prod_unfold
        keeps_store split: option.split)
  moreover have "sync_ops (book_liability c bid i data user s) = sync_ops s" for i s
    by (simp add: book_liability_def create_supplier_ledger_entry_def Let_def case_prod_unfold keeps_store
        split: option.split)
  ultimately show ?thesis
    using assms by (auto simp: create_expense_def handler_simps Let_def case_prod_unfold keeps_store fold_keeps_store)
qed

section \<open>So do the handlers\<close>

lemma rejects_Inr [handler_simps]:
  "rejects a b x r st = Inr y \<longleftrightarrow> False" "reject a b = Inr y \<longleftrightarrow> False"
  by (simp_all add: rejects_def reject_def)

lemma lift_Inr [handler_simps]: "lift r = Inr x \<longleftrightarrow> r = Inr x"
  by (simp add: lift_def split: sum.split)

lemma catch_http_Inr: "catch_http r h = Inr x \<Longrightarrow> (\<And>e y. h e = Inr y \<longleftrightarrow> False) \<Longrightarrow> r = Inr x"
  by (auto simp: catch_http_def split: sum.splits http_error.splits)

lemma catch_rejects_Inr [handler_simps]:
  "catch_http r (\<lambda>e. rejects (f e) (g e) (h e) (k e) (l e)) = Inr x \<longleftrightarrow> r = Inr x"
  "catch_http r (\<lambda>e. reject (f e) (g e)) = Inr x \<longleftrightarrow> r = Inr x"
  "catch_http r (\<lambda>e. if b e then rejects (f e) (g e) (h e) (k e) (l e)
     else rejects (f' e) (g' e) (h' e) (k' e) (l' e)) = Inr x \<longleftrightarrow> r = Inr x"
  by (auto simp: catch_http_def rejects_def reject_def split: sum.splits http_error.splits if_splits)

lemma case_option_reject [handler_simps]:
  "(case m of None \<Rightarrow> rejects a b c d e | Some x \<Rightarrow> f x) = Inr y \<longleftrightarrow> (\<exists>x. m = Some x \<and> f x = Inr y)"
  by (cases m) (simp_all add: rejects_def)

lemma if_reject [handler_simps]:
  "(if b then rejects x y z u v else m) = Inr w \<longleftrightarrow> \<not> b \<and> m = Inr w"
  "(if b then reject x y else m) = Inr w \<longleftrightarrow> \<not> b \<and> m = Inr w"
  by (simp_all add: rejects_Inr)

lemma refresh_keeps_store [keeps_store]: "sync_ops (refresh_closed_shift_totals sh s) = sync_ops s"
  by (simp add: refresh_closed_shift_totals_def Let_def)

lemma shift_handlers_keep_store:
  "h_customer_create cx pc op s = Inr (oc, s') \<Longrightarrow> sync_ops s' = sync_ops s"
  "h_shift_open cx po op s = Inr (oc, s') \<Longrightarrow> sync_ops s' = sync_ops s"
  "h_shift_close cx pl op s = Inr (oc, s') \<Longrightarrow> sync_ops s' = sync_ops s"
  by (auto simp: h_customer_create_def h_shift_open_def h_shift_close_def handler_simps Let_def keeps_store
      split: if_splits)

lemma void_handler_keeps_store: "h_sale_void cx p op s = Inr (oc, s') \<Longrightarrow> sync_ops s' = sync_ops s"
  by (auto simp: h_sale_void_def handler_simps dest: void_keeps_store)

lemma expense_handler_keeps_store: "h_expense_create codec cx p op s = Inr (oc, s') \<Longrightarrow> sync_ops s' = sync_ops s"
  by (auto simp: h_expense_create_def handler_simps Let_def dest: expense_keeps_store)

lemma return_handler_keeps_store: "h_return_create codec cx p op s = Inr (oc, s') \<Longrightarrow> sync_ops s' = sync_ops s"
  by (auto simp: h_return_create_def handler_simps Let_def dest: return_keeps_store)

lemma payment_handler_keeps_store:
  assumes "h_customer_payment cx p op s = Inr (oc, s')"
  shows "sync_ops s' = sync_ops s"
proof -
  obtain i t where i: "(case pcp_id p of Some i \<Rightarrow> (i, s) | None \<Rightarrow> fresh_uuid s) = (i, t)" by fastforce
  then have "sync_ops t = sync_ops s" using fresh_keeps_store [of s] by (auto split: option.splits)
  then show ?thesis
    using assms
    by (auto simp: h_customer_payment_def handler_simps Let_def i keeps_store split: if_splits option.splits)
qed

lemma allocation_keeps_store:
  "sync_ops (snd (snd (fold (allocate_payload cx b) ls (xs, fs, s)))) = sync_ops s"
proof (induction ls arbitrary: xs fs s)
  case (Cons l ls)
  have "sync_ops (snd (allocate_sale_line_fifo c bid b pid v q s)) = sync_ops s" for c bid pid v q
    by (simp add: allocate_sale_line_fifo_def consume_fifo_layers_def Let_def case_prod_unfold)
  moreover obtain ys gs t where step: "allocate_payload cx b l (xs, fs, s) = (ys, gs, t)" by (metis prod_cases3)
  ultimately have "sync_ops t = sync_ops s"
    by (auto simp: allocate_payload_def Let_def case_prod_unfold)
  then show ?case using Cons.IH [of ys gs t] step by simp
qed simp

lemma lines_keep_store:
  assumes "fold_res (add_pushed_line cx i) xs (ids, s) = Inr (ids', s')"
  shows "sync_ops s' = sync_ops s"
proof -
  have "sync_ops (snd u) = sync_ops (snd t)" if "add_pushed_line cx i x t = Inr u" for x t u
    using that fresh_keeps_store [of "snd t"]
    by (auto simp: add_pushed_line_def Let_def case_prod_unfold handler_simps split: option.splits)
  then show ?thesis
    using fold_res_relation [OF assms, of "\<lambda>t u. sync_ops (snd u) = sync_ops (snd t)"] by auto
qed

lemma write_sale_keeps_store:
  assumes "write_pushed_sale cx p op cu sh a fs s = Inr (oc, s')"
  shows "sync_ops s' = sync_ops s"
proof -
  have pay: "sync_ops (add_pushed_payment cx i h t q s) = sync_ops s" for i h t q s
    by (simp add: add_pushed_payment_def fresh_uuid_def Let_def keeps_store split: option.split)
  have issue: "sync_ops (issue_pushed_line cx b t x s) = sync_ops s" for b t x s
    by (auto simp: issue_pushed_line_def create_sale_line_stock_movements_def case_prod_unfold slice_movement_def
        keeps_store intro!: fold_keeps_store)
  have charge: "sync_ops (charge_pushed_sale cx i cu a t s) = sync_ops s" for i t s
    by (simp add: charge_pushed_sale_def fresh_uuid_def Let_def split: option.split)
  have report: "sync_ops (report_flags cx p n fs s) = sync_ops s" for n fs s
    by (simp add: report_flags_def Let_def keeps_store)
  obtain n s1 where n: "generate_document_number (cx_clock cx) (cx_business_id cx) ''INV'' s = (n, s1)" by fastforce
  obtain xs fs' s2 where x: "fold (allocate_payload cx (psc_branch_id p)) (psc_lines p) ([], fs, s1) = (xs, fs', s2)"
    by (metis prod_cases3)
  have "sync_ops s2 = sync_ops s"
    using allocation_keeps_store [of cx "psc_branch_id p" "psc_lines p" "[]" fs s1]
      number_keeps_store [of "cx_clock cx" "cx_business_id cx" "''INV''" s] by (simp add: n x)
  moreover obtain ids u where u: "fold_res (add_pushed_line cx (psc_id p)) (enumerate 0 xs)
      ([], s2\<lparr>sales := sales s2 @ [pushed_sale cx p op cu sh n (determine_sale_status
         (sum_list (map frozen_total (psc_lines p))) (sum_list (map pyp_amount (psc_payments p))))]\<rparr>) = Inr (ids, u)"
    and s': "s' = (let s = fold (add_pushed_payment cx (psc_id p) sh (env_occurred_at op)) (psc_payments p) u;
        s = fold (issue_pushed_line cx (psc_branch_id p) (env_occurred_at op)) (zip ids xs) s;
        s = charge_pushed_sale cx (psc_id p) cu a (env_occurred_at op) s;
        s = (case sh of None \<Rightarrow> s | Some sh \<Rightarrow> refresh_closed_shift_totals sh s);
        s = s\<lparr>sales := update_where (\<lambda>r. row_id r = psc_id p) (\<lambda>r. r\<lparr>s_sync_flags := fs'\<rparr>) (sales s)\<rparr>
      in report_flags cx p n fs' s)"
    using assms by (auto simp: write_pushed_sale_def n x Let_def handler_simps)
  moreover have "sync_ops u = sync_ops s2" using lines_keep_store [OF u] by simp
  ultimately show ?thesis
    by (cases sh) (simp_all add: Let_def report charge fold_keeps_store pay issue keeps_store)
qed

lemma sale_handler_keeps_store: "h_sale_create cfg cx p op s = Inr (oc, s') \<Longrightarrow> sync_ops s' = sync_ops s"
  by (auto simp: h_sale_create_def handler_simps Let_def case_prod_unfold dest: write_sale_keeps_store
      split: option.splits if_splits)

lemma handle_keeps_store: "handle cfg codec cx p op s = Inr (oc, s') \<Longrightarrow> sync_ops s' = sync_ops s"
  by (cases p) (auto dest: shift_handlers_keep_store void_handler_keeps_store expense_handler_keeps_store
      return_handler_keeps_store payment_handler_keeps_store sale_handler_keeps_store)

lemma apply_op_keeps_store: "apply_op cfg codec cx op s = Inr (oc, s') \<Longrightarrow> sync_ops s' = sync_ops s"
  by (auto simp: apply_op_def handler_simps dest: handle_keeps_store)
section \<open>Results and stored outcomes are well formed\<close>

definition answered :: "op_result \<Rightarrow> bool" where
  \<comment> \<open>the operation has been applied, now or before\<close>
  "answered r \<longleftrightarrow> or_error r = None \<and>
     (or_status r = ''applied'' \<and> or_original_status r = None \<or>
      or_status r = ''duplicate'' \<and> or_original_status r = Some ''applied'')"

definition refused :: "op_result \<Rightarrow> bool" where
  "refused r \<longleftrightarrow> or_error r \<noteq> None \<and> or_status r \<in> {''rejected'', ''conflict''} \<and> or_original_status r = None \<and>
     or_server_id r = None \<and> or_official_number r = None \<and> or_flags r = []"

definition typed :: "op_result \<Rightarrow> bool" where
  "typed r \<longleftrightarrow> answered r \<or> refused r"

definition retryable :: "op_result \<Rightarrow> bool" where
  "retryable r \<longleftrightarrow> (\<exists>e. or_error r = Some e \<and> oe_retryable e)"

definition stored_typed :: "sync_op \<Rightarrow> bool" where
  "stored_typed rec \<longleftrightarrow> or_op_id (so_result rec) = Some (so_op_id rec) \<and> or_status (so_result rec) = so_status rec \<and>
     (so_status rec = ''applied'' \<and> answered (so_result rec) \<or>
      so_status rec \<noteq> ''applied'' \<and> refused (so_result rec) \<and> \<not> retryable (so_result rec))"

definition store_ok :: "db \<Rightarrow> bool" where
  "store_ok s \<longleftrightarrow> (\<forall>rec\<in>set (sync_ops s). stored_typed rec) \<and>
     distinct (map (\<lambda>rec. (so_business_id rec, so_op_id rec)) (sync_ops s))"

definition stored_applied :: "sync_op list \<Rightarrow> uuid \<Rightarrow> uuid \<Rightarrow> bool" where
  "stored_applied recs bid i \<longleftrightarrow>
     (\<exists>rec\<in>set recs. so_business_id rec = bid \<and> so_op_id rec = i \<and> so_status rec = ''applied'')"

subsection \<open>Every rejection is a rejection or a conflict\<close>

definition fine :: "op_exn + 'a \<Rightarrow> bool" where
  "fine m \<longleftrightarrow> (\<forall>r. m = Inl (Rejected r) \<longrightarrow> rj_status r \<in> {''rejected'', ''conflict''})"

lemma fine_rules:
  "fine (Inr x)" "fine (Inl Conflicts)" "fine (Inl (Raised x0))" "fine (lift res)"
  "fine (reject d d1)" "fine (rejects d d1 as b ''rejected'')" "fine (rejects d d1 as b ''conflict'')"
  "(\<And>e. fine (h e)) \<Longrightarrow> fine (catch_http res h)"
  "fine m \<Longrightarrow> (\<And>x. fine (f x)) \<Longrightarrow> fine (bind_res m f)"
  "fine m1 \<Longrightarrow> fine m2 \<Longrightarrow> fine (if c then m1 else m2)"
  "fine m3 \<Longrightarrow> (\<And>x. fine (k x)) \<Longrightarrow> fine (case opt of None \<Rightarrow> m3 | Some x \<Rightarrow> k x)"
  "(\<And>x y. fine (g x y)) \<Longrightarrow> fine (case p of (x, y) \<Rightarrow> g x y)"
  "(\<And>x y. fine (l x y a)) \<Longrightarrow> fine ((case q of (x, y) \<Rightarrow> l x y) a)"
  "(\<And>x y. fine (n x y a1 a2)) \<Longrightarrow> fine ((case q of (x, y) \<Rightarrow> n x y) a1 a2)"
  by (auto simp: fine_def rejects_def reject_def lift_def catch_http_def bind_res_Inl
      split: sum.splits http_error.splits option.splits prod.splits)

lemma fine_let: "(\<And>x. fine (f x)) \<Longrightarrow> fine (Let a f)"
  by simp

lemma fine_fold: "(\<And>x s. fine (f x s)) \<Longrightarrow> fine (fold_res f xs s)"
  by (induction xs arbitrary: s) (auto intro: fine_rules)

lemma fine_branch: "fine (require_branch cx b)"
  unfolding require_branch_def by (intro fine_rules)

lemma handle_fine: "fine (handle cfg codec cx p op s)"
proof (cases p)
  case (Customer_create q)
  then show ?thesis by (simp only: handle.simps h_customer_create_def) (intro fine_rules fine_let)
next
  case (Shift_open q)
  then show ?thesis by (simp only: handle.simps h_shift_open_def) (intro fine_rules fine_let fine_branch)
next
  case (Shift_close q)
  then show ?thesis by (simp only: handle.simps h_shift_close_def) (intro fine_rules fine_let fine_branch)
next
  case (Sale_void q)
  then show ?thesis by (simp only: handle.simps h_sale_void_def) (intro fine_rules fine_let fine_branch)
next
  case (Customer_payment q)
  then show ?thesis by (simp only: handle.simps h_customer_payment_def Let_def) (intro fine_rules)
next
  case (Expense_create q)
  then show ?thesis by (simp only: handle.simps h_expense_create_def) (intro fine_rules fine_let fine_branch)
next
  case (Return_create q)
  then show ?thesis by (simp only: handle.simps h_return_create_def) (intro fine_rules fine_let fine_branch)
next
  case (Sale_create q)
  then show ?thesis
    by (simp only: handle.simps h_sale_create_def known_sale_def check_products_def price_flags_def credit_flag_def
        stock_flag_def write_pushed_sale_def add_pushed_line_def)
      (intro fine_rules fine_let fine_branch fine_fold)
qed

lemma apply_op_fine: "fine (apply_op cfg codec cx op s)"
proof -
  have "fine (gate cfg cx op)" unfolding gate_def by (intro fine_rules fine_let)
  moreover have "fine (read_payload codec op)"
    unfolding read_payload_def by (auto intro: fine_rules split: sum.split)
  ultimately show ?thesis unfolding apply_op_def by (intro fine_rules handle_fine)
qed

section \<open>One delivery\<close>

lemma failed_typed: "typed (failed i code m b)" "or_op_id (failed i code m b) = i"
  "retryable (failed i code m b) = b" "\<not> answered (failed i code m b)"
  by (auto simp: typed_def refused_def answered_def failed_def retryable_def)

definition later_answer :: "op_result \<Rightarrow> op_result" where
  "later_answer r = (if or_error r = None then as_duplicate r else r)"

definition delivered :: "sync_codec \<Rightarrow> uuid \<Rightarrow> OpEnvelope \<Rightarrow> op_result \<Rightarrow> db \<Rightarrow> db \<Rightarrow> bool" where
  \<comment> \<open>what a delivery of an operation that was answered \<open>r\<close> does to the store\<close>
  "delivered codec bid op r s s' \<longleftrightarrow> typed r \<and> or_op_id r = Some (env_op_id op) \<and> store_ok s' \<and>
     (s' = s \<or> (\<exists>rec. sync_ops s' = sync_ops s @ [rec] \<and> so_business_id rec = bid \<and> so_op_id rec = env_op_id op)) \<and>
     (answered r \<longrightarrow> stored_applied (sync_ops s') bid (env_op_id op)) \<and>
     (retryable r \<longrightarrow> s' = s) \<and>
     (\<not> retryable r \<longrightarrow> (\<exists>rec\<in>set (sync_ops s'). so_business_id rec = bid \<and> so_op_id rec = env_op_id op \<and>
        replay_stored codec op rec = later_answer r))"

lemma stored_op_cases:
  assumes "store_ok s"
  obtains (none) "stored_op s bid i = Inr None" "\<And>rec. rec \<in> set (sync_ops s) \<Longrightarrow> (so_business_id rec, so_op_id rec) \<noteq> (bid, i)"
    | (found) rec where "stored_op s bid i = Inr (Some rec)" "rec \<in> set (sync_ops s)"
        "so_business_id rec = bid" "so_op_id rec = i" "stored_typed rec"
proof -
  let ?P = "\<lambda>r. so_business_id r = bid \<and> so_op_id r = i"
  have "length (filter ?P recs) \<le> 1" if "distinct (map (\<lambda>rec. (so_business_id rec, so_op_id rec)) recs)" for recs :: "sync_op list"
    using that by (induction recs) (auto simp: filter_empty_conv image_iff)
  then have len: "length (filter ?P (sync_ops s)) \<le> 1" using assms by (simp add: store_ok_def)
  show ?thesis
  proof (cases "filter ?P (sync_ops s)")
    case Nil
    then show ?thesis using none by (auto simp: stored_op_def scalar_one_or_none_def filter_empty_conv)
  next
    case (Cons rec rs)
    then have one: "filter ?P (sync_ops s) = [rec]" using len by (cases rs) auto
    then have "rec \<in> set (sync_ops s)" "?P rec" by (auto simp: filter_eq_Cons_iff)
    then show ?thesis
      using found [of rec] one assms by (simp add: stored_op_def scalar_one_or_none_def store_ok_def)
  qed
qed

lemma answered_final: "answered r \<Longrightarrow> \<not> retryable r"
  by (auto simp: answered_def retryable_def)

lemma replay_typed:
  assumes "stored_typed rec" "so_op_id rec = env_op_id op" "replay_stored codec op rec = r"
  shows "typed r" "or_op_id r = Some (env_op_id op)" "answered r \<Longrightarrow> so_status rec = ''applied''"
    "later_answer r = r" 
  using assms
  by (auto simp: replay_stored_def as_duplicate_def typed_def stored_typed_def answered_def refused_def failed_def
      later_answer_def retryable_def split: if_splits)

lemma store_op_delivers:
  assumes "store_ok s" "sync_ops t = sync_ops s" "store_op codec cx op st result t = u"
    and none: "\<And>rec. rec \<in> set (sync_ops s) \<Longrightarrow> (so_business_id rec, so_op_id rec) \<noteq> (cx_business_id cx, env_op_id op)"
    and result: "or_op_id result = Some (env_op_id op)" "or_status result = st"
      "st = ''applied'' \<and> answered result \<or> st \<noteq> ''applied'' \<and> refused result \<and> \<not> retryable result"
  obtains rec where "sync_ops u = sync_ops s @ [rec]" "so_business_id rec = cx_business_id cx"
    "so_op_id rec = env_op_id op" "so_status rec = st" "so_result rec = result" "store_ok u"
    "so_payload_hash rec = sc_hash codec (env_type op) (env_payload op) (env_occurred_at op)"
proof -
  obtain rec where rec: "sync_ops u = sync_ops t @ [rec]" "so_business_id rec = cx_business_id cx"
    "so_op_id rec = env_op_id op" "so_status rec = st" "so_result rec = result"
    "so_payload_hash rec = sc_hash codec (env_type op) (env_payload op) (env_occurred_at op)"
    using assms(3) by (auto simp: store_op_def fresh_uuid_def Let_def)
  have "stored_typed rec" using rec result by (simp add: stored_typed_def)
  moreover have "(cx_business_id cx, env_op_id op) \<notin> (\<lambda>rec. (so_business_id rec, so_op_id rec)) ` set (sync_ops s)"
    using none by (metis (no_types, lifting) imageE)
  ultimately have "store_ok u"
    using assms(1) rec(2,3) unfolding store_ok_def rec(1) assms(2) by simp
  with rec show ?thesis using that assms(2) by metis
qed

lemma finish_rejected_delivers:
  assumes "store_ok s" "finish_rejected codec cx op rj s = (r, s')" "rj_status rj \<in> {''rejected'', ''conflict''}"
    and none: "\<And>rec. rec \<in> set (sync_ops s) \<Longrightarrow> (so_business_id rec, so_op_id rec) \<noteq> (cx_business_id cx, env_op_id op)"
  shows "delivered codec (cx_business_id cx) op r s s'"
proof -
  have r: "r = (failed (Some (env_op_id op)) (rj_code rj) (rj_message rj) (rj_retryable rj))\<lparr>or_status := rj_status rj\<rparr>"
    and s': "s' = (if \<not> rj_retryable rj then store_op codec cx op (rj_status rj) r s else s)"
    using assms(2) by (auto simp: finish_rejected_def Let_def)
  have R: "refused r" "\<not> answered r" "or_op_id r = Some (env_op_id op)" "retryable r = rj_retryable rj" "or_status r = rj_status rj"
    using assms(3) by (auto simp: r refused_def answered_def failed_def retryable_def)
  show ?thesis
  proof (cases "rj_retryable rj")
    case True
    then show ?thesis using R s' assms(1) by (simp add: delivered_def typed_def)
  next
    case False
    then have eq: "store_op codec cx op (rj_status rj) r s = s'" using s' by simp
    have "rj_status rj = ''applied'' \<and> answered r \<or> rj_status rj \<noteq> ''applied'' \<and> refused r \<and> \<not> retryable r"
      using R False assms(3) by auto
    then obtain rec where rec: "sync_ops s' = sync_ops s @ [rec]" "so_business_id rec = cx_business_id cx" "so_op_id rec = env_op_id op"
        "so_status rec = rj_status rj" "so_result rec = r" "store_ok s'"
        "so_payload_hash rec = sc_hash codec (env_type op) (env_payload op) (env_occurred_at op)"
      by - (rule store_op_delivers [OF assms(1) refl eq none R(3,5)], auto)
    have "replay_stored codec op rec = later_answer r"
      using R(1) rec assms(3) by (auto simp: replay_stored_def later_answer_def refused_def)
    then show ?thesis using R rec False by (auto simp: delivered_def typed_def)
  qed
qed

lemma finish_applied_delivers:
  assumes "store_ok s" "sync_ops t = sync_ops s" "finish_applied codec cx op oc t = (r, s')"
    and none: "\<And>rec. rec \<in> set (sync_ops s) \<Longrightarrow> (so_business_id rec, so_op_id rec) \<noteq> (cx_business_id cx, env_op_id op)"
  shows "delivered codec (cx_business_id cx) op r s s' \<and> answered r"
proof -
  let ?result = "r\<lparr>or_status := ''applied'', or_original_status := None\<rparr>"
  have r: "or_op_id r = Some (env_op_id op)" "answered r" "as_duplicate ?result = as_duplicate r"
    using assms(3) by (auto simp: finish_applied_def Let_def answered_def as_duplicate_def)
  have s': "sync_ops s' = sync_ops (store_op codec cx op ''applied'' ?result t)"
    using assms(3) by (auto simp: finish_applied_def Let_def applied_audit_def keeps_store)
  define u where "u = store_op codec cx op ''applied'' ?result t"
  have "''applied'' = ''applied'' \<and> answered ?result \<or> ''applied'' \<noteq> ''applied'' \<and> refused ?result \<and> \<not> retryable ?result"
    using r(2) by (simp add: answered_def)
  then obtain rec where "sync_ops u = sync_ops s @ [rec]" "so_business_id rec = cx_business_id cx"
      "so_op_id rec = env_op_id op" "so_status rec = ''applied''" "so_result rec = ?result" "store_ok u"
      "so_payload_hash rec = sc_hash codec (env_type op) (env_payload op) (env_occurred_at op)"
    using r(1) by - (rule store_op_delivers [OF assms(1,2) u_def [symmetric] none], auto)
  moreover have "sync_ops s' = sync_ops u" using s' by (simp add: u_def)
  ultimately have rec: "sync_ops s' = sync_ops s @ [rec]" "so_business_id rec = cx_business_id cx"
      "so_op_id rec = env_op_id op" "so_status rec = ''applied''" "so_result rec = ?result" "store_ok s'"
      "so_payload_hash rec = sc_hash codec (env_type op) (env_payload op) (env_occurred_at op)"
    by (simp_all add: store_ok_def)
  have "replay_stored codec op rec = later_answer r"
    using r(2,3) rec by (auto simp: replay_stored_def later_answer_def answered_def)
  then show ?thesis using r(1,2) rec answered_final [OF r(2)]
    by (auto simp: delivered_def typed_def stored_applied_def)
qed
lemma run_op_delivers:
  assumes "store_ok s" "run_op cfg codec cx op s = (r, s')"
  shows "delivered codec (cx_business_id cx) op r s s'"
  using assms(1)
proof (cases rule: stored_op_cases [where bid = "cx_business_id cx" and i = "env_op_id op"])
  case (found rec)
  then have "r = replay_stored codec op rec" "s' = s" using assms(2) by (auto simp: run_op_def)
  moreover note R = replay_typed [OF found(5,4) this(1) [symmetric]]
  ultimately show ?thesis
    using found assms(1) by (auto simp: delivered_def stored_applied_def)
next
  case none
  show ?thesis
  proof (cases "apply_op cfg codec cx op s")
    case (Inr x)
    then obtain oc t where x: "apply_op cfg codec cx op s = Inr (oc, t)" by (cases x) auto
    then have "finish_applied codec cx op oc t = (r, s')" using assms(2) none(1) by (simp add: run_op_def)
    then show ?thesis using finish_applied_delivers [OF assms(1) apply_op_keeps_store [OF x] _ none(2)] by blast
  next
    case (Inl e)
    have rej: "delivered codec (cx_business_id cx) op r s s'"
      if "finish_rejected codec cx op rj s = (r, s')" "rj_status rj \<in> {''rejected'', ''conflict''}" for rj
      using finish_rejected_delivers [OF assms(1) that none(2)] .
    have internal: "delivered codec (cx_business_id cx) op (internal_error op) s s"
      using assms(1) failed_typed by (simp add: delivered_def internal_error_def)
    show ?thesis
    proof (cases e)
      case (Rejected rj)
      then have "rj_status rj \<in> {''rejected'', ''conflict''}"
        using apply_op_fine [of cfg codec cx op s] Inl by (simp add: fine_def)
      with rej [of rj] show ?thesis using assms(2) none(1) Inl Rejected by (simp add: run_op_def)
    next
      case Conflicts
      show ?thesis
        by (rule rej [of "\<lparr>rj_code = ''id_conflict'', rj_message = (''Conflicts with existing data'', []),
            rj_retryable = False, rj_status = ''conflict''\<rparr>"]) (use assms(2) none(1) Inl Conflicts in \<open>simp_all add: run_op_def\<close>)
    next
      case (Raised h)
      show ?thesis
      proof (cases h)
        case (HTTPException a b x)
        show ?thesis
          by (rule rej [of "map_http h"]) (use assms(2) none(1) Inl Raised HTTPException in \<open>simp_all add: run_op_def map_http_def\<close>)
      next
        case (PyError x)
        then show ?thesis using internal assms(2) none(1) Inl Raised by (simp add: run_op_def)
      qed
    qed
  qed
qed

section \<open>A batch\<close>

lemma stored_applied_mono: "stored_applied recs bid i \<Longrightarrow> set recs \<subseteq> set recs' \<Longrightarrow> stored_applied recs' bid i"
  by (auto simp: stored_applied_def)

definition batch_ok :: "uuid \<Rightarrow> finished \<Rightarrow> db \<Rightarrow> bool" where
  "batch_ok bid batch s \<longleftrightarrow> (\<forall>(i, r)\<in>set batch. typed r \<and> or_op_id r = Some i \<and>
     (answered r \<longrightarrow> stored_applied (sync_ops s) bid i))"

lemma dependency_error_None:
  assumes "dependency_error cx batch s deps = None" "batch_ok (cx_business_id cx) batch s" "d \<in> set deps"
  shows "stored_applied (sync_ops s) (cx_business_id cx) d"
  using assms(1,3)
proof (induction deps)
  case (Cons e deps)
  have "dependency_error cx batch s deps = None \<and> stored_applied (sync_ops s) (cx_business_id cx) e"
  proof (cases "map_of batch e")
    case None
    then show ?thesis
      using Cons.prems(1)
      by (auto simp: stored_applied_def filter_eq_Cons_iff split: list.splits if_splits)
  next
    case (Some r)
    then have "(e, r) \<in> set batch" by (rule map_of_SomeD)
    then have "typed r" "answered r \<longrightarrow> stored_applied (sync_ops s) (cx_business_id cx) e"
      using assms(2) by (auto simp: batch_ok_def)
    then show ?thesis
      using Cons.prems(1) Some by (auto simp: typed_def refused_def split: if_splits)
  qed
  with Cons show ?case by auto
qed simp

definition grows :: "uuid \<Rightarrow> OpEnvelope list \<Rightarrow> db \<Rightarrow> db \<Rightarrow> bool" where
  \<comment> \<open>outcomes were added, each of one of these operations and after what it depends on\<close>
  "grows bid ops s s' \<longleftrightarrow> (\<exists>new. sync_ops s' = sync_ops s @ new \<and>
     (\<forall>k<length new. \<exists>op\<in>set ops. so_business_id (new ! k) = bid \<and> so_op_id (new ! k) = env_op_id op \<and>
        (\<forall>d\<in>set (env_depends_on op). stored_applied (sync_ops s @ take k new) bid d)))"

lemma grows_refl: "grows bid ops s s"
  by (simp add: grows_def)

lemma grows_trans:
  assumes "grows bid ops s t" "grows bid ops t u"
  shows "grows bid ops s u"
proof -
  obtain new where new: "sync_ops t = sync_ops s @ new"
    "\<And>k. k < length new \<Longrightarrow> \<exists>op\<in>set ops. so_business_id (new ! k) = bid \<and> so_op_id (new ! k) = env_op_id op \<and>
        (\<forall>d\<in>set (env_depends_on op). stored_applied (sync_ops s @ take k new) bid d)"
    using assms(1) unfolding grows_def by blast
  obtain more where more: "sync_ops u = sync_ops t @ more"
    "\<And>k. k < length more \<Longrightarrow> \<exists>op\<in>set ops. so_business_id (more ! k) = bid \<and> so_op_id (more ! k) = env_op_id op \<and>
        (\<forall>d\<in>set (env_depends_on op). stored_applied (sync_ops t @ take k more) bid d)"
    using assms(2) unfolding grows_def by blast
  have "\<exists>op\<in>set ops. so_business_id ((new @ more) ! k) = bid \<and> so_op_id ((new @ more) ! k) = env_op_id op \<and>
      (\<forall>d\<in>set (env_depends_on op). stored_applied (sync_ops s @ take k (new @ more)) bid d)"
    if "k < length (new @ more)" for k
  proof (cases "k < length new")
    case True
    then show ?thesis using new(2) [of k] by (simp add: nth_append)
  next
    case False
    then show ?thesis using more(2) [of "k - length new"] that new(1) by (simp add: nth_append)
  qed
  then show ?thesis using new(1) more(1) unfolding grows_def by (intro exI [of _ "new @ more"]) simp
qed

lemma next_op_step:
  assumes "store_ok s" "batch_ok (cx_business_id cx) batch s" "remaining \<noteq> []"
    "next_op cfg codec cx in_batch remaining batch s = (op, r, s')"
  shows "op \<in> set remaining" "store_ok s'" "batch_ok (cx_business_id cx) (batch @ [(env_op_id op, r)]) s'"
    "set remaining \<subseteq> set ops \<Longrightarrow> grows (cx_business_id cx) ops s s'"
proof -
  have op: "op \<in> set remaining"
    using assms(3,4) by (auto simp: next_op_def split: option.splits prod.splits dest: find_Some_iff_member)
  consider (refused) "s' = s" "typed r" "or_op_id r = Some (env_op_id op)" "\<not> answered r"
    | (run) "run_op cfg codec cx op s = (r, s')" "dependency_error cx batch s (env_depends_on op) = None"
    using assms(4)
    by (auto simp: next_op_def run_or_refuse_def failed_typed split: option.splits prod.splits)
  then have "store_ok s' \<and> batch_ok (cx_business_id cx) (batch @ [(env_op_id op, r)]) s' \<and>
      (set remaining \<subseteq> set ops \<longrightarrow> grows (cx_business_id cx) ops s s')"
  proof cases
    case refused
    then show ?thesis using assms(1,2) by (auto simp: batch_ok_def grows_refl)
  next
    case run
    note D = run_op_delivers [OF assms(1) run(1)]
    have more: "set (sync_ops s) \<subseteq> set (sync_ops s')" using D by (auto simp: delivered_def)
    have "batch_ok (cx_business_id cx) (batch @ [(env_op_id op, r)]) s'"
      using assms(2) D stored_applied_mono [OF _ more] by (auto simp: batch_ok_def delivered_def)
    moreover have "grows (cx_business_id cx) ops s s'" if "set remaining \<subseteq> set ops"
    proof (cases "s' = s")
      case False
      then obtain rec where rec: "sync_ops s' = sync_ops s @ [rec]" "so_business_id rec = cx_business_id cx"
          "so_op_id rec = env_op_id op"
        using D by (auto simp: delivered_def)
      then show ?thesis
        using op that dependency_error_None [OF run(2) assms(2)] unfolding grows_def
        by (intro exI [of _ "[rec]"]) auto
    qed (simp add: grows_refl)
    ultimately show ?thesis using D by (simp add: delivered_def)
  qed
  with op show "op \<in> set remaining" "store_ok s'" "batch_ok (cx_business_id cx) (batch @ [(env_op_id op, r)]) s'"
    "set remaining \<subseteq> set ops \<Longrightarrow> grows (cx_business_id cx) ops s s'" by blast+
qed

lemma run_batch_done:
  assumes "store_ok s" "batch_ok (cx_business_id cx) batch s" "length remaining \<le> n"
    "run_batch n cfg codec cx in_batch remaining batch s = (batch', s')" "set remaining \<subseteq> set ops"
  shows "store_ok s' \<and> batch_ok (cx_business_id cx) batch' s' \<and> grows (cx_business_id cx) ops s s' \<and>
    (\<exists>ran. mset ran = mset remaining \<and> map fst batch' = map fst batch @ map env_op_id ran)"
  using assms
proof (induction n arbitrary: remaining batch s)
  case 0
  then show ?case by (simp add: grows_refl)
next
  case (Suc n)
  show ?case
  proof (cases "remaining = []")
    case True
    then show ?thesis using Suc.prems by (simp add: grows_refl)
  next
    case False
    obtain op r t where t: "next_op cfg codec cx in_batch remaining batch s = (op, r, t)" by (metis prod_cases3)
    note N = next_op_step [OF Suc.prems(1,2) False t]
    have len: "length (remove1 op remaining) \<le> n" using N(1) Suc.prems(3) by (simp add: length_remove1)
    have rest: "run_batch n cfg codec cx in_batch (remove1 op remaining) (batch @ [(env_op_id op, r)]) t = (batch', s')"
      using Suc.prems(4) False t by simp
    have sub: "set (remove1 op remaining) \<subseteq> set ops" using Suc.prems(5) set_remove1_subset by fast
    note IH = Suc.IH [OF N(2,3) len rest sub]
    then obtain ran where ran: "mset ran = mset (remove1 op remaining)"
      "map fst batch' = map fst (batch @ [(env_op_id op, r)]) @ map env_op_id ran" by blast
    have "mset (op # ran) = mset remaining" using ran(1) N(1) by simp
    moreover have "map fst batch' = map fst batch @ map env_op_id (op # ran)" using ran(2) by simp
    ultimately show ?thesis using IH grows_trans [OF N(4) [OF Suc.prems(5)]] by blast
  qed
qed

section \<open>A push\<close>

lemma first_of_each_ids:
  "distinct (map env_op_id (first_of_each ops seen))"
  "set (map env_op_id (first_of_each ops seen)) = set (map env_op_id ops) - set seen"
  "set (first_of_each ops seen) \<subseteq> set ops"
proof (induction ops arbitrary: seen)
  case (Cons op ops)
  { case 1 show ?case using Cons(1,2) [of "env_op_id op # seen"] Cons(1) [of seen] by auto }
  { case 2 show ?case using Cons(2) [of "env_op_id op # seen"] Cons(2) [of seen] by auto }
  { case 3 show ?case using Cons(3) [of "env_op_id op # seen"] Cons(3) [of seen] by auto }
qed simp_all

definition answers :: "op_result + OpEnvelope \<Rightarrow> op_result \<Rightarrow> bool" where
  \<comment> \<open>a result belongs to an operation of the request\<close>
  "answers p r \<longleftrightarrow> typed r \<and> (case p of Inl x \<Rightarrow> r = x | Inr op \<Rightarrow> or_op_id r = Some (env_op_id op))"

lemma duplicate_typed: "answered r \<Longrightarrow> answered (as_duplicate r)" "or_op_id (as_duplicate r) = or_op_id r"
  by (auto simp: answered_def as_duplicate_def)

lemma collect_results_answer:
  assumes "\<And>op. Inr op \<in> set parsed \<Longrightarrow> env_op_id op \<in> fst ` set batch"
    and "\<And>r. Inl r \<in> set parsed \<Longrightarrow> typed r" "batch_ok bid batch s"
  shows "list_all2 answers parsed (collect_results parsed batch seen)"
  using assms(1,2)
proof (induction parsed arbitrary: seen)
  case (Cons p parsed)
  show ?case
  proof (cases p)
    case (Inl r)
    then show ?thesis using Cons by (simp add: answers_def)
  next
    case (Inr op)
    then have "env_op_id op \<in> fst ` set batch" using Cons.prems(1) by simp
    then obtain r where r: "map_of batch (env_op_id op) = Some r"
      by (metis map_of_eq_None_iff not_None_eq)
    then have "typed r" "or_op_id r = Some (env_op_id op)"
      using assms(3) by (auto simp: batch_ok_def dest!: map_of_SomeD)
    moreover from this have "typed (as_duplicate r)" if "or_status r = ''applied''"
      using that duplicate_typed by (auto simp: typed_def refused_def)
    ultimately show ?thesis using Cons Inr r by (auto simp: answers_def duplicate_typed)
  qed
qed simp

lemma parse_op_typed: "parse_op cfg codec raw = Inl r \<Longrightarrow> typed r"
  by (auto simp: parse_op_def failed_typed split: sum.splits if_splits)

abbreviation ops_of :: "sync_settings \<Rightarrow> sync_codec \<Rightarrow> PushRequest \<Rightarrow> OpEnvelope list" where
  \<comment> \<open>the well-formed operations of a request\<close>
  "ops_of cfg codec rq \<equiv> List.map_filter (\<lambda>p. case p of Inr op \<Rightarrow> Some op | Inl _ \<Rightarrow> None)
     (map (parse_op cfg codec) (pq_ops rq))"

lemma in_ops_of: "op \<in> set (ops_of cfg codec rq) \<longleftrightarrow> Inr op \<in> set (map (parse_op cfg codec) (pq_ops rq))"
  by (force simp: List.map_filter_def split: sum.splits)

lemma process_push_done:
  assumes "store_ok s" "process_push cfg codec c u b keys rq s = (rs, s')"
  shows "store_ok s' \<and> list_all2 answers (map (parse_op cfg codec) (pq_ops rq)) rs \<and>
    grows (business_id u) (ops_of cfg codec rq) s s'"
proof -
  define ops where "ops = first_of_each (ops_of cfg codec rq) []"
  define cx where "cx = push_context cfg c u b keys rq s"
  note F = first_of_each_ids [of "ops_of cfg codec rq" "[]", folded ops_def]
  have bid: "cx_business_id cx = business_id u" by (simp add: cx_def push_context_def)
  obtain batch t where run: "run_batch (length ops) cfg codec cx (map env_op_id ops) ops [] s = (batch, t)" by fastforce
  have out: "s' = t" "rs = collect_results (map (parse_op cfg codec) (pq_ops rq)) batch []"
    using assms(2) run unfolding process_push_def Let_def ops_def cx_def by auto
  have empty: "batch_ok (cx_business_id cx) [] s" by (simp add: batch_ok_def)
  note R = run_batch_done [OF assms(1) empty order_refl run F(3)]
  then obtain ran where ran: "mset ran = mset ops" "map fst batch = map env_op_id ran" by auto
  have "set (map fst batch) = env_op_id ` set ops"
    unfolding ran(2) using mset_eq_setD [OF ran(1)] by simp
  then have ids: "fst ` set batch = set (map env_op_id (ops_of cfg codec rq))"
    using F(2) by (simp only: set_map list.set(1) Diff_empty)
  have "list_all2 answers (map (parse_op cfg codec) (pq_ops rq)) rs"
    unfolding out(2)
  proof (rule collect_results_answer)
    show "env_op_id op \<in> fst ` set batch" if "Inr op \<in> set (map (parse_op cfg codec) (pq_ops rq))" for op
      using that unfolding ids in_ops_of [symmetric] by simp
    show "typed r" if "Inl r \<in> set (map (parse_op cfg codec) (pq_ops rq))" for r
      using that by (auto dest: parse_op_typed [OF sym])
    show "batch_ok (cx_business_id cx) batch t" using R by blast
  qed
  then show ?thesis using R out(1) bid by simp
qed

section \<open>What a till can rely on\<close>

inductive server_step :: "sync_codec \<Rightarrow> db \<Rightarrow> db \<Rightarrow> bool" for codec where
  Pushed: "server_step codec s (snd (process_push cfg codec c u b keys rq s))"
| Other: "sync_ops s' = sync_ops s \<Longrightarrow> server_step codec s s'"
  \<comment> \<open>a push of any till, or anything that leaves the store alone\<close>

lemma server_steps_keep:
  assumes "(server_step codec)\<^sup>*\<^sup>* s s'" "store_ok s"
  shows "store_ok s' \<and> (\<exists>new. sync_ops s' = sync_ops s @ new)"
  using assms
proof (induction rule: rtranclp_induct)
  case (step t u)
  from step.hyps(2) have "store_ok u \<and> (\<exists>new. sync_ops u = sync_ops t @ new)"
  proof cases
    case (Pushed cfg c us b keys rq)
    obtain rs where "process_push cfg codec c us b keys rq t = (rs, u)"
      using Pushed by (metis prod.collapse)
    then show ?thesis using process_push_done step.IH [OF step.prems] unfolding grows_def by blast
  next
    case Other
    then show ?thesis using step.IH [OF step.prems] by (simp add: store_ok_def)
  qed
  then show ?case using step.IH [OF step.prems] by force
qed simp

lemma push_answers:
  assumes "store_ok s" "process_push cfg codec c u b keys rq s = (rs, s')"
  shows "length rs = length (pq_ops rq)"
    and "\<forall>i<length rs. (case parse_op cfg codec (pq_ops rq ! i) of
       Inl malformed \<Rightarrow> rs ! i = malformed
     | Inr op \<Rightarrow> or_op_id (rs ! i) = Some (env_op_id op))"
proof -
  have A: "list_all2 answers (map (parse_op cfg codec) (pq_ops rq)) rs"
    using process_push_done [OF assms] by blast
  then show "length rs = length (pq_ops rq)" by (auto dest: list_all2_lengthD)
  show "\<forall>i<length rs. (case parse_op cfg codec (pq_ops rq ! i) of
       Inl malformed \<Rightarrow> rs ! i = malformed
     | Inr op \<Rightarrow> or_op_id (rs ! i) = Some (env_op_id op))"
    using A by (auto simp: list_all2_conv_all_nth answers_def)
qed

text \<open>
  C22. Every operation of a push is answered: there is one result for each, at its place, and it names
  the operation; the loop over the batch ends with every operation done whatever they depend on.
\<close>


theorem push_answers_every_operation:
  assumes "store_ok s" "process_push cfg codec c u b keys rq s = (rs, s')"
  shows "length rs = length (pq_ops rq) \<and>
    (\<forall>i<length rs. (case parse_op cfg codec (pq_ops rq ! i) of
       Inl malformed \<Rightarrow> rs ! i = malformed
     | Inr op \<Rightarrow> or_op_id (rs ! i) = Some (env_op_id op)))"
  by (intro conjI push_answers [OF assms])

lemma push_keeps_store:
  assumes "store_ok s" "(server_step codec)\<^sup>*\<^sup>* s t" "process_push cfg codec c u b keys rq t = (rs, s')"
  shows "store_ok t" "store_ok s'" "\<forall>r\<in>set rs. typed r"
proof -
  show t: "store_ok t" using server_steps_keep [OF assms(2,1)] by blast
  note P = process_push_done [OF t assms(3)]
  then show "store_ok s'" by blast
  from P have "list_all2 answers (map (parse_op cfg codec) (pq_ops rq)) rs" by blast
  then show "\<forall>r\<in>set rs. typed r" by (auto simp: list_all2_conv_all_nth answers_def in_set_conv_nth)
qed

text \<open>
  C23. Results and stored outcomes are well formed whatever is pushed: a result is applied or duplicate
  and then carries no error, or rejected or a conflict and then carries an error and nothing else; the
  store has at most one outcome for each operation of a business, none of them retryable.
\<close>


theorem push_results_typed:
  assumes "store_ok s" "(server_step codec)\<^sup>*\<^sup>* s t" "process_push cfg codec c u b keys rq t = (rs, s')"
  shows "store_ok t \<and> store_ok s' \<and> (\<forall>r\<in>set rs. typed r)"
  by (intro conjI push_keeps_store [OF assms])

lemma operation_redelivered:
  assumes "store_ok s" "run_op cfg codec cx op s = (r, s1)" "(server_step codec)\<^sup>*\<^sup>* s1 s2"
    and "cx_business_id cx' = cx_business_id cx"
  shows "retryable r \<Longrightarrow> s1 = s"
    and "\<not> retryable r \<Longrightarrow> run_op cfg' codec cx' op s2 =
      (if or_error r = None then as_duplicate r else r, s2)"
proof -
  note D = run_op_delivers [OF assms(1,2)]
  then show "s1 = s" if "retryable r" using that by (simp add: delivered_def)
  assume "\<not> retryable r"
  then obtain rec where rec: "rec \<in> set (sync_ops s1)" "so_business_id rec = cx_business_id cx"
    "so_op_id rec = env_op_id op" "replay_stored codec op rec = later_answer r"
    using D by (auto simp: delivered_def)
  have "store_ok s1" using D by (simp add: delivered_def)
  from server_steps_keep [OF assms(3) this] have s2: "store_ok s2" "rec \<in> set (sync_ops s2)" using rec(1) by auto
  show "run_op cfg' codec cx' op s2 = (if or_error r = None then as_duplicate r else r, s2)"
    using s2(1)
  proof (cases rule: stored_op_cases [where bid = "cx_business_id cx'" and i = "env_op_id op"])
    case none
    then show ?thesis using s2(2) rec(2,3) assms(4) by auto
  next
    case (found rec')
    have "rec' = rec"
      using s2 found(2-4) rec(2,3) assms(4) by (auto simp: store_ok_def distinct_map inj_on_def)
    then show ?thesis using found(1) rec(4) by (simp add: run_op_def later_answer_def)
  qed
qed

text \<open>
  C2. An operation is applied at most once: when it got an answer that it may not retry, every later
  delivery of it, after any other pushes and requests, gets the same answer, with \<open>duplicate\<close> for
  \<open>applied\<close>, and changes nothing; when the answer was retryable, it had no effect.
\<close>


theorem operation_applied_once:
  assumes "store_ok s" "run_op cfg codec cx op s = (r, s1)" "(server_step codec)\<^sup>*\<^sup>* s1 s2"
    and "cx_business_id cx' = cx_business_id cx"
  shows "(retryable r \<longrightarrow> s1 = s) \<and>
    (\<not> retryable r \<longrightarrow> run_op cfg' codec cx' op s2 = (if or_error r = None then as_duplicate r else r, s2))"
  by (intro conjI impI operation_redelivered [OF assms])

text \<open>
  C18. The outcomes a push stores are those of operations of that push, and at the moment one is stored,
  every operation it depends on has been applied: it was applied before the push, or its own outcome
  stands earlier in the store.
\<close>

theorem operations_run_after_dependencies:
  assumes "store_ok s" "process_push cfg codec c u b keys rq s = (rs, s')"
  shows "\<exists>new. sync_ops s' = sync_ops s @ new \<and>
    (\<forall>k<length new. \<exists>op\<in>set (ops_of cfg codec rq). so_op_id (new ! k) = env_op_id op \<and>
       (\<forall>d\<in>set (env_depends_on op). \<exists>rec\<in>set (sync_ops s @ take k new).
          so_business_id rec = business_id u \<and> so_op_id rec = d \<and> so_status rec = ''applied''))"
  using process_push_done [OF assms] unfolding grows_def stored_applied_def by metis
section \<open>A sample push\<close>

definition sample_codec :: sync_codec where
  \<comment> \<open>every operation creates a customer; a raw operation names its id, the customer and one dependency\<close>
  "sample_codec = \<lparr>sc_op_id = \<lambda>raw. None,
     sc_envelope = \<lambda>raw. (case map_of raw ''op_id'' of
        Some (JUuid i) \<Rightarrow> Inr \<lparr>env_op_id = i, env_type = ''customer.create'', env_client_created_at = 0,
          env_occurred_at = 900, env_payload = raw,
          env_depends_on = (case map_of raw ''depends_on'' of Some (JUuid d) \<Rightarrow> [d] | _ \<Rightarrow> [])\<rparr>
      | _ \<Rightarrow> Inl ''op_id: Field required''),
     sc_payload = \<lambda>t raw. (case map_of raw ''customer'' of
        Some (JUuid i) \<Rightarrow> Inr (Customer_create \<lparr>pcc_id = i, pcc_name = ''Ada'', pcc_phone = None, pcc_email = None,
          pcc_tax_id = None, pcc_address_line1 = None, pcc_city = None, pcc_credit_limit = 0\<rparr>)
      | _ \<Rightarrow> Inl ''id: Field required''),
     sc_invalid = \<lambda>p. ''Value error'', sc_expense_invalid = \<lambda>p. ''Value error'', sc_return_invalid = \<lambda>p. ''Value error'',
     sc_payload_size = length,
     sc_hash = \<lambda>t raw occurred_at. (case map_of raw ''customer'' of Some (JUuid i) \<Rightarrow> digits i | _ \<Rightarrow> [])\<rparr>"

definition sample_sync :: sync_settings where
  "sample_sync = \<lparr>cfg_max_offline_days = 14, cfg_allow_negative_stock_on_sync = True, cfg_max_payload_bytes = 1000,
     cfg_grace_days = 3\<rparr>"

definition sample_push :: PushRequest where
  \<comment> \<open>the first operation depends on the second\<close>
  "sample_push = \<lparr>pq_device_id = ''till'', pq_batch_id = ''b1'', pq_ops =
     [[(''op_id'', JUuid 51), (''customer'', JUuid 61), (''depends_on'', JUuid 52)],
      [(''op_id'', JUuid 52), (''customer'', JUuid 62)]]\<rparr>"

definition clashing_push :: PushRequest where
  \<comment> \<open>one id for two different operations\<close>
  "clashing_push = \<lparr>pq_device_id = ''till'', pq_batch_id = ''b1'', pq_ops =
     [[(''op_id'', JUuid 51), (''customer'', JUuid 61)], [(''op_id'', JUuid 51), (''customer'', JUuid 62)]]\<rparr>"

abbreviation push_sample :: "PushRequest \<Rightarrow> db \<Rightarrow> op_result list \<times> db" where
  "push_sample \<equiv> process_push sample_sync sample_codec sample_now sample_user sample_business {''customers.create''}"

lemma sample_sync_store_ok: "store_ok sample_access"
  by (simp add: store_ok_def sample_access_def empty_db_def)

lemma sample_pushed:
  obtains rs s' where "push_sample sample_push sample_access = (rs, s')" "map or_status rs = [''applied'', ''applied'']"
    "map so_op_id (sync_ops s') = [52, 51]"
proof -
  obtain rs s' where r: "push_sample sample_push sample_access = (rs, s')" by fastforce
  have "map or_status (fst (push_sample sample_push sample_access)) = [''applied'', ''applied'']"
    "map so_op_id (sync_ops (snd (push_sample sample_push sample_access))) = [52, 51]" by code_simp+
  with r that show ?thesis by simp
qed

lemma push_answers_every_operation_witness:
  "\<exists>rs s'. push_sample sample_push sample_access = (rs, s') \<and> length rs = 2 \<and> or_op_id (rs ! 1) = Some 52"
proof -
  obtain rs s' where r: "push_sample sample_push sample_access = (rs, s')" using sample_pushed .
  have "length rs = 2" using push_answers_every_operation [OF sample_sync_store_ok r] by (simp add: sample_push_def)
  moreover have "parse_op sample_sync sample_codec (pq_ops sample_push ! 1) =
      Inr \<lparr>env_op_id = 52, env_type = ''customer.create'', env_client_created_at = 0, env_occurred_at = 900,
        env_payload = [(''op_id'', JUuid 52), (''customer'', JUuid 62)], env_depends_on = []\<rparr>"
    by (simp add: parse_op_def sample_codec_def sample_push_def sample_sync_def HANDLERS_def OP_PERMISSIONS_def)
  ultimately show ?thesis
    using r push_answers_every_operation [OF sample_sync_store_ok r, THEN conjunct2] by (auto dest!: spec [of _ 1])
qed

lemma push_results_typed_witness:
  "\<exists>rs s'. push_sample sample_push sample_access = (rs, s') \<and> store_ok s' \<and> (\<forall>r\<in>set rs. typed r) \<and> length rs = 2"
proof -
  obtain rs s' where r: "push_sample sample_push sample_access = (rs, s')" "map or_status rs = [''applied'', ''applied'']"
    using sample_pushed .
  have "length (map or_status rs) = 2" unfolding r(2) by simp
  then have "length rs = 2" by simp
  then show ?thesis using r(1) push_results_typed [OF sample_sync_store_ok rtranclp.rtrancl_refl r(1)] by blast
qed

lemma operations_run_after_dependencies_witness:
  "\<exists>rs s' new. push_sample sample_push sample_access = (rs, s') \<and> sync_ops s' = new \<and> map so_op_id new = [52, 51] \<and>
     (\<forall>k<length new. \<exists>op\<in>set (ops_of sample_sync sample_codec sample_push). so_op_id (new ! k) = env_op_id op \<and>
       (\<forall>d\<in>set (env_depends_on op). \<exists>rec\<in>set (take k new).
          so_business_id rec = business_id sample_user \<and> so_op_id rec = d \<and> so_status rec = ''applied''))"
proof -
  obtain rs s' where r: "push_sample sample_push sample_access = (rs, s')" "map so_op_id (sync_ops s') = [52, 51]"
    using sample_pushed .
  have none: "sync_ops sample_access = []" by (simp add: sample_access_def empty_db_def)
  obtain new where new: "sync_ops s' = new"
    "\<forall>k<length new. \<exists>op\<in>set (ops_of sample_sync sample_codec sample_push). so_op_id (new ! k) = env_op_id op \<and>
       (\<forall>d\<in>set (env_depends_on op). \<exists>rec\<in>set (take k new).
          so_business_id rec = business_id sample_user \<and> so_op_id rec = d \<and> so_status rec = ''applied'')"
    using operations_run_after_dependencies [OF sample_sync_store_ok r(1)] unfolding none append_Nil by blast
  show ?thesis
    by (rule exI [of _ rs], rule exI [of _ s'], rule exI [of _ new], intro conjI, rule r(1), rule new(1),
        use r(2) new(1) in simp, rule new(2))
qed

definition sample_ctx :: Ctx where
  "sample_ctx = push_context sample_sync sample_now sample_user sample_business {''customers.create''} sample_push sample_access"

definition sample_op :: OpEnvelope where
  "sample_op = \<lparr>env_op_id = 52, env_type = ''customer.create'', env_client_created_at = 0, env_occurred_at = 900,
     env_payload = [(''op_id'', JUuid 52), (''customer'', JUuid 62)], env_depends_on = []\<rparr>"

lemma operation_applied_once_witness:
  "\<exists>r s1. run_op sample_sync sample_codec sample_ctx sample_op sample_access = (r, s1) \<and> or_status r = ''applied'' \<and>
     run_op sample_sync sample_codec sample_ctx sample_op (s1\<lparr>customers := []\<rparr>) = (as_duplicate r, s1\<lparr>customers := []\<rparr>)"
proof -
  obtain r s1 where r: "run_op sample_sync sample_codec sample_ctx sample_op sample_access = (r, s1)" by fastforce
  have "or_status (fst (run_op sample_sync sample_codec sample_ctx sample_op sample_access)) = ''applied''"
    "or_error (fst (run_op sample_sync sample_codec sample_ctx sample_op sample_access)) = None" by code_simp+
  then have ok: "or_status r = ''applied''" "or_error r = None" using r by simp_all
  have "(server_step sample_codec)\<^sup>*\<^sup>* s1 (s1\<lparr>customers := []\<rparr>)" by (intro r_into_rtranclp Other) simp
  from operation_applied_once [OF sample_sync_store_ok r this refl, THEN conjunct2] show ?thesis
    using r ok by (simp add: retryable_def)
qed

lemma clash_in_one_push_hidden:
  \<comment> \<open>a second operation that reuses an id is refused in a later push, but called a duplicate in the same one\<close>
  "map or_status (fst (push_sample clashing_push sample_access)) = [''applied'', ''duplicate''] \<and>
   sc_hash sample_codec ''customer.create'' (pq_ops clashing_push ! 0) 900 \<noteq>
   sc_hash sample_codec ''customer.create'' (pq_ops clashing_push ! 1) 900 \<and>
   length (customers (snd (push_sample clashing_push sample_access))) = 1"
proof (intro conjI)
  show "map or_status (fst (push_sample clashing_push sample_access)) = [''applied'', ''duplicate'']" by code_simp
  show "sc_hash sample_codec ''customer.create'' (pq_ops clashing_push ! 0) 900 \<noteq>
      sc_hash sample_codec ''customer.create'' (pq_ops clashing_push ! 1) 900" by code_simp
  show "length (customers (snd (push_sample clashing_push sample_access))) = 1" by code_simp
qed

end
