(* ===== verification/Sessions.thy ===== *)
theory Sessions
  imports Access
begin

text \<open>
  Logging in and staying logged in: the refresh tokens (\<open>app/services/token_service.py\<close>), the tokens
  handed to clients (\<open>app/services/auth_service.py\<close>), and login, rotation and logout
  (\<open>app/services/login_service.py\<close>). Signing and decoding of a token (PyJWT), the password hash
  (passlib), the text of a uuid and the settings are parameters. A failed login is recorded in a
  session of its own and survives the rollback of the request, so the operations here return the
  state also beside an error. The properties are in \<open>Rotation\<close>.
\<close>

section \<open>Tokens\<close>

record claims =
  cm_sub :: "uuid option"
  cm_business_id :: "uuid option"
  cm_branch_id :: "uuid option"
  cm_tv :: "int option"
  cm_fid :: "uuid option"
  cm_exp :: "int option"
  cm_type :: "string option"
  cm_jti :: "string option"

record auth_env =
  ae_encode :: "string \<Rightarrow> claims \<Rightarrow> string"  \<comment> \<open>\<open>jwt.encode\<close> with a secret\<close>
  ae_decode :: "string \<Rightarrow> datetime \<Rightarrow> string \<Rightarrow> claims option"  \<comment> \<open>\<open>jwt.decode\<close> at a time, or its error\<close>
  ae_text :: "uuid \<Rightarrow> string"  \<comment> \<open>\<open>str\<close> of a uuid\<close>
  ae_verify :: "string \<Rightarrow> string \<Rightarrow> bool"  \<comment> \<open>\<open>pwd_context.verify\<close>\<close>
  ae_jwt_secret_key :: string
  ae_jwt_refresh_secret_key :: string
  ae_access_token_expire_hours :: int
  ae_pin_token_expire_hours :: int
  ae_refresh_token_expire_days :: int
  ae_refresh_grace_seconds :: int
  ae_max_login_attempts :: int
  ae_lockout_minutes :: int
  ae_login_require_business_slug :: bool

definition second_us :: int where
  "second_us = 1000000"

definition create_access_token :: "auth_env \<Rightarrow> claims \<Rightarrow> datetime \<Rightarrow> string" where
  "create_access_token env data issued_at =
     (let expire = issued_at + ae_access_token_expire_hours env * 3600 * second_us
      in ae_encode env (ae_jwt_secret_key env)
           (data\<lparr>cm_exp := Some (expire div second_us), cm_type := Some ''access''\<rparr>))"

definition create_pin_access_token :: "auth_env \<Rightarrow> claims \<Rightarrow> datetime \<Rightarrow> string" where
  "create_pin_access_token env data t =
     (let expire = t + ae_pin_token_expire_hours env * 3600 * second_us
      in ae_encode env (ae_jwt_secret_key env)
           (data\<lparr>cm_exp := Some (expire div second_us), cm_type := Some ''pin_access''\<rparr>))"

definition create_refresh_token :: "auth_env \<Rightarrow> claims \<Rightarrow> datetime \<Rightarrow> string \<Rightarrow> string" where
  \<comment> \<open>the caller draws the \<open>jti\<close> where it gives none\<close>
  "create_refresh_token env data issued_at jti =
     (let expire = issued_at + ae_refresh_token_expire_days env * day_us
      in ae_encode env (ae_jwt_refresh_secret_key env)
           (data\<lparr>cm_exp := Some (expire div second_us), cm_type := Some ''refresh'', cm_jti := Some jti\<rparr>))"

definition decode_token :: "auth_env \<Rightarrow> datetime \<Rightarrow> string \<Rightarrow> claims option" where
  "decode_token env t token =
     (case ae_decode env (ae_jwt_secret_key env) t token of None \<Rightarrow> None
      | Some p \<Rightarrow> if cm_type p \<in> {Some ''access'', Some ''pin_access''} then Some p else None)"

definition decode_refresh_token :: "auth_env \<Rightarrow> datetime \<Rightarrow> string \<Rightarrow> claims option" where
  "decode_refresh_token env t token =
     (case ae_decode env (ae_jwt_refresh_secret_key env) t token of None \<Rightarrow> None
      | Some p \<Rightarrow> if cm_type p = Some ''refresh'' then Some p else None)"

definition build_token_payload :: "app_user \<Rightarrow> claims" where
  "build_token_payload u = \<lparr>cm_sub = Some (row_id u), cm_business_id = Some (business_id u),
     cm_branch_id = us_default_branch_id u, cm_tv = Some (us_token_version u), cm_fid = None,
     cm_exp = None, cm_type = None, cm_jti = None\<rparr>"

section \<open>The table of refresh tokens\<close>

record StoredRefreshToken =
  st_jti :: string
  st_user_id :: uuid
  st_business_id :: uuid
  st_family_id :: "uuid option"
  st_expires_at :: datetime
  st_revoked_at :: "datetime option"
  st_created_at :: datetime

definition stored_of :: "refresh_token \<Rightarrow> StoredRefreshToken" where
  "stored_of r = \<lparr>st_jti = rk_jti r, st_user_id = rk_user_id r, st_business_id = rk_business_id r,
     st_family_id = rk_family_id r, st_expires_at = rk_expires_at r, st_revoked_at = rk_revoked_at r,
     st_created_at = rk_created_at r\<rparr>"

definition save_refresh_token ::
  "uuid \<Rightarrow> uuid \<Rightarrow> string \<Rightarrow> datetime \<Rightarrow> string option \<Rightarrow> string option \<Rightarrow> uuid option \<Rightarrow> datetime \<Rightarrow> db \<Rightarrow> db" where
  \<comment> \<open>every caller gives \<open>created_at\<close>\<close>
  "save_refresh_token user bid jti expires_at ip_address user_agent family_id created s =
     (let (i, s) = fresh_uuid s
      in s\<lparr>refresh_tokens := refresh_tokens s @
        [\<lparr>rk_id = i, rk_user_id = user, rk_business_id = bid, rk_jti = jti, rk_family_id = family_id,
          rk_expires_at = expires_at, rk_revoked_at = None, rk_ip_address = ip_address,
          rk_user_agent = user_agent, rk_created_at = created\<rparr>]\<rparr>)"

definition get_refresh_token :: "db \<Rightarrow> string \<Rightarrow> StoredRefreshToken option" where
  "get_refresh_token s jti =
     first_row (map stored_of (filter (\<lambda>r. rk_jti r = jti) (refresh_tokens s)))"

definition get_family_successor :: "db \<Rightarrow> StoredRefreshToken \<Rightarrow> StoredRefreshToken option" where
  "get_family_successor s tok =
     (case st_family_id tok of None \<Rightarrow> None
      | Some f \<Rightarrow> first_row (map stored_of (sort_key rk_created_at
          (filter (\<lambda>r. rk_user_id r = st_user_id tok \<and> rk_family_id r = Some f \<and>
             st_created_at tok < rk_created_at r) (refresh_tokens s)))))"

definition revoke_where :: "clock \<Rightarrow> (refresh_token \<Rightarrow> bool) \<Rightarrow> db \<Rightarrow> nat \<times> db" where
  \<comment> \<open>\<open>UPDATE ... SET revoked_at = now WHERE revoked_at IS NULL AND ...\<close> and its row count\<close>
  "revoke_where c P s =
     (length (filter (\<lambda>r. rk_revoked_at r = None \<and> P r) (refresh_tokens s)),
      s\<lparr>refresh_tokens := update_where (\<lambda>r. rk_revoked_at r = None \<and> P r)
          (\<lambda>r. r\<lparr>rk_revoked_at := Some (now c)\<rparr>) (refresh_tokens s)\<rparr>)"

definition revoke_refresh_token :: "clock \<Rightarrow> string \<Rightarrow> db \<Rightarrow> bool \<times> db" where
  "revoke_refresh_token c jti s =
     (let (n, s) = revoke_where c (\<lambda>r. rk_jti r = jti) s in (0 < n, s))"

definition revoke_token_family :: "clock \<Rightarrow> uuid \<Rightarrow> uuid option \<Rightarrow> string \<Rightarrow> db \<Rightarrow> nat \<times> db" where
  \<comment> \<open>every caller gives a \<open>jti\<close>\<close>
  "revoke_token_family c user family_id jti =
     revoke_where c (\<lambda>r. rk_user_id r = user \<and>
       (if family_id \<noteq> None then rk_family_id r = family_id else rk_jti r = jti))"

definition revoke_all_user_tokens :: "clock \<Rightarrow> uuid \<Rightarrow> db \<Rightarrow> nat \<times> db" where
  "revoke_all_user_tokens c user = revoke_where c (\<lambda>r. rk_user_id r = user)"

definition PURGE_GRACE :: int where
  "PURGE_GRACE = 7 * day_us"

definition purge_stale_tokens :: "clock \<Rightarrow> uuid \<Rightarrow> db \<Rightarrow> db" where
  "purge_stale_tokens c user s =
     s\<lparr>refresh_tokens := filter (\<lambda>r. \<not> (rk_user_id r = user \<and> rk_expires_at r < now c - PURGE_GRACE))
         (refresh_tokens s)\<rparr>"

definition is_refresh_token_valid :: "clock \<Rightarrow> string \<Rightarrow> db \<Rightarrow> bool res" where
  "is_refresh_token_valid c jti s =
     bind_res (scalar_one_or_none (filter (\<lambda>r. rk_jti r = jti \<and> rk_revoked_at r = None \<and>
         now c < rk_expires_at r) (refresh_tokens s))) (\<lambda>r. Inr (r \<noteq> None))"

section \<open>Issuing\<close>

definition save_refresh_from_token ::
  "auth_env \<Rightarrow> clock \<Rightarrow> app_user \<Rightarrow> string \<Rightarrow> string option \<Rightarrow> string option \<Rightarrow> datetime \<Rightarrow> db \<Rightarrow> db res" where
  "save_refresh_from_token env c u token ip_address user_agent created s =
     (case decode_refresh_token env (now c) token of None \<Rightarrow> Inl (PyError ''TokenError'')
      | Some payload \<Rightarrow> (case (cm_jti payload, cm_exp payload) of
          (Some jti, Some expires) \<Rightarrow>
            if jti = [] \<or> expires = 0 then Inl (HTTPException 500 ''Invalid refresh token structure'' [])
            else Inr (save_refresh_token (row_id u) (business_id u) jti (expires * second_us) ip_address
                        user_agent (cm_fid payload) created s)
        | _ \<Rightarrow> Inl (HTTPException 500 ''Invalid refresh token structure'' [])))"

definition issue_refresh_token ::
  "auth_env \<Rightarrow> clock \<Rightarrow> app_user \<Rightarrow> string option \<Rightarrow> string option \<Rightarrow> uuid option \<Rightarrow> db \<Rightarrow> (string \<times> db) res" where
  "issue_refresh_token env c u ip_address user_agent family_id s =
     (let (family, s) = (case family_id of Some f \<Rightarrow> (f, s) | None \<Rightarrow> fresh_uuid s);
          (i, s) = fresh_uuid s;
          token = create_refresh_token env ((build_token_payload u)\<lparr>cm_fid := Some family\<rparr>) (now c)
            (ae_text env i)
      in bind_res (save_refresh_from_token env c u token ip_address user_agent (now c) s)
           (\<lambda>s. Inr (token, s)))"

section \<open>Logging in\<close>

definition ensure_not_locked :: "clock \<Rightarrow> app_user \<Rightarrow> unit res" where
  "ensure_not_locked c u =
     (if \<not> us_is_locked u then Inr ()
      else case us_locked_until u of None \<Rightarrow> Inr ()
      | Some locked_until \<Rightarrow>
          if now c < locked_until
          then Inl (HTTPException 403 ''Account locked. Try after {}'' [ADec (of_int locked_until)])
          else Inr ())"

definition lock_expired :: "datetime \<Rightarrow> app_user \<Rightarrow> bool" where
  "lock_expired t u \<longleftrightarrow> us_is_locked u \<and> (case us_locked_until u of Some x \<Rightarrow> x \<le> t | None \<Rightarrow> False)"

definition unlocked :: "app_user \<Rightarrow> app_user" where
  "unlocked u = u\<lparr>us_is_locked := False, us_failed_login_attempts := 0, us_locked_until := None\<rparr>"

definition update_user :: "uuid \<Rightarrow> (app_user \<Rightarrow> app_user) \<Rightarrow> db \<Rightarrow> db" where
  "update_user i f s = s\<lparr>app_users := update_where (\<lambda>r. row_id r = i) f (app_users s)\<rparr>"

definition record_failed_login ::
  "auth_env \<Rightarrow> clock \<Rightarrow> app_user \<Rightarrow> string option \<Rightarrow> string option \<Rightarrow> bool \<Rightarrow> db \<Rightarrow> http_error \<times> db" where
  "record_failed_login env c u ip_address user_agent pin s =
     (let lock_until = now c + ae_lockout_minutes env * 60 * second_us;
          before = s;
          s = update_user (row_id u) (\<lambda>r. if lock_expired (now c) r then unlocked r else r) s;
          s = update_user (row_id u) (\<lambda>r. r\<lparr>us_failed_login_attempts := us_failed_login_attempts r + 1\<rparr>) s
      in case filter (\<lambda>r. row_id r = row_id u) (app_users s) of
        [r] \<Rightarrow>
          (let attempts = us_failed_login_attempts r;
               lock = (ae_max_login_attempts env \<le> attempts);
               s = (if lock then update_user (row_id u)
                      (\<lambda>r. r\<lparr>us_is_locked := True, us_locked_until := Some lock_until\<rparr>) s else s);
               s = log_auth_event (business_id u) (Some (row_id u)) ''login_failed'' (row_id u) ip_address
                     user_agent [(''method'', JStr (if pin then ''pin'' else ''password''))] None s;
               s = (if lock then log_auth_event (business_id u) (Some (row_id u)) ''account_locked'' (row_id u)
                      ip_address user_agent [] None s else s)
           in (if lock then HTTPException 403 ''Account locked after too many attempts'' []
               else if pin then HTTPException 401 ''Invalid PIN'' []
               else HTTPException 401 ''Invalid credentials. {} attempts remaining''
                      [ADec (of_int (ae_max_login_attempts env - attempts))], s))
      | _ \<Rightarrow> (PyError ''NoResultFound'', before))"

definition slug_is :: "string \<Rightarrow> business_config \<Rightarrow> bool" where
  \<comment> \<open>\<open>config_json ->> 'slug' = slug\<close>; a slug is stored as a string\<close>
  "slug_is slug k \<longleftrightarrow> map_of (config_json k) ''slug'' = Some (JStr slug)"

definition find_business_by_slug :: "db \<Rightarrow> string \<Rightarrow> business option res" where
  "find_business_by_slug s slug =
     scalar_one_or_none (concat (map (\<lambda>b. map (\<lambda>k. b)
       (filter (\<lambda>k. business_id k = row_id b \<and> slug_is slug k \<and> live k \<and> live b \<and> bu_is_active b)
          (business_configs s))) (businesses s)))"

definition logged_in :: "clock \<Rightarrow> app_user \<Rightarrow> app_user" where
  "logged_in c u = u\<lparr>us_failed_login_attempts := 0, us_is_locked := False, us_locked_until := None,
     us_last_login_at := Some (now c), updated_at := now c\<rparr>"

definition rollback :: "db \<Rightarrow> ('a \<times> db) res \<Rightarrow> 'a res \<times> db" where
  \<comment> \<open>the state an operation leaves behind: an error leaves the one it started from\<close>
  "rollback s m = (case m of Inl e \<Rightarrow> (Inl e, s) | Inr (x, s') \<Rightarrow> (Inr x, s'))"

definition finish_login ::
  "auth_env \<Rightarrow> clock \<Rightarrow> app_user \<Rightarrow> string option \<Rightarrow> string option \<Rightarrow> bool \<Rightarrow> db \<Rightarrow>
     ((app_user \<times> string \<times> string) \<times> db) res" where
  "finish_login env c u ip_address user_agent pin s =
     (let s = update_user (row_id u) (logged_in c) s;
          u = logged_in c u;
          access_token = (if pin then create_pin_access_token env (build_token_payload u) (now c)
                          else create_access_token env (build_token_payload u) (now c))
      in bind_res (issue_refresh_token env c u ip_address user_agent None s) (\<lambda>(refresh_token, s).
         let s = purge_stale_tokens c (row_id u) s
         in Inr ((u, access_token, refresh_token),
              log_auth_event (business_id u) (Some (row_id u)) ''login_success'' (row_id u) ip_address user_agent
                [(''method'', JStr (if pin then ''pin'' else ''password''))] None s)))"

definition check_secret ::
  "auth_env \<Rightarrow> clock \<Rightarrow> app_user \<Rightarrow> string \<Rightarrow> string \<Rightarrow> string option \<Rightarrow> string option \<Rightarrow> bool \<Rightarrow> db \<Rightarrow>
     (app_user \<times> string \<times> string) res \<times> db" where
  "check_secret env c u plain hashed ip_address user_agent pin s =
     (if ae_verify env plain hashed then rollback s (finish_login env c u ip_address user_agent pin s)
      else let (e, s) = record_failed_login env c u ip_address user_agent pin s in (Inl e, s))"

definition users_with_phone :: "db \<Rightarrow> string \<Rightarrow> uuid option \<Rightarrow> app_user list" where
  "users_with_phone s phone bid =
     filter (\<lambda>u. us_phone u = Some phone \<and> live u \<and> (case bid of None \<Rightarrow> True | Some b \<Rightarrow> business_id u = b))
       (app_users s)"

definition login_business ::
  "auth_env \<Rightarrow> string option \<Rightarrow> db \<Rightarrow> uuid option res" where
  \<comment> \<open>the business whose users are searched: all of them without a slug, where the settings allow that\<close>
  "login_business env slug s =
     (case slug of
        Some x \<Rightarrow>
          if x = [] then if ae_login_require_business_slug env then bad_request ''business_slug is required''
                         else Inr None
          else bind_res (find_business_by_slug s x) (\<lambda>b. case b of
                 None \<Rightarrow> Inl (HTTPException 401 ''Invalid credentials'' [])
               | Some b \<Rightarrow> Inr (Some (row_id b)))
      | None \<Rightarrow> if ae_login_require_business_slug env then bad_request ''business_slug is required''
                else Inr None)"

definition login_user :: "auth_env \<Rightarrow> clock \<Rightarrow> string \<Rightarrow> string option \<Rightarrow> db \<Rightarrow> (app_user \<times> string) res" where
  \<comment> \<open>the user a password login names, with the stored hash: everything before the password is compared\<close>
  "login_user env c phone slug s =
     bind_res (login_business env slug s) (\<lambda>bid.
     case users_with_phone s phone bid of
       [] \<Rightarrow> Inl (HTTPException 401 ''Invalid credentials'' [])
     | [u] \<Rightarrow> (case us_password_hash u of None \<Rightarrow> Inl (HTTPException 401 ''Invalid credentials'' [])
         | Some hashed \<Rightarrow>
             if hashed = [] then Inl (HTTPException 401 ''Invalid credentials'' [])
             else bind_res (ensure_not_locked c u) (\<lambda>_.
               case business_of s u of None \<Rightarrow> forbidden ''Business account suspended''
               | Some b \<Rightarrow> if \<not> bu_is_active b \<or> deleted_at b \<noteq> None then forbidden ''Business account suspended''
                   else Inr (u, hashed)))
     | _ \<Rightarrow> Inl (HTTPException 409
              ''This phone number is used by more than one business; business_slug is required'' []))"

definition login_with_password ::
  "auth_env \<Rightarrow> clock \<Rightarrow> string \<Rightarrow> string \<Rightarrow> string option \<Rightarrow> string option \<Rightarrow> string option \<Rightarrow> db \<Rightarrow>
     (app_user \<times> string \<times> string) res \<times> db" where
  "login_with_password env c phone password ip_address user_agent slug s =
     (case login_user env c phone slug s of Inl e \<Rightarrow> (Inl e, s)
      | Inr (u, hashed) \<Rightarrow> check_secret env c u password hashed ip_address user_agent False s)"

definition pin_user :: "clock \<Rightarrow> string \<Rightarrow> uuid \<Rightarrow> db \<Rightarrow> (app_user \<times> string) res" where
  "pin_user c slug user_id s =
     bind_res (find_business_by_slug s slug) (\<lambda>b. case b of
       None \<Rightarrow> not_found ''Business not found''
     | Some b \<Rightarrow>
         bind_res (require_one (HTTPException 401 ''Invalid PIN'' [])
           (filter (\<lambda>u. row_id u = user_id \<and> business_id u = row_id b \<and> us_pin_hash u \<noteq> None \<and> live u)
              (app_users s))) (\<lambda>u.
         bind_res (ensure_not_locked c u) (\<lambda>_. Inr (u, the (us_pin_hash u)))))"

definition login_with_pin ::
  "auth_env \<Rightarrow> clock \<Rightarrow> string \<Rightarrow> uuid \<Rightarrow> string \<Rightarrow> string option \<Rightarrow> string option \<Rightarrow> db \<Rightarrow>
     (app_user \<times> string \<times> string) res \<times> db" where
  "login_with_pin env c slug user_id pin_code ip_address user_agent s =
     (case pin_user c slug user_id s of Inl e \<Rightarrow> (Inl e, s)
      | Inr (u, hashed) \<Rightarrow> check_secret env c u pin_code hashed ip_address user_agent True s)"

section \<open>Rotation\<close>

definition reject_refresh ::
  "clock \<Rightarrow> uuid \<Rightarrow> StoredRefreshToken \<Rightarrow> bool \<Rightarrow> string option \<Rightarrow> db \<Rightarrow> http_error \<times> db" where
  \<comment> \<open>revokes and records before the error is raised\<close>
  "reject_refresh c user_id tok revoke event s =
     (let s = (if revoke then snd (revoke_token_family c user_id (st_family_id tok) (st_jti tok) s) else s);
          s = (case event of None \<Rightarrow> s
               | Some e \<Rightarrow> log_auth_event (st_business_id tok) (Some user_id) e user_id None None [] None s)
      in (HTTPException 401 ''Token revoked or expired'' [], s))"

definition refreshing_users :: "db \<Rightarrow> StoredRefreshToken \<Rightarrow> app_user list" where
  "refreshing_users s tok = filter (\<lambda>u. row_id u = st_user_id tok \<and> business_id u = st_business_id tok \<and>
     live u \<and> us_status u = UserStatus_active) (app_users s)"

definition replay_recent_rotation ::
  "auth_env \<Rightarrow> clock \<Rightarrow> StoredRefreshToken \<Rightarrow> db \<Rightarrow> (string \<times> string) option res" where
  "replay_recent_rotation env c old s =
     (case st_revoked_at old of None \<Rightarrow> Inr None
      | Some revoked_at \<Rightarrow>
          let grace = ae_refresh_grace_seconds env * second_us
          in if grace \<le> 0 then Inr None
          else if grace < now c - revoked_at then Inr None
          else case get_family_successor s old of None \<Rightarrow> Inr None
          | Some successor \<Rightarrow>
              if st_revoked_at successor \<noteq> None \<or> st_expires_at successor \<le> now c \<or>
                 grace < \<bar>st_created_at successor - revoked_at\<bar> then Inr None
              else bind_res (scalar_one_or_none (refreshing_users s old)) (\<lambda>found. case found of
                None \<Rightarrow> Inr None
              | Some u \<Rightarrow>
                  if us_is_locked u then Inr None
                  else let issued_at = st_created_at successor;
                           refresh = create_refresh_token env
                             ((build_token_payload u)\<lparr>cm_fid := st_family_id old\<rparr>) issued_at (st_jti successor);
                           access = create_access_token env (build_token_payload u) issued_at
                       in Inr (Some (access, refresh))))"

definition presented_token ::
  "auth_env \<Rightarrow> clock \<Rightarrow> string \<Rightarrow> db \<Rightarrow> StoredRefreshToken res" where
  \<comment> \<open>the row of the token a client presents\<close>
  "presented_token env c token s =
     (case decode_refresh_token env (now c) token of
        None \<Rightarrow> Inl (HTTPException 401 ''Could not validate credentials'' [])
      | Some payload \<Rightarrow> (case (cm_sub payload, cm_jti payload) of
          (Some user_id, Some jti) \<Rightarrow>
            if jti = [] then Inl (HTTPException 401 ''Could not validate credentials'' [])
            else (case get_refresh_token s jti of
              None \<Rightarrow> Inl (HTTPException 401 ''Token revoked or expired'' [])
            | Some stored \<Rightarrow>
                if st_user_id stored \<noteq> user_id \<or> cm_business_id payload \<noteq> Some (st_business_id stored)
                then Inl (HTTPException 401 ''Token revoked or expired'' []) else Inr stored)
        | _ \<Rightarrow> Inl (HTTPException 401 ''Could not validate credentials'' [])))"

definition answer_reuse ::
  "auth_env \<Rightarrow> clock \<Rightarrow> StoredRefreshToken \<Rightarrow> StoredRefreshToken \<Rightarrow> db \<Rightarrow> (string \<times> string) res \<times> db" where
  \<comment> \<open>a token that is already revoked: the pair of a rotation moments ago again, or the end of the session\<close>
  "answer_reuse env c stored fresh s =
     (case replay_recent_rotation env c fresh s of
        Inl e \<Rightarrow> (Inl e, s)
      | Inr (Some pair) \<Rightarrow> (Inr pair, s)
      | Inr None \<Rightarrow>
          let (e, s) = reject_refresh c (st_user_id stored) stored True (Some ''refresh_reuse_detected'') s
          in (Inl e, s))"

definition rotate ::
  "auth_env \<Rightarrow> clock \<Rightarrow> StoredRefreshToken \<Rightarrow> string option \<Rightarrow> string option \<Rightarrow> app_user \<Rightarrow> db \<Rightarrow>
     ((string \<times> string) \<times> db) res" where
  "rotate env c stored ip_address user_agent u s =
     bind_res (issue_refresh_token env c u ip_address user_agent (st_family_id stored) s)
       (\<lambda>(new_refresh, s).
        let new_access = create_access_token env (build_token_payload u) (now c)
        in Inr ((new_access, new_refresh),
             log_auth_event (business_id u) (Some (row_id u)) ''token_refreshed'' (row_id u) None None [] None s))"

definition consume_refresh_token ::
  "auth_env \<Rightarrow> clock \<Rightarrow> StoredRefreshToken \<Rightarrow> string option \<Rightarrow> string option \<Rightarrow> db \<Rightarrow>
     (string \<times> string) res \<times> db" where
  "consume_refresh_token env c stored ip_address user_agent s =
     (let (won, s1) = revoke_refresh_token c (st_jti stored) s
      in if \<not> won then
           (case get_refresh_token s1 (st_jti stored) of
              Some fresh \<Rightarrow> answer_reuse env c stored fresh s1
            | None \<Rightarrow>
                let (e, s) = reject_refresh c (st_user_id stored) stored True (Some ''refresh_reuse_detected'') s1
                in (Inl e, s))
         else case scalar_one_or_none (refreshing_users s1 stored) of
           Inl e \<Rightarrow> (Inl e, s)
         | Inr found \<Rightarrow>
             (case (found, Option.bind found (business_of s1)) of
                (Some u, Some b) \<Rightarrow>
                  if us_is_locked u \<or> \<not> bu_is_active b \<or> deleted_at b \<noteq> None
                  then let (e, s) = reject_refresh c (st_user_id stored) stored True None s1 in (Inl e, s)
                  else rollback s (rotate env c stored ip_address user_agent u s1)
              | _ \<Rightarrow> let (e, s) = reject_refresh c (st_user_id stored) stored True None s1 in (Inl e, s)))"

definition refresh_tokens_for ::
  "auth_env \<Rightarrow> clock \<Rightarrow> string \<Rightarrow> string option \<Rightarrow> string option \<Rightarrow> db \<Rightarrow> (string \<times> string) res \<times> db" where
  \<comment> \<open>\<open>refresh_tokens\<close>\<close>
  "refresh_tokens_for env c token ip_address user_agent s =
     (case presented_token env c token s of Inl e \<Rightarrow> (Inl e, s)
      | Inr stored \<Rightarrow>
          if st_revoked_at stored \<noteq> None then answer_reuse env c stored stored s
          else if st_expires_at stored \<le> now c
          then let (e, s) = reject_refresh c (st_user_id stored) stored False None s in (Inl e, s)
          else consume_refresh_token env c stored ip_address user_agent s)"

definition logout_with_refresh_token ::
  "auth_env \<Rightarrow> clock \<Rightarrow> app_user \<Rightarrow> string \<Rightarrow> string option \<Rightarrow> string option \<Rightarrow> db \<Rightarrow> db res" where
  "logout_with_refresh_token env c u token ip_address user_agent s =
     (case decode_refresh_token env (now c) token of
        None \<Rightarrow> Inl (HTTPException 401 ''Invalid refresh token'' [])
      | Some payload \<Rightarrow>
          if cm_sub payload \<noteq> Some (row_id u) then forbidden ''Token does not belong to this user''
          else case cm_jti payload of None \<Rightarrow> Inl (HTTPException 401 ''Invalid refresh token'' [])
          | Some jti \<Rightarrow>
              if jti = [] then Inl (HTTPException 401 ''Invalid refresh token'' [])
              else let s = (case get_refresh_token s jti of None \<Rightarrow> s
                     | Some stored \<Rightarrow>
                         if st_user_id stored = row_id u
                         then snd (revoke_token_family c (row_id u) (st_family_id stored) jti s) else s)
                   in Inr (log_auth_event (business_id u) (Some (row_id u)) ''logout'' (row_id u) ip_address
                        user_agent [] None s))"

end
