(* ===== verification/Staff.thy ===== *)
theory Staff
  imports Sessions
begin

text \<open>
  The staff of a business: the standard roles and their permission keys
  (\<open>app/services/role_permission_seed.py\<close>), roles (\<open>app/services/role_service.py\<close>) and users
  (\<open>app/services/user_service.py\<close>). The operations that change what a user may do also empty the
  cache of permission keys (\<open>Access\<close>), which is the second component of their result; those that
  change a credential end the sessions of the user (\<open>Sessions\<close>). The hash of a new password or PIN is
  a parameter (passlib). The properties are in \<open>Custody\<close>.
\<close>

section \<open>Permission keys\<close>

definition RESTAURANT_PERMISSION_KEYS :: "string list" where
  "RESTAURANT_PERMISSION_KEYS = [''restaurant.floor_plans.view'', ''restaurant.floor_plans.manage'',
     ''restaurant.tables.view'', ''restaurant.tables.manage'', ''restaurant.tables.update_status'',
     ''restaurant.modifiers.view'', ''restaurant.modifiers.manage'', ''restaurant.kot.view'',
     ''restaurant.kot.update_status'', ''restaurant.kot.fire'']"

definition RESTAURANT_CASHIER_PERMISSION_KEYS :: "string list" where
  "RESTAURANT_CASHIER_PERMISSION_KEYS = [''restaurant.floor_plans.view'', ''restaurant.tables.view'',
     ''restaurant.tables.update_status'', ''restaurant.modifiers.view'', ''restaurant.kot.fire'']"

definition MANUFACTURING_PERMISSION_KEYS :: "string list" where
  "MANUFACTURING_PERMISSION_KEYS = [''manufacturing.bom.view'', ''manufacturing.bom.manage'',
     ''manufacturing.production.view'', ''manufacturing.production.create'',
     ''manufacturing.production.complete'', ''manufacturing.production.cancel'']"

definition ACCOUNTING_PERMISSION_KEYS :: "string list" where
  "ACCOUNTING_PERMISSION_KEYS = [''accounting.coa.view'', ''accounting.coa.manage'',
     ''accounting.journal.view'', ''accounting.journal.create'', ''accounting.journal.post'']"

definition ALL_PERMISSION_KEYS :: "string list" where
  "ALL_PERMISSION_KEYS =
     [''auth.login'', ''auth.logout'', ''auth.refresh'', ''products.view'', ''products.create'',
      ''products.update'', ''products.delete'', ''products.manage_categories'', ''products.manage_brands'',
      ''products.manage_units'', ''products.manage_prices'', ''products.manage_barcodes'',
      ''inventory.view'', ''inventory.adjust'', ''inventory.purchase_orders.view'',
      ''inventory.purchase_orders.create'', ''inventory.purchase_orders.receive'',
      ''inventory.transfers.view'', ''inventory.transfers.create'', ''inventory.transfers.receive'',
      ''inventory.waste.view'', ''inventory.waste.create'', ''sales.view'', ''sales.create'',
      ''sales.cancel'', ''sales.void'', ''sales.override_tax'', ''sales.apply_discount'',
      ''sales.override_price'', ''sales.returns.view'', ''sales.returns.create'', ''sales.payments.view'',
      ''discounts.view'', ''customers.view'', ''customers.create'', ''customers.update'',
      ''customers.ledger.view'', ''suppliers.view'', ''suppliers.create'', ''suppliers.update'',
      ''suppliers.ledger.view'', ''suppliers.ledger.payment'', ''expenses.view'', ''expenses.create'',
      ''expenses.update'', ''expenses.delete'', ''expenses.categories.manage'', ''registers.view'',
      ''registers.manage'', ''shifts.view'', ''shifts.open'', ''shifts.close'', ''shifts.cash_movement'',
      ''shifts.manage'', ''reports.view'', ''reports.sales'', ''reports.inventory'', ''reports.financial'',
      ''reports.analytics'', ''reports.export'', ''reports.fraud_alerts'', ''settings.view'',
      ''settings.manage'', ''users.view'', ''users.create'', ''users.update'', ''users.delete'',
      ''users.roles.manage'', ''notifications.view'', ''notifications.manage'', ''roles.view'',
      ''permissions.view'', ''branches.view''] @
     RESTAURANT_PERMISSION_KEYS @ MANUFACTURING_PERMISSION_KEYS @ ACCOUNTING_PERMISSION_KEYS"

definition OWNER_LEGACY_PERMISSION_KEYS :: "string list" where
  "OWNER_LEGACY_PERMISSION_KEYS = [''products.manage'']"

definition MANAGER_EXCLUDED_KEYS :: "string list" where
  "MANAGER_EXCLUDED_KEYS = [''users.roles.manage'', ''users.delete'', ''settings.manage'',
     ''reports.fraud_alerts'', ''expenses.delete'', ''products.delete'', ''registers.manage'',
     ''accounting.coa.manage'', ''accounting.journal.create'', ''accounting.journal.post'']"

definition CASHIER_PERMISSION_KEYS :: "string list" where
  "CASHIER_PERMISSION_KEYS =
     [''auth.login'', ''auth.logout'', ''auth.refresh'', ''products.view'', ''inventory.view'',
      ''sales.view'', ''sales.create'', ''sales.payments.view'', ''discounts.view'', ''customers.view'',
      ''customers.create'', ''registers.view'', ''shifts.open'', ''shifts.close'',
      ''shifts.cash_movement'', ''notifications.view'', ''branches.view''] @
     RESTAURANT_CASHIER_PERMISSION_KEYS"

definition STANDARD_ROLE_DEFINITIONS :: "(string \<times> string) list" where
  "STANDARD_ROLE_DEFINITIONS =
     [(''owner'', ''Business owner''), (''manager'', ''Store manager''), (''cashier'', ''POS cashier'')]"

definition lower_text :: "string \<Rightarrow> string" where
  "lower_text t = map lower_char t"

definition permission_keys_for_role :: "string \<Rightarrow> string list res" where
  "permission_keys_for_role role_name =
     (let name = lower_text role_name
      in if name = ''owner'' then Inr (ALL_PERMISSION_KEYS @ OWNER_LEGACY_PERMISSION_KEYS)
         else if name = ''manager''
         then Inr (filter (\<lambda>k. k \<notin> set MANAGER_EXCLUDED_KEYS) ALL_PERMISSION_KEYS)
         else if name = ''cashier'' then Inr CASHIER_PERMISSION_KEYS
         else Inl (PyError ''ValueError''))"

section \<open>The standard roles\<close>

definition add_role_permission :: "clock \<Rightarrow> uuid option \<Rightarrow> role \<Rightarrow> uuid \<Rightarrow> permission \<Rightarrow> db \<Rightarrow> db" where
  "add_role_permission c user r bid p s =
     (let (i, s) = fresh_uuid s
      in s\<lparr>role_permissions := role_permissions s @
        [\<lparr>rp_id = i, rp_business_id = bid, rp_role_id = row_id r, rp_permission_id = pe_id p,
          rp_created_at = now c, rp_created_by = user\<rparr>]\<rparr>)"

definition seed_role_permissions :: "clock \<Rightarrow> uuid \<Rightarrow> role \<Rightarrow> uuid option \<Rightarrow> db \<Rightarrow> (nat \<times> db) res" where
  \<comment> \<open>\<open>seed_role_permissions_async\<close>\<close>
  "seed_role_permissions c bid r user s =
     bind_res (permission_keys_for_role (ro_name r)) (\<lambda>keys.
       let wanted = filter (\<lambda>p. pe_permission_key p \<in> set keys) (permissions s);
           existing_ids = map rp_permission_id (filter (\<lambda>rp. rp_business_id rp = bid \<and>
             rp_role_id rp = row_id r \<and> rp_permission_id rp \<in> set (map pe_id wanted)) (role_permissions s));
           missing = filter (\<lambda>p. pe_id p \<notin> set existing_ids) wanted
       in Inr (length missing, fold (add_role_permission c user r bid) missing s))"

definition named_role :: "uuid \<Rightarrow> string \<Rightarrow> role \<Rightarrow> bool" where
  "named_role bid name r \<longleftrightarrow> business_id r = bid \<and> lower_text (ro_name r) = lower_text name \<and> live r"

definition flush_role :: "role \<Rightarrow> db \<Rightarrow> unit res" where
  \<comment> \<open>\<open>uq_roles_business_name\<close>: a name is unique in a business, those of deleted roles included\<close>
  "flush_role r s =
     (if list_ex (\<lambda>x. business_id x = business_id r \<and> ro_name x = ro_name r \<and> row_id x \<noteq> row_id r) (roles s)
      then Inl (PyError ''IntegrityError'') else Inr ())"

definition get_or_create_standard_role ::
  "clock \<Rightarrow> uuid \<Rightarrow> uuid option \<Rightarrow> string \<Rightarrow> string \<Rightarrow> db \<Rightarrow> ((role \<times> bool) \<times> db) res" where
  "get_or_create_standard_role c bid user role_name description s =
     bind_res (scalar_one_or_none (filter (named_role bid role_name) (roles s))) (\<lambda>found. case found of
       Some r \<Rightarrow> Inr ((r, False), s)
     | None \<Rightarrow>
         let (i, s) = fresh_uuid s;
             r = new_row i bid user (now c)
               \<lparr>ro_name = role_name, ro_description = Some description, ro_is_system = True\<rparr>
         in bind_res (flush_role r s) (\<lambda>_. Inr ((r, True), s\<lparr>roles := roles s @ [r]\<rparr>)))"

definition ensure_standard_role ::
  "clock \<Rightarrow> uuid \<Rightarrow> uuid option \<Rightarrow> string \<times> string \<Rightarrow> nat \<times> nat \<times> db \<Rightarrow> (nat \<times> nat \<times> db) res" where
  "ensure_standard_role c bid user standard st =
     (case (standard, st) of ((role_name, description), (roles_created, permissions_linked, s)) \<Rightarrow>
        bind_res (get_or_create_standard_role c bid user role_name description s) (\<lambda>((r, created), s).
        bind_res (seed_role_permissions c bid r user s) (\<lambda>(linked, s).
          Inr ((if created then Suc roles_created else roles_created), permissions_linked + linked, s))))"

definition ensure_standard_roles_and_permissions ::
  "clock \<Rightarrow> uuid \<Rightarrow> uuid option \<Rightarrow> db \<Rightarrow> (nat \<times> nat \<times> db) res" where
  "ensure_standard_roles_and_permissions c bid user s =
     fold_res (ensure_standard_role c bid user) STANDARD_ROLE_DEFINITIONS (0, 0, s)"

section \<open>Roles\<close>

record RoleResponse =
  rr_role :: role
  rr_permission_keys :: "string list"
  rr_permissions :: "permission list"

definition role_permission_items :: "db \<Rightarrow> role \<Rightarrow> permission list" where
  "role_permission_items s r = concat (map (\<lambda>rp.
     case permission_of s rp of None \<Rightarrow> [] | Some p \<Rightarrow> [p])
       (filter (\<lambda>rp. rp_role_id rp = row_id r) (role_permissions s)))"

definition role_to_response :: "db \<Rightarrow> role \<Rightarrow> RoleResponse" where
  "role_to_response s r =
     (let items = role_permission_items s r
      in \<lparr>rr_role = r, rr_permission_keys = sort (map pe_permission_key items),
          rr_permissions = sort_key pe_permission_key items\<rparr>)"

definition get_permissions_catalog :: "db \<Rightarrow> (string \<times> permission list) list" where
  "get_permissions_catalog s =
     (let rows = sort_key (\<lambda>p. (pe_module p, pe_permission_key p)) (permissions s)
      in map (\<lambda>m. (m, filter (\<lambda>p. pe_module p = m) rows)) (sort (remdups (map pe_module rows))))"

definition resolve_permissions_by_keys :: "db \<Rightarrow> string list \<Rightarrow> permission list res" where
  \<comment> \<open>the dictionary's values, in the order of its sorted keys\<close>
  "resolve_permissions_by_keys s permission_keys =
     (if permission_keys = [] then Inr []
      else let unique_keys = sort (remdups permission_keys);
               found = filter (\<lambda>p. pe_permission_key p \<in> set unique_keys) (permissions s);
               missing = filter (\<lambda>k. k \<notin> set (map pe_permission_key found)) unique_keys
           in if missing \<noteq> []
              then Inl (HTTPException 400 ''Unknown permission keys: {}'' (map AStr missing))
              else Inr (concat (map (\<lambda>k. case find (\<lambda>p. pe_permission_key p = k) (rev found) of
                     None \<Rightarrow> [] | Some p \<Rightarrow> [p]) unique_keys)))"

definition required_owner_permission_keys :: "db \<Rightarrow> string list res" where
  "required_owner_permission_keys s =
     bind_res (permission_keys_for_role ''owner'') (\<lambda>keys.
       Inr (filter (\<lambda>k. k \<in> set keys) (map pe_permission_key (permissions s))))"

definition ensure_unique_role_name :: "db \<Rightarrow> uuid \<Rightarrow> string \<Rightarrow> uuid option \<Rightarrow> unit res" where
  "ensure_unique_role_name s bid name exclude_role_id =
     bind_res (scalar_one_or_none (filter (\<lambda>r. named_role bid name r \<and> Some (row_id r) \<noteq> exclude_role_id)
         (roles s))) (\<lambda>conflict.
       if conflict \<noteq> None then Inl (HTTPException 409 ''Role name '{}' is already in use'' [AStr name])
       else Inr ())"

definition get_role_by_id :: "db \<Rightarrow> uuid \<Rightarrow> uuid \<Rightarrow> role res" where
  "get_role_by_id s role_id bid =
     require_one (HTTPException 404 ''Role not found'' [])
       (filter (\<lambda>r. row_id r = role_id \<and> business_id r = bid \<and> live r) (roles s))"

definition list_roles_for_business :: "db \<Rightarrow> uuid \<Rightarrow> RoleResponse list" where
  "list_roles_for_business s bid =
     map (role_to_response s) (sort_key (\<lambda>r. (\<not> ro_is_system r, ro_name r))
       (filter (\<lambda>r. business_id r = bid \<and> live r) (roles s)))"

definition load_role_permissions :: "db \<Rightarrow> role \<Rightarrow> role_permission list" where
  "load_role_permissions s r =
     filter (\<lambda>rp. rp_role_id rp = row_id r \<and> rp_business_id rp = business_id r) (role_permissions s)"

definition current_by_key :: "db \<Rightarrow> role \<Rightarrow> (string \<times> role_permission) list" where
  "current_by_key s r = concat (map (\<lambda>rp. case permission_of s rp of None \<Rightarrow> []
     | Some p \<Rightarrow> [(pe_permission_key p, rp)]) (load_role_permissions s r))"

definition replace_permissions_of_role ::
  "clock \<Rightarrow> role \<Rightarrow> string list \<Rightarrow> uuid \<Rightarrow> db \<Rightarrow> ((string list \<times> string list) \<times> db) res" where
  \<comment> \<open>\<open>_replace_role_permissions\<close>\<close>
  "replace_permissions_of_role c r permission_keys user s =
     bind_res
       (if ro_is_system r \<and> lower_text (ro_name r) = ''owner''
        then bind_res (required_owner_permission_keys s) (\<lambda>required.
          let stripped = sort (remdups (filter (\<lambda>k. k \<notin> set permission_keys) required))
          in if stripped \<noteq> []
             then Inl (HTTPException 400 ''The owner role must retain all permissions; cannot remove: {}''
                    (map AStr stripped))
             else Inr ())
        else Inr ()) (\<lambda>_.
     bind_res (resolve_permissions_by_keys s permission_keys) (\<lambda>perms.
       let new_keys = map pe_permission_key perms;
           current = current_by_key s r;
           s = s\<lparr>role_permissions := filter (\<lambda>rp. \<not> (\<exists>(k, x)\<in>set current.
                   k \<notin> set new_keys \<and> map_of (rev current) k = Some rp)) (role_permissions s)\<rparr>;
           s = fold (add_role_permission c (Some user) r (business_id r))
                 (filter (\<lambda>p. pe_permission_key p \<notin> set (map fst current)) perms) s
       in Inr ((sort (remdups (map fst current)), sort new_keys), s)))"

record CreateRoleRequest =
  crr_name :: string
  crr_description :: "string option"
  crr_permission_keys :: "string list"

definition json_texts :: "string list \<Rightarrow> json" where
  "json_texts ts = JList (map JStr ts)"

definition create_role ::
  "clock \<Rightarrow> uuid \<Rightarrow> CreateRoleRequest \<Rightarrow> uuid \<Rightarrow> db \<Rightarrow> permission_cache \<Rightarrow> (role \<times> db \<times> permission_cache) res" where
  "create_role c bid data user s p =
     bind_res (ensure_unique_role_name s bid (crr_name data) None) (\<lambda>_.
       let (i, s) = fresh_uuid s;
           r = new_row i bid (Some user) (now c)
             \<lparr>ro_name = strip_ws (crr_name data), ro_description = crr_description data, ro_is_system = False\<rparr>
             \<lparr>updated_by := Some user\<rparr>
       in bind_res (flush_role r s) (\<lambda>_.
          let s = s\<lparr>roles := roles s @ [r]\<rparr> in
          bind_res (if crr_permission_keys data = [] then Inr s
            else bind_res (replace_permissions_of_role c r (crr_permission_keys data) user s) (\<lambda>(_, s). Inr s)) (\<lambda>s.
          let s = log_audit bid (Some user) None AuditAction_create ''roles'' (row_id r) None
                (Some [(''name'', JStr (ro_name r)),
                       (''permission_keys'', json_texts (sort (crr_permission_keys data)))]) s
          in Inr (r, s, cache_invalidate_all p))))"

record UpdateRoleRequest =
  urr_name :: "string option"
  urr_description :: "string option"

definition renames :: "UpdateRoleRequest \<Rightarrow> role \<Rightarrow> bool" where
  "renames data r \<longleftrightarrow> (case urr_name data of None \<Rightarrow> False
     | Some n \<Rightarrow> lower_text (strip_ws n) \<noteq> lower_text (ro_name r))"

definition update_role ::
  "clock \<Rightarrow> uuid \<Rightarrow> uuid \<Rightarrow> UpdateRoleRequest \<Rightarrow> uuid \<Rightarrow> db \<Rightarrow> permission_cache \<Rightarrow> (db \<times> permission_cache) res" where
  "update_role c role_id bid data user s p =
     bind_res (get_role_by_id s role_id bid) (\<lambda>r.
     bind_res
       (if renames data r
        then if ro_is_system r
          then bad_request (''System roles (owner, manager, cashier) cannot be renamed because authorization checks '' @
                 ''depend on role name. You may update the description or adjust permissions instead.'')
          else bind_res (ensure_unique_role_name s bid (the (urr_name data)) (Some (row_id r))) (\<lambda>_.
                 Inr (strip_ws (the (urr_name data))))
        else Inr (ro_name r)) (\<lambda>name.
       let r' = r\<lparr>ro_name := name, ro_description := set_some (urr_description data) (ro_description r),
                  updated_by := Some user, updated_at := now c\<rparr>
       in bind_res (flush_role r' s) (\<lambda>_.
       let s = s\<lparr>roles := update_where (\<lambda>x. row_id x = row_id r) (\<lambda>_. r') (roles s)\<rparr>;
           text_of = (\<lambda>d. case d of None \<Rightarrow> JNull | Some t \<Rightarrow> JStr t);
           s = log_audit bid (Some user) None AuditAction_update ''roles'' (row_id r)
                 (Some [(''name'', JStr (ro_name r)), (''description'', text_of (ro_description r))])
                 (Some [(''name'', JStr (ro_name r')), (''description'', text_of (ro_description r'))]) s
       in Inr (s, cache_invalidate_all p))))"

definition delete_role ::
  "clock \<Rightarrow> uuid \<Rightarrow> uuid \<Rightarrow> uuid \<Rightarrow> db \<Rightarrow> permission_cache \<Rightarrow> (db \<times> permission_cache) res" where
  "delete_role c role_id bid user s p =
     bind_res (get_role_by_id s role_id bid) (\<lambda>r.
       if ro_is_system r then bad_request ''System roles cannot be deleted''
       else let assigned_count = length (filter (\<lambda>ur. ur_role_id ur = role_id \<and> business_id ur = bid \<and> live ur)
                  (user_roles s))
         in if 0 < assigned_count
            then Inl (HTTPException 409 ''Cannot delete role: {} user(s) still assigned. Reassign them first.''
                   [ADec (of_nat assigned_count)])
            else let s = s\<lparr>roles := update_where (\<lambda>x. row_id x = row_id r)
                       (\<lambda>x. x\<lparr>deleted_at := Some (now c), deleted_by := Some user, updated_at := now c,
                              updated_by := Some user\<rparr>) (roles s)\<rparr>;
                     s = log_audit bid (Some user) None AuditAction_delete ''roles'' (row_id r)
                           (Some [(''name'', JStr (ro_name r))]) None s
                 in Inr (s, cache_invalidate_all p))"

definition replace_role_permissions ::
  "clock \<Rightarrow> uuid \<Rightarrow> uuid \<Rightarrow> string list \<Rightarrow> uuid \<Rightarrow> db \<Rightarrow> permission_cache \<Rightarrow> (db \<times> permission_cache) res" where
  "replace_role_permissions c role_id bid permission_keys user s p =
     bind_res (get_role_by_id s role_id bid) (\<lambda>r.
     bind_res (replace_permissions_of_role c r permission_keys user s) (\<lambda>((before_keys, after_keys), s).
       let s = s\<lparr>roles := update_where (\<lambda>x. row_id x = row_id r)
                 (\<lambda>x. x\<lparr>updated_by := Some user, updated_at := now c\<rparr>) (roles s)\<rparr>;
           s = log_audit bid (Some user) None AuditAction_update ''role_permissions'' (row_id r)
                 (Some [(''role'', JStr (ro_name r)), (''permission_keys'', json_texts before_keys)])
                 (Some [(''role'', JStr (ro_name r)), (''permission_keys'', json_texts after_keys),
                        (''added'', json_texts (filter (\<lambda>k. k \<notin> set before_keys) after_keys)),
                        (''removed'', json_texts (filter (\<lambda>k. k \<notin> set after_keys) before_keys))]) s
       in Inr (s, cache_invalidate_all p)))"

section \<open>Users\<close>

definition is_owner :: "db \<Rightarrow> app_user \<Rightarrow> bool" where
  "is_owner s u \<longleftrightarrow> list_ex (\<lambda>ur. live ur \<and>
     (case role_of s ur of None \<Rightarrow> False | Some r \<Rightarrow> live r \<and> owner_role r)) (user_roles_of s u)"

definition assert_branch_in_business :: "db \<Rightarrow> uuid \<Rightarrow> uuid \<Rightarrow> unit res" where
  "assert_branch_in_business s branch_id bid =
     bind_res (scalar_one_or_none (filter (\<lambda>b. row_id b = branch_id \<and> business_id b = bid \<and> live b) (branches s)))
       (\<lambda>found. if found = None then bad_request ''Branch not found in this business'' else Inr ())"

definition count_active_owners :: "db \<Rightarrow> uuid \<Rightarrow> nat" where
  "count_active_owners s bid =
     length (filter (\<lambda>u. business_id u = bid \<and> live u \<and> is_owner s u) (app_users s))"

definition resolve_business_roles :: "db \<Rightarrow> uuid \<Rightarrow> uuid list \<Rightarrow> role list res" where
  "resolve_business_roles s bid role_ids =
     (let unique_ids = remdups role_ids;
          found = filter (\<lambda>r. business_id r = bid \<and> row_id r \<in> set unique_ids \<and> live r) (roles s)
      in if length found \<noteq> length unique_ids
         then bad_request ''One or more roles not found for this business'' else Inr found)"

definition assigned :: "uuid \<Rightarrow> uuid \<Rightarrow> user_role \<Rightarrow> bool" where
  \<comment> \<open>\<open>_load_user_role_assignments\<close>\<close>
  "assigned bid user ur \<longleftrightarrow> business_id ur = bid \<and> ur_user_id ur = user"

definition assign_role :: "clock \<Rightarrow> app_user \<Rightarrow> uuid option \<Rightarrow> uuid \<Rightarrow> role \<Rightarrow> db \<Rightarrow> db" where
  \<comment> \<open>a new row of \<open>user_roles\<close>\<close>
  "assign_role c u branch_id actor r s =
     (let (i, s) = fresh_uuid s
      in s\<lparr>user_roles := user_roles s @ [new_row i (business_id u) (Some actor) (now c)
           \<lparr>ur_user_id = row_id u, ur_role_id = row_id r, ur_branch_id = branch_id\<rparr>]\<rparr>)"

definition restore_role :: "clock \<Rightarrow> app_user \<Rightarrow> uuid \<Rightarrow> role \<Rightarrow> db \<Rightarrow> db" where
  \<comment> \<open>the second loop of \<open>_replace_user_roles\<close>: keep, reactivate or add an assignment\<close>
  "restore_role c u actor r s =
     (let branch_id = us_default_branch_id u;
          existing = filter (\<lambda>a. assigned (business_id u) (row_id u) a \<and> ur_role_id a = row_id r) (user_roles s)
      in if list_ex live existing then s
         else case find (\<lambda>a. \<not> live a \<and> ur_branch_id a = branch_id) existing of
           Some a \<Rightarrow> s\<lparr>user_roles := update_where (\<lambda>x. row_id x = row_id a)
               (\<lambda>x. x\<lparr>deleted_at := None, updated_at := now c\<rparr>) (user_roles s)\<rparr>
         | None \<Rightarrow> assign_role c u branch_id actor r s)"

definition replace_assignments :: "clock \<Rightarrow> app_user \<Rightarrow> role list \<Rightarrow> uuid \<Rightarrow> db \<Rightarrow> db" where
  \<comment> \<open>\<open>_replace_user_roles\<close>\<close>
  "replace_assignments c u new_roles actor s =
     (let s = s\<lparr>user_roles := update_where (\<lambda>a. assigned (business_id u) (row_id u) a \<and> live a \<and>
              ur_role_id a \<notin> set (map row_id new_roles))
            (\<lambda>a. a\<lparr>deleted_at := Some (now c), updated_at := now c\<rparr>) (user_roles s)\<rparr>
      in fold (restore_role c u actor) new_roles s)"

definition get_user_by_id :: "db \<Rightarrow> uuid \<Rightarrow> uuid \<Rightarrow> app_user res" where
  "get_user_by_id s user_id bid =
     bind_res (require_one (HTTPException 404 ''User not found'' [])
         (filter (\<lambda>u. row_id u = user_id \<and> live u) (app_users s))) (\<lambda>u.
       if business_id u \<noteq> bid then forbidden ''Access denied'' else Inr u)"

definition touch_user :: "clock \<Rightarrow> uuid \<Rightarrow> app_user \<Rightarrow> app_user" where
  "touch_user c actor u = u\<lparr>updated_by := Some actor, updated_at := now c\<rparr>"

definition replace_user_roles ::
  "clock \<Rightarrow> uuid \<Rightarrow> uuid \<Rightarrow> uuid list \<Rightarrow> uuid \<Rightarrow> db \<Rightarrow> permission_cache \<Rightarrow> (db \<times> permission_cache) res" where
  "replace_user_roles c user_id bid role_ids actor s p =
     bind_res (get_user_by_id s user_id bid) (\<lambda>u.
     bind_res (resolve_business_roles s bid role_ids) (\<lambda>new_roles.
       if is_owner s u \<and> \<not> list_ex owner_role new_roles \<and> count_active_owners s bid \<le> 1
       then bad_request ''Cannot remove the owner role from the last owner of the business''
       else let before_roles = sort (concat (map (\<lambda>ur. if live ur
                  then (case role_of s ur of None \<Rightarrow> [] | Some r \<Rightarrow> [ro_name r]) else []) (user_roles_of s u)));
                s = replace_assignments c u new_roles actor s;
                s = update_user (row_id u) (touch_user c actor) s;
                s = log_audit bid (Some actor) (us_default_branch_id u) AuditAction_update ''user_roles'' (row_id u)
                      (Some [(''roles'', json_texts before_roles)])
                      (Some [(''event'', JStr ''roles_changed''),
                             (''roles'', json_texts (sort (map ro_name new_roles)))]) s
            in Inr (s, cache_invalidate_all p)))"

definition get_users_for_business :: "db \<Rightarrow> uuid \<Rightarrow> string option \<Rightarrow> app_user list" where
  "get_users_for_business s bid role_filter =
     (let users = sort_key us_full_name (filter (\<lambda>u. business_id u = bid \<and> live u) (app_users s))
      in case role_filter of None \<Rightarrow> users
         | Some f \<Rightarrow> filter (\<lambda>u. list_ex (\<lambda>ur. live ur \<and> (case role_of s ur of None \<Rightarrow> False
             | Some r \<Rightarrow> live r \<and> lower_text (ro_name r) = lower_text f)) (user_roles_of s u)) users)"

definition phone_conflict :: http_error where
  "phone_conflict = HTTPException 409 ''Phone number already registered'' []"

definition check_phone_free :: "db \<Rightarrow> string \<Rightarrow> unit res" where
  "check_phone_free s phone =
     bind_res (scalar_one_or_none (filter (\<lambda>u. us_phone u = Some phone \<and> live u) (app_users s)))
       (\<lambda>found. if found \<noteq> None then Inl phone_conflict else Inr ())"

record CreateUserRequest =
  cur_full_name :: string
  cur_phone :: string
  cur_password :: string
  cur_branch_id :: "uuid option"
  cur_role_ids :: "uuid list"

definition new_user ::
  "uuid \<Rightarrow> uuid \<Rightarrow> uuid option \<Rightarrow> datetime \<Rightarrow> uuid option \<Rightarrow> string \<Rightarrow> string \<Rightarrow> string \<Rightarrow> app_user" where
  "new_user i bid actor t branch_id full_name phone password_hash =
     new_row i bid actor t
       \<lparr>us_default_branch_id = branch_id, us_email = None, us_phone = Some phone,
        us_password_hash = Some password_hash, us_full_name = full_name, us_pin_hash = None,
        us_is_locked = False, us_failed_login_attempts = 0, us_locked_until = None,
        us_password_changed_at = None, us_token_version = 0, us_status = UserStatus_active,
        us_last_login_at = None\<rparr>"

definition create_tenant_user ::
  "(string \<Rightarrow> string) \<Rightarrow> clock \<Rightarrow> uuid \<Rightarrow> CreateUserRequest \<Rightarrow> uuid \<Rightarrow> db \<Rightarrow> permission_cache \<Rightarrow>
     (app_user \<times> db \<times> permission_cache) res" where
  \<comment> \<open>\<open>uq_users_business_phone\<close> covers the phones of deleted users of the business\<close>
  "create_tenant_user hash_password c bid data creator_id s p =
     bind_res (check_phone_free s (cur_phone data)) (\<lambda>_.
     bind_res (case cur_branch_id data of None \<Rightarrow> Inr ()
               | Some b \<Rightarrow> assert_branch_in_business s b bid) (\<lambda>_.
       if list_ex (\<lambda>u. business_id u = bid \<and> us_phone u = Some (cur_phone data)) (app_users s)
       then Inl phone_conflict
       else
       let (i, s) = fresh_uuid s;
           u = new_user i bid (Some creator_id) (now c) (cur_branch_id data) (cur_full_name data)
                 (cur_phone data) (hash_password (cur_password data));
           s = s\<lparr>app_users := app_users s @ [u]\<rparr>;
           given = filter (\<lambda>r. business_id r = bid \<and> row_id r \<in> set (cur_role_ids data) \<and> live r) (roles s);
           s = fold (assign_role c u (cur_branch_id data) creator_id) given s
       in Inr (u, s, cache_invalidate_all p)))"

record UpdateUserRequest =
  uur_full_name :: "string option"
  uur_branch_id :: "uuid option"
  uur_is_active :: "bool option"

definition user_status_text :: "user_status_enum \<Rightarrow> string" where
  "user_status_text st = (case st of UserStatus_active \<Rightarrow> ''active'' | UserStatus_inactive \<Rightarrow> ''inactive''
     | UserStatus_locked \<Rightarrow> ''locked'')"

definition user_profile :: "app_user \<Rightarrow> (string \<times> json) list" where
  "user_profile u = [(''full_name'', JStr (us_full_name u)),
     (''status'', JStr (user_status_text (us_status u))),
     (''branch_id'', (case us_default_branch_id u of None \<Rightarrow> JNull | Some b \<Rightarrow> JUuid b))]"

definition unique_assignments :: "user_role list \<Rightarrow> bool" where
  \<comment> \<open>\<open>uq_user_roles\<close>: deleted rows count, rows without a branch are never equal\<close>
  "unique_assignments rows \<longleftrightarrow>
     distinct (map (\<lambda>a. (business_id a, ur_user_id a, ur_role_id a, ur_branch_id a))
       (filter (\<lambda>a. ur_branch_id a \<noteq> None) rows))"

definition move_assignments :: "uuid \<Rightarrow> uuid \<Rightarrow> db \<Rightarrow> db res" where
  "move_assignments user branch_id s =
     (let rows = update_where (\<lambda>a. ur_user_id a = user \<and> live a \<and> ur_branch_id a \<noteq> None)
            (\<lambda>a. a\<lparr>ur_branch_id := Some branch_id\<rparr>) (user_roles s)
      in if unique_assignments rows then Inr (s\<lparr>user_roles := rows\<rparr>) else Inl (PyError ''IntegrityError''))"

definition change_branch :: "uuid option \<Rightarrow> uuid \<Rightarrow> app_user \<Rightarrow> db \<Rightarrow> (app_user \<times> db) res" where
  "change_branch branch_id bid u s =
     (case branch_id of None \<Rightarrow> Inr (u, s)
      | Some b \<Rightarrow> bind_res (assert_branch_in_business s b bid) (\<lambda>_.
          bind_res (move_assignments (row_id u) b s) (\<lambda>s. Inr (u\<lparr>us_default_branch_id := Some b\<rparr>, s))))"

definition set_active :: "clock \<Rightarrow> bool option \<Rightarrow> app_user \<Rightarrow> db \<Rightarrow> app_user \<times> db" where
  "set_active c is_active u s =
     (case is_active of None \<Rightarrow> (u, s)
      | Some active \<Rightarrow>
          let (u, s) = (if \<not> active \<and> us_status u = UserStatus_active
                then (u\<lparr>us_token_version := us_token_version u + 1\<rparr>, snd (revoke_all_user_tokens c (row_id u) s))
                else (u, s))
          in (u\<lparr>us_status := (if active then UserStatus_active else UserStatus_inactive)\<rparr>, s))"

definition log_profile_change :: "uuid \<Rightarrow> uuid \<Rightarrow> app_user \<Rightarrow> app_user \<Rightarrow> db \<Rightarrow> db" where
  "log_profile_change bid actor u u' s =
     (let before = user_profile u;
          after = user_profile u';
          event = (if us_status u \<noteq> us_status u'
                   then if us_status u' \<noteq> UserStatus_active then ''user_deactivated'' else ''user_reactivated''
                   else ''profile_updated'')
      in if before \<noteq> after
         then log_audit bid (Some actor) (us_default_branch_id u') AuditAction_update ''users'' (row_id u)
                (Some before) (Some (after @ [(''event'', JStr event)])) s
         else s)"

definition update_tenant_user :: "clock \<Rightarrow> uuid \<Rightarrow> uuid \<Rightarrow> UpdateUserRequest \<Rightarrow> uuid \<Rightarrow> db \<Rightarrow> db res" where
  "update_tenant_user c user_id bid data actor s =
     bind_res (get_user_by_id s user_id bid) (\<lambda>u.
     bind_res (change_branch (uur_branch_id data) bid
         (u\<lparr>us_full_name := or_else (uur_full_name data) (us_full_name u)\<rparr>) s) (\<lambda>(u2, s).
       let (u3, s) = set_active c (uur_is_active data) u2 s;
           s = log_profile_change bid actor u u3 s
       in Inr (update_user (row_id u) (\<lambda>_. touch_user c actor u3) s)))"

definition verify_current_secret ::
  "auth_env \<Rightarrow> app_user \<Rightarrow> string option \<Rightarrow> string option \<Rightarrow> unit res" where
  "verify_current_secret env u current_password current_pin =
     (let hash_of = (\<lambda>h. case h of None \<Rightarrow> [] | Some t \<Rightarrow> t);
          wrong = forbidden ''Current password or PIN is incorrect''
      in if current_password \<noteq> None \<and> hash_of (us_password_hash u) \<noteq> []
         then if ae_verify env (the current_password) (hash_of (us_password_hash u)) then Inr () else wrong
         else if current_pin \<noteq> None \<and> hash_of (us_pin_hash u) \<noteq> []
         then if ae_verify env (the current_pin) (hash_of (us_pin_hash u)) then Inr () else wrong
         else if current_password = None \<and> current_pin = None
         then bad_request ''current_password or current_pin is required''
         else wrong)"

definition secret_changed :: "clock \<Rightarrow> uuid \<Rightarrow> app_user \<Rightarrow> app_user" where
  \<comment> \<open>what every change of a credential does to the user row beside the hash\<close>
  "secret_changed c actor u =
     touch_user c actor (u\<lparr>us_token_version := us_token_version u + 1, us_password_changed_at := Some (now c)\<rparr>)"

definition set_user_pin ::
  "auth_env \<Rightarrow> (string \<Rightarrow> string) \<Rightarrow> clock \<Rightarrow> uuid \<Rightarrow> uuid \<Rightarrow> string \<Rightarrow> app_user \<Rightarrow> string option \<Rightarrow>
     string option \<Rightarrow> db \<Rightarrow> db res" where
  "set_user_pin env hash_pin c target_user_id bid pin_code requesting_user current_password current_pin s =
     bind_res (get_user_by_id s target_user_id bid) (\<lambda>target.
       let is_self = (row_id requesting_user = target_user_id)
       in if \<not> is_self \<and> \<not> is_owner s requesting_user then forbidden ''Not allowed to set PIN for this user''
          else bind_res (if is_self then verify_current_secret env target current_password current_pin
                         else Inr ()) (\<lambda>_.
            let s = update_user (row_id target) (\<lambda>u. (secret_changed c (row_id requesting_user) u)
                      \<lparr>us_pin_hash := Some (hash_pin pin_code)\<rparr>) s;
                s = snd (revoke_all_user_tokens c (row_id target) s)
            in Inr (log_auth_event bid (Some (row_id requesting_user))
                 (if is_self then ''pin_changed'' else ''pin_reset'') (row_id target) None None []
                 (us_default_branch_id target) s)))"

definition change_own_password ::
  "auth_env \<Rightarrow> (string \<Rightarrow> string) \<Rightarrow> clock \<Rightarrow> app_user \<Rightarrow> string \<Rightarrow> string \<Rightarrow> db \<Rightarrow> db res" where
  \<comment> \<open>the user is the one the request was authenticated as\<close>
  "change_own_password env hash_password c u current_password new_password s =
     (let hash = (case us_password_hash u of None \<Rightarrow> [] | Some h \<Rightarrow> h)
      in if hash = [] \<or> \<not> ae_verify env current_password hash then forbidden ''Current password is incorrect''
         else if ae_verify env new_password hash
         then bad_request ''New password must differ from the current password''
         else let s = update_user (row_id u) (\<lambda>x. (secret_changed c (row_id u) x)
                        \<lparr>us_password_hash := Some (hash_password new_password)\<rparr>) s;
                  s = snd (revoke_all_user_tokens c (row_id u) s)
              in Inr (log_auth_event (business_id u) (Some (row_id u)) ''password_changed'' (row_id u)
                   None None [] None s))"

definition reset_user_password ::
  "(string \<Rightarrow> string) \<Rightarrow> clock \<Rightarrow> uuid \<Rightarrow> uuid \<Rightarrow> string \<Rightarrow> app_user \<Rightarrow> db \<Rightarrow> db res" where
  "reset_user_password hash_password c target_user_id bid new_password requesting_user s =
     (if target_user_id = row_id requesting_user
      then bad_request ''Use change-password to change your own password''
      else bind_res (get_user_by_id s target_user_id bid) (\<lambda>target.
        if is_owner s target \<and> \<not> is_owner s requesting_user
        then forbidden ''Only an owner can reset an owner's password''
        else let s = update_user (row_id target) (\<lambda>u. unlocked (secret_changed c (row_id requesting_user) u)
                       \<lparr>us_password_hash := Some (hash_password new_password)\<rparr>) s;
                 s = snd (revoke_all_user_tokens c (row_id target) s)
             in Inr (log_auth_event bid (Some (row_id requesting_user)) ''password_reset'' (row_id target)
                  None None [(''target_user_id'', JUuid (row_id target))] (us_default_branch_id target) s)))"

definition soft_delete_tenant_user ::
  "clock \<Rightarrow> uuid \<Rightarrow> uuid \<Rightarrow> uuid \<Rightarrow> db \<Rightarrow> permission_cache \<Rightarrow> (db \<times> permission_cache) res" where
  "soft_delete_tenant_user c user_id bid current_user_id s p =
     (if user_id = current_user_id then bad_request ''Cannot delete your own account''
      else bind_res (get_user_by_id s user_id bid) (\<lambda>u.
        if is_owner s u \<and> count_active_owners s bid \<le> 1
        then bad_request ''Cannot delete the last owner of the business''
        else let s = update_user (row_id u) (\<lambda>x. x\<lparr>deleted_at := Some (now c), deleted_by := Some current_user_id,
                       us_status := UserStatus_inactive, us_token_version := us_token_version x + 1,
                       updated_at := now c\<rparr>) s;
                 s = snd (revoke_all_user_tokens c user_id s);
                 s = log_audit bid (Some current_user_id) (us_default_branch_id u) AuditAction_delete ''users''
                       (row_id u) (Some [(''status'', JStr ''active''), (''full_name'', JStr (us_full_name u))])
                       (Some [(''event'', JStr ''user_deleted'')]) s
             in Inr (s, cache_invalidate_all p)))"

end
