(* ===== verification/Onboarding.thy ===== *)
theory Onboarding
  imports Staff
begin

text \<open>
  Registration of a business (\<open>app/services/registration_service.py\<close>) with the presets of its type
  (\<open>app/services/onboarding_presets.py\<close>): one transaction makes the business, its configuration,
  its first branch, the standard roles and the owner. The table of business types, the random numbers
  a slug may need, the hash of the password and the days of a trial are arguments. Slugs are modelled
  on ASCII names.
\<close>

section \<open>Presets\<close>

definition DEFAULT_FLAGS :: "(string \<times> bool) list" where
  "DEFAULT_FLAGS =
     [(''enable_restaurant'', False), (''enable_manufacturing'', False), (''enable_loyalty'', False),
      (''enable_multi_price_list'', False), (''enable_batch_tracking'', False),
      (''enable_expiry_tracking'', False), (''enable_weight_billing'', False),
      (''enable_table_management'', False), (''enable_kot'', False), (''enable_offline_mode'', True),
      (''enable_accounting'', False), (''default_tax_inclusive'', False), (''allow_negative_stock'', False),
      (''fifo_costing_enabled'', True)]"

definition ONBOARDING_PRESETS_BY_CODE :: "(string \<times> (string \<times> bool) list) list" where
  "ONBOARDING_PRESETS_BY_CODE =
     [(''bakery'', [(''enable_manufacturing'', True), (''enable_weight_billing'', True),
         (''enable_expiry_tracking'', True), (''enable_batch_tracking'', True)]),
      (''restaurant'', [(''enable_restaurant'', True), (''enable_kot'', True),
         (''enable_table_management'', True), (''enable_multi_price_list'', True)]),
      (''mart'', [(''enable_expiry_tracking'', True), (''enable_batch_tracking'', True),
         (''enable_weight_billing'', True), (''enable_multi_price_list'', True)]),
      (''retail'', [(''enable_loyalty'', True), (''enable_multi_price_list'', True)]),
      (''hardware'', [(''enable_multi_price_list'', True)]),
      (''pharmacy'', [(''enable_expiry_tracking'', True), (''enable_batch_tracking'', True)]),
      (''wholesale'', [(''enable_multi_price_list'', True), (''enable_weight_billing'', True),
         (''allow_negative_stock'', True)]),
      (''electronics'', [(''enable_multi_price_list'', True), (''enable_loyalty'', True)]),
      (''salon'', [(''enable_loyalty'', True)]),
      (''other'', [])]"

definition build_onboarding_config_json :: "string \<Rightarrow> (string \<times> bool) list" where
  \<comment> \<open>the flags in their order, each with the value of the preset where it has one\<close>
  "build_onboarding_config_json code =
     (let overrides = (case map_of ONBOARDING_PRESETS_BY_CODE code of None \<Rightarrow> [] | Some p \<Rightarrow> p)
      in map (\<lambda>(k, v). (k, or_else (map_of overrides k) v)) DEFAULT_FLAGS)"

definition flag_on :: "(string \<times> bool) list \<Rightarrow> string \<Rightarrow> bool" where
  "flag_on flags k = (map_of flags k = Some True)"

definition onboarding_config :: "uuid \<Rightarrow> uuid \<Rightarrow> datetime \<Rightarrow> string \<Rightarrow> string \<Rightarrow> business_config" where
  \<comment> \<open>\<open>build_onboarding_config_row\<close> and the row registration makes of it\<close>
  "onboarding_config i bid t code slug =
     (let flags = build_onboarding_config_json code; on = flag_on flags
      in new_row i bid None t
        \<lparr>allow_negative_stock = on ''allow_negative_stock'', enable_restaurant = on ''enable_restaurant'',
         enable_manufacturing = on ''enable_manufacturing'', enable_loyalty = on ''enable_loyalty'',
         enable_multi_price_list = on ''enable_multi_price_list'',
         enable_batch_tracking = on ''enable_batch_tracking'',
         enable_expiry_tracking = on ''enable_expiry_tracking'',
         enable_weight_billing = on ''enable_weight_billing'',
         enable_table_management = on ''enable_table_management'', enable_kot = on ''enable_kot'',
         enable_offline_mode = on ''enable_offline_mode'', enable_accounting = on ''enable_accounting'',
         default_tax_inclusive = on ''default_tax_inclusive'',
         fifo_costing_enabled = on ''fifo_costing_enabled'', receipt_prefix = Some ''RCP'',
         invoice_prefix = Some ''INV'', po_prefix = Some ''PO'',
         config_json = map (\<lambda>(k, v). (k, JBool v)) flags @ [(''slug'', JStr slug)]\<rparr>)"

section \<open>Slugs\<close>

definition space_char :: "char \<Rightarrow> bool" where
  "space_char ch \<longleftrightarrow> of_char ch \<in> {9, 10, 11, 12, 13, 28, 29, 30, 31, 32 :: nat}"

definition word_char :: "char \<Rightarrow> bool" where
  \<comment> \<open>\<open>\w\<close> of \<open>re\<close>\<close>
  "word_char ch \<longleftrightarrow> (let n = (of_char ch :: nat)
     in (48 \<le> n \<and> n \<le> 57) \<or> (65 \<le> n \<and> n \<le> 90) \<or> (97 \<le> n \<and> n \<le> 122) \<or> ch = CHR ''_'')"

definition gap_char :: "char \<Rightarrow> bool" where
  "gap_char ch \<longleftrightarrow> space_char ch \<or> ch = CHR ''_''"

function dash_gaps :: "string \<Rightarrow> string" where
  \<comment> \<open>\<open>re.sub\<close> of every run of gap characters by a dash\<close>
  "dash_gaps [] = []"
| "dash_gaps (ch # t) =
     (if gap_char ch then CHR ''-'' # dash_gaps (dropWhile gap_char t) else ch # dash_gaps t)"
  by pat_completeness auto
termination by (relation "measure length") (auto simp: le_imp_less_Suc length_dropWhile_le)

definition strip_dashes :: "string \<Rightarrow> string" where
  "strip_dashes t = rev (dropWhile (\<lambda>ch. ch = CHR ''-'') (rev (dropWhile (\<lambda>ch. ch = CHR ''-'') t)))"

definition slugify :: "string \<Rightarrow> string" where
  "slugify name =
     (let v = strip_ws (lower_text name);
          v = filter (\<lambda>ch. word_char ch \<or> space_char ch \<or> ch = CHR ''-'') v;
          v = take 200 (strip_dashes (dash_gaps v))
      in if v = [] then ''business'' else v)"

definition slug_exists :: "db \<Rightarrow> string \<Rightarrow> bool" where
  "slug_exists s slug \<longleftrightarrow> list_ex (\<lambda>k. slug_is slug k \<and> live k) (business_configs s)"

definition business_slug :: "db \<Rightarrow> uuid \<Rightarrow> string res" where
  \<comment> \<open>\<open>business_slug_from_business\<close>\<close>
  "business_slug s bid =
     (case find (\<lambda>k. business_id k = bid) (business_configs s) of
        None \<Rightarrow> Inl (HTTPException 500 ''Business configuration not loaded'' [])
      | Some k \<Rightarrow>
          if \<not> live k then Inl (HTTPException 500 ''Business configuration not loaded'' [])
          else (case map_of (config_json k) ''slug'' of
            Some (JStr t) \<Rightarrow> if t = [] then Inl (HTTPException 500 ''Business slug not configured'' []) else Inr t
          | _ \<Rightarrow> Inl (HTTPException 500 ''Business slug not configured'' [])))"

definition generate_unique_slug :: "(nat \<Rightarrow> nat) \<Rightarrow> db \<Rightarrow> string \<Rightarrow> string res" where
  \<comment> \<open>the first argument is the source of the random numbers from 1000 to 9999\<close>
  "generate_unique_slug draw s name =
     (let base = slugify name
      in if \<not> slug_exists s base then Inr base
         else case find (\<lambda>candidate. \<not> slug_exists s candidate)
             (map (\<lambda>n. base @ ''-'' @ digits (draw n)) [0..<20]) of
           Some candidate \<Rightarrow> Inr candidate
         | None \<Rightarrow> Inl (HTTPException 500 ''Could not generate unique business slug'' []))"

section \<open>Registration\<close>

record business_type =
  bt_id :: uuid
  bt_code :: string
  bt_is_active :: bool

record RegisterBusinessRequest =
  rbr_business_name :: string
  rbr_business_type_code :: string
  rbr_owner_name :: string
  rbr_owner_phone :: string
  rbr_owner_password :: string
  rbr_branch_name :: string
  rbr_city :: "string option"

record registration_env =
  re_business_types :: "business_type list"
  re_hash_password :: "string \<Rightarrow> string"
  re_trial_days :: nat
  re_draw :: "nat \<Rightarrow> nat"

definition new_business :: "uuid \<Rightarrow> datetime \<Rightarrow> nat \<Rightarrow> RegisterBusinessRequest \<Rightarrow> business" where
  "new_business i t trial_days data = new_row i i None t
     \<lparr>bu_name = rbr_business_name data, bu_legal_name = None, bu_tax_id = None, bu_email = None,
      bu_phone = Some (rbr_owner_phone data), bu_address_line1 = None, bu_address_line2 = None,
      bu_city = rbr_city data, bu_state = None, bu_postal_code = None, bu_country_code = ''PK'',
      bu_currency_code = ''PKR'', bu_timezone = ''Asia/Karachi'', bu_logo_url = None,
      bu_subscription_plan = SubscriptionPlan_trial, bu_subscription_status = SubscriptionStatus_trial,
      bu_trial_ends_at = Some (t + int trial_days * day_us), bu_subscription_ends_at = None,
      bu_plan_id = None, bu_is_active = True\<rparr>"

definition first_branch :: "uuid \<Rightarrow> uuid \<Rightarrow> datetime \<Rightarrow> RegisterBusinessRequest \<Rightarrow> branch" where
  "first_branch i bid t data = new_row i bid None t
     \<lparr>br_name = rbr_branch_name data, br_code = None, br_is_head_office = True, br_is_active = True,
      br_address_line1 = None, br_address_line2 = None, br_city = rbr_city data, br_state = None,
      br_postal_code = None, br_phone = None, br_email = None\<rparr>"

definition made_by :: "uuid \<Rightarrow> 'a row_scheme list \<Rightarrow> uuid \<Rightarrow> 'a row_scheme list" where
  "made_by i rows user = update_where (\<lambda>r. row_id r = i) (\<lambda>r. r\<lparr>created_by := Some user\<rparr>) rows"

definition add_business_rows ::
  "registration_env \<Rightarrow> datetime \<Rightarrow> RegisterBusinessRequest \<Rightarrow> string \<Rightarrow> db \<Rightarrow>
     (app_user \<times> business \<times> business_config \<times> branch) \<times> db" where
  \<comment> \<open>the business, its configuration, its branch and its first user\<close>
  "add_business_rows env t data slug s =
     (let (bid, s) = fresh_uuid s;
          (ki, s) = fresh_uuid s;
          (bri, s) = fresh_uuid s;
          (ui, s) = fresh_uuid s;
          b = new_business bid t (re_trial_days env) data;
          config = onboarding_config ki bid t (rbr_business_type_code data) slug;
          br = first_branch bri bid t data;
          u = new_user ui bid None t (Some bri) (rbr_owner_name data) (rbr_owner_phone data)
                (re_hash_password env (rbr_owner_password data))
      in ((u, b, config, br),
          s\<lparr>businesses := businesses s @ [b], business_configs := business_configs s @ [config],
            branches := branches s @ [br], app_users := app_users s @ [u]\<rparr>))"

definition make_owner :: "clock \<Rightarrow> app_user \<Rightarrow> db \<Rightarrow> db res" where
  \<comment> \<open>the standard roles, and the first user as the owner\<close>
  "make_owner c u s =
     bind_res (ensure_standard_roles_and_permissions c (business_id u) (Some (row_id u)) s) (\<lambda>(_, _, s).
     bind_res (scalar_one_or_none (filter (named_role (business_id u) ''owner'') (roles s))) (\<lambda>owner_role.
       case owner_role of
         None \<Rightarrow> Inl (HTTPException 500 ''Owner role was not created during registration'' [])
       | Some r \<Rightarrow> Inr (assign_role c u None (row_id u) r s)))"

definition register_new_business ::
  "registration_env \<Rightarrow> clock \<Rightarrow> RegisterBusinessRequest \<Rightarrow> db \<Rightarrow> ((app_user \<times> business) \<times> db) res" where
  "register_new_business env c data s =
     bind_res (scalar_one_or_none (filter (\<lambda>b. bt_code b = rbr_business_type_code data \<and> bt_is_active b)
         (re_business_types env))) (\<lambda>business_type.
       if business_type = None
       then Inl (HTTPException 400 ''Business type '{}' is not supported'' [AStr (rbr_business_type_code data)])
       else
     bind_res (check_phone_free s (rbr_owner_phone data)) (\<lambda>_.
     bind_res (generate_unique_slug (re_draw env) s (rbr_business_name data)) (\<lambda>slug.
       let ((u, b, config, br), s) = add_business_rows env (now c) data slug s
       in bind_res (make_owner c u s) (\<lambda>s.
          Inr ((u, b\<lparr>created_by := Some (row_id u)\<rparr>),
               s\<lparr>businesses := made_by (row_id b) (businesses s) (row_id u),
                 business_configs := made_by (row_id config) (business_configs s) (row_id u),
                 branches := made_by (row_id br) (branches s) (row_id u)\<rparr>)))))"

end
