(* ===== verification/Custody.thy ===== *)
theory Custody
  imports Onboarding
begin

text \<open>
  What the operations on roles and users (\<open>Staff\<close>) keep: a business that was registered
  (\<open>Onboarding\<close>) always has a user with the owner role, and that role has every key of the standard
  owner. \<open>custody\<close> is the invariant; each operation keeps it. A change of the roles of a user takes effect
  with the next request.
\<close>

section \<open>A business and its owner\<close>

definition staff_ids :: "db \<Rightarrow> bool" where
  \<comment> \<open>primary keys, and the unique keys of permissions\<close>
  "staff_ids s \<longleftrightarrow> inj (uuid_gen s) \<and> keyed (app_users s) s \<and> keyed (roles s) s \<and> keyed (user_roles s) s \<and>
     distinct (map pe_id (permissions s)) \<and> distinct (map pe_permission_key (permissions s))"

definition staff_linked :: "db \<Rightarrow> bool" where
  \<comment> \<open>an assignment is of a role and a user of its own business\<close>
  "staff_linked s \<longleftrightarrow> (\<forall>a\<in>set (user_roles s).
     (\<exists>r\<in>set (roles s). row_id r = ur_role_id a \<and> business_id r = business_id a) \<and>
     (\<exists>u\<in>set (app_users s). row_id u = ur_user_id a \<and> business_id u = business_id a))"

definition is_owner_role :: "uuid \<Rightarrow> role \<Rightarrow> bool" where
  "is_owner_role bid r \<longleftrightarrow> business_id r = bid \<and> live r \<and> owner_role r"

definition owner_needs :: "db \<Rightarrow> string \<Rightarrow> bool" where
  \<comment> \<open>a key of the standard owner role that the table of permissions has\<close>
  "owner_needs s k \<longleftrightarrow> k \<in> set (ALL_PERMISSION_KEYS @ OWNER_LEGACY_PERMISSION_KEYS) \<and>
     k \<in> set (map pe_permission_key (permissions s))"

definition owner_roles_whole :: "uuid \<Rightarrow> db \<Rightarrow> bool" where
  "owner_roles_whole bid s \<longleftrightarrow> (\<forall>r\<in>set (roles s). is_owner_role bid r \<longrightarrow>
     ro_is_system r \<and> (\<forall>k. owner_needs s k \<longrightarrow> k \<in> set (role_keys s bid r)))"

definition owns_business :: "uuid \<Rightarrow> db \<Rightarrow> app_user \<Rightarrow> bool" where
  "owns_business bid s u \<longleftrightarrow> u \<in> set (app_users s) \<and> business_id u = bid \<and> live u \<and>
     (\<exists>a\<in>set (user_roles s). live a \<and> ur_user_id a = row_id u \<and>
        (\<exists>r\<in>set (roles s). row_id r = ur_role_id a \<and> is_owner_role bid r))"

definition custody :: "uuid \<Rightarrow> db \<Rightarrow> bool" where
  "custody bid s \<longleftrightarrow> staff_ids s \<and> staff_linked s \<and> owner_roles_whole bid s \<and> (\<exists>u. owns_business bid s u)"

lemma distinct_find:
  "distinct (map key xs) \<Longrightarrow> x \<in> set xs \<Longrightarrow> key x = k \<Longrightarrow> find (\<lambda>y. key y = k) xs = Some x"
  by (induction xs) (auto simp: image_iff)

lemma find_member: "find P xs = Some x \<Longrightarrow> x \<in> set xs \<and> P x"
  by (induction xs) (auto split: if_splits)

lemma distinct_key_eq: "distinct (map key xs) \<Longrightarrow> x \<in> set xs \<Longrightarrow> y \<in> set xs \<Longrightarrow> key x = key y \<Longrightarrow> x = y"
  by (metis distinct_find option.inject)

lemma staff_idsD:
  assumes "staff_ids s"
  shows "inj (uuid_gen s)" "distinct (map row_id (app_users s))" "distinct (map row_id (roles s))"
    "distinct (map row_id (user_roles s))" "distinct (map pe_id (permissions s))"
    "distinct (map pe_permission_key (permissions s))"
  using assms by (auto simp: staff_ids_def keyed_def)

lemma role_of_iff:
  assumes "staff_ids s"
  shows "role_of s a = Some r \<longleftrightarrow> r \<in> set (roles s) \<and> row_id r = ur_role_id a"
  unfolding role_of_def using distinct_find [OF staff_idsD(3) [OF assms]] find_member [of _ "roles s" r] by blast

lemma linked_role:
  assumes "staff_ids s" "staff_linked s" "a \<in> set (user_roles s)" "r \<in> set (roles s)" "row_id r = ur_role_id a"
  shows "business_id r = business_id a"
  using assms distinct_key_eq [OF staff_idsD(3) [OF assms(1)]] unfolding staff_linked_def by metis

lemma linked_user:
  assumes "staff_ids s" "staff_linked s" "a \<in> set (user_roles s)" "u \<in> set (app_users s)" "row_id u = ur_user_id a"
  shows "business_id u = business_id a"
  using assms distinct_key_eq [OF staff_idsD(2) [OF assms(1)]] unfolding staff_linked_def by metis

lemma owns_businessI:
  "u \<in> set (app_users s) \<Longrightarrow> business_id u = bid \<Longrightarrow> live u \<Longrightarrow> a \<in> set (user_roles s) \<Longrightarrow> live a \<Longrightarrow>
     ur_user_id a = row_id u \<Longrightarrow> r \<in> set (roles s) \<Longrightarrow> row_id r = ur_role_id a \<Longrightarrow> is_owner_role bid r \<Longrightarrow>
     owns_business bid s u"
  unfolding owns_business_def by blast

lemma owns_iff_is_owner:
  assumes "staff_ids s" "staff_linked s" "u \<in> set (app_users s)" "business_id u = bid" "live u"
  shows "owns_business bid s u \<longleftrightarrow> is_owner s u"
proof
  assume "owns_business bid s u"
  then obtain a r where a: "a \<in> set (user_roles s)" "live a" "ur_user_id a = row_id u" "r \<in> set (roles s)"
    "row_id r = ur_role_id a" "live r" "owner_role r" unfolding owns_business_def is_owner_role_def by blast
  then have "role_of s a = Some r" by (simp add: role_of_iff [OF assms(1)])
  then show "is_owner s u" using a unfolding is_owner_def list_ex_iff user_roles_of_def by force
next
  assume "is_owner s u"
  then obtain a r where a: "a \<in> set (user_roles s)" "live a" "ur_user_id a = row_id u" "role_of s a = Some r"
    "live r" "owner_role r"
    unfolding is_owner_def list_ex_iff user_roles_of_def by (auto split: option.splits)
  then have r: "r \<in> set (roles s)" "row_id r = ur_role_id a" by (auto simp: role_of_iff [OF assms(1)])
  have "business_id r = bid"
    using linked_role [OF assms(1,2) a(1) r] linked_user [OF assms(1,2) a(1) assms(3)] a(3) assms(4) by simp
  then show "owns_business bid s u" using assms a r unfolding owns_business_def is_owner_role_def by blast
qed

lemma owner_holds_every_key:
  assumes "custody bid s" "owns_business bid s u" "owner_needs s k"
  shows "k \<in> compute_permission_keys s u"
proof -
  have ids: "staff_ids s" "staff_linked s" using assms(1) by (auto simp: custody_def)
  from assms(2) obtain a r where a: "u \<in> set (app_users s)" "business_id u = bid" "a \<in> set (user_roles s)" "live a"
    "ur_user_id a = row_id u" "r \<in> set (roles s)" "row_id r = ur_role_id a" "is_owner_role bid r"
    unfolding owns_business_def by blast
  have "k \<in> set (role_keys s bid r)"
    using assms(1,3) a(6,8) unfolding custody_def owner_roles_whole_def by blast
  then obtain rp p where rp: "rp \<in> set (role_permissions s)" "rp_role_id rp = row_id r" "rp_business_id rp = bid"
    "permission_of s rp = Some p" "k = pe_permission_key p" unfolding role_keys_iff by blast
  have "role_of s a = Some r" using a by (simp add: role_of_iff [OF ids(1)])
  moreover have "business_id a = bid" using linked_user [OF ids a(3,1)] a(2,5) by simp
  ultimately show ?thesis using a rp unfolding compute_permission_keys_iff granted_def
    by (intro bexI [of _ a] bexI [of _ rp] exI [of _ r] exI [of _ p]) (auto simp: is_owner_role_def)
qed

section \<open>Operations that keep the keys of the rows\<close>

definition user_key :: "app_user \<Rightarrow> uuid \<times> uuid \<times> bool" where
  "user_key u = (row_id u, business_id u, live u)"

definition role_key :: "uuid \<Rightarrow> role \<Rightarrow> uuid \<times> uuid \<times> bool \<times> bool" where
  "role_key bid r = (row_id r, business_id r, is_owner_role bid r, ro_is_system r)"

definition assignment_key :: "user_role \<Rightarrow> uuid \<times> uuid \<times> uuid \<times> uuid \<times> bool" where
  "assignment_key a = (row_id a, business_id a, ur_user_id a, ur_role_id a, live a)"

lemma map_key_mem: "map k ys = map k xs \<Longrightarrow> y \<in> set ys \<Longrightarrow> \<exists>x\<in>set xs. k x = k y"
  by (metis (no_types, lifting) image_iff list.set_map)

lemma map_row_ids:
  "map user_key us' = map user_key us \<Longrightarrow> map row_id us' = map row_id us"
  "map (role_key bid) rs' = map (role_key bid) rs \<Longrightarrow> map row_id rs' = map row_id rs"
  "map assignment_key as' = map assignment_key as \<Longrightarrow> map row_id as' = map row_id as"
  by (drule arg_cong [where f = "map fst"], simp add: user_key_def role_key_def assignment_key_def comp_def)+

lemma permission_of_cong: "permissions s' = permissions s \<Longrightarrow> permission_of s' = permission_of s"
  by (rule ext) (simp add: permission_of_def)

lemma role_keys_cong:
  assumes "role_permissions s' = role_permissions s" "permissions s' = permissions s" "row_id r' = row_id r"
  shows "role_keys s' bid r' = role_keys s bid r"
  unfolding role_keys_def permission_of_cong [OF assms(2)] assms(1,3) ..

lemma custody_same:
  assumes "custody bid s" "map user_key (app_users s') = map user_key (app_users s)"
    "map (role_key bid) (roles s') = map (role_key bid) (roles s)"
    "map assignment_key (user_roles s') = map assignment_key (user_roles s)"
    "role_permissions s' = role_permissions s" "permissions s' = permissions s"
    "uuid_gen s' = uuid_gen s" "drawn s \<subseteq> drawn s'"
  shows "custody bid s'"
proof -
  have ids: "staff_ids s'"
    using assms(1,6,7,8) map_row_ids(1) [OF assms(2)] map_row_ids(2) [OF assms(3)] map_row_ids(3) [OF assms(4)]
    unfolding custody_def staff_ids_def keyed_def
    by (metis (no_types, lifting) dual_order.trans list.set_map)
  have linked: "staff_linked s'"
    unfolding staff_linked_def
  proof
    fix a' assume "a' \<in> set (user_roles s')"
    then obtain a where a: "a \<in> set (user_roles s)" "assignment_key a = assignment_key a'"
      using map_key_mem [OF assms(4)] by blast
    then obtain r u where "r \<in> set (roles s)" "row_id r = ur_role_id a" "business_id r = business_id a"
      "u \<in> set (app_users s)" "row_id u = ur_user_id a" "business_id u = business_id a"
      using assms(1) unfolding custody_def staff_linked_def by blast
    moreover obtain r' where "r' \<in> set (roles s')" "role_key bid r' = role_key bid r"
      using map_key_mem [OF assms(3) [symmetric]] calculation(1) by blast
    moreover obtain u' where "u' \<in> set (app_users s')" "user_key u' = user_key u"
      using map_key_mem [OF assms(2) [symmetric]] calculation(4) by blast
    ultimately show "(\<exists>r\<in>set (roles s'). row_id r = ur_role_id a' \<and> business_id r = business_id a') \<and>
        (\<exists>u\<in>set (app_users s'). row_id u = ur_user_id a' \<and> business_id u = business_id a')"
      using a(2) unfolding assignment_key_def role_key_def user_key_def by auto
  qed
  have whole: "owner_roles_whole bid s'"
    unfolding owner_roles_whole_def
  proof (intro ballI impI)
    fix r' assume "r' \<in> set (roles s')" "is_owner_role bid r'"
    moreover obtain r where "r \<in> set (roles s)" "role_key bid r = role_key bid r'"
      using map_key_mem [OF assms(3)] calculation(1) by blast
    ultimately have r: "ro_is_system r'" "\<forall>k. owner_needs s k \<longrightarrow> k \<in> set (role_keys s bid r)" "row_id r' = row_id r"
      using assms(1) unfolding custody_def owner_roles_whole_def role_key_def by auto
    then show "ro_is_system r' \<and> (\<forall>k. owner_needs s' k \<longrightarrow> k \<in> set (role_keys s' bid r'))"
      using role_keys_cong [OF assms(5,6) r(3)] assms(6) by (simp add: owner_needs_def)
  qed
  from assms(1) obtain u a r where o: "u \<in> set (app_users s)" "business_id u = bid" "live u"
    "a \<in> set (user_roles s)" "live a" "ur_user_id a = row_id u" "r \<in> set (roles s)" "row_id r = ur_role_id a"
    "is_owner_role bid r" unfolding custody_def owns_business_def by blast
  obtain u' where "u' \<in> set (app_users s')" "user_key u' = user_key u"
    using map_key_mem [OF assms(2) [symmetric] o(1)] by blast
  moreover obtain a' where "a' \<in> set (user_roles s')" "assignment_key a' = assignment_key a"
    using map_key_mem [OF assms(4) [symmetric] o(4)] by blast
  moreover obtain r' where "r' \<in> set (roles s')" "role_key bid r' = role_key bid r"
    using map_key_mem [OF assms(3) [symmetric] o(7)] by blast
  ultimately have "owns_business bid s' u'"
    using o by (intro owns_businessI [of u' _ _ a' r']) (auto simp: user_key_def assignment_key_def role_key_def)
  then show ?thesis using ids linked whole unfolding custody_def by blast
qed

section \<open>Operations that add rows\<close>

lemma role_keys_grow:
  assumes "role_permissions s' = role_permissions s @ rps" "permissions s' = permissions s" "row_id r' = row_id r"
  shows "set (role_keys s bid r) \<subseteq> set (role_keys s' bid r')"
  using assms unfolding subset_iff role_keys_iff permission_of_cong [OF assms(2)] by auto

lemma custody_extend:
  assumes "custody bid s" "staff_ids s'" "app_users s' = app_users s @ us" "roles s' = roles s @ rs"
    "user_roles s' = user_roles s @ as" "role_permissions s' = role_permissions s @ rps" "permissions s' = permissions s"
    and linked: "\<And>a. a \<in> set as \<Longrightarrow> \<exists>r\<in>set (roles s'). row_id r = ur_role_id a \<and> business_id r = business_id a"
      "\<And>a. a \<in> set as \<Longrightarrow> \<exists>u\<in>set (app_users s'). row_id u = ur_user_id a \<and> business_id u = business_id a"
    and new: "\<And>r k. r \<in> set rs \<Longrightarrow> is_owner_role bid r \<Longrightarrow> ro_is_system r"
      "\<And>r k. r \<in> set rs \<Longrightarrow> is_owner_role bid r \<Longrightarrow> owner_needs s k \<Longrightarrow> k \<in> set (role_keys s' bid r)"
  shows "custody bid s'"
proof -
  have "staff_linked s'"
    unfolding staff_linked_def
  proof
    fix a assume "a \<in> set (user_roles s')"
    then consider "a \<in> set (user_roles s)" | "a \<in> set as" using assms(5) by auto
    then show "(\<exists>r\<in>set (roles s'). row_id r = ur_role_id a \<and> business_id r = business_id a) \<and>
        (\<exists>u\<in>set (app_users s'). row_id u = ur_user_id a \<and> business_id u = business_id a)"
    proof cases
      case 1
      then show ?thesis using assms(1,3,4) unfolding custody_def staff_linked_def by fastforce
    qed (use linked in blast)
  qed
  moreover have "owner_roles_whole bid s'"
    unfolding owner_roles_whole_def
  proof (intro ballI impI)
    fix r assume r: "r \<in> set (roles s')" "is_owner_role bid r"
    have needs: "owner_needs s' k = owner_needs s k" for k by (simp add: owner_needs_def assms(7))
    show "ro_is_system r \<and> (\<forall>k. owner_needs s' k \<longrightarrow> k \<in> set (role_keys s' bid r))"
    proof (cases "r \<in> set rs")
      case True
      then show ?thesis using new r(2) by (simp add: needs)
    next
      case False
      then have "r \<in> set (roles s)" using r(1) assms(4) by simp
      then show ?thesis using assms(1) r(2) role_keys_grow [OF assms(6,7) refl, of bid r]
        unfolding custody_def owner_roles_whole_def needs by blast
    qed
  qed
  moreover have "\<exists>u. owns_business bid s' u"
    using assms(1,3,4,5) unfolding custody_def owns_business_def by (metis Un_iff set_append)
  ultimately show ?thesis using assms(2) unfolding custody_def by blast
qed

lemma fresh_uuid_eq: "fresh_uuid s = (i, s') \<longleftrightarrow> i = uuid_gen s (uuid_next s) \<and> s' = s\<lparr>uuid_next := Suc (uuid_next s)\<rparr>"
  by (auto simp: fresh_uuid_def)

lemma drawn_next: "uuid_next s \<le> n \<Longrightarrow> drawn s \<subseteq> drawn (s\<lparr>uuid_next := n\<rparr>)"
  by (auto simp: drawn_def)

lemma drawn_eqI: "uuid_gen s' = uuid_gen s \<Longrightarrow> uuid_next s \<le> uuid_next s' \<Longrightarrow> drawn s \<subseteq> drawn s'"
  unfolding drawn_def by auto

lemma staff_ids_snoc:
  assumes "staff_ids s" "i = uuid_gen s (uuid_next s)"
  shows "row_id a = i \<Longrightarrow> staff_ids (s\<lparr>uuid_next := Suc (uuid_next s), user_roles := user_roles s @ [a]\<rparr>)"
    "row_id u = i \<Longrightarrow> staff_ids (s\<lparr>uuid_next := Suc (uuid_next s), app_users := app_users s @ [u]\<rparr>)"
    "row_id r = i \<Longrightarrow> staff_ids (s\<lparr>uuid_next := Suc (uuid_next s), roles := roles s @ [r]\<rparr>)"
    "staff_ids (s\<lparr>uuid_next := Suc (uuid_next s), role_permissions := rps\<rparr>)"
proof -
  let ?n = "s\<lparr>uuid_next := Suc (uuid_next s)\<rparr>"
  have f: "fresh_uuid s = (i, ?n)" using assms(2) by (simp add: fresh_uuid_def)
  have d: "drawn (s\<lparr>uuid_next := Suc (uuid_next s), user_roles := x1\<rparr>) = drawn ?n"
    "drawn (s\<lparr>uuid_next := Suc (uuid_next s), app_users := x2\<rparr>) = drawn ?n"
    "drawn (s\<lparr>uuid_next := Suc (uuid_next s), roles := x3\<rparr>) = drawn ?n"
    "drawn (s\<lparr>uuid_next := Suc (uuid_next s), role_permissions := rps\<rparr>) = drawn ?n" for x1 x2 x3
    by (simp_all add: drawn_def)
  have g: "drawn s \<subseteq> drawn ?n" by (simp add: drawn_next)
  have new: "i \<notin> drawn s" "drawn ?n = insert i (drawn s)"
    using fresh_uuid_new [OF _ f] assms(1) fresh_uuid_drawn [OF f] by (auto simp: staff_ids_def)
  show "staff_ids (s\<lparr>uuid_next := Suc (uuid_next s), user_roles := user_roles s @ [a]\<rparr>)" if "row_id a = i"
    using assms(1) new that unfolding staff_ids_def keyed_def d by auto
  show "staff_ids (s\<lparr>uuid_next := Suc (uuid_next s), app_users := app_users s @ [u]\<rparr>)" if "row_id u = i"
    using assms(1) new that unfolding staff_ids_def keyed_def d by auto
  show "staff_ids (s\<lparr>uuid_next := Suc (uuid_next s), roles := roles s @ [r]\<rparr>)" if "row_id r = i"
    using assms(1) new that unfolding staff_ids_def keyed_def d by auto
  show "staff_ids (s\<lparr>uuid_next := Suc (uuid_next s), role_permissions := rps\<rparr>)"
    using assms(1) new unfolding staff_ids_def keyed_def d by auto
qed

lemma assign_role_eq:
  "assign_role c u branch_id actor r s = s\<lparr>uuid_next := Suc (uuid_next s), user_roles := user_roles s @
     [new_row (uuid_gen s (uuid_next s)) (business_id u) (Some actor) (now c)
        \<lparr>ur_user_id = row_id u, ur_role_id = row_id r, ur_branch_id = branch_id\<rparr>]\<rparr>"
  by (simp add: assign_role_def fresh_uuid_def)

definition assigns :: "app_user \<Rightarrow> role list \<Rightarrow> user_role \<Rightarrow> bool" where
  "assigns u rs a \<longleftrightarrow> business_id a = business_id u \<and> ur_user_id a = row_id u \<and> live a \<and>
     ur_role_id a \<in> set (map row_id rs)"

lemma assign_roles:
  assumes "staff_ids s"
  shows "\<exists>as n. fold (assign_role c u branch_id actor) rs s = s\<lparr>uuid_next := n, user_roles := user_roles s @ as\<rparr> \<and>
    uuid_next s \<le> n \<and> staff_ids (s\<lparr>uuid_next := n, user_roles := user_roles s @ as\<rparr>) \<and> (\<forall>a\<in>set as. assigns u rs a)"
  using assms
proof (induction rs arbitrary: s)
  case Nil
  have "s\<lparr>uuid_next := uuid_next s, user_roles := user_roles s @ []\<rparr> = s" by simp
  then show ?case using Nil by (intro exI [of _ "[]"] exI [of _ "uuid_next s"]) simp
next
  case (Cons r rs)
  let ?a = "new_row (uuid_gen s (uuid_next s)) (business_id u) (Some actor) (now c)
        \<lparr>ur_user_id = row_id u, ur_role_id = row_id r, ur_branch_id = branch_id\<rparr>"
  let ?s = "s\<lparr>uuid_next := Suc (uuid_next s), user_roles := user_roles s @ [?a]\<rparr>"
  have "staff_ids ?s" by (rule staff_ids_snoc(1) [OF Cons.prems refl]) simp
  from Cons.IH [OF this] obtain as n where as: "fold (assign_role c u branch_id actor) rs ?s =
      s\<lparr>uuid_next := n, user_roles := user_roles s @ ?a # as\<rparr>" "Suc (uuid_next s) \<le> n"
    "staff_ids (s\<lparr>uuid_next := n, user_roles := user_roles s @ ?a # as\<rparr>)" "\<forall>a\<in>set as. assigns u rs a" by auto
  have "assigns u (r # rs) ?a" "\<forall>a\<in>set as. assigns u (r # rs) a" using as(4) by (auto simp: assigns_def live_def)
  then show ?case
    using as(1-3) by (intro exI [of _ "?a # as"] exI [of _ n]) (simp add: assign_role_eq [of c u branch_id actor r s])
qed

lemma add_role_permission_eq:
  "add_role_permission c user r bid p s = s\<lparr>uuid_next := Suc (uuid_next s), role_permissions := role_permissions s @
     [\<lparr>rp_id = uuid_gen s (uuid_next s), rp_business_id = bid, rp_role_id = row_id r, rp_permission_id = pe_id p,
       rp_created_at = now c, rp_created_by = user\<rparr>]\<rparr>"
  by (simp add: add_role_permission_def fresh_uuid_def)

lemma add_role_permissions:
  assumes "staff_ids s"
  shows "\<exists>rps n. fold (add_role_permission c user r bid) ps s = s\<lparr>uuid_next := n, role_permissions := role_permissions s @ rps\<rparr> \<and>
    uuid_next s \<le> n \<and> staff_ids (s\<lparr>uuid_next := n, role_permissions := role_permissions s @ rps\<rparr>) \<and>
    map (\<lambda>rp. (rp_business_id rp, rp_role_id rp, rp_permission_id rp)) rps = map (\<lambda>p. (bid, row_id r, pe_id p)) ps"
  using assms
proof (induction ps arbitrary: s)
  case Nil
  have "s\<lparr>uuid_next := uuid_next s, role_permissions := role_permissions s @ []\<rparr> = s" by simp
  then show ?case using Nil by (intro exI [of _ "[]"] exI [of _ "uuid_next s"]) simp
next
  case (Cons p ps)
  let ?rp = "\<lparr>rp_id = uuid_gen s (uuid_next s), rp_business_id = bid, rp_role_id = row_id r, rp_permission_id = pe_id p,
       rp_created_at = now c, rp_created_by = user\<rparr>"
  let ?s = "s\<lparr>uuid_next := Suc (uuid_next s), role_permissions := role_permissions s @ [?rp]\<rparr>"
  have "staff_ids ?s" by (rule staff_ids_snoc(4) [OF Cons.prems refl])
  from Cons.IH [OF this] obtain rps n where "fold (add_role_permission c user r bid) ps ?s =
      s\<lparr>uuid_next := n, role_permissions := role_permissions s @ ?rp # rps\<rparr>" "Suc (uuid_next s) \<le> n"
    "staff_ids (s\<lparr>uuid_next := n, role_permissions := role_permissions s @ ?rp # rps\<rparr>)"
    "map (\<lambda>rp. (rp_business_id rp, rp_role_id rp, rp_permission_id rp)) rps = map (\<lambda>p. (bid, row_id r, pe_id p)) ps"
    by auto
  then show ?case
    by (intro exI [of _ "?rp # rps"] exI [of _ n]) (simp add: add_role_permission_eq [of c user r bid p s])
qed

section \<open>Roles\<close>

lemma map_update_where_mem:
  "(\<And>x. x \<in> set xs \<Longrightarrow> P x \<Longrightarrow> g (f x) = g x) \<Longrightarrow> map g (update_where P f xs) = map g xs"
  by (induction xs) auto

lemma sort_Nil_iff: "sort xs = [] \<longleftrightarrow> xs = []"
  by (metis set_empty set_sort)

lemma resolve_permissions:
  assumes "resolve_permissions_by_keys s keys = Inr ps" "distinct (map pe_permission_key (permissions s))"
  shows "set ps \<subseteq> set (permissions s)" "set (map pe_permission_key ps) = set keys"
proof -
  have "set ps \<subseteq> set (permissions s) \<and> set (map pe_permission_key ps) = set keys"
  proof (cases "keys = []")
    case False
    let ?u = "sort (remdups keys)"
    let ?f = "filter (\<lambda>p. pe_permission_key p \<in> set ?u) (permissions s)"
    have all: "\<forall>k\<in>set keys. k \<in> set (map pe_permission_key ?f)"
      and ps: "ps = concat (map (\<lambda>k. case find (\<lambda>p. pe_permission_key p = k) (rev ?f) of
                     None \<Rightarrow> [] | Some p \<Rightarrow> [p]) ?u)"
      using assms(1) False by (auto simp: resolve_permissions_by_keys_def Let_def filter_empty_conv split: if_splits)
    have fnd: "\<exists>p. find (\<lambda>p. pe_permission_key p = k) (rev ?f) = Some p \<and> p \<in> set (permissions s) \<and> pe_permission_key p = k"
      if "k \<in> set keys" for k
    proof -
      obtain p where "p \<in> set ?f" "pe_permission_key p = k" using all \<open>k \<in> set keys\<close> by auto
      then have "find (\<lambda>p. pe_permission_key p = k) (rev ?f) \<noteq> None" by (auto simp: find_None_iff)
      then obtain q where "find (\<lambda>p. pe_permission_key p = k) (rev ?f) = Some q" by blast
      with find_member [OF this] show ?thesis by auto
    qed
    have "p \<in> set ps \<longleftrightarrow> (\<exists>k\<in>set keys. find (\<lambda>p. pe_permission_key p = k) (rev ?f) = Some p)" for p
      unfolding ps set_concat by (auto split: option.splits dest: sym)
    with fnd show ?thesis by (auto simp: image_iff) (metis option.inject)+
  qed (use assms(1) in \<open>simp add: resolve_permissions_by_keys_def\<close>)
  then show "set ps \<subseteq> set (permissions s)" "set (map pe_permission_key ps) = set keys" by blast+
qed

lemma current_by_key_iff:
  "(k, rp) \<in> set (current_by_key s r) \<longleftrightarrow> rp \<in> set (role_permissions s) \<and> rp_role_id rp = row_id r \<and>
     rp_business_id rp = business_id r \<and> (\<exists>p. permission_of s rp = Some p \<and> pe_permission_key p = k)"
  by (auto simp: current_by_key_def load_role_permissions_def split: option.splits dest: sym)

lemma permission_of_member:
  assumes "staff_ids s" "p \<in> set (permissions s)" "rp_permission_id rp = pe_id p"
  shows "permission_of s rp = Some p"
  unfolding permission_of_def using distinct_find [OF staff_idsD(5) [OF assms(1)] assms(2)] assms(3) by simp

lemma role_keysI:
  "rp \<in> set (role_permissions s) \<Longrightarrow> rp_role_id rp = row_id r \<Longrightarrow> rp_business_id rp = bid \<Longrightarrow>
     permission_of s rp = Some p \<Longrightarrow> pe_permission_key p = k \<Longrightarrow> k \<in> set (role_keys s bid r)"
  unfolding role_keys_iff by blast

definition unique_grants :: "db \<Rightarrow> bool" where
  \<comment> \<open>\<open>uq_role_permissions\<close>\<close>
  "unique_grants s \<longleftrightarrow>
     distinct (map (\<lambda>rp. (rp_business_id rp, rp_role_id rp, rp_permission_id rp)) (role_permissions s))"

lemma replace_permissions_effect:
  assumes ids: "staff_ids s" and run: "replace_permissions_of_role c r keys user s = Inr (x, s')"
  shows "\<exists>rps n. s' = s\<lparr>uuid_next := n, role_permissions := rps\<rparr> \<and> uuid_next s \<le> n"
    and "staff_ids s'"
    and "row_id r' \<noteq> row_id r \<Longrightarrow> set (role_keys s' bid r') = set (role_keys s bid r')"
    and "set keys \<subseteq> set (role_keys s' (business_id r) r)"
    and "unique_grants s \<Longrightarrow> set (role_keys s' (business_id r) r) \<subseteq> set keys"
    and "ro_is_system r \<Longrightarrow> owner_role r \<Longrightarrow> owner_needs s k \<Longrightarrow> k \<in> set keys"
proof -
  from run obtain ps where ps: "resolve_permissions_by_keys s keys = Inr ps"
    and guard: "ro_is_system r \<and> lower_text (ro_name r) = ''owner'' \<longrightarrow> (\<forall>required.
        required_owner_permission_keys s = Inr required \<longrightarrow> (\<forall>k\<in>set required. k \<in> set keys))"
    and s': "s' = fold (add_role_permission c (Some user) r (business_id r))
                 (filter (\<lambda>p. pe_permission_key p \<notin> set (map fst (current_by_key s r))) ps)
       (s\<lparr>role_permissions := filter (\<lambda>rp. \<not> (\<exists>(k, x)\<in>set (current_by_key s r).
                   k \<notin> set (map pe_permission_key ps) \<and> map_of (rev (current_by_key s r)) k = Some rp)) (role_permissions s)\<rparr>)"
    unfolding replace_permissions_of_role_def bind_res_Inr Let_def
    by (auto simp: sort_Nil_iff filter_empty_conv bind_res_Inr split: if_splits)
  define dropped where "dropped rp \<longleftrightarrow> (\<exists>(k, x)\<in>set (current_by_key s r).
      k \<notin> set (map pe_permission_key ps) \<and> map_of (rev (current_by_key s r)) k = Some rp)" for rp
  let ?s1 = "s\<lparr>role_permissions := filter (\<lambda>rp. \<not> dropped rp) (role_permissions s)\<rparr>"
  let ?new = "filter (\<lambda>p. pe_permission_key p \<notin> set (map fst (current_by_key s r))) ps"
  have ids1: "staff_ids ?s1" using ids by (simp add: staff_ids_def keyed_def drawn_def)
  note res = resolve_permissions [OF ps staff_idsD(6) [OF ids]]
  obtain rps n where add: "s' = ?s1\<lparr>uuid_next := n, role_permissions := role_permissions ?s1 @ rps\<rparr>" "uuid_next s \<le> n"
    "staff_ids s'" and rps: "map (\<lambda>rp. (rp_business_id rp, rp_role_id rp, rp_permission_id rp)) rps =
      map (\<lambda>p. (business_id r, row_id r, pe_id p)) ?new"
    using add_role_permissions [OF ids1, of c "Some user" r "business_id r" ?new] s' unfolding dropped_def by auto
  have rows: "role_permissions s' = filter (\<lambda>rp. \<not> dropped rp) (role_permissions s) @ rps"
    and perms: "permissions s' = permissions s" using add(1) by simp_all
  have pof: "permission_of s' = permission_of s" by (rule permission_of_cong [OF perms])
  have dropD: "rp_role_id rp = row_id r \<and> (\<exists>p. permission_of s rp = Some p \<and> pe_permission_key p \<notin> set keys)"
    if d: "dropped rp" for rp
  proof -
    obtain k where "k \<notin> set (map pe_permission_key ps)" "map_of (rev (current_by_key s r)) k = Some rp"
      using d unfolding dropped_def by blast
    moreover have "(k, rp) \<in> set (current_by_key s r)" using map_of_SomeD [OF calculation(2)] by simp
    ultimately show ?thesis using res(2) unfolding current_by_key_iff by blast
  qed
  have newD: "rp_role_id rp = row_id r \<and> rp_business_id rp = business_id r \<and> (\<exists>p\<in>set ?new. rp_permission_id rp = pe_id p)"
    if "rp \<in> set rps" for rp
  proof -
    have "(rp_business_id rp, rp_role_id rp, rp_permission_id rp) \<in> set (map (\<lambda>p. (business_id r, row_id r, pe_id p)) ?new)"
      unfolding rps [symmetric] using that by force
    then show ?thesis by auto
  qed
  show "\<exists>rps n. s' = s\<lparr>uuid_next := n, role_permissions := rps\<rparr> \<and> uuid_next s \<le> n" using add(1,2) by auto
  show "staff_ids s'" by (rule add(3))
  show "set (role_keys s' bid r') = set (role_keys s bid r')" if "row_id r' \<noteq> row_id r"
    unfolding set_eq_iff role_keys_iff rows pof using that dropD newD by auto
  show "set keys \<subseteq> set (role_keys s' (business_id r) r)"
  proof
    fix k assume k: "k \<in> set keys"
    show "k \<in> set (role_keys s' (business_id r) r)"
    proof (cases "k \<in> set (map fst (current_by_key s r))")
      case True
      then obtain rp p where rp: "rp \<in> set (role_permissions s)" "rp_role_id rp = row_id r" "rp_business_id rp = business_id r"
        "permission_of s rp = Some p" "pe_permission_key p = k" by (auto simp: current_by_key_iff)
      then have "\<not> dropped rp" using dropD k by force
      then show ?thesis using rp by (intro role_keysI [of rp]) (auto simp: rows pof)
    next
      case False
      obtain p where p: "p \<in> set ps" "pe_permission_key p = k" using k res(2) by force
      then have "(business_id r, row_id r, pe_id p) \<in> set (map (\<lambda>p. (business_id r, row_id r, pe_id p)) ?new)"
        using False by force
      then obtain rp where "rp \<in> set rps" "rp_business_id rp = business_id r" "rp_role_id rp = row_id r"
        "rp_permission_id rp = pe_id p" unfolding rps [symmetric] by auto
      moreover have "permission_of s rp = Some p"
        by (rule permission_of_member [OF ids]) (use p(1) res(1) calculation(4) in auto)
      ultimately show ?thesis using p(2) by (intro role_keysI [of rp]) (auto simp: rows pof)
    qed
  qed
  show "set (role_keys s' (business_id r) r) \<subseteq> set keys" if "unique_grants s"
  proof
    fix k assume "k \<in> set (role_keys s' (business_id r) r)"
    then obtain rp p where rp: "rp \<in> set (role_permissions s')" "rp_role_id rp = row_id r" "rp_business_id rp = business_id r"
      "permission_of s rp = Some p" "pe_permission_key p = k" unfolding role_keys_iff pof by auto
    show "k \<in> set keys"
    proof (cases "rp \<in> set rps")
      case True
      then obtain q where "q \<in> set ps" "rp_permission_id rp = pe_id q" using newD by auto
      then have "permission_of s rp = Some q" using res(1) by (intro permission_of_member [OF ids]) auto
      then show ?thesis using rp(4,5) \<open>q \<in> set ps\<close> res(2) by auto
    next
      case False
      then have kept: "rp \<in> set (role_permissions s)" "\<not> dropped rp" using rp(1) rows by auto
      have "(k, rp) \<in> set (current_by_key s r)" using kept(1) rp(2-) by (auto simp: current_by_key_iff)
      then obtain rp' where rp': "map_of (rev (current_by_key s r)) k = Some rp'" "(k, rp') \<in> set (current_by_key s r)"
        by (metis map_of_SomeD map_of_eq_None_iff not_None_eq set_rev image_eqI fst_conv)
      then obtain p' where p': "rp' \<in> set (role_permissions s)" "rp_role_id rp' = row_id r" "rp_business_id rp' = business_id r"
        "permission_of s rp' = Some p'" "pe_permission_key p' = k" by (auto simp: current_by_key_iff)
      have mem: "p \<in> set (permissions s)" "p' \<in> set (permissions s)" "pe_id p = rp_permission_id rp" "pe_id p' = rp_permission_id rp'"
        using rp(4) p'(4) find_member unfolding permission_of_def by fast+
      then have "p = p'" using distinct_key_eq [OF staff_idsD(6) [OF ids]] rp(5) p'(5) by blast
      then have "rp' = rp"
        using distinct_key_eq [OF \<open>unique_grants s\<close> [unfolded unique_grants_def] p'(1) kept(1)] mem rp(2,3) p'(2,3) by simp
      then have "k \<in> set (map pe_permission_key ps)"
        using kept(2) rp'(1) \<open>(k, rp) \<in> _\<close> unfolding dropped_def by blast
      then show ?thesis using res(2) by simp
    qed
  qed
  show "k \<in> set keys" if "ro_is_system r" "owner_role r" "owner_needs s k"
    using guard that by (auto simp: owner_role_def lower_text_def required_owner_permission_keys_def owner_needs_def
        permission_keys_for_role_def lower_char_def bind_res_def)
qed

lemma custody_ids: "custody bid s \<Longrightarrow> staff_ids s" "custody bid s \<Longrightarrow> staff_linked s"
  by (simp_all add: custody_def)

lemma custody_audit: "custody bid s \<Longrightarrow> custody bid (log_audit b u br a t r x y s)"
  by (erule custody_same) (simp_all add: log_audit_def drawn_def)

lemma custody_auth_event: "custody bid s \<Longrightarrow> custody bid (log_auth_event b u ev r ip ua x br s)"
  by (erule custody_same) (simp_all add: log_auth_event_def Let_def drawn_def)

lemma custody_tokens: "custody bid s \<Longrightarrow> custody bid (snd (revoke_where c P s))"
  by (erule custody_same) (simp_all add: revoke_where_def drawn_def)

lemma custody_users:
  assumes "custody bid s" "\<And>u. u \<in> set (app_users s) \<Longrightarrow> row_id u = i \<Longrightarrow> user_key (f u) = user_key u"
  shows "custody bid (update_user i f s)"
  using assms
  by (intro custody_same [OF assms(1)]) (auto simp: update_user_def drawn_def intro!: map_update_where_mem)

lemma custody_roles:
  assumes "custody bid s" "\<And>r. r \<in> set (roles s) \<Longrightarrow> row_id r = i \<Longrightarrow> role_key bid (f r) = role_key bid r"
  shows "custody bid (s\<lparr>roles := update_where (\<lambda>r. row_id r = i) f (roles s)\<rparr>)"
  using assms by (intro custody_same [OF assms(1)]) (auto simp: drawn_def intro!: map_update_where_mem)

lemma custody_assignments:
  assumes "custody bid s" "\<And>a. a \<in> set (user_roles s) \<Longrightarrow> P a \<Longrightarrow> assignment_key (f a) = assignment_key a"
  shows "custody bid (s\<lparr>user_roles := update_where P f (user_roles s)\<rparr>)"
  using assms by (intro custody_same [OF assms(1)]) (auto simp: drawn_def intro!: map_update_where_mem)

lemma owner_role_exists:
  assumes "custody bid s"
  obtains r where "r \<in> set (roles s)" "is_owner_role bid r" "ro_is_system r"
  using assms unfolding custody_def owner_roles_whole_def owns_business_def by blast

lemma unique_name_not_owner:
  \<comment> \<open>a name that is free in a business that has its owner role is not \<open>owner\<close>\<close>
  assumes "custody bid s" "ensure_unique_role_name s bid name excl = Inr x"
    and "\<And>r. r \<in> set (roles s) \<Longrightarrow> is_owner_role bid r \<Longrightarrow> ro_is_system r \<Longrightarrow> Some (row_id r) \<noteq> excl"
  shows "lower_text name \<noteq> ''owner''"
proof
  assume o: "lower_text name = ''owner''"
  obtain r where r: "r \<in> set (roles s)" "is_owner_role bid r" "ro_is_system r" using owner_role_exists [OF assms(1)] .
  then have "r \<in> set (filter (\<lambda>r. named_role bid name r \<and> Some (row_id r) \<noteq> excl) (roles s))"
    using assms(3) [OF r] o by (auto simp: named_role_def is_owner_role_def owner_role_def lower_text_def)
  moreover have "filter (\<lambda>r. named_role bid name r \<and> Some (row_id r) \<noteq> excl) (roles s) = []"
    using assms(2) by (auto simp: ensure_unique_role_name_def bind_res_Inr scalar_one_or_none_Inr split: if_splits)
  ultimately show False by simp
qed

lemma replace_permissions_custody:
  assumes "custody bid s" "r \<in> set (roles s)" "replace_permissions_of_role c r keys user s = Inr (x, s')"
  shows "custody bid s'"
proof -
  note eff = replace_permissions_effect [OF custody_ids(1) [OF assms(1)] assms(3)]
  obtain rps n where s': "s' = s\<lparr>uuid_next := n, role_permissions := rps\<rparr>" using eff(1) by blast
  have needs: "owner_needs s' k = owner_needs s k" for k by (simp add: owner_needs_def s')
  have "staff_linked s'" using custody_ids(2) [OF assms(1)] by (simp add: s' staff_linked_def)
  moreover have "owner_roles_whole bid s'"
    unfolding owner_roles_whole_def
  proof (intro ballI impI)
    fix q assume "q \<in> set (roles s')" "is_owner_role bid q"
    then have q: "q \<in> set (roles s)" "is_owner_role bid q" by (simp_all add: s')
    then have sys: "ro_is_system q" "\<And>k. owner_needs s k \<Longrightarrow> k \<in> set (role_keys s bid q)"
      using assms(1) unfolding custody_def owner_roles_whole_def by blast+
    show "ro_is_system q \<and> (\<forall>k. owner_needs s' k \<longrightarrow> k \<in> set (role_keys s' bid q))"
    proof (cases "row_id q = row_id r")
      case True
      then have "q = r" using distinct_key_eq [OF staff_idsD(3) [OF custody_ids(1) [OF assms(1)]] q(1) assms(2)] by blast
      then show ?thesis using eff(4,6) sys(1) q(2) unfolding needs is_owner_role_def by blast
    next
      case False
      then show ?thesis using sys eff(3) [OF False, of bid] unfolding needs by simp
    qed
  qed
  moreover have "\<exists>u. owns_business bid s' u" using assms(1) by (simp add: custody_def owns_business_def s')
  ultimately show ?thesis using eff(2) unfolding custody_def by blast
qed

lemma create_role_custody:
  assumes "custody bid s" "create_role c b data user s p = Inr (r, s', p')" "strip_ws (crr_name data) = crr_name data"
  shows "custody bid s'"
proof -
  let ?r = "new_row (uuid_gen s (uuid_next s)) b (Some user) (now c)
             \<lparr>ro_name = strip_ws (crr_name data), ro_description = crr_description data, ro_is_system = False\<rparr>
             \<lparr>updated_by := Some user\<rparr>"
  let ?s1 = "s\<lparr>uuid_next := Suc (uuid_next s), roles := roles s @ [?r]\<rparr>"
  from assms(2) obtain s2 where u: "ensure_unique_role_name s b (crr_name data) None = Inr ()"
    and s2: "s2 = ?s1 \<or> (\<exists>x. replace_permissions_of_role c ?r (crr_permission_keys data) user ?s1 = Inr (x, s2))"
    and s': "s' = log_audit b (Some user) None AuditAction_create ''roles'' (row_id ?r) None
                (Some [(''name'', JStr (ro_name ?r)),
                       (''permission_keys'', json_texts (sort (crr_permission_keys data)))]) s2"
    unfolding create_role_def by (auto simp: bind_res_Inr Let_def fresh_uuid_def split: if_splits)
  have "\<not> is_owner_role bid ?r"
  proof
    assume o: "is_owner_role bid ?r"
    then have "b = bid" by (simp add: is_owner_role_def)
    then have "lower_text (crr_name data) \<noteq> ''owner''" using unique_name_not_owner [OF assms(1)] u by blast
    then show False using o assms(3) by (simp add: is_owner_role_def owner_role_def lower_text_def)
  qed
  then have c1: "custody bid ?s1"
    using staff_ids_snoc(3) [OF custody_ids(1) [OF assms(1)] refl, of ?r]
    by (intro custody_extend [OF assms(1), where us = "[]" and rs = "[?r]" and as = "[]" and rps = "[]"]) auto
  have "custody bid s2"
    using s2 c1 replace_permissions_custody [OF c1, of ?r] by auto
  then show ?thesis unfolding s' by (rule custody_audit)
qed

lemma get_role_row: "get_role_by_id s role_id b = Inr r \<Longrightarrow> r \<in> set (roles s) \<and> business_id r = b \<and> live r"
proof -
  assume "get_role_by_id s role_id b = Inr r"
  then have "r \<in> set (filter (\<lambda>r. row_id r = role_id \<and> business_id r = b \<and> live r) (roles s))"
    by (simp add: get_role_by_id_def require_one_Inr)
  then show ?thesis by simp
qed

lemma custody_role_row:
  assumes "custody bid s" "r \<in> set (roles s)" "role_key bid r' = role_key bid r"
  shows "custody bid (s\<lparr>roles := update_where (\<lambda>x. row_id x = row_id r) (\<lambda>_. r') (roles s)\<rparr>)"
proof (rule custody_roles [OF assms(1)])
  fix q assume "q \<in> set (roles s)" "row_id q = row_id r"
  then have "q = r" using distinct_key_eq [OF staff_idsD(3) [OF custody_ids(1) [OF assms(1)]]] assms(2) by blast
  then show "role_key bid r' = role_key bid q" using assms(3) by simp
qed

lemma update_role_run:
  assumes "update_role c role_id b data user s p = Inr (s', p')"
  shows "\<exists>r r' x y. s' = log_audit b (Some user) None AuditAction_update ''roles'' (row_id r) x y
       (s\<lparr>roles := update_where (\<lambda>x. row_id x = row_id r) (\<lambda>_. r') (roles s)\<rparr>) \<and> get_role_by_id s role_id b = Inr r \<and>
     row_id r' = row_id r \<and> business_id r' = business_id r \<and> deleted_at r' = deleted_at r \<and> ro_is_system r' = ro_is_system r \<and>
     (if renames data r then \<not> ro_is_system r \<and> ensure_unique_role_name s b (the (urr_name data)) (Some (row_id r)) = Inr () \<and>
        ro_name r' = strip_ws (the (urr_name data)) else ro_name r' = ro_name r)"
proof -
  from assms obtain r where r: "get_role_by_id s role_id b = Inr r"
    unfolding update_role_def bind_res_Inr by blast
  show ?thesis
  proof (cases "renames data r")
    case True
    then show ?thesis using assms r unfolding update_role_def
      by (auto simp: bind_res_Inr Let_def split: if_splits) (intro exI conjI, rule refl, auto)
  next
    case False
    then show ?thesis using assms r unfolding update_role_def
      by (auto simp: bind_res_Inr Let_def split: if_splits) (intro exI conjI, rule refl, auto)
  qed
qed

lemma update_role_custody:
  assumes "custody bid s" "update_role c role_id b data user s p = Inr (s', p')"
    and "\<And>n. urr_name data = Some n \<Longrightarrow> strip_ws n = n"
  shows "custody bid s'"
proof -
  obtain r r' x y where s': "s' = log_audit b (Some user) None AuditAction_update ''roles'' (row_id r) x y
       (s\<lparr>roles := update_where (\<lambda>x. row_id x = row_id r) (\<lambda>_. r') (roles s)\<rparr>)" and r: "get_role_by_id s role_id b = Inr r"
    and r': "row_id r' = row_id r" "business_id r' = business_id r" "deleted_at r' = deleted_at r" "ro_is_system r' = ro_is_system r"
    and name: "if renames data r then \<not> ro_is_system r \<and> ensure_unique_role_name s b (the (urr_name data)) (Some (row_id r)) = Inr () \<and>
        ro_name r' = strip_ws (the (urr_name data)) else ro_name r' = ro_name r"
    using update_role_run [OF assms(2)] by (elim exE conjE)
  have row: "r \<in> set (roles s)" "business_id r = b" using get_role_row [OF r] by auto
  have "is_owner_role bid r' = is_owner_role bid r"
  proof (cases "renames data r \<and> b = bid")
    case True
    then have n: "\<not> ro_is_system r" "ensure_unique_role_name s bid (the (urr_name data)) (Some (row_id r)) = Inr ()"
      "ro_name r' = strip_ws (the (urr_name data))" using name by auto
    have "\<not> is_owner_role bid r" using assms(1) row(1) n(1) unfolding custody_def owner_roles_whole_def by blast
    moreover have "lower_text (the (urr_name data)) \<noteq> ''owner''"
    proof (rule unique_name_not_owner [OF assms(1) n(2)])
      fix q assume q: "q \<in> set (roles s)" "is_owner_role bid q" "ro_is_system q"
      then have "q \<noteq> r" using n(1) by blast
      then show "Some (row_id q) \<noteq> Some (row_id r)"
        using distinct_key_eq [OF staff_idsD(3) [OF custody_ids(1) [OF assms(1)]] q(1) row(1)] by blast
    qed
    moreover have "strip_ws (the (urr_name data)) = the (urr_name data)"
      using True assms(3) by (auto simp: renames_def split: option.splits)
    ultimately show ?thesis using n(3) by (simp add: is_owner_role_def owner_role_def lower_text_def)
  next
    case False
    then show ?thesis using name row(2) r' by (auto simp: is_owner_role_def owner_role_def live_def split: if_splits)
  qed
  then have "role_key bid r' = role_key bid r" using r' by (simp add: role_key_def)
  then show ?thesis unfolding s' by (intro custody_audit custody_role_row [OF assms(1) row(1)])
qed

lemma delete_role_custody:
  assumes "custody bid s" "delete_role c role_id b user s p = Inr (s', p')" shows "custody bid s'"
proof -
  from assms(2) obtain r where r: "get_role_by_id s role_id b = Inr r" "\<not> ro_is_system r"
    unfolding delete_role_def by (auto simp: bind_res_Inr split: if_splits)
  have mem: "r \<in> set (roles s)" using get_role_row [OF r(1)] by simp
  have "\<not> is_owner_role bid r" using assms(1) mem r(2) unfolding custody_def owner_roles_whole_def by blast
  then have "custody bid (s\<lparr>roles := update_where (\<lambda>x. row_id x = row_id r) (\<lambda>x. x\<lparr>deleted_at := Some (now c),
      deleted_by := Some user, updated_at := now c, updated_by := Some user\<rparr>) (roles s)\<rparr>)"
    using distinct_key_eq [OF staff_idsD(3) [OF custody_ids(1) [OF assms(1)]] mem]
    by (intro custody_roles [OF assms(1)]) (fastforce simp: role_key_def is_owner_role_def live_def)
  then show ?thesis using assms(2) r unfolding delete_role_def
    by (auto simp: bind_res_Inr Let_def split: if_splits intro: custody_audit)
qed

lemma replace_role_permissions_custody:
  assumes "custody bid s" "replace_role_permissions c role_id b keys user s p = Inr (s', p')" shows "custody bid s'"
proof -
  from assms(2) obtain r x s1 where r: "get_role_by_id s role_id b = Inr r"
    and s1: "replace_permissions_of_role c r keys user s = Inr (x, s1)"
    unfolding replace_role_permissions_def bind_res_Inr by (metis surj_pair)
  have "custody bid s1" by (rule replace_permissions_custody [OF assms(1) _ s1]) (use get_role_row [OF r] in simp)
  then have "custody bid (s1\<lparr>roles := update_where (\<lambda>x. row_id x = row_id r)
      (\<lambda>x. x\<lparr>updated_by := Some user, updated_at := now c\<rparr>) (roles s1)\<rparr>)"
    by (rule custody_roles) (simp add: role_key_def is_owner_role_def owner_role_def live_def)
  then show ?thesis using assms(2) r s1 unfolding replace_role_permissions_def
    by (auto simp: bind_res_Inr Let_def split: prod.splits intro: custody_audit)
qed

section \<open>Users\<close>

lemma get_user_row:
  assumes "get_user_by_id s i b = Inr u"
  shows "u \<in> set (app_users s)" "row_id u = i" "live u" "business_id u = b"
proof -
  have "filter (\<lambda>u. row_id u = i \<and> live u) (app_users s) = [u]" and b: "business_id u = b"
    using assms by (auto simp: get_user_by_id_def bind_res_Inr require_one_Inr split: if_splits)
  then have "u \<in> set (filter (\<lambda>u. row_id u = i \<and> live u) (app_users s))" by simp
  then show "u \<in> set (app_users s)" "row_id u = i" "live u" "business_id u = b" using b by auto
qed

lemma custody_user_row:
  assumes "custody bid s" "u \<in> set (app_users s)" "user_key u' = user_key u"
  shows "custody bid (update_user (row_id u) (\<lambda>_. u') s)"
proof (rule custody_users [OF assms(1)])
  fix q assume "q \<in> set (app_users s)" "row_id q = row_id u"
  then have "q = u" using distinct_key_eq [OF staff_idsD(2) [OF custody_ids(1) [OF assms(1)]]] assms(2) by blast
  then show "user_key u' = user_key q" using assms(3) by simp
qed

lemma secret_keys [simp]:
  "user_key (touch_user c actor u) = user_key u" "user_key (secret_changed c actor u) = user_key u"
  "user_key (unlocked u) = user_key u" "user_key (u\<lparr>us_password_hash := h\<rparr>) = user_key u"
  "user_key (u\<lparr>us_pin_hash := h\<rparr>) = user_key u"
  by (simp_all add: user_key_def touch_user_def secret_changed_def unlocked_def live_def)

lemma set_user_pin_custody:
  "custody bid s \<Longrightarrow> set_user_pin env h c i b pin ru cp cpin s = Inr s' \<Longrightarrow> custody bid s'"
  unfolding set_user_pin_def revoke_all_user_tokens_def
  by (auto simp: bind_res_Inr Let_def split: if_splits intro!: custody_auth_event custody_tokens custody_users)

lemma change_own_password_custody:
  "custody bid s \<Longrightarrow> change_own_password env h c u p1 p2 s = Inr s' \<Longrightarrow> custody bid s'"
  unfolding change_own_password_def revoke_all_user_tokens_def
  by (auto simp: Let_def split: if_splits intro!: custody_auth_event custody_tokens custody_users)

lemma reset_user_password_custody:
  "custody bid s \<Longrightarrow> reset_user_password h c i b pw ru s = Inr s' \<Longrightarrow> custody bid s'"
  unfolding reset_user_password_def revoke_all_user_tokens_def
  by (auto simp: bind_res_Inr Let_def split: if_splits intro!: custody_auth_event custody_tokens custody_users)

lemma move_assignments_custody:
  "custody bid s \<Longrightarrow> move_assignments user br s = Inr s' \<Longrightarrow> custody bid s' \<and> app_users s' = app_users s"
  by (auto simp: move_assignments_def Let_def assignment_key_def live_def split: if_splits intro!: custody_assignments)

lemma change_branch_Inr:
  assumes "change_branch br b u s = Inr (u', s')"
  shows "user_key u' = user_key u" "us_token_version u' = us_token_version u" "us_status u' = us_status u"
    "s' = s \<or> (\<exists>x. move_assignments (row_id u) x s = Inr s')"
  using assms by (auto simp: change_branch_def bind_res_Inr user_key_def live_def split: option.splits)

lemma set_active_eq:
  assumes "set_active c a u s = (u', s')"
  shows "user_key u' = user_key u" "us_token_version u \<le> us_token_version u'"
    "s' = s \<or> s' = snd (revoke_all_user_tokens c (row_id u) s)"
    "a = Some False \<Longrightarrow> us_status u = UserStatus_active \<Longrightarrow>
       us_token_version u' = us_token_version u + 1 \<and> s' = snd (revoke_all_user_tokens c (row_id u) s)"
  using assms by (auto simp: set_active_def Let_def user_key_def live_def split: option.splits if_splits)

lemma log_profile_change_eq:
  "log_profile_change bid actor u u' s = s \<or>
     (\<exists>br x y. log_profile_change bid actor u u' s = log_audit bid (Some actor) br AuditAction_update ''users'' (row_id u) x y s)"
  by (auto simp: log_profile_change_def Let_def)

lemma update_tenant_user_run:
  assumes "update_tenant_user c i b data actor s = Inr s'"
  obtains u u2 s1 u3 s2 where "get_user_by_id s i b = Inr u"
    "change_branch (uur_branch_id data) b (u\<lparr>us_full_name := or_else (uur_full_name data) (us_full_name u)\<rparr>) s = Inr (u2, s1)"
    "set_active c (uur_is_active data) u2 s1 = (u3, s2)"
    "s' = update_user (row_id u) (\<lambda>_. touch_user c actor u3) (log_profile_change b actor u u3 s2)"
  using assms unfolding update_tenant_user_def bind_res_Inr by (force simp: Let_def split_beta)

lemma app_users_frames [simp]:
  "app_users (log_audit b u br a t r x y s) = app_users s"
  "app_users (log_auth_event b u ev r ip ua z br s) = app_users s"
  "app_users (snd (revoke_where c P s)) = app_users s"
  by (simp_all add: log_audit_def log_auth_event_def Let_def revoke_where_def)

lemma update_tenant_user_custody:
  assumes "custody bid s" "update_tenant_user c i b data actor s = Inr s'" shows "custody bid s'"
proof -
  from assms(2) obtain u u2 s1 u3 s2 where run: "get_user_by_id s i b = Inr u"
    "change_branch (uur_branch_id data) b (u\<lparr>us_full_name := or_else (uur_full_name data) (us_full_name u)\<rparr>) s = Inr (u2, s1)"
    "set_active c (uur_is_active data) u2 s1 = (u3, s2)"
    "s' = update_user (row_id u) (\<lambda>_. touch_user c actor u3) (log_profile_change b actor u u3 s2)"
    by (rule update_tenant_user_run)
  have s1: "custody bid s1" "app_users s1 = app_users s"
    using change_branch_Inr(4) [OF run(2)] assms(1) move_assignments_custody by blast+
  have s2: "custody bid s2" "app_users s2 = app_users s"
    using set_active_eq(3) [OF run(3)] s1 custody_tokens [OF s1(1)] by (auto simp: revoke_all_user_tokens_def)
  have "user_key (touch_user c actor u3) = user_key u"
    using set_active_eq(1) [OF run(3)] change_branch_Inr(1) [OF run(2)] unfolding secret_keys
    by (simp add: user_key_def live_def)
  moreover have "custody bid (log_profile_change b actor u u3 s2)" "app_users (log_profile_change b actor u u3 s2) = app_users s"
    using log_profile_change_eq [of b actor u u3 s2] s2 custody_audit by force+
  ultimately show ?thesis unfolding run(4) using get_user_row(1) [OF run(1)] by (intro custody_user_row) simp_all
qed

lemma create_tenant_user_custody:
  assumes "custody bid s" "create_tenant_user h c b data creator s p = Inr (u, s', p')" shows "custody bid s'"
proof -
  let ?u = "new_user (uuid_gen s (uuid_next s)) b (Some creator) (now c) (cur_branch_id data) (cur_full_name data)
                 (cur_phone data) (h (cur_password data))"
  let ?s1 = "s\<lparr>uuid_next := Suc (uuid_next s), app_users := app_users s @ [?u]\<rparr>"
  let ?given = "filter (\<lambda>r. business_id r = b \<and> row_id r \<in> set (cur_role_ids data) \<and> live r) (roles s)"
  have s': "s' = fold (assign_role c ?u (cur_branch_id data) creator) ?given ?s1"
    using assms(2) unfolding create_tenant_user_def
    by (auto simp: bind_res_Inr Let_def fresh_uuid_def split: if_splits)
  have u: "row_id ?u = uuid_gen s (uuid_next s)" "business_id ?u = b" by (simp_all add: new_user_def)
  have "staff_ids ?s1" by (rule staff_ids_snoc(2) [OF custody_ids(1) [OF assms(1)] refl]) (simp add: u)
  from assign_roles [OF this, of c ?u "cur_branch_id data" creator ?given] obtain as n where
    eq: "s' = ?s1\<lparr>uuid_next := n, user_roles := user_roles ?s1 @ as\<rparr>" and ids: "staff_ids s'"
    and as: "\<forall>a\<in>set as. assigns ?u ?given a" unfolding s' by auto
  have new: "\<exists>r\<in>set (roles s'). row_id r = ur_role_id a \<and> business_id r = business_id a"
    "\<exists>u\<in>set (app_users s'). row_id u = ur_user_id a \<and> business_id u = business_id a" if "a \<in> set as" for a
    using as that unfolding eq by (force simp: assigns_def u)+
  show ?thesis
    by (rule custody_extend [OF assms(1) ids, where us = "[?u]" and rs = "[]" and as = as and rps = "[]"])
      (use new in \<open>simp_all add: eq\<close>)
qed

lemma another_owner:
  assumes "custody bid s" "u \<in> set (app_users s)" "business_id u = bid" "1 < count_active_owners s bid"
  obtains u' where "owns_business bid s u'" "row_id u' \<noteq> row_id u"
proof -
  let ?os = "filter (\<lambda>u. business_id u = bid \<and> live u \<and> is_owner s u) (app_users s)"
  have d: "distinct ?os" using staff_idsD(2) [OF custody_ids(1) [OF assms(1)]] by (simp add: distinct_map)
  have "\<not> set ?os \<subseteq> {u}"
  proof
    assume "set ?os \<subseteq> {u}"
    then have "card (set ?os) \<le> card {u}" by (intro card_mono) simp_all
    then show False using assms(4) distinct_card [OF d] by (simp add: count_active_owners_def)
  qed
  then obtain u' where u': "u' \<in> set (app_users s)" "business_id u' = bid" "live u'" "is_owner s u'" "u' \<noteq> u" by auto
  then have "row_id u' \<noteq> row_id u"
    using distinct_key_eq [OF staff_idsD(2) [OF custody_ids(1) [OF assms(1)]] u'(1) assms(2)] by blast
  moreover have "owns_business bid s u'"
    using owns_iff_is_owner [OF custody_ids [OF assms(1)] u'(1-3)] u'(4) by simp
  ultimately show ?thesis using that by blast
qed

lemma owner_survives:
  \<comment> \<open>an owner other than the user an operation is about\<close>
  assumes "owns_business bid s u'" "row_id u' \<noteq> i"
    and "\<And>u. u \<in> set (app_users s) \<Longrightarrow> row_id u \<noteq> i \<Longrightarrow> \<exists>v\<in>set (app_users s'). user_key v = user_key u"
    and "\<And>a. a \<in> set (user_roles s) \<Longrightarrow> live a \<Longrightarrow> ur_user_id a \<noteq> i \<Longrightarrow> \<exists>b\<in>set (user_roles s'). assignment_key b = assignment_key a"
    and "roles s' = roles s"
  shows "\<exists>v. owns_business bid s' v"
proof -
  from assms(1) obtain a r where a: "u' \<in> set (app_users s)" "business_id u' = bid" "live u'" "a \<in> set (user_roles s)" "live a"
    "ur_user_id a = row_id u'" "r \<in> set (roles s)" "row_id r = ur_role_id a" "is_owner_role bid r"
    unfolding owns_business_def by blast
  obtain v where v: "v \<in> set (app_users s')" "user_key v = user_key u'" using assms(3) [OF a(1) assms(2)] by blast
  obtain b where b: "b \<in> set (user_roles s')" "assignment_key b = assignment_key a"
    using assms(4) [OF a(4,5)] a(6) assms(2) by auto
  have "owns_business bid s' v"
    using a v b assms(5) by (intro owns_businessI [of v _ _ b r]) (auto simp: user_key_def assignment_key_def)
  then show ?thesis by blast
qed

lemma update_user_parts [simp]:
  "roles (update_user i f s) = roles s" "user_roles (update_user i f s) = user_roles s"
  "role_permissions (update_user i f s) = role_permissions s" "permissions (update_user i f s) = permissions s"
  "uuid_gen (update_user i f s) = uuid_gen s" "drawn (update_user i f s) = drawn s"
  "app_users (update_user i f s) = update_where (\<lambda>r. row_id r = i) f (app_users s)"
  by (simp_all add: update_user_def drawn_def)

lemma staff_ids_update_user:
  "staff_ids s \<Longrightarrow> (\<And>u. row_id (f u) = row_id u) \<Longrightarrow> staff_ids (update_user i f s)"
  by (simp add: staff_ids_def keyed_def map_update_where)

lemma staff_linked_update_user:
  assumes "staff_linked s" "\<And>u. row_id (f u) = row_id u" "\<And>u. business_id (f u) = business_id u"
  shows "staff_linked (update_user i f s)"
  unfolding staff_linked_def update_user_parts
proof
  fix a assume "a \<in> set (user_roles s)"
  then obtain r u where r: "r \<in> set (roles s)" "row_id r = ur_role_id a \<and> business_id r = business_id a"
    and u: "u \<in> set (app_users s)" "row_id u = ur_user_id a" "business_id u = business_id a"
    using assms(1) unfolding staff_linked_def by blast
  have "(if row_id u = i then f u else u) \<in> set (update_where (\<lambda>r. row_id r = i) f (app_users s))"
    unfolding set_update_where using u(1) by (rule imageI)
  then show "(\<exists>r\<in>set (roles s). row_id r = ur_role_id a \<and> business_id r = business_id a) \<and>
      (\<exists>u\<in>set (update_where (\<lambda>r. row_id r = i) f (app_users s)). row_id u = ur_user_id a \<and> business_id u = business_id a)"
    using r u(2,3) assms(2,3) by (metis (full_types))
qed

lemma soft_delete_custody:
  assumes "custody bid s" "soft_delete_tenant_user c i b actor s p = Inr (s', p')" shows "custody bid s'"
proof -
  let ?f = "\<lambda>x. x\<lparr>deleted_at := Some (now c), deleted_by := Some actor,
                       us_status := UserStatus_inactive, us_token_version := us_token_version x + 1, updated_at := now c\<rparr>"
  from assms(2) obtain u x y where u: "get_user_by_id s i b = Inr u" "is_owner s u \<Longrightarrow> 1 < count_active_owners s b"
    and s': "s' = log_audit b (Some actor) (us_default_branch_id u) AuditAction_delete ''users'' (row_id u) x y
      (snd (revoke_all_user_tokens c i (update_user (row_id u) ?f s)))"
    unfolding soft_delete_tenant_user_def by (auto simp: bind_res_Inr Let_def split: if_splits)
  note row = get_user_row [OF u(1)]
  have "custody bid (update_user (row_id u) ?f s)"
  proof -
    have "\<exists>u'. owns_business bid s u' \<and> row_id u' \<noteq> row_id u"
    proof (cases "b = bid \<and> is_owner s u")
      case True
      then show ?thesis using another_owner [OF assms(1) row(1)] row(4) u(2) by metis
    next
      case False
      obtain u' where u': "owns_business bid s u'" using assms(1) by (auto simp: custody_def)
      moreover have "u' \<noteq> u"
        using False u' owns_iff_is_owner [OF custody_ids [OF assms(1)] row(1) _ row(3), of bid] row(4)
        by (auto simp: owns_business_def)
      ultimately show ?thesis
        using distinct_key_eq [OF staff_idsD(2) [OF custody_ids(1) [OF assms(1)]] _ row(1), of u'] by (auto simp: owns_business_def)
    qed
    then obtain u' where "owns_business bid s u'" "row_id u' \<noteq> row_id u" by blast
    then have "\<exists>v. owns_business bid (update_user (row_id u) ?f s) v"
      by (rule owner_survives) (auto simp: set_update_where)
    moreover have "staff_linked (update_user (row_id u) ?f s)"
      by (rule staff_linked_update_user [OF custody_ids(2) [OF assms(1)]]) simp_all
    moreover have "owner_roles_whole bid (update_user (row_id u) ?f s)"
      using assms(1) role_keys_cong [of "update_user (row_id u) ?f s" s]
      by (simp add: custody_def owner_roles_whole_def owner_needs_def)
    ultimately show ?thesis using staff_ids_update_user [OF custody_ids(1) [OF assms(1)], of ?f] by (simp add: custody_def)
  qed
  then show ?thesis unfolding s' revoke_all_user_tokens_def by (intro custody_audit custody_tokens)
qed

section \<open>Replacing the roles of a user\<close>

definition restored :: "app_user \<Rightarrow> role list \<Rightarrow> db \<Rightarrow> db \<Rightarrow> bool" where
  \<comment> \<open>what giving roles to a user does to the assignments\<close>
  "restored u rs s s' \<longleftrightarrow> staff_ids s' \<and> staff_linked s' \<and> app_users s' = app_users s \<and> roles s' = roles s \<and>
     role_permissions s' = role_permissions s \<and> permissions s' = permissions s \<and>
     refresh_tokens s' = refresh_tokens s \<and> uuid_gen s' = uuid_gen s \<and> uuid_next s \<le> uuid_next s' \<and>
     (\<forall>a\<in>set (user_roles s). live a \<longrightarrow> (\<exists>b\<in>set (user_roles s'). assignment_key b = assignment_key a)) \<and>
     (\<forall>b\<in>set (user_roles s'). live b \<longrightarrow> assigns u rs b \<or> (\<exists>a\<in>set (user_roles s). assignment_key a = assignment_key b)) \<and>
     (\<forall>r\<in>set rs. \<exists>a\<in>set (user_roles s'). assigns u [r] a)"

lemma restored_refl: "staff_ids s \<Longrightarrow> staff_linked s \<Longrightarrow> restored u [] s s"
  by (auto simp: restored_def)

lemma set_update_where_single:
  assumes "distinct (map key xs)" "a \<in> set xs"
  shows "set (update_where (\<lambda>x. key x = key a) f xs) = insert (f a) (set xs - {a})"
proof -
  have "(\<lambda>r. if key r = key a then f r else r) ` set xs = (\<lambda>r. if r = a then f a else r) ` set xs"
    by (rule image_cong [OF refl]) (use distinct_key_eq [OF assms(1) _ assms(2)] in auto)
  also have "\<dots> = insert (f a) (set xs - {a})" using assms(2) by auto
  finally show ?thesis unfolding set_update_where .
qed

lemma restore_role_restored:
  assumes "staff_ids s" "staff_linked s" "u \<in> set (app_users s)" "r \<in> set (roles s)" "business_id r = business_id u"
  shows "restored u [r] s (restore_role c u actor r s)"
proof -
  let ?ex = "filter (\<lambda>a. assigned (business_id u) (row_id u) a \<and> ur_role_id a = row_id r) (user_roles s)"
  show ?thesis
  proof (cases "list_ex live ?ex")
    case True
    then have "restore_role c u actor r s = s" by (simp add: restore_role_def)
    moreover have "\<exists>a\<in>set (user_roles s). assigns u [r] a"
      using True by (auto simp: list_ex_iff assigned_def assigns_def)
    ultimately show ?thesis using assms(1,2) by (auto simp: restored_def)
  next
    case none: False
    show ?thesis
    proof (cases "find (\<lambda>a. \<not> live a \<and> ur_branch_id a = us_default_branch_id u) ?ex")
      case (Some a)
      have a: "a \<in> set (user_roles s)" "assigned (business_id u) (row_id u) a" "ur_role_id a = row_id r" "\<not> live a"
        using find_member [OF Some] by auto
      let ?f = "\<lambda>x. x\<lparr>deleted_at := None, updated_at := now c\<rparr>"
      let ?s = "s\<lparr>user_roles := update_where (\<lambda>x. row_id x = row_id a) ?f (user_roles s)\<rparr>"
      have eq: "restore_role c u actor r s = ?s" using none Some by (simp add: restore_role_def)
      have "set (user_roles ?s) = insert (?f a) (set (user_roles s) - {a})"
        using set_update_where_single [OF staff_idsD(4) [OF assms(1)] a(1), of ?f] by simp
      then have mem: "x \<in> set (user_roles ?s) \<longleftrightarrow> x = ?f a \<or> (x \<in> set (user_roles s) \<and> x \<noteq> a)" for x by blast
      have ids: "staff_ids ?s" using assms(1) by (simp add: staff_ids_def keyed_def map_update_where drawn_def)
      have linked: "staff_linked ?s"
        unfolding staff_linked_def Ball_def mem using assms(2) a(1) by (auto simp: staff_linked_def)
      have keep: "\<exists>b\<in>set (user_roles ?s). assignment_key b = assignment_key x" if "x \<in> set (user_roles s)" "live x" for x
        unfolding Bex_def mem using that a(4) by blast
      have new: "assigns u [r] (?f a)" using a by (simp add: assigns_def assigned_def live_def)
      have only: "assigns u [r] b \<or> (\<exists>a\<in>set (user_roles s). assignment_key a = assignment_key b)"
        if "b \<in> set (user_roles ?s)" for b
        using that new unfolding mem by blast
      have gives: "\<exists>b\<in>set (user_roles ?s). assigns u [r] b" using new mem [of "?f a"] by blast
      show ?thesis unfolding eq restored_def
      proof (intro conjI ballI impI keep only ids linked)
        show "Bex (set (user_roles ?s)) (assigns u [x])" if "x \<in> set [r]" for x using gives that by simp
      qed simp_all
    next
      case None
      let ?a = "new_row (uuid_gen s (uuid_next s)) (business_id u) (Some actor) (now c)
        \<lparr>ur_user_id = row_id u, ur_role_id = row_id r, ur_branch_id = us_default_branch_id u\<rparr>"
      let ?s = "s\<lparr>uuid_next := Suc (uuid_next s), user_roles := user_roles s @ [?a]\<rparr>"
      have eq: "restore_role c u actor r s = ?s"
        using none None by (simp add: restore_role_def assign_role_eq)
      have ids: "staff_ids ?s" by (rule staff_ids_snoc(1) [OF assms(1) refl]) simp
      have linked: "staff_linked ?s" using assms(2-5) by (auto simp: staff_linked_def)
      have new: "assigns u [r] ?a" by (simp add: assigns_def live_def)
      have gives: "\<exists>b\<in>set (user_roles ?s). assigns u [r] b" using new by simp
      show ?thesis unfolding eq restored_def
      proof (intro conjI ballI impI ids linked)
        show "Bex (set (user_roles ?s)) (assigns u [x])" if "x \<in> set [r]" for x using gives that by simp
        show "assigns u [r] b \<or> (\<exists>a\<in>set (user_roles s). assignment_key a = assignment_key b)"
          if "b \<in> set (user_roles ?s)" for b using that new by auto
      qed auto
    qed
  qed
qed

lemma assigns_mono: "assigns u rs a \<Longrightarrow> set rs \<subseteq> set rs' \<Longrightarrow> assigns u rs' a"
  by (auto simp: assigns_def)

lemma assignment_key_assigns: "assignment_key a = assignment_key b \<Longrightarrow> assigns u rs a \<longleftrightarrow> assigns u rs b"
  by (auto simp: assignment_key_def assigns_def)

lemma restoredD:
  assumes "restored u rs s s'"
  shows "a \<in> set (user_roles s) \<Longrightarrow> live a \<Longrightarrow> \<exists>b\<in>set (user_roles s'). assignment_key b = assignment_key a"
    and "b \<in> set (user_roles s') \<Longrightarrow> live b \<Longrightarrow>
      assigns u rs b \<or> (\<exists>a\<in>set (user_roles s). assignment_key a = assignment_key b)"
    and "r \<in> set rs \<Longrightarrow> \<exists>a\<in>set (user_roles s'). assigns u [r] a"
  using assms unfolding restored_def by blast+

lemma key_live: "assignment_key a = assignment_key b \<Longrightarrow> live a = live b"
  by (simp add: assignment_key_def)

lemma restored_trans:
  assumes "restored u rs s t" "restored u qs t v" shows "restored u (rs @ qs) s v"
proof -
  have keep: "\<exists>b\<in>set (user_roles v). assignment_key b = assignment_key a" if a: "a \<in> set (user_roles s)" "live a" for a
  proof -
    obtain b where b: "b \<in> set (user_roles t)" "assignment_key b = assignment_key a"
      using restoredD(1) [OF assms(1) a] by blast
    then show ?thesis using restoredD(1) [OF assms(2) b(1)] key_live [OF b(2)] a(2) by auto
  qed
  have only: "assigns u (rs @ qs) b \<or> (\<exists>a\<in>set (user_roles s). assignment_key a = assignment_key b)"
    if b: "b \<in> set (user_roles v)" "live b" for b
  proof (cases "assigns u qs b")
    case True then show ?thesis by (simp add: assigns_mono)
  next
    case False
    then obtain a where a: "a \<in> set (user_roles t)" "assignment_key a = assignment_key b"
      using restoredD(2) [OF assms(2) b] by blast
    then have "assigns u rs a \<or> (\<exists>x\<in>set (user_roles s). assignment_key x = assignment_key a)"
      using restoredD(2) [OF assms(1) a(1)] key_live [OF a(2)] b(2) by blast
    then show ?thesis using assignment_key_assigns [OF a(2)] a(2) assigns_mono [of u rs b "rs @ qs"] by auto
  qed
  have gives: "\<exists>a\<in>set (user_roles v). assigns u [r] a" if r: "r \<in> set (rs @ qs)" for r
  proof (cases "r \<in> set qs")
    case True then show ?thesis by (rule restoredD(3) [OF assms(2)])
  next
    case False
    then have "r \<in> set rs" using r by simp
    then obtain a where a: "a \<in> set (user_roles t)" "assigns u [r] a" using restoredD(3) [OF assms(1)] by blast
    then obtain b where "b \<in> set (user_roles v)" "assignment_key b = assignment_key a"
      using restoredD(1) [OF assms(2) a(1)] by (auto simp: assigns_def)
    then show ?thesis using a(2) assignment_key_assigns by blast
  qed
  show ?thesis
    unfolding restored_def
    by (intro conjI ballI impI keep only gives) (use assms in \<open>auto simp: restored_def\<close>)
qed

lemma restore_roles_restored:
  assumes "staff_ids s" "staff_linked s" "u \<in> set (app_users s)"
    "\<And>r. r \<in> set rs \<Longrightarrow> r \<in> set (roles s) \<and> business_id r = business_id u"
  shows "restored u rs s (fold (restore_role c u actor) rs s)"
  using assms
proof (induction rs arbitrary: s)
  case (Cons r rs)
  have one: "restored u [r] s (restore_role c u actor r s)"
    by (rule restore_role_restored) (use Cons.prems in auto)
  then have "restored u rs (restore_role c u actor r s) (fold (restore_role c u actor) rs (restore_role c u actor r s))"
    by (intro Cons.IH) (use Cons.prems one in \<open>auto simp: restored_def\<close>)
  then show ?case using restored_trans [OF one] by simp
qed (simp add: restored_refl)

lemma resolved_roles:
  assumes "resolve_business_roles s b role_ids = Inr given" "staff_ids s"
  shows "\<And>r. r \<in> set given \<Longrightarrow> r \<in> set (roles s) \<and> business_id r = b \<and> live r"
    and "set (map row_id given) = set role_ids"
proof -
  have g: "given = filter (\<lambda>r. business_id r = b \<and> row_id r \<in> set (remdups role_ids) \<and> live r) (roles s)"
    and len: "length given = length (remdups role_ids)"
    using assms(1) by (auto simp: resolve_business_roles_def Let_def split: if_splits)
  show "r \<in> set (roles s) \<and> business_id r = b \<and> live r" if "r \<in> set given" for r using that g by auto
  have "distinct (map row_id given)" unfolding g by (rule distinct_map_filter) (rule staff_idsD(3) [OF assms(2)])
  then have "card (set (map row_id given)) = card (set role_ids)"
    using len by (metis distinct_card length_map length_remdups_card_conv)
  moreover have "set (map row_id given) \<subseteq> set role_ids" using g by auto
  ultimately show "set (map row_id given) = set role_ids" by (intro card_subset_eq) simp_all
qed

lemma replace_user_roles_run:
  assumes "replace_user_roles c i b role_ids actor s p = Inr (s', p')"
  obtains u given x y where "get_user_by_id s i b = Inr u" "resolve_business_roles s b role_ids = Inr given"
    "is_owner s u \<Longrightarrow> \<not> list_ex owner_role given \<Longrightarrow> 1 < count_active_owners s b"
    "s' = log_audit b (Some actor) (us_default_branch_id u) AuditAction_update ''user_roles'' (row_id u) x y
       (update_user (row_id u) (touch_user c actor) (replace_assignments c u given actor s))"
    "p' = cache_invalidate_all p"
proof -
  from assms obtain u given where u: "get_user_by_id s i b = Inr u" "resolve_business_roles s b role_ids = Inr given"
    unfolding replace_user_roles_def bind_res_Inr by blast
  show ?thesis by (rule that [OF u]) (use assms u in \<open>auto simp: replace_user_roles_def Let_def split: if_splits\<close>)
qed

definition unassigned :: "clock \<Rightarrow> app_user \<Rightarrow> role list \<Rightarrow> db \<Rightarrow> db" where
  \<comment> \<open>the first loop of \<open>replace_assignments\<close>\<close>
  "unassigned c u given s = s\<lparr>user_roles := update_where (\<lambda>a. assigned (business_id u) (row_id u) a \<and> live a \<and>
              ur_role_id a \<notin> set (map row_id given))
            (\<lambda>a. a\<lparr>deleted_at := Some (now c), updated_at := now c\<rparr>) (user_roles s)\<rparr>"

lemma replace_assignments_eq:
  "replace_assignments c u given actor s = fold (restore_role c u actor) given (unassigned c u given s)"
  by (simp add: replace_assignments_def unassigned_def)

lemma update_where_memD:
  "x \<in> set (update_where P f xs) \<Longrightarrow> (\<exists>y\<in>set xs. P y \<and> x = f y) \<or> (x \<in> set xs \<and> \<not> P x)"
  by (auto simp: set_update_where)

lemma update_where_other: "a \<in> set xs \<Longrightarrow> \<not> P a \<Longrightarrow> a \<in> set (update_where P f xs)"
  by (induction xs) auto

lemma unassigned_rows:
  assumes "staff_ids s" "staff_linked s" "u \<in> set (app_users s)"
  shows "staff_ids (unassigned c u given s)" "staff_linked (unassigned c u given s)"
    and "a \<in> set (user_roles (unassigned c u given s)) \<Longrightarrow> live a \<Longrightarrow> ur_user_id a = row_id u \<Longrightarrow>
      a \<in> set (user_roles s) \<and> ur_role_id a \<in> set (map row_id given)"
    and "a \<in> set (user_roles s) \<Longrightarrow> ur_user_id a \<noteq> row_id u \<Longrightarrow> a \<in> set (user_roles (unassigned c u given s))"
proof -
  show ids: "staff_ids (unassigned c u given s)"
    using assms(1) by (simp add: unassigned_def staff_ids_def keyed_def map_update_where drawn_def)
  show linked: "staff_linked (unassigned c u given s)"
    using assms(2) unfolding staff_linked_def unassigned_def by (auto simp: set_update_where)
  show "a \<in> set (user_roles s) \<and> ur_role_id a \<in> set (map row_id given)"
    if a: "a \<in> set (user_roles (unassigned c u given s))" "live a" "ur_user_id a = row_id u"
  proof -
    have "business_id a = business_id u"
      using linked_user [OF ids linked a(1) _ a(3) [symmetric]] assms(3) by (simp add: unassigned_def)
    then have "assigned (business_id u) (row_id u) a" using a(3) by (simp add: assigned_def)
    moreover have "a \<in> set (update_where (\<lambda>a. assigned (business_id u) (row_id u) a \<and> live a \<and>
        ur_role_id a \<notin> set (map row_id given)) (\<lambda>a. a\<lparr>deleted_at := Some (now c), updated_at := now c\<rparr>) (user_roles s))"
      using a(1) by (simp add: unassigned_def)
    from update_where_memD [OF this] have "a \<in> set (user_roles s) \<and>
        \<not> (assigned (business_id u) (row_id u) a \<and> live a \<and> ur_role_id a \<notin> set (map row_id given))"
    proof (elim disjE bexE conjE)
      fix y assume "a = y\<lparr>deleted_at := Some (now c), updated_at := now c\<rparr>"
      then have "deleted_at a = Some (now c)" by (rule ssubst) simp
      then show ?thesis using a(2) by (simp add: live_def)
    qed (intro conjI)
    ultimately show ?thesis using a(2) by blast
  qed
  show "a \<in> set (user_roles (unassigned c u given s))" if "a \<in> set (user_roles s)" "ur_user_id a \<noteq> row_id u"
    unfolding unassigned_def using that update_where_other [OF that(1)] by (simp add: assigned_def)
qed

lemma replaced_assignments:
  assumes "staff_ids s" "staff_linked s" "get_user_by_id s i b = Inr u" "resolve_business_roles s b role_ids = Inr given"
    and s2_def: "s2 = replace_assignments c u given actor s"
  shows "restored u given (unassigned c u given s) s2"
    and "a \<in> set (user_roles s2) \<Longrightarrow> live a \<Longrightarrow> ur_user_id a = row_id u \<Longrightarrow> ur_role_id a \<in> set (map row_id given)"
    and "a \<in> set (user_roles s) \<Longrightarrow> live a \<Longrightarrow> ur_user_id a \<noteq> row_id u \<Longrightarrow>
      \<exists>b\<in>set (user_roles s2). assignment_key b = assignment_key a"
proof -
  note u = get_user_row [OF assms(3)]
  note un = unassigned_rows [OF assms(1,2) u(1), where c = c and given = given]
  show R: "restored u given (unassigned c u given s) s2"
    unfolding s2_def replace_assignments_eq
  proof (rule restore_roles_restored [OF un(1,2)])
    show "u \<in> set (app_users (unassigned c u given s))" using u(1) by (simp add: unassigned_def)
    show "r \<in> set (roles (unassigned c u given s)) \<and> business_id r = business_id u" if "r \<in> set given" for r
      using resolved_roles(1) [OF assms(4,1) that] u(4) by (simp add: unassigned_def)
  qed
  show "ur_role_id a \<in> set (map row_id given)" if a: "a \<in> set (user_roles s2)" "live a" "ur_user_id a = row_id u"
  proof (cases "assigns u given a")
    case False
    then obtain x where x: "x \<in> set (user_roles (unassigned c u given s))" "assignment_key x = assignment_key a"
      using restoredD(2) [OF R a(1,2)] by blast
    then have "live x" "ur_user_id x = row_id u" "ur_role_id x = ur_role_id a" using a by (auto simp: assignment_key_def)
    then show ?thesis using un(3) [OF x(1)] by simp
  qed (simp add: assigns_def)
  show "\<exists>b\<in>set (user_roles s2). assignment_key b = assignment_key a"
    if a: "a \<in> set (user_roles s)" "live a" "ur_user_id a \<noteq> row_id u"
    using restoredD(1) [OF R un(4) [OF a(1,3)] a(2)] .
qed

lemma replace_user_roles_custody:
  assumes "custody bid s" "replace_user_roles c i b role_ids actor s p = Inr (s', p')" shows "custody bid s'"
proof -
  obtain u given x y where run: "get_user_by_id s i b = Inr u" "resolve_business_roles s b role_ids = Inr given"
    "is_owner s u \<Longrightarrow> \<not> list_ex owner_role given \<Longrightarrow> 1 < count_active_owners s b"
    "s' = log_audit b (Some actor) (us_default_branch_id u) AuditAction_update ''user_roles'' (row_id u) x y
       (update_user (row_id u) (touch_user c actor) (replace_assignments c u given actor s))"
    using replace_user_roles_run [OF assms(2)] by metis
  note u = get_user_row [OF run(1)]
  note ids = custody_ids [OF assms(1)]
  let ?s2 = "replace_assignments c u given actor s"
  have s2: "?s2 = replace_assignments c u given actor s" ..
  note R = replaced_assignments [OF ids run(1,2) s2]
  have parts: "staff_ids ?s2" "staff_linked ?s2" "app_users ?s2 = app_users s" "roles ?s2 = roles s"
    "role_permissions ?s2 = role_permissions s" "permissions ?s2 = permissions s"
    using R(1) by (auto simp: restored_def unassigned_def)
  have "\<exists>v. owns_business bid ?s2 v"
  proof (cases "b = bid \<and> list_ex owner_role given")
    case True
    then obtain r where r: "r \<in> set given" "owner_role r" by (auto simp: list_ex_iff)
    then have row: "r \<in> set (roles s)" "is_owner_role bid r"
      using resolved_roles(1) [OF run(2) ids(1), of r] True by (auto simp: is_owner_role_def)
    obtain a where "a \<in> set (user_roles ?s2)" "assigns u [r] a" using restoredD(3) [OF R(1) r(1)] by blast
    then have "owns_business bid ?s2 u"
      using u row parts True by (intro owns_businessI [of u _ _ a r]) (auto simp: assigns_def)
    then show ?thesis ..
  next
    case False
    have "\<exists>u'. owns_business bid s u' \<and> row_id u' \<noteq> row_id u"
    proof (cases "b = bid \<and> is_owner s u")
      case True
      then show ?thesis using another_owner [OF assms(1) u(1)] u(4) run(3) False by metis
    next
      case no: False
      obtain u' where u': "owns_business bid s u'" using assms(1) by (auto simp: custody_def)
      moreover have "u' \<noteq> u"
        using no u' owns_iff_is_owner [OF ids u(1) _ u(3), of bid] u(4) by (auto simp: owns_business_def)
      ultimately show ?thesis
        using distinct_key_eq [OF staff_idsD(2) [OF ids(1)] _ u(1), of u'] by (auto simp: owns_business_def)
    qed
    then obtain u' where "owns_business bid s u'" "row_id u' \<noteq> row_id u" by blast
    then show ?thesis by (rule owner_survives) (use R(3) parts in auto)
  qed
  moreover have "owner_roles_whole bid ?s2"
    using assms(1) role_keys_cong [OF parts(5,6)] parts(4,6)
    by (simp add: custody_def owner_roles_whole_def owner_needs_def)
  ultimately have "custody bid ?s2" using parts(1,2) by (simp add: custody_def)
  then show ?thesis unfolding run(4) by (intro custody_audit custody_users) simp_all
qed

section \<open>A new business has its owner\<close>

lemma seed_role_permissions_effect:
  assumes "staff_ids s" "seed_role_permissions c bid r user s = Inr (n, s')"
  shows "\<exists>rps m. s' = s\<lparr>uuid_next := m, role_permissions := role_permissions s @ rps\<rparr> \<and> uuid_next s \<le> m"
    and "staff_ids s'"
    and "permission_keys_for_role (ro_name r) = Inr keys \<Longrightarrow> k \<in> set keys \<Longrightarrow>
      k \<in> set (map pe_permission_key (permissions s)) \<Longrightarrow> k \<in> set (role_keys s' bid r)"
proof -
  obtain ks where ks: "permission_keys_for_role (ro_name r) = Inr ks"
    using assms(2) unfolding seed_role_permissions_def bind_res_Inr by blast
  define wanted where "wanted = filter (\<lambda>p. pe_permission_key p \<in> set ks) (permissions s)"
  define missing where "missing = filter (\<lambda>p. pe_id p \<notin> set (map rp_permission_id (filter (\<lambda>rp. rp_business_id rp = bid \<and>
             rp_role_id rp = row_id r \<and> rp_permission_id rp \<in> set (map pe_id wanted)) (role_permissions s)))) wanted"
  have s': "s' = fold (add_role_permission c user r bid) missing s"
    using assms(2) ks by (simp add: seed_role_permissions_def wanted_def missing_def Let_def)
  obtain rps m where eq: "s' = s\<lparr>uuid_next := m, role_permissions := role_permissions s @ rps\<rparr>" "uuid_next s \<le> m"
    and ids: "staff_ids s'"
    and rps: "map (\<lambda>rp. (rp_business_id rp, rp_role_id rp, rp_permission_id rp)) rps = map (\<lambda>p. (bid, row_id r, pe_id p)) missing"
    using add_role_permissions [OF assms(1), of c user r bid missing] unfolding s' by auto
  show "\<exists>rps m. s' = s\<lparr>uuid_next := m, role_permissions := role_permissions s @ rps\<rparr> \<and> uuid_next s \<le> m" using eq by blast
  show "staff_ids s'" by (rule ids)
  have pof: "permission_of s' = permission_of s" by (rule permission_of_cong) (simp add: eq(1))
  show "k \<in> set (role_keys s' bid r)"
    if k: "permission_keys_for_role (ro_name r) = Inr keys" "k \<in> set keys" "k \<in> set (map pe_permission_key (permissions s))"
  proof -
    obtain p where p: "p \<in> set (permissions s)" "pe_permission_key p = k" using k(3) by auto
    have w: "p \<in> set wanted" using p k(1,2) ks by (simp add: wanted_def)
    have "\<exists>rp\<in>set (role_permissions s'). rp_business_id rp = bid \<and> rp_role_id rp = row_id r \<and> rp_permission_id rp = pe_id p"
    proof (cases "p \<in> set missing")
      case True
      then have "(bid, row_id r, pe_id p) \<in> set (map (\<lambda>rp. (rp_business_id rp, rp_role_id rp, rp_permission_id rp)) rps)"
        unfolding rps by force
      then show ?thesis by (auto simp: eq(1))
    next
      case False
      then have "pe_id p \<in> set (map rp_permission_id (filter (\<lambda>rp. rp_business_id rp = bid \<and>
             rp_role_id rp = row_id r \<and> rp_permission_id rp \<in> set (map pe_id wanted)) (role_permissions s)))"
        using w by (simp add: missing_def)
      then show ?thesis by (auto simp: eq(1))
    qed
    then show ?thesis using permission_of_member [OF assms(1) p(1)] p(2) by (auto simp: pof intro: role_keysI)
  qed
qed

definition standard_role :: "db \<Rightarrow> uuid \<Rightarrow> string \<Rightarrow> role \<Rightarrow> bool" where
  "standard_role s bid name r \<longleftrightarrow> business_id r = bid \<and> live r \<and> ro_is_system r \<and> ro_name r = name \<and>
     (\<forall>keys. permission_keys_for_role name = Inr keys \<longrightarrow>
       (\<forall>k\<in>set keys. k \<in> set (map pe_permission_key (permissions s)) \<longrightarrow> k \<in> set (role_keys s bid r)))"

definition founded :: "uuid \<Rightarrow> string \<Rightarrow> db \<Rightarrow> db \<Rightarrow> bool" where
  \<comment> \<open>a standard role was added with its keys\<close>
  "founded bid name s s' \<longleftrightarrow> staff_ids s' \<and> uuid_next s \<le> uuid_next s' \<and>
     (\<exists>r rps n. s' = s\<lparr>uuid_next := n, roles := roles s @ [r], role_permissions := role_permissions s @ rps\<rparr> \<and>
        standard_role s' bid name r)"

lemma ensure_standard_role_founds:
  assumes "staff_ids s" "ensure_standard_role c bid user (name, description) (rc, pl, s) = Inr (rc', pl', s')"
    "\<And>r. r \<in> set (roles s) \<Longrightarrow> \<not> named_role bid name r"
  shows "founded bid name s s'"
proof -
  let ?r = "new_row (uuid_gen s (uuid_next s)) bid user (now c)
               \<lparr>ro_name = name, ro_description = Some description, ro_is_system = True\<rparr>"
  let ?s1 = "s\<lparr>uuid_next := Suc (uuid_next s), roles := roles s @ [?r]\<rparr>"
  have none: "filter (named_role bid name) (roles s) = []" using assms(3) by (simp add: filter_empty_conv)
  obtain linked where seed: "seed_role_permissions c bid ?r user ?s1 = Inr (linked, s')"
    using assms(2) none unfolding ensure_standard_role_def get_or_create_standard_role_def
    by (auto simp: bind_res_Inr fresh_uuid_def scalar_one_or_none_Inr Let_def split: if_splits option.splits)
  have ids: "staff_ids ?s1" by (rule staff_ids_snoc(3) [OF assms(1) refl]) simp
  note eff = seed_role_permissions_effect [OF ids seed]
  obtain rps m where eq: "s' = ?s1\<lparr>uuid_next := m, role_permissions := role_permissions ?s1 @ rps\<rparr>"
    "Suc (uuid_next s) \<le> m" using eff(1) by auto
  have "standard_role s' bid name ?r"
    using eff(3) by (auto simp: standard_role_def live_def eq(1))
  then show ?thesis unfolding founded_def using eff(2) eq
    by (intro conjI exI [of _ ?r] exI [of _ rps] exI [of _ m]) simp_all
qed

lemma foundedD:
  assumes "founded bid name s s'"
  shows "staff_ids s'" "app_users s' = app_users s" "user_roles s' = user_roles s" "permissions s' = permissions s"
    "uuid_gen s' = uuid_gen s" "uuid_next s \<le> uuid_next s'"
    "\<exists>r. roles s' = roles s @ [r] \<and> standard_role s' bid name r"
    "\<exists>rps. role_permissions s' = role_permissions s @ rps"
  using assms by (auto simp: founded_def)

lemma standard_role_later:
  assumes "standard_role s bid name r" "founded bid name' s s'" shows "standard_role s' bid name r"
proof -
  obtain rps where "role_permissions s' = role_permissions s @ rps" using foundedD(8) [OF assms(2)] by blast
  from role_keys_grow [OF this foundedD(4) [OF assms(2)] refl, of bid r]
  show ?thesis using assms(1) unfolding standard_role_def foundedD(4) [OF assms(2)] by blast
qed

lemma standard_names:
  "lower_text ''owner'' = ''owner''" "lower_text ''manager'' = ''manager''" "lower_text ''cashier'' = ''cashier''"
  by code_simp+

lemma ensure_standard_roles_found:
  assumes "staff_ids s" "ensure_standard_roles_and_permissions c bid user s = Inr (rc, pl, s')"
    "\<And>r. r \<in> set (roles s) \<Longrightarrow> business_id r \<noteq> bid"
  obtains s1 s2 where "founded bid ''owner'' s s1" "founded bid ''manager'' s1 s2" "founded bid ''cashier'' s2 s'"
proof -
  from assms(2) obtain a1 b1 s1 a2 b2 s2 where
    run: "ensure_standard_role c bid user (''owner'', ''Business owner'') (0, 0, s) = Inr (a1, b1, s1)"
      "ensure_standard_role c bid user (''manager'', ''Store manager'') (a1, b1, s1) = Inr (a2, b2, s2)"
      "ensure_standard_role c bid user (''cashier'', ''POS cashier'') (a2, b2, s2) = Inr (rc, pl, s')"
    unfolding ensure_standard_roles_and_permissions_def STANDARD_ROLE_DEFINITIONS_def
    by (auto simp: bind_res_Inr)
  have f1: "founded bid ''owner'' s s1"
    by (rule ensure_standard_role_founds [OF assms(1) run(1)]) (use assms(3) in \<open>auto simp: named_role_def\<close>)
  obtain r1 where r1: "roles s1 = roles s @ [r1]" "standard_role s1 bid ''owner'' r1" using foundedD(7) [OF f1] by blast
  have f2: "founded bid ''manager'' s1 s2"
    by (rule ensure_standard_role_founds [OF foundedD(1) [OF f1] run(2)])
      (use assms(3) r1 in \<open>auto simp: named_role_def standard_role_def standard_names\<close>)
  obtain r2 where r2: "roles s2 = roles s1 @ [r2]" "standard_role s2 bid ''manager'' r2" using foundedD(7) [OF f2] by blast
  have f3: "founded bid ''cashier'' s2 s'"
    by (rule ensure_standard_role_founds [OF foundedD(1) [OF f2] run(3)])
      (use assms(3) r1 r2 in \<open>auto simp: named_role_def standard_role_def standard_names\<close>)
  show ?thesis by (rule that [OF f1 f2 f3])
qed

lemma owner_role_lower: "owner_role r \<longleftrightarrow> lower_text (ro_name r) = ''owner''"
  by (simp add: owner_role_def lower_text_def)

lemma added_rows:
  assumes "add_business_rows env t data slug s = ((u, b, config, br), s')"
  shows "row_id b = uuid_gen s (uuid_next s)" "row_id u = uuid_gen s (Suc (Suc (Suc (uuid_next s))))"
    "business_id u = row_id b" "live u"
    "\<exists>bs ks brs. s' = s\<lparr>uuid_next := Suc (Suc (Suc (Suc (uuid_next s)))), businesses := bs, business_configs := ks,
       branches := brs, app_users := app_users s @ [u]\<rparr>"
  using assms by (auto simp: add_business_rows_def fresh_uuid_def Let_def new_business_def new_user_def live_def)

lemma made_owner:
  assumes "make_owner c u s = Inr s'"
  obtains rc pl s1 r where "ensure_standard_roles_and_permissions c (business_id u) (Some (row_id u)) s = Inr (rc, pl, s1)"
    "filter (named_role (business_id u) ''owner'') (roles s1) = [r]" "s' = assign_role c u None (row_id u) r s1"
  using assms unfolding make_owner_def by (auto simp: bind_res_Inr scalar_one_or_none_Inr split: option.splits)

lemma registered_parts:
  assumes "register_new_business env c data s = Inr ((u, b), s')"
  obtains bs ks brs rc pl s1 r where
    "row_id b = uuid_gen s (uuid_next s)" "row_id u = uuid_gen s (Suc (Suc (Suc (uuid_next s))))" "business_id u = row_id b" "live u"
    "ensure_standard_roles_and_permissions c (row_id b) (Some (row_id u)) (s\<lparr>uuid_next := Suc (Suc (Suc (Suc (uuid_next s)))),
       businesses := bs, business_configs := ks, branches := brs, app_users := app_users s @ [u]\<rparr>) = Inr (rc, pl, s1)"
    "filter (named_role (row_id b) ''owner'') (roles s1) = [r]"
    "\<exists>bs ks brs. s' = (assign_role c u None (row_id u) r s1)\<lparr>businesses := bs, business_configs := ks, branches := brs\<rparr>"
proof -
  obtain slug s1 where run: "make_owner c (fst (fst (add_business_rows env (now c) data slug s)))
      (snd (add_business_rows env (now c) data slug s)) = Inr s1" "u = fst (fst (add_business_rows env (now c) data slug s))"
    "row_id b = row_id (fst (snd (fst (add_business_rows env (now c) data slug s))))"
    and s1: "s' = s1\<lparr>businesses := businesses s', business_configs := business_configs s', branches := branches s'\<rparr>"
    using assms unfolding register_new_business_def by (auto simp: bind_res_Inr Let_def split_beta split: if_splits)
  from s1 have s': "\<exists>bs ks brs. s' = s1\<lparr>businesses := bs, business_configs := ks, branches := brs\<rparr>" by blast
  obtain b0 config br s0 where add: "add_business_rows env (now c) data slug s = ((u, b0, config, br), s0)"
    using run(2) by (metis prod.collapse)
  have made: "make_owner c u s0 = Inr s1" and b: "row_id b = row_id b0" using run(1,3) by (simp_all add: add)
  note rows = added_rows [OF add]
  obtain bs ks brs where s0: "s0 = s\<lparr>uuid_next := Suc (Suc (Suc (Suc (uuid_next s)))), businesses := bs, business_configs := ks,
       branches := brs, app_users := app_users s @ [u]\<rparr>" using rows(5) by blast
  obtain rc pl s2 r where own: "ensure_standard_roles_and_permissions c (business_id u) (Some (row_id u)) s0 = Inr (rc, pl, s2)"
    "filter (named_role (business_id u) ''owner'') (roles s2) = [r]" "s1 = assign_role c u None (row_id u) r s2"
    using made_owner [OF made] .
  have bu: "business_id u = row_id b" "row_id b = uuid_gen s (uuid_next s)" using rows(1,3) b by simp_all
  show ?thesis
    by (rule that [OF bu(2) rows(2) bu(1) rows(4) own(1) [unfolded s0 bu(1)] own(2) [unfolded bu(1)] s' [unfolded own(3)]])
qed

lemma registration_custody:
  assumes "staff_ids s" "staff_linked s" "\<And>r. r \<in> set (roles s) \<Longrightarrow> business_id r \<in> drawn s"
    "register_new_business env c data s = Inr ((u, b), s')"
  shows "custody (row_id b) s'"
proof -
  obtain bs ks brs rc pl s4 r where
    b: "row_id b = uuid_gen s (uuid_next s)" and u: "row_id u = uuid_gen s (Suc (Suc (Suc (uuid_next s))))" "business_id u = row_id b" "live u"
    and run: "ensure_standard_roles_and_permissions c (row_id b) (Some (row_id u)) (s\<lparr>uuid_next := Suc (Suc (Suc (Suc (uuid_next s)))),
       businesses := bs, business_configs := ks, branches := brs, app_users := app_users s @ [u]\<rparr>) = Inr (rc, pl, s4)"
    and r: "filter (named_role (row_id b) ''owner'') (roles s4) = [r]"
    and s': "\<exists>bs ks brs. s' = (assign_role c u None (row_id u) r s4)\<lparr>businesses := bs, business_configs := ks, branches := brs\<rparr>"
    using registered_parts [OF assms(4)] by metis
  let ?s0 = "s\<lparr>uuid_next := Suc (Suc (Suc (Suc (uuid_next s)))), businesses := bs, business_configs := ks, branches := brs,
      app_users := app_users s @ [u]\<rparr>"
  have inj: "inj (uuid_gen s)" using assms(1) by (simp add: staff_ids_def)
  have fresh: "row_id b \<notin> drawn s" "row_id u \<notin> drawn s"
    using inj_eq [OF inj] unfolding b u(1) drawn_def by auto
  have drawn0: "drawn s \<subseteq> drawn ?s0" "row_id u \<in> drawn ?s0" by (auto simp: drawn_def u(1))
  have ids0: "staff_ids ?s0"
    using assms(1) fresh(2) drawn0 unfolding staff_ids_def keyed_def by auto
  have foreign: "business_id q \<noteq> row_id b" if "q \<in> set (roles s)" for q using assms(3) [OF that] fresh(1) by auto
  obtain s1 s2 where f: "founded (row_id b) ''owner'' ?s0 s1" "founded (row_id b) ''manager'' s1 s2"
    "founded (row_id b) ''cashier'' s2 s4"
    using ensure_standard_roles_found [OF ids0 run] foreign by auto
  obtain r1 where r1: "roles s1 = roles s @ [r1]" "standard_role s1 (row_id b) ''owner'' r1" using foundedD(7) [OF f(1)] by auto
  obtain r2 where r2: "roles s2 = roles s1 @ [r2]" "standard_role s2 (row_id b) ''manager'' r2" using foundedD(7) [OF f(2)] by auto
  obtain r3 where r3: "roles s4 = roles s2 @ [r3]" "standard_role s4 (row_id b) ''cashier'' r3" using foundedD(7) [OF f(3)] by auto
  have owner4: "standard_role s4 (row_id b) ''owner'' r1"
    by (rule standard_role_later [OF standard_role_later [OF r1(2) f(2)] f(3)])
  have roles4: "roles s4 = roles s @ [r1, r2, r3]" using r1(1) r2(1) r3(1) by simp
  have "r1 \<in> set (filter (named_role (row_id b) ''owner'') (roles s4))"
    using r1(2) by (auto simp: roles4 named_role_def standard_role_def)
  then have "r = r1" unfolding r by simp
  have rest4: "app_users s4 = app_users s @ [u]" "user_roles s4 = user_roles s" "permissions s4 = permissions s" "staff_ids s4"
    "uuid_gen s4 = uuid_gen s"
    using foundedD(1-5) [OF f(3)] foundedD(2-5) [OF f(2)] foundedD(2-5) [OF f(1)] by simp_all
  let ?a = "new_row (uuid_gen s4 (uuid_next s4)) (business_id u) (Some (row_id u)) (now c)
        \<lparr>ur_user_id = row_id u, ur_role_id = row_id r1, ur_branch_id = None\<rparr>"
  let ?s5 = "s4\<lparr>uuid_next := Suc (uuid_next s4), user_roles := user_roles s @ [?a]\<rparr>"
  obtain bs' ks' brs' where eq: "s' = ?s5\<lparr>businesses := bs', business_configs := ks', branches := brs'\<rparr>"
    using s' unfolding \<open>r = r1\<close> assign_role_eq rest4(2) by blast
  have ids: "staff_ids s'"
    using staff_ids_snoc(1) [OF rest4(4) refl, of ?a] unfolding eq staff_ids_def keyed_def drawn_def rest4(2) by simp
  have rows: "app_users s' = app_users s @ [u]" "roles s' = roles s @ [r1, r2, r3]" "user_roles s' = user_roles s @ [?a]"
    "role_permissions s' = role_permissions s4" "permissions s' = permissions s4"
    by (simp_all add: eq rest4 roles4)
  have linked: "staff_linked s'"
    using assms(2) owner4 u(2) unfolding staff_linked_def rows by (auto simp: standard_role_def)
  have names: "owner_role r1" "\<not> owner_role r2" "\<not> owner_role r3"
    using r1(2) r2(2) r3(2) by (simp_all add: owner_role_lower standard_role_def standard_names)
  have "owner_roles_whole (row_id b) s'"
    unfolding owner_roles_whole_def
  proof (intro ballI impI)
    fix q assume "q \<in> set (roles s')" "is_owner_role (row_id b) q"
    then have "q = r1" using names foreign by (auto simp: rows is_owner_role_def)
    have keys: "role_keys s' (row_id b) r1 = role_keys s4 (row_id b) r1" by (rule role_keys_cong [OF rows(4,5) refl])
    have "permission_keys_for_role ''owner'' = Inr (ALL_PERMISSION_KEYS @ OWNER_LEGACY_PERMISSION_KEYS)"
      by (simp add: permission_keys_for_role_def standard_names)
    then show "ro_is_system q \<and> (\<forall>k. owner_needs s' k \<longrightarrow> k \<in> set (role_keys s' (row_id b) q))"
      using owner4 unfolding \<open>q = r1\<close> keys owner_needs_def rows(5) standard_role_def by blast
  qed
  moreover have "owns_business (row_id b) s' u"
    by (rule owns_businessI [of u _ _ ?a r1])
      (use u owner4 names(1) in \<open>auto simp: rows live_def is_owner_role_def standard_role_def\<close>)
  ultimately show ?thesis using ids linked unfolding custody_def by blast
qed

section \<open>Runs\<close>

inductive staff_step :: "auth_env \<Rightarrow> db \<Rightarrow> db \<Rightarrow> bool" for env where
  \<comment> \<open>the operations on the staff of any business; the schemas strip the names of roles\<close>
  "strip_ws (crr_name data) = crr_name data \<Longrightarrow> create_role c b data user s p = Inr (r, s', p') \<Longrightarrow> staff_step env s s'"
| "(\<And>n. urr_name data = Some n \<Longrightarrow> strip_ws n = n) \<Longrightarrow> update_role c i b data user s p = Inr (s', p') \<Longrightarrow> staff_step env s s'"
| "delete_role c i b user s p = Inr (s', p') \<Longrightarrow> staff_step env s s'"
| "replace_role_permissions c i b keys user s p = Inr (s', p') \<Longrightarrow> staff_step env s s'"
| "create_tenant_user h c b data user s p = Inr (u, s', p') \<Longrightarrow> staff_step env s s'"
| "update_tenant_user c i b data user s = Inr s' \<Longrightarrow> staff_step env s s'"
| "replace_user_roles c i b role_ids user s p = Inr (s', p') \<Longrightarrow> staff_step env s s'"
| "set_user_pin env h c i b pin ru p1 p2 s = Inr s' \<Longrightarrow> staff_step env s s'"
| "change_own_password env h c u p1 p2 s = Inr s' \<Longrightarrow> staff_step env s s'"
| "reset_user_password h c i b pw ru s = Inr s' \<Longrightarrow> staff_step env s s'"
| "soft_delete_tenant_user c i b user s p = Inr (s', p') \<Longrightarrow> staff_step env s s'"

lemma staff_step_custody: "staff_step env s s' \<Longrightarrow> custody bid s \<Longrightarrow> custody bid s'"
  by (induction rule: staff_step.induct)
    (blast intro: create_role_custody update_role_custody delete_role_custody replace_role_permissions_custody
      create_tenant_user_custody update_tenant_user_custody replace_user_roles_custody set_user_pin_custody
      change_own_password_custody reset_user_password_custody soft_delete_custody)+

lemma staff_steps_custody: "(staff_step env)\<^sup>*\<^sup>* s t \<Longrightarrow> custody bid s \<Longrightarrow> custody bid t"
  by (induction rule: rtranclp_induct) (blast intro: staff_step_custody)+

text \<open>
  C5. A business never loses its owner: after its registration and any sequence of operations on the roles and
  users of any business, the business still has a user who is not deleted, has the owner role, and holds every key
  of the standard owner role that exists.
\<close>

theorem business_keeps_an_owner:
  assumes "staff_ids s" "staff_linked s" "\<And>r. r \<in> set (roles s) \<Longrightarrow> business_id r \<in> drawn s"
    and "register_new_business renv c data s = Inr ((u, b), s')" "(staff_step env)\<^sup>*\<^sup>* s' t"
  shows "\<exists>v\<in>set (app_users t). business_id v = row_id b \<and> live v \<and> is_owner t v \<and>
    (\<forall>k. owner_needs t k \<longrightarrow> k \<in> compute_permission_keys t v)"
proof -
  have c: "custody (row_id b) t"
    by (rule staff_steps_custody [OF assms(5) registration_custody [OF assms(1-4)]])
  then obtain v where v: "owns_business (row_id b) t v" by (auto simp: custody_def)
  then have row: "v \<in> set (app_users t)" "business_id v = row_id b" "live v" by (auto simp: owns_business_def)
  have "is_owner t v" using owns_iff_is_owner [OF custody_ids [OF c] row] v by simp
  then show ?thesis using row owner_holds_every_key [OF c v] by blast
qed

lemma assigned_rows:
  assumes "staff_ids s" "staff_linked s" "get_user_by_id s i b = Inr u" "resolve_business_roles s b role_ids = Inr given"
    and "s2 = replace_assignments c u given actor s" "u2 \<in> set (app_users s')" "row_id u2 = i" "business_id u2 = b"
    and "user_roles s' = user_roles s2" "roles s' = roles s" "role_permissions s' = role_permissions s"
    "permissions s' = permissions s"
  shows "compute_permission_keys s' u2 = (\<Union>r\<in>set given. set (role_keys s b r))"
proof -
  note u = get_user_row [OF assms(3)]
  note R = replaced_assignments [OF assms(1-5)]
  note G = resolved_roles [OF assms(4,1)]
  have role: "role_of s' a = role_of s a" for a by (simp add: role_of_def assms(10))
  have keys: "set (role_keys s' b r) = set (role_keys s b r)" for r using role_keys_cong [OF assms(11,12) refl] by simp
  have r2: "staff_ids s2" "staff_linked s2" "app_users s2 = app_users s" "roles s2 = roles s"
    using R(1) by (auto simp: restored_def unassigned_def)
  have biz: "business_id a = b" if "a \<in> set (user_roles s2)" "ur_user_id a = i" for a
    using linked_user [OF r2(1,2) that(1), of u] that(2) u r2(3) by simp
  have iff: "k \<in> compute_permission_keys s' u2 \<longleftrightarrow> (\<exists>a\<in>set (user_roles s2). \<exists>r. ur_user_id a = i \<and> live a \<and>
      business_id a = b \<and> role_of s a = Some r \<and> live r \<and> business_id r = b \<and> k \<in> set (role_keys s b r))" for k
    unfolding compute_permission_keys_iff granted_def role assms(7-9) role_keys_iff [symmetric] keys [symmetric]
    by (auto simp: role_keys_iff)
  show ?thesis
  proof (intro set_eqI iffI)
    fix k assume "k \<in> compute_permission_keys s' u2"
    then obtain a r where a: "a \<in> set (user_roles s2)" "ur_user_id a = i" "live a" "role_of s a = Some r" "k \<in> set (role_keys s b r)"
      unfolding iff by blast
    then have r: "r \<in> set (roles s)" "row_id r = ur_role_id a" by (auto simp: role_of_iff [OF assms(1)])
    have "ur_role_id a \<in> set (map row_id given)" using R(2) [OF a(1,3)] a(2) u(2) by simp
    then obtain g where g: "g \<in> set given" "row_id g = ur_role_id a" by auto
    then have "g = r" using G(1) [OF g(1)] r distinct_key_eq [OF staff_idsD(3) [OF assms(1)]] by metis
    then show "k \<in> (\<Union>r\<in>set given. set (role_keys s b r))" using g(1) a(5) by blast
  next
    fix k assume "k \<in> (\<Union>r\<in>set given. set (role_keys s b r))"
    then obtain r where r: "r \<in> set given" "k \<in> set (role_keys s b r)" by blast
    obtain a where a: "a \<in> set (user_roles s2)" "assigns u [r] a" using restoredD(3) [OF R(1) r(1)] by blast
    then have "ur_user_id a = i" "live a" "row_id r = ur_role_id a" using u(2) by (auto simp: assigns_def)
    then show "k \<in> compute_permission_keys s' u2"
      unfolding iff using a(1) biz G(1) [OF r(1)] r(2) role_of_iff [OF assms(1)] by blast
  qed
qed

text \<open>
  C35. A change of a user's roles takes effect with the user's next request: whatever was cached, the request is served
  with exactly the keys of the roles the user was given, no key of a role that was taken away among them.
\<close>

theorem replaced_roles_take_effect:
  assumes "staff_ids s" "staff_linked s" "replace_user_roles c i b role_ids actor s p = Inr (s', p')"
    and "get_current_user decode g t m rq token s' p' = (Inr (u, keys), p'')" "row_id u = i"
  shows "keys = (\<Union>r\<in>{r \<in> set (roles s). row_id r \<in> set role_ids}. set (role_keys s b r))"
proof -
  obtain v given x y where run: "get_user_by_id s i b = Inr v" "resolve_business_roles s b role_ids = Inr given"
    and s': "s' = log_audit b (Some actor) (us_default_branch_id v) AuditAction_update ''user_roles'' (row_id v) x y
       (update_user (row_id v) (touch_user c actor) (replace_assignments c v given actor s))"
    and p': "p' = cache_invalidate_all p"
    using replace_user_roles_run [OF assms(3)] by metis
  have look: "find (\<lambda>w. row_id w = i) (app_users s') = Some u" "keys = compute_permission_keys s' u"
  proof -
    have "cache_get m j p' = (None, p')" for j by (simp add: cache_get_def p' cache_invalidate_all_def)
    then obtain a where a: "find (\<lambda>w. row_id w = a) (app_users s') = Some u" "keys = compute_permission_keys s' u"
      using assms(4) by (auto simp: get_current_user_def Let_def split: option.splits sum.splits)
    have "a = i" using find_member [OF a(1)] assms(5) by simp
    then show "find (\<lambda>w. row_id w = i) (app_users s') = Some u" "keys = compute_permission_keys s' u"
      using a by simp_all
  qed
  note row = get_user_row [OF run(1)]
  have s2: "replace_assignments c v given actor s = replace_assignments c v given actor s" ..
  note R = replaced_assignments(1) [OF assms(1,2) run s2]
  have parts: "app_users s' = update_where (\<lambda>r. row_id r = row_id v) (touch_user c actor) (app_users s)"
    "user_roles s' = user_roles (replace_assignments c v given actor s)" "roles s' = roles s"
    "role_permissions s' = role_permissions s" "permissions s' = permissions s"
    using R unfolding s' by (auto simp: restored_def unassigned_def log_audit_def)
  have mem: "u \<in> set (app_users s')" using find_member [OF look(1)] by blast
  then obtain w where w: "w \<in> set (app_users s)" "row_id w = row_id u" "business_id w = business_id u"
    unfolding parts(1) by (auto simp: set_update_where touch_user_def split: if_splits)
  then have "w = v" using distinct_key_eq [OF staff_idsD(2) [OF assms(1)] w(1) row(1)] row(2) assms(5) by simp
  then have "business_id u = b" using w(3) row(4) by simp
  from assigned_rows [OF assms(1,2) run s2 mem assms(5) this parts(2-5)]
  have "keys = (\<Union>r\<in>set given. set (role_keys s b r))" using look(2) by simp
  moreover have "set given = {r \<in> set (roles s). row_id r \<in> set role_ids}"
  proof -
    have "r \<in> set given" if r: "r \<in> set (roles s)" "row_id r \<in> set role_ids" for r
    proof -
      obtain q where q: "q \<in> set given" "row_id q = row_id r"
        using r(2) resolved_roles(2) [OF run(2) assms(1)] by (metis in_set_conv_nth length_map nth_map nth_mem)
      then show ?thesis
        using distinct_key_eq [OF staff_idsD(3) [OF assms(1)] _ r(1) q(2)] resolved_roles(1) [OF run(2) assms(1) q(1)] by blast
    qed
    moreover have "row_id r \<in> set role_ids" if "r \<in> set given" for r
      using resolved_roles(2) [OF run(2) assms(1)] that by (metis imageI list.set_map)
    ultimately show ?thesis using resolved_roles(1) [OF run(2) assms(1)] by blast
  qed
  ultimately show ?thesis by simp
qed

text \<open>A small shop, and its first requests.\<close>

definition opening_clock :: clock where
  "opening_clock = \<lparr>now = 0, date_key = ''20260101''\<rparr>"

definition sample_renv :: registration_env where
  "sample_renv = \<lparr>re_business_types = [\<lparr>bt_id = 1, bt_code = ''retail'', bt_is_active = True\<rparr>],
     re_hash_password = id, re_trial_days = 14, re_draw = (\<lambda>n. n)\<rparr>"

definition sample_registration :: RegisterBusinessRequest where
  "sample_registration = \<lparr>rbr_business_name = ''Shop'', rbr_business_type_code = ''retail'', rbr_owner_name = ''Ada'',
     rbr_owner_phone = ''0300'', rbr_owner_password = ''secret12'', rbr_branch_name = ''Main'', rbr_city = None\<rparr>"

definition sample_permissions :: db where
  "sample_permissions = (empty_db id)\<lparr>permissions :=
     [\<lparr>pe_id = 1, pe_permission_key = ''sales.create'', pe_module = ''sales'', pe_description = None\<rparr>]\<rparr>"

definition sample_chef :: CreateRoleRequest where
  "sample_chef = \<lparr>crr_name = ''chef'', crr_description = None, crr_permission_keys = []\<rparr>"

definition sample_cache :: "(uuid \<times> nat) \<times> int \<times> string set \<Rightarrow> permission_cache" where
  "sample_cache entry = \<lparr>pc_role_version = 0, pc_store = [entry]\<rparr>"

definition shop_opens :: "(app_user \<times> business) \<times> db \<Rightarrow> (role \<times> db \<times> permission_cache) res" where
  \<comment> \<open>the owner of a new business adds a role\<close>
  "shop_opens = (\<lambda>((u, b), s). create_role opening_clock (row_id b) sample_chef (row_id u) s
     \<lparr>pc_role_version = 0, pc_store = []\<rparr>)"

lemma shop_opens_fine:
  "(case register_new_business sample_renv opening_clock sample_registration sample_permissions of
     Inl _ \<Rightarrow> False | Inr made \<Rightarrow> (case shop_opens made of Inl _ \<Rightarrow> False
     | Inr (_, t, _) \<Rightarrow> list_ex (\<lambda>p. pe_permission_key p = ''sales.create'') (permissions t)))"
  by code_simp

lemma business_keeps_an_owner_witness:
  "\<exists>u b s' r t p. register_new_business sample_renv opening_clock sample_registration sample_permissions = Inr ((u, b), s') \<and>
     shop_opens ((u, b), s') = Inr (r, t, p) \<and>
     (\<exists>v\<in>set (app_users t). business_id v = row_id b \<and> live v \<and> is_owner t v \<and>
        ''sales.create'' \<in> compute_permission_keys t v)"
proof -
  obtain u b s' where made: "register_new_business sample_renv opening_clock sample_registration sample_permissions = Inr ((u, b), s')"
    using shop_opens_fine by (auto split: sum.splits)
  then obtain r t p where opens: "shop_opens ((u, b), s') = Inr (r, t, p)"
    using shop_opens_fine by (cases "shop_opens ((u, b), s')") auto
  have ok: "staff_ids sample_permissions" "staff_linked sample_permissions"
    "r \<in> set (roles sample_permissions) \<Longrightarrow> business_id r \<in> drawn sample_permissions" for r
    by (simp_all add: staff_ids_def staff_linked_def keyed_def sample_permissions_def empty_db_def)
  have "strip_ws (crr_name sample_chef) = crr_name sample_chef" by code_simp
  then have step: "staff_step env s' t"
    using opens unfolding shop_opens_def prod.case by (rule staff_step.intros(1))
  have "''sales.create'' \<in> set (map pe_permission_key (permissions t))"
    using shop_opens_fine opens by (auto simp: made list_ex_iff image_iff dest: sym)
  then have "owner_needs t ''sales.create''"
    by (simp add: owner_needs_def ALL_PERMISSION_KEYS_def)
  then show ?thesis
    using made opens business_keeps_an_owner [OF ok made r_into_rtranclp [of "staff_step env", OF step]] by blast
qed

definition two_roles :: db where
  \<comment> \<open>a second role, which has no keys\<close>
  "two_roles = sample_access\<lparr>roles := roles sample_access @
     [new_row 21 1 None 0 \<lparr>ro_name = ''Clerk'', ro_description = None, ro_is_system = False\<rparr>]\<rparr>"

definition role_taken :: "permission_cache \<Rightarrow> (db \<times> permission_cache) res" where
  \<comment> \<open>user 9 gets the second role instead of the first\<close>
  "role_taken p = replace_user_roles opening_clock 9 1 [21] 8 two_roles p"

lemma role_taken_fine:
  "(case role_taken (sample_cache ((9, 0), (TTL_us, {''sales.create''}))) of Inl _ \<Rightarrow> False
    | Inr (s, p) \<Rightarrow> (case fst (get_current_user sample_decode 3 4000 0 sample_request ''t'' s p) of
        Inl _ \<Rightarrow> False | Inr (u, _) \<Rightarrow> row_id u = 9))"
  by code_simp

lemma replaced_roles_take_effect_witness:
  "\<exists>s p u q. role_taken (sample_cache ((9, 0), (TTL_us, {''sales.create''}))) = Inr (s, p) \<and>
     get_current_user sample_decode 3 4000 0 sample_request ''t'' s p = (Inr (u, {}), q)"
proof -
  obtain s p where run: "role_taken (sample_cache ((9, 0), (TTL_us, {''sales.create''}))) = Inr (s, p)"
    using role_taken_fine by (auto split: sum.splits)
  then obtain u keys q where served: "get_current_user sample_decode 3 4000 0 sample_request ''t'' s p = (Inr (u, keys), q)"
    "row_id u = 9"
    using role_taken_fine by (cases "get_current_user sample_decode 3 4000 0 sample_request ''t'' s p") (auto split: sum.splits)
  have "uuid_gen two_roles = id" "uuid_next two_roles = 100" by (simp_all add: two_roles_def sample_access_def empty_db_def)
  then have ok: "staff_ids two_roles" "staff_linked two_roles"
    by (simp_all add: staff_ids_def staff_linked_def keyed_def drawn_def) (simp_all add: two_roles_def sample_access_def sample_user_def)
  have "{r \<in> set (roles two_roles). row_id r \<in> set [21]} = {last (roles two_roles)}"
    "role_keys two_roles 1 (last (roles two_roles)) = []"
    by (auto simp: two_roles_def sample_access_def role_keys_def)
  then show ?thesis
    using run served replaced_roles_take_effect [OF ok run [unfolded role_taken_def] served] by simp
qed

section \<open>What the operations let through\<close>

definition shop_role :: "uuid \<Rightarrow> string \<Rightarrow> datetime option \<Rightarrow> role" where
  "shop_role i name gone = (new_row i 1 None 0 \<lparr>ro_name = name, ro_description = None, ro_is_system = True\<rparr>)\<lparr>deleted_at := gone\<rparr>"

definition one_owner :: db where
  \<comment> \<open>user 9 is the only owner\<close>
  "one_owner = sample_access\<lparr>roles := [shop_role 20 ''owner'' None, shop_role 21 ''manager'' None]\<rparr>"

definition no_cache :: permission_cache where
  "no_cache = \<lparr>pc_role_version = 0, pc_store = []\<rparr>"

lemma last_owner_deactivated:
  \<comment> \<open>the last owner cannot be deleted, but any user with \<open>users.update\<close> can deactivate it\<close>
  "case update_tenant_user opening_clock 9 1 \<lparr>uur_full_name = None, uur_branch_id = None, uur_is_active = Some False\<rparr> 8 one_owner of
     Inl _ \<Rightarrow> False
   | Inr s \<Rightarrow> list_all (\<lambda>u. us_status u \<noteq> UserStatus_active) (app_users s) \<and> count_active_owners s 1 = 1"
  by code_simp

lemma manager_makes_an_owner:
  \<comment> \<open>a manager may not change roles, but can create a user who is an owner\<close>
  "case permission_keys_for_role ''manager'' of Inl _ \<Rightarrow> False
   | Inr keys \<Rightarrow> list_ex (\<lambda>k. k = ''users.create'') keys \<and> list_all (\<lambda>k. k \<noteq> ''users.roles.manage'') keys"
  "case create_tenant_user id opening_clock 1 \<lparr>cur_full_name = ''Bob'', cur_phone = ''0301'', cur_password = ''secret12'',
       cur_branch_id = None, cur_role_ids = [20]\<rparr> 8 one_owner no_cache of
     Inl _ \<Rightarrow> False | Inr (u, s, _) \<Rightarrow> is_owner s u"
  by code_simp+

lemma name_of_a_deleted_role:
  \<comment> \<open>the name is free for \<open>_ensure_unique_role_name\<close> but not for the table\<close>
  "let s = one_owner\<lparr>roles := [shop_role 22 ''chef'' (Some 0)]\<rparr>
   in ensure_unique_role_name s 1 ''chef'' None = Inr () \<and>
      (case create_role opening_clock 1 sample_chef 9 s no_cache of Inl e \<Rightarrow> e = PyError ''IntegrityError'' | Inr _ \<Rightarrow> False)"
  by code_simp

lemma back_to_an_earlier_branch:
  \<comment> \<open>an assignment that was taken away at branch 5 stands in the way of the one that moves there\<close>
  "let a = (\<lambda>i br gone. (new_row i 1 None 0 \<lparr>ur_user_id = 9, ur_role_id = 21, ur_branch_id = Some br\<rparr>)\<lparr>deleted_at := gone\<rparr>);
       s = one_owner\<lparr>branches := [new_row 5 1 None 0 \<lparr>br_name = ''Main'', br_code = None, br_is_head_office = True,
             br_is_active = True, br_address_line1 = None, br_address_line2 = None, br_city = None, br_state = None,
             br_postal_code = None, br_phone = None, br_email = None\<rparr>], user_roles := [a 40 5 (Some 0), a 41 6 None]\<rparr>
   in case update_tenant_user opening_clock 9 1 \<lparr>uur_full_name = None, uur_branch_id = Some 5, uur_is_active = None\<rparr> 8 s
      of Inl e \<Rightarrow> e = PyError ''IntegrityError'' | Inr _ \<Rightarrow> False"
  by code_simp

end
