(* ===== verification/Rotation.thy ===== *)
theory Rotation
  imports Sessions
begin

text \<open>
  Properties of logging in and staying logged in (\<open>Sessions\<close>): a session has at most one live refresh
  token, a refresh hands out exactly that one, a token that is presented after it was used ends its
  session for good, and how many passwords can be tried before an account locks. The only assumption
  is the round trip PyJWT documents (\<open>jwt_ok\<close>); a codec that has it is given for the witnesses.
\<close>

section \<open>Sessions\<close>

definition jwt_ok :: "auth_env \<Rightarrow> bool" where
  \<comment> \<open>what PyJWT documents: a token decodes, with the secret it was signed with, to its claims until it expires\<close>
  "jwt_ok env \<longleftrightarrow> (\<forall>secret t p. ae_decode env secret t (ae_encode env secret p) =
     (case cm_exp p of None \<Rightarrow> Some p | Some e \<Rightarrow> if t < e * second_us then Some p else None))"

definition live_tokens :: "uuid \<Rightarrow> db \<Rightarrow> refresh_token list" where
  \<comment> \<open>the tokens of a session (all that descend from one login) that are not revoked\<close>
  "live_tokens f s = filter (\<lambda>r. rk_family_id r = Some f \<and> rk_revoked_at r = None) (refresh_tokens s)"

definition sessions_ok :: "db \<Rightarrow> bool" where
  "sessions_ok s \<longleftrightarrow> inj (uuid_gen s) \<and> (\<forall>f. length (live_tokens f s) \<le> 1) \<and>
     (\<forall>r\<in>set (refresh_tokens s). \<forall>f. rk_family_id r = Some f \<longrightarrow> f \<in> drawn s) \<and>
     (\<forall>r\<in>set (refresh_tokens s). \<forall>r'\<in>set (refresh_tokens s).
        rk_family_id r \<noteq> None \<and> rk_family_id r' = rk_family_id r \<longrightarrow> rk_user_id r' = rk_user_id r)"

definition closed_session :: "uuid \<Rightarrow> db \<Rightarrow> bool" where
  "closed_session f s \<longleftrightarrow> f \<in> drawn s \<and> live_tokens f s = []"

definition ages :: "refresh_token \<Rightarrow> refresh_token \<Rightarrow> bool" where
  "ages r r' \<longleftrightarrow> rk_family_id r' = rk_family_id r \<and> rk_user_id r' = rk_user_id r \<and>
     (rk_revoked_at r \<noteq> None \<longrightarrow> rk_revoked_at r' \<noteq> None)"

definition revokes :: "db \<Rightarrow> db \<Rightarrow> bool" where
  \<comment> \<open>tokens are revoked or deleted, none is added or comes back\<close>
  "revokes s s' \<longleftrightarrow> uuid_gen s' = uuid_gen s \<and> drawn s \<subseteq> drawn s' \<and>
     (\<exists>g. refresh_tokens s' = List.map_filter g (refresh_tokens s) \<and> (\<forall>r r'. g r = Some r' \<longrightarrow> ages r r'))"

lemma revokes_same:
  "refresh_tokens s' = refresh_tokens s \<Longrightarrow> uuid_gen s' = uuid_gen s \<Longrightarrow> uuid_next s \<le> uuid_next s' \<Longrightarrow> revokes s s'"
  unfolding revokes_def drawn_def by (auto intro!: exI [of _ Some] simp: ages_def map_filter_def)

lemma revokes_refl [simp]: "revokes s s"
  by (simp add: revokes_same)

lemma map_filter_map_filter:
  "List.map_filter g (List.map_filter f xs) = List.map_filter (\<lambda>x. Option.bind (f x) g) xs"
  by (induction xs) (auto simp: List.map_filter_simps split: option.splits)

lemma revokes_trans [trans]:
  assumes "revokes s t" "revokes t u" shows "revokes s u"
proof -
  from assms obtain f g where
    f: "refresh_tokens t = List.map_filter f (refresh_tokens s)" "\<And>r r'. f r = Some r' \<Longrightarrow> ages r r'" and
    g: "refresh_tokens u = List.map_filter g (refresh_tokens t)" "\<And>r r'. g r = Some r' \<Longrightarrow> ages r r'"
    unfolding revokes_def by blast
  have "refresh_tokens u = List.map_filter (\<lambda>x. Option.bind (f x) g) (refresh_tokens s)"
    unfolding g(1) f(1) map_filter_map_filter ..
  moreover have "ages r r'" if step: "Option.bind (f r) g = Some r'" for r r'
  proof -
    from step obtain m where m: "f r = Some m" "g m = Some r'" by (auto simp: bind_eq_Some_conv)
    show ?thesis using f(2) [OF m(1)] g(2) [OF m(2)] by (simp add: ages_def)
  qed
  moreover have "uuid_gen u = uuid_gen s" "drawn s \<subseteq> drawn u" using assms unfolding revokes_def by auto
  ultimately show ?thesis unfolding revokes_def by (intro conjI exI [of _ "\<lambda>x. Option.bind (f x) g"]) auto
qed

lemma map_filter_live:
  assumes "\<And>r r'. g r = Some r' \<Longrightarrow> ages r r'"
  shows "length (filter (\<lambda>r. rk_family_id r = Some f \<and> rk_revoked_at r = None) (List.map_filter g rs)) \<le>
     length (filter (\<lambda>r. rk_family_id r = Some f \<and> rk_revoked_at r = None) rs)"
proof (induction rs)
  case (Cons r rs)
  show ?case
  proof (cases "g r")
    case (Some r')
    then have "ages r r'" by (rule assms)
    then have "rk_family_id r' = Some f \<and> rk_revoked_at r' = None \<Longrightarrow> rk_family_id r = Some f \<and> rk_revoked_at r = None"
      unfolding ages_def by auto
    then show ?thesis using Cons Some by (simp add: List.map_filter_simps del: not_None_eq)
  qed (use Cons in \<open>simp add: List.map_filter_simps\<close>)
qed (simp add: List.map_filter_simps)

lemma revokes_live:
  assumes "revokes s s'" shows "length (live_tokens f s') \<le> length (live_tokens f s)"
proof -
  obtain g where g: "refresh_tokens s' = List.map_filter g (refresh_tokens s)" "\<And>r r'. g r = Some r' \<Longrightarrow> ages r r'"
    using assms unfolding revokes_def by blast
  show ?thesis unfolding live_tokens_def g(1) by (rule map_filter_live) (rule g(2))
qed

lemma revokes_mem:
  assumes "revokes s s'" "r' \<in> set (refresh_tokens s')"
  obtains r where "r \<in> set (refresh_tokens s)" "ages r r'"
  using assms unfolding revokes_def by (auto simp: map_filter_def)

lemma revokes_ok:
  assumes "revokes s s'" "sessions_ok s" shows "sessions_ok s'"
proof -
  have "length (live_tokens f s') \<le> 1" for f
    using revokes_live [OF assms(1), of f] assms(2) unfolding sessions_ok_def by (metis le_trans)
  moreover have "inj (uuid_gen s')" "drawn s \<subseteq> drawn s'"
    using assms unfolding revokes_def sessions_ok_def by simp_all
  moreover have "f \<in> drawn s" if "r \<in> set (refresh_tokens s')" "rk_family_id r = Some f" for r f
    using revokes_mem [OF assms(1) that(1)] that(2) assms(2) unfolding sessions_ok_def ages_def by metis
  moreover have "rk_user_id r' = rk_user_id r"
    if "r \<in> set (refresh_tokens s')" "r' \<in> set (refresh_tokens s')" "rk_family_id r \<noteq> None"
      "rk_family_id r' = rk_family_id r" for r r'
    using revokes_mem [OF assms(1) that(1)] revokes_mem [OF assms(1) that(2)] that(3,4) assms(2)
    unfolding sessions_ok_def ages_def by metis
  ultimately show ?thesis unfolding sessions_ok_def by blast
qed

lemma revokes_closed: "revokes s s' \<Longrightarrow> closed_session f s \<Longrightarrow> closed_session f s'"
  using revokes_live [of s s' f] unfolding closed_session_def revokes_def by auto

lemma update_revokes:
  assumes "\<And>r. ages r (h r)"
  shows "revokes s (s\<lparr>refresh_tokens := update_where Q h (refresh_tokens s)\<rparr>)"
proof -
  have "update_where Q h rs = List.map_filter (\<lambda>r. Some (if Q r then h r else r)) rs" for rs
    by (induction rs) (simp_all add: List.map_filter_simps)
  then show ?thesis
    unfolding revokes_def drawn_def
    by (auto intro!: exI [of _ "\<lambda>r. Some (if Q r then h r else r)"] simp: assms) (simp add: ages_def)
qed

lemma revoke_where_revokes: "revokes s (snd (revoke_where c P s))"
  unfolding revoke_where_def snd_conv by (rule update_revokes) (simp add: ages_def)

lemma purge_revokes: "revokes s (purge_stale_tokens c user s)"
proof -
  have "filter P rs = List.map_filter (\<lambda>r. if P r then Some r else None) rs" for P and rs :: "refresh_token list"
    by (induction rs) (simp_all add: List.map_filter_simps)
  then show ?thesis unfolding purge_stale_tokens_def revokes_def drawn_def
    by (auto intro!: exI [of _ "\<lambda>r. if rk_user_id r = user \<and> rk_expires_at r < now c - PURGE_GRACE then None else Some r"]
        simp: ages_def cong: if_cong split: if_splits) (metis (no_types, lifting))
qed

lemma live_tokens_snoc:
  "refresh_tokens s' = refresh_tokens s @ [r] \<Longrightarrow>
   live_tokens f s' = live_tokens f s @ (if rk_family_id r = Some f \<and> rk_revoked_at r = None then [r] else [])"
  by (simp add: live_tokens_def)

definition issued :: "auth_env \<Rightarrow> clock \<Rightarrow> app_user \<Rightarrow> uuid \<Rightarrow> string \<Rightarrow> refresh_token \<Rightarrow> bool" where
  \<comment> \<open>the row of a token that was handed to a user\<close>
  "issued env c u f token r \<longleftrightarrow> rk_family_id r = Some f \<and> rk_user_id r = row_id u \<and> rk_business_id r = business_id u \<and>
     rk_revoked_at r = None \<and> rk_created_at r = now c \<and>
     token = create_refresh_token env ((build_token_payload u)\<lparr>cm_fid := Some f\<rparr>) (now c) (rk_jti r)"

lemma issue_refresh_token_row:
  assumes "jwt_ok env" "issue_refresh_token env c u ip_address user_agent family s = Inr (token, s')"
  obtains f r where "issued env c u f token r" "refresh_tokens s' = refresh_tokens s @ [r]"
    "uuid_gen s' = uuid_gen s" "drawn s \<subseteq> drawn s'"
    "case family of Some g \<Rightarrow> f = g | None \<Rightarrow> f \<in> drawn s' \<and> (inj (uuid_gen s) \<longrightarrow> f \<notin> drawn s)"
proof -
  define f where "f = (case family of Some g \<Rightarrow> g | None \<Rightarrow> uuid_gen s (uuid_next s))"
  define n where "n = (case family of Some g \<Rightarrow> uuid_next s | None \<Rightarrow> Suc (uuid_next s))"
  define r where "r = \<lparr>rk_id = uuid_gen s (Suc n), rk_user_id = row_id u, rk_business_id = business_id u,
      rk_jti = ae_text env (uuid_gen s n), rk_family_id = Some f,
      rk_expires_at = (now c + ae_refresh_token_expire_days env * day_us) div second_us * second_us,
      rk_revoked_at = None, rk_ip_address = ip_address, rk_user_agent = user_agent, rk_created_at = now c\<rparr>"
  let ?p = "(build_token_payload u)\<lparr>cm_fid := Some f, cm_exp := Some ((now c + ae_refresh_token_expire_days env * day_us)
      div second_us), cm_type := Some ''refresh'', cm_jti := Some (ae_text env (uuid_gen s n))\<rparr>"
  have t: "create_refresh_token env ((build_token_payload u)\<lparr>cm_fid := Some f\<rparr>) (now c) (ae_text env (uuid_gen s n)) =
      ae_encode env (ae_jwt_refresh_secret_key env) ?p"
    by (simp add: create_refresh_token_def Let_def)
  have d: "decode_refresh_token env (now c) (ae_encode env (ae_jwt_refresh_secret_key env) ?p) \<in> {None, Some ?p}"
    by (simp add: decode_refresh_token_def assms(1) [unfolded jwt_ok_def, rule_format])
  have F: "(case family of None \<Rightarrow> fresh_uuid s | Some g \<Rightarrow> (g, s)) = (f, s\<lparr>uuid_next := n\<rparr>)"
    by (simp add: f_def n_def fresh_uuid_def split: option.splits)
  let ?e = "ae_encode env (ae_jwt_refresh_secret_key env) ?p"
  have "bind_res (save_refresh_from_token env c u ?e ip_address user_agent (now c) (s\<lparr>uuid_next := Suc n\<rparr>))
      (\<lambda>s. Inr (?e, s)) = Inr (token, s')"
    using assms(2) unfolding issue_refresh_token_def F t [symmetric] by (simp add: fresh_uuid_def Let_def)
  then obtain y where y: "save_refresh_from_token env c u ?e ip_address user_agent (now c) (s\<lparr>uuid_next := Suc n\<rparr>) = Inr y"
      "token = ?e" "s' = y"
    unfolding bind_res_Inr by blast
  have s': "s' = s\<lparr>uuid_next := Suc (Suc n), refresh_tokens := refresh_tokens s @ [r]\<rparr>"
    using y(1,3) d
    by (auto simp: save_refresh_from_token_def save_refresh_token_def fresh_uuid_def r_def split: if_splits)
  have token: "token = create_refresh_token env ((build_token_payload u)\<lparr>cm_fid := Some f\<rparr>) (now c)
      (ae_text env (uuid_gen s n))"
    unfolding y(2) t ..
  have "issued env c u f token r" unfolding issued_def token by (simp add: r_def)
  moreover have "case family of Some g \<Rightarrow> f = g | None \<Rightarrow> f \<in> drawn s' \<and> (inj (uuid_gen s) \<longrightarrow> f \<notin> drawn s)"
    by (auto simp: s' f_def n_def drawn_def inj_def split: option.splits)
  moreover have "drawn s \<subseteq> drawn s'" by (auto simp: s' n_def drawn_def split: option.splits)
  ultimately show ?thesis using that [of f r] by (simp add: s')
qed

lemma issued_ok:
  assumes "sessions_ok s" "issued env c u f token r" "refresh_tokens s' = refresh_tokens s @ [r]"
    "uuid_gen s' = uuid_gen s" "drawn s \<subseteq> drawn s'" "f \<in> drawn s'" "live_tokens f s = []"
    "\<And>r. r \<in> set (refresh_tokens s) \<Longrightarrow> rk_family_id r = Some f \<Longrightarrow> rk_user_id r = row_id u"
  shows "sessions_ok s'"
proof -
  have r: "rk_family_id r = Some f" "rk_user_id r = row_id u" using assms(2) by (simp_all add: issued_def)
  have "length (live_tokens g s') \<le> 1" for g
  proof (cases "g = f")
    case True then show ?thesis using assms(7) by (simp add: live_tokens_snoc [OF assms(3)])
  next
    case False then show ?thesis using assms(1) r by (simp add: live_tokens_snoc [OF assms(3)] sessions_ok_def)
  qed
  moreover have "g \<in> drawn s'" if "x \<in> set (refresh_tokens s')" "rk_family_id x = Some g" for x g
    using that assms(1,5,6) r(1) unfolding assms(3) sessions_ok_def by auto
  moreover have "rk_user_id y = rk_user_id x"
    if xy: "x \<in> set (refresh_tokens s')" "y \<in> set (refresh_tokens s')" "rk_family_id x \<noteq> None"
      "rk_family_id y = rk_family_id x" for x y
  proof (cases "rk_family_id x = Some f")
    case True
    have "rk_user_id z = row_id u" if "z \<in> set (refresh_tokens s')" "rk_family_id z = Some f" for z
      using that assms(8) r(2) unfolding assms(3) by auto
    then show ?thesis using xy True by simp
  next
    case False
    then have "x \<in> set (refresh_tokens s)" "y \<in> set (refresh_tokens s)" using xy r(1) unfolding assms(3) by auto
    then show ?thesis using assms(1) xy(3,4) unfolding sessions_ok_def by blast
  qed
  moreover have "inj (uuid_gen s')" using assms(1,4) by (simp add: sessions_ok_def)
  ultimately show ?thesis unfolding sessions_ok_def by blast
qed

lemma fresh_session_empty:
  "sessions_ok s \<Longrightarrow> f \<notin> drawn s \<Longrightarrow> r \<in> set (refresh_tokens s) \<Longrightarrow> rk_family_id r \<noteq> Some f"
  unfolding sessions_ok_def by blast

lemma fresh_session_live: "sessions_ok s \<Longrightarrow> f \<notin> drawn s \<Longrightarrow> live_tokens f s = []"
  using fresh_session_empty by (fastforce simp: live_tokens_def filter_empty_conv)

definition safe_step :: "db \<Rightarrow> db \<Rightarrow> bool" where
  \<comment> \<open>what every step keeps\<close>
  "safe_step s s' \<longleftrightarrow> (sessions_ok s \<longrightarrow> sessions_ok s' \<and> (\<forall>f. closed_session f s \<longrightarrow> closed_session f s'))"

lemma revokes_safe: "revokes s s' \<Longrightarrow> safe_step s s'"
  unfolding safe_step_def using revokes_ok revokes_closed by blast

lemma safe_step_trans [trans]: "safe_step s t \<Longrightarrow> safe_step t u \<Longrightarrow> safe_step s u"
  unfolding safe_step_def by blast

lemma issued_safe:
  assumes "issued env c u f token r" "refresh_tokens s' = refresh_tokens s @ [r]"
    "uuid_gen s' = uuid_gen s" "drawn s \<subseteq> drawn s'" "f \<in> drawn s'" "sessions_ok s"
    "live_tokens f s = []"
    "\<And>r. r \<in> set (refresh_tokens s) \<Longrightarrow> rk_family_id r = Some f \<Longrightarrow> rk_user_id r = row_id u"
  shows "sessions_ok s'" "closed_session g s \<Longrightarrow> g \<noteq> f \<Longrightarrow> closed_session g s'"
proof -
  show "sessions_ok s'" using issued_ok [OF assms(6,1,2,3,4,5,7,8)] by blast
  assume g: "closed_session g s" "g \<noteq> f"
  show "closed_session g s'"
    using g assms(1,4) by (auto simp: closed_session_def live_tokens_snoc [OF assms(2)] issued_def)
qed

lemma login_issue_safe:
  assumes "jwt_ok env" "issue_refresh_token env c u ip_address user_agent None s = Inr (token, s')"
  shows "safe_step s s'"
  unfolding safe_step_def
proof (intro impI conjI allI)
  obtain f r where f: "issued env c u f token r" "refresh_tokens s' = refresh_tokens s @ [r]"
    "uuid_gen s' = uuid_gen s" "drawn s \<subseteq> drawn s'" "f \<in> drawn s'" "inj (uuid_gen s) \<longrightarrow> f \<notin> drawn s"
    using issue_refresh_token_row [OF assms] by (metis (no_types, lifting) option.case(1))
  assume ok: "sessions_ok s"
  then have new: "f \<notin> drawn s" using f(6) by (simp add: sessions_ok_def)
  have none: "rk_user_id x = row_id u" if "x \<in> set (refresh_tokens s)" "rk_family_id x = Some f" for x
    using fresh_session_empty [OF ok new that(1)] that(2) by simp
  note step = issued_safe [OF f(1-5) ok fresh_session_live [OF ok new] none]
  show "sessions_ok s'" by (rule step(1))
  show "closed_session g s'" if "closed_session g s" for g
    using step(2) [OF _ _ that] that new by (auto simp: closed_session_def)
qed

lemma update_user_revokes: "revokes s (update_user i h s)"
  by (rule revokes_same) (simp_all add: update_user_def)

lemma log_auth_revokes: "revokes s (log_auth_event bid u ev rid ip ua extra b s)"
  by (rule revokes_same) (simp_all add: log_auth_event_def Let_def)

lemma finish_login_safe:
  assumes "jwt_ok env" "finish_login env c u ip_address user_agent pin s = Inr (x, s')"
  shows "safe_step s s'"
proof -
  obtain token t where t: "issue_refresh_token env c (logged_in c u) ip_address user_agent None
      (update_user (row_id u) (logged_in c) s) = Inr (token, t)"
    and s': "\<exists>extra. s' = log_auth_event (business_id u) (Some (row_id u)) ''login_success'' (row_id u) ip_address
      user_agent extra None (purge_stale_tokens c (row_id u) t)"
    using assms(2) unfolding finish_login_def Let_def handler_simps by (auto simp: logged_in_def)
  note revokes_safe [OF update_user_revokes]
  also note login_issue_safe [OF assms(1) t]
  also note revokes_safe [OF purge_revokes]
  also note revokes_safe [OF log_auth_revokes]
  finally show ?thesis using s' by blast
qed

lemma record_failed_login_revokes: "revokes s (snd (record_failed_login env c u ip_address user_agent pin s))"
  by (rule revokes_same)
    (auto simp: record_failed_login_def Let_def update_user_def log_auth_event_def split: list.splits)

lemma check_secret_safe:
  assumes "jwt_ok env" shows "safe_step s (snd (check_secret env c u plain hashed ip_address user_agent pin s))"
proof (cases "ae_verify env plain hashed")
  case True
  then show ?thesis
    using finish_login_safe [OF assms, of c u ip_address user_agent pin s] revokes_safe [OF revokes_refl]
    by (cases "finish_login env c u ip_address user_agent pin s") (auto simp: check_secret_def rollback_def)
next
  case False
  then show ?thesis using revokes_safe [OF record_failed_login_revokes, of s env c u ip_address user_agent pin]
    by (auto simp: check_secret_def split: prod.splits)
qed

lemma login_safe:
  assumes "jwt_ok env"
  shows "safe_step s (snd (login_with_password env c phone password ip_address user_agent slug s))"
    and "safe_step s (snd (login_with_pin env c pin_slug user_id pin_code ip_address user_agent s))"
  using check_secret_safe [OF assms] revokes_safe [OF revokes_refl]
  by (auto simp: login_with_password_def login_with_pin_def split: sum.splits)

lemma presented_row:
  assumes "presented_token env c token s = Inr stored"
  obtains r where "r \<in> set (refresh_tokens s)" "stored_of r = stored"
proof -
  have "\<exists>jti. get_refresh_token s jti = Some stored"
    using assms by (auto simp: presented_token_def split: option.splits if_splits)
  then obtain jti where "get_refresh_token s jti = Some stored" ..
  then obtain r rs where r: "filter (\<lambda>r. rk_jti r = jti) (refresh_tokens s) = r # rs" "stored_of r = stored"
    by (auto simp: get_refresh_token_def first_row_def split: list.splits)
  have "r \<in> set (refresh_tokens s)" using arg_cong [OF r(1), of set] by auto
  with r(2) that show ?thesis by blast
qed

lemma revoke_refresh_revokes: "revoke_refresh_token c jti s = (won, s1) \<Longrightarrow> revokes s s1"
  using revoke_where_revokes [of s c "\<lambda>r. rk_jti r = jti"]
  by (auto simp: revoke_refresh_token_def split: prod.splits)

lemma reject_revokes: "revokes s (snd (reject_refresh c user_id tok revoke event s))"
proof -
  have "revokes s (if revoke then snd (revoke_token_family c user_id (st_family_id tok) (st_jti tok) s) else s)"
    by (simp add: revoke_token_family_def revoke_where_revokes)
  also have "revokes t (case event of None \<Rightarrow> t | Some e \<Rightarrow>
      log_auth_event (st_business_id tok) (Some user_id) e user_id None None [] None t)" for t
    by (simp add: log_auth_revokes split: option.splits)
  finally show ?thesis by (simp add: reject_refresh_def Let_def)
qed

lemma answer_reuse_revokes: "revokes s (snd (answer_reuse env c stored fresh s))"
  using reject_revokes [of s c "st_user_id stored" stored True "Some ''refresh_reuse_detected''"]
  by (auto simp: answer_reuse_def split: sum.splits option.splits prod.splits)

lemma update_where_mem: "x \<in> set (update_where P f rs) \<longleftrightarrow> (\<exists>r\<in>set rs. x = (if P r then f r else r))"
  by (auto simp: update_where_def)

lemma consumed_live:
  assumes "sessions_ok s" "r \<in> set (refresh_tokens s)" "rk_family_id r = Some f" "rk_revoked_at r = None"
    "revoke_refresh_token c (rk_jti r) s = (won, s1)"
  shows "live_tokens f s1 = []"
proof -
  have len: "length (live_tokens f s) \<le> 1" and mem: "r \<in> set (live_tokens f s)"
    using assms by (simp_all add: sessions_ok_def live_tokens_def)
  then have one: "x = r" if "x \<in> set (live_tokens f s)" for x
    using that by (cases "live_tokens f s") auto
  have s1: "refresh_tokens s1 = update_where (\<lambda>x. rk_revoked_at x = None \<and> rk_jti x = rk_jti r)
      (\<lambda>x. x\<lparr>rk_revoked_at := Some (now c)\<rparr>) (refresh_tokens s)"
    using assms(5) by (auto simp: revoke_refresh_token_def revoke_where_def)
  have "\<not> (rk_family_id x = Some f \<and> rk_revoked_at x = None)" if "x \<in> set (refresh_tokens s1)" for x
  proof -
    obtain y where y: "y \<in> set (refresh_tokens s)" "x = (if rk_revoked_at y = None \<and> rk_jti y = rk_jti r
        then y\<lparr>rk_revoked_at := Some (now c)\<rparr> else y)"
      using \<open>x \<in> set (refresh_tokens s1)\<close> unfolding s1 update_where_mem by blast
    have "y = r" if "rk_family_id y = Some f" "rk_revoked_at y = None"
      using one [of y] y(1) that by (simp add: live_tokens_def)
    then show ?thesis unfolding y(2) by (cases "rk_revoked_at y") auto
  qed
  then show ?thesis unfolding live_tokens_def filter_empty_conv by blast
qed

lemma rotate_safe:
  assumes "jwt_ok env" "sessions_ok s" "r \<in> set (refresh_tokens s)" "stored_of r = stored" "rk_revoked_at r = None"
    "revoke_refresh_token c (st_jti stored) s = (won, s1)" "row_id u = st_user_id stored"
    "rotate env c stored ip_address user_agent u s1 = Inr (pair, s')"
  shows "sessions_ok s'" "closed_session g s \<Longrightarrow> closed_session g s'"
proof -
  have R: "revokes s s1" by (rule revoke_refresh_revokes [OF assms(6)])
  then have ok1: "sessions_ok s1" and closed1: "closed_session g s \<Longrightarrow> closed_session g s1" for g
    using assms(2) revokes_ok revokes_closed by blast+
  obtain token t where t: "issue_refresh_token env c u ip_address user_agent (st_family_id stored) s1 = Inr (token, t)"
    and s': "revokes t s'"
    using assms(8) log_auth_revokes unfolding rotate_def Let_def by (auto simp: handler_simps)
  have "sessions_ok t \<and> (closed_session g s \<longrightarrow> closed_session g t)"
  proof (cases "st_family_id stored")
    case None
    then show ?thesis using login_issue_safe [OF assms(1)] t ok1 closed1 unfolding safe_step_def by metis
  next
    case (Some f)
    then have f: "rk_family_id r = Some f" "rk_user_id r = row_id u" "rk_jti r = st_jti stored"
      using assms(4,7) by (auto simp: stored_of_def)
    obtain x where x: "issued env c u f token x" "refresh_tokens t = refresh_tokens s1 @ [x]"
      "uuid_gen t = uuid_gen s1" "drawn s1 \<subseteq> drawn t"
      using issue_refresh_token_row [OF assms(1) t] unfolding Some option.case by metis
    have live: "live_tokens f s1 = []"
      by (rule consumed_live [OF assms(2,3) f(1) assms(5)]) (use assms(6) f(3) in simp)
    have "f \<in> drawn s" using assms(2,3) f(1) by (auto simp: sessions_ok_def)
    then have fd: "f \<in> drawn t" using R x(4) by (auto simp: revokes_def)
    have user: "rk_user_id y = row_id u" if y: "y \<in> set (refresh_tokens s1)" "rk_family_id y = Some f" for y
    proof -
      obtain z where z: "z \<in> set (refresh_tokens s)" "ages z y" using revokes_mem [OF R y(1)] .
      have all: "\<forall>x\<in>set (refresh_tokens s). \<forall>x'\<in>set (refresh_tokens s).
          rk_family_id x \<noteq> None \<and> rk_family_id x' = rk_family_id x \<longrightarrow> rk_user_id x' = rk_user_id x"
        using assms(2) unfolding sessions_ok_def by blast
      show ?thesis using bspec [OF bspec [OF all assms(3)] z(1)] z(2) f(1,2) y(2) by (simp add: ages_def)
    qed
    have "\<not> closed_session f s"
      using assms(3,5) f(1) by (auto simp: closed_session_def live_tokens_def filter_empty_conv)
    note step = issued_safe [OF x fd ok1 live user]
    have "closed_session g t" if "closed_session g s"
      by (rule step(2)) (use closed1 that \<open>\<not> closed_session f s\<close> in auto)
    with step(1) show ?thesis by simp
  qed
  then show "sessions_ok s'" "closed_session g s \<Longrightarrow> closed_session g s'"
    using revokes_ok [OF s'] revokes_closed [OF s'] by blast+
qed

lemma consume_safe:
  assumes "jwt_ok env" "r \<in> set (refresh_tokens s)" "stored_of r = stored" "rk_revoked_at r = None"
  shows "safe_step s (snd (consume_refresh_token env c stored ip_address user_agent s))"
proof -
  obtain won s1 where w: "revoke_refresh_token c (st_jti stored) s = (won, s1)" by fastforce
  have R: "revokes s s1" by (rule revoke_refresh_revokes [OF w])
  have rej: "safe_step s (snd (reject_refresh c uid stored rv ev s1))" for uid rv ev
    using revokes_safe [OF revokes_trans [OF R reject_revokes]] .
  have reuse: "safe_step s (snd (answer_reuse env c stored fresh s1))" for fresh
    using revokes_safe [OF revokes_trans [OF R answer_reuse_revokes]] .
  have rot: "safe_step s (snd (rollback s (rotate env c stored ip_address user_agent u s1)))"
    if "u \<in> set (refreshing_users s1 stored)" for u
  proof (cases "rotate env c stored ip_address user_agent u s1")
    case (Inr p)
    then show ?thesis
      using rotate_safe [OF assms(1) _ assms(2-4) w] that
      by (cases p) (auto simp: safe_step_def rollback_def refreshing_users_def)
  qed (simp add: rollback_def revokes_safe)
  show ?thesis
    using rej reuse rot revokes_safe [OF revokes_refl]
    unfolding consume_refresh_token_def w Let_def prod.case
    by (auto split: option.splits sum.splits prod.splits simp: handler_simps)
      (metis snd_conv list.set_intros(1) revokes_safe revokes_refl)+
qed

lemma refresh_safe:
  assumes "jwt_ok env"
  shows "safe_step s (snd (refresh_tokens_for env c token ip_address user_agent s))"
proof (cases "presented_token env c token s")
  case (Inl e) then show ?thesis by (simp add: refresh_tokens_for_def revokes_safe)
next
  case (Inr stored)
  obtain r where r: "r \<in> set (refresh_tokens s)" "stored_of r = stored" using presented_row [OF Inr] .
  then have rev: "st_revoked_at stored = rk_revoked_at r" by (auto simp: stored_of_def)
  show ?thesis
    using revokes_safe [OF answer_reuse_revokes, of s env c stored stored]
      revokes_safe [OF reject_revokes, of s c "st_user_id stored" stored False None] consume_safe [OF assms r]
    unfolding refresh_tokens_for_def Inr sum.case rev by (auto split: prod.splits)
qed

section \<open>Properties of sessions\<close>

inductive session_step :: "auth_env \<Rightarrow> db \<Rightarrow> db \<Rightarrow> bool" for env where
  Password: "session_step env s (snd (login_with_password env c phone password ip_address user_agent slug s))"
| Pin: "session_step env s (snd (login_with_pin env c pin_slug user_id pin_code ip_address user_agent s))"
| Refresh: "session_step env s (snd (refresh_tokens_for env c token ip_address user_agent s))"
| Logout: "logout_with_refresh_token env c u token ip_address user_agent s = Inr s' \<Longrightarrow> session_step env s s'"
| Revoke_all: "session_step env s (snd (revoke_all_user_tokens c user s))"
| Other: "refresh_tokens s' = refresh_tokens s \<Longrightarrow> uuid_gen s' = uuid_gen s \<Longrightarrow> uuid_next s \<le> uuid_next s' \<Longrightarrow>
    session_step env s s'"

lemma logout_revokes:
  assumes "logout_with_refresh_token env c u token ip_address user_agent s = Inr s'"
  shows "revokes s s'"
  using assms
  by (auto simp: logout_with_refresh_token_def Let_def revoke_token_family_def
      intro: log_auth_revokes revokes_trans [OF revoke_where_revokes log_auth_revokes]
      split: option.splits if_splits)

lemma session_step_safe: "session_step env s s' \<Longrightarrow> jwt_ok env \<Longrightarrow> safe_step s s'"
  by (induction rule: session_step.induct)
    (auto intro: login_safe refresh_safe revokes_safe logout_revokes revokes_same
      simp: revoke_all_user_tokens_def revoke_where_revokes)

lemma session_steps_safe:
  assumes "(session_step env)\<^sup>*\<^sup>* s t" "jwt_ok env" shows "safe_step s t"
  using assms(1)
proof (induction rule: rtranclp_induct)
  case base show ?case by (simp add: safe_step_def)
next
  case (step t u)
  show ?case by (rule safe_step_trans [OF step.IH session_step_safe [OF step.hyps(2) assms(2)]])
qed

lemma revoked_family_closed:
  assumes "sessions_ok s" "r \<in> set (refresh_tokens s)" "rk_family_id r = Some f" "rk_user_id r = user"
  shows "closed_session f (snd (revoke_token_family c user (Some f) jti s))"
proof -
  have u: "rk_user_id x = user" if "x \<in> set (refresh_tokens s)" "rk_family_id x = Some f" for x
    using assms that unfolding sessions_ok_def by (metis option.distinct(1))
  have "f \<in> drawn s" using assms(1-3) unfolding sessions_ok_def by blast
  moreover have "live_tokens f (snd (revoke_token_family c user (Some f) jti s)) = []"
    using u by (auto simp: live_tokens_def revoke_token_family_def revoke_where_def filter_empty_conv update_where_mem)
  ultimately show ?thesis
    by (simp add: closed_session_def revoke_token_family_def revoke_where_def drawn_def)
qed

lemma family_successor_row:
  assumes "get_family_successor s old = Some t" "st_family_id old = Some f"
  obtains x where "x \<in> set (refresh_tokens s)" "rk_family_id x = Some f" "t = stored_of x"
proof -
  let ?rows = "filter (\<lambda>r. rk_user_id r = st_user_id old \<and> rk_family_id r = Some f \<and>
      st_created_at old < rk_created_at r) (refresh_tokens s)"
  obtain x xs where x: "sort_key rk_created_at ?rows = x # xs" "t = stored_of x"
    using assms by (auto simp: get_family_successor_def first_row_def split: list.splits)
  have "x \<in> set ?rows" using arg_cong [OF x(1), of set] by simp
  with that x(2) show ?thesis by auto
qed

lemma closed_session_refuses:
  assumes "closed_session f s" "presented_token env c token s = Inr stored" "st_family_id stored = Some f"
  shows "\<exists>e. fst (refresh_tokens_for env c token ip_address user_agent s) = Inl e"
proof -
  obtain r where r: "r \<in> set (refresh_tokens s)" "stored_of r = stored" using presented_row [OF assms(2)] .
  have none: "rk_revoked_at x \<noteq> None" if "x \<in> set (refresh_tokens s)" "rk_family_id x = Some f" for x
    using assms(1) that by (auto simp: closed_session_def live_tokens_def filter_empty_conv)
  then have rev: "st_revoked_at stored \<noteq> None" using r assms(3) by (auto simp: stored_of_def)
  have "st_revoked_at t \<noteq> None" if succ: "get_family_successor s stored = Some t" for t
    using family_successor_row [OF succ assms(3)] none by (metis StoredRefreshToken.select_convs(6) stored_of_def)
  then have "replay_recent_rotation env c stored s = Inr None"
    by (auto simp: replay_recent_rotation_def Let_def split: option.splits)
  then show ?thesis using rev assms(2) by (simp add: refresh_tokens_for_def answer_reuse_def split: prod.splits)
qed

text \<open>
  C24. A session never has more than one refresh token that still works, whatever logins, rotations,
  logouts and other requests happen in whatever order.
\<close>

theorem one_live_token_per_session:
  assumes "jwt_ok env" "sessions_ok s" "(session_step env)\<^sup>*\<^sup>* s t"
  shows "length (live_tokens f t) \<le> 1"
  using session_steps_safe [OF assms(3,1)] assms(2) unfolding safe_step_def sessions_ok_def by blast

text \<open>
  C3. A stolen session ends: when a refresh token that was already used is presented and refused, then
  from that moment on no token of its session is ever accepted again, whatever else happens.
\<close>

theorem reused_token_ends_session:
  assumes "jwt_ok env" "sessions_ok s" "presented_token env c token s = Inr stored"
    and "st_revoked_at stored \<noteq> None" "st_family_id stored = Some f"
    and "refresh_tokens_for env c token ip_address user_agent s =
      (Inl (HTTPException 401 ''Token revoked or expired'' []), s1)"
    and "(session_step env)\<^sup>*\<^sup>* s1 t"
    and "presented_token env c' token' t = Inr stored'" "st_family_id stored' = Some f"
  shows "\<exists>e. fst (refresh_tokens_for env c' token' ip_address' user_agent' t) = Inl e"
proof -
  obtain r where r: "r \<in> set (refresh_tokens s)" "stored_of r = stored" using presented_row [OF assms(3)] .
  have "fst (answer_reuse env c stored stored s) = Inl (HTTPException 401 ''Token revoked or expired'' [])"
    and s1: "s1 = snd (answer_reuse env c stored stored s)"
    using assms(3,4,6) by (simp_all add: refresh_tokens_for_def)
  then have "s1 = snd (reject_refresh c (st_user_id stored) stored True (Some ''refresh_reuse_detected'') s)"
    by (auto simp: answer_reuse_def replay_recent_rotation_def Let_def bind_res_def scalar_one_or_none_def
        split: sum.splits option.splits prod.splits if_splits list.splits)
  then have "revokes (snd (revoke_token_family c (st_user_id stored) (Some f) (st_jti stored) s)) s1"
    using assms(5) log_auth_revokes by (simp add: reject_refresh_def Let_def)
  moreover have "closed_session f (snd (revoke_token_family c (st_user_id stored) (Some f) (st_jti stored) s))"
    by (rule revoked_family_closed [OF assms(2) r(1)]) (use r(2) assms(5) in \<open>auto simp: stored_of_def\<close>)
  ultimately have closed: "closed_session f s1" by (rule revokes_closed)
  have "session_step env s (snd (refresh_tokens_for env c token ip_address user_agent s))" by (rule Refresh)
  then have "sessions_ok s1" using session_step_safe [OF _ assms(1)] assms(2,6) unfolding safe_step_def by force
  then have "closed_session f t"
    using session_steps_safe [OF assms(7,1)] closed unfolding safe_step_def by blast
  then show ?thesis by (rule closed_session_refuses [OF _ assms(8,9)])
qed

lemma live_token_single:
  assumes "sessions_ok s" "x \<in> set (refresh_tokens s)" "rk_family_id x = Some f" "rk_revoked_at x = None"
  shows "live_tokens f s = [x]"
proof -
  have "x \<in> set (live_tokens f s)" using assms(2-4) by (simp add: live_tokens_def)
  moreover have "length (live_tokens f s) \<le> 1" using assms(1) by (simp add: sessions_ok_def)
  ultimately show ?thesis by (cases "live_tokens f s") auto
qed

definition pair_for :: "auth_env \<Rightarrow> app_user \<Rightarrow> uuid \<Rightarrow> refresh_token \<Rightarrow> string \<times> string" where
  \<comment> \<open>the access and the refresh token that belong to a row\<close>
  "pair_for env u f r =
     (create_access_token env (build_token_payload u) (rk_created_at r),
      create_refresh_token env ((build_token_payload u)\<lparr>cm_fid := Some f\<rparr>) (rk_created_at r) (rk_jti r))"

definition may_refresh :: "db \<Rightarrow> StoredRefreshToken \<Rightarrow> app_user \<Rightarrow> bool" where
  "may_refresh s stored u \<longleftrightarrow> u \<in> set (refreshing_users s stored) \<and> \<not> us_is_locked u"

lemma replayed_pair:
  assumes "sessions_ok s" "st_family_id old = Some f" "replay_recent_rotation env c old s = Inr (Some pair)"
  obtains r u where "live_tokens f s = [r]" "may_refresh s old u" "pair = pair_for env u f r"
proof -
  obtain t u where t: "get_family_successor s old = Some t" "st_revoked_at t = None"
    and u: "refreshing_users s old = [u]" "\<not> us_is_locked u"
    and p: "pair = (create_access_token env (build_token_payload u) (st_created_at t),
      create_refresh_token env ((build_token_payload u)\<lparr>cm_fid := st_family_id old\<rparr>) (st_created_at t) (st_jti t))"
    using assms(3)
    by (auto simp: replay_recent_rotation_def Let_def handler_simps split: option.splits if_splits)
  obtain x where x: "x \<in> set (refresh_tokens s)" "rk_family_id x = Some f" "t = stored_of x"
    using family_successor_row [OF t(1) assms(2)] .
  show ?thesis
  proof (rule that)
    show "live_tokens f s = [x]" by (rule live_token_single [OF assms(1) x(1,2)]) (use t(2) x(3) in \<open>simp add: stored_of_def\<close>)
    show "may_refresh s old u" using u by (simp add: may_refresh_def)
    show "pair = pair_for env u f x" using p x(3) assms(2) by (simp add: pair_for_def stored_of_def)
  qed
qed

lemma rotated_pair:
  assumes "jwt_ok env" "sessions_ok s" "r \<in> set (refresh_tokens s)" "stored_of r = stored" "rk_revoked_at r = None"
    "rk_family_id r = Some f" "consume_refresh_token env c stored ip_address user_agent s = (Inr pair, s')"
  obtains x u where "live_tokens f s' = [x]" "may_refresh s stored u" "pair = pair_for env u f x"
    "rk_created_at x = now c" "\<exists>s1. revoke_refresh_token c (st_jti stored) s = (True, s1) \<and>
       refresh_tokens s' = refresh_tokens s1 @ [x]"
proof -
  obtain won s1 where w: "revoke_refresh_token c (st_jti stored) s = (won, s1)" by fastforce
  have jti: "st_jti stored = rk_jti r" using assms(4) by (auto simp: stored_of_def)
  have won
    using w assms(3,5) jti by (auto simp: revoke_refresh_token_def revoke_where_def filter_empty_conv)
  have users: "refreshing_users s1 stored = refreshing_users s stored"
    using w by (auto simp: refreshing_users_def revoke_refresh_token_def revoke_where_def)
  obtain u where u: "refreshing_users s1 stored = [u]" "\<not> us_is_locked u"
    and rot: "rotate env c stored ip_address user_agent u s1 = Inr (pair, s')"
    using assms(7) \<open>won\<close> unfolding consume_refresh_token_def w
    by (auto simp: scalar_one_or_none_Inr rollback_def split_beta Let_def split: sum.splits option.splits if_splits)
  have fam: "st_family_id stored = Some f" using assms(4,6) by (auto simp: stored_of_def)
  obtain token t where t: "issue_refresh_token env c u ip_address user_agent (Some f) s1 = Inr (token, t)"
    and s': "refresh_tokens s' = refresh_tokens t"
    and pair: "pair = (create_access_token env (build_token_payload u) (now c), token)"
    using rot fam by (auto simp: rotate_def handler_simps log_auth_event_def Let_def)
  obtain x where x: "issued env c u f token x" "refresh_tokens t = refresh_tokens s1 @ [x]"
    using issue_refresh_token_row [OF assms(1) t] unfolding option.case by metis
  have "live_tokens f s1 = []"
    by (rule consumed_live [OF assms(2,3,6,5)]) (use w jti in simp)
  then have "live_tokens f s' = [x]"
    using x(1) by (simp add: live_tokens_def s' x(2) issued_def)
  moreover have "may_refresh s stored u" using u users by (simp add: may_refresh_def)
  moreover have "pair = pair_for env u f x" using x(1) pair by (simp add: pair_for_def issued_def)
  ultimately show ?thesis using that w \<open>won\<close> x s' by (auto simp: issued_def)
qed

text \<open>
  A refresh that succeeds hands out the token that is now the one live token of the session, with an
  access token for the same moment, for a live, active and unlocked user of the session; an answer
  that repeats a rotation of moments ago changes nothing, and any other stores exactly one new token.
\<close>

theorem refresh_hands_out_live_token:
  assumes "jwt_ok env" "sessions_ok s" "presented_token env c token s = Inr stored" "st_family_id stored = Some f"
    and "refresh_tokens_for env c token ip_address user_agent s = (Inr pair, s')"
  shows "\<exists>r u. live_tokens f s' = [r] \<and> pair = pair_for env u f r \<and> may_refresh s stored u \<and>
    (if st_revoked_at stored \<noteq> None then s' = s
     else rk_created_at r = now c \<and> (\<exists>s1. revoke_refresh_token c (st_jti stored) s = (True, s1) \<and>
       refresh_tokens s' = refresh_tokens s1 @ [r]))"
proof -
  obtain r where r: "r \<in> set (refresh_tokens s)" "stored_of r = stored" using presented_row [OF assms(3)] .
  show ?thesis
  proof (cases "st_revoked_at stored")
    case None
    have "consume_refresh_token env c stored ip_address user_agent s = (Inr pair, s')"
      using assms(3,5) None by (auto simp: refresh_tokens_for_def split: if_splits prod.splits)
    moreover have "rk_revoked_at r = None" "rk_family_id r = Some f" using r(2) None assms(4) by (auto simp: stored_of_def)
    ultimately obtain x u where "live_tokens f s' = [x]" "may_refresh s stored u" "pair = pair_for env u f x"
      "rk_created_at x = now c" "\<exists>s1. revoke_refresh_token c (st_jti stored) s = (True, s1) \<and>
         refresh_tokens s' = refresh_tokens s1 @ [x]"
      using rotated_pair [OF assms(1,2) r] by metis
    then show ?thesis using None by (intro exI [of _ x] exI [of _ u]) simp
  next
    case (Some t)
    then have s': "s' = s" and "replay_recent_rotation env c stored s = Inr (Some pair)"
      using assms(3,5) by (auto simp: refresh_tokens_for_def answer_reuse_def split: sum.splits option.splits prod.splits)
    from replayed_pair [OF assms(2,4) this(2)] show ?thesis unfolding s' using Some by (metis option.distinct(1))
  qed
qed

section \<open>Guessing a password\<close>

definition is_failure :: "uuid \<Rightarrow> audit_log \<Rightarrow> bool" where
  \<comment> \<open>the audit entry of a wrong password or PIN\<close>
  "is_failure i a \<longleftrightarrow> al_user_id a = Some i \<and>
     Option.bind (al_new_values a) (\<lambda>kvs. map_of kvs ''event'') = Some (JStr ''login_failed'')"

definition failures :: "uuid \<Rightarrow> db \<Rightarrow> nat" where
  "failures i s = length (filter (is_failure i) (audits s))"

definition user_row :: "uuid \<Rightarrow> db \<Rightarrow> app_user list" where
  "user_row i s = filter (\<lambda>r. row_id r = i) (app_users s)"

lemma failures_log [simp]:
  "failures i (log_auth_event bid user ev rid ip ua extra b s) =
   failures i s + (if user = Some i \<and> ev = ''login_failed'' then 1 else 0)"
  by (auto simp: failures_def log_auth_event_def Let_def is_failure_def)

lemma user_row_log [simp]: "user_row i (log_auth_event bid user ev rid ip ua extra b s) = user_row i s"
  by (simp add: user_row_def log_auth_event_def Let_def)

lemma user_row_update:
  assumes "\<And>r. row_id (f r) = row_id r"
  shows "user_row i (update_user j f s) = (if i = j then map f (user_row i s) else user_row i s)"
proof -
  have "filter (\<lambda>r. row_id r = i) (update_where (\<lambda>r. row_id r = j) f rs) =
      (if i = j then map f (filter (\<lambda>r. row_id r = i) rs) else filter (\<lambda>r. row_id r = i) rs)" for rs
    by (induction rs) (auto simp: assms)
  then show ?thesis by (simp add: user_row_def update_user_def)
qed

lemma failures_update [simp]: "failures i (update_user j f s) = failures i s"
  by (simp add: failures_def update_user_def)

definition failed_once :: "auth_env \<Rightarrow> clock \<Rightarrow> app_user \<Rightarrow> app_user" where
  \<comment> \<open>a user after one more wrong password\<close>
  "failed_once env c r =
     (let r = (if lock_expired (now c) r then unlocked r else r);
          r = r\<lparr>us_failed_login_attempts := us_failed_login_attempts r + 1\<rparr>
      in if ae_max_login_attempts env \<le> us_failed_login_attempts r
         then r\<lparr>us_is_locked := True,
                us_locked_until := Some (now c + ae_lockout_minutes env * 60 * second_us)\<rparr> else r)"

lemma record_failed_login_effect:
  assumes "record_failed_login env c u ip_address user_agent pin s = (e, s')"
  shows "user_row i s' = (if i = row_id u \<and> length (user_row i s) = 1 then map (failed_once env c) (user_row i s)
      else user_row i s)"
    and "failures i s' = failures i s + (if i = row_id u \<and> length (user_row i s) = 1 then 1 else 0)"
proof -
  define t where "t = update_user (row_id u) (\<lambda>r. r\<lparr>us_failed_login_attempts := us_failed_login_attempts r + 1\<rparr>)
    (update_user (row_id u) (\<lambda>r. if lock_expired (now c) r then unlocked r else r) s)"
  have t: "user_row i t = (if i = row_id u then map (\<lambda>r. let r = (if lock_expired (now c) r then unlocked r else r)
      in r\<lparr>us_failed_login_attempts := us_failed_login_attempts r + 1\<rparr>) (user_row i s) else user_row i s)"
    "failures i t = failures i s" for i
    by (simp_all add: t_def user_row_update unlocked_def comp_def Let_def)
  have rows: "filter (\<lambda>r. row_id r = row_id u) (app_users t) = user_row (row_id u) t" by (simp add: user_row_def)
  have "user_row i s' = (if i = row_id u \<and> length (user_row i s) = 1 then map (failed_once env c) (user_row i s)
      else user_row i s) \<and> failures i s' = failures i s + (if i = row_id u \<and> length (user_row i s) = 1 then 1 else 0)"
  proof (cases "user_row (row_id u) s")
    case Nil
    then show ?thesis using assms unfolding record_failed_login_def Let_def t_def [symmetric] rows by (auto simp: t)
  next
    case (Cons r rs)
    show ?thesis
    proof (cases rs)
      case Nil
      with Cons show ?thesis
        using assms unfolding record_failed_login_def Let_def t_def [symmetric] rows
        by (auto simp: t user_row_update failed_once_def Let_def split: if_splits)
    next
      case (Cons r' rs')
      with \<open>user_row (row_id u) s = r # rs\<close> show ?thesis
        using assms unfolding record_failed_login_def Let_def t_def [symmetric] rows by (auto simp: t)
    qed
  qed
  then show "user_row i s' = (if i = row_id u \<and> length (user_row i s) = 1 then map (failed_once env c) (user_row i s)
      else user_row i s)"
    "failures i s' = failures i s + (if i = row_id u \<and> length (user_row i s) = 1 then 1 else 0)" by blast+
qed

datatype login_attempt =
    Password_attempt clock string string "string option" "string option" "string option"
  | Pin_attempt clock string uuid string "string option" "string option"

fun attempt_time :: "login_attempt \<Rightarrow> datetime" where
  "attempt_time (Password_attempt c phone password ip_address user_agent slug) = now c"
| "attempt_time (Pin_attempt c slug user_id pin_code ip_address user_agent) = now c"

fun attempt :: "auth_env \<Rightarrow> login_attempt \<Rightarrow> db \<Rightarrow> (app_user \<times> string \<times> string) res \<times> db" where
  "attempt env (Password_attempt c phone password ip_address user_agent slug) s =
     login_with_password env c phone password ip_address user_agent slug s"
| "attempt env (Pin_attempt c slug user_id pin_code ip_address user_agent) s =
     login_with_pin env c slug user_id pin_code ip_address user_agent s"

fun attempts :: "auth_env \<Rightarrow> login_attempt list \<Rightarrow> db \<Rightarrow> (app_user \<times> string \<times> string) res list \<times> db" where
  "attempts env [] s = ([], s)"
| "attempts env (a # as) s = (let (r, s) = attempt env a s; (rs, s) = attempts env as s in (r # rs, s))"

definition locked_at :: "datetime \<Rightarrow> app_user \<Rightarrow> bool" where
  "locked_at t u \<longleftrightarrow> us_is_locked u \<and> (case us_locked_until u of Some x \<Rightarrow> t < x | None \<Rightarrow> False)"

lemma ensure_not_locked_Inr: "ensure_not_locked c u = Inr x \<longleftrightarrow> \<not> locked_at (now c) u"
  by (auto simp: ensure_not_locked_def locked_at_def split: option.splits)

lemma attempt_checks:
  obtains (refused) e where "attempt env a s = (Inl e, s)"
  | (checked) c u plain hashed ip_address user_agent pin where
      "attempt env a s = check_secret env c u plain hashed ip_address user_agent pin s"
      "now c = attempt_time a" "u \<in> set (app_users s)" "\<not> locked_at (now c) u"
proof (cases a)
  case (Password_attempt c phone password ip_address user_agent slug)
  show ?thesis
  proof (cases "login_user env c phone slug s")
    case (Inl e) then show ?thesis using Password_attempt by (intro refused) (simp add: login_with_password_def)
  next
    case (Inr p)
    then have "fst p \<in> set (users_with_phone s phone bid)" "\<not> locked_at (now c) (fst p)"
      if "login_business env slug s = Inr bid" for bid
      using that by (auto simp: login_user_def ensure_not_locked_Inr handler_simps split: list.splits option.splits if_splits)
    moreover obtain bid where "login_business env slug s = Inr bid"
      using Inr by (auto simp: login_user_def handler_simps)
    ultimately show ?thesis using Password_attempt Inr
      by (intro checked [of c "fst p" password "snd p" ip_address user_agent False])
        (auto simp: login_with_password_def users_with_phone_def split: prod.splits)
  qed
next
  case (Pin_attempt c slug user_id pin_code ip_address user_agent)
  show ?thesis
  proof (cases "pin_user c slug user_id s")
    case (Inl e) then show ?thesis using Pin_attempt by (intro refused) (simp add: login_with_pin_def)
  next
    case (Inr p)
    then have "fst p \<in> set (app_users s) \<and> \<not> locked_at (now c) (fst p)"
      by (auto simp: pin_user_def handler_simps ensure_not_locked_Inr filter_eq_Cons_iff split: option.splits)
    then show ?thesis using Pin_attempt Inr
      by (intro checked [of c "fst p" pin_code "snd p" ip_address user_agent True])
        (auto simp: login_with_pin_def split: prod.splits)
  qed
qed

definition window_us :: "auth_env \<Rightarrow> int" where
  \<comment> \<open>how long an account stays locked\<close>
  "window_us env = ae_lockout_minutes env * 60 * second_us"

definition guessed :: "auth_env \<Rightarrow> datetime \<Rightarrow> uuid \<Rightarrow> nat \<Rightarrow> db \<Rightarrow> bool" where
  \<comment> \<open>after \<open>k\<close> wrong guesses in a window that ends at \<open>t\<close>: locked beyond it, or the counter has seen them all\<close>
  "guessed env t i k s \<longleftrightarrow>
     (case user_row i s of
        [u] \<Rightarrow> us_is_locked u \<and> (\<exists>x. us_locked_until u = Some x \<and> t \<le> x) \<and> int k \<le> ae_max_login_attempts env \<or>
               int k \<le> us_failed_login_attempts u \<and>
               (0 < k \<longrightarrow> us_failed_login_attempts u < ae_max_login_attempts env \<and>
                  \<not> (us_is_locked u \<and> us_locked_until u \<noteq> None))
      | _ \<Rightarrow> k = 0)"

lemma guessed_bound: "guessed env t i k s \<Longrightarrow> 0 < ae_max_login_attempts env \<Longrightarrow> int k \<le> ae_max_login_attempts env"
  by (cases k) (auto simp: guessed_def split: list.splits)

lemma guessed_failed_once:
  assumes "guessed env t i k s" "user_row i s = [u]" "\<not> locked_at n u" "n < t" "t \<le> n + window_us env"
    "0 < ae_max_login_attempts env" "user_row i s' = [failed_once env c u]" "now c = n"
  shows "guessed env t i (Suc k) s'"
proof -
  have B: "int k \<le> us_failed_login_attempts u"
    "0 < k \<Longrightarrow> us_failed_login_attempts u < ae_max_login_attempts env \<and> \<not> (us_is_locked u \<and> us_locked_until u \<noteq> None)"
    using assms(1-4) by (auto simp: guessed_def locked_at_def)
  show ?thesis
  proof (cases "lock_expired n u")
    case True
    then have "k = 0" using B(2) by (auto simp: lock_expired_def split: option.splits)
    then show ?thesis
      using True assms(5-8) by (auto simp: guessed_def failed_once_def unlocked_def window_us_def Let_def)
  next
    case False
    have "k = 0 \<Longrightarrow> \<not> us_is_locked u \<or> us_locked_until u = None"
      using False assms(3) by (auto simp: lock_expired_def locked_at_def split: option.splits)
    then have open_: "\<not> us_is_locked u \<or> us_locked_until u = None" using B(2) by auto
    have "int k < ae_max_login_attempts env" using B assms(6) by (cases "k = 0") auto
    then show ?thesis
      using False B open_ assms(5-8) by (auto simp: guessed_def failed_once_def window_us_def Let_def)
  qed
qed

lemma issue_refresh_token_frame:
  assumes "issue_refresh_token env c u ip_address user_agent family s = Inr (token, s')"
  shows "app_users s' = app_users s" "audits s' = audits s"
  using assms
  by (auto simp: issue_refresh_token_def handler_simps save_refresh_from_token_def save_refresh_token_def
      fresh_uuid_def Let_def split: option.splits prod.splits if_splits)

lemma logged_in_ids [simp]: "row_id (logged_in c u) = row_id u" "business_id (logged_in c u) = business_id u"
  by (simp_all add: logged_in_def)

lemma finish_login_frame:
  assumes "finish_login env c u ip_address user_agent pin s = Inr (x, s')"
  shows "row_id (fst x) = row_id u" "i \<noteq> row_id u \<Longrightarrow> user_row i s' = user_row i s" "failures i s' = failures i s"
proof -
  obtain token t extra where t: "issue_refresh_token env c (logged_in c u) ip_address user_agent None
      (update_user (row_id u) (logged_in c) s) = Inr (token, t)"
    and x: "row_id (fst x) = row_id u"
    and s': "s' = log_auth_event (business_id u) (Some (row_id u)) ''login_success'' (row_id u) ip_address
      user_agent extra None (purge_stale_tokens c (row_id u) t)"
    using assms(1) unfolding finish_login_def Let_def handler_simps by auto
  have purge: "user_row j (purge_stale_tokens c (row_id u) t) = user_row j t"
    "failures j (purge_stale_tokens c (row_id u) t) = failures j t" for j
    by (simp_all add: purge_stale_tokens_def user_row_def failures_def)
  have "user_row j t = user_row j (update_user (row_id u) (logged_in c) s)" "failures j t = failures j s" for j
    using issue_refresh_token_frame [OF t] by (simp_all add: user_row_def failures_def update_user_def)
  then show "row_id (fst x) = row_id u" "i \<noteq> row_id u \<Longrightarrow> user_row i s' = user_row i s" "failures i s' = failures i s"
    using x s' purge by (auto simp: user_row_update logged_in_def)
qed

lemma attempt_guessed:
  assumes "guessed env t i (failures i s - f0) s" "f0 \<le> failures i s" "attempt env a s = (r, s')"
    "attempt_time a < t" "t \<le> attempt_time a + window_us env" "0 < ae_max_login_attempts env"
    "\<And>x. r = Inr x \<Longrightarrow> row_id (fst x) \<noteq> i"
  shows "guessed env t i (failures i s' - f0) s' \<and> f0 \<le> failures i s'"
proof (cases rule: attempt_checks [of env a s])
  case (refused e)
  then show ?thesis using assms(1-3) by simp
next
  case (checked c u plain hashed ip_address user_agent pin)
  show ?thesis
  proof (cases "ae_verify env plain hashed")
    case True
    then have r: "rollback s (finish_login env c u ip_address user_agent pin s) = (r, s')"
      using checked(1) assms(3) by (simp add: check_secret_def)
    show ?thesis
    proof (cases "finish_login env c u ip_address user_agent pin s")
      case (Inl e) then show ?thesis using r assms(1,2) by (simp add: rollback_def)
    next
      case (Inr p)
      then have p: "finish_login env c u ip_address user_agent pin s = Inr (fst p, s')" "r = Inr (fst p)"
        using r by (auto simp: rollback_def split: prod.splits)
      have "i \<noteq> row_id u" using assms(7) [OF p(2)] finish_login_frame(1) [OF p(1)] by simp
      then show ?thesis using assms(1,2) finish_login_frame(2,3) [OF p(1), of i] by (simp add: guessed_def)
    qed
  next
    case False
    then obtain e where e: "record_failed_login env c u ip_address user_agent pin s = (e, s')"
      using checked(1) assms(3) by (auto simp: check_secret_def split: prod.splits)
    note E = record_failed_login_effect [OF e, of i]
    show ?thesis
    proof (cases "i = row_id u \<and> length (user_row i s) = 1")
      case True
      moreover have "u \<in> set (user_row i s)" using checked(3) True by (simp add: user_row_def)
      ultimately have one: "user_row i s = [u]" by (cases "user_row i s") auto
      have "guessed env t i (Suc (failures i s - f0)) s'"
        by (rule guessed_failed_once [OF assms(1) one checked(4) _ _ assms(6)])
          (use assms(4,5) checked(2) E(1) True one in auto)
      moreover have "failures i s' = Suc (failures i s)" using E(2) one True by simp
      ultimately show ?thesis using assms(2) by (simp add: Suc_diff_le)
    next
      case False
      then have "user_row i s' = user_row i s" "failures i s' = failures i s" using E by (metis, metis add_0_right)
      then show ?thesis using assms(1,2) by (simp add: guessed_def)
    qed
  qed
qed

lemma attempts_guessed:
  assumes "attempts env as s = (rs, s')" "guessed env t i (failures i s - f0) s" "f0 \<le> failures i s"
    "\<forall>a\<in>set as. attempt_time a < t \<and> t \<le> attempt_time a + window_us env" "0 < ae_max_login_attempts env"
    "\<forall>x. Inr x \<in> set rs \<longrightarrow> row_id (fst x) \<noteq> i"
  shows "guessed env t i (failures i s' - f0) s'"
  using assms(1-4,6)
proof (induction "as" arbitrary: s rs)
  case (Cons a "as")
  obtain r s1 where a: "attempt env a s = (r, s1)" by fastforce
  obtain rs1 where r: "attempts env as s1 = (rs1, s')" "rs = r # rs1"
    using Cons.prems(1) by (auto simp: a split: prod.splits)
  have "guessed env t i (failures i s1 - f0) s1 \<and> f0 \<le> failures i s1"
    by (rule attempt_guessed [OF Cons.prems(2,3) a]) (use Cons.prems(4,5) assms(5) r(2) in auto)
  then show ?case using Cons.IH [OF r(1)] Cons.prems(4,5) r(2) by auto
qed simp


section \<open>A sample\<close>

text \<open>A codec for claims with the documented round trip, for the witnesses.\<close>

definition put_nat :: "nat \<Rightarrow> string" where
  "put_nat n = replicate n CHR ''1'' @ ''0''"

fun get_nat :: "string \<Rightarrow> nat \<times> string" where
  "get_nat [] = (0, [])"
| "get_nat (x # xs) = (if x = CHR ''0'' then (0, xs) else let (n, r) = get_nat xs in (Suc n, r))"

lemma get_put_nat [simp]: "get_nat (put_nat n @ r) = (n, r)"
  unfolding put_nat_def by (induction n) auto

definition put_int :: "int \<Rightarrow> string" where
  "put_int i = put_nat (nat i) @ put_nat (nat (- i))"

definition get_int :: "string \<Rightarrow> int \<times> string" where
  "get_int xs = (let (m, r) = get_nat xs; (n, r) = get_nat r in (int m - int n, r))"

definition put_string :: "string \<Rightarrow> string" where
  "put_string x = put_nat (length x) @ x"

definition get_string :: "string \<Rightarrow> string \<times> string" where
  "get_string xs = (let (n, r) = get_nat xs in (take n r, drop n r))"

definition put_option :: "('a \<Rightarrow> string) \<Rightarrow> 'a option \<Rightarrow> string" where
  "put_option f x = (case x of None \<Rightarrow> put_nat 0 | Some v \<Rightarrow> put_nat 1 @ f v)"

definition get_option :: "(string \<Rightarrow> 'a \<times> string) \<Rightarrow> string \<Rightarrow> 'a option \<times> string" where
  "get_option g xs = (let (n, r) = get_nat xs in if n = 0 then (None, r) else let (v, r) = g r in (Some v, r))"

lemma get_put_int: "get_int (put_int i @ r) = (i, r)"
  by (simp add: get_int_def put_int_def)

lemma get_put_string: "get_string (put_string x @ r) = (x, r)"
  by (simp add: get_string_def put_string_def)

lemma get_put_option:
  "(\<And>v r. g (f v @ r) = (v, r)) \<Longrightarrow> get_option g (put_option f x @ r) = (x, r)"
  by (simp add: get_option_def put_option_def split: option.splits)

definition sample_encode :: "string \<Rightarrow> claims \<Rightarrow> string" where
  "sample_encode secret p = put_string secret @ put_option put_nat (cm_sub p) @ put_option put_nat (cm_business_id p) @
     put_option put_nat (cm_branch_id p) @ put_option put_int (cm_tv p) @ put_option put_nat (cm_fid p) @
     put_option put_int (cm_exp p) @ put_option put_string (cm_type p) @ put_option put_string (cm_jti p)"

definition sample_read :: "string \<Rightarrow> datetime \<Rightarrow> string \<Rightarrow> claims option" where
  "sample_read secret t token =
     (let (key, r) = get_string token; (sub, r) = get_option get_nat r; (bid, r) = get_option get_nat r;
          (branch, r) = get_option get_nat r; (tv, r) = get_option get_int r; (fid, r) = get_option get_nat r;
          (expires, r) = get_option get_int r; (kind, r) = get_option get_string r; (jti, r) = get_option get_string r
      in if key = secret \<and> (case expires of None \<Rightarrow> True | Some e \<Rightarrow> t < e * second_us)
         then Some \<lparr>cm_sub = sub, cm_business_id = bid, cm_branch_id = branch, cm_tv = tv, cm_fid = fid,
           cm_exp = expires, cm_type = kind, cm_jti = jti\<rparr> else None)"

lemma sample_read_encode:
  "sample_read secret t (sample_encode secret p) =
     (case cm_exp p of None \<Rightarrow> Some p | Some e \<Rightarrow> if t < e * second_us then Some p else None)"
proof -
  have last: "get_option get_string (put_option put_string x) = (x, [])" for x
    using get_put_option [of get_string put_string x "[]", OF get_put_string] by simp
  show ?thesis
    unfolding sample_read_def sample_encode_def
    by (simp add: get_put_string get_put_option [of get_nat put_nat, OF get_put_nat] last
        get_put_option [of get_int put_int, OF get_put_int] get_put_option [of get_string put_string, OF get_put_string]
        split: option.splits)
qed

definition sample_env :: auth_env where
  "sample_env = \<lparr>ae_encode = sample_encode, ae_decode = sample_read, ae_text = put_nat,
     ae_verify = (\<lambda>plain hashed. plain = hashed), ae_jwt_secret_key = ''a'', ae_jwt_refresh_secret_key = ''r'',
     ae_access_token_expire_hours = 1, ae_pin_token_expire_hours = 1, ae_refresh_token_expire_days = 7,
     ae_refresh_grace_seconds = 10, ae_max_login_attempts = 2, ae_lockout_minutes = 15,
     ae_login_require_business_slug = False\<rparr>"

lemma sample_jwt_ok: "jwt_ok sample_env"
  by (simp add: jwt_ok_def sample_env_def sample_read_encode)

definition sample_row :: "string \<Rightarrow> datetime option \<Rightarrow> datetime \<Rightarrow> refresh_token" where
  "sample_row jti revoked created = \<lparr>rk_id = 80, rk_user_id = 9, rk_business_id = 1, rk_jti = jti,
     rk_family_id = Some 70, rk_expires_at = 10 ^ 12, rk_revoked_at = revoked, rk_ip_address = None,
     rk_user_agent = None, rk_created_at = created\<rparr>"

definition sample_session :: db where
  \<comment> \<open>token \<open>j1\<close> was rotated to \<open>j2\<close> two seconds after it was issued\<close>
  "sample_session = sample_access\<lparr>refresh_tokens :=
     [sample_row ''j1'' (Some (2 * 10 ^ 6)) 0, sample_row ''j2'' None (2 * 10 ^ 6)]\<rparr>"

definition sample_token :: "string \<Rightarrow> string" where
  "sample_token jti = create_refresh_token sample_env ((build_token_payload sample_user)\<lparr>cm_fid := Some 70\<rparr>) 0 jti"

definition seconds :: "int \<Rightarrow> clock" where
  "seconds n = \<lparr>now = n * 10 ^ 6, date_key = ''20260101''\<rparr>"

lemma sample_sessions_ok: "sessions_ok sample_session"
proof -
  have "uuid_gen sample_session = id" "uuid_next sample_session = 100"
    by (simp_all add: sample_session_def sample_access_def empty_db_def)
  moreover have "drawn sample_session = {..<100}" using calculation by (simp add: drawn_def)
  ultimately show ?thesis
    by (auto simp: sessions_ok_def live_tokens_def sample_session_def sample_row_def)
qed

lemma sample_presented:
  assumes "refresh_tokens s = refresh_tokens sample_session" "0 \<le> n" "n < 86400"
  shows "presented_token sample_env (seconds n) (sample_token ''j1'') s = Inr (stored_of (sample_row ''j1'' (Some (2 * 10 ^ 6)) 0))"
    and "presented_token sample_env (seconds n) (sample_token ''j2'') s = Inr (stored_of (sample_row ''j2'' None (2 * 10 ^ 6)))"
  using assms
  by (simp_all add: presented_token_def sample_token_def create_refresh_token_def decode_refresh_token_def
      sample_jwt_ok [unfolded jwt_ok_def, rule_format] Let_def sample_env_def sample_read_encode seconds_def
      second_us_def day_us_def build_token_payload_def get_refresh_token_def sample_session_def sample_row_def
      stored_of_def first_row_def sample_user_def)

lemma one_live_token_per_session_witness:
  "length (live_tokens 70 (snd (refresh_tokens_for sample_env (seconds 60) (sample_token ''j2'') None None
     sample_session))) \<le> 1"
  by (rule one_live_token_per_session [OF sample_jwt_ok sample_sessions_ok r_into_rtranclp [of "session_step sample_env"]])
    (rule Refresh)

lemma sample_reuse:
  obtains s1 where "refresh_tokens_for sample_env (seconds 60) (sample_token ''j1'') None None sample_session =
      (Inl (HTTPException 401 ''Token revoked or expired'' []), s1)"
    "refresh_tokens s1 = [sample_row ''j1'' (Some (2 * 10 ^ 6)) 0, sample_row ''j2'' (Some (60 * 10 ^ 6)) (2 * 10 ^ 6)]"
  using sample_presented(1) [of sample_session 60]
  by (simp add: refresh_tokens_for_def answer_reuse_def replay_recent_rotation_def reject_refresh_def
      stored_of_def sample_row_def sample_env_def seconds_def second_us_def revoke_token_family_def revoke_where_def
      log_auth_event_def sample_session_def Let_def)

lemma reused_token_ends_session_witness:
  "\<exists>s1 e. refresh_tokens_for sample_env (seconds 60) (sample_token ''j1'') None None sample_session =
      (Inl (HTTPException 401 ''Token revoked or expired'' []), s1) \<and>
     fst (refresh_tokens_for sample_env (seconds 61) (sample_token ''j2'') None None s1) = Inl e"
proof -
  obtain s1 where s1: "refresh_tokens_for sample_env (seconds 60) (sample_token ''j1'') None None sample_session =
      (Inl (HTTPException 401 ''Token revoked or expired'' []), s1)"
    "refresh_tokens s1 = [sample_row ''j1'' (Some (2 * 10 ^ 6)) 0, sample_row ''j2'' (Some (60 * 10 ^ 6)) (2 * 10 ^ 6)]"
    using sample_reuse .
  have first: "presented_token sample_env (seconds 60) (sample_token ''j1'') sample_session =
      Inr (stored_of (sample_row ''j1'' (Some (2 * 10 ^ 6)) 0))"
    by (rule sample_presented) simp_all
  have second: "presented_token sample_env (seconds 61) (sample_token ''j2'') s1 =
      Inr (stored_of (sample_row ''j2'' (Some (60 * 10 ^ 6)) (2 * 10 ^ 6)))"
    by (simp add: presented_token_def sample_token_def create_refresh_token_def decode_refresh_token_def
        Let_def sample_env_def sample_read_encode seconds_def second_us_def day_us_def build_token_payload_def
        get_refresh_token_def s1(2) sample_row_def stored_of_def first_row_def sample_user_def)
  have family: "st_revoked_at (stored_of (sample_row ''j1'' (Some (2 * 10 ^ 6)) 0)) \<noteq> None"
    "st_family_id (stored_of (sample_row jti rev cr)) = Some 70" for jti rev cr
    by (simp_all add: stored_of_def sample_row_def)
  show ?thesis
    using s1(1) reused_token_ends_session [OF sample_jwt_ok sample_sessions_ok first family(1,2) s1(1)
        rtranclp.rtrancl_refl second family(2), of None None] by blast
qed

lemma refresh_hands_out_live_token_witness:
  "\<exists>pair s'. refresh_tokens_for sample_env (seconds 60) (sample_token ''j2'') None None sample_session = (Inr pair, s') \<and>
     length (live_tokens 70 s') = 1 \<and> length (refresh_tokens s') = 3"
proof -
  let ?stored = "stored_of (sample_row ''j2'' None (2 * 10 ^ 6))"
  have first: "presented_token sample_env (seconds 60) (sample_token ''j2'') sample_session = Inr ?stored"
    by (rule sample_presented) simp_all
  have family: "st_family_id ?stored = Some 70" "st_revoked_at ?stored = None"
    by (simp_all add: stored_of_def sample_row_def)
  obtain pair s' where r: "refresh_tokens_for sample_env (seconds 60) (sample_token ''j2'') None None sample_session = (Inr pair, s')"
    using first
    by (simp add: refresh_tokens_for_def consume_refresh_token_def revoke_refresh_token_def revoke_where_def
        stored_of_def sample_row_def sample_session_def refreshing_users_def business_of_def sample_access_def
        sample_business_def sample_user_def live_def rollback_def rotate_def issue_refresh_token_def fresh_uuid_def
        save_refresh_from_token_def decode_refresh_token_def create_refresh_token_def sample_env_def
        sample_read_encode seconds_def second_us_def day_us_def build_token_payload_def put_nat_def Let_def
        scalar_one_or_none_def)
  obtain x where x: "live_tokens 70 s' = [x]" "\<exists>s1. revoke_refresh_token (seconds 60) (st_jti ?stored) sample_session = (True, s1) \<and>
       refresh_tokens s' = refresh_tokens s1 @ [x]"
    using refresh_hands_out_live_token [OF sample_jwt_ok sample_sessions_ok first family(1) r] family(2) by auto
  have "length (refresh_tokens s') = 3"
    using x(2) by (auto simp: revoke_refresh_token_def revoke_where_def sample_session_def)
  with r x(1) show ?thesis by auto
qed

definition sample_login :: db where
  "sample_login = sample_access\<lparr>app_users := [sample_user\<lparr>us_phone := Some ''0300'', us_password_hash := Some ''pw''\<rparr>]\<rparr>"

definition sample_guesses :: "login_attempt list" where
  "sample_guesses = map (\<lambda>n. Password_attempt (seconds n) ''0300'' ''guess'' None None None) [1, 2, 3]"


lemma expired_lock_still_refused:
  \<comment> \<open>a lock that has run out lets the user log in, but refuses the requests of sessions that are open\<close>
  assumes "us_is_locked u" "us_locked_until u = Some x" "x \<le> now c" "live u" "us_status u = UserStatus_active"
  shows "ensure_not_locked c u = Inr () \<and> check_user s g (now c) rq tv u = forbidden ''User account is locked''"
  using assms by (simp add: ensure_not_locked_def check_user_def live_def)

end
