(* ===== verification/Signout.thy ===== *)
theory Signout
  imports Custody Rotation
begin

text \<open>
  A change of the password or PIN of a user, a deactivation and a deletion (\<open>Staff\<close>) end every session of
  the user (\<open>Sessions\<close>, \<open>Access\<close>) for good: the version of the user's tokens goes up and never comes back,
  and the refresh tokens of the time before stay revoked.
\<close>

section \<open>Sessions end when a credential changes\<close>

definition user_ids :: "db \<Rightarrow> bool" where
  "user_ids s \<longleftrightarrow> inj (uuid_gen s) \<and> keyed (app_users s) s"

definition versions_grow :: "db \<Rightarrow> db \<Rightarrow> bool" where
  \<comment> \<open>no user is lost and no token version goes back\<close>
  "versions_grow s s' \<longleftrightarrow> (user_ids s \<longrightarrow> user_ids s' \<and> (\<forall>u\<in>set (app_users s). \<exists>u'\<in>set (app_users s').
     row_id u' = row_id u \<and> us_token_version u \<le> us_token_version u'))"

lemma versions_grow_trans [trans]: "versions_grow s t \<Longrightarrow> versions_grow t v \<Longrightarrow> versions_grow s v"
proof -
  assume a: "versions_grow s t" "versions_grow t v"
  have "\<exists>w\<in>set (app_users v). row_id w = row_id u \<and> us_token_version u \<le> us_token_version w"
    if ids: "user_ids s" "u \<in> set (app_users s)" for u
  proof -
    obtain x where x: "x \<in> set (app_users t)" "row_id x = row_id u" "us_token_version u \<le> us_token_version x"
      using a(1) ids unfolding versions_grow_def by blast
    moreover have "user_ids t" using a(1) ids(1) by (simp add: versions_grow_def)
    ultimately obtain w where "w \<in> set (app_users v)" "row_id w = row_id x" "us_token_version x \<le> us_token_version w"
      using a(2) unfolding versions_grow_def by blast
    then show ?thesis using x by (intro bexI [of _ w]) auto
  qed
  then show ?thesis using a by (simp add: versions_grow_def)
qed

lemma versions_same:
  assumes "map (\<lambda>u. (row_id u, us_token_version u)) (app_users s') = map (\<lambda>u. (row_id u, us_token_version u)) (app_users s)"
    "uuid_gen s' = uuid_gen s" "uuid_next s \<le> uuid_next s'"
  shows "versions_grow s s'"
proof -
  have "map row_id (app_users s') = map row_id (app_users s)"
    using arg_cong [OF assms(1), of "map fst"] by (simp add: comp_def)
  then have "user_ids s \<longrightarrow> user_ids s'"
    using assms(2) drawn_eqI [OF assms(2,3)] unfolding user_ids_def keyed_def by (metis dual_order.trans list.set_map)
  moreover have "\<exists>u'\<in>set (app_users s'). row_id u' = row_id u \<and> us_token_version u \<le> us_token_version u'"
    if "u \<in> set (app_users s)" for u
    using map_key_mem [OF assms(1) [symmetric] that] by auto
  ultimately show ?thesis unfolding versions_grow_def by blast
qed

lemma versions_refl: "versions_grow s s"
  by (simp add: versions_same)

lemma versions_update:
  assumes "\<And>u. u \<in> set (app_users s) \<Longrightarrow> row_id u = i \<Longrightarrow> row_id (f u) = i"
    and "user_ids s \<Longrightarrow> \<forall>u\<in>set (app_users s). row_id u = i \<longrightarrow> us_token_version u \<le> us_token_version (f u)"
  shows "versions_grow s (update_user i f s)"
proof -
  have "map row_id (update_where (\<lambda>r. row_id r = i) f (app_users s)) = map row_id (app_users s)"
    by (rule map_update_where_mem) (simp add: assms(1))
  then have "user_ids s \<Longrightarrow> user_ids (update_user i f s)"
    unfolding user_ids_def keyed_def update_user_parts by (metis list.set_map)
  moreover have "\<exists>u'\<in>set (update_where (\<lambda>r. row_id r = i) f (app_users s)). row_id u' = row_id u \<and>
      us_token_version u \<le> us_token_version u'" if "user_ids s" "u \<in> set (app_users s)" for u
    by (rule update_where_keeps [OF that(2)]) (use assms that in auto)
  ultimately show ?thesis unfolding versions_grow_def update_user_parts by blast
qed

lemma versions_frames:
  "versions_grow s (log_audit b u br a t r x y s)"
  "versions_grow s (log_auth_event b u ev r ip ua z br s)"
  "versions_grow s (snd (revoke_where c P s))"
  "move_assignments user branch s = Inr s' \<Longrightarrow> versions_grow s s'"
  by (rule versions_same, auto simp: log_audit_def log_auth_event_def Let_def revoke_where_def move_assignments_def split: if_splits)+

lemma secret_versions [simp]:
  "row_id (secret_changed c actor u) = row_id u" "us_token_version (secret_changed c actor u) = us_token_version u + 1"
  "row_id (unlocked u) = row_id u" "us_token_version (unlocked u) = us_token_version u"
  "row_id (touch_user c actor u) = row_id u" "us_token_version (touch_user c actor u) = us_token_version u"
  by (simp_all add: secret_changed_def touch_user_def unlocked_def)

inductive credential_change :: "auth_env \<Rightarrow> uuid \<Rightarrow> db \<Rightarrow> db \<Rightarrow> bool" for env where
  \<comment> \<open>a change of the password or PIN of a user, a deactivation or a deletion\<close>
  Pin_set: "set_user_pin env h c i b pin ru p1 p2 s = Inr s' \<Longrightarrow> credential_change env i s s'"
| Password_changed: "change_own_password env h c u p1 p2 s = Inr s' \<Longrightarrow> credential_change env (row_id u) s s'"
| Password_reset: "reset_user_password h c i b pw ru s = Inr s' \<Longrightarrow> credential_change env i s s'"
| Deactivated: "update_tenant_user c i b data actor s = Inr s' \<Longrightarrow> uur_is_active data = Some False \<Longrightarrow>
    get_user_by_id s i b = Inr u \<Longrightarrow> us_status u = UserStatus_active \<Longrightarrow> credential_change env i s s'"
| Deleted: "soft_delete_tenant_user c i b actor s p = Inr (s', p') \<Longrightarrow> credential_change env i s s'"

definition signs_out :: "uuid \<Rightarrow> db \<Rightarrow> db \<Rightarrow> bool" where
  \<comment> \<open>the version of the user goes up and their tokens are revoked\<close>
  "signs_out i s s' \<longleftrightarrow> versions_grow s s' \<and>
     (user_ids s \<longrightarrow> (\<forall>u\<in>set (app_users s). row_id u = i \<longrightarrow>
        (\<exists>u'\<in>set (app_users s'). row_id u' = i \<and> us_token_version u < us_token_version u'))) \<and>
     (\<exists>c t. refresh_tokens t = refresh_tokens s \<and> uuid_gen t = uuid_gen s \<and> uuid_next t = uuid_next s \<and>
        revokes (snd (revoke_all_user_tokens c i t)) s')"

lemma signs_outI:
  assumes "s' = g (snd (revoke_all_user_tokens c i (update_user i f s)))"
    "\<And>t. app_users (g t) = app_users t" "\<And>t. revokes t (g t)" "\<And>t. versions_grow t (g t)"
    "\<And>u. row_id u = i \<Longrightarrow> row_id (f u) = i \<and> us_token_version u < us_token_version (f u)"
  shows "signs_out i s s'"
proof -
  have "versions_grow s (update_user i f s)" using assms(5) by (intro versions_update) (auto intro: less_imp_le)
  then have "versions_grow s s'"
    unfolding assms(1) revoke_all_user_tokens_def
    by (blast intro: versions_grow_trans assms(4) versions_frames(3))
  moreover have "\<exists>u'\<in>set (app_users s'). row_id u' = i \<and> us_token_version u < us_token_version u'"
    if "u \<in> set (app_users s)" "row_id u = i" for u
  proof -
    have "app_users s' = update_where (\<lambda>r. row_id r = i) f (app_users s)"
      by (simp add: assms(1,2) revoke_all_user_tokens_def)
    then show ?thesis using update_where_keeps [OF that(1), of "\<lambda>r. row_id r = i"] assms(5) that(2) by force
  qed
  ultimately show ?thesis
    using assms(3) unfolding signs_out_def assms(1)
    by (intro conjI impI exI [of _ c] exI [of _ "update_user i f s"]) (auto simp: update_user_def)
qed

lemma revokes_audit: "revokes s (log_audit b u br a t r x y s)"
  by (rule revokes_same) (simp_all add: log_audit_def)

lemma signs_out_logged:
  assumes "\<And>u. row_id (f u) = row_id u \<and> us_token_version u < us_token_version (f u)"
  shows "signs_out i s (log_auth_event b us ev r ip ua z br (snd (revoke_all_user_tokens c i (update_user i f s))))"
    and "signs_out i s (log_audit b us br a tn r x y (snd (revoke_all_user_tokens c i (update_user i f s))))"
  by (rule signs_outI [OF refl], use assms in \<open>simp_all add: log_auth_revokes revokes_audit versions_frames\<close>)+

lemma set_user_pin_signs_out: "set_user_pin env h c i b pin ru p1 p2 s = Inr s' \<Longrightarrow> signs_out i s s'"
  unfolding set_user_pin_def
  by (auto simp: bind_res_Inr Let_def dest!: get_user_row(2) split: if_splits intro!: signs_out_logged)

lemma change_own_password_signs_out: "change_own_password env h c u p1 p2 s = Inr s' \<Longrightarrow> signs_out (row_id u) s s'"
  unfolding change_own_password_def by (auto simp: Let_def split: if_splits intro!: signs_out_logged)

lemma reset_user_password_signs_out: "reset_user_password h c i b pw ru s = Inr s' \<Longrightarrow> signs_out i s s'"
  unfolding reset_user_password_def
  by (auto simp: bind_res_Inr Let_def dest!: get_user_row(2) split: if_splits intro!: signs_out_logged)

lemma soft_delete_signs_out: "soft_delete_tenant_user c i b actor s p = Inr (s', p') \<Longrightarrow> signs_out i s s'"
  unfolding soft_delete_tenant_user_def
  by (auto simp: bind_res_Inr Let_def dest!: get_user_row(2) split: if_splits intro!: signs_out_logged)

lemma deactivation_signs_out:
  assumes "update_tenant_user c i b data actor s = Inr s'" "uur_is_active data = Some False"
    "get_user_by_id s i b = Inr u" "us_status u = UserStatus_active"
  shows "signs_out i s s'"
proof -
  from assms(1) obtain u' u2 s1 u3 s2 where run: "get_user_by_id s i b = Inr u'"
    "change_branch (uur_branch_id data) b (u'\<lparr>us_full_name := or_else (uur_full_name data) (us_full_name u')\<rparr>) s = Inr (u2, s1)"
    "set_active c (uur_is_active data) u2 s1 = (u3, s2)"
    "s' = update_user (row_id u') (\<lambda>_. touch_user c actor u3) (log_profile_change b actor u' u3 s2)"
    by (rule update_tenant_user_run)
  have "u' = u" using run(1) assms(3) by simp
  note row = get_user_row [OF assms(3)]
  note br = change_branch_Inr [OF run(2)]
  have "us_status u2 = UserStatus_active" using br(3) assms(4) \<open>u' = u\<close> by simp
  then have v3: "us_token_version u3 = us_token_version u2 + 1" "s2 = snd (revoke_all_user_tokens c (row_id u2) s1)"
    using set_active_eq(4) [OF run(3) assms(2)] by blast+
  have ids: "row_id u2 = i" "row_id u3 = i" "us_token_version u3 = us_token_version u + 1"
    using br(1,2) set_active_eq(1) [OF run(3)] v3(1) row(2) \<open>u' = u\<close> by (auto simp: user_key_def)
  have s1: "versions_grow s s1" "refresh_tokens s1 = refresh_tokens s" "uuid_gen s1 = uuid_gen s" "uuid_next s1 = uuid_next s"
    "app_users s1 = app_users s"
    using br(4) versions_refl versions_frames(4) by (auto simp: move_assignments_def Let_def split: if_splits)
  let ?s3 = "log_profile_change b actor u' u3 s2"
  have s3: "versions_grow s2 ?s3" "revokes s2 ?s3" "app_users ?s3 = app_users s"
    using log_profile_change_eq [of b actor u' u3 s2] versions_refl versions_frames(1) revokes_refl revokes_audit
      s1(5) v3(2) by (auto simp: revoke_all_user_tokens_def)
  have only: "\<forall>x\<in>set (app_users s). row_id x = i \<longrightarrow> x = u" if "user_ids s"
    using that distinct_key_eq [of row_id "app_users s" _ u] row(1,2) by (auto simp: user_ids_def keyed_def)
  have s': "s' = update_user i (\<lambda>_. touch_user c actor u3) ?s3" using run(4) row(2) \<open>u' = u\<close> by simp
  have "versions_grow s s2" unfolding v3(2) revoke_all_user_tokens_def
    by (rule versions_grow_trans [OF s1(1) versions_frames(3)])
  then have grow3: "versions_grow s ?s3" by (rule versions_grow_trans [OF _ s3(1)])
  have last: "user_ids s \<Longrightarrow> \<exists>u'\<in>set (app_users s'). row_id u' = i \<and> us_token_version u < us_token_version u'"
    unfolding s' update_user_parts s3(3)
    by (rule update_where_keeps [OF row(1)]) (use ids row(2) in auto)
  have "versions_grow s s'"
  proof -
    have "user_ids s' \<and> (\<forall>x\<in>set (app_users s). \<exists>x'\<in>set (app_users s'). row_id x' = row_id x \<and> us_token_version x \<le> us_token_version x')"
      if ok: "user_ids s"
    proof
      have "user_ids ?s3" using grow3 ok by (simp add: versions_grow_def)
      moreover have "map row_id (update_where (\<lambda>r. row_id r = i) (\<lambda>_. touch_user c actor u3) (app_users s)) = map row_id (app_users s)"
        by (rule map_update_where_mem) (simp add: ids)
      ultimately show "user_ids s'" unfolding s' user_ids_def keyed_def update_user_parts s3(3) by (metis list.set_map)
      show "\<forall>x\<in>set (app_users s). \<exists>x'\<in>set (app_users s'). row_id x' = row_id x \<and> us_token_version x \<le> us_token_version x'"
        unfolding s' update_user_parts s3(3)
      proof
        fix x assume x: "x \<in> set (app_users s)"
        show "\<exists>x'\<in>set (update_where (\<lambda>r. row_id r = i) (\<lambda>_. touch_user c actor u3) (app_users s)).
            row_id x' = row_id x \<and> us_token_version x \<le> us_token_version x'"
          by (rule update_where_keeps [OF x]) (use only [OF ok] x ids row(2) in auto)
      qed
    qed
    then show ?thesis by (simp add: versions_grow_def)
  qed
  moreover have "revokes (snd (revoke_all_user_tokens c i s1)) s'"
    unfolding s' using revokes_trans [OF s3(2) update_user_revokes] v3(2) ids(1) by simp
  ultimately show ?thesis unfolding signs_out_def
    using last only s1(2-4) by (intro conjI impI exI [of _ c] exI [of _ s1]) auto
qed

lemma credential_change_signs_out: "credential_change env i s s' \<Longrightarrow> signs_out i s s'"
  by (induction rule: credential_change.induct)
    (blast intro: set_user_pin_signs_out change_own_password_signs_out reset_user_password_signs_out
      deactivation_signs_out soft_delete_signs_out)+

definition quiet :: "db \<Rightarrow> db \<Rightarrow> bool" where
  \<comment> \<open>users and tokens are left alone\<close>
  "quiet s s' \<longleftrightarrow> app_users s' = app_users s \<and> refresh_tokens s' = refresh_tokens s \<and> uuid_gen s' = uuid_gen s \<and>
     uuid_next s \<le> uuid_next s'"

lemma quiet_refl: "quiet s s" and quiet_trans: "quiet s t \<Longrightarrow> quiet t v \<Longrightarrow> quiet s v"
  by (auto simp: quiet_def)

lemma quiet_fold: "(\<And>x s. quiet s (f x s)) \<Longrightarrow> quiet s (fold f xs s)"
  by (induction xs arbitrary: s) (simp_all add: quiet_refl, meson quiet_trans)

lemma quiet_steps:
  "quiet s (assign_role c u br actor r s)" "quiet s (add_role_permission c us r b p s)"
  "quiet s (restore_role c u actor r s)" "quiet s (s\<lparr>roles := rs\<rparr>)" "quiet s (s\<lparr>user_roles := as\<rparr>)"
  "quiet s (s\<lparr>role_permissions := rps\<rparr>)" "quiet s (s\<lparr>uuid_next := Suc (uuid_next s)\<rparr>)"
  "quiet s (log_audit bb us bo a t i x y s)"
  by (auto simp: quiet_def assign_role_def add_role_permission_def restore_role_def fresh_uuid_def Let_def log_audit_def
      split: option.split)

lemma quiet_replace_permissions:
  "replace_permissions_of_role c r keys user s = Inr (x, s') \<Longrightarrow> quiet s s'"
  unfolding replace_permissions_of_role_def
  by (auto simp: bind_res_Inr Let_def split: if_splits
      intro: quiet_trans [OF quiet_steps(6)] quiet_fold quiet_steps(2))

lemma quiet_replace_assignments: "quiet s (replace_assignments c u given actor s)"
  unfolding replace_assignments_def Let_def by (rule quiet_trans [OF quiet_steps(5) quiet_fold]) (rule quiet_steps)

lemma quiet_effects: "quiet s s' \<Longrightarrow> versions_grow s s'" "quiet s s' \<Longrightarrow> safe_step s s'"
  by (auto simp: quiet_def intro!: versions_same revokes_safe revokes_same)

lemma role_operations_quiet:
  "create_role c b crr user s p = Inr (r, s', p') \<Longrightarrow> quiet s s'"
  "update_role c i b urr user s p = Inr (s', p') \<Longrightarrow> quiet s s'"
  "delete_role c i b user s p = Inr (s', p') \<Longrightarrow> quiet s s'"
  "replace_role_permissions c i b keys user s p = Inr (s', p') \<Longrightarrow> quiet s s'"
proof -
  show "create_role c b crr user s p = Inr (r, s', p') \<Longrightarrow> quiet s s'"
    unfolding create_role_def
    by (auto simp: bind_res_Inr Let_def fresh_uuid_def split: if_splits dest!: quiet_replace_permissions)
      (auto simp: quiet_def log_audit_def)
  show "update_role c i b urr user s p = Inr (s', p') \<Longrightarrow> quiet s s'"
    by (drule update_role_run) (auto simp: quiet_def log_audit_def)
  show "delete_role c i b user s p = Inr (s', p') \<Longrightarrow> quiet s s'"
    by (auto simp: delete_role_def bind_res_Inr Let_def quiet_def log_audit_def split: if_splits)
  show "replace_role_permissions c i b keys user s p = Inr (s', p') \<Longrightarrow> quiet s s'"
    unfolding replace_role_permissions_def
    by (auto simp: bind_res_Inr Let_def split: prod.splits dest!: quiet_replace_permissions)
      (auto simp: quiet_def log_audit_def)
qed

section \<open>Runs\<close>

lemma signs_out_safe: "signs_out i s s' \<Longrightarrow> safe_step s s'"
proof -
  assume "signs_out i s s'"
  then obtain c t where t: "refresh_tokens t = refresh_tokens s" "uuid_gen t = uuid_gen s" "uuid_next t = uuid_next s"
    "revokes (snd (revoke_all_user_tokens c i t)) s'" unfolding signs_out_def by blast
  have "revokes s t" by (rule revokes_same) (simp_all add: t)
  also have "revokes t (snd (revoke_all_user_tokens c i t))" by (simp add: revoke_all_user_tokens_def revoke_where_revokes)
  also note t(4)
  finally show ?thesis by (rule revokes_safe)
qed

lemma moved:
  assumes "move_assignments user br s = Inr s'"
  shows "versions_grow s s'" "revokes s s'" "app_users s' = app_users s"
proof -
  show "versions_grow s s'" by (rule versions_frames(4) [OF assms])
  show "revokes s s'" by (rule revokes_same) (use assms in \<open>auto simp: move_assignments_def Let_def split: if_splits\<close>)
  show "app_users s' = app_users s" using assms by (auto simp: move_assignments_def Let_def split: if_splits)
qed

lemma revoked_all:
  "versions_grow s (snd (revoke_all_user_tokens c i s))" "revokes s (snd (revoke_all_user_tokens c i s))"
  "app_users (snd (revoke_all_user_tokens c i s)) = app_users s"
  by (simp_all add: revoke_all_user_tokens_def versions_frames(3) revoke_where_revokes)

lemma update_tenant_user_effects:
  assumes "update_tenant_user c i b data actor s = Inr s'" shows "versions_grow s s'" "safe_step s s'"
proof -
  from assms obtain u u2 s1 u3 s2 where run: "get_user_by_id s i b = Inr u"
    "change_branch (uur_branch_id data) b (u\<lparr>us_full_name := or_else (uur_full_name data) (us_full_name u)\<rparr>) s = Inr (u2, s1)"
    "set_active c (uur_is_active data) u2 s1 = (u3, s2)"
    "s' = update_user (row_id u) (\<lambda>_. touch_user c actor u3) (log_profile_change b actor u u3 s2)"
    by (rule update_tenant_user_run)
  note row = get_user_row [OF run(1)]
  note br = change_branch_Inr [OF run(2)]
  have s1: "versions_grow s s1" "revokes s s1" "app_users s1 = app_users s"
    using br(4) versions_refl revokes_refl moved by blast+
  have s2: "versions_grow s1 s2" "revokes s1 s2" "app_users s2 = app_users s"
    using set_active_eq(3) [OF run(3)] versions_refl revokes_refl revoked_all s1(3) by metis+
  let ?s3 = "log_profile_change b actor u u3 s2"
  have s3: "versions_grow s2 ?s3" "revokes s2 ?s3" "app_users ?s3 = app_users s"
    using log_profile_change_eq [of b actor u u3 s2] versions_refl versions_frames(1) revokes_refl revokes_audit s2(3)
      app_users_frames(1) by metis+
  have grow: "versions_grow s ?s3" using versions_grow_trans [OF s1(1) versions_grow_trans [OF s2(1) s3(1)]] .
  have u3: "row_id u3 = row_id u" "us_token_version u \<le> us_token_version u3"
    using br(1,2) set_active_eq(1,2) [OF run(3)] by (auto simp: user_key_def)
  have "\<forall>x\<in>set (app_users s). row_id x = row_id u \<longrightarrow> us_token_version x \<le> us_token_version (touch_user c actor u3)"
    if "user_ids ?s3"
  proof (intro ballI impI)
    fix x assume "x \<in> set (app_users s)" "row_id x = row_id u"
    then have "x = u" using that row(1) distinct_key_eq [of row_id "app_users s" x u] by (simp add: user_ids_def keyed_def s3(3))
    then show "us_token_version x \<le> us_token_version (touch_user c actor u3)" using u3(2) by simp
  qed
  then have mono: "user_ids ?s3 \<Longrightarrow> \<forall>x\<in>set (app_users ?s3). row_id x = row_id u \<longrightarrow>
      us_token_version x \<le> us_token_version (touch_user c actor u3)" unfolding s3(3) by blast
  have "versions_grow ?s3 s'"
    unfolding run(4) by (rule versions_update [OF _ mono]) (simp_all add: u3(1))
  then show "versions_grow s s'" using grow versions_grow_trans by blast
  show "safe_step s s'"
    unfolding run(4)
    by (rule revokes_safe [OF revokes_trans [OF s1(2) revokes_trans [OF s2(2) revokes_trans [OF s3(2) update_user_revokes]]]])
qed

lemma create_tenant_user_effects:
  assumes "create_tenant_user h c b data actor s p = Inr (u, s', p')" shows "versions_grow s s'" "safe_step s s'"
proof -
  let ?s1 = "s\<lparr>uuid_next := Suc (uuid_next s), app_users := app_users s @ [u]\<rparr>"
  have u: "row_id u = uuid_gen s (uuid_next s)"
    and s': "\<exists>given. s' = fold (assign_role c u (cur_branch_id data) actor) given ?s1"
    using assms unfolding create_tenant_user_def
    by (auto simp: bind_res_Inr Let_def fresh_uuid_def new_user_def split: if_splits)
  have q: "quiet ?s1 s'" using s' by (auto intro: quiet_fold quiet_steps(1))
  have "versions_grow s ?s1"
  proof -
    have f: "fresh_uuid s = (row_id u, s\<lparr>uuid_next := Suc (uuid_next s)\<rparr>)" by (simp add: fresh_uuid_def u)
    have "user_ids ?s1" if "user_ids s"
    proof -
      have "keyed (app_users s @ [u]) (s\<lparr>uuid_next := Suc (uuid_next s)\<rparr>)"
        using that by (intro keyed_snoc [OF _ _ f]) (simp_all add: user_ids_def)
      then show ?thesis using that by (simp add: user_ids_def keyed_def drawn_def)
    qed
    then show ?thesis by (auto simp: versions_grow_def)
  qed
  then show "versions_grow s s'" using quiet_effects(1) [OF q] versions_grow_trans by blast
  have "safe_step s ?s1" by (intro revokes_safe revokes_same) simp_all
  then show "safe_step s s'" using quiet_effects(2) [OF q] safe_step_trans by blast
qed

lemma replace_user_roles_effects:
  assumes "replace_user_roles c i b role_ids actor s p = Inr (s', p')" shows "versions_grow s s'" "safe_step s s'"
proof -
  obtain u given x y where s': "s' = log_audit b (Some actor) (us_default_branch_id u) AuditAction_update ''user_roles'' (row_id u) x y
       (update_user (row_id u) (touch_user c actor) (replace_assignments c u given actor s))"
    using replace_user_roles_run [OF assms] by metis
  note q = quiet_effects [OF quiet_replace_assignments [of s c u given actor]]
  have "versions_grow (replace_assignments c u given actor s) s'"
    unfolding s' by (rule versions_grow_trans [OF versions_update versions_frames(1)]) simp_all
  then show "versions_grow s s'" by (rule versions_grow_trans [OF q(1)])
  have "safe_step (replace_assignments c u given actor s) s'"
    unfolding s' by (rule revokes_safe [OF revokes_trans [OF update_user_revokes revokes_audit]])
  then show "safe_step s s'" by (rule safe_step_trans [OF q(2)])
qed

lemma staff_step_effects: "staff_step env s s' \<Longrightarrow> versions_grow s s' \<and> safe_step s s'"
proof (induction rule: staff_step.induct)
  case (8 h c i b pin ru p1 p2 s s')
  show ?case using set_user_pin_signs_out [OF 8] signs_out_safe unfolding signs_out_def by blast
next
  case (9 h c u p1 p2 s s')
  show ?case using change_own_password_signs_out [OF 9] signs_out_safe unfolding signs_out_def by blast
next
  case (10 h c i b pw ru s s')
  show ?case using reset_user_password_signs_out [OF 10] signs_out_safe unfolding signs_out_def by blast
next
  case (11 c i b user s p s' p')
  show ?case using soft_delete_signs_out [OF 11] signs_out_safe unfolding signs_out_def by blast
qed (blast intro: quiet_effects role_operations_quiet update_tenant_user_effects create_tenant_user_effects
    replace_user_roles_effects)+

section \<open>Sessions and staff together\<close>

inductive account_step :: "auth_env \<Rightarrow> db \<Rightarrow> db \<Rightarrow> bool" for env where
  \<comment> \<open>one request: of a session, on the staff, or one that leaves users and tokens alone\<close>
  By_password: "account_step env s (snd (login_with_password env c phone password ip_address user_agent slug s))"
| By_pin: "account_step env s (snd (login_with_pin env c pin_slug user_id pin_code ip_address user_agent s))"
| Refreshed: "account_step env s (snd (refresh_tokens_for env c token ip_address user_agent s))"
| Logged_out: "logout_with_refresh_token env c u token ip_address user_agent s = Inr s' \<Longrightarrow> account_step env s s'"
| On_staff: "staff_step env s s' \<Longrightarrow> account_step env s s'"
| Elsewhere: "quiet s s' \<Longrightarrow> account_step env s s'"

lemma account_step_safe: "account_step env s s' \<Longrightarrow> jwt_ok env \<Longrightarrow> safe_step s s'"
  by (induction rule: account_step.induct)
    (blast intro: login_safe refresh_safe revokes_safe logout_revokes quiet_effects staff_step_effects [THEN conjunct2])+

lemma issue_refresh_token_ids:
  assumes "issue_refresh_token env c u ip_address user_agent family s = Inr (token, s')"
  shows "uuid_gen s' = uuid_gen s" "uuid_next s \<le> uuid_next s'"
  using assms
  by (auto simp: issue_refresh_token_def handler_simps save_refresh_from_token_def save_refresh_token_def
      fresh_uuid_def Let_def split: option.splits prod.splits if_splits)

lemma logged_in_version [simp]: "us_token_version (logged_in c u) = us_token_version u"
  by (simp add: logged_in_def)

lemma finish_login_versions:
  assumes "finish_login env c u ip_address user_agent pin s = Inr (x, s')" shows "versions_grow s s'"
proof -
  obtain token t extra where t: "issue_refresh_token env c (logged_in c u) ip_address user_agent None
      (update_user (row_id u) (logged_in c) s) = Inr (token, t)"
    and s': "s' = log_auth_event (business_id u) (Some (row_id u)) ''login_success'' (row_id u) ip_address
      user_agent extra None (purge_stale_tokens c (row_id u) t)"
    using assms unfolding finish_login_def Let_def handler_simps by auto
  note grown = versions_update [of s "row_id u" "logged_in c"]
  have "versions_grow s (update_user (row_id u) (logged_in c) s)" by (rule grown) simp_all
  also have "versions_grow (update_user (row_id u) (logged_in c) s) t"
    by (rule versions_same) (simp_all add: issue_refresh_token_frame [OF t] issue_refresh_token_ids [OF t])
  also have "versions_grow t (purge_stale_tokens c (row_id u) t)"
    by (rule versions_same) (simp_all add: purge_stale_tokens_def)
  also have "versions_grow (purge_stale_tokens c (row_id u) t) s'" unfolding s' by (rule versions_frames)
  finally show ?thesis .
qed

lemma record_failed_login_versions: "versions_grow s (snd (record_failed_login env c u ip_address user_agent pin s))"
proof (rule versions_same)
  have same: "map (\<lambda>u. (row_id u, us_token_version u)) (update_where P f xs) = map (\<lambda>u. (row_id u, us_token_version u)) xs"
    if "\<And>u. (row_id (f u), us_token_version (f u)) = (row_id u, us_token_version u)" for P f xs
    by (rule map_update_where_mem) (simp add: that)
  show "map (\<lambda>u. (row_id u, us_token_version u))
      (app_users (snd (record_failed_login env c u ip_address user_agent pin s))) =
    map (\<lambda>u. (row_id u, us_token_version u)) (app_users s)"
    by (auto simp: record_failed_login_def Let_def update_user_def log_auth_event_def same split: list.splits)
qed (auto simp: record_failed_login_def Let_def update_user_def log_auth_event_def split: list.splits)

lemma check_secret_versions:
  "versions_grow s (snd (check_secret env c u plain hashed ip_address user_agent pin s))"
proof (cases "ae_verify env plain hashed")
  case True
  then show ?thesis
    using finish_login_versions [of env c u ip_address user_agent pin s] versions_refl
    by (cases "finish_login env c u ip_address user_agent pin s") (auto simp: check_secret_def rollback_def)
next
  case False
  then show ?thesis using record_failed_login_versions [of s env c u ip_address user_agent pin]
    by (auto simp: check_secret_def split: prod.splits)
qed

lemma login_versions:
  "versions_grow s (snd (login_with_password env c phone password ip_address user_agent slug s))"
  "versions_grow s (snd (login_with_pin env c pin_slug user_id pin_code ip_address user_agent s))"
  using check_secret_versions versions_refl
  by (auto simp: login_with_password_def login_with_pin_def split: sum.splits)

definition users_kept :: "db \<Rightarrow> db \<Rightarrow> bool" where
  "users_kept s s' \<longleftrightarrow> app_users s' = app_users s \<and> uuid_gen s' = uuid_gen s \<and> uuid_next s \<le> uuid_next s'"

lemma users_kept_refl [simp]: "users_kept s s" and users_kept_trans: "users_kept s t \<Longrightarrow> users_kept t v \<Longrightarrow> users_kept s v"
  by (auto simp: users_kept_def)

lemma users_kept_steps [simp]:
  "users_kept s (log_auth_event b u ev r ip ua z br s)" "users_kept s (snd (revoke_where c P s))"
  by (auto simp: users_kept_def log_auth_event_def Let_def revoke_where_def)

lemma users_kept_family [simp]: "users_kept s (snd (revoke_token_family c user fam jti s))"
  by (auto simp: revoke_token_family_def split: option.splits)

lemma users_kept_reject: "users_kept s (snd (reject_refresh c user tok revoke event s))"
  unfolding reject_refresh_def Let_def
  by (auto split: option.splits intro: users_kept_trans [OF users_kept_family users_kept_steps(1)])

lemma users_kept_reuse: "users_kept s (snd (answer_reuse env c stored fresh s))"
  using users_kept_reject [of s] by (auto simp: answer_reuse_def split: sum.splits option.splits prod.splits) (metis snd_conv)+

lemma rotate_users_kept: "rotate env c stored ip_address user_agent u s = Inr (x, s') \<Longrightarrow> users_kept s s'"
  unfolding rotate_def handler_simps
  by (auto simp: users_kept_def log_auth_event_def Let_def issue_refresh_token_frame issue_refresh_token_ids)

lemma revoke_refresh_users_kept: "revoke_refresh_token c jti s = (won, s1) \<Longrightarrow> users_kept s s1"
  by (auto simp: revoke_refresh_token_def users_kept_def revoke_where_def Let_def split: prod.splits)

lemma consume_users_kept: "users_kept s (snd (consume_refresh_token env c stored ip_address user_agent s))"
proof -
  obtain won s1 where w: "revoke_refresh_token c (st_jti stored) s = (won, s1)" by fastforce
  note kept = revoke_refresh_users_kept [OF w]
  have undone: "users_kept s (snd (rollback s (rotate env c stored ip_address user_agent u s1)))" for u
    using users_kept_trans [OF kept rotate_users_kept]
    by (cases "rotate env c stored ip_address user_agent u s1") (auto simp: rollback_def)
  have "users_kept s (snd (answer_reuse env c stored fresh s1))"
    "users_kept s (snd (reject_refresh c user tok revoke event s1))" for fresh user tok revoke event
    by (blast intro: users_kept_trans [OF kept] users_kept_reuse users_kept_reject)+
  then show ?thesis
    unfolding consume_refresh_token_def w Let_def case_prod_beta
    using undone by (auto split: option.splits sum.splits)
qed

lemma refresh_versions: "versions_grow s (snd (refresh_tokens_for env c token ip_address user_agent s))"
proof -
  have "users_kept s (snd (refresh_tokens_for env c token ip_address user_agent s))"
    unfolding refresh_tokens_for_def case_prod_beta Let_def
    by (auto split: sum.splits intro: users_kept_reuse users_kept_reject consume_users_kept)
  then show ?thesis by (intro versions_same) (simp_all add: users_kept_def)
qed

lemma logout_versions:
  assumes "logout_with_refresh_token env c u token ip_address user_agent s = Inr s'" shows "versions_grow s s'"
proof -
  have "users_kept s s'"
    using assms
    by (auto simp: logout_with_refresh_token_def Let_def
        intro: users_kept_trans [OF users_kept_family users_kept_steps(1)] split: option.splits if_splits)
  then show ?thesis by (intro versions_same) (simp_all add: users_kept_def)
qed

lemma account_step_versions: "account_step env s s' \<Longrightarrow> versions_grow s s'"
  by (induction rule: account_step.induct)
    (blast intro: login_versions refresh_versions logout_versions quiet_effects staff_step_effects [THEN conjunct1])+

lemma account_steps:
  assumes "(account_step env)\<^sup>*\<^sup>* s t" "jwt_ok env" shows "versions_grow s t \<and> safe_step s t"
  using assms(1)
proof (induction rule: rtranclp_induct)
  case base show ?case by (simp add: safe_step_def versions_refl)
next
  case (step t u)
  show ?case
    using step.IH account_step_versions [OF step.hyps(2)] account_step_safe [OF step.hyps(2) assms(2)]
    by (blast intro: versions_grow_trans safe_step_trans)
qed

lemma revoked_user_closed:
  assumes "sessions_ok s" "r \<in> set (refresh_tokens s)" "rk_family_id r = Some f" "rk_user_id r = i"
  shows "closed_session f (snd (revoke_all_user_tokens c i s))"
proof -
  have u: "rk_user_id x = i" if "x \<in> set (refresh_tokens s)" "rk_family_id x = Some f" for x
    using assms that unfolding sessions_ok_def by (metis option.distinct(1))
  have "f \<in> drawn s" using assms(1-3) unfolding sessions_ok_def by blast
  moreover have "live_tokens f (snd (revoke_all_user_tokens c i s)) = []"
    using u by (auto simp: live_tokens_def revoke_all_user_tokens_def revoke_where_def filter_empty_conv update_where_mem)
  ultimately show ?thesis by (simp add: closed_session_def revoke_all_user_tokens_def revoke_where_def drawn_def)
qed

lemma signs_out_closes:
  assumes "signs_out i s s'" "sessions_ok s" "r \<in> set (refresh_tokens s)" "rk_user_id r = i" "rk_family_id r = Some f"
  shows "closed_session f s'"
proof -
  obtain c t where t: "refresh_tokens t = refresh_tokens s" "uuid_gen t = uuid_gen s" "uuid_next t = uuid_next s"
    "revokes (snd (revoke_all_user_tokens c i t)) s'" using assms(1) unfolding signs_out_def by blast
  have "sessions_ok t" using assms(2) unfolding sessions_ok_def live_tokens_def drawn_def t(1-3) .
  then show ?thesis using revokes_closed [OF t(4) revoked_user_closed [of t r f i c]] assms(3-5) t(1) by simp
qed

lemma stale_version_refused:
  assumes "u \<in> set (app_users s)" "row_id u = i" "distinct (map row_id (app_users s))" "tv < us_token_version u"
    "decode token = Some (i, tv)"
  shows "\<exists>e. fst (get_current_user decode g t m rq token s p) = Inl e"
proof -
  have "find (\<lambda>v. row_id v = i) (app_users s) = Some u" using distinct_find [OF assms(3,1,2)] .
  moreover have "\<exists>e. check_user s g t rq tv u = Inl e"
    using assms(4) by (auto simp: check_user_def split: option.splits)
  ultimately show ?thesis using assms(5) by (auto simp: get_current_user_def split: prod.splits)
qed

text \<open>
  C4. A change of a user's password or PIN, a deactivation or a deletion ends all sessions of the user for good:
  whatever requests follow, no refresh token of a session the user had is ever accepted again, and no access token
  issued up to then is.
\<close>

theorem credential_change_ends_sessions:
  assumes "jwt_ok env" "sessions_ok s" "user_ids s" "credential_change env i s s1" "(account_step env)\<^sup>*\<^sup>* s1 t"
    and "r \<in> set (refresh_tokens s)" "rk_user_id r = i" "rk_family_id r = Some f"
    and "u \<in> set (app_users s)" "row_id u = i" "tv \<le> us_token_version u"
  shows "(presented_token env c token t = Inr stored \<and> st_family_id stored = Some f \<longrightarrow>
        (\<exists>e. fst (refresh_tokens_for env c token ip_address user_agent t) = Inl e)) \<and>
      (decode access = Some (i, tv) \<longrightarrow> (\<exists>e. fst (get_current_user decode g clock_t m rq access t p) = Inl e))"
proof -
  have out: "signs_out i s s1" by (rule credential_change_signs_out [OF assms(4)])
  note run = account_steps [OF assms(5,1)]
  have "closed_session f s1" by (rule signs_out_closes [OF out assms(2,6-8)])
  moreover have "sessions_ok s1" using signs_out_safe [OF out] assms(2) by (simp add: safe_step_def)
  ultimately have closed: "closed_session f t" using run by (simp add: safe_step_def)
  obtain v where v: "v \<in> set (app_users s1)" "row_id v = i" "us_token_version u < us_token_version v"
    using out assms(3,9,10) unfolding signs_out_def by blast
  have ids: "user_ids s1" using out assms(3) by (simp add: signs_out_def versions_grow_def)
  then obtain w where w: "w \<in> set (app_users t)" "row_id w = row_id v" "us_token_version v \<le> us_token_version w"
    using run v(1) unfolding versions_grow_def by blast
  have "distinct (map row_id (app_users t))" using run ids by (simp add: versions_grow_def user_ids_def keyed_def)
  moreover have "row_id w = i" "tv < us_token_version w" using w(2,3) v(2,3) assms(11) by simp_all
  ultimately show ?thesis using closed_session_refuses [OF closed] stale_version_refused [OF w(1)] by blast
qed

definition sample_admin :: app_user where
  "sample_admin = sample_user\<lparr>row_id := 8\<rparr>"

lemma sample_target: "get_user_by_id sample_session 9 1 = Inr sample_user"
  by (simp add: get_user_by_id_def require_one_def bind_res_def scalar_one_or_none_def sample_session_def
      sample_access_def sample_user_def live_def)

lemma sample_ids: "row_id sample_user = 9" "row_id sample_admin = 8" "us_token_version sample_user = 2"
  by (simp_all add: sample_user_def sample_admin_def)

lemma sample_reset:
  obtains s1 where "reset_user_password id (seconds 60) 9 1 ''new'' sample_admin sample_session = Inr s1"
    "refresh_tokens s1 = [sample_row ''j1'' (Some (2 * 10 ^ 6)) 0, sample_row ''j2'' (Some (60 * 10 ^ 6)) (2 * 10 ^ 6)]"
proof -
  have not_owner: "\<not> is_owner sample_session sample_user"
    by (simp add: is_owner_def user_roles_of_def sample_session_def sample_access_def sample_user_def role_of_def
        owner_role_def lower_char_def)
  obtain h ev where "reset_user_password id (seconds 60) 9 1 ''new'' sample_admin sample_session =
      Inr (log_auth_event 1 (Some 8) ''password_reset'' 9 None None ev (us_default_branch_id sample_user)
        (snd (revoke_all_user_tokens (seconds 60) 9 (update_user 9 h sample_session))))"
    by (simp add: reset_user_password_def sample_target [unfolded One_nat_def] not_owner sample_ids bind_res_def Let_def)
  then show thesis
    by (rule that) (simp add: log_auth_event_def Let_def seconds_def revoke_all_user_tokens_def revoke_where_def
        update_user_def sample_session_def sample_row_def)
qed

lemma credential_change_ends_sessions_witness:
  "\<exists>s1 e e'. reset_user_password id (seconds 60) 9 1 ''new'' sample_admin sample_session = Inr s1 \<and>
     fst (refresh_tokens_for sample_env (seconds 61) (sample_token ''j2'') None None s1) = Inl e \<and>
     fst (get_current_user sample_decode 3 4000 0 sample_request ''t'' s1 \<lparr>pc_role_version = 0, pc_store = []\<rparr>) = Inl e'"
proof -
  obtain s1 where s1: "reset_user_password id (seconds 60) 9 1 ''new'' sample_admin sample_session = Inr s1"
    "refresh_tokens s1 = [sample_row ''j1'' (Some (2 * 10 ^ 6)) 0, sample_row ''j2'' (Some (60 * 10 ^ 6)) (2 * 10 ^ 6)]"
    using sample_reset .
  let ?dead = "sample_row ''j2'' (Some (60 * 10 ^ 6)) (2 * 10 ^ 6)" and ?live = "sample_row ''j2'' None (2 * 10 ^ 6)"
  have token: "presented_token sample_env (seconds 61) (sample_token ''j2'') s1 = Inr (stored_of ?dead)"
    by (simp add: presented_token_def sample_token_def create_refresh_token_def decode_refresh_token_def
        Let_def sample_env_def sample_read_encode seconds_def second_us_def day_us_def build_token_payload_def
        get_refresh_token_def s1(2) sample_row_def stored_of_def first_row_def sample_user_def)
  have "uuid_gen sample_session = id" "uuid_next sample_session = 100"
    by (simp_all add: sample_session_def sample_access_def empty_db_def)
  then have ids: "user_ids sample_session"
    by (simp add: user_ids_def keyed_def drawn_def) (simp add: sample_session_def sample_access_def sample_ids)
  have row: "?live \<in> set (refresh_tokens sample_session)" "rk_user_id ?live = 9" "rk_family_id ?live = Some 70"
    "sample_user \<in> set (app_users sample_session)" "row_id sample_user = 9" "2 \<le> us_token_version sample_user"
    "st_family_id (stored_of ?dead) = Some 70" "sample_decode ''t'' = Some (9, 2)"
    by (simp_all add: sample_session_def sample_row_def sample_access_def sample_ids stored_of_def sample_decode_def)
  have "credential_change sample_env 9 sample_session s1" by (rule Password_reset [OF s1(1)])
  from credential_change_ends_sessions [OF sample_jwt_ok sample_sessions_ok ids this rtranclp.rtrancl_refl row(1-6),
      where c = "seconds 61" and token = "sample_token ''j2''" and stored = "stored_of ?dead" and ip_address = None
        and user_agent = None and decode = sample_decode and access = "''t''" and g = 3 and clock_t = 4000 and m = 0
        and rq = sample_request and p = "\<lparr>pc_role_version = 0, pc_store = []\<rparr>"]
  show ?thesis using s1(1) token row(7,8) by blast
qed

end
