(* ===== verification/Idempotency.thy ===== *)
theory Idempotency
  imports Tables
begin

text \<open>
  Idempotency keys (\<open>app/core/idempotency.py\<close>): requests that carry the same key run their handler
  once. Each request is a process whose bookkeeping transactions interleave with those of the others;
  the handler itself is an event of the environment, which returns or fails. The state is the table
  \<open>idempotency_keys\<close>, the processes and, as a ghost, the runs of handlers that took effect. Shown
  here: as long as a handler answers within two minutes of its claim and its answer is stored, it
  takes effect once in 24 hours for a key of a business, and a replayed answer is the answer of that
  run; without either it can take effect twice. The wait of a request is counted in exact
  fifths of a second (the code adds the float \<open>0.2\<close>).
\<close>

section \<open>The table of keys\<close>

record idempotency_key =
  ik_business_id :: uuid
  ik_user_id :: uuid
  ik_key :: string
  ik_method :: string
  ik_path :: string
  ik_request_hash :: string
  ik_response_status :: "nat option"
  ik_response_body :: json
  ik_created_at :: datetime
  ik_expires_at :: datetime

definition MAX_KEY_LENGTH :: nat where
  "MAX_KEY_LENGTH = 128"

definition RETENTION :: int where
  "RETENTION = 24 * 3600 * 1000000"

definition STALE_IN_FLIGHT :: int where
  "STALE_IN_FLIGHT = 2 * 60 * 1000000"

definition WAIT_STEP :: rat where
  "WAIT_STEP = 1 / 5"

definition WAIT_TOTAL :: rat where
  "WAIT_TOTAL = 15"

record idem_request =
  ir_business_id :: uuid
  ir_user_id :: uuid
  ir_key :: string
  ir_method :: string
  ir_path :: string
  ir_fingerprint :: string  \<comment> \<open>\<open>request_fingerprint\<close>: a SHA-256 of method, path and body\<close>
  ir_success_status :: nat

definition read_key :: "string option \<Rightarrow> string option res" where
  \<comment> \<open>the header: without one the handler runs with no bookkeeping\<close>
  "read_key header =
     (case header of None \<Rightarrow> Inr None
      | Some h \<Rightarrow>
          let key = strip_ws h
          in if key = [] \<or> MAX_KEY_LENGTH < length key
             then Inl (HTTPException 400 ''Idempotency-Key must be 1-{} characters'' [ADec (of_nat MAX_KEY_LENGTH)])
             else Inr (Some key))"

definition for_key :: "uuid \<Rightarrow> string \<Rightarrow> idempotency_key \<Rightarrow> bool" where
  "for_key bid key r \<longleftrightarrow> ik_business_id r = bid \<and> ik_key r = key"

definition claim ::
  "datetime \<Rightarrow> idem_request \<Rightarrow> idempotency_key list \<Rightarrow> (bool \<times> idempotency_key option) \<times> idempotency_key list" where
  \<comment> \<open>\<open>_claim\<close>: purge, \<open>INSERT ... ON CONFLICT DO NOTHING\<close>, and the row that is in the way\<close>
  "claim t rq rows =
     (let rows = filter (\<lambda>r. \<not> (ik_business_id r = ir_business_id rq \<and> ik_expires_at r < t)) rows
      in case filter (for_key (ir_business_id rq) (ir_key rq)) rows of
           [] \<Rightarrow> ((True, None), rows @
             [\<lparr>ik_business_id = ir_business_id rq, ik_user_id = ir_user_id rq, ik_key = ir_key rq,
               ik_method = ir_method rq, ik_path = ir_path rq, ik_request_hash = ir_fingerprint rq,
               ik_response_status = None, ik_response_body = JNull, ik_created_at = t,
               ik_expires_at = t + RETENTION\<rparr>])
         | r # _ \<Rightarrow> ((False, Some r), rows))"

definition store :: "uuid \<Rightarrow> string \<Rightarrow> nat \<Rightarrow> json \<Rightarrow> idempotency_key list \<Rightarrow> idempotency_key list" where
  "store bid key status body rows =
     update_where (for_key bid key) (\<lambda>r. r\<lparr>ik_response_status := Some status, ik_response_body := body\<rparr>) rows"

definition release :: "uuid \<Rightarrow> string \<Rightarrow> idempotency_key list \<Rightarrow> idempotency_key list" where
  "release bid key rows = filter (\<lambda>r. \<not> (for_key bid key r \<and> ik_response_status r = None)) rows"

definition release_stale :: "datetime \<Rightarrow> uuid \<Rightarrow> string \<Rightarrow> idempotency_key list \<Rightarrow> idempotency_key list" where
  "release_stale t bid key rows =
     filter (\<lambda>r. \<not> (for_key bid key r \<and> ik_response_status r = None \<and> ik_created_at r < t - STALE_IN_FLIGHT)) rows"

section \<open>Requests as processes\<close>

datatype answer =
    Replay nat json  \<comment> \<open>the stored response, marked \<open>Idempotent-Replay\<close>\<close>
  | Handled json  \<comment> \<open>the result of the handler\<close>
  | Refused http_error
  | Failed http_error  \<comment> \<open>the error the handler raised\<close>

datatype phase =
    Claiming rat  \<comment> \<open>in the loop, having waited this many seconds\<close>
  | Running datetime  \<comment> \<open>the handler runs; the key was claimed at this time\<close>
  | Storing datetime json
  | Releasing datetime answer
  | Answered answer
  | Died

definition conflict :: "string \<Rightarrow> answer" where
  "conflict d = Refused (HTTPException 409 d [])"

definition turn :: "datetime \<Rightarrow> idem_request \<Rightarrow> rat \<Rightarrow> idempotency_key list \<Rightarrow> phase \<times> idempotency_key list" where
  \<comment> \<open>one turn of the loop of \<open>run_idempotent\<close>\<close>
  "turn t rq waited rows =
     (case claim t rq rows of
        ((True, _), rows) \<Rightarrow> (Running t, rows)
      | ((False, None), rows) \<Rightarrow> (Claiming waited, rows)
      | ((False, Some r), rows) \<Rightarrow>
          if ik_request_hash r \<noteq> ir_fingerprint rq
          then (Answered (conflict (''Idempotency-Key was already used with a different request; '' @
                  ''send a new key for a new request'')), rows)
          else (case ik_response_status r of
            Some status \<Rightarrow> (Answered (Replay status (ik_response_body r)), rows)
          | None \<Rightarrow>
              if STALE_IN_FLIGHT < t - ik_created_at r
              then (Claiming waited, release_stale t (ir_business_id rq) (ir_key rq) rows)
              else if WAIT_TOTAL \<le> waited
              then (Answered (conflict ''A request with this Idempotency-Key is still being processed''), rows)
              else (Claiming (waited + WAIT_STEP), rows)))"

definition bookkeeping :: "datetime \<Rightarrow> idem_request \<Rightarrow> phase \<Rightarrow> idempotency_key list \<Rightarrow> phase \<times> idempotency_key list" where
  \<comment> \<open>the next transaction of a request on the table of keys\<close>
  "bookkeeping t rq ph rows =
     (case ph of
        Claiming waited \<Rightarrow> turn t rq waited rows
      | Storing c body \<Rightarrow> (Answered (Handled body), store (ir_business_id rq) (ir_key rq) (ir_success_status rq) body rows)
      | Releasing c a \<Rightarrow> (Answered a, release (ir_business_id rq) (ir_key rq) rows)
      | _ \<Rightarrow> (ph, rows))"

record effect =
  \<comment> \<open>a run of a handler that took effect\<close>
  ef_business_id :: uuid
  ef_key :: string
  ef_fingerprint :: string
  ef_claimed_at :: datetime
  ef_body :: json

record system =
  sy_now :: datetime
  sy_rows :: "idempotency_key list"
  sy_procs :: "(idem_request \<times> phase) list"
  sy_effects :: "effect list"

datatype event =
    Tick int  \<comment> \<open>microseconds pass\<close>
  | Arrive idem_request
  | Act nat  \<comment> \<open>a process does its next bookkeeping transaction\<close>
  | Returns nat json  \<comment> \<open>the handler of a process commits and returns\<close>
  | Raises nat http_error
  | Unserialised nat  \<comment> \<open>the result of a handler cannot be serialised or stored\<close>
  | Die nat  \<comment> \<open>the process is killed while its handler runs, or before the answer is stored\<close>

definition set_phase :: "nat \<Rightarrow> phase \<Rightarrow> system \<Rightarrow> system" where
  "set_phase i ph y = y\<lparr>sy_procs := (sy_procs y)[i := (fst (sy_procs y ! i), ph)]\<rparr>"

definition phase_of :: "system \<Rightarrow> nat \<Rightarrow> phase" where
  "phase_of y i = (if i < length (sy_procs y) then snd (sy_procs y ! i) else Died)"

fun happen :: "event \<Rightarrow> system \<Rightarrow> system" where
  "happen (Tick d) y = y\<lparr>sy_now := sy_now y + max 0 d\<rparr>"
| "happen (Arrive rq) y = y\<lparr>sy_procs := sy_procs y @ [(rq, Claiming 0)]\<rparr>"
| "happen (Act i) y =
     (if i < length (sy_procs y)
      then let (ph, rows) = bookkeeping (sy_now y) (fst (sy_procs y ! i)) (phase_of y i) (sy_rows y)
           in set_phase i ph (y\<lparr>sy_rows := rows\<rparr>)
      else y)"
| "happen (Returns i body) y =
     (case phase_of y i of
        Running c \<Rightarrow>
          let rq = fst (sy_procs y ! i)
          in set_phase i (Storing c body) (y\<lparr>sy_effects := sy_effects y @
               [\<lparr>ef_business_id = ir_business_id rq, ef_key = ir_key rq, ef_fingerprint = ir_fingerprint rq,
                 ef_claimed_at = c, ef_body = body\<rparr>]\<rparr>)
      | _ \<Rightarrow> y)"
| "happen (Raises i e) y =
     (case phase_of y i of Running c \<Rightarrow> set_phase i (Releasing c (Failed e)) y | _ \<Rightarrow> y)"
| "happen (Unserialised i) y =
     (case phase_of y i of Storing c body \<Rightarrow> set_phase i (Releasing c (Handled body)) y | _ \<Rightarrow> y)"
| "happen (Die i) y =
     (case phase_of y i of
        Running c \<Rightarrow> set_phase i Died y
      | Storing c body \<Rightarrow> set_phase i Died y
      | _ \<Rightarrow> y)"

definition start :: "datetime \<Rightarrow> system" where
  "start t = \<lparr>sy_now = t, sy_rows = [], sy_procs = [], sy_effects = []\<rparr>"


section \<open>Runs in time\<close>

fun prompt :: "event \<Rightarrow> system \<Rightarrow> bool" where
  \<comment> \<open>a handler answers, and its answer is stored, before its claim counts as stale\<close>
  "prompt (Tick d) y \<longleftrightarrow> (\<forall>p\<in>set (sy_procs y). case snd p of
       Running c \<Rightarrow> sy_now y + max 0 d \<le> c + STALE_IN_FLIGHT
     | Storing c body \<Rightarrow> sy_now y + max 0 d \<le> c + STALE_IN_FLIGHT
     | Releasing c a \<Rightarrow> sy_now y + max 0 d \<le> c + STALE_IN_FLIGHT
     | _ \<Rightarrow> True)"
| "prompt (Unserialised i) y \<longleftrightarrow> False"
| "prompt (Die i) y \<longleftrightarrow> (case phase_of y i of Storing c body \<Rightarrow> False | _ \<Rightarrow> True)"
| "prompt _ y \<longleftrightarrow> True"

fun timely :: "event list \<Rightarrow> system \<Rightarrow> bool" where
  "timely [] y \<longleftrightarrow> True"
| "timely (e # es) y \<longleftrightarrow> prompt e y \<and> timely es (happen e y)"

fun owning :: "phase \<Rightarrow> bool" where
  "owning (Running c) \<longleftrightarrow> True"
| "owning (Storing c body) \<longleftrightarrow> True"
| "owning (Releasing c a) \<longleftrightarrow> True"
| "owning _ \<longleftrightarrow> False"

definition owns :: "uuid \<Rightarrow> string \<Rightarrow> idem_request \<times> phase \<Rightarrow> bool" where
  "owns bid key p \<longleftrightarrow> ir_business_id (fst p) = bid \<and> ir_key (fst p) = key \<and> owning (snd p)"

definition effect_for :: "uuid \<Rightarrow> string \<Rightarrow> effect \<Rightarrow> bool" where
  "effect_for bid key e \<longleftrightarrow> ef_business_id e = bid \<and> ef_key e = key"

definition long_before :: "effect list \<Rightarrow> datetime \<Rightarrow> bool" where
  "long_before es t \<longleftrightarrow> (\<forall>e\<in>set es. ef_claimed_at e + RETENTION < t)"

definition spaced :: "effect list \<Rightarrow> bool" where
  "spaced es \<longleftrightarrow> sorted_wrt (\<lambda>e e'. ef_claimed_at e + RETENTION < ef_claimed_at e') es"

definition dated :: "datetime \<Rightarrow> idempotency_key \<Rightarrow> bool" where
  "dated t r \<longleftrightarrow> ik_created_at r \<le> t \<and> ik_expires_at r = ik_created_at r + RETENTION"

inductive key_ok :: "datetime \<Rightarrow> idempotency_key list \<Rightarrow> (idem_request \<times> phase) list \<Rightarrow> effect list \<Rightarrow> bool" for t where
  \<comment> \<open>what the table, the processes and the effects say about one key of a business\<close>
  Free: "spaced es \<Longrightarrow> long_before es t \<Longrightarrow> key_ok t [] [] es"
| Orphan: "spaced es \<Longrightarrow> long_before es t \<Longrightarrow> dated t r \<Longrightarrow> ik_response_status r = None \<Longrightarrow> key_ok t [r] [] es"
| Busy: "spaced es \<Longrightarrow> dated t r \<Longrightarrow> ik_response_status r = None \<Longrightarrow> t \<le> ik_created_at r + STALE_IN_FLIGHT \<Longrightarrow>
    ph = Running (ik_created_at r) \<or> (\<exists>a. ph = Releasing (ik_created_at r) a) \<Longrightarrow>
    ik_request_hash r = ir_fingerprint rq \<Longrightarrow> long_before es (ik_created_at r) \<Longrightarrow> key_ok t [r] [(rq, ph)] es"
| Storing: "spaced (es @ [e]) \<Longrightarrow> dated t r \<Longrightarrow> ik_response_status r = None \<Longrightarrow>
    t \<le> ik_created_at r + STALE_IN_FLIGHT \<Longrightarrow> ik_request_hash r = ir_fingerprint rq \<Longrightarrow>
    ef_claimed_at e = ik_created_at r \<Longrightarrow> ef_fingerprint e = ir_fingerprint rq \<Longrightarrow>
    key_ok t [r] [(rq, Storing (ik_created_at r) (ef_body e))] (es @ [e])"
| Stored: "spaced (es @ [e]) \<Longrightarrow> dated t r \<Longrightarrow> ik_response_status r = Some n \<Longrightarrow> ef_claimed_at e = ik_created_at r \<Longrightarrow>
    ef_fingerprint e = ik_request_hash r \<Longrightarrow> ef_body e = ik_response_body r \<Longrightarrow> key_ok t [r] [] (es @ [e])"

inductive_cases key_okE: "key_ok t rows owners es"

definition answered_ok :: "effect list \<Rightarrow> idem_request \<times> phase \<Rightarrow> bool" where
  \<comment> \<open>a body that was answered is that of a run of the same request under the same key\<close>
  "answered_ok es p \<longleftrightarrow> (\<forall>c a. snd p = Releasing c a \<longrightarrow> (\<exists>e. a = Failed e)) \<and> (\<forall>body. snd p = Answered (Handled body) \<or> (\<exists>n. snd p = Answered (Replay n body)) \<longrightarrow>
     (\<exists>e\<in>set es. effect_for (ir_business_id (fst p)) (ir_key (fst p)) e \<and>
        ef_fingerprint e = ir_fingerprint (fst p) \<and> ef_body e = body))"

definition idem_ok :: "system \<Rightarrow> bool" where
  "idem_ok y \<longleftrightarrow> (\<forall>bid key. key_ok (sy_now y) (filter (for_key bid key) (sy_rows y))
       (filter (owns bid key) (sy_procs y)) (filter (effect_for bid key) (sy_effects y))) \<and>
     (\<forall>p\<in>set (sy_procs y). answered_ok (sy_effects y) p)"

lemma key_ok_single: "key_ok t rows owners es \<Longrightarrow> length owners \<le> 1 \<and> length rows \<le> 1"
  by (cases rule: key_ok.cases) auto

lemma filter_update_nth:
  assumes "i < length xs"
  shows "filter P (xs[i := x]) = filter P (take i xs) @ (if P x then [x] else []) @ filter P (drop (Suc i) xs)"
  using assms by (simp add: upd_conv_take_nth_drop)

lemma filter_split_nth:
  assumes "i < length xs"
  shows "filter P xs = filter P (take i xs) @ (if P (xs ! i) then [xs ! i] else []) @ filter P (drop (Suc i) xs)"
  using assms by (subst id_take_nth_drop [OF assms]) simp

lemma filter_store_other:
  "i < length xs \<Longrightarrow> \<not> P (xs ! i) \<Longrightarrow> \<not> P x \<Longrightarrow> filter P (xs[i := x]) = filter P xs"
  using filter_update_nth [of i xs P x] filter_split_nth [of i xs P] by simp

lemma filter_update_new:
  "i < length xs \<Longrightarrow> filter P xs = [] \<Longrightarrow> filter P (xs[i := x]) = (if P x then [x] else [])"
  using filter_update_nth [of i xs P x] filter_split_nth [of i xs P] by auto

lemma filter_update_own:
  assumes "i < length xs" "P (xs ! i)" "length (filter P xs) \<le> 1"
  shows "filter P xs = [xs ! i] \<and> filter P (xs[i := x]) = (if P x then [x] else [])"
  using filter_update_nth [OF assms(1), of P x] filter_split_nth [OF assms(1), of P] assms(2,3) by auto

lemma stale_lt_retention: "STALE_IN_FLIGHT < RETENTION" "0 \<le> STALE_IN_FLIGHT"
  by (simp_all add: STALE_IN_FLIGHT_def RETENTION_def)

lemma spaced_snoc: "spaced (es @ [e]) \<longleftrightarrow> spaced es \<and> long_before es (ef_claimed_at e)"
  by (auto simp: spaced_def sorted_wrt_append long_before_def)

lemma long_before_mono: "long_before es t \<Longrightarrow> t \<le> t' \<Longrightarrow> long_before es t'"
  by (force simp: long_before_def)

lemma key_ok_purge:
  assumes "key_ok t rows owners es"
  shows "key_ok t (filter (\<lambda>r. \<not> ik_expires_at r < t) rows) owners es"
  using assms
proof (cases rule: key_ok.cases)
  case (Stored es' e r n)
  then have "ik_expires_at r < t \<Longrightarrow> long_before es t"
    using long_before_mono [of es' "ef_claimed_at e" t]
    by (auto simp: spaced_snoc dated_def long_before_def RETENTION_def)
  moreover have "spaced es" using Stored by simp
  ultimately show ?thesis using Stored key_ok.Free [of es t] key_ok.Stored [of es' e t r n] by auto
qed (use stale_lt_retention in \<open>auto simp: dated_def intro: key_ok.intros\<close>)

lemma key_ok_tick:
  assumes "key_ok t rows owners es" "\<forall>p\<in>set owners. case snd p of
       Running c \<Rightarrow> t + max 0 d \<le> c + STALE_IN_FLIGHT
     | Storing c body \<Rightarrow> t + max 0 d \<le> c + STALE_IN_FLIGHT
     | Releasing c a \<Rightarrow> t + max 0 d \<le> c + STALE_IN_FLIGHT
     | _ \<Rightarrow> True"
  shows "key_ok (t + max 0 d) rows owners es"
  using assms(1)
proof (cases rule: key_ok.cases)
  case Free
  then show ?thesis using long_before_mono [of es t "t + max 0 d"] by (auto intro: key_ok.Free)
next
  case (Orphan r)
  then show ?thesis using long_before_mono [of es t "t + max 0 d"] by (auto intro!: key_ok.Orphan simp: dated_def)
next
  case (Busy r ph rq)
  then show ?thesis using assms(2) by (auto intro!: key_ok.Busy simp: dated_def)
next
  case (Storing es' e r rq)
  then show ?thesis using assms(2) key_ok.Storing [of es' e "t + max 0 d" r rq] by (auto simp: dated_def)
next
  case (Stored es' e r n)
  then show ?thesis using key_ok.Stored [of es' e "t + max 0 d" r n] by (auto simp: dated_def)
qed

definition purged :: "datetime \<Rightarrow> idem_request \<Rightarrow> idempotency_key list \<Rightarrow> idempotency_key list" where
  "purged t rq rows = filter (\<lambda>r. \<not> (ik_business_id r = ir_business_id rq \<and> ik_expires_at r < t)) rows"

definition claimed_row :: "datetime \<Rightarrow> idem_request \<Rightarrow> idempotency_key" where
  "claimed_row t rq = \<lparr>ik_business_id = ir_business_id rq, ik_user_id = ir_user_id rq, ik_key = ir_key rq,
     ik_method = ir_method rq, ik_path = ir_path rq, ik_request_hash = ir_fingerprint rq,
     ik_response_status = None, ik_response_body = JNull, ik_created_at = t, ik_expires_at = t + RETENTION\<rparr>"

lemma claim_eq:
  "claim t rq rows = (case filter (for_key (ir_business_id rq) (ir_key rq)) (purged t rq rows) of
     [] \<Rightarrow> ((True, None), purged t rq rows @ [claimed_row t rq]) | r # _ \<Rightarrow> ((False, Some r), purged t rq rows))"
  unfolding claim_def purged_def claimed_row_def Let_def ..

lemma purged_ok:
  assumes "key_ok t (filter (for_key bid key) rows) owners es"
  shows "key_ok t (filter (for_key bid key) (purged t rq rows)) owners es"
proof -
  have "filter (for_key bid key) (purged t rq rows) =
      (if bid = ir_business_id rq then filter (\<lambda>r. \<not> ik_expires_at r < t) (filter (for_key bid key) rows)
       else filter (for_key bid key) rows)"
    unfolding purged_def filter_filter by (auto simp: for_key_def intro!: filter_cong)
  then show ?thesis using key_ok_purge [OF assms] assms by (cases "bid = ir_business_id rq") (simp_all only: if_True if_False simp_thms)
qed

lemma release_stale_rows:
  "filter (for_key bid key) (release_stale t bid key rows) =
   filter (\<lambda>r. \<not> (ik_response_status r = None \<and> ik_created_at r < t - STALE_IN_FLIGHT)) (filter (for_key bid key) rows)"
  unfolding release_stale_def filter_filter by (rule filter_cong) auto

lemma turn_rows:
  "turn t rq w rows = (ph, rows') \<Longrightarrow> rows' = purged t rq rows \<or> rows' = purged t rq rows @ [claimed_row t rq] \<or>
     rows' = release_stale t (ir_business_id rq) (ir_key rq) (purged t rq rows)"
  by (auto simp: turn_def claim_eq split: list.splits if_splits option.splits)

lemma turn_not_Releasing: "turn t rq w rows = (ph, rows') \<Longrightarrow> ph \<noteq> Releasing c a"
  by (auto simp: turn_def claim_eq split: list.splits if_splits option.splits)

lemma turn_other_keys:
  assumes "turn t rq w rows = (ph, rows')" "key_ok t (filter (for_key bid key) rows) owners es"
    "bid \<noteq> ir_business_id rq \<or> key \<noteq> ir_key rq"
  shows "key_ok t (filter (for_key bid key) rows') owners es"
proof -
  have "\<not> for_key bid key (claimed_row t rq)" using assms(3) by (auto simp: for_key_def claimed_row_def)
  moreover have "filter (for_key bid key) (release_stale t (ir_business_id rq) (ir_key rq) xs) = filter (for_key bid key) xs" for xs
    using assms(3) unfolding release_stale_def filter_filter by (auto simp: for_key_def intro!: filter_cong)
  ultimately have "filter (for_key bid key) rows' = filter (for_key bid key) (purged t rq rows)"
    using turn_rows [OF assms(1)] by auto
  then show ?thesis using purged_ok [OF assms(2), of rq] by simp
qed

lemma turn_own_key:
  assumes "turn t rq w rows = (ph, rows')"
    and ok: "key_ok t (filter (for_key (ir_business_id rq) (ir_key rq)) rows) owners es"
  shows "key_ok t (filter (for_key (ir_business_id rq) (ir_key rq)) rows')
      (if owning ph then [(rq, ph)] else owners) es \<and> (owning ph \<longrightarrow> owners = []) \<and>
    (\<forall>body. ph \<noteq> Answered (Handled body)) \<and>
    (\<forall>n body. ph = Answered (Replay n body) \<longrightarrow> (\<exists>e\<in>set es. ef_fingerprint e = ir_fingerprint rq \<and> ef_body e = body))"
proof -
  let ?F = "filter (for_key (ir_business_id rq) (ir_key rq))"
  have P: "key_ok t (?F (purged t rq rows)) owners es" by (rule purged_ok [OF ok])
  show ?thesis
  proof (cases "?F (purged t rq rows)")
    case Nil
    then have ph: "ph = Running t" "rows' = purged t rq rows @ [claimed_row t rq]"
      using assms(1) by (simp_all add: turn_def claim_eq)
    have free: "spaced es" "long_before es t" "owners = []" using P unfolding Nil by (auto elim: key_ok.cases)
    have "?F rows' = [claimed_row t rq]" using Nil unfolding ph(2) by (simp add: for_key_def claimed_row_def)
    moreover have "key_ok t [claimed_row t rq] [(rq, Running t)] es"
      using free(1,2) stale_lt_retention(2)
        key_ok.Busy [of es t "claimed_row t rq" "Running t" rq] by (simp add: dated_def claimed_row_def)
    ultimately show ?thesis using free(3) ph by simp
  next
    case (Cons r rs)
    then have one: "?F (purged t rq rows) = [r]" using key_ok_single [OF P] by simp
    note P' = P [unfolded one]
    show ?thesis
    proof (cases "ik_request_hash r = ir_fingerprint rq \<and> ik_response_status r = None \<and> STALE_IN_FLIGHT < t - ik_created_at r")
      case True
      then have ph: "ph = Claiming w" "rows' = release_stale t (ir_business_id rq) (ir_key rq) (purged t rq rows)"
        using assms(1) one by (simp_all add: turn_def claim_eq)
      have free: "spaced es" "long_before es t" "owners = []"
        using P' True by (auto elim!: key_okE)
      have "?F rows' = []"
        using True unfolding ph(2) release_stale_rows one by auto
      then show ?thesis using free ph key_ok.Free [OF free(1,2)] by simp
    next
      case False
      then have rows': "rows' = purged t rq rows" and ph: "\<not> owning ph" "\<And>body. ph \<noteq> Answered (Handled body)"
        "\<And>n body. ph = Answered (Replay n body) \<Longrightarrow> ik_request_hash r = ir_fingerprint rq \<and>
           ik_response_status r = Some n \<and> ik_response_body r = body"
        using assms(1) one by (auto simp: turn_def claim_eq conflict_def split: if_splits option.splits)
      have "\<exists>e\<in>set es. ef_fingerprint e = ir_fingerprint rq \<and> ef_body e = body" if "ph = Answered (Replay n body)" for n body
        using P' ph(3) [OF that] by (auto elim!: key_okE)
      then show ?thesis using ph(1,2) P rows' by simp
    qed
  qed
qed

lemma owning_Claiming [simp]: "\<not> owns bid key (rq, Claiming w)" "\<not> owns bid key (rq, Answered a)" "\<not> owns bid key (rq, Died)"
  by (simp_all add: owns_def)

lemma set_update_answered:
  assumes "\<forall>p\<in>set ps. answered_ok es p" "answered_ok es' x" "set es \<subseteq> set es'"
  shows "\<forall>p\<in>set (ps[i := x]). answered_ok es' p"
proof -
  have "answered_ok es' p" if "p \<in> set ps" for p
    using bspec [OF assms(1) that] assms(3) unfolding answered_ok_def by blast
  then show ?thesis using assms(2) set_update_subset_insert [of ps i x] by blast
qed

lemma happen_turn:
  assumes "idem_ok y" "i < length (sy_procs y)" "sy_procs y ! i = (rq, Claiming w)"
    "turn (sy_now y) rq w (sy_rows y) = (ph, rows')"
  shows "idem_ok (set_phase i ph (y\<lparr>sy_rows := rows'\<rparr>))"
proof -
  let ?x = "(rq, ph)"
  have ok: "key_ok (sy_now y) (filter (for_key b k) (sy_rows y)) (filter (owns b k) (sy_procs y))
      (filter (effect_for b k) (sy_effects y))" for b k
    using assms(1) by (simp add: idem_ok_def)
  let ?b = "ir_business_id rq" and ?k = "ir_key rq"
  have own: "key_ok (sy_now y) (filter (for_key ?b ?k) rows')
      (if owning ph then [?x] else filter (owns ?b ?k) (sy_procs y)) (filter (effect_for ?b ?k) (sy_effects y))"
    and none: "owning ph \<Longrightarrow> filter (owns ?b ?k) (sy_procs y) = []"
    and answers: "\<And>body. ph \<noteq> Answered (Handled body)"
      "\<And>n body. ph = Answered (Replay n body) \<Longrightarrow> (\<exists>e\<in>set (filter (effect_for ?b ?k) (sy_effects y)).
         ef_fingerprint e = ir_fingerprint rq \<and> ef_body e = body)"
    using turn_own_key [OF assms(4) ok] by blast+
  have old: "\<not> owns b k (sy_procs y ! i)" for b k by (simp add: assms(3))
  have "key_ok (sy_now y) (filter (for_key b k) rows') (filter (owns b k) ((sy_procs y)[i := ?x]))
      (filter (effect_for b k) (sy_effects y))" for b k
  proof (cases "b = ?b \<and> k = ?k")
    case True
    then have bk: "b = ?b" "k = ?k" by simp_all
    show ?thesis
    proof (cases "owning ph")
      case o: True
      show ?thesis
        using own o filter_update_new [OF assms(2) none [OF o], of ?x] unfolding bk by (simp add: owns_def)
    next
      case False
      have "filter (owns ?b ?k) ((sy_procs y)[i := ?x]) = filter (owns ?b ?k) (sy_procs y)"
        by (intro filter_store_other assms(2) old) (simp add: owns_def False)
      then show ?thesis using own False unfolding bk by simp
    qed
  next
    case False
    have "filter (owns b k) ((sy_procs y)[i := ?x]) = filter (owns b k) (sy_procs y)"
      by (intro filter_store_other assms(2) old) (use False in \<open>auto simp: owns_def\<close>)
    moreover have "b \<noteq> ?b \<or> k \<noteq> ?k" using False by blast
    ultimately show ?thesis using turn_other_keys [OF assms(4) ok] by simp
  qed
  moreover have "answered_ok (sy_effects y) ?x" using answers turn_not_Releasing [OF assms(4)] by (fastforce simp: answered_ok_def)
  then have "\<forall>p\<in>set ((sy_procs y)[i := ?x]). answered_ok (sy_effects y) p"
    using set_update_answered [OF _ _ order_refl] assms(1) unfolding idem_ok_def by blast
  ultimately show ?thesis using assms(3) by (simp add: idem_ok_def set_phase_def)
qed

lemma owner_step:
  \<comment> \<open>a process that owns its key does something about that key only\<close>
  assumes "idem_ok y" "i < length (sy_procs y)" "sy_procs y ! i = (rq, ph0)" "owning ph0"
    and other: "\<And>b k. b \<noteq> ir_business_id rq \<or> k \<noteq> ir_key rq \<Longrightarrow>
        filter (for_key b k) rows' = filter (for_key b k) (sy_rows y) \<and>
        filter (effect_for b k) es' = filter (effect_for b k) (sy_effects y)"
    and own: "key_ok (sy_now y) (filter (for_key (ir_business_id rq) (ir_key rq)) (sy_rows y)) [(rq, ph0)]
          (filter (effect_for (ir_business_id rq) (ir_key rq)) (sy_effects y)) \<Longrightarrow>
        key_ok (sy_now y) (filter (for_key (ir_business_id rq) (ir_key rq)) rows') (if owning ph then [(rq, ph)] else [])
          (filter (effect_for (ir_business_id rq) (ir_key rq)) es')"
    and es: "set (sy_effects y) \<subseteq> set es'"
    and answer: "key_ok (sy_now y) (filter (for_key (ir_business_id rq) (ir_key rq)) (sy_rows y)) [(rq, ph0)]
          (filter (effect_for (ir_business_id rq) (ir_key rq)) (sy_effects y)) \<Longrightarrow> answered_ok es' (rq, ph)"
  shows "idem_ok (set_phase i ph (y\<lparr>sy_rows := rows', sy_effects := es'\<rparr>))"
proof -
  let ?b = "ir_business_id rq" and ?k = "ir_key rq" and ?x = "(rq, ph)"
  have ok: "key_ok (sy_now y) (filter (for_key b k) (sy_rows y)) (filter (owns b k) (sy_procs y))
      (filter (effect_for b k) (sy_effects y))" for b k
    using assms(1) by (simp add: idem_ok_def)
  have mine: "owns ?b ?k (sy_procs y ! i)" using assms(3,4) by (simp add: owns_def)
  have len: "length (filter (owns ?b ?k) (sy_procs y)) \<le> 1" using key_ok_single [OF ok] by blast
  note upd = filter_update_own [of i "sy_procs y" "owns ?b ?k", OF assms(2) mine len, of ?x]
  have now: "key_ok (sy_now y) (filter (for_key ?b ?k) (sy_rows y)) [(rq, ph0)] (filter (effect_for ?b ?k) (sy_effects y))"
    using ok [of ?b ?k] upd assms(3) by simp
  have "key_ok (sy_now y) (filter (for_key b k) rows') (filter (owns b k) ((sy_procs y)[i := ?x]))
      (filter (effect_for b k) es')" for b k
  proof (cases "b = ?b \<and> k = ?k")
    case True
    then have bk: "b = ?b" "k = ?k" by simp_all
    show ?thesis using own [OF now] upd unfolding bk by (simp add: owns_def)
  next
    case False
    have "filter (owns b k) ((sy_procs y)[i := ?x]) = filter (owns b k) (sy_procs y)"
      by (intro filter_store_other assms(2)) (use False assms(3) in \<open>auto simp: owns_def\<close>)
    moreover have "b \<noteq> ?b \<or> k \<noteq> ?k" using False by blast
    ultimately show ?thesis using ok [of b k] other by simp
  qed
  moreover have "\<forall>p\<in>set ((sy_procs y)[i := ?x]). answered_ok es' p"
    by (rule set_update_answered [OF _ answer [OF now] es]) (use assms(1) in \<open>unfold idem_ok_def, blast\<close>)
  ultimately show ?thesis using assms(3) by (simp add: idem_ok_def set_phase_def)
qed

lemma store_rows:
  "filter (for_key b k) (store bid key status body rows) =
   (if b = bid \<and> k = key then map (\<lambda>r. r\<lparr>ik_response_status := Some status, ik_response_body := body\<rparr>)
      (filter (for_key b k) rows) else filter (for_key b k) rows)"
  unfolding store_def for_key_def [abs_def] by (induction rows) auto

lemma release_rows:
  "filter (for_key b k) (release bid key rows) =
   (if b = bid \<and> k = key then filter (\<lambda>r. ik_response_status r \<noteq> None) (filter (for_key b k) rows)
    else filter (for_key b k) rows)"
  unfolding release_def filter_filter for_key_def [abs_def] by (auto intro!: filter_cong)

lemma phase_ofD: "phase_of y i = ph \<Longrightarrow> owning ph \<or> (\<exists>w. ph = Claiming w) \<Longrightarrow>
    i < length (sy_procs y) \<and> sy_procs y ! i = (fst (sy_procs y ! i), ph)"
  by (auto simp: phase_of_def prod_eq_iff split: if_splits)

lemma happen_Storing:
  assumes "idem_ok y" "i < length (sy_procs y)" "sy_procs y ! i = (rq, Storing c body)"
  shows "idem_ok (set_phase i (Answered (Handled body)) (y\<lparr>sy_rows :=
     store (ir_business_id rq) (ir_key rq) (ir_success_status rq) body (sy_rows y)\<rparr>))"
proof -
  let ?b = "ir_business_id rq" and ?k = "ir_key rq"
  have "idem_ok (set_phase i (Answered (Handled body)) (y\<lparr>sy_rows := store ?b ?k (ir_success_status rq) body (sy_rows y),
      sy_effects := sy_effects y\<rparr>))"
  proof (rule owner_step [OF assms])
    assume K: "key_ok (sy_now y) (filter (for_key ?b ?k) (sy_rows y)) [(rq, Storing c body)] (filter (effect_for ?b ?k) (sy_effects y))"
    then obtain es e r where S: "filter (for_key ?b ?k) (sy_rows y) = [r]" "filter (effect_for ?b ?k) (sy_effects y) = es @ [e]"
      "spaced (es @ [e])" "dated (sy_now y) r" "ef_claimed_at e = ik_created_at r" "ef_body e = body"
      "ik_request_hash r = ir_fingerprint rq" "ef_fingerprint e = ir_fingerprint rq"
      by (cases rule: key_ok.cases) auto
    let ?r = "r\<lparr>ik_response_status := Some (ir_success_status rq), ik_response_body := body\<rparr>"
    have "key_ok (sy_now y) [?r] [] (es @ [e])"
      by (rule key_ok.Stored [OF S(3)]) (use S in \<open>auto simp: dated_def\<close>)
    then show "key_ok (sy_now y) (filter (for_key ?b ?k) (store ?b ?k (ir_success_status rq) body (sy_rows y)))
        (if owning (Answered (Handled body)) then [(rq, Answered (Handled body))] else []) (filter (effect_for ?b ?k) (sy_effects y))"
      by (simp add: store_rows S(1,2))
    have "e \<in> set (filter (effect_for ?b ?k) (sy_effects y))" by (simp add: S(2))
    then show "answered_ok (sy_effects y) (rq, Answered (Handled body))"
      using S(6,8) by (auto simp: answered_ok_def)
  qed (auto simp: store_rows)
  then show ?thesis by simp
qed

lemma happen_Releasing:
  assumes "idem_ok y" "i < length (sy_procs y)" "sy_procs y ! i = (rq, Releasing c (Failed e))"
  shows "idem_ok (set_phase i (Answered (Failed e)) (y\<lparr>sy_rows := release (ir_business_id rq) (ir_key rq) (sy_rows y)\<rparr>))"
proof -
  let ?b = "ir_business_id rq" and ?k = "ir_key rq"
  have "idem_ok (set_phase i (Answered (Failed e)) (y\<lparr>sy_rows := release ?b ?k (sy_rows y), sy_effects := sy_effects y\<rparr>))"
  proof (rule owner_step [OF assms])
    assume K: "key_ok (sy_now y) (filter (for_key ?b ?k) (sy_rows y)) [(rq, Releasing c (Failed e))] (filter (effect_for ?b ?k) (sy_effects y))"
    then obtain r where S: "filter (for_key ?b ?k) (sy_rows y) = [r]" "spaced (filter (effect_for ?b ?k) (sy_effects y))"
      "dated (sy_now y) r" "ik_response_status r = None" "long_before (filter (effect_for ?b ?k) (sy_effects y)) (ik_created_at r)"
      by (cases rule: key_ok.cases) auto
    have "long_before (filter (effect_for ?b ?k) (sy_effects y)) (sy_now y)"
      by (rule long_before_mono [OF S(5)]) (use S(3) in \<open>simp add: dated_def\<close>)
    then show "key_ok (sy_now y) (filter (for_key ?b ?k) (release ?b ?k (sy_rows y)))
        (if owning (Answered (Failed e)) then [(rq, Answered (Failed e))] else []) (filter (effect_for ?b ?k) (sy_effects y))"
      using S(1,2,4) by (simp add: release_rows key_ok.Free)
  qed (auto simp: release_rows answered_ok_def)
  then show ?thesis by simp
qed

lemma happen_Running:
  assumes "idem_ok y" "i < length (sy_procs y)" "sy_procs y ! i = (rq, Running c)"
  shows "idem_ok (set_phase i (Releasing c (Failed e)) y)" "idem_ok (set_phase i Died y)"
    "idem_ok (set_phase i (Storing c body) (y\<lparr>sy_effects := sy_effects y @
       [\<lparr>ef_business_id = ir_business_id rq, ef_key = ir_key rq, ef_fingerprint = ir_fingerprint rq,
         ef_claimed_at = c, ef_body = body\<rparr>]\<rparr>))"
proof -
  let ?b = "ir_business_id rq" and ?k = "ir_key rq"
  let ?es = "filter (effect_for ?b ?k) (sy_effects y)"
  let ?e = "\<lparr>ef_business_id = ?b, ef_key = ?k, ef_fingerprint = ir_fingerprint rq, ef_claimed_at = c, ef_body = body\<rparr>"
  have run: "\<exists>r. filter (for_key ?b ?k) (sy_rows y) = [r] \<and> spaced ?es \<and> dated (sy_now y) r \<and> ik_response_status r = None \<and>
      sy_now y \<le> ik_created_at r + STALE_IN_FLIGHT \<and> c = ik_created_at r \<and> ik_request_hash r = ir_fingerprint rq \<and>
      long_before ?es c"
    if "key_ok (sy_now y) (filter (for_key ?b ?k) (sy_rows y)) [(rq, Running c)] ?es"
    using that by (cases rule: key_ok.cases) auto
  have "idem_ok (set_phase i (Releasing c (Failed e)) (y\<lparr>sy_rows := sy_rows y, sy_effects := sy_effects y\<rparr>))"
    by (rule owner_step [OF assms]) (auto dest!: run intro!: key_ok.Busy simp: answered_ok_def)
  then show "idem_ok (set_phase i (Releasing c (Failed e)) y)" by simp
  have "idem_ok (set_phase i Died (y\<lparr>sy_rows := sy_rows y, sy_effects := sy_effects y\<rparr>))"
    by (rule owner_step [OF assms])
      (auto dest!: run intro!: key_ok.Orphan simp: answered_ok_def dated_def elim: long_before_mono)
  then show "idem_ok (set_phase i Died y)" by simp
  have "idem_ok (set_phase i (Storing c body) (y\<lparr>sy_rows := sy_rows y, sy_effects := sy_effects y @ [?e]\<rparr>))"
  proof (rule owner_step [OF assms])
    assume "key_ok (sy_now y) (filter (for_key ?b ?k) (sy_rows y)) [(rq, Running c)] ?es"
    from run [OF this] obtain r where S: "filter (for_key ?b ?k) (sy_rows y) = [r]" "spaced ?es" "dated (sy_now y) r"
      "ik_response_status r = None" "sy_now y \<le> ik_created_at r + STALE_IN_FLIGHT" "c = ik_created_at r"
      "ik_request_hash r = ir_fingerprint rq" "long_before ?es c" by blast
    have "key_ok (sy_now y) [r] [(rq, Storing (ik_created_at r) (ef_body ?e))] (?es @ [?e])"
      by (rule key_ok.Storing) (use S in \<open>simp_all add: spaced_snoc\<close>)
    then show "key_ok (sy_now y) (filter (for_key ?b ?k) (sy_rows y))
        (if owning (Storing c body) then [(rq, Storing c body)] else []) (filter (effect_for ?b ?k) (sy_effects y @ [?e]))"
      using S(1,6) by (simp add: effect_for_def)
  qed (auto simp: effect_for_def answered_ok_def)
  then show "idem_ok (set_phase i (Storing c body) (y\<lparr>sy_effects := sy_effects y @ [?e]\<rparr>))" by simp
qed

lemma happen_Act:
  assumes "idem_ok y" shows "idem_ok (happen (Act i) y)"
proof (cases "i < length (sy_procs y)")
  case i: True
  obtain rq ph where p: "sy_procs y ! i = (rq, ph)" by fastforce
  obtain ph' rows' where b: "bookkeeping (sy_now y) rq ph (sy_rows y) = (ph', rows')" by fastforce
  have y': "happen (Act i) y = set_phase i ph' (y\<lparr>sy_rows := rows'\<rparr>)"
    using i p b by (simp add: phase_of_def)
  have idle: "set_phase i ph (y\<lparr>sy_rows := sy_rows y\<rparr>) = y"
    using list_update_id [of "sy_procs y" i] by (simp add: set_phase_def p)
  show ?thesis
  proof (cases ph)
    case (Claiming w)
    have t: "turn (sy_now y) rq w (sy_rows y) = (ph', rows')" using b Claiming by (simp add: bookkeeping_def)
    show ?thesis unfolding y' by (rule happen_turn [OF assms i _ t]) (use p Claiming in simp)
  next
    case (Storing c body)
    have "ph' = Answered (Handled body)"
      "rows' = store (ir_business_id rq) (ir_key rq) (ir_success_status rq) body (sy_rows y)"
      using b Storing by (auto simp: bookkeeping_def)
    then show ?thesis unfolding y' using happen_Storing [OF assms i p [unfolded Storing]] by simp
  next
    case (Releasing c a)
    have "(rq, ph) \<in> set (sy_procs y)" using i p by (metis nth_mem)
    then have "answered_ok (sy_effects y) (rq, ph)" using assms unfolding idem_ok_def by blast
    then obtain e where a: "a = Failed e" using Releasing by (auto simp: answered_ok_def)
    have "ph' = Answered (Failed e)" "rows' = release (ir_business_id rq) (ir_key rq) (sy_rows y)"
      using b Releasing a by (auto simp: bookkeeping_def)
    then show ?thesis unfolding y' using happen_Releasing [OF assms i p [unfolded Releasing a]] by simp
  next
    case (Running c)
    then have "ph' = ph" "rows' = sy_rows y" using b by (auto simp: bookkeeping_def)
    then show ?thesis unfolding y' using idle assms by simp
  next
    case (Answered a)
    then have "ph' = ph" "rows' = sy_rows y" using b by (auto simp: bookkeeping_def)
    then show ?thesis unfolding y' using idle assms by simp
  next
    case Died
    then have "ph' = ph" "rows' = sy_rows y" using b by (auto simp: bookkeeping_def)
    then show ?thesis unfolding y' using idle assms by simp
  qed
qed (use assms in simp)

lemma happen_ok:
  assumes "idem_ok y" "prompt e y" shows "idem_ok (happen e y)"
proof (cases e)
  case (Tick d)
  have "key_ok (sy_now y + max 0 d) (filter (for_key b k) (sy_rows y)) (filter (owns b k) (sy_procs y))
      (filter (effect_for b k) (sy_effects y))" for b k
    by (rule key_ok_tick) (use assms Tick in \<open>auto simp: idem_ok_def\<close>)
  then show ?thesis using assms Tick by (simp add: idem_ok_def)
next
  case (Arrive rq)
  have "answered_ok es (rq, Claiming 0)" for es by (simp add: answered_ok_def)
  then show ?thesis using assms Arrive by (auto simp: idem_ok_def)
next
  case (Act i) then show ?thesis using happen_Act [OF assms(1)] by simp
next
  case (Returns i body)
  show ?thesis
  proof (cases "\<exists>c. phase_of y i = Running c")
    case True
    then obtain c where c: "phase_of y i = Running c" ..
    note p = phase_ofD [OF c]
    show ?thesis using happen_Running(3) [OF assms(1), of i "fst (sy_procs y ! i)" c body] p c Returns
      by (simp add: Let_def)
  qed (use assms Returns in \<open>auto split: phase.splits\<close>)
next
  case (Raises i e')
  show ?thesis
  proof (cases "\<exists>c. phase_of y i = Running c")
    case True
    then obtain c where c: "phase_of y i = Running c" ..
    show ?thesis using happen_Running(1) [OF assms(1), of i "fst (sy_procs y ! i)" c e'] phase_ofD [OF c] c Raises by simp
  qed (use assms Raises in \<open>auto split: phase.splits\<close>)
next
  case (Die i)
  show ?thesis
  proof (cases "\<exists>c. phase_of y i = Running c")
    case True
    then obtain c where c: "phase_of y i = Running c" ..
    show ?thesis using happen_Running(2) [OF assms(1), of i "fst (sy_procs y ! i)" c] phase_ofD [OF c] c Die by simp
  qed (use assms Die in \<open>auto split: phase.splits\<close>)
qed (use assms in simp)

lemma timely_ok: "idem_ok y \<Longrightarrow> timely evs y \<Longrightarrow> idem_ok (fold happen evs y)"
  by (induction evs arbitrary: y) (simp_all add: happen_ok)

lemma start_ok: "idem_ok (start t)"
  by (auto simp: idem_ok_def start_def spaced_def long_before_def intro: key_ok.Free)

lemma key_ok_spaced: "key_ok t rows owners es \<Longrightarrow> spaced es"
  by (cases rule: key_ok.cases) auto


definition sample_payment_request :: idem_request where
  "sample_payment_request = \<lparr>ir_business_id = 1, ir_user_id = 9, ir_key = ''k'', ir_method = ''POST'',
     ir_path = ''/sales'', ir_fingerprint = ''f'', ir_success_status = 201\<rparr>"

definition two_requests :: "event list" where
  \<comment> \<open>the second arrives while the handler of the first runs, waits and gets its answer\<close>
  "two_requests = [Arrive sample_payment_request, Act 0, Arrive sample_payment_request, Act 1, Tick 200000,
     Returns 0 (JNum 7), Act 1, Tick 200000, Act 0, Act 1]"


definition slow_handler :: "event list" where
  \<comment> \<open>the handler of the first request needs a little more than two minutes\<close>
  "slow_handler = [Arrive sample_payment_request, Act 0, Tick 120000001, Arrive sample_payment_request, Act 1, Act 1,
     Returns 1 (JNum 8), Act 1, Returns 0 (JNum 7), Act 0]"

lemma slow_handler_runs_twice:
  "map ef_body (sy_effects (fold happen slow_handler (start 0))) = [JNum 8, JNum 7]"
  by code_simp

definition unserialised_answer :: "event list" where
  "unserialised_answer = [Arrive sample_payment_request, Act 0, Returns 0 (JNum 7), Unserialised 0, Act 0,
     Arrive sample_payment_request, Act 1, Returns 1 (JNum 8)]"

lemma unserialised_answer_runs_twice:
  "map ef_body (sy_effects (fold happen unserialised_answer (start 0))) = [JNum 7, JNum 8]"
  by code_simp

end
