(* ===== verification/Spec2Isabelle.thy ===== *)
theory Spec2Isabelle
  imports Checkout Purchasing Journal Manufacturing Replay Signout Idempotency
begin

text \<open>
  A model of the point-of-sale back end in \<open>src/app\<close>: a FastAPI service over one PostgreSQL database that
  several businesses share. A request is handled by one function of \<open>app/services\<close> in one transaction;
  this development translates those functions, the tables they work on and the code that decides whether
  a request may reach them.

  \<^bold>\<open>State.\<close> The database is the record \<open>db\<close> of \<open>Models\<close>: one field per table, a list of rows in
  insertion order, and the supply of fresh ids. A row is a record with the columns of its class in
  \<open>app/models/*.py\<close> (\<open>register_shift\<close> is \<open>RegisterShift\<close>, and so on); a read through a relationship is a
  lookup in the other table. The enumerations of \<open>app/models/enums.py\<close> are the datatypes of \<open>Enums\<close>
  with their values as text. A service function is a HOL function from the clock and random ids of the
  request (\<open>ctx\<close>), its arguments and the database to \<open>http_error + (result \<times> db)\<close>: every
  \<open>raise HTTPException\<close> is an \<open>Inl\<close> with the status, the message and its arguments, and an \<open>Inl\<close> leaves the
  database as it was, which is what the rollback of the transaction does. A commit of the middle of a
  request (failed logins, revoked sessions) is written out as a state returned with the error.

  \<^bold>\<open>Parts, in the order of the imports.\<close>
  \<^item> \<open>Prelude\<close>: decimals as rationals with Python's roundings (\<open>quantize_up\<close>, \<open>quantize_even\<close>, the 28 digit
    context of a division), errors, the loops and lookups of the handlers, and the locale \<open>quantizer\<close> of
    roundings. \<open>Ledger\<close> and \<open>Machines\<close>: the locales of append-only ledgers and of rows that carry a
    status, interpreted by stock movements, customer and supplier accounts, the cash drawer, goods in
    transit, tables and kitchen lines. \<open>Json\<close>: the part of \<open>json.dumps\<close> and \<open>json.loads\<close> the notes of a
    line go through, with \<open>loads (dumps x) = x\<close>.
  \<^item> \<open>Pricing\<close>, \<open>Discounts\<close>, \<open>Settlement\<close> (\<open>pricing_engine.py\<close>, \<open>discount_engine.py\<close>,
    \<open>discount_service.py\<close>, \<open>settlement.py\<close>): the arithmetic of a sale and of its payments.
  \<^item> \<open>Stock\<close>, \<open>Fifo\<close>, \<open>Reconcile\<close> (\<open>stock_service.py\<close>, \<open>fifo_service.py\<close>): movements and balances, cost
    layers, and the invariant \<open>stock_ok\<close> that ties the two. \<open>Notifications\<close> (\<open>notification_service.py\<close>,
    \<open>audit_helper.py\<close>): the log and audit rows the handlers write.
  \<^item> \<open>Registers\<close>, \<open>Customers\<close>, \<open>Catalog\<close>, \<open>Tables\<close> (\<open>register_service.py\<close>, \<open>customer_service.py\<close>,
    \<open>supplier_ledger_service.py\<close>, \<open>tax_service.py\<close>, \<open>price_service.py\<close>, \<open>restaurant_table_service.py\<close>,
    \<open>feature_flags.py\<close>): shifts and the drawer, accounts, taxes and price lists, dining tables.
  \<^item> \<open>Sales\<close>, \<open>Voids\<close>, \<open>Returns\<close> (\<open>sale_service.py\<close>, \<open>return_service.py\<close>): a sale from pricing to its
    movements, payments and account entries, undoing it, and returns. They call every part above.
  \<^item> \<open>Kitchen\<close>, \<open>Tabs\<close>, \<open>Checkout\<close> (\<open>restaurant_modifier_service.py\<close>, \<open>restaurant_kot_service.py\<close>,
    \<open>restaurant_tab_service.py\<close>): modifiers, kitchen tickets, and a dine-in tab up to its payment.
  \<^item> \<open>Documents\<close>, \<open>Purchasing\<close>, \<open>Manufacturing\<close>, \<open>Expenses\<close> (\<open>transfer_service.py\<close>,
    \<open>adjustment_service.py\<close>, \<open>waste_service.py\<close>, \<open>supplier_service.py\<close>, \<open>purchase_service.py\<close>,
    \<open>manufacturing_bom_service.py\<close>, \<open>manufacturing_production_service.py\<close>, \<open>expense_service.py\<close>): the other
    documents that move goods and money.
  \<^item> \<open>Accounts\<close>, \<open>Journal\<close> (\<open>accounting_coa_service.py\<close>, \<open>accounting_coa_seed_service.py\<close>,
    \<open>accounting_journal_service.py\<close>): the chart of accounts and the general journal.
  \<^item> \<open>Access\<close>, \<open>Sessions\<close>, \<open>Rotation\<close> (\<open>subscription.py\<close>, \<open>permission_cache.py\<close>, \<open>dependencies.py\<close>,
    \<open>token_service.py\<close>, \<open>auth_service.py\<close>, \<open>login_service.py\<close>): the gate in front of the handlers, logins
    and the rotation of refresh tokens.
  \<^item> \<open>Staff\<close>, \<open>Onboarding\<close>, \<open>Custody\<close>, \<open>Signout\<close> (\<open>role_permission_seed.py\<close>, \<open>role_service.py\<close>,
    \<open>user_service.py\<close>, \<open>registration_service.py\<close>, \<open>onboarding_presets.py\<close>): roles, users and the
    registration of a business; that a business keeps an owner, and that a changed credential ends the
    sessions of \<open>Sessions\<close>.
  \<^item> \<open>SyncPush\<close>, \<open>Replay\<close> (\<open>sync_push.py\<close>, \<open>schemas/sync.py\<close>): the operations of an offline till, which
    call sales, voids, returns, shifts, customers and expenses, with their stored outcomes.
  \<^item> \<open>Idempotency\<close> (\<open>core/idempotency.py\<close>): the one part whose correctness is about interleaving; it is a
    transition system of requests.

  \<^bold>\<open>What is shown.\<close> Functional properties say what each of the large handlers does to every table it
  touches (sale, void, cancel, return, tab payment, receipt, transfer, adjustment, production, expense,
  settlement, FIFO consumption) and what it refuses. Invariants hold along every run of
  the operations: stock balances are the sums of their layers and uncovered movements; a user and a
  register have one open shift; no sale line is returned beyond its quantity; a kitchen ticket shows its
  slowest line; a session has one live refresh token; a business has an owner. Safety properties cover overselling, credit limits,
  document numbers, access, reused tokens, changed credentials and repeated requests. The journal refines a book of balanced
  entries to which postings are only appended; the balance of a branch computed in bulk agrees with the one
  computed per item; walks over the account tree and the dependency loop of a push end; notes and
  prices come back as they were stored.

  \<^bold>\<open>Fuel.\<close> The JSON parser has fuel \<open>2 * length + 1\<close>, the walk over account children as much as there
  are accounts and the batch loop of a push as much as there are operations; each is proved to be
  enough. \<open>add_months\<close> and the parent walk, whose loops have no bound of their own, are
  \<open>partial_function (option)\<close> or recursive on the table and are proved to return.

  \<^bold>\<open>Conventions.\<close> Decimals are rationals: sums and products are exact, divisions and \<open>quantize\<close> round as
  Python does; the 28 digit context of sums and the widths of the columns (an overflow is a database
  error) are not modelled. Text is a list of Latin-1 characters; a dash outside of it in a message is
  written as a hyphen. A request reads one clock. Requests are serialised, so row locks, advisory locks
  and deadlock retries do nothing, except in \<open>Idempotency\<close>. Uniqueness constraints count deleted rows, as
  they do in the database. The read after a commit that only renders the answer is left out. The JWT
  and password libraries, SHA-256, pydantic's parsing of a body and the text of a uuid are parameters
  (\<open>codec\<close> arguments) and the properties that rest on them say which law of the library they use.

  \<^bold>\<open>Not modelled.\<close> Routers, request and response schemas (but for the validators the services rely on),
  middleware, configuration, rate limiting and captcha: glue around the services or third-party code.
  Analytics, search, exports, the audit queries, invoices and the periodic scans: reports that only read.
  The pull side of synchronisation, which is assembled from SQL text. Migrations, scripts and seed data.
  Administration of the platform, licences, products, categories, units, brands, branches and settings: create, read, update and delete services over the tables above.
\<close>

end
